(* ===== verification/Prelude.thy ===== *)
theory Prelude
  imports Main "HOL-Library.Word"
begin

text \<open>
  The prelude of the development: the types that stand for Go's built-in types, the
  monad of Go functions that read and write shared state and return an error, loops over
  slices with an early return, and the generic lemmas the components share.

  A Go function that takes a context, works on shared state and returns \<open>(T, error)\<close> is a
  function from the state to a sum (\<open>Inl\<close> the error, \<open>Inr\<close> the value) together with the
  state it leaves. The state is returned on both paths: what a statement wrote before a
  later one failed is still there until a surrounding database transaction rolls it back.

  Instants are integers, nanoseconds since the zero \<open>time.Time\<close> (January 1 of year 1,
  UTC): \<open>IsZero\<close> is equality with 0, \<open>After\<close>, \<open>Before\<close> and \<open>Equal\<close> are the order, and
  \<open>Truncate\<close> rounds down to a multiple of the duration since the zero time, as in the
  standard library. A location changes how an instant prints and not which instant it is.
\<close>

unbundle bit_operations_syntax

named_theorems go_inv \<open>equations that read a run of a Go function backwards\<close>
named_theorems go_eval \<open>equations that run a Go function forwards\<close>
named_theorems word_conv \<open>machine arithmetic in terms of mathematical integers\<close>

subsection \<open>Go's types\<close>

type_synonym uint64 = "64 word"
type_synonym uint32 = "32 word"
type_synonym go_uint = "64 word"
type_synonym go_int = "64 word"
type_synonym int64 = "64 word"
type_synonym go_time = int
type_synonym ('s, 'e, 'a) go = "'s \<Rightarrow> ('e + 'a) \<times> 's"

definition nanos_per_milli :: int where
  "nanos_per_milli = 1000000"

definition nanos_per_second :: int where
  "nanos_per_second = 1000000000"

definition truncate_to :: "int \<Rightarrow> go_time \<Rightarrow> go_time" where
  "truncate_to d t = (if d \<le> 0 then t else t - t mod d)"

definition unix_epoch :: go_time where
  "unix_epoch = 62135596800 * nanos_per_second"

definition unix_milli :: "go_time \<Rightarrow> int" where
  "unix_milli t = (t - unix_epoch) div nanos_per_milli"

definition unix_second :: "go_time \<Rightarrow> int" where
  "unix_second t = (t - unix_epoch) div nanos_per_second"

text \<open>An amount of type \<open>int64\<close> kept as an integer: \<open>i64\<close> is what an operation on such amounts
  leaves in the register, the result modulo \<open>2 ^ 64\<close> in two's complement.\<close>

definition i64 :: "int \<Rightarrow> int" where
  "i64 x = (x + 2 ^ 63) mod 2 ^ 64 - 2 ^ 63"

lemma i64_id [simp]: "- (2 ^ 63) \<le> x \<Longrightarrow> x < 2 ^ 63 \<Longrightarrow> i64 x = x"
  by (simp add: i64_def)

lemma i64_range: "- (2 ^ 63) \<le> i64 x" "i64 x < 2 ^ 63"
proof -
  have "0 \<le> (x + 2 ^ 63) mod 2 ^ 64" "(x + 2 ^ 63) mod 2 ^ 64 < (2 ^ 64 :: int)" by simp_all
  then show "- (2 ^ 63) \<le> i64 x" "i64 x < 2 ^ 63" by (simp_all add: i64_def)
qed

lemma i64_i64 [simp]: "i64 (i64 x) = i64 x"
  using i64_range [of x] by simp

lemma i64_eq_mod: "i64 x = i64 y \<longleftrightarrow> x mod 2 ^ 64 = y mod 2 ^ 64"
proof -
  have "i64 x = i64 y \<longleftrightarrow> (x + 2 ^ 63) mod 2 ^ 64 = (y + 2 ^ 63) mod 2 ^ 64" by (simp add: i64_def)
  also have "\<dots> \<longleftrightarrow> x mod 2 ^ 64 = y mod 2 ^ 64" unfolding mod_eq_dvd_iff by simp
  finally show ?thesis .
qed

lemma i64_add [simp]: "i64 (i64 x + y) = i64 (x + y)" "i64 (x + i64 y) = i64 (x + y)"
    "i64 (i64 x - y) = i64 (x - y)"
proof -
  have "i64 x mod 2 ^ 64 = x mod 2 ^ 64" for x using i64_eq_mod [of "i64 x" x] by simp
  then show "i64 (i64 x + y) = i64 (x + y)" "i64 (x + i64 y) = i64 (x + y)"
      "i64 (i64 x - y) = i64 (x - y)"
    by (metis i64_eq_mod mod_add_left_eq mod_add_right_eq mod_diff_left_eq)+
qed

text \<open>\<open>strings.TrimSpace(s) == ""\<close> and \<open>strings.ToLower\<close> on byte strings (ASCII letters and spaces).\<close>

definition blank :: "string \<Rightarrow> bool" where
  "blank s = list_all (\<lambda>c. (of_char c :: nat) \<in> {9, 10, 11, 12, 13, 32}) s"

definition to_lower :: "string \<Rightarrow> string" where
  "to_lower s = map (\<lambda>c. let n = (of_char c :: nat) in if 65 \<le> n \<and> n \<le> 90 then char_of (n + 32) else c) s"

fun contains_sub :: "string \<Rightarrow> string \<Rightarrow> bool" where
  "contains_sub [] part \<longleftrightarrow> part = []"
| "contains_sub (c # s) part \<longleftrightarrow> take (length part) (c # s) = part \<or> contains_sub s part"

text \<open>Values of type \<open>any\<close> that the code only serialises; \<open>JTime t\<close> is an instant printed by
  one of the formatting helpers, kept as the instant.\<close>

datatype json =
    JNull
  | JBool bool
  | JInt int
  | JString string
  | JTime go_time
  | JArray "json list"
  | JObject "(string \<times> json) list"

fun digit_char :: "nat \<Rightarrow> char" where
  "digit_char d = char_of (48 + d)"

fun format_uint :: "nat \<Rightarrow> string" where
  "format_uint n = (if n < 10 then [digit_char n] else format_uint (n div 10) @ [digit_char (n mod 10)])"

declare format_uint.simps [simp del]

text \<open>\<open>strconv.FormatInt\<close> and \<open>%d\<close> on a signed value.\<close>

definition format_int :: "int \<Rightarrow> string" where
  "format_int i = (if i < 0 then CHR ''-'' # format_uint (nat (- i)) else format_uint (nat i))"

subsection \<open>Functions with state and errors\<close>

definition go_ok :: "'a \<Rightarrow> ('s, 'e, 'a) go" where
  "go_ok a = (\<lambda>s. (Inr a, s))"

definition go_err :: "'e \<Rightarrow> ('s, 'e, 'a) go" where
  "go_err e = (\<lambda>s. (Inl e, s))"

definition go_bind :: "('s, 'e, 'a) go \<Rightarrow> ('a \<Rightarrow> ('s, 'e, 'b) go) \<Rightarrow> ('s, 'e, 'b) go" where
  "go_bind m k = (\<lambda>s. case m s of (Inl e, t) \<Rightarrow> (Inl e, t) | (Inr a, t) \<Rightarrow> k a t)"

text \<open>A call that cannot fail, and a call whose error the caller inspects itself.\<close>

definition go_call :: "('s \<Rightarrow> 'a \<times> 's) \<Rightarrow> ('s, 'e, 'a) go" where
  "go_call f = (\<lambda>s. case f s of (a, t) \<Rightarrow> (Inr a, t))"

definition go_try :: "('s, 'e, 'a) go \<Rightarrow> ('s, 'e, 'e + 'a) go" where
  "go_try m = (\<lambda>s. case m s of (r, t) \<Rightarrow> (Inr r, t))"

text \<open>\<open>for _, x := range xs\<close> with an accumulator; an error returns at once.\<close>

fun go_for :: "('x \<Rightarrow> 'b \<Rightarrow> ('s, 'e, 'b) go) \<Rightarrow> 'x list \<Rightarrow> 'b \<Rightarrow> ('s, 'e, 'b) go" where
  "go_for body [] acc = go_ok acc"
| "go_for body (x # xs) acc = go_bind (body x acc) (go_for body xs)"

lemma go_ok_inv [go_inv, simp]: "go_ok a s = (r, t) \<longleftrightarrow> r = Inr a \<and> t = s"
  by (auto simp: go_ok_def)

lemma go_err_inv [go_inv, simp]: "go_err e s = (r, t) \<longleftrightarrow> r = Inl e \<and> t = s"
  by (auto simp: go_err_def)

lemma go_call_inv [go_inv]: "go_call f s = (r, t) \<longleftrightarrow> r = Inr (fst (f s)) \<and> t = snd (f s)"
  by (auto simp: go_call_def split: prod.splits)

lemma go_try_inv [go_inv]: "go_try m s = (r, t) \<longleftrightarrow> (\<exists>r'. m s = (r', t) \<and> r = Inr r')"
  by (auto simp: go_try_def split: prod.splits)

lemma go_bind_Inr_inv [go_inv]:
  "go_bind m k s = (Inr b, t) \<longleftrightarrow> (\<exists>a u. m s = (Inr a, u) \<and> k a u = (Inr b, t))"
  by (auto simp: go_bind_def split: prod.splits sum.splits)

lemma go_bind_Inl_inv [go_inv]:
  "go_bind m k s = (Inl e, t) \<longleftrightarrow>
     m s = (Inl e, t) \<or> (\<exists>a u. m s = (Inr a, u) \<and> k a u = (Inl e, t))"
  by (auto simp: go_bind_def split: prod.splits sum.splits)

lemma go_ok_eval [go_eval]: "go_ok a s = (Inr a, s)"
  by (simp add: go_ok_def)

lemma go_err_eval [go_eval]: "go_err e s = (Inl e, s)"
  by (simp add: go_err_def)

lemma go_call_eval [go_eval]: "go_call f s = (Inr (fst (f s)), snd (f s))"
  by (simp add: go_call_def split: prod.splits)

lemma go_try_eval [go_eval]: "go_try m s = (Inr (fst (m s)), snd (m s))"
  by (simp add: go_try_def split: prod.splits)

lemma go_bind_eval [go_eval]:
  "go_bind m k s = (case fst (m s) of Inl e \<Rightarrow> (Inl e, snd (m s)) | Inr a \<Rightarrow> k a (snd (m s)))"
  by (auto simp: go_bind_def split: prod.splits sum.splits)

lemma go_bind_ok [simp]: "m s = (Inr a, t) \<Longrightarrow> go_bind m k s = k a t"
  by (simp add: go_bind_def)

lemma go_bind_err [simp]: "m s = (Inl e, t) \<Longrightarrow> go_bind m k s = (Inl e, t)"
  by (simp add: go_bind_def)

text \<open>Running a function on a concrete state: \<open>go_cont\<close> waits for the result of the first part, and the
  congruence rules keep the simplifier out of the continuation until it is known.\<close>

named_theorems go_run \<open>equations that run a Go function on a concrete state\<close>

definition go_cont :: "('e + 'a) \<times> 's \<Rightarrow> ('a \<Rightarrow> ('s, 'e, 'b) go) \<Rightarrow> ('e + 'b) \<times> 's" where
  "go_cont r k = (case r of (Inl e, t) \<Rightarrow> (Inl e, t) | (Inr a, t) \<Rightarrow> k a t)"

definition go_caught :: "('e + 'a) \<times> 's \<Rightarrow> ('e + ('e + 'a)) \<times> 's" where
  "go_caught r = (case r of (x, t) \<Rightarrow> (Inr x, t))"

lemma run_bind [go_run]: "go_bind m k s = go_cont (m s) k"
  by (simp add: go_bind_def go_cont_def)

lemma run_try [go_run]: "go_try m s = go_caught (m s)"
  by (simp add: go_try_def go_caught_def)

lemma run_cont [go_run]:
  "go_cont (Inl e, t) k = (Inl e, t)" "go_cont (Inr a, t) k = k a t" "go_caught (x, t) = (Inr x, t)"
  "go_ok a s = (Inr a, s)" "go_err e s = (Inl e, s)"
  by (simp_all add: go_cont_def go_caught_def go_ok_def go_err_def)

lemma run_bind_cong: "s = s' \<Longrightarrow> go_bind m k s = go_bind m k s'"
  by simp

lemma run_try_cong: "s = s' \<Longrightarrow> go_try m s = go_try m s'"
  by simp

lemma run_cont_cong: "r = r' \<Longrightarrow> go_cont r k = go_cont r' k"
  by simp

text \<open>Elimination rules that take a successful run apart step by step: \<open>elim go_elims\<close>.\<close>

lemma go_bindE:
  assumes "go_bind m k s = (Inr b, t)"
  obtains a u where "m s = (Inr a, u)" and "k a u = (Inr b, t)"
  using assms by (auto simp: go_bind_Inr_inv)

lemma go_okE:
  assumes "go_ok a s = (Inr b, t)"
  obtains "b = a" and "t = s"
  using assms by auto

lemma go_errE:
  assumes "go_err e s = (Inr b, t)"
  obtains "False"
  using assms by auto

lemma go_tryE:
  assumes "go_try m s = (Inr r, t)"
  obtains "m s = (r, t)"
  using assms by (auto simp: go_try_inv)

lemma go_guardE:
  assumes "(if c then go_err e else m) s = (Inr b, t)"
  obtains "\<not> c" and "m s = (Inr b, t)"
  using assms by (auto split: if_splits)

lemma go_checkE:
  assumes "(case r of None \<Rightarrow> m | Some e \<Rightarrow> go_err e) s = (Inr b, t)"
  obtains "r = None" and "m s = (Inr b, t)"
  using assms by (auto split: option.splits)

lemma go_resultE:
  assumes "(case r of Inl e \<Rightarrow> go_err (f e) | Inr a \<Rightarrow> k a) s = (Inr b, t)"
  obtains a where "r = Inr a" and "k a s = (Inr b, t)"
  using assms by (auto split: sum.splits)

lemma go_prodE:
  assumes "(case p of (x, y) \<Rightarrow> k x y) s = (Inr b, t)"
  obtains x y where "p = (x, y)" and "k x y s = (Inr b, t)"
  using assms by (cases p) auto

lemmas go_elims = go_bindE go_okE go_errE go_tryE go_guardE go_checkE go_resultE

subsection \<open>What a function leaves alone\<close>

text \<open>\<open>go_keeps P m\<close>: whatever \<open>m\<close> returns, a state with \<open>P\<close> is left with \<open>P\<close>.\<close>

definition go_keeps :: "('s \<Rightarrow> bool) \<Rightarrow> ('s, 'e, 'a) go \<Rightarrow> bool" where
  "go_keeps P m \<longleftrightarrow> (\<forall>s. P s \<longrightarrow> P (snd (m s)))"

lemma go_keepsI [intro?]: "(\<And>s r t. m s = (r, t) \<Longrightarrow> P s \<Longrightarrow> P t) \<Longrightarrow> go_keeps P m"
  by (metis go_keeps_def prod.collapse)

lemma go_keepsD: "go_keeps P m \<Longrightarrow> m s = (r, t) \<Longrightarrow> P s \<Longrightarrow> P t"
  by (metis go_keeps_def snd_conv)

lemma go_keeps_ok [intro]: "go_keeps P (go_ok a)"
  by (simp add: go_keeps_def go_ok_def)

lemma go_keeps_err [intro]: "go_keeps P (go_err e)"
  by (simp add: go_keeps_def go_err_def)

lemma go_keeps_bind [intro]:
  assumes "go_keeps P m" and "\<And>a. go_keeps P (k a)"
  shows "go_keeps P (go_bind m k)"
proof (rule go_keepsI)
  fix s r t
  assume "go_bind m k s = (r, t)" and "P s"
  then show "P t"
    using assms(1) [THEN go_keepsD] assms(2) [THEN go_keepsD]
    by (cases "m s"; cases "fst (m s)") (auto simp: go_bind_def)
qed

lemma go_keeps_try [intro]: "go_keeps P m \<Longrightarrow> go_keeps P (go_try m)"
  by (auto simp: go_keeps_def go_try_eval)

lemma go_keeps_call [intro]: "(\<And>s. P s \<Longrightarrow> P (snd (f s))) \<Longrightarrow> go_keeps P (go_call f)"
  by (auto simp: go_keeps_def go_call_eval)

lemma go_keeps_if [intro]:
  "(c \<Longrightarrow> go_keeps P a) \<Longrightarrow> (\<not> c \<Longrightarrow> go_keeps P b) \<Longrightarrow> go_keeps P (if c then a else b)"
  by simp

lemma go_keeps_option [intro]:
  "(r = None \<Longrightarrow> go_keeps P a) \<Longrightarrow> (\<And>v. r = Some v \<Longrightarrow> go_keeps P (f v)) \<Longrightarrow>
     go_keeps P (case r of None \<Rightarrow> a | Some v \<Rightarrow> f v)"
  by (simp split: option.splits)

lemma go_keeps_sum [intro]:
  "(\<And>e. r = Inl e \<Longrightarrow> go_keeps P (f e)) \<Longrightarrow> (\<And>v. r = Inr v \<Longrightarrow> go_keeps P (g v)) \<Longrightarrow>
     go_keeps P (case r of Inl e \<Rightarrow> f e | Inr v \<Rightarrow> g v)"
  by (simp split: sum.splits)

lemma go_keeps_list:
  "(xs = [] \<Longrightarrow> go_keeps P a) \<Longrightarrow> (\<And>y ys. xs = y # ys \<Longrightarrow> go_keeps P (f y ys)) \<Longrightarrow>
     go_keeps P (case xs of [] \<Rightarrow> a | y # ys \<Rightarrow> f y ys)"
  by (simp split: list.splits)

lemma go_keeps_prod: "(\<And>a b. go_keeps P (f a b)) \<Longrightarrow> go_keeps P (case p of (a, b) \<Rightarrow> f a b)"
  by (simp split: prod.splits)

lemma go_keeps_for:
  assumes "\<And>x acc. x \<in> set xs \<Longrightarrow> go_keeps P (body x acc)"
  shows "go_keeps P (go_for body xs acc)"
  using assms by (induction xs arbitrary: acc) auto

lemmas go_keeps_rules = go_keeps_ok go_keeps_err go_keeps_bind go_keeps_try go_keeps_if go_keeps_option
  go_keeps_sum go_keeps_list go_keeps_prod

subsection \<open>Lists, options and machine words\<close>

lemma find_Some_in: "List.find p xs = Some x \<Longrightarrow> x \<in> set xs \<and> p x"
  by (auto simp: find_Some_iff)

lemma find_None_all: "List.find p xs = None \<longleftrightarrow> (\<forall>x\<in>set xs. \<not> p x)"
  by (auto simp: find_None_iff)

lemma distinct_key_unique:
  "distinct (map f xs) \<Longrightarrow> x \<in> set xs \<Longrightarrow> y \<in> set xs \<Longrightarrow> f x = f y \<Longrightarrow> x = y"
  by (auto simp: distinct_map inj_on_def)

lemma filter_key_singleton:
  "distinct (map f xs) \<Longrightarrow> x \<in> set xs \<Longrightarrow> filter (\<lambda>y. f y = f x) xs = [x]"
proof (induction xs)
  case (Cons y ys)
  then show ?case
    by (cases "x = y") (auto simp: filter_empty_conv image_iff)
qed simp

lemma sint_of_int64:
  assumes "- (2 ^ 63) \<le> k" and "k < 2 ^ 63"
  shows "sint (of_int k :: 64 word) = k"
proof -
  have "signed_take_bit 63 k = k"
    using assms by (intro signed_take_bit_int_eq_self) auto
  then show ?thesis by (simp add: sint_sbintrunc')
qed

lemma sint_small [word_conv]:
  assumes "uint (a::64 word) < 2 ^ 63"
  shows "sint a = uint a"
proof -
  have "sint (of_int (uint a) :: 64 word) = uint a"
    using assms uint_ge_0 [of a] by (intro sint_of_int64) linarith+
  then show ?thesis by simp
qed

lemma sint_neg_small [word_conv]:
  assumes "uint (a::64 word) < 2 ^ 63"
  shows "sint (- a) = - uint a"
proof -
  have "sint (of_int (- uint a) :: 64 word) = - uint a"
    using assms uint_ge_0 [of a] by (intro sint_of_int64) linarith+
  then show ?thesis by simp
qed

lemma uint_nonneg_sint:
  assumes "0 \<le> sint (w::64 word)"
  shows "uint w = sint w"
proof -
  have "sint w < 2 ^ 63"
    using sint_lt [of w] by simp
  with assms have "uint (word_of_int (sint w) :: 64 word) = sint w"
    by (simp only: uint_word_of_int) simp
  then show ?thesis by simp
qed

lemma uint_diff_le [word_conv]: "(b::64 word) \<le> a \<Longrightarrow> uint (a - b) = uint a - uint b"
  by (simp add: uint_sub_lem word_le_def)

lemma word_diff_le:
  assumes "(b::64 word) \<le> a" and "a \<le> c"
  shows "a - b \<le> c"
proof -
  have "uint (a - b) = uint a - uint b"
    using assms(1) by (rule uint_diff_le)
  moreover have "0 \<le> uint b" by (rule uint_ge_0)
  ultimately show ?thesis
    using assms(2) unfolding word_le_def by linarith
qed

lemma uint_plus_bounded [word_conv]:
  "uint (a::64 word) + uint b < 2 ^ 64 \<Longrightarrow> uint (a + b) = uint a + uint b"
  using uint_add_lem [of a b] by simp

lemma word_zero_uint: "(a::64 word) = 0 \<longleftrightarrow> uint a = 0"
  by (simp add: word_uint_eq_iff)

lemma word_Suc_neq [simp]: "(v::'a::len word) + 1 \<noteq> v"
  by simp

end
