(* ===== verification/Problem.thy ===== *)
theory Problem
  imports Prelude
begin

text \<open>
  Errors: \<open>internal/pkg/problem\<close>. A business error is a value of type \<open>details\<close> with an HTTP
  status and a stable error code; every other error the code distinguishes is a constructor
  of \<open>go_error\<close> (the sentinel values it compares with \<open>errors.Is\<close>, and the remaining ones
  by their text). \<open>FromError\<close> is what the HTTP layer and the callers that look at an error
  code apply to any error.
\<close>

record details =
  Type :: string
  Title :: string
  Status :: int
  Detail :: string
  Instance :: string
  ErrorCode :: string
  RequestID :: string
  Data :: "json option"

datatype go_error =
    Problem details
  | ErrRecordNotFound
  | ErrAssetRecordNotFound
  | ErrMessage string

definition details_Error :: "details \<Rightarrow> string" where
  "details_Error d = (if Detail d \<noteq> '''' then Detail d else Title d)"

definition problem_New :: "int \<Rightarrow> string \<Rightarrow> string \<Rightarrow> string \<Rightarrow> details" where
  "problem_New status code title detail =
     \<lparr>Type = ''https://api.jiuxiaoer.com/problems/'' @ code, Title = title, Status = status,
      Detail = detail, Instance = [], ErrorCode = code, RequestID = [], Data = None\<rparr>"

definition problem_Internal :: "string \<Rightarrow> go_error" where
  "problem_Internal detail = Problem (problem_New 500 ''INTERNAL_ERROR'' ''Internal Error'' detail)"

definition problem_InvalidArgument :: "string \<Rightarrow> string \<Rightarrow> go_error" where
  "problem_InvalidArgument code detail = Problem (problem_New 400 code ''Invalid Argument'' detail)"

definition problem_Unauthorized :: "string \<Rightarrow> string \<Rightarrow> go_error" where
  "problem_Unauthorized code detail = Problem (problem_New 401 code ''Unauthorized'' detail)"

definition problem_Forbidden :: "string \<Rightarrow> string \<Rightarrow> go_error" where
  "problem_Forbidden code detail = Problem (problem_New 403 code ''Forbidden'' detail)"

definition problem_NotFound :: "string \<Rightarrow> string \<Rightarrow> go_error" where
  "problem_NotFound code detail = Problem (problem_New 404 code ''Not Found'' detail)"

definition problem_Conflict :: "string \<Rightarrow> string \<Rightarrow> go_error" where
  "problem_Conflict code detail = Problem (problem_New 409 code ''Conflict'' detail)"

definition problem_TooManyRequests :: "string \<Rightarrow> string \<Rightarrow> go_error" where
  "problem_TooManyRequests code detail = Problem (problem_New 429 code ''Too Many Requests'' detail)"

definition problem_RequestTooLarge :: "string \<Rightarrow> string \<Rightarrow> go_error" where
  "problem_RequestTooLarge code detail =
     Problem (problem_New 413 code ''Request Entity Too Large'' detail)"

definition problem_GatewayTimeout :: "string \<Rightarrow> string \<Rightarrow> go_error" where
  "problem_GatewayTimeout code detail = Problem (problem_New 504 code ''Gateway Timeout'' detail)"

text \<open>The text of an error, \<open>err.Error()\<close>.\<close>

fun error_text :: "go_error \<Rightarrow> string" where
  "error_text (Problem d) = details_Error d"
| "error_text ErrRecordNotFound = ''record not found''"
| "error_text ErrAssetRecordNotFound = ''wine ticket asset record not found''"
| "error_text (ErrMessage t) = t"

text \<open>\<open>FromError\<close>: a nil error has no details, a business error keeps its own, and any other
  error becomes an internal error whose text does not leak.\<close>

fun FromError :: "go_error option \<Rightarrow> details option" where
  "FromError None = None"
| "FromError (Some (Problem d)) = Some d"
| "FromError (Some e) =
     Some (problem_New 500 ''INTERNAL_ERROR'' ''Internal Error'' ''internal server error'')"

text \<open>Who calls: the fields of \<open>auth.Claims\<close> the services read.\<close>

record Claims =
  cl_AccountType :: string
  cl_CustomerID :: string
  cl_AdminUserID :: string
  cl_Permissions :: "string list"

lemmas problem_defs =
  problem_Internal_def problem_InvalidArgument_def problem_Unauthorized_def
  problem_Forbidden_def problem_NotFound_def problem_Conflict_def
  problem_TooManyRequests_def problem_RequestTooLarge_def problem_GatewayTimeout_def

definition error_code :: "go_error \<Rightarrow> string" where
  "error_code e = (case FromError (Some e) of None \<Rightarrow> '''' | Some d \<Rightarrow> ErrorCode d)"

lemma problem_New_sel [simp]:
  "Status (problem_New status code title detail) = status"
  "ErrorCode (problem_New status code title detail) = code"
  "Detail (problem_New status code title detail) = detail"
  by (simp_all add: problem_New_def)

lemma problem_neq_sentinel [simp]:
  "problem_Internal d \<noteq> ErrRecordNotFound" "problem_Internal d \<noteq> ErrAssetRecordNotFound"
  "problem_NotFound c d \<noteq> ErrRecordNotFound" "problem_NotFound c d \<noteq> ErrAssetRecordNotFound"
  "problem_Conflict c d \<noteq> ErrRecordNotFound" "problem_Conflict c d \<noteq> ErrAssetRecordNotFound"
  "problem_InvalidArgument c d \<noteq> ErrRecordNotFound"
  "problem_InvalidArgument c d \<noteq> ErrAssetRecordNotFound"
  by (simp_all add: problem_defs)

lemma error_code_problem [simp]:
  "error_code (problem_Internal d) = ''INTERNAL_ERROR''"
  "error_code (problem_NotFound c d) = c"
  "error_code (problem_Conflict c d) = c"
  "error_code (problem_InvalidArgument c d) = c"
  "error_code (problem_Forbidden c d) = c"
  "error_code (Problem (problem_New status c title d)) = c"
  by (simp_all add: error_code_def problem_defs)

end
