(* ===== verification/Gorm.thy ===== *)
theory Gorm
  imports Problem "HOL-Library.Multiset" "HOL-Library.List_Lexorder"
begin

text \<open>
  The database. GORM and MySQL are not code of this repository, so the statements the
  repositories issue are parameters: an \<open>engine\<close> holds, for one table, what GORM does for
  \<open>Take\<close>, \<open>Find\<close>, \<open>Create\<close> (also with \<open>OnConflict{DoNothing}\<close>) and \<open>Updates\<close> on the rows the
  table holds. The locale
  \<open>gorm_table\<close> states the documented behaviour the code relies on, in the form "if the call
  reports success, then": a call may also fail at any time, with any error, and then has
  changed nothing (a single statement is atomic). The unique indexes and the column ranges
  of the migration are the parameters \<open>clash\<close> and \<open>fits\<close>.

  \<open>gorm_table_live\<close> adds that no call fails without a reason; it is only used for the
  theorems that an operation does succeed. \<open>mem_engine\<close> is an engine with these laws, on
  which the witnesses run.

  \<open>gorm_transaction\<close> is \<open>db.Transaction(func(tx) error)\<close>: the rows are restored when the
  function returns an error or the commit fails. What lives outside the database (the
  identifier generator, the clock) is not restored; \<open>restore\<close> says which part that is.
\<close>

record 'row engine =
  sql_take :: "('row \<Rightarrow> bool) \<Rightarrow> 'row list \<Rightarrow> go_error + 'row"
  sql_find :: "('row \<Rightarrow> bool) \<Rightarrow> 'row list \<Rightarrow> go_error + 'row list"
  sql_ordered :: "('row \<Rightarrow> bool) \<Rightarrow> ('row \<Rightarrow> int list) \<Rightarrow> 'row list \<Rightarrow> go_error + 'row list"
  sql_create :: "'row \<Rightarrow> 'row list \<Rightarrow> go_error + 'row list"
  sql_create_ignore :: "'row \<Rightarrow> 'row list \<Rightarrow> go_error + 'row list"
  sql_updates :: "('row \<Rightarrow> bool) \<Rightarrow> ('row \<Rightarrow> 'row) \<Rightarrow> 'row list \<Rightarrow> go_error + ('row list \<times> nat)"

definition update_where :: "('row \<Rightarrow> bool) \<Rightarrow> ('row \<Rightarrow> 'row) \<Rightarrow> 'row list \<Rightarrow> 'row list" where
  "update_where p f rows = map (\<lambda>r. if p r then f r else r) rows"

definition mem_engine :: "('row \<Rightarrow> 'row \<Rightarrow> bool) \<Rightarrow> ('row \<Rightarrow> bool) \<Rightarrow> 'row engine" where
  "mem_engine clash fits =
     \<lparr>sql_take = (\<lambda>p rows. case List.find p rows of
          None \<Rightarrow> Inl ErrRecordNotFound | Some r \<Rightarrow> Inr r),
      sql_find = (\<lambda>p rows. Inr (filter p rows)),
      sql_ordered = (\<lambda>p key rows. Inr (sort_key key (filter p rows))),
      sql_create = (\<lambda>r rows.
          if fits r \<and> list_all (\<lambda>r'. \<not> clash r r') rows then Inr (rows @ [r])
          else Inl (ErrMessage ''Duplicate entry'')),
      sql_create_ignore = (\<lambda>r rows.
          if list_ex (clash r) rows then Inr rows
          else if fits r then Inr (rows @ [r]) else Inl (ErrMessage ''Out of range value'')),
      sql_updates = (\<lambda>p f rows.
          Inr (update_where p f rows, length (filter (\<lambda>r. p r \<and> f r \<noteq> r) rows)))\<rparr>"

definition gorm_transaction ::
    "('s \<Rightarrow> go_error option) \<Rightarrow> ('s \<Rightarrow> 's \<Rightarrow> 's) \<Rightarrow> ('s, go_error, 'a) go \<Rightarrow> ('s, go_error, 'a) go" where
  "gorm_transaction commit restore m s =
     (case m s of
        (Inl e, t) \<Rightarrow> (Inl e, restore s t)
      | (Inr a, t) \<Rightarrow>
          (case commit t of None \<Rightarrow> (Inr a, t) | Some e \<Rightarrow> (Inl e, restore s t)))"

locale gorm_table =
  fixes E :: "'row engine"
    and clash :: "'row \<Rightarrow> 'row \<Rightarrow> bool"
    and fits :: "'row \<Rightarrow> bool"
  assumes take_row: "sql_take E p rows = Inr r \<Longrightarrow> r \<in> set rows \<and> p r"
    and take_missing:
      "sql_take E p rows = Inl ErrRecordNotFound \<Longrightarrow> r \<in> set rows \<Longrightarrow> \<not> p r"
    and take_sentinel: "sql_take E p rows \<noteq> Inl ErrAssetRecordNotFound"
    and find_rows: "sql_find E p rows = Inr found \<Longrightarrow> mset found = mset (filter p rows)"
    and ordered_rows: "sql_ordered E p key rows = Inr found \<Longrightarrow>
      mset found = mset (filter p rows) \<and> sorted (map key found)"
    and create_row:
      "sql_create E r rows = Inr rows' \<Longrightarrow>
         rows' = rows @ [r] \<and> fits r \<and> (\<forall>r'\<in>set rows. \<not> clash r r')"
    and create_ignore:
      "sql_create_ignore E r rows = Inr rows' \<Longrightarrow>
         rows' = (if \<exists>r'\<in>set rows. clash r r' then rows else rows @ [r])"
    and updates_rows: "sql_updates E p f rows = Inr (rows', n) \<Longrightarrow> rows' = update_where p f rows"
    and updates_count:
      "sql_updates E p f rows = Inr (rows', n) \<Longrightarrow> (\<And>r. r \<in> set rows \<Longrightarrow> p r \<Longrightarrow> f r \<noteq> r) \<Longrightarrow>
         n = length (filter p rows)"

locale gorm_table_live = gorm_table +
  assumes take_live: "sql_take E p rows = Inl e \<Longrightarrow> e = ErrRecordNotFound"
    and find_live: "\<exists>found. sql_find E p rows = Inr found"
    and ordered_live: "\<exists>found. sql_ordered E p key rows = Inr found"
    and create_live:
      "fits r \<Longrightarrow> (\<And>r'. r' \<in> set rows \<Longrightarrow> \<not> clash r r') \<Longrightarrow> \<exists>rows'. sql_create E r rows = Inr rows'"
    and create_ignore_live: "fits r \<Longrightarrow> \<exists>rows'. sql_create_ignore E r rows = Inr rows'"
    and updates_live: "\<exists>result. sql_updates E p f rows = Inr result"

lemma update_where_id [simp]:
  "(\<And>r. r \<in> set rows \<Longrightarrow> \<not> p r) \<Longrightarrow> update_where p f rows = rows"
  by (induction rows) (auto simp: update_where_def)

lemma length_update_where [simp]: "length (update_where p f rows) = length rows"
  by (simp add: update_where_def)

lemma map_update_where:
  "(\<And>r. g (f r) = g r) \<Longrightarrow> map g (update_where p f rows) = map g rows"
  by (simp add: update_where_def)

lemma set_update_where:
  "set (update_where p f rows) = {r \<in> set rows. \<not> p r} \<union> f ` {r \<in> set rows. p r}"
  by (auto simp: update_where_def image_iff)

lemma update_where_key:
  "distinct (map key xs) \<Longrightarrow> x \<in> set xs \<Longrightarrow>
     update_where (\<lambda>y. key y = key x) g xs = map (\<lambda>y. if y = x then g x else y) xs"
  unfolding update_where_def by (auto dest: distinct_key_unique)

lemma in_update_where_key:
  assumes "distinct (map key xs)" and "x \<in> set xs" and "y \<in> set (update_where (\<lambda>y. key y = key x) g xs)"
  shows "y = g x \<or> (y \<in> set xs \<and> y \<noteq> x)"
  using assms by (auto simp: update_where_key split: if_splits)

text \<open>Changing one row changes a sum by the change of the row.\<close>

lemma sum_update_where:
  fixes f :: "'row \<Rightarrow> int"
  assumes "distinct (map key xs)" and "x \<in> set xs" and "P (g x) = P x"
  shows "sum_list (map f (filter P (update_where (\<lambda>y. key y = key x) g xs))) =
    sum_list (map f (filter P xs)) + (if P x then f (g x) - f x else 0)"
proof -
  have "sum_list (map f (filter P (map (\<lambda>y. if y = x then g x else y) xs))) =
      sum_list (map f (filter P xs)) + (if P x then f (g x) - f x else 0)"
    if "distinct xs" "x \<in> set xs"
    using that
  proof (induction xs)
    case (Cons y ys)
    show ?case
    proof (cases "y = x")
      case True
      then have "map (\<lambda>z. if z = x then g x else z) ys = ys" using Cons.prems by (auto intro: map_idI)
      then show ?thesis using True assms(3) by simp
    qed (use Cons in simp)
  qed simp
  then show ?thesis using assms by (simp add: update_where_key distinct_map)
qed

lemma sum_list_mset_eq:
  fixes f :: "'a \<Rightarrow> int"
  shows "mset xs = mset ys \<Longrightarrow> sum_list (map f xs) = sum_list (map f ys)"
  by (metis mset_map sum_mset_sum_list)

lemma distinct_submset:
  assumes "mset xs \<subseteq># mset ys" and "distinct ys"
  shows "distinct xs"
  unfolding distinct_count_atmost_1
proof
  fix a
  have "count (mset xs) a \<le> count (mset ys) a"
    using assms(1) by (rule mset_subset_eq_count)
  also have "\<dots> \<le> 1"
    using assms(2) by (simp add: distinct_count_atmost_1)
  finally show "count (mset xs) a = (if a \<in> set xs then 1 else 0)"
    by (cases "a \<in> set xs") (auto simp: count_eq_zero_iff le_Suc_eq)
qed

lemma mem_engine_laws: "gorm_table_live (mem_engine clash fits) clash fits"
  by unfold_locales
    (auto simp: mem_engine_def find_None_all list_all_iff list_ex_iff split: option.splits if_splits
      dest: find_Some_in intro!: arg_cong [where f = length] filter_cong)

context gorm_table
begin

text \<open>A lookup that succeeds or fails with "not found" decides whether a row exists.\<close>

lemma take_key:
  assumes "distinct (map key rows)" and "sql_take E (\<lambda>r. key r = k) rows = Inr r"
    and "r' \<in> set rows" and "key r' = k"
  shows "r' = r"
  using take_row [OF assms(2)] assms(1,3,4) by (auto dest: distinct_key_unique)

lemma create_distinct:
  assumes "sql_create E r rows = Inr rows'" and "distinct (map key rows)"
    and "\<And>r'. key r' = key r \<Longrightarrow> clash r r'"
  shows "distinct (map key rows')"
  using create_row [OF assms(1)] assms(2,3) by auto

text \<open>A count of zero says that no row matches.\<close>

lemma find_empty: "sql_find E p rows = Inr found \<Longrightarrow> found = [] \<longleftrightarrow> \<not> list_ex p rows"
  using find_rows [of p rows found] mset_zero_iff [of found] mset_zero_iff [of "filter p rows"]
  by (auto simp: list_ex_iff filter_empty_conv)

end

interpretation mem_table: gorm_table_live "mem_engine clash fits" clash fits
  for clash :: "'row \<Rightarrow> 'row \<Rightarrow> bool" and fits :: "'row \<Rightarrow> bool"
  by (rule mem_engine_laws)

subsection \<open>Statements on a table of the world\<close>

text \<open>A table is a component of the world together with the engine that serves it. \<open>db_create_all\<close>
  inserts several rows in one statement. \<open>RowsAffected\<close> of an insert that ignores duplicates
  is the number of rows it inserted.\<close>

record ('w, 'row) db_table =
  tbl_rows :: "'w \<Rightarrow> 'row list"
  tbl_set :: "'row list \<Rightarrow> 'w \<Rightarrow> 'w"
  tbl_engine :: "'row engine"

definition db_take :: "('w, 'row) db_table \<Rightarrow> ('row \<Rightarrow> bool) \<Rightarrow> ('w, go_error, 'row) go" where
  "db_take T p w = (sql_take (tbl_engine T) p (tbl_rows T w), w)"

definition db_find :: "('w, 'row) db_table \<Rightarrow> ('row \<Rightarrow> bool) \<Rightarrow> ('w, go_error, 'row list) go" where
  "db_find T p w = (sql_find (tbl_engine T) p (tbl_rows T w), w)"

definition db_ordered ::
    "('w, 'row) db_table \<Rightarrow> ('row \<Rightarrow> bool) \<Rightarrow> ('row \<Rightarrow> int list) \<Rightarrow> ('w, go_error, 'row list) go" where
  "db_ordered T p key w = (sql_ordered (tbl_engine T) p key (tbl_rows T w), w)"

definition db_create :: "('w, 'row) db_table \<Rightarrow> 'row \<Rightarrow> ('w, go_error, unit) go" where
  "db_create T r w =
     (case sql_create (tbl_engine T) r (tbl_rows T w) of
        Inl e \<Rightarrow> (Inl e, w) | Inr rows \<Rightarrow> (Inr (), tbl_set T rows w))"

fun create_rows :: "'row engine \<Rightarrow> 'row list \<Rightarrow> 'row list \<Rightarrow> go_error + 'row list" where
  "create_rows E [] rows = Inr rows"
| "create_rows E (r # rs) rows =
     (case sql_create E r rows of Inl e \<Rightarrow> Inl e | Inr rows' \<Rightarrow> create_rows E rs rows')"

definition db_create_all :: "('w, 'row) db_table \<Rightarrow> 'row list \<Rightarrow> ('w, go_error, unit) go" where
  "db_create_all T rs w =
     (case create_rows (tbl_engine T) rs (tbl_rows T w) of
        Inl e \<Rightarrow> (Inl e, w) | Inr rows \<Rightarrow> (Inr (), tbl_set T rows w))"

definition db_create_ignore :: "('w, 'row) db_table \<Rightarrow> 'row \<Rightarrow> ('w, go_error, nat) go" where
  "db_create_ignore T r w =
     (case sql_create_ignore (tbl_engine T) r (tbl_rows T w) of
        Inl e \<Rightarrow> (Inl e, w)
      | Inr rows \<Rightarrow> (Inr (length rows - length (tbl_rows T w)), tbl_set T rows w))"

definition db_updates ::
    "('w, 'row) db_table \<Rightarrow> ('row \<Rightarrow> bool) \<Rightarrow> ('row \<Rightarrow> 'row) \<Rightarrow> ('w, go_error, nat) go" where
  "db_updates T p f w =
     (case sql_updates (tbl_engine T) p f (tbl_rows T w) of
        Inl e \<Rightarrow> (Inl e, w) | Inr (rows, n) \<Rightarrow> (Inr n, tbl_set T rows w))"

text \<open>\<open>Limit\<close>: a negative value is not sent.\<close>

definition gorm_limit :: "int \<Rightarrow> 'a list \<Rightarrow> 'a list" where
  "gorm_limit n xs = (if n < 0 then xs else take (nat n) xs)"

lemma gorm_transaction_error:
  assumes "gorm_transaction commit restore m s = (Inl e, t)"
  shows "\<exists>u. t = restore s u"
  using assms by (auto simp: gorm_transaction_def split: prod.splits sum.splits option.splits)

lemma gorm_transaction_success [go_inv]:
  "gorm_transaction commit restore m s = (Inr a, t) \<longleftrightarrow> m s = (Inr a, t) \<and> commit t = None"
  by (auto simp: gorm_transaction_def split: prod.splits sum.splits option.splits)

lemma db_take_inv [go_inv]: "db_take T p w = (r, w') \<longleftrightarrow> sql_take (tbl_engine T) p (tbl_rows T w) = r \<and> w' = w"
  by (auto simp: db_take_def)

lemma db_find_inv [go_inv]: "db_find T p w = (r, w') \<longleftrightarrow> sql_find (tbl_engine T) p (tbl_rows T w) = r \<and> w' = w"
  by (auto simp: db_find_def)

lemma db_ordered_inv [go_inv]:
  "db_ordered T p key w = (r, w') \<longleftrightarrow> sql_ordered (tbl_engine T) p key (tbl_rows T w) = r \<and> w' = w"
  by (auto simp: db_ordered_def)

lemma db_create_inv [go_inv]:
  "db_create T x w = (Inr u, w') \<longleftrightarrow>
     (\<exists>rows. sql_create (tbl_engine T) x (tbl_rows T w) = Inr rows \<and> w' = tbl_set T rows w)"
  by (auto simp: db_create_def split: sum.splits)

lemma db_create_all_inv [go_inv]:
  "db_create_all T xs w = (Inr u, w') \<longleftrightarrow>
     (\<exists>rows. create_rows (tbl_engine T) xs (tbl_rows T w) = Inr rows \<and> w' = tbl_set T rows w)"
  by (auto simp: db_create_all_def split: sum.splits)

lemma db_create_ignore_inv [go_inv]:
  "db_create_ignore T x w = (Inr n, w') \<longleftrightarrow>
     (\<exists>rows. sql_create_ignore (tbl_engine T) x (tbl_rows T w) = Inr rows \<and>
        n = length rows - length (tbl_rows T w) \<and> w' = tbl_set T rows w)"
  by (auto simp: db_create_ignore_def split: sum.splits)

lemma db_updates_inv [go_inv]:
  "db_updates T p f w = (Inr n, w') \<longleftrightarrow>
     (\<exists>rows. sql_updates (tbl_engine T) p f (tbl_rows T w) = Inr (rows, n) \<and> w' = tbl_set T rows w)"
  by (auto simp: db_updates_def split: sum.splits)

context gorm_table
begin

text \<open>Inserting several rows: all of them, in order, without a clash.\<close>

lemma create_rows_append:
  "create_rows E xs rows = Inr rows' \<Longrightarrow> rows' = rows @ xs \<and> list_all fits xs"
  by (induction xs arbitrary: rows) (fastforce split: sum.splits dest: create_row)+

lemma create_rows_distinct:
  assumes "create_rows E xs rows = Inr rows'" and "distinct (map key rows)"
    and "\<And>r r'. key r' = key r \<Longrightarrow> clash r r'"
  shows "distinct (map key rows')"
  using assms(1,2)
proof (induction xs arbitrary: rows)
  case (Cons x xs)
  then obtain rows1 where "sql_create E x rows = Inr rows1" "create_rows E xs rows1 = Inr rows'"
    by (auto split: sum.splits)
  then show ?case using Cons.IH create_distinct [OF _ Cons.prems(2) assms(3)] by blast
qed simp

lemma create_ignore_cases:
  assumes "sql_create_ignore E r rows = Inr rows'"
  obtains (kept) r' where "r' \<in> set rows" and "clash r r'" and "rows' = rows"
    | (added) "\<And>r'. r' \<in> set rows \<Longrightarrow> \<not> clash r r'" and "rows' = rows @ [r]"
  using create_ignore [OF assms] by (auto split: if_splits)

end

end
