(* ===== verification/Snowflake.thy ===== *)
theory Snowflake
  imports Prelude
begin

text \<open>
  The identifier generator: \<open>internal/pkg/snowflake\<close>. The fields and the arithmetic are
  64-bit words as in the source (\<open>int64\<close> fields compared with the signed order); the clock
  reading \<open>g.nowMS()\<close> is an argument of \<open>snow_Next\<close>. The mutex makes a call one step.

  The lemmas show that the identifiers of one generator strictly increase whatever the
  clock does (it may stand still, jump back, or hand out more than 4096 readings in one
  millisecond), that an identifier splits back into its time, node and sequence parts, and
  that generators on different nodes never collide.
\<close>

record Generator =
  lastMS :: int64
  sequence :: int64
  nodeID :: int64
  rollbacks :: uint64

definition snow_epoch :: int64 where
  "snow_epoch = 1704067200000"

text \<open>\<open>New\<close> panics outside the node range.\<close>

definition snow_New :: "int64 \<Rightarrow> Generator option" where
  "snow_New node =
     (if sint node < 0 \<or> 1023 < sint node then None
      else Some \<lparr>lastMS = 0, sequence = 0, nodeID = node, rollbacks = 0\<rparr>)"

definition snow_id :: "int64 \<Rightarrow> int64 \<Rightarrow> int64 \<Rightarrow> uint64" where
  "snow_id ms node sq = push_bit 22 (ms - snow_epoch) OR push_bit 12 node OR sq"

definition snow_Next :: "int64 \<Rightarrow> Generator \<Rightarrow> uint64 \<times> Generator" where
  "snow_Next clock g =
     (let behind = sint clock < sint (lastMS g);
          rb = (if behind then rollbacks g + 1 else rollbacks g);
          now1 = (if behind then lastMS g else clock);
          (now2, sq) =
            (if now1 = lastMS g then
               (let sq1 = sequence g + 1
                in if 4095 < sint sq1 then (lastMS g + 1, 0) else (now1, sq1))
             else (now1, 0))
      in (snow_id now2 (nodeID g) sq, g\<lparr>lastMS := now2, sequence := sq, rollbacks := rb\<rparr>))"

definition ClockRollbackCount :: "Generator \<Rightarrow> uint64" where
  "ClockRollbackCount g = rollbacks g"

definition snow_String :: "uint64 \<Rightarrow> string" where
  "snow_String i = format_uint (unat i)"

text \<open>A sequence of calls, one for each clock reading.\<close>

fun id_run :: "('c \<Rightarrow> 'g \<Rightarrow> uint64 \<times> 'g) \<Rightarrow> 'c list \<Rightarrow> 'g \<Rightarrow> uint64 list" where
  "id_run nxt [] g = []"
| "id_run nxt (c # cs) g = (case nxt c g of (i, g') \<Rightarrow> i # id_run nxt cs g')"

text \<open>The position of a generator on the line of identifiers, and the range in which \<open>n\<close> more
  calls keep the time part within its 41 bits.\<close>

definition snow_stamp :: "Generator \<Rightarrow> int" where
  "snow_stamp g =
     (uint (lastMS g) - uint snow_epoch) * 2 ^ 22 + uint (nodeID g) * 2 ^ 12 + uint (sequence g)"

definition snow_usable :: "nat \<Rightarrow> Generator \<Rightarrow> bool" where
  "snow_usable n g \<longleftrightarrow>
     uint (nodeID g) \<le> 1023 \<and> uint (sequence g) \<le> 4095 \<and>
     uint (lastMS g) + int n < uint snow_epoch + 2 ^ 41"

text \<open>Readings between 2024-01-01 and about 2058, so that even when every one of up to \<open>2 ^ 40\<close>
  calls advances the logical time the 41-bit time field does not overflow.\<close>

definition snow_reading :: "nat \<Rightarrow> int64 \<Rightarrow> bool" where
  "snow_reading n c \<longleftrightarrow> uint snow_epoch \<le> uint c \<and> uint c + int n < uint snow_epoch + 2 ^ 41"

locale id_source =
  fixes nxt :: "'c \<Rightarrow> 'g \<Rightarrow> uint64 \<times> 'g"
    and stamp :: "'g \<Rightarrow> int"
    and usable :: "nat \<Rightarrow> 'g \<Rightarrow> bool"
    and reading :: "nat \<Rightarrow> 'c \<Rightarrow> bool"
  assumes issue: "usable (Suc n) g \<Longrightarrow> reading (Suc n) c \<Longrightarrow> nxt c g = (i, g') \<Longrightarrow>
      uint i = stamp g' \<and> stamp g < stamp g' \<and> usable n g'"
    and reading_mono: "reading (Suc n) c \<Longrightarrow> reading n c"
begin

lemma run_above:
  assumes "usable (length cs) g" and "\<forall>c\<in>set cs. reading (length cs) c"
  shows "(\<forall>i\<in>set (id_run nxt cs g). stamp g < uint i) \<and> sorted_wrt (<) (id_run nxt cs g)"
  using assms
proof (induction cs arbitrary: g)
  case (Cons c cs)
  obtain i g' where step: "nxt c g = (i, g')" by fastforce
  with Cons.prems have facts: "uint i = stamp g'" "stamp g < stamp g'" "usable (length cs) g'"
    by (auto dest: issue)
  from Cons.prems have "\<forall>c\<in>set cs. reading (length cs) c"
    by (auto intro: reading_mono)
  with facts(3) have "(\<forall>i\<in>set (id_run nxt cs g'). stamp g' < uint i) \<and>
      sorted_wrt (<) (id_run nxt cs g')"
    by (rule Cons.IH)
  then have "\<forall>j\<in>set (id_run nxt cs g'). stamp g < uint j \<and> i < j"
    and "sorted_wrt (<) (id_run nxt cs g')"
    using facts(1,2) by (auto simp: word_less_def)
  with step facts(1,2) show ?case
    by simp
qed simp

lemma run_strictly_increasing:
  assumes "usable (length cs) g" and "\<forall>c\<in>set cs. reading (length cs) c"
  shows "sorted_wrt (<) (id_run nxt cs g)"
  using run_above [OF assms] by blast

end

lemma uint_snow_epoch [simp]: "uint snow_epoch = 1704067200000"
  by (simp add: snow_epoch_def)

lemma push_bit_or_small:
  assumes "0 \<le> (b::int)" and "b < 2 ^ k"
  shows "push_bit k a OR b = a * 2 ^ k + b"
proof -
  from assms have "b = take_bit k b"
    by (simp add: take_bit_int_eq_self)
  then have "\<not> bit b n" if "k \<le> n" for n
    using that by (metis bit_take_bit_iff leD)
  then have "push_bit k a + b = push_bit k a OR b"
    by (intro disjunctive_add) (auto simp: bit_push_bit_iff)
  then show ?thesis
    by (simp add: push_bit_eq_mult)
qed

lemma uint_push_bit_small:
  assumes "uint (w::64 word) * 2 ^ k < 2 ^ 64"
  shows "uint (push_bit k w) = push_bit k (uint w)"
proof -
  have "take_bit 64 (push_bit k (uint w)) = push_bit k (uint w)"
    using assms by (intro take_bit_int_eq_self) (auto simp: push_bit_eq_mult)
  then show ?thesis
    by (simp add: unsigned_push_bit_eq)
qed

lemma snow_id_layout:
  assumes "uint snow_epoch \<le> uint ms" and "uint ms < uint snow_epoch + 2 ^ 41"
    and "uint node \<le> 1023" and "uint sq \<le> 4095"
  shows "uint (snow_id ms node sq) =
    (uint ms - uint snow_epoch) * 2 ^ 22 + uint node * 2 ^ 12 + uint sq"
proof -
  have d: "uint (ms - snow_epoch) = uint ms - uint snow_epoch"
    using assms(1) by (intro uint_diff_le) (simp add: word_le_def)
  then have hi: "uint (push_bit 22 (ms - snow_epoch)) = push_bit 22 (uint ms - uint snow_epoch)"
    using assms(2) by (subst uint_push_bit_small) simp_all
  have mid: "uint (push_bit 12 node) = push_bit 12 (uint node)"
    using assms(3) by (intro uint_push_bit_small) simp
  have low: "push_bit 12 (uint node) OR uint sq = uint node * 2 ^ 12 + uint sq"
    using assms(4) uint_ge_0 [of sq] by (intro push_bit_or_small) simp_all
  have "uint (snow_id ms node sq) =
      push_bit 22 (uint ms - uint snow_epoch) OR (uint node * 2 ^ 12 + uint sq)"
    by (simp only: snow_id_def uint_or hi mid or.assoc low)
  also have "\<dots> = (uint ms - uint snow_epoch) * 2 ^ 22 + (uint node * 2 ^ 12 + uint sq)"
    using assms(3,4) uint_ge_0 [of node] uint_ge_0 [of sq] by (intro push_bit_or_small) simp_all
  finally show ?thesis by simp
qed

text \<open>One call, by the three ways it can go: the clock moved on, the sequence moved on, or the
  sequence is used up and the logical time moves on.\<close>

lemma snow_Next_cases:
  assumes "snow_usable (Suc n) g" and "snow_reading (Suc n) clock"
  obtains (clock) "uint (lastMS g) < uint clock"
      and "snow_Next clock g =
        (snow_id clock (nodeID g) 0, g\<lparr>lastMS := clock, sequence := 0\<rparr>)"
    | (sequence) rb where "uint clock \<le> uint (lastMS g)" and "uint (sequence g) < 4095"
      and "snow_Next clock g = (snow_id (lastMS g) (nodeID g) (sequence g + 1),
        g\<lparr>sequence := sequence g + 1, rollbacks := rb\<rparr>)"
    | (carry) rb where "uint clock \<le> uint (lastMS g)" and "uint (sequence g) = 4095"
      and "snow_Next clock g = (snow_id (lastMS g + 1) (nodeID g) 0,
        g\<lparr>lastMS := lastMS g + 1, sequence := 0, rollbacks := rb\<rparr>)"
proof -
  have last: "sint (lastMS g) = uint (lastMS g)" and clk: "sint clock = uint clock"
    using assms by (auto simp: snow_usable_def snow_reading_def intro!: sint_small)
  have sq: "uint (sequence g + 1) = uint (sequence g) + 1"
    using assms(1) by (subst uint_plus_bounded) (auto simp: snow_usable_def)
  then have ssq: "sint (sequence g + 1) = uint (sequence g) + 1"
    using assms(1) by (subst sint_small) (auto simp: snow_usable_def)
  consider "uint (lastMS g) < uint clock" | "uint clock \<le> uint (lastMS g)" "uint (sequence g) < 4095"
    | "uint clock \<le> uint (lastMS g)" "uint (sequence g) = 4095"
    using assms(1) by (fastforce simp: snow_usable_def)
  then show ?thesis
  proof cases
    case 1
    then show ?thesis
      by (intro clock) (auto simp: snow_Next_def last clk Let_def)
  next
    case 2
    then have "clock = lastMS g \<or> uint clock < uint (lastMS g)"
      by (auto simp: word_uint_eq_iff)
    with 2 show ?thesis
      by (intro sequence [of "if sint clock < sint (lastMS g) then rollbacks g + 1 else rollbacks g"])
        (auto simp: snow_Next_def last clk ssq Let_def)
  next
    case 3
    then have "clock = lastMS g \<or> uint clock < uint (lastMS g)"
      by (auto simp: word_uint_eq_iff)
    with 3 show ?thesis
      by (intro carry [of "if sint clock < sint (lastMS g) then rollbacks g + 1 else rollbacks g"])
        (auto simp: snow_Next_def last clk ssq Let_def)
  qed
qed

lemma snow_Next_step:
  assumes "snow_usable (Suc n) g" and "snow_reading (Suc n) clock"
    and "snow_Next clock g = (i, g')"
  shows "uint i = snow_stamp g' \<and> snow_stamp g < snow_stamp g' \<and> snow_usable n g'"
  using assms(1,2)
proof (cases rule: snow_Next_cases)
  case clock
  then have "uint i = snow_stamp g'"
    using assms snow_id_layout [of clock "nodeID g" 0]
    by (auto simp: snow_stamp_def snow_usable_def snow_reading_def)
  with clock assms show ?thesis
    by (auto simp: snow_stamp_def snow_usable_def snow_reading_def)
next
  case (sequence rb)
  have sq: "uint (sequence g + 1) = uint (sequence g) + 1"
    using sequence by (subst uint_plus_bounded) auto
  then have "uint i = snow_stamp g'"
    using sequence assms snow_id_layout [of "lastMS g" "nodeID g" "sequence g + 1"]
    by (auto simp: snow_stamp_def snow_usable_def snow_reading_def)
  with sequence assms sq show ?thesis
    by (auto simp: snow_stamp_def snow_usable_def)
next
  case (carry rb)
  have ms: "uint (lastMS g + 1) = uint (lastMS g) + 1"
    using assms(1) by (subst uint_plus_bounded) (auto simp: snow_usable_def)
  then have "uint i = snow_stamp g'"
    using carry assms snow_id_layout [of "lastMS g + 1" "nodeID g" 0]
    by (auto simp: snow_stamp_def snow_usable_def snow_reading_def)
  with carry assms ms show ?thesis
    by (auto simp: snow_stamp_def snow_usable_def)
qed

interpretation snowflake: id_source snow_Next snow_stamp snow_usable snow_reading
  by unfold_locales (auto simp: snow_reading_def dest: snow_Next_step)

lemma stamp_div:
  "0 \<le> (sq::int) \<Longrightarrow> sq \<le> 4095 \<Longrightarrow> (a * 2 ^ 22 + n * 2 ^ 12 + sq) div 2 ^ 12 = a * 2 ^ 10 + n"
  by simp

lemma snow_Next_node:
  assumes "snow_usable (Suc n) g" and "snow_reading (Suc n) clock"
    and "snow_Next clock g = (i, g')"
  shows "uint i div 2 ^ 12 mod 2 ^ 10 = uint (nodeID g) \<and> nodeID g' = nodeID g"
proof -
  from snow_Next_step [OF assms] have stamp: "uint i = snow_stamp g'" and ok: "snow_usable n g'"
    by auto
  have node: "nodeID g' = nodeID g"
    using assms(3) by (auto simp: snow_Next_def Let_def split: if_splits)
  have "snow_stamp g' div 2 ^ 12 =
      (uint (lastMS g') - uint snow_epoch) * 2 ^ 10 + uint (nodeID g')"
    unfolding snow_stamp_def using ok by (intro stamp_div) (auto simp: snow_usable_def)
  then have "snow_stamp g' div 2 ^ 12 mod 2 ^ 10 = uint (nodeID g') mod 2 ^ 10"
    by (simp only: mod_mult_self3)
  with ok node stamp show ?thesis
    by (simp add: snow_usable_def)
qed

lemma snow_run_node:
  assumes "snow_usable (length cs) g" and "\<forall>c\<in>set cs. snow_reading (length cs) c"
    and "i \<in> set (id_run snow_Next cs g)"
  shows "uint i div 2 ^ 12 mod 2 ^ 10 = uint (nodeID g)"
  using assms
proof (induction cs arbitrary: g)
  case (Cons c cs)
  obtain j g' where step: "snow_Next c g = (j, g')" by fastforce
  with Cons.prems have j: "uint j div 2 ^ 12 mod 2 ^ 10 = uint (nodeID g)" "nodeID g' = nodeID g"
    and "snow_usable (length cs) g'"
    by (auto dest: snow_Next_node snow_Next_step)
  moreover have "\<forall>c\<in>set cs. snow_reading (length cs) c"
    using Cons.prems by (auto intro: snowflake.reading_mono)
  ultimately show ?case
    using Cons.IH [of g'] Cons.prems(3) step by auto
qed simp

lemma snow_New_usable:
  assumes "snow_New node = Some g" and "n < 2 ^ 40"
  shows "snow_usable n g \<and> nodeID g = node"
proof -
  have "0 \<le> sint node" "sint node \<le> 1023"
    using assms(1) by (auto simp: snow_New_def split: if_splits)
  then have "uint node \<le> 1023"
    by (simp add: uint_nonneg_sint)
  with assms show ?thesis
    by (auto simp: snow_New_def snow_usable_def split: if_splits)
qed

subsection \<open>Properties\<close>

text \<open>C22: The identifiers a fresh generator hands out are strictly increasing, whatever the
  clock does between the calls: it may stand still, run backwards or hand out more than 4096
  readings in a millisecond. The readings lie between the generator's epoch (2024) and
  \<open>2 ^ 40\<close> milliseconds later, and there are fewer than \<open>2 ^ 40\<close> calls.\<close>

theorem snow_ids_strictly_increasing:
  assumes "snow_New node = Some g" and "length clocks < 2 ^ 40"
    and "\<forall>c\<in>set clocks. uint snow_epoch \<le> uint c \<and> uint c < uint snow_epoch + 2 ^ 40"
  shows "sorted_wrt (<) (id_run snow_Next clocks g)"
proof (rule snowflake.run_strictly_increasing)
  show "snow_usable (length clocks) g"
    using snow_New_usable assms(1,2) by blast
  show "\<forall>c\<in>set clocks. snow_reading (length clocks) c"
    using assms(2,3) by (auto simp: snow_reading_def)
qed

theorem snow_ids_strictly_increasing_witness:
  "\<exists>g. snow_New 7 = Some g \<and>
     sorted_wrt (<) (id_run snow_Next [1704067200009, 1704067200009, 1704067200003] g)"
proof -
  obtain g where g: "snow_New 7 = Some g" by (simp add: snow_New_def)
  have "sorted_wrt (<) (id_run snow_Next [1704067200009, 1704067200009, 1704067200003] g)"
    by (rule snow_ids_strictly_increasing [OF g]) auto
  with g show ?thesis by blast
qed

text \<open>Two generators on different nodes never hand out the same identifier: the node number
  can be read back from every identifier.\<close>

theorem snow_nodes_disjoint:
  assumes "snow_New node1 = Some g1" and "snow_New node2 = Some g2" and "node1 \<noteq> node2"
    and "length clocks1 < 2 ^ 40" and "length clocks2 < 2 ^ 40"
    and "\<forall>c\<in>set clocks1 \<union> set clocks2. uint snow_epoch \<le> uint c \<and> uint c < uint snow_epoch + 2 ^ 40"
  shows "set (id_run snow_Next clocks1 g1) \<inter> set (id_run snow_Next clocks2 g2) = {}"
proof -
  have "snow_usable (length clocks1) g1" "snow_usable (length clocks2) g2"
    and nodes: "nodeID g1 = node1" "nodeID g2 = node2"
    using snow_New_usable assms by blast+
  moreover have "\<forall>c\<in>set clocks1. snow_reading (length clocks1) c"
    and "\<forall>c\<in>set clocks2. snow_reading (length clocks2) c"
    using assms(4-6) by (fastforce simp: snow_reading_def)+
  ultimately have "\<forall>i\<in>set (id_run snow_Next clocks1 g1). uint i div 2 ^ 12 mod 2 ^ 10 = uint node1"
    and "\<forall>i\<in>set (id_run snow_Next clocks2 g2). uint i div 2 ^ 12 mod 2 ^ 10 = uint node2"
    using snow_run_node by blast+
  with assms(3) show ?thesis
    by (metis disjoint_iff word_uint_eqI)
qed

theorem snow_nodes_disjoint_witness:
  "\<exists>g1 g2. snow_New 1 = Some g1 \<and> snow_New 2 = Some g2 \<and>
     set (id_run snow_Next [1704067200009] g1) \<inter> set (id_run snow_Next [1704067200009] g2) = {}"
proof -
  obtain g1 g2 where g: "snow_New 1 = Some g1" "snow_New 2 = Some g2" by (simp add: snow_New_def)
  have "set (id_run snow_Next [1704067200009] g1) \<inter> set (id_run snow_Next [1704067200009] g2) = {}"
    by (rule snow_nodes_disjoint [OF g]) auto
  with g show ?thesis by blast
qed

end
