(* ===== verification/Ticket_Ledger.thy ===== *)
theory Ticket_Ledger
  imports Gorm Snowflake
begin

text \<open>
  The data of the wine-ticket asset core (\<open>internal/modules/wineticket/core\<close>): the lots and
  the ledger rows, the repository interface the asset service is written against
  (\<open>AssetLedgerRepository\<close> and \<open>AssetIssuanceRepository\<close>, here the record \<open>asset_repo\<close>), and
  its implementation on a GORM transaction (\<open>transactionAssetRepository\<close>).

  A quantity is a 64-bit unsigned word and a ledger delta the two's complement word Go's
  \<open>int\<close> holds. String equality is equality of the bytes.

  The locale \<open>asset_ledger\<close> states what the service may rely on from a repository; the
  implementation is shown to provide it for every engine with the laws of \<open>gorm_table\<close>.
\<close>

subsection \<open>Constants and helpers\<close>

definition LotSourcePurchase :: string where "LotSourcePurchase = ''purchase''"
definition LotSourceGift :: string where "LotSourceGift = ''gift''"
definition LotStatusActive :: string where "LotStatusActive = ''active''"
definition LotStatusDepleted :: string where "LotStatusDepleted = ''depleted''"
definition LotStatusExpired :: string where "LotStatusExpired = ''expired''"
definition LotStatusRefunded :: string where "LotStatusRefunded = ''refunded''"
definition TransactionTypeExpiry :: string where "TransactionTypeExpiry = ''expiry''"

lemma lot_status_distinct [simp]:
  "LotStatusActive \<noteq> LotStatusDepleted" "LotStatusDepleted \<noteq> LotStatusActive"
  "LotStatusActive \<noteq> LotStatusExpired" "LotStatusExpired \<noteq> LotStatusActive"
  "LotStatusActive \<noteq> LotStatusRefunded" "LotStatusRefunded \<noteq> LotStatusActive"
  "LotStatusDepleted \<noteq> LotStatusExpired" "LotStatusExpired \<noteq> LotStatusDepleted"
  "LotStatusDepleted \<noteq> LotStatusRefunded" "LotStatusRefunded \<noteq> LotStatusDepleted"
  "LotStatusExpired \<noteq> LotStatusRefunded" "LotStatusRefunded \<noteq> LotStatusExpired"
  "LotStatusActive \<noteq> ''''" "LotStatusDepleted \<noteq> ''''" "LotStatusExpired \<noteq> ''''"
  by (simp_all add: LotStatusActive_def LotStatusDepleted_def LotStatusExpired_def
      LotStatusRefunded_def)

definition IDString :: "uint64 \<Rightarrow> string" where
  "IDString v = format_uint (unat v)"

definition business_no_char :: "char \<Rightarrow> bool" where
  "business_no_char c \<longleftrightarrow>
     (let n = of_char c :: nat
      in (65 \<le> n \<and> n \<le> 90) \<or> (97 \<le> n \<and> n \<le> 122) \<or> (48 \<le> n \<and> n \<le> 57) \<or> n = 95 \<or> n = 45)"

definition ValidateBusinessNo :: "string \<Rightarrow> string \<Rightarrow> go_error option" where
  "ValidateBusinessNo value field =
     (if length value < 1 \<or> 64 < length value \<or> \<not> list_all business_no_char value
      then Some (problem_InvalidArgument ''VALIDATION_FAILED'' (''invalid '' @ field)) else None)"

text \<open>\<open>NowShanghai\<close>: the instant the clock gives, at millisecond precision.\<close>

definition NowShanghai :: "('s \<Rightarrow> go_time \<times> 's) \<Rightarrow> ('s, go_error, go_time) go" where
  "NowShanghai now = go_bind (go_call now) (\<lambda>t. go_ok (truncate_to nanos_per_milli t))"

subsection \<open>Rows\<close>

record Lot =
  lot_ID :: uint64
  lot_LotNo :: string
  lot_OwnerCustomerID :: uint64
  lot_PurchaseID :: uint64
  lot_SourceType :: string
  lot_SourceLotID :: "uint64 option"
  lot_SourceGiftID :: "uint64 option"
  lot_IssuerMerchantID :: uint64
  lot_ProductID :: uint64
  lot_RedeemCityCode :: string
  lot_TotalQuantity :: go_uint
  lot_AvailableQuantity :: go_uint
  lot_OriginalExpiresAt :: go_time
  lot_ExpiresAt :: go_time
  lot_ExpiryChangedAt :: go_time
  lot_RenewalCount :: go_uint
  lot_EverUsed :: bool
  lot_Status :: string
  lot_Version :: go_uint
  lot_CreatedAt :: go_time
  lot_UpdatedAt :: go_time

record Transaction =
  txn_ID :: uint64
  txn_TransactionNo :: string
  txn_LotID :: uint64
  txn_OwnerCustomerID :: uint64
  txn_TransactionType :: string
  txn_QuantityDelta :: go_int
  txn_BeforeAvailableQuantity :: go_uint
  txn_AfterAvailableQuantity :: go_uint
  txn_BizType :: string
  txn_BizID :: uint64
  txn_ActionKey :: string
  txn_MetadataJSON :: json
  txn_RequestID :: "string option"
  txn_CreatedAt :: go_time

record LotAssetChange =
  chg_AvailableQuantity :: go_uint
  chg_Status :: string
  chg_EverUsed :: bool
  chg_SetEverUsed :: bool
  chg_UpdatedAt :: go_time

text \<open>The unique indexes and column ranges of \<open>wine_ticket_lots\<close> and
  \<open>wine_ticket_transactions\<close> in the migration.\<close>

definition lot_clash :: "Lot \<Rightarrow> Lot \<Rightarrow> bool" where
  "lot_clash a b \<longleftrightarrow> lot_ID a = lot_ID b \<or> lot_LotNo a = lot_LotNo b"

definition lot_fits :: "Lot \<Rightarrow> bool" where
  "lot_fits l \<longleftrightarrow> lot_TotalQuantity l < 2 ^ 32 \<and> lot_AvailableQuantity l < 2 ^ 32"

definition txn_clash :: "Transaction \<Rightarrow> Transaction \<Rightarrow> bool" where
  "txn_clash a b \<longleftrightarrow> txn_ID a = txn_ID b \<or> txn_TransactionNo a = txn_TransactionNo b \<or>
     txn_ActionKey a = txn_ActionKey b"

definition txn_fits :: "Transaction \<Rightarrow> bool" where
  "txn_fits t \<longleftrightarrow> - (2 ^ 31) \<le> sint (txn_QuantityDelta t) \<and> sint (txn_QuantityDelta t) < 2 ^ 31 \<and>
     txn_BeforeAvailableQuantity t < 2 ^ 32 \<and> txn_AfterAvailableQuantity t < 2 ^ 32"

subsection \<open>The repository interface and its implementation\<close>

record 's asset_repo =
  TransactionByActionKey :: "string \<Rightarrow> ('s, go_error, Transaction) go"
  LockLot :: "uint64 \<Rightarrow> ('s, go_error, Lot) go"
  UpdateLot :: "uint64 \<Rightarrow> go_uint \<Rightarrow> LotAssetChange \<Rightarrow> ('s, go_error, bool) go"
  CreateTransaction :: "Transaction \<Rightarrow> ('s, go_error, unit) go"
  CreateLot :: "Lot \<Rightarrow> ('s, go_error, unit) go"

text \<open>What a business transaction of this module sees: the clock, the identifier generator and
  the two tables. The tables of the other wine-ticket modules extend the record.\<close>

record ticket_world =
  wall :: go_time
  snow :: Generator
  lots :: "Lot list"
  transactions :: "Transaction list"

definition wall_now :: "'z ticket_world_scheme \<Rightarrow> go_time \<times> 'z ticket_world_scheme" where
  "wall_now w = (wall w, w)"

lemma wall_now_fst [simp]: "fst (wall_now w) = wall w"
  by (simp add: wall_now_def)

definition world_next_id :: "'z ticket_world_scheme \<Rightarrow> uint64 \<times> 'z ticket_world_scheme" where
  "world_next_id w =
     (case snow_Next (of_int (unix_milli (wall w))) (snow w) of (i, g) \<Rightarrow> (i, w\<lparr>snow := g\<rparr>))"

definition assetRepositoryError :: "go_error \<Rightarrow> go_error" where
  "assetRepositoryError e = (if e = ErrRecordNotFound then ErrAssetRecordNotFound else e)"

definition repo_TransactionByActionKey ::
    "Transaction engine \<Rightarrow> string \<Rightarrow> ('z ticket_world_scheme, go_error, Transaction) go" where
  "repo_TransactionByActionKey txE actionKey w =
     (case sql_take txE (\<lambda>t. txn_ActionKey t = actionKey) (transactions w) of
        Inl e \<Rightarrow> (Inl (assetRepositoryError e), w)
      | Inr row \<Rightarrow> (Inr row, w))"

definition repo_LockLot ::
    "Lot engine \<Rightarrow> uint64 \<Rightarrow> ('z ticket_world_scheme, go_error, Lot) go" where
  "repo_LockLot lotE lotID w =
     (case sql_take lotE (\<lambda>l. lot_ID l = lotID) (lots w) of
        Inl e \<Rightarrow> (Inl (assetRepositoryError e), w)
      | Inr row \<Rightarrow> (Inr row, w))"

definition repo_CreateLot ::
    "Lot engine \<Rightarrow> Lot \<Rightarrow> ('z ticket_world_scheme, go_error, unit) go" where
  "repo_CreateLot lotE lot w =
     (case sql_create lotE lot (lots w) of
        Inl e \<Rightarrow> (Inl e, w) | Inr rows \<Rightarrow> (Inr (), w\<lparr>lots := rows\<rparr>))"

definition apply_lot_change :: "LotAssetChange \<Rightarrow> Lot \<Rightarrow> Lot" where
  "apply_lot_change change l =
     (let l1 = l\<lparr>lot_AvailableQuantity := chg_AvailableQuantity change,
                 lot_Status := chg_Status change,
                 lot_Version := lot_Version l + 1,
                 lot_UpdatedAt := chg_UpdatedAt change\<rparr>
      in if chg_SetEverUsed change then l1\<lparr>lot_EverUsed := chg_EverUsed change\<rparr> else l1)"

definition repo_UpdateLot ::
    "Lot engine \<Rightarrow> uint64 \<Rightarrow> go_uint \<Rightarrow> LotAssetChange \<Rightarrow> ('z ticket_world_scheme, go_error, bool) go" where
  "repo_UpdateLot lotE lotID expectedVersion change w =
     (case sql_updates lotE (\<lambda>l. lot_ID l = lotID \<and> lot_Version l = expectedVersion)
             (apply_lot_change change) (lots w) of
        Inl e \<Rightarrow> (Inl e, w)
      | Inr (rows, affected) \<Rightarrow> (Inr (affected = 1), w\<lparr>lots := rows\<rparr>))"

definition repo_CreateTransaction ::
    "Transaction engine \<Rightarrow> Transaction \<Rightarrow> ('z ticket_world_scheme, go_error, unit) go" where
  "repo_CreateTransaction txE t w =
     (case sql_create txE t (transactions w) of
        Inl e \<Rightarrow> (Inl e, w) | Inr rows \<Rightarrow> (Inr (), w\<lparr>transactions := rows\<rparr>))"

definition transactionAssetRepository ::
    "Lot engine \<Rightarrow> Transaction engine \<Rightarrow> 'z ticket_world_scheme asset_repo" where
  "transactionAssetRepository lotE txE =
     \<lparr>TransactionByActionKey = repo_TransactionByActionKey txE,
      LockLot = repo_LockLot lotE,
      UpdateLot = repo_UpdateLot lotE,
      CreateTransaction = repo_CreateTransaction txE,
      CreateLot = repo_CreateLot lotE\<rparr>"

subsection \<open>What the service relies on\<close>

locale asset_ledger =
  fixes R :: "'s asset_repo"
    and lots_of :: "'s \<Rightarrow> Lot list"
    and ledger_of :: "'s \<Rightarrow> Transaction list"
    and nxt :: "'s \<Rightarrow> uint64 \<times> 's"
    and now :: "'s \<Rightarrow> go_time \<times> 's"
  assumes find_found: "TransactionByActionKey R key s = (Inr t, s') \<Longrightarrow>
      t \<in> set (ledger_of s) \<and> txn_ActionKey t = key"
    and find_missing: "TransactionByActionKey R key s = (Inl ErrAssetRecordNotFound, s') \<Longrightarrow>
      t \<in> set (ledger_of s) \<Longrightarrow> txn_ActionKey t \<noteq> key"
    and find_frame: "TransactionByActionKey R key s = (r, s') \<Longrightarrow> s' = s"
    and lock_found: "LockLot R lotID s = (Inr l, s') \<Longrightarrow> l \<in> set (lots_of s) \<and> lot_ID l = lotID"
    and lock_missing: "LockLot R lotID s = (Inl ErrAssetRecordNotFound, s') \<Longrightarrow>
      l \<in> set (lots_of s) \<Longrightarrow> lot_ID l \<noteq> lotID"
    and lock_frame: "LockLot R lotID s = (r', s') \<Longrightarrow> s' = s"
    and update_done: "UpdateLot R lotID v change s = (Inr changed, s') \<Longrightarrow>
      ledger_of s' = ledger_of s \<and>
      lots_of s' = update_where (\<lambda>l. lot_ID l = lotID \<and> lot_Version l = v)
        (apply_lot_change change) (lots_of s) \<and>
      (changed \<longleftrightarrow> length (filter (\<lambda>l. lot_ID l = lotID \<and> lot_Version l = v) (lots_of s)) = 1)"
    and update_frame: "UpdateLot R lotID v change s = (Inl e, s') \<Longrightarrow> s' = s"
    and create_txn_done: "CreateTransaction R t s = (Inr u, s') \<Longrightarrow>
      lots_of s' = lots_of s \<and> ledger_of s' = ledger_of s @ [t] \<and>
      (\<forall>t'\<in>set (ledger_of s). txn_ActionKey t' \<noteq> txn_ActionKey t)"
    and create_txn_frame: "CreateTransaction R t s = (Inl e, s') \<Longrightarrow> s' = s"
    and create_lot_done: "CreateLot R l s = (Inr u, s') \<Longrightarrow>
      lots_of s' = lots_of s @ [l] \<and> ledger_of s' = ledger_of s \<and> lot_fits l \<and>
      (\<forall>l'\<in>set (lots_of s). lot_ID l' \<noteq> lot_ID l)"
    and create_lot_frame: "CreateLot R l s = (Inl e, s') \<Longrightarrow> s' = s"
    and next_frame: "nxt s = (i, s') \<Longrightarrow> lots_of s' = lots_of s \<and> ledger_of s' = ledger_of s"
    and now_frame: "now s = (at, s') \<Longrightarrow> lots_of s' = lots_of s \<and> ledger_of s' = ledger_of s"

text \<open>Any two engines with the laws of a table make the implementation such a repository.\<close>

locale ticket_engines =
  lot_table: gorm_table lotE lot_clash lot_fits + txn_table: gorm_table txE txn_clash txn_fits
  for lotE :: "Lot engine" and txE :: "Transaction engine"

lemma apply_lot_change_sel [simp]:
  "lot_ID (apply_lot_change change l) = lot_ID l"
  "lot_Version (apply_lot_change change l) = lot_Version l + 1"
  "lot_AvailableQuantity (apply_lot_change change l) = chg_AvailableQuantity change"
  "lot_TotalQuantity (apply_lot_change change l) = lot_TotalQuantity l"
  "lot_Status (apply_lot_change change l) = chg_Status change"
  "lot_OwnerCustomerID (apply_lot_change change l) = lot_OwnerCustomerID l"
  "lot_ExpiresAt (apply_lot_change change l) = lot_ExpiresAt l"
  by (auto simp: apply_lot_change_def Let_def)

lemma apply_lot_change_neq [simp]: "apply_lot_change change l \<noteq> l"
  by (metis apply_lot_change_sel(2) word_Suc_neq)

lemma assetRepositoryError_missing:
  "assetRepositoryError e = ErrAssetRecordNotFound \<Longrightarrow> e \<noteq> ErrAssetRecordNotFound \<Longrightarrow> e = ErrRecordNotFound"
  by (auto simp: assetRepositoryError_def split: if_splits)

context ticket_engines
begin

lemma create_txn_fresh:
  "sql_create txE t rows = Inr rows' \<Longrightarrow> t' \<in> set rows \<Longrightarrow> txn_ActionKey t' \<noteq> txn_ActionKey t"
  by (metis txn_clash_def txn_table.create_row)

lemma create_lot_fresh:
  "sql_create lotE l rows = Inr rows' \<Longrightarrow> l' \<in> set rows \<Longrightarrow> lot_ID l' \<noteq> lot_ID l"
  by (metis lot_clash_def lot_table.create_row)

lemma repository_laws:
  "asset_ledger (transactionAssetRepository lotE txE) lots transactions world_next_id
     (wall_now :: 'z ticket_world_scheme \<Rightarrow> _)"
proof
  fix lotID v change s s' changed
  assume "UpdateLot (transactionAssetRepository lotE txE) lotID v change s = (Inr changed, s')"
  then obtain rows n where upd: "sql_updates lotE (\<lambda>l. lot_ID l = lotID \<and> lot_Version l = v)
        (apply_lot_change change) (lots s) = Inr (rows, n)"
      and s': "s' = s\<lparr>lots := rows\<rparr>" "changed \<longleftrightarrow> n = 1"
    by (auto simp: transactionAssetRepository_def repo_UpdateLot_def split: sum.splits)
  then show "transactions s' = transactions s \<and>
      lots s' = update_where (\<lambda>l. lot_ID l = lotID \<and> lot_Version l = v)
        (apply_lot_change change) (lots s) \<and>
      (changed \<longleftrightarrow> length (filter (\<lambda>l. lot_ID l = lotID \<and> lot_Version l = v) (lots s)) = 1)"
    using lot_table.updates_rows [OF upd] lot_table.updates_count [OF upd] by simp
qed (auto simp: transactionAssetRepository_def repo_TransactionByActionKey_def repo_LockLot_def
    repo_UpdateLot_def repo_CreateTransaction_def repo_CreateLot_def world_next_id_def wall_now_def
    assetRepositoryError_def
    split: sum.splits prod.splits if_splits
    dest: lot_table.take_row txn_table.take_row lot_table.take_missing txn_table.take_missing
      lot_table.create_row txn_table.create_row create_txn_fresh create_lot_fresh
    simp: lot_table.take_sentinel txn_table.take_sentinel)

end

sublocale ticket_engines \<subseteq> repository: asset_ledger
    "transactionAssetRepository lotE txE" lots transactions world_next_id wall_now
  by (rule repository_laws)

abbreviation mem_lots :: "Lot engine" where
  "mem_lots \<equiv> mem_engine lot_clash lot_fits"

abbreviation mem_txns :: "Transaction engine" where
  "mem_txns \<equiv> mem_engine txn_clash txn_fits"

interpretation mem_ticket: ticket_engines mem_lots mem_txns
  by unfold_locales

end
