(* ===== verification/Ticket_Assets.thy ===== *)
theory Ticket_Assets
  imports Ticket_Ledger
begin

text \<open>
  The wine-ticket asset service: \<open>wineticket/core/asset_service.go\<close>. Issue, Freeze, Redeem,
  Transfer, Restore and Expire change the available quantity of a lot and write the ledger
  row that proves it; each is keyed by an action key and replays a command it has already
  executed. The service is written against the repository record \<open>asset_repo\<close>, as the Go
  code is written against the interface; a service or repository that is nil is \<open>None\<close>.

  The lemmas are proved once in the locale \<open>asset_ledger\<close>: what a successful call has
  changed (one case for a replay, one for a fresh mutation), that the books stay balanced,
  and that replays change nothing.
\<close>

subsection \<open>Commands and results\<close>

record AssetEvidence =
  ev_TransactionType :: string
  ev_BizType :: string
  ev_BizID :: uint64
  ev_ActionKey :: string
  ev_Metadata :: json

record AssetCommand =
  cmd_LotID :: uint64
  cmd_OwnerCustomerID :: uint64
  cmd_Quantity :: go_uint
  cmd_MarkUsed :: bool
  cmd_TransactionType :: string
  cmd_BizType :: string
  cmd_BizID :: uint64
  cmd_ActionKey :: string
  cmd_Metadata :: json
  cmd_OccurredAt :: go_time
  cmd_ExpiryEvidence :: "AssetEvidence option"

record IssueCommand =
  iss_Lot :: Lot
  iss_TransactionType :: string
  iss_BizType :: string
  iss_BizID :: uint64
  iss_ActionKey :: string
  iss_Metadata :: json
  iss_OccurredAt :: go_time

record TransferCommand =
  tr_ReceiverLot :: Lot
  tr_TransactionType :: string
  tr_BizType :: string
  tr_BizID :: uint64
  tr_ActionKey :: string
  tr_Metadata :: json
  tr_OccurredAt :: go_time

record ExpireCommand =
  exp_LotID :: uint64
  exp_OwnerCustomerID :: uint64
  exp_TransactionType :: string
  exp_BizType :: string
  exp_BizID :: uint64
  exp_ActionKey :: string
  exp_Metadata :: json
  exp_OccurredAt :: go_time

record AssetMutation =
  mut_Lot :: Lot
  mut_Transactions :: "Transaction list"
  mut_Replayed :: bool

record 's AssetService =
  svc_ids :: "('s \<Rightarrow> uint64 \<times> 's) option"
  svc_now :: "('s \<Rightarrow> go_time \<times> 's) option"

definition NewAssetService ::
    "('s \<Rightarrow> uint64 \<times> 's) option \<Rightarrow> ('s \<Rightarrow> go_time \<times> 's) \<Rightarrow> 's AssetService" where
  "NewAssetService ids clock = \<lparr>svc_ids = ids, svc_now = Some clock\<rparr>"

definition WithClock :: "'s AssetService \<Rightarrow> ('s \<Rightarrow> go_time \<times> 's) option \<Rightarrow> 's AssetService" where
  "WithClock s now = (if now \<noteq> None then s\<lparr>svc_now := now\<rparr> else s)"

subsection \<open>Checks and helpers\<close>

definition asset_ready :: "'s AssetService option \<Rightarrow> 's asset_repo option \<Rightarrow> go_error option" where
  "asset_ready s repo =
     (case s of
        None \<Rightarrow> Some (problem_Internal ''wine ticket asset service is not configured'')
      | Some svc \<Rightarrow>
          if svc_ids svc = None \<or> svc_now svc = None \<or> repo = None
          then Some (problem_Internal ''wine ticket asset service is not configured'')
          else None)"

definition validateAssetEvidence ::
    "string \<Rightarrow> string \<Rightarrow> uint64 \<Rightarrow> string \<Rightarrow> go_error option" where
  "validateAssetEvidence transactionType bizType bizID actionKey =
     (if transactionType = '''' \<or> bizType = '''' \<or> bizID = 0 \<or> length actionKey = 0 \<or>
         160 < length actionKey
      then Some (problem_Internal ''wine ticket asset evidence is incomplete'') else None)"

definition validateAssetCommand :: "AssetCommand \<Rightarrow> go_error option" where
  "validateAssetCommand c =
     (if cmd_LotID c = 0 \<or> cmd_OwnerCustomerID c = 0 \<or> cmd_Quantity c = 0
      then Some (problem_Internal ''wine ticket asset command is incomplete'')
      else validateAssetEvidence (cmd_TransactionType c) (cmd_BizType c) (cmd_BizID c)
        (cmd_ActionKey c))"

definition assetReplayConflict :: go_error where
  "assetReplayConflict = problem_Conflict ''WT_IDEMPOTENCY_CONFLICT''
     ''wine ticket asset replay does not match the original mutation''"

definition concurrentAssetMutation :: go_error where
  "concurrentAssetMutation = problem_Conflict ''WT_CONCURRENT_MODIFICATION''
     ''wine ticket lot changed concurrently''"

definition lotNotFound :: go_error where
  "lotNotFound = problem_NotFound ''WT_LOT_NOT_FOUND'' ''wine ticket lot not found''"

definition occurredAt :: "'s AssetService \<Rightarrow> go_time \<Rightarrow> ('s, go_error, go_time) go" where
  "occurredAt s value =
     (if value = 0 then NowShanghai (the (svc_now s))
      else go_ok (truncate_to nanos_per_milli value))"

definition newTransaction ::
    "'s AssetService \<Rightarrow> string option \<Rightarrow> Lot \<Rightarrow> string \<Rightarrow> go_int \<Rightarrow> go_uint \<Rightarrow> go_uint \<Rightarrow>
     string \<Rightarrow> uint64 \<Rightarrow> string \<Rightarrow> json \<Rightarrow> go_time \<Rightarrow> ('s, go_error, Transaction) go" where
  "newTransaction s requestID lot transactionType delta before after bizType bizID actionKey metadata now =
     go_bind (go_call (the (svc_ids s))) (\<lambda>i. go_ok
       \<lparr>txn_ID = i, txn_TransactionNo = ''WTT'' @ IDString i, txn_LotID = lot_ID lot,
        txn_OwnerCustomerID = lot_OwnerCustomerID lot, txn_TransactionType = transactionType,
        txn_QuantityDelta = delta, txn_BeforeAvailableQuantity = before,
        txn_AfterAvailableQuantity = after, txn_BizType = bizType, txn_BizID = bizID,
        txn_ActionKey = actionKey, txn_MetadataJSON = metadata, txn_RequestID = requestID,
        txn_CreatedAt = now\<rparr>)"

definition sameOptionalID :: "uint64 option \<Rightarrow> uint64 option \<Rightarrow> bool" where
  "sameOptionalID left right =
     (case (left, right) of (Some a, Some b) \<Rightarrow> a = b | _ \<Rightarrow> left = None \<and> right = None)"

definition sameLotLineage :: "Lot \<Rightarrow> Lot \<Rightarrow> bool" where
  "sameLotLineage actual expected \<longleftrightarrow>
     lot_OwnerCustomerID actual = lot_OwnerCustomerID expected \<and>
     lot_PurchaseID actual = lot_PurchaseID expected \<and>
     lot_SourceType actual = lot_SourceType expected \<and>
     sameOptionalID (lot_SourceLotID actual) (lot_SourceLotID expected) \<and>
     sameOptionalID (lot_SourceGiftID actual) (lot_SourceGiftID expected) \<and>
     lot_IssuerMerchantID actual = lot_IssuerMerchantID expected \<and>
     lot_ProductID actual = lot_ProductID expected \<and>
     lot_RedeemCityCode actual = lot_RedeemCityCode expected \<and>
     lot_TotalQuantity actual = lot_TotalQuantity expected \<and>
     lot_OriginalExpiresAt actual = lot_OriginalExpiresAt expected"

definition restoreExpiryEvidence :: "AssetCommand \<Rightarrow> AssetEvidence" where
  "restoreExpiryEvidence c =
     (case cmd_ExpiryEvidence c of
        Some ev \<Rightarrow> ev
      | None \<Rightarrow>
          \<lparr>ev_TransactionType = TransactionTypeExpiry, ev_BizType = cmd_BizType c,
           ev_BizID = cmd_BizID c, ev_ActionKey = cmd_ActionKey c @ '':expiry'',
           ev_Metadata = JObject [(''restore_action_key'', JString (cmd_ActionKey c))]\<rparr>)"

text \<open>\<open>ValidateAssetTransaction\<close>: \<open>Some\<close> the error. The sum is the 64-bit sum.\<close>

definition ValidateAssetTransaction :: "Transaction \<Rightarrow> go_error option" where
  "ValidateAssetTransaction t =
     (if txn_QuantityDelta t = 0
      then Some (ErrMessage ''wine ticket transaction delta must not be zero'')
      else let calculated = txn_BeforeAvailableQuantity t + txn_QuantityDelta t
           in if sint calculated < 0 \<or> calculated \<noteq> txn_AfterAvailableQuantity t
              then Some (ErrMessage ''wine ticket transaction balance equation is invalid'')
              else None)"

subsection \<open>Replays\<close>

text \<open>\<open>None\<close>: no ledger row has the action key.\<close>

definition replayAssetMutation ::
    "'s asset_repo \<Rightarrow> string \<Rightarrow> uint64 \<Rightarrow> string \<Rightarrow> string \<Rightarrow> uint64 \<Rightarrow> go_int \<Rightarrow>
     ('s, go_error, AssetMutation option) go" where
  "replayAssetMutation repo actionKey lotID transactionType bizType bizID delta =
     go_bind (go_try (TransactionByActionKey repo actionKey)) (\<lambda>result.
       case result of
         Inl e \<Rightarrow> if e = ErrAssetRecordNotFound then go_ok None else go_err e
       | Inr existing \<Rightarrow>
           if (lotID \<noteq> 0 \<and> txn_LotID existing \<noteq> lotID) \<or>
              txn_TransactionType existing \<noteq> transactionType \<or>
              txn_BizType existing \<noteq> bizType \<or> txn_BizID existing \<noteq> bizID \<or>
              txn_QuantityDelta existing \<noteq> delta
           then go_err (problem_Conflict ''WT_IDEMPOTENCY_CONFLICT''
             ''wine ticket asset action key was used by another mutation'')
           else go_bind (LockLot repo (txn_LotID existing)) (\<lambda>lot.
             go_ok (Some \<lparr>mut_Lot = lot, mut_Transactions = [existing], mut_Replayed = True\<rparr>)))"

definition replayIssueAssetMutation ::
    "'s asset_repo \<Rightarrow> IssueCommand \<Rightarrow> ('s, go_error, AssetMutation option) go" where
  "replayIssueAssetMutation repo c =
     go_bind (replayAssetMutation repo (iss_ActionKey c) (lot_ID (iss_Lot c)) (iss_TransactionType c)
       (iss_BizType c) (iss_BizID c) (lot_TotalQuantity (iss_Lot c))) (\<lambda>result.
       case result of
         None \<Rightarrow> go_ok None
       | Some replay \<Rightarrow>
           let issuance = hd (mut_Transactions replay)
           in if txn_OwnerCustomerID issuance \<noteq> lot_OwnerCustomerID (iss_Lot c) \<or>
                 txn_BeforeAvailableQuantity issuance \<noteq> 0 \<or>
                 txn_AfterAvailableQuantity issuance \<noteq> lot_TotalQuantity (iss_Lot c) \<or>
                 \<not> sameLotLineage (mut_Lot replay) (iss_Lot c)
              then go_err assetReplayConflict
              else go_ok (Some replay))"

definition validateRestoreReplay ::
    "'s asset_repo \<Rightarrow> AssetCommand \<Rightarrow> AssetMutation \<Rightarrow> ('s, go_error, AssetMutation) go" where
  "validateRestoreReplay repo c replay =
     (let restore = hd (mut_Transactions replay) in
      if txn_OwnerCustomerID restore \<noteq> cmd_OwnerCustomerID c \<or>
         lot_OwnerCustomerID (mut_Lot replay) \<noteq> cmd_OwnerCustomerID c \<or>
         txn_BeforeAvailableQuantity restore + cmd_Quantity c \<noteq> txn_AfterAvailableQuantity restore
      then go_err assetReplayConflict
      else if txn_CreatedAt restore < lot_ExpiresAt (mut_Lot replay) then go_ok replay
      else let evidence = restoreExpiryEvidence c in
        case validateAssetEvidence (ev_TransactionType evidence) (ev_BizType evidence)
               (ev_BizID evidence) (ev_ActionKey evidence) of
          Some e \<Rightarrow> go_err e
        | None \<Rightarrow> go_bind (go_try (TransactionByActionKey repo (ev_ActionKey evidence))) (\<lambda>result.
            case result of
              Inl e \<Rightarrow> if e = ErrAssetRecordNotFound then go_err assetReplayConflict else go_err e
            | Inr expiry \<Rightarrow>
                if txn_LotID expiry \<noteq> txn_LotID restore \<or>
                   txn_OwnerCustomerID expiry \<noteq> cmd_OwnerCustomerID c \<or>
                   txn_TransactionType expiry \<noteq> ev_TransactionType evidence \<or>
                   txn_BizType expiry \<noteq> ev_BizType evidence \<or>
                   txn_BizID expiry \<noteq> ev_BizID evidence \<or>
                   txn_QuantityDelta expiry \<noteq> - txn_AfterAvailableQuantity restore \<or>
                   txn_BeforeAvailableQuantity expiry \<noteq> txn_AfterAvailableQuantity restore \<or>
                   txn_AfterAvailableQuantity expiry \<noteq> 0 \<or>
                   txn_CreatedAt expiry \<noteq> txn_CreatedAt restore \<or>
                   lot_AvailableQuantity (mut_Lot replay) \<noteq> 0 \<or>
                   lot_Status (mut_Lot replay) \<noteq> LotStatusExpired
                then go_err assetReplayConflict
                else go_ok (replay\<lparr>mut_Transactions := mut_Transactions replay @ [expiry]\<rparr>)))"

subsection \<open>Operations\<close>

text \<open>\<open>Issue\<close>, after the checks: the defaults of the new lot, then the lot and its ledger row.\<close>

definition issue_defaults :: "go_time \<Rightarrow> Lot \<Rightarrow> Lot" where
  "issue_defaults now lot =
     (let l1 = (if lot_LotNo lot = '''' then lot\<lparr>lot_LotNo := ''WTL'' @ IDString (lot_ID lot)\<rparr> else lot);
          l2 = (if lot_ExpiryChangedAt l1 = 0 then l1\<lparr>lot_ExpiryChangedAt := now\<rparr> else l1);
          l3 = (if lot_Status l2 = '''' then l2\<lparr>lot_Status := LotStatusActive\<rparr> else l2);
          l4 = (if lot_Version l3 = 0 then l3\<lparr>lot_Version := 1\<rparr> else l3);
          l5 = (if lot_CreatedAt l4 = 0 then l4\<lparr>lot_CreatedAt := now\<rparr> else l4)
      in l5\<lparr>lot_UpdatedAt := now\<rparr>)"

definition issue_fresh ::
    "'s AssetService \<Rightarrow> 's asset_repo \<Rightarrow> string option \<Rightarrow> IssueCommand \<Rightarrow> ('s, go_error, AssetMutation) go" where
  "issue_fresh s repo requestID c =
     go_bind (occurredAt s (iss_OccurredAt c)) (\<lambda>now.
     go_bind (if lot_ID (iss_Lot c) = 0 then go_call (the (svc_ids s)) else go_ok (lot_ID (iss_Lot c))) (\<lambda>i.
       let lot = issue_defaults now ((iss_Lot c)\<lparr>lot_ID := i\<rparr>) in
       go_bind (CreateLot repo lot) (\<lambda>_.
       go_bind (newTransaction s requestID lot (iss_TransactionType c) (lot_TotalQuantity lot) 0
         (lot_TotalQuantity lot) (iss_BizType c) (iss_BizID c) (iss_ActionKey c) (iss_Metadata c) now)
         (\<lambda>transaction.
       go_bind (CreateTransaction repo transaction) (\<lambda>_.
         go_ok \<lparr>mut_Lot = lot, mut_Transactions = [transaction], mut_Replayed = False\<rparr>)))))"

definition Issue ::
    "'s AssetService option \<Rightarrow> 's asset_repo option \<Rightarrow> string option \<Rightarrow> IssueCommand \<Rightarrow>
     ('s, go_error, AssetMutation) go" where
  "Issue s repo requestID c =
     (case asset_ready s repo of
        Some e \<Rightarrow> go_err e
      | None \<Rightarrow>
          if lot_TotalQuantity (iss_Lot c) = 0 \<or>
             lot_AvailableQuantity (iss_Lot c) \<noteq> lot_TotalQuantity (iss_Lot c)
          then go_err (problem_Internal ''issued wine ticket lot must start with a positive full balance'')
          else if lot_OwnerCustomerID (iss_Lot c) = 0 \<or> lot_PurchaseID (iss_Lot c) = 0 \<or>
             lot_ProductID (iss_Lot c) = 0 \<or> lot_IssuerMerchantID (iss_Lot c) = 0
          then go_err (problem_Internal ''issued wine ticket lot lineage is incomplete'')
          else case validateAssetEvidence (iss_TransactionType c) (iss_BizType c) (iss_BizID c)
                 (iss_ActionKey c) of
            Some e \<Rightarrow> go_err e
          | None \<Rightarrow>
              if lot_OriginalExpiresAt (iss_Lot c) = 0 \<or> lot_ExpiresAt (iss_Lot c) = 0 \<or>
                 lot_ExpiresAt (iss_Lot c) < lot_OriginalExpiresAt (iss_Lot c)
              then go_err (problem_Internal ''issued wine ticket lot expiry is invalid'')
              else go_bind (replayIssueAssetMutation (the repo) c) (\<lambda>replayed.
                case replayed of
                  Some replay \<Rightarrow> go_ok replay
                | None \<Rightarrow> issue_fresh (the s) (the repo) requestID c))"

text \<open>\<open>debit\<close>, after the replay check.\<close>

definition debit_fresh ::
    "'s AssetService \<Rightarrow> 's asset_repo \<Rightarrow> string option \<Rightarrow> AssetCommand \<Rightarrow> bool \<Rightarrow>
     ('s, go_error, AssetMutation) go" where
  "debit_fresh s repo requestID c markUsed =
     go_bind (go_try (LockLot repo (cmd_LotID c))) (\<lambda>locked.
       case locked of
         Inl e \<Rightarrow> go_err (if e = ErrAssetRecordNotFound then lotNotFound else e)
       | Inr lot \<Rightarrow>
           go_bind (occurredAt s (cmd_OccurredAt c)) (\<lambda>now.
             if lot_OwnerCustomerID lot \<noteq> cmd_OwnerCustomerID c then go_err lotNotFound
             else if lot_Status lot \<noteq> LotStatusActive \<or> lot_ExpiresAt lot \<le> now \<or>
                     lot_AvailableQuantity lot < cmd_Quantity c
             then go_err (problem_Conflict ''WT_INSUFFICIENT_AVAILABLE_QUANTITY''
                    ''wine ticket available quantity is insufficient'')
             else let after = lot_AvailableQuantity lot - cmd_Quantity c;
                      status = (if after = 0 then LotStatusDepleted else LotStatusActive) in
               go_bind (UpdateLot repo (lot_ID lot) (lot_Version lot)
                 \<lparr>chg_AvailableQuantity = after, chg_Status = status,
                  chg_EverUsed = markUsed \<or> lot_EverUsed lot, chg_SetEverUsed = markUsed,
                  chg_UpdatedAt = now\<rparr>) (\<lambda>changed.
               if \<not> changed then go_err concurrentAssetMutation
               else
                 go_bind (newTransaction s requestID lot (cmd_TransactionType c) (- cmd_Quantity c)
                   (lot_AvailableQuantity lot) after (cmd_BizType c) (cmd_BizID c) (cmd_ActionKey c)
                   (cmd_Metadata c) now) (\<lambda>transaction.
                 go_bind (CreateTransaction repo transaction) (\<lambda>_.
                   go_ok \<lparr>mut_Lot = lot\<lparr>lot_AvailableQuantity := after, lot_Status := status,
                             lot_EverUsed := (if markUsed then True else lot_EverUsed lot),
                             lot_Version := lot_Version lot + 1, lot_UpdatedAt := now\<rparr>,
                          mut_Transactions = [transaction], mut_Replayed = False\<rparr>)))))"

definition debit ::
    "'s AssetService option \<Rightarrow> 's asset_repo option \<Rightarrow> string option \<Rightarrow> AssetCommand \<Rightarrow> bool \<Rightarrow>
     ('s, go_error, AssetMutation) go" where
  "debit s repo requestID c markUsed =
     (case asset_ready s repo of
        Some e \<Rightarrow> go_err e
      | None \<Rightarrow>
          case validateAssetCommand c of
            Some e \<Rightarrow> go_err e
          | None \<Rightarrow>
              go_bind (replayAssetMutation (the repo) (cmd_ActionKey c) (cmd_LotID c)
                (cmd_TransactionType c) (cmd_BizType c) (cmd_BizID c) (- cmd_Quantity c)) (\<lambda>replayed.
                case replayed of
                  Some replay \<Rightarrow>
                    let transaction = hd (mut_Transactions replay) in
                    if txn_OwnerCustomerID transaction \<noteq> cmd_OwnerCustomerID c \<or>
                       lot_OwnerCustomerID (mut_Lot replay) \<noteq> cmd_OwnerCustomerID c \<or>
                       txn_BeforeAvailableQuantity transaction < txn_AfterAvailableQuantity transaction \<or>
                       txn_BeforeAvailableQuantity transaction - txn_AfterAvailableQuantity transaction
                         \<noteq> cmd_Quantity c
                    then go_err assetReplayConflict
                    else go_ok replay
                | None \<Rightarrow> debit_fresh (the s) (the repo) requestID c markUsed))"

definition Freeze ::
    "'s AssetService option \<Rightarrow> 's asset_repo option \<Rightarrow> string option \<Rightarrow> AssetCommand \<Rightarrow>
     ('s, go_error, AssetMutation) go" where
  "Freeze s repo requestID c = debit s repo requestID c (cmd_MarkUsed c)"

definition Redeem ::
    "'s AssetService option \<Rightarrow> 's asset_repo option \<Rightarrow> string option \<Rightarrow> AssetCommand \<Rightarrow>
     ('s, go_error, AssetMutation) go" where
  "Redeem s repo requestID c = debit s repo requestID c True"

definition Transfer ::
    "'s AssetService option \<Rightarrow> 's asset_repo option \<Rightarrow> string option \<Rightarrow> TransferCommand \<Rightarrow>
     ('s, go_error, AssetMutation) go" where
  "Transfer s repo requestID c =
     (if lot_SourceType (tr_ReceiverLot c) \<noteq> LotSourceGift \<or>
         lot_SourceLotID (tr_ReceiverLot c) = None \<or> lot_SourceGiftID (tr_ReceiverLot c) = None
      then go_err (problem_Internal ''transferred wine ticket lot lineage is incomplete'')
      else Issue s repo requestID
        \<lparr>iss_Lot = tr_ReceiverLot c, iss_TransactionType = tr_TransactionType c,
         iss_BizType = tr_BizType c, iss_BizID = tr_BizID c, iss_ActionKey = tr_ActionKey c,
         iss_Metadata = tr_Metadata c, iss_OccurredAt = tr_OccurredAt c\<rparr>)"

text \<open>\<open>Restore\<close>, after the replay check: the quantity goes back; on a lot past its expiry the
  balance it brings back is taken again at once under a ledger row of its own.\<close>

definition restore_expiry ::
    "'s AssetService \<Rightarrow> 's asset_repo \<Rightarrow> string option \<Rightarrow> AssetEvidence \<Rightarrow> Lot \<Rightarrow> go_uint \<Rightarrow> go_time \<Rightarrow>
     Transaction \<Rightarrow> ('s, go_error, AssetMutation) go" where
  "restore_expiry s repo requestID evidence lot restored now restore =
     go_bind (UpdateLot repo (lot_ID lot) (lot_Version lot)
       \<lparr>chg_AvailableQuantity = 0, chg_Status = LotStatusExpired, chg_EverUsed = False,
        chg_SetEverUsed = False, chg_UpdatedAt = now\<rparr>) (\<lambda>changed.
     if \<not> changed then go_err concurrentAssetMutation
     else
       go_bind (newTransaction s requestID lot (ev_TransactionType evidence) (- restored) restored 0
         (ev_BizType evidence) (ev_BizID evidence) (ev_ActionKey evidence) (ev_Metadata evidence) now)
         (\<lambda>expiry.
       go_bind (CreateTransaction repo expiry) (\<lambda>_.
         go_ok \<lparr>mut_Lot = lot\<lparr>lot_AvailableQuantity := 0, lot_Status := LotStatusExpired,
                   lot_Version := lot_Version lot + 1\<rparr>,
                mut_Transactions = [restore, expiry], mut_Replayed = False\<rparr>)))"

definition restore_fresh ::
    "'s AssetService \<Rightarrow> 's asset_repo \<Rightarrow> string option \<Rightarrow> AssetCommand \<Rightarrow> ('s, go_error, AssetMutation) go" where
  "restore_fresh s repo requestID c =
     go_bind (go_try (LockLot repo (cmd_LotID c))) (\<lambda>locked.
       case locked of
         Inl e \<Rightarrow> go_err (if e = ErrAssetRecordNotFound then lotNotFound else e)
       | Inr lot \<Rightarrow>
           if lot_Status lot = LotStatusRefunded
           then go_err (problem_Conflict ''WT_LOT_INVALID_STATUS''
                  ''refunded wine ticket lot cannot be restored'')
           else if lot_OwnerCustomerID lot \<noteq> cmd_OwnerCustomerID c \<or>
                   lot_TotalQuantity lot - lot_AvailableQuantity lot < cmd_Quantity c
           then go_err (problem_Internal ''wine ticket restore would exceed lot quantity'')
           else go_bind (occurredAt s (cmd_OccurredAt c)) (\<lambda>now.
             let restored = lot_AvailableQuantity lot + cmd_Quantity c;
                 expired = (lot_ExpiresAt lot \<le> now);
                 evidence = restoreExpiryEvidence c in
             case (if expired
                   then validateAssetEvidence (ev_TransactionType evidence) (ev_BizType evidence)
                          (ev_BizID evidence) (ev_ActionKey evidence)
                   else None) of
               Some e \<Rightarrow> go_err e
             | None \<Rightarrow>
                 go_bind (UpdateLot repo (lot_ID lot) (lot_Version lot)
                   \<lparr>chg_AvailableQuantity = restored, chg_Status = LotStatusActive,
                    chg_EverUsed = False, chg_SetEverUsed = False, chg_UpdatedAt = now\<rparr>) (\<lambda>changed.
                 if \<not> changed then go_err concurrentAssetMutation
                 else
                   go_bind (newTransaction s requestID lot (cmd_TransactionType c) (cmd_Quantity c)
                     (lot_AvailableQuantity lot) restored (cmd_BizType c) (cmd_BizID c)
                     (cmd_ActionKey c) (cmd_Metadata c) now) (\<lambda>restore.
                   go_bind (CreateTransaction repo restore) (\<lambda>_.
                     let lot1 = lot\<lparr>lot_AvailableQuantity := restored, lot_Status := LotStatusActive,
                                    lot_Version := lot_Version lot + 1, lot_UpdatedAt := now\<rparr> in
                     if expired
                     then restore_expiry s repo requestID evidence lot1 restored now restore
                     else go_ok \<lparr>mut_Lot = lot1, mut_Transactions = [restore],
                                 mut_Replayed = False\<rparr>)))))"

definition Restore ::
    "'s AssetService option \<Rightarrow> 's asset_repo option \<Rightarrow> string option \<Rightarrow> AssetCommand \<Rightarrow>
     ('s, go_error, AssetMutation) go" where
  "Restore s repo requestID c =
     (case asset_ready s repo of
        Some e \<Rightarrow> go_err e
      | None \<Rightarrow>
          case validateAssetCommand c of
            Some e \<Rightarrow> go_err e
          | None \<Rightarrow>
              go_bind (replayAssetMutation (the repo) (cmd_ActionKey c) (cmd_LotID c)
                (cmd_TransactionType c) (cmd_BizType c) (cmd_BizID c) (cmd_Quantity c)) (\<lambda>replayed.
                case replayed of
                  Some replay \<Rightarrow> validateRestoreReplay (the repo) c replay
                | None \<Rightarrow> restore_fresh (the s) (the repo) requestID c))"

text \<open>\<open>Expire\<close>: its replay also accepts only the terminal lot.\<close>

definition expire_replay ::
    "'s asset_repo \<Rightarrow> ExpireCommand \<Rightarrow> Transaction \<Rightarrow> ('s, go_error, AssetMutation) go" where
  "expire_replay repo c existing =
     (if txn_LotID existing \<noteq> exp_LotID c \<or> txn_OwnerCustomerID existing \<noteq> exp_OwnerCustomerID c \<or>
         txn_TransactionType existing \<noteq> exp_TransactionType c \<or> txn_BizType existing \<noteq> exp_BizType c \<or>
         txn_BizID existing \<noteq> exp_BizID c \<or> 0 \<le> sint (txn_QuantityDelta existing) \<or>
         txn_BeforeAvailableQuantity existing = 0 \<or>
         txn_QuantityDelta existing \<noteq> - txn_BeforeAvailableQuantity existing \<or>
         txn_AfterAvailableQuantity existing \<noteq> 0
      then go_err (problem_Conflict ''WT_EXPIRY_LEDGER_CONFLICT''
             ''wine ticket expiry action key was used by another mutation'')
      else go_bind (LockLot repo (txn_LotID existing)) (\<lambda>lot.
        if lot_ID lot \<noteq> exp_LotID c \<or> lot_OwnerCustomerID lot \<noteq> exp_OwnerCustomerID c \<or>
           lot_AvailableQuantity lot \<noteq> 0 \<or> lot_Status lot \<noteq> LotStatusExpired
        then go_err (problem_Conflict ''WT_EXPIRY_LEDGER_CONFLICT''
               ''wine ticket expiry replay does not match the terminal lot'')
        else go_ok \<lparr>mut_Lot = lot, mut_Transactions = [existing], mut_Replayed = True\<rparr>))"

definition expire_fresh ::
    "'s AssetService \<Rightarrow> 's asset_repo \<Rightarrow> string option \<Rightarrow> ExpireCommand \<Rightarrow> ('s, go_error, AssetMutation) go" where
  "expire_fresh s repo requestID c =
     go_bind (go_try (LockLot repo (exp_LotID c))) (\<lambda>locked.
       case locked of
         Inl e \<Rightarrow> go_err (if e = ErrAssetRecordNotFound then lotNotFound else e)
       | Inr lot \<Rightarrow>
           if lot_OwnerCustomerID lot \<noteq> exp_OwnerCustomerID c then go_err lotNotFound
           else go_bind (occurredAt s (exp_OccurredAt c)) (\<lambda>now.
             if now < lot_ExpiresAt lot
             then go_err (problem_Conflict ''WT_LOT_NOT_EXPIRED'' ''wine ticket lot is not expired'')
             else if lot_Status lot = LotStatusRefunded
             then go_err (problem_Conflict ''WT_LOT_INVALID_STATUS''
                    ''refunded wine ticket lot cannot expire'')
             else if lot_AvailableQuantity lot = 0 \<and> lot_Status lot = LotStatusExpired
             then go_ok \<lparr>mut_Lot = lot, mut_Transactions = [], mut_Replayed = True\<rparr>
             else if lot_Status lot \<noteq> LotStatusActive \<and> lot_Status lot \<noteq> LotStatusDepleted
             then go_err (problem_Conflict ''WT_LOT_INVALID_STATUS''
                    ''wine ticket lot cannot enter expired status'')
             else let before = lot_AvailableQuantity lot in
               go_bind (UpdateLot repo (lot_ID lot) (lot_Version lot)
                 \<lparr>chg_AvailableQuantity = 0, chg_Status = LotStatusExpired, chg_EverUsed = False,
                  chg_SetEverUsed = False, chg_UpdatedAt = now\<rparr>) (\<lambda>changed.
               if \<not> changed then go_err concurrentAssetMutation
               else let lot1 = lot\<lparr>lot_AvailableQuantity := 0, lot_Status := LotStatusExpired,
                                   lot_Version := lot_Version lot + 1, lot_UpdatedAt := now\<rparr> in
                 if before = 0
                 then go_ok \<lparr>mut_Lot = lot1, mut_Transactions = [], mut_Replayed = False\<rparr>
                 else
                   go_bind (newTransaction s requestID lot1 (exp_TransactionType c) (- before) before 0
                     (exp_BizType c) (exp_BizID c) (exp_ActionKey c) (exp_Metadata c) now)
                     (\<lambda>transaction.
                   go_bind (CreateTransaction repo transaction) (\<lambda>_.
                     go_ok \<lparr>mut_Lot = lot1, mut_Transactions = [transaction],
                            mut_Replayed = False\<rparr>)))))"

definition Expire ::
    "'s AssetService option \<Rightarrow> 's asset_repo option \<Rightarrow> string option \<Rightarrow> ExpireCommand \<Rightarrow>
     ('s, go_error, AssetMutation) go" where
  "Expire s repo requestID c =
     (case asset_ready s repo of
        Some e \<Rightarrow> go_err e
      | None \<Rightarrow>
          if exp_LotID c = 0 \<or> exp_OwnerCustomerID c = 0
          then go_err (problem_Internal ''wine ticket expiry command is incomplete'')
          else case validateAssetEvidence (exp_TransactionType c) (exp_BizType c) (exp_BizID c)
                 (exp_ActionKey c) of
            Some e \<Rightarrow> go_err e
          | None \<Rightarrow>
              go_bind (go_try (TransactionByActionKey (the repo) (exp_ActionKey c))) (\<lambda>found.
                case found of
                  Inr existing \<Rightarrow> expire_replay (the repo) c existing
                | Inl e \<Rightarrow>
                    if e \<noteq> ErrAssetRecordNotFound then go_err e
                    else expire_fresh (the s) (the repo) requestID c))"

end
