(* ===== verification/Ticket_Books.thy ===== *)
theory Ticket_Books
  imports Ticket_Assets
begin

text \<open>
  The books of the asset core: what it means that lots and ledger agree, and the one change
  every asset operation makes to them. \<open>ledger_balance\<close> is the sum of the signed deltas the
  ledger holds for a lot; \<open>books\<close> says that it is the lot's available quantity, for every lot,
  and that every row satisfies the balance equation the code checks with
  \<open>ValidateAssetTransaction\<close>. \<open>posting\<close> is the common effect of Freeze, Redeem, Restore and
  Expire: one lot moves to a new available quantity and one row with the difference is
  appended under a fresh action key.
\<close>

definition ledger_balance :: "Transaction list \<Rightarrow> uint64 \<Rightarrow> int" where
  "ledger_balance ts lotID =
     sum_list (map (\<lambda>t. sint (txn_QuantityDelta t)) (filter (\<lambda>t. txn_LotID t = lotID) ts))"

definition lot_sound :: "Transaction list \<Rightarrow> Lot \<Rightarrow> bool" where
  "lot_sound ts l \<longleftrightarrow>
     0 < uint (lot_TotalQuantity l) \<and> uint (lot_TotalQuantity l) < 2 ^ 32 \<and>
     uint (lot_AvailableQuantity l) \<le> uint (lot_TotalQuantity l) \<and>
     ledger_balance ts (lot_ID l) = uint (lot_AvailableQuantity l) \<and>
     (lot_Status l \<in> {LotStatusDepleted, LotStatusExpired} \<longrightarrow> lot_AvailableQuantity l = 0)"

definition books :: "Lot list \<Rightarrow> Transaction list \<Rightarrow> bool" where
  "books ls ts \<longleftrightarrow>
     distinct (map lot_ID ls) \<and> distinct (map txn_ActionKey ts) \<and>
     (\<forall>t\<in>set ts. txn_LotID t \<in> lot_ID ` set ls \<and> ValidateAssetTransaction t = None) \<and>
     (\<forall>l\<in>set ls. lot_sound ts l)"

definition same_lot_version :: "Lot \<Rightarrow> Lot \<Rightarrow> bool" where
  "same_lot_version lot l \<longleftrightarrow> lot_ID l = lot_ID lot \<and> lot_Version l = lot_Version lot"

definition posting ::
    "Lot \<Rightarrow> LotAssetChange \<Rightarrow> Transaction \<Rightarrow> Lot list \<Rightarrow> Transaction list \<Rightarrow>
     Lot list \<Rightarrow> Transaction list \<Rightarrow> bool" where
  "posting lot change t ls ts ls' ts' \<longleftrightarrow>
     lot \<in> set ls \<and> ls' = update_where (same_lot_version lot) (apply_lot_change change) ls \<and>
     ts' = ts @ [t] \<and> (\<forall>t'\<in>set ts. txn_ActionKey t' \<noteq> txn_ActionKey t) \<and>
     txn_LotID t = lot_ID lot \<and> txn_OwnerCustomerID t = lot_OwnerCustomerID lot \<and>
     txn_BeforeAvailableQuantity t = lot_AvailableQuantity lot \<and>
     txn_AfterAvailableQuantity t = chg_AvailableQuantity change \<and>
     txn_QuantityDelta t = chg_AvailableQuantity change - lot_AvailableQuantity lot"

lemma ledger_balance_append [simp]:
  "ledger_balance (ts @ [t]) i =
     ledger_balance ts i + (if txn_LotID t = i then sint (txn_QuantityDelta t) else 0)"
  by (simp add: ledger_balance_def)

lemma ledger_balance_none:
  "(\<And>t. t \<in> set ts \<Longrightarrow> txn_LotID t \<noteq> i) \<Longrightarrow> ledger_balance ts i = 0"
  by (induction ts) (auto simp: ledger_balance_def)

lemma books_lotD:
  assumes "books ls ts" and "l \<in> set ls"
  shows "uint (lot_AvailableQuantity l) \<le> uint (lot_TotalQuantity l)"
    and "uint (lot_TotalQuantity l) < 2 ^ 32"
    and "ledger_balance ts (lot_ID l) = uint (lot_AvailableQuantity l)"
  using assms by (auto simp: books_def lot_sound_def)

lemma same_lot_version_unique:
  assumes "distinct (map lot_ID ls)" and "lot \<in> set ls" and "l \<in> set ls"
  shows "same_lot_version lot l \<longleftrightarrow> l = lot"
  using assms by (auto simp: same_lot_version_def dest: distinct_key_unique)

lemma set_posted_lots:
  assumes "distinct (map lot_ID ls)" and "lot \<in> set ls"
  shows "set (update_where (same_lot_version lot) (apply_lot_change change) ls) =
    insert (apply_lot_change change lot) (set ls - {lot})"
  using assms by (auto simp: set_update_where same_lot_version_unique)

lemma distinct_posted_lots:
  "distinct (map lot_ID (update_where p (apply_lot_change change) ls)) = distinct (map lot_ID ls)"
  by (simp add: map_update_where)

text \<open>The difference of two quantities below \<open>2 ^ 32\<close>, as Go's \<open>int\<close> holds it.\<close>

lemma sint_quantity_diff:
  assumes "uint (a::64 word) < 2 ^ 32" and "uint b < 2 ^ 32"
  shows "sint (a - b) = uint a - uint b"
proof -
  have "- (2 ^ 32) < uint a - uint b" and "uint a - uint b < 2 ^ 32"
    using assms uint_ge_0 [of a] uint_ge_0 [of b] by linarith+
  then have "sint (of_int (uint a - uint b) :: 64 word) = uint a - uint b"
    by (intro sint_of_int64) simp_all
  then show ?thesis by simp
qed

lemma ValidateAssetTransaction_diff:
  assumes "txn_QuantityDelta t = txn_AfterAvailableQuantity t - txn_BeforeAvailableQuantity t"
    and "txn_AfterAvailableQuantity t \<noteq> txn_BeforeAvailableQuantity t"
    and "uint (txn_AfterAvailableQuantity t) < 2 ^ 32"
  shows "ValidateAssetTransaction t = None"
  using assms by (simp add: ValidateAssetTransaction_def Let_def sint_small)

lemma posting_books:
  assumes b: "books ls ts" and p: "posting lot change t ls ts ls' ts'"
    and q: "chg_AvailableQuantity change \<le> lot_TotalQuantity lot"
      "chg_AvailableQuantity change \<noteq> lot_AvailableQuantity lot"
    and st: "chg_Status change \<in> {LotStatusDepleted, LotStatusExpired} \<longrightarrow> chg_AvailableQuantity change = 0"
  shows "books ls' ts'"
proof -
  have dist: "distinct (map lot_ID ls)" and lot: "lot \<in> set ls"
    using b p by (auto simp: books_def posting_def)
  have lots': "set ls' = insert (apply_lot_change change lot) (set ls - {lot})"
    using p set_posted_lots [OF dist lot] by (simp add: posting_def)
  have small: "uint (lot_AvailableQuantity lot) < 2 ^ 32" "uint (chg_AvailableQuantity change) < 2 ^ 32"
    using books_lotD [OF b lot] q(1) by (auto simp: word_le_def)
  have valid: "ValidateAssetTransaction t = None"
    using p q(2) small by (intro ValidateAssetTransaction_diff) (auto simp: posting_def)
  have delta: "sint (txn_QuantityDelta t) =
      uint (chg_AvailableQuantity change) - uint (lot_AvailableQuantity lot)"
    using p small by (simp add: posting_def sint_quantity_diff)
  have "lot_sound ts' l" if l: "l \<in> set ls'" for l
  proof (cases "l = apply_lot_change change lot")
    case True
    then show ?thesis
      using b p q st lot delta by (auto simp: books_def posting_def lot_sound_def word_le_def)
  next
    case False
    with l lots' dist lot have "l \<in> set ls" "lot_ID l \<noteq> lot_ID lot"
      by (auto dest: distinct_key_unique)
    with b p show ?thesis
      by (auto simp: books_def posting_def lot_sound_def)
  qed
  moreover have "lot_ID ` set ls' = lot_ID ` set ls"
    using lots' lot by (auto simp: image_iff)
  ultimately show ?thesis
    using b p valid lot by (auto simp: books_def posting_def distinct_posted_lots)
qed

lemma relabel_books:
  assumes b: "books ls ts" and lot: "lot \<in> set ls"
    and same: "chg_AvailableQuantity change = lot_AvailableQuantity lot"
    and st: "chg_Status change \<in> {LotStatusDepleted, LotStatusExpired} \<longrightarrow> lot_AvailableQuantity lot = 0"
  shows "books (update_where (same_lot_version lot) (apply_lot_change change) ls) ts"
proof -
  have dist: "distinct (map lot_ID ls)"
    using b by (simp add: books_def)
  note lots' = set_posted_lots [OF dist lot, of change]
  have "lot_ID ` set (update_where (same_lot_version lot) (apply_lot_change change) ls) = lot_ID ` set ls"
    using lots' lot by (auto simp: image_iff)
  moreover have "lot_sound ts (apply_lot_change change lot)"
    using b lot same st by (auto simp: books_def lot_sound_def)
  ultimately show ?thesis
    using b lots' by (auto simp: books_def distinct_posted_lots)
qed

lemma issue_books:
  assumes b: "books ls ts" and fresh: "\<forall>l'\<in>set ls. lot_ID l' \<noteq> lot_ID l" and fits: "lot_fits l"
    and full: "lot_TotalQuantity l \<noteq> 0" "lot_AvailableQuantity l = lot_TotalQuantity l"
      "lot_Status l \<notin> {LotStatusDepleted, LotStatusExpired}"
    and t: "txn_LotID t = lot_ID l" "txn_BeforeAvailableQuantity t = 0"
      "txn_AfterAvailableQuantity t = lot_TotalQuantity l" "txn_QuantityDelta t = lot_TotalQuantity l"
      "\<forall>t'\<in>set ts. txn_ActionKey t' \<noteq> txn_ActionKey t"
  shows "books (ls @ [l]) (ts @ [t])"
proof -
  have small: "uint (lot_TotalQuantity l) < 2 ^ 32"
    using fits by (simp add: lot_fits_def word_less_def)
  then have delta: "sint (txn_QuantityDelta t) = uint (lot_TotalQuantity l)"
    using t(4) by (simp add: sint_small)
  have valid: "ValidateAssetTransaction t = None"
    using t full small by (intro ValidateAssetTransaction_diff) auto
  have "ledger_balance ts (lot_ID l) = 0"
    using b fresh by (intro ledger_balance_none) (fastforce simp: books_def)
  then have "lot_sound (ts @ [t]) l"
    using small full delta t uint_ge_0 [of "lot_TotalQuantity l"]
    by (auto simp: lot_sound_def word_zero_uint order_le_less simp del: uint_ge_0)
  moreover have "lot_sound (ts @ [t]) l'" if "l' \<in> set ls" for l'
    using b that fresh t(1) by (auto simp: books_def lot_sound_def)
  ultimately show ?thesis
    using b fresh t valid by (auto simp: books_def)
qed

text \<open>The sum a restore computes does not wrap and stays within the lot.\<close>

lemma restored_quantity:
  assumes "books ls ts" and "lot \<in> set ls"
    and "q \<le> lot_TotalQuantity lot - lot_AvailableQuantity lot"
  shows "uint (lot_AvailableQuantity lot + q) = uint (lot_AvailableQuantity lot) + uint q"
    and "lot_AvailableQuantity lot + q \<le> lot_TotalQuantity lot"
    and "q \<noteq> 0 \<Longrightarrow> lot_AvailableQuantity lot + q \<noteq> 0"
proof -
  note bounds = books_lotD [OF assms(1,2)]
  have "uint (lot_TotalQuantity lot - lot_AvailableQuantity lot) =
      uint (lot_TotalQuantity lot) - uint (lot_AvailableQuantity lot)"
    using bounds(1) by (intro uint_diff_le) (simp add: word_le_def)
  with assms(3) have q: "uint q \<le> uint (lot_TotalQuantity lot) - uint (lot_AvailableQuantity lot)"
    by (simp add: word_le_def)
  with bounds show sum: "uint (lot_AvailableQuantity lot + q) = uint (lot_AvailableQuantity lot) + uint q"
    by (intro uint_plus_bounded) simp
  with q show "lot_AvailableQuantity lot + q \<le> lot_TotalQuantity lot"
    by (simp add: word_le_def)
  assume "q \<noteq> 0"
  then have "0 < uint q"
    using uint_ge_0 [of q] word_zero_uint [of q] by linarith
  then show "lot_AvailableQuantity lot + q \<noteq> 0"
    using sum uint_ge_0 [of "lot_AvailableQuantity lot"] unfolding word_zero_uint by linarith
qed

subsection \<open>What a lot keeps\<close>

text \<open>An operation leaves the entitlement of a lot (owner, origin, product, city, total quantity,
  expiry) as it is, never clears its used mark, and does not touch a refunded lot.\<close>

definition lot_entitlement :: "Lot \<Rightarrow> Lot" where
  "lot_entitlement l = l\<lparr>lot_AvailableQuantity := 0, lot_Status := [], lot_EverUsed := False,
     lot_Version := 0, lot_UpdatedAt := 0\<rparr>"

definition lot_evolves :: "Lot \<Rightarrow> Lot \<Rightarrow> bool" where
  "lot_evolves l l' \<longleftrightarrow> lot_entitlement l' = lot_entitlement l \<and>
     (lot_EverUsed l \<longrightarrow> lot_EverUsed l') \<and> (lot_Status l = LotStatusRefunded \<longrightarrow> l' = l)"

definition lots_evolve :: "Lot list \<Rightarrow> Lot list \<Rightarrow> bool" where
  "lots_evolve ls ls' \<longleftrightarrow> (\<forall>l\<in>set ls. \<exists>l'\<in>set ls'. lot_evolves l l')"

lemma lot_evolves_refl [simp]: "lot_evolves l l"
  by (simp add: lot_evolves_def)

lemma lot_evolves_trans:
  "lot_evolves l l1 \<Longrightarrow> lot_evolves l1 l2 \<Longrightarrow> lot_evolves l l2"
  by (auto simp: lot_evolves_def)

lemma lot_evolves_change:
  "lot_Status lot \<noteq> LotStatusRefunded \<Longrightarrow> (chg_SetEverUsed change \<longrightarrow> chg_EverUsed change) \<Longrightarrow>
     lot_evolves lot (apply_lot_change change lot)"
  by (auto simp: lot_evolves_def lot_entitlement_def apply_lot_change_def Let_def)

lemma lots_evolve_refl [simp]: "lots_evolve ls ls"
  unfolding lots_evolve_def using lot_evolves_refl by blast

lemma lots_evolve_trans: "lots_evolve a b \<Longrightarrow> lots_evolve b c \<Longrightarrow> lots_evolve a c"
  unfolding lots_evolve_def by (meson lot_evolves_trans)

lemma lots_evolve_append [simp]: "lots_evolve ls (ls @ ls')"
  unfolding lots_evolve_def set_append using lot_evolves_refl by blast

lemma lots_evolve_update:
  assumes "books ls ts" and "lot \<in> set ls" and "lot_Status lot \<noteq> LotStatusRefunded"
    and "chg_SetEverUsed change \<longrightarrow> chg_EverUsed change"
  shows "lots_evolve ls (update_where (same_lot_version lot) (apply_lot_change change) ls)"
  unfolding lots_evolve_def
proof
  fix l
  assume l: "l \<in> set ls"
  have set: "set (update_where (same_lot_version lot) (apply_lot_change change) ls) =
      insert (apply_lot_change change lot) (set ls - {lot})"
    using assms(1,2) by (intro set_posted_lots) (simp_all add: books_def)
  show "\<exists>l'\<in>set (update_where (same_lot_version lot) (apply_lot_change change) ls). lot_evolves l l'"
    unfolding set using l lot_evolves_change [OF assms(3,4)] lot_evolves_refl by blast
qed

lemma lots_evolve_posting:
  assumes "books ls ts" and "posting lot change t ls ts ls' ts'" and "lot_Status lot \<noteq> LotStatusRefunded"
    and "chg_SetEverUsed change \<longrightarrow> chg_EverUsed change"
  shows "lots_evolve ls ls'"
  using assms lots_evolve_update by (auto simp: posting_def)

end
