(* ===== verification/Ticket_Operations.thy ===== *)
theory Ticket_Operations
  imports Ticket_Books
begin

text \<open>
  What the operations of the asset service do to the books, proved once in the locale
  \<open>asset_ledger\<close> for any repository with its laws: inversion lemmas that say what a
  successful call has done, that the books stay balanced, that replays leave the lots and
  the ledger as they are, and which lots an operation refuses.
\<close>

lemma update_where_cong_same:
  "update_where (\<lambda>l. lot_ID l = lot_ID lot \<and> lot_Version l = lot_Version lot) f ls =
     update_where (same_lot_version lot) f ls"
  by (simp add: update_where_def same_lot_version_def)

lemma issue_defaults_sel [simp]:
  "lot_ID (issue_defaults at l) = lot_ID l"
  "lot_OwnerCustomerID (issue_defaults at l) = lot_OwnerCustomerID l"
  "lot_TotalQuantity (issue_defaults at l) = lot_TotalQuantity l"
  "lot_AvailableQuantity (issue_defaults at l) = lot_AvailableQuantity l"
  "lot_ExpiresAt (issue_defaults at l) = lot_ExpiresAt l"
  "lot_Status (issue_defaults at l) = (if lot_Status l = [] then LotStatusActive else lot_Status l)"
  by (simp_all add: issue_defaults_def Let_def)

context asset_ledger
begin

abbreviation service :: "'s AssetService" where
  "service \<equiv> NewAssetService (Some nxt) now"

abbreviation unchanged :: "'s \<Rightarrow> 's \<Rightarrow> bool" where
  "unchanged s s' \<equiv> lots_of s' = lots_of s \<and> ledger_of s' = ledger_of s"

lemma ready_service [simp]: "asset_ready (Some service) (Some R) = None"
  by (simp add: asset_ready_def NewAssetService_def)

text \<open>The instant an operation works with: the one the command gives, or else the clock's, at
  millisecond precision.\<close>

abbreviation instant :: "go_time \<Rightarrow> 's \<Rightarrow> go_time" where
  "instant v s \<equiv> truncate_to nanos_per_milli (if v = 0 then fst (now s) else v)"

lemma occurredAt_result:
  assumes "occurredAt service v s = (r, s')"
  shows "r = Inr (instant v s) \<and> unchanged s s'"
proof (cases "v = 0")
  case True
  with assms show ?thesis
    using now_frame [of s "fst (now s)" "snd (now s)"]
    by (auto simp: occurredAt_def NowShanghai_def NewAssetService_def
        go_eval)
next
  case False
  with assms show ?thesis
    by (auto simp: occurredAt_def)
qed

lemma occurredAt_Inl [simp]: "occurredAt service v s \<noteq> (Inl e, s')"
  using occurredAt_result by blast

lemma newTransaction_result:
  assumes "newTransaction service rid lot ty delta before after bt bid key md at s = (r, s')"
  shows "unchanged s s' \<and> (\<exists>i. r = Inr
       \<lparr>txn_ID = i, txn_TransactionNo = ''WTT'' @ IDString i, txn_LotID = lot_ID lot,
        txn_OwnerCustomerID = lot_OwnerCustomerID lot, txn_TransactionType = ty,
        txn_QuantityDelta = delta, txn_BeforeAvailableQuantity = before,
        txn_AfterAvailableQuantity = after, txn_BizType = bt, txn_BizID = bid,
        txn_ActionKey = key, txn_MetadataJSON = md, txn_RequestID = rid,
        txn_CreatedAt = at\<rparr>)"
  using assms next_frame [of s "fst (nxt s)" "snd (nxt s)"]
  by (auto simp: newTransaction_def NewAssetService_def go_eval)

text \<open>The update of a locked lot followed by its ledger row.\<close>

lemma posting_done:
  assumes "books (lots_of s) (ledger_of s)" and "lot \<in> set (lots_of s)" and "unchanged s s1"
    and "UpdateLot R (lot_ID lot) (lot_Version lot) change s1 = (Inr changed, s2)"
    and "newTransaction service rid lot' ty delta (lot_AvailableQuantity lot)
      (chg_AvailableQuantity change) bt bid key md at s2 = (Inr t, s3)"
    and "CreateTransaction R t s3 = (Inr u, s4)"
    and "lot_ID lot' = lot_ID lot" and "lot_OwnerCustomerID lot' = lot_OwnerCustomerID lot"
    and "delta = chg_AvailableQuantity change - lot_AvailableQuantity lot"
  shows "posting lot change t (lots_of s) (ledger_of s) (lots_of s4) (ledger_of s4)"
proof -
  have "lots_of s2 = update_where (same_lot_version lot) (apply_lot_change change) (lots_of s)"
    and "ledger_of s2 = ledger_of s"
    using update_done [OF assms(4)] assms(3) by (auto simp: update_where_cong_same)
  moreover have "unchanged s2 s3" and "txn_LotID t = lot_ID lot"
    and "txn_OwnerCustomerID t = lot_OwnerCustomerID lot"
    and "txn_BeforeAvailableQuantity t = lot_AvailableQuantity lot"
    and "txn_AfterAvailableQuantity t = chg_AvailableQuantity change" and "txn_QuantityDelta t = delta"
    using newTransaction_result [OF assms(5)] assms(7,8) by auto
  moreover note create_txn_done [OF assms(6)]
  ultimately show ?thesis
    using assms(2,9) by (auto simp: posting_def)
qed

lemma debit_fresh_done:
  assumes b: "books (lots_of s) (ledger_of s)"
    and run: "debit_fresh service R rid c mark s = (Inr m, s')"
  obtains lot at t where "lot \<in> set (lots_of s)" and "lot_ID lot = cmd_LotID c"
    and "lot_OwnerCustomerID lot = cmd_OwnerCustomerID c" and "lot_Status lot = LotStatusActive"
    and "at < lot_ExpiresAt lot" and "cmd_Quantity c \<le> lot_AvailableQuantity lot"
    and "posting lot
      \<lparr>chg_AvailableQuantity = lot_AvailableQuantity lot - cmd_Quantity c,
       chg_Status = (if lot_AvailableQuantity lot - cmd_Quantity c = 0 then LotStatusDepleted
         else LotStatusActive),
       chg_EverUsed = mark \<or> lot_EverUsed lot, chg_SetEverUsed = mark, chg_UpdatedAt = at\<rparr>
      t (lots_of s) (ledger_of s) (lots_of s') (ledger_of s')"
    and "m = \<lparr>mut_Lot = lot\<lparr>lot_AvailableQuantity := lot_AvailableQuantity lot - cmd_Quantity c,
           lot_Status := (if lot_AvailableQuantity lot - cmd_Quantity c = 0 then LotStatusDepleted
             else LotStatusActive),
           lot_EverUsed := (if mark then True else lot_EverUsed lot),
           lot_Version := lot_Version lot + 1, lot_UpdatedAt := at\<rparr>,
         mut_Transactions = [t], mut_Replayed = False\<rparr>"
    and "txn_ActionKey t = cmd_ActionKey c" and "at = instant (cmd_OccurredAt c) s"
    and "txn_TransactionType t = cmd_TransactionType c" and "txn_BizType t = cmd_BizType c"
    and "txn_BizID t = cmd_BizID c"
proof -
  from run obtain lot s0 at s1 changed s2 t s3 where
    lock: "LockLot R (cmd_LotID c) s = (Inr lot, s0)"
    and occ: "occurredAt service (cmd_OccurredAt c) s0 = (Inr at, s1)"
    and owner: "\<not> lot_OwnerCustomerID lot \<noteq> cmd_OwnerCustomerID c"
    and guard: "\<not> (lot_Status lot \<noteq> LotStatusActive \<or> lot_ExpiresAt lot \<le> at \<or>
      lot_AvailableQuantity lot < cmd_Quantity c)"
    and upd: "UpdateLot R (lot_ID lot) (lot_Version lot)
      \<lparr>chg_AvailableQuantity = lot_AvailableQuantity lot - cmd_Quantity c,
       chg_Status = (if lot_AvailableQuantity lot - cmd_Quantity c = 0 then LotStatusDepleted
         else LotStatusActive),
       chg_EverUsed = mark \<or> lot_EverUsed lot, chg_SetEverUsed = mark, chg_UpdatedAt = at\<rparr> s1 =
      (Inr changed, s2)"
    and txn: "newTransaction service rid lot (cmd_TransactionType c) (- cmd_Quantity c)
      (lot_AvailableQuantity lot) (lot_AvailableQuantity lot - cmd_Quantity c) (cmd_BizType c)
      (cmd_BizID c) (cmd_ActionKey c) (cmd_Metadata c) at s2 = (Inr t, s3)"
    and ins: "CreateTransaction R t s3 = (Inr (), s')"
    and m: "m = \<lparr>mut_Lot = lot\<lparr>lot_AvailableQuantity := lot_AvailableQuantity lot - cmd_Quantity c,
           lot_Status := (if lot_AvailableQuantity lot - cmd_Quantity c = 0 then LotStatusDepleted
             else LotStatusActive),
           lot_EverUsed := (if mark then True else lot_EverUsed lot),
           lot_Version := lot_Version lot + 1, lot_UpdatedAt := at\<rparr>,
         mut_Transactions = [t], mut_Replayed = False\<rparr>"
    unfolding debit_fresh_def Let_def by (elim go_elims) simp
  have same: "lots_of s1 = lots_of s" "ledger_of s1 = ledger_of s"
    using lock_frame [OF lock] occurredAt_result [OF occ] by auto
  have lot: "lot \<in> set (lots_of s)" "lot_ID lot = cmd_LotID c"
    using lock_found [OF lock] by auto
  show ?thesis
  proof (rule that [of lot at t])
    show "posting lot
      \<lparr>chg_AvailableQuantity = lot_AvailableQuantity lot - cmd_Quantity c,
       chg_Status = (if lot_AvailableQuantity lot - cmd_Quantity c = 0 then LotStatusDepleted
         else LotStatusActive),
       chg_EverUsed = mark \<or> lot_EverUsed lot, chg_SetEverUsed = mark, chg_UpdatedAt = at\<rparr>
      t (lots_of s) (ledger_of s) (lots_of s') (ledger_of s')"
      by (rule posting_done [OF b lot(1) _ upd _ ins]) (use txn same in auto)
    show "txn_ActionKey t = cmd_ActionKey c" "txn_TransactionType t = cmd_TransactionType c"
      "txn_BizType t = cmd_BizType c" "txn_BizID t = cmd_BizID c"
      using newTransaction_result [OF txn] by auto
    show "at = instant (cmd_OccurredAt c) s"
      using occurredAt_result [OF occ] lock_frame [OF lock] by auto
  qed (use lot owner guard m in auto)
qed

lemma find_snd [simp]: "snd (TransactionByActionKey R key s) = s"
  by (metis find_frame prod.collapse)

lemma lock_snd [simp]: "snd (LockLot R lotID s) = s"
  by (metis lock_frame prod.collapse)

lemma replayAssetMutation_frame:
  assumes "replayAssetMutation R key lotID ty bt bid delta s = (r, s')"
  shows "s' = s"
  using assms
  by (auto simp: replayAssetMutation_def go_eval split: sum.splits if_splits)

lemma replayAssetMutation_fresh:
  assumes "replayAssetMutation R key lotID ty bt bid delta s = (Inr None, s')"
    and "t \<in> set (ledger_of s)"
  shows "txn_ActionKey t \<noteq> key"
  using assms
  by (cases "TransactionByActionKey R key s")
    (auto simp: replayAssetMutation_def go_eval split: sum.splits if_splits
      dest: find_missing)

lemma replayAssetMutation_found:
  assumes "replayAssetMutation R key lotID ty bt bid delta s = (Inr (Some replay), s')"
  obtains t lot where "replay = \<lparr>mut_Lot = lot, mut_Transactions = [t], mut_Replayed = True\<rparr>"
    and "t \<in> set (ledger_of s)" and "txn_ActionKey t = key" and "txn_QuantityDelta t = delta"
    and "lot \<in> set (lots_of s)" and "lot_ID lot = txn_LotID t" and "lotID \<noteq> 0 \<longrightarrow> txn_LotID t = lotID"
proof -
  from assms obtain t s1 lot s2 where find: "TransactionByActionKey R key s = (Inr t, s1)"
    and lock: "LockLot R (txn_LotID t) s1 = (Inr lot, s2)"
    and "replay = \<lparr>mut_Lot = lot, mut_Transactions = [t], mut_Replayed = True\<rparr>"
    and "txn_QuantityDelta t = delta" and "lotID \<noteq> 0 \<longrightarrow> txn_LotID t = lotID"
    by (cases "TransactionByActionKey R key s"; cases "fst (TransactionByActionKey R key s)")
      (auto simp: replayAssetMutation_def go_inv split: if_splits)
  with find_found [OF find] find_frame [OF find] lock_found [OF lock] show ?thesis
    by (intro that [of lot t]) auto
qed

lemma issue_fresh_done:
  assumes run: "issue_fresh service R rid c s = (Inr m, s')"
  obtains at i t where "lots_of s' = lots_of s @ [mut_Lot m]" and "ledger_of s' = ledger_of s @ [t]"
    and "m = \<lparr>mut_Lot = issue_defaults at ((iss_Lot c)\<lparr>lot_ID := i\<rparr>), mut_Transactions = [t],
           mut_Replayed = False\<rparr>"
    and "lot_ID (iss_Lot c) \<noteq> 0 \<longrightarrow> i = lot_ID (iss_Lot c)"
    and "lot_fits (mut_Lot m)" and "\<forall>l\<in>set (lots_of s). lot_ID l \<noteq> i"
    and "\<forall>t'\<in>set (ledger_of s). txn_ActionKey t' \<noteq> txn_ActionKey t"
    and "txn_LotID t = i" and "txn_BeforeAvailableQuantity t = 0"
    and "txn_AfterAvailableQuantity t = lot_TotalQuantity (iss_Lot c)"
    and "txn_QuantityDelta t = lot_TotalQuantity (iss_Lot c)"
    and "txn_ActionKey t = iss_ActionKey c" and "txn_OwnerCustomerID t = lot_OwnerCustomerID (mut_Lot m)"
  using run unfolding issue_fresh_def Let_def
proof (elim go_elims)
  fix at s1 i s2 u s3 t s4 v s5
  let ?lot = "issue_defaults at ((iss_Lot c)\<lparr>lot_ID := i\<rparr>)"
  assume occ: "occurredAt service (iss_OccurredAt c) s = (Inr at, s1)"
    and nid: "(if lot_ID (iss_Lot c) = 0 then go_call (the (svc_ids service))
      else go_ok (lot_ID (iss_Lot c))) s1 = (Inr i, s2)"
    and lot: "CreateLot R ?lot s2 = (Inr u, s3)"
    and txn: "newTransaction service rid ?lot (iss_TransactionType c) (lot_TotalQuantity ?lot) 0
      (lot_TotalQuantity ?lot) (iss_BizType c) (iss_BizID c) (iss_ActionKey c) (iss_Metadata c) at s3 =
      (Inr t, s4)"
    and ins: "CreateTransaction R t s4 = (Inr v, s5)" and s': "s' = s5"
    and m: "m = \<lparr>mut_Lot = ?lot, mut_Transactions = [t], mut_Replayed = False\<rparr>"
  have "lots_of s2 = lots_of s1 \<and> ledger_of s2 = ledger_of s1"
    and i: "lot_ID (iss_Lot c) \<noteq> 0 \<longrightarrow> i = lot_ID (iss_Lot c)"
    using nid next_frame [of s1 "fst (nxt s1)" "snd (nxt s1)"]
    by (auto simp: NewAssetService_def go_call_inv split: if_splits)
  with occurredAt_result [OF occ] have "lots_of s2 = lots_of s" "ledger_of s2 = ledger_of s"
    by auto
  with create_lot_done [OF lot] newTransaction_result [OF txn] create_txn_done [OF ins] m i s'
  show ?thesis
    by (intro that [of t at i]) auto
qed

lemma restore_expiry_done:
  assumes run: "restore_expiry service R rid ev lot restored at rst s = (Inr m, s')"
    and b: "books (lots_of s) (ledger_of s)" and lot: "lot0 \<in> set (lots_of s)"
    and same: "lot_ID lot0 = lot_ID lot" "lot_Version lot0 = lot_Version lot"
      "lot_OwnerCustomerID lot0 = lot_OwnerCustomerID lot" "lot_AvailableQuantity lot0 = restored"
  obtains t where "posting lot0 \<lparr>chg_AvailableQuantity = 0, chg_Status = LotStatusExpired,
      chg_EverUsed = False, chg_SetEverUsed = False, chg_UpdatedAt = at\<rparr>
      t (lots_of s) (ledger_of s) (lots_of s') (ledger_of s')"
    and "txn_ActionKey t = ev_ActionKey ev"
    and "m = \<lparr>mut_Lot = lot\<lparr>lot_AvailableQuantity := 0, lot_Status := LotStatusExpired,
                   lot_Version := lot_Version lot + 1\<rparr>,
                mut_Transactions = [rst, t], mut_Replayed = False\<rparr>"
proof -
  from run obtain changed s1 t s2 where
    upd: "UpdateLot R (lot_ID lot) (lot_Version lot)
       \<lparr>chg_AvailableQuantity = 0, chg_Status = LotStatusExpired, chg_EverUsed = False,
        chg_SetEverUsed = False, chg_UpdatedAt = at\<rparr> s = (Inr changed, s1)"
    and txn: "newTransaction service rid lot (ev_TransactionType ev) (- restored) restored 0
         (ev_BizType ev) (ev_BizID ev) (ev_ActionKey ev) (ev_Metadata ev) at s1 = (Inr t, s2)"
    and ins: "CreateTransaction R t s2 = (Inr (), s')"
    and m: "m = \<lparr>mut_Lot = lot\<lparr>lot_AvailableQuantity := 0, lot_Status := LotStatusExpired,
                   lot_Version := lot_Version lot + 1\<rparr>,
                mut_Transactions = [rst, t], mut_Replayed = False\<rparr>"
    unfolding restore_expiry_def by (elim go_elims) simp
  have "posting lot0 \<lparr>chg_AvailableQuantity = 0, chg_Status = LotStatusExpired,
      chg_EverUsed = False, chg_SetEverUsed = False, chg_UpdatedAt = at\<rparr>
      t (lots_of s) (ledger_of s) (lots_of s') (ledger_of s')"
    by (rule posting_done [OF b lot _ _ _ ins]) (use upd txn same in auto)
  with m newTransaction_result [OF txn] show ?thesis
    by (intro that [of t]) auto
qed

text \<open>A restore posts the quantity back and, on a lot past its expiry, a second row that takes
  the whole balance away again.\<close>

lemma restore_fresh_done:
  assumes b: "books (lots_of s) (ledger_of s)" and run: "restore_fresh service R rid c s = (Inr m, s')"
    and pos: "cmd_Quantity c \<noteq> 0"
  obtains lot at t ls1 ts1 where "lot \<in> set (lots_of s)" and "lot_ID lot = cmd_LotID c"
    and "lot_OwnerCustomerID lot = cmd_OwnerCustomerID c" and "lot_Status lot \<noteq> LotStatusRefunded"
    and "cmd_Quantity c \<le> lot_TotalQuantity lot - lot_AvailableQuantity lot"
    and "posting lot \<lparr>chg_AvailableQuantity = lot_AvailableQuantity lot + cmd_Quantity c,
      chg_Status = LotStatusActive, chg_EverUsed = False, chg_SetEverUsed = False,
      chg_UpdatedAt = at\<rparr> t (lots_of s) (ledger_of s) ls1 ts1"
    and "books ls1 ts1" and "txn_ActionKey t = cmd_ActionKey c"
    and "if at < lot_ExpiresAt lot then lots_of s' = ls1 \<and> ledger_of s' = ts1 \<and>
          mut_Transactions m = [t] \<and>
          lot_AvailableQuantity (mut_Lot m) = lot_AvailableQuantity lot + cmd_Quantity c \<and>
          lot_Status (mut_Lot m) = LotStatusActive
        else \<exists>lot1 t1. posting lot1 \<lparr>chg_AvailableQuantity = 0, chg_Status = LotStatusExpired,
          chg_EverUsed = False, chg_SetEverUsed = False, chg_UpdatedAt = at\<rparr> t1 ls1 ts1
          (lots_of s') (ledger_of s') \<and> lot_ID lot1 = cmd_LotID c \<and>
          lot_Status lot1 = LotStatusActive \<and>
          lot_AvailableQuantity lot1 = lot_AvailableQuantity lot + cmd_Quantity c \<and>
          mut_Transactions m = [t, t1] \<and> lot_AvailableQuantity (mut_Lot m) = 0 \<and>
          lot_Status (mut_Lot m) = LotStatusExpired"
    and "at = instant (cmd_OccurredAt c) s"
  using run unfolding restore_fresh_def Let_def
proof (elim go_elims)
  fix locked s0 and lot :: Lot and at s1 changed s2 t s3 u s4
  let ?restored = "lot_AvailableQuantity lot + cmd_Quantity c"
  let ?change = "\<lparr>chg_AvailableQuantity = ?restored, chg_Status = LotStatusActive,
      chg_EverUsed = False, chg_SetEverUsed = False, chg_UpdatedAt = at\<rparr>"
  let ?lot1 = "lot\<lparr>lot_AvailableQuantity := ?restored, lot_Status := LotStatusActive,
      lot_Version := lot_Version lot + 1, lot_UpdatedAt := at\<rparr>"
  assume lock: "LockLot R (cmd_LotID c) s = (locked, s0)" and locked: "locked = Inr lot"
    and ref: "lot_Status lot \<noteq> LotStatusRefunded"
    and guard: "\<not> (lot_OwnerCustomerID lot \<noteq> cmd_OwnerCustomerID c \<or>
      lot_TotalQuantity lot - lot_AvailableQuantity lot < cmd_Quantity c)"
    and occ: "occurredAt service (cmd_OccurredAt c) s0 = (Inr at, s1)"
    and upd: "UpdateLot R (lot_ID lot) (lot_Version lot) ?change s1 = (Inr changed, s2)"
    and txn: "newTransaction service rid lot (cmd_TransactionType c) (cmd_Quantity c)
      (lot_AvailableQuantity lot) ?restored (cmd_BizType c) (cmd_BizID c) (cmd_ActionKey c)
      (cmd_Metadata c) at s2 = (Inr t, s3)"
    and ins: "CreateTransaction R t s3 = (Inr u, s4)"
    and rest: "(if lot_ExpiresAt lot \<le> at
      then restore_expiry service R rid (restoreExpiryEvidence c) ?lot1 ?restored at t
      else go_ok \<lparr>mut_Lot = ?lot1, mut_Transactions = [t], mut_Replayed = False\<rparr>) s4 = (Inr m, s')"
  have lot: "lot \<in> set (lots_of s)" "lot_ID lot = cmd_LotID c"
    using lock locked lock_found by auto
  have same: "lots_of s1 = lots_of s" "ledger_of s1 = ledger_of s"
    using lock_frame [OF lock] occurredAt_result [OF occ] by auto
  have post: "posting lot ?change t (lots_of s) (ledger_of s) (lots_of s4) (ledger_of s4)"
    by (rule posting_done [OF b lot(1) _ upd _ ins]) (use txn same in auto)
  have "?restored \<le> lot_TotalQuantity lot"
    using guard books_lotD(1,2) [OF b lot(1)] by (simp add: word_le_def not_less word_conv)
  then have b1: "books (lots_of s4) (ledger_of s4)"
    using pos by (intro posting_books [OF b post]) auto
  show ?thesis
  proof (rule that [OF lot _ ref _ post b1])
    show "if at < lot_ExpiresAt lot then lots_of s' = lots_of s4 \<and> ledger_of s' = ledger_of s4 \<and>
          mut_Transactions m = [t] \<and> lot_AvailableQuantity (mut_Lot m) = ?restored \<and>
          lot_Status (mut_Lot m) = LotStatusActive
        else \<exists>lot1 t1. posting lot1 \<lparr>chg_AvailableQuantity = 0, chg_Status = LotStatusExpired,
          chg_EverUsed = False, chg_SetEverUsed = False, chg_UpdatedAt = at\<rparr> t1 (lots_of s4)
          (ledger_of s4) (lots_of s') (ledger_of s') \<and> lot_ID lot1 = cmd_LotID c \<and>
          lot_Status lot1 = LotStatusActive \<and>
          lot_AvailableQuantity lot1 = ?restored \<and> mut_Transactions m = [t, t1] \<and>
          lot_AvailableQuantity (mut_Lot m) = 0 \<and> lot_Status (mut_Lot m) = LotStatusExpired"
    proof (cases "at < lot_ExpiresAt lot")
      case False
      have in1: "apply_lot_change ?change lot \<in> set (lots_of s4)"
        using post b lot(1) by (auto simp: posting_def books_def set_posted_lots)
      from rest False
      have run1: "restore_expiry service R rid (restoreExpiryEvidence c) ?lot1 ?restored at t s4 = (Inr m, s')"
        by simp
      obtain t1 where "posting (apply_lot_change ?change lot)
          \<lparr>chg_AvailableQuantity = 0, chg_Status = LotStatusExpired, chg_EverUsed = False,
           chg_SetEverUsed = False, chg_UpdatedAt = at\<rparr> t1 (lots_of s4) (ledger_of s4)
          (lots_of s') (ledger_of s')"
        and "mut_Transactions m = [t, t1]" "lot_AvailableQuantity (mut_Lot m) = 0"
          "lot_Status (mut_Lot m) = LotStatusExpired"
        by (rule restore_expiry_done [OF run1 b1 in1]) auto
      then have "posting (apply_lot_change ?change lot)
          \<lparr>chg_AvailableQuantity = 0, chg_Status = LotStatusExpired, chg_EverUsed = False,
           chg_SetEverUsed = False, chg_UpdatedAt = at\<rparr> t1 (lots_of s4) (ledger_of s4)
          (lots_of s') (ledger_of s') \<and> lot_ID (apply_lot_change ?change lot) = cmd_LotID c \<and>
          lot_Status (apply_lot_change ?change lot) = LotStatusActive \<and>
          lot_AvailableQuantity (apply_lot_change ?change lot) = ?restored \<and>
          mut_Transactions m = [t, t1] \<and> lot_AvailableQuantity (mut_Lot m) = 0 \<and>
          lot_Status (mut_Lot m) = LotStatusExpired"
        using lot(2) by simp
      with False show ?thesis by (simp only: if_False) blast
    qed (use rest in auto)
  qed (use guard newTransaction_result [OF txn] occurredAt_result [OF occ] lock_frame [OF lock] in auto)
qed

lemma expire_fresh_done:
  assumes b: "books (lots_of s) (ledger_of s)" and run: "expire_fresh service R rid c s = (Inr m, s')"
  obtains lot at change where "lot \<in> set (lots_of s)" and "lot_ID lot = exp_LotID c"
    and "lot_OwnerCustomerID lot = exp_OwnerCustomerID c" and "lot_ExpiresAt lot \<le> at"
    and "lot_Status lot \<noteq> LotStatusRefunded" and "lot_Status (mut_Lot m) = LotStatusExpired"
    and "lot_AvailableQuantity (mut_Lot m) = 0" and "lot_ID (mut_Lot m) = exp_LotID c"
    and "chg_AvailableQuantity change = 0" and "chg_Status change = LotStatusExpired"
    and "lot_AvailableQuantity lot = 0 \<and> lot_Status lot = LotStatusExpired \<and> unchanged s s' \<and>
          mut_Transactions m = [] \<and> mut_Replayed m
        \<or> lot_AvailableQuantity lot = 0 \<and> ledger_of s' = ledger_of s \<and>
          lots_of s' = update_where (same_lot_version lot) (apply_lot_change change) (lots_of s) \<and>
          mut_Transactions m = [] \<and> \<not> mut_Replayed m \<and> mut_Lot m = apply_lot_change change lot
        \<or> lot_AvailableQuantity lot \<noteq> 0 \<and> (\<exists>t. mut_Transactions m = [t] \<and> \<not> mut_Replayed m \<and>
          mut_Lot m = apply_lot_change change lot \<and>
          posting lot change t (lots_of s) (ledger_of s) (lots_of s') (ledger_of s') \<and>
          txn_ActionKey t = exp_ActionKey c)"
    and "at = instant (exp_OccurredAt c) s" and "\<not> chg_SetEverUsed change"
  using run unfolding expire_fresh_def Let_def
proof (elim go_elims)
  fix locked s0 and lot :: Lot and at s1
  let ?change = "\<lparr>chg_AvailableQuantity = 0, chg_Status = LotStatusExpired, chg_EverUsed = False,
      chg_SetEverUsed = False, chg_UpdatedAt = at\<rparr>"
  let ?lot1 = "lot\<lparr>lot_AvailableQuantity := 0, lot_Status := LotStatusExpired,
      lot_Version := lot_Version lot + 1, lot_UpdatedAt := at\<rparr>"
  assume lock: "LockLot R (exp_LotID c) s = (locked, s0)" and locked: "locked = Inr lot"
    and owner: "\<not> lot_OwnerCustomerID lot \<noteq> exp_OwnerCustomerID c"
    and occ: "occurredAt service (exp_OccurredAt c) s0 = (Inr at, s1)"
    and due: "\<not> at < lot_ExpiresAt lot" and ref: "lot_Status lot \<noteq> LotStatusRefunded"
    and rest: "(if lot_AvailableQuantity lot = 0 \<and> lot_Status lot = LotStatusExpired
      then go_ok \<lparr>mut_Lot = lot, mut_Transactions = [], mut_Replayed = True\<rparr>
      else if lot_Status lot \<noteq> LotStatusActive \<and> lot_Status lot \<noteq> LotStatusDepleted
        then go_err (problem_Conflict ''WT_LOT_INVALID_STATUS''
               ''wine ticket lot cannot enter expired status'')
        else go_bind (UpdateLot R (lot_ID lot) (lot_Version lot) ?change) (\<lambda>changed.
          if \<not> changed then go_err concurrentAssetMutation
          else if lot_AvailableQuantity lot = 0
            then go_ok \<lparr>mut_Lot = ?lot1, mut_Transactions = [], mut_Replayed = False\<rparr>
            else go_bind (newTransaction service rid ?lot1 (exp_TransactionType c)
              (- lot_AvailableQuantity lot) (lot_AvailableQuantity lot) 0 (exp_BizType c) (exp_BizID c)
              (exp_ActionKey c) (exp_Metadata c) at) (\<lambda>t.
              go_bind (CreateTransaction R t) (\<lambda>_.
                go_ok \<lparr>mut_Lot = ?lot1, mut_Transactions = [t], mut_Replayed = False\<rparr>)))) s1 =
      (Inr m, s')"
  have lot: "lot \<in> set (lots_of s)" "lot_ID lot = exp_LotID c"
    using lock locked lock_found by auto
  have same: "lots_of s1 = lots_of s" "ledger_of s1 = ledger_of s"
    using lock_frame [OF lock] occurredAt_result [OF occ] by auto
  have lot1: "apply_lot_change ?change lot = ?lot1"
    by (simp add: apply_lot_change_def)
  have at: "at = instant (exp_OccurredAt c) s"
    using occurredAt_result [OF occ] lock_frame [OF lock] by auto
  note base = that [where at = at and change = ?change, OF lot _ _ ref _ _ _ _ _ _ at]
  show ?thesis
  proof (cases "lot_AvailableQuantity lot = 0 \<and> lot_Status lot = LotStatusExpired")
    case True
    with rest same owner due lot show ?thesis by (intro base) auto
  next
    case False
    with rest obtain changed s2 where upd: "UpdateLot R (lot_ID lot) (lot_Version lot) ?change s1 =
        (Inr changed, s2)"
      and cont: "(if lot_AvailableQuantity lot = 0
            then go_ok \<lparr>mut_Lot = ?lot1, mut_Transactions = [], mut_Replayed = False\<rparr>
            else go_bind (newTransaction service rid ?lot1 (exp_TransactionType c)
              (- lot_AvailableQuantity lot) (lot_AvailableQuantity lot) 0 (exp_BizType c) (exp_BizID c)
              (exp_ActionKey c) (exp_Metadata c) at) (\<lambda>t.
              go_bind (CreateTransaction R t) (\<lambda>_.
                go_ok \<lparr>mut_Lot = ?lot1, mut_Transactions = [t], mut_Replayed = False\<rparr>))) s2 = (Inr m, s')"
      by (simp only: if_False) (elim go_elims, simp)
    show ?thesis
    proof (cases "lot_AvailableQuantity lot = 0")
      case True
      with cont update_done [OF upd, unfolded update_where_cong_same] same owner due lot lot1 show ?thesis
        by (intro base) auto
    next
      case False
      with cont obtain t s3 where txn: "newTransaction service rid ?lot1 (exp_TransactionType c)
              (- lot_AvailableQuantity lot) (lot_AvailableQuantity lot) 0 (exp_BizType c) (exp_BizID c)
              (exp_ActionKey c) (exp_Metadata c) at s2 = (Inr t, s3)"
        and ins: "CreateTransaction R t s3 = (Inr (), s')"
        and m: "m = \<lparr>mut_Lot = ?lot1, mut_Transactions = [t], mut_Replayed = False\<rparr>"
        by (simp only: if_False) (elim go_elims, simp)
      have "posting lot ?change t (lots_of s) (ledger_of s) (lots_of s') (ledger_of s')"
        by (rule posting_done [where lot' = ?lot1, OF b lot(1) _ upd _ ins]) (use txn same in auto)
      with False m newTransaction_result [OF txn] owner due lot lot1 show ?thesis
        by (intro base) auto
    qed
  qed
qed

subsection \<open>Whole operations\<close>

lemma debit_cases:
  assumes "debit (Some service) (Some R) rid c mark s = (Inr m, s')"
  obtains (replay) t lot where "s' = s" and "m = \<lparr>mut_Lot = lot, mut_Transactions = [t], mut_Replayed = True\<rparr>"
      and "t \<in> set (ledger_of s)" and "txn_ActionKey t = cmd_ActionKey c" and "lot \<in> set (lots_of s)"
      and "txn_QuantityDelta t = - cmd_Quantity c"
    | (fresh) "debit_fresh service R rid c mark s = (Inr m, s')" and "cmd_Quantity c \<noteq> 0"
      and "\<And>t. t \<in> set (ledger_of s) \<Longrightarrow> txn_ActionKey t \<noteq> cmd_ActionKey c"
proof -
  from assms obtain rep s1 where ok: "validateAssetCommand c = None"
    and rep: "replayAssetMutation R (cmd_ActionKey c) (cmd_LotID c) (cmd_TransactionType c)
      (cmd_BizType c) (cmd_BizID c) (- cmd_Quantity c) s = (Inr rep, s1)"
    and cont: "(case rep of Some replay \<Rightarrow>
        if txn_OwnerCustomerID (hd (mut_Transactions replay)) \<noteq> cmd_OwnerCustomerID c \<or>
           lot_OwnerCustomerID (mut_Lot replay) \<noteq> cmd_OwnerCustomerID c \<or>
           txn_BeforeAvailableQuantity (hd (mut_Transactions replay))
             < txn_AfterAvailableQuantity (hd (mut_Transactions replay)) \<or>
           txn_BeforeAvailableQuantity (hd (mut_Transactions replay))
             - txn_AfterAvailableQuantity (hd (mut_Transactions replay)) \<noteq> cmd_Quantity c
        then go_err assetReplayConflict else go_ok replay
      | None \<Rightarrow> debit_fresh service R rid c mark) s1 = (Inr m, s')"
    unfolding debit_def Let_def option.sel by (elim go_elims) simp
  have s1: "s1 = s" by (rule replayAssetMutation_frame [OF rep])
  show ?thesis
  proof (cases rep)
    case None
    with rep cont ok s1 show ?thesis
      by (intro fresh) (auto simp: validateAssetCommand_def split: if_splits dest: replayAssetMutation_fresh)
  next
    case (Some r)
    with rep cont s1 show ?thesis
      by (auto elim!: replayAssetMutation_found intro: replay split: if_splits)
  qed
qed

lemma debit_books:
  assumes b: "books (lots_of s) (ledger_of s)"
    and run: "debit (Some service) (Some R) rid c mark s = (Inr m, s')"
  shows "books (lots_of s') (ledger_of s')"
  using run
proof (cases rule: debit_cases)
  case fresh
  from debit_fresh_done [OF b fresh(1)] show ?thesis
  proof cases
    case (1 lot at t)
    have "lot_AvailableQuantity lot - cmd_Quantity c \<le> lot_TotalQuantity lot"
      using 1(6) books_lotD(1) [OF b 1(1)] by (intro word_diff_le) (simp_all add: word_le_def)
    then show ?thesis
      using fresh(2) by (intro posting_books [OF b 1(7)]) auto
  qed
qed (use b in simp)

lemma Issue_cases:
  assumes "Issue (Some service) (Some R) rid c s = (Inr m, s')"
  obtains (replay) "s' = s" and "mut_Replayed m" and "\<exists>t\<in>set (ledger_of s). txn_ActionKey t = iss_ActionKey c"
    | (fresh) "issue_fresh service R rid c s = (Inr m, s')" and "lot_TotalQuantity (iss_Lot c) \<noteq> 0"
      and "lot_AvailableQuantity (iss_Lot c) = lot_TotalQuantity (iss_Lot c)"
      and "\<And>t. t \<in> set (ledger_of s) \<Longrightarrow> txn_ActionKey t \<noteq> iss_ActionKey c"
proof -
  from assms obtain rep s1 where
    rep: "replayIssueAssetMutation R c s = (Inr rep, s1)"
    and full: "lot_TotalQuantity (iss_Lot c) \<noteq> 0"
      "lot_AvailableQuantity (iss_Lot c) = lot_TotalQuantity (iss_Lot c)"
    and cont: "(case rep of Some replay \<Rightarrow> go_ok replay | None \<Rightarrow> issue_fresh service R rid c) s1 = (Inr m, s')"
    unfolding Issue_def option.sel by (elim go_elims) simp
  from rep obtain rep0 s0 where
    base: "replayAssetMutation R (iss_ActionKey c) (lot_ID (iss_Lot c)) (iss_TransactionType c)
       (iss_BizType c) (iss_BizID c) (lot_TotalQuantity (iss_Lot c)) s = (Inr rep0, s0)"
    and rep0: "rep = rep0" "s1 = s0"
    unfolding replayIssueAssetMutation_def Let_def
    by (elim go_bindE) (auto split: option.splits if_splits)
  have s0: "s0 = s" by (rule replayAssetMutation_frame [OF base])
  show ?thesis
  proof (cases rep0)
    case None
    with base cont rep0 s0 full show ?thesis
      by (intro fresh) (auto dest: replayAssetMutation_fresh)
  next
    case (Some r)
    then obtain t lot where t: "r = \<lparr>mut_Lot = lot, mut_Transactions = [t], mut_Replayed = True\<rparr>"
        "t \<in> set (ledger_of s)" "txn_ActionKey t = iss_ActionKey c"
      using replayAssetMutation_found base by metis
    have "m = r" "s' = s"
      using cont rep0 s0 Some by auto
    then show ?thesis
      using t by (intro replay) auto
  qed
qed

lemma Issue_books:
  assumes b: "books (lots_of s) (ledger_of s)"
    and run: "Issue (Some service) (Some R) rid c s = (Inr m, s')"
    and status: "lot_Status (iss_Lot c) \<notin> {LotStatusDepleted, LotStatusExpired}"
  shows "books (lots_of s') (ledger_of s')"
  using run
proof (cases rule: Issue_cases)
  case fresh
  from issue_fresh_done [OF fresh(1)] show ?thesis
  proof cases
    case (1 at i t)
    with fresh status show ?thesis
      by (simp only: 1(1,2)) (intro issue_books [OF b], auto)
  qed
qed (use b in simp)

lemma validateRestoreReplay_frame:
  assumes "validateRestoreReplay R c replay s = (Inr m, s')"
  shows "s' = s \<and> mut_Replayed m = mut_Replayed replay"
  using assms by (auto simp: validateRestoreReplay_def Let_def go_eval split: if_splits option.splits sum.splits)

lemma Restore_cases:
  assumes "Restore (Some service) (Some R) rid c s = (Inr m, s')"
  obtains (replay) "s' = s" and "mut_Replayed m" and "\<exists>t\<in>set (ledger_of s). txn_ActionKey t = cmd_ActionKey c"
    | (fresh) "restore_fresh service R rid c s = (Inr m, s')" and "cmd_Quantity c \<noteq> 0"
      and "\<And>t. t \<in> set (ledger_of s) \<Longrightarrow> txn_ActionKey t \<noteq> cmd_ActionKey c"
proof -
  from assms obtain rep s1 where ok: "validateAssetCommand c = None"
    and rep: "replayAssetMutation R (cmd_ActionKey c) (cmd_LotID c) (cmd_TransactionType c)
      (cmd_BizType c) (cmd_BizID c) (cmd_Quantity c) s = (Inr rep, s1)"
    and cont: "(case rep of Some replay \<Rightarrow> validateRestoreReplay R c replay
      | None \<Rightarrow> restore_fresh service R rid c) s1 = (Inr m, s')"
    unfolding Restore_def option.sel by (elim go_elims) simp
  have s1: "s1 = s" by (rule replayAssetMutation_frame [OF rep])
  show ?thesis
  proof (cases rep)
    case None
    with rep cont ok s1 show ?thesis
      by (intro fresh) (auto simp: validateAssetCommand_def split: if_splits dest: replayAssetMutation_fresh)
  next
    case (Some r)
    then obtain t lot where t: "r = \<lparr>mut_Lot = lot, mut_Transactions = [t], mut_Replayed = True\<rparr>"
        "t \<in> set (ledger_of s)" "txn_ActionKey t = cmd_ActionKey c"
      using replayAssetMutation_found rep by metis
    have "validateRestoreReplay R c r s = (Inr m, s')"
      using cont s1 Some by simp
    from validateRestoreReplay_frame [OF this] t show ?thesis
      by (intro replay) auto
  qed
qed

lemma Restore_books:
  assumes b: "books (lots_of s) (ledger_of s)"
    and run: "Restore (Some service) (Some R) rid c s = (Inr m, s')"
  shows "books (lots_of s') (ledger_of s')"
  using run
proof (cases rule: Restore_cases)
  case fresh
  from restore_fresh_done [OF b fresh(1,2)] show ?thesis
  proof cases
    case (1 lot at t ls1 ts1)
    show ?thesis
    proof (cases "at < lot_ExpiresAt lot")
      case False
      with 1(9) obtain lot1 t1 where p: "posting lot1 \<lparr>chg_AvailableQuantity = 0,
          chg_Status = LotStatusExpired, chg_EverUsed = False, chg_SetEverUsed = False,
          chg_UpdatedAt = at\<rparr> t1 ls1 ts1 (lots_of s') (ledger_of s')"
        and "lot_AvailableQuantity lot1 = lot_AvailableQuantity lot + cmd_Quantity c"
        by auto
      moreover have "lot_AvailableQuantity lot + cmd_Quantity c \<noteq> 0"
        using restored_quantity [OF b 1(1,5)] fresh(2) by auto
      ultimately show ?thesis
        by (intro posting_books [OF 1(7) p]) auto
    qed (use 1 in auto)
  qed
qed (use b in simp)

lemma expire_replay_done:
  assumes "expire_replay R c t s = (Inr m, s')"
  shows "s' = s \<and> mut_Replayed m \<and> lot_AvailableQuantity (mut_Lot m) = 0 \<and>
    lot_Status (mut_Lot m) = LotStatusExpired \<and> mut_Lot m \<in> set (lots_of s) \<and>
    lot_ID (mut_Lot m) = exp_LotID c"
  using assms unfolding expire_replay_def
  by (elim go_elims) (auto dest: lock_frame lock_found)

lemma Expire_cases:
  assumes "Expire (Some service) (Some R) rid c s = (Inr m, s')"
  obtains (replay) "s' = s" and "mut_Replayed m" and "lot_AvailableQuantity (mut_Lot m) = 0"
      and "lot_Status (mut_Lot m) = LotStatusExpired"
      and "\<exists>t\<in>set (ledger_of s). txn_ActionKey t = exp_ActionKey c"
      and "mut_Lot m \<in> set (lots_of s)" and "lot_ID (mut_Lot m) = exp_LotID c"
    | (fresh) "expire_fresh service R rid c s = (Inr m, s')"
      and "\<And>t. t \<in> set (ledger_of s) \<Longrightarrow> txn_ActionKey t \<noteq> exp_ActionKey c"
proof -
  from assms obtain found s1 where
    find: "TransactionByActionKey R (exp_ActionKey c) s = (found, s1)"
    and cont: "(case found of Inr existing \<Rightarrow> expire_replay R c existing
      | Inl e \<Rightarrow> if e \<noteq> ErrAssetRecordNotFound then go_err e else expire_fresh service R rid c) s1 =
        (Inr m, s')"
    unfolding Expire_def option.sel by (elim go_elims) simp
  have s1: "s1 = s" by (rule find_frame [OF find])
  show ?thesis
  proof (cases found)
    case (Inl e)
    with cont s1 have "e = ErrAssetRecordNotFound" "expire_fresh service R rid c s = (Inr m, s')"
      by (auto split: if_splits)
    then show ?thesis
      using find Inl find_missing by (intro fresh) auto
  next
    case (Inr t)
    with cont s1 have "expire_replay R c t s = (Inr m, s')" by simp
    from expire_replay_done [OF this] find_found [OF find [unfolded Inr]] show ?thesis
      by (intro replay) auto
  qed
qed

lemma Expire_books:
  assumes b: "books (lots_of s) (ledger_of s)"
    and run: "Expire (Some service) (Some R) rid c s = (Inr m, s')"
  shows "books (lots_of s') (ledger_of s')"
  using run
proof (cases rule: Expire_cases)
  case fresh
  from expire_fresh_done [OF b fresh(1)] show ?thesis
  proof cases
    case (1 lot at change)
    note relabel = relabel_books [OF b 1(1), of change]
    from 1(11) show ?thesis
    proof (elim disjE conjE exE)
      fix t
      assume "posting lot change t (lots_of s) (ledger_of s) (lots_of s') (ledger_of s')"
        and "lot_AvailableQuantity lot \<noteq> 0"
      then show ?thesis
        using 1(9) by (intro posting_books [OF b]) auto
    qed (use b 1(9) relabel in simp_all)
  qed
qed (use b in simp)

end

end
