(* ===== verification/Ticket_System.thy ===== *)
theory Ticket_System
  imports Ticket_Operations
begin

text \<open>
  The asset core as a system: the operations of the service as the steps of business
  transactions, the balances they keep, and the contract a balance owner is promised.

  \<open>asset_op\<close> names the operations of \<open>AssetService\<close>; \<open>run_op\<close> calls them. A business
  transaction (\<open>asset_tx\<close>) runs a list of operations inside \<open>db.Transaction\<close>: an error of one
  of them, or of the commit, restores the two tables. \<open>asset_step\<close> interleaves transactions
  with the passing of time; the tables a world can reach are the ones every theorem on
  reachable worlds speaks of.

  \<open>ticket_spec\<close> is the abstract specification: on the map from lots to balances an operation
  is a replay that changes nothing, or a debit, an issue, a restore (which is forfeited
  at once when the lot has expired) or an expiry.
\<close>

subsection \<open>Operations, transactions and steps\<close>

datatype asset_op =
    OpIssue IssueCommand
  | OpFreeze AssetCommand
  | OpRedeem AssetCommand
  | OpTransfer TransferCommand
  | OpRestore AssetCommand
  | OpExpire ExpireCommand

fun run_op :: "'s AssetService \<Rightarrow> 's asset_repo \<Rightarrow> string option \<Rightarrow> asset_op \<Rightarrow>
    ('s, go_error, AssetMutation) go" where
  "run_op s repo rid (OpIssue c) = Issue (Some s) (Some repo) rid c"
| "run_op s repo rid (OpFreeze c) = Freeze (Some s) (Some repo) rid c"
| "run_op s repo rid (OpRedeem c) = Redeem (Some s) (Some repo) rid c"
| "run_op s repo rid (OpTransfer c) = Transfer (Some s) (Some repo) rid c"
| "run_op s repo rid (OpRestore c) = Restore (Some s) (Some repo) rid c"
| "run_op s repo rid (OpExpire c) = Expire (Some s) (Some repo) rid c"

fun op_key :: "asset_op \<Rightarrow> string" where
  "op_key (OpIssue c) = iss_ActionKey c"
| "op_key (OpFreeze c) = cmd_ActionKey c"
| "op_key (OpRedeem c) = cmd_ActionKey c"
| "op_key (OpTransfer c) = tr_ActionKey c"
| "op_key (OpRestore c) = cmd_ActionKey c"
| "op_key (OpExpire c) = exp_ActionKey c"

text \<open>The callers (purchase settlement and gift claim) issue lots as active.\<close>

fun op_wf :: "asset_op \<Rightarrow> bool" where
  "op_wf (OpIssue c) \<longleftrightarrow> lot_Status (iss_Lot c) \<in> {[], LotStatusActive}"
| "op_wf (OpTransfer c) \<longleftrightarrow> lot_Status (tr_ReceiverLot c) \<in> {[], LotStatusActive}"
| "op_wf _ \<longleftrightarrow> True"

definition run_ops :: "'s AssetService \<Rightarrow> 's asset_repo \<Rightarrow> string option \<Rightarrow> asset_op list \<Rightarrow>
    ('s, go_error, AssetMutation list) go" where
  "run_ops s repo rid ops =
     go_for (\<lambda>op acc. go_bind (run_op s repo rid op) (\<lambda>m. go_ok (acc @ [m]))) ops []"

abbreviation world_service :: "'z ticket_world_scheme AssetService" where
  "world_service \<equiv> NewAssetService (Some world_next_id) wall_now"

definition restore_tables :: "'z ticket_world_scheme \<Rightarrow> 'z ticket_world_scheme \<Rightarrow> 'z ticket_world_scheme" where
  "restore_tables before after = after\<lparr>lots := lots before, transactions := transactions before\<rparr>"

definition asset_tx ::
    "Lot engine \<Rightarrow> Transaction engine \<Rightarrow> ('z ticket_world_scheme \<Rightarrow> go_error option) \<Rightarrow> string option \<Rightarrow>
     asset_op list \<Rightarrow> ('z ticket_world_scheme, go_error, AssetMutation list) go" where
  "asset_tx lotE txE commit rid ops =
     gorm_transaction commit restore_tables
       (run_ops world_service (transactionAssetRepository lotE txE) rid ops)"

inductive asset_step ::
    "Lot engine \<Rightarrow> Transaction engine \<Rightarrow> ticket_world \<Rightarrow> ticket_world \<Rightarrow> bool"
  for lotE txE where
  tick: "asset_step lotE txE w (w\<lparr>wall := t\<rparr>)"
| business: "list_all op_wf ops \<Longrightarrow> asset_tx lotE txE commit rid ops w = (r, w') \<Longrightarrow>
    asset_step lotE txE w w'"

subsection \<open>The abstract specification\<close>

type_synonym balances = "uint64 \<rightharpoonup> int"

definition lot_balances :: "Lot list \<Rightarrow> balances" where
  "lot_balances ls = (\<lambda>i. map_option (\<lambda>l. uint (lot_AvailableQuantity l))
     (List.find (\<lambda>l. lot_ID l = i) ls))"

inductive ticket_spec :: "balances \<Rightarrow> asset_op \<Rightarrow> balances \<Rightarrow> bool" where
  replay: "ticket_spec B op B"
| issue: "B i = None \<Longrightarrow> q = uint (lot_TotalQuantity (iss_Lot c)) \<Longrightarrow> 0 < q \<Longrightarrow>
    ticket_spec B (OpIssue c) (B(i \<mapsto> q))"
| transfer: "B i = None \<Longrightarrow> q = uint (lot_TotalQuantity (tr_ReceiverLot c)) \<Longrightarrow> 0 < q \<Longrightarrow>
    ticket_spec B (OpTransfer c) (B(i \<mapsto> q))"
| freeze: "B (cmd_LotID c) = Some b \<Longrightarrow> 0 < uint (cmd_Quantity c) \<Longrightarrow> uint (cmd_Quantity c) \<le> b \<Longrightarrow>
    ticket_spec B (OpFreeze c) (B(cmd_LotID c \<mapsto> b - uint (cmd_Quantity c)))"
| redeem: "B (cmd_LotID c) = Some b \<Longrightarrow> 0 < uint (cmd_Quantity c) \<Longrightarrow> uint (cmd_Quantity c) \<le> b \<Longrightarrow>
    ticket_spec B (OpRedeem c) (B(cmd_LotID c \<mapsto> b - uint (cmd_Quantity c)))"
| restore: "B (cmd_LotID c) = Some b \<Longrightarrow> 0 < uint (cmd_Quantity c) \<Longrightarrow>
    ticket_spec B (OpRestore c) (B(cmd_LotID c \<mapsto> b + uint (cmd_Quantity c)))"
| forfeit: "B (cmd_LotID c) = Some b \<Longrightarrow> 0 < uint (cmd_Quantity c) \<Longrightarrow>
    ticket_spec B (OpRestore c) (B(cmd_LotID c \<mapsto> 0))"
| expire: "B (exp_LotID c) = Some b \<Longrightarrow> ticket_spec B (OpExpire c) (B(exp_LotID c \<mapsto> 0))"

lemma lot_balances_lookup:
  assumes "distinct (map lot_ID ls)" and "lot \<in> set ls"
  shows "lot_balances ls (lot_ID lot) = Some (uint (lot_AvailableQuantity lot))"
proof (cases "List.find (\<lambda>l. lot_ID l = lot_ID lot) ls")
  case None
  with assms(2) show ?thesis by (auto simp: find_None_all)
next
  case (Some l)
  with assms show ?thesis
    using distinct_key_unique [OF assms(1) _ assms(2), of l] find_Some_in [OF Some]
    by (simp add: lot_balances_def)
qed

lemma lot_balances_none [simp]: "lot_balances ls i = None \<longleftrightarrow> i \<notin> lot_ID ` set ls"
  by (auto simp: lot_balances_def find_None_all)

lemma lot_balances_issue:
  assumes "\<forall>l'\<in>set ls. lot_ID l' \<noteq> lot_ID l"
  shows "lot_balances (ls @ [l]) = (lot_balances ls)(lot_ID l \<mapsto> uint (lot_AvailableQuantity l))"
proof
  fix i
  show "lot_balances (ls @ [l]) i = ((lot_balances ls)(lot_ID l \<mapsto> uint (lot_AvailableQuantity l))) i"
    using assms by (induction ls) (auto simp: lot_balances_def)
qed

lemma lot_balances_update:
  assumes "distinct (map lot_ID ls)" and "lot \<in> set ls"
  shows "lot_balances (update_where (same_lot_version lot) (apply_lot_change change) ls) =
    (lot_balances ls)(lot_ID lot \<mapsto> uint (chg_AvailableQuantity change))" (is "lot_balances ?ls = _")
proof
  fix i
  have d: "distinct (map lot_ID ?ls)"
    using assms(1) by (simp add: distinct_posted_lots)
  note set = set_posted_lots [OF assms, of change]
  show "lot_balances ?ls i = ((lot_balances ls)(lot_ID lot \<mapsto> uint (chg_AvailableQuantity change))) i"
  proof (cases "i \<in> lot_ID ` set ls")
    case False
    moreover from False have "i \<notin> lot_ID ` set ?ls" using assms(2) set by auto
    ultimately show ?thesis
      using assms(2) by (metis fun_upd_other image_eqI lot_balances_none)
  next
    case True
    then obtain l where l: "l \<in> set ls" "i = lot_ID l" by auto
    show ?thesis
    proof (cases "l = lot")
      case True
      then show ?thesis
        using lot_balances_lookup [OF d, of "apply_lot_change change lot"] set l by simp
    next
      case False
      then have "lot_ID l \<noteq> lot_ID lot" "l \<in> set ?ls"
        using l assms set by (auto dest: distinct_key_unique)
      then show ?thesis
        using lot_balances_lookup [OF d, of l] lot_balances_lookup [OF assms(1) l(1)] l by simp
    qed
  qed
qed

lemma lot_balances_posting:
  assumes "books ls ts" and "posting lot change t ls ts ls' ts'"
  shows "lot_balances ls' = (lot_balances ls)(lot_ID lot \<mapsto> uint (chg_AvailableQuantity change))"
    and "lot_balances ls (lot_ID lot) = Some (uint (lot_AvailableQuantity lot))"
  using assms lot_balances_update lot_balances_lookup by (auto simp: books_def posting_def)

context asset_ledger
begin

text \<open>Facts on every operation, one case per operation.\<close>

lemma Transfer_done:
  assumes "Transfer (Some service) (Some R) rid c s = (Inr m, s')"
  shows "Issue (Some service) (Some R) rid
      \<lparr>iss_Lot = tr_ReceiverLot c, iss_TransactionType = tr_TransactionType c,
       iss_BizType = tr_BizType c, iss_BizID = tr_BizID c, iss_ActionKey = tr_ActionKey c,
       iss_Metadata = tr_Metadata c, iss_OccurredAt = tr_OccurredAt c\<rparr> s = (Inr m, s')"
    and "lot_SourceType (tr_ReceiverLot c) = LotSourceGift"
    and "lot_SourceLotID (tr_ReceiverLot c) \<noteq> None" and "lot_SourceGiftID (tr_ReceiverLot c) \<noteq> None"
  using assms by (auto simp: Transfer_def split: if_splits)

lemma run_op_books:
  assumes "books (lots_of s) (ledger_of s)" and "op_wf op"
    and "run_op service R rid op s = (Inr m, s')"
  shows "books (lots_of s') (ledger_of s')"
  using assms
  by (cases op) (auto simp: Freeze_def Redeem_def lot_status_distinct(13-15) [symmetric]
      dest: Issue_books debit_books Restore_books Expire_books Issue_books [OF _ Transfer_done(1)])

lemma debit_refines:
  assumes b: "books (lots_of s) (ledger_of s)"
    and run: "debit (Some service) (Some R) rid c mark s = (Inr m, s')"
  shows "lot_balances (lots_of s') = lot_balances (lots_of s) \<and> mut_Replayed m \<or>
    (\<exists>v. lot_balances (lots_of s) (cmd_LotID c) = Some v \<and> 0 < uint (cmd_Quantity c) \<and>
      uint (cmd_Quantity c) \<le> v \<and> \<not> mut_Replayed m \<and>
      lot_balances (lots_of s') = (lot_balances (lots_of s))(cmd_LotID c \<mapsto> v - uint (cmd_Quantity c)))"
  using run
proof (cases rule: debit_cases)
  case fresh
  from debit_fresh_done [OF b fresh(1)] show ?thesis
  proof cases
    case (1 lot at t)
    have "0 < uint (cmd_Quantity c)"
      using fresh(2) by (simp add: word_zero_uint order_less_le)
    with 1 lot_balances_posting [OF b 1(7)] show ?thesis
      by (auto simp: uint_diff_le word_le_def)
  qed
qed simp

lemma Issue_refines:
  assumes b: "books (lots_of s) (ledger_of s)"
    and run: "Issue (Some service) (Some R) rid c s = (Inr m, s')"
  shows "lot_balances (lots_of s') = lot_balances (lots_of s) \<and> mut_Replayed m \<or>
    (\<exists>i. lot_balances (lots_of s) i = None \<and> 0 < uint (lot_TotalQuantity (iss_Lot c)) \<and>
      \<not> mut_Replayed m \<and>
      lot_balances (lots_of s') = (lot_balances (lots_of s))(i \<mapsto> uint (lot_TotalQuantity (iss_Lot c))))"
  using run
proof (cases rule: Issue_cases)
  case fresh
  from issue_fresh_done [OF fresh(1)] show ?thesis
  proof cases
    case (1 at i t)
    have "lot_balances (lots_of s') = (lot_balances (lots_of s))(i \<mapsto> uint (lot_TotalQuantity (iss_Lot c)))"
      using 1(3,6) fresh(3) unfolding 1(1) by (subst lot_balances_issue) auto
    moreover have "0 < uint (lot_TotalQuantity (iss_Lot c))"
      using fresh(2) by (simp add: word_zero_uint order_less_le)
    ultimately show ?thesis
      using 1(3,6) by (intro disjI2 exI [of _ i]) auto
  qed
qed simp

lemma Restore_refines:
  assumes b: "books (lots_of s) (ledger_of s)"
    and run: "Restore (Some service) (Some R) rid c s = (Inr m, s')"
  shows "lot_balances (lots_of s') = lot_balances (lots_of s) \<and> mut_Replayed m \<or>
    (\<exists>v v'. lot_balances (lots_of s) (cmd_LotID c) = Some v \<and> 0 < uint (cmd_Quantity c) \<and>
      v' \<in> {0, v + uint (cmd_Quantity c)} \<and>
      lot_balances (lots_of s') = (lot_balances (lots_of s))(cmd_LotID c \<mapsto> v'))"
  using run
proof (cases rule: Restore_cases)
  case fresh
  have pos: "0 < uint (cmd_Quantity c)"
    using fresh(2) by (simp add: word_zero_uint order_less_le)
  from restore_fresh_done [OF b fresh(1,2)] show ?thesis
  proof cases
    case (1 lot at t ls1 ts1)
    note first = lot_balances_posting [OF b 1(6)] restored_quantity(1) [OF b 1(1,5)]
    show ?thesis
    proof (cases "at < lot_ExpiresAt lot")
      case True
      with first 1(2,9) pos show ?thesis by auto
    next
      case False
      with 1(9) obtain lot1 t1 where p: "posting lot1 \<lparr>chg_AvailableQuantity = 0,
          chg_Status = LotStatusExpired, chg_EverUsed = False, chg_SetEverUsed = False,
          chg_UpdatedAt = at\<rparr> t1 ls1 ts1 (lots_of s') (ledger_of s')" "lot_ID lot1 = cmd_LotID c"
        by auto
      from lot_balances_posting(1) [OF 1(7) p(1)] first 1(2) p(2) pos show ?thesis by auto
    qed
  qed
qed simp

lemma Expire_refines:
  assumes b: "books (lots_of s) (ledger_of s)"
    and run: "Expire (Some service) (Some R) rid c s = (Inr m, s')"
  shows "lot_balances (lots_of s') = lot_balances (lots_of s) \<or>
    (\<exists>v. lot_balances (lots_of s) (exp_LotID c) = Some v \<and>
      lot_balances (lots_of s') = (lot_balances (lots_of s))(exp_LotID c \<mapsto> 0))"
  using run
proof (cases rule: Expire_cases)
  case fresh
  from expire_fresh_done [OF b fresh(1)] show ?thesis
  proof cases
    case (1 lot at change)
    have d: "distinct (map lot_ID (lots_of s))" using b by (simp add: books_def)
    note upd = lot_balances_update [OF d 1(1), of change] lot_balances_lookup [OF d 1(1)]
    from 1(11) show ?thesis
    proof (elim disjE conjE exE)
      fix t
      assume "posting lot change t (lots_of s) (ledger_of s) (lots_of s') (ledger_of s')"
      from lot_balances_posting [OF b this] show ?thesis using 1(2,9) by auto
    qed (use upd 1(2,9) in auto)
  qed
qed simp

lemma run_op_refines:
  assumes b: "books (lots_of s) (ledger_of s)" and run: "run_op service R rid op s = (Inr m, s')"
  shows "ticket_spec (lot_balances (lots_of s)) op (lot_balances (lots_of s'))"
proof (cases op)
  case (OpIssue c)
  with Issue_refines [OF b, of rid c m s'] run show ?thesis
    by (auto intro: ticket_spec.intros simp del: lot_balances_none)
next
  case (OpFreeze c)
  with debit_refines [OF b, of rid c "cmd_MarkUsed c" m s'] run show ?thesis
    by (auto simp: Freeze_def intro: ticket_spec.intros)
next
  case (OpRedeem c)
  with debit_refines [OF b, of rid c True m s'] run show ?thesis
    by (auto simp: Redeem_def intro: ticket_spec.intros)
next
  case (OpTransfer c)
  with Issue_refines [OF b Transfer_done(1), of rid c m s'] run show ?thesis
    by (auto intro: ticket_spec.intros simp del: lot_balances_none)
next
  case (OpRestore c)
  with Restore_refines [OF b, of rid c m s'] run show ?thesis
    by (auto intro: ticket_spec.intros simp del: lot_balances_none)
next
  case (OpExpire c)
  with Expire_refines [OF b, of rid c m s'] run show ?thesis
    by (auto intro: ticket_spec.intros simp del: lot_balances_none)
qed

lemma run_op_cases:
  assumes "run_op service R rid op s = (Inr m, s')"
  obtains (debit) c mark where "debit (Some service) (Some R) rid c mark s = (Inr m, s')"
      and "op_key op = cmd_ActionKey c"
    | (issue) c where "Issue (Some service) (Some R) rid c s = (Inr m, s')"
      and "op_key op = iss_ActionKey c"
    | (restore) c where "Restore (Some service) (Some R) rid c s = (Inr m, s')"
      and "op_key op = cmd_ActionKey c"
    | (expire) c where "Expire (Some service) (Some R) rid c s = (Inr m, s')"
      and "op_key op = exp_ActionKey c"
proof (cases op)
  case (OpTransfer c)
  with assms have "Transfer (Some service) (Some R) rid c s = (Inr m, s')" by simp
  from issue [OF Transfer_done(1) [OF this]] OpTransfer show ?thesis by simp
qed (use assms in \<open>auto simp: Freeze_def Redeem_def intro: debit issue restore expire\<close>)

lemma restore_fresh_mutates:
  assumes "restore_fresh service R rid c s = (Inr m, s')"
  shows "\<not> mut_Replayed m"
  using assms unfolding restore_fresh_def restore_expiry_def Let_def
  by (elim go_elims) (auto split: if_splits elim!: go_elims)

text \<open>The ledger only grows, by the rows the operation returns; a key that is already in it
  makes the operation a replay.\<close>

lemma run_op_appends:
  assumes b: "books (lots_of s) (ledger_of s)" and run: "run_op service R rid op s = (Inr m, s')"
  shows "if mut_Replayed m then unchanged s s' else ledger_of s' = ledger_of s @ mut_Transactions m"
  using run
proof (cases rule: run_op_cases)
  case (debit c mark)
  from debit(1) show ?thesis
  proof (cases rule: debit_cases)
    case fresh
    from debit_fresh_done [OF b fresh(1)] show ?thesis by cases (auto simp: posting_def)
  qed simp
next
  case (issue c)
  from issue(1) show ?thesis
  proof (cases rule: Issue_cases)
    case fresh
    from issue_fresh_done [OF fresh(1)] show ?thesis by cases auto
  qed simp
next
  case (restore c)
  from restore(1) show ?thesis
  proof (cases rule: Restore_cases)
    case fresh
    from restore_fresh_done [OF b fresh(1,2)] restore_fresh_mutates [OF fresh(1)] show ?thesis
      by cases (auto simp: posting_def split: if_splits)
  qed simp
next
  case (expire c)
  from expire(1) show ?thesis
  proof (cases rule: Expire_cases)
    case fresh
    from expire_fresh_done [OF b fresh(1)] show ?thesis by cases (auto simp: posting_def)
  qed simp
qed

lemma run_op_replays:
  assumes run: "run_op service R rid op s = (Inr m, s')"
    and key: "t \<in> set (ledger_of s)" "txn_ActionKey t = op_key op"
  shows "s' = s \<and> mut_Replayed m"
  using run
proof (cases rule: run_op_cases)
  case (debit c mark)
  from debit(1) show ?thesis by (cases rule: debit_cases) (use key debit(2) in auto)
next
  case (issue c)
  from issue(1) show ?thesis by (cases rule: Issue_cases) (use key issue(2) in auto)
next
  case (restore c)
  from restore(1) show ?thesis by (cases rule: Restore_cases) (use key restore(2) in auto)
next
  case (expire c)
  from expire(1) show ?thesis by (cases rule: Expire_cases) (use key expire(2) in auto)
qed

lemma run_op_first_row:
  assumes b: "books (lots_of s) (ledger_of s)" and run: "run_op service R rid op s = (Inr m, s')"
    and rows: "mut_Transactions m \<noteq> []"
  shows "\<exists>t\<in>set (ledger_of s'). txn_ActionKey t = op_key op"
  using run
proof (cases rule: run_op_cases)
  case (debit c mark)
  from debit(1) show ?thesis
  proof (cases rule: debit_cases)
    case fresh
    from debit_fresh_done [OF b fresh(1)] show ?thesis
      by cases (use debit(2) in \<open>auto simp: posting_def\<close>)
  qed (use debit(2) in auto)
next
  case (issue c)
  from issue(1) show ?thesis
  proof (cases rule: Issue_cases)
    case fresh
    from issue_fresh_done [OF fresh(1)] show ?thesis by cases (use issue(2) in auto)
  qed (use issue(2) in auto)
next
  case (restore c)
  from restore(1) show ?thesis
  proof (cases rule: Restore_cases)
    case fresh
    from restore_fresh_done [OF b fresh(1,2)] show ?thesis
      by cases (use restore(2) in \<open>auto simp: posting_def split: if_splits\<close>)
  qed (use restore(2) in auto)
next
  case (expire c)
  from expire(1) show ?thesis
  proof (cases rule: Expire_cases)
    case fresh
    from expire_fresh_done [OF b fresh(1)] show ?thesis
      by cases (use expire(2) rows in \<open>auto simp: posting_def\<close>)
  qed (use expire(2) in auto)
qed

text \<open>What an operation leaves of the lots that were there.\<close>

lemma run_op_evolves:
  assumes b: "books (lots_of s) (ledger_of s)" and run: "run_op service R rid op s = (Inr m, s')"
  shows "lots_evolve (lots_of s) (lots_of s')"
  using run
proof (cases rule: run_op_cases)
  case (debit c mark)
  from debit(1) show ?thesis
  proof (cases rule: debit_cases)
    case fresh
    from debit_fresh_done [OF b fresh(1)] show ?thesis
    proof cases
      case (1 lot at t)
      show ?thesis by (rule lots_evolve_posting [OF b 1(7)]) (use 1(4) in simp_all)
    qed
  qed simp
next
  case (issue c)
  from issue(1) show ?thesis
  proof (cases rule: Issue_cases)
    case fresh
    from issue_fresh_done [OF fresh(1)] show ?thesis by cases simp
  qed simp
next
  case (restore c)
  from restore(1) show ?thesis
  proof (cases rule: Restore_cases)
    case fresh
    from restore_fresh_done [OF b fresh(1,2)] show ?thesis
    proof cases
      case (1 lot at t ls1 ts1)
      have first: "lots_evolve (lots_of s) ls1"
        by (rule lots_evolve_posting [OF b 1(6,4)]) simp
      show ?thesis
      proof (cases "at < lot_ExpiresAt lot")
        case False
        with 1(9) obtain lot1 t1 where p: "posting lot1 \<lparr>chg_AvailableQuantity = 0,
            chg_Status = LotStatusExpired, chg_EverUsed = False, chg_SetEverUsed = False,
            chg_UpdatedAt = at\<rparr> t1 ls1 ts1 (lots_of s') (ledger_of s')" "lot_Status lot1 = LotStatusActive"
          by auto
        have "lots_evolve ls1 (lots_of s')"
          by (rule lots_evolve_posting [OF 1(7) p(1)]) (use p(2) in auto)
        with first show ?thesis by (rule lots_evolve_trans)
      qed (use first 1(9) in auto)
    qed
  qed simp
next
  case (expire c)
  from expire(1) show ?thesis
  proof (cases rule: Expire_cases)
    case fresh
    from expire_fresh_done [OF b fresh(1)] show ?thesis
    proof cases
      case (1 lot at change)
      from 1(11) show ?thesis
      proof (elim disjE conjE exE)
        fix t
        assume "posting lot change t (lots_of s) (ledger_of s) (lots_of s') (ledger_of s')"
        from lots_evolve_posting [OF b this] show ?thesis using 1(5,13) by auto
      qed (use lots_evolve_update [OF b 1(1,5)] 1(13) in auto)
    qed
  qed simp
qed

text \<open>A sequence of operations that all succeed.\<close>

lemma run_ops_invariant:
  assumes step: "\<And>op s m s'. op \<in> set ops \<Longrightarrow> books (lots_of s) (ledger_of s) \<Longrightarrow>
      run_op service R rid op s = (Inr m, s') \<Longrightarrow> P s s'"
    and refl: "\<And>s. P s s" and trans: "\<And>s t u. P s t \<Longrightarrow> P t u \<Longrightarrow> P s u"
    and wf: "list_all op_wf ops" and b: "books (lots_of s) (ledger_of s)"
    and run: "run_ops service R rid ops s = (Inr ms, s')"
  shows "P s s'"
proof -
  have "P s s'" if "go_for (\<lambda>op acc. go_bind (run_op service R rid op) (\<lambda>m. go_ok (acc @ [m]))) ops acc s =
      (Inr ms, s')" for acc
    using that step wf b
  proof (induction ops arbitrary: acc s)
    case Nil
    then show ?case using refl by simp
  next
    case (Cons op ops)
    from Cons.prems(1) obtain m s1 where op: "run_op service R rid op s = (Inr m, s1)"
      and rest: "go_for (\<lambda>op acc. go_bind (run_op service R rid op) (\<lambda>m. go_ok (acc @ [m]))) ops
        (acc @ [m]) s1 = (Inr ms, s')"
      by (auto simp: go_inv)
    have "books (lots_of s1) (ledger_of s1)"
      using op Cons.prems(3,4) by (auto intro: run_op_books)
    then have "P s1 s'"
      using Cons.prems(3) by (intro Cons.IH [OF rest Cons.prems(2)]) auto
    moreover have "P s s1"
      using Cons.prems(2) [OF _ Cons.prems(4) op] by simp
    ultimately show ?case using trans by blast
  qed
  with run show ?thesis by (auto simp: run_ops_def)
qed

lemma run_ops_books:
  assumes "list_all op_wf ops" and "books (lots_of s) (ledger_of s)"
    and "run_ops service R rid ops s = (Inr ms, s')"
  shows "books (lots_of s') (ledger_of s')"
proof -
  have "books (lots_of s) (ledger_of s) \<longrightarrow> books (lots_of s') (ledger_of s')"
    by (rule run_ops_invariant [where P = "\<lambda>s s'. books (lots_of s) (ledger_of s) \<longrightarrow>
          books (lots_of s') (ledger_of s')", OF _ _ _ assms])
      (use assms(1) in \<open>auto simp: list_all_iff intro: run_op_books\<close>)
  with assms(2) show ?thesis by simp
qed

lemma run_ops_evolves:
  assumes "list_all op_wf ops" and "books (lots_of s) (ledger_of s)"
    and "run_ops service R rid ops s = (Inr ms, s')"
  shows "lots_evolve (lots_of s) (lots_of s') \<and> (\<exists>rows. ledger_of s' = ledger_of s @ rows)"
  using assms
proof (rule run_ops_invariant [where P = "\<lambda>s s'. lots_evolve (lots_of s) (lots_of s') \<and>
      (\<exists>rows. ledger_of s' = ledger_of s @ rows)", rotated 3])
  fix op s m s'
  assume b: "books (lots_of s) (ledger_of s)" and run: "run_op service R rid op s = (Inr m, s')"
  have "\<exists>rows. ledger_of s' = ledger_of s @ rows"
    using run_op_appends [OF b run] by (cases "mut_Replayed m") auto
  with run_op_evolves [OF b run]
  show "lots_evolve (lots_of s) (lots_of s') \<and> (\<exists>rows. ledger_of s' = ledger_of s @ rows)" by blast
qed (auto intro: lots_evolve_trans)

text \<open>A debit in full, a repeated operation, a freeze undone, and a restore that comes too late.\<close>

lemma debit_exact:
  assumes b: "books (lots_of s) (ledger_of s)"
    and run: "debit (Some service) (Some R) rid c mark s = (Inr m, s')" and new: "\<not> mut_Replayed m"
  obtains lot t where "lot \<in> set (lots_of s)" and "lot_ID lot = cmd_LotID c"
    and "lot_OwnerCustomerID lot = cmd_OwnerCustomerID c" and "lot_Status lot = LotStatusActive"
    and "instant (cmd_OccurredAt c) s < lot_ExpiresAt lot"
    and "0 < uint (cmd_Quantity c)" and "cmd_Quantity c \<le> lot_AvailableQuantity lot"
    and "lot_EverUsed (mut_Lot m) = (mark \<or> lot_EverUsed lot)"
    and "lot_AvailableQuantity (mut_Lot m) = lot_AvailableQuantity lot - cmd_Quantity c"
    and "set (lots_of s') = insert (mut_Lot m) (set (lots_of s) - {lot})"
    and "ledger_of s' = ledger_of s @ [t]" and "mut_Transactions m = [t]" and "txn_LotID t = lot_ID lot"
    and "txn_OwnerCustomerID t = cmd_OwnerCustomerID c" and "txn_ActionKey t = cmd_ActionKey c"
    and "txn_BeforeAvailableQuantity t = lot_AvailableQuantity lot"
    and "txn_AfterAvailableQuantity t = lot_AvailableQuantity (mut_Lot m)"
    and "txn_QuantityDelta t = - cmd_Quantity c"
    and "txn_TransactionType t = cmd_TransactionType c" and "txn_BizType t = cmd_BizType c"
    and "txn_BizID t = cmd_BizID c" and "lot_ID (mut_Lot m) = lot_ID lot"
    and "lot_OwnerCustomerID (mut_Lot m) = lot_OwnerCustomerID lot"
  using run
proof (cases rule: debit_cases)
  case fresh
  have pos: "0 < uint (cmd_Quantity c)"
    using fresh(2) by (simp add: word_zero_uint order_less_le)
  from debit_fresh_done [OF b fresh(1)] show ?thesis
  proof cases
    case (1 lot at t)
    let ?change = "\<lparr>chg_AvailableQuantity = lot_AvailableQuantity lot - cmd_Quantity c,
       chg_Status = (if lot_AvailableQuantity lot - cmd_Quantity c = 0 then LotStatusDepleted
         else LotStatusActive),
       chg_EverUsed = mark \<or> lot_EverUsed lot, chg_SetEverUsed = mark, chg_UpdatedAt = at\<rparr>"
    have "apply_lot_change ?change lot = mut_Lot m"
      using 1(8) by (simp add: apply_lot_change_def Let_def)
    moreover have "set (lots_of s') = insert (apply_lot_change ?change lot) (set (lots_of s) - {lot})"
      using 1(7) b by (auto simp: posting_def books_def set_posted_lots)
    ultimately have lots: "set (lots_of s') = insert (mut_Lot m) (set (lots_of s) - {lot})" by simp
    note p = 1(7) [unfolded posting_def]
    show ?thesis
      by (rule that [OF 1(1-4) _ pos 1(6) _ _ lots, of t]) (use 1(3,5,8-13) p in simp_all)
  qed
qed (use new in simp)

lemma run_op_once:
  assumes "books (lots_of s) (ledger_of s)" and "run_op service R rid op s = (Inr m, s')"
    and "mut_Transactions m \<noteq> []" and "set (ledger_of s') \<subseteq> set (ledger_of s2)"
    and "run_op service R rid2 op s2 = (Inr m2, s3)"
  shows "s3 = s2 \<and> mut_Replayed m2"
proof -
  obtain t where "t \<in> set (ledger_of s2)" and "txn_ActionKey t = op_key op"
    using run_op_first_row [OF assms(1-3)] assms(4) by auto
  from run_op_replays [OF assms(5) this] show ?thesis .
qed

lemma freeze_restore_balances:
  assumes b: "books (lots_of s) (ledger_of s)"
    and fr: "Freeze (Some service) (Some R) rid c s = (Inr m, s1)" and "\<not> mut_Replayed m"
    and re: "Restore (Some service) (Some R) rid2 c2 s1 = (Inr m2, s2)" and new: "\<not> mut_Replayed m2"
    and same: "cmd_LotID c2 = cmd_LotID c" "cmd_Quantity c2 = cmd_Quantity c"
    and early: "\<And>l. l \<in> set (lots_of s1) \<Longrightarrow> lot_ID l = cmd_LotID c \<Longrightarrow> instant (cmd_OccurredAt c2) s1 < lot_ExpiresAt l"
  shows "lot_balances (lots_of s2) = lot_balances (lots_of s)"
proof -
  from fr have deb: "debit (Some service) (Some R) rid c (cmd_MarkUsed c) s = (Inr m, s1)"
    by (simp add: Freeze_def)
  have b1: "books (lots_of s1) (ledger_of s1)" by (rule debit_books [OF b deb])
  obtain v where v: "lot_balances (lots_of s) (cmd_LotID c) = Some v"
    and s1: "lot_balances (lots_of s1) = (lot_balances (lots_of s))(cmd_LotID c \<mapsto> v - uint (cmd_Quantity c))"
    using debit_refines [OF b deb] assms(3) by blast
  from re show ?thesis
  proof (cases rule: Restore_cases)
    case fresh
    from restore_fresh_done [OF b1 fresh(1,2)] show ?thesis
    proof cases
      case (1 lot at t ls1 ts1)
      have "at < lot_ExpiresAt lot" using early [OF 1(1)] 1(2,10) same(1) by simp
      then have "lots_of s2 = ls1" using 1(9) by simp
      with lot_balances_posting [OF b1 1(6)] restored_quantity(1) [OF b1 1(1,5)] 1(2) s1 v same
      show ?thesis by (auto simp: fun_upd_idem_iff)
    qed
  qed (use new in simp)
qed

lemma restore_forfeits:
  assumes b: "books (lots_of s) (ledger_of s)"
    and run: "Restore (Some service) (Some R) rid c s = (Inr m, s')" and new: "\<not> mut_Replayed m"
    and late: "\<And>l. l \<in> set (lots_of s) \<Longrightarrow> lot_ID l = cmd_LotID c \<Longrightarrow> lot_ExpiresAt l \<le> instant (cmd_OccurredAt c) s"
  obtains t1 t2 v where "mut_Transactions m = [t1, t2]" and "ledger_of s' = ledger_of s @ [t1, t2]"
    and "lot_balances (lots_of s) (cmd_LotID c) = Some v"
    and "sint (txn_QuantityDelta t1) = uint (cmd_Quantity c)"
    and "sint (txn_QuantityDelta t2) = - (v + uint (cmd_Quantity c))"
    and "lot_balances (lots_of s') = (lot_balances (lots_of s))(cmd_LotID c \<mapsto> 0)"
    and "lot_Status (mut_Lot m) = LotStatusExpired"
  using run
proof (cases rule: Restore_cases)
  case fresh
  from restore_fresh_done [OF b fresh(1,2)] show ?thesis
  proof cases
    case (1 lot at t ls1 ts1)
    have "\<not> at < lot_ExpiresAt lot" using late [OF 1(1,2)] 1(10) by simp
    with 1(9) obtain lot1 t1 where p: "posting lot1 \<lparr>chg_AvailableQuantity = 0,
        chg_Status = LotStatusExpired, chg_EverUsed = False, chg_SetEverUsed = False,
        chg_UpdatedAt = at\<rparr> t1 ls1 ts1 (lots_of s') (ledger_of s')"
      and lot1: "lot_ID lot1 = cmd_LotID c"
        "lot_AvailableQuantity lot1 = lot_AvailableQuantity lot + cmd_Quantity c"
      and m: "mut_Transactions m = [t, t1]" "lot_Status (mut_Lot m) = LotStatusExpired"
      by auto
    have sum: "uint (lot_AvailableQuantity lot + cmd_Quantity c) =
        uint (lot_AvailableQuantity lot) + uint (cmd_Quantity c)"
      and le: "lot_AvailableQuantity lot + cmd_Quantity c \<le> lot_TotalQuantity lot"
      by (rule restored_quantity [OF b 1(1,5)])+
    then have small: "uint (lot_AvailableQuantity lot + cmd_Quantity c) < 2 ^ 63"
      using books_lotD [OF b 1(1)] by (simp add: word_le_def)
    then have q: "uint (cmd_Quantity c) < 2 ^ 63"
      using sum uint_ge_0 [of "lot_AvailableQuantity lot"] by linarith
    have d: "txn_QuantityDelta t = cmd_Quantity c"
        "txn_QuantityDelta t1 = - (lot_AvailableQuantity lot + cmd_Quantity c)"
      using 1(6) p lot1 by (auto simp: posting_def)
    show ?thesis
    proof (rule that [OF m(1) _ _ _ _ _ m(2)])
      show "ledger_of s' = ledger_of s @ [t, t1]"
        using 1(6) p by (simp add: posting_def)
      show "lot_balances (lots_of s) (cmd_LotID c) = Some (uint (lot_AvailableQuantity lot))"
        using lot_balances_posting(2) [OF b 1(6)] 1(2) by simp
      show "lot_balances (lots_of s') = (lot_balances (lots_of s))(cmd_LotID c \<mapsto> 0)"
        using lot_balances_posting(1) [OF 1(7) p] lot_balances_posting(1) [OF b 1(6)] lot1(1) 1(2) by simp
      show "sint (txn_QuantityDelta t) = uint (cmd_Quantity c)"
        unfolding d by (rule sint_small [OF q])
      show "sint (txn_QuantityDelta t1) = - (uint (lot_AvailableQuantity lot) + uint (cmd_Quantity c))"
        unfolding d sum [symmetric] by (rule sint_neg_small [OF small])
    qed
  qed
qed (use new in simp)

lemma Expire_active:
  assumes b: "books (lots_of s) (ledger_of s)"
    and run: "Expire (Some service) (Some R) rid c s = (Inr m, s')"
    and lot: "lot \<in> set (lots_of s)" "lot_ID lot = exp_LotID c" "lot_Status lot = LotStatusActive"
  shows "set (lots_of s') = insert (mut_Lot m) (set (lots_of s) - {lot}) \<and> lot_ID (mut_Lot m) = lot_ID lot \<and>
    lot_Status (mut_Lot m) = LotStatusExpired \<and> lot_AvailableQuantity (mut_Lot m) = 0 \<and>
    lot_ExpiresAt lot \<le> instant (exp_OccurredAt c) s"
proof -
  have d: "distinct (map lot_ID (lots_of s))" using b by (simp add: books_def)
  have uniq: "l = lot" if "l \<in> set (lots_of s)" "lot_ID l = exp_LotID c" for l
    using distinct_key_unique [OF d that(1) lot(1)] that(2) lot(2) by simp
  from run show ?thesis
  proof (cases rule: Expire_cases)
    case replay
    then show ?thesis using uniq [of "mut_Lot m"] lot(3) by auto
  next
    case fresh
    from expire_fresh_done [OF b fresh(1)] show ?thesis
    proof cases
      case (1 lot' at change)
      have lot': "lot' = lot" by (rule uniq [OF 1(1,2)])
      have "lots_of s' = update_where (same_lot_version lot) (apply_lot_change change) (lots_of s) \<and>
          mut_Lot m = apply_lot_change change lot"
        using 1(11) lot(3) by (auto simp: lot' posting_def)
      with set_posted_lots [OF d lot(1), of change] 1(4,6-8,12) lot lot' show ?thesis by simp
    qed
  qed
qed

end

end
