(* ===== verification/Ticket_Live.thy ===== *)
theory Ticket_Live
  imports Ticket_System
begin

text \<open>
  That the operations of the asset service do return a result, and which one. The locale
  \<open>asset_ledger_live\<close> extends the repository's contract with: no call fails without a reason.
  Under it a debit is decided: it succeeds exactly when the lot is the owner's, active, not
  expired and has the quantity, and otherwise returns the error the code names.
\<close>

locale asset_ledger_live = asset_ledger +
  assumes find_live: "TransactionByActionKey R key s = (Inl e, s') \<Longrightarrow> e = ErrAssetRecordNotFound"
    and lock_live: "LockLot R lotID s = (Inl e, s') \<Longrightarrow> e = ErrAssetRecordNotFound"
    and update_live: "\<exists>changed s'. UpdateLot R lotID v change s = (Inr changed, s')"
    and create_txn_live: "txn_fits t \<Longrightarrow> (\<And>t'. t' \<in> set (ledger_of s) \<Longrightarrow> \<not> txn_clash t t') \<Longrightarrow>
      \<exists>s'. CreateTransaction R t s = (Inr (), s')"
    and create_lot_live: "lot_fits l \<Longrightarrow> (\<And>l'. l' \<in> set (lots_of s) \<Longrightarrow> \<not> lot_clash l l') \<Longrightarrow>
      \<exists>s'. CreateLot R l s = (Inr (), s')"
    and next_update: "UpdateLot R lotID v change s = (r, s') \<Longrightarrow> fst (nxt s') = fst (nxt s)"
    and next_now: "fst (nxt (snd (now s))) = fst (nxt s)"

locale ticket_engines_live = ticket_engines +
  lot_live: gorm_table_live lotE lot_clash lot_fits + txn_live: gorm_table_live txE txn_clash txn_fits

context ticket_engines_live
begin

lemma repository_live_laws:
  "asset_ledger_live (transactionAssetRepository lotE txE) lots transactions world_next_id
     (wall_now :: 'z ticket_world_scheme \<Rightarrow> _)"
proof
  fix lotID v change and s :: "'z ticket_world_scheme"
  show "\<exists>changed s'. UpdateLot (transactionAssetRepository lotE txE) lotID v change s = (Inr changed, s')"
    using lot_live.updates_live [of "\<lambda>l. lot_ID l = lotID \<and> lot_Version l = v" "apply_lot_change change" "lots s"]
    by (auto simp: transactionAssetRepository_def repo_UpdateLot_def split: sum.splits prod.splits)
next
  fix t :: Transaction and s :: "'z ticket_world_scheme"
  assume "txn_fits t" and "\<And>t'. t' \<in> set (transactions s) \<Longrightarrow> \<not> txn_clash t t'"
  from txn_live.create_live [OF this, where rows = "transactions s"]
  show "\<exists>s'. CreateTransaction (transactionAssetRepository lotE txE) t s = (Inr (), s')"
    by (auto simp: transactionAssetRepository_def repo_CreateTransaction_def)
next
  fix l :: Lot and s :: "'z ticket_world_scheme"
  assume "lot_fits l" and "\<And>l'. l' \<in> set (lots s) \<Longrightarrow> \<not> lot_clash l l'"
  from lot_live.create_live [OF this, where rows = "lots s"]
  show "\<exists>s'. CreateLot (transactionAssetRepository lotE txE) l s = (Inr (), s')"
    by (auto simp: transactionAssetRepository_def repo_CreateLot_def)
qed (auto simp: transactionAssetRepository_def repo_TransactionByActionKey_def repo_LockLot_def
    repo_UpdateLot_def world_next_id_def wall_now_def assetRepositoryError_def
    split: sum.splits prod.splits dest: lot_live.take_live txn_live.take_live)

end

sublocale ticket_engines_live \<subseteq> live: asset_ledger_live
    "transactionAssetRepository lotE txE" lots transactions world_next_id wall_now
  by (rule repository_live_laws)

interpretation mem_ticket_live: ticket_engines_live mem_lots mem_txns
  by unfold_locales

context asset_ledger_live
begin

lemma find_fresh:
  assumes "\<forall>t\<in>set (ledger_of s). txn_ActionKey t \<noteq> key"
  shows "TransactionByActionKey R key s = (Inl ErrAssetRecordNotFound, s)"
proof (cases "TransactionByActionKey R key s")
  case (Pair r s')
  show ?thesis
  proof (cases r)
    case (Inl e)
    with Pair find_live [of key s e s'] find_frame [OF Pair] show ?thesis by simp
  next
    case (Inr t)
    with Pair find_found [of key s t s'] assms show ?thesis by auto
  qed
qed

lemma lock_present:
  assumes "distinct (map lot_ID (lots_of s))" and "lot \<in> set (lots_of s)"
  shows "LockLot R (lot_ID lot) s = (Inr lot, s)"
proof (cases "LockLot R (lot_ID lot) s")
  case (Pair r s')
  show ?thesis
  proof (cases r)
    case (Inl e)
    with Pair lock_live have "LockLot R (lot_ID lot) s = (Inl ErrAssetRecordNotFound, s')" by blast
    from lock_missing [OF this assms(2)] show ?thesis by simp
  next
    case (Inr l)
    with Pair lock_found [of "lot_ID lot" s l s'] lock_frame [OF Pair] assms show ?thesis
      by (auto dest: distinct_key_unique)
  qed
qed

lemma lock_absent:
  assumes "lotID \<notin> lot_ID ` set (lots_of s)"
  shows "LockLot R lotID s = (Inl ErrAssetRecordNotFound, s)"
proof (cases "LockLot R lotID s")
  case (Pair r s')
  show ?thesis
  proof (cases r)
    case (Inl e)
    with Pair lock_live [of lotID s e s'] lock_frame [OF Pair] show ?thesis by simp
  next
    case (Inr l)
    with Pair lock_found [of lotID s l s'] assms show ?thesis by auto
  qed
qed

lemma update_present:
  assumes "distinct (map lot_ID (lots_of s))" and "lot \<in> set (lots_of s)"
  shows "\<exists>s'. UpdateLot R (lot_ID lot) (lot_Version lot) change s = (Inr True, s')"
proof -
  from update_live obtain changed s'
    where upd: "UpdateLot R (lot_ID lot) (lot_Version lot) change s = (Inr changed, s')" by blast
  have "filter (\<lambda>l. lot_ID l = lot_ID lot \<and> lot_Version l = lot_Version lot) (lots_of s) =
      filter (\<lambda>l. lot_ID l = lot_ID lot) (lots_of s)"
    using assms by (intro filter_cong) (auto dest: distinct_key_unique)
  with filter_key_singleton [OF assms] update_done [OF upd] upd show ?thesis by auto
qed

lemma replay_fresh:
  assumes "\<forall>t\<in>set (ledger_of s). txn_ActionKey t \<noteq> key"
  shows "replayAssetMutation R key lotID ty bt bid delta s = (Inr None, s)"
  by (simp add: replayAssetMutation_def go_eval find_fresh [OF assms])

lemma occurredAt_live: "\<exists>s'. occurredAt service v s = (Inr (instant v s), s') \<and> unchanged s s' \<and>
    fst (nxt s') = fst (nxt s)"
proof (cases "occurredAt service v s")
  case (Pair r s')
  have "s' = s \<or> s' = snd (now s)"
    using Pair by (auto simp: occurredAt_def NowShanghai_def NewAssetService_def go_eval split: if_splits)
  then show ?thesis
    using Pair occurredAt_result [OF Pair] next_now by auto
qed

text \<open>The update and the ledger row of a locked lot go through.\<close>

lemma posting_live:
  assumes "distinct (map lot_ID (lots_of s))" and "lot \<in> set (lots_of s)"
    and fits: "- (2 ^ 31) \<le> sint delta" "sint delta < 2 ^ 31" "before < 2 ^ 32" "after < 2 ^ 32"
    and fresh: "\<forall>t\<in>set (ledger_of s). txn_ActionKey t \<noteq> key \<and> txn_ID t \<noteq> fst (nxt s) \<and>
      txn_TransactionNo t \<noteq> ''WTT'' @ IDString (fst (nxt s))"
  obtains s1 t s2 s3 where
    "UpdateLot R (lot_ID lot) (lot_Version lot) change s = (Inr True, s1)"
    and "newTransaction service rid lot ty delta before after bt bid key md at s1 = (Inr t, s2)"
    and "CreateTransaction R t s2 = (Inr (), s3)"
proof -
  from update_present [OF assms(1,2)] obtain s1
    where upd: "UpdateLot R (lot_ID lot) (lot_Version lot) change s = (Inr True, s1)" by blast
  let ?t = "\<lparr>txn_ID = fst (nxt s), txn_TransactionNo = ''WTT'' @ IDString (fst (nxt s)),
        txn_LotID = lot_ID lot, txn_OwnerCustomerID = lot_OwnerCustomerID lot,
        txn_TransactionType = ty, txn_QuantityDelta = delta, txn_BeforeAvailableQuantity = before,
        txn_AfterAvailableQuantity = after, txn_BizType = bt, txn_BizID = bid, txn_ActionKey = key,
        txn_MetadataJSON = md, txn_RequestID = rid, txn_CreatedAt = at\<rparr>"
  have "fst (nxt s1) = fst (nxt s)" by (rule next_update [OF upd])
  then have txn: "newTransaction service rid lot ty delta before after bt bid key md at s1 =
      (Inr ?t, snd (nxt s1))"
    by (simp add: newTransaction_def NewAssetService_def go_eval)
  have "ledger_of (snd (nxt s1)) = ledger_of s"
    using next_frame [of s1 "fst (nxt s1)" "snd (nxt s1)"] update_done [OF upd] by simp
  with fresh have "\<not> txn_clash ?t t'" if "t' \<in> set (ledger_of (snd (nxt s1)))" for t'
    using that fresh unfolding txn_clash_def by (simp only: Transaction.select_convs) metis
  moreover have "txn_fits ?t" using fits by (simp add: txn_fits_def)
  ultimately obtain s3 where "CreateTransaction R ?t (snd (nxt s1)) = (Inr (), s3)"
    using create_txn_live by blast
  with upd txn show ?thesis by (rule that)
qed

lemma debit_start:
  assumes "validateAssetCommand c = None"
    and "\<forall>t\<in>set (ledger_of s). txn_ActionKey t \<noteq> cmd_ActionKey c"
  shows "debit (Some service) (Some R) rid c mark s = debit_fresh service R rid c mark s"
  by (simp add: debit_def assms(1) go_eval replay_fresh [OF assms(2)])

lemma debit_lot_missing:
  assumes "validateAssetCommand c = None"
    and "\<forall>t\<in>set (ledger_of s). txn_ActionKey t \<noteq> cmd_ActionKey c"
    and "cmd_LotID c \<notin> lot_ID ` set (lots_of s)"
  shows "debit (Some service) (Some R) rid c mark s = (Inl lotNotFound, s)"
  unfolding debit_start [OF assms(1,2)]
  by (simp add: debit_fresh_def go_eval lock_absent [OF assms(3)])

lemma debit_refused:
  assumes "validateAssetCommand c = None"
    and "\<forall>t\<in>set (ledger_of s). txn_ActionKey t \<noteq> cmd_ActionKey c"
    and "distinct (map lot_ID (lots_of s))" and "lot \<in> set (lots_of s)" and "lot_ID lot = cmd_LotID c"
    and "lot_OwnerCustomerID lot \<noteq> cmd_OwnerCustomerID c \<or> lot_Status lot \<noteq> LotStatusActive \<or>
      lot_ExpiresAt lot \<le> instant (cmd_OccurredAt c) s \<or> lot_AvailableQuantity lot < cmd_Quantity c"
  shows "\<exists>s'. debit (Some service) (Some R) rid c mark s =
      (Inl (if lot_OwnerCustomerID lot \<noteq> cmd_OwnerCustomerID c then lotNotFound
         else problem_Conflict ''WT_INSUFFICIENT_AVAILABLE_QUANTITY''
           ''wine ticket available quantity is insufficient''), s') \<and> unchanged s s'"
proof -
  obtain s' where occ: "occurredAt service (cmd_OccurredAt c) s = (Inr (instant (cmd_OccurredAt c) s), s')"
    and s': "unchanged s s'"
    using occurredAt_live by blast
  show ?thesis
    unfolding debit_start [OF assms(1,2)]
    using lock_present [OF assms(3,4)] occ s' assms(5,6) by (simp add: debit_fresh_def go_eval)
qed

lemma debit_succeeds:
  assumes ok: "validateAssetCommand c = None"
    and key: "\<forall>t\<in>set (ledger_of s). txn_ActionKey t \<noteq> cmd_ActionKey c"
    and nid: "\<forall>t\<in>set (ledger_of s). txn_ID t \<noteq> fst (nxt s) \<and>
      txn_TransactionNo t \<noteq> ''WTT'' @ IDString (fst (nxt s))"
    and b: "books (lots_of s) (ledger_of s)"
    and lot: "lot \<in> set (lots_of s)" "lot_ID lot = cmd_LotID c"
      "lot_OwnerCustomerID lot = cmd_OwnerCustomerID c" "lot_Status lot = LotStatusActive"
      "instant (cmd_OccurredAt c) s < lot_ExpiresAt lot" "cmd_Quantity c \<le> lot_AvailableQuantity lot"
    and small: "uint (cmd_Quantity c) < 2 ^ 31"
  shows "\<exists>m s'. debit (Some service) (Some R) rid c mark s = (Inr m, s') \<and> \<not> mut_Replayed m"
proof -
  have d: "distinct (map lot_ID (lots_of s))" using b by (simp add: books_def)
  obtain s0 where occ: "occurredAt service (cmd_OccurredAt c) s = (Inr (instant (cmd_OccurredAt c) s), s0)"
    and s0: "unchanged s s0" "fst (nxt s0) = fst (nxt s)"
    using occurredAt_live by blast
  note bounds = books_lotD [OF b lot(1)]
  have "uint (lot_AvailableQuantity lot - cmd_Quantity c) = uint (lot_AvailableQuantity lot) - uint (cmd_Quantity c)"
    using lot(6) by (rule uint_diff_le)
  with bounds have after: "uint (lot_AvailableQuantity lot - cmd_Quantity c) < 2 ^ 32"
    using uint_ge_0 [of "cmd_Quantity c"] by linarith
  have neg: "sint (- cmd_Quantity c) = - uint (cmd_Quantity c)"
    using small by (intro sint_neg_small) simp
  have fits: "- (2 ^ 31) \<le> sint (- cmd_Quantity c)" "sint (- cmd_Quantity c) < 2 ^ 31"
      "lot_AvailableQuantity lot < 2 ^ 32" "lot_AvailableQuantity lot - cmd_Quantity c < 2 ^ 32"
    subgoal using neg small by simp
    subgoal unfolding neg using small uint_ge_0 [of "cmd_Quantity c"] by linarith
    subgoal using bounds by (simp add: word_less_def)
    subgoal using after by (simp add: word_less_def)
    done
  have pre: "distinct (map lot_ID (lots_of s0))" "lot \<in> set (lots_of s0)"
      "\<forall>t\<in>set (ledger_of s0). txn_ActionKey t \<noteq> cmd_ActionKey c \<and> txn_ID t \<noteq> fst (nxt s0) \<and>
        txn_TransactionNo t \<noteq> ''WTT'' @ IDString (fst (nxt s0))"
    using d lot(1) s0 key nid by auto
  let ?change = "\<lparr>chg_AvailableQuantity = lot_AvailableQuantity lot - cmd_Quantity c,
      chg_Status = (if lot_AvailableQuantity lot - cmd_Quantity c = 0 then LotStatusDepleted
         else LotStatusActive),
      chg_EverUsed = mark \<or> lot_EverUsed lot, chg_SetEverUsed = mark,
      chg_UpdatedAt = instant (cmd_OccurredAt c) s\<rparr>"
  obtain s1 t s2 s3 where "UpdateLot R (lot_ID lot) (lot_Version lot) ?change s0 = (Inr True, s1)"
    and "newTransaction service rid lot (cmd_TransactionType c) (- cmd_Quantity c)
        (lot_AvailableQuantity lot) (lot_AvailableQuantity lot - cmd_Quantity c) (cmd_BizType c)
        (cmd_BizID c) (cmd_ActionKey c) (cmd_Metadata c) (instant (cmd_OccurredAt c) s) s1 = (Inr t, s2)"
    and "CreateTransaction R t s2 = (Inr (), s3)"
    using posting_live [OF pre(1,2) fits pre(3), where change = ?change] by blast
  with occ lock_present [OF d lot(1)] lot show ?thesis
    unfolding debit_start [OF ok key]
    by (simp add: debit_fresh_def go_eval Let_def not_less)
qed

lemma find_present:
  assumes "distinct (map txn_ActionKey (ledger_of s))" and "t \<in> set (ledger_of s)"
  shows "TransactionByActionKey R (txn_ActionKey t) s = (Inr t, s)"
proof (cases "TransactionByActionKey R (txn_ActionKey t) s")
  case (Pair r s')
  show ?thesis
  proof (cases r)
    case (Inl e)
    with Pair find_live have "TransactionByActionKey R (txn_ActionKey t) s = (Inl ErrAssetRecordNotFound, s')"
      by blast
    from find_missing [OF this assms(2)] show ?thesis by simp
  next
    case (Inr t')
    with Pair find_found [of "txn_ActionKey t" s t' s'] find_frame [OF Pair] assms show ?thesis
      by (auto dest: distinct_key_unique)
  qed
qed

text \<open>A debit whose answer was lost can be sent again: it returns the original result.\<close>

lemma debit_retry:
  assumes b: "books (lots_of s) (ledger_of s)"
    and run: "debit (Some service) (Some R) rid c mark s = (Inr m, s')" and new: "\<not> mut_Replayed m"
  shows "debit (Some service) (Some R) rid2 c mark s' =
    (Inr \<lparr>mut_Lot = mut_Lot m, mut_Transactions = mut_Transactions m, mut_Replayed = True\<rparr>, s')"
  using b run new
proof (rule debit_exact)
  fix lot t
  assume lot: "lot_ID lot = cmd_LotID c" "lot_OwnerCustomerID lot = cmd_OwnerCustomerID c"
      "cmd_Quantity c \<le> lot_AvailableQuantity lot" "lot_ID (mut_Lot m) = lot_ID lot"
      "lot_OwnerCustomerID (mut_Lot m) = lot_OwnerCustomerID lot"
      "lot_AvailableQuantity (mut_Lot m) = lot_AvailableQuantity lot - cmd_Quantity c"
    and s': "set (lots_of s') = insert (mut_Lot m) (set (lots_of s) - {lot})"
      "ledger_of s' = ledger_of s @ [t]" "mut_Transactions m = [t]"
    and t: "txn_LotID t = lot_ID lot" "txn_OwnerCustomerID t = cmd_OwnerCustomerID c"
      "txn_ActionKey t = cmd_ActionKey c" "txn_BeforeAvailableQuantity t = lot_AvailableQuantity lot"
      "txn_AfterAvailableQuantity t = lot_AvailableQuantity (mut_Lot m)"
      "txn_QuantityDelta t = - cmd_Quantity c" "txn_TransactionType t = cmd_TransactionType c"
      "txn_BizType t = cmd_BizType c" "txn_BizID t = cmd_BizID c"
  have b': "books (lots_of s') (ledger_of s')" by (rule debit_books [OF b run])
  have valid: "validateAssetCommand c = None"
    using run unfolding debit_def Let_def option.sel by (elim go_elims) simp
  have find: "TransactionByActionKey R (cmd_ActionKey c) s' = (Inr t, s')"
    using b' s'(2) t(3) find_present [of s' t] by (simp add: books_def)
  have lock: "LockLot R (cmd_LotID c) s' = (Inr (mut_Lot m), s')"
    using b' s'(1) lot(1,4) lock_present [of s' "mut_Lot m"] by (simp add: books_def)
  have "lot_AvailableQuantity lot - cmd_Quantity c \<le> lot_AvailableQuantity lot"
    using lot(3) by (intro word_diff_le) simp_all
  with find lock valid lot t s'(3) show ?thesis
    by (simp add: debit_def replayAssetMutation_def go_eval Let_def not_less)
qed

end

end
