(* ===== verification/Ticket_Demo.thy ===== *)
theory Ticket_Demo
  imports Ticket_Live
begin

text \<open>
  A small concrete world, on which the theorems of the asset core are shown to apply: customer
  7 holds lot 5 with six bottles, issued under one ledger row, on engines that keep their
  tables in memory.
\<close>

definition demo_time :: go_time where
  "demo_time = unix_epoch + 1704067200000 * nanos_per_milli"

definition demo_lot :: Lot where
  "demo_lot =
     \<lparr>lot_ID = 5, lot_LotNo = ''WTL5'', lot_OwnerCustomerID = 7, lot_PurchaseID = 11,
      lot_SourceType = LotSourcePurchase, lot_SourceLotID = None, lot_SourceGiftID = None,
      lot_IssuerMerchantID = 3, lot_ProductID = 4, lot_RedeemCityCode = ''440100'',
      lot_TotalQuantity = 6, lot_AvailableQuantity = 6,
      lot_OriginalExpiresAt = demo_time + 1000 * nanos_per_second,
      lot_ExpiresAt = demo_time + 1000 * nanos_per_second, lot_ExpiryChangedAt = demo_time,
      lot_RenewalCount = 0, lot_EverUsed = False, lot_Status = LotStatusActive, lot_Version = 1,
      lot_CreatedAt = demo_time, lot_UpdatedAt = demo_time\<rparr>"

definition demo_row :: Transaction where
  "demo_row =
     \<lparr>txn_ID = 8, txn_TransactionNo = ''WTT8'', txn_LotID = 5, txn_OwnerCustomerID = 7,
      txn_TransactionType = ''purchase_issue'', txn_QuantityDelta = 6,
      txn_BeforeAvailableQuantity = 0, txn_AfterAvailableQuantity = 6, txn_BizType = ''purchase'',
      txn_BizID = 11, txn_ActionKey = ''issue:11:5'', txn_MetadataJSON = JNull,
      txn_RequestID = None, txn_CreatedAt = demo_time\<rparr>"

definition demo_world :: ticket_world where
  "demo_world =
     \<lparr>wall = demo_time, snow = \<lparr>lastMS = 0, sequence = 0, nodeID = 1, rollbacks = 0\<rparr>,
      lots = [demo_lot], transactions = [demo_row]\<rparr>"

abbreviation demo_repo :: "ticket_world asset_repo" where
  "demo_repo \<equiv> transactionAssetRepository mem_lots mem_txns"

definition demo_debit :: "string \<Rightarrow> go_uint \<Rightarrow> AssetCommand" where
  "demo_debit key quantity =
     \<lparr>cmd_LotID = 5, cmd_OwnerCustomerID = 7, cmd_Quantity = quantity, cmd_MarkUsed = False,
      cmd_TransactionType = ''redeem'', cmd_BizType = ''redemption'', cmd_BizID = 21,
      cmd_ActionKey = key, cmd_Metadata = JNull, cmd_OccurredAt = 0, cmd_ExpiryEvidence = None\<rparr>"


lemma demo_books: "books (lots demo_world) (transactions demo_world)"
  by (simp add: books_def lot_sound_def ledger_balance_def demo_world_def demo_lot_def demo_row_def
      ValidateAssetTransaction_def Let_def)

lemmas demo_simps = go_eval asset_ready_def NewAssetService_def validateAssetCommand_def
  validateAssetEvidence_def replayAssetMutation_def transactionAssetRepository_def
  repo_TransactionByActionKey_def repo_LockLot_def repo_UpdateLot_def repo_CreateTransaction_def
  repo_CreateLot_def mem_engine_def assetRepositoryError_def occurredAt_def NowShanghai_def
  wall_now_def world_next_id_def snow_Next_def snow_id_def snow_epoch_def newTransaction_def
  apply_lot_change_def update_where_def txn_fits_def txn_clash_def lot_fits_def lot_clash_def
  IDString_def format_uint.simps unix_milli_def unix_epoch_def nanos_per_milli_def
  nanos_per_second_def truncate_to_def Let_def demo_time_def

end
