(* ===== verification/Ticket_Properties.thy ===== *)
theory Ticket_Properties
  imports Ticket_Demo
begin

text \<open>
  The properties of the wine-ticket asset core, stated over the implementation on a GORM
  transaction (\<open>transactionAssetRepository\<close>) for every pair of engines with the documented
  laws (\<open>ticket_engines\<close>), each with a witness on engines that keep their tables in memory.
\<close>

lemma asset_tx_cases:
  assumes "asset_tx lotE txE commit rid ops w = (r, w')"
  obtains (rollback) e where "r = Inl e" and "lots w' = lots w" and "transactions w' = transactions w"
    | (commit) ms where "r = Inr ms"
      and "run_ops world_service (transactionAssetRepository lotE txE) rid ops w = (Inr ms, w')"
proof (cases r)
  case (Inl e)
  with assms have "\<exists>u. w' = restore_tables w u"
    unfolding asset_tx_def by (blast intro: gorm_transaction_error)
  then show ?thesis
    by (intro rollback [OF Inl]) (auto simp: restore_tables_def)
next
  case (Inr ms)
  with assms show ?thesis
    by (intro commit [OF Inr]) (auto simp: asset_tx_def gorm_transaction_success)
qed

context ticket_engines
begin

lemma step_keeps:
  assumes "asset_step lotE txE w w'" and "books (lots w) (transactions w)"
  shows "books (lots w') (transactions w') \<and> lots_evolve (lots w) (lots w') \<and>
    (\<exists>rows. transactions w' = transactions w @ rows)"
  using assms(1)
proof cases
  case (business ops commit rid r)
  from business(2) show ?thesis
  proof (cases rule: asset_tx_cases)
    case (commit ms)
    with repository.run_ops_books [OF business(1) assms(2) commit(2)]
      repository.run_ops_evolves [OF business(1) assms(2) commit(2)] show ?thesis by blast
  qed (use assms(2) in auto)
qed (use assms(2) in auto)

lemma reachable_keeps:
  assumes "(asset_step lotE txE)\<^sup>*\<^sup>* w w'" and "books (lots w) (transactions w)"
  shows "books (lots w') (transactions w') \<and> lots_evolve (lots w) (lots w') \<and>
    (\<exists>rows. transactions w' = transactions w @ rows)"
  using assms
proof (induction rule: rtranclp_induct)
  case (step v u)
  then have v: "books (lots v) (transactions v)" "lots_evolve (lots w) (lots v)"
    "\<exists>rows. transactions v = transactions w @ rows" by auto
  from step_keeps [OF step(2) v(1)] v(2,3) show ?case
    by (auto intro: lots_evolve_trans)
qed simp

end

lemma demo_redeem:
  "\<exists>m w'. Redeem (Some world_service) (Some demo_repo) None (demo_debit ''k1'' 2) demo_world =
     (Inr m, w') \<and> \<not> mut_Replayed m \<and> mut_Transactions m \<noteq> [] \<and> lot_balances (lots w') 5 = Some 4"
  by (simp add: Redeem_def debit_def debit_fresh_def demo_debit_def demo_world_def demo_lot_def
      demo_row_def demo_simps lot_balances_def)

lemma demo_reaches:
  "\<exists>m w'. asset_tx mem_lots mem_txns (\<lambda>_. None) None [OpRedeem (demo_debit ''k1'' 2)] demo_world =
     (Inr [m], w') \<and> \<not> mut_Replayed m \<and> lots w' \<noteq> lots demo_world"
  by (simp add: asset_tx_def run_ops_def gorm_transaction_def Redeem_def debit_def debit_fresh_def
      demo_debit_def demo_world_def demo_lot_def demo_row_def demo_simps)

subsection \<open>The books\<close>

text \<open>C1: Whatever business transactions run, in whatever order, and whether they commit, fail half
  way or lose their commit, the books stay balanced: in every reachable world the available
  quantity of each lot is the sum of its ledger deltas and at most its total quantity, depleted
  and expired lots hold nothing, every ledger row satisfies the balance equation and no action
  key occurs twice.\<close>

theorem ticket_books_reachable:
  assumes "ticket_engines lotE txE" and "(asset_step lotE txE)\<^sup>*\<^sup>* w w'"
    and "books (lots w) (transactions w)"
  shows "books (lots w') (transactions w')"
  using ticket_engines.reachable_keeps [OF assms] by simp

theorem ticket_books_reachable_witness:
  "\<exists>w'. (asset_step mem_lots mem_txns)\<^sup>*\<^sup>* demo_world w' \<and> lots w' \<noteq> lots demo_world \<and>
     books (lots w') (transactions w')"
proof -
  obtain r w' where run: "asset_tx mem_lots mem_txns (\<lambda>_. None) None
      [OpRedeem (demo_debit ''k1'' 2)] demo_world = (r, w')" and "lots w' \<noteq> lots demo_world"
    using demo_reaches by blast
  have "(asset_step mem_lots mem_txns)\<^sup>*\<^sup>* demo_world w'"
    by (rule r_into_rtranclp, rule asset_step.business [OF _ run]) simp
  with ticket_books_reachable [OF mem_ticket.ticket_engines_axioms this demo_books]
    \<open>lots w' \<noteq> lots demo_world\<close> show ?thesis by blast
qed

text \<open>C21: The ledger is append-only and entitlements are immutable: in every reachable world the
  rows of the earlier ledger are a prefix of the ledger, every earlier lot is still there
  with the same owner, origin, product, city, total quantity and expiry, its used mark is
  never cleared, and a refunded lot is exactly as it was.\<close>

theorem ticket_history_immutable:
  assumes "ticket_engines lotE txE" and "(asset_step lotE txE)\<^sup>*\<^sup>* w w'"
    and "books (lots w) (transactions w)" and "l \<in> set (lots w)"
  shows "(\<exists>rows. transactions w' = transactions w @ rows) \<and>
    (\<exists>l'\<in>set (lots w'). lot_entitlement l' = lot_entitlement l \<and>
       (lot_EverUsed l \<longrightarrow> lot_EverUsed l') \<and> (lot_Status l = LotStatusRefunded \<longrightarrow> l' = l))"
  using ticket_engines.reachable_keeps [OF assms(1-3)] assms(4)
  by (auto simp: lots_evolve_def lot_evolves_def)

theorem ticket_history_immutable_witness:
  "\<exists>w'::ticket_world. lots w' \<noteq> lots demo_world \<and> (\<exists>rows. transactions w' = transactions demo_world @ rows) \<and>
    (\<exists>l'\<in>set (lots w'). lot_entitlement l' = lot_entitlement demo_lot)"
proof -
  obtain r w' where run: "asset_tx mem_lots mem_txns (\<lambda>_. None) None
      [OpRedeem (demo_debit ''k1'' 2)] demo_world = (r, w')" and "lots w' \<noteq> lots demo_world"
    using demo_reaches by blast
  have "(asset_step mem_lots mem_txns)\<^sup>*\<^sup>* demo_world w'"
    by (rule r_into_rtranclp, rule asset_step.business [OF _ run]) simp
  moreover have "demo_lot \<in> set (lots demo_world)" by (simp add: demo_world_def)
  ultimately show ?thesis
    using ticket_history_immutable [OF mem_ticket.ticket_engines_axioms _ demo_books]
      \<open>lots w' \<noteq> lots demo_world\<close> by (intro exI [of _ w']) blast
qed



subsection \<open>Debits\<close>

text \<open>A redemption that is not a replay took its bottles from a lot that belongs to the
  customer of the command, was active and not past its expiry at the instant of the command,
  and held the quantity; it wrote one ledger row with that lot, owner, balance before and
  after and the command's action key, marked the lot used, and left every other lot alone.\<close>

theorem redeem_authorised:
  assumes "ticket_engines lotE txE" and "books (lots w) (transactions w)"
    and "Redeem (Some world_service) (Some (transactionAssetRepository lotE txE)) rid c w = (Inr m, w')"
    and "\<not> mut_Replayed m"
  shows "\<exists>lot t. lot \<in> set (lots w) \<and> lot_ID lot = cmd_LotID c \<and>
    lot_OwnerCustomerID lot = cmd_OwnerCustomerID c \<and> lot_Status lot = LotStatusActive \<and>
    truncate_to nanos_per_milli (if cmd_OccurredAt c = 0 then wall w else cmd_OccurredAt c) < lot_ExpiresAt lot \<and>
    0 < uint (cmd_Quantity c) \<and> cmd_Quantity c \<le> lot_AvailableQuantity lot \<and>
    lot_EverUsed (mut_Lot m) \<and>
    lot_AvailableQuantity (mut_Lot m) = lot_AvailableQuantity lot - cmd_Quantity c \<and>
    set (lots w') = insert (mut_Lot m) (set (lots w) - {lot}) \<and>
    transactions w' = transactions w @ [t] \<and> txn_LotID t = lot_ID lot \<and>
    txn_OwnerCustomerID t = cmd_OwnerCustomerID c \<and> txn_ActionKey t = cmd_ActionKey c \<and>
    txn_BeforeAvailableQuantity t = lot_AvailableQuantity lot \<and>
    txn_AfterAvailableQuantity t = lot_AvailableQuantity (mut_Lot m)"
  by (rule asset_ledger.debit_exact [OF ticket_engines.repository_laws [OF assms(1)] assms(2)
        assms(3) [unfolded Redeem_def] assms(4), unfolded wall_now_fst])
    (intro exI conjI; (assumption | simp))

theorem redeem_authorised_witness:
  "\<exists>m w'. Redeem (Some world_service) (Some demo_repo) None (demo_debit ''k1'' 2) demo_world = (Inr m, w') \<and>
     lot_EverUsed (mut_Lot m) \<and> (\<exists>t. transactions w' = transactions demo_world @ [t])"
  using demo_redeem redeem_authorised [OF mem_ticket.ticket_engines_axioms demo_books] by metis



text \<open>A lost answer is harmless: sending a redemption again returns the original ledger row and
  lot and changes no table, also when the lot is by then empty.\<close>

theorem redeem_retry:
  assumes "ticket_engines_live lotE txE" and "books (lots w) (transactions w)"
    and "Redeem (Some world_service) (Some (transactionAssetRepository lotE txE)) rid c w = (Inr m, w')"
    and "\<not> mut_Replayed m"
  shows "Redeem (Some world_service) (Some (transactionAssetRepository lotE txE)) rid2 c w' =
    (Inr \<lparr>mut_Lot = mut_Lot m, mut_Transactions = mut_Transactions m, mut_Replayed = True\<rparr>, w')"
  using asset_ledger_live.debit_retry [OF ticket_engines_live.repository_live_laws [OF assms(1)]
      assms(2) assms(3) [unfolded Redeem_def] assms(4)]
  by (simp add: Redeem_def)

theorem redeem_retry_witness:
  "\<exists>m w'. Redeem (Some world_service) (Some demo_repo) None (demo_debit ''k1'' 2) demo_world = (Inr m, w') \<and>
     Redeem (Some world_service) (Some demo_repo) None (demo_debit ''k1'' 2) w' =
       (Inr \<lparr>mut_Lot = mut_Lot m, mut_Transactions = mut_Transactions m, mut_Replayed = True\<rparr>, w')"
  using demo_redeem redeem_retry [OF mem_ticket_live.ticket_engines_live_axioms demo_books] by blast

text \<open>C15: Every operation takes effect at most once: when it has written a ledger row, then in any
  later world whose ledger still has the rows, calling it again with the same command either
  fails or replays, and a replay leaves the whole world as it is.\<close>

theorem ticket_op_once:
  fixes w v :: "'z ticket_world_scheme"
  assumes "ticket_engines lotE txE" and "books (lots w) (transactions w)"
    and "run_op world_service (transactionAssetRepository lotE txE) rid op w = (Inr m, w')"
    and "mut_Transactions m \<noteq> []" and "set (transactions w') \<subseteq> set (transactions v)"
    and "run_op world_service (transactionAssetRepository lotE txE) rid2 op v = (Inr m2, v')"
  shows "v' = v \<and> mut_Replayed m2"
  by (rule asset_ledger.run_op_once [OF ticket_engines.repository_laws [OF assms(1)] assms(2-6)])

theorem ticket_op_once_witness:
  "\<exists>m w' m2 v'. Redeem (Some world_service) (Some demo_repo) None (demo_debit ''k1'' 2) demo_world = (Inr m, w') \<and>
     Redeem (Some world_service) (Some demo_repo) None (demo_debit ''k1'' 2) w' = (Inr m2, v') \<and> v' = w'"
proof -
  obtain m w' where run: "Redeem (Some world_service) (Some demo_repo) None (demo_debit ''k1'' 2) demo_world =
      (Inr m, w')" and new: "\<not> mut_Replayed m" "mut_Transactions m \<noteq> []"
    using demo_redeem by blast
  from asset_ledger_live.debit_retry [OF mem_ticket_live.repository_live_laws demo_books
      run [unfolded Redeem_def] new(1)]
  obtain m2 v' where again: "Redeem (Some world_service) (Some demo_repo) None (demo_debit ''k1'' 2) w' = (Inr m2, v')"
    by (auto simp: Redeem_def)
  have "v' = w' \<and> mut_Replayed m2"
    by (rule ticket_op_once [OF mem_ticket.ticket_engines_axioms demo_books _ new(2) subset_refl,
          where op = "OpRedeem (demo_debit ''k1'' 2)"]) (use run again in simp_all)
  with run again show ?thesis by blast
qed

subsection \<open>Restores\<close>

text \<open>Freezing bottles and restoring them before the lot expires is a round trip: every balance
  is what it was before the freeze.\<close>

theorem freeze_restore_roundtrip:
  assumes "ticket_engines lotE txE" and "books (lots w) (transactions w)"
    and "Freeze (Some world_service) (Some (transactionAssetRepository lotE txE)) rid c w = (Inr m, w1)"
    and "\<not> mut_Replayed m"
    and "Restore (Some world_service) (Some (transactionAssetRepository lotE txE)) rid2 c2 w1 = (Inr m2, w2)"
    and "\<not> mut_Replayed m2" and "cmd_LotID c2 = cmd_LotID c" and "cmd_Quantity c2 = cmd_Quantity c"
    and "\<forall>l\<in>set (lots w1). lot_ID l = cmd_LotID c \<longrightarrow>
      truncate_to nanos_per_milli (if cmd_OccurredAt c2 = 0 then wall w1 else cmd_OccurredAt c2) < lot_ExpiresAt l"
  shows "lot_balances (lots w2) = lot_balances (lots w)"
  by (rule asset_ledger.freeze_restore_balances [OF ticket_engines.repository_laws [OF assms(1)]
        assms(2-8), unfolded wall_now_fst])
    (use assms(9) in blast)

text \<open>Bottles that come back to a lot past its expiry are forfeited: the restore writes one row
  that gives the quantity back and a second one that takes the whole balance away, the lot
  ends expired with nothing, and no other balance changes.\<close>

theorem restore_after_expiry:
  assumes "ticket_engines lotE txE" and "books (lots w) (transactions w)"
    and "Restore (Some world_service) (Some (transactionAssetRepository lotE txE)) rid c w = (Inr m, w')"
    and "\<not> mut_Replayed m"
    and "\<forall>l\<in>set (lots w). lot_ID l = cmd_LotID c \<longrightarrow> lot_ExpiresAt l \<le>
      truncate_to nanos_per_milli (if cmd_OccurredAt c = 0 then wall w else cmd_OccurredAt c)"
  shows "\<exists>t1 t2 v. mut_Transactions m = [t1, t2] \<and> transactions w' = transactions w @ [t1, t2] \<and>
    lot_balances (lots w) (cmd_LotID c) = Some v \<and>
    sint (txn_QuantityDelta t1) = uint (cmd_Quantity c) \<and>
    sint (txn_QuantityDelta t2) = - (v + uint (cmd_Quantity c)) \<and>
    lot_balances (lots w') = (lot_balances (lots w))(cmd_LotID c \<mapsto> 0) \<and>
    lot_Status (mut_Lot m) = LotStatusExpired"
  by (rule asset_ledger.restore_forfeits [OF ticket_engines.repository_laws [OF assms(1)]
        assms(2-4), unfolded wall_now_fst])
    (use assms(5) in \<open>blast+\<close>)

lemma demo_freeze_restore:
  "\<exists>m w1 m2 w2. Freeze (Some world_service) (Some demo_repo) None (demo_debit ''k1'' 2) demo_world = (Inr m, w1) \<and>
     Restore (Some world_service) (Some demo_repo) None (demo_debit ''k2'' 2) w1 = (Inr m2, w2) \<and>
     \<not> mut_Replayed m \<and> \<not> mut_Replayed m2 \<and> wall w1 = demo_time \<and>
     (\<forall>l\<in>set (lots w1). lot_ExpiresAt l = demo_time + 1000 * nanos_per_second)"
  by (simp add: Freeze_def Restore_def restore_fresh_def restoreExpiryEvidence_def debit_def
      debit_fresh_def demo_debit_def demo_world_def demo_lot_def demo_row_def demo_simps)

lemma demo_late_restore:
  "\<exists>m w1 m2 w2. Freeze (Some world_service) (Some demo_repo) None (demo_debit ''k1'' 2) demo_world = (Inr m, w1) \<and>
     Restore (Some world_service) (Some demo_repo) None
       ((demo_debit ''k2'' 2)\<lparr>cmd_OccurredAt := demo_time + 2000 * nanos_per_second\<rparr>) w1 = (Inr m2, w2) \<and>
     \<not> mut_Replayed m2 \<and> (\<forall>l\<in>set (lots w1). lot_ExpiresAt l = demo_time + 1000 * nanos_per_second)"
  by (simp add: Freeze_def Restore_def restore_fresh_def restore_expiry_def restoreExpiryEvidence_def
      TransactionTypeExpiry_def debit_def debit_fresh_def demo_debit_def demo_world_def demo_lot_def demo_row_def demo_simps)

theorem freeze_restore_roundtrip_witness:
  "\<exists>m w1 m2 w2. Freeze (Some world_service) (Some demo_repo) None (demo_debit ''k1'' 2) demo_world = (Inr m, w1) \<and>
     Restore (Some world_service) (Some demo_repo) None (demo_debit ''k2'' 2) w1 = (Inr m2, w2) \<and>
     lot_balances (lots w2) = lot_balances (lots demo_world)"
proof -
  obtain m w1 m2 w2 where fr: "Freeze (Some world_service) (Some demo_repo) None (demo_debit ''k1'' 2) demo_world = (Inr m, w1)"
    and re: "Restore (Some world_service) (Some demo_repo) None (demo_debit ''k2'' 2) w1 = (Inr m2, w2)"
    and new: "\<not> mut_Replayed m" "\<not> mut_Replayed m2"
    and w1: "wall w1 = demo_time" "\<forall>l\<in>set (lots w1). lot_ExpiresAt l = demo_time + 1000 * nanos_per_second"
    using demo_freeze_restore by blast
  have "lot_balances (lots w2) = lot_balances (lots demo_world)"
    by (rule freeze_restore_roundtrip [OF mem_ticket.ticket_engines_axioms demo_books fr new(1) re new(2)])
      (use w1 in \<open>simp_all add: demo_debit_def demo_time_def unix_epoch_def nanos_per_second_def
        nanos_per_milli_def truncate_to_def\<close>)
  with fr re show ?thesis by blast
qed

theorem restore_after_expiry_witness:
  "\<exists>w1 m2 w2. Restore (Some world_service) (Some demo_repo) None
       ((demo_debit ''k2'' 2)\<lparr>cmd_OccurredAt := demo_time + 2000 * nanos_per_second\<rparr>) w1 = (Inr m2, w2) \<and>
     lot_balances (lots w2) = (lot_balances (lots w1))(5 \<mapsto> 0)"
proof -
  let ?c = "(demo_debit ''k2'' 2)\<lparr>cmd_OccurredAt := demo_time + 2000 * nanos_per_second\<rparr>"
  obtain m w1 m2 w2 where fr: "Freeze (Some world_service) (Some demo_repo) None (demo_debit ''k1'' 2) demo_world = (Inr m, w1)"
    and re: "Restore (Some world_service) (Some demo_repo) None ?c w1 = (Inr m2, w2)"
    and new: "\<not> mut_Replayed m2"
    and w1: "\<forall>l\<in>set (lots w1). lot_ExpiresAt l = demo_time + 1000 * nanos_per_second"
    using demo_late_restore by blast
  have "books (lots w1) (transactions w1)"
    by (rule mem_ticket.repository.debit_books [OF demo_books fr [unfolded Freeze_def]])
  moreover have "\<forall>l\<in>set (lots w1). lot_ID l = cmd_LotID ?c \<longrightarrow> lot_ExpiresAt l \<le>
      truncate_to nanos_per_milli (if cmd_OccurredAt ?c = 0 then wall w1 else cmd_OccurredAt ?c)"
    using w1 by (simp add: demo_time_def unix_epoch_def nanos_per_second_def
        nanos_per_milli_def truncate_to_def)
  ultimately have "lot_balances (lots w2) = (lot_balances (lots w1))(cmd_LotID ?c \<mapsto> 0)"
    using restore_after_expiry [OF mem_ticket.ticket_engines_axioms _ re new] by blast
  with re show ?thesis by (auto simp: demo_debit_def)
qed

end
