(* ===== verification/Ticket_Expiry.thy ===== *)
theory Ticket_Expiry
  imports Ticket_Properties "HOL-Library.Product_Lexorder"
begin

text \<open>
  The expiry worker: \<open>core/expiry_worker.go\<close> and \<open>core/expiry_repository.go\<close>. It takes a bounded
  batch of lots that are active and past their expiry, in the order of their expiry, and moves
  each to the expired state, except the lots an unfinished renewal or a held refund allocation
  protects. The lots are read with \<open>FOR UPDATE SKIP LOCKED\<close>: a lot that another transaction has
  locked may be missing from the batch.

  A query with an order and a limit is the parameter \<open>select\<close>, with the documented behaviour
  of such a query as the locale \<open>gorm_select\<close>; \<open>mem_select\<close> is a query with these laws.
\<close>

subsection \<open>Ordered, limited queries\<close>

type_synonym 'row select =
  "('row \<Rightarrow> bool) \<Rightarrow> ('row \<Rightarrow> int \<times> int) \<Rightarrow> nat \<Rightarrow> 'row list \<Rightarrow> go_error + 'row list"

definition mem_select :: "('row \<Rightarrow> bool) \<Rightarrow> 'row select" where
  "mem_select locked p key limit rows =
     Inr (take limit (sort_key key (filter (\<lambda>r. p r \<and> \<not> locked r) rows)))"

locale gorm_select =
  fixes select :: "'row select" and locked :: "'row \<Rightarrow> bool"
  assumes select_rows: "select p key limit rows = Inr found \<Longrightarrow>
      mset found \<subseteq># mset (filter p rows) \<and> length found \<le> limit \<and> sorted (map key found)"
    and select_complete: "select p key limit rows = Inr found \<Longrightarrow> r \<in> set rows \<Longrightarrow> p r \<Longrightarrow>
      \<not> locked r \<Longrightarrow> r \<notin> set found \<Longrightarrow> length found = limit \<and> (\<forall>f\<in>set found. key f \<le> key r)"

lemma sorted_take_drop:
  assumes "sorted_wrt (\<le>) ys" and "x \<in> set (take n ys)" and "y \<in> set (drop n ys)"
  shows "x \<le> (y::'a::order)"
proof -
  have "sorted_wrt (\<le>) (take n ys @ drop n ys)" using assms(1) by simp
  then show ?thesis using assms(2,3) unfolding sorted_wrt_append by blast
qed

interpretation mem_query: gorm_select "mem_select locked" locked for locked :: "'row \<Rightarrow> bool"
proof
  fix p :: "'row \<Rightarrow> bool" and key :: "'row \<Rightarrow> int \<times> int" and limit rows found
  let ?all = "sort_key key (filter (\<lambda>r. p r \<and> \<not> locked r) rows)"
  assume sel: "mem_select locked p key limit rows = Inr found"
  then have found: "found = take limit ?all" by (simp add: mem_select_def)
  have "mset found \<subseteq># mset ?all"
    unfolding found by (metis append_take_drop_id mset_append mset_subset_eq_add_left)
  also have "mset ?all \<subseteq># mset (filter p rows)"
    by (simp add: multiset_filter_mono subseteq_mset_def count_filter_mset)
  finally show "mset found \<subseteq># mset (filter p rows) \<and> length found \<le> limit \<and> sorted (map key found)"
    by (simp add: found take_map [symmetric] sorted_wrt_take)
  fix r
  assume r: "r \<in> set rows" "p r" "\<not> locked r" "r \<notin> set found"
  then have "r \<in> set ?all" by simp
  then have rest: "r \<in> set (drop limit ?all)"
    using r(4) found by (metis UnE append_take_drop_id set_append)
  have "length found = limit"
    using rest unfolding found by (cases "limit \<le> length ?all") auto
  moreover have "key f \<le> key r" if "f \<in> set found" for f
    using sorted_take_drop [of "map key ?all" "key f" limit "key r"] that rest
    by (simp add: found take_map drop_map)
  ultimately show "length found = limit \<and> (\<forall>f\<in>set found. key f \<le> key r)" by blast
qed

subsection \<open>The worker\<close>

record expiryRenewalGuard =
  rg_ID :: uint64
  rg_LotID :: uint64
  rg_Status :: string

record expiryRefundAllocationGuard =
  ag_ID :: uint64
  ag_LotID :: uint64
  ag_Status :: string

record expiry_world = ticket_world +
  renewals :: "expiryRenewalGuard list"
  refund_allocations :: "expiryRefundAllocationGuard list"

definition activeExpiryGuardRenewalStatuses :: "string list" where
  "activeExpiryGuardRenewalStatuses =
     [''pending_payment'', ''payment_unknown'', ''applying'', ''compensating_refund'', ''refund_exception'']"

definition renewal_guards :: "uint64 \<Rightarrow> expiryRenewalGuard \<Rightarrow> bool" where
  "renewal_guards lotID r \<longleftrightarrow> rg_LotID r = lotID \<and> rg_Status r \<in> set activeExpiryGuardRenewalStatuses"

definition allocation_guards :: "uint64 \<Rightarrow> expiryRefundAllocationGuard \<Rightarrow> bool" where
  "allocation_guards lotID a \<longleftrightarrow> ag_LotID a = lotID \<and> ag_Status a = ''held''"

definition dueLotsQuery :: "go_time \<Rightarrow> 'z expiry_world_scheme \<Rightarrow> Lot \<Rightarrow> bool" where
  "dueLotsQuery now w l \<longleftrightarrow> lot_Status l = LotStatusActive \<and> lot_ExpiresAt l \<le> now \<and>
     \<not> list_ex (renewal_guards (lot_ID l)) (renewals w) \<and>
     \<not> list_ex (allocation_guards (lot_ID l)) (refund_allocations w)"

definition dueLots ::
    "Lot select \<Rightarrow> go_time \<Rightarrow> nat \<Rightarrow> ('z expiry_world_scheme, go_error, Lot list) go" where
  "dueLots select now batch w =
     (select (dueLotsQuery now w) (\<lambda>l. (lot_ExpiresAt l, uint (lot_ID l))) batch (lots w), w)"

definition expiryGuarded ::
    "expiryRenewalGuard engine \<Rightarrow> expiryRefundAllocationGuard engine \<Rightarrow> uint64 \<Rightarrow>
     ('z expiry_world_scheme, go_error, bool) go" where
  "expiryGuarded reE alE lotID w =
     (case sql_find reE (renewal_guards lotID) (renewals w) of
        Inl e \<Rightarrow> (Inl e, w)
      | Inr rs \<Rightarrow>
          if 0 < length rs then (Inr True, w)
          else case sql_find alE (allocation_guards lotID) (refund_allocations w) of
            Inl e \<Rightarrow> (Inl e, w)
          | Inr as \<Rightarrow> (Inr (0 < length as), w))"

record 's ExpiryWorker =
  ew_assets :: "'s AssetService"
  ew_now :: "'s \<Rightarrow> go_time \<times> 's"
  ew_batch :: int

definition NewExpiryWorker ::
    "('s \<Rightarrow> uint64 \<times> 's) \<Rightarrow> ('s \<Rightarrow> go_time \<times> 's) \<Rightarrow> 's ExpiryWorker" where
  "NewExpiryWorker ids clock =
     \<lparr>ew_assets = NewAssetService (Some ids) clock, ew_now = clock, ew_batch = 100\<rparr>"

definition WithNow :: "'s ExpiryWorker \<Rightarrow> ('s \<Rightarrow> go_time \<times> 's) option \<Rightarrow> 's ExpiryWorker" where
  "WithNow w now = (case now of None \<Rightarrow> w | Some n \<Rightarrow> w\<lparr>ew_now := n\<rparr>)"

definition WithBatchSize :: "'s ExpiryWorker \<Rightarrow> int \<Rightarrow> 's ExpiryWorker" where
  "WithBatchSize w batch = (if 0 < batch \<and> batch \<le> 1000 then w\<lparr>ew_batch := batch\<rparr> else w)"

text \<open>\<open>expireAvailable\<close> returns whether a row was created, and the lot it leaves in \<open>*lot\<close>.\<close>

definition expireAvailable ::
    "'s ExpiryWorker \<Rightarrow> 's asset_repo \<Rightarrow> string option \<Rightarrow> Lot \<Rightarrow> go_time \<Rightarrow> string \<Rightarrow>
     ('s, go_error, bool \<times> Lot) go" where
  "expireAvailable w repo requestID lot now actionKey =
     go_bind (Expire (Some (ew_assets w)) (Some repo) requestID
       \<lparr>exp_LotID = lot_ID lot, exp_OwnerCustomerID = lot_OwnerCustomerID lot,
        exp_TransactionType = TransactionTypeExpiry, exp_BizType = ''wine_ticket_expiry'',
        exp_BizID = lot_ID lot, exp_ActionKey = actionKey,
        exp_Metadata = JObject [(''reason'', JString ''lot_expired''),
          (''expires_at'', JTime (lot_ExpiresAt lot))],
        exp_OccurredAt = now\<rparr>) (\<lambda>result.
       go_ok (0 < length (mut_Transactions result) \<and> \<not> mut_Replayed result, mut_Lot result))"

definition expiry_action_key :: "Lot \<Rightarrow> string" where
  "expiry_action_key lot =
     ''expiry:'' @ format_uint (unat (lot_ID lot)) @ '':'' @ format_int (unix_milli (lot_ExpiresAt lot))"

text \<open>The loop of \<open>ExpireLotsOnce\<close>, with the counter \<open>expired\<close> of the enclosing function: it
  keeps the value it has reached also when the loop returns an error.\<close>

fun expire_loop ::
    "'z expiry_world_scheme ExpiryWorker \<Rightarrow> 'z expiry_world_scheme asset_repo \<Rightarrow>
     expiryRenewalGuard engine \<Rightarrow> expiryRefundAllocationGuard engine \<Rightarrow> string option \<Rightarrow> go_time \<Rightarrow>
     Lot list \<Rightarrow> int \<Rightarrow> 'z expiry_world_scheme \<Rightarrow> (int \<times> go_error option) \<times> 'z expiry_world_scheme" where
  "expire_loop w repo reE alE requestID now [] expired s = ((expired, None), s)"
| "expire_loop w repo reE alE requestID now (lot # rows) expired s =
     (case expiryGuarded reE alE (lot_ID lot) s of
        (Inl e, s1) \<Rightarrow> ((expired, Some e), s1)
      | (Inr blocked, s1) \<Rightarrow>
          if blocked then expire_loop w repo reE alE requestID now rows expired s1
          else case expireAvailable w repo requestID lot now (expiry_action_key lot) s1 of
            (Inl e, s2) \<Rightarrow> ((expired, Some e), s2)
          | (Inr (created, lot'), s2) \<Rightarrow>
              expire_loop w repo reE alE requestID now rows
                (if created \<or> lot_Status lot' = LotStatusExpired then expired + 1 else expired) s2)"

definition expire_batch ::
    "'z expiry_world_scheme ExpiryWorker \<Rightarrow> Lot select \<Rightarrow> 'z expiry_world_scheme asset_repo \<Rightarrow>
     expiryRenewalGuard engine \<Rightarrow> expiryRefundAllocationGuard engine \<Rightarrow> string option \<Rightarrow> go_time \<Rightarrow>
     'z expiry_world_scheme \<Rightarrow> (int \<times> go_error option) \<times> 'z expiry_world_scheme" where
  "expire_batch w select repo reE alE requestID now s =
     (case dueLots select now (nat (ew_batch w)) s of
        (Inl e, s1) \<Rightarrow> ((0, Some e), s1)
      | (Inr rows, s1) \<Rightarrow> expire_loop w repo reE alE requestID now rows 0 s1)"

definition ExpireLotsOnce ::
    "'z expiry_world_scheme ExpiryWorker \<Rightarrow> Lot select \<Rightarrow> Lot engine \<Rightarrow> Transaction engine \<Rightarrow>
     expiryRenewalGuard engine \<Rightarrow> expiryRefundAllocationGuard engine \<Rightarrow>
     ('z expiry_world_scheme \<Rightarrow> go_error option) \<Rightarrow> string option \<Rightarrow>
     'z expiry_world_scheme \<Rightarrow> (int \<times> go_error option) \<times> 'z expiry_world_scheme" where
  "ExpireLotsOnce w select lotE txE reE alE commit requestID s =
     (case ew_now w s of
        (t, s0) \<Rightarrow>
          case expire_batch w select (transactionAssetRepository lotE txE) reE alE requestID
                 (truncate_to nanos_per_milli t) s0 of
            ((expired, Some e), s1) \<Rightarrow> ((expired, Some e), restore_tables s0 s1)
          | ((expired, None), s1) \<Rightarrow>
              (case commit s1 of
                 None \<Rightarrow> ((expired, None), s1)
               | Some e \<Rightarrow> ((expired, Some e), restore_tables s0 s1)))"

subsection \<open>What a run does\<close>

text \<open>The effect of the loop on a batch: every lot of it, and no other, is now expired and empty.\<close>

definition batch_expired :: "Lot list \<Rightarrow> Lot list \<Rightarrow> Lot list \<Rightarrow> bool" where
  "batch_expired batch ls ls' \<longleftrightarrow>
     (\<forall>l\<in>set ls. if l \<in> set batch
        then \<exists>l'\<in>set ls'. lot_ID l' = lot_ID l \<and> lot_Status l' = LotStatusExpired \<and> lot_AvailableQuantity l' = 0
        else l \<in> set ls')"

text \<open>The asset service does not write outside its own two tables.\<close>

lemma Expire_outside:
  fixes s :: "'z ticket_world_scheme"
  assumes "Expire (Some world_service) (Some (transactionAssetRepository lotE txE)) rid c s = (r, s')"
  shows "ticket_world.more s' = ticket_world.more s"
proof -
  let ?P = "\<lambda>w::'z ticket_world_scheme. ticket_world.more w = ticket_world.more s"
  have "go_keeps ?P (repo_TransactionByActionKey txE key)" for key
    by (auto simp: go_keeps_def repo_TransactionByActionKey_def split: sum.splits)
  moreover have "go_keeps ?P (repo_LockLot lotE i)" for i
    by (auto simp: go_keeps_def repo_LockLot_def split: sum.splits)
  moreover have "go_keeps ?P (repo_UpdateLot lotE i v change)" for i v change
    by (auto simp: go_keeps_def repo_UpdateLot_def split: sum.splits)
  moreover have "go_keeps ?P (repo_CreateTransaction txE t)" for t
    by (auto simp: go_keeps_def repo_CreateTransaction_def split: sum.splits)
  moreover have "go_keeps ?P (newTransaction world_service rid l ty d b a bt bi k md at)" for l ty d b a bt bi k md at
    unfolding newTransaction_def NewAssetService_def
    by (auto simp: go_keeps_def go_eval world_next_id_def split: prod.splits)
  moreover have "go_keeps ?P (occurredAt world_service v)" for v
    unfolding occurredAt_def NewAssetService_def NowShanghai_def
    by (auto simp: go_keeps_def go_eval wall_now_def)
  ultimately have "go_keeps ?P (Expire (Some world_service) (Some (transactionAssetRepository lotE txE)) rid c)"
    unfolding Expire_def expire_replay_def expire_fresh_def transactionAssetRepository_def Let_def
    by (simp only: option.sel asset_repo.simps) (intro go_keeps_bind go_keeps_try go_keeps_if
      go_keeps_option go_keeps_sum go_keeps_ok go_keeps_err; assumption)
  from go_keepsD [OF this assms] show ?thesis by simp
qed

locale expiry_engines =
  ticket_engines lotE txE + renewal_table: gorm_table reE renewal_clash renewal_fits +
  allocation_table: gorm_table alE allocation_clash allocation_fits + gorm_select select locked
  for lotE :: "Lot engine" and txE :: "Transaction engine"
    and reE :: "expiryRenewalGuard engine" and renewal_clash renewal_fits
    and alE :: "expiryRefundAllocationGuard engine" and allocation_clash allocation_fits
    and select :: "Lot select" and locked :: "Lot \<Rightarrow> bool"

context expiry_engines
begin

text \<open>The query and the check inside the transaction agree on which lots are protected.\<close>

lemma expiryGuarded_done:
  assumes "expiryGuarded reE alE lotID w = (Inr blocked, w')"
  shows "w' = w \<and> (blocked \<longleftrightarrow> list_ex (renewal_guards lotID) (renewals w) \<or>
    list_ex (allocation_guards lotID) (refund_allocations w))"
  using assms
  by (auto simp: expiryGuarded_def renewal_table.find_empty allocation_table.find_empty
      split: sum.splits if_splits)

lemma expireAvailable_done:
  assumes b: "books (lots s) (transactions s)" and svc: "ew_assets w = world_service"
    and run: "expireAvailable w (transactionAssetRepository lotE txE) rid lot at key s = (Inr (created, lot'), s')"
    and lot: "lot \<in> set (lots s)" "lot_Status lot = LotStatusActive"
  shows "books (lots s') (transactions s') \<and> set (lots s') = insert lot' (set (lots s) - {lot}) \<and>
    lot_ID lot' = lot_ID lot \<and> lot_Status lot' = LotStatusExpired \<and> lot_AvailableQuantity lot' = 0 \<and>
    ticket_world.more s' = ticket_world.more s"
proof -
  let ?c = "\<lparr>exp_LotID = lot_ID lot, exp_OwnerCustomerID = lot_OwnerCustomerID lot,
        exp_TransactionType = TransactionTypeExpiry, exp_BizType = ''wine_ticket_expiry'',
        exp_BizID = lot_ID lot, exp_ActionKey = key,
        exp_Metadata = JObject [(''reason'', JString ''lot_expired''),
          (''expires_at'', JTime (lot_ExpiresAt lot))],
        exp_OccurredAt = at\<rparr>"
  from run obtain m where m: "Expire (Some world_service) (Some (transactionAssetRepository lotE txE)) rid ?c s =
      (Inr m, s')" and lot': "lot' = mut_Lot m"
    unfolding expireAvailable_def svc by (elim go_elims) simp
  show ?thesis
    using repository.Expire_books [OF b m] repository.Expire_active [OF b m lot(1) _ lot(2)]
      Expire_outside [OF m] lot' by simp
qed

lemma batch_expired_Cons:
  assumes "distinct (map lot_ID ls)" and "set (lot # rows) \<subseteq> set ls" and "distinct (lot # rows)"
    and "set ls1 = insert lot' (set ls - {lot})" and "lot_ID lot' = lot_ID lot"
    and "lot_Status lot' = LotStatusExpired" and "lot_AvailableQuantity lot' = 0"
    and "lot' \<notin> set rows" and "batch_expired rows ls1 ls'"
  shows "batch_expired (lot # rows) ls ls'"
  unfolding batch_expired_def
proof
  fix l
  assume l: "l \<in> set ls"
  show "if l \<in> set (lot # rows) then \<exists>l'\<in>set ls'. lot_ID l' = lot_ID l \<and>
      lot_Status l' = LotStatusExpired \<and> lot_AvailableQuantity l' = 0 else l \<in> set ls'"
  proof (cases "l = lot")
    case True
    have "lot' \<in> set ls'" using assms(4,8,9) by (simp add: batch_expired_def)
    with True assms(5-7) show ?thesis by auto
  next
    case False
    with l assms(4) have "l \<in> set ls1" by simp
    with assms(9) False show ?thesis by (auto simp: batch_expired_def)
  qed
qed

lemma expire_loop_done:
  assumes "expire_loop w (transactionAssetRepository lotE txE) reE alE rid at rows n s = ((k, None), s')"
    and "ew_assets w = world_service" and "books (lots s) (transactions s)"
    and "set rows \<subseteq> set (lots s)" and "distinct rows" and "\<forall>l\<in>set rows. dueLotsQuery at s l"
  shows "books (lots s') (transactions s') \<and> batch_expired rows (lots s) (lots s') \<and>
    k = n + int (length rows)"
  using assms
proof (induction rows arbitrary: n s)
  case (Cons lot rows)
  have due: "dueLotsQuery at s lot" using Cons.prems(6) by simp
  obtain blocked s1 where g: "expiryGuarded reE alE (lot_ID lot) s = (Inr blocked, s1)"
    using Cons.prems(1) by (auto split: prod.splits sum.splits)
  have s1: "s1 = s" "\<not> blocked"
    using expiryGuarded_done [OF g] due by (auto simp: dueLotsQuery_def)
  obtain created lot' s2 where ea: "expireAvailable w (transactionAssetRepository lotE txE) rid lot at
      (expiry_action_key lot) s = (Inr (created, lot'), s2)"
    using Cons.prems(1) g s1 by (auto split: prod.splits sum.splits)
  have lot: "lot \<in> set (lots s)" "lot_Status lot = LotStatusActive"
    using Cons.prems(4) due by (auto simp: dueLotsQuery_def)
  note eff = expireAvailable_done [OF Cons.prems(3,2) ea lot]
  have rest: "expire_loop w (transactionAssetRepository lotE txE) reE alE rid at rows (n + 1) s2 = ((k, None), s')"
    using Cons.prems(1) g s1 ea eff by simp
  have due2: "\<forall>l\<in>set rows. dueLotsQuery at s2 l"
    using Cons.prems(6) eff by (cases s; cases s2) (auto simp: dueLotsQuery_def)
  have fresh: "lot' \<notin> set rows"
    using due2 eff by (auto simp: dueLotsQuery_def)
  have tail: "books (lots s') (transactions s') \<and> batch_expired rows (lots s2) (lots s') \<and> k = n + 1 + int (length rows)"
    using Cons.prems(2,4,5) eff due2 by (intro Cons.IH [OF rest]) auto
  have "batch_expired (lot # rows) (lots s) (lots s')"
    using Cons.prems(3-5) eff fresh tail
    by (intro batch_expired_Cons [where ?ls1.0 = "lots s2" and lot' = lot']) (auto simp: books_def)
  with tail show ?case by simp
qed (simp add: batch_expired_def)

lemma ExpireLotsOnce_done:
  assumes run: "ExpireLotsOnce w select lotE txE reE alE commit rid s = ((n, None), s')"
    and svc: "ew_assets w = world_service" and clock: "ew_now w = wall_now"
    and b: "books (lots s) (transactions s)"
  obtains batch where "set batch \<subseteq> {l \<in> set (lots s). dueLotsQuery (truncate_to nanos_per_milli (wall s)) s l}"
    and "length batch \<le> nat (ew_batch w)" and "n = int (length batch)"
    and "\<And>l. l \<in> set (lots s) \<Longrightarrow> dueLotsQuery (truncate_to nanos_per_milli (wall s)) s l \<Longrightarrow>
      \<not> locked l \<Longrightarrow> l \<notin> set batch \<Longrightarrow> length batch = nat (ew_batch w)"
    and "batch_expired batch (lots s) (lots s')" and "books (lots s') (transactions s')"
proof -
  let ?at = "truncate_to nanos_per_milli (wall s)"
  let ?key = "\<lambda>l. (lot_ExpiresAt l, uint (lot_ID l))"
  from run obtain batch where sel: "select (dueLotsQuery ?at s) ?key (nat (ew_batch w)) (lots s) = Inr batch"
    and loop: "expire_loop w (transactionAssetRepository lotE txE) reE alE rid ?at batch 0 s = ((n, None), s')"
    by (auto simp: ExpireLotsOnce_def clock wall_now_def expire_batch_def dueLots_def
        split: prod.splits sum.splits option.splits)
  note found = select_rows [OF sel]
  have sub: "set batch \<subseteq> {l \<in> set (lots s). dueLotsQuery ?at s l}"
    using set_mset_mono [OF conjunct1 [OF found]] by auto
  have "distinct (lots s)"
    using b by (simp add: books_def distinct_map)
  then have "distinct batch"
    using distinct_submset [OF conjunct1 [OF found]] by simp
  from expire_loop_done [OF loop svc b _ this] sub
  have "books (lots s') (transactions s') \<and> batch_expired batch (lots s) (lots s') \<and> n = 0 + int (length batch)"
    by auto
  with sub found select_complete [OF sel] show ?thesis
    by (intro that [of batch]) auto
qed

end

interpretation mem_expiry: expiry_engines mem_lots mem_txns
    "mem_engine (\<lambda>a b. rg_ID a = rg_ID b) (\<lambda>_. True)" "\<lambda>a b. rg_ID a = rg_ID b" "\<lambda>_. True"
    "mem_engine (\<lambda>a b. ag_ID a = ag_ID b) (\<lambda>_. True)" "\<lambda>a b. ag_ID a = ag_ID b" "\<lambda>_. True"
    "mem_select locked" locked
  for locked :: "Lot \<Rightarrow> bool"
  by unfold_locales

abbreviation world_expiry_worker :: "int \<Rightarrow> 'z expiry_world_scheme ExpiryWorker" where
  "world_expiry_worker batch \<equiv> WithBatchSize (NewExpiryWorker world_next_id wall_now) batch"

lemma world_expiry_worker_sel [simp]:
  "ew_assets (world_expiry_worker batch) = world_service"
  "ew_now (world_expiry_worker batch) = wall_now"
  by (simp_all add: WithBatchSize_def NewExpiryWorker_def)


definition demo_expiry :: "expiryRenewalGuard list \<Rightarrow> expiry_world" where
  "demo_expiry guards =
     \<lparr>wall = demo_time + 2000 * nanos_per_second,
      snow = \<lparr>lastMS = 0, sequence = 0, nodeID = 1, rollbacks = 0\<rparr>,
      lots = [demo_lot], transactions = [demo_row], renewals = guards, refund_allocations = []\<rparr>"

lemma demo_expiry_books: "books (lots (demo_expiry gs)) (transactions (demo_expiry gs))"
  using demo_books by (simp add: demo_expiry_def demo_world_def)

lemmas expiry_simps = ExpireLotsOnce_def expire_batch_def dueLots_def dueLotsQuery_def
  expiryGuarded_def expireAvailable_def expiry_action_key_def WithBatchSize_def NewExpiryWorker_def
  mem_select_def renewal_guards_def allocation_guards_def Expire_def expire_fresh_def demo_expiry_def
  TransactionTypeExpiry_def format_int_def demo_lot_def demo_row_def demo_simps

lemma demo_expiry_run:
  "\<exists>w'. ExpireLotsOnce (world_expiry_worker 10) (mem_select (\<lambda>_. False)) mem_lots mem_txns
     (mem_engine (\<lambda>a b. rg_ID a = rg_ID b) (\<lambda>_. True)) (mem_engine (\<lambda>a b. ag_ID a = ag_ID b) (\<lambda>_. True))
     (\<lambda>_. None) None (demo_expiry []) = ((1, None), w')"
  by (simp add: expiry_simps)




end
