(* ===== verification/Go_Strings.thy ===== *)
theory Go_Strings
  imports Problem
begin

text \<open>
  The parts of Go's \<open>strings\<close>, \<open>strconv\<close> and \<open>encoding/base64\<close> that the pagination code uses, on byte strings. White space
  and letter case are those of ASCII.
\<close>

subsection \<open>strings\<close>

definition is_space :: "char \<Rightarrow> bool" where
  "is_space c \<longleftrightarrow> (of_char c :: nat) \<in> {9, 10, 11, 12, 13, 32}"

definition trim_by :: "(char \<Rightarrow> bool) \<Rightarrow> string \<Rightarrow> string" where
  "trim_by p s = rev (dropWhile p (rev (dropWhile p s)))"

definition TrimSpace :: "string \<Rightarrow> string" where
  "TrimSpace s = trim_by is_space s"

fun split_by :: "(char \<Rightarrow> bool) \<Rightarrow> string \<Rightarrow> string list" where
  "split_by p [] = [[]]"
| "split_by p (c # s) =
     (if p c then [] # split_by p s
      else case split_by p s of [] \<Rightarrow> [[c]] | x # xs \<Rightarrow> (c # x) # xs)"

definition split_on :: "char \<Rightarrow> string \<Rightarrow> string list" where
  "split_on d s = split_by (\<lambda>c. c = d) s"

definition Fields :: "string \<Rightarrow> string list" where
  "Fields s = filter (\<lambda>x. x \<noteq> []) (split_by is_space s)"

definition to_upper :: "string \<Rightarrow> string" where
  "to_upper s = map (\<lambda>c. let n = (of_char c :: nat) in if 97 \<le> n \<and> n \<le> 122 then char_of (n - 32) else c) s"

definition starts_with :: "string \<Rightarrow> string \<Rightarrow> bool" where
  "starts_with part s \<longleftrightarrow> take (length part) s = part"

text \<open>\<open>strings.Index\<close>: \<open>None\<close> stands for \<open>-1\<close>.\<close>

fun str_Index :: "string \<Rightarrow> string \<Rightarrow> nat option" where
  "str_Index [] part = (if part = [] then Some 0 else None)"
| "str_Index (c # s) part = (if starts_with part (c # s) then Some 0 else map_option Suc (str_Index s part))"

lemma split_by_nonempty [simp]: "split_by p s \<noteq> []"
  by (induction s) (auto split: list.splits)

lemma split_by_clean: "x \<in> set (split_by p s) \<Longrightarrow> c \<in> set x \<Longrightarrow> c \<in> set s \<and> \<not> p c"
  by (induction s arbitrary: x) (fastforce split: if_splits list.splits)+

lemma split_by_none: "(\<And>c. c \<in> set s \<Longrightarrow> \<not> p c) \<Longrightarrow> split_by p s = [s]"
  by (induction s) auto

lemma split_by_sep: "(\<And>c. c \<in> set s \<Longrightarrow> \<not> p c) \<Longrightarrow> p d \<Longrightarrow> split_by p (s @ d # t) = s # split_by p t"
  by (induction s) auto

lemma TrimSpace_id: "s \<noteq> [] \<Longrightarrow> \<not> is_space (hd s) \<Longrightarrow> \<not> is_space (last s) \<Longrightarrow> TrimSpace s = s"
proof -
  assume s: "s \<noteq> []" "\<not> is_space (hd s)" "\<not> is_space (last s)"
  have "dropWhile is_space s = s" using s by (simp add: dropWhile_eq_self_iff)
  moreover have "dropWhile is_space (rev s) = rev s" using s by (simp add: dropWhile_eq_self_iff hd_rev)
  ultimately show ?thesis by (simp add: TrimSpace_def trim_by_def)
qed

lemma set_trim_by: "set (trim_by p s) \<subseteq> set s"
  unfolding trim_by_def by (auto dest!: set_dropWhileD)

lemma str_Index_absent: "(\<And>i. i < length s \<Longrightarrow> s ! i \<noteq> c) \<Longrightarrow> str_Index s (c # part) = None"
proof (induction s)
  case (Cons x s)
  have "x \<noteq> c" using Cons.prems [of 0] by simp
  moreover have "str_Index s (c # part) = None" by (rule Cons.IH) (use Cons.prems [of "Suc _"] in auto)
  ultimately show ?case by (simp add: starts_with_def)
qed simp

lemma str_Index_first:
  "c \<notin> set s \<Longrightarrow> str_Index (s @ (c # part) @ t) (c # part) = Some (length s)"
  by (induction s) (auto simp: starts_with_def)

subsection \<open>strconv\<close>

definition is_digit :: "char \<Rightarrow> bool" where
  "is_digit c \<longleftrightarrow> 48 \<le> (of_char c :: nat) \<and> (of_char c :: nat) \<le> 57"

definition digits_value :: "string \<Rightarrow> nat" where
  "digits_value s = foldl (\<lambda>n c. 10 * n + ((of_char c :: nat) - 48)) 0 s"

definition ParseUint :: "string \<Rightarrow> uint64 option" where
  "ParseUint s = (if s \<noteq> [] \<and> list_all is_digit s \<and> digits_value s < 2 ^ 64 then Some (of_nat (digits_value s)) else None)"

text \<open>\<open>ParseInt\<close> with base 10 and 64 bits, and \<open>Atoi\<close>: an optional sign and digits, within the range.\<close>

definition ParseInt :: "string \<Rightarrow> int option" where
  "ParseInt s =
     (let (negative, ds) = (case s of c # cs \<Rightarrow> if c = CHR ''-'' then (True, cs) else if c = CHR ''+'' then (False, cs) else (False, s) | [] \<Rightarrow> (False, []))
      in if ds \<noteq> [] \<and> list_all is_digit ds
         then let n = (if negative then - int (digits_value ds) else int (digits_value ds)) in
              if - (2 ^ 63) \<le> n \<and> n < 2 ^ 63 then Some n else None
         else None)"

lemma digits_value_snoc [simp]: "digits_value (s @ [c]) = 10 * digits_value s + ((of_char c :: nat) - 48)"
  by (simp add: digits_value_def)

lemma digit_char_value: "d < 10 \<Longrightarrow> is_digit (digit_char d) \<and> (of_char (digit_char d) :: nat) - 48 = d"
  by (simp add: is_digit_def)

lemma format_uint_digits: "list_all is_digit (format_uint n) \<and> format_uint n \<noteq> [] \<and> digits_value (format_uint n) = n"
proof (induction n rule: format_uint.induct)
  case (1 n)
  show ?case
  proof (cases "n < 10")
    case True
    then show ?thesis using digit_char_value [of n] by (subst (1 2 3) format_uint.simps) (simp add: digits_value_def del: digit_char.simps)
  next
    case False
    have "n mod 10 < 10" by simp
    from digit_char_value [OF this] 1 [OF False] show ?thesis
      using False by (subst (1 2 3) format_uint.simps) (simp del: digit_char.simps)
  qed
qed

text \<open>Parsing what was formatted.\<close>

lemma ParseUint_format: "n < 2 ^ 64 \<Longrightarrow> ParseUint (format_uint n) = Some (of_nat n)"
  by (simp add: ParseUint_def format_uint_digits)

subsection \<open>base64\<close>

text \<open>\<open>base64.RawURLEncoding\<close>: the URL alphabet without padding. The decoder skips line breaks and, not being strict, ignores
  the unused bits of the last character.\<close>

definition b64_char :: "nat \<Rightarrow> char" where
  "b64_char n = (if n < 26 then char_of (n + 65) else if n < 52 then char_of (n + 71) else if n < 62 then char_of (n - 4)
     else if n = 62 then CHR ''-'' else CHR ''_'')"

definition b64_value :: "char \<Rightarrow> nat option" where
  "b64_value c =
     (let n = (of_char c :: nat) in
      if 65 \<le> n \<and> n \<le> 90 then Some (n - 65) else if 97 \<le> n \<and> n \<le> 122 then Some (n - 71)
      else if 48 \<le> n \<and> n \<le> 57 then Some (n + 4) else if c = CHR ''-'' then Some 62 else if c = CHR ''_'' then Some 63 else None)"

fun b64_groups :: "nat list \<Rightarrow> nat list" where
  "b64_groups [] = []"
| "b64_groups [a] = [a div 4, a mod 4 * 16]"
| "b64_groups [a, b] = [a div 4, a mod 4 * 16 + b div 16, b mod 16 * 4]"
| "b64_groups (a # b # c # r) = a div 4 # (a mod 4 * 16 + b div 16) # (b mod 16 * 4 + c div 64) # c mod 64 # b64_groups r"

fun b64_bytes :: "nat list \<Rightarrow> nat list option" where
  "b64_bytes [] = Some []"
| "b64_bytes [x] = None"
| "b64_bytes [x, y] = Some [x * 4 + y div 16]"
| "b64_bytes [x, y, z] = Some [x * 4 + y div 16, y mod 16 * 16 + z div 4]"
| "b64_bytes (x # y # z # w # r) =
     map_option (\<lambda>bs. (x * 4 + y div 16) # (y mod 16 * 16 + z div 4) # (z mod 4 * 64 + w) # bs) (b64_bytes r)"

definition b64_encode :: "string \<Rightarrow> string" where
  "b64_encode s = map b64_char (b64_groups (map of_char s))"

definition b64_decode :: "string \<Rightarrow> string option" where
  "b64_decode s =
     (let t = filter (\<lambda>c. (of_char c :: nat) \<noteq> 10 \<and> (of_char c :: nat) \<noteq> 13) s in
      if list_all (\<lambda>c. b64_value c \<noteq> None) t then map_option (map char_of) (b64_bytes (map (\<lambda>c. the (b64_value c)) t)) else None)"

lemma b64_char_value: "n < 64 \<Longrightarrow> b64_value (b64_char n) = Some n"
proof -
  assume "n < 64"
  then consider "n < 26" | "26 \<le> n" "n < 52" | "52 \<le> n" "n < 62" | "n = 62" | "n = 63" by linarith
  then show ?thesis by cases (auto simp: b64_char_def b64_value_def Let_def)
qed

lemma b64_char_plain:
  assumes "n < 64"
  shows "(of_char (b64_char n) :: nat) \<noteq> 10" "(of_char (b64_char n) :: nat) \<noteq> 13" "b64_char n \<noteq> CHR ''.''"
proof -
  have "(of_char c :: nat) \<noteq> 10 \<and> (of_char c :: nat) \<noteq> 13 \<and> c \<noteq> CHR ''.''" if "b64_value c = Some n" for c
    using that by (auto simp: b64_value_def Let_def split: if_splits)
  from this [OF b64_char_value [OF assms]]
  show "(of_char (b64_char n) :: nat) \<noteq> 10" "(of_char (b64_char n) :: nat) \<noteq> 13" "b64_char n \<noteq> CHR ''.''"
    by simp_all
qed

lemma pack:
  fixes x y m :: nat
  assumes "y < m"
  shows "(x * m + y) div m = x" and "(x * m + y) mod m = y"
  using assms by simp_all

lemma pack_less:
  fixes x y k m :: nat
  assumes "x < m" and "y < k"
  shows "x * k + y < m * k"
proof -
  have "x * k + y < Suc x * k" using assms(2) by simp
  also have "\<dots> \<le> m * k" using assms(1) by (intro mult_le_mono1) simp
  finally show ?thesis .
qed

lemma b64_groups_range: "(\<And>x. x \<in> set bs \<Longrightarrow> x < 256) \<Longrightarrow> y \<in> set (b64_groups bs) \<Longrightarrow> y < 64"
proof (induction bs rule: b64_groups.induct)
  case (4 a b c r)
  have byte: "a < 256" "b < 256" "c < 256" using "4.prems"(1) by auto
  have "a mod 4 * 16 + b div 16 < 4 * 16" "b mod 16 * 4 + c div 64 < 16 * 4"
    using byte by (intro pack_less; auto)+
  moreover have "a div 4 < 64" "c mod 64 < 64" using byte by auto
  ultimately show ?case using 4 by auto
next
  case (3 a b)
  have byte: "a < 256" "b < 256" using "3.prems"(1) by auto
  have "a mod 4 * 16 + b div 16 < 4 * 16" "b mod 16 * 4 + 0 < 16 * 4" using byte by (intro pack_less; auto)+
  moreover have "a div 4 < 64" using byte by auto
  ultimately show ?case using 3 by auto
next
  case (2 a)
  have "a mod 4 * 16 + 0 < 4 * 16" by (rule pack_less) auto
  moreover have "a < 256" using 2 by simp
  then have "a div 4 < 64" by auto
  ultimately show ?case using 2 by auto
qed simp

lemma b64_bytes_groups: "(\<And>x. x \<in> set bs \<Longrightarrow> x < 256) \<Longrightarrow> b64_bytes (b64_groups bs) = Some bs"
proof (induction bs rule: b64_groups.induct)
  case (4 a b c r)
  have "a < 256" "b < 256" "c < 256" using "4.prems" by auto
  then have "b div 16 < 16" "c div 64 < 4" by auto
  note p = pack [OF this(1), of "a mod 4"] pack [OF this(2), of "b mod 16"]
  show ?case using 4 p by simp
next
  case (3 a b)
  have "b < 256" using "3.prems" by auto
  then have "b div 16 < 16" by auto
  note p = pack [OF this, of "a mod 4"]
  show ?case using p by simp
qed simp_all

lemma bytes_range: "x \<in> set (map of_char s) \<Longrightarrow> x < (256 :: nat)"
  by auto

lemma b64_encode_char: "c \<in> set (b64_encode s) \<Longrightarrow> \<exists>n<64. c = b64_char n"
proof -
  assume "c \<in> set (b64_encode s)"
  then obtain n where "c = b64_char n" "n \<in> set (b64_groups (map of_char s))" by (auto simp: b64_encode_def)
  moreover have "n < 64" by (rule b64_groups_range [where bs = "map of_char s"]) (use calculation in auto)
  ultimately show ?thesis by blast
qed

lemma b64_encode_no_dot: "CHR ''.'' \<notin> set (b64_encode s)"
  using b64_encode_char [of "CHR ''.''" s] b64_char_plain(3) by metis

text \<open>Decoding what was encoded.\<close>

lemma b64_decode_encode: "b64_decode (b64_encode s) = Some s"
proof -
  let ?g = "b64_groups (map of_char s)"
  have range: "x < 64" if "x \<in> set ?g" for x using b64_groups_range [OF bytes_range that] .
  have "filter (\<lambda>c. (of_char c :: nat) \<noteq> 10 \<and> (of_char c :: nat) \<noteq> 13) (b64_encode s) = b64_encode s"
    using range b64_char_plain by (auto simp: b64_encode_def filter_id_conv)
  moreover have "list_all (\<lambda>c. b64_value c \<noteq> None) (b64_encode s)"
    using range b64_char_value by (auto simp: b64_encode_def list_all_iff)
  moreover have "map (\<lambda>c. the (b64_value c)) (b64_encode s) = ?g"
    using range b64_char_value by (auto simp: b64_encode_def intro: map_idI)
  ultimately show ?thesis
    using b64_bytes_groups [of "map of_char s", OF bytes_range] by (simp add: b64_decode_def comp_def)
qed

end
