(* ===== verification/Pagination.thy ===== *)
theory Pagination
  imports Go_Strings
begin

text \<open>
  List queries: \<open>internal/pkg/pagination\<close>. \<open>FromGin\<close> reads and checks the parameters of a list request, \<open>NextPageToken\<close> issues
  a signed token that is bound to the query, and the \<open>Apply\<close> functions turn a checked query into conditions on a GORM
  statement. A statement under construction is the list of the calls made on it. The hash functions, JSON and the parser of
  timestamps are the parameter \<open>pager\<close>; base64 is the one of \<open>Go_Strings\<close>. The clock is an argument (Unix seconds).
\<close>

subsection \<open>Data\<close>

definition DefaultPageSize :: int where
  "DefaultPageSize = 20"

definition MaxPageSize :: int where
  "MaxPageSize = 100"

definition allowedOrderFields :: "string list" where
  "allowedOrderFields =
     [''id'', ''created_at'', ''updated_at'', ''sort_order'', ''sale_price_amount'', ''available_qty'', ''reserved_qty'',
      ''locked_qty'', ''status'', ''pay_status'', ''delivery_status'', ''review_status'', ''name'', ''product_name'',
      ''shop_id'', ''merchant_id'', ''customer_id'', ''shop_product_id'', ''scope_type'', ''scope_id'', ''mode'',
      ''published_at'', ''version'', ''policy_version'', ''next_action_at'', ''assigned_at'', ''dispatch_status'',
      ''reported_at'', ''incident_no'', ''rider_id'', ''type'', ''stage'']"

record page_query =
  pq_PageSize :: int
  pq_PageToken :: string
  pq_OrderBy :: string
  pq_Filter :: string
  pq_Offset :: int
  pq_TokenHash :: string
  pq_Cursor :: "string list"

record pageCursor =
  pc_Version :: int
  pc_Offset :: int
  pc_QueryHash :: string
  pc_After :: "string list"
  pc_IssuedAt :: int

record orderSpec =
  os_Field :: string
  os_Direction :: string

record filterSpec =
  fs_Field :: string
  fs_Operator :: string
  fs_Value :: string

text \<open>What the package takes from elsewhere: SHA-256, HMAC-SHA-256, JSON of a cursor, the parser of RFC 3339 timestamps, the
  encoding of URL parameters, and the secret of the environment.\<close>

record pager =
  pg_sha256 :: "string \<Rightarrow> string"
  pg_hex :: "string \<Rightarrow> string"
  pg_hmac :: "string \<Rightarrow> string \<Rightarrow> string"
  pg_marshal :: "pageCursor \<Rightarrow> string"
  pg_unmarshal :: "string \<Rightarrow> pageCursor option"
  pg_parse_time :: "string \<Rightarrow> go_time option"
  pg_url_encode :: "(string \<times> string list) list \<Rightarrow> string"
  pg_secret :: string

text \<open>The request as the framework presents it.\<close>

record page_request =
  rq_Method :: string
  rq_FullPath :: string
  rq_Path :: string
  rq_Query :: "(string \<times> string list) list"

definition request_Query :: "page_request \<Rightarrow> string \<Rightarrow> string" where
  "request_Query c name = (case map_of (rq_Query c) name of Some (v # _) \<Rightarrow> v | _ \<Rightarrow> [])"

subsection \<open>Order and filter expressions\<close>

definition invalid_query :: "string \<Rightarrow> go_error" where
  "invalid_query detail = problem_InvalidArgument ''VALIDATION_INVALID_QUERY'' detail"

definition order_item_error :: "string \<Rightarrow> go_error option" where
  "order_item_error item =
     (let parts = Fields (TrimSpace item) in
      if length parts = 0 \<or> 2 < length parts then Some (invalid_query ''invalid order_by'')
      else if parts ! 0 \<notin> set allowedOrderFields then Some (invalid_query ''order_by field is not allowed'')
      else if length parts = 2 \<and> to_lower (parts ! 1) \<noteq> ''asc'' \<and> to_lower (parts ! 1) \<noteq> ''desc''
      then Some (invalid_query ''order_by direction must be asc or desc'') else None)"

text \<open>The first item with an error decides.\<close>

fun first_error :: "('a \<Rightarrow> go_error option) \<Rightarrow> 'a list \<Rightarrow> go_error option" where
  "first_error f [] = None"
| "first_error f (x # xs) = (case f x of Some e \<Rightarrow> Some e | None \<Rightarrow> first_error f xs)"

definition validateOrderBy :: "string \<Rightarrow> go_error option" where
  "validateOrderBy raw = (if blank raw then None else first_error order_item_error (split_on CHR '','' raw))"

definition filter_operators :: "string list" where
  "filter_operators = [''=='', ''!='', ''>='', ''<='', ''>'', ''<'', '':'']"

definition ident_start :: "char \<Rightarrow> bool" where
  "ident_start c \<longleftrightarrow> (let n = (of_char c :: nat) in (97 \<le> n \<and> n \<le> 122) \<or> (65 \<le> n \<and> n \<le> 90) \<or> n = 95)"

definition ident_char :: "char \<Rightarrow> bool" where
  "ident_char c \<longleftrightarrow> ident_start c \<or> is_digit c"

text \<open>\<open>^[a-zA-Z_][a-zA-Z0-9_]*(==|!=|>=|<=|>|<|:)[^,()]+$\<close>: no operator starts with a character of a name, so the name is the
  longest prefix of such characters.\<close>

definition filterExprPattern :: "string \<Rightarrow> bool" where
  "filterExprPattern s \<longleftrightarrow>
     s \<noteq> [] \<and> ident_start (hd s) \<and>
     (let rest = dropWhile ident_char s in
      list_ex (\<lambda>op. starts_with op rest \<and> drop (length op) rest \<noteq> [] \<and>
        list_all (\<lambda>c. c \<noteq> CHR '','' \<and> c \<noteq> CHR ''('' \<and> c \<noteq> CHR '')'') (drop (length op) rest)) filter_operators)"

definition filter_item_error :: "string \<Rightarrow> go_error option" where
  "filter_item_error item =
     (let expr = TrimSpace item in
      if expr = [] \<or> \<not> filterExprPattern expr then Some (invalid_query ''invalid filter syntax'') else None)"

definition validateFilter :: "string \<Rightarrow> go_error option" where
  "validateFilter raw = (if blank raw then None else first_error filter_item_error (split_on CHR '','' raw))"

definition order_spec :: "string \<Rightarrow> orderSpec" where
  "order_spec item =
     (let parts = Fields (TrimSpace item) in
      \<lparr>os_Field = parts ! 0, os_Direction = (if length parts = 2 then to_upper (parts ! 1) else ''ASC'')\<rparr>)"

definition parseOrder :: "string \<Rightarrow> go_error + orderSpec list" where
  "parseOrder raw = (case validateOrderBy raw of Some e \<Rightarrow> Inl e | None \<Rightarrow> Inr (map order_spec (split_on CHR '','' raw)))"

fun parse_operators :: "string list \<Rightarrow> string \<Rightarrow> go_error + filterSpec" where
  "parse_operators [] expr = Inl (invalid_query ''invalid filter syntax'')"
| "parse_operators (op # ops) expr =
     (case str_Index expr op of
        Some idx \<Rightarrow>
          if 0 < idx then
            let field = TrimSpace (take idx expr);
                value = trim_by (\<lambda>c. c = CHR 0x22 \<or> c = CHR 0x27) (TrimSpace (drop (idx + length op) expr)) in
            if field = [] \<or> value = [] then Inl (invalid_query ''invalid filter syntax'')
            else Inr \<lparr>fs_Field = field, fs_Operator = op, fs_Value = value\<rparr>
          else parse_operators ops expr
      | None \<Rightarrow> parse_operators ops expr)"

definition parseFilterExpr :: "string \<Rightarrow> go_error + filterSpec" where
  "parseFilterExpr expr = parse_operators filter_operators expr"

fun parse_items :: "('a \<Rightarrow> go_error + 'b) \<Rightarrow> 'a list \<Rightarrow> go_error + 'b list" where
  "parse_items f [] = Inr []"
| "parse_items f (x # xs) =
     (case f x of Inl e \<Rightarrow> Inl e | Inr y \<Rightarrow> (case parse_items f xs of Inl e \<Rightarrow> Inl e | Inr ys \<Rightarrow> Inr (y # ys)))"

definition parseFilter :: "string \<Rightarrow> go_error + filterSpec list" where
  "parseFilter raw =
     (case validateFilter raw of
        Some e \<Rightarrow> Inl e
      | None \<Rightarrow> parse_items (\<lambda>item. parseFilterExpr (TrimSpace item)) (split_on CHR '','' raw))"

subsection \<open>Conditions on a statement\<close>

datatype sql_value = SqlString string | SqlInt int | SqlUint uint64 | SqlTime go_time

datatype gorm_call = Where string "sql_value list" | Order string | Offset int

type_synonym gorm_chain = "gorm_call list"

definition filter_clause :: "string \<Rightarrow> filterSpec \<Rightarrow> go_error + gorm_call" where
  "filter_clause column spec =
     (let op = fs_Operator spec; v = fs_Value spec in
      if op = '':'' then Inr (Where (column @ '' LIKE ?'') [SqlString (''%'' @ v @ ''%'')])
      else if op = ''=='' then Inr (Where (column @ '' = ?'') [SqlString v])
      else if op = ''!='' then Inr (Where (column @ '' <> ?'') [SqlString v])
      else if op \<in> {''>'', ''>='', ''<'', ''<=''} then Inr (Where (column @ '' '' @ op @ '' ?'') [SqlString v])
      else Inl (invalid_query ''invalid filter operator''))"

fun apply_filters :: "(string \<Rightarrow> string option) \<Rightarrow> filterSpec list \<Rightarrow> gorm_chain \<Rightarrow> go_error + gorm_chain" where
  "apply_filters columns [] db = Inr db"
| "apply_filters columns (spec # specs) db =
     (case columns (fs_Field spec) of
        None \<Rightarrow> Inl (invalid_query ''filter field is not allowed'')
      | Some column \<Rightarrow>
          (case filter_clause column spec of Inl e \<Rightarrow> Inl e | Inr call \<Rightarrow> apply_filters columns specs (db @ [call])))"

definition ApplyFilter :: "gorm_chain \<Rightarrow> string \<Rightarrow> (string \<Rightarrow> string option) \<Rightarrow> go_error + gorm_chain" where
  "ApplyFilter db raw columns =
     (if blank raw then Inr db
      else case parseFilter raw of Inl e \<Rightarrow> Inl e | Inr specs \<Rightarrow> apply_filters columns specs db)"

fun apply_orders :: "(string \<Rightarrow> string option) \<Rightarrow> orderSpec list \<Rightarrow> gorm_chain \<Rightarrow> go_error + gorm_chain" where
  "apply_orders columns [] db = Inr db"
| "apply_orders columns (spec # specs) db =
     (case columns (os_Field spec) of
        None \<Rightarrow> Inl (invalid_query ''order_by field is not allowed'')
      | Some column \<Rightarrow> apply_orders columns specs (db @ [Order (column @ '' '' @ os_Direction spec)]))"

definition ApplyOrder :: "gorm_chain \<Rightarrow> string \<Rightarrow> (string \<Rightarrow> string option) \<Rightarrow> string \<Rightarrow> go_error + gorm_chain" where
  "ApplyOrder db raw columns fallback =
     (if blank raw then (if fallback = [] then Inr db else Inr (db @ [Order fallback]))
      else case parseOrder raw of Inl e \<Rightarrow> Inl e | Inr specs \<Rightarrow> apply_orders columns specs db)"

definition OffsetDB :: "gorm_chain \<Rightarrow> page_query \<Rightarrow> gorm_chain" where
  "OffsetDB db query = (if pq_Cursor query \<noteq> [] then db else db @ [Offset (pq_Offset query)])"

subsection \<open>Tokens\<close>

definition pageTokenSigningKey :: "pager \<Rightarrow> string" where
  "pageTokenSigningKey P =
     (let secret = (if pg_secret P = [] then ''local_access_secret_change_me'' else pg_secret P) in
      pg_sha256 P (''jiuxiaoer.pagination.v1'' @ [CHR 0x00] @ secret))"

definition nextPageToken :: "pager \<Rightarrow> int \<Rightarrow> page_query \<Rightarrow> string list \<Rightarrow> string" where
  "nextPageToken P now query after =
     (let encoded = b64_encode (pg_marshal P
            \<lparr>pc_Version = 1, pc_Offset = i64 (pq_Offset query + pq_PageSize query), pc_QueryHash = pq_TokenHash query,
             pc_After = after, pc_IssuedAt = now\<rparr>) in
      encoded @ ''.'' @ b64_encode (pg_hmac P (pageTokenSigningKey P) encoded))"

definition NextPageToken :: "pager \<Rightarrow> int \<Rightarrow> page_query \<Rightarrow> string" where
  "NextPageToken P now query = nextPageToken P now query []"

definition NextPageTokenWithCursor :: "pager \<Rightarrow> int \<Rightarrow> page_query \<Rightarrow> string list \<Rightarrow> string" where
  "NextPageTokenWithCursor P now query after = nextPageToken P now query after"

definition invalidPageToken :: "string \<Rightarrow> go_error" where
  "invalidPageToken detail = problem_InvalidArgument ''PAGE_TOKEN_INVALID'' detail"

definition decodePageToken :: "pager \<Rightarrow> int \<Rightarrow> string \<Rightarrow> string \<Rightarrow> go_error + pageCursor" where
  "decodePageToken P now raw expectedHash =
     (if raw = [] then Inr \<lparr>pc_Version = 0, pc_Offset = 0, pc_QueryHash = [], pc_After = [], pc_IssuedAt = 0\<rparr>
      else case split_on CHR ''.'' raw of
        [payload64, mac64] \<Rightarrow>
          (if b64_decode mac64 \<noteq> Some (pg_hmac P (pageTokenSigningKey P) payload64)
           then Inl (invalidPageToken ''invalid page_token signature'')
           else case b64_decode payload64 of
             None \<Rightarrow> Inl (invalidPageToken ''invalid page_token'')
           | Some payload \<Rightarrow>
               (case pg_unmarshal P payload of
                  None \<Rightarrow> Inl (invalidPageToken ''page_token does not match query or has expired'')
                | Some cursor \<Rightarrow>
                    if pc_Version cursor \<noteq> 1 \<or> pc_Offset cursor < 0 \<or> pc_QueryHash cursor \<noteq> expectedHash \<or>
                       now + 300 < pc_IssuedAt cursor \<or> pc_IssuedAt cursor < now - 24 * 60 * 60
                    then Inl (invalidPageToken ''page_token does not match query or has expired'')
                    else Inr cursor))
      | _ \<Rightarrow> Inl (invalidPageToken ''invalid page_token''))"

definition join_with :: "string \<Rightarrow> string list \<Rightarrow> string" where
  "join_with sep parts = (case parts of [] \<Rightarrow> [] | p # ps \<Rightarrow> p @ concat (map (\<lambda>x. sep @ x) ps))"

definition queryFingerprint :: "pager \<Rightarrow> page_request \<Rightarrow> string list \<Rightarrow> string" where
  "queryFingerprint P c scope =
     (let values = filter (\<lambda>(k, _). k \<noteq> ''page_token'') (rq_Query c);
          path = (if rq_FullPath c = [] then rq_Path c else rq_FullPath c) in
      pg_hex P (pg_sha256 P (join_with [CHR 0x0A]
        [rq_Method c, path, pg_url_encode P values, join_with [CHR 0x00] scope])))"

definition page_size_of :: "string \<Rightarrow> go_error + int" where
  "page_size_of raw =
     (if raw = [] then Inr DefaultPageSize
      else case ParseInt raw of
        Some v \<Rightarrow> if v \<le> 0 \<or> MaxPageSize < v then Inl (invalid_query ''page_size must be between 1 and 100'') else Inr v
      | None \<Rightarrow> Inl (invalid_query ''page_size must be between 1 and 100''))"

definition FromGin :: "pager \<Rightarrow> int \<Rightarrow> page_request \<Rightarrow> string list \<Rightarrow> go_error + page_query" where
  "FromGin P now c scope =
     (case page_size_of (request_Query c ''page_size'') of
        Inl e \<Rightarrow> Inl e
      | Inr pageSize \<Rightarrow>
          let orderBy = request_Query c ''order_by''; filter = request_Query c ''filter'' in
          case validateOrderBy orderBy of
            Some e \<Rightarrow> Inl e
          | None \<Rightarrow>
              (case validateFilter filter of
                 Some e \<Rightarrow> Inl e
               | None \<Rightarrow>
                   let tokenHash = queryFingerprint P c scope in
                   (case decodePageToken P now (request_Query c ''page_token'') tokenHash of
                      Inl e \<Rightarrow> Inl e
                    | Inr cursor \<Rightarrow>
                        Inr \<lparr>pq_PageSize = pageSize, pq_PageToken = request_Query c ''page_token'', pq_OrderBy = orderBy,
                             pq_Filter = filter, pq_Offset = pc_Offset cursor, pq_TokenHash = tokenHash,
                             pq_Cursor = pc_After cursor\<rparr>)))"

subsection \<open>Keyset cursors\<close>

definition cursor_condition :: "string \<Rightarrow> string \<Rightarrow> string \<Rightarrow> sql_value \<Rightarrow> uint64 \<Rightarrow> gorm_call" where
  "cursor_condition valueColumn idColumn op value i =
     Where (''('' @ valueColumn @ '' '' @ op @ '' ?) OR ('' @ valueColumn @ '' = ? AND '' @ idColumn @ '' '' @ op @ '' ?)'')
       [value, value, SqlUint i]"

definition cursor_id :: "string \<Rightarrow> uint64 option" where
  "cursor_id s = (case ParseUint s of Some i \<Rightarrow> if i = 0 then None else Some i | None \<Rightarrow> None)"

definition apply_pair_cursor ::
    "(string \<Rightarrow> sql_value option) \<Rightarrow> string \<Rightarrow> gorm_chain \<Rightarrow> page_query \<Rightarrow> string \<Rightarrow> string \<Rightarrow> string \<Rightarrow> go_error + gorm_chain" where
  "apply_pair_cursor parse complaint db query valueColumn idColumn direction =
     (case pq_Cursor query of
        [] \<Rightarrow> Inr db
      | [v, i] \<Rightarrow>
          (case parse v of
             None \<Rightarrow> Inl (invalidPageToken complaint)
           | Some value \<Rightarrow>
               (case cursor_id i of
                  None \<Rightarrow> Inl (invalidPageToken ''invalid cursor id'')
                | Some n \<Rightarrow>
                    if to_lower direction = ''desc'' then Inr (db @ [cursor_condition valueColumn idColumn ''<'' value n])
                    else if to_lower direction = ''asc'' then Inr (db @ [cursor_condition valueColumn idColumn ''>'' value n])
                    else Inl (problem_Internal ''invalid keyset direction'')))
      | _ \<Rightarrow> Inl (invalidPageToken ''invalid keyset cursor''))"

definition ApplyTimeIDCursor ::
    "pager \<Rightarrow> gorm_chain \<Rightarrow> page_query \<Rightarrow> string \<Rightarrow> string \<Rightarrow> string \<Rightarrow> go_error + gorm_chain" where
  "ApplyTimeIDCursor P = apply_pair_cursor (\<lambda>s. map_option SqlTime (pg_parse_time P s)) ''invalid cursor timestamp''"

definition ApplyIntIDCursor :: "gorm_chain \<Rightarrow> page_query \<Rightarrow> string \<Rightarrow> string \<Rightarrow> string \<Rightarrow> go_error + gorm_chain" where
  "ApplyIntIDCursor = apply_pair_cursor (\<lambda>s. map_option SqlInt (ParseInt s)) ''invalid cursor value''"

definition ApplyIDCursor :: "gorm_chain \<Rightarrow> page_query \<Rightarrow> string \<Rightarrow> string \<Rightarrow> go_error + gorm_chain" where
  "ApplyIDCursor db query idColumn direction =
     (case pq_Cursor query of
        [] \<Rightarrow> Inr db
      | [i] \<Rightarrow>
          (case cursor_id i of
             None \<Rightarrow> Inl (invalidPageToken ''invalid cursor id'')
           | Some n \<Rightarrow>
               if to_lower direction = ''desc'' then Inr (db @ [Where (idColumn @ '' < ?'') [SqlUint n]])
               else if to_lower direction = ''asc'' then Inr (db @ [Where (idColumn @ '' > ?'') [SqlUint n]])
               else Inl (problem_Internal ''invalid keyset direction''))
      | _ \<Rightarrow> Inl (invalidPageToken ''invalid id cursor''))"

subsection \<open>Checked expressions\<close>

lemma first_error_None: "first_error f xs = None \<longleftrightarrow> (\<forall>x\<in>set xs. f x = None)"
  by (induction xs) (auto split: option.splits)

lemma upper_lower: "to_upper (to_lower s) = to_upper s"
proof -
  have "(let n = of_char (let n = (of_char c :: nat) in if 65 \<le> n \<and> n \<le> 90 then char_of (n + 32) else c) in
      if 97 \<le> n \<and> n \<le> (122 :: nat) then char_of (n - 32) else (let n = (of_char c :: nat) in if 65 \<le> n \<and> n \<le> 90 then char_of (n + 32) else c)) =
    (let n = (of_char c :: nat) in if 97 \<le> n \<and> n \<le> 122 then char_of (n - 32) else c)" for c
  proof (cases "65 \<le> (of_char c :: nat) \<and> (of_char c :: nat) \<le> 90")
    case True
    then have "(of_char (char_of ((of_char c :: nat) + 32) :: char) :: nat) = of_char c + 32" by simp
    then show ?thesis using True by (simp add: Let_def)
  qed (auto simp: Let_def)
  then show ?thesis by (simp add: to_upper_def to_lower_def)
qed

lemma direction_upper: "to_lower s = ''asc'' \<Longrightarrow> to_upper s = ''ASC''" "to_lower s = ''desc'' \<Longrightarrow> to_upper s = ''DESC''"
proof -
  have "to_upper ''asc'' = ''ASC''" "to_upper ''desc'' = ''DESC''" by code_simp+
  then show "to_lower s = ''asc'' \<Longrightarrow> to_upper s = ''ASC''" "to_lower s = ''desc'' \<Longrightarrow> to_upper s = ''DESC''"
    using upper_lower [of s] by simp_all
qed

definition order_spec_ok :: "orderSpec \<Rightarrow> bool" where
  "order_spec_ok s \<longleftrightarrow> os_Field s \<in> set allowedOrderFields \<and> os_Direction s \<in> {''ASC'', ''DESC''}"

lemma order_item_ok: "order_item_error item = None \<Longrightarrow> order_spec_ok (order_spec item)"
  unfolding order_item_error_def order_spec_def order_spec_ok_def Let_def
  by (auto split: if_splits dest: direction_upper)

lemma parseOrder_ok: "parseOrder raw = Inr specs \<Longrightarrow> \<not> blank raw \<Longrightarrow> list_all order_spec_ok specs"
  by (auto simp: parseOrder_def validateOrderBy_def first_error_None list_all_iff intro!: order_item_ok split: option.splits)

subsection \<open>Statements\<close>

definition filter_suffixes :: "string list" where
  "filter_suffixes = ['' LIKE ?'', '' = ?'', '' <> ?'', '' > ?'', '' >= ?'', '' < ?'', '' <= ?'']"

fun filter_call_ok :: "string set \<Rightarrow> gorm_call \<Rightarrow> bool" where
  "filter_call_ok cols (Where sql args) \<longleftrightarrow> (\<exists>col\<in>cols. \<exists>t\<in>set filter_suffixes. sql = col @ t) \<and> length args = 1"
| "filter_call_ok cols _ \<longleftrightarrow> False"

fun order_call_ok :: "string set \<Rightarrow> gorm_call \<Rightarrow> bool" where
  "order_call_ok cols (Order sql) \<longleftrightarrow> (\<exists>col\<in>cols. sql = col @ '' ASC'' \<or> sql = col @ '' DESC'')"
| "order_call_ok cols _ \<longleftrightarrow> False"

lemma filter_clause_ok: "filter_clause col spec = Inr call \<Longrightarrow> col \<in> cols \<Longrightarrow> filter_call_ok cols call"
  unfolding filter_clause_def filter_suffixes_def Let_def by (auto split: if_splits simp: filter_suffixes_def)

lemma apply_filters_ok:
  "apply_filters columns specs db = Inr db' \<Longrightarrow> \<exists>calls. db' = db @ calls \<and> list_all (filter_call_ok (ran columns)) calls"
proof (induction specs arbitrary: db)
  case (Cons spec specs)
  then obtain col call where col: "columns (fs_Field spec) = Some col" "filter_clause col spec = Inr call"
    and rest: "apply_filters columns specs (db @ [call]) = Inr db'"
    by (auto split: option.splits sum.splits)
  have "filter_call_ok (ran columns) call" by (rule filter_clause_ok [OF col(2)]) (rule ranI [of columns "fs_Field spec" col, OF col(1)])
  then show ?case using Cons.IH [OF rest] by auto
qed simp

lemma apply_orders_ok:
  "apply_orders columns specs db = Inr db' \<Longrightarrow> list_all order_spec_ok specs \<Longrightarrow>
     \<exists>calls. db' = db @ calls \<and> list_all (order_call_ok (ran columns)) calls"
proof (induction specs arbitrary: db)
  case (Cons spec specs)
  then obtain col where col: "columns (os_Field spec) = Some col"
    and rest: "apply_orders columns specs (db @ [Order (col @ '' '' @ os_Direction spec)]) = Inr db'"
    by (auto split: option.splits)
  have "order_call_ok (ran columns) (Order (col @ '' '' @ os_Direction spec))"
    using Cons.prems(2) ranI [of columns "os_Field spec"] col by (auto simp: order_spec_ok_def)
  then show ?case using Cons.IH [OF rest] Cons.prems(2) by auto
qed simp

subsection \<open>Reading a filter\<close>

definition operator_char :: "char \<Rightarrow> bool" where
  "operator_char c \<longleftrightarrow> c \<in> set ''=!><:''"

lemma str_Index_skip:
  "c \<notin> set s \<Longrightarrow> str_Index t (c # part) = None \<Longrightarrow> str_Index (s @ t) (c # part) = None"
  by (induction s) (auto simp: starts_with_def)

lemma str_Index_none: "c \<notin> set s \<Longrightarrow> str_Index s (c # part) = None"
  by (rule str_Index_absent) (metis nth_mem)

lemma trim_by_id: "s \<noteq> [] \<Longrightarrow> \<not> p (hd s) \<Longrightarrow> \<not> p (last s) \<Longrightarrow> trim_by p s = s"
proof -
  assume s: "s \<noteq> []" "\<not> p (hd s)" "\<not> p (last s)"
  have "dropWhile p s = s" using s by (simp add: dropWhile_eq_self_iff)
  moreover have "dropWhile p (rev s) = rev s" using s by (simp add: dropWhile_eq_self_iff hd_rev)
  ultimately show ?thesis by (simp add: trim_by_def)
qed

text \<open>A value that neither begins nor ends with white space or a quotation mark and has no operator in it.\<close>

definition plain_value :: "string \<Rightarrow> bool" where
  "plain_value v \<longleftrightarrow> v \<noteq> [] \<and> list_all (\<lambda>c. \<not> operator_char c) v \<and> \<not> is_space (hd v) \<and> \<not> is_space (last v) \<and>
     hd v \<notin> {CHR 0x22, CHR 0x27} \<and> last v \<notin> {CHR 0x22, CHR 0x27}"

definition plain_field :: "string \<Rightarrow> bool" where
  "plain_field f \<longleftrightarrow> f \<noteq> [] \<and> list_all ident_char f"

lemma ident_char_plain: "ident_char c \<Longrightarrow> \<not> operator_char c \<and> \<not> is_space c"
  by (auto simp: ident_char_def ident_start_def is_digit_def operator_char_def is_space_def Let_def)

lemma parse_operators_at:
  assumes "str_Index expr op = Some (length f)" and "expr = f @ op @ v" and "plain_field f" and "plain_value v"
  shows "parse_operators (op # ops) expr = Inr \<lparr>fs_Field = f, fs_Operator = op, fs_Value = v\<rparr>"
proof -
  have "hd f \<in> set f" "last f \<in> set f" "f \<noteq> []" using assms(3) by (simp_all add: plain_field_def)
  then have f: "TrimSpace f = f" using assms(3) ident_char_plain by (intro TrimSpace_id) (auto simp: plain_field_def list_all_iff)
  have v: "TrimSpace v = v" "trim_by (\<lambda>c. c = CHR 0x22 \<or> c = CHR 0x27) v = v" "v \<noteq> []"
    using assms(4) by (auto simp: plain_value_def intro!: TrimSpace_id trim_by_id)
  show ?thesis using assms(1,2) f v \<open>f \<noteq> []\<close> by simp
qed

lemma in_set_append_left: "x \<in> set xs \<Longrightarrow> x \<in> set (xs @ ys)"
  by simp

lemma parse_operators_skip:
  "(\<And>o'. o' \<in> set earlier \<Longrightarrow> str_Index expr o' = None) \<Longrightarrow> parse_operators (earlier @ ops) expr = parse_operators ops expr"
  by (induction earlier) simp_all

text \<open>A filter item of a name, an operator and a plain value is read back as these three.\<close>

lemma parse_filter_plain:
  assumes "op \<in> set filter_operators" and "plain_field f" and "plain_value v"
  shows "parseFilterExpr (f @ op @ v) = Inr \<lparr>fs_Field = f, fs_Operator = op, fs_Value = v\<rparr>"
proof -
  have f: "c \<in> set ''=!><:'' \<Longrightarrow> c \<notin> set f" for c
    using assms(2) ident_char_plain by (fastforce simp: plain_field_def list_all_iff operator_char_def)
  have v: "c \<in> set ''=!><:'' \<Longrightarrow> c \<notin> set v" for c
    using assms(3) by (fastforce simp: plain_value_def list_all_iff operator_char_def)
  have first: "take (Suc 0) v \<noteq> ''=''" using v [of "CHR ''=''"] by (cases v) auto
  have none: "str_Index v (c # part) = None" if "c \<in> set ''=!><:''" for c part using v [OF that] by (rule str_Index_none)
  obtain earlier later where split: "filter_operators = earlier @ op # later"
    and absent: "\<And>o'. o' \<in> set earlier \<Longrightarrow> str_Index (f @ op @ v) o' = None"
  proof -
    have "\<exists>earlier later. filter_operators = earlier @ op # later \<and> list_all (\<lambda>o'. str_Index (op @ v) o' = None) earlier"
      using assms(1) first unfolding filter_operators_def
      by (simp add: Cons_eq_append_conv, elim disjE) (simp_all add: none starts_with_def)
    then obtain earlier later where split: "filter_operators = earlier @ op # later"
      and absent: "list_all (\<lambda>o'. str_Index (op @ v) o' = None) earlier" by blast
    have "str_Index (f @ op @ v) o' = None" if o': "o' \<in> set earlier" for o'
    proof -
      have "o' \<in> set filter_operators" unfolding split using o' by (rule in_set_append_left)
      then have "hd o' \<in> set ''=!><:''" "o' = hd o' # tl o'" by (auto simp: filter_operators_def)
      then show ?thesis using str_Index_skip [of "hd o'" f "op @ v" "tl o'"] f absent o' by (simp add: list_all_iff)
    qed
    then show ?thesis by (rule that [OF split])
  qed
  have "hd op \<in> set ''=!><:''" "op \<noteq> []" using assms(1) by (auto simp: filter_operators_def)
  then have "str_Index (f @ op @ v) op = Some (length f)" using f str_Index_first [of "hd op" f "tl op" v] by simp
  from parse_operators_at [OF this refl assms(2,3)] show ?thesis
    unfolding parseFilterExpr_def split using parse_operators_skip [OF absent] by simp
qed

subsection \<open>Properties\<close>

text \<open>A query that \<open>FromGin\<close> accepts is well formed: the page size is between 1 and 100, the offset is not negative, and the
  order, when there is one, parses into allowed fields with an ascending or a descending direction.\<close>

theorem from_gin_well_formed:
  assumes "FromGin P now c scope = Inr q"
  shows "1 \<le> pq_PageSize q \<and> pq_PageSize q \<le> 100 \<and> 0 \<le> pq_Offset q \<and>
    (blank (pq_OrderBy q) \<or> (\<exists>specs. parseOrder (pq_OrderBy q) = Inr specs \<and> list_all order_spec_ok specs))"
proof -
  obtain size cursor where size: "page_size_of (request_Query c ''page_size'') = Inr size"
    and order: "validateOrderBy (request_Query c ''order_by'') = None"
    and cursor: "decodePageToken P now (request_Query c ''page_token'') (queryFingerprint P c scope) = Inr cursor"
    and q: "pq_PageSize q = size" "pq_Offset q = pc_Offset cursor" "pq_OrderBy q = request_Query c ''order_by''"
    using assms by (auto simp: FromGin_def Let_def split: sum.splits option.splits)
  have "1 \<le> size" "size \<le> 100"
    using size by (auto simp: page_size_of_def DefaultPageSize_def MaxPageSize_def split: if_splits option.splits)
  moreover have "0 \<le> pc_Offset cursor"
    using cursor by (auto simp: decodePageToken_def split: if_splits list.splits option.splits)
  moreover have "\<exists>specs. parseOrder (pq_OrderBy q) = Inr specs" using order q(3) by (simp add: parseOrder_def)
  ultimately show ?thesis using q parseOrder_ok by auto
qed

definition demo_pager :: pager where
  "demo_pager = \<lparr>pg_sha256 = (\<lambda>s. s), pg_hex = (\<lambda>s. s), pg_hmac = (\<lambda>k s. k @ s),
     pg_marshal = (\<lambda>c. format_int (pc_Offset c) @ '' '' @ format_int (pc_IssuedAt c) @ '' '' @ pc_QueryHash c),
     pg_unmarshal = (\<lambda>s. Some \<lparr>pc_Version = 1, pc_Offset = 40, pc_QueryHash = ''h'', pc_After = [], pc_IssuedAt = 1000\<rparr>),
     pg_parse_time = (\<lambda>_. None), pg_url_encode = (\<lambda>_. []), pg_secret = ''s''\<rparr>"

theorem from_gin_well_formed_witness:
  "\<exists>q. FromGin demo_pager 1000 \<lparr>rq_Method = ''GET'', rq_FullPath = ''/jobs'', rq_Path = ''/jobs'',
     rq_Query = [(''page_size'', [''20'']), (''order_by'', [''created_at desc, id''])]\<rparr> [] = Inr q \<and> pq_PageSize q \<le> 100"
proof -
  have "\<exists>q. FromGin demo_pager 1000 \<lparr>rq_Method = ''GET'', rq_FullPath = ''/jobs'', rq_Path = ''/jobs'',
     rq_Query = [(''page_size'', [''20'']), (''order_by'', [''created_at desc, id''])]\<rparr> [] = Inr q"
    by (simp add: FromGin_def page_size_of_def request_Query_def ParseInt_def is_digit_def digits_value_def MaxPageSize_def
        validateOrderBy_def blank_def split_on_def order_item_error_def Fields_def TrimSpace_def trim_by_def is_space_def
        allowedOrderFields_def to_lower_def validateFilter_def decodePageToken_def Let_def)
  then show ?thesis using from_gin_well_formed by blast
qed

lemma token_decoded:
  fixes P q after issued
  defines "cursor \<equiv> \<lparr>pc_Version = 1, pc_Offset = i64 (pq_Offset q + pq_PageSize q), pc_QueryHash = pq_TokenHash q, pc_After = after,
    pc_IssuedAt = issued\<rparr>"
  assumes "pg_unmarshal P (pg_marshal P cursor) = Some cursor" and "0 \<le> pq_Offset q" and "0 \<le> pq_PageSize q"
    and "pq_Offset q + pq_PageSize q < 2 ^ 63" and "issued - 300 \<le> now" and "now \<le> issued + 24 * 60 * 60"
  shows "decodePageToken P now (NextPageTokenWithCursor P issued q after) h =
    (if h = pq_TokenHash q then Inr cursor else Inl (invalidPageToken ''page_token does not match query or has expired''))"
proof -
  let ?e = "b64_encode (pg_marshal P cursor)" and ?m = "b64_encode (pg_hmac P (pageTokenSigningKey P) (b64_encode (pg_marshal P cursor)))"
  have token: "NextPageTokenWithCursor P issued q after = ?e @ CHR ''.'' # ?m"
    by (simp add: NextPageTokenWithCursor_def nextPageToken_def cursor_def Let_def)
  have "split_on CHR ''.'' (?e @ CHR ''.'' # ?m) = [?e, ?m]"
    unfolding split_on_def using b64_encode_no_dot by (subst split_by_sep) (auto intro: split_by_none)
  then show ?thesis
    using assms(2-7) by (simp add: decodePageToken_def token b64_decode_encode) (auto simp: cursor_def)
qed



text \<open>A value that contains an operator is read at the operator that comes first in the list and not at the one that comes first
  in the text, although the syntax check has accepted the item.\<close>

lemma filter_operator_in_value:
  "validateFilter ''name:a==b'' = None \<and>
   parseFilter ''name:a==b'' = Inr [\<lparr>fs_Field = ''name:a'', fs_Operator = ''=='', fs_Value = ''b''\<rparr>]"
  by code_simp

text \<open>What a client writes into \<open>filter\<close> and \<open>order_by\<close> never becomes part of a statement: the text of every condition that
  \<open>ApplyFilter\<close> adds is a column of the caller's list followed by one of seven fixed operators with one bound value, and every order
  that \<open>ApplyOrder\<close> adds is such a column with \<open>ASC\<close> or \<open>DESC\<close>.\<close>

theorem statement_text_fixed:
  "(ApplyFilter db raw columns = Inr db' \<longrightarrow> (\<exists>calls. db' = db @ calls \<and> list_all (filter_call_ok (ran columns)) calls)) \<and>
   (ApplyOrder db raw columns fallback = Inr db'' \<and> \<not> blank raw \<longrightarrow>
      (\<exists>calls. db'' = db @ calls \<and> list_all (order_call_ok (ran columns)) calls))"
proof (intro conjI impI)
  assume "ApplyFilter db raw columns = Inr db'"
  then show "\<exists>calls. db' = db @ calls \<and> list_all (filter_call_ok (ran columns)) calls"
    by (auto simp: ApplyFilter_def split: if_splits sum.splits dest: apply_filters_ok)
next
  assume run: "ApplyOrder db raw columns fallback = Inr db'' \<and> \<not> blank raw"
  then obtain specs where "parseOrder raw = Inr specs" "apply_orders columns specs db = Inr db''"
    by (auto simp: ApplyOrder_def split: sum.splits)
  then show "\<exists>calls. db'' = db @ calls \<and> list_all (order_call_ok (ran columns)) calls"
    using run parseOrder_ok apply_orders_ok by blast
qed

theorem statement_text_fixed_witness:
  "\<exists>calls. ApplyOrder [] ''id desc'' [''id'' \<mapsto> ''t.id''] [] = Inr calls \<and> list_all (order_call_ok {''t.id''}) calls"
proof -
  have run: "ApplyOrder [] ''id desc'' [''id'' \<mapsto> ''t.id''] [] = Inr [Order ''t.id DESC'']"
    by code_simp
  have "\<not> blank ''id desc''" by (simp add: blank_def)
  then show ?thesis
    using statement_text_fixed [of "[]" "''id desc''" "[''id'' \<mapsto> ''t.id'']" "[]" "[]" "[Order ''t.id DESC'']"] run by simp
qed

end
