(* ===== verification/Idempotency.thy ===== *)
theory Idempotency
  imports Gorm
begin

text \<open>
  Idempotency keys: \<open>internal/pkg/idempotency\<close>. A request claims the row of its actor, path
  and key for thirty seconds (\<open>StartAt\<close>); the claim's identifier is a fencing token, which
  \<open>SucceedOwned\<close> and \<open>FailOwned\<close> require; a row that has succeeded keeps the response for every
  later request with the key.

  The hash function, the JSON encoder and decoder and the database are parameters (\<open>sha\<close>,
  \<open>marshal\<close>, \<open>unmarshal\<close>, the engine \<open>E\<close>). The state is the table. \<open>Updates\<close> sets
  \<open>updated_at\<close> itself where the code does not; that instant is the parameter \<open>auto\<close>. The instant
  \<open>time.Now()\<close> of \<open>Start\<close> and \<open>ReplayCompleted\<close> is a parameter too.
\<close>

subsection \<open>The table\<close>

record Record =
  rec_ID :: uint64
  rec_ActorType :: string
  rec_ActorID :: uint64
  rec_Method :: string
  rec_Path :: string
  rec_KeyHash :: string
  rec_RequestHash :: string
  rec_ResponseStatus :: "int option"
  rec_ResponseBody :: string
  rec_Status :: string
  rec_LockedUntil :: "go_time option"
  rec_ExpiredAt :: go_time
  rec_CreatedAt :: go_time
  rec_UpdatedAt :: go_time

text \<open>The primary key and the index \<open>uk_actor_path_key\<close> of the migration.\<close>

type_synonym claim_key = "string \<times> uint64 \<times> string \<times> string"

definition rec_key :: "Record \<Rightarrow> claim_key" where
  "rec_key r = (rec_ActorType r, rec_ActorID r, rec_Path r, rec_KeyHash r)"

definition rec_clash :: "Record \<Rightarrow> Record \<Rightarrow> bool" where
  "rec_clash a b \<longleftrightarrow> rec_ID a = rec_ID b \<or> rec_key a = rec_key b"

definition rec_fits :: "Record \<Rightarrow> bool" where
  "rec_fits r \<longleftrightarrow> length (rec_ActorType r) \<le> 32 \<and> length (rec_Method r) \<le> 16 \<and>
     length (rec_Path r) \<le> 255 \<and> length (rec_KeyHash r) \<le> 128 \<and> length (rec_RequestHash r) \<le> 128 \<and>
     length (rec_Status r) \<le> 32"

definition errorCodeKeyReused :: string where "errorCodeKeyReused = ''IDEMPOTENCY_KEY_REUSED''"
definition errorCodeInProgress :: string where "errorCodeInProgress = ''IDEMPOTENCY_IN_PROGRESS''"
definition errorCodeClaimLost :: string where "errorCodeClaimLost = ''IDEMPOTENCY_CLAIM_LOST''"

definition idempotencyKeyReused :: go_error where
  "idempotencyKeyReused = problem_Conflict errorCodeKeyReused
     ''same idempotency key was used for a different request''"

definition idempotencyInProgress :: go_error where
  "idempotencyInProgress = problem_Conflict errorCodeInProgress
     ''request with the same idempotency key is still processing''"

definition idempotencyClaimLost :: go_error where
  "idempotencyClaimLost = problem_Conflict errorCodeClaimLost
     ''idempotency claim is no longer owned by this request''"

definition IsClaimLost :: "go_error option \<Rightarrow> bool" where
  "IsClaimLost err = (case err of Some (Problem d) \<Rightarrow> ErrorCode d = errorCodeClaimLost | _ \<Rightarrow> False)"

subsection \<open>Hashes\<close>

definition RequestHash :: "(string \<Rightarrow> string) \<Rightarrow> ('v \<Rightarrow> string) \<Rightarrow> 'v \<Rightarrow> string" where
  "RequestHash sha marshal value = sha (marshal value)"

definition KeyHash :: "(string \<Rightarrow> string) \<Rightarrow> string \<Rightarrow> string" where
  "KeyHash sha key = sha key"

subsection \<open>Operations\<close>

definition existingClaimResult :: "Record \<Rightarrow> string \<Rightarrow> go_time \<Rightarrow> go_error + bool" where
  "existingClaimResult existing requestHash now =
     (if rec_RequestHash existing \<noteq> requestHash then Inl idempotencyKeyReused
      else if rec_Status existing = ''succeeded'' then Inr False
      else if rec_Status existing = ''processing'' \<and>
           (case rec_LockedUntil existing of None \<Rightarrow> False | Some t \<Rightarrow> now < t)
      then Inl idempotencyInProgress
      else Inl idempotencyInProgress)"

definition claim_candidate ::
    "uint64 \<Rightarrow> claim_key \<Rightarrow> string \<Rightarrow> string \<Rightarrow> go_time \<Rightarrow> Record" where
  "claim_candidate i k verb requestHash now =
     (case k of (actorType, actorID, path, keyHash) \<Rightarrow>
       \<lparr>rec_ID = i, rec_ActorType = actorType, rec_ActorID = actorID, rec_Method = verb,
        rec_Path = path, rec_KeyHash = keyHash, rec_RequestHash = requestHash,
        rec_ResponseStatus = None, rec_ResponseBody = [], rec_Status = ''processing'',
        rec_LockedUntil = Some (now + 30 * nanos_per_second),
        rec_ExpiredAt = now + 24 * 3600 * nanos_per_second, rec_CreatedAt = now, rec_UpdatedAt = now\<rparr>)"

definition claim_reclaimable :: "claim_key \<Rightarrow> string \<Rightarrow> go_time \<Rightarrow> Record \<Rightarrow> bool" where
  "claim_reclaimable k requestHash now r \<longleftrightarrow> rec_key r = k \<and> rec_RequestHash r = requestHash \<and>
     rec_Status r \<noteq> ''succeeded'' \<and>
     (case rec_LockedUntil r of None \<Rightarrow> True | Some t \<Rightarrow> t \<le> now)"

definition claim_take :: "uint64 \<Rightarrow> go_time \<Rightarrow> Record \<Rightarrow> Record" where
  "claim_take i now r = r\<lparr>rec_ID := i, rec_Status := ''processing'',
     rec_LockedUntil := Some (now + 30 * nanos_per_second), rec_UpdatedAt := now\<rparr>"

definition StartAt ::
    "(string \<Rightarrow> string) \<Rightarrow> Record engine \<Rightarrow> uint64 \<Rightarrow> string \<Rightarrow> uint64 \<Rightarrow> string \<Rightarrow> string \<Rightarrow> string \<Rightarrow>
     string \<Rightarrow> go_time \<Rightarrow> (Record list, go_error, bool) go" where
  "StartAt sha E i actorType actorID verb path key requestHash now rows =
     (if key = '''' then
        (Inl (problem_InvalidArgument ''IDEMPOTENCY_KEY_REQUIRED'' ''Idempotency-Key is required''), rows)
      else if length key < 8 \<or> 128 < length key then
        (Inl (problem_InvalidArgument ''IDEMPOTENCY_KEY_INVALID''
           ''Idempotency-Key must be between 8 and 128 characters''), rows)
      else let k = (actorType, actorID, path, KeyHash sha key) in
        case sql_create_ignore E (claim_candidate i k verb requestHash now) rows of
          Inl e \<Rightarrow> (Inl e, rows)
        | Inr rows1 \<Rightarrow>
            (case sql_updates E (claim_reclaimable k requestHash now) (claim_take i now) rows1 of
               Inl e \<Rightarrow> (Inl e, rows1)
             | Inr (rows2, _) \<Rightarrow>
                 (case sql_take E (\<lambda>r. rec_key r = k) rows2 of
                    Inl e \<Rightarrow> (Inl e, rows2)
                  | Inr existing \<Rightarrow>
                      if rec_ID existing = i then (Inr True, rows2)
                      else (existingClaimResult existing requestHash now, rows2))))"

definition Start ::
    "go_time \<Rightarrow> (string \<Rightarrow> string) \<Rightarrow> Record engine \<Rightarrow> uint64 \<Rightarrow> string \<Rightarrow> uint64 \<Rightarrow> string \<Rightarrow> string \<Rightarrow>
     string \<Rightarrow> string \<Rightarrow> (Record list, go_error, bool) go" where
  "Start time_now sha E i actorType actorID verb path key requestHash =
     StartAt sha E i actorType actorID verb path key requestHash time_now"

definition claim_succeed :: "go_time \<Rightarrow> string \<Rightarrow> Record \<Rightarrow> Record" where
  "claim_succeed auto payload r = r\<lparr>rec_Status := ''succeeded'', rec_ResponseStatus := Some 200,
     rec_ResponseBody := payload, rec_LockedUntil := None, rec_UpdatedAt := auto\<rparr>"

definition claim_fail :: "go_time \<Rightarrow> Record \<Rightarrow> Record" where
  "claim_fail auto r = r\<lparr>rec_Status := ''failed'', rec_LockedUntil := None, rec_UpdatedAt := auto\<rparr>"

definition claim_owned :: "uint64 \<Rightarrow> claim_key \<Rightarrow> Record \<Rightarrow> bool" where
  "claim_owned i k r \<longleftrightarrow> rec_ID r = i \<and> rec_key r = k \<and> rec_Status r = ''processing''"

definition Succeed ::
    "(string \<Rightarrow> string) \<Rightarrow> ('v \<Rightarrow> string) \<Rightarrow> Record engine \<Rightarrow> go_time \<Rightarrow> string \<Rightarrow> uint64 \<Rightarrow> string \<Rightarrow> string \<Rightarrow>
     'v \<Rightarrow> (Record list, go_error, unit) go" where
  "Succeed sha marshal E auto actorType actorID path key response rows =
     (case sql_updates E (\<lambda>r. rec_key r = (actorType, actorID, path, KeyHash sha key))
             (claim_succeed auto (marshal response)) rows of
        Inl e \<Rightarrow> (Inl e, rows) | Inr (rows', _) \<Rightarrow> (Inr (), rows'))"

definition SucceedOwned ::
    "(string \<Rightarrow> string) \<Rightarrow> ('v \<Rightarrow> string) \<Rightarrow> Record engine \<Rightarrow> go_time \<Rightarrow> uint64 \<Rightarrow> string \<Rightarrow> uint64 \<Rightarrow>
     string \<Rightarrow> string \<Rightarrow> 'v \<Rightarrow> (Record list, go_error, unit) go" where
  "SucceedOwned sha marshal E auto expectedClaimID actorType actorID path key response rows =
     (case sql_updates E (claim_owned expectedClaimID (actorType, actorID, path, KeyHash sha key))
             (claim_succeed auto (marshal response)) rows of
        Inl e \<Rightarrow> (Inl e, rows)
      | Inr (rows', affected) \<Rightarrow>
          if affected \<noteq> 1 then (Inl idempotencyClaimLost, rows') else (Inr (), rows'))"

definition Fail ::
    "(string \<Rightarrow> string) \<Rightarrow> Record engine \<Rightarrow> go_time \<Rightarrow> string \<Rightarrow> uint64 \<Rightarrow> string \<Rightarrow> string \<Rightarrow>
     (Record list, go_error, unit) go" where
  "Fail sha E auto actorType actorID path key rows =
     (case sql_updates E (\<lambda>r. rec_key r = (actorType, actorID, path, KeyHash sha key) \<and>
             rec_Status r \<noteq> ''succeeded'') (claim_fail auto) rows of
        Inl e \<Rightarrow> (Inl e, rows) | Inr (rows', _) \<Rightarrow> (Inr (), rows'))"

definition FailOwned ::
    "(string \<Rightarrow> string) \<Rightarrow> Record engine \<Rightarrow> go_time \<Rightarrow> uint64 \<Rightarrow> string \<Rightarrow> uint64 \<Rightarrow> string \<Rightarrow> string \<Rightarrow>
     (Record list, go_error, unit) go" where
  "FailOwned sha E auto expectedClaimID actorType actorID path key rows =
     (case sql_updates E (claim_owned expectedClaimID (actorType, actorID, path, KeyHash sha key))
             (claim_fail auto) rows of
        Inl e \<Rightarrow> (Inl e, rows)
      | Inr (rows', affected) \<Rightarrow>
          if affected \<noteq> 1 then (Inl idempotencyClaimLost, rows') else (Inr (), rows'))"

text \<open>The two reads return what was decoded into \<open>out\<close>, \<open>None\<close> for "not found".\<close>

definition CachedResponse ::
    "(string \<Rightarrow> string) \<Rightarrow> (string \<Rightarrow> go_error + 'v) \<Rightarrow> Record engine \<Rightarrow> string \<Rightarrow> uint64 \<Rightarrow> string \<Rightarrow> string \<Rightarrow>
     Record list \<Rightarrow> go_error + 'v option" where
  "CachedResponse sha unmarshal E actorType actorID path key rows =
     (case sql_take E (\<lambda>r. rec_key r = (actorType, actorID, path, KeyHash sha key) \<and>
             rec_Status r = ''succeeded'') rows of
        Inl e \<Rightarrow> if e = ErrRecordNotFound then Inr None else Inl e
      | Inr r \<Rightarrow>
          if rec_ResponseBody r = [] then Inr None
          else case unmarshal (rec_ResponseBody r) of Inl e \<Rightarrow> Inl e | Inr v \<Rightarrow> Inr (Some v))"

definition ReplayCompleted ::
    "go_time \<Rightarrow> (string \<Rightarrow> string) \<Rightarrow> (string \<Rightarrow> go_error + 'v) \<Rightarrow> Record engine option \<Rightarrow> string \<Rightarrow> uint64 \<Rightarrow>
     string \<Rightarrow> string \<Rightarrow> string \<Rightarrow> Record list \<Rightarrow> go_error + 'v option" where
  "ReplayCompleted time_now sha unmarshal db actorType actorID path key requestHash rows =
     (case db of
        None \<Rightarrow> Inr None
      | Some E \<Rightarrow>
          if key = '''' then Inr None
          else case sql_take E (\<lambda>r. rec_key r = (actorType, actorID, path, KeyHash sha key)) rows of
            Inl e \<Rightarrow> if e = ErrRecordNotFound then Inr None else Inl e
          | Inr r \<Rightarrow>
              if rec_RequestHash r \<noteq> requestHash then Inl idempotencyKeyReused
              else if rec_Status r \<noteq> ''succeeded'' then
                (if rec_Status r = ''processing'' \<and>
                    (case rec_LockedUntil r of None \<Rightarrow> False | Some t \<Rightarrow> time_now < t)
                 then Inl idempotencyInProgress else Inr None)
              else if rec_ResponseBody r = [] then Inr None
              else case unmarshal (rec_ResponseBody r) of Inl e \<Rightarrow> Inl e | Inr v \<Rightarrow> Inr (Some v))"

subsection \<open>What a claim does\<close>

text \<open>\<open>start_spec\<close> says what \<open>StartAt\<close> decides, by the row the key has before the call: the
  three statements of the implementation amount to this.\<close>

definition lease_live :: "go_time \<Rightarrow> Record \<Rightarrow> bool" where
  "lease_live now r = (case rec_LockedUntil r of None \<Rightarrow> False | Some t \<Rightarrow> now < t)"

definition start_spec ::
    "uint64 \<Rightarrow> claim_key \<Rightarrow> string \<Rightarrow> string \<Rightarrow> go_time \<Rightarrow> Record list \<Rightarrow> (go_error + bool) \<times> Record list" where
  "start_spec i k verb requestHash now rows =
     (case List.find (\<lambda>r. rec_key r = k) rows of
        None \<Rightarrow> (Inr True, rows @ [claim_candidate i k verb requestHash now])
      | Some r \<Rightarrow>
          if rec_RequestHash r \<noteq> requestHash then (Inl idempotencyKeyReused, rows)
          else if rec_Status r = ''succeeded'' then (Inr False, rows)
          else if lease_live now r then (Inl idempotencyInProgress, rows)
          else (Inr True, update_where (\<lambda>x. rec_key x = k) (claim_take i now) rows))"

definition claims_wf :: "Record list \<Rightarrow> bool" where
  "claims_wf rows \<longleftrightarrow> distinct (map rec_key rows)"

definition key_valid :: "string \<Rightarrow> bool" where
  "key_valid key \<longleftrightarrow> 8 \<le> length key \<and> length key \<le> 128"

lemma rec_key_simps [simp]:
  "rec_key (claim_candidate i k m h now) = k"
  "rec_key (claim_take i now r) = rec_key r"
  "rec_key (claim_succeed auto p r) = rec_key r"
  "rec_key (claim_fail auto r) = rec_key r"
  by (simp_all add: rec_key_def claim_candidate_def claim_take_def claim_succeed_def claim_fail_def
      split: prod.splits)

lemma claim_sel [simp]:
  "rec_ID (claim_candidate i k m h now) = i"
  "rec_Status (claim_candidate i k m h now) = ''processing''"
  "rec_RequestHash (claim_candidate i k m h now) = h"
  "rec_LockedUntil (claim_candidate i k m h now) = Some (now + 30 * nanos_per_second)"
  "rec_ID (claim_take i now r) = i"
  "rec_Status (claim_take i now r) = ''processing''"
  "rec_RequestHash (claim_take i now r) = rec_RequestHash r"
  "rec_LockedUntil (claim_take i now r) = Some (now + 30 * nanos_per_second)"
  "rec_ID (claim_succeed auto p r) = rec_ID r"
  "rec_Status (claim_succeed auto p r) = ''succeeded''"
  "rec_RequestHash (claim_succeed auto p r) = rec_RequestHash r"
  "rec_ResponseBody (claim_succeed auto p r) = p"
  "rec_ID (claim_fail auto r) = rec_ID r"
  "rec_Status (claim_fail auto r) = ''failed''"
  "rec_RequestHash (claim_fail auto r) = rec_RequestHash r"
  "rec_LockedUntil (claim_fail auto r) = None"
  by (simp_all add: claim_candidate_def claim_take_def claim_succeed_def claim_fail_def split: prod.splits)

lemma claim_not_live: "(case rec_LockedUntil r of None \<Rightarrow> True | Some t \<Rightarrow> t \<le> now) \<longleftrightarrow> \<not> lease_live now r"
  by (auto simp: lease_live_def split: option.splits)

lemma find_key:
  assumes "claims_wf rows" and "r \<in> set rows" and "rec_key r = k"
  shows "List.find (\<lambda>r. rec_key r = k) rows = Some r"
proof (cases "List.find (\<lambda>r. rec_key r = k) rows")
  case None
  with assms show ?thesis by (auto simp: find_None_all)
next
  case (Some r')
  with find_Some_in [OF Some] assms show ?thesis
    by (auto simp: claims_wf_def dest: distinct_key_unique)
qed

lemma claims_wf_update:
  "(\<And>r. rec_key (f r) = rec_key r) \<Longrightarrow> claims_wf (update_where p f rows) = claims_wf rows"
  by (simp add: claims_wf_def map_update_where)

lemma update_where_single:
  assumes "claims_wf rows" and "r \<in> set rows" and "p r" and "\<And>x. p x \<Longrightarrow> rec_key x = rec_key r"
  shows "set (update_where p f rows) = insert (f r) (set rows - {r})"
proof -
  have "x = r" if "x \<in> set rows" "p x" for x
    using distinct_key_unique [OF assms(1) [unfolded claims_wf_def] that(1) assms(2) assms(4) [OF that(2)]] .
  then have "{x \<in> set rows. p x} = {r}" and "{x \<in> set rows. \<not> p x} = set rows - {r}"
    using assms(2,3) by blast+
  then show ?thesis unfolding set_update_where by simp
qed

locale claim_table = gorm_table E rec_clash rec_fits for E :: "Record engine"

locale claim_table_live = claim_table + gorm_table_live E rec_clash rec_fits

context claim_table
begin

lemma take_unique:
  assumes "claims_wf rows" and "r \<in> set rows" and "rec_key r = k"
    and "sql_take E (\<lambda>r. rec_key r = k) rows = Inr r'"
  shows "r' = r"
  using take_row [OF assms(4)] assms(1-3) by (auto simp: claims_wf_def dest: distinct_key_unique)

text \<open>The three statements together decide the claim as specified.\<close>

lemma claim_decided:
  assumes wf: "claims_wf rows" and fresh: "i \<notin> rec_ID ` set rows"
    and ins: "sql_create_ignore E (claim_candidate i k verb h at) rows = Inr rows1"
    and upd: "sql_updates E (claim_reclaimable k h at) (claim_take i at) rows1 = Inr (rows2, n)"
    and sel: "sql_take E (\<lambda>r. rec_key r = k) rows2 = Inr ex"
  shows "(if rec_ID ex = i then (Inr True, rows2) else (existingClaimResult ex h at, rows2)) =
    start_spec i k verb h at rows"
proof -
  let ?cand = "claim_candidate i k verb h at"
  have rows2: "rows2 = update_where (claim_reclaimable k h at) (claim_take i at) rows1"
    by (rule updates_rows [OF upd])
  show ?thesis
  proof (cases "List.find (\<lambda>r. rec_key r = k) rows")
    case None
    then have none: "\<forall>r\<in>set rows. rec_key r \<noteq> k" by (simp add: find_None_all)
    have "\<not> (\<exists>r\<in>set rows. rec_clash ?cand r)"
      using none fresh by (auto simp: rec_clash_def)
    with create_ignore [OF ins] have rows1: "rows1 = rows @ [?cand]" by simp
    have "\<not> claim_reclaimable k h at ?cand"
      by (simp add: claim_reclaimable_def nanos_per_second_def)
    then have "\<not> claim_reclaimable k h at r" if "r \<in> set rows1" for r
      using that none unfolding rows1 by (cases "r = ?cand") (auto simp: claim_reclaimable_def)
    then have "rows2 = rows1" unfolding rows2 by (rule update_where_id)
    then have "rows2 = rows @ [?cand]" unfolding rows1 .
    moreover from this have "ex = ?cand"
      using take_row [OF sel] none by auto
    ultimately show ?thesis using None by (simp add: start_spec_def)
  next
    case (Some r)
    then have r: "r \<in> set rows" "rec_key r = k" using find_Some_in [OF Some] by auto
    have rows1: "rows1 = rows"
      using create_ignore [OF ins] r by (auto simp: rec_clash_def split: if_splits)
    have recl: "claim_reclaimable k h at x \<longleftrightarrow> x = r \<and> claim_reclaimable k h at r" if "x \<in> set rows" for x
      using wf r that by (auto simp: claim_reclaimable_def claims_wf_def dest: distinct_key_unique)
    show ?thesis
    proof (cases "claim_reclaimable k h at r")
      case False
      then have "rows2 = rows" unfolding rows2 rows1 using recl by (intro update_where_id) blast
      moreover from this have "ex = r" using take_unique [OF wf r] sel by simp
      moreover have "rec_ID r \<noteq> i" using fresh r(1) by auto
      ultimately show ?thesis
        using False Some r(2) by (auto simp: start_spec_def existingClaimResult_def claim_reclaimable_def claim_not_live)
    next
      case True
      have same: "rows2 = update_where (\<lambda>x. rec_key x = k) (claim_take i at) rows"
        unfolding rows2 rows1 update_where_def
      proof (rule map_cong [OF refl])
        fix x
        assume x: "x \<in> set rows"
        have "rec_key x = k \<longleftrightarrow> x = r"
          using wf r x by (auto simp: claims_wf_def dest: distinct_key_unique)
        with recl [OF x] True show "(if claim_reclaimable k h at x then claim_take i at x else x) =
            (if rec_key x = k then claim_take i at x else x)" by simp
      qed
      have "ex \<in> set rows2" "rec_key ex = k" using take_row [OF sel] by auto
      then have "ex \<in> claim_take i at ` set rows" unfolding same set_update_where by blast
      then have "rec_ID ex = i" by auto
      with same True Some show ?thesis
        by (auto simp: start_spec_def claim_reclaimable_def claim_not_live)
    qed
  qed
qed

lemma StartAt_ok:
  assumes "claims_wf rows" and "i \<notin> rec_ID ` set rows"
    and "StartAt sha E i actorType actorID verb path key h at rows = (Inr b, rows')"
  shows "key_valid key \<and>
    start_spec i (actorType, actorID, path, KeyHash sha key) verb h at rows = (Inr b, rows')"
  using assms(3) claim_decided [OF assms(1,2)]
  by (auto simp: StartAt_def Let_def key_valid_def not_less split: if_splits sum.splits prod.splits)

end

context claim_table_live
begin

lemma StartAt_live:
  assumes wf: "claims_wf rows" and fresh: "i \<notin> rec_ID ` set rows" and key: "key_valid key"
    and k: "k = (actorType, actorID, path, KeyHash sha key)"
    and fits: "rec_fits (claim_candidate i k verb h at)"
  shows "StartAt sha E i actorType actorID verb path key h at rows = start_spec i k verb h at rows"
proof -
  obtain rows1 where ins: "sql_create_ignore E (claim_candidate i k verb h at) rows = Inr rows1"
    using create_ignore_live [OF fits] by blast
  obtain rows2 n where upd: "sql_updates E (claim_reclaimable k h at) (claim_take i at) rows1 = Inr (rows2, n)"
    using updates_live [of "claim_reclaimable k h at" "claim_take i at" rows1] by auto
  have "\<exists>r\<in>set rows1. rec_key r = k"
  proof (cases "\<exists>r\<in>set rows. rec_key r = k")
    case False
    then have "rows1 = rows @ [claim_candidate i k verb h at]"
      using create_ignore [OF ins] fresh by (auto simp: rec_clash_def)
    then show ?thesis by simp
  next
    case True
    then have "\<exists>r\<in>set rows. rec_clash (claim_candidate i k verb h at) r"
      by (auto simp: rec_clash_def)
    with create_ignore [OF ins] True show ?thesis by simp
  qed
  then obtain r where "r \<in> set rows1" "rec_key r = k" by blast
  then have "\<exists>r\<in>set rows2. rec_key r = k"
    unfolding updates_rows [OF upd] set_update_where
    by (intro bexI [of _ "if claim_reclaimable k h at r then claim_take i at r else r"]) auto
  then obtain ex where sel: "sql_take E (\<lambda>r. rec_key r = k) rows2 = Inr ex"
    by (cases "sql_take E (\<lambda>r. rec_key r = k) rows2") (use take_live take_missing in blast)+
  have "key \<noteq> []" "\<not> (length key < 8 \<or> 128 < length key)" using key by (auto simp: key_valid_def)
  with ins upd sel claim_decided [OF wf fresh ins upd sel] show ?thesis
    by (simp add: StartAt_def k Let_def)
qed

end


subsection \<open>Histories of calls\<close>

text \<open>The calls of any number of requests, each in its own transaction: one that returns an error
  leaves the table as it was. The target is the actor, the path and the client's key.\<close>

type_synonym claim_target = "string \<times> uint64 \<times> string \<times> string"

datatype 'v claim_op =
    ClaimStart uint64 claim_target string string go_time
  | ClaimSucceed uint64 claim_target go_time 'v
  | ClaimFail uint64 claim_target go_time
  | ClaimAbandon claim_target go_time

definition target_key :: "(string \<Rightarrow> string) \<Rightarrow> claim_target \<Rightarrow> claim_key" where
  "target_key sha target = (case target of (actorType, actorID, path, key) \<Rightarrow>
     (actorType, actorID, path, KeyHash sha key))"

fun claim_call ::
    "(string \<Rightarrow> string) \<Rightarrow> ('v \<Rightarrow> string) \<Rightarrow> Record engine \<Rightarrow> 'v claim_op \<Rightarrow> (Record list, go_error, bool) go" where
  "claim_call sha marshal E (ClaimStart i (ty, actor, path, key) verb h now) rows =
     StartAt sha E i ty actor verb path key h now rows"
| "claim_call sha marshal E (ClaimSucceed i (ty, actor, path, key) auto v) rows =
     go_bind (SucceedOwned sha marshal E auto i ty actor path key v) (\<lambda>_. go_ok True) rows"
| "claim_call sha marshal E (ClaimFail i (ty, actor, path, key) auto) rows =
     go_bind (FailOwned sha E auto i ty actor path key) (\<lambda>_. go_ok True) rows"
| "claim_call sha marshal E (ClaimAbandon (ty, actor, path, key) auto) rows =
     go_bind (Fail sha E auto ty actor path key) (\<lambda>_. go_ok True) rows"

fun claim_history ::
    "(string \<Rightarrow> string) \<Rightarrow> ('v \<Rightarrow> string) \<Rightarrow> Record engine \<Rightarrow> 'v claim_op list \<Rightarrow> Record list \<Rightarrow> Record list" where
  "claim_history sha marshal E [] rows = rows"
| "claim_history sha marshal E (op # ops) rows =
     claim_history sha marshal E ops
       (case claim_call sha marshal E op rows of (Inl e, _) \<Rightarrow> rows | (Inr _, rows') \<Rightarrow> rows')"

text \<open>What another request with the token \<open>i\<close> may not do while it does not own the claim: take
  the lease of a key \<open>k\<close> before \<open>t\<close>, or give up a key it did not claim.\<close>

fun claim_token :: "'v claim_op \<Rightarrow> uint64 option" where
  "claim_token (ClaimStart i _ _ _ _) = Some i"
| "claim_token (ClaimSucceed i _ _ _) = Some i"
| "claim_token (ClaimFail i _ _) = Some i"
| "claim_token (ClaimAbandon _ _) = None"

fun claim_before :: "go_time \<Rightarrow> 'v claim_op \<Rightarrow> bool" where
  "claim_before t (ClaimStart _ _ _ _ now) \<longleftrightarrow> now < t"
| "claim_before t _ \<longleftrightarrow> True"

context claim_table
begin

lemma StartAt_rows:
  assumes "StartAt sha E i ty actor verb path key h at rows = (Inr b, rows')"
  obtains new where "set new \<subseteq> {claim_candidate i (ty, actor, path, KeyHash sha key) verb h at}"
    and "rows' = update_where (claim_reclaimable (ty, actor, path, KeyHash sha key) h at) (claim_take i at) (rows @ new)"
    and "claims_wf rows \<longrightarrow> claims_wf (rows @ new)"
proof -
  let ?k = "(ty, actor, path, KeyHash sha key)"
  let ?c = "claim_candidate i ?k verb h at"
  from assms obtain rows1 n where ins: "sql_create_ignore E ?c rows = Inr rows1"
    and upd: "sql_updates E (claim_reclaimable ?k h at) (claim_take i at) rows1 = Inr (rows', n)"
    by (auto simp: StartAt_def Let_def split: if_splits sum.splits)
  show ?thesis
  proof (cases "\<exists>r\<in>set rows. rec_clash ?c r")
    case True
    with create_ignore [OF ins] updates_rows [OF upd] show ?thesis by (intro that [of "[]"]) auto
  next
    case False
    then have "claims_wf rows \<longrightarrow> claims_wf (rows @ [?c])"
      by (auto simp: claims_wf_def rec_clash_def image_iff)
    with False create_ignore [OF ins] updates_rows [OF upd] show ?thesis by (intro that [of "[?c]"]) auto
  qed
qed

lemma owned_call_rows:
  assumes "(case sql_updates E p f rows of Inl e \<Rightarrow> (Inl e, rows)
      | Inr (rs, affected) \<Rightarrow> if affected \<noteq> 1 then (Inl err, rs) else (Inr (), rs)) = (Inr u, rows')"
  shows "rows' = update_where p f rows"
  using assms updates_rows by (auto split: sum.splits if_splits)

text \<open>A successful call is one guarded update.\<close>

lemma claim_call_cases:
  assumes "claim_call sha marshal E op rows = (Inr b, rows')"
  obtains (start) i target verb h at new where "op = ClaimStart i target verb h at"
      and "set new \<subseteq> {claim_candidate i (target_key sha target) verb h at}"
      and "rows' = update_where (claim_reclaimable (target_key sha target) h at) (claim_take i at) (rows @ new)"
      and "claims_wf rows \<longrightarrow> claims_wf (rows @ new)"
    | (succeed) i target auto v where "op = ClaimSucceed i target auto v"
      and "rows' = update_where (claim_owned i (target_key sha target)) (claim_succeed auto (marshal v)) rows"
    | (fail) i target auto where "op = ClaimFail i target auto"
      and "rows' = update_where (claim_owned i (target_key sha target)) (claim_fail auto) rows"
    | (abandon) target auto where "op = ClaimAbandon target auto"
      and "rows' = update_where (\<lambda>r. rec_key r = target_key sha target \<and> rec_Status r \<noteq> ''succeeded'')
        (claim_fail auto) rows"
proof (cases op)
  case (ClaimStart i target verb h at)
  obtain ty actor path key where target: "target = (ty, actor, path, key)" by (cases target)
  from assms [unfolded ClaimStart target, simplified] show ?thesis
    by (rule StartAt_rows) (rule start [OF ClaimStart]; simp add: target target_key_def)
next
  case (ClaimSucceed i target auto v)
  obtain ty actor path key where target: "target = (ty, actor, path, key)" by (cases target)
  from assms have "SucceedOwned sha marshal E auto i ty actor path key v rows = (Inr (), rows')"
    by (auto simp: ClaimSucceed target go_inv)
  from owned_call_rows [OF this [unfolded SucceedOwned_def]] show ?thesis
    by (intro succeed [OF ClaimSucceed]) (simp add: target target_key_def)
next
  case (ClaimFail i target auto)
  obtain ty actor path key where target: "target = (ty, actor, path, key)" by (cases target)
  from assms have "FailOwned sha E auto i ty actor path key rows = (Inr (), rows')"
    by (auto simp: ClaimFail target go_inv)
  from owned_call_rows [OF this [unfolded FailOwned_def]] show ?thesis
    by (intro fail [OF ClaimFail]) (simp add: target target_key_def)
next
  case (ClaimAbandon target auto)
  obtain ty actor path key where target: "target = (ty, actor, path, key)" by (cases target)
  from assms updates_rows show ?thesis
    by (intro abandon [OF ClaimAbandon])
      (auto simp: ClaimAbandon target target_key_def go_inv Fail_def split: sum.splits)
qed

text \<open>A row is left alone by every call that does not match it.\<close>

lemma claim_call_keeps:
  assumes run: "claim_call sha marshal E op rows = (Inr b, rows')" and r: "r \<in> set rows"
    and start: "\<And>i target verb h at. op = ClaimStart i target verb h at \<Longrightarrow>
      \<not> claim_reclaimable (target_key sha target) h at r"
    and fin: "rec_Status r = ''processing'' \<Longrightarrow> claim_token op \<noteq> Some (rec_ID r) \<and> claim_token op \<noteq> None"
    and st: "rec_Status r \<in> {''processing'', ''succeeded''}"
  shows "r \<in> set rows'"
  using run
proof (cases rule: claim_call_cases)
  case (start i target verb h at new)
  with r assms(3) [OF start(1)] show ?thesis by (simp add: set_update_where)
qed (use r fin st in \<open>auto simp: set_update_where claim_owned_def\<close>)

lemma claim_call_wf:
  assumes "claim_call sha marshal E op rows = (Inr b, rows')" and "claims_wf rows"
  shows "claims_wf rows'"
  using assms(1) by (cases rule: claim_call_cases) (use assms(2) in \<open>simp_all add: claims_wf_update\<close>)

lemma claim_history_invariant:
  assumes "\<And>op rows b rows'. op \<in> set ops \<Longrightarrow> claim_call sha marshal E op rows = (Inr b, rows') \<Longrightarrow> P rows \<Longrightarrow> P rows'"
    and "P rows"
  shows "P (claim_history sha marshal E ops rows)"
  using assms
proof (induction ops arbitrary: rows)
  case (Cons op ops)
  have "P (case claim_call sha marshal E op rows of (Inl e, _) \<Rightarrow> rows | (Inr _, rows') \<Rightarrow> rows')"
    using Cons.prems(1) [of op rows] Cons.prems(2) by (auto split: prod.splits sum.splits)
  then have "P (claim_history sha marshal E ops
      (case claim_call sha marshal E op rows of (Inl e, _) \<Rightarrow> rows | (Inr _, rows') \<Rightarrow> rows'))"
    by (rule Cons.IH [rotated]) (rule Cons.prems(1), auto)
  then show ?case by simp
qed simp

lemma claim_history_wf: "claims_wf rows \<Longrightarrow> claims_wf (claim_history sha marshal E ops rows)"
  by (rule claim_history_invariant) (auto intro: claim_call_wf)

text \<open>A response that has been stored stays.\<close>

lemma succeeded_stays:
  assumes "r \<in> set rows" and "rec_Status r = ''succeeded''"
  shows "r \<in> set (claim_history sha marshal E ops rows)"
  by (rule claim_history_invariant [where P = "\<lambda>rows. r \<in> set rows"])
    (use assms in \<open>auto intro: claim_call_keeps simp: claim_reclaimable_def\<close>)

text \<open>A lease holds against every other request until it runs out.\<close>

lemma lease_holds:
  assumes r: "r \<in> set rows" "rec_Status r = ''processing''" "rec_LockedUntil r = Some t"
    and others: "\<forall>op\<in>set ops. claim_token op \<notin> {None, Some (rec_ID r)} \<and> claim_before t op"
  shows "r \<in> set (claim_history sha marshal E ops rows)"
proof (rule claim_history_invariant [where P = "\<lambda>rows. r \<in> set rows"])
  fix op rows b rows'
  assume op: "op \<in> set ops" and run: "claim_call sha marshal E op rows = (Inr b, rows')" and "r \<in> set rows"
  then show "r \<in> set rows'"
  proof (rule_tac claim_call_keeps [OF run])
    show "\<not> claim_reclaimable (target_key sha target) h at r" if "op = ClaimStart i target verb h at"
      for i target verb h at
      using others op that r(3) by (auto simp: claim_reclaimable_def)
  qed (use others op r in auto)
qed (rule r(1))

text \<open>A token that does not hold the key never holds it again without a new claim.\<close>

lemma token_stays_out:
  assumes "\<forall>r\<in>set rows. rec_ID r = a \<longrightarrow> rec_key r \<noteq> k"
    and "\<forall>op\<in>set ops. \<forall>target verb h at. op \<noteq> ClaimStart a target verb h at"
  shows "\<forall>r\<in>set (claim_history sha marshal E ops rows). rec_ID r = a \<longrightarrow> rec_key r \<noteq> k"
proof (rule claim_history_invariant [where P = "\<lambda>rows. \<forall>r\<in>set rows. rec_ID r = a \<longrightarrow> rec_key r \<noteq> k"])
  fix op rows b rows'
  assume op: "op \<in> set ops" and run: "claim_call sha marshal E op rows = (Inr b, rows')"
    and out: "\<forall>r\<in>set rows. rec_ID r = a \<longrightarrow> rec_key r \<noteq> k"
  from run show "\<forall>r\<in>set rows'. rec_ID r = a \<longrightarrow> rec_key r \<noteq> k"
  proof (cases rule: claim_call_cases)
    case (start i target verb h at new)
    have "i \<noteq> a" using assms(2) op start(1) by blast
    then have "\<forall>r\<in>set (rows @ new). rec_ID r = a \<longrightarrow> rec_key r \<noteq> k"
      using start(2) out by auto
    then show ?thesis
      unfolding start(3) set_update_where using \<open>i \<noteq> a\<close> by auto
  qed (use out in \<open>auto simp: set_update_where\<close>)
qed (rule assms(1))

end

context claim_table_live
begin

lemma owned_count:
  assumes wf: "claims_wf rows" and upd: "sql_updates E (claim_owned a k) f rows = Inr (rows', n)"
    and ch: "\<And>r. claim_owned a k r \<Longrightarrow> f r \<noteq> r"
  shows "n = (if \<exists>r\<in>set rows. claim_owned a k r then 1 else 0)"
proof (cases "\<exists>r\<in>set rows. claim_owned a k r")
  case True
  then obtain r where r: "r \<in> set rows" "claim_owned a k r" by blast
  have "filter (claim_owned a k) rows = filter (\<lambda>x. rec_key x = rec_key r) rows"
    using wf r by (intro filter_cong) (auto simp: claim_owned_def claims_wf_def dest: distinct_key_unique)
  also have "\<dots> = [r]"
    using wf r(1) by (intro filter_key_singleton) (auto simp: claims_wf_def)
  finally show ?thesis using updates_count [OF upd ch] True by simp
next
  case False
  then have "filter (claim_owned a k) rows = []" by (auto simp: filter_empty_conv)
  with updates_count [OF upd ch] False show ?thesis by simp
qed

lemma SucceedOwned_decided:
  assumes wf: "claims_wf rows" and k: "k = (ty, actor, path, KeyHash sha key)"
  shows "SucceedOwned sha marshal E auto a ty actor path key v rows =
    (if \<exists>r\<in>set rows. claim_owned a k r
     then (Inr (), update_where (claim_owned a k) (claim_succeed auto (marshal v)) rows)
     else (Inl idempotencyClaimLost, rows))"
proof -
  obtain rows' n where upd: "sql_updates E (claim_owned a k) (claim_succeed auto (marshal v)) rows = Inr (rows', n)"
    using updates_live [of "claim_owned a k" "claim_succeed auto (marshal v)" rows] by auto
  have "claim_succeed auto (marshal v) r \<noteq> r" if "claim_owned a k r" for r
    using that by (auto simp: claim_owned_def dest: arg_cong [where f = rec_Status])
  from owned_count [OF wf upd this] updates_rows [OF upd] upd show ?thesis
    by (auto simp: SucceedOwned_def k)
qed

lemma SucceedOwned_owner:
  assumes "claims_wf rows" and "k = (ty, actor, path, KeyHash sha key)"
    and "r \<in> set rows" and "claim_owned a k r"
  shows "SucceedOwned sha marshal E auto a ty actor path key v rows =
    (Inr (), update_where (claim_owned a k) (claim_succeed auto (marshal v)) rows)"
  using assms(3,4) by (subst SucceedOwned_decided [OF assms(1,2)]) auto

lemma SucceedOwned_lost:
  assumes "claims_wf rows" and "k = (ty, actor, path, KeyHash sha key)"
    and "\<not> (\<exists>r\<in>set rows. claim_owned a k r)"
  shows "SucceedOwned sha marshal E auto a ty actor path key v rows = (Inl idempotencyClaimLost, rows)"
  using assms(3) by (subst SucceedOwned_decided [OF assms(1,2)]) auto

lemma CachedResponse_found:
  assumes wf: "claims_wf rows" and k: "k = (ty, actor, path, KeyHash sha key)"
    and r: "r \<in> set rows" "rec_key r = k" "rec_Status r = ''succeeded''" "rec_ResponseBody r = marshal v"
    and codec: "marshal v \<noteq> []" "unmarshal (marshal v) = Inr v"
  shows "CachedResponse sha unmarshal E ty actor path key rows = Inr (Some v)"
proof -
  let ?p = "\<lambda>r. rec_key r = k \<and> rec_Status r = ''succeeded''"
  obtain r' where sel: "sql_take E ?p rows = Inr r'"
    by (cases "sql_take E ?p rows") (use take_live take_missing [of ?p rows r] r in blast)+
  then have "r' = r"
    using take_row [OF sel] wf r by (auto simp: claims_wf_def dest: distinct_key_unique)
  with sel r(4) codec show ?thesis by (simp add: CachedResponse_def k)
qed

end

interpretation mem_claims: claim_table_live "mem_engine rec_clash rec_fits"
  by unfold_locales

lemma start_spec_claimed:
  assumes "claims_wf rows" and "start_spec i k verb h at rows = (Inr True, rows')"
  shows "\<exists>r\<in>set rows'. rec_ID r = i \<and> rec_key r = k \<and> rec_Status r = ''processing'' \<and>
    rec_RequestHash r = h \<and> rec_LockedUntil r = Some (at + 30 * nanos_per_second)"
proof (cases "List.find (\<lambda>r. rec_key r = k) rows")
  case None
  with assms(2) show ?thesis by (auto simp: start_spec_def)
next
  case (Some r)
  note r = find_Some_in [OF Some]
  from assms(2) Some have rows': "rows' = update_where (\<lambda>x. rec_key x = k) (claim_take i at) rows"
    and "rec_RequestHash r = h"
    by (auto simp: start_spec_def split: if_splits)
  then have "claim_take i at r \<in> set rows'" using r by (auto simp: set_update_where)
  with r \<open>rec_RequestHash r = h\<close> show ?thesis by (intro bexI [of _ "claim_take i at r"]) auto
qed

lemma start_spec_wf:
  "claims_wf rows \<Longrightarrow> start_spec i k verb h at rows = (res, rows') \<Longrightarrow> claims_wf rows'"
  by (auto simp: start_spec_def claims_wf_update claims_wf_def find_None_all map_update_where
      split: option.splits if_splits)

subsection \<open>Properties\<close>

abbreviation mem_records :: "Record engine" where
  "mem_records \<equiv> mem_engine rec_clash rec_fits"

text \<open>C18: Claiming an idempotency key is decided by the row the key has: a new key and a key whose
  lease has run out or was released are claimed with this request's token and a lease of thirty
  seconds; a key bound to another request is refused; a completed one is reported as such; and
  one that is being processed is refused, the last three without changing the table.\<close>

theorem idempotency_start_decided:
  assumes "claim_table_live E" and "claims_wf rows" and "i \<notin> rec_ID ` set rows" and "key_valid key"
    and "k = (actorType, actorID, path, KeyHash sha key)"
    and "rec_fits (claim_candidate i k verb requestHash now)"
  shows "StartAt sha E i actorType actorID verb path key requestHash now rows =
    (case List.find (\<lambda>r. rec_key r = k) rows of
        None \<Rightarrow> (Inr True, rows @ [claim_candidate i k verb requestHash now])
      | Some r \<Rightarrow>
          if rec_RequestHash r \<noteq> requestHash then (Inl idempotencyKeyReused, rows)
          else if rec_Status r = ''succeeded'' then (Inr False, rows)
          else if lease_live now r then (Inl idempotencyInProgress, rows)
          else (Inr True, update_where (\<lambda>x. rec_key x = k) (claim_take i now) rows))"
  using claim_table_live.StartAt_live [OF assms] by (simp only: start_spec_def)

theorem idempotency_start_decided_witness:
  "StartAt (\<lambda>k. k) mem_records 1 ''customer'' 7 ''POST'' ''/orders'' ''key-0001'' ''h'' 0 [] =
     (Inr True, [claim_candidate 1 (''customer'', 7, ''/orders'', ''key-0001'') ''POST'' ''h'' 0])"
proof -
  have "rec_fits (claim_candidate 1 (''customer'', 7, ''/orders'', ''key-0001'') ''POST'' ''h'' 0)"
    by (simp add: rec_fits_def claim_candidate_def)
  from idempotency_start_decided [OF mem_claims.claim_table_live_axioms _ _ _ _ this,
      where rows = "[]" and key = "''key-0001''" and sha = "\<lambda>k. k" and actorType = "''customer''"
      and actorID = 7 and path = "''/orders''"]
  show ?thesis by (simp add: claims_wf_def key_valid_def KeyHash_def)
qed


lemma demo_claim:
  "StartAt (\<lambda>k. k) mem_records 1 ''customer'' 7 ''POST'' ''/orders'' ''key-0001'' ''h'' 0 [] =
     (Inr True, [claim_candidate 1 (''customer'', 7, ''/orders'', ''key-0001'') ''POST'' ''h'' 0])"
  by (simp add: StartAt_def KeyHash_def mem_engine_def rec_fits_def claim_candidate_def rec_key_def
      update_where_def claim_reclaimable_def nanos_per_second_def)


text \<open>C17: A stale owner is fenced off: once another request has claimed the key, the earlier token
  can no longer store a response, however many calls come in between; it gets the claim-lost
  error and the table stays as it is.\<close>

theorem idempotency_stale_owner_fenced:
  assumes "claim_table_live E" and "claims_wf rows" and "b \<notin> rec_ID ` set rows" and "a \<noteq> b"
    and "StartAt sha E b actorType actorID verb path key requestHash now rows = (Inr True, rows1)"
    and "\<forall>op\<in>set ops. \<forall>target m h at. op \<noteq> ClaimStart a target m h at"
  shows "SucceedOwned sha marshal E auto a actorType actorID path key v
      (claim_history sha marshal E ops rows1) =
    (Inl idempotencyClaimLost, claim_history sha marshal E ops rows1)"
proof -
  note tab = claim_table_live.axioms(1) [OF assms(1)]
  let ?k = "(actorType, actorID, path, KeyHash sha key)"
  have spec: "start_spec b ?k verb requestHash now rows = (Inr True, rows1)"
    using claim_table.StartAt_ok [OF tab assms(2,3,5)] by simp
  have wf: "claims_wf rows1" by (rule start_spec_wf [OF assms(2) spec])
  obtain r where r: "r \<in> set rows1" "rec_ID r = b" "rec_key r = ?k"
    using start_spec_claimed [OF assms(2) spec] by blast
  then have "\<forall>r\<in>set rows1. rec_ID r = a \<longrightarrow> rec_key r \<noteq> ?k"
    using wf assms(4) by (auto simp: claims_wf_def dest: distinct_key_unique)
  from claim_table.token_stays_out [OF tab this assms(6), of sha marshal]
  show ?thesis
    by (intro claim_table_live.SucceedOwned_lost [OF assms(1) claim_table.claim_history_wf [OF tab wf] refl])
      (auto simp: claim_owned_def)
qed

theorem idempotency_stale_owner_fenced_witness:
  "fst (SucceedOwned (\<lambda>k. k) (\<lambda>v. v) mem_records 20 9 ''customer'' 7 ''/orders'' ''key-0001'' ''late''
    (claim_history (\<lambda>k. k) (\<lambda>v. v) mem_records
      [ClaimSucceed 1 (''customer'', 7, ''/orders'', ''key-0001'') 5 ''body'']
      [claim_candidate 1 (''customer'', 7, ''/orders'', ''key-0001'') ''POST'' ''h'' 0])) =
    Inl idempotencyClaimLost"
proof -
  have "SucceedOwned (\<lambda>k. k) (\<lambda>v. v) mem_records 20 9 ''customer'' 7 ''/orders'' ''key-0001'' ''late''
    (claim_history (\<lambda>k. k) (\<lambda>v. v) mem_records
      [ClaimSucceed 1 (''customer'', 7, ''/orders'', ''key-0001'') 5 ''body'']
      [claim_candidate 1 (''customer'', 7, ''/orders'', ''key-0001'') ''POST'' ''h'' 0]) =
    (Inl idempotencyClaimLost, claim_history (\<lambda>k. k) (\<lambda>v. v) mem_records
      [ClaimSucceed 1 (''customer'', 7, ''/orders'', ''key-0001'') 5 ''body'']
      [claim_candidate 1 (''customer'', 7, ''/orders'', ''key-0001'') ''POST'' ''h'' 0])"
    by (rule idempotency_stale_owner_fenced [OF mem_claims.claim_table_live_axioms _ _ _ demo_claim])
      (simp_all add: claims_wf_def)
  then show ?thesis by simp
qed



end
