(* ===== verification/Fixed_Window.thy ===== *)
theory Fixed_Window
  imports Problem Complex_Main "HOL-Library.AList" "HOL-Library.Log_Nat"
begin

text \<open>
  The rate limiter: \<open>internal/pkg/fixedwindow\<close>. \<open>Allow\<close> counts in Redis with an atomic script and falls back to a map of
  windows in the process when Redis does not answer. Redis is not code of this repository: its three commands are the
  record \<open>redis\<close>, and what a call of the script returns, or that it fails, is the parameter \<open>script\<close> of \<open>Allow\<close>. Durations are
  nanoseconds in 64 bits. \<open>time.Duration.Seconds\<close> and \<open>math.Ceil\<close> work on \<open>float64\<close>; \<open>float64\<close> is rounding to 53 significant
  bits, half to even, on the rationals.
\<close>

subsection \<open>Floating-point seconds\<close>

definition round_even :: "rat \<Rightarrow> int" where
  "round_even x =
     (let f = \<lfloor>x\<rfloor>; d = x - of_int f in
      if d < 1 / 2 then f else if 1 / 2 < d then f + 1 else if even f then f else f + 1)"

text \<open>The exponent of a positive number, the integer \<open>e\<close> with \<open>2 ^ e \<le> x < 2 ^ (e + 1)\<close>.\<close>

definition exponent :: "rat \<Rightarrow> int" where
  "exponent x = (if 1 \<le> x then int (floorlog 2 (nat \<lfloor>x\<rfloor>)) - 1 else - int (floorlog 2 (nat \<lceil>1 / x\<rceil> - 1)))"

definition float64 :: "rat \<Rightarrow> rat" where
  "float64 x = (if x \<le> 0 then x else let u = 2 powi (exponent x - 52) in of_int (round_even (x / u)) * u)"

definition duration_Seconds :: "int \<Rightarrow> rat" where
  "duration_Seconds d = float64 (float64 (of_int (d div nanos_per_second)) +
     float64 (of_int (d mod nanos_per_second) / of_int nanos_per_second))"

subsection \<open>The limiter\<close>

record Result =
  Allowed :: bool
  Degraded :: bool
  RetryAfter :: int

record localWindow =
  lw_count :: int
  lw_expiresAt :: go_time

type_synonym windows = "(string \<times> localWindow) list"

text \<open>\<open>roundRetry\<close> is applied to positive durations, for which Go's division, rounding towards zero, is \<open>div\<close>.
  \<open>time_Sub\<close> is \<open>Time.Sub\<close>, which saturates.\<close>

definition roundRetry :: "int \<Rightarrow> int" where
  "roundRetry value =
     (let seconds = \<lceil>duration_Seconds value\<rceil>; seconds' = (if seconds < 1 then 1 else seconds) in
      i64 (seconds' * nanos_per_second))"

definition durationFromMilliseconds :: "int \<Rightarrow> int \<Rightarrow> int" where
  "durationFromMilliseconds milliseconds fallback =
     (if milliseconds \<le> 0 then roundRetry fallback else roundRetry (i64 (milliseconds * nanos_per_milli)))"

definition time_Sub :: "go_time \<Rightarrow> go_time \<Rightarrow> int" where
  "time_Sub t u = max (- (2 ^ 63)) (min (2 ^ 63 - 1) (t - u))"

definition prune :: "go_time \<Rightarrow> windows \<Rightarrow> windows" where
  "prune now ws = (if 4096 < length ws then filter (\<lambda>(_, v). now < lw_expiresAt v) ws else ws)"

definition current_window :: "go_time \<Rightarrow> int \<Rightarrow> localWindow option \<Rightarrow> localWindow" where
  "current_window now window found =
     (case found of
        Some current \<Rightarrow> if now < lw_expiresAt current then current else \<lparr>lw_count = 0, lw_expiresAt = now + window\<rparr>
      | None \<Rightarrow> \<lparr>lw_count = 0, lw_expiresAt = now + window\<rparr>)"

definition counted :: "localWindow \<Rightarrow> localWindow" where
  "counted v = v\<lparr>lw_count := i64 (lw_count v + 1)\<rparr>"

definition allowLocal :: "go_time \<Rightarrow> string \<Rightarrow> int \<Rightarrow> int \<Rightarrow> windows \<Rightarrow> Result \<times> windows" where
  "allowLocal now key window limit ws =
     (let current = counted (current_window now window (map_of ws key)) in
      (\<lparr>Allowed = lw_count current \<le> limit, Degraded = False,
        RetryAfter = roundRetry (time_Sub (lw_expiresAt current) now)\<rparr>,
       prune now (AList.update key current ws)))"

text \<open>The Lua script, on the three commands of Redis.\<close>

record 'r redis =
  redis_INCR :: "string \<Rightarrow> 'r \<Rightarrow> int \<times> 'r"
  redis_PEXPIRE :: "string \<Rightarrow> int \<Rightarrow> 'r \<Rightarrow> 'r"
  redis_PTTL :: "string \<Rightarrow> 'r \<Rightarrow> int"

definition incrementScript :: "'r redis \<Rightarrow> string \<Rightarrow> int \<Rightarrow> 'r \<Rightarrow> int list \<times> 'r" where
  "incrementScript R key ms r =
     (let (count, r1) = redis_INCR R key r;
          r2 = (if count = 1 then redis_PEXPIRE R key ms r1 else r1) in
      ([count, redis_PTTL R key r2], r2))"

text \<open>\<open>script\<close> is the client together with the server: \<open>None\<close> when no client is configured.\<close>

definition limiter_Allow ::
    "(string \<Rightarrow> int \<Rightarrow> 'r \<Rightarrow> (go_error + int list) \<times> 'r) option \<Rightarrow> go_time \<Rightarrow> string \<Rightarrow> int \<Rightarrow> int \<Rightarrow>
     windows option \<times> 'r \<Rightarrow> Result \<times> windows option \<times> 'r" where
  "limiter_Allow script now key window limit = (\<lambda>(l, r).
     case l of
       None \<Rightarrow> (\<lparr>Allowed = False, Degraded = True, RetryAfter = nanos_per_second\<rparr>, None, r)
     | Some ws \<Rightarrow>
         if key = [] \<or> window \<le> 0 \<or> limit \<le> 0
         then (\<lparr>Allowed = False, Degraded = True, RetryAfter = nanos_per_second\<rparr>, Some ws, r)
         else
           let (reply, r') = (case script of None \<Rightarrow> (Inl (ErrMessage []), r) | Some f \<Rightarrow> f key (window div nanos_per_milli) r);
               fallback = (let (result, ws') = allowLocal now key window limit ws in (result\<lparr>Degraded := True\<rparr>, Some ws', r')) in
           case reply of
             Inr [count, ttl] \<Rightarrow>
               (\<lparr>Allowed = count \<le> limit, Degraded = False, RetryAfter = durationFromMilliseconds ttl window\<rparr>, Some ws, r')
           | _ \<Rightarrow> fallback)"

subsection \<open>Rounding the waiting time\<close>

lemma round_even_near: "\<bar>of_int (round_even x) - x\<bar> \<le> 1 / 2"
proof -
  have "of_int \<lfloor>x\<rfloor> \<le> x" "x < of_int \<lfloor>x\<rfloor> + 1" by linarith+
  then show ?thesis unfolding round_even_def Let_def by (auto simp: abs_le_iff field_simps)
qed

lemma float64_near:
  assumes "0 < x" and "exponent x - 52 \<le> - int k"
  shows "float64 x \<le> x + 1 / 2 ^ Suc k" and "x - 1 / 2 ^ Suc k \<le> float64 x"
proof -
  define u :: rat where "u = 2 powi (exponent x - 52)"
  have u: "0 < u" by (simp add: u_def)
  have "float64 x - x = (of_int (round_even (x / u)) - x / u) * u"
    using assms(1) u by (simp add: float64_def u_def [symmetric] Let_def field_simps)
  then have "\<bar>float64 x - x\<bar> = \<bar>of_int (round_even (x / u)) - x / u\<bar> * u" using u by (simp add: abs_mult)
  also have "\<dots> \<le> 1 / 2 * u" using round_even_near u by (intro mult_right_mono) auto
  also have "u \<le> 2 powi (- int k)" unfolding u_def using assms(2) by (intro power_int_increasing) auto
  finally have "\<bar>float64 x - x\<bar> \<le> 1 / 2 ^ Suc k" by (simp add: power_int_minus field_simps)
  then show "float64 x \<le> x + 1 / 2 ^ Suc k" "x - 1 / 2 ^ Suc k \<le> float64 x" by linarith+
qed

lemma exponent_less:
  assumes "0 < x" and "x < 2 ^ n" and "0 < n"
  shows "exponent x < int n"
proof (cases "1 \<le> x")
  case True
  then have "0 < nat \<lfloor>x\<rfloor>" "nat \<lfloor>x\<rfloor> < 2 ^ n" using assms(2) by (auto simp: floor_less_iff nat_less_iff)
  then have "floorlog 2 (nat \<lfloor>x\<rfloor>) \<le> n" by (simp add: floorlog_leI)
  then show ?thesis using True by (simp add: exponent_def)
qed (use assms in \<open>simp add: exponent_def\<close>)

lemma exponent_negative:
  assumes "0 < x" and "x < 1"
  shows "exponent x \<le> -1"
proof -
  define n where "n = \<lceil>1 / x\<rceil>"
  have "1 < n" unfolding n_def less_ceiling_iff using assms by simp
  then obtain k where "nat n - 1 = Suc k" by (cases "nat n - 1") auto
  then have "0 < floorlog 2 (nat n - 1)" by (simp add: floorlog_def)
  then show ?thesis using assms by (simp add: exponent_def n_def)
qed

lemma float64_zero [simp]: "float64 0 = 0"
  by (simp add: float64_def)

lemma float64_nat:
  assumes "n < 2 ^ 53"
  shows "float64 (of_nat n) = of_nat n"
proof (cases "n = 0")
  case False
  define e where "e = exponent (of_nat n)"
  have "of_nat n < (2 ^ 53 :: rat)" using assms by (metis of_nat_less_iff of_nat_numeral of_nat_power)
  then have "e < 53" using False exponent_less [of "of_nat n" 53] by (simp add: e_def)
  then have "\<exists>m. e - 52 = - int m" by presburger
  then obtain m where m: "e - 52 = - int m" ..
  define u :: rat where "u = 2 powi (e - 52)"
  have u: "0 < u" "u * 2 ^ m = 1" unfolding u_def m by (simp_all add: power_int_minus)
  then have "of_nat n / u = of_int (int n * 2 ^ m)" by (simp add: field_simps)
  then have "of_int (round_even (of_nat n / u)) = of_nat n / u" unfolding round_even_def Let_def by simp
  then show ?thesis using False u unfolding float64_def e_def [symmetric] u_def [symmetric] Let_def by simp
qed simp

text \<open>For durations up to \<open>2 ^ 22\<close> seconds the rounding of the fraction never reaches a whole second.\<close>

lemma ceiling_seconds:
  assumes "0 \<le> d" and "d < 2 ^ 22 * nanos_per_second"
  shows "\<lceil>duration_Seconds d\<rceil> = (d + nanos_per_second - 1) div nanos_per_second"
proof -
  define s n where "s = d div nanos_per_second" and "n = d mod nanos_per_second"
  have d: "d = s * nanos_per_second + n" by (simp add: s_def n_def)
  have s: "0 \<le> s" "s < 2 ^ 22" and n: "0 \<le> n" "n < nanos_per_second"
    using assms by (auto simp: s_def n_def nanos_per_second_def)
  have fs: "float64 (of_int s) = of_int s" using float64_nat [of "nat s"] s by simp
  show ?thesis
  proof (cases "n = 0")
    case True
    then show ?thesis using fs d s by (simp add: duration_Seconds_def s_def [symmetric] n_def [symmetric] nanos_per_second_def)
  next
    case False
    define x :: rat where "x = of_int n / of_int nanos_per_second"
    have x: "1 / 10 ^ 9 \<le> x" "x \<le> 1 - 1 / 10 ^ 9" using n False by (auto simp: x_def nanos_per_second_def field_simps)
    have "exponent x \<le> - 1" using x by (intro exponent_negative) (auto simp: field_simps)
    then have "float64 x \<le> x + 1 / 2 ^ Suc 53" "x - 1 / 2 ^ Suc 53 \<le> float64 x"
      using x float64_near [of x 53] by auto
    then have q: "1 / 2 ^ 30 < float64 x" "float64 x < 1 - 1 / 2 ^ 30" using x by (simp_all add: field_simps)
    define y where "y = of_int s + float64 x"
    have y: "0 < y" "y < 2 ^ 22" using q s by (auto simp: y_def)
    have "float64 y \<le> y + 1 / 2 ^ Suc 31" "y - 1 / 2 ^ Suc 31 \<le> float64 y"
      using y exponent_less [of y 22] float64_near [of y 31] by auto
    then have "of_int s < float64 y" "float64 y < of_int s + 1" using q by (simp_all add: y_def field_simps)
    then have "\<lceil>float64 y\<rceil> = s + 1" by (intro ceiling_unique) auto
    moreover have "duration_Seconds d = float64 y"
      by (simp add: duration_Seconds_def y_def x_def s_def n_def fs [unfolded s_def])
    moreover have "(d + nanos_per_second - 1) div nanos_per_second = s + 1"
      using d n False by (auto simp: nanos_per_second_def)
    ultimately show ?thesis by simp
  qed
qed

lemma roundRetry_enough:
  assumes "0 < d" and "d < 2 ^ 22 * nanos_per_second"
  shows "d \<le> roundRetry d" and "roundRetry d < d + nanos_per_second"
proof -
  let ?c = "(d + nanos_per_second - 1) div nanos_per_second"
  have c: "1 \<le> ?c" "?c \<le> 2 ^ 22" using assms by (auto simp: nanos_per_second_def)
  then have "roundRetry d = ?c * nanos_per_second"
    using ceiling_seconds [of d] assms by (simp add: roundRetry_def Let_def nanos_per_second_def)
  then show "d \<le> roundRetry d" "roundRetry d < d + nanos_per_second"
    by (auto simp: nanos_per_second_def)
qed

subsection \<open>Sequences of calls\<close>

record limiter_call =
  lc_now :: go_time
  lc_key :: string
  lc_window :: int
  lc_limit :: int

fun serve_calls :: "limiter_call list \<Rightarrow> windows \<Rightarrow> Result list \<times> windows" where
  "serve_calls [] ws = ([], ws)"
| "serve_calls (c # cs) ws =
     (let (r, ws1) = allowLocal (lc_now c) (lc_key c) (lc_window c) (lc_limit c) ws;
          (rs, ws2) = serve_calls cs ws1 in (r # rs, ws2))"

text \<open>The reference: one window per key, never forgotten.\<close>

type_synonym window_map = "string \<Rightarrow> localWindow option"

definition ref_allow :: "limiter_call \<Rightarrow> window_map \<Rightarrow> Result \<times> window_map" where
  "ref_allow c W =
     (let current = counted (current_window (lc_now c) (lc_window c) (W (lc_key c))) in
      (\<lparr>Allowed = lw_count current \<le> lc_limit c, Degraded = False,
        RetryAfter = roundRetry (time_Sub (lw_expiresAt current) (lc_now c))\<rparr>, W(lc_key c \<mapsto> current)))"

fun ref_serve :: "limiter_call list \<Rightarrow> window_map \<Rightarrow> Result list \<times> window_map" where
  "ref_serve [] W = ([], W)"
| "ref_serve (c # cs) W = (let (r, W1) = ref_allow c W; (rs, W2) = ref_serve cs W1 in (r # rs, W2))"

text \<open>Two states agree at a time when they have the same windows that are still open then.\<close>

definition open_window :: "go_time \<Rightarrow> localWindow option \<Rightarrow> localWindow option" where
  "open_window t v = (case v of Some x \<Rightarrow> if t < lw_expiresAt x then Some x else None | None \<Rightarrow> None)"

definition same_open :: "go_time \<Rightarrow> windows \<Rightarrow> window_map \<Rightarrow> bool" where
  "same_open t ws W \<longleftrightarrow> distinct (map fst ws) \<and> (\<forall>k. open_window t (map_of ws k) = open_window t (W k))"

lemma current_window_open: "current_window now d v = current_window now d (open_window now v)"
  by (simp add: current_window_def open_window_def split: option.splits)

lemma open_window_later: "t \<le> u \<Longrightarrow> open_window t v = open_window t w \<Longrightarrow> open_window u v = open_window u w"
  by (auto simp: open_window_def split: option.splits if_splits)

lemma map_of_filter_values:
  "distinct (map fst ws) \<Longrightarrow>
     map_of (filter (\<lambda>(_, v). P v) ws) k = (case map_of ws k of Some v \<Rightarrow> if P v then Some v else None | None \<Rightarrow> None)"
proof (induction ws)
  case (Cons x ws)
  then have "map_of ws (fst x) = None" by (simp add: map_of_eq_None_iff)
  then show ?case using Cons by (cases x) auto
qed simp

lemma open_window_prune:
  "distinct (map fst ws) \<Longrightarrow> open_window now (map_of (prune now ws) k) = open_window now (map_of ws k)"
  by (simp add: prune_def open_window_def map_of_filter_values split: option.splits)

lemma distinct_prune: "distinct (map fst ws) \<Longrightarrow> distinct (map fst (prune now ws))"
  by (simp add: prune_def distinct_map_filter)

lemma allow_same:
  assumes "same_open (lc_now c) ws W"
  shows "fst (allowLocal (lc_now c) (lc_key c) (lc_window c) (lc_limit c) ws) = fst (ref_allow c W)"
    and "same_open (lc_now c) (snd (allowLocal (lc_now c) (lc_key c) (lc_window c) (lc_limit c) ws)) (snd (ref_allow c W))"
proof -
  have same: "current_window (lc_now c) (lc_window c) (map_of ws (lc_key c)) = current_window (lc_now c) (lc_window c) (W (lc_key c))"
    using assms current_window_open [of "lc_now c" "lc_window c"] by (metis same_open_def)
  then show "fst (allowLocal (lc_now c) (lc_key c) (lc_window c) (lc_limit c) ws) = fst (ref_allow c W)"
    by (simp add: allowLocal_def ref_allow_def Let_def)
  show "same_open (lc_now c) (snd (allowLocal (lc_now c) (lc_key c) (lc_window c) (lc_limit c) ws)) (snd (ref_allow c W))"
    using assms same
    by (simp add: same_open_def allowLocal_def ref_allow_def Let_def distinct_prune distinct_update open_window_prune
        update_conv' fun_upd_apply)
qed

lemma same_open_later: "same_open t ws W \<Longrightarrow> t \<le> u \<Longrightarrow> same_open u ws W"
  unfolding same_open_def using open_window_later by blast

text \<open>Runs one call at a time, without the pairs.\<close>

abbreviation local_step :: "limiter_call \<Rightarrow> windows \<Rightarrow> Result \<times> windows" where
  "local_step c \<equiv> allowLocal (lc_now c) (lc_key c) (lc_window c) (lc_limit c)"

lemma serve_calls_Cons:
  "fst (serve_calls (c # cs) ws) = fst (local_step c ws) # fst (serve_calls cs (snd (local_step c ws)))"
  "snd (serve_calls (c # cs) ws) = snd (serve_calls cs (snd (local_step c ws)))"
  by (simp_all add: Let_def split: prod.splits)

lemma ref_serve_Cons:
  "fst (ref_serve (c # cs) W) = fst (ref_allow c W) # fst (ref_serve cs (snd (ref_allow c W)))"
  "snd (ref_serve (c # cs) W) = snd (ref_serve cs (snd (ref_allow c W)))"
  by (simp_all add: Let_def split: prod.splits)

declare serve_calls.simps(2) [simp del] ref_serve.simps(2) [simp del]
declare serve_calls_Cons [simp] ref_serve_Cons [simp]

lemma serve_same:
  assumes "sorted (t # map lc_now cs)" and "same_open t ws W"
  shows "fst (serve_calls cs ws) = fst (ref_serve cs W) \<and>
    same_open (last (t # map lc_now cs)) (snd (serve_calls cs ws)) (snd (ref_serve cs W))"
  using assms
proof (induction cs arbitrary: t ws W)
  case (Cons c cs)
  have "same_open (lc_now c) ws W" by (rule same_open_later [OF Cons.prems(2)]) (use Cons.prems(1) in simp)
  note step = allow_same [OF this]
  have "sorted (lc_now c # map lc_now cs)" using Cons.prems by simp
  from Cons.IH [OF this step(2)] step(1) show ?case by simp
qed simp

lemma ref_serve_append:
  "fst (ref_serve (cs @ ds) W) = fst (ref_serve cs W) @ fst (ref_serve ds (snd (ref_serve cs W)))"
  "snd (ref_serve (cs @ ds) W) = snd (ref_serve ds (snd (ref_serve cs W)))"
  by (induction cs arbitrary: W) simp_all

lemma length_ref_serve [simp]: "length (fst (ref_serve cs W)) = length cs"
  by (induction cs arbitrary: W) simp_all

subsection \<open>How many calls are allowed\<close>

definition allowed_for :: "string \<Rightarrow> limiter_call list \<Rightarrow> Result list \<Rightarrow> nat" where
  "allowed_for k cs rs = length (filter (\<lambda>(c, r). lc_key c = k \<and> Allowed r) (zip cs rs))"

lemma allowed_for_simps [simp]:
  "allowed_for k [] rs = 0"
  "allowed_for k (c # cs) (r # rs) = (if lc_key c = k \<and> Allowed r then Suc (allowed_for k cs rs) else allowed_for k cs rs)"
  by (simp_all add: allowed_for_def)

text \<open>The count of a key lies between 0 and the number of calls so far.\<close>

definition counts_within :: "int \<Rightarrow> window_map \<Rightarrow> bool" where
  "counts_within m W \<longleftrightarrow> (\<forall>k v. W k = Some v \<longrightarrow> 0 \<le> lw_count v \<and> lw_count v \<le> m)"

lemma current_window_count:
  "counts_within m W \<Longrightarrow> 0 \<le> m \<Longrightarrow> 0 \<le> lw_count (current_window t d (W k)) \<and> lw_count (current_window t d (W k)) \<le> m"
  by (auto simp: current_window_def counts_within_def split: option.splits)

lemma counted_count: "0 \<le> lw_count v \<Longrightarrow> lw_count v < 2 ^ 63 - 1 \<Longrightarrow> lw_count (counted v) = lw_count v + 1"
  by (simp add: counted_def)

lemma counted_expires [simp]: "lw_expiresAt (counted v) = lw_expiresAt v"
  by (simp add: counted_def)

lemma counts_step:
  assumes "counts_within m W" and "0 \<le> m" and "m < 2 ^ 63 - 1"
  shows "counts_within (m + 1) (snd (ref_allow c W))"
proof -
  let ?v = "current_window (lc_now c) (lc_window c) (W (lc_key c))"
  have "0 \<le> lw_count ?v" "lw_count ?v \<le> m" using current_window_count [OF assms(1,2)] by auto
  then have "0 \<le> lw_count (counted ?v)" "lw_count (counted ?v) \<le> m + 1" using assms(3) counted_count [of ?v] by auto
  moreover have "counts_within (m + 1) W" using assms(1) unfolding counts_within_def by fastforce
  ultimately show ?thesis by (simp add: counts_within_def ref_allow_def Let_def)
qed

lemma counts_serve:
  "counts_within m W \<Longrightarrow> 0 \<le> m \<Longrightarrow> m + int (length cs) < 2 ^ 63 \<Longrightarrow> counts_within (m + int (length cs)) (snd (ref_serve cs W))"
proof (induction cs arbitrary: m W)
  case (Cons c cs)
  have "counts_within (m + 1) (snd (ref_allow c W))" using Cons.prems by (intro counts_step) auto
  from Cons.IH [OF this] Cons.prems show ?case by (simp add: add.assoc)
qed simp

text \<open>While one window is open, at most the rest of the limit is allowed.\<close>

lemma allowed_in_window:
  assumes "W k = Some v" and "0 \<le> lw_count v" and "lw_count v + int (length cs) < 2 ^ 63"
    and "\<And>c. c \<in> set cs \<Longrightarrow> lc_key c = k \<Longrightarrow> lc_now c < lw_expiresAt v \<and> lc_limit c = n"
  shows "allowed_for k cs (fst (ref_serve cs W)) \<le> nat (n - lw_count v)"
  using assms
proof (induction cs arbitrary: W v)
  case (Cons c cs)
  show ?case
  proof (cases "lc_key c = k")
    case False
    then have "snd (ref_allow c W) k = Some v" using Cons.prems(1) by (simp add: ref_allow_def Let_def)
    from Cons.IH [where W = "snd (ref_allow c W)", OF this] Cons.prems False show ?thesis by simp
  next
    case True
    then have c: "lc_now c < lw_expiresAt v" "lc_limit c = n" using Cons.prems(4) by auto
    then have cur: "current_window (lc_now c) (lc_window c) (W k) = v" using Cons.prems(1) by (simp add: current_window_def)
    have count: "lw_count (counted v) = lw_count v + 1" using Cons.prems(2,3) by (intro counted_count) auto
    have "snd (ref_allow c W) k = Some (counted v)" using True cur by (simp add: ref_allow_def Let_def)
    from Cons.IH [where W = "snd (ref_allow c W)", OF this] Cons.prems count have "allowed_for k cs (fst (ref_serve cs (snd (ref_allow c W)))) \<le> nat (n - lw_count v - 1)"
      by (simp add: algebra_simps)
    moreover have "Allowed (fst (ref_allow c W)) \<longleftrightarrow> lw_count v + 1 \<le> n"
      using True cur c count by (simp add: ref_allow_def Let_def)
    ultimately show ?thesis using True by auto
  qed
qed simp

text \<open>Calls within one window length meet at most two windows.\<close>

lemma allowed_in_span:
  assumes "counts_within m W" and "0 \<le> m" and "m + int (length cs) < 2 ^ 63" and "0 \<le> n"
    and "\<And>c. c \<in> set cs \<Longrightarrow> lc_key c = k \<Longrightarrow> t \<le> lc_now c \<and> lc_now c < t + d \<and> lc_window c = d \<and> lc_limit c = n"
  shows "allowed_for k cs (fst (ref_serve cs W)) \<le> nat n + (case W k of Some v \<Rightarrow> nat (n - lw_count v) | None \<Rightarrow> 0)"
  using assms
proof (induction cs arbitrary: m W)
  case (Cons c cs)
  have later: "counts_within (m + 1) (snd (ref_allow c W))" using Cons.prems by (intro counts_step) auto
  show ?case
  proof (cases "lc_key c = k")
    case False
    then have "snd (ref_allow c W) k = W k" by (simp add: ref_allow_def Let_def)
    with Cons.IH [OF later] Cons.prems False show ?thesis by simp
  next
    case True
    then have c: "t \<le> lc_now c" "lc_now c < t + d" "lc_window c = d" "lc_limit c = n" using Cons.prems(5) by auto
    let ?v = "current_window (lc_now c) d (W k)"
    have v: "0 \<le> lw_count ?v" "lw_count ?v \<le> m" using current_window_count [OF Cons.prems(1,2)] by auto
    then have count: "lw_count (counted ?v) = lw_count ?v + 1" using Cons.prems(3) by (intro counted_count) auto
    have state: "snd (ref_allow c W) k = Some (counted ?v)" using True c by (simp add: ref_allow_def Let_def)
    have allowed: "Allowed (fst (ref_allow c W)) \<longleftrightarrow> lw_count ?v + 1 \<le> n" using True c count by (simp add: ref_allow_def Let_def)
    have in_span: "x \<in> set cs \<Longrightarrow> lc_key x = k \<Longrightarrow> lc_now x < lc_now c + d \<and> lc_limit x = n" for x
      using Cons.prems(5) [of x] c(1) by auto
    show ?thesis
    proof (cases "open_window (lc_now c) (W k)")
      case None
      then have fresh: "lw_count ?v = 0" "lw_expiresAt ?v = lc_now c + d"
        using current_window_open [of "lc_now c" d "W k"] by (simp_all add: current_window_def)
      have "allowed_for k cs (fst (ref_serve cs (snd (ref_allow c W)))) \<le> nat (n - 1)"
        using allowed_in_window [where W = "snd (ref_allow c W)" and v = "counted ?v" and cs = cs and n = n, OF state] count fresh
          Cons.prems(2,3) in_span by simp
      then show ?thesis using allowed fresh True by auto
    next
      case (Some x)
      then have x: "W k = Some x" "?v = x" by (auto simp: open_window_def current_window_def split: option.splits if_splits)
      from Cons.IH [OF later] Cons.prems state count x
      have "allowed_for k cs (fst (ref_serve cs (snd (ref_allow c W)))) \<le> nat n + nat (n - lw_count x - 1)"
        by (simp add: algebra_simps)
      then show ?thesis using allowed x True by auto
    qed
  qed
qed simp

lemma serve_is_reference:
  assumes "sorted (map lc_now cs)"
  shows "fst (serve_calls cs []) = fst (ref_serve cs (\<lambda>_. None))"
proof (cases cs)
  case (Cons c ds)
  then have "sorted (lc_now c # map lc_now cs)" using assms by simp
  moreover have "same_open (lc_now c) [] (\<lambda>_. None)" by (simp add: same_open_def)
  ultimately show ?thesis using serve_same by blast
qed simp

subsection \<open>Waiting\<close>

definition expires_within :: "int \<Rightarrow> go_time \<Rightarrow> window_map \<Rightarrow> bool" where
  "expires_within B t W \<longleftrightarrow> (\<forall>k v. W k = Some v \<longrightarrow> lw_expiresAt v < t + B)"

lemma current_window_expires:
  assumes "expires_within B t W" and "t \<le> now" and "0 < d" and "d < B"
  shows "now < lw_expiresAt (current_window now d (W k))" and "lw_expiresAt (current_window now d (W k)) < now + B"
  using assms unfolding current_window_def expires_within_def by (auto split: option.splits) fastforce

lemma expires_serve:
  assumes "expires_within B t W" and "sorted (t # map lc_now cs)" and "\<And>c. c \<in> set cs \<Longrightarrow> 0 < lc_window c \<and> lc_window c < B"
  shows "expires_within B (last (t # map lc_now cs)) (snd (ref_serve cs W))"
  using assms
proof (induction cs arbitrary: t W)
  case (Cons c cs)
  have c: "t \<le> lc_now c" "0 < lc_window c" "lc_window c < B" using Cons.prems by auto
  have "expires_within B (lc_now c) W" using Cons.prems(1) c(1) unfolding expires_within_def by fastforce
  then have "expires_within B (lc_now c) (snd (ref_allow c W))"
    using current_window_expires(2) [OF Cons.prems(1) c] by (simp add: expires_within_def ref_allow_def Let_def)
  from Cons.IH [OF this] Cons.prems show ?case by simp
qed simp

lemma ref_serve_other:
  "(\<And>c. c \<in> set cs \<Longrightarrow> lc_key c \<noteq> k) \<Longrightarrow> snd (ref_serve cs W) k = W k"
proof (induction cs arbitrary: W)
  case (Cons c cs)
  then have "lc_key c \<noteq> k" by simp
  then have "snd (ref_allow c W) k = W k" by (auto simp: ref_allow_def Let_def)
  then show ?case using Cons by simp
qed simp

lemma ref_retry:
  assumes "expires_within (2 ^ 22 * nanos_per_second) t W" and "t \<le> lc_now c" and "0 < lc_window c"
    and "lc_window c < 2 ^ 22 * nanos_per_second"
  shows "\<exists>v. snd (ref_allow c W) (lc_key c) = Some v \<and> lw_expiresAt v \<le> lc_now c + RetryAfter (fst (ref_allow c W))"
proof -
  let ?v = "current_window (lc_now c) (lc_window c) (W (lc_key c))"
  have "lc_now c < lw_expiresAt ?v" "lw_expiresAt ?v < lc_now c + 2 ^ 22 * nanos_per_second"
    using current_window_expires [OF assms] by auto
  then have "0 < lw_expiresAt ?v - lc_now c" "lw_expiresAt ?v - lc_now c < 2 ^ 22 * nanos_per_second" by auto
  moreover from this have "time_Sub (lw_expiresAt ?v) (lc_now c) = lw_expiresAt ?v - lc_now c"
    by (simp add: time_Sub_def nanos_per_second_def)
  ultimately have "lw_expiresAt ?v - lc_now c \<le> RetryAfter (fst (ref_allow c W))"
    using roundRetry_enough(1) by (simp add: ref_allow_def Let_def)
  then show ?thesis by (intro exI [of _ "counted ?v"]) (simp add: ref_allow_def Let_def)
qed

subsection \<open>Properties\<close>

text \<open>Forgetting windows that have run out, once there are more than 4096, is not observable: on any sequence of calls in
  time order the in-process limiter answers as a limiter that keeps every window for ever.\<close>

theorem limiter_prune_unobservable:
  assumes "sorted (map lc_now cs)"
  shows "fst (serve_calls cs []) = fst (ref_serve cs (\<lambda>_. None))"
  by (rule serve_is_reference [OF assms])

definition demo_call :: "go_time \<Rightarrow> limiter_call" where
  "demo_call t = \<lparr>lc_now = t, lc_key = ''k'', lc_window = 60 * nanos_per_second, lc_limit = 2\<rparr>"

theorem limiter_prune_unobservable_witness:
  "map Allowed (fst (ref_serve [demo_call 5, demo_call 6, demo_call 7] (\<lambda>_. None))) = [True, True, False]"
proof -
  have "map Allowed (fst (serve_calls [demo_call 5, demo_call 6, demo_call 7] [])) = [True, True, False]"
    by (simp add: allowLocal_def demo_call_def current_window_def counted_def prune_def nanos_per_second_def Let_def)
  then show ?thesis using limiter_prune_unobservable [of "[demo_call 5, demo_call 6, demo_call 7]"] by (simp add: demo_call_def)
qed

text \<open>C38: Within any span as long as the window, the in-process limiter lets at most twice the limit through for a key, whatever
  was called before and whatever other keys are used: the calls meet at most two windows.\<close>

theorem limiter_burst_bound:
  assumes "sorted (map lc_now (before @ calls))" and "int (length (before @ calls)) < 2 ^ 63" and "0 \<le> n"
    and "\<And>c. c \<in> set calls \<Longrightarrow> lc_key c = k \<Longrightarrow> t \<le> lc_now c \<and> lc_now c < t + d \<and> lc_window c = d \<and> lc_limit c = n"
  shows "allowed_for k calls (drop (length before) (fst (serve_calls (before @ calls) []))) \<le> 2 * nat n"
proof -
  let ?W = "snd (ref_serve before (\<lambda>_. None))"
  have "counts_within (int (length before)) ?W"
    using counts_serve [of 0 "\<lambda>_. None" before] assms(2) by (simp add: counts_within_def)
  then have "allowed_for k calls (fst (ref_serve calls ?W)) \<le> nat n + (case ?W k of Some v \<Rightarrow> nat (n - lw_count v) | None \<Rightarrow> 0)"
    using assms(2-4) by (intro allowed_in_span) auto
  moreover have "(case ?W k of Some v \<Rightarrow> nat (n - lw_count v) | None \<Rightarrow> 0) \<le> nat n"
    using \<open>counts_within _ ?W\<close> by (auto simp: counts_within_def split: option.splits intro!: nat_mono)
  ultimately show ?thesis using serve_is_reference [OF assms(1)] by (simp add: ref_serve_append)
qed

theorem limiter_burst_bound_witness:
  "allowed_for ''k'' [demo_call 6, demo_call 7, demo_call 8] (drop 1 (fst (serve_calls [demo_call 5, demo_call 6, demo_call 7, demo_call 8] []))) \<le> 4"
  using limiter_burst_bound [of "[demo_call 5]" "[demo_call 6, demo_call 7, demo_call 8]" 2 "''k''" 6 "60 * nanos_per_second"]
  by (simp add: demo_call_def nanos_per_second_def)

text \<open>C39: A caller of the in-process limiter that waits as long as it was told is let through: when the key is not used by anybody
  else in between, a call \<open>RetryAfter\<close> later is allowed, for windows below \<open>2 ^ 22\<close> seconds.\<close>

theorem limiter_retry_allowed:
  assumes "sorted (map lc_now (before @ c # others @ [again]))"
    and "\<And>x. x \<in> set (before @ [c]) \<Longrightarrow> 0 < lc_window x \<and> lc_window x < 2 ^ 22 * nanos_per_second"
    and "\<And>x. x \<in> set others \<Longrightarrow> lc_key x \<noteq> lc_key c" and "lc_key again = lc_key c" and "1 \<le> lc_limit again"
    and "lc_now c + RetryAfter (fst (serve_calls (before @ c # others @ [again]) []) ! length before) \<le> lc_now again"
  shows "Allowed (last (fst (serve_calls (before @ c # others @ [again]) [])))"
proof -
  let ?t = "lc_now (hd (before @ [c]))" and ?W = "snd (ref_serve before (\<lambda>_. None))"
  let ?W1 = "snd (ref_allow c ?W)"
  have before: "sorted (map lc_now before)" "\<And>x. x \<in> set before \<Longrightarrow> lc_now x \<le> lc_now c"
    using assms(1) by (simp_all add: sorted_append)
  have order: "sorted (?t # map lc_now before)" using before(1) by (cases before) auto
  have "last (?t # map lc_now before) \<le> lc_now c" using before(2) by (cases before rule: rev_cases) auto
  note order = order this
  have "expires_within (2 ^ 22 * nanos_per_second) (last (?t # map lc_now before)) ?W"
    using expires_serve [of "2 ^ 22 * nanos_per_second" ?t "\<lambda>_. None" before] order(1) assms(2) by (simp add: expires_within_def)
  then obtain v where v: "?W1 (lc_key c) = Some v" "lw_expiresAt v \<le> lc_now c + RetryAfter (fst (ref_allow c ?W))"
    using ref_retry order(2) assms(2) [of c] by fastforce
  have run: "fst (serve_calls (before @ c # others @ [again]) []) = fst (ref_serve before (\<lambda>_. None)) @ fst (ref_allow c ?W) #
      fst (ref_serve others ?W1) @ [fst (ref_allow again (snd (ref_serve others ?W1)))]"
    using serve_is_reference [OF assms(1)] by (simp add: ref_serve_append)
  then have "lw_expiresAt v \<le> lc_now again" using v(2) assms(6) by (simp add: nth_append)
  moreover have "snd (ref_serve others ?W1) (lc_key again) = Some v" using ref_serve_other [of others "lc_key c" ?W1] assms(3,4) v(1) by simp
  ultimately show ?thesis using run assms(5) by (simp add: ref_allow_def Let_def current_window_def counted_def)
qed

theorem limiter_retry_allowed_witness:
  "Allowed (last (fst (serve_calls [demo_call 5, demo_call 6, demo_call 7, demo_call (7 + 60 * nanos_per_second)] [])))"
proof -
  have retry: "roundRetry (59999999998) = 60000000000"
    using ceiling_seconds [of 59999999998] by (simp add: roundRetry_def nanos_per_second_def)
  show ?thesis
    using limiter_retry_allowed [of "[demo_call 5, demo_call 6]" "demo_call 7" "[]" "demo_call (7 + 60 * nanos_per_second)"] retry
    by (simp add: demo_call_def allowLocal_def current_window_def counted_def prune_def nanos_per_second_def time_Sub_def Let_def)
qed

subsection \<open>Counting in Redis\<close>

text \<open>What the script relies on: \<open>INCR\<close> counts an absent key as 0, answers the new value and keeps the expiry of the key;
  \<open>PEXPIRE\<close> sets the time the key has left, and \<open>PTTL\<close> reads it. \<open>value_of\<close> is the value of a key.\<close>

locale redis_counter =
  fixes R :: "'r redis" and value_of :: "string \<Rightarrow> 'r \<Rightarrow> int"
  assumes incr: "redis_INCR R k r = (n, r') \<Longrightarrow> n = value_of k r + 1 \<and> value_of k r' = n \<and> redis_PTTL R k r' = redis_PTTL R k r"
    and pexpire: "0 < ms \<Longrightarrow> value_of k (redis_PEXPIRE R k ms r) = value_of k r \<and> redis_PTTL R k (redis_PEXPIRE R k ms r) = ms"
begin

lemma script_count:
  assumes "incrementScript R k ms r = (reply, r')" and "0 < ms"
  shows "\<exists>ttl. reply = [value_of k r + 1, ttl]" and "value_of k r' = value_of k r + 1"
proof -
  obtain n r1 where step: "redis_INCR R k r = (n, r1)" by (cases "redis_INCR R k r")
  note incr = incr [OF step]
  show "\<exists>ttl. reply = [value_of k r + 1, ttl]" "value_of k r' = value_of k r + 1"
    using assms incr step pexpire [OF assms(2), of k r1] by (auto simp: incrementScript_def Let_def split: if_splits)
qed

text \<open>The calls of one window: the results of \<open>m\<close> calls of \<open>Allow\<close> in a row.\<close>

lemma allow_counts:
  fixes ws :: windows
  defines "client \<equiv> Some (\<lambda>k ms r. let (reply, r') = incrementScript R k ms r in (Inr reply, r'))"
  assumes "key \<noteq> []" and "nanos_per_milli \<le> window" and "0 < limit"
  shows "\<exists>r' retry. limiter_Allow client now key window limit (Some ws, r) =
      (\<lparr>Allowed = value_of key r + 1 \<le> limit, Degraded = False, RetryAfter = retry\<rparr>, Some ws, r') \<and> value_of key r' = value_of key r + 1"
proof -
  obtain reply r' where run: "incrementScript R key (window div nanos_per_milli) r = (reply, r')" by fastforce
  have ms: "0 < window div nanos_per_milli" "0 < window" using assms(3) by (simp_all add: pos_imp_zdiv_pos_iff nanos_per_milli_def)
  obtain ttl where "reply = [value_of key r + 1, ttl]" and "value_of key r' = value_of key r + 1"
    using script_count [OF run ms(1)] by auto
  then show ?thesis using assms(2,4) run ms(2) by (simp add: limiter_Allow_def client_def)
qed

end

text \<open>A store that keeps a value and the time left for each key.\<close>

definition mem_redis :: "(string \<Rightarrow> int \<times> int) redis" where
  "mem_redis = \<lparr>redis_INCR = (\<lambda>k r. (fst (r k) + 1, r(k := (fst (r k) + 1, snd (r k))))),
     redis_PEXPIRE = (\<lambda>k ms r. r(k := (fst (r k), ms))), redis_PTTL = (\<lambda>k r. snd (r k))\<rparr>"

interpretation mem_redis: redis_counter mem_redis "\<lambda>k r. fst (r k)"
  by unfold_locales (auto simp: mem_redis_def)

text \<open>Several calls in a row.\<close>

fun allow_many ::
    "(string \<Rightarrow> int \<Rightarrow> 'r \<Rightarrow> (go_error + int list) \<times> 'r) option \<Rightarrow> go_time list \<Rightarrow> string \<Rightarrow> int \<Rightarrow> int \<Rightarrow>
     windows option \<times> 'r \<Rightarrow> Result list" where
  "allow_many f [] key window limit s = []"
| "allow_many f (t # ts) key window limit s =
     (let (r, s') = limiter_Allow f t key window limit s in r # allow_many f ts key window limit s')"

definition redis_client :: "'r redis \<Rightarrow> (string \<Rightarrow> int \<Rightarrow> 'r \<Rightarrow> (go_error + int list) \<times> 'r) option" where
  "redis_client R = Some (\<lambda>k ms r. let (reply, r') = incrementScript R k ms r in (Inr reply, r'))"

lemma allow_many_counts:
  assumes "redis_counter R value_of" and "key \<noteq> []" and "nanos_per_milli \<le> window" and "0 < limit"
  shows "map Allowed (allow_many (redis_client R) ts key window limit (Some ws, r)) =
      map (\<lambda>i. value_of key r + int i + 1 \<le> limit) [0..<length ts] \<and>
    list_all (\<lambda>x. \<not> Degraded x) (allow_many (redis_client R) ts key window limit (Some ws, r))"
proof (induction ts arbitrary: r)
  case (Cons t ts)
  obtain r' retry where step: "limiter_Allow (redis_client R) t key window limit (Some ws, r) =
      (\<lparr>Allowed = value_of key r + 1 \<le> limit, Degraded = False, RetryAfter = retry\<rparr>, Some ws, r')" and count: "value_of key r' = value_of key r + 1"
    using redis_counter.allow_counts [OF assms] unfolding redis_client_def by blast
  have "map (\<lambda>i. value_of key r + int i + 1 \<le> limit) [0..<length (t # ts)] =
      (value_of key r + 1 \<le> limit) # map (\<lambda>i. value_of key r' + int i + 1 \<le> limit) [0..<length ts]"
    by (simp add: upt_conv_Cons map_Suc_upt [symmetric] count algebra_simps del: upt_Suc)
  then show ?case using Cons.IH [of r'] step by simp
qed simp

text \<open>While Redis answers, the limiter is exact: of the calls for a key that had no value, made before the key expires,
  the first \<open>limit\<close> are allowed and no other, and none is marked as degraded.\<close>

lemma limiter_redis_exact:
  assumes "redis_counter R value_of" and "key \<noteq> []" and "nanos_per_milli \<le> window" and "0 < limit" and "value_of key r = 0"
  shows "map Allowed (allow_many (redis_client R) ts key window limit (Some ws, r)) = map (\<lambda>i. int i < limit) [0..<length ts] \<and>
    list_all (\<lambda>x. \<not> Degraded x) (allow_many (redis_client R) ts key window limit (Some ws, r))"
proof -
  have "(\<lambda>i. value_of key r + int i + 1 \<le> limit) = (\<lambda>i. int i < limit)" using assms(5) by auto
  then show ?thesis using allow_many_counts [OF assms(1-4), of ts ws r] by simp
qed

end
