(* ===== verification/Gift_Model.thy ===== *)
theory Gift_Model
  imports Ticket_System Go_Strings Pagination Idempotency Fixed_Window
begin

text \<open>
  The data of the wine-ticket gifts (\<open>internal/modules/wineticket/gift\<close>): rows, requests and responses, the tables a gift
  operation sees, and the repository. The world extends the one of the asset core with the tables of this module and the
  columns it reads of others. A statement on one table goes through the engine of the table; the projection of a gift is a join,
  whose rows are computed by \<open>gift_projections\<close> and read through an engine of their own.

  Texts printed for a response keep the instant (\<open>go_time\<close>) where the code prints one. What comes from outside the process is a
  field of \<open>gift_env\<close>: the hash, the JSON codec, random bytes, fresh UUIDs, the request context and whether a commit succeeds.
\<close>

subsection \<open>Runes\<close>

text \<open>UTF-8 as \<open>unicode/utf8\<close> decodes it: the width of the first rune, 0 for an invalid one, which counts as one byte.\<close>

definition utf8_cont :: "nat \<Rightarrow> nat \<Rightarrow> nat list \<Rightarrow> nat \<Rightarrow> bool" where
  "utf8_cont lo hi bs k \<longleftrightarrow> k < length bs \<and> lo \<le> bs ! k \<and> bs ! k \<le> hi"

definition utf8_width :: "nat list \<Rightarrow> nat" where
  "utf8_width bs =
     (case bs of [] \<Rightarrow> 0 | b # _ \<Rightarrow>
        if b < 128 then 1
        else if 194 \<le> b \<and> b \<le> 223 then (if utf8_cont 128 191 bs 1 then 2 else 0)
        else if 224 \<le> b \<and> b \<le> 239 then
          (if utf8_cont (if b = 224 then 160 else 128) (if b = 237 then 159 else 191) bs 1 \<and> utf8_cont 128 191 bs 2 then 3 else 0)
        else if 240 \<le> b \<and> b \<le> 244 then
          (if utf8_cont (if b = 240 then 144 else 128) (if b = 244 then 143 else 191) bs 1 \<and> utf8_cont 128 191 bs 2 \<and>
              utf8_cont 128 191 bs 3 then 4 else 0)
        else 0)"

function utf8_runes :: "nat list \<Rightarrow> nat list option list" where
  "utf8_runes [] = []"
| "utf8_runes (b # bs) =
     (let n = utf8_width (b # bs) in
      if n = 0 then None # utf8_runes bs else Some (take n (b # bs)) # utf8_runes (drop n (b # bs)))"
  by pat_completeness auto
termination
  by (relation "measure length") (auto simp: Let_def)

definition runes :: "string \<Rightarrow> nat list option list" where
  "runes s = utf8_runes (map of_char s)"

definition ValidString :: "string \<Rightarrow> bool" where
  "ValidString s = list_all (\<lambda>r. r \<noteq> None) (runes s)"

text \<open>\<open>string(r)\<close>: an invalid rune prints as the replacement character.\<close>

definition rune_string :: "nat list option \<Rightarrow> string" where
  "rune_string r = map char_of (case r of Some bs \<Rightarrow> bs | None \<Rightarrow> [239, 191, 189])"

subsection \<open>Rows\<close>

definition GiftStatusPending :: string where "GiftStatusPending = ''pending''"
definition GiftStatusClaimed :: string where "GiftStatusClaimed = ''claimed''"
definition GiftStatusCancelled :: string where "GiftStatusCancelled = ''cancelled''"
definition GiftStatusExpiredReturned :: string where "GiftStatusExpiredReturned = ''expired_returned''"
definition GiftStatusException :: string where "GiftStatusException = ''exception''"
definition GiftAllocationStatusHeld :: string where "GiftAllocationStatusHeld = ''held''"
definition GiftAllocationStatusClaimed :: string where "GiftAllocationStatusClaimed = ''claimed''"
definition GiftAllocationStatusRestored :: string where "GiftAllocationStatusRestored = ''restored''"
definition TransactionTypeGiftHold :: string where "TransactionTypeGiftHold = ''gift_hold''"
definition TransactionTypeGiftClaim :: string where "TransactionTypeGiftClaim = ''gift_claim''"
definition TransactionTypeGiftRestore :: string where "TransactionTypeGiftRestore = ''gift_restore''"

lemmas gift_statuses = GiftStatusPending_def GiftStatusClaimed_def GiftStatusCancelled_def GiftStatusExpiredReturned_def
  GiftStatusException_def
lemmas allocation_statuses = GiftAllocationStatusHeld_def GiftAllocationStatusClaimed_def GiftAllocationStatusRestored_def

definition giftClaimTTL :: int where "giftClaimTTL = 48 * 60 * 60"
definition giftShareTokenTTL :: int where "giftShareTokenTTL = 24 * 60 * 60"
definition giftActiveTokenMax :: int where "giftActiveTokenMax = 3"
definition giftQuantityMax :: go_uint where "giftQuantityMax = 1000"
definition giftMessageRuneMax :: nat where "giftMessageRuneMax = 140"
definition giftTokenMinLength :: nat where "giftTokenMinLength = 43"
definition giftTokenMaxLength :: nat where "giftTokenMaxLength = 256"

record Gift =
  gf_ID :: uint64
  gf_GiftNo :: string
  gf_GiverCustomerID :: uint64
  gf_ReceiverCustomerID :: "uint64 option"
  gf_IssuerMerchantID :: uint64
  gf_ProductID :: uint64
  gf_RedeemCityCode :: string
  gf_Quantity :: go_uint
  gf_Message :: "string option"
  gf_Status :: string
  gf_ClaimDeadline :: go_time
  gf_EarliestExpiresAt :: go_time
  gf_Version :: go_uint
  gf_ClaimedAt :: "go_time option"
  gf_CancelledAt :: "go_time option"
  gf_ReturnedAt :: "go_time option"
  gf_CreatedAt :: go_time
  gf_UpdatedAt :: go_time

record GiftAllocation =
  ga_ID :: uint64
  ga_GiftID :: uint64
  ga_SourceLotID :: uint64
  ga_ReceiverLotID :: "uint64 option"
  ga_Quantity :: go_uint
  ga_SourceExpiresAt :: go_time
  ga_Status :: string
  ga_CreatedAt :: go_time
  ga_UpdatedAt :: go_time

record GiftClaimToken =
  gt_ID :: uint64
  gt_GiftID :: uint64
  gt_TokenDigest :: string
  gt_IssuedByCustomerID :: uint64
  gt_ExpiresAt :: go_time
  gt_ConsumedAt :: "go_time option"
  gt_RevokedAt :: "go_time option"
  gt_RequestID :: "string option"
  gt_CreatedAt :: go_time

record activeRenewalGuard =
  arg_ID :: uint64
  arg_LotID :: uint64
  arg_Status :: string

text \<open>The columns the module reads of the customers, their verifications and the products.\<close>

record giftCustomerAccount =
  gca_ID :: uint64
  gca_Status :: string
  gca_Nickname :: "string option"
  gca_DeletedAt :: "go_time option"

record giftRealnameVerification =
  grv_CustomerID :: uint64
  grv_Status :: string
  grv_AdultResult :: string
  grv_ExpiresAt :: "go_time option"
  grv_RevokedAt :: "go_time option"

record identity_request =
  idr_CustomerID :: uint64
  idr_Status :: string
  idr_SessionExpiresAt :: "go_time option"

record gift_product =
  gpd_ID :: uint64
  gpd_Name :: string
  gpd_BrandName :: "string option"
  gpd_Spec :: "string option"
  gpd_ImageURL :: "string option"

record giftProjection =
  gpj_Gift :: Gift
  gpj_ProductName :: string
  gpj_ProductBrandName :: "string option"
  gpj_ProductSpec :: "string option"
  gpj_ProductImageURL :: "string option"
  gpj_GiverNickname :: "string option"
  gpj_ReceiverNickname :: "string option"

record gift_audit =
  gau_ID :: uint64
  gau_EventID :: string
  gau_ActorType :: string
  gau_ActorID :: uint64
  gau_Action :: string
  gau_ResourceID :: uint64
  gau_BeforeData :: json
  gau_AfterData :: json
  gau_BeforeStatus :: "string option"
  gau_AfterStatus :: "string option"
  gau_Version :: go_uint
  gau_RequestID :: "string option"
  gau_IPHash :: "string option"
  gau_UserAgent :: "string option"
  gau_CreatedAt :: go_time
  gau_AccountID :: "uint64 option"

record gift_event =
  gev_ID :: uint64
  gev_EventID :: string
  gev_EventType :: string
  gev_AggregateID :: uint64
  gev_Payload :: json
  gev_Status :: string
  gev_RequestID :: "string option"
  gev_CreatedAt :: go_time

text \<open>The unique indexes and checks of the migration.\<close>

definition gift_clash :: "Gift \<Rightarrow> Gift \<Rightarrow> bool" where
  "gift_clash a b \<longleftrightarrow> gf_ID a = gf_ID b \<or> gf_GiftNo a = gf_GiftNo b"

definition gift_fits :: "Gift \<Rightarrow> bool" where
  "gift_fits g \<longleftrightarrow> 0 < gf_Quantity g \<and> gf_Quantity g < 2 ^ 32 \<and> gf_CreatedAt g < gf_ClaimDeadline g \<and>
     gf_ClaimDeadline g \<le> gf_EarliestExpiresAt g"

definition allocation_clash :: "GiftAllocation \<Rightarrow> GiftAllocation \<Rightarrow> bool" where
  "allocation_clash a b \<longleftrightarrow> ga_ID a = ga_ID b \<or> (ga_GiftID a = ga_GiftID b \<and> ga_SourceLotID a = ga_SourceLotID b) \<or>
     (ga_ReceiverLotID a \<noteq> None \<and> ga_ReceiverLotID a = ga_ReceiverLotID b)"

definition allocation_fits :: "GiftAllocation \<Rightarrow> bool" where
  "allocation_fits a \<longleftrightarrow> 0 < ga_Quantity a \<and> ga_Quantity a < 2 ^ 32"

definition token_clash :: "GiftClaimToken \<Rightarrow> GiftClaimToken \<Rightarrow> bool" where
  "token_clash a b \<longleftrightarrow> gt_ID a = gt_ID b \<or> gt_TokenDigest a = gt_TokenDigest b"

subsection \<open>Requests and responses\<close>

record GiftCreateRequest =
  gcr_SourceLotNo :: string
  gcr_Quantity :: go_uint
  gcr_Message :: "string option"

record GiftShareTokenRequest =
  gsr_ExpectedGiftVersion :: go_uint

record GiftExpectedVersionRequest =
  gev_ExpectedVersion :: go_uint

record ProductSummaryDTO =
  ps_ProductID :: string
  ps_Name :: string
  ps_BrandName :: "string option"
  ps_Spec :: "string option"
  ps_ImageURL :: "string option"

record GiftDTO =
  gd_GiftNo :: string
  gd_Product :: ProductSummaryDTO
  gd_Quantity :: go_uint
  gd_Message :: "string option"
  gd_GiverDisplayName :: "string option"
  gd_ReceiverDisplayName :: "string option"
  gd_Status :: string
  gd_ClaimDeadline :: go_time
  gd_EarliestExpiresAt :: go_time
  gd_Version :: go_uint
  gd_CreatedAt :: go_time
  gd_ClaimedAt :: "go_time option"

record GiftShareTokenDTO =
  gsd_ShareToken :: string
  gsd_ExpiresAt :: go_time
  gsd_MiniProgramPath :: string

record GiftPreviewDTO =
  gpv_GiverDisplayName :: string
  gpv_Product :: ProductSummaryDTO
  gpv_Quantity :: go_uint
  gpv_Message :: "string option"
  gpv_ClaimDeadline :: go_time
  gpv_EarliestExpiresAt :: go_time
  gpv_ExpiryNotice :: string
  gpv_Status :: string
  gpv_Claimable :: bool
  gpv_BlockedReasonCode :: "string option"

definition validateBusinessNo :: "string \<Rightarrow> string \<Rightarrow> go_error option" where
  "validateBusinessNo value field = ValidateBusinessNo (TrimSpace value) field"

definition normalizeGiftCreateRequest :: "GiftCreateRequest \<Rightarrow> go_error + GiftCreateRequest" where
  "normalizeGiftCreateRequest req0 =
     (let req = req0\<lparr>gcr_SourceLotNo := TrimSpace (gcr_SourceLotNo req0)\<rparr> in
      case validateBusinessNo (gcr_SourceLotNo req) ''source_lot_no'' of
        Some e \<Rightarrow> Inl e
      | None \<Rightarrow>
          if gcr_Quantity req = 0 \<or> giftQuantityMax < gcr_Quantity req
          then Inl (problem_InvalidArgument ''VALIDATION_FAILED'' ''quantity must be between 1 and 1000'')
          else case gcr_Message req of
            None \<Rightarrow> Inr req
          | Some raw \<Rightarrow>
              let message = TrimSpace raw in
              if \<not> ValidString message \<or> giftMessageRuneMax < length (runes message)
              then Inl (problem_InvalidArgument ''VALIDATION_FAILED'' ''message must contain at most 140 characters'')
              else Inr (req\<lparr>gcr_Message := (if message = '''' then None else Some message)\<rparr>))"

definition validGiftStatus :: "string \<Rightarrow> bool" where
  "validGiftStatus value \<longleftrightarrow> value \<in> {'''', GiftStatusPending, GiftStatusClaimed, GiftStatusCancelled, GiftStatusExpiredReturned,
     GiftStatusException}"

definition validGiftDirection :: "string \<Rightarrow> bool" where
  "validGiftDirection value \<longleftrightarrow> value = ''sent'' \<or> value = ''received''"

definition maskedGiftDisplayName :: "string option \<Rightarrow> string option" where
  "maskedGiftDisplayName nickname =
     (case nickname of
        None \<Rightarrow> None
      | Some raw \<Rightarrow> let value = TrimSpace raw in
          if value = '''' then None else Some (rune_string (hd (runes value)) @ ''***''))"

definition productSummary :: "giftProjection \<Rightarrow> ProductSummaryDTO" where
  "productSummary row =
     \<lparr>ps_ProductID = IDString (gf_ProductID (gpj_Gift row)), ps_Name = gpj_ProductName row, ps_BrandName = gpj_ProductBrandName row,
      ps_Spec = gpj_ProductSpec row, ps_ImageURL = gpj_ProductImageURL row\<rparr>"

definition giftDTO :: "giftProjection \<Rightarrow> GiftDTO" where
  "giftDTO row =
     (let g = gpj_Gift row in
      \<lparr>gd_GiftNo = gf_GiftNo g, gd_Product = productSummary row, gd_Quantity = gf_Quantity g, gd_Message = gf_Message g,
       gd_GiverDisplayName = maskedGiftDisplayName (gpj_GiverNickname row),
       gd_ReceiverDisplayName = maskedGiftDisplayName (gpj_ReceiverNickname row), gd_Status = gf_Status g,
       gd_ClaimDeadline = gf_ClaimDeadline g, gd_EarliestExpiresAt = gf_EarliestExpiresAt g, gd_Version = gf_Version g,
       gd_CreatedAt = gf_CreatedAt g, gd_ClaimedAt = gf_ClaimedAt g\<rparr>)"

text \<open>The two texts in Chinese, as their UTF-8 bytes.\<close>

definition a_friend :: string where
  "a_friend = map char_of [228, 184, 128, 228, 189, 141, 229, 165, 189, 229, 143, 139 :: nat]"

definition expiry_notice :: string where
  "expiry_notice = map char_of
     [233, 162, 134, 229, 143, 150, 229, 144, 142, 228, 184, 141, 233, 135, 141, 231, 189, 174, 230, 156, 137, 230, 149, 136, 230, 156, 159,
      239, 188, 140, 232, 175, 183, 229, 156, 168, 233, 133, 146, 231, 165, 168, 229, 136, 176, 230, 156, 159, 229, 137, 141, 228, 189, 191,
      231, 148, 168 :: nat]"

definition giftPreviewDTO :: "giftProjection \<Rightarrow> GiftPreviewDTO" where
  "giftPreviewDTO row =
     (let g = gpj_Gift row in
      \<lparr>gpv_GiverDisplayName = (case maskedGiftDisplayName (gpj_GiverNickname row) of None \<Rightarrow> a_friend | Some n \<Rightarrow> n),
       gpv_Product = productSummary row, gpv_Quantity = gf_Quantity g, gpv_Message = gf_Message g,
       gpv_ClaimDeadline = gf_ClaimDeadline g, gpv_EarliestExpiresAt = gf_EarliestExpiresAt g, gpv_ExpiryNotice = expiry_notice,
       gpv_Status = gf_Status g, gpv_Claimable = True, gpv_BlockedReasonCode = None\<rparr>)"

subsection \<open>The world and its tables\<close>

record gift_world = ticket_world +
  gifts :: "Gift list"
  gift_allocations :: "GiftAllocation list"
  gift_tokens :: "GiftClaimToken list"
  renewals :: "activeRenewalGuard list"
  customers :: "giftCustomerAccount list"
  realnames :: "giftRealnameVerification list"
  identity_requests :: "identity_request list"
  gift_products :: "gift_product list"
  gift_audits :: "gift_audit list"
  gift_events :: "gift_event list"
  gift_claims :: "Record list"

record gift_env =
  wt_lotE :: "Lot engine"
  wt_txnE :: "Transaction engine"
  giftE :: "Gift engine"
  allocationE :: "GiftAllocation engine"
  tokenE :: "GiftClaimToken engine"
  renewalE :: "activeRenewalGuard engine"
  customerE :: "giftCustomerAccount engine"
  realnameE :: "giftRealnameVerification engine"
  identityE :: "identity_request engine"
  projectionE :: "giftProjection engine"
  gift_auditE :: "gift_audit engine"
  gift_eventE :: "gift_event engine"
  gift_claimE :: "Record engine"
  ge_pepper :: string
  ge_sha :: "string \<Rightarrow> string"
  ge_json :: "json \<Rightarrow> string"
  ge_marshal :: "GiftDTO \<Rightarrow> string"
  ge_unmarshal :: "string \<Rightarrow> go_error + GiftDTO"
  ge_random :: "gift_world \<Rightarrow> go_error + string"
  ge_uuid :: "gift_world \<Rightarrow> string"
  ge_pager :: pager
  ge_commit :: "gift_world \<Rightarrow> go_error option"
  ge_RequestID :: "string option"
  ge_IPHash :: "string option"
  ge_UserAgent :: "string option"
  ge_AccountID :: uint64

definition lot_tbl :: "gift_env \<Rightarrow> (gift_world, Lot) db_table" where
  "lot_tbl G = \<lparr>tbl_rows = lots, tbl_set = (\<lambda>r. lots_update (\<lambda>_. r)), tbl_engine = wt_lotE G\<rparr>"
definition txn_tbl :: "gift_env \<Rightarrow> (gift_world, Transaction) db_table" where
  "txn_tbl G = \<lparr>tbl_rows = transactions, tbl_set = (\<lambda>r. transactions_update (\<lambda>_. r)), tbl_engine = wt_txnE G\<rparr>"
definition gift_tbl :: "gift_env \<Rightarrow> (gift_world, Gift) db_table" where
  "gift_tbl G = \<lparr>tbl_rows = gifts, tbl_set = (\<lambda>r. gifts_update (\<lambda>_. r)), tbl_engine = giftE G\<rparr>"
definition allocation_tbl :: "gift_env \<Rightarrow> (gift_world, GiftAllocation) db_table" where
  "allocation_tbl G = \<lparr>tbl_rows = gift_allocations, tbl_set = (\<lambda>r. gift_allocations_update (\<lambda>_. r)), tbl_engine = allocationE G\<rparr>"
definition token_tbl :: "gift_env \<Rightarrow> (gift_world, GiftClaimToken) db_table" where
  "token_tbl G = \<lparr>tbl_rows = gift_tokens, tbl_set = (\<lambda>r. gift_tokens_update (\<lambda>_. r)), tbl_engine = tokenE G\<rparr>"
definition renewal_tbl :: "gift_env \<Rightarrow> (gift_world, activeRenewalGuard) db_table" where
  "renewal_tbl G = \<lparr>tbl_rows = renewals, tbl_set = (\<lambda>r. renewals_update (\<lambda>_. r)), tbl_engine = renewalE G\<rparr>"
definition customer_tbl :: "gift_env \<Rightarrow> (gift_world, giftCustomerAccount) db_table" where
  "customer_tbl G = \<lparr>tbl_rows = customers, tbl_set = (\<lambda>r. customers_update (\<lambda>_. r)), tbl_engine = customerE G\<rparr>"
definition realname_tbl :: "gift_env \<Rightarrow> (gift_world, giftRealnameVerification) db_table" where
  "realname_tbl G = \<lparr>tbl_rows = realnames, tbl_set = (\<lambda>r. realnames_update (\<lambda>_. r)), tbl_engine = realnameE G\<rparr>"
definition identity_tbl :: "gift_env \<Rightarrow> (gift_world, identity_request) db_table" where
  "identity_tbl G = \<lparr>tbl_rows = identity_requests, tbl_set = (\<lambda>r. identity_requests_update (\<lambda>_. r)), tbl_engine = identityE G\<rparr>"
definition gift_audit_tbl :: "gift_env \<Rightarrow> (gift_world, gift_audit) db_table" where
  "gift_audit_tbl G = \<lparr>tbl_rows = gift_audits, tbl_set = (\<lambda>r. gift_audits_update (\<lambda>_. r)), tbl_engine = gift_auditE G\<rparr>"
definition gift_event_tbl :: "gift_env \<Rightarrow> (gift_world, gift_event) db_table" where
  "gift_event_tbl G = \<lparr>tbl_rows = gift_events, tbl_set = (\<lambda>r. gift_events_update (\<lambda>_. r)), tbl_engine = gift_eventE G\<rparr>"

lemmas gift_tables = lot_tbl_def txn_tbl_def gift_tbl_def allocation_tbl_def token_tbl_def renewal_tbl_def customer_tbl_def
  realname_tbl_def identity_tbl_def gift_audit_tbl_def gift_event_tbl_def

text \<open>Rolling back restores every table; identifiers that were taken stay taken.\<close>

definition restore_gift :: "gift_world \<Rightarrow> gift_world \<Rightarrow> gift_world" where
  "restore_gift before after = before\<lparr>snow := snow after\<rparr>"

definition on_gift_claims :: "(Record list, 'e, 'a) go \<Rightarrow> (gift_world, 'e, 'a) go" where
  "on_gift_claims m w = (case m (gift_claims w) of (r, rows) \<Rightarrow> (r, w\<lparr>gift_claims := rows\<rparr>))"

definition nowShanghai :: "(gift_world, go_error, go_time) go" where
  "nowShanghai = NowShanghai wall_now"

definition ids_Next :: "(gift_world, go_error, uint64) go" where
  "ids_Next = go_call world_next_id"

definition gift_uuid :: "gift_env \<Rightarrow> (gift_world, go_error, string) go" where
  "gift_uuid G = go_call (\<lambda>w. (ge_uuid G w, w))"

subsection \<open>The repository\<close>

definition customerAccount :: "gift_env \<Rightarrow> uint64 \<Rightarrow> (gift_world, go_error, giftCustomerAccount) go" where
  "customerAccount G customerID = db_take (customer_tbl G) (\<lambda>c. gca_ID c = customerID \<and> gca_DeletedAt c = None)"

definition customerRealname :: "gift_env \<Rightarrow> uint64 \<Rightarrow> (gift_world, go_error, giftRealnameVerification) go" where
  "customerRealname G customerID = db_take (realname_tbl G) (\<lambda>v. grv_CustomerID v = customerID)"

definition pendingIdentityVerification :: "gift_env \<Rightarrow> uint64 \<Rightarrow> go_time \<Rightarrow> (gift_world, go_error, bool) go" where
  "pendingIdentityVerification G customerID now =
     go_bind (db_find (identity_tbl G) (\<lambda>r. idr_CustomerID r = customerID \<and> idr_Status r \<in> {''creating_session'', ''pending''} \<and>
       (case idr_SessionExpiresAt r of None \<Rightarrow> True | Some t \<Rightarrow> now < t))) (\<lambda>rows. go_ok (rows \<noteq> []))"

text \<open>\<open>giftProjectionQuery\<close>: the inner join with the product and the two outer joins with the customers.\<close>

definition live_customers :: "gift_world \<Rightarrow> uint64 option \<Rightarrow> string option list" where
  "live_customers w i =
     (let found = filter (\<lambda>c. Some (gca_ID c) = i \<and> gca_DeletedAt c = None) (customers w) in
      if found = [] then [None] else map gca_Nickname found)"

definition gift_projections :: "gift_world \<Rightarrow> giftProjection list" where
  "gift_projections w =
     concat (map (\<lambda>g. concat (map (\<lambda>p. concat (map (\<lambda>giver. map (\<lambda>receiver.
       \<lparr>gpj_Gift = g, gpj_ProductName = gpd_Name p, gpj_ProductBrandName = gpd_BrandName p, gpj_ProductSpec = gpd_Spec p,
        gpj_ProductImageURL = gpd_ImageURL p, gpj_GiverNickname = giver, gpj_ReceiverNickname = receiver\<rparr>)
       (live_customers w (gf_ReceiverCustomerID g))) (live_customers w (Some (gf_GiverCustomerID g)))))
       (filter (\<lambda>p. gpd_ID p = gf_ProductID g) (gift_products w)))) (gifts w))"

definition listCustomerGifts ::
    "gift_env \<Rightarrow> uint64 \<Rightarrow> string \<Rightarrow> string \<Rightarrow> page_query \<Rightarrow> (gift_world, go_error, giftProjection list) go" where
  "listCustomerGifts G customerID direction status q w =
     (case ApplyIDCursor [] q ''gift.id'' ''desc'' of
        Inl e \<Rightarrow> (Inl e, w)
      | Inr chain \<Rightarrow>
          let mine = (\<lambda>r. if direction = ''received'' then gf_ReceiverCustomerID (gpj_Gift r) = Some customerID
                 else gf_GiverCustomerID (gpj_Gift r) = customerID);
              wanted = (\<lambda>r. status \<noteq> '''' \<longrightarrow> gf_Status (gpj_Gift r) = status);
              after = (\<lambda>r. case chain of [Where _ [SqlUint n]] \<Rightarrow> gf_ID (gpj_Gift r) < n | _ \<Rightarrow> True) in
          (case sql_ordered (projectionE G) (\<lambda>r. mine r \<and> wanted r \<and> after r) (\<lambda>r. [- uint (gf_ID (gpj_Gift r))]) (gift_projections w) of
             Inl e \<Rightarrow> (Inl e, w)
           | Inr rows \<Rightarrow> (Inr (gorm_limit (i64 (pq_PageSize q + 1)) rows), w)))"

definition customerGiftByNo :: "gift_env \<Rightarrow> uint64 \<Rightarrow> string \<Rightarrow> (gift_world, go_error, giftProjection) go" where
  "customerGiftByNo G customerID giftNo w =
     (sql_take (projectionE G) (\<lambda>r. gf_GiftNo (gpj_Gift r) = giftNo \<and>
        (gf_GiverCustomerID (gpj_Gift r) = customerID \<or> gf_ReceiverCustomerID (gpj_Gift r) = Some customerID)) (gift_projections w), w)"

definition giftProjectionByID :: "gift_env \<Rightarrow> uint64 \<Rightarrow> (gift_world, go_error, giftProjection) go" where
  "giftProjectionByID G giftID w = (sql_take (projectionE G) (\<lambda>r. gf_ID (gpj_Gift r) = giftID) (gift_projections w), w)"

definition lot_giftable :: "go_time \<Rightarrow> Lot \<Rightarrow> bool" where
  "lot_giftable now l \<longleftrightarrow> lot_Status l = LotStatusActive \<and> 0 < lot_AvailableQuantity l \<and> now < lot_ExpiresAt l"

definition giftAnchorLot :: "gift_env \<Rightarrow> uint64 \<Rightarrow> string \<Rightarrow> go_time \<Rightarrow> (gift_world, go_error, Lot) go" where
  "giftAnchorLot G ownerID lotNo now =
     db_take (lot_tbl G) (\<lambda>l. lot_LotNo l = lotNo \<and> lot_OwnerCustomerID l = ownerID \<and> lot_giftable now l)"

definition in_gift_group :: "Lot \<Rightarrow> go_time \<Rightarrow> Lot \<Rightarrow> bool" where
  "in_gift_group anchor now l \<longleftrightarrow> lot_OwnerCustomerID l = lot_OwnerCustomerID anchor \<and>
     lot_IssuerMerchantID l = lot_IssuerMerchantID anchor \<and> lot_RedeemCityCode l = lot_RedeemCityCode anchor \<and>
     lot_ProductID l = lot_ProductID anchor \<and> lot_giftable now l"

definition fefo_order :: "Lot \<Rightarrow> int list" where
  "fefo_order l = [lot_ExpiresAt l, uint (lot_ID l)]"

definition lockGiftGroupLots :: "gift_env \<Rightarrow> Lot \<Rightarrow> go_time \<Rightarrow> (gift_world, go_error, Lot list) go" where
  "lockGiftGroupLots G anchor now = db_ordered (lot_tbl G) (in_gift_group anchor now) fefo_order"

definition activeRenewalForLots :: "gift_env \<Rightarrow> uint64 list \<Rightarrow> (gift_world, go_error, bool) go" where
  "activeRenewalForLots G lotIDs =
     (if lotIDs = [] then go_ok False
      else go_bind (db_ordered (renewal_tbl G) (\<lambda>r. arg_LotID r \<in> set lotIDs \<and>
        arg_Status r \<in> {''pending_payment'', ''payment_unknown'', ''applying'', ''compensating_refund'', ''refund_exception''})
        (\<lambda>r. [uint (arg_ID r)])) (\<lambda>rows. go_ok (rows \<noteq> [])))"

definition createGift :: "gift_env \<Rightarrow> Gift \<Rightarrow> (gift_world, go_error, unit) go" where
  "createGift G row = db_create (gift_tbl G) row"

definition createGiftAllocation :: "gift_env \<Rightarrow> GiftAllocation \<Rightarrow> (gift_world, go_error, unit) go" where
  "createGiftAllocation G row = db_create (allocation_tbl G) row"

definition createGiftToken :: "gift_env \<Rightarrow> GiftClaimToken \<Rightarrow> (gift_world, go_error, unit) go" where
  "createGiftToken G row = db_create (token_tbl G) row"

definition lockGiftByNo :: "gift_env \<Rightarrow> string \<Rightarrow> (gift_world, go_error, Gift) go" where
  "lockGiftByNo G giftNo = db_take (gift_tbl G) (\<lambda>g. gf_GiftNo g = giftNo)"

definition lockGiftByID :: "gift_env \<Rightarrow> uint64 \<Rightarrow> (gift_world, go_error, Gift) go" where
  "lockGiftByID G giftID = db_take (gift_tbl G) (\<lambda>g. gf_ID g = giftID)"

text \<open>The three updates: exactly one row has to change.\<close>

definition one_row :: "(gift_world, go_error, nat) go \<Rightarrow> (gift_world, go_error, unit) go" where
  "one_row m = go_bind m (\<lambda>affected. if affected \<noteq> 1 then go_err ErrRecordNotFound else go_ok ())"

definition updateGift :: "gift_env \<Rightarrow> uint64 \<Rightarrow> go_uint \<Rightarrow> (Gift \<Rightarrow> Gift) \<Rightarrow> (gift_world, go_error, unit) go" where
  "updateGift G giftID expectedVersion values =
     one_row (db_updates (gift_tbl G) (\<lambda>g. gf_ID g = giftID \<and> gf_Version g = expectedVersion) values)"

definition updateGiftAllocation :: "gift_env \<Rightarrow> uint64 \<Rightarrow> (GiftAllocation \<Rightarrow> GiftAllocation) \<Rightarrow> (gift_world, go_error, unit) go" where
  "updateGiftAllocation G allocationID values = one_row (db_updates (allocation_tbl G) (\<lambda>a. ga_ID a = allocationID) values)"

definition updateGiftToken :: "gift_env \<Rightarrow> uint64 \<Rightarrow> (GiftClaimToken \<Rightarrow> GiftClaimToken) \<Rightarrow> (gift_world, go_error, unit) go" where
  "updateGiftToken G tokenID values = one_row (db_updates (token_tbl G) (\<lambda>t. gt_ID t = tokenID) values)"

definition lockGiftTokens :: "gift_env \<Rightarrow> uint64 \<Rightarrow> (gift_world, go_error, GiftClaimToken list) go" where
  "lockGiftTokens G giftID = db_ordered (token_tbl G) (\<lambda>t. gt_GiftID t = giftID) (\<lambda>t. [uint (gt_ID t)])"

definition lockGiftAllocations :: "gift_env \<Rightarrow> uint64 \<Rightarrow> (gift_world, go_error, GiftAllocation list) go" where
  "lockGiftAllocations G giftID = db_ordered (allocation_tbl G) (\<lambda>a. ga_GiftID a = giftID) (\<lambda>a. [uint (ga_ID a)])"

definition lockGiftLots :: "gift_env \<Rightarrow> uint64 list \<Rightarrow> (gift_world, go_error, Lot list) go" where
  "lockGiftLots G lotIDs =
     (let canonicalIDs = sort (remdups (filter (\<lambda>i. i \<noteq> 0) lotIDs)) in
      if lotIDs = [] \<or> canonicalIDs = [] then go_ok []
      else db_ordered (lot_tbl G) (\<lambda>l. lot_ID l \<in> set canonicalIDs) (\<lambda>l. [uint (lot_ID l)]))"

definition giftHoldTransactions :: "gift_env \<Rightarrow> uint64 \<Rightarrow> (gift_world, go_error, Transaction list) go" where
  "giftHoldTransactions G giftID =
     db_ordered (txn_tbl G) (\<lambda>t. txn_BizType t = ''gift'' \<and> txn_BizID t = giftID \<and> txn_TransactionType t = TransactionTypeGiftHold)
       (\<lambda>t. [uint (txn_ID t)])"

definition giftIDByTokenDigest :: "gift_env \<Rightarrow> string \<Rightarrow> (gift_world, go_error, uint64) go" where
  "giftIDByTokenDigest G digest = go_bind (db_take (token_tbl G) (\<lambda>t. gt_TokenDigest t = digest)) (\<lambda>t. go_ok (gt_GiftID t))"

definition token_usable :: "go_time \<Rightarrow> GiftClaimToken \<Rightarrow> bool" where
  "token_usable now t \<longleftrightarrow> gt_ConsumedAt t = None \<and> gt_RevokedAt t = None \<and> now < gt_ExpiresAt t"

definition previewByTokenDigest :: "gift_env \<Rightarrow> string \<Rightarrow> go_time \<Rightarrow> (gift_world, go_error, giftProjection) go" where
  "previewByTokenDigest G digest now w =
     (sql_take (projectionE G) (\<lambda>r. let g = gpj_Gift r in
        list_ex (\<lambda>t. gt_GiftID t = gf_ID g \<and> gt_TokenDigest t = digest \<and> token_usable now t) (gift_tokens w) \<and>
        gf_Status g = GiftStatusPending \<and> now < gf_ClaimDeadline g \<and> now < gf_EarliestExpiresAt g) (gift_projections w), w)"

definition dueGiftIDs :: "gift_env \<Rightarrow> go_time \<Rightarrow> int \<Rightarrow> (gift_world, go_error, uint64 list) go" where
  "dueGiftIDs G now limit =
     go_bind (db_ordered (gift_tbl G) (\<lambda>g. gf_Status g = GiftStatusPending \<and> gf_ClaimDeadline g \<le> now)
       (\<lambda>g. [gf_ClaimDeadline g, uint (gf_ID g)])) (\<lambda>rows. go_ok (map gf_ID (gorm_limit limit rows)))"

definition findLockedToken :: "GiftClaimToken list \<Rightarrow> string \<Rightarrow> GiftClaimToken option" where
  "findLockedToken tokens digest = List.find (\<lambda>t. gt_TokenDigest t = digest) tokens"

fun active_tokens :: "GiftClaimToken list \<Rightarrow> go_time \<Rightarrow> int \<Rightarrow> go_time option \<Rightarrow> int \<times> go_time option" where
  "active_tokens [] now n earliest = (n, earliest)"
| "active_tokens (t # ts) now n earliest =
     (if \<not> token_usable now t then active_tokens ts now n earliest
      else active_tokens ts now (n + 1)
        (case earliest of None \<Rightarrow> Some (gt_ExpiresAt t)
         | Some e \<Rightarrow> if gt_ExpiresAt t < e then Some (gt_ExpiresAt t) else earliest))"

definition activeGiftTokenCount :: "GiftClaimToken list \<Rightarrow> go_time \<Rightarrow> int \<times> go_time option" where
  "activeGiftTokenCount tokens now = active_tokens tokens now 0 None"

definition giftLotMap :: "Lot list \<Rightarrow> uint64 \<Rightarrow> Lot option" where
  "giftLotMap rows = map_of (rev (map (\<lambda>l. (lot_ID l, l)) rows))"

definition giftSourceLotIDs :: "GiftAllocation list \<Rightarrow> uint64 list" where
  "giftSourceLotIDs allocations = rev (remdups (rev (map ga_SourceLotID allocations)))"

definition isGiftNotFound :: "go_error \<Rightarrow> bool" where
  "isGiftNotFound e \<longleftrightarrow> e = ErrRecordNotFound"

end
