(* ===== verification/Gift_Service.thy ===== *)
theory Gift_Service
  imports Gift_Model
begin

text \<open>
  The gift service: \<open>gift/service.go\<close>. \<open>Create\<close> freezes bottles of the giver's lots, those that expire first; \<open>CreateShareToken\<close>
  issues a claim token; \<open>Claim\<close> issues lots with the frozen bottles to whoever brings a token; \<open>Cancel\<close> and the expiry of the
  claim deadline give them back. Every operation is one database transaction that calls the asset service of the core, writes the
  tables of this module, an audit row and an outbox event, and answers repeated requests from the idempotency store.

  An operation that finds the deadline passed returns the bottles, commits and then reports an error: the answer of such a
  transaction is a sum, \<open>Inl\<close> the error to report after the commit.
\<close>

subsection \<open>Checks and helpers\<close>

definition invalidGiftTokenProblem :: go_error where
  "invalidGiftTokenProblem = problem_NotFound ''WT_GIFT_TOKEN_INVALID'' ''wine ticket gift is unavailable''"

definition gift_not_found :: go_error where
  "gift_not_found = problem_NotFound ''WT_GIFT_NOT_FOUND'' ''wine ticket gift not found''"

definition gift_expired :: go_error where
  "gift_expired = problem_Conflict ''WT_GIFT_EXPIRED'' ''wine ticket gift claim deadline has passed''"

definition gift_changed :: go_error where
  "gift_changed = problem_Conflict ''WT_CONCURRENT_MODIFICATION'' ''wine ticket gift changed concurrently''"

definition lineage_inconsistent :: go_error where
  "lineage_inconsistent = problem_Internal ''wine ticket gift source lineage is inconsistent''"

definition evidence_missing :: go_error where
  "evidence_missing = problem_Internal ''wine ticket gift allocation evidence is missing''"

definition pendingGiftProblem :: "Gift \<Rightarrow> go_error option" where
  "pendingGiftProblem gift =
     (if gf_Status gift = GiftStatusPending then None
      else if gf_Status gift = GiftStatusClaimed then Some (problem_Conflict ''WT_GIFT_NOT_PENDING'' ''wine ticket gift is not pending'')
      else if gf_Status gift = GiftStatusCancelled then Some (problem_Conflict ''WT_GIFT_CANCELLED'' ''wine ticket gift was cancelled'')
      else if gf_Status gift = GiftStatusExpiredReturned then Some gift_expired
      else Some (problem_Conflict ''WT_GIFT_NOT_PENDING'' ''wine ticket gift is not pending''))"

definition giftCustomerIDWithPermission :: "Claims option \<Rightarrow> string \<Rightarrow> go_error + uint64" where
  "giftCustomerIDWithPermission claims permission =
     (case claims of
        None \<Rightarrow> Inl (problem_Unauthorized ''AUTH_UNAUTHORIZED'' ''customer authentication required'')
      | Some c \<Rightarrow>
          if cl_AccountType c \<noteq> ''customer''
          then Inl (problem_Unauthorized ''AUTH_UNAUTHORIZED'' ''customer authentication required'')
          else case ParseUint (cl_CustomerID c) of
            None \<Rightarrow> Inl (problem_Unauthorized ''AUTH_UNAUTHORIZED'' ''invalid customer identity'')
          | Some customerID \<Rightarrow>
              if customerID = 0 then Inl (problem_Unauthorized ''AUTH_UNAUTHORIZED'' ''invalid customer identity'')
              else if list_ex (\<lambda>granted. granted = permission) (cl_Permissions c) then Inr customerID
              else Inl (problem_Forbidden ''PERM_FORBIDDEN'' ''permission denied''))"

definition isGiftDuplicateKey :: "go_error \<Rightarrow> bool" where
  "isGiftDuplicateKey err \<longleftrightarrow>
     (let message = to_lower (error_text err) in
      contains_sub message ''duplicate'' \<or> contains_sub message ''unique constraint'' \<or> contains_sub message ''constraint failed'')"

definition giftWriteError :: "go_error \<Rightarrow> go_error" where
  "giftWriteError err = (if isGiftDuplicateKey err then gift_changed else err)"

text \<open>A call whose error is replaced.\<close>

definition map_error :: "('e \<Rightarrow> 'e) \<Rightarrow> ('s, 'e, 'a) go \<Rightarrow> ('s, 'e, 'a) go" where
  "map_error f m = go_bind (go_try m) (\<lambda>r. case r of Inl e \<Rightarrow> go_err (f e) | Inr a \<Rightarrow> go_ok a)"

definition tokenDigest :: "gift_env \<Rightarrow> string \<Rightarrow> string" where
  "tokenDigest G rawToken = ge_sha G (rawToken @ ge_pepper G)"

definition newGiftShareToken :: "gift_env \<Rightarrow> (gift_world, go_error, string) go" where
  "newGiftShareToken G w =
     (case ge_random G w of
        Inl _ \<Rightarrow> (Inl (problem_Internal ''failed to generate wine gift share token''), w)
      | Inr payload \<Rightarrow> (Inr (b64_encode payload), w))"

definition validGiftShareToken :: "string \<Rightarrow> bool" where
  "validGiftShareToken raw \<longleftrightarrow> giftTokenMinLength \<le> length raw \<and> length raw \<le> giftTokenMaxLength \<and>
     (case b64_decode raw of None \<Rightarrow> False | Some decoded \<Rightarrow> 32 \<le> length decoded)"

definition giftOptionalString :: "string \<Rightarrow> string option" where
  "giftOptionalString value = (if value = '''' then None else Some value)"

definition ResourceRequestHash :: "(string \<Rightarrow> string) \<Rightarrow> (json \<Rightarrow> string) \<Rightarrow> string \<Rightarrow> json \<Rightarrow> json \<Rightarrow> string" where
  "ResourceRequestHash sha marshal action resourceID body =
     RequestHash sha marshal (JObject [(''action'', JString (to_lower (TrimSpace action))), (''resource_id'', resourceID), (''body'', body)])"

definition startIdempotency ::
    "gift_env \<Rightarrow> string \<Rightarrow> uint64 \<Rightarrow> string \<Rightarrow> string \<Rightarrow> string \<Rightarrow> string \<Rightarrow> (gift_world, go_error, bool) go" where
  "startIdempotency G actorType actorID verb path key requestHash =
     go_bind ids_Next (\<lambda>i.
     go_bind (go_call wall_now) (\<lambda>now.
     on_gift_claims (StartAt (ge_sha G) (gift_claimE G) i actorType actorID verb path key requestHash now)))"

definition cachedIdempotency :: "gift_env \<Rightarrow> string \<Rightarrow> uint64 \<Rightarrow> string \<Rightarrow> string \<Rightarrow> (gift_world, go_error, GiftDTO) go" where
  "cachedIdempotency G actorType actorID path key =
     go_bind (on_gift_claims (\<lambda>rows.
       (CachedResponse (ge_sha G) (ge_unmarshal G) (gift_claimE G) actorType actorID path key rows, rows))) (\<lambda>found.
     case found of
       None \<Rightarrow> go_err (problem_Conflict ''IDEMPOTENCY_IN_PROGRESS'' ''request with the same idempotency key is still processing'')
     | Some response \<Rightarrow> go_ok response)"

definition succeedIdempotency :: "gift_env \<Rightarrow> uint64 \<Rightarrow> string \<Rightarrow> string \<Rightarrow> GiftDTO \<Rightarrow> (gift_world, go_error, unit) go" where
  "succeedIdempotency G customerID path key response =
     go_bind (go_call wall_now) (\<lambda>now.
     on_gift_claims (Succeed (ge_sha G) (ge_marshal G) (gift_claimE G) now ''customer'' customerID path key response))"

definition failIdempotency :: "gift_env \<Rightarrow> uint64 \<Rightarrow> string \<Rightarrow> string \<Rightarrow> (gift_world, go_error, unit) go" where
  "failIdempotency G customerID path key =
     go_bind (go_call wall_now) (\<lambda>now.
     on_gift_claims (Fail (ge_sha G) (gift_claimE G) now ''customer'' customerID path key))"

definition writeGiftAudit ::
    "gift_env \<Rightarrow> string \<Rightarrow> uint64 \<Rightarrow> string \<Rightarrow> Gift \<Rightarrow> string \<Rightarrow> string \<Rightarrow> (string \<times> json) list \<Rightarrow> (gift_world, go_error, unit) go" where
  "writeGiftAudit G actorType actorID action gift beforeStatus afterStatus safeMetadata =
     (let before = (if beforeStatus \<noteq> ''''
            then [(''status'', JString beforeStatus), (''version'', JInt (uint (gf_Version gift)))] else []);
          afterVersion = (if beforeStatus = '''' then gf_Version gift else gf_Version gift + 1);
          after = (if afterStatus \<noteq> ''''
            then AList.update ''version'' (JInt (uint afterVersion)) (AList.update ''status'' (JString afterStatus) safeMetadata)
            else safeMetadata) in
      go_bind ids_Next (\<lambda>i.
      go_bind (gift_uuid G) (\<lambda>event.
      go_bind nowShanghai (\<lambda>now.
      db_create (gift_audit_tbl G)
        \<lparr>gau_ID = i, gau_EventID = event, gau_ActorType = actorType, gau_ActorID = actorID, gau_Action = action,
         gau_ResourceID = gf_ID gift, gau_BeforeData = JObject before, gau_AfterData = JObject after,
         gau_BeforeStatus = giftOptionalString beforeStatus, gau_AfterStatus = giftOptionalString afterStatus,
         gau_Version = afterVersion, gau_RequestID = ge_RequestID G, gau_IPHash = ge_IPHash G, gau_UserAgent = ge_UserAgent G,
         gau_CreatedAt = now, gau_AccountID = (if ge_AccountID G \<noteq> 0 then Some (ge_AccountID G) else None)\<rparr>))))"

definition writeGiftOutbox ::
    "gift_env \<Rightarrow> string \<Rightarrow> Gift \<Rightarrow> (string \<times> json) list \<Rightarrow> (gift_world, go_error, unit) go" where
  "writeGiftOutbox G eventType gift safePayload =
     go_bind ids_Next (\<lambda>i.
     go_bind (gift_uuid G) (\<lambda>event.
     go_bind nowShanghai (\<lambda>now.
     db_create (gift_event_tbl G)
       \<lparr>gev_ID = i, gev_EventID = event, gev_EventType = eventType, gev_AggregateID = gf_ID gift,
        gev_Payload = JObject safePayload, gev_Status = ''pending'', gev_RequestID = ge_RequestID G, gev_CreatedAt = now\<rparr>)))"

definition realname_valid :: "go_time \<Rightarrow> giftRealnameVerification \<Rightarrow> bool" where
  "realname_valid now v \<longleftrightarrow> grv_Status v = ''verified'' \<and> grv_AdultResult v = ''adult'' \<and> grv_RevokedAt v = None \<and>
     (case grv_ExpiresAt v of None \<Rightarrow> True | Some t \<Rightarrow> now < t)"

text \<open>On an error the verification that was read is the zero value, which is not verified.\<close>

definition requireAdultCustomer :: "gift_env \<Rightarrow> uint64 \<Rightarrow> go_time \<Rightarrow> (gift_world, go_error, unit) go" where
  "requireAdultCustomer G customerID now =
     go_bind (go_try (customerAccount G customerID)) (\<lambda>account.
     if (case account of Inl e \<Rightarrow> isGiftNotFound e | Inr c \<Rightarrow> gca_Status c \<noteq> ''active'')
     then go_err (problem_Forbidden ''PERM_FORBIDDEN'' ''customer account is not active'')
     else case account of Inl e \<Rightarrow> go_err e | Inr _ \<Rightarrow>
       go_bind (go_try (customerRealname G customerID)) (\<lambda>current.
       if (case current of Inr v \<Rightarrow> realname_valid now v | Inl _ \<Rightarrow> False) then go_ok ()
       else if (case current of Inl e \<Rightarrow> \<not> isGiftNotFound e | Inr _ \<Rightarrow> False)
       then (case current of Inl e \<Rightarrow> go_err e | Inr _ \<Rightarrow> go_ok ())
       else go_bind (pendingIdentityVerification G customerID now) (\<lambda>pending.
         if pending then go_err (problem_Conflict ''IDENTITY_VERIFICATION_PENDING'' ''identity verification is still processing'')
         else if (case current of Inr v \<Rightarrow> grv_Status v = ''verified'' \<and> grv_AdultResult v = ''minor'' \<and> grv_RevokedAt v = None
                  | Inl _ \<Rightarrow> False)
         then go_err (Problem (problem_New 422 ''UNDERAGE_RESTRICTED'' ''Unprocessable Entity'' ''wine gift actions require an adult customer''))
         else go_err (Problem (problem_New 422 ''REALNAME_REQUIRED'' ''Unprocessable Entity'' ''valid real-name verification required'')))))"

definition lockGiftAllocationsAndLots :: "gift_env \<Rightarrow> uint64 \<Rightarrow> (gift_world, go_error, GiftAllocation list \<times> Lot list) go" where
  "lockGiftAllocationsAndLots G giftID =
     go_bind (lockGiftAllocations G giftID) (\<lambda>allocations.
     go_bind (lockGiftLots G (giftSourceLotIDs allocations)) (\<lambda>rows. go_ok (allocations, rows)))"

subsection \<open>Creating a gift\<close>

record giftFEFOSelection =
  sel_lot :: Lot
  sel_quantity :: go_uint

fun fefo_loop :: "Lot list \<Rightarrow> go_uint \<Rightarrow> giftFEFOSelection list \<Rightarrow> giftFEFOSelection list \<times> go_uint" where
  "fefo_loop [] remaining selected = (selected, remaining)"
| "fefo_loop (lot # rest) remaining selected =
     (if remaining = 0 then (selected, remaining)
      else let tk = (if remaining < lot_AvailableQuantity lot then remaining else lot_AvailableQuantity lot) in
        if tk = 0 then fefo_loop rest remaining selected
        else fefo_loop rest (remaining - tk) (selected @ [\<lparr>sel_lot = lot, sel_quantity = tk\<rparr>]))"

definition selectGiftFEFO :: "Lot list \<Rightarrow> go_uint \<Rightarrow> go_error + giftFEFOSelection list" where
  "selectGiftFEFO candidates quantity =
     (case fefo_loop candidates quantity [] of (selected, remaining) \<Rightarrow>
        if remaining \<noteq> 0
        then Inl (problem_Conflict ''WT_INSUFFICIENT_QUANTITY'' ''insufficient wine ticket quantity in the selected group'')
        else Inr selected)"

definition giftGroupContainsAnchor :: "Lot list \<Rightarrow> uint64 \<Rightarrow> bool" where
  "giftGroupContainsAnchor candidates anchorID = list_ex (\<lambda>l. lot_ID l = anchorID) candidates"

definition gift_action :: "string \<Rightarrow> uint64 \<Rightarrow> uint64 \<Rightarrow> string" where
  "gift_action prefix giftID lotID = prefix @ IDString giftID @ '':'' @ IDString lotID"

definition gift_repo :: "gift_env \<Rightarrow> gift_world asset_repo" where
  "gift_repo G = transactionAssetRepository (wt_lotE G) (wt_txnE G)"

definition hold_command :: "uint64 \<Rightarrow> uint64 \<Rightarrow> go_time \<Rightarrow> giftFEFOSelection \<Rightarrow> AssetCommand" where
  "hold_command customerID giftID now item =
     \<lparr>cmd_LotID = lot_ID (sel_lot item), cmd_OwnerCustomerID = customerID, cmd_Quantity = sel_quantity item, cmd_MarkUsed = True,
      cmd_TransactionType = TransactionTypeGiftHold, cmd_BizType = ''gift'', cmd_BizID = giftID,
      cmd_ActionKey = gift_action ''gift_hold:'' giftID (lot_ID (sel_lot item)), cmd_Metadata = JNull, cmd_OccurredAt = now,
      cmd_ExpiryEvidence = None\<rparr>"

definition hold_item :: "gift_env \<Rightarrow> uint64 \<Rightarrow> uint64 \<Rightarrow> go_time \<Rightarrow> giftFEFOSelection \<Rightarrow> (gift_world, go_error, unit) go" where
  "hold_item G customerID giftID now item =
     go_bind (map_error giftWriteError
       (Freeze (Some world_service) (Some (gift_repo G)) (ge_RequestID G) (hold_command customerID giftID now item))) (\<lambda>_.
     go_bind ids_Next (\<lambda>i.
     map_error giftWriteError (createGiftAllocation G
       \<lparr>ga_ID = i, ga_GiftID = giftID, ga_SourceLotID = lot_ID (sel_lot item), ga_ReceiverLotID = None,
        ga_Quantity = sel_quantity item, ga_SourceExpiresAt = lot_ExpiresAt (sel_lot item), ga_Status = GiftAllocationStatusHeld,
        ga_CreatedAt = now, ga_UpdatedAt = now\<rparr>)))"

definition earliest_expiry :: "go_time \<Rightarrow> giftFEFOSelection list \<Rightarrow> go_time" where
  "earliest_expiry first items =
     fold (\<lambda>item earliest. if lot_ExpiresAt (sel_lot item) < earliest then lot_ExpiresAt (sel_lot item) else earliest) items first"

definition new_gift ::
    "uint64 \<Rightarrow> uint64 \<Rightarrow> Lot \<Rightarrow> GiftCreateRequest \<Rightarrow> go_time \<Rightarrow> go_time \<Rightarrow> Gift" where
  "new_gift giftID customerID anchor request earliest now =
     (let deadline = now + giftClaimTTL * nanos_per_second in
      \<lparr>gf_ID = giftID, gf_GiftNo = ''WTG'' @ IDString giftID, gf_GiverCustomerID = customerID, gf_ReceiverCustomerID = None,
       gf_IssuerMerchantID = lot_IssuerMerchantID anchor, gf_ProductID = lot_ProductID anchor,
       gf_RedeemCityCode = lot_RedeemCityCode anchor, gf_Quantity = gcr_Quantity request, gf_Message = gcr_Message request,
       gf_Status = GiftStatusPending, gf_ClaimDeadline = (if earliest < deadline then earliest else deadline),
       gf_EarliestExpiresAt = earliest, gf_Version = 1, gf_ClaimedAt = None, gf_CancelledAt = None, gf_ReturnedAt = None,
       gf_CreatedAt = now, gf_UpdatedAt = now\<rparr>)"

definition selected_lots :: "gift_env \<Rightarrow> uint64 \<Rightarrow> GiftCreateRequest \<Rightarrow> go_time \<Rightarrow>
    (gift_world, go_error, Lot \<times> giftFEFOSelection list) go" where
  "selected_lots G customerID request now =
     go_bind (go_try (giftAnchorLot G customerID (gcr_SourceLotNo request) now)) (\<lambda>anchored.
     case anchored of
       Inl e \<Rightarrow> go_err (if isGiftNotFound e then problem_NotFound ''WT_LOT_NOT_FOUND'' ''wine ticket lot not found'' else e)
     | Inr anchor \<Rightarrow>
         go_bind (lockGiftGroupLots G anchor now) (\<lambda>group.
         if \<not> giftGroupContainsAnchor group (lot_ID anchor)
         then go_err (problem_Conflict ''WT_CONCURRENT_MODIFICATION'' ''wine ticket lot group changed concurrently'')
         else case selectGiftFEFO group (gcr_Quantity request) of
           Inl e \<Rightarrow> go_err e
         | Inr selected \<Rightarrow>
             go_bind (activeRenewalForLots G (map (\<lambda>item. lot_ID (sel_lot item)) selected)) (\<lambda>hasRenewal.
             if hasRenewal then go_err (problem_Conflict ''WT_RENEWAL_IN_PROGRESS'' ''a selected wine ticket lot has an active renewal'')
             else go_ok (anchor, selected))))"

text \<open>Indexing an empty selection would be a run-time panic; a positive quantity never selects nothing.\<close>

definition index_panic :: go_error where
  "index_panic = ErrMessage ''runtime error: index out of range [0] with length 0''"

definition hold_gift :: "gift_env \<Rightarrow> uint64 \<Rightarrow> GiftCreateRequest \<Rightarrow> (gift_world, go_error, Gift) go" where
  "hold_gift G customerID request =
     go_bind nowShanghai (\<lambda>now.
     go_bind (requireAdultCustomer G customerID now) (\<lambda>_.
     go_bind (selected_lots G customerID request now) (\<lambda>(anchor, selected).
     go_bind ids_Next (\<lambda>giftID.
     case selected of
       [] \<Rightarrow> go_err index_panic
     | first # rest \<Rightarrow>
         let gift = new_gift giftID customerID anchor request (earliest_expiry (lot_ExpiresAt (sel_lot first)) rest) now in
         go_bind (map_error giftWriteError (createGift G gift)) (\<lambda>_.
         go_bind (go_for (\<lambda>item _. hold_item G customerID giftID now item) selected ()) (\<lambda>_. go_ok gift))))))"

definition create_in_transaction ::
    "gift_env \<Rightarrow> uint64 \<Rightarrow> string \<Rightarrow> string \<Rightarrow> string \<Rightarrow> string \<Rightarrow> GiftCreateRequest \<Rightarrow> (gift_world, go_error, GiftDTO) go" where
  "create_in_transaction G customerID verb path key requestHash request =
     go_bind (startIdempotency G ''customer'' customerID verb path key requestHash) (\<lambda>started.
     if \<not> started then cachedIdempotency G ''customer'' customerID path key
     else
       go_bind (hold_gift G customerID request) (\<lambda>gift.
       go_bind (giftProjectionByID G (gf_ID gift)) (\<lambda>projected.
       let response = giftDTO projected in
       go_bind (writeGiftAudit G ''customer'' customerID ''wine_ticket.gift.create'' gift '''' GiftStatusPending
         [(''gift_no'', JString (gf_GiftNo gift)), (''quantity'', JInt (uint (gf_Quantity gift)))]) (\<lambda>_.
       go_bind (succeedIdempotency G customerID path key response) (\<lambda>_. go_ok response)))))"

definition request_json :: "GiftCreateRequest \<Rightarrow> json" where
  "request_json r = JObject ([(''source_lot_no'', JString (gcr_SourceLotNo r)), (''quantity'', JInt (uint (gcr_Quantity r)))] @
     (case gcr_Message r of None \<Rightarrow> [] | Some m \<Rightarrow> [(''message'', JString m)]))"

definition gift_Create ::
    "gift_env \<Rightarrow> Claims option \<Rightarrow> string \<Rightarrow> string \<Rightarrow> string \<Rightarrow> GiftCreateRequest \<Rightarrow> (gift_world, go_error, GiftDTO) go" where
  "gift_Create G claims verb path key request0 =
     (case giftCustomerIDWithPermission claims ''wine_ticket_gift:create'' of
        Inl e \<Rightarrow> go_err e
      | Inr customerID \<Rightarrow>
          (case normalizeGiftCreateRequest request0 of
             Inl e \<Rightarrow> go_err e
           | Inr request \<Rightarrow>
               gorm_transaction (ge_commit G) restore_gift (create_in_transaction G customerID verb path key
                 (RequestHash (ge_sha G) (ge_json G) (request_json request0)) request)))"

subsection \<open>Evidence and returns\<close>

definition source_matches :: "Gift \<Rightarrow> GiftAllocation \<Rightarrow> Lot \<Rightarrow> bool" where
  "source_matches gift allocation source \<longleftrightarrow> lot_OwnerCustomerID source = gf_GiverCustomerID gift \<and>
     lot_IssuerMerchantID source = gf_IssuerMerchantID gift \<and> lot_ProductID source = gf_ProductID gift \<and>
     lot_RedeemCityCode source = gf_RedeemCityCode gift \<and> lot_ExpiresAt source = ga_SourceExpiresAt allocation"

definition hold_matches :: "Gift \<Rightarrow> GiftAllocation \<Rightarrow> Transaction \<Rightarrow> bool" where
  "hold_matches gift allocation hold \<longleftrightarrow> uint (ga_Quantity allocation) < 2 ^ 63 \<and> txn_LotID hold = ga_SourceLotID allocation \<and>
     txn_OwnerCustomerID hold = gf_GiverCustomerID gift \<and> txn_TransactionType hold = TransactionTypeGiftHold \<and>
     txn_BizType hold = ''gift'' \<and> txn_BizID hold = gf_ID gift \<and> txn_QuantityDelta hold = - ga_Quantity allocation \<and>
     ga_Quantity allocation \<le> txn_BeforeAvailableQuantity hold \<and>
     txn_AfterAvailableQuantity hold = txn_BeforeAvailableQuantity hold - ga_Quantity allocation"

fun holds_by_action :: "Transaction list \<Rightarrow> (string \<times> Transaction) list \<Rightarrow> go_error + (string \<times> Transaction) list" where
  "holds_by_action [] found = Inr found"
| "holds_by_action (hold # holds) found =
     (if map_of found (txn_ActionKey hold) \<noteq> None then Inl (problem_Internal ''wine ticket gift hold ledger is duplicated'')
      else holds_by_action holds (AList.update (txn_ActionKey hold) hold found))"

fun check_allocations ::
    "Gift \<Rightarrow> (uint64 \<Rightarrow> Lot option) \<Rightarrow> GiftAllocation list \<Rightarrow> (string \<times> Transaction) list \<Rightarrow> uint64 list \<Rightarrow> go_uint \<Rightarrow>
     go_error + (string \<times> Transaction) list \<times> go_uint" where
  "check_allocations gift sources [] holds seen allocated = Inr (holds, allocated)"
| "check_allocations gift sources (a # rest) holds seen allocated =
     (if ga_SourceLotID a = 0 \<or> ga_Quantity a = 0 then Inl (problem_Internal ''wine ticket gift allocation evidence is invalid'')
      else if ga_SourceLotID a \<in> set seen then Inl (problem_Internal ''wine ticket gift allocation evidence is duplicated'')
      else if - 1 - ga_Quantity a < allocated then Inl (problem_Internal ''wine ticket gift allocation quantity overflow'')
      else if (case sources (ga_SourceLotID a) of None \<Rightarrow> True | Some source \<Rightarrow> \<not> source_matches gift a source)
      then Inl lineage_inconsistent
      else let actionKey = gift_action ''gift_hold:'' (gf_ID gift) (ga_SourceLotID a) in
        if (case map_of holds actionKey of None \<Rightarrow> True | Some hold \<Rightarrow> \<not> hold_matches gift a hold)
        then Inl (problem_Internal ''wine ticket gift hold ledger is inconsistent'')
        else check_allocations gift sources rest (AList.delete actionKey holds) (ga_SourceLotID a # seen) (allocated + ga_Quantity a))"

definition validateGiftHoldEvidence ::
    "gift_env \<Rightarrow> Gift \<Rightarrow> GiftAllocation list \<Rightarrow> Lot list \<Rightarrow> (gift_world, go_error, unit) go" where
  "validateGiftHoldEvidence G gift allocations rows =
     (if gf_Quantity gift = 0 \<or> allocations = [] then go_err evidence_missing
      else go_bind (giftHoldTransactions G (gf_ID gift)) (\<lambda>holds.
        if length holds \<noteq> length allocations then go_err (problem_Internal ''wine ticket gift hold ledger is incomplete'')
        else case holds_by_action holds [] of
          Inl e \<Rightarrow> go_err e
        | Inr holdsByAction \<Rightarrow>
            (case check_allocations gift (giftLotMap rows) allocations holdsByAction [] 0 of
               Inl e \<Rightarrow> go_err e
             | Inr (remaining, allocationTotal) \<Rightarrow>
                 if allocationTotal \<noteq> gf_Quantity gift \<or> remaining \<noteq> []
                 then go_err (problem_Internal ''wine ticket gift allocation quantity does not match its hold ledger'')
                 else go_ok ())))"

definition restore_command :: "Gift \<Rightarrow> GiftAllocation \<Rightarrow> Lot \<Rightarrow> go_time \<Rightarrow> AssetCommand" where
  "restore_command gift allocation source now =
     \<lparr>cmd_LotID = lot_ID source, cmd_OwnerCustomerID = lot_OwnerCustomerID source, cmd_Quantity = ga_Quantity allocation,
      cmd_MarkUsed = False, cmd_TransactionType = TransactionTypeGiftRestore, cmd_BizType = ''gift'', cmd_BizID = gf_ID gift,
      cmd_ActionKey = gift_action ''gift_restore:'' (gf_ID gift) (lot_ID source), cmd_Metadata = JNull, cmd_OccurredAt = now,
      cmd_ExpiryEvidence = Some
        \<lparr>ev_TransactionType = TransactionTypeExpiry, ev_BizType = ''gift'', ev_BizID = gf_ID gift,
         ev_ActionKey = ''expiry:'' @ IDString (lot_ID source) @ '':'' @ format_int (unix_milli (lot_ExpiresAt source)) @
           '':after:gift_restore:'' @ IDString (gf_ID gift), ev_Metadata = JNull\<rparr>\<rparr>"

definition restore_allocation ::
    "gift_env \<Rightarrow> Gift \<Rightarrow> (uint64 \<Rightarrow> Lot option) \<Rightarrow> go_time \<Rightarrow> GiftAllocation \<Rightarrow> (gift_world, go_error, unit) go" where
  "restore_allocation G gift sources now a =
     (if ga_Status a \<noteq> GiftAllocationStatusHeld \<or> ga_ReceiverLotID a \<noteq> None
      then go_err (problem_Conflict ''WT_GIFT_NOT_PENDING'' ''wine ticket gift allocation is not restorable'')
      else case sources (ga_SourceLotID a) of
        None \<Rightarrow> go_err lineage_inconsistent
      | Some source \<Rightarrow>
          if \<not> source_matches gift a source then go_err lineage_inconsistent
          else if lot_TotalQuantity source < lot_AvailableQuantity source \<or>
                  lot_TotalQuantity source - lot_AvailableQuantity source < ga_Quantity a
          then go_err (problem_Internal ''wine ticket gift restore would exceed source lot quantity'')
          else go_bind (map_error giftWriteError
              (Restore (Some world_service) (Some (gift_repo G)) (ge_RequestID G) (restore_command gift a source now))) (\<lambda>_.
            updateGiftAllocation G (ga_ID a) (\<lambda>r. r\<lparr>ga_Status := GiftAllocationStatusRestored, ga_UpdatedAt := now\<rparr>)))"

definition revoke_token :: "gift_env \<Rightarrow> go_time \<Rightarrow> GiftClaimToken \<Rightarrow> (gift_world, go_error, unit) go" where
  "revoke_token G now token =
     (if gt_ConsumedAt token = None \<and> gt_RevokedAt token = None
      then updateGiftToken G (gt_ID token) (\<lambda>t. t\<lparr>gt_RevokedAt := Some now\<rparr>) else go_ok ())"

definition returned_gift :: "string \<Rightarrow> go_time \<Rightarrow> Gift \<Rightarrow> Gift" where
  "returned_gift terminalStatus now g =
     (let g1 = g\<lparr>gf_Status := terminalStatus, gf_ReturnedAt := Some now, gf_Version := gf_Version g + 1, gf_UpdatedAt := now\<rparr> in
      if terminalStatus = GiftStatusCancelled then g1\<lparr>gf_CancelledAt := Some now\<rparr> else g1)"

definition restoreGiftLocked ::
    "gift_env \<Rightarrow> Gift \<Rightarrow> GiftClaimToken list \<Rightarrow> GiftAllocation list \<Rightarrow> Lot list \<Rightarrow> string \<Rightarrow> go_time \<Rightarrow>
     (gift_world, go_error, unit) go" where
  "restoreGiftLocked G gift tokens allocations rows terminalStatus now =
     (if terminalStatus \<noteq> GiftStatusCancelled \<and> terminalStatus \<noteq> GiftStatusExpiredReturned
      then go_err (problem_Internal ''invalid gift restore terminal status'')
      else if allocations = [] then go_err evidence_missing
      else
        go_bind (validateGiftHoldEvidence G gift allocations rows) (\<lambda>_.
        go_bind (go_for (\<lambda>a _. restore_allocation G gift (giftLotMap rows) now a) allocations ()) (\<lambda>_.
        go_bind (go_for (\<lambda>t _. revoke_token G now t) tokens ()) (\<lambda>_.
        go_bind (map_error (\<lambda>_. gift_changed) (updateGift G (gf_ID gift) (gf_Version gift) (returned_gift terminalStatus now))) (\<lambda>_.
        writeGiftOutbox G ''wine_ticket.gift_returned'' gift
          [(''gift_no'', JString (gf_GiftNo gift)), (''giver_customer_id'', JString (IDString (gf_GiverCustomerID gift))),
           (''product_id'', JString (IDString (gf_ProductID gift))), (''quantity'', JInt (uint (gf_Quantity gift))),
           (''status'', JString terminalStatus)])))))"

text \<open>The return of a gift whose deadline has passed, with its audit row: shared by the operations that can find one.\<close>

definition time_out_gift ::
    "gift_env \<Rightarrow> string \<Rightarrow> uint64 \<Rightarrow> string \<Rightarrow> Gift \<Rightarrow> GiftClaimToken list \<Rightarrow> GiftAllocation list \<Rightarrow> Lot list \<Rightarrow> go_time \<Rightarrow>
     (gift_world, go_error, unit) go" where
  "time_out_gift G actorType actorID trigger gift tokens allocations rows now =
     go_bind (restoreGiftLocked G gift tokens allocations rows GiftStatusExpiredReturned now) (\<lambda>_.
     writeGiftAudit G actorType actorID ''wine_ticket.gift.timeout'' gift GiftStatusPending GiftStatusExpiredReturned
       [(''gift_no'', JString (gf_GiftNo gift)), (''trigger'', JString trigger)])"

definition deadline_passed :: "Gift \<Rightarrow> go_time \<Rightarrow> bool" where
  "deadline_passed gift now \<longleftrightarrow> gf_Status gift = GiftStatusPending \<and> gf_ClaimDeadline gift \<le> now"

text \<open>What a transaction answered, after its commit.\<close>

definition after_commit :: "(gift_world, go_error, go_error + 'a) go \<Rightarrow> (gift_world, go_error, 'a) go" where
  "after_commit m = go_bind m (\<lambda>r. case r of Inl terminalErr \<Rightarrow> go_err terminalErr | Inr response \<Rightarrow> go_ok response)"

definition giver_gift :: "gift_env \<Rightarrow> uint64 \<Rightarrow> string \<Rightarrow> (gift_world, go_error, Gift) go" where
  "giver_gift G customerID giftNo =
     go_bind (go_try (lockGiftByNo G giftNo)) (\<lambda>found.
     case found of
       Inl e \<Rightarrow> go_err (if isGiftNotFound e then gift_not_found else e)
     | Inr gift \<Rightarrow> if gf_GiverCustomerID gift \<noteq> customerID then go_err gift_not_found else go_ok gift)"

subsection \<open>Share tokens\<close>

definition retry_after :: "go_time \<Rightarrow> go_time option \<Rightarrow> int" where
  "retry_after now earliest =
     (case earliest of None \<Rightarrow> 1 | Some t \<Rightarrow> let s = \<lceil>duration_Seconds (time_Sub t now)\<rceil> in if s < 1 then 1 else s)"

definition active_limit :: "int \<Rightarrow> go_error" where
  "active_limit retryAfter = Problem ((problem_New 429 ''RATE_LIMITED'' ''Too Many Requests'' ''active wine gift share token limit reached'')
     \<lparr>Data := Some (JObject [(''retry_after_seconds'', JInt retryAfter)])\<rparr>)"

definition token_expiry :: "Gift \<Rightarrow> go_time \<Rightarrow> go_time" where
  "token_expiry gift now =
     (let e0 = now + giftShareTokenTTL * nanos_per_second;
          e1 = (if gf_ClaimDeadline gift < e0 then gf_ClaimDeadline gift else e0) in
      if gf_EarliestExpiresAt gift < e1 then gf_EarliestExpiresAt gift else e1)"

definition issue_token ::
    "gift_env \<Rightarrow> uint64 \<Rightarrow> Gift \<Rightarrow> GiftClaimToken list \<Rightarrow> go_time \<Rightarrow> (gift_world, go_error, GiftShareTokenDTO) go" where
  "issue_token G customerID gift tokens now =
     (case activeGiftTokenCount tokens now of (activeCount, earliestActiveExpiry) \<Rightarrow>
      if giftActiveTokenMax \<le> activeCount then go_err (active_limit (retry_after now earliestActiveExpiry))
      else
        go_bind (newGiftShareToken G) (\<lambda>rawToken.
        let expiresAt = token_expiry gift now in
        if expiresAt \<le> now then go_err gift_expired
        else
          go_bind ids_Next (\<lambda>i.
          go_bind (map_error giftWriteError (createGiftToken G
            \<lparr>gt_ID = i, gt_GiftID = gf_ID gift, gt_TokenDigest = tokenDigest G rawToken, gt_IssuedByCustomerID = customerID,
             gt_ExpiresAt = expiresAt, gt_ConsumedAt = None, gt_RevokedAt = None, gt_RequestID = ge_RequestID G, gt_CreatedAt = now\<rparr>)) (\<lambda>_.
          go_bind (map_error (\<lambda>_. gift_changed) (updateGift G (gf_ID gift) (gf_Version gift)
            (\<lambda>g. g\<lparr>gf_Version := gf_Version g + 1, gf_UpdatedAt := now\<rparr>))) (\<lambda>_.
          go_bind (writeGiftAudit G ''customer'' customerID ''wine_ticket.gift.share_token.issue'' gift GiftStatusPending GiftStatusPending
            [(''gift_no'', JString (gf_GiftNo gift)), (''token_expires_at'', JTime expiresAt),
             (''active_token_count'', JInt (activeCount + 1))]) (\<lambda>_.
          go_ok \<lparr>gsd_ShareToken = rawToken, gsd_ExpiresAt = expiresAt,
                 gsd_MiniProgramPath = ''/pages/wine-ticket/gifts/claim?gift_token='' @ rawToken\<rparr>))))))"

definition share_in_transaction ::
    "gift_env \<Rightarrow> uint64 \<Rightarrow> string \<Rightarrow> GiftShareTokenRequest \<Rightarrow> (gift_world, go_error, go_error + GiftShareTokenDTO) go" where
  "share_in_transaction G customerID giftNo request =
     go_bind nowShanghai (\<lambda>now.
     go_bind (giver_gift G customerID giftNo) (\<lambda>gift.
     go_bind (lockGiftTokens G (gf_ID gift)) (\<lambda>tokens.
     if deadline_passed gift now then
       go_bind (lockGiftAllocationsAndLots G (gf_ID gift)) (\<lambda>(allocations, rows).
       go_bind (time_out_gift G ''customer'' customerID ''share'' gift tokens allocations rows now) (\<lambda>_. go_ok (Inl gift_expired)))
     else case pendingGiftProblem gift of
       Some e \<Rightarrow> go_err e
     | None \<Rightarrow>
         if gf_Version gift \<noteq> gsr_ExpectedGiftVersion request
         then go_err (problem_Conflict ''WT_CONCURRENT_MODIFICATION'' ''wine ticket gift version changed'')
         else go_bind (issue_token G customerID gift tokens now) (\<lambda>response. go_ok (Inr response)))))"

definition CreateShareToken ::
    "gift_env \<Rightarrow> Claims option \<Rightarrow> string \<Rightarrow> GiftShareTokenRequest \<Rightarrow> (gift_world, go_error, GiftShareTokenDTO) go" where
  "CreateShareToken G claims giftNo request =
     (case giftCustomerIDWithPermission claims ''wine_ticket_gift:share'' of
        Inl e \<Rightarrow> go_err e
      | Inr customerID \<Rightarrow>
          (case validateBusinessNo giftNo ''gift_no'' of
             Some e \<Rightarrow> go_err e
           | None \<Rightarrow>
               if gsr_ExpectedGiftVersion request = 0
               then go_err (problem_InvalidArgument ''VALIDATION_FAILED'' ''expected_gift_version must be positive'')
               else if length (ge_pepper G) < 32 then go_err (problem_Internal ''wine gift token pepper is not configured'')
               else after_commit (gorm_transaction (ge_commit G) restore_gift (share_in_transaction G customerID giftNo request))))"

definition Preview :: "gift_env \<Rightarrow> string \<Rightarrow> (gift_world, go_error, GiftPreviewDTO) go" where
  "Preview G rawToken =
     (if length (ge_pepper G) < 32 \<or> \<not> validGiftShareToken rawToken then go_err invalidGiftTokenProblem
      else go_bind nowShanghai (\<lambda>now.
        go_bind (map_error (\<lambda>_. invalidGiftTokenProblem) (previewByTokenDigest G (tokenDigest G rawToken) now)) (\<lambda>row.
        go_ok (giftPreviewDTO row))))"

subsection \<open>Claiming\<close>

definition receiver_lot :: "uint64 \<Rightarrow> uint64 \<Rightarrow> Gift \<Rightarrow> GiftAllocation \<Rightarrow> Lot \<Rightarrow> go_time \<Rightarrow> Lot" where
  "receiver_lot receiverLotID customerID gift allocation source now =
     \<lparr>lot_ID = receiverLotID, lot_LotNo = ''WTL'' @ IDString receiverLotID, lot_OwnerCustomerID = customerID,
      lot_PurchaseID = lot_PurchaseID source, lot_SourceType = LotSourceGift, lot_SourceLotID = Some (lot_ID source),
      lot_SourceGiftID = Some (gf_ID gift), lot_IssuerMerchantID = lot_IssuerMerchantID source, lot_ProductID = lot_ProductID source,
      lot_RedeemCityCode = lot_RedeemCityCode source, lot_TotalQuantity = ga_Quantity allocation,
      lot_AvailableQuantity = ga_Quantity allocation, lot_OriginalExpiresAt = lot_OriginalExpiresAt source,
      lot_ExpiresAt = lot_ExpiresAt source, lot_ExpiryChangedAt = now, lot_RenewalCount = lot_RenewalCount source,
      lot_EverUsed = True, lot_Status = LotStatusActive, lot_Version = 1, lot_CreatedAt = now, lot_UpdatedAt = now\<rparr>"

definition claim_command :: "uint64 \<Rightarrow> uint64 \<Rightarrow> Gift \<Rightarrow> GiftAllocation \<Rightarrow> Lot \<Rightarrow> go_time \<Rightarrow> TransferCommand" where
  "claim_command receiverLotID customerID gift allocation source now =
     \<lparr>tr_ReceiverLot = receiver_lot receiverLotID customerID gift allocation source now,
      tr_TransactionType = TransactionTypeGiftClaim, tr_BizType = ''gift'', tr_BizID = gf_ID gift,
      tr_ActionKey = gift_action ''gift_claim:'' (gf_ID gift) receiverLotID, tr_Metadata = JNull, tr_OccurredAt = now\<rparr>"

definition claim_allocation ::
    "gift_env \<Rightarrow> uint64 \<Rightarrow> Gift \<Rightarrow> (uint64 \<Rightarrow> Lot option) \<Rightarrow> go_time \<Rightarrow> GiftAllocation \<Rightarrow> (gift_world, go_error, unit) go" where
  "claim_allocation G customerID gift sources now a =
     (if ga_Status a \<noteq> GiftAllocationStatusHeld \<or> ga_ReceiverLotID a \<noteq> None
      then go_err (problem_Conflict ''WT_GIFT_NOT_PENDING'' ''wine ticket gift allocation is not claimable'')
      else case sources (ga_SourceLotID a) of
        None \<Rightarrow> go_err lineage_inconsistent
      | Some source \<Rightarrow>
          if \<not> source_matches gift a source then go_err lineage_inconsistent
          else
            go_bind ids_Next (\<lambda>receiverLotID.
            go_bind (map_error giftWriteError (Transfer (Some world_service) (Some (gift_repo G)) (ge_RequestID G)
              (claim_command receiverLotID customerID gift a source now))) (\<lambda>_.
            updateGiftAllocation G (ga_ID a) (\<lambda>r. r\<lparr>ga_ReceiverLotID := Some receiverLotID,
              ga_Status := GiftAllocationStatusClaimed, ga_UpdatedAt := now\<rparr>))))"

definition use_token :: "gift_env \<Rightarrow> GiftClaimToken \<Rightarrow> go_time \<Rightarrow> GiftClaimToken \<Rightarrow> (gift_world, go_error, unit) go" where
  "use_token G matched now token =
     (if gt_ID token = gt_ID matched
      then updateGiftToken G (gt_ID token) (\<lambda>t. t\<lparr>gt_ConsumedAt := Some now, gt_RevokedAt := None\<rparr>)
      else revoke_token G now token)"

definition claimed_gift :: "uint64 \<Rightarrow> go_time \<Rightarrow> Gift \<Rightarrow> Gift" where
  "claimed_gift customerID now g = g\<lparr>gf_ReceiverCustomerID := Some customerID, gf_Status := GiftStatusClaimed, gf_ClaimedAt := Some now,
     gf_Version := gf_Version g + 1, gf_UpdatedAt := now\<rparr>"

definition claim_problem :: "Gift \<Rightarrow> go_error option" where
  "claim_problem gift =
     (if gf_Status gift = GiftStatusClaimed then Some (problem_Conflict ''WT_GIFT_ALREADY_CLAIMED'' ''wine ticket gift was already claimed'')
      else if gf_Status gift = GiftStatusCancelled then Some (problem_Conflict ''WT_GIFT_CANCELLED'' ''wine ticket gift was cancelled'')
      else if gf_Status gift = GiftStatusExpiredReturned then Some gift_expired
      else if gf_Status gift \<noteq> GiftStatusPending then Some (problem_Conflict ''WT_GIFT_NOT_PENDING'' ''wine ticket gift is not pending'')
      else None)"

definition hand_over ::
    "gift_env \<Rightarrow> uint64 \<Rightarrow> Gift \<Rightarrow> GiftClaimToken list \<Rightarrow> GiftClaimToken \<Rightarrow> GiftAllocation list \<Rightarrow> Lot list \<Rightarrow> go_time \<Rightarrow>
     (gift_world, go_error, unit) go" where
  "hand_over G customerID gift tokens matched allocations rows now =
     (if allocations = [] \<or> rows = [] then go_err evidence_missing
      else
        go_bind (validateGiftHoldEvidence G gift allocations rows) (\<lambda>_.
        go_bind (go_for (\<lambda>a _. claim_allocation G customerID gift (giftLotMap rows) now a) allocations ()) (\<lambda>_.
        go_bind (go_for (\<lambda>t _. use_token G matched now t) tokens ()) (\<lambda>_.
        map_error (\<lambda>_. gift_changed) (updateGift G (gf_ID gift) (gf_Version gift) (claimed_gift customerID now))))))"

definition claim_gift ::
    "gift_env \<Rightarrow> uint64 \<Rightarrow> string \<Rightarrow> string \<Rightarrow> string \<Rightarrow> uint64 \<Rightarrow> (gift_world, go_error, go_error + GiftDTO) go" where
  "claim_gift G customerID path key digest giftID =
     go_bind nowShanghai (\<lambda>now.
     go_bind (map_error (\<lambda>e. if isGiftNotFound e then invalidGiftTokenProblem else e) (lockGiftByID G giftID)) (\<lambda>gift.
     go_bind (lockGiftTokens G (gf_ID gift)) (\<lambda>tokens.
     go_bind (lockGiftAllocationsAndLots G (gf_ID gift)) (\<lambda>(allocations, rows).
     if deadline_passed gift now then
       go_bind (time_out_gift G ''customer'' customerID ''claim'' gift tokens allocations rows now) (\<lambda>_.
       go_bind (go_try (failIdempotency G customerID path key)) (\<lambda>_. go_ok (Inl gift_expired)))
     else case claim_problem gift of
       Some e \<Rightarrow> go_err e
     | None \<Rightarrow>
         (case findLockedToken tokens digest of
            None \<Rightarrow> go_err invalidGiftTokenProblem
          | Some matched \<Rightarrow>
              if \<not> token_usable now matched then go_err invalidGiftTokenProblem
              else if gf_GiverCustomerID gift = customerID
              then go_err (problem_Forbidden ''WT_GIFT_SELF_CLAIM_FORBIDDEN'' ''a gift cannot be claimed by its giver'')
              else
                go_bind (requireAdultCustomer G customerID now) (\<lambda>_.
                go_bind (hand_over G customerID gift tokens matched allocations rows now) (\<lambda>_.
                go_bind (writeGiftAudit G ''customer'' customerID ''wine_ticket.gift.claim'' gift GiftStatusPending GiftStatusClaimed
                  [(''gift_no'', JString (gf_GiftNo gift)), (''quantity'', JInt (uint (gf_Quantity gift)))]) (\<lambda>_.
                go_bind (writeGiftOutbox G ''wine_ticket.gift_claimed'' gift
                  [(''gift_no'', JString (gf_GiftNo gift)), (''giver_customer_id'', JString (IDString (gf_GiverCustomerID gift))),
                   (''receiver_customer_id'', JString (IDString customerID)), (''product_id'', JString (IDString (gf_ProductID gift))),
                   (''quantity'', JInt (uint (gf_Quantity gift)))]) (\<lambda>_.
                go_bind (giftProjectionByID G (gf_ID gift)) (\<lambda>projected.
                let response = giftDTO projected in
                go_bind (succeedIdempotency G customerID path key response) (\<lambda>_. go_ok (Inr response))))))))))))"

definition claim_in_transaction ::
    "gift_env \<Rightarrow> uint64 \<Rightarrow> string \<Rightarrow> string \<Rightarrow> string \<Rightarrow> string \<Rightarrow> string \<Rightarrow> uint64 \<Rightarrow> (gift_world, go_error, go_error + GiftDTO) go" where
  "claim_in_transaction G customerID verb path key requestHash digest giftID =
     go_bind (startIdempotency G ''customer'' customerID verb path key requestHash) (\<lambda>started.
     if \<not> started then go_bind (cachedIdempotency G ''customer'' customerID path key) (\<lambda>response. go_ok (Inr response))
     else claim_gift G customerID path key digest giftID)"

definition gift_Claim ::
    "gift_env \<Rightarrow> Claims option \<Rightarrow> string \<Rightarrow> string \<Rightarrow> string \<Rightarrow> string \<Rightarrow> (gift_world, go_error, GiftDTO) go" where
  "gift_Claim G claims verb path key rawToken =
     (case giftCustomerIDWithPermission claims ''wine_ticket_gift:claim'' of
        Inl e \<Rightarrow> go_err e
      | Inr customerID \<Rightarrow>
          if length (ge_pepper G) < 32 \<or> \<not> validGiftShareToken rawToken then go_err invalidGiftTokenProblem
          else let digest = tokenDigest G rawToken in
            go_bind (map_error (\<lambda>e. if isGiftNotFound e then invalidGiftTokenProblem else e) (giftIDByTokenDigest G digest)) (\<lambda>giftID.
            after_commit (gorm_transaction (ge_commit G) restore_gift (claim_in_transaction G customerID verb path key
              (ResourceRequestHash (ge_sha G) (ge_json G) ''wine_ticket_gift_claim'' (JString digest) (JObject [])) digest giftID))))"

subsection \<open>Cancelling and expiring\<close>

definition cancel_gift ::
    "gift_env \<Rightarrow> uint64 \<Rightarrow> string \<Rightarrow> string \<Rightarrow> string \<Rightarrow> GiftExpectedVersionRequest \<Rightarrow> (gift_world, go_error, go_error + GiftDTO) go" where
  "cancel_gift G customerID path key giftNo request =
     go_bind nowShanghai (\<lambda>now.
     go_bind (giver_gift G customerID giftNo) (\<lambda>gift.
     go_bind (lockGiftTokens G (gf_ID gift)) (\<lambda>tokens.
     go_bind (lockGiftAllocationsAndLots G (gf_ID gift)) (\<lambda>(allocations, rows).
     if deadline_passed gift now then
       go_bind (time_out_gift G ''customer'' customerID ''cancel'' gift tokens allocations rows now) (\<lambda>_.
       go_bind (go_try (failIdempotency G customerID path key)) (\<lambda>_. go_ok (Inl gift_expired)))
     else case pendingGiftProblem gift of
       Some e \<Rightarrow> go_err e
     | None \<Rightarrow>
         if gf_Version gift \<noteq> gev_ExpectedVersion request
         then go_err (problem_Conflict ''WT_CONCURRENT_MODIFICATION'' ''wine ticket gift version changed'')
         else
           go_bind (restoreGiftLocked G gift tokens allocations rows GiftStatusCancelled now) (\<lambda>_.
           go_bind (writeGiftAudit G ''customer'' customerID ''wine_ticket.gift.cancel'' gift GiftStatusPending GiftStatusCancelled
             [(''gift_no'', JString (gf_GiftNo gift)), (''quantity'', JInt (uint (gf_Quantity gift)))]) (\<lambda>_.
           go_bind (giftProjectionByID G (gf_ID gift)) (\<lambda>projected.
           let response = giftDTO projected in
           go_bind (succeedIdempotency G customerID path key response) (\<lambda>_. go_ok (Inr response)))))))))"

definition cancel_in_transaction ::
    "gift_env \<Rightarrow> uint64 \<Rightarrow> string \<Rightarrow> string \<Rightarrow> string \<Rightarrow> string \<Rightarrow> string \<Rightarrow> GiftExpectedVersionRequest \<Rightarrow>
     (gift_world, go_error, go_error + GiftDTO) go" where
  "cancel_in_transaction G customerID verb path key requestHash giftNo request =
     go_bind (startIdempotency G ''customer'' customerID verb path key requestHash) (\<lambda>started.
     if \<not> started then go_bind (cachedIdempotency G ''customer'' customerID path key) (\<lambda>response. go_ok (Inr response))
     else cancel_gift G customerID path key giftNo request)"

definition gift_Cancel ::
    "gift_env \<Rightarrow> Claims option \<Rightarrow> string \<Rightarrow> string \<Rightarrow> string \<Rightarrow> string \<Rightarrow> GiftExpectedVersionRequest \<Rightarrow>
     (gift_world, go_error, GiftDTO) go" where
  "gift_Cancel G claims verb path key giftNo request =
     (case giftCustomerIDWithPermission claims ''wine_ticket_gift:cancel'' of
        Inl e \<Rightarrow> go_err e
      | Inr customerID \<Rightarrow>
          (case validateBusinessNo giftNo ''gift_no'' of
             Some e \<Rightarrow> go_err e
           | None \<Rightarrow>
               if gev_ExpectedVersion request = 0
               then go_err (problem_InvalidArgument ''VALIDATION_FAILED'' ''expected_version must be positive'')
               else after_commit (gorm_transaction (ge_commit G) restore_gift (cancel_in_transaction G customerID verb path key
                 (ResourceRequestHash (ge_sha G) (ge_json G) ''wine_ticket_gift_cancel'' (JString giftNo)
                   (JObject [(''expected_version'', JInt (uint (gev_ExpectedVersion request)))])) giftNo request))))"

text \<open>One gift of the batch; the answer says whether it was returned.\<close>

definition expire_gift :: "gift_env \<Rightarrow> go_time \<Rightarrow> uint64 \<Rightarrow> (gift_world, go_error, bool) go" where
  "expire_gift G now giftID =
     go_bind (go_try (lockGiftByID G giftID)) (\<lambda>found.
     case found of
       Inl e \<Rightarrow> if isGiftNotFound e then go_ok False else go_err e
     | Inr gift \<Rightarrow>
         go_bind (lockGiftTokens G (gf_ID gift)) (\<lambda>tokens.
         go_bind (lockGiftAllocationsAndLots G (gf_ID gift)) (\<lambda>(allocations, rows).
         if gf_Status gift \<noteq> GiftStatusPending \<or> now < gf_ClaimDeadline gift then go_ok False
         else go_bind (time_out_gift G ''system'' 0 ''worker'' gift tokens allocations rows now) (\<lambda>_. go_ok True))))"

fun expire_gifts :: "gift_env \<Rightarrow> go_time \<Rightarrow> uint64 list \<Rightarrow> int \<Rightarrow> gift_world \<Rightarrow> (int \<times> go_error option) \<times> gift_world" where
  "expire_gifts G now [] expired w = ((expired, None), w)"
| "expire_gifts G now (i # rest) expired w =
     (case gorm_transaction (ge_commit G) restore_gift (expire_gift G now i) w of
        (Inl e, w') \<Rightarrow> ((expired, Some e), w')
      | (Inr didExpire, w') \<Rightarrow> expire_gifts G now rest (if didExpire then expired + 1 else expired) w')"

text \<open>The count and the error are returned together.\<close>

definition ExpireDue :: "gift_env \<Rightarrow> int \<Rightarrow> gift_world \<Rightarrow> (int \<times> go_error option) \<times> gift_world" where
  "ExpireDue G limit0 w =
     (let limit = (if limit0 \<le> 0 \<or> 100 < limit0 then 100 else limit0) in
      case nowShanghai w of
        (Inl e, w1) \<Rightarrow> ((0, Some e), w1)
      | (Inr now, w1) \<Rightarrow>
          (case dueGiftIDs G now limit w1 of
             (Inl e, w2) \<Rightarrow> ((0, Some e), w2)
           | (Inr ids, w2) \<Rightarrow> expire_gifts G now ids 0 w2))"

subsection \<open>Reading\<close>

definition gift_List ::
    "gift_env \<Rightarrow> Claims option \<Rightarrow> page_query \<Rightarrow> string \<Rightarrow> string \<Rightarrow> (gift_world, go_error, GiftDTO list \<times> string) go" where
  "gift_List G claims q direction0 status0 =
     (case giftCustomerIDWithPermission claims ''wine_ticket_gift:list'' of
        Inl e \<Rightarrow> go_err e
      | Inr customerID \<Rightarrow>
          let trimmed = TrimSpace direction0; direction = (if trimmed = '''' then ''sent'' else trimmed); status = TrimSpace status0 in
          if \<not> validGiftDirection direction then go_err (problem_InvalidArgument ''VALIDATION_FAILED'' ''direction must be sent or received'')
          else if \<not> validGiftStatus status then go_err (problem_InvalidArgument ''VALIDATION_FAILED'' ''invalid gift status'')
          else
            go_bind (listCustomerGifts G customerID direction status q) (\<lambda>rows.
            go_bind (go_call wall_now) (\<lambda>now.
            let more = (pq_PageSize q < int (length rows));
                page = (if more then take (nat (pq_PageSize q)) rows else rows);
                token = (if more then NextPageTokenWithCursor (ge_pager G) (unix_second now) q [IDString (gf_ID (gpj_Gift (last page)))]
                         else []) in
            go_ok (map giftDTO page, token))))"

definition gift_Detail :: "gift_env \<Rightarrow> Claims option \<Rightarrow> string \<Rightarrow> (gift_world, go_error, GiftDTO) go" where
  "gift_Detail G claims giftNo =
     (case giftCustomerIDWithPermission claims ''wine_ticket_gift:view'' of
        Inl e \<Rightarrow> go_err e
      | Inr customerID \<Rightarrow>
          (case validateBusinessNo giftNo ''gift_no'' of
             Some e \<Rightarrow> go_err e
           | None \<Rightarrow>
               go_bind (map_error (\<lambda>e. if isGiftNotFound e then gift_not_found else e) (customerGiftByNo G customerID giftNo)) (\<lambda>row.
               go_ok (giftDTO row))))"

end
