(* ===== verification/Ticket_Evidence.thy ===== *)
theory Ticket_Evidence
  imports Ticket_System
begin

text \<open>
  Which ledger rows an operation of the asset service writes and which it accepts as its own. The modules that call the service
  (gifts, redemptions) name a business object in every command; the rows an operation appends carry that name, and an operation is a
  replay only when the ledger has a row of the same business object, type and lot.

  A module's world extends the one of the core: \<open>apart\<close> is everything the asset service does not touch, and \<open>spends\<close> counts the
  identifiers a call takes, so that identifiers taken one after the other are known to differ.
\<close>

definition evidence_of :: "string \<Rightarrow> string \<Rightarrow> uint64 \<Rightarrow> uint64 \<Rightarrow> Transaction \<Rightarrow> bool" where
  "evidence_of ty biz i lot t \<longleftrightarrow> txn_TransactionType t = ty \<and> txn_BizType t = biz \<and> txn_BizID t = i \<and> txn_LotID t = lot"

definition biz_row :: "string \<Rightarrow> uint64 \<Rightarrow> Transaction \<Rightarrow> bool" where
  "biz_row biz i t \<longleftrightarrow> txn_BizType t = biz \<and> txn_BizID t = i"

lemma evidence_biz: "evidence_of ty biz i lot t \<Longrightarrow> biz_row biz i t"
  by (simp add: evidence_of_def biz_row_def)

context asset_ledger
begin

lemma replay_evidence:
  assumes "replayAssetMutation R key lotID ty biz i delta s = (Inr (Some r), s')" and "lotID \<noteq> 0"
  shows "\<exists>t\<in>set (ledger_of s). evidence_of ty biz i lotID t"
proof -
  from assms obtain t s1 where "TransactionByActionKey R key s = (Inr t, s1)" "evidence_of ty biz i lotID t"
    by (cases "TransactionByActionKey R key s"; cases "fst (TransactionByActionKey R key s)")
      (auto simp: replayAssetMutation_def go_inv evidence_of_def split: if_splits)
  then show ?thesis using find_found by blast
qed

text \<open>Without a row that could be replayed, a call that succeeds is a fresh one.\<close>

lemma debit_not_replayed:
  assumes run: "debit (Some service) (Some R) rid c mark s = (Inr m, s')"
    and new: "\<And>t. t \<in> set (ledger_of s) \<Longrightarrow>
      \<not> evidence_of (cmd_TransactionType c) (cmd_BizType c) (cmd_BizID c) (cmd_LotID c) t"
  shows "debit_fresh service R rid c mark s = (Inr m, s')" and "cmd_Quantity c \<noteq> 0" and "cmd_LotID c \<noteq> 0"
proof -
  from run obtain rep s1 where ok: "validateAssetCommand c = None"
    and rep: "replayAssetMutation R (cmd_ActionKey c) (cmd_LotID c) (cmd_TransactionType c)
      (cmd_BizType c) (cmd_BizID c) (- cmd_Quantity c) s = (Inr rep, s1)"
    unfolding debit_def Let_def option.sel by (elim go_elims) simp
  show pos: "cmd_Quantity c \<noteq> 0" "cmd_LotID c \<noteq> 0" using ok by (auto simp: validateAssetCommand_def split: if_splits)
  have "rep = None" using replay_evidence [OF _ pos(2)] rep new by (cases rep) blast+
  moreover have "s1 = s" by (rule replayAssetMutation_frame [OF rep])
  ultimately show "debit_fresh service R rid c mark s = (Inr m, s')"
    using run ok rep by (simp add: debit_def)
qed

lemma Restore_not_replayed:
  assumes run: "Restore (Some service) (Some R) rid c s = (Inr m, s')"
    and new: "\<And>t. t \<in> set (ledger_of s) \<Longrightarrow>
      \<not> evidence_of (cmd_TransactionType c) (cmd_BizType c) (cmd_BizID c) (cmd_LotID c) t"
  shows "restore_fresh service R rid c s = (Inr m, s')" and "cmd_Quantity c \<noteq> 0"
proof -
  from run obtain rep s1 where ok: "validateAssetCommand c = None"
    and rep: "replayAssetMutation R (cmd_ActionKey c) (cmd_LotID c) (cmd_TransactionType c)
      (cmd_BizType c) (cmd_BizID c) (cmd_Quantity c) s = (Inr rep, s1)"
    unfolding Restore_def option.sel by (elim go_elims) simp
  have pos: "cmd_Quantity c \<noteq> 0" "cmd_LotID c \<noteq> 0" using ok by (auto simp: validateAssetCommand_def split: if_splits)
  have "rep = None" using replay_evidence [OF _ pos(2)] rep new by (cases rep) blast+
  moreover have "s1 = s" by (rule replayAssetMutation_frame [OF rep])
  ultimately show "restore_fresh service R rid c s = (Inr m, s')" using run ok rep by (simp add: Restore_def)
  show "cmd_Quantity c \<noteq> 0" by (rule pos(1))
qed

lemma Issue_not_replayed:
  assumes run: "Issue (Some service) (Some R) rid c s = (Inr m, s')" and id: "lot_ID (iss_Lot c) \<noteq> 0"
    and new: "\<And>t. t \<in> set (ledger_of s) \<Longrightarrow>
      \<not> evidence_of (iss_TransactionType c) (iss_BizType c) (iss_BizID c) (lot_ID (iss_Lot c)) t"
  shows "issue_fresh service R rid c s = (Inr m, s')" and "lot_TotalQuantity (iss_Lot c) \<noteq> 0"
    and "lot_AvailableQuantity (iss_Lot c) = lot_TotalQuantity (iss_Lot c)"
proof -
  from run obtain rep s1 where
    rep: "replayIssueAssetMutation R c s = (Inr rep, s1)"
    and full: "lot_TotalQuantity (iss_Lot c) \<noteq> 0" "lot_AvailableQuantity (iss_Lot c) = lot_TotalQuantity (iss_Lot c)"
    and cont: "(case rep of Some replay \<Rightarrow> go_ok replay | None \<Rightarrow> issue_fresh service R rid c) s1 = (Inr m, s')"
    unfolding Issue_def option.sel by (elim go_elims) simp
  from rep obtain rep0 s0 where
    base: "replayAssetMutation R (iss_ActionKey c) (lot_ID (iss_Lot c)) (iss_TransactionType c)
       (iss_BizType c) (iss_BizID c) (lot_TotalQuantity (iss_Lot c)) s = (Inr rep0, s0)"
    and rep0: "rep = rep0" "s1 = s0"
    unfolding replayIssueAssetMutation_def Let_def
    by (elim go_bindE) (auto split: option.splits if_splits)
  have "rep0 = None" using replay_evidence [OF _ id] base new by (cases rep0) blast+
  moreover have "s0 = s" by (rule replayAssetMutation_frame [OF base])
  ultimately show "issue_fresh service R rid c s = (Inr m, s')" using cont rep0 by simp
  show "lot_TotalQuantity (iss_Lot c) \<noteq> 0" "lot_AvailableQuantity (iss_Lot c) = lot_TotalQuantity (iss_Lot c)"
    by (rule full)+
qed

text \<open>The rows an operation appends carry the business object of its command.\<close>

lemma create_row_biz:
  assumes "newTransaction service rid lot ty delta before after biz i key md at s = (Inr t, s1)"
    and "CreateTransaction R t s1 = (Inr u, s')"
  shows "ledger_of s' = ledger_of s @ [t]" and "txn_TransactionType t = ty" and "biz_row biz i t" and "txn_LotID t = lot_ID lot"
  using newTransaction_result [OF assms(1)] create_txn_done [OF assms(2)] by (auto simp: biz_row_def)

lemma issue_evidence:
  assumes run: "issue_fresh service R rid c s = (Inr m, s')" and id: "lot_ID (iss_Lot c) \<noteq> 0"
  obtains t where "ledger_of s' = ledger_of s @ [t]"
    and "evidence_of (iss_TransactionType c) (iss_BizType c) (iss_BizID c) (lot_ID (iss_Lot c)) t"
    and "mut_Lot m = issue_defaults (instant (iss_OccurredAt c) s) (iss_Lot c)"
  using run unfolding issue_fresh_def Let_def
proof (elim go_elims)
  fix at s1 i s2 u s3 t s4 v s5
  let ?lot = "issue_defaults at ((iss_Lot c)\<lparr>lot_ID := i\<rparr>)"
  assume occ: "occurredAt service (iss_OccurredAt c) s = (Inr at, s1)"
    and nid: "(if lot_ID (iss_Lot c) = 0 then go_call (the (svc_ids service))
      else go_ok (lot_ID (iss_Lot c))) s1 = (Inr i, s2)"
    and lot: "CreateLot R ?lot s2 = (Inr u, s3)"
    and txn: "newTransaction service rid ?lot (iss_TransactionType c) (lot_TotalQuantity ?lot) 0
      (lot_TotalQuantity ?lot) (iss_BizType c) (iss_BizID c) (iss_ActionKey c) (iss_Metadata c) at s3 =
      (Inr t, s4)"
    and ins: "CreateTransaction R t s4 = (Inr v, s5)" and s': "s' = s5"
    and m: "m = \<lparr>mut_Lot = ?lot, mut_Transactions = [t], mut_Replayed = False\<rparr>"
  have i: "i = lot_ID (iss_Lot c)" "s2 = s1" using nid id by auto
  have "ledger_of s3 = ledger_of s" using create_lot_done [OF lot] occurredAt_result [OF occ] i(2) by auto
  then show thesis
    using create_row_biz [OF txn ins] s' i(1) m occurredAt_result [OF occ] by (intro that [of t]) (auto simp: evidence_of_def biz_row_def)
qed

lemma restore_expiry_evidence:
  assumes "restore_expiry service R rid ev lot restored at rst s = (Inr m, s')"
  obtains t where "ledger_of s' = ledger_of s @ [t]" and "txn_TransactionType t = ev_TransactionType ev"
    and "biz_row (ev_BizType ev) (ev_BizID ev) t" and "txn_LotID t = lot_ID lot"
  using assms unfolding restore_expiry_def
proof (elim go_elims)
  fix changed s1 t s2 u s3
  assume upd: "UpdateLot R (lot_ID lot) (lot_Version lot)
      \<lparr>chg_AvailableQuantity = 0, chg_Status = LotStatusExpired, chg_EverUsed = False, chg_SetEverUsed = False,
       chg_UpdatedAt = at\<rparr> s = (Inr changed, s1)"
    and txn: "newTransaction service rid lot (ev_TransactionType ev) (- restored) restored 0
      (ev_BizType ev) (ev_BizID ev) (ev_ActionKey ev) (ev_Metadata ev) at s1 = (Inr t, s2)"
    and ins: "CreateTransaction R t s2 = (Inr u, s3)" and s': "s' = s3"
  show thesis
    using create_row_biz [OF txn ins] s' update_done [OF upd] by (intro that [of t]) auto
qed

lemma restore_evidence:
  assumes run: "restore_fresh service R rid c s = (Inr m, s')"
    and ev: "cmd_ExpiryEvidence c = Some e" "ev_BizType e = cmd_BizType c" "ev_BizID e = cmd_BizID c"
  obtains rows where "ledger_of s' = ledger_of s @ rows"
    and "\<forall>t\<in>set rows. biz_row (cmd_BizType c) (cmd_BizID c) t \<and> txn_LotID t = cmd_LotID c \<and>
      txn_TransactionType t \<in> {cmd_TransactionType c, ev_TransactionType e}"
  using run unfolding restore_fresh_def Let_def
proof (elim go_elims)
  fix locked s0 and lot :: Lot and at s1 changed s2 t s3 u s4
  let ?restored = "lot_AvailableQuantity lot + cmd_Quantity c"
  let ?change = "\<lparr>chg_AvailableQuantity = ?restored, chg_Status = LotStatusActive,
      chg_EverUsed = False, chg_SetEverUsed = False, chg_UpdatedAt = at\<rparr>"
  let ?lot1 = "lot\<lparr>lot_AvailableQuantity := ?restored, lot_Status := LotStatusActive,
      lot_Version := lot_Version lot + 1, lot_UpdatedAt := at\<rparr>"
  assume lock: "LockLot R (cmd_LotID c) s = (locked, s0)" and locked: "locked = Inr lot"
    and occ: "occurredAt service (cmd_OccurredAt c) s0 = (Inr at, s1)"
    and upd: "UpdateLot R (lot_ID lot) (lot_Version lot) ?change s1 = (Inr changed, s2)"
    and txn: "newTransaction service rid lot (cmd_TransactionType c) (cmd_Quantity c)
      (lot_AvailableQuantity lot) ?restored (cmd_BizType c) (cmd_BizID c) (cmd_ActionKey c)
      (cmd_Metadata c) at s2 = (Inr t, s3)"
    and ins: "CreateTransaction R t s3 = (Inr u, s4)"
    and rest: "(if lot_ExpiresAt lot \<le> at
      then restore_expiry service R rid (restoreExpiryEvidence c) ?lot1 ?restored at t
      else go_ok \<lparr>mut_Lot = ?lot1, mut_Transactions = [t], mut_Replayed = False\<rparr>) s4 = (Inr m, s')"
  have id: "lot_ID lot = cmd_LotID c" using lock locked lock_found by blast
  have led: "ledger_of s4 = ledger_of s @ [t]"
    using create_row_biz(1) [OF txn ins] update_done [OF upd] occurredAt_result [OF occ] lock_frame [OF lock] by auto
  note row = create_row_biz(2-4) [OF txn ins]
  show thesis
  proof (cases "lot_ExpiresAt lot \<le> at")
    case True
    with rest have "restore_expiry service R rid (restoreExpiryEvidence c) ?lot1 ?restored at t s4 = (Inr m, s')" by simp
    then show thesis
    proof (rule restore_expiry_evidence)
      fix t1
      assume "ledger_of s' = ledger_of s4 @ [t1]" "txn_TransactionType t1 = ev_TransactionType (restoreExpiryEvidence c)"
        "biz_row (ev_BizType (restoreExpiryEvidence c)) (ev_BizID (restoreExpiryEvidence c)) t1" "txn_LotID t1 = lot_ID ?lot1"
      then show thesis using led row ev id by (intro that [of "[t, t1]"]) (auto simp: restoreExpiryEvidence_def)
    qed
  next
    case False
    with rest led row id show thesis by (intro that [of "[t]"]) auto
  qed
qed

end

subsection \<open>What the asset service does not touch\<close>

abbreviation apart_is :: "go_time \<times> 'z \<Rightarrow> 'z ticket_world_scheme \<Rightarrow> bool" where
  "apart_is z w \<equiv> (wall w, ticket_world.more w) = z"

lemma repo_apart:
  "go_keeps (apart_is z) (TransactionByActionKey (transactionAssetRepository lE tE) key)"
  "go_keeps (apart_is z) (LockLot (transactionAssetRepository lE tE) i)"
  "go_keeps (apart_is z) (UpdateLot (transactionAssetRepository lE tE) i v change)"
  "go_keeps (apart_is z) (CreateTransaction (transactionAssetRepository lE tE) t)"
  "go_keeps (apart_is z) (CreateLot (transactionAssetRepository lE tE) l)"
  by (auto simp: go_keeps_def transactionAssetRepository_def repo_TransactionByActionKey_def repo_LockLot_def repo_UpdateLot_def
      repo_CreateTransaction_def repo_CreateLot_def split: sum.splits prod.splits)

lemma service_apart:
  "go_keeps (apart_is z) (occurredAt world_service v)"
  "go_keeps (apart_is z) (newTransaction world_service rid lot ty delta before after biz i key md at)"
  "go_keeps (apart_is z) (go_call (the (svc_ids world_service)))"
  by (auto simp: go_keeps_def occurredAt_def NowShanghai_def newTransaction_def NewAssetService_def go_eval wall_now_def
      world_next_id_def split: prod.splits)

lemmas apart_rules = go_keeps_rules repo_apart service_apart

lemma replay_apart: "go_keeps (apart_is z) (replayAssetMutation (transactionAssetRepository lE tE) key lotID ty biz i delta)"
  unfolding replayAssetMutation_def by (intro apart_rules)

lemma debit_apart: "go_keeps (apart_is z) (debit (Some world_service) (Some (transactionAssetRepository lE tE)) rid c mark)"
  unfolding debit_def debit_fresh_def Let_def option.sel by (intro apart_rules replay_apart)

lemma Issue_apart: "go_keeps (apart_is z) (Issue (Some world_service) (Some (transactionAssetRepository lE tE)) rid c)"
  unfolding Issue_def issue_fresh_def replayIssueAssetMutation_def Let_def option.sel by (intro apart_rules replay_apart)

lemma Transfer_apart: "go_keeps (apart_is z) (Transfer (Some world_service) (Some (transactionAssetRepository lE tE)) rid c)"
  unfolding Transfer_def by (intro go_keeps_if go_keeps_err Issue_apart)

lemma Restore_apart: "go_keeps (apart_is z) (Restore (Some world_service) (Some (transactionAssetRepository lE tE)) rid c)"
  unfolding Restore_def restore_fresh_def restore_expiry_def validateRestoreReplay_def Let_def option.sel
  by (intro apart_rules replay_apart)

subsection \<open>Identifiers taken one after the other\<close>

text \<open>\<open>ids_ready n w\<close>: the generator has issued an identifier before, and \<open>n\<close> more calls at this reading of the clock stay within
  its 41 bits of time.\<close>

definition ids_ready :: "nat \<Rightarrow> 'z ticket_world_scheme \<Rightarrow> bool" where
  "ids_ready n w \<longleftrightarrow> snow_usable n (snow w) \<and> snow_reading n (of_int (unix_milli (wall w))) \<and> 0 \<le> snow_stamp (snow w)"

definition spends :: "nat \<Rightarrow> ('z ticket_world_scheme, 'e, 'a) go \<Rightarrow> bool" where
  "spends N m \<longleftrightarrow> (\<forall>w r w'. m w = (r, w') \<longrightarrow> wall w' = wall w \<and>
     (\<forall>n. ids_ready (N + n) w \<longrightarrow> ids_ready n w' \<and> snow_stamp (snow w) \<le> snow_stamp (snow w')))"

lemma ids_ready_mono: "ids_ready n w \<Longrightarrow> m \<le> n \<Longrightarrow> ids_ready m w"
  by (auto simp: ids_ready_def snow_usable_def snow_reading_def)

lemma spendsD:
  assumes "spends N m" and "m w = (r, w')"
  shows "wall w' = wall w" and "ids_ready (N + n) w \<Longrightarrow> ids_ready n w'"
    and "ids_ready N w \<Longrightarrow> snow_stamp (snow w) \<le> snow_stamp (snow w')"
proof -
  show "wall w' = wall w" and "ids_ready (N + n) w \<Longrightarrow> ids_ready n w'" using assms by (auto simp: spends_def)
  show "ids_ready N w \<Longrightarrow> snow_stamp (snow w) \<le> snow_stamp (snow w')"
    using assms unfolding spends_def by (metis add_0_right)
qed

lemma spends_mono: "spends N m \<Longrightarrow> N \<le> M \<Longrightarrow> spends M m"
  unfolding spends_def by (metis add.commute add_le_mono1 ids_ready_mono)

lemma spends_frame: "(\<And>w r w'. m w = (r, w') \<Longrightarrow> wall w' = wall w \<and> snow w' = snow w) \<Longrightarrow> spends N m"
  unfolding spends_def by (metis ids_ready_def ids_ready_mono le_add2 order_refl)

lemma spends_bind:
  assumes "spends a m" and "\<And>x. spends b (k x)"
  shows "spends (a + b) (go_bind m k)"
  unfolding spends_def
proof (intro allI impI)
  fix w r w'
  assume run: "go_bind m k w = (r, w')"
  obtain r1 w1 where first: "m w = (r1, w1)" by fastforce
  note one = spendsD [OF assms(1) first]
  show "wall w' = wall w \<and> (\<forall>n. ids_ready (a + b + n) w \<longrightarrow> ids_ready n w' \<and> snow_stamp (snow w) \<le> snow_stamp (snow w'))"
  proof (cases r1)
    case (Inl e)
    then have "w' = w1" using run first by (auto simp: go_bind_def)
    then show ?thesis using one by (metis add.assoc ids_ready_mono le_add1 le_add2)
  next
    case (Inr x)
    then have "k x w1 = (r, w')" using run first by (auto simp: go_bind_def)
    note two = spendsD [OF assms(2) this]
    show ?thesis
    proof (intro conjI allI impI)
      show "wall w' = wall w" using one(1) two(1) by simp
      fix n
      assume ready: "ids_ready (a + b + n) w"
      then have mid: "ids_ready (b + n) w1" using one(2) [of "b + n"] by (simp add: add.assoc)
      then show "ids_ready n w'" by (rule two(2))
      show "snow_stamp (snow w) \<le> snow_stamp (snow w')"
        using one(3) two(3) ids_ready_mono [OF ready] ids_ready_mono [OF mid] by (meson le_add1 order_trans)
    qed
  qed
qed

lemma spends_ok: "spends N (go_ok a)"
  by (rule spends_frame) simp

lemma spends_err: "spends N (go_err e)"
  by (rule spends_frame) simp

lemma spends_try: "spends N m \<Longrightarrow> spends N (go_try m)"
  by (fastforce simp: spends_def go_try_inv)

lemma spends_if: "spends N a \<Longrightarrow> spends N b \<Longrightarrow> spends N (if c then a else b)"
  by simp

lemma spends_option: "spends N a \<Longrightarrow> (\<And>v. spends N (f v)) \<Longrightarrow> spends N (case r of None \<Rightarrow> a | Some v \<Rightarrow> f v)"
  by (simp split: option.splits)

lemma spends_sum: "(\<And>e. spends N (f e)) \<Longrightarrow> (\<And>v. spends N (g v)) \<Longrightarrow> spends N (case r of Inl e \<Rightarrow> f e | Inr v \<Rightarrow> g v)"
  by (simp split: sum.splits)

lemma spends_prod: "(\<And>a b. spends N (f a b)) \<Longrightarrow> spends N (case p of (a, b) \<Rightarrow> f a b)"
  by (simp split: prod.splits)

lemma spends_bind_free: "spends 0 m \<Longrightarrow> (\<And>x. spends N (k x)) \<Longrightarrow> spends N (go_bind m k)"
  using spends_bind [of 0 m N k] by simp

lemma spends_bind_last: "spends N m \<Longrightarrow> (\<And>x. spends 0 (k x)) \<Longrightarrow> spends N (go_bind m k)"
  using spends_bind [of N m 0 k] by simp

lemma spends_bind_one: "spends (Suc 0) m \<Longrightarrow> (\<And>x. spends N (k x)) \<Longrightarrow> spends (Suc N) (go_bind m k)"
  using spends_bind [of "Suc 0" m N k] by simp

lemma spends_for:
  assumes "\<And>x acc. x \<in> set xs \<Longrightarrow> spends N (body x acc)"
  shows "spends (length xs * N) (go_for body xs acc)"
  using assms
proof (induction xs arbitrary: acc)
  case (Cons x xs)
  then have "spends N (body x acc)" "\<And>acc. spends (length xs * N) (go_for body xs acc)" by simp_all
  then show ?case by (auto intro: spends_bind)
qed (simp add: spends_ok)

text \<open>The next identifier is above every earlier one.\<close>

lemma next_id_above:
  assumes "ids_ready (Suc n) w" and "world_next_id w = (i, w')"
  shows "uint i = snow_stamp (snow w')" and "snow_stamp (snow w) < uint i" and "ids_ready n w'" and "i \<noteq> 0"
    and "wall w' = wall w"
proof -
  let ?c = "of_int (unix_milli (wall w)) :: int64"
  obtain g where g: "snow_Next ?c (snow w) = (i, g)" and w': "w' = w\<lparr>snow := g\<rparr>"
    using assms(2) by (auto simp: world_next_id_def split: prod.splits)
  have "uint i = snow_stamp g \<and> snow_stamp (snow w) < snow_stamp g \<and> snow_usable n g"
    using assms(1) by (intro snowflake.issue [OF _ _ g]) (auto simp: ids_ready_def)
  moreover have "snow_reading n ?c" using assms(1) by (auto simp: ids_ready_def intro: snowflake.reading_mono)
  ultimately show "uint i = snow_stamp (snow w')" "snow_stamp (snow w) < uint i" "ids_ready n w'" "i \<noteq> 0" "wall w' = wall w"
    using assms(1) w' by (auto simp: ids_ready_def)
qed

lemma spends_next: "spends (Suc 0) (go_call world_next_id)"
  unfolding spends_def
proof (intro allI impI)
  fix w w' :: "'a ticket_world_scheme" and r :: "'b + uint64"
  assume "go_call world_next_id w = (r, w')"
  then obtain i where run: "world_next_id w = (i, w')" by (auto simp: go_call_def split: prod.splits)
  then have "wall w' = wall w" by (auto simp: world_next_id_def split: prod.splits)
  then show "wall w' = wall w \<and> (\<forall>n. ids_ready (Suc 0 + n) w \<longrightarrow> ids_ready n w' \<and> snow_stamp (snow w) \<le> snow_stamp (snow w'))"
    using next_id_above [OF _ run] by fastforce
qed

lemma repo_spends:
  "spends N (TransactionByActionKey (transactionAssetRepository lE tE) key)"
  "spends N (LockLot (transactionAssetRepository lE tE) i)"
  "spends N (UpdateLot (transactionAssetRepository lE tE) i v change)"
  "spends N (CreateTransaction (transactionAssetRepository lE tE) t)"
  "spends N (CreateLot (transactionAssetRepository lE tE) l)"
  "spends N (occurredAt world_service at)"
  by (rule spends_frame, fastforce simp: transactionAssetRepository_def repo_TransactionByActionKey_def repo_LockLot_def
      repo_UpdateLot_def repo_CreateTransaction_def repo_CreateLot_def occurredAt_def NowShanghai_def NewAssetService_def go_eval
      wall_now_def split: sum.splits prod.splits if_splits)+

lemma newTransaction_spends: "spends (Suc 0) (newTransaction world_service rid lot ty delta before after biz i key md at)"
  unfolding newTransaction_def NewAssetService_def by (simp add: spends_bind_last spends_next spends_ok)

lemmas spends_rules = spends_ok spends_err spends_try spends_if spends_option spends_sum spends_prod repo_spends newTransaction_spends

lemma replay_spends: "spends 0 (replayAssetMutation (transactionAssetRepository lE tE) key lotID ty biz i delta)"
  unfolding replayAssetMutation_def by (intro spends_rules spends_bind_free)

lemma Issue_spends: "spends 2 (Issue (Some world_service) (Some (transactionAssetRepository lE tE)) rid c)"
proof -
  have next_id: "spends (Suc 0) (if lot_ID (iss_Lot c) = 0 then go_call (the (svc_ids world_service)) else go_ok (lot_ID (iss_Lot c)))"
    by (simp add: NewAssetService_def spends_next spends_ok)
  have fresh: "spends (Suc (Suc 0)) (issue_fresh world_service (transactionAssetRepository lE tE) rid c)"
    unfolding issue_fresh_def Let_def
    by (intro spends_bind_free [OF repo_spends(6)] spends_bind_one [OF next_id] spends_bind_free [OF repo_spends(5)]
        spends_bind_last [OF newTransaction_spends] spends_bind_last spends_rules)
  have "spends 0 (replayIssueAssetMutation (transactionAssetRepository lE tE) c)"
    unfolding replayIssueAssetMutation_def Let_def by (intro spends_bind_free [OF replay_spends] spends_rules)
  then have "spends 2 (go_bind (replayIssueAssetMutation (transactionAssetRepository lE tE) c) (\<lambda>replayed.
      case replayed of Some replay \<Rightarrow> go_ok replay | None \<Rightarrow> issue_fresh world_service (transactionAssetRepository lE tE) rid c))"
    using fresh by (intro spends_bind_free spends_rules) (simp_all add: numeral_2_eq_2)
  then show ?thesis unfolding Issue_def option.sel by (intro spends_rules)
qed

lemma Transfer_spends: "spends 2 (Transfer (Some world_service) (Some (transactionAssetRepository lE tE)) rid c)"
  unfolding Transfer_def by (intro spends_if spends_err Issue_spends)

end
