(* ===== verification/Gift_Books.thy ===== *)
theory Gift_Books
  imports Gift_Service Ticket_Evidence
begin

text \<open>
  What the steps of the gift service do to the tables. The locale \<open>gift_store\<close> collects the engines of the five tables that carry
  gifts; its lemmas invert one step of each loop (freezing for an allocation, handing an allocation over, giving it back) and then the
  loops. Everything else the service does (identifiers, audit rows, events, the idempotency store, checks) leaves these five
  tables alone, which is the predicate \<open>quiet\<close>.
\<close>

subsection \<open>Steps that leave the gift tables alone\<close>

definition gift_core :: "gift_world \<Rightarrow> Lot list \<times> Transaction list \<times> Gift list \<times> GiftAllocation list \<times> GiftClaimToken list" where
  "gift_core w = (lots w, transactions w, gifts w, gift_allocations w, gift_tokens w)"

definition quiet :: "(gift_world, 'e, 'a) go \<Rightarrow> bool" where
  "quiet m \<longleftrightarrow> (\<forall>w r w'. m w = (r, w') \<longrightarrow> gift_core w' = gift_core w \<and> wall w' = wall w)"

lemma quietD: "quiet m \<Longrightarrow> m w = (r, w') \<Longrightarrow> gift_core w' = gift_core w"
  by (auto simp: quiet_def)

lemma quiet_wall: "quiet m \<Longrightarrow> m w = (r, w') \<Longrightarrow> wall w' = wall w"
  by (auto simp: quiet_def)

lemma quiet_bind [intro]: "quiet m \<Longrightarrow> (\<And>a. quiet (k a)) \<Longrightarrow> quiet (go_bind m k)"
  unfolding quiet_def by (fastforce simp: go_bind_def split: prod.splits sum.splits)

lemma quiet_basic [intro]: "quiet (go_ok a)" "quiet (go_err e)"
  by (auto simp: quiet_def)

lemma quiet_try [intro]: "quiet m \<Longrightarrow> quiet (go_try m)"
  by (fastforce simp: quiet_def go_try_inv)

lemma quiet_if [intro]: "quiet a \<Longrightarrow> quiet b \<Longrightarrow> quiet (if c then a else b)"
  by simp

lemma quiet_option [intro]: "quiet a \<Longrightarrow> (\<And>v. quiet (f v)) \<Longrightarrow> quiet (case r of None \<Rightarrow> a | Some v \<Rightarrow> f v)"
  by (simp split: option.splits)

lemma quiet_sum [intro]: "(\<And>e. quiet (f e)) \<Longrightarrow> (\<And>v. quiet (g v)) \<Longrightarrow> quiet (case r of Inl e \<Rightarrow> f e | Inr v \<Rightarrow> g v)"
  by (simp split: sum.splits)

lemma quiet_prod [intro]: "(\<And>a b. quiet (f a b)) \<Longrightarrow> quiet (case p of (a, b) \<Rightarrow> f a b)"
  by (simp split: prod.splits)

lemma quiet_map_error [intro]: "quiet m \<Longrightarrow> quiet (map_error f m)"
  unfolding map_error_def by (intro quiet_bind quiet_try quiet_sum quiet_basic)

lemmas quiet_rules = quiet_bind quiet_basic quiet_try quiet_if quiet_option quiet_sum quiet_prod quiet_map_error

lemma quiet_read [intro]: "quiet (db_take T p)" "quiet (db_find T p)" "quiet (db_ordered T p key)"
  by (auto simp: quiet_def db_take_def db_find_def db_ordered_def)

lemma quiet_clock [intro]: "quiet nowShanghai" "quiet (go_call wall_now)" "quiet ids_Next" "quiet (gift_uuid G)"
  by (auto simp: quiet_def nowShanghai_def NowShanghai_def ids_Next_def gift_uuid_def go_eval wall_now_def world_next_id_def gift_core_def
      split: prod.splits)

lemma quiet_claims [intro]: "quiet (on_gift_claims m)"
  by (auto simp: quiet_def on_gift_claims_def gift_core_def split: prod.splits)

lemma quiet_write [intro]: "quiet (db_create (gift_audit_tbl G) a)" "quiet (db_create (gift_event_tbl G) e)"
  by (auto simp: quiet_def db_create_def gift_tables gift_core_def split: sum.splits)

lemma quiet_projection [intro]: "quiet (giftProjectionByID G i)"
  by (auto simp: quiet_def giftProjectionByID_def)

lemma quiet_audit [intro]: "quiet (writeGiftAudit G ty i action g before after md)"
  unfolding writeGiftAudit_def Let_def by (intro quiet_rules quiet_clock quiet_write)

lemma quiet_outbox [intro]: "quiet (writeGiftOutbox G ty g payload)"
  unfolding writeGiftOutbox_def by (intro quiet_rules quiet_clock quiet_write)

lemma quiet_idempotency [intro]:
  "quiet (startIdempotency G ty i verb path key hash)" "quiet (cachedIdempotency G ty i path key)"
  "quiet (succeedIdempotency G i path key response)" "quiet (failIdempotency G i path key)"
  unfolding startIdempotency_def cachedIdempotency_def succeedIdempotency_def failIdempotency_def
  by (intro quiet_rules quiet_clock quiet_claims)+

lemma quiet_adult [intro]: "quiet (requireAdultCustomer G i now)"
  unfolding requireAdultCustomer_def customerAccount_def customerRealname_def pendingIdentityVerification_def
  by (intro quiet_rules quiet_read)

lemma quiet_locks [intro]: "quiet (lockGiftByNo G no)" "quiet (lockGiftByID G i)" "quiet (lockGiftTokens G i)"
  "quiet (lockGiftAllocationsAndLots G i)" "quiet (giver_gift G c no)" "quiet (giftIDByTokenDigest G d)"
  unfolding lockGiftByNo_def lockGiftByID_def lockGiftTokens_def lockGiftAllocationsAndLots_def lockGiftAllocations_def lockGiftLots_def
    giver_gift_def giftIDByTokenDigest_def Let_def
  by (intro quiet_rules quiet_read)+

lemma quiet_selection [intro]: "quiet (selected_lots G c request now)"
  unfolding selected_lots_def giftAnchorLot_def lockGiftGroupLots_def activeRenewalForLots_def by (intro quiet_rules quiet_read)

lemma quiet_evidence [intro]: "quiet (validateGiftHoldEvidence G g allocations rows)"
  unfolding validateGiftHoldEvidence_def giftHoldTransactions_def by (intro quiet_rules quiet_read)

lemma quiet_token [intro]: "quiet (newGiftShareToken G)"
  by (auto simp: quiet_def newGiftShareToken_def split: sum.splits)

lemma map_error_Inr [simp]: "map_error f m w = (Inr a, w') \<longleftrightarrow> m w = (Inr a, w')"
  by (auto simp: map_error_def go_bind_def go_try_def go_err_def go_ok_def split: prod.splits sum.splits)

lemma apart_same:
  assumes "ticket_world.more w' = ticket_world.more (w :: gift_world)"
  shows "gifts w' = gifts w" "gift_allocations w' = gift_allocations w" "gift_tokens w' = gift_tokens w"
  using assms by (cases w; cases w'; simp)+

lemma gift_core_iff: "gift_core w' = gift_core w \<longleftrightarrow> lots w' = lots w \<and> transactions w' = transactions w \<and> gifts w' = gifts w \<and>
    gift_allocations w' = gift_allocations w \<and> gift_tokens w' = gift_tokens w"
  by (auto simp: gift_core_def)

subsection \<open>The tables\<close>

locale gift_store =
  ticket: ticket_engines "wt_lotE G" "wt_txnE G" +
  gift: gorm_table "giftE G" gift_clash gift_fits +
  alloc: gorm_table "allocationE G" allocation_clash allocation_fits +
  token: gorm_table "tokenE G" token_clash token_fits
  for G :: gift_env and token_fits :: "GiftClaimToken \<Rightarrow> bool"

sublocale gift_store \<subseteq> assets: asset_ledger "gift_repo G" "lots :: gift_world \<Rightarrow> Lot list" transactions world_next_id wall_now
  unfolding gift_repo_def by (rule ticket.repository_laws)

context gift_store
begin

lemma asset_frame:
  fixes w w' :: gift_world
  assumes "go_keeps (apart_is (wall w, ticket_world.more w)) m" and "m w = (r, w')"
  shows "gifts w' = gifts w" "gift_allocations w' = gift_allocations w" "gift_tokens w' = gift_tokens w" "wall w' = wall w"
proof -
  have "wall w' = wall w" and same: "ticket_world.more w' = ticket_world.more w" using go_keepsD [OF assms] by simp_all
  then show "gifts w' = gifts w" "gift_allocations w' = gift_allocations w" "gift_tokens w' = gift_tokens w" "wall w' = wall w"
    by (simp_all add: apart_same [OF same])
qed

text \<open>A row changed by one of the three updates.\<close>

lemma one_row_done:
  "one_row (db_updates T p f) w = (Inr u, w') \<longleftrightarrow>
     (\<exists>rows. sql_updates (tbl_engine T) p f (tbl_rows T w) = Inr (rows, 1) \<and> w' = tbl_set T rows w)"
  by (auto simp: one_row_def db_updates_inv go_inv)

lemma updateGiftAllocation_done:
  assumes "updateGiftAllocation G i f w = (Inr u, w')"
  shows "w' = w\<lparr>gift_allocations := map (\<lambda>a. if ga_ID a = i then f a else a) (gift_allocations w)\<rparr>"
  using assms by (auto simp: updateGiftAllocation_def one_row_done gift_tables update_where_def dest!: alloc.updates_rows)

lemma updateGiftToken_done:
  assumes "updateGiftToken G i f w = (Inr u, w')"
  shows "w' = w\<lparr>gift_tokens := map (\<lambda>t. if gt_ID t = i then f t else t) (gift_tokens w)\<rparr>"
  using assms by (auto simp: updateGiftToken_def one_row_done gift_tables update_where_def dest!: token.updates_rows)

lemma updateGift_done:
  assumes "updateGift G i v f w = (Inr u, w')"
  shows "w' = w\<lparr>gifts := map (\<lambda>g. if gf_ID g = i \<and> gf_Version g = v then f g else g) (gifts w)\<rparr>"
  using assms by (auto simp: updateGift_def one_row_done gift_tables update_where_def dest!: gift.updates_rows)

end

subsection \<open>Freezing for a gift\<close>

text \<open>\<open>held_row gid now item i\<close> is the allocation written for a selected lot.\<close>

definition held_row :: "uint64 \<Rightarrow> go_time \<Rightarrow> giftFEFOSelection \<Rightarrow> uint64 \<Rightarrow> GiftAllocation" where
  "held_row giftID now item i =
     \<lparr>ga_ID = i, ga_GiftID = giftID, ga_SourceLotID = lot_ID (sel_lot item), ga_ReceiverLotID = None,
      ga_Quantity = sel_quantity item, ga_SourceExpiresAt = lot_ExpiresAt (sel_lot item), ga_Status = GiftAllocationStatusHeld,
      ga_CreatedAt = now, ga_UpdatedAt = now\<rparr>"

definition gift_row :: "uint64 \<Rightarrow> Transaction \<Rightarrow> bool" where
  "gift_row i t \<longleftrightarrow> biz_row ''gift'' i t"

definition hold_evidence :: "uint64 \<Rightarrow> uint64 \<Rightarrow> uint64 \<Rightarrow> go_uint \<Rightarrow> Transaction \<Rightarrow> bool" where
  "hold_evidence giver giftID lotID q t \<longleftrightarrow> evidence_of TransactionTypeGiftHold ''gift'' giftID lotID t \<and>
     txn_ActionKey t = gift_action ''gift_hold:'' giftID lotID \<and> txn_OwnerCustomerID t = giver \<and>
     txn_QuantityDelta t = - q \<and> q \<le> txn_BeforeAvailableQuantity t \<and> txn_AfterAvailableQuantity t = txn_BeforeAvailableQuantity t - q"

context gift_store
begin

lemma hold_item_done:
  assumes run: "hold_item G c gid now item w = (Inr u, w')" and b: "books (lots w) (transactions w)"
    and new: "\<And>t. t \<in> set (transactions w) \<Longrightarrow> \<not> evidence_of TransactionTypeGiftHold ''gift'' gid (lot_ID (sel_lot item)) t"
  obtains v t i where "books (lots w') (transactions w')" and "lots_evolve (lots w) (lots w')"
    and "transactions w' = transactions w @ [t]" and "hold_evidence c gid (lot_ID (sel_lot item)) (sel_quantity item) t"
    and "lot_balances (lots w) (lot_ID (sel_lot item)) = Some v" and "uint (sel_quantity item) \<le> v" and "sel_quantity item \<noteq> 0"
    and "lot_balances (lots w') = (lot_balances (lots w))(lot_ID (sel_lot item) \<mapsto> v - uint (sel_quantity item))"
    and "gift_allocations w' = gift_allocations w @ [held_row gid now item i]"
    and "\<forall>a\<in>set (gift_allocations w). \<not> allocation_clash (held_row gid now item i) a"
    and "gifts w' = gifts w" and "gift_tokens w' = gift_tokens w" and "wall w' = wall w"
proof -
  let ?cmd = "hold_command c gid now item"
  from run obtain m w1 i w2 where
    frz: "Freeze (Some world_service) (Some (gift_repo G)) (ge_RequestID G) ?cmd w = (Inr m, w1)"
    and nxt: "ids_Next w1 = (Inr i, w2)"
    and ins: "createGiftAllocation G (held_row gid now item i) w2 = (Inr u, w')"
    unfolding hold_item_def by (elim go_bindE) (auto simp: held_row_def)
  have deb: "debit (Some world_service) (Some (gift_repo G)) (ge_RequestID G) ?cmd True w = (Inr m, w1)"
    using frz by (simp add: Freeze_def hold_command_def)
  have sel: "cmd_TransactionType ?cmd = TransactionTypeGiftHold" "cmd_BizType ?cmd = ''gift''" "cmd_BizID ?cmd = gid"
    "cmd_LotID ?cmd = lot_ID (sel_lot item)" "cmd_Quantity ?cmd = sel_quantity item" "cmd_OwnerCustomerID ?cmd = c"
    "cmd_ActionKey ?cmd = gift_action ''gift_hold:'' gid (lot_ID (sel_lot item))" by (simp_all add: hold_command_def)
  have fresh: "debit_fresh world_service (gift_repo G) (ge_RequestID G) ?cmd True w = (Inr m, w1)" "cmd_Quantity ?cmd \<noteq> 0"
    by (rule assets.debit_not_replayed [OF deb], use new in \<open>simp add: sel\<close>)+
  have frame: "gifts w1 = gifts w" "gift_allocations w1 = gift_allocations w" "gift_tokens w1 = gift_tokens w" "wall w1 = wall w"
    using asset_frame [OF debit_apart deb [unfolded gift_repo_def]] by simp_all
  note q2 = quietD [OF quiet_clock(3) nxt] quiet_wall [OF quiet_clock(3) nxt]
  have op: "run_op world_service (gift_repo G) (ge_RequestID G) (OpFreeze ?cmd) w = (Inr m, w1)" using frz by simp
  from ins obtain rows where rows: "sql_create (allocationE G) (held_row gid now item i) (gift_allocations w2) = Inr rows"
    and w': "w' = w2\<lparr>gift_allocations := rows\<rparr>"
    by (auto simp: createGiftAllocation_def db_create_inv gift_tables)
  from assets.debit_fresh_done [OF b fresh(1)] show thesis
  proof cases
    case (1 lot at t)
    note bal = lot_balances_posting [OF b 1(7)]
    have "uint (sel_quantity item) \<le> uint (lot_AvailableQuantity lot)" using 1(6) by (simp add: sel word_le_def)
    show thesis
    proof (rule that [of t "uint (lot_AvailableQuantity lot)" i])
      show "books (lots w') (transactions w')" using assets.run_op_books [OF b _ op] q2 w' by (simp add: gift_core_iff)
      show "lots_evolve (lots w) (lots w')" using assets.run_op_evolves [OF b op] q2 w' by (simp add: gift_core_iff)
      show "transactions w' = transactions w @ [t]" using 1(7) q2 w' by (simp add: gift_core_iff posting_def)
      show "hold_evidence c gid (lot_ID (sel_lot item)) (sel_quantity item) t"
        using 1(2,3,6,7,9,11-13) by (auto simp: hold_evidence_def evidence_of_def posting_def sel)
      show "lot_balances (lots w') = (lot_balances (lots w))(lot_ID (sel_lot item) \<mapsto> uint (lot_AvailableQuantity lot) - uint (sel_quantity item))"
        using bal(1) 1(2,6) q2 w' by (simp add: gift_core_iff sel uint_diff_le)
    qed (use bal(2) 1(2) fresh(2) frame q2 w' alloc.create_row [OF rows] \<open>uint (sel_quantity item) \<le> _\<close> in \<open>auto simp: gift_core_iff sel\<close>)
  qed
qed

end

subsection \<open>Handing over and giving back\<close>

definition claimed_row :: "uint64 \<Rightarrow> go_time \<Rightarrow> GiftAllocation \<Rightarrow> GiftAllocation" where
  "claimed_row i now a = a\<lparr>ga_ReceiverLotID := Some i, ga_Status := GiftAllocationStatusClaimed, ga_UpdatedAt := now\<rparr>"

definition restored_row :: "go_time \<Rightarrow> GiftAllocation \<Rightarrow> GiftAllocation" where
  "restored_row now a = a\<lparr>ga_Status := GiftAllocationStatusRestored, ga_UpdatedAt := now\<rparr>"

lemma row_sel [simp]:
  "ga_ID (claimed_row i now a) = ga_ID a" "ga_ID (restored_row now a) = ga_ID a"
  "ga_GiftID (claimed_row i now a) = ga_GiftID a" "ga_GiftID (restored_row now a) = ga_GiftID a"
  "ga_SourceLotID (claimed_row i now a) = ga_SourceLotID a" "ga_SourceLotID (restored_row now a) = ga_SourceLotID a"
  "ga_Quantity (claimed_row i now a) = ga_Quantity a" "ga_Quantity (restored_row now a) = ga_Quantity a"
  "ga_SourceExpiresAt (claimed_row i now a) = ga_SourceExpiresAt a" "ga_SourceExpiresAt (restored_row now a) = ga_SourceExpiresAt a"
  "ga_ReceiverLotID (claimed_row i now a) = Some i" "ga_ReceiverLotID (restored_row now a) = ga_ReceiverLotID a"
  "ga_Status (claimed_row i now a) = GiftAllocationStatusClaimed" "ga_Status (restored_row now a) = GiftAllocationStatusRestored"
  by (simp_all add: claimed_row_def restored_row_def)

text \<open>What a return leaves of a balance: an expired lot forfeits everything.\<close>

definition given_back :: "go_time \<Rightarrow> GiftAllocation \<Rightarrow> int \<Rightarrow> int" where
  "given_back now a v = (if ga_SourceExpiresAt a \<le> now then 0 else v + uint (ga_Quantity a))"

lemma truncated_instant: "truncate_to nanos_per_milli (truncate_to nanos_per_milli t) = truncate_to nanos_per_milli t"
  by (simp add: truncate_to_def nanos_per_milli_def minus_mod_eq_mult_div)

lemma instant_now:
  assumes "now = truncate_to nanos_per_milli (wall w)"
  shows "truncate_to nanos_per_milli (if now = 0 then fst (wall_now w) else now) = now"
  using assms truncated_instant [of "wall w"] by auto

context gift_store
begin

lemma restore_allocation_done:
  assumes run: "restore_allocation G g sources now a w = (Inr u, w')" and b: "books (lots w) (transactions w)"
    and now: "now = truncate_to nanos_per_milli (wall w)"
    and src: "\<And>l. sources (ga_SourceLotID a) = Some l \<Longrightarrow> lot_ID l = ga_SourceLotID a"
    and same: "\<And>l l'. sources (ga_SourceLotID a) = Some l \<Longrightarrow> l' \<in> set (lots w) \<Longrightarrow> lot_ID l' = lot_ID l \<Longrightarrow> lot_ExpiresAt l' = lot_ExpiresAt l"
    and new: "\<And>t. t \<in> set (transactions w) \<Longrightarrow> \<not> evidence_of TransactionTypeGiftRestore ''gift'' (gf_ID g) (ga_SourceLotID a) t"
  obtains v rows where "books (lots w') (transactions w')" and "lots_evolve (lots w) (lots w')"
    and "transactions w' = transactions w @ rows"
    and "\<forall>t\<in>set rows. gift_row (gf_ID g) t \<and> txn_LotID t = ga_SourceLotID a \<and> txn_TransactionType t \<noteq> TransactionTypeGiftHold"
    and "lot_balances (lots w) (ga_SourceLotID a) = Some v"
    and "lot_balances (lots w') = (lot_balances (lots w))(ga_SourceLotID a \<mapsto> given_back now a v)"
    and "gift_allocations w' = map (\<lambda>x. if ga_ID x = ga_ID a then restored_row now x else x) (gift_allocations w)"
    and "gifts w' = gifts w" and "gift_tokens w' = gift_tokens w" and "wall w' = wall w"
    and "ga_Status a = GiftAllocationStatusHeld" and "ga_ReceiverLotID a = None"
proof -
  from run obtain l where l: "sources (ga_SourceLotID a) = Some l" and match: "source_matches g a l"
    and held: "ga_Status a = GiftAllocationStatusHeld" "ga_ReceiverLotID a = None"
    by (auto simp: restore_allocation_def split: if_splits option.splits)
  let ?cmd = "restore_command g a l now"
  from run l obtain m w1 where
    res: "Restore (Some world_service) (Some (gift_repo G)) (ge_RequestID G) ?cmd w = (Inr m, w1)"
    and upd: "updateGiftAllocation G (ga_ID a) (restored_row now) w1 = (Inr u, w')"
    by (auto simp: restore_allocation_def restored_row_def [abs_def] split: if_splits elim!: go_bindE)
  have sel: "cmd_TransactionType ?cmd = TransactionTypeGiftRestore" "cmd_BizType ?cmd = ''gift''" "cmd_BizID ?cmd = gf_ID g"
    "cmd_LotID ?cmd = ga_SourceLotID a" "cmd_Quantity ?cmd = ga_Quantity a" "cmd_OccurredAt ?cmd = now"
    using src [OF l] by (simp_all add: restore_command_def)
  obtain e where ev: "cmd_ExpiryEvidence ?cmd = Some e" "ev_BizType e = ''gift''" "ev_BizID e = gf_ID g" "ev_TransactionType e = TransactionTypeExpiry"
    by (simp add: restore_command_def)
  have fresh: "restore_fresh world_service (gift_repo G) (ge_RequestID G) ?cmd w = (Inr m, w1)" "cmd_Quantity ?cmd \<noteq> 0"
    by (rule assets.Restore_not_replayed [OF res], use new in \<open>simp add: sel\<close>)+
  note frame = asset_frame [OF Restore_apart res [unfolded gift_repo_def]]
  have op: "run_op world_service (gift_repo G) (ge_RequestID G) (OpRestore ?cmd) w = (Inr m, w1)" using res by simp
  obtain rows where rows: "transactions w1 = transactions w @ rows" "\<forall>t\<in>set rows. biz_row ''gift'' (gf_ID g) t \<and> txn_LotID t = ga_SourceLotID a \<and>
      txn_TransactionType t \<in> {TransactionTypeGiftRestore, TransactionTypeExpiry}"
    by (rule assets.restore_evidence [OF fresh(1) ev(1)]) (auto simp: ev sel)
  note w' = updateGiftAllocation_done [OF upd]
  obtain v where v: "lot_balances (lots w) (ga_SourceLotID a) = Some v"
    and v': "lot_balances (lots w1) = (lot_balances (lots w))(ga_SourceLotID a \<mapsto> given_back now a v)"
  proof -
    from assets.restore_fresh_done [OF b fresh] show thesis
    proof cases
      case (1 lot tm t ls1 ts1)
      have tm: "tm = now" using 1(10) instant_now [OF now] unfolding sel by (rule trans)
      have exp: "lot_ExpiresAt lot = ga_SourceExpiresAt a"
        using same [OF l 1(1)] 1(2) src [OF l] match by (simp add: sel source_matches_def)
      note first = lot_balances_posting [OF b 1(6)] restored_quantity(1) [OF b 1(1,5)]
      show thesis
      proof (cases "tm < lot_ExpiresAt lot")
        case True
        with 1(9) have "lots w1 = ls1" by simp
        with first True tm exp 1(2) show thesis by (intro that [of "uint (lot_AvailableQuantity lot)"]) (auto simp: given_back_def sel)
      next
        case False
        with 1(9) obtain lot1 t1 where p: "posting lot1 \<lparr>chg_AvailableQuantity = 0, chg_Status = LotStatusExpired, chg_EverUsed = False,
            chg_SetEverUsed = False, chg_UpdatedAt = tm\<rparr> t1 ls1 ts1 (lots w1) (transactions w1)" "lot_ID lot1 = cmd_LotID ?cmd"
          by auto
        from lot_balances_posting(1) [OF 1(7) p(1)] first 1(2) p(2) False tm exp show thesis
          by (intro that [of "uint (lot_AvailableQuantity lot)"]) (auto simp: given_back_def sel)
      qed
    qed
  qed
  show thesis
  proof (rule that [of rows v])
    show "books (lots w') (transactions w')" using assets.run_op_books [OF b _ op] w' by simp
    show "lots_evolve (lots w) (lots w')" using assets.run_op_evolves [OF b op] w' by simp
    show "\<forall>t\<in>set rows. gift_row (gf_ID g) t \<and> txn_LotID t = ga_SourceLotID a \<and> txn_TransactionType t \<noteq> TransactionTypeGiftHold"
      using rows(2) by (auto simp: gift_row_def TransactionTypeGiftHold_def TransactionTypeGiftRestore_def TransactionTypeExpiry_def)
  qed (use v v' w' rows(1) frame held in auto)
qed

lemma receiver_defaults: "issue_defaults now (receiver_lot i c g a l now) = receiver_lot i c g a l now"
  by (simp add: issue_defaults_def receiver_lot_def Let_def)

lemma claim_allocation_done:
  assumes run: "claim_allocation G c g sources now a w = (Inr u, w')" and b: "books (lots w) (transactions w)"
    and now: "now = truncate_to nanos_per_milli (wall w)" and ids: "ids_ready (Suc (Suc (Suc n))) w"
    and old: "\<And>t. t \<in> set (transactions w) \<Longrightarrow> gift_row (gf_ID g) t \<Longrightarrow> txn_TransactionType t = TransactionTypeGiftClaim \<Longrightarrow>
      uint (txn_LotID t) \<le> snow_stamp (snow w)"
  obtains l i t where "sources (ga_SourceLotID a) = Some l" and "source_matches g a l"
    and "books (lots w') (transactions w')" and "lots w' = lots w @ [receiver_lot i c g a l now]"
    and "\<forall>l'\<in>set (lots w). lot_ID l' \<noteq> i"
    and "transactions w' = transactions w @ [t]" and "evidence_of TransactionTypeGiftClaim ''gift'' (gf_ID g) i t"
    and "gift_allocations w' = map (\<lambda>x. if ga_ID x = ga_ID a then claimed_row i now x else x) (gift_allocations w)"
    and "gifts w' = gifts w" and "gift_tokens w' = gift_tokens w" and "wall w' = wall w"
    and "ids_ready n w'" and "uint i \<le> snow_stamp (snow w')" and "snow_stamp (snow w) \<le> snow_stamp (snow w')"
    and "ga_Status a = GiftAllocationStatusHeld" and "ga_ReceiverLotID a = None" and "ga_Quantity a \<noteq> 0"
proof -
  from run obtain l where l: "sources (ga_SourceLotID a) = Some l" and match: "source_matches g a l"
    and held: "ga_Status a = GiftAllocationStatusHeld" "ga_ReceiverLotID a = None"
    by (auto simp: claim_allocation_def split: if_splits option.splits)
  from run l obtain i w1 m w2 where nxt: "ids_Next w = (Inr i, w1)"
    and tr: "Transfer (Some world_service) (Some (gift_repo G)) (ge_RequestID G) (claim_command i c g a l now) w1 = (Inr m, w2)"
    and upd: "updateGiftAllocation G (ga_ID a) (claimed_row i now) w2 = (Inr u, w')"
    by (auto simp: claim_allocation_def claimed_row_def [abs_def] split: if_splits elim!: go_bindE)
  let ?cmd = "claim_command i c g a l now"
  let ?iss = "\<lparr>iss_Lot = tr_ReceiverLot ?cmd, iss_TransactionType = tr_TransactionType ?cmd, iss_BizType = tr_BizType ?cmd,
    iss_BizID = tr_BizID ?cmd, iss_ActionKey = tr_ActionKey ?cmd, iss_Metadata = tr_Metadata ?cmd, iss_OccurredAt = tr_OccurredAt ?cmd\<rparr>"
  have wid: "world_next_id w = (i, w1)" using nxt by (auto simp: ids_Next_def go_call_def split: prod.splits)
  note id = next_id_above [OF ids wid]
  note q1 = quietD [OF quiet_clock(3) nxt] quiet_wall [OF quiet_clock(3) nxt]
  note frame = asset_frame [OF Transfer_apart tr [unfolded gift_repo_def]]
  note spent = spendsD [OF Transfer_spends tr [unfolded gift_repo_def]]
  have b1: "books (lots w1) (transactions w1)" using b q1 by (simp add: gift_core_iff)
  have iss: "Issue (Some world_service) (Some (gift_repo G)) (ge_RequestID G) ?iss w1 = (Inr m, w2)" by (rule assets.Transfer_done(1) [OF tr])
  have sel: "lot_ID (iss_Lot ?iss) = i" "iss_Lot ?iss = receiver_lot i c g a l now" by (simp_all add: claim_command_def receiver_lot_def)
  have none: "\<not> evidence_of (iss_TransactionType ?iss) (iss_BizType ?iss) (iss_BizID ?iss) (lot_ID (iss_Lot ?iss)) t" if "t \<in> set (transactions w1)" for t
    using that old [of t] id(2) q1 by (auto simp: evidence_of_def gift_row_def biz_row_def claim_command_def receiver_lot_def gift_core_iff)
  note fresh = assets.Issue_not_replayed [OF iss _ none]
  have fr: "issue_fresh world_service (gift_repo G) (ge_RequestID G) ?iss w1 = (Inr m, w2)" "ga_Quantity a \<noteq> 0"
    using fresh id(4) by (auto simp: claim_command_def receiver_lot_def)
  have op: "run_op world_service (gift_repo G) (ge_RequestID G) (OpTransfer ?cmd) w1 = (Inr m, w2)" using tr by simp
  obtain t where t: "transactions w2 = transactions w1 @ [t]" "evidence_of TransactionTypeGiftClaim ''gift'' (gf_ID g) i t"
      "mut_Lot m = issue_defaults (truncate_to nanos_per_milli (if now = 0 then fst (wall_now w1) else now)) (receiver_lot i c g a l now)"
    by (rule assets.issue_evidence [OF fr(1)]) (use id(4) in \<open>auto simp: claim_command_def receiver_lot_def\<close>)
  note w' = updateGiftAllocation_done [OF upd]
  from assets.issue_fresh_done [OF fr(1)] show thesis
  proof cases
    case (1 at j t')
    have "j = i" using 1(4) id(4) sel by simp
    have lot: "mut_Lot m = receiver_lot i c g a l now" using t(3) instant_now [of now w1] q1(2) now by (simp add: receiver_defaults)
    show thesis
    proof (rule that [OF l match, of i t])
      show "books (lots w') (transactions w')"
        using assets.run_op_books [OF b1 _ op] w' by (simp add: claim_command_def receiver_lot_def)
      show "uint i \<le> snow_stamp (snow w')" "snow_stamp (snow w) \<le> snow_stamp (snow w')" "ids_ready n w'"
        using id spent(2) [of n] spent(3) ids_ready_mono [OF id(3), of 2] w' by (auto simp: ids_ready_def)
    qed (use 1(1,6) lot t w' q1 frame held fr(2) \<open>j = i\<close> in \<open>auto simp: gift_core_iff\<close>)
  qed
qed

end

subsection \<open>The tables in memory\<close>

definition mem_gift :: gift_env where
  "mem_gift =
     \<lparr>wt_lotE = mem_lots, wt_txnE = mem_txns, giftE = mem_engine gift_clash gift_fits,
      allocationE = mem_engine allocation_clash allocation_fits, tokenE = mem_engine token_clash (\<lambda>_. True),
      renewalE = mem_engine (\<lambda>a b. arg_ID a = arg_ID b) (\<lambda>_. True), customerE = mem_engine (\<lambda>a b. gca_ID a = gca_ID b) (\<lambda>_. True),
      realnameE = mem_engine (\<lambda>a b. grv_CustomerID a = grv_CustomerID b) (\<lambda>_. True), identityE = mem_engine (=) (\<lambda>_. True),
      projectionE = mem_engine (=) (\<lambda>_. True), gift_auditE = mem_engine (\<lambda>a b. gau_ID a = gau_ID b) (\<lambda>_. True),
      gift_eventE = mem_engine (\<lambda>a b. gev_ID a = gev_ID b) (\<lambda>_. True), gift_claimE = mem_engine rec_clash rec_fits,
      ge_pepper = replicate 32 (CHR ''p''), ge_sha = (\<lambda>s. s), ge_json = (\<lambda>_. ''{}''), ge_marshal = gd_GiftNo,
      ge_unmarshal = (\<lambda>_. Inl (ErrMessage ''unexpected end of JSON input'')), ge_random = (\<lambda>_. Inr (replicate 32 (CHR ''r''))),
      ge_uuid = (\<lambda>_. ''uuid''), ge_pager = demo_pager, ge_commit = (\<lambda>_. None), ge_RequestID = None, ge_IPHash = None,
      ge_UserAgent = None, ge_AccountID = 0\<rparr>"

interpretation mem_gift: gift_store mem_gift "\<lambda>_. True"
  by (simp add: gift_store_def mem_gift_def mem_table.gorm_table_axioms mem_ticket.ticket_engines_axioms)

end
