(* ===== verification/Gift_Loops.thy ===== *)
theory Gift_Loops
  imports Gift_Books
begin

text \<open>
  The loops of the gift service over whole gifts. \<open>stock\<close> is the number of bottles in all lots; \<open>changed_at\<close> says which balances a
  loop changes and how. A loop over allocations changes the balance of each source lot once and no other; a loop over tokens
  rewrites the tokens it was given.
\<close>

subsection \<open>Balances changed at the lots of a list\<close>

definition stock :: "balances \<Rightarrow> int" where
  "stock B = (\<Sum>i\<in>dom B. the (B i))"

definition changed_at :: "('x \<Rightarrow> uint64) \<Rightarrow> ('x \<Rightarrow> int \<Rightarrow> int) \<Rightarrow> 'x list \<Rightarrow> balances \<Rightarrow> balances \<Rightarrow> bool" where
  "changed_at key f xs B B' \<longleftrightarrow> (\<forall>x\<in>set xs. \<exists>v. B (key x) = Some v \<and> B' (key x) = Some (f x v)) \<and>
     (\<forall>i. i \<notin> key ` set xs \<longrightarrow> B' i = B i)"

lemma changed_at_Nil [simp]: "changed_at key f [] B B' \<longleftrightarrow> B' = B"
  by (auto simp: changed_at_def fun_eq_iff)

lemma changed_at_Cons:
  assumes "B (key x) = Some v" and "changed_at key f xs (B(key x \<mapsto> f x v)) B'" and "key x \<notin> key ` set xs"
  shows "changed_at key f (x # xs) B B'"
  unfolding changed_at_def
proof (intro conjI ballI allI impI)
  fix y
  assume "y \<in> set (x # xs)"
  then consider "y = x" | "y \<in> set xs" "key y \<noteq> key x" using assms(3) by (metis imageI set_ConsD)
  then show "\<exists>u. B (key y) = Some u \<and> B' (key y) = Some (f y u)"
  proof cases
    case 2
    then show ?thesis using assms(2) unfolding changed_at_def by (metis fun_upd_other)
  qed (use assms in \<open>auto simp: changed_at_def\<close>)
qed (use assms in \<open>auto simp: changed_at_def\<close>)

lemma changed_at_ConsE:
  assumes "changed_at key f (x # xs) B B'" and "key x \<notin> key ` set xs"
  obtains v where "B (key x) = Some v" and "changed_at key f xs (B(key x \<mapsto> f x v)) B'"
proof -
  from assms(1) obtain v where v: "B (key x) = Some v" "B' (key x) = Some (f x v)" by (auto simp: changed_at_def)
  have "changed_at key f xs (B(key x \<mapsto> f x v)) B'"
    unfolding changed_at_def
  proof (intro conjI ballI allI impI)
    fix y
    assume y: "y \<in> set xs"
    with assms(2) have "key y \<noteq> key x" by (metis imageI)
    then show "\<exists>u. (B(key x \<mapsto> f x v)) (key y) = Some u \<and> B' (key y) = Some (f y u)"
      using assms(1) y by (auto simp: changed_at_def)
  next
    fix i
    assume "i \<notin> key ` set xs"
    then show "B' i = (B(key x \<mapsto> f x v)) i" using assms(1) v(2) by (cases "i = key x") (auto simp: changed_at_def)
  qed
  with v show thesis using that by blast
qed

lemma stock_upd:
  assumes "finite (dom B)" and "B i = Some v"
  shows "stock (B(i \<mapsto> u)) = stock B + u - v"
proof -
  have i: "i \<in> dom B" using assms(2) by blast
  have "(\<Sum>j\<in>dom B. the ((B(i \<mapsto> u)) j)) = the ((B(i \<mapsto> u)) i) + (\<Sum>j\<in>dom B - {i}. the ((B(i \<mapsto> u)) j))"
    by (rule sum.remove [OF assms(1) i])
  moreover have "(\<Sum>j\<in>dom B. the (B j)) = the (B i) + (\<Sum>j\<in>dom B - {i}. the (B j))"
    by (rule sum.remove [OF assms(1) i])
  moreover have "(\<Sum>j\<in>dom B - {i}. the ((B(i \<mapsto> u)) j)) = (\<Sum>j\<in>dom B - {i}. the (B j))"
    by (rule sum.cong) auto
  moreover have "dom (B(i \<mapsto> u)) = dom B" using i by auto
  ultimately show ?thesis using assms(2) by (simp add: stock_def)
qed

lemma stock_new: "finite (dom B) \<Longrightarrow> B i = None \<Longrightarrow> stock (B(i \<mapsto> u)) = stock B + u"
  by (auto simp: stock_def domIff intro!: sum.cong)

lemma stock_changed:
  assumes "changed_at key f xs B B'" and "distinct (map key xs)" and "finite (dom B)"
  shows "stock B' = stock B + (\<Sum>x\<leftarrow>xs. f x (the (B (key x))) - the (B (key x)))"
  using assms
proof (induction xs arbitrary: B)
  case (Cons x xs)
  from Cons.prems(2) have "key x \<notin> key ` set xs" by simp
  with Cons.prems(1) obtain v where v: "B (key x) = Some v" "changed_at key f xs (B(key x \<mapsto> f x v)) B'"
    by (rule changed_at_ConsE)
  have "key y \<noteq> key x" if "y \<in> set xs" for y using Cons.prems(2) that by (metis \<open>key x \<notin> key ` set xs\<close> imageI)
  then have "map (\<lambda>y. f y (the ((B(key x \<mapsto> f x v)) (key y))) - the ((B(key x \<mapsto> f x v)) (key y))) xs =
      map (\<lambda>y. f y (the (B (key y))) - the (B (key y))) xs" by simp
  then have "stock B' = stock (B(key x \<mapsto> f x v)) + (\<Sum>y\<leftarrow>xs. f y (the (B (key y))) - the (B (key y)))"
    using Cons.IH [OF v(2)] Cons.prems(2,3) by (simp only: distinct.simps list.map dom_fun_upd finite_insert if_False option.distinct)
  then show ?case using stock_upd [OF Cons.prems(3) v(1), of "f x v"] v(1) by simp
qed simp

lemma finite_balances [simp]: "finite (dom (lot_balances ls))"
proof -
  have "dom (lot_balances ls) = lot_ID ` set ls" by (auto simp: dom_def)
  then show ?thesis by simp
qed

lemma balance_nonneg: "lot_balances ls i = Some v \<Longrightarrow> 0 \<le> v"
  by (auto simp: lot_balances_def)

lemma stock_issue:
  assumes "distinct (map lot_ID (ls @ new))"
  shows "stock (lot_balances (ls @ new)) = stock (lot_balances ls) + (\<Sum>l\<leftarrow>new. uint (lot_AvailableQuantity l))"
  using assms
proof (induction new rule: rev_induct)
  case (snoc l new)
  then have fresh: "\<forall>l'\<in>set (ls @ new). lot_ID l' \<noteq> lot_ID l" by (auto simp: image_iff)
  then have "lot_balances (ls @ new) (lot_ID l) = None" unfolding lot_balances_none by (metis imageE)
  with snoc lot_balances_issue [OF fresh] show ?case by (simp add: stock_new del: lot_balances_none fun_upd_apply)
qed simp

lemma balances_issue:
  assumes "distinct (map lot_ID (ls @ new))" and "i \<in> lot_ID ` set ls"
  shows "lot_balances (ls @ new) i = lot_balances ls i"
proof -
  from assms(2) obtain l where "l \<in> set ls" "i = lot_ID l" by blast
  then show ?thesis using assms(1) lot_balances_lookup [of "ls @ new" l] lot_balances_lookup [of ls l] by simp
qed

subsection \<open>Freezing for every selected lot\<close>

abbreviation sel_ID :: "giftFEFOSelection \<Rightarrow> uint64" where
  "sel_ID item \<equiv> lot_ID (sel_lot item)"

abbreviation sel_drawn :: "giftFEFOSelection \<Rightarrow> int \<Rightarrow> int" where
  "sel_drawn item v \<equiv> v - uint (sel_quantity item)"

lemma go_for_Cons:
  assumes "go_for (\<lambda>x _. body x) (x # xs) () w = (Inr u, w')"
  obtains w1 where "body x w = (Inr (), w1)" and "go_for (\<lambda>x _. body x) xs () w1 = (Inr u, w')"
  using assms by (auto simp: go_inv)

context gift_store
begin

lemma hold_loop_done:
  assumes "go_for (\<lambda>item _. hold_item G c gid now item) items () w = (Inr u, w')" and "books (lots w) (transactions w)"
    and "\<forall>t\<in>set (transactions w). gift_row gid t \<longrightarrow> txn_LotID t \<notin> sel_ID ` set items" and "distinct (map sel_ID items)"
  shows "books (lots w') (transactions w') \<and> lots_evolve (lots w) (lots w') \<and>
    changed_at sel_ID sel_drawn items (lot_balances (lots w)) (lot_balances (lots w')) \<and>
    (\<forall>item\<in>set items. sel_quantity item \<noteq> 0) \<and>
    (\<exists>ts. transactions w' = transactions w @ ts \<and>
      list_all2 (\<lambda>item t. hold_evidence c gid (sel_ID item) (sel_quantity item) t) items ts) \<and>
    (\<exists>ids. length ids = length items \<and> gift_allocations w' = gift_allocations w @ map2 (held_row gid now) items ids) \<and>
    (distinct (map ga_ID (gift_allocations w)) \<longrightarrow> distinct (map ga_ID (gift_allocations w'))) \<and>
    gifts w' = gifts w \<and> gift_tokens w' = gift_tokens w \<and> wall w' = wall w"
  using assms
proof (induction items arbitrary: w)
  case (Cons item items)
  from Cons.prems(1) obtain w1 where one: "hold_item G c gid now item w = (Inr (), w1)"
    and rest: "go_for (\<lambda>item _. hold_item G c gid now item) items () w1 = (Inr u, w')" by (rule go_for_Cons)
  have new: "\<not> evidence_of TransactionTypeGiftHold ''gift'' gid (sel_ID item) t" if "t \<in> set (transactions w)" for t
    using Cons.prems(3) that by (auto simp: gift_row_def biz_row_def evidence_of_def)
  show ?case
  proof (rule hold_item_done [OF one Cons.prems(2)], erule new, goal_cases)
    case (1 v t i)
    have "gift_row gid t" "txn_LotID t = sel_ID item" using 1(4) by (auto simp: hold_evidence_def gift_row_def evidence_of_def biz_row_def)
    then have later: "\<forall>t\<in>set (transactions w1). gift_row gid t \<longrightarrow> txn_LotID t \<notin> sel_ID ` set items"
      using Cons.prems(3,4) 1(3) by (auto simp del: image_iff)
    from Cons.prems(4) have d: "distinct (map sel_ID items)" "sel_ID item \<notin> sel_ID ` set items" by simp_all
    have ih: "books (lots w') (transactions w')" "lots_evolve (lots w1) (lots w')"
        "changed_at sel_ID sel_drawn items (lot_balances (lots w1)) (lot_balances (lots w'))"
        "\<forall>item\<in>set items. sel_quantity item \<noteq> 0"
        "distinct (map ga_ID (gift_allocations w1)) \<Longrightarrow> distinct (map ga_ID (gift_allocations w'))"
        "gifts w' = gifts w1" "gift_tokens w' = gift_tokens w1" "wall w' = wall w1"
      and "\<exists>ts. transactions w' = transactions w1 @ ts \<and>
         list_all2 (\<lambda>item t. hold_evidence c gid (sel_ID item) (sel_quantity item) t) items ts"
      and "\<exists>ids. length ids = length items \<and> gift_allocations w' = gift_allocations w1 @ map2 (held_row gid now) items ids"
      using Cons.IH [OF rest 1(1) later d(1)] by simp_all
    then obtain ts ids where ts: "transactions w' = transactions w1 @ ts"
        "list_all2 (\<lambda>item t. hold_evidence c gid (sel_ID item) (sel_quantity item) t) items ts"
      and ids: "length ids = length items" "gift_allocations w' = gift_allocations w1 @ map2 (held_row gid now) items ids" by blast
    show ?thesis
    proof (intro conjI)
      show "changed_at sel_ID sel_drawn (item # items) (lot_balances (lots w)) (lot_balances (lots w'))"
        using ih(3) 1(5,8) d(2) by (intro changed_at_Cons) simp_all
      show "\<exists>ts. transactions w' = transactions w @ ts \<and>
          list_all2 (\<lambda>item t. hold_evidence c gid (sel_ID item) (sel_quantity item) t) (item # items) ts"
        using ts 1(3,4) by (intro exI [of _ "t # ts"]) simp
      show "\<exists>ids. length ids = length (item # items) \<and>
          gift_allocations w' = gift_allocations w @ map2 (held_row gid now) (item # items) ids"
        using ids 1(9) by (intro exI [of _ "i # ids"]) simp
      show "distinct (map ga_ID (gift_allocations w)) \<longrightarrow> distinct (map ga_ID (gift_allocations w'))"
        using ih(5) 1(9,10) by (auto simp: allocation_clash_def)
      show "lots_evolve (lots w) (lots w')" by (rule lots_evolve_trans [OF 1(2) ih(2)])
    qed (use ih 1 in auto)
  qed
qed simp

end

subsection \<open>Giving every allocation back\<close>

text \<open>The locked lots still describe the lots of the table: an operation never changes when a lot expires.\<close>

definition sources_agree :: "(uint64 \<Rightarrow> Lot option) \<Rightarrow> Lot list \<Rightarrow> bool" where
  "sources_agree sources ls \<longleftrightarrow>
     (\<forall>i l. sources i = Some l \<longrightarrow> lot_ID l = i \<and> (\<exists>l'\<in>set ls. lot_ID l' = i \<and> lot_ExpiresAt l' = lot_ExpiresAt l))"

lemma evolves_same: "lot_evolves l l' \<Longrightarrow> lot_ID l' = lot_ID l \<and> lot_ExpiresAt l' = lot_ExpiresAt l"
  by (cases l; cases l') (simp add: lot_evolves_def lot_entitlement_def)

lemma sources_evolve: "sources_agree sources ls \<Longrightarrow> lots_evolve ls ls' \<Longrightarrow> sources_agree sources ls'"
  unfolding sources_agree_def lots_evolve_def by (fastforce dest: evolves_same)

lemma sources_expiry:
  assumes "sources_agree sources ls" and "distinct (map lot_ID ls)" and "sources i = Some l" and "l' \<in> set ls" and "lot_ID l' = lot_ID l"
  shows "lot_ExpiresAt l' = lot_ExpiresAt l"
proof -
  from assms(1,3) obtain m where "m \<in> set ls" "lot_ID m = lot_ID l" "lot_ExpiresAt m = lot_ExpiresAt l"
    unfolding sources_agree_def by metis
  with distinct_key_unique [OF assms(2,4), of m] assms(5) show ?thesis by simp
qed

context gift_store
begin

lemma restore_loop_done:
  assumes "go_for (\<lambda>a _. restore_allocation G g sources now a) as () w = (Inr u, w')" and "books (lots w) (transactions w)"
    and "now = truncate_to nanos_per_milli (wall w)" and "sources_agree sources (lots w)"
    and "\<forall>t\<in>set (transactions w). gift_row (gf_ID g) t \<longrightarrow> txn_TransactionType t = TransactionTypeGiftRestore \<longrightarrow>
      txn_LotID t \<notin> ga_SourceLotID ` set as" and "distinct (map ga_SourceLotID as)"
  shows "books (lots w') (transactions w') \<and> lots_evolve (lots w) (lots w') \<and>
    changed_at ga_SourceLotID (given_back now) as (lot_balances (lots w)) (lot_balances (lots w')) \<and>
    (\<forall>a\<in>set as. ga_Status a = GiftAllocationStatusHeld \<and> ga_ReceiverLotID a = None) \<and>
    (\<exists>ts. transactions w' = transactions w @ ts \<and>
      (\<forall>t\<in>set ts. gift_row (gf_ID g) t \<and> txn_TransactionType t \<noteq> TransactionTypeGiftHold)) \<and>
    gift_allocations w' = map (\<lambda>x. if ga_ID x \<in> ga_ID ` set as then restored_row now x else x) (gift_allocations w) \<and>
    gifts w' = gifts w \<and> gift_tokens w' = gift_tokens w \<and> wall w' = wall w"
  using assms
proof (induction as arbitrary: w)
  case (Cons a as)
  from Cons.prems(1) obtain w1 where one: "restore_allocation G g sources now a w = (Inr (), w1)"
    and rest: "go_for (\<lambda>a _. restore_allocation G g sources now a) as () w1 = (Inr u, w')" by (rule go_for_Cons)
  have d: "distinct (map lot_ID (lots w))" using Cons.prems(2) by (simp add: books_def)
  have src: "lot_ID l = ga_SourceLotID a" if "sources (ga_SourceLotID a) = Some l" for l
    using Cons.prems(4) that by (auto simp: sources_agree_def)
  have new: "\<not> evidence_of TransactionTypeGiftRestore ''gift'' (gf_ID g) (ga_SourceLotID a) t" if "t \<in> set (transactions w)" for t
    using Cons.prems(5) that by (auto simp: gift_row_def biz_row_def evidence_of_def)
  show ?case
  proof (rule restore_allocation_done [OF one Cons.prems(2,3)], erule src, rule sources_expiry [OF Cons.prems(4) d], assumption+, erule new, goal_cases)
    case (1 v ts1)
    have later: "\<forall>t\<in>set (transactions w1). gift_row (gf_ID g) t \<longrightarrow> txn_TransactionType t = TransactionTypeGiftRestore \<longrightarrow>
        txn_LotID t \<notin> ga_SourceLotID ` set as"
      using Cons.prems(5,6) 1(3,4) by auto
    from Cons.prems(6) have ds: "distinct (map ga_SourceLotID as)" "ga_SourceLotID a \<notin> ga_SourceLotID ` set as" by simp_all
    have now1: "now = truncate_to nanos_per_milli (wall w1)" using Cons.prems(3) 1 by simp
    have ih: "books (lots w') (transactions w')" "lots_evolve (lots w1) (lots w')"
        "changed_at ga_SourceLotID (given_back now) as (lot_balances (lots w1)) (lot_balances (lots w'))"
        "\<forall>a\<in>set as. ga_Status a = GiftAllocationStatusHeld \<and> ga_ReceiverLotID a = None"
        "gift_allocations w' = map (\<lambda>x. if ga_ID x \<in> ga_ID ` set as then restored_row now x else x) (gift_allocations w1)"
        "gifts w' = gifts w1" "gift_tokens w' = gift_tokens w1" "wall w' = wall w1"
      and "\<exists>ts. transactions w' = transactions w1 @ ts \<and> (\<forall>t\<in>set ts. gift_row (gf_ID g) t \<and> txn_TransactionType t \<noteq> TransactionTypeGiftHold)"
      using Cons.IH [OF rest 1(1) now1 sources_evolve [OF Cons.prems(4) 1(2)] later ds(1)] by simp_all
    then obtain ts where ts: "transactions w' = transactions w1 @ ts"
        "\<forall>t\<in>set ts. gift_row (gf_ID g) t \<and> txn_TransactionType t \<noteq> TransactionTypeGiftHold" by blast
    have again: "restored_row now (restored_row now x) = restored_row now x" for x by (simp add: restored_row_def)
    show ?thesis
    proof (intro conjI)
      show "changed_at ga_SourceLotID (given_back now) (a # as) (lot_balances (lots w)) (lot_balances (lots w'))"
        using ih(3) 1(5,6) ds(2) by (intro changed_at_Cons) simp_all
      show "\<exists>ts. transactions w' = transactions w @ ts \<and> (\<forall>t\<in>set ts. gift_row (gf_ID g) t \<and> txn_TransactionType t \<noteq> TransactionTypeGiftHold)"
        using ts 1(3,4) by (intro exI [of _ "ts1 @ ts"]) auto
      show "gift_allocations w' = map (\<lambda>x. if ga_ID x \<in> ga_ID ` set (a # as) then restored_row now x else x) (gift_allocations w)"
        using ih(5) 1(7) by (simp add: again)
      show "lots_evolve (lots w) (lots w')" by (rule lots_evolve_trans [OF 1(2) ih(2)])
    qed (use ih 1 in auto)
  qed
qed simp

end

subsection \<open>Handing every allocation over\<close>

abbreviation handed_lot :: "uint64 \<Rightarrow> Gift \<Rightarrow> (uint64 \<Rightarrow> Lot option) \<Rightarrow> go_time \<Rightarrow> GiftAllocation \<Rightarrow> uint64 \<Rightarrow> Lot" where
  "handed_lot c g sources now a i \<equiv> receiver_lot i c g a (the (sources (ga_SourceLotID a))) now"

definition handed_row :: "(uint64 \<Rightarrow> uint64 option) \<Rightarrow> go_time \<Rightarrow> GiftAllocation \<Rightarrow> GiftAllocation" where
  "handed_row receiver now x = (case receiver (ga_ID x) of None \<Rightarrow> x | Some i \<Rightarrow> claimed_row i now x)"

lemma handed_row_cons:
  assumes "receiver k = None"
  shows "handed_row receiver now (if ga_ID x = k then claimed_row i now x else x) = handed_row (receiver(k \<mapsto> i)) now x"
  using assms by (auto simp: handed_row_def)

context gift_store
begin

lemma claim_loop_done:
  assumes "go_for (\<lambda>a _. claim_allocation G c g sources now a) as () w = (Inr u, w')" and "books (lots w) (transactions w)"
    and "now = truncate_to nanos_per_milli (wall w)" and "ids_ready (3 * length as + n) w"
    and "\<forall>t\<in>set (transactions w). gift_row (gf_ID g) t \<longrightarrow> txn_TransactionType t = TransactionTypeGiftClaim \<longrightarrow>
      uint (txn_LotID t) \<le> snow_stamp (snow w)" and "distinct (map ga_ID as)"
  shows "books (lots w') (transactions w') \<and>
    (\<forall>a\<in>set as. ga_Status a = GiftAllocationStatusHeld \<and> ga_ReceiverLotID a = None \<and> ga_Quantity a \<noteq> 0 \<and>
      (\<exists>l. sources (ga_SourceLotID a) = Some l \<and> source_matches g a l)) \<and>
    (\<exists>ts. transactions w' = transactions w @ ts \<and>
      (\<forall>t\<in>set ts. gift_row (gf_ID g) t \<and> txn_TransactionType t = TransactionTypeGiftClaim)) \<and>
    (\<exists>ids. length ids = length as \<and> lots w' = lots w @ map2 (handed_lot c g sources now) as ids \<and>
      gift_allocations w' = map (handed_row (map_of (zip (map ga_ID as) ids)) now) (gift_allocations w)) \<and>
    gifts w' = gifts w \<and> gift_tokens w' = gift_tokens w \<and> wall w' = wall w"
  using assms
proof (induction as arbitrary: w)
  case Nil
  then show ?case by (simp add: handed_row_def)
next
  case (Cons a as)
  from Cons.prems(1) obtain w1 where one: "claim_allocation G c g sources now a w = (Inr (), w1)"
    and rest: "go_for (\<lambda>a _. claim_allocation G c g sources now a) as () w1 = (Inr u, w')" by (rule go_for_Cons)
  have ready: "ids_ready (Suc (Suc (Suc (3 * length as + n)))) w" using Cons.prems(4) by (simp add: numeral_3_eq_3)
  show ?case
  proof (rule claim_allocation_done [OF one Cons.prems(2,3) ready], use Cons.prems(5) in blast, goal_cases)
    case (1 l i t)
    have now1: "now = truncate_to nanos_per_milli (wall w1)" using Cons.prems(3) 1(11) by simp
    have row: "gift_row (gf_ID g) t" "txn_TransactionType t = TransactionTypeGiftClaim" "txn_LotID t = i"
      using 1(7) by (auto simp: gift_row_def evidence_of_def biz_row_def)
    have later: "\<forall>t\<in>set (transactions w1). gift_row (gf_ID g) t \<longrightarrow> txn_TransactionType t = TransactionTypeGiftClaim \<longrightarrow>
        uint (txn_LotID t) \<le> snow_stamp (snow w1)"
      using Cons.prems(5) 1(6,13,14) row(3) by fastforce
    from Cons.prems(6) have ds: "distinct (map ga_ID as)" "ga_ID a \<notin> ga_ID ` set as" by simp_all
    note ih = Cons.IH [OF rest 1(3) now1 1(12) later ds(1)]
    from ih obtain ts ids where ts: "transactions w' = transactions w1 @ ts"
        "\<forall>t\<in>set ts. gift_row (gf_ID g) t \<and> txn_TransactionType t = TransactionTypeGiftClaim"
      and ids: "length ids = length as" "lots w' = lots w1 @ map2 (handed_lot c g sources now) as ids"
        "gift_allocations w' = map (handed_row (map_of (zip (map ga_ID as) ids)) now) (gift_allocations w1)" by blast
    have none: "map_of (zip (map ga_ID as) ids) (ga_ID a) = None" using ds(2) ids(1) by (simp add: map_of_zip_is_None)
    show ?thesis
    proof (intro conjI)
      show "\<exists>ts. transactions w' = transactions w @ ts \<and>
          (\<forall>t\<in>set ts. gift_row (gf_ID g) t \<and> txn_TransactionType t = TransactionTypeGiftClaim)"
        using ts 1(6) row by (intro exI [of _ "t # ts"]) simp
      show "\<exists>ids. length ids = length (a # as) \<and> lots w' = lots w @ map2 (handed_lot c g sources now) (a # as) ids \<and>
          gift_allocations w' = map (handed_row (map_of (zip (map ga_ID (a # as)) ids)) now) (gift_allocations w)"
        using ids 1(1,4,8) by (intro exI [of _ "i # ids"]) (simp add: handed_row_cons [where receiver = "map_of (zip (map ga_ID as) ids)" and k = "ga_ID a", OF none])
    qed (use ih 1 in auto)
  qed
qed

end

subsection \<open>Rewriting the tokens of a gift\<close>

definition token_rewritten :: "(GiftClaimToken \<Rightarrow> GiftClaimToken \<Rightarrow> GiftClaimToken) \<Rightarrow> GiftClaimToken list \<Rightarrow> GiftClaimToken \<Rightarrow> GiftClaimToken" where
  "token_rewritten h ts x = (case List.find (\<lambda>t. gt_ID t = gt_ID x) ts of None \<Rightarrow> x | Some t \<Rightarrow> h t x)"

lemma token_rewritten_row:
  assumes "distinct (map gt_ID table)" and "set ts \<subseteq> set table" and "x \<in> set table"
  shows "token_rewritten h ts x = (if x \<in> set ts then h x x else x)"
proof (cases "List.find (\<lambda>t. gt_ID t = gt_ID x) ts")
  case None
  then have "x \<notin> set ts" by (auto simp: find_None_iff)
  with None show ?thesis by (simp add: token_rewritten_def)
next
  case (Some t)
  then have "t \<in> set ts" "gt_ID t = gt_ID x" by (auto simp: find_Some_iff)
  then have "t = x" using distinct_key_unique [OF assms(1) _ assms(3), of t] assms(2) by blast
  with Some \<open>t \<in> set ts\<close> show ?thesis by (simp add: token_rewritten_def)
qed

definition token_revoked :: "go_time \<Rightarrow> GiftClaimToken \<Rightarrow> GiftClaimToken" where
  "token_revoked now t = (if gt_ConsumedAt t = None \<and> gt_RevokedAt t = None then t\<lparr>gt_RevokedAt := Some now\<rparr> else t)"

definition token_used :: "GiftClaimToken \<Rightarrow> go_time \<Rightarrow> GiftClaimToken \<Rightarrow> GiftClaimToken" where
  "token_used matched now t = (if gt_ID t = gt_ID matched then t\<lparr>gt_ConsumedAt := Some now, gt_RevokedAt := None\<rparr> else token_revoked now t)"

context gift_store
begin

lemma token_loop_done:
  assumes "go_for (\<lambda>t _. body t) ts () w = (Inr u, w')"
    and "\<And>t w w'. t \<in> set ts \<Longrightarrow> body t w = (Inr (), w') \<Longrightarrow>
      w' = w\<lparr>gift_tokens := map (\<lambda>x. if gt_ID x = gt_ID t then h t x else x) (gift_tokens w)\<rparr>"
    and "\<And>t x. gt_ID (h t x) = gt_ID x" and "distinct (map gt_ID ts)"
  shows "w' = w\<lparr>gift_tokens := map (token_rewritten h ts) (gift_tokens w)\<rparr>"
  using assms
proof (induction ts arbitrary: w)
  case Nil
  then show ?case by (simp add: token_rewritten_def)
next
  case (Cons t ts)
  from Cons.prems(1) obtain w1 where one: "body t w = (Inr (), w1)" and rest: "go_for (\<lambda>t _. body t) ts () w1 = (Inr u, w')"
    by (rule go_for_Cons)
  have w': "w' = w1\<lparr>gift_tokens := map (token_rewritten h ts) (gift_tokens w1)\<rparr>"
    by (rule Cons.IH [OF rest]) (use Cons.prems in auto)
  have "token_rewritten h ts (if gt_ID x = gt_ID t then h t x else x) = token_rewritten h (t # ts) x" for x
  proof (cases "gt_ID x = gt_ID t")
    case True
    have "List.find (\<lambda>s. gt_ID s = gt_ID t) ts = None" using Cons.prems(4) by (auto simp: find_None_iff) (metis imageI)
    with True Cons.prems(3) show ?thesis by (simp add: token_rewritten_def)
  qed (simp add: token_rewritten_def)
  with w' Cons.prems(2) [OF _ one] show ?case by (simp add: o_def)
qed

lemma revoke_token_done:
  assumes "revoke_token G now t w = (Inr u, w')"
  shows "w' = w\<lparr>gift_tokens := map (\<lambda>x. if gt_ID x = gt_ID t then
    if gt_ConsumedAt t = None \<and> gt_RevokedAt t = None then x\<lparr>gt_RevokedAt := Some now\<rparr> else x else x) (gift_tokens w)\<rparr>"
proof (cases "gt_ConsumedAt t = None \<and> gt_RevokedAt t = None")
  case True
  with assms show ?thesis by (simp add: revoke_token_def updateGiftToken_done)
next
  case False
  with assms show ?thesis by (simp only: revoke_token_def if_False if_cancel go_ok_inv map_ident) simp
qed

lemma revoke_loop_done:
  assumes "go_for (\<lambda>t _. revoke_token G now t) ts () w = (Inr u, w')" and "distinct (map gt_ID (gift_tokens w))"
    and "set ts = {t \<in> set (gift_tokens w). gt_GiftID t = gid}" and "distinct (map gt_ID ts)"
  shows "w' = w\<lparr>gift_tokens := map (\<lambda>t. if gt_GiftID t = gid then token_revoked now t else t) (gift_tokens w)\<rparr>"
proof -
  let ?h = "\<lambda>t x. if gt_ConsumedAt t = None \<and> gt_RevokedAt t = None then x\<lparr>gt_RevokedAt := Some now\<rparr> else x"
  have "w' = w\<lparr>gift_tokens := map (token_rewritten ?h ts) (gift_tokens w)\<rparr>"
    by (rule token_loop_done [OF assms(1) _ _ assms(4)])
      (simp_all add: revoke_token_done)
  moreover have "token_rewritten ?h ts x = (if gt_GiftID x = gid then token_revoked now x else x)" if "x \<in> set (gift_tokens w)" for x
    using token_rewritten_row [OF assms(2) _ that, of ts ?h] that assms(3) by (auto simp: token_revoked_def)
  ultimately show ?thesis by (simp cong: map_cong)
qed

lemma use_token_done:
  assumes "use_token G matched now t w = (Inr u, w')"
  shows "w' = w\<lparr>gift_tokens := map (\<lambda>x. if gt_ID x = gt_ID t then
    if gt_ID t = gt_ID matched then x\<lparr>gt_ConsumedAt := Some now, gt_RevokedAt := None\<rparr>
    else if gt_ConsumedAt t = None \<and> gt_RevokedAt t = None then x\<lparr>gt_RevokedAt := Some now\<rparr> else x else x) (gift_tokens w)\<rparr>"
proof (cases "gt_ID t = gt_ID matched")
  case True
  with assms show ?thesis by (simp add: use_token_def updateGiftToken_done)
next
  case False
  with assms have "revoke_token G now t w = (Inr u, w')" by (simp add: use_token_def)
  from revoke_token_done [OF this] False show ?thesis by (simp only: if_False)
qed

lemma use_loop_done:
  assumes "go_for (\<lambda>t _. use_token G matched now t) ts () w = (Inr u, w')" and "distinct (map gt_ID (gift_tokens w))"
    and "set ts = {t \<in> set (gift_tokens w). gt_GiftID t = gid}" and "distinct (map gt_ID ts)"
  shows "w' = w\<lparr>gift_tokens := map (\<lambda>t. if gt_GiftID t = gid then token_used matched now t else t) (gift_tokens w)\<rparr>"
proof -
  let ?h = "\<lambda>t x. if gt_ID t = gt_ID matched then x\<lparr>gt_ConsumedAt := Some now, gt_RevokedAt := None\<rparr>
    else if gt_ConsumedAt t = None \<and> gt_RevokedAt t = None then x\<lparr>gt_RevokedAt := Some now\<rparr> else x"
  have "w' = w\<lparr>gift_tokens := map (token_rewritten ?h ts) (gift_tokens w)\<rparr>"
    by (rule token_loop_done [OF assms(1) _ _ assms(4)])
      (simp_all add: use_token_done)
  moreover have "token_rewritten ?h ts x = (if gt_GiftID x = gid then token_used matched now x else x)" if "x \<in> set (gift_tokens w)" for x
    using token_rewritten_row [OF assms(2) _ that, of ts ?h] that assms(3) by (auto simp: token_used_def token_revoked_def)
  ultimately show ?thesis by (simp cong: map_cong)
qed

end

end
