(* ===== verification/Gift_Selection.thy ===== *)
theory Gift_Selection
  imports Gift_Loops
begin

text \<open>
  What a gift takes and what it checks before it hands anything over. \<open>fefo_shares\<close> is the reference for the selection loop: the
  bottles each lot gives when the lots are emptied in order. The check of the hold evidence adds the allocations up without
  wrapping around. The locking reads return the rows of the gift as the tables have them.
\<close>

subsection \<open>First expired, first out\<close>

fun fefo_shares :: "Lot list \<Rightarrow> int \<Rightarrow> int list" where
  "fefo_shares [] q = []"
| "fefo_shares (l # ls) q = (let s = min (uint (lot_AvailableQuantity l)) q in s # fefo_shares ls (q - s))"

lemma length_fefo_shares [simp]: "length (fefo_shares ls q) = length ls"
  by (induction ls arbitrary: q) (simp_all add: Let_def)

lemma fefo_shares_0 [simp]: "fefo_shares ls 0 = replicate (length ls) 0"
  by (induction ls) (simp_all add: Let_def)

lemma min_max_take:
  fixes a b m q :: int
  assumes "0 \<le> b" and "0 \<le> m"
  shows "max 0 (min b (q - min a q - m)) = max 0 (min b (q - (a + m)))"
  using assms by (auto simp: min_def max_def)

lemma fefo_shares_nth:
  assumes "k < length ls" and "0 \<le> q"
  shows "fefo_shares ls q ! k = max 0 (min (uint (lot_AvailableQuantity (ls ! k))) (q - (\<Sum>l\<leftarrow>take k ls. uint (lot_AvailableQuantity l))))"
  using assms
proof (induction ls arbitrary: q k)
  case (Cons l ls)
  show ?case
  proof (cases k)
    case (Suc j)
    have pos: "0 \<le> (\<Sum>l\<leftarrow>take j ls. uint (lot_AvailableQuantity l))" by (rule sum_list_nonneg) auto
    let ?s = "min (uint (lot_AvailableQuantity l)) q"
    have "fefo_shares ls (q - ?s) ! j =
      max 0 (min (uint (lot_AvailableQuantity (ls ! j))) (q - ?s - (\<Sum>l\<leftarrow>take j ls. uint (lot_AvailableQuantity l))))"
      using Cons.IH [of j "q - ?s"] Cons.prems Suc by simp
    also have "\<dots> = max 0 (min (uint (lot_AvailableQuantity (ls ! j)))
        (q - (uint (lot_AvailableQuantity l) + (\<Sum>l\<leftarrow>take j ls. uint (lot_AvailableQuantity l)))))"
      by (rule min_max_take [OF _ pos]) simp
    finally show ?thesis using Suc by (simp add: Let_def)
  qed (use Cons.prems in \<open>simp add: Let_def\<close>)
qed simp

definition fefo_picks :: "Lot list \<Rightarrow> int \<Rightarrow> giftFEFOSelection list" where
  "fefo_picks ls q = map (\<lambda>(l, s). \<lparr>sel_lot = l, sel_quantity = word_of_int s\<rparr>) (filter (\<lambda>(l, s). s \<noteq> 0) (zip ls (fefo_shares ls q)))"

lemma fefo_picks_0 [simp]: "fefo_picks ls 0 = []"
  by (auto simp: fefo_picks_def filter_empty_conv in_set_zip)

lemma word_of_min: "word_of_int (min (uint (a :: go_uint)) (uint b)) = (if b < a then b else a)"
  by (auto simp: min_def word_less_def)

lemma uint_min_diff: "uint (b - (if b < a then b else a)) = uint b - min (uint (a :: go_uint)) (uint b)"
  by (auto simp: min_def word_less_def uint_diff_le word_le_def)

lemma uint_min: "uint (if b < a then b else a) = min (uint (a :: go_uint)) (uint b)"
  by (auto simp: min_def word_less_def)

lemma fefo_loop_picks:
  "fefo_loop ls r acc = (acc @ fefo_picks ls (uint r), r - word_of_int (sum_list (fefo_shares ls (uint r)))) \<and>
   sum_list (fefo_shares ls (uint r)) \<le> uint r \<and> 0 \<le> sum_list (fefo_shares ls (uint r))"
proof (induction ls arbitrary: r acc)
  case (Cons l ls)
  define s where "s = (if r < lot_AvailableQuantity l then r else lot_AvailableQuantity l)"
  have s: "uint s = min (uint (lot_AvailableQuantity l)) (uint r)" "uint (r - s) = uint r - uint s"
    unfolding s_def uint_min uint_min_diff by simp_all
  have shares: "fefo_shares (l # ls) (uint r) = uint s # fefo_shares ls (uint (r - s))"
    by (simp add: Let_def s(1) [symmetric] s(2))
  have picks: "fefo_picks (l # ls) (uint r) =
      (if s = 0 then [] else [\<lparr>sel_lot = l, sel_quantity = s\<rparr>]) @ fefo_picks ls (uint (r - s))"
    unfolding fefo_picks_def shares by (simp add: word_zero_uint)
  note ih = Cons.IH [of "r - s"]
  show ?case
  proof (cases "r = 0")
    case True
    then show ?thesis using fefo_picks_0 [of "l # ls"] fefo_shares_0 [of "l # ls"]
      by (simp del: fefo_shares.simps add: sum_list_replicate)
  next
    case False
    then have "fefo_loop (l # ls) r acc = fefo_loop ls (r - s) (acc @ (if s = 0 then [] else [\<lparr>sel_lot = l, sel_quantity = s\<rparr>]))"
      by (simp add: s_def [symmetric] Let_def)
    moreover have "0 \<le> uint s" by simp
    moreover have "r - s - word_of_int x = r - word_of_int (uint s + x)" for x :: int by (simp add: diff_diff_eq)
    ultimately show ?thesis
      using ih [of "acc @ (if s = 0 then [] else [\<lparr>sel_lot = l, sel_quantity = s\<rparr>])"] s(2) unfolding picks shares sum_list.Cons
      by (simp only: append_assoc) (intro conjI refl, linarith+)
  qed
qed (simp add: fefo_picks_def)

lemma selectGiftFEFO_done:
  assumes "selectGiftFEFO ls q = Inr selected"
  shows "selected = fefo_picks ls (uint q)" and "sum_list (fefo_shares ls (uint q)) = uint q"
proof -
  let ?sum = "sum_list (fefo_shares ls (uint q))"
  note picks = fefo_loop_picks [of ls q "[]"]
  with assms show "selected = fefo_picks ls (uint q)" by (auto simp: selectGiftFEFO_def split: if_splits)
  from assms picks have "q = word_of_int ?sum" by (auto simp: selectGiftFEFO_def split: if_splits)
  moreover have "uint (word_of_int ?sum :: go_uint) = ?sum"
    using picks uint_lt2p [of q] by (simp add: uint_word_of_int)
  ultimately show "?sum = uint q" by simp
qed

subsection \<open>The sum of the allocations\<close>

definition gift_sum :: "GiftAllocation list \<Rightarrow> int" where
  "gift_sum as = (\<Sum>a\<leftarrow>as. uint (ga_Quantity a))"

lemma gift_sum_simps [simp]: "gift_sum [] = 0" "gift_sum (a # as) = uint (ga_Quantity a) + gift_sum as"
    "gift_sum (as @ bs) = gift_sum as + gift_sum bs"
  by (simp_all add: gift_sum_def)

lemma gift_sum_mset: "mset as = mset bs \<Longrightarrow> gift_sum as = gift_sum bs"
  unfolding gift_sum_def by (metis mset_map sum_mset_sum_list)

lemma gift_sum_nonneg: "0 \<le> gift_sum as"
  unfolding gift_sum_def by (rule sum_list_nonneg) auto

lemma gift_sum_length: "\<forall>a\<in>set as. ga_Quantity a \<noteq> 0 \<Longrightarrow> int (length as) \<le> gift_sum as"
proof (induction as)
  case (Cons a as)
  then have "uint (ga_Quantity a) \<noteq> 0" by (simp add: word_zero_uint)
  then have "1 \<le> uint (ga_Quantity a)" using uint_ge_0 [of "ga_Quantity a"] by linarith
  with Cons show ?case by auto
qed simp

lemma no_wrap:
  assumes "\<not> - 1 - q < (n :: go_uint)"
  shows "uint (n + q) = uint n + uint q"
proof -
  have "uint (- 1 - q) = 2 ^ 64 - 1 - uint q" using uint_diff_le [of q "- 1"] by (simp add: unsigned_minus_1_eq_mask mask_eq_exp_minus_1)
  with assms have "uint n + uint q < 2 ^ 64" by (simp add: word_less_def)
  then show ?thesis by (simp add: uint_plus_if')
qed

lemma check_allocations_sum:
  assumes "check_allocations g sources as holds seen n = Inr (rest, t)"
  shows "uint t = uint n + gift_sum as \<and> distinct (map ga_SourceLotID as) \<and> set (map ga_SourceLotID as) \<inter> set seen = {} \<and>
    (\<forall>a\<in>set as. ga_SourceLotID a \<noteq> 0 \<and> ga_Quantity a \<noteq> 0)"
  using assms
proof (induction as arbitrary: holds seen n)
  case (Cons a as)
  let ?key = "gift_action ''gift_hold:'' (gf_ID g) (ga_SourceLotID a)"
  from Cons.prems have pos: "ga_SourceLotID a \<noteq> 0" "ga_Quantity a \<noteq> 0" "ga_SourceLotID a \<notin> set seen"
    and wrap: "\<not> - 1 - ga_Quantity a < n"
    and rest: "check_allocations g sources as (AList.delete ?key holds) (ga_SourceLotID a # seen) (n + ga_Quantity a) = Inr (rest, t)"
    by (auto simp: Let_def split: if_splits)
  from Cons.IH [OF rest] no_wrap [OF wrap] pos show ?case by auto
qed simp

lemma validate_done:
  assumes "validateGiftHoldEvidence G g as rows w = (Inr u, w')"
  shows "gift_sum as = uint (gf_Quantity g)" and "distinct (map ga_SourceLotID as)" and "as \<noteq> []"
    and "\<forall>a\<in>set as. ga_Quantity a \<noteq> 0"
proof -
  from assms obtain holds rest where "check_allocations g (giftLotMap rows) as holds [] 0 = Inr (rest, gf_Quantity g)" and "as \<noteq> []"
    unfolding validateGiftHoldEvidence_def by (auto simp: go_inv split: if_splits sum.splits prod.splits)
  with check_allocations_sum show "gift_sum as = uint (gf_Quantity g)" "distinct (map ga_SourceLotID as)" "as \<noteq> []"
    "\<forall>a\<in>set as. ga_Quantity a \<noteq> 0" by fastforce+
qed

subsection \<open>The rows of a gift\<close>

definition of_gift :: "uint64 \<Rightarrow> GiftAllocation list \<Rightarrow> GiftAllocation list" where
  "of_gift i as = filter (\<lambda>a. ga_GiftID a = i) as"

lemma set_of_gift [simp]: "a \<in> set (of_gift i as) \<longleftrightarrow> a \<in> set as \<and> ga_GiftID a = i"
  by (auto simp: of_gift_def)

lemma of_gift_append [simp]: "of_gift i (as @ bs) = of_gift i as @ of_gift i bs"
  by (simp add: of_gift_def)

lemma of_gift_map: "(\<And>a. ga_GiftID (f a) = ga_GiftID a) \<Longrightarrow> of_gift i (map f as) = map f (of_gift i as)"
  by (simp add: of_gift_def filter_map o_def)

lemma mset_distinct: "mset xs = mset ys \<Longrightarrow> distinct (map f xs) \<longleftrightarrow> distinct (map f ys)"
  by (metis mset_eq_imp_distinct_iff mset_map)

lemma giftLotMap_row:
  assumes "giftLotMap rows i = Some l"
  shows "l \<in> set rows" and "lot_ID l = i"
  using map_of_SomeD [OF assms [unfolded giftLotMap_def]] by auto

context gift_store
begin

lemma lock_gift:
  "lockGiftByID G i w = (Inr g, w') \<Longrightarrow> w' = w \<and> g \<in> set (gifts w) \<and> gf_ID g = i"
  "lockGiftByNo G no w = (Inr g, w') \<Longrightarrow> w' = w \<and> g \<in> set (gifts w) \<and> gf_GiftNo g = no"
  by (auto simp: lockGiftByID_def lockGiftByNo_def db_take_inv gift_tables dest: gift.take_row)

lemma lock_tokens:
  assumes "lockGiftTokens G i w = (Inr ts, w')"
  shows "w' = w" and "mset ts = mset (filter (\<lambda>t. gt_GiftID t = i) (gift_tokens w))"
    and "set ts = {t \<in> set (gift_tokens w). gt_GiftID t = i}"
    and "distinct (map gt_ID (gift_tokens w)) \<Longrightarrow> distinct (map gt_ID ts)"
proof -
  from assms show "w' = w" and m: "mset ts = mset (filter (\<lambda>t. gt_GiftID t = i) (gift_tokens w))"
    by (auto simp: lockGiftTokens_def db_ordered_inv gift_tables dest: token.ordered_rows)
  show "set ts = {t \<in> set (gift_tokens w). gt_GiftID t = i}" using mset_eq_setD [OF m] by simp
  show "distinct (map gt_ID (gift_tokens w)) \<Longrightarrow> distinct (map gt_ID ts)"
    using mset_distinct [OF m, of gt_ID] distinct_map_filter by blast
qed

lemma lock_allocations:
  assumes "lockGiftAllocationsAndLots G i w = (Inr (as, rows), w')"
  shows "w' = w" and "mset as = mset (of_gift i (gift_allocations w))" and "set as = set (of_gift i (gift_allocations w))"
    and "sources_agree (giftLotMap rows) (lots w)" and "set rows \<subseteq> set (lots w)"
proof -
  from assms show "w' = w" and m: "mset as = mset (of_gift i (gift_allocations w))"
    by (auto simp: lockGiftAllocationsAndLots_def lockGiftAllocations_def lockGiftLots_def go_inv Let_def gift_tables of_gift_def
        dest: alloc.ordered_rows split: if_splits)
  show "set as = set (of_gift i (gift_allocations w))" by (rule mset_eq_setD [OF m])
  from assms show sub: "set rows \<subseteq> set (lots w)"
    by (auto simp: lockGiftAllocationsAndLots_def lockGiftAllocations_def lockGiftLots_def go_inv Let_def gift_tables
        dest!: ticket.lot_table.ordered_rows mset_eq_setD split: if_splits)
  show "sources_agree (giftLotMap rows) (lots w)"
    unfolding sources_agree_def using giftLotMap_row sub by blast
qed

end

end
