(* ===== verification/Gift_Effects.thy ===== *)
theory Gift_Effects
  imports Gift_Selection
begin

text \<open>
  The invariant of the gift tables and the four things that can happen to a gift: it is created, a share token is issued, it is
  claimed, it is returned. Each effect is a relation between the tables before and after; the lemmas of this theory show that the steps
  of the service have these effects and that the effects keep the invariant.
\<close>

subsection \<open>The invariant\<close>

definition gift_clock :: "'z ticket_world_scheme \<Rightarrow> go_time" where
  "gift_clock w = truncate_to nanos_per_milli (wall w)"

text \<open>A claimed allocation is backed by a lot of the receiver.\<close>

definition handed :: "Gift \<Rightarrow> Lot list \<Rightarrow> GiftAllocation \<Rightarrow> bool" where
  "handed g ls a \<longleftrightarrow> ga_Status a = GiftAllocationStatusClaimed \<and>
     (\<exists>l\<in>set ls. ga_ReceiverLotID a = Some (lot_ID l) \<and> gf_ReceiverCustomerID g = Some (lot_OwnerCustomerID l) \<and>
       lot_SourceGiftID l = Some (gf_ID g) \<and> lot_SourceLotID l = Some (ga_SourceLotID a) \<and>
       lot_TotalQuantity l = ga_Quantity a \<and> lot_ExpiresAt l = ga_SourceExpiresAt a)"

definition gift_held :: "GiftAllocation \<Rightarrow> bool" where
  "gift_held a \<longleftrightarrow> ga_Status a = GiftAllocationStatusHeld \<and> ga_ReceiverLotID a = None"

definition gift_restored :: "GiftAllocation \<Rightarrow> bool" where
  "gift_restored a \<longleftrightarrow> ga_Status a = GiftAllocationStatusRestored \<and> ga_ReceiverLotID a = None"

definition token_open :: "GiftClaimToken \<Rightarrow> bool" where
  "token_open t \<longleftrightarrow> gt_ConsumedAt t = None \<and> gt_RevokedAt t = None"

definition allocated_ok :: "Gift \<Rightarrow> GiftAllocation list \<Rightarrow> bool" where
  "allocated_ok g as \<longleftrightarrow> gift_sum as = uint (gf_Quantity g) \<and> distinct (map ga_SourceLotID as) \<and>
     (\<forall>a\<in>set as. ga_Quantity a \<noteq> 0) \<and> gf_Quantity g \<noteq> 0 \<and> gf_Quantity g \<le> giftQuantityMax"

definition status_ok :: "Gift \<Rightarrow> GiftAllocation list \<Rightarrow> Lot list \<Rightarrow> bool" where
  "status_ok g as ls \<longleftrightarrow>
     (if gf_Status g = GiftStatusPending then (\<forall>a\<in>set as. gift_held a) \<and> gf_ReceiverCustomerID g = None
      else if gf_Status g = GiftStatusClaimed
      then gf_ReceiverCustomerID g \<notin> {None, Some (gf_GiverCustomerID g)} \<and> (\<forall>a\<in>set as. handed g ls a)
      else gf_Status g \<in> {GiftStatusCancelled, GiftStatusExpiredReturned} \<and> gf_ReceiverCustomerID g = None \<and> (\<forall>a\<in>set as. gift_restored a))"

definition usable_tokens :: "uint64 \<Rightarrow> go_time \<Rightarrow> GiftClaimToken list \<Rightarrow> GiftClaimToken list" where
  "usable_tokens i now ts = filter (\<lambda>t. gt_GiftID t = i \<and> token_usable now t) ts"

definition tokens_ok :: "Gift \<Rightarrow> go_time \<Rightarrow> GiftClaimToken list \<Rightarrow> bool" where
  "tokens_ok g now ts \<longleftrightarrow>
     (if gf_Status g = GiftStatusPending then length (usable_tokens (gf_ID g) now ts) \<le> 3
      else \<forall>t\<in>set ts. gt_GiftID t = gf_ID g \<longrightarrow> \<not> token_open t)"

text \<open>Until a gift is settled the ledger has nothing of it but the rows of its freezing.\<close>

definition ledger_ok :: "Gift \<Rightarrow> Transaction list \<Rightarrow> bool" where
  "ledger_ok g ts \<longleftrightarrow>
     (gf_Status g = GiftStatusPending \<longrightarrow> (\<forall>t\<in>set ts. gift_row (gf_ID g) t \<longrightarrow> txn_TransactionType t = TransactionTypeGiftHold))"

definition gift_ok :: "gift_world \<Rightarrow> Gift \<Rightarrow> bool" where
  "gift_ok w g \<longleftrightarrow> allocated_ok g (of_gift (gf_ID g) (gift_allocations w)) \<and>
     status_ok g (of_gift (gf_ID g) (gift_allocations w)) (lots w) \<and> tokens_ok g (gift_clock w) (gift_tokens w) \<and>
     ledger_ok g (transactions w)"

definition gift_keys_ok :: "gift_world \<Rightarrow> bool" where
  "gift_keys_ok w \<longleftrightarrow> distinct (map gf_ID (gifts w)) \<and> distinct (map ga_ID (gift_allocations w)) \<and>
     distinct (map gt_ID (gift_tokens w)) \<and> (\<forall>a\<in>set (gift_allocations w). ga_GiftID a \<in> gf_ID ` set (gifts w)) \<and>
     (\<forall>t\<in>set (gift_tokens w). gt_GiftID t \<in> gf_ID ` set (gifts w)) \<and>
     (\<forall>t\<in>set (transactions w). txn_BizType t = ''gift'' \<longrightarrow> txn_BizID t \<in> gf_ID ` set (gifts w))"

definition gifts_ok :: "gift_world \<Rightarrow> bool" where
  "gifts_ok w \<longleftrightarrow> books (lots w) (transactions w) \<and> gift_keys_ok w \<and> (\<forall>g\<in>set (gifts w). gift_ok w g)"

lemma gifts_ok_core: "gift_core w' = gift_core w \<Longrightarrow> wall w' = wall w \<Longrightarrow> gifts_ok w' = gifts_ok w"
  by (simp add: gift_core_iff gifts_ok_def gift_keys_ok_def gift_ok_def gift_clock_def)

lemma gifts_okD:
  assumes "gifts_ok w"
  shows "books (lots w) (transactions w)" and "distinct (map gf_ID (gifts w))" and "distinct (map ga_ID (gift_allocations w))"
    and "distinct (map gt_ID (gift_tokens w))" and "g \<in> set (gifts w) \<Longrightarrow> gift_ok w g"
  using assms by (auto simp: gifts_ok_def gift_keys_ok_def)

lemma nowShanghai_done [simp]: "nowShanghai w = (r, w') \<longleftrightarrow> r = Inr (gift_clock w) \<and> w' = w"
  by (auto simp: nowShanghai_def NowShanghai_def go_eval wall_now_def gift_clock_def)

subsection \<open>The four effects\<close>

definition gift_replaced :: "Gift \<Rightarrow> Gift \<Rightarrow> Gift list \<Rightarrow> Gift list" where
  "gift_replaced g g' gs = map (\<lambda>x. if x = g then g' else x) gs"

definition gift_created :: "Gift \<Rightarrow> giftFEFOSelection list \<Rightarrow> gift_world \<Rightarrow> gift_world \<Rightarrow> bool" where
  "gift_created g sel w w' \<longleftrightarrow>
     gf_Status g = GiftStatusPending \<and> gf_ReceiverCustomerID g = None \<and> gf_Quantity g \<noteq> 0 \<and> gf_Quantity g \<le> giftQuantityMax \<and>
     gf_ID g \<notin> gf_ID ` set (gifts w) \<and> gifts w' = gifts w @ [g] \<and>
     (\<Sum>item\<leftarrow>sel. uint (sel_quantity item)) = uint (gf_Quantity g) \<and> distinct (map sel_ID sel) \<and> (\<forall>item\<in>set sel. sel_quantity item \<noteq> 0) \<and>
     books (lots w') (transactions w') \<and> lots_evolve (lots w) (lots w') \<and>
     changed_at sel_ID sel_drawn sel (lot_balances (lots w)) (lot_balances (lots w')) \<and>
     (\<exists>ids. length ids = length sel \<and>
       gift_allocations w' = gift_allocations w @ map2 (held_row (gf_ID g) (gift_clock w)) sel ids) \<and>
     distinct (map ga_ID (gift_allocations w')) \<and>
     (\<exists>ts. transactions w' = transactions w @ ts \<and>
       (\<forall>t\<in>set ts. gift_row (gf_ID g) t \<and> txn_TransactionType t = TransactionTypeGiftHold)) \<and>
     gift_tokens w' = gift_tokens w \<and> wall w' = wall w"

definition token_issued :: "Gift \<Rightarrow> GiftClaimToken \<Rightarrow> gift_world \<Rightarrow> gift_world \<Rightarrow> bool" where
  "token_issued g t w w' \<longleftrightarrow>
     g \<in> set (gifts w) \<and> gf_Status g = GiftStatusPending \<and> gt_GiftID t = gf_ID g \<and>
     length (usable_tokens (gf_ID g) (gift_clock w) (gift_tokens w)) < 3 \<and>
     gift_tokens w' = gift_tokens w @ [t] \<and> gt_ID t \<notin> gt_ID ` set (gift_tokens w) \<and>
     gifts w' = gift_replaced g (g\<lparr>gf_Version := gf_Version g + 1, gf_UpdatedAt := gift_clock w\<rparr>) (gifts w) \<and>
     lots w' = lots w \<and> transactions w' = transactions w \<and> gift_allocations w' = gift_allocations w \<and> wall w' = wall w"

definition gift_claimed :: "Gift \<Rightarrow> uint64 \<Rightarrow> GiftClaimToken \<Rightarrow> gift_world \<Rightarrow> gift_world \<Rightarrow> bool" where
  "gift_claimed g c k w w' \<longleftrightarrow>
     g \<in> set (gifts w) \<and> gf_Status g = GiftStatusPending \<and> c \<noteq> gf_GiverCustomerID g \<and>
     books (lots w') (transactions w') \<and>
     (\<exists>as ids sources. mset as = mset (of_gift (gf_ID g) (gift_allocations w)) \<and> length ids = length as \<and>
       (\<forall>a\<in>set as. \<exists>l\<in>set (lots w). sources (ga_SourceLotID a) = Some l \<and> lot_ID l = ga_SourceLotID a \<and> source_matches g a l) \<and>
       lots w' = lots w @ map2 (handed_lot c g sources (gift_clock w)) as ids \<and>
       gift_allocations w' = map (handed_row (map_of (zip (map ga_ID as) ids)) (gift_clock w)) (gift_allocations w)) \<and>
     (\<exists>ts. transactions w' = transactions w @ ts \<and>
       (\<forall>t\<in>set ts. gift_row (gf_ID g) t \<and> txn_TransactionType t = TransactionTypeGiftClaim)) \<and>
     gift_tokens w' = map (\<lambda>t. if gt_GiftID t = gf_ID g then token_used k (gift_clock w) t else t) (gift_tokens w) \<and>
     gifts w' = gift_replaced g (claimed_gift c (gift_clock w) g) (gifts w) \<and> wall w' = wall w"

definition gift_returned :: "Gift \<Rightarrow> string \<Rightarrow> gift_world \<Rightarrow> gift_world \<Rightarrow> bool" where
  "gift_returned g status w w' \<longleftrightarrow>
     g \<in> set (gifts w) \<and> gf_Status g = GiftStatusPending \<and> status \<in> {GiftStatusCancelled, GiftStatusExpiredReturned} \<and>
     books (lots w') (transactions w') \<and> lots_evolve (lots w) (lots w') \<and>
     changed_at ga_SourceLotID (given_back (gift_clock w)) (of_gift (gf_ID g) (gift_allocations w))
       (lot_balances (lots w)) (lot_balances (lots w')) \<and>
     gift_allocations w' = map (\<lambda>a. if ga_GiftID a = gf_ID g then restored_row (gift_clock w) a else a) (gift_allocations w) \<and>
     (\<exists>ts. transactions w' = transactions w @ ts \<and> (\<forall>t\<in>set ts. gift_row (gf_ID g) t)) \<and>
     gift_tokens w' = map (\<lambda>t. if gt_GiftID t = gf_ID g then token_revoked (gift_clock w) t else t) (gift_tokens w) \<and>
     gifts w' = gift_replaced g (returned_gift status (gift_clock w) g) (gifts w) \<and> wall w' = wall w"

lemma effect_core:
  assumes "gift_core w1 = gift_core w" and "wall w1 = wall w" and "gift_core w2 = gift_core w'" and "wall w2 = wall w'"
  shows "gift_created g sel w1 w2 = gift_created g sel w w'" and "token_issued g t w1 w2 = token_issued g t w w'"
    and "gift_claimed g c k w1 w2 = gift_claimed g c k w w'" and "gift_returned g status w1 w2 = gift_returned g status w w'"
proof -
  have "gift_clock w1 = gift_clock w" using assms(2) by (simp add: gift_clock_def)
  moreover have "lots w1 = lots w" "transactions w1 = transactions w" "gifts w1 = gifts w" "gift_allocations w1 = gift_allocations w"
    "gift_tokens w1 = gift_tokens w" "lots w2 = lots w'" "transactions w2 = transactions w'" "gifts w2 = gifts w'"
    "gift_allocations w2 = gift_allocations w'" "gift_tokens w2 = gift_tokens w'"
    using assms(1,3) by (simp_all add: gift_core_iff)
  ultimately show "gift_created g sel w1 w2 = gift_created g sel w w'" "token_issued g t w1 w2 = token_issued g t w w'"
    "gift_claimed g c k w1 w2 = gift_claimed g c k w w'" "gift_returned g status w1 w2 = gift_returned g status w w'"
    using assms(2,4) by (simp_all only: gift_created_def token_issued_def gift_claimed_def gift_returned_def)
qed

subsection \<open>The effects keep the invariant\<close>

lemma replaced_set:
  assumes "g \<in> set gs"
  shows "set (gift_replaced g g' gs) = insert g' (set gs - {g})"
  using assms by (auto simp: gift_replaced_def)

lemma replaced_IDs [simp]: "gf_ID g' = gf_ID g \<Longrightarrow> map gf_ID (gift_replaced g g' gs) = map gf_ID gs"
  by (induction gs) (auto simp: gift_replaced_def)

lemma replaced_ID_set [simp]: "gf_ID g' = gf_ID g \<Longrightarrow> gf_ID ` set (gift_replaced g g' gs) = gf_ID ` set gs"
  by (metis list.set_map replaced_IDs)

lemma updated_gift:
  assumes "distinct (map gf_ID gs)" and "g \<in> set gs"
  shows "map (\<lambda>x. if gf_ID x = gf_ID g \<and> gf_Version x = gf_Version g then f x else x) gs = gift_replaced g (f g) gs"
  unfolding gift_replaced_def using distinct_key_unique [OF assms(1) _ assms(2)] by (intro map_cong) auto

text \<open>A gift is not affected by what happens to another one, or by the passing of time.\<close>

lemma evolves_entitled:
  "lot_evolves l l' \<Longrightarrow> lot_ID l' = lot_ID l \<and> lot_OwnerCustomerID l' = lot_OwnerCustomerID l \<and> lot_SourceGiftID l' = lot_SourceGiftID l \<and>
     lot_SourceLotID l' = lot_SourceLotID l \<and> lot_TotalQuantity l' = lot_TotalQuantity l \<and> lot_ExpiresAt l' = lot_ExpiresAt l"
  by (cases l; cases l') (simp add: lot_evolves_def lot_entitlement_def)

lemma handed_evolve:
  assumes "handed g ls a" and "lots_evolve ls ls'"
  shows "handed g ls' a"
proof -
  from assms(1) obtain l where l: "l \<in> set ls" "ga_ReceiverLotID a = Some (lot_ID l)" "gf_ReceiverCustomerID g = Some (lot_OwnerCustomerID l)"
    "lot_SourceGiftID l = Some (gf_ID g)" "lot_SourceLotID l = Some (ga_SourceLotID a)" "lot_TotalQuantity l = ga_Quantity a"
    "lot_ExpiresAt l = ga_SourceExpiresAt a" by (auto simp: handed_def)
  from assms(2) l(1) obtain l' where "l' \<in> set ls'" "lot_evolves l l'" by (auto simp: lots_evolve_def)
  with l assms(1) show ?thesis unfolding handed_def using evolves_entitled [of l l'] by (intro conjI bexI [of _ l']) auto
qed

lemma usable_later:
  assumes "now \<le> now'"
  shows "length (usable_tokens i now' ts) \<le> length (usable_tokens i now ts)"
  using assms by (induction ts) (auto simp: usable_tokens_def token_usable_def)

lemma usable_own: "usable_tokens i now ts = filter (token_usable now) (filter (\<lambda>t. gt_GiftID t = i) ts)"
  by (simp add: usable_tokens_def conj_commute)

lemma gift_ok_frame:
  assumes ok: "gift_ok w x" and as: "of_gift (gf_ID x) (gift_allocations w') = of_gift (gf_ID x) (gift_allocations w)"
    and lots: "lots_evolve (lots w) (lots w')"
    and ts: "filter (\<lambda>t. gt_GiftID t = gf_ID x) (gift_tokens w') = filter (\<lambda>t. gt_GiftID t = gf_ID x) (gift_tokens w)"
    and rows: "\<exists>ts. transactions w' = transactions w @ ts \<and> (\<forall>t\<in>set ts. \<not> gift_row (gf_ID x) t)"
    and now: "gift_clock w \<le> gift_clock w'"
  shows "gift_ok w' x"
proof -
  have "status_ok x (of_gift (gf_ID x) (gift_allocations w)) (lots w')"
    using ok handed_evolve [OF _ lots] by (auto simp: gift_ok_def status_ok_def)
  moreover have "tokens_ok x (gift_clock w') (gift_tokens w')"
  proof (cases "gf_Status x = GiftStatusPending")
    case True
    have "usable_tokens (gf_ID x) (gift_clock w') (gift_tokens w') = usable_tokens (gf_ID x) (gift_clock w') (gift_tokens w)"
      by (simp only: usable_own ts)
    with True ok usable_later [OF now, of "gf_ID x" "gift_tokens w"] show ?thesis by (auto simp: gift_ok_def tokens_ok_def)
  next
    case False
    with ok have "\<forall>t\<in>set (filter (\<lambda>t. gt_GiftID t = gf_ID x) (gift_tokens w)). \<not> token_open t"
      by (auto simp: gift_ok_def tokens_ok_def)
    with False show ?thesis unfolding ts [symmetric] by (auto simp: tokens_ok_def)
  qed
  moreover have "ledger_ok x (transactions w')" using ok rows by (auto simp: gift_ok_def ledger_ok_def)
  ultimately show ?thesis using ok as by (simp add: gift_ok_def)
qed

lemma gifts_ok_replaced:
  assumes ok: "gifts_ok w" and g: "g \<in> set (gifts w)" and id: "gf_ID g' = gf_ID g" and gs: "gifts w' = gift_replaced g g' (gifts w)"
    and b: "books (lots w') (transactions w')" and ids: "map ga_ID (gift_allocations w') = map ga_ID (gift_allocations w)"
    and owners: "map ga_GiftID (gift_allocations w') = map ga_GiftID (gift_allocations w)"
    and tokens: "distinct (map gt_ID (gift_tokens w'))" "\<forall>t\<in>set (gift_tokens w'). gt_GiftID t \<in> gf_ID ` set (gifts w)"
    and ledger: "\<exists>ts. transactions w' = transactions w @ ts \<and> (\<forall>t\<in>set ts. gift_row (gf_ID g) t)"
    and same: "gift_ok w' g'" and lots: "lots_evolve (lots w) (lots w')" and clock: "wall w' = wall w"
    and other: "\<And>i. i \<noteq> gf_ID g \<Longrightarrow> of_gift i (gift_allocations w') = of_gift i (gift_allocations w) \<and>
      filter (\<lambda>t. gt_GiftID t = i) (gift_tokens w') = filter (\<lambda>t. gt_GiftID t = i) (gift_tokens w)"
  shows "gifts_ok w'"
proof -
  have "ga_GiftID ` set (gift_allocations w') = ga_GiftID ` set (gift_allocations w)" using arg_cong [OF owners, of set] by simp
  moreover have "ga_GiftID ` set (gift_allocations w) \<subseteq> gf_ID ` set (gifts w)" using ok by (auto simp: gifts_ok_def gift_keys_ok_def)
  ultimately have "\<forall>a\<in>set (gift_allocations w'). ga_GiftID a \<in> gf_ID ` set (gifts w)" by blast
  moreover have "\<forall>t\<in>set (transactions w'). txn_BizType t = ''gift'' \<longrightarrow> txn_BizID t \<in> gf_ID ` set (gifts w)"
    using ok ledger g by (auto simp: gifts_ok_def gift_keys_ok_def gift_row_def biz_row_def)
  moreover have "gift_ok w' x" if "x \<in> set (gifts w')" for x
  proof (cases "x = g'")
    case False
    with that have x: "x \<in> set (gifts w)" "x \<noteq> g" unfolding gs replaced_set [OF g] by auto
    then have ne: "gf_ID x \<noteq> gf_ID g" using distinct_key_unique [OF gifts_okD(2) [OF ok] x(1) g] by blast
    have rows: "\<exists>ts. transactions w' = transactions w @ ts \<and> (\<forall>t\<in>set ts. \<not> gift_row (gf_ID x) t)"
      using ledger ne by (auto simp: gift_row_def biz_row_def)
    show ?thesis
      by (rule gift_ok_frame [OF gifts_okD(5) [OF ok x(1)] conjunct1 [OF other [OF ne]] lots conjunct2 [OF other [OF ne]] rows])
        (simp add: gift_clock_def clock)
  qed (simp add: same)
  ultimately show ?thesis
    using ok b ids tokens by (simp add: gifts_ok_def gift_keys_ok_def gs id)
qed

lemma held_rows [simp]:
  "ga_ID (held_row gid now item i) = i" "ga_GiftID (held_row gid now item i) = gid" "ga_SourceLotID (held_row gid now item i) = sel_ID item"
  "ga_Quantity (held_row gid now item i) = sel_quantity item" "gift_held (held_row gid now item i)"
  by (simp_all add: held_row_def gift_held_def)

lemma map2_keys:
  assumes "length ids = length xs" and "\<And>x i. key (f x i) = h x"
  shows "map key (map2 f xs ids) = map h xs"
  using assms by (induction xs ids rule: list_induct2') auto

lemma gift_sum_held: "length ids = length sel \<Longrightarrow> gift_sum (map2 (held_row gid now) sel ids) = (\<Sum>item\<leftarrow>sel. uint (sel_quantity item))"
  by (induction sel ids rule: list_induct2') auto

lemma of_gift_held:
  "of_gift i (map2 (held_row gid now) sel ids) = (if i = gid then map2 (held_row gid now) sel ids else [])"
  by (induction sel ids rule: list_induct2') (auto simp: of_gift_def)

lemma gift_created_ok:
  assumes ok: "gifts_ok w" and step: "gift_created g sel w w'"
  shows "gifts_ok w'"
proof -
  from step obtain ids ts where ids: "length ids = length sel"
      "gift_allocations w' = gift_allocations w @ map2 (held_row (gf_ID g) (gift_clock w)) sel ids"
    and ts: "transactions w' = transactions w @ ts" "\<forall>t\<in>set ts. gift_row (gf_ID g) t \<and> txn_TransactionType t = TransactionTypeGiftHold"
    and g: "gf_Status g = GiftStatusPending" "gf_ReceiverCustomerID g = None" "gf_Quantity g \<noteq> 0" "gf_Quantity g \<le> giftQuantityMax"
      "gf_ID g \<notin> gf_ID ` set (gifts w)" "gifts w' = gifts w @ [g]"
    and sel: "(\<Sum>item\<leftarrow>sel. uint (sel_quantity item)) = uint (gf_Quantity g)" "distinct (map sel_ID sel)" "\<forall>item\<in>set sel. sel_quantity item \<noteq> 0"
    and rest: "books (lots w') (transactions w')" "lots_evolve (lots w) (lots w')" "distinct (map ga_ID (gift_allocations w'))"
      "gift_tokens w' = gift_tokens w" "wall w' = wall w"
    unfolding gift_created_def by blast
  let ?new = "map2 (held_row (gf_ID g) (gift_clock w)) sel ids"
  note keys = ok [unfolded gifts_ok_def gift_keys_ok_def]
  have "ga_GiftID a \<noteq> gf_ID g" if "a \<in> set (gift_allocations w)" for a using keys g(5) that by metis
  then have none1: "of_gift (gf_ID g) (gift_allocations w) = []" by (simp add: of_gift_def filter_empty_conv)
  have none2: "\<not> gift_row (gf_ID g) t" if "t \<in> set (transactions w)" for t
    using keys g(5) that unfolding gift_row_def biz_row_def by metis
  have "gt_GiftID t \<noteq> gf_ID g" if "t \<in> set (gift_tokens w)" for t using keys g(5) that by metis
  then have none3: "usable_tokens (gf_ID g) now (gift_tokens w) = []" for now by (simp add: usable_tokens_def filter_empty_conv)
  have "gift_ok w' g"
    unfolding gift_ok_def
  proof (intro conjI)
    have "map ga_SourceLotID ?new = map sel_ID sel" by (rule map2_keys [OF ids(1)]) simp
    moreover have "\<forall>a\<in>set ?new. ga_Quantity a \<noteq> 0" using sel(3) by (auto dest: set_zip_leftD)
    ultimately show "allocated_ok g (of_gift (gf_ID g) (gift_allocations w'))"
      using g(3,4) sel(1,2) by (simp add: allocated_ok_def ids(2) none1 of_gift_held gift_sum_held [OF ids(1)])
    have "\<forall>a\<in>set ?new. gift_held a" by (auto dest: set_zip_leftD)
    then show "status_ok g (of_gift (gf_ID g) (gift_allocations w')) (lots w')"
      using g(1,2) by (simp add: status_ok_def ids(2) none1 of_gift_held)
    show "tokens_ok g (gift_clock w') (gift_tokens w')" using g(1) none3 rest(4) by (simp add: tokens_ok_def)
    show "ledger_ok g (transactions w')" using ts none2 by (auto simp: ledger_ok_def)
  qed
  moreover have "gift_ok w' x" if x: "x \<in> set (gifts w)" for x
  proof (rule gift_ok_frame [OF gifts_okD(5) [OF ok x] _ rest(2)])
    have ne: "gf_ID x \<noteq> gf_ID g" using x g(5) by (metis imageI)
    show "of_gift (gf_ID x) (gift_allocations w') = of_gift (gf_ID x) (gift_allocations w)" using ne by (simp add: ids(2) of_gift_held)
    show "\<exists>ts. transactions w' = transactions w @ ts \<and> (\<forall>t\<in>set ts. \<not> gift_row (gf_ID x) t)"
      using ts ne by (auto simp: gift_row_def biz_row_def)
  qed (simp_all add: rest gift_clock_def)
  moreover have "gift_keys_ok w'"
    using keys g(5,6) rest(3,4) ts by (auto simp: gift_keys_ok_def ids(2) gift_row_def biz_row_def dest: set_zip_leftD)
  ultimately show ?thesis using rest(1) g(6) by (simp add: gifts_ok_def)
qed

lemma token_issued_ok:
  assumes ok: "gifts_ok w" and step: "token_issued g t w w'"
  shows "gifts_ok w'"
proof -
  let ?g = "g\<lparr>gf_Version := gf_Version g + 1, gf_UpdatedAt := gift_clock w\<rparr>"
  from step have s: "g \<in> set (gifts w)" "gf_Status g = GiftStatusPending" "gt_GiftID t = gf_ID g"
      "length (usable_tokens (gf_ID g) (gift_clock w) (gift_tokens w)) < 3" "gift_tokens w' = gift_tokens w @ [t]"
      "gt_ID t \<notin> gt_ID ` set (gift_tokens w)" "gifts w' = gift_replaced g ?g (gifts w)" "lots w' = lots w" "transactions w' = transactions w"
      "gift_allocations w' = gift_allocations w" "wall w' = wall w"
    by (simp_all add: token_issued_def)
  note old = gifts_okD(5) [OF ok s(1)]
  have "gift_ok w' ?g"
    using old s(2-5,8-11) by (auto simp: gift_ok_def allocated_ok_def status_ok_def tokens_ok_def ledger_ok_def usable_tokens_def gift_clock_def)
  then show ?thesis
    using ok s by (intro gifts_ok_replaced [OF ok s(1) _ s(7)]) (auto simp: gifts_ok_def gift_keys_ok_def)
qed

lemma returned_sel [simp]:
  "gf_ID (returned_gift status now g) = gf_ID g" "gf_Quantity (returned_gift status now g) = gf_Quantity g"
  "gf_Status (returned_gift status now g) = status" "gf_ReceiverCustomerID (returned_gift status now g) = gf_ReceiverCustomerID g"
  "gf_ID (claimed_gift c now g) = gf_ID g" "gf_Quantity (claimed_gift c now g) = gf_Quantity g"
  "gf_Status (claimed_gift c now g) = GiftStatusClaimed" "gf_ReceiverCustomerID (claimed_gift c now g) = Some c"
  "gf_GiverCustomerID (claimed_gift c now g) = gf_GiverCustomerID g"
  by (simp_all add: returned_gift_def claimed_gift_def Let_def)

lemma token_sel [simp]:
  "gt_ID (token_revoked now t) = gt_ID t" "gt_GiftID (token_revoked now t) = gt_GiftID t" "\<not> token_open (token_revoked now t)"
  "gt_ID (token_used k now t) = gt_ID t" "gt_GiftID (token_used k now t) = gt_GiftID t" "\<not> token_open (token_used k now t)"
  by (auto simp: token_revoked_def token_used_def token_open_def)

lemma filter_others:
  "j \<noteq> i \<Longrightarrow> (\<And>t. gt_GiftID (f t) = gt_GiftID t) \<Longrightarrow>
    filter (\<lambda>t. gt_GiftID t = j) (map (\<lambda>t. if gt_GiftID t = i then f t else t) ts) = filter (\<lambda>t. gt_GiftID t = j) ts"
  by (induction ts) auto

lemma settled_tokens:
  assumes "gift_tokens w' = map (\<lambda>t. if gt_GiftID t = i then f t else t) (gift_tokens w)" and "\<And>t. gt_ID (f t) = gt_ID t"
    and "\<And>t. gt_GiftID (f t) = gt_GiftID t" and "\<And>t. \<not> token_open (f t)"
  shows "map gt_ID (gift_tokens w') = map gt_ID (gift_tokens w)" and "map gt_GiftID (gift_tokens w') = map gt_GiftID (gift_tokens w)"
    and "\<forall>t\<in>set (gift_tokens w'). gt_GiftID t = i \<longrightarrow> \<not> token_open t"
    and "j \<noteq> i \<Longrightarrow> filter (\<lambda>t. gt_GiftID t = j) (gift_tokens w') = filter (\<lambda>t. gt_GiftID t = j) (gift_tokens w)"
proof -
  show "map gt_ID (gift_tokens w') = map gt_ID (gift_tokens w)" "map gt_GiftID (gift_tokens w') = map gt_GiftID (gift_tokens w)"
    "\<forall>t\<in>set (gift_tokens w'). gt_GiftID t = i \<longrightarrow> \<not> token_open t"
    using assms by (auto simp: assms(1))
  show "j \<noteq> i \<Longrightarrow> filter (\<lambda>t. gt_GiftID t = j) (gift_tokens w') = filter (\<lambda>t. gt_GiftID t = j) (gift_tokens w)"
    unfolding assms(1) using filter_others [of j i f] assms(3) by blast
qed

lemma allocated_ok_map:
  assumes "allocated_ok g as" and "\<And>a. ga_Quantity (f a) = ga_Quantity a" and "\<And>a. ga_SourceLotID (f a) = ga_SourceLotID a"
    and "gf_Quantity g' = gf_Quantity g"
  shows "allocated_ok g' (map f as)"
  using assms by (simp add: allocated_ok_def gift_sum_def o_def)

lemma of_gift_if:
  assumes "\<And>a. ga_GiftID (f a) = ga_GiftID a"
  shows "of_gift i (map (\<lambda>a. if ga_GiftID a = j then f a else a) as) = (if i = j then map f (of_gift i as) else of_gift i as)"
  using assms by (induction as) (auto simp: of_gift_def)

lemma gift_returned_ok:
  assumes ok: "gifts_ok w" and step: "gift_returned g status w w'"
  shows "gifts_ok w'"
proof -
  let ?f = "\<lambda>a. if ga_GiftID a = gf_ID g then restored_row (gift_clock w) a else a" and ?g = "returned_gift status (gift_clock w) g"
  from step have s: "g \<in> set (gifts w)" "gf_Status g = GiftStatusPending" "status \<in> {GiftStatusCancelled, GiftStatusExpiredReturned}"
      "books (lots w') (transactions w')" "lots_evolve (lots w) (lots w')" "gift_allocations w' = map ?f (gift_allocations w)"
      "\<exists>ts. transactions w' = transactions w @ ts \<and> (\<forall>t\<in>set ts. gift_row (gf_ID g) t)"
      "gifts w' = gift_replaced g ?g (gifts w)" "wall w' = wall w"
    and ts: "gift_tokens w' = map (\<lambda>t. if gt_GiftID t = gf_ID g then token_revoked (gift_clock w) t else t) (gift_tokens w)"
    unfolding gift_returned_def by blast+
  note old = gifts_okD(5) [OF ok s(1), unfolded gift_ok_def] and tokens = settled_tokens [OF ts]
  have of: "of_gift i (gift_allocations w') = (if i = gf_ID g then map (restored_row (gift_clock w)) (of_gift i (gift_allocations w))
      else of_gift i (gift_allocations w))" for i
    unfolding s(6) by (rule of_gift_if) simp
  have "gift_ok w' ?g"
    unfolding gift_ok_def
  proof (intro conjI)
    show "allocated_ok ?g (of_gift (gf_ID ?g) (gift_allocations w'))" using allocated_ok_map [OF conjunct1 [OF old], of "restored_row (gift_clock w)" ?g] by (simp add: of)
    show "status_ok ?g (of_gift (gf_ID ?g) (gift_allocations w')) (lots w')"
      using old s(2,3) by (auto simp: of status_ok_def gift_held_def gift_restored_def gift_statuses)
    show "tokens_ok ?g (gift_clock w') (gift_tokens w')" using tokens(3) s(3) by (auto simp: tokens_ok_def gift_statuses)
    show "ledger_ok ?g (transactions w')" using s(3) by (auto simp: ledger_ok_def gift_statuses)
  qed
  moreover have "\<forall>t\<in>set (gift_tokens w'). gt_GiftID t \<in> gf_ID ` set (gifts w)"
    using ok s(1) by (auto simp: ts gifts_ok_def gift_keys_ok_def)
  ultimately show ?thesis
    using gifts_okD(4) [OF ok] tokens(1,4)
    by (intro gifts_ok_replaced [OF ok s(1) _ s(8,4) _ _ _ _ s(7) _ s(5,9)]) (auto simp: s(6) of [unfolded s(6)])
qed

lemma handed_row_sel [simp]:
  "ga_ID (handed_row r now a) = ga_ID a" "ga_GiftID (handed_row r now a) = ga_GiftID a" "ga_Quantity (handed_row r now a) = ga_Quantity a"
  "ga_SourceLotID (handed_row r now a) = ga_SourceLotID a" "ga_SourceExpiresAt (handed_row r now a) = ga_SourceExpiresAt a"
  by (simp_all add: handed_row_def split: option.splits)

lemma receiver_of:
  assumes d: "distinct (map ga_ID table)" and as: "set as = set (of_gift gid table)" and len: "length ids = length as" and a: "a \<in> set table"
  shows "ga_GiftID a \<noteq> gid \<Longrightarrow> map_of (zip (map ga_ID as) ids) (ga_ID a) = None"
    and "ga_GiftID a = gid \<Longrightarrow> \<exists>i. map_of (zip (map ga_ID as) ids) (ga_ID a) = Some i \<and> (a, i) \<in> set (zip as ids)"
proof -
  have same: "b = a" if "b \<in> set as" "ga_ID b = ga_ID a" for b
    using distinct_key_unique [OF d _ a, of b] that as by simp
  show "map_of (zip (map ga_ID as) ids) (ga_ID a) = None" if "ga_GiftID a \<noteq> gid"
    using len that as same by (auto simp: map_of_zip_is_None)
  assume "ga_GiftID a = gid"
  with a as have "ga_ID a \<in> set (map ga_ID as)" by simp
  with len obtain i where i: "map_of (zip (map ga_ID as) ids) (ga_ID a) = Some i"
    by (metis length_map map_of_zip_is_None option.exhaust)
  then obtain b where "(b, i) \<in> set (zip as ids)" "ga_ID b = ga_ID a"
    using map_of_SomeD [OF i] by (auto simp: zip_map1)
  with i same [of b] show "\<exists>i. map_of (zip (map ga_ID as) ids) (ga_ID a) = Some i \<and> (a, i) \<in> set (zip as ids)"
    by (metis set_zip_leftD)
qed

lemma handed_over:
  assumes "source_matches g a l" and "lot_ID l = ga_SourceLotID a" and "receiver_lot i c g a l now \<in> set ls"
  shows "handed (claimed_gift c now g) ls (claimed_row i now a)"
  unfolding handed_def using assms by (auto simp: receiver_lot_def source_matches_def intro!: bexI [OF _ assms(3)])

lemma gift_claimed_ok:
  assumes ok: "gifts_ok w" and step: "gift_claimed g c k w w'"
  shows "gifts_ok w'"
proof -
  let ?g = "claimed_gift c (gift_clock w) g"
  from step obtain as ids sources where m: "mset as = mset (of_gift (gf_ID g) (gift_allocations w))" and len: "length ids = length as"
    and src: "\<forall>a\<in>set as. \<exists>l\<in>set (lots w). sources (ga_SourceLotID a) = Some l \<and> lot_ID l = ga_SourceLotID a \<and> source_matches g a l"
    and ls: "lots w' = lots w @ map2 (handed_lot c g sources (gift_clock w)) as ids"
    and al: "gift_allocations w' = map (handed_row (map_of (zip (map ga_ID as) ids)) (gift_clock w)) (gift_allocations w)"
    and s: "g \<in> set (gifts w)" "gf_Status g = GiftStatusPending" "c \<noteq> gf_GiverCustomerID g" "books (lots w') (transactions w')"
      "\<exists>ts. transactions w' = transactions w @ ts \<and> (\<forall>t\<in>set ts. gift_row (gf_ID g) t)"
      "gifts w' = gift_replaced g ?g (gifts w)" "wall w' = wall w"
    and ts: "gift_tokens w' = map (\<lambda>t. if gt_GiftID t = gf_ID g then token_used k (gift_clock w) t else t) (gift_tokens w)"
    unfolding gift_claimed_def by blast
  let ?r = "map_of (zip (map ga_ID as) ids)"
  note old = gifts_okD(5) [OF ok s(1), unfolded gift_ok_def] and tokens = settled_tokens [OF ts]
    and rcv = receiver_of [OF gifts_okD(3) [OF ok] mset_eq_setD [OF m] len]
  have of: "of_gift i (gift_allocations w') = map (handed_row ?r (gift_clock w)) (of_gift i (gift_allocations w))" for i
    unfolding al by (rule of_gift_map) simp
  have "handed ?g (lots w') (handed_row ?r (gift_clock w) a)" if a: "a \<in> set (of_gift (gf_ID g) (gift_allocations w))" for a
  proof -
    from a have "a \<in> set (gift_allocations w)" "ga_GiftID a = gf_ID g" by simp_all
    from rcv(2) [OF this] obtain i where i: "?r (ga_ID a) = Some i" "(a, i) \<in> set (zip as ids)" by blast
    from src a mset_eq_setD [OF m] obtain l where l: "sources (ga_SourceLotID a) = Some l" "lot_ID l = ga_SourceLotID a" "source_matches g a l"
      by blast
    have "receiver_lot i c g a l (gift_clock w) \<in> set (lots w')" using i(2) l(1) by (force simp: ls)
    with handed_over [OF l(3,2)] i(1) show ?thesis by (simp add: handed_row_def)
  qed
  then have "gift_ok w' ?g"
    using old s(2,3) tokens(3) by (auto simp: gift_ok_def of allocated_ok_map status_ok_def tokens_ok_def ledger_ok_def gift_statuses)
  moreover have "\<forall>t\<in>set (gift_tokens w'). gt_GiftID t \<in> gf_ID ` set (gifts w)"
    using ok s(1) by (auto simp: ts gifts_ok_def gift_keys_ok_def)
  moreover have "of_gift i (gift_allocations w') = of_gift i (gift_allocations w)" if "i \<noteq> gf_ID g" for i
    unfolding of using rcv(1) that by (intro map_idI) (auto simp: handed_row_def)
  moreover have "lots_evolve (lots w) (lots w')" by (simp add: ls)
  ultimately show ?thesis
    using gifts_okD(4) [OF ok] tokens(1,4)
    by (intro gifts_ok_replaced [OF ok s(1) _ s(6,4) _ _ _ _ s(5) _ _ s(7)]) (auto simp: al)
qed

end
