(* ===== verification/Gift_Operations.thy ===== *)
theory Gift_Operations
  imports Gift_Effects
begin

text \<open>
  The operations of the gift service have the effects of \<open>Gift_Effects\<close>: whatever a call answers, the gift tables are as before or one
  gift was created, shared, claimed or returned, and the conditions the service checks held at that moment.
\<close>

subsection \<open>Settling\<close>

lemma validate_frame: "validateGiftHoldEvidence G g as rows w = (r, w') \<Longrightarrow> w' = w"
  by (cases r) (auto simp: validateGiftHoldEvidence_def giftHoldTransactions_def go_inv split: if_splits sum.splits prod.splits)

lemma pendingGiftProblem_None: "pendingGiftProblem g = None \<longleftrightarrow> gf_Status g = GiftStatusPending"
  by (auto simp: pendingGiftProblem_def)

lemma claim_problem_None: "claim_problem g = None \<Longrightarrow> gf_Status g = GiftStatusPending"
  by (auto simp: claim_problem_def split: if_splits)

text \<open>The rows a settling operation has locked.\<close>

definition gift_locked :: "Gift \<Rightarrow> GiftClaimToken list \<Rightarrow> GiftAllocation list \<Rightarrow> Lot list \<Rightarrow> gift_world \<Rightarrow> bool" where
  "gift_locked g ts as rows w \<longleftrightarrow> g \<in> set (gifts w) \<and> set ts = {t \<in> set (gift_tokens w). gt_GiftID t = gf_ID g} \<and>
     distinct (map gt_ID ts) \<and> mset as = mset (of_gift (gf_ID g) (gift_allocations w)) \<and>
     sources_agree (giftLotMap rows) (lots w) \<and> set rows \<subseteq> set (lots w)"

lemma changed_at_set: "set xs = set ys \<Longrightarrow> changed_at key f xs B B' = changed_at key f ys B B'"
  by (simp add: changed_at_def)

lemma restored_rows:
  assumes "distinct (map ga_ID table)" and "set as = set (of_gift gid table)"
  shows "map (\<lambda>x. if ga_ID x \<in> ga_ID ` set as then restored_row now x else x) table =
    map (\<lambda>a. if ga_GiftID a = gid then restored_row now a else a) table"
proof (rule map_cong [OF refl])
  fix x
  assume x: "x \<in> set table"
  have "ga_ID x \<in> ga_ID ` set as \<longleftrightarrow> ga_GiftID x = gid"
  proof
    assume "ga_ID x \<in> ga_ID ` set as"
    then obtain b where "b \<in> set as" "ga_ID x = ga_ID b" by blast
    then show "ga_GiftID x = gid" using distinct_key_unique [OF assms(1) _ x, of b] assms(2) by simp
  next
    assume "ga_GiftID x = gid"
    with x assms(2) show "ga_ID x \<in> ga_ID ` set as" by simp
  qed
  then show "(if ga_ID x \<in> ga_ID ` set as then restored_row now x else x) = (if ga_GiftID x = gid then restored_row now x else x)" by simp
qed

context gift_store
begin

lemma lock_rows:
  assumes ok: "gifts_ok w" and g: "g \<in> set (gifts w)" and ts: "lockGiftTokens G (gf_ID g) w = (Inr ts, w1)"
    and as: "lockGiftAllocationsAndLots G (gf_ID g) w1 = (Inr (as, rows), w2)"
  shows "w2 = w" and "gift_locked g ts as rows w"
  using lock_tokens [OF ts] lock_allocations [OF as] gifts_okD(4) [OF ok] g by (auto simp: gift_locked_def)

lemma restoreGiftLocked_done:
  assumes ok: "gifts_ok w" and pending: "gf_Status g = GiftStatusPending" and lock: "gift_locked g ts as rows w"
    and run: "restoreGiftLocked G g ts as rows status (gift_clock w) w = (Inr u, w')"
  shows "gift_returned g status w w'"
proof -
  let ?now = "gift_clock w"
  from run obtain w1 w2 w3 w4 payload where status: "status \<in> {GiftStatusCancelled, GiftStatusExpiredReturned}"
    and val: "validateGiftHoldEvidence G g as rows w = (Inr (), w1)"
    and res: "go_for (\<lambda>a _. restore_allocation G g (giftLotMap rows) ?now a) as () w1 = (Inr (), w2)"
    and rev: "go_for (\<lambda>t _. revoke_token G ?now t) ts () w2 = (Inr (), w3)"
    and upd: "updateGift G (gf_ID g) (gf_Version g) (returned_gift status ?now) w3 = (Inr (), w4)"
    and last: "writeGiftOutbox G ''wine_ticket.gift_returned'' g payload w4 = (Inr u, w')"
    unfolding restoreGiftLocked_def by (auto simp: go_bind_Inr_inv split: if_splits)
  note out = quietD [OF quiet_outbox last] quiet_wall [OF quiet_outbox last]
  have w1: "w1 = w" by (rule validate_frame [OF val])
  from lock have l: "g \<in> set (gifts w)" "set ts = {t \<in> set (gift_tokens w). gt_GiftID t = gf_ID g}" "distinct (map gt_ID ts)"
    "mset as = mset (of_gift (gf_ID g) (gift_allocations w))" "sources_agree (giftLotMap rows) (lots w)" by (auto simp: gift_locked_def)
  note old = gifts_okD(5) [OF ok l(1), unfolded gift_ok_def] and as = mset_eq_setD [OF l(4)]
  have "\<forall>t\<in>set (transactions w). gift_row (gf_ID g) t \<longrightarrow> txn_TransactionType t = TransactionTypeGiftRestore \<longrightarrow> txn_LotID t \<notin> ga_SourceLotID ` set as"
    using old pending by (auto simp: ledger_ok_def TransactionTypeGiftHold_def TransactionTypeGiftRestore_def)
  note loop = restore_loop_done [OF res [unfolded w1] gifts_okD(1) [OF ok] gift_clock_def l(5) this validate_done(2) [OF val]]
  have w3: "w3 = w2\<lparr>gift_tokens := map (\<lambda>t. if gt_GiftID t = gf_ID g then token_revoked ?now t else t) (gift_tokens w2)\<rparr>"
    by (rule revoke_loop_done [OF rev]) (use loop l(2,3) gifts_okD(4) [OF ok] in simp_all)
  note w4 = updateGift_done [OF upd]
  have gs: "gifts w4 = gift_replaced g (returned_gift status ?now g) (gifts w)"
    using loop w3 w4 updated_gift [OF gifts_okD(2) [OF ok] l(1)] by simp
  have al: "gift_allocations w4 = map (\<lambda>a. if ga_GiftID a = gf_ID g then restored_row ?now a else a) (gift_allocations w)"
    using loop w3 w4 restored_rows [OF gifts_okD(3) [OF ok] as] by simp
  have "\<exists>ts. transactions w2 = transactions w @ ts \<and> (\<forall>t\<in>set ts. gift_row (gf_ID g) t)" using loop by blast
  moreover have "changed_at ga_SourceLotID (given_back ?now) (of_gift (gf_ID g) (gift_allocations w)) (lot_balances (lots w)) (lot_balances (lots w2))"
    using loop changed_at_set [OF as] by metis
  ultimately show ?thesis
    unfolding gift_returned_def using out loop w3 w4 gs al l(1) pending status by (simp add: gift_core_iff)
qed

lemma hand_over_done:
  assumes ok: "gifts_ok w" and pending: "gf_Status g = GiftStatusPending" and lock: "gift_locked g ts as rows w"
    and ready: "ids_ready 3000 w" and other: "c \<noteq> gf_GiverCustomerID g"
    and run: "hand_over G c g ts k as rows (gift_clock w) w = (Inr u, w')"
  shows "gift_claimed g c k w w'"
proof -
  let ?now = "gift_clock w" and ?src = "giftLotMap rows"
  from run obtain w1 w2 w3 where
    val: "validateGiftHoldEvidence G g as rows w = (Inr (), w1)"
    and clm: "go_for (\<lambda>a _. claim_allocation G c g ?src ?now a) as () w1 = (Inr (), w2)"
    and use: "go_for (\<lambda>t _. use_token G k ?now t) ts () w2 = (Inr (), w3)"
    and upd: "updateGift G (gf_ID g) (gf_Version g) (claimed_gift c ?now) w3 = (Inr u, w')"
    unfolding hand_over_def by (auto simp: go_bind_Inr_inv split: if_splits)
  have w1: "w1 = w" by (rule validate_frame [OF val])
  from lock have l: "g \<in> set (gifts w)" "set ts = {t \<in> set (gift_tokens w). gt_GiftID t = gf_ID g}" "distinct (map gt_ID ts)"
    "mset as = mset (of_gift (gf_ID g) (gift_allocations w))" "set rows \<subseteq> set (lots w)" by (auto simp: gift_locked_def)
  note old = gifts_okD(5) [OF ok l(1), unfolded gift_ok_def] and as = mset_eq_setD [OF l(4)]
  have "int (length as) \<le> uint (gf_Quantity g)" using gift_sum_length [OF validate_done(4) [OF val]] validate_done(1) [OF val] by simp
  moreover have "uint (gf_Quantity g) \<le> 1000" using old by (auto simp: allocated_ok_def giftQuantityMax_def word_le_def)
  ultimately have "length as \<le> 1000" by linarith
  then have ids: "ids_ready (3 * length as + 0) w" using ids_ready_mono [OF ready] by simp
  have "\<forall>t\<in>set (transactions w). gift_row (gf_ID g) t \<longrightarrow> txn_TransactionType t = TransactionTypeGiftClaim \<longrightarrow>
      uint (txn_LotID t) \<le> snow_stamp (snow w)"
    using old pending by (auto simp: ledger_ok_def TransactionTypeGiftHold_def TransactionTypeGiftClaim_def)
  moreover have "distinct (map ga_ID as)"
    using mset_distinct [OF l(4), of ga_ID] gifts_okD(3) [OF ok] by (simp add: of_gift_def distinct_map_filter)
  ultimately have loop: "books (lots w2) (transactions w2)"
      "\<forall>a\<in>set as. \<exists>l. ?src (ga_SourceLotID a) = Some l \<and> source_matches g a l"
      "gifts w2 = gifts w" "gift_tokens w2 = gift_tokens w" "wall w2 = wall w"
      "\<exists>ts. transactions w2 = transactions w @ ts \<and> (\<forall>t\<in>set ts. gift_row (gf_ID g) t \<and> txn_TransactionType t = TransactionTypeGiftClaim)"
      "\<exists>ids. length ids = length as \<and> lots w2 = lots w @ map2 (handed_lot c g ?src ?now) as ids \<and>
        gift_allocations w2 = map (handed_row (map_of (zip (map ga_ID as) ids)) ?now) (gift_allocations w)"
    using claim_loop_done [OF clm [unfolded w1] gifts_okD(1) [OF ok] gift_clock_def ids] by auto
  have w3: "w3 = w2\<lparr>gift_tokens := map (\<lambda>t. if gt_GiftID t = gf_ID g then token_used k ?now t else t) (gift_tokens w2)\<rparr>"
    by (rule use_loop_done [OF use]) (use loop l(2,3) gifts_okD(4) [OF ok] in simp_all)
  note w' = updateGift_done [OF upd]
  have gs: "gifts w' = gift_replaced g (claimed_gift c ?now g) (gifts w)"
    using loop(3) w3 w' updated_gift [OF gifts_okD(2) [OF ok] l(1)] by simp
  have src: "\<forall>a\<in>set as. \<exists>l\<in>set (lots w). ?src (ga_SourceLotID a) = Some l \<and> lot_ID l = ga_SourceLotID a \<and> source_matches g a l"
    using loop(2) giftLotMap_row l(5) by blast
  from loop(7) obtain ids where "length ids = length as" "lots w2 = lots w @ map2 (handed_lot c g ?src ?now) as ids"
    "gift_allocations w2 = map (handed_row (map_of (zip (map ga_ID as) ids)) ?now) (gift_allocations w)" by blast
  with src l(4) w3 w' have "\<exists>as ids sources. mset as = mset (of_gift (gf_ID g) (gift_allocations w)) \<and> length ids = length as \<and>
      (\<forall>a\<in>set as. \<exists>l\<in>set (lots w). sources (ga_SourceLotID a) = Some l \<and> lot_ID l = ga_SourceLotID a \<and> source_matches g a l) \<and>
      lots w' = lots w @ map2 (handed_lot c g sources ?now) as ids \<and>
      gift_allocations w' = map (handed_row (map_of (zip (map ga_ID as) ids)) ?now) (gift_allocations w)"
    by (intro exI [of _ as] exI [of _ ids] exI [of _ ?src]) simp
  then show ?thesis
    unfolding gift_claimed_def using loop(1,4,5,6) w3 w' gs l(1) pending other by simp
qed

end

subsection \<open>Sharing\<close>

lemma active_tokens_count: "fst (active_tokens ts now n e) = n + int (length (filter (token_usable now) ts))"
  by (induction ts now n e rule: active_tokens.induct) auto

lemma usable_locked:
  assumes "mset ts = mset (filter (\<lambda>t. gt_GiftID t = i) table)"
  shows "length (filter (token_usable now) ts) = length (usable_tokens i now table)"
  using arg_cong [OF assms, of "\<lambda>m. size (filter_mset (token_usable now) m)"] unfolding usable_own by (simp flip: mset_filter)

context gift_store
begin

lemma issue_token_done:
  assumes ok: "gifts_ok w" and g: "g \<in> set (gifts w)" and pending: "gf_Status g = GiftStatusPending"
    and ts: "mset ts = mset (filter (\<lambda>t. gt_GiftID t = gf_ID g) (gift_tokens w))"
    and run: "issue_token G c g ts (gift_clock w) w = (Inr dto, w')"
  obtains t where "token_issued g t w w'" and "gt_TokenDigest t = tokenDigest G (gsd_ShareToken dto)" and "token_open t"
    and "gt_ExpiresAt t = token_expiry g (gift_clock w)" and "gift_clock w < gt_ExpiresAt t"
proof -
  let ?now = "gift_clock w"
  obtain n e where count: "activeGiftTokenCount ts ?now = (n, e)" by fastforce
  from run count obtain raw w1 i w2 w3 w4 md where less: "n < 3"
    and raw: "newGiftShareToken G w = (Inr raw, w1)" and exp: "?now < token_expiry g ?now"
    and nxt: "ids_Next w1 = (Inr i, w2)"
    and ins: "createGiftToken G \<lparr>gt_ID = i, gt_GiftID = gf_ID g, gt_TokenDigest = tokenDigest G raw, gt_IssuedByCustomerID = c,
        gt_ExpiresAt = token_expiry g ?now, gt_ConsumedAt = None, gt_RevokedAt = None, gt_RequestID = ge_RequestID G, gt_CreatedAt = ?now\<rparr> w2 =
        (Inr (), w3)" (is "createGiftToken G ?t w2 = _")
    and upd: "updateGift G (gf_ID g) (gf_Version g) (\<lambda>g. g\<lparr>gf_Version := gf_Version g + 1, gf_UpdatedAt := ?now\<rparr>) w3 = (Inr (), w4)"
    and aud: "writeGiftAudit G ''customer'' c ''wine_ticket.gift.share_token.issue'' g GiftStatusPending GiftStatusPending md w4 = (Inr (), w')"
    and dto: "gsd_ShareToken dto = raw"
    unfolding issue_token_def Let_def by (auto simp: go_bind_Inr_inv giftActiveTokenMax_def split: if_splits)
  note q1 = quietD [OF quiet_token raw] quiet_wall [OF quiet_token raw] and q2 = quietD [OF quiet_clock(3) nxt] quiet_wall [OF quiet_clock(3) nxt]
    and q4 = quietD [OF quiet_audit aud] quiet_wall [OF quiet_audit aud] and w4 = updateGift_done [OF upd]
  from ins obtain rows where rows: "sql_create (tokenE G) ?t (gift_tokens w2) = Inr rows" and w3: "w3 = w2\<lparr>gift_tokens := rows\<rparr>"
    by (auto simp: createGiftToken_def db_create_inv gift_tables)
  have "n = int (length (usable_tokens (gf_ID g) ?now (gift_tokens w)))"
    using active_tokens_count [of ts ?now 0 None] usable_locked [OF ts] count by (simp add: activeGiftTokenCount_def)
  then have few: "length (usable_tokens (gf_ID g) ?now (gift_tokens w)) < 3" using less by simp
  have gs: "gifts w4 = gift_replaced g (g\<lparr>gf_Version := gf_Version g + 1, gf_UpdatedAt := ?now\<rparr>) (gifts w)"
    using q1 q2 w3 w4 updated_gift [OF gifts_okD(2) [OF ok] g] by (simp add: gift_core_iff)
  have "token_issued g ?t w w'"
    unfolding token_issued_def
    using few gs g pending q1 q2 q4 w3 w4 token.create_row [OF rows] by (auto simp: gift_core_iff token_clash_def)
  then show thesis using that [of ?t] dto exp by (simp add: token_open_def)
qed

end

subsection \<open>Creating\<close>

lemma fefo_share_range: "0 \<le> q \<Longrightarrow> s \<in> set (fefo_shares ls q) \<Longrightarrow> 0 \<le> s \<and> s < 2 ^ 64"
proof (induction ls arbitrary: q)
  case (Cons l ls)
  have "min (uint (lot_AvailableQuantity l)) q \<le> q" "0 \<le> min (uint (lot_AvailableQuantity l)) q"
    "min (uint (lot_AvailableQuantity l)) q < 2 ^ 64"
    using Cons.prems(1) uint_lt2p [of "lot_AvailableQuantity l"] by (auto simp: min_def)
  with Cons.prems Cons.IH [of "q - min (uint (lot_AvailableQuantity l)) q"] show ?case by (auto simp: Let_def)
qed simp

lemma sum_picks_nonzero:
  "\<forall>s\<in>set ss. 0 \<le> s \<and> s < 2 ^ 64 \<Longrightarrow> length ss = length ls \<Longrightarrow>
     (\<Sum>item\<leftarrow>map (\<lambda>(l, s). \<lparr>sel_lot = l, sel_quantity = word_of_int s\<rparr>) (filter (\<lambda>(l, s). s \<noteq> 0) (zip ls ss)).
       uint (sel_quantity item)) = sum_list ss"
  by (induction ls ss rule: list_induct2') (auto simp: uint_word_of_int)

lemma fefo_picks_facts:
  assumes "distinct (map lot_ID ls)" and "0 \<le> q"
  shows "distinct (map sel_ID (fefo_picks ls q))" and "\<forall>item\<in>set (fefo_picks ls q). sel_quantity item \<noteq> 0 \<and> sel_lot item \<in> set ls"
    and "(\<Sum>item\<leftarrow>fefo_picks ls q. uint (sel_quantity item)) = sum_list (fefo_shares ls q)"
proof -
  have range: "\<forall>s\<in>set (fefo_shares ls q). 0 \<le> s \<and> s < 2 ^ 64" using fefo_share_range [OF assms(2)] by blast
  have "map sel_ID (fefo_picks ls q) = map (\<lambda>(l, s). lot_ID l) (filter (\<lambda>(l, s). s \<noteq> 0) (zip ls (fefo_shares ls q)))"
    by (simp add: fefo_picks_def o_def case_prod_unfold)
  moreover have "map (\<lambda>(l, s). lot_ID l) (zip ls (fefo_shares ls q)) = map lot_ID ls"
    by (simp add: case_prod_unfold flip: map_map [of lot_ID fst, unfolded o_def])
  ultimately show "distinct (map sel_ID (fefo_picks ls q))" using assms(1) distinct_map_filter by metis
  show "\<forall>item\<in>set (fefo_picks ls q). sel_quantity item \<noteq> 0 \<and> sel_lot item \<in> set ls"
  proof
    fix item
    assume "item \<in> set (fefo_picks ls q)"
    then obtain l s where ls: "(l, s) \<in> set (zip ls (fefo_shares ls q))" "s \<noteq> 0" "item = \<lparr>sel_lot = l, sel_quantity = word_of_int s\<rparr>"
      by (auto simp: fefo_picks_def)
    then have "s \<in> set (fefo_shares ls q)" "l \<in> set ls" by (auto dest: set_zip_leftD set_zip_rightD)
    with range ls(2) have "uint (word_of_int s :: go_uint) \<noteq> 0" by (auto simp: uint_word_of_int)
    then show "sel_quantity item \<noteq> 0 \<and> sel_lot item \<in> set ls" using ls(3) \<open>l \<in> set ls\<close> by auto
  qed
  show "(\<Sum>item\<leftarrow>fefo_picks ls q. uint (sel_quantity item)) = sum_list (fefo_shares ls q)"
    unfolding fefo_picks_def by (rule sum_picks_nonzero [OF range]) simp
qed

text \<open>\<open>fefo_group\<close>: the lots of the anchor's group, in the order they expire.\<close>

definition fefo_group :: "Lot \<Rightarrow> gift_world \<Rightarrow> Lot list \<Rightarrow> bool" where
  "fefo_group anchor w ls \<longleftrightarrow> anchor \<in> set (lots w) \<and> mset ls = mset (filter (in_gift_group anchor (gift_clock w)) (lots w)) \<and>
     sorted (map fefo_order ls)"

context gift_store
begin

lemma selected_lots_done:
  assumes run: "selected_lots G c req (gift_clock w) w = (Inr (anchor, sel), w')"
  obtains ls where "fefo_group anchor w ls" and "sel = fefo_picks ls (uint (gcr_Quantity req))"
    and "sum_list (fefo_shares ls (uint (gcr_Quantity req))) = uint (gcr_Quantity req)"
    and "lot_LotNo anchor = gcr_SourceLotNo req" and "lot_OwnerCustomerID anchor = c"
proof -
  let ?now = "gift_clock w"
  from run obtain ls where anchor: "sql_take (wt_lotE G) (\<lambda>l. lot_LotNo l = gcr_SourceLotNo req \<and> lot_OwnerCustomerID l = c \<and> lot_giftable ?now l)
      (lots w) = Inr anchor"
    and ls: "sql_ordered (wt_lotE G) (in_gift_group anchor ?now) fefo_order (lots w) = Inr ls"
    and sel: "selectGiftFEFO ls (gcr_Quantity req) = Inr sel"
    unfolding selected_lots_def
    by (elim go_elims) (auto simp: giftAnchorLot_def lockGiftGroupLots_def db_take_inv db_ordered_inv gift_tables)
  from ticket.lot_table.take_row [OF anchor] ticket.lot_table.ordered_rows [OF ls] selectGiftFEFO_done [OF sel] show thesis
    by (intro that [of ls]) (auto simp: fefo_group_def)
qed

lemma hold_gift_done:
  assumes ok: "gifts_ok w" and run: "hold_gift G c req w = (Inr g, w')"
    and qty: "gcr_Quantity req \<noteq> 0" "gcr_Quantity req \<le> giftQuantityMax"
  obtains anchor ls where "fefo_group anchor w ls" and "gift_created g (fefo_picks ls (uint (gcr_Quantity req))) w w'"
    and "lot_LotNo anchor = gcr_SourceLotNo req" and "lot_OwnerCustomerID anchor = c" and "gf_GiverCustomerID g = c"
    and "gf_Quantity g = gcr_Quantity req"
proof -
  let ?now = "gift_clock w"
  let ?new = "\<lambda>anchor first rest i. new_gift i c anchor req (earliest_expiry (lot_ExpiresAt (sel_lot first)) rest) ?now"
  from run obtain w1 anchor sel w2 i w3 where
    adult: "requireAdultCustomer G c ?now w = (Inr (), w1)"
    and sel: "selected_lots G c req ?now w1 = (Inr (anchor, sel), w2)"
    and nxt: "ids_Next w2 = (Inr i, w3)"
    and cont: "(case sel of [] \<Rightarrow> go_err index_panic | first # rest \<Rightarrow>
      go_bind (map_error giftWriteError (createGift G (?new anchor first rest i))) (\<lambda>_.
      go_bind (go_for (\<lambda>item _. hold_item G c i ?now item) sel ()) (\<lambda>_. go_ok (?new anchor first rest i)))) w3 = (Inr g, w')"
    unfolding hold_gift_def Let_def by (elim go_bindE go_prodE) auto
  from cont obtain e w4 where g: "g = new_gift i c anchor req e ?now" and ins: "createGift G g w3 = (Inr (), w4)"
    and loop: "go_for (\<lambda>item _. hold_item G c i ?now item) sel () w4 = (Inr (), w')"
    by (cases sel) (auto simp del: go_for.simps elim!: go_bindE)
  note q1 = quietD [OF quiet_adult adult] quiet_wall [OF quiet_adult adult] and q2 = quietD [OF quiet_selection sel] quiet_wall [OF quiet_selection sel]
    and q3 = quietD [OF quiet_clock(3) nxt] quiet_wall [OF quiet_clock(3) nxt]
  have clock: "gift_clock w1 = ?now" using q1 by (simp add: gift_clock_def)
  from selected_lots_done [of c req w1, unfolded clock, OF sel] obtain ls where ls: "fefo_group anchor w1 ls"
      "sel = fefo_picks ls (uint (gcr_Quantity req))" "sum_list (fefo_shares ls (uint (gcr_Quantity req))) = uint (gcr_Quantity req)"
      "lot_LotNo anchor = gcr_SourceLotNo req" "lot_OwnerCustomerID anchor = c" by blast
  have group: "fefo_group anchor w ls" using ls(1) q1 clock by (simp add: fefo_group_def gift_core_iff)
  from ins obtain rows where rows: "sql_create (giftE G) g (gifts w3) = Inr rows" and w4: "w4 = w3\<lparr>gifts := rows\<rparr>"
    by (auto simp: createGift_def db_create_inv gift_tables)
  note created = gift.create_row [OF rows]
  have same: "lots w4 = lots w" "transactions w4 = transactions w" "gift_allocations w4 = gift_allocations w" "gift_tokens w4 = gift_tokens w"
      "wall w4 = wall w" "gifts w4 = gifts w @ [g]" and fresh: "gf_ID g \<notin> gf_ID ` set (gifts w)"
    using created q1 q2 q3 w4 by (auto simp: gift_core_iff gift_clash_def)
  have gi: "gf_ID g = i" "gf_Quantity g = gcr_Quantity req" "gf_Status g = GiftStatusPending" "gf_ReceiverCustomerID g = None"
      "gf_GiverCustomerID g = c" by (simp_all add: g new_gift_def Let_def)
  have new: "\<forall>t\<in>set (transactions w4). gift_row i t \<longrightarrow> txn_LotID t \<notin> sel_ID ` set sel"
  proof (intro ballI impI)
    fix t
    assume "t \<in> set (transactions w4)" "gift_row i t"
    then have "i \<in> gf_ID ` set (gifts w)" using ok same(2) unfolding gifts_ok_def gift_keys_ok_def gift_row_def biz_row_def by metis
    then show "txn_LotID t \<notin> sel_ID ` set sel" using fresh gi(1) by simp
  qed
  have "distinct (map lot_ID ls)"
    using mset_distinct [of ls "filter (in_gift_group anchor ?now) (lots w)" lot_ID] group gifts_okD(1) [OF ok]
    by (simp add: fefo_group_def books_def distinct_map_filter)
  note picks = fefo_picks_facts [OF this uint_ge_0, of "gcr_Quantity req"]
  have b4: "books (lots w4) (transactions w4)" using gifts_okD(1) [OF ok] same by simp
  note hold = hold_loop_done [OF loop b4 new picks(1) [folded ls(2)]]
  obtain ts where ts: "transactions w' = transactions w @ ts" "list_all2 (\<lambda>item t. hold_evidence c i (sel_ID item) (sel_quantity item) t) sel ts"
    using hold same(2) by auto
  have rows: "\<forall>t\<in>set ts. gift_row i t \<and> txn_TransactionType t = TransactionTypeGiftHold"
    using ts(2) by (auto simp: list_all2_conv_all_nth in_set_conv_nth hold_evidence_def evidence_of_def gift_row_def biz_row_def)
  have "gift_created g sel w w'"
    unfolding gift_created_def gi
  proof (intro conjI)
    show "\<exists>ts. transactions w' = transactions w @ ts \<and> (\<forall>t\<in>set ts. gift_row i t \<and> txn_TransactionType t = TransactionTypeGiftHold)"
      using ts(1) rows by blast
    show "(\<Sum>item\<leftarrow>sel. uint (sel_quantity item)) = uint (gcr_Quantity req)" using picks(3) ls(2,3) by simp
    show "distinct (map ga_ID (gift_allocations w'))" using hold gifts_okD(3) [OF ok] same(3) by simp
  qed (use hold same fresh gi qty picks ls(2) in \<open>auto simp: gi\<close>)
  with group ls gi show thesis by (intro that [of anchor ls]) auto
qed

end

subsection \<open>What an operation can do\<close>

definition gift_effect :: "gift_world \<Rightarrow> gift_world \<Rightarrow> bool" where
  "gift_effect w w' \<longleftrightarrow> (gift_core w' = gift_core w \<and> wall w' = wall w) \<or> (\<exists>g sel. gift_created g sel w w') \<or>
     (\<exists>g t. token_issued g t w w') \<or> (\<exists>g c k. gift_claimed g c k w w') \<or> (\<exists>g status. gift_returned g status w w')"

abbreviation gift_same :: "gift_world \<Rightarrow> gift_world \<Rightarrow> bool" where
  "gift_same w w' \<equiv> gift_core w' = gift_core w \<and> wall w' = wall w"

definition gift_timeout :: "gift_world \<Rightarrow> gift_world \<Rightarrow> bool" where
  "gift_timeout w w' \<longleftrightarrow> gift_same w w' \<or> (\<exists>g. gift_returned g GiftStatusExpiredReturned w w')"

lemma timeout_effect: "gift_timeout w w' \<Longrightarrow> gift_effect w w'"
  by (auto simp: gift_timeout_def gift_effect_def)

lemma effect_ok: "gift_effect w w' \<Longrightarrow> gifts_ok w \<Longrightarrow> gifts_ok w'"
  unfolding gift_effect_def using gifts_ok_core gift_created_ok token_issued_ok gift_claimed_ok gift_returned_ok by blast

lemma effect_wall: "gift_effect w w' \<Longrightarrow> wall w' = wall w"
  unfolding gift_effect_def gift_created_def token_issued_def gift_claimed_def gift_returned_def by blast

lemma quiet_same: "quiet m \<Longrightarrow> m w = (r, w') \<Longrightarrow> gift_same w w'"
  by (auto simp: quiet_def)

lemma transaction_cases:
  assumes "gorm_transaction commit restore_gift m w = (r, w')"
  obtains (failed) e where "r = Inl e" and "gift_same w w'" | (committed) a where "r = Inr a" and "m w = (Inr a, w')"
  using assms
  by (cases r) (auto simp: gorm_transaction_success restore_gift_def gift_core_def dest!: gorm_transaction_error)

lemma normalized_quantity:
  assumes "normalizeGiftCreateRequest req0 = Inr req"
  shows "gcr_Quantity req \<noteq> 0" and "gcr_Quantity req \<le> giftQuantityMax" and "gcr_Quantity req = gcr_Quantity req0"
    and "gcr_SourceLotNo req = TrimSpace (gcr_SourceLotNo req0)"
  using assms by (auto simp: normalizeGiftCreateRequest_def Let_def split: option.splits if_splits)

lemma spends_read [simp]: "spends N (db_take T p)" "spends N (db_find T p)" "spends N (db_ordered T p key)"
  by (rule spends_frame; auto simp: go_inv)+

lemma start_spends: "spends (Suc 0) (startIdempotency G ty i verb path key h)"
proof -
  have claims: "spends 0 (on_gift_claims m)" for m :: "(Record list, go_error, bool) go"
    by (rule spends_frame) (auto simp: on_gift_claims_def split: prod.splits)
  have clock: "spends 0 (go_call wall_now :: (gift_world, go_error, go_time) go)"
    by (rule spends_frame) (auto simp: go_inv wall_now_def)
  show ?thesis
    unfolding startIdempotency_def ids_Next_def
    by (intro spends_bind_one [OF spends_next] spends_bind_free [OF clock] claims)
qed

lemma adult_spends: "spends 0 (requireAdultCustomer G c now)"
  unfolding requireAdultCustomer_def customerAccount_def customerRealname_def pendingIdentityVerification_def
  by (intro spends_bind_free spends_rules spends_read)

lemma bind_quiet_tail:
  assumes "go_bind m k w = (Inr b, w')" and "\<And>a. quiet (k a)"
  obtains a w2 where "m w = (Inr a, w2)" and "gift_same w2 w'"
  using assms(1) quiet_same [OF assms(2)] by (elim go_bindE) blast

lemmas quiet_tail = quiet_rules quiet_projection quiet_audit quiet_outbox quiet_idempotency

lemma map_error_bind: "map_error f m w = (r, w') \<Longrightarrow> \<exists>r'. m w = (r', w')"
  by (auto simp: map_error_def go_bind_def go_try_def go_err_def go_ok_def split: prod.splits sum.splits)

context gift_store
begin

lemma giver_gift_done: "giver_gift G c no w = (Inr g, w') \<Longrightarrow> w' = w \<and> g \<in> set (gifts w) \<and> gf_GiftNo g = no \<and> gf_GiverCustomerID g = c"
  unfolding giver_gift_def by (elim go_elims) (auto split: if_splits sum.splits dest: lock_gift(2))

lemma create_done:
  assumes ok: "gifts_ok w" and run: "gift_Create G claims verb path key req0 w = (r, w')"
  shows "gift_same w w' \<or> (\<exists>c req anchor ls g dto. giftCustomerIDWithPermission claims ''wine_ticket_gift:create'' = Inr c \<and>
    normalizeGiftCreateRequest req0 = Inr req \<and> r = Inr dto \<and> fefo_group anchor w ls \<and>
    gift_created g (fefo_picks ls (uint (gcr_Quantity req))) w w' \<and> lot_LotNo anchor = gcr_SourceLotNo req \<and>
    lot_OwnerCustomerID anchor = c \<and> gf_GiverCustomerID g = c \<and> gf_Quantity g = gcr_Quantity req)"
proof (cases "(\<exists>e. giftCustomerIDWithPermission claims ''wine_ticket_gift:create'' = Inl e) \<or> (\<exists>e. normalizeGiftCreateRequest req0 = Inl e)")
  case True
  then show ?thesis using run by (auto simp: gift_Create_def split: sum.splits)
next
  case False
  then obtain c req where c: "giftCustomerIDWithPermission claims ''wine_ticket_gift:create'' = Inr c" and req: "normalizeGiftCreateRequest req0 = Inr req"
    by (metis sum.exhaust)
  note qty = normalized_quantity [OF req]
  let ?h = "RequestHash (ge_sha G) (ge_json G) (request_json req0)"
  from run c req have "gorm_transaction (ge_commit G) restore_gift (create_in_transaction G c verb path key ?h req) w = (r, w')"
    by (simp add: gift_Create_def)
  then show ?thesis
  proof (cases rule: transaction_cases)
    case (committed dto)
    from committed(2) obtain started w1 where st: "startIdempotency G ''customer'' c verb path key ?h w = (Inr started, w1)"
      and cont: "(if \<not> started then cachedIdempotency G ''customer'' c path key else
       go_bind (hold_gift G c req) (\<lambda>gift.
       go_bind (giftProjectionByID G (gf_ID gift)) (\<lambda>projected.
       let response = giftDTO projected in
       go_bind (writeGiftAudit G ''customer'' c ''wine_ticket.gift.create'' gift '''' GiftStatusPending
         [(''gift_no'', JString (gf_GiftNo gift)), (''quantity'', JInt (uint (gf_Quantity gift)))]) (\<lambda>_.
       go_bind (succeedIdempotency G c path key response) (\<lambda>_. go_ok response))))) w1 = (Inr dto, w')"
      unfolding create_in_transaction_def by (elim go_bindE)
    note s1 = quiet_same [OF quiet_idempotency(1) st]
    show ?thesis
    proof (cases started)
      case False
      with cont s1 quiet_same [OF quiet_idempotency(2)] show ?thesis by auto
    next
      case True
      with cont obtain g w2 where hold: "hold_gift G c req w1 = (Inr g, w2)" and s2: "gift_same w2 w'"
        by (simp only: if_False not_True_eq_False Let_def) (erule bind_quiet_tail, intro quiet_tail, blast)
      have ok1: "gifts_ok w1" using gifts_ok_core s1 ok by blast
      from hold_gift_done [OF ok1 hold qty(1,2)] obtain anchor ls where e: "fefo_group anchor w1 ls"
          "gift_created g (fefo_picks ls (uint (gcr_Quantity req))) w1 w2" "lot_LotNo anchor = gcr_SourceLotNo req"
          "lot_OwnerCustomerID anchor = c" "gf_GiverCustomerID g = c" "gf_Quantity g = gcr_Quantity req" .
      have "fefo_group anchor w ls" using e(1) s1 by (simp add: fefo_group_def gift_core_iff gift_clock_def)
      moreover have "gift_created g (fefo_picks ls (uint (gcr_Quantity req))) w w'"
        using e(2) effect_core(1) [of w w1 w' w2] s1 s2 by simp
      ultimately show ?thesis using c req e committed(1) by blast
    qed
  qed simp
qed

end

context gift_store
begin

lemma time_out_done:
  assumes "gifts_ok w" and "deadline_passed g (gift_clock w)" and "gift_locked g ts as rows w"
    and "time_out_gift G ty i trigger g ts as rows (gift_clock w) w = (Inr u, w')"
  shows "gift_returned g GiftStatusExpiredReturned w w'"
proof -
  from assms(4) obtain v w1 where run: "restoreGiftLocked G g ts as rows GiftStatusExpiredReturned (gift_clock w) w = (Inr v, w1)"
    and same: "gift_same w1 w'"
    unfolding time_out_gift_def by (rule bind_quiet_tail) (rule quiet_audit)
  have "gift_returned g GiftStatusExpiredReturned w w1"
    by (rule restoreGiftLocked_done [OF assms(1) _ assms(3) run]) (use assms(2) in \<open>simp add: deadline_passed_def\<close>)
  then show ?thesis using effect_core(4) [of w w w' w1] same by simp
qed

lemma share_transaction_done:
  assumes ok: "gifts_ok w" and run: "share_in_transaction G c no req w = (Inr a, w')"
  shows "case a of
      Inl e \<Rightarrow> \<exists>g. gift_returned g GiftStatusExpiredReturned w w' \<and> gf_ClaimDeadline g \<le> gift_clock w
    | Inr dto \<Rightarrow> \<exists>g t. token_issued g t w w' \<and> gf_GiftNo g = no \<and> gf_GiverCustomerID g = c \<and> gift_clock w < gf_ClaimDeadline g \<and>
        gf_Version g = gsr_ExpectedGiftVersion req \<and> gt_TokenDigest t = tokenDigest G (gsd_ShareToken dto) \<and> token_open t \<and>
        gift_clock w < gt_ExpiresAt t \<and> gt_ExpiresAt t \<le> gf_ClaimDeadline g"
proof -
  let ?now = "gift_clock w"
  from run obtain g ts w1 where g: "g \<in> set (gifts w)" "gf_GiftNo g = no" "gf_GiverCustomerID g = c"
    and ts: "lockGiftTokens G (gf_ID g) w = (Inr ts, w1)"
    and cont: "(if deadline_passed g ?now then
       go_bind (lockGiftAllocationsAndLots G (gf_ID g)) (\<lambda>(as, rows).
       go_bind (time_out_gift G ''customer'' c ''share'' g ts as rows ?now) (\<lambda>_. go_ok (Inl gift_expired)))
     else case pendingGiftProblem g of
       Some e \<Rightarrow> go_err e
     | None \<Rightarrow> if gf_Version g \<noteq> gsr_ExpectedGiftVersion req
         then go_err (problem_Conflict ''WT_CONCURRENT_MODIFICATION'' ''wine ticket gift version changed'')
         else go_bind (issue_token G c g ts ?now) (\<lambda>response. go_ok (Inr response))) w1 = (Inr a, w')"
    unfolding share_in_transaction_def by (elim go_bindE) (auto dest!: giver_gift_done)
  note w1 = lock_tokens(1,2) [OF ts]
  show ?thesis
  proof (cases "deadline_passed g ?now")
    case True
    with cont obtain as rows w2 where as: "lockGiftAllocationsAndLots G (gf_ID g) w1 = (Inr (as, rows), w2)"
      and t: "time_out_gift G ''customer'' c ''share'' g ts as rows ?now w2 = (Inr (), w')" and a: "a = Inl gift_expired"
      by (auto elim!: go_bindE)
    note lock = lock_rows [OF ok g(1) ts as]
    from time_out_done [OF ok True lock(2) t [unfolded lock(1)]] True a show ?thesis by (auto simp: deadline_passed_def)
  next
    case False
    with cont have pending: "gf_Status g = GiftStatusPending" by (auto simp: pendingGiftProblem_None [symmetric] split: option.splits)
    with cont False w1(1) obtain dto where v: "gf_Version g = gsr_ExpectedGiftVersion req"
      and iss: "issue_token G c g ts ?now w = (Inr dto, w')" and a: "a = Inr dto"
      by (auto simp: pendingGiftProblem_def split: if_splits elim!: go_bindE)
    have "?now < gf_ClaimDeadline g" using False pending by (simp add: deadline_passed_def)
    moreover have "token_expiry g ?now \<le> gf_ClaimDeadline g" by (simp add: token_expiry_def Let_def)
    moreover obtain t where "token_issued g t w w'" "gt_TokenDigest t = tokenDigest G (gsd_ShareToken dto)" "token_open t"
        "gt_ExpiresAt t = token_expiry g ?now" "?now < gt_ExpiresAt t"
      by (rule issue_token_done [OF ok g(1) pending w1(2) iss])
    ultimately show ?thesis using g(2,3) v a by (auto intro!: exI [of _ g] exI [of _ t])
  qed
qed

lemma share_done:
  assumes ok: "gifts_ok w" and run: "CreateShareToken G claims no req w = (r, w')"
  shows "gift_same w w' \<or> (\<exists>g. gift_returned g GiftStatusExpiredReturned w w') \<or> (\<exists>g t. token_issued g t w w')"
proof (cases "gift_same w w'")
  case False
  let ?tx = "\<lambda>c. gorm_transaction (ge_commit G) restore_gift (share_in_transaction G c no req)"
  from run False obtain c r1 where "?tx c w = (r1, w')"
    by (auto simp: CreateShareToken_def after_commit_def go_bind_def go_err_def go_ok_def split: sum.splits option.splits if_splits prod.splits)
  then show ?thesis
  proof (cases rule: transaction_cases)
    case (committed a)
    from share_transaction_done [OF ok committed(2)] show ?thesis by (cases a) auto
  qed (use False in simp)
qed simp

lemma expire_gift_done:
  assumes ok: "gifts_ok w" and run: "expire_gift G (gift_clock w) i w = (Inr b, w')"
  shows "if b then \<exists>g. gift_returned g GiftStatusExpiredReturned w w' \<and> gf_ID g = i \<and> gf_ClaimDeadline g \<le> gift_clock w else w' = w"
proof -
  let ?now = "gift_clock w"
  from run obtain found w0 where f: "lockGiftByID G i w = (found, w0)"
    and cont: "(case found of Inl e \<Rightarrow> if isGiftNotFound e then go_ok False else go_err e
     | Inr g \<Rightarrow> go_bind (lockGiftTokens G (gf_ID g)) (\<lambda>ts. go_bind (lockGiftAllocationsAndLots G (gf_ID g)) (\<lambda>(as, rows).
         if gf_Status g \<noteq> GiftStatusPending \<or> ?now < gf_ClaimDeadline g then go_ok False
         else go_bind (time_out_gift G ''system'' 0 ''worker'' g ts as rows ?now) (\<lambda>_. go_ok True)))) w0 = (Inr b, w')"
    unfolding expire_gift_def by (elim go_bindE go_tryE)
  have w0: "w0 = w" using f by (simp add: lockGiftByID_def db_take_inv)
  show ?thesis
  proof (cases found)
    case (Inl e)
    with cont w0 show ?thesis by (auto split: if_splits)
  next
    case (Inr g)
    from lock_gift(1) [OF f [unfolded Inr]] have g: "g \<in> set (gifts w)" "gf_ID g = i" by auto
    from cont [unfolded Inr] w0 obtain ts w1 as rows w2 where ts: "lockGiftTokens G (gf_ID g) w = (Inr ts, w1)"
      and as: "lockGiftAllocationsAndLots G (gf_ID g) w1 = (Inr (as, rows), w2)"
      and go: "(if gf_Status g \<noteq> GiftStatusPending \<or> ?now < gf_ClaimDeadline g then go_ok False
         else go_bind (time_out_gift G ''system'' 0 ''worker'' g ts as rows ?now) (\<lambda>_. go_ok True)) w2 = (Inr b, w')"
      by (auto elim!: go_bindE)
    note lock = lock_rows [OF ok g(1) ts as]
    show ?thesis
    proof (cases "gf_Status g \<noteq> GiftStatusPending \<or> ?now < gf_ClaimDeadline g")
      case False
      then have due: "deadline_passed g ?now" by (simp add: deadline_passed_def)
      from False go have t: "time_out_gift G ''system'' 0 ''worker'' g ts as rows ?now w2 = (Inr (), w')" and b by (auto elim!: go_bindE)
      from time_out_done [OF ok due lock(2) t [unfolded lock(1)]] g(2) due \<open>b\<close> show ?thesis by (auto simp: deadline_passed_def)
    qed (use go lock(1) in auto)
  qed
qed

lemma expire_gifts_done:
  assumes "gifts_ok w" and "expire_gifts G (gift_clock w) is n w = (r, w')"
  shows "gift_timeout\<^sup>*\<^sup>* w w' \<and> gifts_ok w' \<and> wall w' = wall w"
  using assms
proof (induction "is" arbitrary: n w)
  case (Cons i "is")
  obtain r1 w1 where tx: "gorm_transaction (ge_commit G) restore_gift (expire_gift G (gift_clock w) i) w = (r1, w1)" by fastforce
  from tx have eff: "gift_timeout w w1"
  proof (cases rule: transaction_cases)
    case (committed b)
    from expire_gift_done [OF Cons.prems(1) committed(2)] show ?thesis by (cases b) (auto simp: gift_timeout_def)
  qed (simp add: gift_timeout_def)
  have ok1: "gifts_ok w1" and wall: "wall w1 = wall w"
    using effect_ok [OF timeout_effect [OF eff] Cons.prems(1)] effect_wall [OF timeout_effect [OF eff]] by simp_all
  show ?case
  proof (cases r1)
    case (Inl e)
    with Cons.prems(2) tx eff ok1 wall show ?thesis by auto
  next
    case (Inr b)
    have clock: "gift_clock w1 = gift_clock w" using wall by (simp add: gift_clock_def)
    from Cons.prems(2) tx Inr have "expire_gifts G (gift_clock w1) is (if b then n + 1 else n) w1 = (r, w')" unfolding clock by simp
    from Cons.IH [OF ok1 this] eff wall show ?thesis by (auto intro: converse_rtranclp_into_rtranclp)
  qed
qed simp

lemma ExpireDue_done:
  assumes "gifts_ok w" and "ExpireDue G limit w = (r, w')"
  shows "gift_timeout\<^sup>*\<^sup>* w w'"
proof -
  have frame: "w1 = w" if "dueGiftIDs G now n w = (r1, w1)" for now n r1 w1
    using that by (cases r1) (auto simp: dueGiftIDs_def go_inv)
  let ?n = "if limit \<le> 0 \<or> 100 < limit then 100 else limit"
  obtain r1 w1 where due: "dueGiftIDs G (gift_clock w) ?n w = (r1, w1)" by fastforce
  have now: "nowShanghai w = (Inr (gift_clock w), w)" by simp
  show ?thesis
  proof (cases r1)
    case (Inl e)
    with assms(2) due now frame [OF due] show ?thesis by (simp add: ExpireDue_def Let_def)
  next
    case (Inr ids)
    with assms(2) due now frame [OF due] have "expire_gifts G (gift_clock w) ids 0 w = (r, w')" by (simp add: ExpireDue_def Let_def)
    with expire_gifts_done [OF assms(1)] show ?thesis by blast
  qed
qed

end

text \<open>What a claim has checked when it succeeds: the token \<open>k\<close> belongs to the gift and is usable, and neither the deadline nor the status
  stand in the way.\<close>

definition claim_allowed :: "Gift \<Rightarrow> GiftClaimToken \<Rightarrow> string \<Rightarrow> gift_world \<Rightarrow> bool" where
  "claim_allowed g k digest w \<longleftrightarrow> k \<in> set (gift_tokens w) \<and> gt_GiftID k = gf_ID g \<and> gt_TokenDigest k = digest \<and>
     token_usable (gift_clock w) k \<and> gift_clock w < gf_ClaimDeadline g"

context gift_store
begin

lemma claim_gift_done:
  assumes ok: "gifts_ok w" and ready: "ids_ready 3000 w" and run: "claim_gift G c path key digest i w = (Inr a, w')"
  shows "case a of
      Inl e \<Rightarrow> \<exists>g. gift_returned g GiftStatusExpiredReturned w w' \<and> gf_ID g = i
    | Inr dto \<Rightarrow> \<exists>g k. gift_claimed g c k w w' \<and> gf_ID g = i \<and> claim_allowed g k digest w"
proof -
  let ?now = "gift_clock w"
  from run obtain g ts w1 as rows w2 where g: "g \<in> set (gifts w)" "gf_ID g = i"
    and ts: "lockGiftTokens G (gf_ID g) w = (Inr ts, w1)"
    and as: "lockGiftAllocationsAndLots G (gf_ID g) w1 = (Inr (as, rows), w2)"
    and cont: "(if deadline_passed g ?now then
       go_bind (time_out_gift G ''customer'' c ''claim'' g ts as rows ?now) (\<lambda>_.
       go_bind (go_try (failIdempotency G c path key)) (\<lambda>_. go_ok (Inl gift_expired)))
     else case claim_problem g of
       Some e \<Rightarrow> go_err e
     | None \<Rightarrow>
         (case findLockedToken ts digest of
            None \<Rightarrow> go_err invalidGiftTokenProblem
          | Some k \<Rightarrow>
              if \<not> token_usable ?now k then go_err invalidGiftTokenProblem
              else if gf_GiverCustomerID g = c
              then go_err (problem_Forbidden ''WT_GIFT_SELF_CLAIM_FORBIDDEN'' ''a gift cannot be claimed by its giver'')
              else
                go_bind (requireAdultCustomer G c ?now) (\<lambda>_.
                go_bind (hand_over G c g ts k as rows ?now) (\<lambda>_.
                go_bind (writeGiftAudit G ''customer'' c ''wine_ticket.gift.claim'' g GiftStatusPending GiftStatusClaimed
                  [(''gift_no'', JString (gf_GiftNo g)), (''quantity'', JInt (uint (gf_Quantity g)))]) (\<lambda>_.
                go_bind (writeGiftOutbox G ''wine_ticket.gift_claimed'' g
                  [(''gift_no'', JString (gf_GiftNo g)), (''giver_customer_id'', JString (IDString (gf_GiverCustomerID g))),
                   (''receiver_customer_id'', JString (IDString c)), (''product_id'', JString (IDString (gf_ProductID g))),
                   (''quantity'', JInt (uint (gf_Quantity g)))]) (\<lambda>_.
                go_bind (giftProjectionByID G (gf_ID g)) (\<lambda>projected.
                let response = giftDTO projected in
                go_bind (succeedIdempotency G c path key response) (\<lambda>_. go_ok (Inr response))))))))) w2 = (Inr a, w')"
    unfolding claim_gift_def by (elim go_bindE go_prodE) (auto dest!: lock_gift(1))
  note lock = lock_rows [OF ok g(1) ts as]
  note tokens = lock_tokens(3) [OF ts]
  show ?thesis
  proof (cases "deadline_passed g ?now")
    case True
    with cont have "go_bind (time_out_gift G ''customer'' c ''claim'' g ts as rows ?now) (\<lambda>_.
       go_bind (go_try (failIdempotency G c path key)) (\<lambda>_. go_ok (Inl gift_expired))) w = (Inr a, w')" unfolding lock(1) by simp
    from this [THEN bind_quiet_tail, OF quiet_bind [OF quiet_try [OF quiet_idempotency(4)] quiet_basic(1)]]
    obtain v w3 where t: "time_out_gift G ''customer'' c ''claim'' g ts as rows ?now w = (Inr v, w3)" and same: "gift_same w3 w'" by blast
    have "gift_returned g GiftStatusExpiredReturned w w'"
      using time_out_done [OF ok True lock(2) t] effect_core(4) [of w w w' w3] same by simp
    moreover have "\<exists>e. a = Inl e" using True cont by (auto elim!: go_bindE)
    ultimately show ?thesis using g(2) by auto
  next
    case False
    from cont False have none: "claim_problem g = None" by (cases "claim_problem g") simp_all
    from cont False none obtain k where k: "findLockedToken ts digest = Some k" by (cases "findLockedToken ts digest") simp_all
    from cont False none k have use: "token_usable ?now k" and ne: "gf_GiverCustomerID g \<noteq> c" by (auto split: if_splits)
    from cont False none k use ne obtain w3 w4 where ad: "requireAdultCustomer G c ?now w2 = (Inr (), w3)"
      and ho: "hand_over G c g ts k as rows ?now w3 = (Inr (), w4)" and same: "gift_same w4 w'"
      by (simp only: if_False if_True not_True_eq_False option.case Let_def simp_thms)
        (elim go_bindE [of "requireAdultCustomer G c ?now"] bind_quiet_tail, (intro quiet_tail)[1], simp)
    have a: "\<exists>dto. a = Inr dto" using cont False none k use ne by (auto simp: Let_def elim!: go_bindE)
    have pending: "gf_Status g = GiftStatusPending" by (rule claim_problem_None [OF none])
    note s3 = quiet_same [OF quiet_adult ad] and sp = spendsD [OF adult_spends ad]
    have clock: "gift_clock w3 = ?now" using s3 lock(1) by (simp add: gift_clock_def)
    have lock3: "gift_locked g ts as rows w3" using lock s3 by (simp add: gift_locked_def gift_core_iff)
    have ready3: "ids_ready 3000 w3" using sp(2) [of 3000] ready lock(1) by simp
    have ok3: "gifts_ok w3" using gifts_ok_core s3 ok lock(1) by blast
    have "gift_claimed g c k w3 w4" by (rule hand_over_done [OF ok3 pending lock3 ready3 not_sym [OF ne] ho [folded clock]])
    then have "gift_claimed g c k w w'" using effect_core(3) [of w w3 w' w4] s3 same lock(1) by simp
    moreover have "claim_allowed g k digest w"
      using k use tokens False pending
      by (auto simp: claim_allowed_def findLockedToken_def find_Some_iff deadline_passed_def dest: nth_mem)
    ultimately show ?thesis using a g(2) by (auto intro!: exI [of _ g] exI [of _ k])
  qed
qed

lemma claim_done:
  assumes ok: "gifts_ok w" and ready: "ids_ready 3001 w" and run: "gift_Claim G claims verb path key raw w = (r, w')"
  shows "gift_same w w' \<or> (\<exists>g e. r = Inl e \<and> gift_returned g GiftStatusExpiredReturned w w') \<or>
    (\<exists>dto c g k. r = Inr dto \<and> giftCustomerIDWithPermission claims ''wine_ticket_gift:claim'' = Inr c \<and> gift_claimed g c k w w' \<and>
      claim_allowed g k (tokenDigest G raw) w)"
proof (cases "gift_same w w'")
  case False
  let ?d = "tokenDigest G raw"
  let ?h = "ResourceRequestHash (ge_sha G) (ge_json G) ''wine_ticket_gift_claim'' (JString ?d) (JObject [])"
  let ?tx = "\<lambda>c i. gorm_transaction (ge_commit G) restore_gift (claim_in_transaction G c verb path key ?h ?d i)"
  have frame: "w1 = w" if "map_error (\<lambda>e. if isGiftNotFound e then invalidGiftTokenProblem else e) (giftIDByTokenDigest G ?d) w = (r1, w1)" for r1 w1
  proof -
    from map_error_bind [OF that] obtain r2 where "giftIDByTokenDigest G ?d w = (r2, w1)" by blast
    then show ?thesis by (cases r2) (auto simp: giftIDByTokenDigest_def go_inv)
  qed
  from run False frame obtain c i where c: "giftCustomerIDWithPermission claims ''wine_ticket_gift:claim'' = Inr c"
    and tx: "after_commit (?tx c i) w = (r, w')"
    by (auto simp: gift_Claim_def Let_def go_bind_def go_err_def split: sum.splits if_splits prod.splits)
  obtain r1 where r1: "?tx c i w = (r1, w')" "r = (case r1 of Inl e \<Rightarrow> Inl e | Inr (Inl e) \<Rightarrow> Inl e | Inr (Inr dto) \<Rightarrow> Inr dto)"
    using tx by (auto simp: after_commit_def go_bind_def go_err_def go_ok_def split: prod.splits sum.splits)
  from r1(1) show ?thesis
  proof (cases rule: transaction_cases)
    case (committed a)
    then obtain started w1 where st: "startIdempotency G ''customer'' c verb path key ?h w = (Inr started, w1)"
      and cont: "(if \<not> started then go_bind (cachedIdempotency G ''customer'' c path key) (\<lambda>response. go_ok (Inr response))
        else claim_gift G c path key ?d i) w1 = (Inr a, w')"
      unfolding claim_in_transaction_def by (elim go_bindE)
    note s1 = quiet_same [OF quiet_idempotency(1) st]
    show ?thesis
    proof (cases started)
      case False
      from False cont have "gift_same w1 w'" by (auto elim!: go_bindE dest: quiet_same [OF quiet_idempotency(2)])
      with s1 show ?thesis by simp
    next
      case True
      have ok1: "gifts_ok w1" using gifts_ok_core s1 ok by blast
      have ready1: "ids_ready 3000 w1" using spendsD(2) [OF start_spends st, of 3000] ready by simp
      from True cont have "claim_gift G c path key ?d i w1 = (Inr a, w')" by simp
      note claimed = claim_gift_done [OF ok1 ready1 this]
      have allowed: "claim_allowed g k ?d w1 = claim_allowed g k ?d w" for g k
        using s1 by (simp add: claim_allowed_def gift_core_iff gift_clock_def)
      show ?thesis
        using claimed r1(2) committed(1) c effect_core(3,4) [of w w1 w' w'] s1 by (cases a) (auto simp: allowed)
    qed
  qed (use False in simp)
qed simp

lemma cancel_gift_done:
  assumes ok: "gifts_ok w" and run: "cancel_gift G c path key no req w = (Inr a, w')"
  shows "case a of
      Inl e \<Rightarrow> \<exists>g. gift_returned g GiftStatusExpiredReturned w w'
    | Inr dto \<Rightarrow> \<exists>g. gift_returned g GiftStatusCancelled w w' \<and> gf_GiftNo g = no \<and> gf_GiverCustomerID g = c \<and>
        gf_Version g = gev_ExpectedVersion req \<and> gift_clock w < gf_ClaimDeadline g"
proof -
  let ?now = "gift_clock w"
  from run obtain g ts w1 as rows w2 where g: "g \<in> set (gifts w)" "gf_GiftNo g = no" "gf_GiverCustomerID g = c"
    and ts: "lockGiftTokens G (gf_ID g) w = (Inr ts, w1)"
    and as: "lockGiftAllocationsAndLots G (gf_ID g) w1 = (Inr (as, rows), w2)"
    and cont: "(if deadline_passed g ?now then
       go_bind (time_out_gift G ''customer'' c ''cancel'' g ts as rows ?now) (\<lambda>_.
       go_bind (go_try (failIdempotency G c path key)) (\<lambda>_. go_ok (Inl gift_expired)))
     else case pendingGiftProblem g of
       Some e \<Rightarrow> go_err e
     | None \<Rightarrow>
         if gf_Version g \<noteq> gev_ExpectedVersion req
         then go_err (problem_Conflict ''WT_CONCURRENT_MODIFICATION'' ''wine ticket gift version changed'')
         else
           go_bind (restoreGiftLocked G g ts as rows GiftStatusCancelled ?now) (\<lambda>_.
           go_bind (writeGiftAudit G ''customer'' c ''wine_ticket.gift.cancel'' g GiftStatusPending GiftStatusCancelled
             [(''gift_no'', JString (gf_GiftNo g)), (''quantity'', JInt (uint (gf_Quantity g)))]) (\<lambda>_.
           go_bind (giftProjectionByID G (gf_ID g)) (\<lambda>projected.
           let response = giftDTO projected in
           go_bind (succeedIdempotency G c path key response) (\<lambda>_. go_ok (Inr response)))))) w2 = (Inr a, w')"
    unfolding cancel_gift_def by (elim go_bindE go_prodE) (auto dest!: giver_gift_done)
  note lock = lock_rows [OF ok g(1) ts as]
  show ?thesis
  proof (cases "deadline_passed g ?now")
    case True
    with cont have "go_bind (time_out_gift G ''customer'' c ''cancel'' g ts as rows ?now) (\<lambda>_.
       go_bind (go_try (failIdempotency G c path key)) (\<lambda>_. go_ok (Inl gift_expired))) w = (Inr a, w')" unfolding lock(1) by simp
    from this [THEN bind_quiet_tail, OF quiet_bind [OF quiet_try [OF quiet_idempotency(4)] quiet_basic(1)]]
    obtain v w3 where t: "time_out_gift G ''customer'' c ''cancel'' g ts as rows ?now w = (Inr v, w3)" and same: "gift_same w3 w'" by blast
    have "gift_returned g GiftStatusExpiredReturned w w'"
      using time_out_done [OF ok True lock(2) t] effect_core(4) [of w w w' w3] same by simp
    moreover have "\<exists>e. a = Inl e" using True cont by (auto elim!: go_bindE)
    ultimately show ?thesis by auto
  next
    case False
    from cont False have none: "pendingGiftProblem g = None" by (cases "pendingGiftProblem g") simp_all
    from cont False none have v: "gf_Version g = gev_ExpectedVersion req" by (auto split: if_splits)
    have pending: "gf_Status g = GiftStatusPending" using none by (simp add: pendingGiftProblem_None)
    from cont False none v obtain w3 where re: "restoreGiftLocked G g ts as rows GiftStatusCancelled ?now w = (Inr (), w3)"
      and same: "gift_same w3 w'"
      unfolding lock(1) by (simp only: if_False option.case Let_def simp_thms) (elim bind_quiet_tail, (intro quiet_tail)[1], simp)
    have "gift_returned g GiftStatusCancelled w w'"
      using restoreGiftLocked_done [OF ok pending lock(2) re] effect_core(4) [of w w w' w3] same by simp
    moreover have "\<exists>dto. a = Inr dto" using cont False none v by (auto simp: Let_def elim!: go_bindE)
    moreover have "?now < gf_ClaimDeadline g" using False pending by (simp add: deadline_passed_def)
    ultimately show ?thesis using g v by (auto intro!: exI [of _ g])
  qed
qed

lemma cancel_done:
  assumes ok: "gifts_ok w" and run: "gift_Cancel G claims verb path key no req w = (r, w')"
  shows "gift_same w w' \<or> (\<exists>g e. r = Inl e \<and> gift_returned g GiftStatusExpiredReturned w w') \<or>
    (\<exists>dto c g. r = Inr dto \<and> giftCustomerIDWithPermission claims ''wine_ticket_gift:cancel'' = Inr c \<and>
      gift_returned g GiftStatusCancelled w w' \<and> gf_GiftNo g = no \<and> gf_GiverCustomerID g = c \<and>
      gf_Version g = gev_ExpectedVersion req \<and> gift_clock w < gf_ClaimDeadline g)"
proof (cases "gift_same w w'")
  case False
  let ?h = "ResourceRequestHash (ge_sha G) (ge_json G) ''wine_ticket_gift_cancel'' (JString no)
    (JObject [(''expected_version'', JInt (uint (gev_ExpectedVersion req)))])"
  let ?tx = "\<lambda>c. gorm_transaction (ge_commit G) restore_gift (cancel_in_transaction G c verb path key ?h no req)"
  from run False obtain c where c: "giftCustomerIDWithPermission claims ''wine_ticket_gift:cancel'' = Inr c"
    and tx: "after_commit (?tx c) w = (r, w')"
    by (auto simp: gift_Cancel_def split: sum.splits option.splits if_splits)
  obtain r1 where r1: "?tx c w = (r1, w')" "r = (case r1 of Inl e \<Rightarrow> Inl e | Inr (Inl e) \<Rightarrow> Inl e | Inr (Inr dto) \<Rightarrow> Inr dto)"
    using tx by (auto simp: after_commit_def go_bind_def go_err_def go_ok_def split: prod.splits sum.splits)
  from r1(1) show ?thesis
  proof (cases rule: transaction_cases)
    case (committed a)
    then obtain started w1 where st: "startIdempotency G ''customer'' c verb path key ?h w = (Inr started, w1)"
      and cont: "(if \<not> started then go_bind (cachedIdempotency G ''customer'' c path key) (\<lambda>response. go_ok (Inr response))
        else cancel_gift G c path key no req) w1 = (Inr a, w')"
      unfolding cancel_in_transaction_def by (elim go_bindE)
    note s1 = quiet_same [OF quiet_idempotency(1) st]
    show ?thesis
    proof (cases started)
      case False
      from False cont have "gift_same w1 w'" by (auto elim!: go_bindE dest: quiet_same [OF quiet_idempotency(2)])
      with s1 show ?thesis by simp
    next
      case True
      have ok1: "gifts_ok w1" using gifts_ok_core s1 ok by blast
      have clock: "gift_clock w1 = gift_clock w" using s1 by (simp add: gift_clock_def)
      from True cont have "cancel_gift G c path key no req w1 = (Inr a, w')" by simp
      note cancelled = cancel_gift_done [OF ok1 this, unfolded clock]
      show ?thesis
        using cancelled r1(2) committed(1) c effect_core(4) [of w w1 w' w'] s1 by (cases a) auto
    qed
  qed (use False in simp)
qed simp

end

end
