(* ===== verification/Gift_System.thy ===== *)
theory Gift_System
  imports Gift_Operations Ticket_Properties
begin

text \<open>
  The gift service as a system. \<open>gift_call\<close> is a call of one of its operations, \<open>gift_step\<close> adds everything else that happens to the same
  database: time passes, other modules run transactions of the asset service in the name of other business objects, and tables the
  gifts only read change.
\<close>

subsection \<open>Transactions of other modules\<close>

lemma Expire_apart: "go_keeps (apart_is z) (Expire (Some world_service) (Some (transactionAssetRepository lE tE)) rid c)"
  unfolding Expire_def expire_replay_def expire_fresh_def Let_def option.sel by (intro apart_rules replay_apart)

lemma run_op_apart: "go_keeps (apart_is z) (run_op world_service (transactionAssetRepository lE tE) rid op)"
  by (cases op) (simp_all add: Issue_apart Freeze_def Redeem_def debit_apart Transfer_apart Restore_apart Expire_apart)

lemma run_ops_apart: "go_keeps (apart_is z) (run_ops world_service (transactionAssetRepository lE tE) rid ops)"
  unfolding run_ops_def by (intro go_keeps_for go_keeps_bind run_op_apart go_keeps_ok)

lemma asset_tx_apart:
  fixes w w' :: gift_world
  assumes "asset_tx lE tE commit rid ops w = (r, w')"
  shows "gifts w' = gifts w" "gift_allocations w' = gift_allocations w" "gift_tokens w' = gift_tokens w" "wall w' = wall w"
proof -
  obtain r1 w1 where run: "run_ops world_service (transactionAssetRepository lE tE) rid ops w = (r1, w1)" by fastforce
  then have "(wall w1, ticket_world.more w1) = (wall w, ticket_world.more w)" by (rule go_keepsD [OF run_ops_apart]) simp
  moreover from assms run have "wall w' = wall w1" "ticket_world.more w' = ticket_world.more w1"
    by (auto simp: asset_tx_def gorm_transaction_def restore_tables_def split: sum.splits option.splits)
  ultimately have "wall w' = wall w" and same: "ticket_world.more w' = ticket_world.more w" by simp_all
  then show "gifts w' = gifts w" "gift_allocations w' = gift_allocations w" "gift_tokens w' = gift_tokens w" "wall w' = wall w"
    by (simp_all add: apart_same [OF same])
qed

subsection \<open>Steps\<close>

text \<open>A claim takes at most 3001 identifiers: one for the idempotency record and three for each of at most 1000 allocations. The guard
  \<open>ids_ready\<close> asks that the 41 bits of milliseconds of the generator are not used up.\<close>

inductive gift_call :: "gift_env \<Rightarrow> gift_world \<Rightarrow> gift_world \<Rightarrow> bool" for G where
  create: "gift_Create G claims verb path key request w = (r, w') \<Longrightarrow> gift_call G w w'"
| share: "CreateShareToken G claims giftNo share w = (t, w') \<Longrightarrow> gift_call G w w'"
| claim: "ids_ready 3001 w \<Longrightarrow> gift_Claim G claims verb path key rawToken w = (r, w') \<Longrightarrow> gift_call G w w'"
| cancel: "gift_Cancel G claims verb path key giftNo version w = (r, w') \<Longrightarrow> gift_call G w w'"
| expire: "ExpireDue G limit w = (n, w') \<Longrightarrow> gift_call G w w'"

inductive gift_step :: "gift_env \<Rightarrow> gift_world \<Rightarrow> gift_world \<Rightarrow> bool" for G where
  call: "gift_call G w w' \<Longrightarrow> gift_step G w w'"
| tick: "wall w \<le> t \<Longrightarrow> gift_step G w (w\<lparr>wall := t\<rparr>)"
| business: "list_all op_wf ops \<Longrightarrow> asset_tx (wt_lotE G) (wt_txnE G) commit rid ops w = (r, w') \<Longrightarrow>
    \<forall>t\<in>set (drop (length (transactions w)) (transactions w')). txn_BizType t \<noteq> ''gift'' \<Longrightarrow> gift_step G w w'"
| elsewhere: "gift_core w' = gift_core w \<Longrightarrow> wall w' = wall w \<Longrightarrow> gift_step G w w'"

lemma truncate_mono: "t \<le> t' \<Longrightarrow> truncate_to nanos_per_milli t \<le> truncate_to nanos_per_milli t'"
proof -
  assume "t \<le> t'"
  then have "t div nanos_per_milli * nanos_per_milli \<le> t' div nanos_per_milli * nanos_per_milli"
    by (simp add: zdiv_mono1 nanos_per_milli_def)
  then show ?thesis by (simp add: truncate_to_def nanos_per_milli_def minus_mod_eq_div_mult)
qed

lemma gifts_ok_others:
  assumes ok: "gifts_ok w" and b: "books (lots w') (transactions w')" and lots: "lots_evolve (lots w) (lots w')"
    and rows: "transactions w' = transactions w @ rows" "\<forall>t\<in>set rows. txn_BizType t \<noteq> ''gift''"
    and same: "gifts w' = gifts w" "gift_allocations w' = gift_allocations w" "gift_tokens w' = gift_tokens w" and now: "wall w \<le> wall w'"
  shows "gifts_ok w'"
proof -
  have "gift_ok w' g" if "g \<in> set (gifts w)" for g
    by (rule gift_ok_frame [OF gifts_okD(5) [OF ok that] _ lots])
      (use rows same truncate_mono [OF now] in \<open>auto simp: gift_clock_def gift_row_def biz_row_def\<close>)
  moreover have "gift_keys_ok w'" using ok rows same by (auto simp: gifts_ok_def gift_keys_ok_def)
  ultimately show ?thesis using b same by (simp add: gifts_ok_def)
qed

context gift_store
begin

lemma call_effects:
  assumes ok: "gifts_ok w" and step: "gift_call G w w'"
  shows "gift_effect w w' \<or> gift_timeout\<^sup>*\<^sup>* w w'"
  using step
proof cases
  case (create claims verb path key request r)
  from create_done [OF ok create] show ?thesis unfolding gift_effect_def by blast
next
  case (share claims no req r)
  from share_done [OF ok share] show ?thesis unfolding gift_effect_def by blast
next
  case (claim claims verb path key raw r)
  from claim_done [OF ok claim] show ?thesis unfolding gift_effect_def by blast
next
  case (cancel claims verb path key no req r)
  from cancel_done [OF ok cancel] show ?thesis unfolding gift_effect_def by blast
next
  case (expire limit n)
  from ExpireDue_done [OF ok expire] show ?thesis by blast
qed

lemma timeouts_ok: "gift_timeout\<^sup>*\<^sup>* w w' \<Longrightarrow> gifts_ok w \<Longrightarrow> gifts_ok w'"
  by (induction rule: rtranclp_induct) (auto intro: effect_ok timeout_effect)

lemma business_done:
  fixes w w' :: gift_world
  assumes b: "books (lots w) (transactions w)" and wf: "list_all op_wf ops"
    and tx: "asset_tx (wt_lotE G) (wt_txnE G) commit rid ops w = (r, w')"
  obtains rows where "books (lots w') (transactions w')" and "lots_evolve (lots w) (lots w')" and "transactions w' = transactions w @ rows"
proof -
  from tx show thesis
  proof (cases rule: asset_tx_cases)
    case (commit ms)
    with ticket.repository.run_ops_books [OF wf b commit(2)] ticket.repository.run_ops_evolves [OF wf b commit(2)] that show thesis by blast
  qed (use b that [of "[]"] in auto)
qed

lemma step_ok:
  assumes step: "gift_step G w w'" and ok: "gifts_ok w"
  shows "gifts_ok w'"
  using step
proof cases
  case call
  from call_effects [OF ok call] ok show ?thesis using effect_ok timeouts_ok by blast
next
  case (tick t)
  with ok show ?thesis by (intro gifts_ok_others [OF ok _ _ _, of _ "[]"]) (auto simp: gifts_ok_def)
next
  case (business ops commit rid r)
  note same = asset_tx_apart [OF business(2)]
  obtain rows where rows: "books (lots w') (transactions w')" "lots_evolve (lots w) (lots w')" "transactions w' = transactions w @ rows"
    by (rule business_done [OF gifts_okD(1) [OF ok] business(1,2)])
  show ?thesis by (rule gifts_ok_others [OF ok rows]) (use business(3) rows(3) same in auto)
next
  case elsewhere
  with ok gifts_ok_core show ?thesis by blast
qed

lemma reachable_ok: "(gift_step G)\<^sup>*\<^sup>* w w' \<Longrightarrow> gifts_ok w \<Longrightarrow> gifts_ok w'"
  by (induction rule: rtranclp_induct) (auto intro: step_ok)

end

subsection \<open>Bottles\<close>

text \<open>Bottles are in lots or in pending gifts.\<close>

definition gift_share :: "Gift \<Rightarrow> int" where
  "gift_share g = (if gf_Status g = GiftStatusPending then uint (gf_Quantity g) else 0)"

definition pending_bottles :: "Gift list \<Rightarrow> int" where
  "pending_bottles gs = (\<Sum>g\<leftarrow>gs. gift_share g)"

definition bottles :: "gift_world \<Rightarrow> int" where
  "bottles w = stock (lot_balances (lots w)) + pending_bottles (gifts w)"

definition held_unexpired :: "gift_world \<Rightarrow> bool" where
  "held_unexpired w \<longleftrightarrow> (\<forall>a\<in>set (gift_allocations w). gift_held a \<longrightarrow> gift_clock w < ga_SourceExpiresAt a)"

lemma pending_replaced:
  assumes "distinct gs" and "g \<in> set gs"
  shows "pending_bottles (gift_replaced g g' gs) = pending_bottles gs - gift_share g + gift_share g'"
  using assms
proof (induction gs)
  case (Cons x gs)
  show ?case
  proof (cases "x = g")
    case True
    with Cons.prems have "gift_replaced g g' gs = gs" by (auto simp: gift_replaced_def intro!: map_idI)
    with True show ?thesis by (simp add: pending_bottles_def gift_replaced_def)
  next
    case False
    with Cons show ?thesis by (simp add: pending_bottles_def gift_replaced_def)
  qed
qed simp

lemma bottles_same: "gift_same w w' \<Longrightarrow> bottles w' = bottles w"
  by (simp add: bottles_def gift_core_iff)

lemma bottles_created:
  assumes "gift_created g sel w w'"
  shows "bottles w' = bottles w"
proof -
  from assms have c: "changed_at sel_ID sel_drawn sel (lot_balances (lots w)) (lot_balances (lots w'))" "distinct (map sel_ID sel)"
    "(\<Sum>item\<leftarrow>sel. uint (sel_quantity item)) = uint (gf_Quantity g)" "gifts w' = gifts w @ [g]" "gf_Status g = GiftStatusPending"
    by (auto simp: gift_created_def)
  have "stock (lot_balances (lots w')) = stock (lot_balances (lots w)) - uint (gf_Quantity g)"
    using stock_changed [OF c(1,2) finite_balances] c(3) by (simp add: uminus_sum_list_map [of "\<lambda>x. uint (sel_quantity x)" sel, unfolded o_def, symmetric])
  then show ?thesis using c(4,5) by (simp add: bottles_def pending_bottles_def gift_share_def)
qed

lemma bottles_issued:
  assumes "gifts_ok w" and "token_issued g t w w'"
  shows "bottles w' = bottles w"
proof -
  have "distinct (gifts w)" using gifts_okD(2) [OF assms(1)] by (simp add: distinct_map)
  with assms(2) show ?thesis by (auto simp: token_issued_def bottles_def pending_replaced gift_share_def)
qed

lemma handed_total: "length ids = length as \<Longrightarrow> (\<Sum>l\<leftarrow>map2 (handed_lot c g sources now) as ids. uint (lot_AvailableQuantity l)) = gift_sum as"
  by (induction as ids rule: list_induct2') (auto simp: receiver_lot_def)

lemma bottles_claimed:
  assumes ok: "gifts_ok w" and step: "gift_claimed g c k w w'"
  shows "bottles w' = bottles w"
proof -
  from step obtain as ids sources where s: "mset as = mset (of_gift (gf_ID g) (gift_allocations w))" "length ids = length as"
      "lots w' = lots w @ map2 (handed_lot c g sources (gift_clock w)) as ids" "books (lots w') (transactions w')" "g \<in> set (gifts w)"
      "gifts w' = gift_replaced g (claimed_gift c (gift_clock w) g) (gifts w)" "gf_Status g = GiftStatusPending"
    unfolding gift_claimed_def by blast
  have sum: "gift_sum as = uint (gf_Quantity g)"
    using gift_sum_mset [OF s(1)] gifts_okD(5) [OF ok s(5)] by (simp add: gift_ok_def allocated_ok_def)
  have "distinct (map lot_ID (lots w @ map2 (handed_lot c g sources (gift_clock w)) as ids))" using s(4) unfolding s(3) books_def by blast
  from stock_issue [OF this] have "stock (lot_balances (lots w')) = stock (lot_balances (lots w)) + uint (gf_Quantity g)"
    unfolding s(3) handed_total [OF s(2)] sum .
  moreover have "distinct (gifts w)" using gifts_okD(2) [OF ok] by (simp add: distinct_map)
  ultimately show ?thesis using s(5-7) by (simp add: bottles_def pending_replaced gift_share_def gift_statuses)
qed

lemma given_back_bound:
  assumes "changed_at ga_SourceLotID (given_back now) as (lot_balances ls) B"
  shows "(\<Sum>a\<leftarrow>as. given_back now a (the (lot_balances ls (ga_SourceLotID a))) - the (lot_balances ls (ga_SourceLotID a))) \<le> gift_sum as"
    and "\<forall>a\<in>set as. now < ga_SourceExpiresAt a \<Longrightarrow>
      (\<Sum>a\<leftarrow>as. given_back now a (the (lot_balances ls (ga_SourceLotID a))) - the (lot_balances ls (ga_SourceLotID a))) = gift_sum as"
proof -
  have v: "\<exists>v. lot_balances ls (ga_SourceLotID a) = Some v \<and> 0 \<le> v" if "a \<in> set as" for a
    using assms that balance_nonneg unfolding changed_at_def by blast
  have "given_back now a (the (lot_balances ls (ga_SourceLotID a))) - the (lot_balances ls (ga_SourceLotID a)) \<le> uint (ga_Quantity a)"
    if "a \<in> set as" for a
  proof -
    from v [OF that] obtain v where "lot_balances ls (ga_SourceLotID a) = Some v" "0 \<le> v" by blast
    then show ?thesis using uint_ge_0 [of "ga_Quantity a"] unfolding given_back_def by (simp only: option.sel split: if_splits) linarith
  qed
  then show "(\<Sum>a\<leftarrow>as. given_back now a (the (lot_balances ls (ga_SourceLotID a))) - the (lot_balances ls (ga_SourceLotID a))) \<le> gift_sum as"
    unfolding gift_sum_def by (rule sum_list_mono)
  assume "\<forall>a\<in>set as. now < ga_SourceExpiresAt a"
  then show "(\<Sum>a\<leftarrow>as. given_back now a (the (lot_balances ls (ga_SourceLotID a))) - the (lot_balances ls (ga_SourceLotID a))) = gift_sum as"
    unfolding gift_sum_def by (intro arg_cong [where f = sum_list] map_cong) (auto simp: given_back_def)
qed

lemma bottles_returned:
  assumes ok: "gifts_ok w" and step: "gift_returned g status w w'"
  shows "bottles w' \<le> bottles w" and "held_unexpired w \<Longrightarrow> bottles w' = bottles w" and "held_unexpired w \<Longrightarrow> held_unexpired w'"
proof -
  let ?as = "of_gift (gf_ID g) (gift_allocations w)" and ?now = "gift_clock w"
  from step have s: "g \<in> set (gifts w)" "gf_Status g = GiftStatusPending" "status \<in> {GiftStatusCancelled, GiftStatusExpiredReturned}"
      "changed_at ga_SourceLotID (given_back ?now) ?as (lot_balances (lots w)) (lot_balances (lots w'))"
      "gift_allocations w' = map (\<lambda>a. if ga_GiftID a = gf_ID g then restored_row ?now a else a) (gift_allocations w)"
      "gifts w' = gift_replaced g (returned_gift status ?now g) (gifts w)" "wall w' = wall w"
    by (auto simp: gift_returned_def)
  note old = gifts_okD(5) [OF ok s(1), unfolded gift_ok_def]
  have sum: "gift_sum ?as = uint (gf_Quantity g)" "distinct (map ga_SourceLotID ?as)" using old by (auto simp: allocated_ok_def)
  have held: "\<forall>a\<in>set ?as. gift_held a" using old s(2) by (simp add: status_ok_def)
  note stock = stock_changed [OF s(4) sum(2) finite_balances] and bound = given_back_bound [OF s(4)]
  have "distinct (gifts w)" using gifts_okD(2) [OF ok] by (simp add: distinct_map)
  then have pend: "pending_bottles (gifts w') = pending_bottles (gifts w) - uint (gf_Quantity g)"
    using s(1,2,3,6) by (auto simp: pending_replaced gift_share_def gift_statuses)
  show "bottles w' \<le> bottles w" using stock bound(1) pend sum(1) by (simp add: bottles_def)
  assume un: "held_unexpired w"
  with held have "\<forall>a\<in>set ?as. ?now < ga_SourceExpiresAt a" by (auto simp: held_unexpired_def)
  from bound(2) [OF this] show "bottles w' = bottles w" using stock pend sum(1) by (simp add: bottles_def)
  show "held_unexpired w'" using un s(5,7) by (auto simp: held_unexpired_def gift_clock_def gift_held_def allocation_statuses)
qed

lemma bottles_timeouts:
  assumes "gift_timeout\<^sup>*\<^sup>* w w'" and "gifts_ok w"
  shows "bottles w' \<le> bottles w \<and> (held_unexpired w \<longrightarrow> bottles w' = bottles w \<and> held_unexpired w') \<and> gifts_ok w'"
  using assms
proof (induction rule: rtranclp_induct)
  case (step v u)
  then have ih: "bottles v \<le> bottles w" "held_unexpired w \<Longrightarrow> bottles v = bottles w \<and> held_unexpired v" and ok: "gifts_ok v" by auto
  have okU: "gifts_ok u" using effect_ok [OF timeout_effect [OF step(2)] ok] .
  from step(2) consider (same) "gift_same v u" | (returned) g where "gift_returned g GiftStatusExpiredReturned v u"
    by (auto simp: gift_timeout_def)
  then show ?case
  proof cases
    case same
    have "held_unexpired u = held_unexpired v" using same by (simp add: held_unexpired_def gift_clock_def gift_core_iff)
    then show ?thesis using ih okU bottles_same [OF same] by auto
  next
    case returned
    from bottles_returned [OF ok returned] ih okU show ?thesis by auto
  qed
qed simp

subsection \<open>Settled gifts\<close>

lemma other_gift_kept:
  assumes "g \<in> set gs" and "gf_Status g \<noteq> GiftStatusPending" and "x \<in> set gs" and "gf_Status x = GiftStatusPending"
  shows "g \<in> set (gift_replaced x x' gs)"
  using replaced_set [OF assms(3), of x'] assms by auto

lemma settled_effect:
  assumes ok: "gifts_ok w" and step: "gift_effect w w'" and g: "g \<in> set (gifts w)" "gf_Status g \<noteq> GiftStatusPending"
  shows "g \<in> set (gifts w') \<and> of_gift (gf_ID g) (gift_allocations w') = of_gift (gf_ID g) (gift_allocations w)"
proof -
  have ne: "gf_ID x \<noteq> gf_ID g" if "x \<in> set (gifts w)" "gf_Status x = GiftStatusPending" for x
    using distinct_key_unique [OF gifts_okD(2) [OF ok] that(1) g(1)] that(2) g(2) by auto
  from step consider (same) "gift_same w w'" | (created) x sel where "gift_created x sel w w'" | (issued) x t where "token_issued x t w w'"
      | (claimed) x c k where "gift_claimed x c k w w'" | (returned) x st where "gift_returned x st w w'"
    unfolding gift_effect_def by blast
  then show ?thesis
  proof cases
    case same
    then show ?thesis using g by (simp add: gift_core_iff)
  next
    case created
    then have "gf_ID x \<noteq> gf_ID g" using g(1) by (metis gift_created_def imageI)
    then show ?thesis using created g by (auto simp: gift_created_def of_gift_held)
  next
    case issued
    then show ?thesis using other_gift_kept [OF g] by (simp add: token_issued_def)
  next
    case claimed
    then obtain as ids sources where c: "x \<in> set (gifts w)" "gf_Status x = GiftStatusPending"
        "mset as = mset (of_gift (gf_ID x) (gift_allocations w))" "length ids = length as"
        "gift_allocations w' = map (handed_row (map_of (zip (map ga_ID as) ids)) (gift_clock w)) (gift_allocations w)"
        "gifts w' = gift_replaced x (claimed_gift c (gift_clock w) x) (gifts w)"
      unfolding gift_claimed_def by blast
    have "of_gift (gf_ID g) (gift_allocations w') = of_gift (gf_ID g) (gift_allocations w)"
      unfolding c(5) of_gift_map [of "handed_row _ _", OF handed_row_sel(2)]
      using receiver_of(1) [OF gifts_okD(3) [OF ok] mset_eq_setD [OF c(3)] c(4)] ne [OF c(1,2)]
      by (intro map_idI) (auto simp: handed_row_def)
    then show ?thesis using other_gift_kept [OF g c(1,2)] c(6) by simp
  next
    case returned
    then have r: "x \<in> set (gifts w)" "gf_Status x = GiftStatusPending"
        "gift_allocations w' = map (\<lambda>a. if ga_GiftID a = gf_ID x then restored_row (gift_clock w) a else a) (gift_allocations w)"
        "gifts w' = gift_replaced x (returned_gift st (gift_clock w) x) (gifts w)"
      by (auto simp: gift_returned_def)
    have "of_gift (gf_ID g) (gift_allocations w') = of_gift (gf_ID g) (gift_allocations w)"
      unfolding r(3) using of_gift_if [of "restored_row (gift_clock w)" "gf_ID g" "gf_ID x"] ne [OF r(1,2)] by auto
    then show ?thesis using other_gift_kept [OF g r(1,2)] r(4) by simp
  qed
qed

lemma settled_timeouts:
  assumes "gift_timeout\<^sup>*\<^sup>* w w'" and "gifts_ok w" and "g \<in> set (gifts w)" and "gf_Status g \<noteq> GiftStatusPending"
  shows "gifts_ok w' \<and> g \<in> set (gifts w') \<and> of_gift (gf_ID g) (gift_allocations w') = of_gift (gf_ID g) (gift_allocations w)"
  using assms
proof (induction rule: rtranclp_induct)
  case (step v u)
  then show ?case using settled_effect [OF _ timeout_effect [OF step(2)], of g] effect_ok [OF timeout_effect [OF step(2)]] by simp
qed simp

context gift_store
begin

lemma settled_step:
  assumes step: "gift_step G w w'" and ok: "gifts_ok w" and g: "g \<in> set (gifts w)" "gf_Status g \<noteq> GiftStatusPending"
  shows "g \<in> set (gifts w') \<and> of_gift (gf_ID g) (gift_allocations w') = of_gift (gf_ID g) (gift_allocations w)"
  using step
proof cases
  case call
  from call_effects [OF ok call] show ?thesis using settled_effect [OF ok _ g] settled_timeouts [OF _ ok g] by blast
next
  case (business ops commit rid r)
  then show ?thesis using asset_tx_apart [OF business(2)] g by simp
qed (use g in \<open>auto simp: gift_core_iff\<close>)

end

end
