(* ===== verification/Gift_Demo.thy ===== *)
theory Gift_Demo
  imports Gift_System Ticket_Demo
begin

text \<open>
  A small concrete world for the gifts: customer 7 holds two lots of the same product, six bottles that expire first and ten that expire
  later; customer 9 is the receiver. All tables are kept in memory.
\<close>

definition late_lot :: Lot where
  "late_lot = demo_lot\<lparr>lot_ID := 6, lot_LotNo := ''WTL6'', lot_TotalQuantity := 10, lot_AvailableQuantity := 10,
     lot_OriginalExpiresAt := demo_time + 2000 * nanos_per_second, lot_ExpiresAt := demo_time + 2000 * nanos_per_second\<rparr>"

definition late_row :: Transaction where
  "late_row = demo_row\<lparr>txn_ID := 9, txn_TransactionNo := ''WTT9'', txn_LotID := 6, txn_QuantityDelta := 10,
     txn_AfterAvailableQuantity := 10, txn_ActionKey := ''issue:11:6''\<rparr>"

definition demo_cellar :: gift_world where
  "demo_cellar =
     \<lparr>wall = demo_time, snow = \<lparr>lastMS = 0, sequence = 0, nodeID = 1, rollbacks = 0\<rparr>,
      lots = [demo_lot, late_lot], transactions = [demo_row, late_row], gifts = [], gift_allocations = [], gift_tokens = [], renewals = [],
      customers = [\<lparr>gca_ID = 7, gca_Status = ''active'', gca_Nickname = None, gca_DeletedAt = None\<rparr>,
        \<lparr>gca_ID = 9, gca_Status = ''active'', gca_Nickname = None, gca_DeletedAt = None\<rparr>],
      realnames = [\<lparr>grv_CustomerID = 7, grv_Status = ''verified'', grv_AdultResult = ''adult'', grv_ExpiresAt = None, grv_RevokedAt = None\<rparr>,
        \<lparr>grv_CustomerID = 9, grv_Status = ''verified'', grv_AdultResult = ''adult'', grv_ExpiresAt = None, grv_RevokedAt = None\<rparr>],
      identity_requests = [],
      gift_products = [\<lparr>gpd_ID = 4, gpd_Name = ''Riesling'', gpd_BrandName = None, gpd_Spec = None, gpd_ImageURL = None\<rparr>],
      gift_audits = [], gift_events = [], gift_claims = []\<rparr>"

definition customer_claims :: "string \<Rightarrow> string \<Rightarrow> Claims" where
  "customer_claims i permission = \<lparr>cl_AccountType = ''customer'', cl_CustomerID = i, cl_AdminUserID = '''', cl_Permissions = [permission]\<rparr>"

definition demo_gift_request :: GiftCreateRequest where
  "demo_gift_request = \<lparr>gcr_SourceLotNo = ''WTL6'', gcr_Quantity = 8, gcr_Message = None\<rparr>"

lemmas gift_congs = run_bind_cong run_try_cong run_cont_cong

lemma clock_demo [simp]: "truncate_to nanos_per_milli demo_time = demo_time"
  by (simp add: truncate_to_def demo_time_def unix_epoch_def nanos_per_milli_def nanos_per_second_def)

lemma demo_time_pos [simp]: "demo_time \<noteq> 0" "0 < demo_time" "\<not> demo_time < 0" "demo_time + 1000000000000 \<noteq> 0"
  by (simp_all add: demo_time_def unix_epoch_def nanos_per_milli_def nanos_per_second_def)

lemma nowShanghai_demo: "wall w = demo_time \<Longrightarrow> nowShanghai w = (Inr demo_time, w)"
  by (simp add: gift_clock_def)

lemma world_id_demo:
  "wall w = demo_time \<Longrightarrow> world_next_id w = (case snow_Next 1704067200000 (snow w) of (i, g) \<Rightarrow> (i, w\<lparr>snow := g\<rparr>))"
  by (simp add: world_next_id_def demo_time_def unix_milli_def unix_epoch_def nanos_per_milli_def split: prod.splits)

lemma mem_gift_sel:
  "wt_lotE mem_gift = mem_lots" "wt_txnE mem_gift = mem_txns" "giftE mem_gift = mem_engine gift_clash gift_fits"
  "allocationE mem_gift = mem_engine allocation_clash allocation_fits" "tokenE mem_gift = mem_engine token_clash (\<lambda>_. True)"
  "renewalE mem_gift = mem_engine (\<lambda>a b. arg_ID a = arg_ID b) (\<lambda>_. True)" "customerE mem_gift = mem_engine (\<lambda>a b. gca_ID a = gca_ID b) (\<lambda>_. True)"
  "realnameE mem_gift = mem_engine (\<lambda>a b. grv_CustomerID a = grv_CustomerID b) (\<lambda>_. True)" "identityE mem_gift = mem_engine (=) (\<lambda>_. True)"
  "projectionE mem_gift = mem_engine (=) (\<lambda>_. True)" "gift_auditE mem_gift = mem_engine (\<lambda>a b. gau_ID a = gau_ID b) (\<lambda>_. True)"
  "gift_eventE mem_gift = mem_engine (\<lambda>a b. gev_ID a = gev_ID b) (\<lambda>_. True)" "gift_claimE mem_gift = mem_engine rec_clash rec_fits"
  "length (ge_pepper mem_gift) = 32" "ge_sha mem_gift = (\<lambda>s. s)" "ge_json mem_gift = (\<lambda>_. ''{}'')" "ge_marshal mem_gift = gd_GiftNo"
  "ge_random mem_gift = (\<lambda>_. Inr (replicate 32 (CHR ''r'')))" "ge_uuid mem_gift = (\<lambda>_. ''uuid'')" "ge_commit mem_gift = (\<lambda>_. None)"
  "ge_RequestID mem_gift = None" "ge_IPHash mem_gift = None" "ge_UserAgent mem_gift = None" "ge_AccountID mem_gift = 0"
  by (simp_all add: mem_gift_def)

lemmas gift_eval = mem_gift_sel go_run go_call_eval go_for.simps gorm_transaction_def db_take_def db_find_def db_ordered_def db_create_def db_updates_def
  gift_tables mem_engine_def update_where_def gift_clash_def gift_fits_def allocation_clash_def allocation_fits_def
  token_clash_def lot_clash_def lot_fits_def txn_clash_def txn_fits_def rec_clash_def rec_fits_def
  nowShanghai_demo world_id_demo snow_Next_def snow_id_def snow_epoch_def ids_Next_def wall_now_def gift_uuid_def
  on_gift_claims_def StartAt_def claim_candidate_def claim_reclaimable_def claim_take_def KeyHash_def RequestHash_def rec_key_def
  existingClaimResult_def startIdempotency_def succeedIdempotency_def Succeed_def claim_succeed_def
  requireAdultCustomer_def customerAccount_def customerRealname_def realname_valid_def map_error_def giftProjectionByID_def
  gift_projections_def live_customers_def giftDTO_def productSummary_def maskedGiftDisplayName_def writeGiftAudit_def writeGiftOutbox_def
  giftOptionalString_def AList.update.simps IDString_def format_uint.simps Let_def

lemmas asset_eval = asset_ready_def NewAssetService_def validateAssetCommand_def validateAssetEvidence_def replayAssetMutation_def
  gift_repo_def transactionAssetRepository_def repo_TransactionByActionKey_def repo_LockLot_def repo_UpdateLot_def
  repo_CreateTransaction_def repo_CreateLot_def assetRepositoryError_def occurredAt_def NowShanghai_def newTransaction_def apply_lot_change_def

lemmas create_eval = gift_Create_def giftCustomerIDWithPermission_def customer_claims_def ParseUint_def is_digit_def digits_value_def
  normalizeGiftCreateRequest_def validateBusinessNo_def ValidateBusinessNo_def business_no_char_def TrimSpace_def trim_by_def is_space_def
  demo_gift_request_def giftQuantityMax_def create_in_transaction_def hold_gift_def selected_lots_def giftAnchorLot_def lockGiftGroupLots_def
  lot_giftable_def in_gift_group_def fefo_order_def giftGroupContainsAnchor_def selectGiftFEFO_def activeRenewalForLots_def
  new_gift_def earliest_expiry_def giftClaimTTL_def createGift_def hold_item_def hold_command_def createGiftAllocation_def gift_action_def
  Freeze_def debit_def debit_fresh_def TransactionTypeGiftHold_def

lemma demo_create:
  "\<exists>dto w'. gift_Create mem_gift (Some (customer_claims ''7'' ''wine_ticket_gift:create'')) ''POST'' ''/gifts'' ''key-0001'' demo_gift_request
     demo_cellar = (Inr dto, w') \<and> length (gifts w') = 1"
  by (simp add: create_eval asset_eval gift_eval demo_cellar_def demo_lot_def late_lot_def demo_row_def late_row_def nanos_per_second_def cong: gift_congs)

text \<open>Two of the six bottles of lot 5 are wrapped in gift 100, with one share token.\<close>

definition demo_token :: string where
  "demo_token = b64_encode (replicate 32 (CHR ''r''))"

definition demo_digest :: string where
  "demo_digest = tokenDigest mem_gift demo_token"

definition demo_hold_row :: Transaction where
  "demo_hold_row =
     \<lparr>txn_ID = 20, txn_TransactionNo = ''WTT20'', txn_LotID = 5, txn_OwnerCustomerID = 7, txn_TransactionType = ''gift_hold'',
      txn_QuantityDelta = - 2, txn_BeforeAvailableQuantity = 6, txn_AfterAvailableQuantity = 4, txn_BizType = ''gift'', txn_BizID = 100,
      txn_ActionKey = gift_action ''gift_hold:'' 100 5, txn_MetadataJSON = JNull, txn_RequestID = None, txn_CreatedAt = demo_time\<rparr>"

definition demo_gift :: Gift where
  "demo_gift =
     \<lparr>gf_ID = 100, gf_GiftNo = ''WTG100'', gf_GiverCustomerID = 7, gf_ReceiverCustomerID = None, gf_IssuerMerchantID = 3, gf_ProductID = 4,
      gf_RedeemCityCode = ''440100'', gf_Quantity = 2, gf_Message = None, gf_Status = GiftStatusPending,
      gf_ClaimDeadline = demo_time + 1000 * nanos_per_second, gf_EarliestExpiresAt = demo_time + 1000 * nanos_per_second, gf_Version = 1,
      gf_ClaimedAt = None, gf_CancelledAt = None, gf_ReturnedAt = None, gf_CreatedAt = demo_time, gf_UpdatedAt = demo_time\<rparr>"

definition demo_allocation :: GiftAllocation where
  "demo_allocation =
     \<lparr>ga_ID = 101, ga_GiftID = 100, ga_SourceLotID = 5, ga_ReceiverLotID = None, ga_Quantity = 2,
      ga_SourceExpiresAt = demo_time + 1000 * nanos_per_second, ga_Status = GiftAllocationStatusHeld, ga_CreatedAt = demo_time,
      ga_UpdatedAt = demo_time\<rparr>"

definition demo_share :: GiftClaimToken where
  "demo_share =
     \<lparr>gt_ID = 102, gt_GiftID = 100, gt_TokenDigest = demo_digest, gt_IssuedByCustomerID = 7,
      gt_ExpiresAt = demo_time + 1000 * nanos_per_second, gt_ConsumedAt = None, gt_RevokedAt = None, gt_RequestID = None,
      gt_CreatedAt = demo_time\<rparr>"

definition demo_wrapped :: gift_world where
  "demo_wrapped = demo_cellar
     \<lparr>snow := \<lparr>lastMS = 1704067200000, sequence = 7, nodeID = 1, rollbacks = 0\<rparr>,
      lots := [demo_lot\<lparr>lot_AvailableQuantity := 4, lot_EverUsed := True, lot_Version := 2\<rparr>], transactions := [demo_row, demo_hold_row],
      gifts := [demo_gift], gift_allocations := [demo_allocation], gift_tokens := [demo_share]\<rparr>"

lemmas wrapped_defs = demo_wrapped_def demo_cellar_def demo_gift_def demo_allocation_def demo_share_def demo_hold_row_def demo_lot_def demo_row_def
  nanos_per_second_def

lemma demo_token_valid: "validGiftShareToken demo_token"
proof -
  have "length demo_token = 43" by code_simp
  then show ?thesis by (simp add: validGiftShareToken_def giftTokenMinLength_def giftTokenMaxLength_def demo_token_def b64_decode_encode)
qed

lemma demo_wrapped_ok: "gifts_ok demo_wrapped"
  by (simp add: gifts_ok_def gift_keys_ok_def gift_ok_def allocated_ok_def status_ok_def tokens_ok_def ledger_ok_def usable_tokens_def
      token_usable_def gift_clock_def of_gift_def gift_sum_def gift_held_def giftQuantityMax_def gift_row_def biz_row_def
      TransactionTypeGiftHold_def gift_action_def books_def lot_sound_def ledger_balance_def ValidateAssetTransaction_def Let_def wrapped_defs)

lemma demo_wrapped_ids: "ids_ready 3001 demo_wrapped"
  by (simp add: ids_ready_def snow_usable_def snow_reading_def snow_stamp_def snow_epoch_def wrapped_defs demo_time_def unix_milli_def
      unix_epoch_def nanos_per_milli_def)

lemmas settle_eval = lockGiftByID_def lockGiftByNo_def giver_gift_def lockGiftTokens_def lockGiftAllocationsAndLots_def lockGiftAllocations_def
  lockGiftLots_def giftSourceLotIDs_def deadline_passed_def validateGiftHoldEvidence_def giftHoldTransactions_def holds_by_action.simps
  check_allocations.simps source_matches_def hold_matches_def giftLotMap_def gift_action_def updateGiftAllocation_def
  updateGiftToken_def updateGift_def one_row_def revoke_token_def TransactionTypeGiftHold_def after_commit_def gift_statuses allocation_statuses

lemmas claim_eval = gift_Claim_def giftCustomerIDWithPermission_def customer_claims_def ParseUint_def is_digit_def digits_value_def
  giftIDByTokenDigest_def claim_in_transaction_def claim_gift_def claim_problem_def findLockedToken_def token_usable_def hand_over_def
  claim_allocation_def claim_command_def receiver_lot_def use_token_def claimed_gift_def Transfer_def Issue_def issue_fresh_def
  issue_defaults_def replayIssueAssetMutation_def TransactionTypeGiftClaim_def ResourceRequestHash_def demo_token_valid demo_digest_def [symmetric]

lemma gift_demo_claim:
  "\<exists>dto w'. gift_Claim mem_gift (Some (customer_claims ''9'' ''wine_ticket_gift:claim'')) ''POST'' ''/claims'' ''key-0002'' demo_token
     demo_wrapped = (Inr dto, w') \<and> (\<exists>g. gifts w' = [g] \<and> gf_Status g = GiftStatusClaimed) \<and> gifts w' \<noteq> gifts demo_wrapped"
  by (simp add: claim_eval settle_eval asset_eval gift_eval wrapped_defs cong: gift_congs)

lemmas cancel_eval = gift_Cancel_def giftCustomerIDWithPermission_def customer_claims_def ParseUint_def is_digit_def digits_value_def
  validateBusinessNo_def ValidateBusinessNo_def business_no_char_def TrimSpace_def trim_by_def is_space_def cancel_in_transaction_def
  cancel_gift_def pendingGiftProblem_def restoreGiftLocked_def restore_allocation_def restore_command_def Restore_def restore_fresh_def
  returned_gift_def ResourceRequestHash_def TransactionTypeGiftRestore_def

lemma demo_cancel:
  "\<exists>dto w'. gift_Cancel mem_gift (Some (customer_claims ''7'' ''wine_ticket_gift:cancel'')) ''POST'' ''/cancel'' ''key-0003'' ''WTG100''
     \<lparr>gev_ExpectedVersion = 1\<rparr> demo_wrapped = (Inr dto, w') \<and> gifts w' \<noteq> gifts demo_wrapped"
  by (simp add: cancel_eval settle_eval asset_eval gift_eval wrapped_defs cong: gift_congs)

lemma demo_cellar_books: "books (lots demo_cellar) (transactions demo_cellar)"
  by (simp add: books_def lot_sound_def ledger_balance_def demo_cellar_def demo_lot_def late_lot_def demo_row_def late_row_def
      ValidateAssetTransaction_def Let_def)

lemma demo_cellar_ok: "gifts_ok demo_cellar"
  using demo_cellar_books by (simp add: gifts_ok_def gift_keys_ok_def) (simp add: demo_cellar_def demo_row_def late_row_def)

end
