(* ===== verification/Gift_Properties.thy ===== *)
theory Gift_Properties
  imports Gift_Demo
begin

text \<open>
  The properties of the gift service, stated for every environment whose tables obey the laws of \<open>gift_store\<close>, each with a witness on
  the tables kept in memory.
\<close>

subsection \<open>First expired, first out\<close>

lemma fefo_picked:
  assumes d: "distinct (map lot_ID ls)" and k: "k < length ls" and q: "0 \<le> q"
  shows "fefo_shares ls q ! k \<noteq> 0 \<Longrightarrow> \<lparr>sel_lot = ls ! k, sel_quantity = word_of_int (fefo_shares ls q ! k)\<rparr> \<in> set (fefo_picks ls q)"
    and "fefo_shares ls q ! k = 0 \<Longrightarrow> lot_ID (ls ! k) \<notin> sel_ID ` set (fefo_picks ls q)"
proof -
  have "(ls ! k, fefo_shares ls q ! k) \<in> set (zip ls (fefo_shares ls q))" using k by (auto simp: set_zip)
  then show "\<lparr>sel_lot = ls ! k, sel_quantity = word_of_int (fefo_shares ls q ! k)\<rparr> \<in> set (fefo_picks ls q)" if "fefo_shares ls q ! k \<noteq> 0"
    using that by (force simp: fefo_picks_def)
  assume zero: "fefo_shares ls q ! k = 0"
  show "lot_ID (ls ! k) \<notin> sel_ID ` set (fefo_picks ls q)"
  proof
    assume "lot_ID (ls ! k) \<in> sel_ID ` set (fefo_picks ls q)"
    then obtain l s where ls: "(l, s) \<in> set (zip ls (fefo_shares ls q))" "s \<noteq> 0" "lot_ID l = lot_ID (ls ! k)"
      by (auto simp: fefo_picks_def)
    from ls(1) obtain j where j: "j < length ls" "l = ls ! j" "s = fefo_shares ls q ! j" by (auto simp: set_zip)
    then have "map lot_ID ls ! j = map lot_ID ls ! k" using ls(3) k by simp
    then have "j = k" using d j(1) k nth_eq_iff_index_eq [of "map lot_ID ls" j k] by simp
    with j(3) ls(2) zero show False by simp
  qed
qed

lemma fefo_drawn:
  assumes ch: "changed_at sel_ID sel_drawn (fefo_picks ls q) (lot_balances all) B" and all: "distinct (map lot_ID all)"
    and ls: "set ls \<subseteq> set all" "distinct (map lot_ID ls)" and k: "k < length ls" and q: "0 \<le> q"
  shows "B (lot_ID (ls ! k)) = Some (uint (lot_AvailableQuantity (ls ! k)) - fefo_shares ls q ! k)"
proof -
  have bal: "lot_balances all (lot_ID (ls ! k)) = Some (uint (lot_AvailableQuantity (ls ! k)))"
    by (rule lot_balances_lookup [OF all]) (use ls(1) k in auto)
  show ?thesis
  proof (cases "fefo_shares ls q ! k = 0")
    case True
    with fefo_picked(2) [OF ls(2) k q] ch bal show ?thesis by (simp add: changed_at_def)
  next
    case False
    have "uint (word_of_int (fefo_shares ls q ! k) :: go_uint) = fefo_shares ls q ! k"
      using fefo_share_range [OF q, of "fefo_shares ls q ! k" ls] k by (simp add: uint_word_of_int)
    moreover from ch fefo_picked(1) [OF ls(2) k q False]
    have "\<exists>v. lot_balances all (lot_ID (ls ! k)) = Some v \<and> B (lot_ID (ls ! k)) = Some (v - uint (word_of_int (fefo_shares ls q ! k) :: go_uint))"
      unfolding changed_at_def by force
    ultimately show ?thesis using bal by simp
  qed
qed



subsection \<open>Claiming\<close>

text \<open>C5: A claim hands over exactly the gift. When a call of \<open>Claim\<close> has changed a gift, that gift was pending, before its deadline, not
  given by the claimant, and the token named one of its tokens that was usable; the claimant has new lots that together hold exactly the
  gift's quantity, each made from one allocation of the gift and expiring when that one's source lot does; every lot there was before is
  untouched; and the gift is claimed, with no token of it open.\<close>

theorem gift_claim_exact:
  assumes "gift_store G token_fits" and "gifts_ok w" and "ids_ready 3001 w" and "gift_Claim G claims verb path key rawToken w = (Inr dto, w')"
    and "gifts w' \<noteq> gifts w"
  shows "\<exists>g c k new. g \<in> set (gifts w) \<and> gf_Status g = GiftStatusPending \<and> gift_clock w < gf_ClaimDeadline g \<and>
    giftCustomerIDWithPermission claims ''wine_ticket_gift:claim'' = Inr c \<and> c \<noteq> gf_GiverCustomerID g \<and>
    k \<in> set (gift_tokens w) \<and> gt_GiftID k = gf_ID g \<and> gt_TokenDigest k = tokenDigest G rawToken \<and> token_usable (gift_clock w) k \<and>
    lots w' = lots w @ new \<and> (\<Sum>l\<leftarrow>new. uint (lot_AvailableQuantity l)) = uint (gf_Quantity g) \<and>
    (\<forall>l\<in>set new. lot_OwnerCustomerID l = c \<and> lot_SourceGiftID l = Some (gf_ID g) \<and>
      (\<exists>a\<in>set (of_gift (gf_ID g) (gift_allocations w)). lot_SourceLotID l = Some (ga_SourceLotID a) \<and>
        lot_AvailableQuantity l = ga_Quantity a \<and> lot_ExpiresAt l = ga_SourceExpiresAt a)) \<and>
    gifts w' = gift_replaced g (claimed_gift c (gift_clock w) g) (gifts w) \<and>
    (\<forall>t\<in>set (gift_tokens w'). gt_GiftID t = gf_ID g \<longrightarrow> \<not> token_open t)"
proof -
  have "\<not> gift_same w w'" using assms(5) by (auto simp: gift_core_iff)
  with gift_store.claim_done [OF assms(1-4)] obtain c g k where
    c: "giftCustomerIDWithPermission claims ''wine_ticket_gift:claim'' = Inr c" and step: "gift_claimed g c k w w'"
    and allowed: "claim_allowed g k (tokenDigest G rawToken) w" by auto
  from step obtain as ids sources where m: "mset as = mset (of_gift (gf_ID g) (gift_allocations w))" and len: "length ids = length as"
    and src: "\<forall>a\<in>set as. \<exists>l\<in>set (lots w). sources (ga_SourceLotID a) = Some l \<and> lot_ID l = ga_SourceLotID a \<and> source_matches g a l"
    and ls: "lots w' = lots w @ map2 (handed_lot c g sources (gift_clock w)) as ids"
    and s: "g \<in> set (gifts w)" "gf_Status g = GiftStatusPending" "c \<noteq> gf_GiverCustomerID g"
      "gifts w' = gift_replaced g (claimed_gift c (gift_clock w) g) (gifts w)"
    and ts: "gift_tokens w' = map (\<lambda>t. if gt_GiftID t = gf_ID g then token_used k (gift_clock w) t else t) (gift_tokens w)"
    unfolding gift_claimed_def by blast
  let ?new = "map2 (handed_lot c g sources (gift_clock w)) as ids"
  have total: "(\<Sum>l\<leftarrow>?new. uint (lot_AvailableQuantity l)) = uint (gf_Quantity g)"
    unfolding handed_total [OF len] using gift_sum_mset [OF m] gifts_okD(5) [OF assms(2) s(1)] by (simp add: gift_ok_def allocated_ok_def)
  have each: "lot_OwnerCustomerID l = c \<and> lot_SourceGiftID l = Some (gf_ID g) \<and>
      (\<exists>a\<in>set (of_gift (gf_ID g) (gift_allocations w)). lot_SourceLotID l = Some (ga_SourceLotID a) \<and>
        lot_AvailableQuantity l = ga_Quantity a \<and> lot_ExpiresAt l = ga_SourceExpiresAt a)" if "l \<in> set ?new" for l
  proof -
    from that obtain a i where a: "a \<in> set as" "l = handed_lot c g sources (gift_clock w) a i" by (auto dest: set_zip_leftD)
    from src a(1) obtain x where x: "sources (ga_SourceLotID a) = Some x" "lot_ID x = ga_SourceLotID a" "source_matches g a x" by blast
    have "a \<in> set (of_gift (gf_ID g) (gift_allocations w))" using a(1) mset_eq_setD [OF m] by blast
    moreover have "l = receiver_lot i c g a x (gift_clock w)" using a(2) x(1) by simp
    ultimately show ?thesis using x(2,3) by (auto simp: receiver_lot_def source_matches_def simp del: set_of_gift)
  qed
  have closed: "\<forall>t\<in>set (gift_tokens w'). gt_GiftID t = gf_ID g \<longrightarrow> \<not> token_open t" by (rule settled_tokens(3) [OF ts]) simp_all
  show ?thesis
    using c s allowed ls total each closed unfolding claim_allowed_def by (intro exI [of _ g] exI [of _ c] exI [of _ k] exI [of _ ?new]) blast
qed

theorem gift_claim_exact_witness:
  "\<exists>dto w' new. gift_Claim mem_gift (Some (customer_claims ''9'' ''wine_ticket_gift:claim'')) ''POST'' ''/claims'' ''key-0002'' demo_token
     demo_wrapped = (Inr dto, w') \<and> lots w' = lots demo_wrapped @ new \<and> (\<Sum>l\<leftarrow>new. uint (lot_AvailableQuantity l)) = 2"
proof -
  obtain dto w' where run: "gift_Claim mem_gift (Some (customer_claims ''9'' ''wine_ticket_gift:claim'')) ''POST'' ''/claims'' ''key-0002''
      demo_token demo_wrapped = (Inr dto, w')" and ne: "gifts w' \<noteq> gifts demo_wrapped" using gift_demo_claim by blast
  have two: "gf_Quantity g = 2" if "g \<in> set (gifts demo_wrapped)" for g using that by (simp add: wrapped_defs)
  from gift_claim_exact [OF mem_gift.gift_store_axioms demo_wrapped_ok demo_wrapped_ids run ne] obtain g new where
    "g \<in> set (gifts demo_wrapped)" "lots w' = lots demo_wrapped @ new" "(\<Sum>l\<leftarrow>new. uint (lot_AvailableQuantity l)) = uint (gf_Quantity g)"
    by blast
  with run two [of g] show ?thesis by (intro exI [of _ dto] exI [of _ w'] exI [of _ new]) simp
qed

subsection \<open>Returning\<close>

text \<open>C9: A cancellation gives back exactly what was taken. When a call of \<open>Cancel\<close> has changed a gift, that gift was pending, before its
  deadline, given by the caller and at the version the caller expected; each of its allocations went back to the lot it came from, which
  grew by the allocation's quantity or, if the lot has expired, is emptied; no other balance changed; and the gift is cancelled with no
  token of it open.\<close>

theorem gift_cancel_exact:
  assumes "gift_store G token_fits" and "gifts_ok w" and "gift_Cancel G claims verb path key giftNo request w = (Inr dto, w')" and "gifts w' \<noteq> gifts w"
  shows "\<exists>g. g \<in> set (gifts w) \<and> gf_Status g = GiftStatusPending \<and> gf_GiftNo g = giftNo \<and> gift_clock w < gf_ClaimDeadline g \<and>
    giftCustomerIDWithPermission claims ''wine_ticket_gift:cancel'' = Inr (gf_GiverCustomerID g) \<and> gf_Version g = gev_ExpectedVersion request \<and>
    (\<forall>a\<in>set (of_gift (gf_ID g) (gift_allocations w)). \<exists>v. lot_balances (lots w) (ga_SourceLotID a) = Some v \<and>
      lot_balances (lots w') (ga_SourceLotID a) =
        Some (if ga_SourceExpiresAt a \<le> gift_clock w then 0 else v + uint (ga_Quantity a))) \<and>
    (\<forall>i. i \<notin> ga_SourceLotID ` set (of_gift (gf_ID g) (gift_allocations w)) \<longrightarrow> lot_balances (lots w') i = lot_balances (lots w) i) \<and>
    gift_sum (of_gift (gf_ID g) (gift_allocations w)) = uint (gf_Quantity g) \<and>
    gifts w' = gift_replaced g (returned_gift GiftStatusCancelled (gift_clock w) g) (gifts w) \<and>
    (\<forall>t\<in>set (gift_tokens w'). gt_GiftID t = gf_ID g \<longrightarrow> \<not> token_open t)"
proof -
  have "\<not> gift_same w w'" using assms(4) by (auto simp: gift_core_iff)
  with gift_store.cancel_done [OF assms(1-3)] obtain c g where
    c: "giftCustomerIDWithPermission claims ''wine_ticket_gift:cancel'' = Inr c" "gf_GiftNo g = giftNo" "gf_GiverCustomerID g = c"
      "gf_Version g = gev_ExpectedVersion request" "gift_clock w < gf_ClaimDeadline g"
    and step: "gift_returned g GiftStatusCancelled w w'" by auto
  from step have s: "g \<in> set (gifts w)" "gf_Status g = GiftStatusPending"
      "changed_at ga_SourceLotID (given_back (gift_clock w)) (of_gift (gf_ID g) (gift_allocations w)) (lot_balances (lots w)) (lot_balances (lots w'))"
      "gifts w' = gift_replaced g (returned_gift GiftStatusCancelled (gift_clock w) g) (gifts w)"
    and ts: "gift_tokens w' = map (\<lambda>t. if gt_GiftID t = gf_ID g then token_revoked (gift_clock w) t else t) (gift_tokens w)"
    by (simp_all add: gift_returned_def)
  have closed: "\<forall>t\<in>set (gift_tokens w'). gt_GiftID t = gf_ID g \<longrightarrow> \<not> token_open t" by (rule settled_tokens(3) [OF ts]) simp_all
  have sum: "gift_sum (of_gift (gf_ID g) (gift_allocations w)) = uint (gf_Quantity g)"
    using gifts_okD(5) [OF assms(2) s(1)] by (simp add: gift_ok_def allocated_ok_def)
  show ?thesis
    using c s(1,2,4) closed sum s(3) [unfolded changed_at_def given_back_def] by (intro exI [of _ g]) (intro conjI; blast)
qed

theorem gift_cancel_exact_witness:
  "\<exists>dto w'. gift_Cancel mem_gift (Some (customer_claims ''7'' ''wine_ticket_gift:cancel'')) ''POST'' ''/cancel'' ''key-0003'' ''WTG100''
     \<lparr>gev_ExpectedVersion = 1\<rparr> demo_wrapped = (Inr dto, w') \<and> lot_balances (lots w') 5 = Some 6"
proof -
  obtain dto w' where run: "gift_Cancel mem_gift (Some (customer_claims ''7'' ''wine_ticket_gift:cancel'')) ''POST'' ''/cancel'' ''key-0003''
      ''WTG100'' \<lparr>gev_ExpectedVersion = 1\<rparr> demo_wrapped = (Inr dto, w')" and ne: "gifts w' \<noteq> gifts demo_wrapped" using demo_cancel by blast
  from gift_cancel_exact [OF mem_gift.gift_store_axioms demo_wrapped_ok run ne] obtain g where
    g: "g \<in> set (gifts demo_wrapped)" and given: "\<forall>a\<in>set (of_gift (gf_ID g) (gift_allocations demo_wrapped)).
      \<exists>v. lot_balances (lots demo_wrapped) (ga_SourceLotID a) = Some v \<and> lot_balances (lots w') (ga_SourceLotID a) =
        Some (if ga_SourceExpiresAt a \<le> gift_clock demo_wrapped then 0 else v + uint (ga_Quantity a))" by blast
  have "demo_allocation \<in> set (of_gift (gf_ID g) (gift_allocations demo_wrapped))" using g by (simp add: wrapped_defs)
  with given have "\<exists>v. lot_balances (lots demo_wrapped) 5 = Some v \<and> lot_balances (lots w') 5 = Some (v + 2)"
    by (force simp: demo_allocation_def gift_clock_def wrapped_defs)
  moreover have "lot_balances (lots demo_wrapped) 5 = Some 4" by (simp add: lot_balances_def wrapped_defs)
  ultimately show ?thesis using run by auto
qed

subsection \<open>Every reachable world\<close>

text \<open>C4: Starting without gifts on sound books, whatever calls of the gift service, transactions of other modules and passing of time
  follow, the tables agree: the allocations of every gift add up to its quantity; those of a pending gift are held and the ledger has only
  the rows that froze them; those of a claimed gift are backed one by one by lots of the receiver, who is not the giver; those of a cancelled
  or expired gift are restored; a pending gift has at most three usable tokens and a settled one has none; and the books of the lots
  balance.\<close>

theorem gift_tables_reachable:
  assumes "gift_store G token_fits" and "books (lots w) (transactions w)" and "gifts w = []" and "gift_allocations w = []"
    and "gift_tokens w = []" and "\<forall>t\<in>set (transactions w). txn_BizType t \<noteq> ''gift''" and "(gift_step G)\<^sup>*\<^sup>* w w'"
  shows "gifts_ok w'"
proof -
  have "gifts_ok w" using assms(2-6) by (simp add: gifts_ok_def gift_keys_ok_def)
  then show ?thesis by (rule gift_store.reachable_ok [OF assms(1,7)])
qed

theorem gift_tables_reachable_witness:
  "\<exists>w'. (gift_step mem_gift)\<^sup>*\<^sup>* demo_cellar w' \<and> length (gifts w') = 1 \<and> gifts_ok w'"
proof -
  obtain dto w' where run: "gift_Create mem_gift (Some (customer_claims ''7'' ''wine_ticket_gift:create'')) ''POST'' ''/gifts'' ''key-0001''
      demo_gift_request demo_cellar = (Inr dto, w')" and len: "length (gifts w') = 1" using demo_create by blast
  from run have step: "(gift_step mem_gift)\<^sup>*\<^sup>* demo_cellar w'" by (intro r_into_rtranclp gift_step.call gift_call.create)
  have "gifts_ok w'"
    by (rule gift_tables_reachable [OF mem_gift.gift_store_axioms demo_cellar_books _ _ _ _ step])
      (simp_all add: demo_cellar_def demo_row_def late_row_def)
  with step len show ?thesis by blast
qed



text \<open>C8: A gift is settled once. When it has been claimed, cancelled or returned, no call, no transaction of another module and no passing
  of time changes its row or its allocations again.\<close>

theorem gift_settled_final:
  assumes "gift_store G token_fits" and "gifts_ok w" and "g \<in> set (gifts w)" and "gf_Status g \<noteq> GiftStatusPending" and "(gift_step G)\<^sup>*\<^sup>* w w'"
  shows "g \<in> set (gifts w') \<and> of_gift (gf_ID g) (gift_allocations w') = of_gift (gf_ID g) (gift_allocations w)"
  using assms(5)
proof (induction rule: rtranclp_induct)
  case (step v u)
  have "gifts_ok v" by (rule gift_store.reachable_ok [OF assms(1) step(1) assms(2)])
  from gift_store.settled_step [OF assms(1) step(2) this _ assms(4)] step(3) show ?case by simp
qed (simp add: assms(3))

theorem gift_settled_final_witness:
  "\<exists>dto w' g n w''. gift_Claim mem_gift (Some (customer_claims ''9'' ''wine_ticket_gift:claim'')) ''POST'' ''/claims'' ''key-0002'' demo_token
     demo_wrapped = (Inr dto, w') \<and> gifts w' = [g] \<and> gf_Status g = GiftStatusClaimed \<and>
     ExpireDue mem_gift 10 (w'\<lparr>wall := wall w' + 2000 * nanos_per_second\<rparr>) = (n, w'') \<and> g \<in> set (gifts w'')"
proof -
  obtain dto w' g where run: "gift_Claim mem_gift (Some (customer_claims ''9'' ''wine_ticket_gift:claim'')) ''POST'' ''/claims'' ''key-0002''
      demo_token demo_wrapped = (Inr dto, w')" and g: "gifts w' = [g]" "gf_Status g = GiftStatusClaimed" using gift_demo_claim by blast
  let ?w = "w'\<lparr>wall := wall w' + 2000 * nanos_per_second\<rparr>"
  obtain n w'' where late: "ExpireDue mem_gift 10 ?w = (n, w'')" by fastforce
  have ok: "gifts_ok w'" by (rule mem_gift.step_ok [OF gift_step.call [OF gift_call.claim [OF demo_wrapped_ids run]] demo_wrapped_ok])
  have "gift_step mem_gift w' ?w" by (rule gift_step.tick) (simp add: nanos_per_second_def)
  moreover have "gift_step mem_gift ?w w''" by (rule gift_step.call [OF gift_call.expire [OF late]])
  ultimately have "(gift_step mem_gift)\<^sup>*\<^sup>* w' w''" by (meson rtranclp.rtrancl_into_rtrancl r_into_rtranclp)
  from gift_settled_final [OF mem_gift.gift_store_axioms ok _ _ this, of g] g have "g \<in> set (gifts w'')" by (simp add: gift_statuses)
  with run g late show ?thesis by blast
qed

end
