(* ===== verification/Integrity_Model.thy ===== *)
theory Integrity_Model
  imports Gift_Model
begin

text \<open>
  The reconciliation of the wine-ticket ledgers (\<open>internal/modules/wineticket/integrity\<close>): the scanner that checks the tables in
  batches of ascending identifiers, the exceptions it records and the checkpoint that several workers share. The scanner reads the
  tables of the asset core and of the gifts, which are the component \<open>facts\<close> of the world, and the columns it needs of the
  allocations of redemptions and refunds and of the renewals; it writes exceptions and checkpoints only.

  The checks of lots and gifts are modelled. Those of the other seven phases read tables of modules that are not part of this
  development; they are the parameter \<open>ig_scan\<close>. The codec of snapshots and watermarks, the hash and the maximum of a column over a
  table are parameters too. \<open>ig_db\<close> and \<open>ig_ids\<close> say whether the handles the code compares with nil are there.
\<close>

subsection \<open>Phases and cursors\<close>

definition IntegrityPhasePayments :: string where "IntegrityPhasePayments = ''payments''"
definition IntegrityPhasePurchases :: string where "IntegrityPhasePurchases = ''purchases''"
definition IntegrityPhaseLots :: string where "IntegrityPhaseLots = ''lots''"
definition IntegrityPhaseRedemptions :: string where "IntegrityPhaseRedemptions = ''redemptions''"
definition IntegrityPhaseGifts :: string where "IntegrityPhaseGifts = ''gifts''"
definition IntegrityPhaseRenewals :: string where "IntegrityPhaseRenewals = ''renewals''"
definition IntegrityPhaseRefunds :: string where "IntegrityPhaseRefunds = ''refunds''"
definition IntegrityPhaseSlots :: string where "IntegrityPhaseSlots = ''slots''"
definition IntegrityPhaseReminders :: string where "IntegrityPhaseReminders = ''reminders''"

lemmas integrity_phases = IntegrityPhasePayments_def IntegrityPhasePurchases_def IntegrityPhaseLots_def IntegrityPhaseRedemptions_def
  IntegrityPhaseGifts_def IntegrityPhaseRenewals_def IntegrityPhaseRefunds_def IntegrityPhaseSlots_def IntegrityPhaseReminders_def

definition reconciliationPhases :: "string list" where
  "reconciliationPhases = [IntegrityPhasePayments, IntegrityPhasePurchases, IntegrityPhaseLots, IntegrityPhaseRedemptions,
     IntegrityPhaseGifts, IntegrityPhaseRenewals, IntegrityPhaseRefunds, IntegrityPhaseSlots, IntegrityPhaseReminders]"

definition reconciliationRuleLotReplay :: string where "reconciliationRuleLotReplay = ''REC-WT-003''"
definition reconciliationRuleAllocationView :: string where "reconciliationRuleAllocationView = ''REC-WT-003A''"
definition reconciliationRuleGift :: string where "reconciliationRuleGift = ''REC-WT-005''"

record IntegrityCursor =
  cur_Phase :: string
  cur_LastID :: uint64
  cur_UpperID :: "uint64 option"

record IntegrityBatchResult =
  br_Phase :: string
  br_Checked :: int
  br_Detected :: int
  br_NextCursor :: IntegrityCursor
  br_PhaseCompleted :: bool
  br_CycleCompleted :: bool
  br_CycleKey :: string
  br_LeaseAcquired :: bool
  br_NextRunAt :: "go_time option"

text \<open>\<open>Expected\<close> and \<open>Actual\<close> are of type \<open>any\<close>; a nil one is \<open>JNull\<close>.\<close>

record reconciliationDiscrepancy =
  dis_Rule :: string
  dis_Kind :: string
  dis_BizType :: string
  dis_BizID :: uint64
  dis_BizNo :: "string option"
  dis_IssuerMerchantID :: "uint64 option"
  dis_Severity :: string
  dis_Expected :: json
  dis_Actual :: json

definition exceptionType :: "reconciliationDiscrepancy \<Rightarrow> string" where
  "exceptionType d =
     (let kind = to_lower (TrimSpace (dis_Kind d));
          kind = map (\<lambda>c. if c = CHR '' '' then CHR ''_'' else c) kind
      in dis_Rule d @ '':'' @ kind)"

definition discrepancy_key :: "reconciliationDiscrepancy \<Rightarrow> string" where
  "discrepancy_key d = exceptionType d @ ''|'' @ dis_BizType d @ ''|'' @ IDString (dis_BizID d)"

text \<open>\<open>%q\<close> on printable text.\<close>

definition go_quoted :: "string \<Rightarrow> string" where
  "go_quoted s = [CHR 0x22] @ concat (map (\<lambda>c. if c = CHR 0x22 \<or> c = CHR 0x5C then [CHR 0x5C, c] else [c]) s) @ [CHR 0x22]"

definition normalizeIntegrityCursor :: "IntegrityCursor \<Rightarrow> go_error + IntegrityCursor" where
  "normalizeIntegrityCursor cursor =
     (let cursor = (if cur_Phase cursor = '''' then cursor\<lparr>cur_Phase := hd reconciliationPhases\<rparr> else cursor)
      in if List.member reconciliationPhases (cur_Phase cursor) then Inr cursor
         else Inl (ErrMessage (''unknown wine-ticket reconciliation phase '' @ go_quoted (cur_Phase cursor))))"

text \<open>The position of the next phase; a phase that is not in the list starts over.\<close>

fun next_phase :: "string list \<Rightarrow> string \<Rightarrow> string \<times> bool" where
  "next_phase [] phase = (hd reconciliationPhases, False)"
| "next_phase (current # rest) phase =
     (if current \<noteq> phase then next_phase rest phase
      else case rest of [] \<Rightarrow> (hd reconciliationPhases, True) | after # _ \<Rightarrow> (after, False))"

definition nextIntegrityCursor :: "string \<Rightarrow> uint64 \<Rightarrow> bool \<Rightarrow> uint64 option \<Rightarrow> IntegrityCursor \<times> bool" where
  "nextIntegrityCursor phase lastID phaseCompleted upperID =
     (if \<not> phaseCompleted then (\<lparr>cur_Phase = phase, cur_LastID = lastID, cur_UpperID = upperID\<rparr>, False)
      else case next_phase reconciliationPhases phase of
        (after, completed) \<Rightarrow> (\<lparr>cur_Phase = after, cur_LastID = 0, cur_UpperID = None\<rparr>, completed))"

fun unique_loop :: "uint64 list \<Rightarrow> uint64 list \<Rightarrow> uint64 list" where
  "unique_loop seen [] = []"
| "unique_loop seen (v # vs) =
     (if v = 0 then unique_loop seen vs
      else if List.member seen v then unique_loop seen vs
      else v # unique_loop (v # seen) vs)"

definition reconciliationUniqueIDs :: "uint64 list \<Rightarrow> uint64 list" where
  "reconciliationUniqueIDs values = unique_loop [] values"

fun dedup_loop :: "string list \<Rightarrow> reconciliationDiscrepancy list \<Rightarrow> reconciliationDiscrepancy list" where
  "dedup_loop seen [] = []"
| "dedup_loop seen (r # rs) =
     (if List.member seen (discrepancy_key r) then dedup_loop seen rs
      else r # dedup_loop (discrepancy_key r # seen) rs)"

definition deduplicateIntegrityDiscrepancies :: "reconciliationDiscrepancy list \<Rightarrow> reconciliationDiscrepancy list" where
  "deduplicateIntegrityDiscrepancies rows = (if length rows < 2 then rows else dedup_loop [] rows)"

subsection \<open>Rows and tables\<close>

text \<open>The columns the scanner reads of the allocations of redemptions and refunds and of the renewals.\<close>

record RedemptionAllocation =
  ra_RedemptionID :: uint64
  ra_LotID :: uint64
  ra_Quantity :: go_uint
  ra_Status :: string

record RefundAllocation =
  fa_WineTicketRefundID :: uint64
  fa_LotID :: uint64
  fa_Quantity :: go_uint
  fa_Status :: string

record Renewal =
  rn_ID :: uint64
  rn_LotID :: uint64
  rn_OldExpiresAt :: go_time
  rn_NewExpiresAt :: go_time
  rn_Status :: string
  rn_CreatedAt :: go_time

record Exception =
  ex_ID :: uint64
  ex_ExceptionNo :: string
  ex_ExceptionType :: string
  ex_BizType :: string
  ex_BizID :: uint64
  ex_BizNo :: "string option"
  ex_IssuerMerchantID :: "uint64 option"
  ex_SourceType :: string
  ex_SourceID :: "uint64 option"
  ex_CorrelationID :: "string option"
  ex_Severity :: string
  ex_Status :: string
  ex_ExpectedSnapshot :: string
  ex_ActualSnapshot :: string
  ex_ProposedAction :: "string option"
  ex_ProposedReason :: "string option"
  ex_ReviewTicketNo :: "string option"
  ex_ProposedBy :: "uint64 option"
  ex_ProposedAt :: "go_time option"
  ex_ReviewDecision :: "string option"
  ex_ReviewNote :: "string option"
  ex_ReviewedBy :: "uint64 option"
  ex_ReviewedAt :: "go_time option"
  ex_ResolutionResult :: string
  ex_OccurrenceCount :: go_uint
  ex_FirstDetectedAt :: go_time
  ex_LastDetectedAt :: go_time
  ex_ResolvedAt :: "go_time option"
  ex_Version :: go_uint
  ex_CreatedAt :: go_time
  ex_UpdatedAt :: go_time

record Checkpoint =
  cp_CycleKey :: string
  cp_Status :: string
  cp_Phase :: string
  cp_LastID :: uint64
  cp_HighWatermarks :: string
  cp_CheckedRows :: uint64
  cp_DetectedRows :: uint64
  cp_LeaseOwner :: "string option"
  cp_LeaseUntil :: "go_time option"
  cp_StartedAt :: go_time
  cp_LastBatchAt :: "go_time option"
  cp_CompletedAt :: "go_time option"
  cp_Version :: go_uint
  cp_CreatedAt :: go_time
  cp_UpdatedAt :: go_time

record integ_world =
  facts :: gift_world
  redemption_allocations :: "RedemptionAllocation list"
  refund_allocations :: "RefundAllocation list"
  renewal_rows :: "Renewal list"
  exceptions :: "Exception list"
  checkpoints :: "Checkpoint list"

type_synonym scan_result = "int \<times> uint64 \<times> reconciliationDiscrepancy list"

record integ_env =
  ig_gift :: gift_env
  ig_redemptionE :: "RedemptionAllocation engine"
  ig_refundE :: "RefundAllocation engine"
  ig_renewalE :: "Renewal engine"
  ig_exceptionE :: "Exception engine"
  ig_checkpointE :: "Checkpoint engine"
  ig_scan :: "string \<Rightarrow> uint64 \<Rightarrow> uint64 option \<Rightarrow> int \<Rightarrow> integ_world \<Rightarrow> go_error + scan_result"
  ig_maxID :: "string \<Rightarrow> integ_world \<Rightarrow> go_error + uint64"
  ig_marshal :: "json \<Rightarrow> go_error + string"
  ig_marks :: "(string \<times> uint64) list \<Rightarrow> go_error + string"
  ig_unmarks :: "string \<Rightarrow> go_error + (string \<rightharpoonup> uint64)"
  ig_sha256 :: "string \<Rightarrow> string"
  ig_commit :: "integ_world \<Rightarrow> go_error option"
  ig_db :: bool
  ig_ids :: bool

definition ExceptionStatusInvestigating :: string where "ExceptionStatusInvestigating = ''investigating''"
definition ExceptionStatusAwaitingExternalFact :: string where "ExceptionStatusAwaitingExternalFact = ''awaiting_external_fact''"
definition ExceptionStatusPendingReview :: string where "ExceptionStatusPendingReview = ''pending_review''"

definition reconciliationActiveExceptionStatuses :: "string list" where
  "reconciliationActiveExceptionStatuses =
     [ExceptionStatusInvestigating, ExceptionStatusAwaitingExternalFact, ExceptionStatusPendingReview]"

text \<open>The unique indexes of the two tables the scanner writes. \<open>active_exception_key\<close> is the generated column.\<close>

definition exception_active :: "Exception \<Rightarrow> bool" where
  "exception_active e \<longleftrightarrow> List.member reconciliationActiveExceptionStatuses (ex_Status e)"

definition active_exception_key :: "Exception \<Rightarrow> string option" where
  "active_exception_key e =
     (if exception_active e then Some (ex_ExceptionType e @ '':'' @ ex_BizType e @ '':'' @ IDString (ex_BizID e)) else None)"

definition exception_clash :: "Exception \<Rightarrow> Exception \<Rightarrow> bool" where
  "exception_clash a b \<longleftrightarrow> ex_ID a = ex_ID b \<or> ex_ExceptionNo a = ex_ExceptionNo b \<or>
     (active_exception_key a \<noteq> None \<and> active_exception_key a = active_exception_key b)"

definition checkpoint_clash :: "Checkpoint \<Rightarrow> Checkpoint \<Rightarrow> bool" where
  "checkpoint_clash a b \<longleftrightarrow> cp_CycleKey a = cp_CycleKey b"

definition scan_lots :: "integ_env \<Rightarrow> (integ_world, Lot) db_table" where
  "scan_lots I = \<lparr>tbl_rows = (\<lambda>w. lots (facts w)), tbl_set = (\<lambda>r w. w\<lparr>facts := (facts w)\<lparr>lots := r\<rparr>\<rparr>), tbl_engine = wt_lotE (ig_gift I)\<rparr>"

definition scan_transactions :: "integ_env \<Rightarrow> (integ_world, Transaction) db_table" where
  "scan_transactions I = \<lparr>tbl_rows = (\<lambda>w. transactions (facts w)), tbl_set = (\<lambda>r w. w\<lparr>facts := (facts w)\<lparr>transactions := r\<rparr>\<rparr>),
     tbl_engine = wt_txnE (ig_gift I)\<rparr>"

definition scan_gifts :: "integ_env \<Rightarrow> (integ_world, Gift) db_table" where
  "scan_gifts I = \<lparr>tbl_rows = (\<lambda>w. gifts (facts w)), tbl_set = (\<lambda>r w. w\<lparr>facts := (facts w)\<lparr>gifts := r\<rparr>\<rparr>), tbl_engine = giftE (ig_gift I)\<rparr>"

definition scan_gift_allocations :: "integ_env \<Rightarrow> (integ_world, GiftAllocation) db_table" where
  "scan_gift_allocations I = \<lparr>tbl_rows = (\<lambda>w. gift_allocations (facts w)),
     tbl_set = (\<lambda>r w. w\<lparr>facts := (facts w)\<lparr>gift_allocations := r\<rparr>\<rparr>), tbl_engine = allocationE (ig_gift I)\<rparr>"

definition scan_redemption_allocations :: "integ_env \<Rightarrow> (integ_world, RedemptionAllocation) db_table" where
  "scan_redemption_allocations I =
     \<lparr>tbl_rows = redemption_allocations, tbl_set = (\<lambda>r. redemption_allocations_update (\<lambda>_. r)), tbl_engine = ig_redemptionE I\<rparr>"

definition scan_refund_allocations :: "integ_env \<Rightarrow> (integ_world, RefundAllocation) db_table" where
  "scan_refund_allocations I =
     \<lparr>tbl_rows = refund_allocations, tbl_set = (\<lambda>r. refund_allocations_update (\<lambda>_. r)), tbl_engine = ig_refundE I\<rparr>"

definition scan_renewals :: "integ_env \<Rightarrow> (integ_world, Renewal) db_table" where
  "scan_renewals I = \<lparr>tbl_rows = renewal_rows, tbl_set = (\<lambda>r. renewal_rows_update (\<lambda>_. r)), tbl_engine = ig_renewalE I\<rparr>"

definition exception_tbl :: "integ_env \<Rightarrow> (integ_world, Exception) db_table" where
  "exception_tbl I = \<lparr>tbl_rows = exceptions, tbl_set = (\<lambda>r. exceptions_update (\<lambda>_. r)), tbl_engine = ig_exceptionE I\<rparr>"

definition checkpoint_tbl :: "integ_env \<Rightarrow> (integ_world, Checkpoint) db_table" where
  "checkpoint_tbl I = \<lparr>tbl_rows = checkpoints, tbl_set = (\<lambda>r. checkpoints_update (\<lambda>_. r)), tbl_engine = ig_checkpointE I\<rparr>"

lemmas integ_tables = scan_lots_def scan_transactions_def scan_gifts_def scan_gift_allocations_def scan_redemption_allocations_def
  scan_refund_allocations_def scan_renewals_def exception_tbl_def checkpoint_tbl_def

text \<open>Rolling back restores every table; identifiers that were taken stay taken.\<close>

definition restore_integ :: "integ_world \<Rightarrow> integ_world \<Rightarrow> integ_world" where
  "restore_integ before after = before\<lparr>facts := (facts before)\<lparr>snow := snow (facts after)\<rparr>\<rparr>"

definition integ_tx :: "integ_env \<Rightarrow> (integ_world, go_error, 'a) go \<Rightarrow> (integ_world, go_error, 'a) go" where
  "integ_tx I m = gorm_transaction (ig_commit I) restore_integ m"

definition on_facts :: "(gift_world, 'e, 'a) go \<Rightarrow> (integ_world, 'e, 'a) go" where
  "on_facts m w = (case m (facts w) of (r, f) \<Rightarrow> (r, w\<lparr>facts := f\<rparr>))"

text \<open>A statement that only reads, and a value computed outside the database.\<close>

definition go_read :: "('s \<Rightarrow> 'e + 'a) \<Rightarrow> ('s, 'e, 'a) go" where
  "go_read f w = (f w, w)"

lemma go_read_inv [go_inv]: "go_read f w = (r, w') \<longleftrightarrow> f w = r \<and> w' = w"
  by (auto simp: go_read_def)

definition wrap_error :: "string \<Rightarrow> ('s, go_error, 'a) go \<Rightarrow> ('s, go_error, 'a) go" where
  "wrap_error prefix m w = (case m w of (Inl e, t) \<Rightarrow> (Inl (ErrMessage (prefix @ error_text e)), t) | (Inr a, t) \<Rightarrow> (Inr a, t))"

lemma wrap_error_inv [go_inv]: "wrap_error prefix m w = (Inr a, w') \<longleftrightarrow> m w = (Inr a, w')"
  by (auto simp: wrap_error_def split: prod.splits sum.splits)

definition errors_Join :: "go_error \<Rightarrow> go_error \<Rightarrow> go_error" where
  "errors_Join a b = ErrMessage (error_text a @ [CHR 0x0A] @ error_text b)"

end
