(* ===== verification/Integrity_Checks.thy ===== *)
theory Integrity_Checks
  imports Integrity_Model
begin

text \<open>
  The checks of the reconciliation: \<open>lot.go\<close>, the gifts of \<open>redemption_gift.go\<close>, and \<open>scanBatchFacts\<close> of \<open>service.go\<close>, which reads one
  batch of one phase and says where the next one starts. Quantities are words, the sums the code takes in \<open>int64\<close> are written with
  \<open>i64\<close> and those in \<open>uint64\<close> wrap as words do.
\<close>

subsection \<open>Ledger rows of a business object\<close>

record reconciliationTransactionAggregate =
  agg_Count :: int
  agg_Delta :: int

record reconciliationTransactionKey =
  rk_LotID :: uint64
  rk_TransactionType :: string
  rk_BizType :: string
  rk_BizID :: uint64

type_synonym transaction_facts = "reconciliationTransactionKey \<Rightarrow> reconciliationTransactionAggregate"

definition transaction_key :: "Transaction \<Rightarrow> reconciliationTransactionKey" where
  "transaction_key t = \<lparr>rk_LotID = txn_LotID t, rk_TransactionType = txn_TransactionType t, rk_BizType = txn_BizType t, rk_BizID = txn_BizID t\<rparr>"

text \<open>A missing key of the map reads as the zero value.\<close>

definition count_transaction :: "Transaction \<Rightarrow> transaction_facts \<Rightarrow> transaction_facts" where
  "count_transaction entry aggregates =
     (let aggregate = aggregates (transaction_key entry)
      in aggregates(transaction_key entry := \<lparr>agg_Count = agg_Count aggregate + 1,
           agg_Delta = i64 (agg_Delta aggregate + sint (txn_QuantityDelta entry))\<rparr>))"

definition transactionFacts :: "Transaction list \<Rightarrow> transaction_facts" where
  "transactionFacts entries = fold count_transaction entries (\<lambda>_. \<lparr>agg_Count = 0, agg_Delta = 0\<rparr>)"

definition allocationHoldBacked :: "transaction_facts \<Rightarrow> reconciliationTransactionKey \<Rightarrow> go_uint \<Rightarrow> bool" where
  "allocationHoldBacked aggregates key quantity \<longleftrightarrow>
     agg_Count (aggregates key) = 1 \<and> agg_Delta (aggregates key) = i64 (- sint quantity)"

subsection \<open>Lots\<close>

definition id_window :: "uint64 \<Rightarrow> uint64 option \<Rightarrow> uint64 \<Rightarrow> bool" where
  "id_window afterID upperID i \<longleftrightarrow> afterID < i \<and> (case upperID of None \<Rightarrow> True | Some u \<Rightarrow> i \<le> u)"

text \<open>The replay of the rows of a lot: the balance reached, whether every row fits, and the first row that does not.\<close>

fun lot_replay :: "Lot \<Rightarrow> Transaction list \<Rightarrow> int \<Rightarrow> int \<times> bool \<times> uint64" where
  "lot_replay lot [] balance = (balance, True, 0)"
| "lot_replay lot (entry # rest) balance =
     (let before = sint (txn_BeforeAvailableQuantity entry);
          after = sint (txn_AfterAvailableQuantity entry);
          next_balance = i64 (balance + sint (txn_QuantityDelta entry))
      in if txn_OwnerCustomerID entry \<noteq> lot_OwnerCustomerID lot \<or> txn_QuantityDelta entry = 0 \<or> before \<noteq> balance \<or>
            after \<noteq> next_balance \<or> next_balance < 0 \<or> sint (lot_TotalQuantity lot) < next_balance
         then (balance, False, txn_ID entry)
         else lot_replay lot rest next_balance)"

definition lot_status_valid :: "Lot \<Rightarrow> bool" where
  "lot_status_valid lot \<longleftrightarrow>
     (lot_Status lot = LotStatusActive \<and> 0 < lot_AvailableQuantity lot) \<or>
     ((lot_Status lot = LotStatusDepleted \<or> lot_Status lot = LotStatusExpired \<or> lot_Status lot = LotStatusRefunded) \<and>
      lot_AvailableQuantity lot = 0)"

definition checkLotReplay :: "Lot \<Rightarrow> Transaction list \<Rightarrow> reconciliationDiscrepancy option" where
  "checkLotReplay lot entries =
     (case lot_replay lot entries 0 of (balance, chained, firstInvalidTransactionID) \<Rightarrow>
        let replayValid = (entries \<noteq> [] \<and> chained);
            statusValid = lot_status_valid lot
        in if replayValid \<and> balance = sint (lot_AvailableQuantity lot) \<and> statusValid then None
           else Some \<lparr>dis_Rule = reconciliationRuleLotReplay, dis_Kind = ''lot_transaction_replay'', dis_BizType = ''wine_ticket_lot'',
             dis_BizID = lot_ID lot, dis_BizNo = Some (lot_LotNo lot), dis_IssuerMerchantID = Some (lot_IssuerMerchantID lot),
             dis_Severity = ''P1'',
             dis_Expected = JObject [
               (''replayed_available_quantity'', JInt (uint (lot_AvailableQuantity lot))),
               (''transaction_chain_valid'', JBool True),
               (''status_matches_quantity'', JBool True)],
             dis_Actual = JObject [
               (''stored_available_quantity'', JInt (uint (lot_AvailableQuantity lot))),
               (''replayed_available_quantity'', JInt balance),
               (''transaction_chain_valid'', JBool replayValid),
               (''status'', JString (lot_Status lot)),
               (''status_matches_quantity'', JBool statusValid),
               (''transaction_count'', JInt (int (length entries))),
               (''first_invalid_transaction_id'', JInt (uint firstInvalidTransactionID))]\<rparr>)"

text \<open>What the allocations of a lot add up to while they are looped over.\<close>

record lot_projection =
  lp_held :: uint64
  lp_extracted :: uint64
  lp_backing :: bool
  lp_status :: string
  lp_biz :: uint64

definition project_redemption :: "Lot \<Rightarrow> transaction_facts \<Rightarrow> RedemptionAllocation \<Rightarrow> lot_projection \<Rightarrow> lot_projection" where
  "project_redemption lot aggregates a p =
     (let backed = allocationHoldBacked aggregates \<lparr>rk_LotID = lot_ID lot, rk_TransactionType = ''redemption_hold'',
            rk_BizType = ''wine_ticket_redemption'', rk_BizID = ra_RedemptionID a\<rparr> (ra_Quantity a)
      in if ra_Status a = ''held'' then p\<lparr>lp_held := lp_held p + ra_Quantity a, lp_backing := lp_backing p \<and> backed\<rparr>
         else if ra_Status a = ''consumed'' then p\<lparr>lp_extracted := lp_extracted p + ra_Quantity a, lp_backing := lp_backing p \<and> backed\<rparr>
         else if ra_Status a = ''restored'' then p
         else p\<lparr>lp_status := ra_Status a, lp_biz := ra_RedemptionID a\<rparr>)"

definition project_gift :: "Lot \<Rightarrow> transaction_facts \<Rightarrow> GiftAllocation \<Rightarrow> lot_projection \<Rightarrow> lot_projection" where
  "project_gift lot aggregates a p =
     (if ga_Status a = GiftAllocationStatusHeld
      then p\<lparr>lp_held := lp_held p + ga_Quantity a,
             lp_backing := lp_backing p \<and> allocationHoldBacked aggregates \<lparr>rk_LotID = lot_ID lot,
               rk_TransactionType = TransactionTypeGiftHold, rk_BizType = ''gift'', rk_BizID = ga_GiftID a\<rparr> (ga_Quantity a)\<rparr>
      else if ga_Status a = GiftAllocationStatusClaimed \<or> ga_Status a = GiftAllocationStatusRestored then p
      else p\<lparr>lp_status := ga_Status a, lp_biz := ga_GiftID a\<rparr>)"

definition project_refund :: "Lot \<Rightarrow> transaction_facts \<Rightarrow> RefundAllocation \<Rightarrow> lot_projection \<Rightarrow> lot_projection" where
  "project_refund lot aggregates a p =
     (if fa_Status a = ''held''
      then p\<lparr>lp_held := lp_held p + fa_Quantity a,
             lp_backing := lp_backing p \<and> allocationHoldBacked aggregates \<lparr>rk_LotID = lot_ID lot,
               rk_TransactionType = ''refund_hold'', rk_BizType = ''refund'', rk_BizID = fa_WineTicketRefundID a\<rparr> (fa_Quantity a)\<rparr>
      else if fa_Status a = ''consumed'' \<or> fa_Status a = ''restored'' then p
      else p\<lparr>lp_status := fa_Status a, lp_biz := fa_WineTicketRefundID a\<rparr>)"

definition checkLotAllocationProjection ::
    "Lot \<Rightarrow> RedemptionAllocation list \<Rightarrow> GiftAllocation list \<Rightarrow> RefundAllocation list \<Rightarrow> transaction_facts \<Rightarrow>
     reconciliationDiscrepancy option" where
  "checkLotAllocationProjection lot redemptions gs refunds aggregates =
     (let p = \<lparr>lp_held = 0, lp_extracted = 0, lp_backing = True, lp_status = [], lp_biz = 0\<rparr>;
          p = fold (project_redemption lot aggregates) redemptions p;
          p = fold (project_gift lot aggregates) gs p;
          p = fold (project_refund lot aggregates) refunds p;
          projectionBounded = (lot_AvailableQuantity lot + lp_held p + lp_extracted p \<le> lot_TotalQuantity lot)
      in if lp_backing p \<and> lp_status p = [] \<and> projectionBounded then None
         else Some \<lparr>dis_Rule = reconciliationRuleAllocationView, dis_Kind = ''allocation_projection'', dis_BizType = ''wine_ticket_lot'',
           dis_BizID = lot_ID lot, dis_BizNo = Some (lot_LotNo lot), dis_IssuerMerchantID = Some (lot_IssuerMerchantID lot),
           dis_Severity = ''P1'',
           dis_Expected = JObject [
             (''held_quantity_source'', JString ''held_redemption_plus_held_gift_plus_held_refund''),
             (''extracted_quantity_source'', JString ''consumed_redemption_only''),
             (''restored_excluded'', JBool True),
             (''hold_transaction_backing'', JBool True),
             (''projection_within_total'', JBool True)],
           dis_Actual = JObject [
             (''available_quantity'', JInt (uint (lot_AvailableQuantity lot))),
             (''held_quantity'', JInt (uint (lp_held p))),
             (''extracted_quantity'', JInt (uint (lp_extracted p))),
             (''total_quantity'', JInt (uint (lot_TotalQuantity lot))),
             (''hold_transaction_backing'', JBool (lp_backing p)),
             (''projection_within_total'', JBool projectionBounded),
             (''invalid_status'', JString (lp_status p)),
             (''invalid_business_id'', JInt (uint (lp_biz p)))]\<rparr>)"

definition listIntegrityLots :: "integ_env \<Rightarrow> uint64 \<Rightarrow> uint64 option \<Rightarrow> int \<Rightarrow> (integ_world, go_error, Lot list) go" where
  "listIntegrityLots I afterID upperID limit =
     go_bind (db_ordered (scan_lots I) (\<lambda>l. id_window afterID upperID (lot_ID l)) (\<lambda>l. [uint (lot_ID l)])) (\<lambda>rows.
       go_ok (gorm_limit limit rows))"

definition listIntegrityLotTransactions :: "integ_env \<Rightarrow> uint64 list \<Rightarrow> (integ_world, go_error, Transaction list) go" where
  "listIntegrityLotTransactions I lotIDs =
     db_ordered (scan_transactions I) (\<lambda>t. List.member lotIDs (txn_LotID t)) (\<lambda>t. [uint (txn_LotID t), txn_CreatedAt t, uint (txn_ID t)])"

definition loadIntegrityLotAllocations ::
    "integ_env \<Rightarrow> uint64 list \<Rightarrow>
     (integ_world, go_error, RedemptionAllocation list \<times> GiftAllocation list \<times> RefundAllocation list) go" where
  "loadIntegrityLotAllocations I lotIDs =
     (if lotIDs = [] then go_ok ([], [], [])
      else go_bind (wrap_error ''load redemption allocations for reconciliation: ''
             (db_find (scan_redemption_allocations I) (\<lambda>a. List.member lotIDs (ra_LotID a)))) (\<lambda>redemptions.
           go_bind (wrap_error ''load gift allocations for reconciliation: ''
             (db_find (scan_gift_allocations I) (\<lambda>a. List.member lotIDs (ga_SourceLotID a)))) (\<lambda>gs.
           go_bind (wrap_error ''load refund allocations for reconciliation: ''
             (db_find (scan_refund_allocations I) (\<lambda>a. List.member lotIDs (fa_LotID a)))) (\<lambda>refunds.
             go_ok (redemptions, gs, refunds)))))"

text \<open>Both checks of a lot. The maps the code builds by appending keep, for every lot, its rows in the order they were read.\<close>

definition lot_discrepancies ::
    "Transaction list \<Rightarrow> RedemptionAllocation list \<times> GiftAllocation list \<times> RefundAllocation list \<Rightarrow> Lot \<Rightarrow> reconciliationDiscrepancy list" where
  "lot_discrepancies entries allocations lot =
     (case allocations of (redemptions, gs, refunds) \<Rightarrow>
        (case checkLotReplay lot (filter (\<lambda>t. txn_LotID t = lot_ID lot) entries) of None \<Rightarrow> [] | Some d \<Rightarrow> [d]) @
        (case checkLotAllocationProjection lot (filter (\<lambda>a. ra_LotID a = lot_ID lot) redemptions)
                (filter (\<lambda>a. ga_SourceLotID a = lot_ID lot) gs) (filter (\<lambda>a. fa_LotID a = lot_ID lot) refunds)
                (transactionFacts entries) of None \<Rightarrow> [] | Some d \<Rightarrow> [d]))"

definition scanLots :: "integ_env \<Rightarrow> uint64 \<Rightarrow> uint64 option \<Rightarrow> int \<Rightarrow> (integ_world, go_error, scan_result) go" where
  "scanLots I afterID upperID limit =
     go_bind (listIntegrityLots I afterID upperID limit) (\<lambda>ls.
       if ls = [] then go_ok (0, afterID, [])
       else let lotIDs = map lot_ID ls in
         go_bind (listIntegrityLotTransactions I lotIDs) (\<lambda>entries.
         go_bind (loadIntegrityLotAllocations I lotIDs) (\<lambda>allocations.
           go_ok (int (length ls), lot_ID (last ls), concat (map (lot_discrepancies entries allocations) ls)))))"

subsection \<open>Gifts\<close>

record reconciliationGiftBatchFacts =
  gb_Allocations :: "uint64 \<Rightarrow> GiftAllocation list"
  gb_TransactionFacts :: transaction_facts
  gb_Lots :: "uint64 \<rightharpoonup> Lot"
  gb_RenewalsByLot :: "uint64 \<Rightarrow> Renewal list"

definition listIntegrityGifts :: "integ_env \<Rightarrow> uint64 \<Rightarrow> uint64 option \<Rightarrow> int \<Rightarrow> (integ_world, go_error, Gift list) go" where
  "listIntegrityGifts I afterID upperID limit =
     go_bind (db_ordered (scan_gifts I) (\<lambda>g. id_window afterID upperID (gf_ID g)) (\<lambda>g. [uint (gf_ID g)])) (\<lambda>rows.
       go_ok (gorm_limit limit rows))"

definition allocation_lots :: "GiftAllocation list \<Rightarrow> uint64 list" where
  "allocation_lots as = concat (map (\<lambda>a. ga_SourceLotID a # (case ga_ReceiverLotID a of None \<Rightarrow> [] | Some i \<Rightarrow> [i])) as)"

definition loadIntegrityGiftBatch :: "integ_env \<Rightarrow> Gift list \<Rightarrow> (integ_world, go_error, reconciliationGiftBatchFacts) go" where
  "loadIntegrityGiftBatch I gs =
     (if gs = [] then go_ok \<lparr>gb_Allocations = (\<lambda>_. []), gb_TransactionFacts = transactionFacts [], gb_Lots = Map.empty, gb_RenewalsByLot = (\<lambda>_. [])\<rparr>
      else let giftIDs = reconciliationUniqueIDs (map gf_ID gs) in
        go_bind (db_ordered (scan_gift_allocations I) (\<lambda>a. List.member giftIDs (ga_GiftID a)) (\<lambda>a. [uint (ga_GiftID a), uint (ga_ID a)]))
          (\<lambda>allocations.
        go_bind (db_find (scan_transactions I) (\<lambda>t. txn_BizType t = ''gift'' \<and> List.member giftIDs (txn_BizID t))) (\<lambda>entries.
          let batch = \<lparr>gb_Allocations = (\<lambda>i. filter (\<lambda>a. ga_GiftID a = i) allocations), gb_TransactionFacts = transactionFacts entries,
                       gb_Lots = Map.empty, gb_RenewalsByLot = (\<lambda>_. [])\<rparr>;
              lotIDs = reconciliationUniqueIDs (allocation_lots allocations)
          in if lotIDs = [] then go_ok batch
             else go_bind (db_find (scan_lots I) (\<lambda>l. List.member lotIDs (lot_ID l))) (\<lambda>ls.
               go_bind (db_ordered (scan_renewals I) (\<lambda>r. List.member lotIDs (rn_LotID r) \<and> rn_Status r = ''completed'')
                 (\<lambda>r. [uint (rn_LotID r), rn_CreatedAt r, uint (rn_ID r)])) (\<lambda>rs.
                 go_ok (batch\<lparr>gb_Lots := (\<lambda>i. List.find (\<lambda>l. lot_ID l = i) (rev ls)),
                              gb_RenewalsByLot := (\<lambda>i. filter (\<lambda>r. rn_LotID r = i) rs)\<rparr>))))))"

text \<open>\<open>expiry_chain\<close> is the loop: \<open>None\<close> where it returns false at once.\<close>

fun expiry_chain :: "go_time \<Rightarrow> Renewal list \<Rightarrow> go_time \<Rightarrow> go_time option" where
  "expiry_chain since [] expected = Some expected"
| "expiry_chain since (r # rs) expected =
     (if since \<noteq> 0 \<and> rn_CreatedAt r < since then expiry_chain since rs expected
      else if rn_OldExpiresAt r \<noteq> expected \<or> \<not> rn_OldExpiresAt r < rn_NewExpiresAt r then None
      else expiry_chain since rs (rn_NewExpiresAt r))"

definition reconciliationLotExpiryDescendsFromRows :: "Renewal list \<Rightarrow> go_time \<Rightarrow> go_time \<Rightarrow> go_time \<Rightarrow> bool" where
  "reconciliationLotExpiryDescendsFromRows rs initial current since \<longleftrightarrow> expiry_chain since rs initial = Some current"

definition gift_key :: "uint64 \<Rightarrow> string \<Rightarrow> uint64 \<Rightarrow> reconciliationTransactionKey" where
  "gift_key lotID kind giftID = \<lparr>rk_LotID = lotID, rk_TransactionType = kind, rk_BizType = ''gift'', rk_BizID = giftID\<rparr>"

text \<open>The checks of one allocation before and in the switch on its status. A lot that is missing makes the lineage invalid before a
  field of it is read.\<close>

definition source_lineage :: "Gift \<Rightarrow> reconciliationGiftBatchFacts \<Rightarrow> GiftAllocation \<Rightarrow> bool" where
  "source_lineage gift batch a \<longleftrightarrow>
     (case gb_Lots batch (ga_SourceLotID a) of None \<Rightarrow> False
      | Some source \<Rightarrow> lot_OwnerCustomerID source = gf_GiverCustomerID gift \<and> lot_IssuerMerchantID source = gf_IssuerMerchantID gift \<and>
          lot_ProductID source = gf_ProductID gift \<and> lot_RedeemCityCode source = gf_RedeemCityCode gift \<and>
          ga_Quantity a \<le> lot_TotalQuantity source) \<and>
     (let hold = gb_TransactionFacts batch (gift_key (ga_SourceLotID a) TransactionTypeGiftHold (gf_ID gift))
      in agg_Count hold = 1 \<and> agg_Delta hold = i64 (- sint (ga_Quantity a)))"

definition claimed_lineage :: "Gift \<Rightarrow> reconciliationGiftBatchFacts \<Rightarrow> GiftAllocation \<Rightarrow> bool" where
  "claimed_lineage gift batch a \<longleftrightarrow>
     (case ga_ReceiverLotID a of None \<Rightarrow> False
      | Some i \<Rightarrow> (case gb_Lots batch i of None \<Rightarrow> False
        | Some receiver \<Rightarrow>
            (let claim = gb_TransactionFacts batch (gift_key (lot_ID receiver) TransactionTypeGiftClaim (gf_ID gift))
             in gf_ReceiverCustomerID gift = Some (lot_OwnerCustomerID receiver) \<and>
                (case gb_Lots batch (ga_SourceLotID a) of None \<Rightarrow> lot_PurchaseID receiver = 0
                 | Some source \<Rightarrow> lot_PurchaseID receiver = lot_PurchaseID source) \<and>
                lot_SourceType receiver = LotSourceGift \<and> lot_SourceLotID receiver = Some (ga_SourceLotID a) \<and>
                lot_SourceGiftID receiver = Some (gf_ID gift) \<and> lot_IssuerMerchantID receiver = gf_IssuerMerchantID gift \<and>
                lot_ProductID receiver = gf_ProductID gift \<and> lot_RedeemCityCode receiver = gf_RedeemCityCode gift \<and>
                lot_TotalQuantity receiver = ga_Quantity a \<and>
                reconciliationLotExpiryDescendsFromRows (gb_RenewalsByLot batch (lot_ID receiver)) (ga_SourceExpiresAt a)
                  (lot_ExpiresAt receiver) (lot_CreatedAt receiver) \<and>
                agg_Count claim = 1 \<and> agg_Delta claim = sint (ga_Quantity a))))"

definition restored_lineage :: "Gift \<Rightarrow> reconciliationGiftBatchFacts \<Rightarrow> GiftAllocation \<Rightarrow> bool" where
  "restored_lineage gift batch a \<longleftrightarrow>
     (let restore = gb_TransactionFacts batch (gift_key (ga_SourceLotID a) TransactionTypeGiftRestore (gf_ID gift))
      in ga_ReceiverLotID a = None \<and> agg_Count restore = 1 \<and> agg_Delta restore = sint (ga_Quantity a))"

definition held_lineage :: "reconciliationGiftBatchFacts \<Rightarrow> GiftAllocation \<Rightarrow> bool" where
  "held_lineage batch a \<longleftrightarrow> ga_ReceiverLotID a = None \<and>
     (case gb_Lots batch (ga_SourceLotID a) of None \<Rightarrow> 0 | Some source \<Rightarrow> lot_ExpiresAt source) = ga_SourceExpiresAt a"

definition allocation_lineage :: "Gift \<Rightarrow> reconciliationGiftBatchFacts \<Rightarrow> GiftAllocation \<Rightarrow> bool" where
  "allocation_lineage gift batch a \<longleftrightarrow> source_lineage gift batch a \<and>
     (if ga_Status a = GiftAllocationStatusClaimed then claimed_lineage gift batch a
      else if ga_Status a = GiftAllocationStatusRestored then restored_lineage gift batch a
      else ga_Status a = GiftAllocationStatusHeld \<and> held_lineage batch a)"

definition gift_state_valid :: "Gift \<Rightarrow> GiftAllocation list \<Rightarrow> bool" where
  "gift_state_valid gift as \<longleftrightarrow>
     (let statuses = (\<lambda>s. length (filter (\<lambda>a. ga_Status a = s) as))
      in if gf_Status gift = GiftStatusPending
         then gf_ReceiverCustomerID gift = None \<and> statuses GiftAllocationStatusHeld = length as
         else if gf_Status gift = GiftStatusClaimed
         then gf_ReceiverCustomerID gift \<noteq> None \<and> gf_ReceiverCustomerID gift \<noteq> Some (gf_GiverCustomerID gift) \<and>
           statuses GiftAllocationStatusClaimed = length as
         else if gf_Status gift = GiftStatusCancelled \<or> gf_Status gift = GiftStatusExpiredReturned
         then gf_ReceiverCustomerID gift = None \<and> statuses GiftAllocationStatusRestored = length as
         else gf_Status gift = GiftStatusException)"

definition checkGiftFacts :: "Gift \<Rightarrow> reconciliationGiftBatchFacts \<Rightarrow> reconciliationDiscrepancy option" where
  "checkGiftFacts gift batch =
     (let as = gb_Allocations batch (gf_ID gift);
          allocationQuantity = fold (\<lambda>a n. n + ga_Quantity a) as (0 :: uint64);
          lineageValid = list_all (allocation_lineage gift batch) as;
          stateValid = gift_state_valid gift as
      in if as \<noteq> [] \<and> allocationQuantity = gf_Quantity gift \<and> lineageValid \<and> stateValid then None
         else Some \<lparr>dis_Rule = reconciliationRuleGift, dis_Kind = ''gift_conservation'', dis_BizType = ''wine_ticket_gift'',
           dis_BizID = gf_ID gift, dis_BizNo = Some (gf_GiftNo gift), dis_IssuerMerchantID = Some (gf_IssuerMerchantID gift),
           dis_Severity = ''P1'',
           dis_Expected = JObject [
             (''quantity'', JInt (uint (gf_Quantity gift))),
             (''single_receiver'', JBool True),
             (''allocation_lineage'', JBool True),
             (''state_conservation'', JBool True)],
           dis_Actual = JObject [
             (''status'', JString (gf_Status gift)),
             (''allocation_count'', JInt (int (length as))),
             (''allocation_quantity'', JInt (uint allocationQuantity)),
             (''allocation_statuses'', JObject (map (\<lambda>s. (s, JInt (int (length (filter (\<lambda>a. ga_Status a = s) as)))))
               (remdups (map ga_Status as)))),
             (''receiver_customer_id'', case gf_ReceiverCustomerID gift of None \<Rightarrow> JNull | Some c \<Rightarrow> JInt (uint c)),
             (''allocation_lineage'', JBool lineageValid),
             (''state_conservation'', JBool stateValid)]\<rparr>)"

definition scanGifts :: "integ_env \<Rightarrow> uint64 \<Rightarrow> uint64 option \<Rightarrow> int \<Rightarrow> (integ_world, go_error, scan_result) go" where
  "scanGifts I afterID upperID limit =
     go_bind (listIntegrityGifts I afterID upperID limit) (\<lambda>gs.
     go_bind (loadIntegrityGiftBatch I gs) (\<lambda>batch.
       let discrepancies = concat (map (\<lambda>g. case checkGiftFacts g batch of None \<Rightarrow> [] | Some d \<Rightarrow> [d]) gs)
       in if gs = [] then go_ok (0, afterID, discrepancies)
          else go_ok (int (length gs), gf_ID (last gs), discrepancies)))"

subsection \<open>One batch\<close>

definition defaultIntegrityBatchSize :: int where "defaultIntegrityBatchSize = 250"
definition maxIntegrityBatchSize :: int where "maxIntegrityBatchSize = 2000"

definition scan_phase :: "integ_env \<Rightarrow> string \<Rightarrow> uint64 \<Rightarrow> uint64 option \<Rightarrow> int \<Rightarrow> (integ_world, go_error, scan_result) go" where
  "scan_phase I phase afterID upperID limit =
     (if phase = IntegrityPhaseLots then scanLots I afterID upperID limit
      else if phase = IntegrityPhaseGifts then scanGifts I afterID upperID limit
      else if List.member reconciliationPhases phase then go_read (ig_scan I phase afterID upperID limit)
      else go_err (ErrMessage (''unsupported wine-ticket reconciliation phase '' @ go_quoted phase)))"

definition batch_result :: "IntegrityCursor \<Rightarrow> int \<Rightarrow> int \<Rightarrow> uint64 \<Rightarrow> reconciliationDiscrepancy list \<Rightarrow> IntegrityBatchResult" where
  "batch_result cursor batchSize checked lastID discrepancies =
     (let phaseCompleted = (checked < batchSize \<or> (case cur_UpperID cursor of None \<Rightarrow> False | Some u \<Rightarrow> u \<le> lastID))
      in case nextIntegrityCursor (cur_Phase cursor) lastID phaseCompleted (cur_UpperID cursor) of (after, cycleCompleted) \<Rightarrow>
        \<lparr>br_Phase = cur_Phase cursor, br_Checked = checked, br_Detected = int (length discrepancies), br_NextCursor = after,
         br_PhaseCompleted = phaseCompleted, br_CycleCompleted = cycleCompleted, br_CycleKey = [], br_LeaseAcquired = False,
         br_NextRunAt = None\<rparr>)"

definition scanBatchFacts ::
    "integ_env \<Rightarrow> IntegrityCursor \<Rightarrow> int \<Rightarrow>
     (integ_world, go_error, IntegrityBatchResult \<times> reconciliationDiscrepancy list \<times> go_time) go" where
  "scanBatchFacts I cursor0 batchSize0 =
     (case normalizeIntegrityCursor cursor0 of Inl e \<Rightarrow> go_err e
      | Inr cursor \<Rightarrow>
          if \<not> ig_db I then go_err (ErrMessage ''wine-ticket reconciliation service is unavailable'')
          else let batchSize = (if batchSize0 = 0 then defaultIntegrityBatchSize else batchSize0) in
            if batchSize < 1 \<or> maxIntegrityBatchSize < batchSize
            then go_err (ErrMessage (''wine-ticket reconciliation batch size must be between 1 and '' @ format_int maxIntegrityBatchSize))
            else go_bind (integ_tx I (scan_phase I (cur_Phase cursor) (cur_LastID cursor) (cur_UpperID cursor) batchSize)) (\<lambda>(checked, lastID, found).
              let discrepancies = deduplicateIntegrityDiscrepancies found in
              go_bind (on_facts nowShanghai) (\<lambda>detectedAt.
                go_ok (batch_result cursor batchSize checked lastID discrepancies, discrepancies, detectedAt))))"

end
