(* ===== verification/Integrity_Worker.thy ===== *)
theory Integrity_Worker
  imports Integrity_Checks
begin

text \<open>
  What the reconciliation writes: the exceptions of \<open>repository.go\<close>, the checkpoint of \<open>checkpoint.go\<close> that workers claim, advance and
  release, and \<open>RunOnce\<close> of \<open>worker.go\<close>, which composes a claim, a scan and the recording of its outcome. A worker is a record; its
  mutex makes \<open>RunOnce\<close> one step of it. The loop \<open>Run\<close> with its timers is not modelled.
\<close>

subsection \<open>Exceptions\<close>

definition reconciliationSnapshot :: "integ_env \<Rightarrow> json \<Rightarrow> go_error + string" where
  "reconciliationSnapshot I value =
     (if value = JNull then Inr ''null''
      else case ig_marshal I value of
        Inl e \<Rightarrow> Inl (ErrMessage (''marshal reconciliation snapshot: '' @ error_text e)) | Inr raw \<Rightarrow> Inr raw)"

definition exception_of :: "string \<Rightarrow> string \<Rightarrow> uint64 \<Rightarrow> Exception \<Rightarrow> bool" where
  "exception_of kind bizType bizID e \<longleftrightarrow>
     ex_ExceptionType e = kind \<and> ex_BizType e = bizType \<and> ex_BizID e = bizID \<and> exception_active e"

definition exception_seen :: "reconciliationDiscrepancy \<Rightarrow> string \<Rightarrow> string \<Rightarrow> string \<Rightarrow> go_time \<Rightarrow> Exception \<Rightarrow> Exception" where
  "exception_seen d severity expected actual detectedAt e =
     e\<lparr>ex_BizNo := dis_BizNo d, ex_IssuerMerchantID := dis_IssuerMerchantID d, ex_SourceType := ''wine_ticket_reconciliation'',
       ex_SourceID := Some (dis_BizID d), ex_CorrelationID := Some (dis_Rule d), ex_Severity := severity,
       ex_ExpectedSnapshot := expected, ex_ActualSnapshot := actual, ex_OccurrenceCount := ex_OccurrenceCount e + 1,
       ex_LastDetectedAt := detectedAt, ex_Version := ex_Version e + 1, ex_UpdatedAt := detectedAt\<rparr>"

definition new_exception :: "uint64 \<Rightarrow> reconciliationDiscrepancy \<Rightarrow> string \<Rightarrow> string \<Rightarrow> string \<Rightarrow> go_time \<Rightarrow> Exception" where
  "new_exception i d severity expected actual detectedAt =
     \<lparr>ex_ID = i, ex_ExceptionNo = ''WTEX'' @ IDString i, ex_ExceptionType = exceptionType d, ex_BizType = dis_BizType d,
      ex_BizID = dis_BizID d, ex_BizNo = dis_BizNo d, ex_IssuerMerchantID = dis_IssuerMerchantID d,
      ex_SourceType = ''wine_ticket_reconciliation'', ex_SourceID = Some (dis_BizID d), ex_CorrelationID = Some (dis_Rule d),
      ex_Severity = severity, ex_Status = ExceptionStatusInvestigating, ex_ExpectedSnapshot = expected, ex_ActualSnapshot = actual,
      ex_ProposedAction = None, ex_ProposedReason = None, ex_ReviewTicketNo = None, ex_ProposedBy = None, ex_ProposedAt = None,
      ex_ReviewDecision = None, ex_ReviewNote = None, ex_ReviewedBy = None, ex_ReviewedAt = None, ex_ResolutionResult = ''null'',
      ex_OccurrenceCount = 1, ex_FirstDetectedAt = detectedAt, ex_LastDetectedAt = detectedAt, ex_ResolvedAt = None, ex_Version = 1,
      ex_CreatedAt = detectedAt, ex_UpdatedAt = detectedAt\<rparr>"

definition upsertActiveException :: "integ_env \<Rightarrow> reconciliationDiscrepancy \<Rightarrow> go_time \<Rightarrow> (integ_world, go_error, unit) go" where
  "upsertActiveException I d detectedAt =
     (if dis_BizID d = 0 \<or> dis_BizType d = [] \<or> dis_Rule d = [] \<or> dis_Kind d = []
      then go_err (ErrMessage ''invalid wine-ticket reconciliation discrepancy'')
      else case reconciliationSnapshot I (dis_Expected d) of Inl e \<Rightarrow> go_err e
      | Inr expected \<Rightarrow>
        (case reconciliationSnapshot I (dis_Actual d) of Inl e \<Rightarrow> go_err e
         | Inr actual \<Rightarrow>
             let severity = (if dis_Severity d = [] then ''P1'' else dis_Severity d) in
             go_bind (go_try (db_take (exception_tbl I) (exception_of (exceptionType d) (dis_BizType d) (dis_BizID d)))) (\<lambda>existing.
               case existing of
                 Inr e \<Rightarrow>
                   go_bind (db_updates (exception_tbl I) (\<lambda>r. ex_ID r = ex_ID e \<and> ex_Version r = ex_Version e \<and> exception_active r)
                     (exception_seen d severity expected actual detectedAt)) (\<lambda>n.
                     if n \<noteq> 1 then go_err (ErrMessage (''wine-ticket active exception '' @ IDString (ex_ID e) @ '' changed concurrently''))
                     else go_ok ())
               | Inl err \<Rightarrow>
                   if err \<noteq> ErrRecordNotFound then go_err err
                   else go_bind (on_facts ids_Next) (\<lambda>i. db_create (exception_tbl I) (new_exception i d severity expected actual detectedAt)))))"

definition persistDiscrepanciesWithTx ::
    "integ_env \<Rightarrow> reconciliationDiscrepancy list \<Rightarrow> go_time \<Rightarrow> (integ_world, go_error, unit) go" where
  "persistDiscrepanciesWithTx I rows detectedAt = go_for (\<lambda>d _. upsertActiveException I d detectedAt) rows ()"

definition persistDiscrepancies :: "integ_env \<Rightarrow> reconciliationDiscrepancy list \<Rightarrow> go_time \<Rightarrow> (integ_world, go_error, unit) go" where
  "persistDiscrepancies I rows detectedAt =
     (if rows = [] then go_ok ()
      else if \<not> ig_db I \<or> \<not> ig_ids I then go_err (ErrMessage ''wine-ticket reconciliation exception store is unavailable'')
      else let attempt = integ_tx I (persistDiscrepanciesWithTx I rows detectedAt) in
        go_bind (go_try attempt) (\<lambda>first.
          case first of
            Inr _ \<Rightarrow> go_ok ()
          | Inl err \<Rightarrow> go_bind (go_try attempt) (\<lambda>second.
              case second of Inr _ \<Rightarrow> go_ok () | Inl retryErr \<Rightarrow> go_err (errors_Join err retryErr))))"

definition ScanBatch :: "integ_env \<Rightarrow> IntegrityCursor \<Rightarrow> int \<Rightarrow> (integ_world, go_error, IntegrityBatchResult) go" where
  "ScanBatch I cursor batchSize =
     go_bind (scanBatchFacts I cursor batchSize) (\<lambda>(result, discrepancies, detectedAt).
     go_bind (persistDiscrepancies I discrepancies detectedAt) (\<lambda>_. go_ok result))"

subsection \<open>The business day\<close>

definition nanos_per_day :: int where "nanos_per_day = 24 * 60 * 60 * nanos_per_second"
definition shanghai_offset :: int where "shanghai_offset = 8 * 60 * 60 * nanos_per_second"

text \<open>The civil date of a day counted from January 1 of year 1, in the Gregorian calendar, and its text \<open>2006-01-02\<close>.\<close>

definition civil_date :: "int \<Rightarrow> int \<times> int \<times> int" where
  "civil_date days =
     (let z = days + 306;
          era = z div 146097; doe = z mod 146097;
          yoe = (doe - doe div 1460 + doe div 36524 - doe div 146096) div 365;
          doy = doe - (365 * yoe + yoe div 4 - yoe div 100);
          mp = (5 * doy + 2) div 153;
          d = doy - (153 * mp + 2) div 5 + 1;
          m = (if mp < 10 then mp + 3 else mp - 9)
      in (yoe + era * 400 + (if m \<le> 2 then 1 else 0), m, d))"

definition pad_int :: "nat \<Rightarrow> int \<Rightarrow> string" where
  "pad_int width i = (let s = format_uint (nat \<bar>i\<bar>) in (if i < 0 then ''-'' else []) @ replicate (width - length s) CHR ''0'' @ s)"

definition format_day :: "int \<Rightarrow> string" where
  "format_day days = (case civil_date days of (y, m, d) \<Rightarrow> pad_int 4 y @ ''-'' @ pad_int 2 m @ ''-'' @ pad_int 2 d)"

definition shanghai_day :: "go_time \<Rightarrow> int" where
  "shanghai_day t = (t + shanghai_offset) div nanos_per_day"

definition shanghai_midnight :: "go_time \<Rightarrow> go_time" where
  "shanghai_midnight t = shanghai_day t * nanos_per_day - shanghai_offset"

definition reconciliationDueCycle :: "go_time \<Rightarrow> int \<Rightarrow> string \<times> go_time" where
  "reconciliationDueCycle now dailyStart =
     (let start = shanghai_midnight now + dailyStart
      in if now < start then (format_day (shanghai_day now - 2), start)
         else (format_day (shanghai_day now - 1), start + nanos_per_day))"

subsection \<open>Checkpoints\<close>

definition reconciliationCheckpointRunning :: string where "reconciliationCheckpointRunning = ''running''"
definition reconciliationCheckpointCompleted :: string where "reconciliationCheckpointCompleted = ''completed''"
definition defaultIntegrityDailyStart :: int where "defaultIntegrityDailyStart = 5 * 60 * nanos_per_second"
definition defaultIntegrityLease :: int where "defaultIntegrityLease = 5 * 60 * nanos_per_second"
definition maxIntegrityCheckpointOwner :: nat where "maxIntegrityCheckpointOwner = 128"

record reconciliationCheckpointClaim =
  ck_CycleKey :: string
  ck_Cursor :: IntegrityCursor
  ck_HighWatermarks :: "string \<rightharpoonup> uint64"
  ck_Owner :: string
  ck_Version :: go_uint

record reconciliationClaimResult =
  cr_Claim :: "reconciliationCheckpointClaim option"
  cr_Cursor :: IntegrityCursor
  cr_WaitUntil :: go_time

definition hex_char :: "nat \<Rightarrow> char" where
  "hex_char n = (if n < 10 then char_of (48 + n) else char_of (87 + n))"

definition hex_EncodeToString :: "string \<Rightarrow> string" where
  "hex_EncodeToString bytes = concat (map (\<lambda>c. [hex_char (of_char c div 16), hex_char (of_char c mod 16)]) bytes)"

definition normalizeIntegrityOwner :: "integ_env \<Rightarrow> string \<Rightarrow> string" where
  "normalizeIntegrityOwner I owner =
     (if length (runes owner) \<le> maxIntegrityCheckpointOwner then owner
      else let suffix = '':'' @ hex_EncodeToString (take 8 (ig_sha256 I owner))
           in concat (map rune_string (take (maxIntegrityCheckpointOwner - length suffix) (runes owner))) @ suffix)"

definition reconciliation_tables :: "string \<Rightarrow> string" where
  "reconciliation_tables phase =
     (if phase = IntegrityPhasePayments then ''payments''
      else if phase = IntegrityPhasePurchases then ''wine_ticket_purchases''
      else if phase = IntegrityPhaseLots then ''wine_ticket_lots''
      else if phase = IntegrityPhaseRedemptions then ''wine_ticket_redemptions''
      else if phase = IntegrityPhaseGifts then ''wine_ticket_gifts''
      else if phase = IntegrityPhaseRenewals then ''wine_ticket_renewals''
      else if phase = IntegrityPhaseRefunds then ''wine_ticket_refunds''
      else if phase = IntegrityPhaseSlots then ''delivery_time_slots''
      else if phase = IntegrityPhaseReminders then ''wine_ticket_reminders'' else [])"

definition captureHighWatermarks :: "integ_env \<Rightarrow> (integ_world, go_error, (string \<times> uint64) list) go" where
  "captureHighWatermarks I =
     go_for (\<lambda>phase acc.
       go_bind (wrap_error (''capture wine-ticket reconciliation '' @ phase @ '' high watermark: '')
         (go_read (ig_maxID I (reconciliation_tables phase)))) (\<lambda>highID. go_ok (acc @ [(phase, highID)])))
       reconciliationPhases []"

definition checkpoint_seed :: "string \<Rightarrow> IntegrityCursor \<Rightarrow> string \<Rightarrow> go_time \<Rightarrow> Checkpoint" where
  "checkpoint_seed cycleKey initialCursor marks now =
     \<lparr>cp_CycleKey = cycleKey, cp_Status = reconciliationCheckpointRunning, cp_Phase = cur_Phase initialCursor,
      cp_LastID = cur_LastID initialCursor, cp_HighWatermarks = marks, cp_CheckedRows = 0, cp_DetectedRows = 0, cp_LeaseOwner = None,
      cp_LeaseUntil = None, cp_StartedAt = now, cp_LastBatchAt = None, cp_CompletedAt = None, cp_Version = 1, cp_CreatedAt = now,
      cp_UpdatedAt = now\<rparr>"

definition seed_checkpoint :: "integ_env \<Rightarrow> string \<Rightarrow> IntegrityCursor \<Rightarrow> go_time \<Rightarrow> (integ_world, go_error, unit) go" where
  "seed_checkpoint I cycleKey initialCursor now =
     go_bind (go_try (db_take (checkpoint_tbl I) (\<lambda>c. cp_CycleKey c = cycleKey))) (\<lambda>existing.
       case existing of
         Inr _ \<Rightarrow> go_ok ()
       | Inl err \<Rightarrow>
           if err \<noteq> ErrRecordNotFound then go_err err
           else go_bind (captureHighWatermarks I) (\<lambda>highWatermarks.
             case ig_marks I highWatermarks of Inl e \<Rightarrow> go_err e
             | Inr raw \<Rightarrow> go_bind (db_create_ignore (checkpoint_tbl I) (checkpoint_seed cycleKey initialCursor raw now)) (\<lambda>_. go_ok ())))"

definition checkpoint_leased :: "string \<Rightarrow> go_time \<Rightarrow> Checkpoint \<Rightarrow> bool" where
  "checkpoint_leased owner now row \<longleftrightarrow>
     cp_LeaseOwner row \<noteq> None \<and> cp_LeaseOwner row \<noteq> Some owner \<and> (case cp_LeaseUntil row of None \<Rightarrow> False | Some t \<Rightarrow> now < t)"

definition checkpoint_claimed :: "string \<Rightarrow> go_time \<Rightarrow> go_uint \<Rightarrow> go_time \<Rightarrow> Checkpoint \<Rightarrow> Checkpoint" where
  "checkpoint_claimed owner leaseUntil nextVersion now row =
     row\<lparr>cp_Status := reconciliationCheckpointRunning, cp_LeaseOwner := Some owner, cp_LeaseUntil := Some leaseUntil,
         cp_Version := nextVersion, cp_UpdatedAt := now\<rparr>"

definition checkpoint_cursor :: "integ_env \<Rightarrow> Checkpoint \<Rightarrow> go_error + (IntegrityCursor \<times> (string \<rightharpoonup> uint64))" where
  "checkpoint_cursor I row =
     (case normalizeIntegrityCursor \<lparr>cur_Phase = cp_Phase row, cur_LastID = cp_LastID row, cur_UpperID = None\<rparr> of
        Inl e \<Rightarrow> Inl (ErrMessage (''invalid persisted wine-ticket reconciliation cursor: '' @ error_text e))
      | Inr cursor \<Rightarrow>
          (case ig_unmarks I (cp_HighWatermarks row) of
             Inl e \<Rightarrow> Inl (ErrMessage (''invalid wine-ticket reconciliation high watermarks: '' @ error_text e))
           | Inr highWatermarks \<Rightarrow>
               (case highWatermarks (cur_Phase cursor) of
                  None \<Rightarrow> Inl (ErrMessage (''wine-ticket reconciliation high watermark missing for '' @ cur_Phase cursor))
                | Some u \<Rightarrow> Inr (cursor\<lparr>cur_UpperID := Some u\<rparr>, highWatermarks))))"

definition take_checkpoint ::
    "integ_env \<Rightarrow> string \<Rightarrow> string \<Rightarrow> go_time \<Rightarrow> go_time \<Rightarrow> go_time \<Rightarrow> (integ_world, go_error, reconciliationClaimResult) go" where
  "take_checkpoint I cycleKey owner now leaseUntil nextCycleStart =
     go_bind (db_take (checkpoint_tbl I) (\<lambda>c. cp_CycleKey c = cycleKey)) (\<lambda>row.
       case checkpoint_cursor I row of Inl e \<Rightarrow> go_err e
       | Inr (cursor, highWatermarks) \<Rightarrow>
           if cp_Status row = reconciliationCheckpointCompleted
           then go_ok \<lparr>cr_Claim = None, cr_Cursor = cursor, cr_WaitUntil = nextCycleStart\<rparr>
           else if checkpoint_leased owner now row
           then go_ok \<lparr>cr_Claim = None, cr_Cursor = cursor, cr_WaitUntil = the (cp_LeaseUntil row)\<rparr>
           else let nextVersion = cp_Version row + 1 in
             go_bind (db_updates (checkpoint_tbl I) (\<lambda>c. cp_CycleKey c = cycleKey \<and> cp_Version c = cp_Version row)
               (checkpoint_claimed owner leaseUntil nextVersion now)) (\<lambda>n.
               if n \<noteq> 1 then go_err (ErrMessage (''wine-ticket reconciliation checkpoint '' @ cycleKey @ '' changed concurrently''))
               else go_ok \<lparr>cr_Claim = Some \<lparr>ck_CycleKey = cycleKey, ck_Cursor = cursor, ck_HighWatermarks = highWatermarks,
                             ck_Owner = owner, ck_Version = nextVersion\<rparr>, cr_Cursor = cursor, cr_WaitUntil = 0\<rparr>))"

definition claimCheckpoint ::
    "integ_env \<Rightarrow> string \<Rightarrow> string \<Rightarrow> go_time \<Rightarrow> int \<Rightarrow> go_time \<Rightarrow> IntegrityCursor \<Rightarrow>
     (integ_world, go_error, reconciliationClaimResult) go" where
  "claimCheckpoint I cycleKey owner0 now0 leaseDuration nextCycleStart initialCursor0 =
     (if \<not> ig_db I then go_err (ErrMessage ''wine-ticket reconciliation checkpoint store is unavailable'')
      else let owner = normalizeIntegrityOwner I owner0 in
        if cycleKey = [] \<or> owner = [] \<or> leaseDuration \<le> 0
        then go_err (ErrMessage ''invalid wine-ticket reconciliation checkpoint claim'')
        else let now = truncate_to nanos_per_milli now0; leaseUntil = now + leaseDuration in
          case normalizeIntegrityCursor initialCursor0 of Inl e \<Rightarrow> go_err e
          | Inr initialCursor \<Rightarrow>
              go_bind (seed_checkpoint I cycleKey initialCursor now) (\<lambda>_.
                integ_tx I (take_checkpoint I cycleKey owner now leaseUntil nextCycleStart)))"

definition checkpoint_held :: "reconciliationCheckpointClaim \<Rightarrow> Checkpoint \<Rightarrow> bool" where
  "checkpoint_held claim row \<longleftrightarrow>
     cp_CycleKey row = ck_CycleKey claim \<and> cp_Version row = ck_Version claim \<and> cp_LeaseOwner row = Some (ck_Owner claim)"

definition checkpoint_advanced :: "IntegrityBatchResult \<Rightarrow> go_time \<Rightarrow> Checkpoint \<Rightarrow> Checkpoint" where
  "checkpoint_advanced result detectedAt row =
     row\<lparr>cp_Status := (if br_CycleCompleted result then reconciliationCheckpointCompleted else reconciliationCheckpointRunning),
         cp_Phase := cur_Phase (br_NextCursor result), cp_LastID := cur_LastID (br_NextCursor result),
         cp_CheckedRows := cp_CheckedRows row + of_int (br_Checked result),
         cp_DetectedRows := cp_DetectedRows row + of_int (br_Detected result), cp_LeaseOwner := None, cp_LeaseUntil := None,
         cp_LastBatchAt := Some detectedAt, cp_CompletedAt := (if br_CycleCompleted result then Some detectedAt else None),
         cp_Version := cp_Version row + 1, cp_UpdatedAt := detectedAt\<rparr>"

definition advance_checkpoint ::
    "integ_env \<Rightarrow> reconciliationCheckpointClaim \<Rightarrow> IntegrityBatchResult \<Rightarrow> reconciliationDiscrepancy list \<Rightarrow> go_time \<Rightarrow>
     (integ_world, go_error, unit) go" where
  "advance_checkpoint I claim result rows detectedAt =
     go_bind (db_take (checkpoint_tbl I) (\<lambda>c. cp_CycleKey c = ck_CycleKey claim)) (\<lambda>checkpoint.
       if cp_Status checkpoint \<noteq> reconciliationCheckpointRunning \<or> cp_LeaseOwner checkpoint \<noteq> Some (ck_Owner claim) \<or>
          cp_Version checkpoint \<noteq> ck_Version claim
       then go_err (ErrMessage (''wine-ticket reconciliation checkpoint '' @ ck_CycleKey claim @ '' lease was lost''))
       else go_bind (persistDiscrepanciesWithTx I rows detectedAt) (\<lambda>_.
            go_bind (db_updates (checkpoint_tbl I) (checkpoint_held claim) (checkpoint_advanced result detectedAt)) (\<lambda>n.
              if n \<noteq> 1 then go_err (ErrMessage (''wine-ticket reconciliation checkpoint '' @ ck_CycleKey claim @ '' advance was lost''))
              else go_ok ())))"

definition persistClaimedBatch ::
    "integ_env \<Rightarrow> reconciliationCheckpointClaim \<Rightarrow> IntegrityBatchResult \<Rightarrow> reconciliationDiscrepancy list \<Rightarrow> go_time \<Rightarrow>
     (integ_world, go_error, unit) go" where
  "persistClaimedBatch I claim result rows detectedAt =
     (if \<not> ig_db I then go_err (ErrMessage ''wine-ticket reconciliation checkpoint store is unavailable'')
      else integ_tx I (advance_checkpoint I claim result rows detectedAt))"

definition checkpoint_freed :: "go_time \<Rightarrow> Checkpoint \<Rightarrow> Checkpoint" where
  "checkpoint_freed now row =
     row\<lparr>cp_LeaseOwner := None, cp_LeaseUntil := None, cp_Version := cp_Version row + 1, cp_UpdatedAt := truncate_to nanos_per_milli now\<rparr>"

definition releaseCheckpoint :: "integ_env \<Rightarrow> reconciliationCheckpointClaim \<Rightarrow> go_time \<Rightarrow> (integ_world, go_error, unit) go" where
  "releaseCheckpoint I claim now =
     (if \<not> ig_db I then go_ok ()
      else go_bind (go_try (db_updates (checkpoint_tbl I) (checkpoint_held claim) (checkpoint_freed now))) (\<lambda>updated.
        case updated of Inr _ \<Rightarrow> go_ok ()
        | Inl e \<Rightarrow> if e \<noteq> ErrMessage ''context canceled'' then go_err e else go_ok ()))"

subsection \<open>The worker\<close>

record IntegrityWorker =
  iw_owner :: string
  iw_cursor :: IntegrityCursor
  iw_batchSize :: int
  iw_batchInterval :: int
  iw_sweepInterval :: int
  iw_errorBackoff :: int
  iw_dailyStart :: int
  iw_leaseDuration :: int

definition NewIntegrityWorker :: "uint64 option \<Rightarrow> IntegrityWorker" where
  "NewIntegrityWorker nextID =
     \<lparr>iw_owner = ''wine-ticket-reconciliation'' @ (case nextID of None \<Rightarrow> [] | Some i \<Rightarrow> '':'' @ IDString i),
      iw_cursor = \<lparr>cur_Phase = IntegrityPhasePayments, cur_LastID = 0, cur_UpperID = None\<rparr>,
      iw_batchSize = defaultIntegrityBatchSize, iw_batchInterval = 100 * nanos_per_milli, iw_sweepInterval = 15 * 60 * nanos_per_second,
      iw_errorBackoff = 5 * nanos_per_second, iw_dailyStart = defaultIntegrityDailyStart, iw_leaseDuration = defaultIntegrityLease\<rparr>"

definition ConfigureBounds :: "int \<Rightarrow> int \<Rightarrow> int \<Rightarrow> IntegrityWorker \<Rightarrow> IntegrityWorker" where
  "ConfigureBounds batchSize batchInterval sweepInterval k =
     (let k = (if 0 < batchSize \<and> batchSize \<le> maxIntegrityBatchSize then k\<lparr>iw_batchSize := batchSize\<rparr> else k);
          k = (if 0 < batchInterval then k\<lparr>iw_batchInterval := batchInterval\<rparr> else k)
      in if 0 < sweepInterval then k\<lparr>iw_sweepInterval := sweepInterval\<rparr> else k)"

definition WithOwner :: "integ_env \<Rightarrow> string \<Rightarrow> IntegrityWorker \<Rightarrow> IntegrityWorker" where
  "WithOwner I owner k = (if owner \<noteq> [] then k\<lparr>iw_owner := normalizeIntegrityOwner I (owner @ '':'' @ iw_owner k)\<rparr> else k)"

definition ConfigureSchedule :: "integ_env \<Rightarrow> string \<Rightarrow> int \<Rightarrow> int \<Rightarrow> IntegrityWorker \<Rightarrow> IntegrityWorker" where
  "ConfigureSchedule I owner dailyStart leaseDuration k =
     (let k = (if owner \<noteq> [] then k\<lparr>iw_owner := normalizeIntegrityOwner I (owner @ '':'' @ iw_owner k)\<rparr> else k);
          k = (if 0 \<le> dailyStart \<and> dailyStart < nanos_per_day then k\<lparr>iw_dailyStart := dailyStart\<rparr> else k)
      in if 0 < leaseDuration then k\<lparr>iw_leaseDuration := leaseDuration\<rparr> else k)"

definition on_db :: "('w, 'e, 'a) go \<Rightarrow> (IntegrityWorker \<times> 'w, 'e, 'a) go" where
  "on_db m kw = (case m (snd kw) of (r, w) \<Rightarrow> (r, (fst kw, w)))"

definition set_cursor :: "IntegrityCursor \<Rightarrow> (IntegrityWorker \<times> 'w, 'e, unit) go" where
  "set_cursor c kw = (Inr (), ((fst kw)\<lparr>iw_cursor := c\<rparr>, snd kw))"

text \<open>Giving up a claimed batch: the checkpoint is released, whether that works or not, and the error is returned.\<close>

definition give_up :: "integ_env \<Rightarrow> reconciliationCheckpointClaim \<Rightarrow> go_time \<Rightarrow> go_error \<Rightarrow> (integ_world, go_error, 'a) go" where
  "give_up I claim now err = go_bind (go_try (releaseCheckpoint I claim now)) (\<lambda>_. go_err err)"

text \<open>The upper bound of the phase the next batch scans, for a cycle that goes on.\<close>

definition bounded_result :: "reconciliationCheckpointClaim \<Rightarrow> IntegrityBatchResult \<Rightarrow> go_error + IntegrityBatchResult" where
  "bounded_result claim result =
     (if br_CycleCompleted result then Inr result
      else case ck_HighWatermarks claim (cur_Phase (br_NextCursor result)) of
        None \<Rightarrow> Inl (ErrMessage (''wine-ticket reconciliation high watermark missing for '' @ cur_Phase (br_NextCursor result)))
      | Some u \<Rightarrow> Inr (result\<lparr>br_NextCursor := (br_NextCursor result)\<lparr>cur_UpperID := Some u\<rparr>\<rparr>))"

definition run_claimed ::
    "integ_env \<Rightarrow> reconciliationCheckpointClaim \<Rightarrow> int \<Rightarrow> go_time \<Rightarrow> (integ_world, go_error, IntegrityBatchResult) go" where
  "run_claimed I claim batchSize now =
     go_bind (go_try (scanBatchFacts I (ck_Cursor claim) batchSize)) (\<lambda>scanned.
       case scanned of Inl err \<Rightarrow> give_up I claim now err
       | Inr (result0, discrepancies, detectedAt) \<Rightarrow>
           (case bounded_result claim result0 of Inl err \<Rightarrow> give_up I claim now err
            | Inr result \<Rightarrow>
                go_bind (go_try (persistClaimedBatch I claim result discrepancies detectedAt)) (\<lambda>persisted.
                  case persisted of Inl err \<Rightarrow> give_up I claim now err | Inr _ \<Rightarrow> go_ok result)))"

definition RunOnce :: "integ_env \<Rightarrow> (IntegrityWorker \<times> integ_world, go_error, IntegrityBatchResult) go" where
  "RunOnce I =
     go_bind (on_db (on_facts nowShanghai)) (\<lambda>now.
     go_bind (\<lambda>kw. (Inr (fst kw), kw)) (\<lambda>k.
       let (cycleKey, nextCycleStart) = reconciliationDueCycle now (iw_dailyStart k) in
       go_bind (on_db (claimCheckpoint I cycleKey (iw_owner k) now (iw_leaseDuration k) nextCycleStart (iw_cursor k))) (\<lambda>claimed.
       go_bind (set_cursor (cr_Cursor claimed)) (\<lambda>_.
         case cr_Claim claimed of
           None \<Rightarrow> go_ok \<lparr>br_Phase = cur_Phase (cr_Cursor claimed), br_Checked = 0, br_Detected = 0, br_NextCursor = cr_Cursor claimed,
             br_PhaseCompleted = False, br_CycleCompleted = False, br_CycleKey = cycleKey, br_LeaseAcquired = False,
             br_NextRunAt = Some (cr_WaitUntil claimed)\<rparr>
         | Some claim \<Rightarrow>
             go_bind (on_db (run_claimed I claim (iw_batchSize k) now)) (\<lambda>result.
             go_bind (set_cursor (br_NextCursor result)) (\<lambda>_.
               go_ok (result\<lparr>br_CycleKey := cycleKey, br_LeaseAcquired := True,
                 br_NextRunAt := (if br_CycleCompleted result then Some nextCycleStart else None)\<rparr>)))))))"

end
