(* ===== verification/Integrity_History.thy ===== *)
theory Integrity_History
  imports Integrity_Checks Gift_System
begin

text \<open>
  What the replay of a lot's ledger rows finds. The check is characterised without its loop, and every operation of the asset core is
  shown to keep the history of all lots replayable, so that it holds in every world the services can reach.
\<close>

subsection \<open>The replay without the loop\<close>

definition row_deltas :: "Transaction list \<Rightarrow> int" where
  "row_deltas ts = (\<Sum>t\<leftarrow>ts. sint (txn_QuantityDelta t))"

definition row_fits :: "Lot \<Rightarrow> int \<Rightarrow> Transaction \<Rightarrow> bool" where
  "row_fits lot balance t \<longleftrightarrow> txn_OwnerCustomerID t = lot_OwnerCustomerID lot \<and> txn_QuantityDelta t \<noteq> 0 \<and>
     sint (txn_BeforeAvailableQuantity t) = balance \<and> sint (txn_AfterAvailableQuantity t) = balance + sint (txn_QuantityDelta t) \<and>
     0 \<le> balance + sint (txn_QuantityDelta t) \<and> balance + sint (txn_QuantityDelta t) \<le> sint (lot_TotalQuantity lot)"

lemma row_deltas_simps [simp]: "row_deltas [] = 0" "row_deltas (t # ts) = sint (txn_QuantityDelta t) + row_deltas ts"
    "row_deltas (ts @ us) = row_deltas ts + row_deltas us"
  by (simp_all add: row_deltas_def)

lemma i64_in_range:
  assumes "0 \<le> i64 x" and "- (2 ^ 63) \<le> x" and "x < 2 ^ 64"
  shows "i64 x = x"
proof (cases "x < 2 ^ 63")
  case False
  have "(x + 2 ^ 63) mod 2 ^ 64 = (x - 2 ^ 63) mod 2 ^ 64" using mod_add_self2 [of "x - 2 ^ 63" "2 ^ 64"] by (simp add: algebra_simps)
  also have "\<dots> = x - 2 ^ 63" using False assms(3) by (intro mod_pos_pos_trivial) simp_all
  finally show ?thesis using assms by (simp add: i64_def)
qed (use assms in simp)

lemma replay_row:
  assumes "0 \<le> b" and "b < 2 ^ 63"
  shows "txn_OwnerCustomerID t \<noteq> lot_OwnerCustomerID lot \<or> txn_QuantityDelta t = 0 \<or> sint (txn_BeforeAvailableQuantity t) \<noteq> b \<or>
      sint (txn_AfterAvailableQuantity t) \<noteq> i64 (b + sint (txn_QuantityDelta t)) \<or> i64 (b + sint (txn_QuantityDelta t)) < 0 \<or>
      sint (lot_TotalQuantity lot) < i64 (b + sint (txn_QuantityDelta t)) \<longleftrightarrow> \<not> row_fits lot b t"
    and "row_fits lot b t \<Longrightarrow> i64 (b + sint (txn_QuantityDelta t)) = b + sint (txn_QuantityDelta t) \<and>
      0 \<le> b + sint (txn_QuantityDelta t) \<and> b + sint (txn_QuantityDelta t) < 2 ^ 63"
proof -
  let ?n = "b + sint (txn_QuantityDelta t)"
  have d: "- (2 ^ 63) \<le> sint (txn_QuantityDelta t)" "sint (txn_QuantityDelta t) < 2 ^ 63"
    using sint_ge [of "txn_QuantityDelta t"] sint_lt [of "txn_QuantityDelta t"] by simp_all
  have tot: "sint (lot_TotalQuantity lot) < 2 ^ 63" using sint_lt [of "lot_TotalQuantity lot"] by simp
  have range: "- (2 ^ 63) \<le> ?n" "?n < 2 ^ 64" using assms d by simp_all
  have wrap: "i64 ?n = ?n" if "0 \<le> i64 ?n" using i64_in_range [OF that range] .
  have exact: "i64 ?n = ?n" if "0 \<le> ?n" "?n \<le> sint (lot_TotalQuantity lot)" using that tot by (intro i64_id) linarith+
  show "txn_OwnerCustomerID t \<noteq> lot_OwnerCustomerID lot \<or> txn_QuantityDelta t = 0 \<or> sint (txn_BeforeAvailableQuantity t) \<noteq> b \<or>
      sint (txn_AfterAvailableQuantity t) \<noteq> i64 ?n \<or> i64 ?n < 0 \<or> sint (lot_TotalQuantity lot) < i64 ?n \<longleftrightarrow> \<not> row_fits lot b t"
    unfolding row_fits_def using wrap exact by fastforce
  show "i64 ?n = ?n \<and> 0 \<le> ?n \<and> ?n < 2 ^ 63" if "row_fits lot b t"
    using that exact tot unfolding row_fits_def by linarith
qed

lemma lot_replay_step:
  assumes "0 \<le> b" and "b < 2 ^ 63"
  shows "lot_replay lot (t # ts) b =
    (if row_fits lot b t then lot_replay lot ts (b + sint (txn_QuantityDelta t)) else (b, False, txn_ID t))"
  using replay_row [where lot = lot and t = t, OF assms] unfolding lot_replay.simps Let_def by presburger

declare lot_replay.simps(2) [simp del]

text \<open>The replay succeeds exactly when every row fits the sum of the rows before it.\<close>

lemma lot_replay_valid:
  assumes "0 \<le> b" and "b < 2 ^ 63"
  shows "fst (snd (lot_replay lot ts b)) \<longleftrightarrow> (\<forall>k<length ts. row_fits lot (b + row_deltas (take k ts)) (ts ! k))"
    and "fst (snd (lot_replay lot ts b)) \<Longrightarrow> lot_replay lot ts b = (b + row_deltas ts, True, 0)"
proof -
  have "(fst (snd (lot_replay lot ts b)) \<longleftrightarrow> (\<forall>k<length ts. row_fits lot (b + row_deltas (take k ts)) (ts ! k))) \<and>
      (fst (snd (lot_replay lot ts b)) \<longrightarrow> lot_replay lot ts b = (b + row_deltas ts, True, 0))"
    using assms
  proof (induction ts arbitrary: b)
    case (Cons t ts)
    show ?case
    proof (cases "row_fits lot b t")
      case True
      note n = replay_row(2) [OF Cons.prems True]
      have "(\<forall>k<length (t # ts). row_fits lot (b + row_deltas (take k (t # ts))) ((t # ts) ! k)) \<longleftrightarrow>
          (\<forall>k<length ts. row_fits lot (b + sint (txn_QuantityDelta t) + row_deltas (take k ts)) (ts ! k))"
        using True by (auto simp: less_Suc_eq_0_disj add.assoc)
      with True Cons.IH [of "b + sint (txn_QuantityDelta t)"] n show ?thesis
        by (simp add: lot_replay_step [OF Cons.prems] add.assoc)
    next
      case False
      then show ?thesis by (auto simp: lot_replay_step [OF Cons.prems] intro!: exI [of _ 0])
    qed
  qed simp
  then show "fst (snd (lot_replay lot ts b)) \<longleftrightarrow> (\<forall>k<length ts. row_fits lot (b + row_deltas (take k ts)) (ts ! k))"
    and "fst (snd (lot_replay lot ts b)) \<Longrightarrow> lot_replay lot ts b = (b + row_deltas ts, True, 0)" by blast+
qed

definition lot_reproduced :: "Lot \<Rightarrow> Transaction list \<Rightarrow> bool" where
  "lot_reproduced lot ts \<longleftrightarrow> ts \<noteq> [] \<and> (\<forall>k<length ts. row_fits lot (row_deltas (take k ts)) (ts ! k)) \<and>
     row_deltas ts = sint (lot_AvailableQuantity lot) \<and> lot_status_valid lot"

lemma checkLotReplay_exact: "checkLotReplay lot ts = None \<longleftrightarrow> lot_reproduced lot ts"
proof (cases "fst (snd (lot_replay lot ts 0))")
  case True
  with lot_replay_valid [of 0 lot ts] show ?thesis by (auto simp: checkLotReplay_def lot_reproduced_def Let_def split: if_splits)
next
  case False
  with lot_replay_valid(1) [of 0 lot ts] show ?thesis by (auto simp: checkLotReplay_def lot_reproduced_def Let_def split: prod.splits if_splits)
qed

subsection \<open>The history of all lots\<close>

definition rows_of :: "uint64 \<Rightarrow> Transaction list \<Rightarrow> Transaction list" where
  "rows_of i ts = filter (\<lambda>t. txn_LotID t = i) ts"

definition history :: "Lot list \<Rightarrow> Transaction list \<Rightarrow> bool" where
  "history ls ts \<longleftrightarrow> (\<forall>l\<in>set ls. lot_reproduced l (rows_of (lot_ID l) ts))"

lemma rows_of_append [simp]: "rows_of i (ts @ us) = rows_of i ts @ rows_of i us"
  by (simp add: rows_of_def)

lemma rows_of_single [simp]: "rows_of i [t] = (if txn_LotID t = i then [t] else [])"
  by (simp add: rows_of_def)

lemma row_fits_cong: "lot_OwnerCustomerID l' = lot_OwnerCustomerID l \<Longrightarrow> lot_TotalQuantity l' = lot_TotalQuantity l \<Longrightarrow>
    row_fits l' b t = row_fits l b t"
  by (simp add: row_fits_def)

lemma reproduced_append:
  assumes old: "lot_reproduced l ts" and same: "lot_OwnerCustomerID l' = lot_OwnerCustomerID l" "lot_TotalQuantity l' = lot_TotalQuantity l"
    and fits: "row_fits l (sint (lot_AvailableQuantity l)) t"
    and new: "sint (lot_AvailableQuantity l) + sint (txn_QuantityDelta t) = sint (lot_AvailableQuantity l')" and "lot_status_valid l'"
  shows "lot_reproduced l' (ts @ [t])"
  using assms unfolding lot_reproduced_def by (auto simp: nth_append less_Suc_eq row_fits_cong [OF same])

lemma change_sel [simp]:
  "lot_ID (apply_lot_change change l) = lot_ID l" "lot_OwnerCustomerID (apply_lot_change change l) = lot_OwnerCustomerID l"
  "lot_TotalQuantity (apply_lot_change change l) = lot_TotalQuantity l"
  "lot_AvailableQuantity (apply_lot_change change l) = chg_AvailableQuantity change"
  "lot_Status (apply_lot_change change l) = chg_Status change"
  by (simp_all add: apply_lot_change_def Let_def)

lemma status_of_change:
  "lot_status_valid (apply_lot_change change l) \<longleftrightarrow>
     (chg_Status change = LotStatusActive \<and> chg_AvailableQuantity change \<noteq> 0) \<or>
     (chg_Status change \<in> {LotStatusDepleted, LotStatusExpired, LotStatusRefunded} \<and> chg_AvailableQuantity change = 0)"
  by (auto simp: lot_status_valid_def word_gt_0)

lemma posting_history:
  assumes b: "books ls ts" and h: "history ls ts" and p: "posting lot change t ls ts ls' ts'" and b': "books ls' ts'"
    and valid: "lot_status_valid (apply_lot_change change lot)"
  shows "history ls' ts'"
  unfolding history_def
proof
  fix l
  assume l: "l \<in> set ls'"
  from p have lot: "lot \<in> set ls" and ts: "ts' = ts @ [t]" "txn_LotID t = lot_ID lot" and ls: "ls' = update_where (same_lot_version lot) (apply_lot_change change) ls"
    and row: "txn_OwnerCustomerID t = lot_OwnerCustomerID lot" "txn_BeforeAvailableQuantity t = lot_AvailableQuantity lot"
      "txn_AfterAvailableQuantity t = chg_AvailableQuantity change" "txn_QuantityDelta t = chg_AvailableQuantity change - lot_AvailableQuantity lot"
    by (auto simp: posting_def)
  have d: "distinct (map lot_ID ls)" using b by (simp add: books_def)
  have set: "set ls' = insert (apply_lot_change change lot) (set ls - {lot})" unfolding ls by (rule set_posted_lots [OF d lot])
  show "lot_reproduced l (rows_of (lot_ID l) ts')"
  proof (cases "l = apply_lot_change change lot")
    case True
    note old = books_lotD [OF b lot] and new = books_lotD [OF b', of "apply_lot_change change lot", unfolded set, simplified]
    have "txn_QuantityDelta t \<noteq> 0" using b' by (auto simp: books_def ts ValidateAssetTransaction_def split: if_splits)
    then have "row_fits lot (sint (lot_AvailableQuantity lot)) t"
      and "sint (lot_AvailableQuantity lot) + sint (txn_QuantityDelta t) = sint (chg_AvailableQuantity change)"
      using old(1,2) new(1) sint_quantity_diff [of "chg_AvailableQuantity change" "lot_AvailableQuantity lot"]
      by (simp_all add: row_fits_def row sint_small)
    with h lot valid True show ?thesis
      by (auto simp: ts history_def intro!: reproduced_append [of lot])
  next
    case False
    with l set have "l \<in> set ls" "l \<noteq> lot" by auto
    with h distinct_key_unique [OF d _ lot, of l] show ?thesis by (auto simp: history_def ts)
  qed
qed

lemma relabel_history:
  assumes "books ls ts" and h: "history ls ts" and lot: "lot \<in> set ls" and zero: "lot_AvailableQuantity lot = 0"
    and change: "chg_AvailableQuantity change = 0" "chg_Status change = LotStatusExpired"
  shows "history (update_where (same_lot_version lot) (apply_lot_change change) ls) ts"
proof -
  have set: "set (update_where (same_lot_version lot) (apply_lot_change change) ls) = insert (apply_lot_change change lot) (set ls - {lot})"
    using assms(1) lot by (intro set_posted_lots) (simp_all add: books_def)
  have "lot_reproduced lot (rows_of (lot_ID lot) ts)" using h lot by (simp add: history_def)
  then have "lot_reproduced (apply_lot_change change lot) (rows_of (lot_ID lot) ts)"
    using zero change by (simp add: lot_reproduced_def status_of_change row_fits_cong [of "apply_lot_change change lot" lot])
  with h show ?thesis unfolding history_def set by auto
qed

lemma issue_history:
  assumes b: "books ls ts" and h: "history ls ts" and new: "\<forall>l\<in>set ls. lot_ID l \<noteq> lot_ID lot" and b': "books (ls @ [lot]) (ts @ [t])"
    and full: "lot_AvailableQuantity lot = lot_TotalQuantity lot" "lot_TotalQuantity lot \<noteq> 0" "lot_Status lot = LotStatusActive"
    and t: "txn_LotID t = lot_ID lot" "txn_OwnerCustomerID t = lot_OwnerCustomerID lot" "txn_BeforeAvailableQuantity t = 0"
      "txn_AfterAvailableQuantity t = lot_TotalQuantity lot" "txn_QuantityDelta t = lot_TotalQuantity lot"
  shows "history (ls @ [lot]) (ts @ [t])"
proof -
  have "rows_of (lot_ID lot) ts = []" using b new by (fastforce simp: rows_of_def filter_empty_conv books_def)
  moreover have "lot_reproduced lot [t]"
    using books_lotD(2) [OF b', of lot] full t by (simp add: lot_reproduced_def row_fits_def lot_status_valid_def word_gt_0 sint_small)
  ultimately show ?thesis using h new t(1) by (auto simp: history_def)
qed

context asset_ledger
begin

lemma debit_history:
  assumes b: "books (lots_of s) (ledger_of s)" and h: "history (lots_of s) (ledger_of s)"
    and run: "debit (Some service) (Some R) rid c mark s = (Inr m, s')"
  shows "history (lots_of s') (ledger_of s')"
  using run
proof (cases rule: debit_cases)
  case fresh
  from debit_fresh_done [OF b fresh(1)] show ?thesis
  proof cases
    case (1 lot now t)
    show ?thesis by (rule posting_history [OF b h 1(7) debit_books [OF b run]]) (auto simp: status_of_change)
  qed
qed (use h in simp)

lemma Issue_history:
  assumes b: "books (lots_of s) (ledger_of s)" and h: "history (lots_of s) (ledger_of s)"
    and run: "Issue (Some service) (Some R) rid c s = (Inr m, s')" and status: "lot_Status (iss_Lot c) \<in> {[], LotStatusActive}"
  shows "history (lots_of s') (ledger_of s')"
  using run
proof (cases rule: Issue_cases)
  case fresh
  have b': "books (lots_of s') (ledger_of s')"
    using Issue_books [OF b run] status by (auto simp: lot_status_distinct(13-15) [symmetric])
  from issue_fresh_done [OF fresh(1)] show ?thesis
  proof cases
    case (1 now i t)
    have sel: "lot_ID (mut_Lot m) = i" "lot_TotalQuantity (mut_Lot m) = lot_TotalQuantity (iss_Lot c)"
      "lot_AvailableQuantity (mut_Lot m) = lot_AvailableQuantity (iss_Lot c)" "lot_Status (mut_Lot m) = LotStatusActive"
      using status by (auto simp: 1(3) issue_defaults_def Let_def)
    show ?thesis
      unfolding 1(1,2) by (rule issue_history [OF b h _ b' [unfolded 1(1,2)]]) (use 1 fresh sel in auto)
  qed
qed (use h in simp)

lemma Restore_history:
  assumes b: "books (lots_of s) (ledger_of s)" and h: "history (lots_of s) (ledger_of s)"
    and run: "Restore (Some service) (Some R) rid c s = (Inr m, s')"
  shows "history (lots_of s') (ledger_of s')"
  using run
proof (cases rule: Restore_cases)
  case fresh
  from restore_fresh_done [OF b fresh(1,2)] show ?thesis
  proof cases
    case (1 lot now t ls1 ts1)
    have "lot_AvailableQuantity lot + cmd_Quantity c \<noteq> 0" using restored_quantity [OF b 1(1,5)] fresh(2) by auto
    then have h1: "history ls1 ts1" by (intro posting_history [OF b h 1(6,7)]) (simp add: status_of_change)
    show ?thesis
    proof (cases "now < lot_ExpiresAt lot")
      case False
      with 1(9) obtain lot1 t1 where p: "posting lot1 \<lparr>chg_AvailableQuantity = 0, chg_Status = LotStatusExpired, chg_EverUsed = False,
          chg_SetEverUsed = False, chg_UpdatedAt = now\<rparr> t1 ls1 ts1 (lots_of s') (ledger_of s')" by auto
      show ?thesis by (rule posting_history [OF 1(7) h1 p Restore_books [OF b run]]) (simp add: status_of_change)
    qed (use 1(9) h1 in auto)
  qed
qed (use h in simp)

lemma Expire_history:
  assumes b: "books (lots_of s) (ledger_of s)" and h: "history (lots_of s) (ledger_of s)"
    and run: "Expire (Some service) (Some R) rid c s = (Inr m, s')"
  shows "history (lots_of s') (ledger_of s')"
  using run
proof (cases rule: Expire_cases)
  case fresh
  from expire_fresh_done [OF b fresh(1)] show ?thesis
  proof cases
    case (1 lot now change)
    from 1(11) show ?thesis
    proof (elim disjE conjE exE)
      fix t
      assume "posting lot change t (lots_of s) (ledger_of s) (lots_of s') (ledger_of s')"
      then show ?thesis by (rule posting_history [OF b h _ Expire_books [OF b run]]) (simp add: status_of_change 1(9,10))
    qed (use h relabel_history [OF b h 1(1) _ 1(9,10)] in simp_all)
  qed
qed (use h in simp)

lemma run_op_history:
  assumes "books (lots_of s) (ledger_of s)" and "history (lots_of s) (ledger_of s)" and "op_wf op"
    and "run_op service R rid op s = (Inr m, s')"
  shows "history (lots_of s') (ledger_of s')"
  using assms(3,4)
  by (cases op) (auto simp: Freeze_def Redeem_def dest: debit_history [OF assms(1,2)] Restore_history [OF assms(1,2)]
      Expire_history [OF assms(1,2)] Issue_history [OF assms(1,2)] Issue_history [OF assms(1,2) Transfer_done(1)])

end

end
