(* ===== verification/Integrity_Reachable.thy ===== *)
theory Integrity_Reachable
  imports Integrity_History
begin

text \<open>
  The history of the lots in the worlds the services reach: whatever calls of the gift service, transactions of other modules and
  passing of time there were, the rows of every lot replay to its balance. A function of the gift service keeps the history when its
  calls of the asset service do, since nothing else it does touches lots or ledger rows.
\<close>

definition ledger_true :: "gift_world \<Rightarrow> bool" where
  "ledger_true w \<longleftrightarrow> books (lots w) (transactions w) \<and> history (lots w) (transactions w)"

definition truthful :: "(gift_world, go_error, 'a) go \<Rightarrow> bool" where
  "truthful m \<longleftrightarrow> (\<forall>w a w'. m w = (Inr a, w') \<longrightarrow> ledger_true w \<longrightarrow> ledger_true w')"

lemma truthfulD: "truthful m \<Longrightarrow> m w = (Inr a, w') \<Longrightarrow> ledger_true w \<Longrightarrow> ledger_true w'"
  by (auto simp: truthful_def)

lemma ledger_true_core: "gift_core w' = gift_core w \<Longrightarrow> ledger_true w' = ledger_true w"
  by (simp add: ledger_true_def gift_core_iff)

lemma truthful_quiet: "quiet m \<Longrightarrow> truthful m"
  unfolding truthful_def using quietD ledger_true_core by blast

lemma truthful_bind: "truthful m \<Longrightarrow> (\<And>a. truthful (k a)) \<Longrightarrow> truthful (go_bind m k)"
  unfolding truthful_def by (fastforce simp: go_bind_Inr_inv)

lemma truthful_basic: "truthful (go_ok a)" "truthful (go_err e)"
  by (simp_all add: truthful_quiet quiet_basic)

lemma truthful_if: "truthful a \<Longrightarrow> truthful b \<Longrightarrow> truthful (if c then a else b)"
  by simp

lemma truthful_option: "truthful a \<Longrightarrow> (\<And>v. truthful (f v)) \<Longrightarrow> truthful (case r of None \<Rightarrow> a | Some v \<Rightarrow> f v)"
  by (simp split: option.splits)

lemma truthful_sum: "(\<And>e. truthful (f e)) \<Longrightarrow> (\<And>v. truthful (g v)) \<Longrightarrow> truthful (case r of Inl e \<Rightarrow> f e | Inr v \<Rightarrow> g v)"
  by (simp split: sum.splits)

lemma truthful_prod: "(\<And>a b. truthful (f a b)) \<Longrightarrow> truthful (case p of (a, b) \<Rightarrow> f a b)"
  by (simp split: prod.splits)

lemma truthful_list: "truthful a \<Longrightarrow> (\<And>x xs. truthful (f x xs)) \<Longrightarrow> truthful (case l of [] \<Rightarrow> a | x # xs \<Rightarrow> f x xs)"
  by (simp split: list.splits)

lemma truthful_map_error: "truthful m \<Longrightarrow> truthful (map_error f m)"
  unfolding truthful_def by simp

lemma truthful_for: "(\<And>x acc. truthful (body x acc)) \<Longrightarrow> truthful (go_for body xs acc)"
  by (induction xs arbitrary: acc) (auto intro: truthful_bind truthful_basic)

lemma truthful_rows:
  "truthful (createGift G g)" "truthful (createGiftAllocation G a)" "truthful (createGiftToken G t)"
  "truthful (updateGift G i v f)" "truthful (updateGiftAllocation G i h)" "truthful (updateGiftToken G i e)"
  by (auto simp: truthful_def createGift_def createGiftAllocation_def createGiftToken_def updateGift_def updateGiftAllocation_def
      updateGiftToken_def db_create_inv one_row_def go_bind_Inr_inv db_updates_inv gift_tables ledger_true_def split: if_splits)

lemmas truthful_rules = truthful_bind truthful_basic truthful_if truthful_option truthful_sum truthful_prod truthful_list truthful_map_error
  truthful_for truthful_rows

lemmas quiet_calls = quiet_clock quiet_audit quiet_outbox quiet_idempotency quiet_adult quiet_locks quiet_selection quiet_evidence
  quiet_token quiet_projection quiet_try

context gift_store
begin

lemma truthful_op:
  assumes "op_wf op"
  shows "truthful (run_op world_service (gift_repo G) rid op)"
  unfolding truthful_def ledger_true_def using assets.run_op_books assets.run_op_history assms by blast

lemma truthful_assets:
  "truthful (Freeze (Some world_service) (Some (gift_repo G)) rid c)"
  "truthful (Restore (Some world_service) (Some (gift_repo G)) rid c)"
  "lot_Status (tr_ReceiverLot tc) = LotStatusActive \<Longrightarrow> truthful (Transfer (Some world_service) (Some (gift_repo G)) rid tc)"
  using truthful_op [of "OpFreeze c"] truthful_op [of "OpRestore c"] truthful_op [of "OpTransfer tc"] by simp_all

lemma truthful_items:
  "truthful (hold_item G c i now item)" "truthful (restore_allocation G g sources now a)" "truthful (claim_allocation G c g sources now a)"
  "truthful (revoke_token G now t)"
  unfolding hold_item_def restore_allocation_def claim_allocation_def revoke_token_def Let_def
  by (intro truthful_rules truthful_assets truthful_quiet quiet_calls; simp add: claim_command_def receiver_lot_def)+

lemma truthful_returns:
  "truthful (restoreGiftLocked G g tokens allocations rows status now)" "truthful (time_out_gift G ty i trigger g tokens allocations rows now)"
  unfolding time_out_gift_def restoreGiftLocked_def
  by (intro truthful_rules truthful_items truthful_quiet quiet_calls)+

lemma transaction_true:
  assumes "truthful m" and "gorm_transaction commit restore_gift m w = (r, w')" and "ledger_true w"
  shows "ledger_true w'"
  using assms by (auto simp: gorm_transaction_def restore_gift_def ledger_true_def truthful_def split: prod.splits sum.splits option.splits)

end

context gift_store
begin

lemma truthful_transactions:
  "truthful (create_in_transaction G c verb path key hash request)" "truthful (share_in_transaction G c no req)"
  "truthful (claim_in_transaction G c verb path key hash digest i)" "truthful (cancel_in_transaction G c verb path key hash no version)"
  "truthful (expire_gift G now i)"
  unfolding create_in_transaction_def hold_gift_def share_in_transaction_def issue_token_def claim_in_transaction_def claim_gift_def
    hand_over_def use_token_def cancel_in_transaction_def cancel_gift_def expire_gift_def Let_def
  by (intro truthful_rules truthful_items truthful_returns truthful_quiet quiet_calls)+

lemma expire_gifts_true:
  "expire_gifts G now ids n w = (r, w') \<Longrightarrow> ledger_true w \<Longrightarrow> ledger_true w'"
  by (induction ids arbitrary: n w) (auto split: prod.splits sum.splits dest: transaction_true [OF truthful_transactions(5)])

lemma after_commit_true:
  assumes "truthful m" and "after_commit (gorm_transaction commit restore_gift m) w = (r, w')" and "ledger_true w"
  shows "ledger_true w'"
proof -
  obtain r1 w1 where run: "gorm_transaction commit restore_gift m w = (r1, w1)" by fastforce
  with assms(2) have "w' = w1" by (auto simp: after_commit_def go_bind_def split: sum.splits)
  with transaction_true [OF assms(1) run assms(3)] show ?thesis by simp
qed

lemma call_true:
  assumes call: "gift_call G w w'" and w: "ledger_true w"
  shows "ledger_true w'"
  using call
proof cases
  case (create claims verb path key request r)
  then show ?thesis using w transaction_true [OF truthful_transactions(1)] by (auto simp: gift_Create_def split: sum.splits)
next
  case (share claims no req r)
  then show ?thesis
    using w after_commit_true [OF truthful_transactions(2)] by (auto simp: CreateShareToken_def split: sum.splits option.splits if_splits)
next
  case (claim claims verb path key raw r)
  let ?lookup = "map_error (\<lambda>e. if isGiftNotFound e then invalidGiftTokenProblem else e) (giftIDByTokenDigest G (tokenDigest G raw))"
  obtain r1 w1 where lookup: "?lookup w = (r1, w1)" by fastforce
  have "quiet ?lookup" by (intro quiet_rules quiet_locks)
  then have w1: "ledger_true w1" using quietD [where m = ?lookup, OF _ lookup] ledger_true_core w by blast
  show ?thesis
    using claim(2) w w1 lookup after_commit_true [OF truthful_transactions(3) _ w1]
    by (cases r1) (auto simp: gift_Claim_def Let_def split: sum.splits if_splits)
next
  case (cancel claims verb path key no req r)
  then show ?thesis
    using w after_commit_true [OF truthful_transactions(4)] by (auto simp: gift_Cancel_def split: sum.splits option.splits if_splits)
next
  case (expire limit n)
  obtain r1 w1 where due: "dueGiftIDs G (gift_clock w) (if limit \<le> 0 \<or> 100 < limit then 100 else limit) w = (r1, w1)" by fastforce
  then have "w1 = w" by (auto simp: dueGiftIDs_def go_bind_def db_ordered_def split: sum.splits)
  with expire due w show ?thesis
    using expire_gifts_true by (auto simp: ExpireDue_def Let_def nowShanghai_def NowShanghai_def go_eval gift_clock_def wall_now_def split: sum.splits)
qed

lemma business_true:
  assumes wf: "list_all op_wf ops" and tx: "asset_tx (wt_lotE G) (wt_txnE G) commit rid ops w = (r, w')" and w: "ledger_true w"
  shows "ledger_true w'"
proof -
  have "ledger_true v'" if "run_ops world_service (gift_repo G) rid ops v = (Inr ms, v')" "ledger_true v" for v ms v'
  proof -
    have b: "books (lots v) (transactions v)" using that(2) by (simp add: ledger_true_def)
    have "ledger_true v \<longrightarrow> ledger_true v'"
      by (rule assets.run_ops_invariant [where P = "\<lambda>s s'. ledger_true s \<longrightarrow> ledger_true s'", OF _ _ _ wf b that(1)])
        (use wf truthfulD [OF truthful_op] in \<open>auto simp: list_all_iff\<close>)
    with that(2) show ?thesis by simp
  qed
  moreover have "ledger_true (restore_tables w v)" for v using w by (simp add: ledger_true_def restore_tables_def)
  ultimately show ?thesis
    using tx w by (auto simp: asset_tx_def gorm_transaction_def gift_repo_def split: prod.splits sum.splits option.splits)
qed

lemma step_true: "gift_step G w w' \<Longrightarrow> ledger_true w \<Longrightarrow> ledger_true w'"
proof (induction rule: gift_step.induct)
  case (call w w')
  then show ?case using call_true by blast
next
  case (tick w t)
  then show ?case by (simp add: ledger_true_def)
next
  case (business ops commit rid w r w')
  then show ?case using business_true by blast
next
  case (elsewhere w' w)
  then show ?case using ledger_true_core by blast
qed

lemma reachable_true: "(gift_step G)\<^sup>*\<^sup>* w w' \<Longrightarrow> ledger_true w \<Longrightarrow> ledger_true w'"
  by (induction rule: rtranclp_induct) (auto intro: step_true)

end

end
