(* ===== verification/Integrity_Store.thy ===== *)
theory Integrity_Store
  imports Integrity_Worker Integrity_Reachable
begin

text \<open>
  The two tables the reconciliation writes. \<open>integrity_store\<close> is what it expects of them. Recording a discrepancy either counts it on the
  one active exception there is for it or opens one; the checkpoint of a cycle is changed by one worker at a time, told apart by its version.
\<close>

locale integrity_store =
  exc: gorm_table "ig_exceptionE I" exception_clash exception_fits +
  chk: gorm_table "ig_checkpointE I" checkpoint_clash checkpoint_fits
  for I :: integ_env and exception_fits :: "Exception \<Rightarrow> bool" and checkpoint_fits :: "Checkpoint \<Rightarrow> bool"

subsection \<open>What stays\<close>

text \<open>\<open>scan_view\<close> is all the scanner reads of other modules: every table but the two of its own.\<close>

definition scan_view :: "integ_world \<Rightarrow> integ_world" where
  "scan_view w = w\<lparr>exceptions := [], checkpoints := [], facts := (facts w)\<lparr>snow := \<lparr>lastMS = 0, sequence = 0, nodeID = 0, rollbacks = 0\<rparr>\<rparr>\<rparr>"

definition only_reads :: "(integ_world, 'e, 'a) go \<Rightarrow> bool" where
  "only_reads m \<longleftrightarrow> (\<forall>w r w'. m w = (r, w') \<longrightarrow> w' = w)"

lemma only_readsD: "only_reads m \<Longrightarrow> m w = (r, w') \<Longrightarrow> w' = w"
  by (auto simp: only_reads_def)

lemma only_reads_bind: "only_reads m \<Longrightarrow> (\<And>a. only_reads (k a)) \<Longrightarrow> only_reads (go_bind m k)"
  unfolding only_reads_def by (fastforce simp: go_bind_def split: prod.splits sum.splits)

lemma only_reads_basic: "only_reads (go_ok a)" "only_reads (go_err e)" "only_reads (go_read f)"
  by (auto simp: only_reads_def go_read_inv)

lemma only_reads_statements: "only_reads (db_take T p)" "only_reads (db_find T p)" "only_reads (db_ordered T p key)"
  by (auto simp: only_reads_def db_take_def db_find_def db_ordered_def)

lemma only_reads_wrap: "only_reads m \<Longrightarrow> only_reads (wrap_error prefix m)"
  by (fastforce simp: only_reads_def wrap_error_def split: prod.splits sum.splits)

lemma only_reads_if: "only_reads a \<Longrightarrow> only_reads b \<Longrightarrow> only_reads (if c then a else b)"
  by simp

lemma only_reads_prod: "(\<And>a b. only_reads (f a b)) \<Longrightarrow> only_reads (case p of (a, b) \<Rightarrow> f a b)"
  by (simp split: prod.splits)

lemma only_reads_sum: "(\<And>e. only_reads (f e)) \<Longrightarrow> (\<And>v. only_reads (g v)) \<Longrightarrow> only_reads (case r of Inl e \<Rightarrow> f e | Inr v \<Rightarrow> g v)"
  by (simp split: sum.splits)

lemma only_reads_for: "(\<And>x acc. only_reads (body x acc)) \<Longrightarrow> only_reads (go_for body xs acc)"
  by (induction xs arbitrary: acc) (auto intro: only_reads_bind only_reads_basic)

lemma restore_same [simp]: "restore_integ w w = w"
  by (simp add: restore_integ_def)

lemma only_reads_tx: "only_reads m \<Longrightarrow> only_reads (integ_tx I m)"
  unfolding only_reads_def integ_tx_def gorm_transaction_def by (fastforce split: prod.splits sum.splits option.splits)

lemma only_reads_clock: "only_reads (on_facts nowShanghai)"
  by (auto simp: only_reads_def on_facts_def split: prod.splits)

lemmas only_reads_rules = only_reads_bind only_reads_basic only_reads_statements only_reads_wrap only_reads_if only_reads_prod
  only_reads_sum only_reads_for only_reads_tx only_reads_clock

lemma scan_only_reads: "only_reads (scan_phase I phase afterID upperID limit)"
  unfolding scan_phase_def scanLots_def scanGifts_def listIntegrityLots_def listIntegrityLotTransactions_def loadIntegrityLotAllocations_def
    listIntegrityGifts_def loadIntegrityGiftBatch_def Let_def
  by (intro only_reads_rules)

lemma scanBatchFacts_only_reads: "only_reads (scanBatchFacts I cursor batchSize)"
  unfolding scanBatchFacts_def Let_def by (intro only_reads_rules scan_only_reads)

lemma captureHighWatermarks_only_reads: "only_reads (captureHighWatermarks I)"
  unfolding captureHighWatermarks_def by (intro only_reads_rules)

text \<open>A failed transaction leaves every table as it was.\<close>

definition same_tables :: "integ_world \<Rightarrow> integ_world \<Rightarrow> bool" where
  "same_tables w w' \<longleftrightarrow> scan_view w' = scan_view w \<and> exceptions w' = exceptions w \<and> checkpoints w' = checkpoints w"

lemma restore_integ_sel [simp]:
  "exceptions (restore_integ w v) = exceptions w" "checkpoints (restore_integ w v) = checkpoints w" "scan_view (restore_integ w v) = scan_view w"
  by (simp_all add: restore_integ_def scan_view_def)

lemma same_tables_refl [simp]: "same_tables w w"
  by (simp add: same_tables_def)

lemma integ_tx_failed: "integ_tx I m w = (Inl e, w') \<Longrightarrow> same_tables w w'"
  unfolding integ_tx_def by (auto dest!: gorm_transaction_error simp: same_tables_def)

lemma integ_tx_done: "integ_tx I m w = (Inr a, w') \<longleftrightarrow> m w = (Inr a, w') \<and> ig_commit I w' = None"
  by (simp add: integ_tx_def gorm_transaction_success)

subsection \<open>Exceptions\<close>

definition exceptions_ok :: "Exception list \<Rightarrow> bool" where
  "exceptions_ok es \<longleftrightarrow> distinct (map ex_ID es) \<and>
     (\<forall>a\<in>set es. \<forall>b\<in>set es. active_exception_key a \<noteq> None \<longrightarrow> active_exception_key a = active_exception_key b \<longrightarrow> a = b)"

definition exception_for :: "reconciliationDiscrepancy \<Rightarrow> Exception \<Rightarrow> bool" where
  "exception_for d e \<longleftrightarrow> exception_of (exceptionType d) (dis_BizType d) (dis_BizID d) e"

text \<open>An exception that was seen again keeps its identity, its state in the review and the time it was first seen.\<close>

definition exception_grows :: "Exception \<Rightarrow> Exception \<Rightarrow> bool" where
  "exception_grows e e' \<longleftrightarrow> ex_ID e' = ex_ID e \<and> ex_ExceptionNo e' = ex_ExceptionNo e \<and> ex_ExceptionType e' = ex_ExceptionType e \<and> ex_BizType e' = ex_BizType e \<and>
     ex_BizID e' = ex_BizID e \<and> ex_Status e' = ex_Status e \<and> ex_FirstDetectedAt e' = ex_FirstDetectedAt e \<and>
     ex_CreatedAt e' = ex_CreatedAt e \<and> (\<not> exception_active e \<longrightarrow> e' = e)"

lemma exception_grows_refl [simp]: "exception_grows e e"
  by (simp add: exception_grows_def)

lemma exception_grows_active: "exception_grows e e' \<Longrightarrow> exception_active e' = exception_active e"
  by (simp add: exception_grows_def exception_active_def)

lemma exception_grows_trans: "exception_grows a b \<Longrightarrow> exception_grows b c \<Longrightarrow> exception_grows a c"
  unfolding exception_grows_def exception_active_def by auto

lemma grows_same_key: "exception_grows e e' \<Longrightarrow> active_exception_key e' = active_exception_key e \<and> exception_for d e' = exception_for d e"
  by (auto simp: exception_grows_def active_exception_key_def exception_for_def exception_of_def exception_active_def)

lemma seen_grows: "exception_active e \<Longrightarrow> exception_grows e (exception_seen d s x a t e)"
  by (simp add: exception_grows_def exception_seen_def)

lemma new_exception_for: "exception_for d (new_exception i d s x a t)"
  by (simp add: exception_for_def exception_of_def new_exception_def exception_active_def reconciliationActiveExceptionStatuses_def)

lemma exception_for_key: "exception_for d e \<Longrightarrow> exception_for d e' \<Longrightarrow> active_exception_key e = active_exception_key e' \<and> active_exception_key e \<noteq> None"
  by (simp add: exception_for_def exception_of_def active_exception_key_def)

text \<open>What recording one discrepancy does to the table.\<close>

definition exception_recorded :: "reconciliationDiscrepancy \<Rightarrow> go_time \<Rightarrow> Exception list \<Rightarrow> Exception list \<Rightarrow> bool" where
  "exception_recorded d t es es' \<longleftrightarrow>
     (\<exists>e e'. e \<in> set es \<and> exception_for d e \<and> exception_grows e e' \<and> ex_LastDetectedAt e' = t \<and>
        ex_OccurrenceCount e' = ex_OccurrenceCount e + 1 \<and> es' = map (\<lambda>r. if r = e then e' else r) es) \<or>
     (\<exists>e'. (\<forall>e\<in>set es. \<not> exception_for d e \<and> \<not> exception_clash e' e) \<and> exception_for d e' \<and> ex_LastDetectedAt e' = t \<and>
        ex_FirstDetectedAt e' = t \<and> ex_OccurrenceCount e' = 1 \<and> es' = es @ [e'])"

lemma next_effect: "\<exists>i g. ids_Next f = (Inr i, f\<lparr>snow := g\<rparr>)"
  by (cases "snow_Next (of_int (unix_milli (wall f))) (snow f)") (auto simp: ids_Next_def go_call_def world_next_id_def)

context integrity_store
begin

lemma upsert_done:
  assumes run: "upsertActiveException I d t w = (Inr u, w')" and ok: "exceptions_ok (exceptions w)"
  shows "exception_recorded d t (exceptions w) (exceptions w')" and "checkpoints w' = checkpoints w" and "scan_view w' = scan_view w"
proof -
  from run obtain expected actual severity existing where
    look: "sql_take (ig_exceptionE I) (exception_of (exceptionType d) (dis_BizType d) (dis_BizID d)) (exceptions w) = existing"
    and cont: "(case existing of
        Inr e \<Rightarrow> go_bind (db_updates (exception_tbl I) (\<lambda>r. ex_ID r = ex_ID e \<and> ex_Version r = ex_Version e \<and> exception_active r)
          (exception_seen d severity expected actual t)) (\<lambda>n.
            if n \<noteq> 1 then go_err (ErrMessage (''wine-ticket active exception '' @ IDString (ex_ID e) @ '' changed concurrently'')) else go_ok ())
      | Inl err \<Rightarrow> if err \<noteq> ErrRecordNotFound then go_err err
          else go_bind (on_facts ids_Next) (\<lambda>i. db_create (exception_tbl I) (new_exception i d severity expected actual t))) w = (Inr u, w')"
    unfolding upsertActiveException_def Let_def
    by (auto simp: go_inv exception_tbl_def split: if_splits sum.splits)
  have d: "distinct (map ex_ID (exceptions w))" using ok by (simp add: exceptions_ok_def)
  have "exception_recorded d t (exceptions w) (exceptions w') \<and> checkpoints w' = checkpoints w \<and> scan_view w' = scan_view w"
  proof (cases existing)
    case (Inr e)
    let ?f = "exception_seen d severity expected actual t"
    from exc.take_row [OF look [unfolded Inr]] have e: "e \<in> set (exceptions w)" "exception_for d e" "exception_active e"
      by (auto simp: exception_for_def exception_of_def)
    from cont Inr obtain rows where upd: "sql_updates (ig_exceptionE I) (\<lambda>r. ex_ID r = ex_ID e \<and> ex_Version r = ex_Version e \<and> exception_active r) ?f
        (exceptions w) = Inr (rows, 1)" and w': "w' = w\<lparr>exceptions := rows\<rparr>"
      by (auto simp: go_inv exception_tbl_def split: if_splits)
    have "rows = map (\<lambda>r. if r = e then ?f e else r) (exceptions w)"
      unfolding exc.updates_rows [OF upd] update_where_def using distinct_key_unique [OF d _ e(1)] e(3) by (intro map_cong) auto
    moreover have "ex_LastDetectedAt (?f e) = t" "ex_OccurrenceCount (?f e) = ex_OccurrenceCount e + 1" by (simp_all add: exception_seen_def)
    ultimately show ?thesis using e seen_grows [OF e(3)] unfolding w' exception_recorded_def by (auto simp: scan_view_def)
  next
    case (Inl err)
    with cont have err: "err = ErrRecordNotFound" by (auto split: if_splits)
    obtain i g where nxt: "ids_Next (facts w) = (Inr i, (facts w)\<lparr>snow := g\<rparr>)" using next_effect by blast
    with cont Inl err obtain rows where ins: "sql_create (ig_exceptionE I) (new_exception i d severity expected actual t) (exceptions w) = Inr rows"
      and w': "w' = w\<lparr>facts := (facts w)\<lparr>snow := g\<rparr>, exceptions := rows\<rparr>"
      by (auto simp: go_inv on_facts_def exception_tbl_def split: prod.splits)
    have "scan_view w' = scan_view w" by (simp add: w' scan_view_def)
    moreover have "\<forall>e\<in>set (exceptions w). \<not> exception_for d e" using exc.take_missing look Inl err by (auto simp: exception_for_def)
    ultimately show ?thesis
      using exc.create_row [OF ins] new_exception_for [of d i severity expected actual t] unfolding w' exception_recorded_def
      by (auto simp: new_exception_def intro!: exI [of _ "new_exception i d severity expected actual t"])
  qed
  then show "exception_recorded d t (exceptions w) (exceptions w')" "checkpoints w' = checkpoints w" "scan_view w' = scan_view w" by simp_all
qed

end

lemma recorded_ok:
  assumes ok: "exceptions_ok es" and rec: "exception_recorded d t es es'"
  shows "exceptions_ok es'"
  using rec unfolding exception_recorded_def
proof (elim disjE exE conjE)
  fix e e'
  assume e: "e \<in> set es" and g: "exception_grows e e'" and es': "es' = map (\<lambda>r. if r = e then e' else r) es"
  have "map ex_ID es' = map ex_ID es" using g by (auto simp: es' exception_grows_def)
  moreover have "a' = b'" if ab: "a' \<in> set es'" "b' \<in> set es'" "active_exception_key a' \<noteq> None" "active_exception_key a' = active_exception_key b'" for a' b'
  proof -
    obtain a b where "a \<in> set es" "a' = (if a = e then e' else a)" "b \<in> set es" "b' = (if b = e then e' else b)" using ab(1,2) by (auto simp: es')
    moreover have "active_exception_key (if a = e then e' else a) = active_exception_key a" for a using grows_same_key [OF g] by simp
    ultimately have "a = b" using ok ab(3,4) unfolding exceptions_ok_def by simp
    with \<open>a' = _\<close> \<open>b' = _\<close> show ?thesis by simp
  qed
  ultimately show ?thesis using ok unfolding exceptions_ok_def by (metis (no_types))
next
  fix e'
  assume new: "\<forall>e\<in>set es. \<not> exception_for d e \<and> \<not> exception_clash e' e" and es': "es' = es @ [e']"
  with ok show ?thesis by (auto simp: exceptions_ok_def exception_clash_def)
qed

lemma recorded_keeps:
  assumes rec: "exception_recorded d t es es'" and x: "x \<in> set es"
  obtains x' where "x' \<in> set es'" and "exception_grows x x'" and "x' = x \<or> ex_LastDetectedAt x' = t"
  using rec unfolding exception_recorded_def
proof (elim disjE exE conjE)
  fix e e'
  assume "exception_grows e e'" "ex_LastDetectedAt e' = t" "es' = map (\<lambda>r. if r = e then e' else r) es"
  with x that [of "if x = e then e' else x"] show thesis by auto
next
  fix e'
  assume "es' = es @ [e']"
  with x that [of x] show thesis by simp
qed

lemma recorded_there:
  assumes "exception_recorded d t es es'"
  shows "\<exists>e\<in>set es'. exception_for d e \<and> ex_LastDetectedAt e = t"
  using assms grows_same_key unfolding exception_recorded_def by fastforce

context integrity_store
begin

lemma persist_done:
  assumes run: "persistDiscrepanciesWithTx I ds t w = (Inr u, w')" and ok: "exceptions_ok (exceptions w)"
  shows "exceptions_ok (exceptions w')" and "checkpoints w' = checkpoints w" and "scan_view w' = scan_view w"
    and "\<forall>x\<in>set (exceptions w). \<exists>x'\<in>set (exceptions w'). exception_grows x x' \<and> (x' = x \<or> ex_LastDetectedAt x' = t)"
    and "\<forall>d\<in>set ds. \<exists>e\<in>set (exceptions w'). exception_for d e \<and> ex_LastDetectedAt e = t"
proof -
  have "exceptions_ok (exceptions w') \<and> checkpoints w' = checkpoints w \<and> scan_view w' = scan_view w \<and>
      (\<forall>x\<in>set (exceptions w). \<exists>x'\<in>set (exceptions w'). exception_grows x x' \<and> (x' = x \<or> ex_LastDetectedAt x' = t)) \<and>
      (\<forall>d\<in>set ds. \<exists>e\<in>set (exceptions w'). exception_for d e \<and> ex_LastDetectedAt e = t)"
    if "go_for (\<lambda>d _. upsertActiveException I d t) ds acc w = (Inr u, w')" for acc
    using that ok
  proof (induction ds arbitrary: acc w)
    case (Cons d ds)
    from Cons.prems(1) obtain v w1 where up: "upsertActiveException I d t w = (Inr v, w1)"
      and rest: "go_for (\<lambda>d _. upsertActiveException I d t) ds v w1 = (Inr u, w')" by (auto simp: go_bind_Inr_inv)
    note one = upsert_done [OF up Cons.prems(2)]
    note all = Cons.IH [OF rest recorded_ok [OF Cons.prems(2) one(1)]]
    have keeps: "\<exists>x'\<in>set (exceptions w'). exception_grows x x' \<and> (x' = x \<or> ex_LastDetectedAt x' = t)" if x: "x \<in> set (exceptions w)" for x
    proof -
      obtain x1 where x1: "x1 \<in> set (exceptions w1)" "exception_grows x x1" "x1 = x \<or> ex_LastDetectedAt x1 = t" by (rule recorded_keeps [OF one(1) x])
      with all obtain x2 where "x2 \<in> set (exceptions w')" "exception_grows x1 x2" "x2 = x1 \<or> ex_LastDetectedAt x2 = t" by blast
      with x1 exception_grows_trans show ?thesis by blast
    qed
    obtain e where e: "e \<in> set (exceptions w1)" "exception_for d e" "ex_LastDetectedAt e = t" using recorded_there [OF one(1)] by blast
    with all obtain e' where "e' \<in> set (exceptions w')" "exception_grows e e'" "e' = e \<or> ex_LastDetectedAt e' = t" by blast
    with e have "\<exists>e\<in>set (exceptions w'). exception_for d e \<and> ex_LastDetectedAt e = t" using grows_same_key by (metis (full_types))
    with all keeps one(2,3) show ?case by simp
  next
    case Nil
    then show ?case using exception_grows_refl by fastforce
  qed
  from this [of "()"] run have "exceptions_ok (exceptions w') \<and> checkpoints w' = checkpoints w \<and> scan_view w' = scan_view w \<and>
      (\<forall>x\<in>set (exceptions w). \<exists>x'\<in>set (exceptions w'). exception_grows x x' \<and> (x' = x \<or> ex_LastDetectedAt x' = t)) \<and>
      (\<forall>d\<in>set ds. \<exists>e\<in>set (exceptions w'). exception_for d e \<and> ex_LastDetectedAt e = t)"
    by (simp add: persistDiscrepanciesWithTx_def)
  then show "exceptions_ok (exceptions w')" and "checkpoints w' = checkpoints w" and "scan_view w' = scan_view w"
    and "\<forall>x\<in>set (exceptions w). \<exists>x'\<in>set (exceptions w'). exception_grows x x' \<and> (x' = x \<or> ex_LastDetectedAt x' = t)"
    and "\<forall>d\<in>set ds. \<exists>e\<in>set (exceptions w'). exception_for d e \<and> ex_LastDetectedAt e = t" by blast+
qed

lemma only_one_exception:
  assumes "exceptions_ok es" and "e \<in> set es" and "e' \<in> set es" and "exception_for d e" and "exception_for d e'"
  shows "e' = e"
  using assms exception_for_key [OF assms(5,4)] unfolding exceptions_ok_def by blast

end

end
