(* ===== verification/Integrity_Leases.thy ===== *)
theory Integrity_Leases
  imports Integrity_Store
begin

text \<open>
  The checkpoint several workers share. Every change of the row of a cycle raises its version by one; a worker may advance or release the
  row only at the version its claim has, so that a claim that was superseded has no effect any more.
\<close>

subsection \<open>Changing the row of a cycle\<close>

definition replaced_row :: "'r \<Rightarrow> 'r \<Rightarrow> 'r list \<Rightarrow> 'r list" where
  "replaced_row r r' rows = map (\<lambda>x. if x = r then r' else x) rows"

definition one_row_each :: "Checkpoint list \<Rightarrow> bool" where
  "one_row_each cs \<longleftrightarrow> distinct (map cp_CycleKey cs)"

definition at_version :: "string \<Rightarrow> go_uint \<Rightarrow> Checkpoint list \<Rightarrow> bool" where
  "at_version key v cs \<longleftrightarrow> (\<exists>row\<in>set cs. cp_CycleKey row = key \<and> cp_Version row = v)"

lemma replaced_row_set: "r \<in> set rows \<Longrightarrow> set (replaced_row r r' rows) = insert r' (set rows - {r})"
  by (auto simp: replaced_row_def)

lemma replaced_row_keys: "cp_CycleKey r' = cp_CycleKey r \<Longrightarrow> map cp_CycleKey (replaced_row r r' rows) = map cp_CycleKey rows"
  by (auto simp: replaced_row_def)

lemma at_version_unique: "one_row_each cs \<Longrightarrow> at_version key v cs \<Longrightarrow> at_version key v' cs \<Longrightarrow> v' = v"
  unfolding one_row_each_def at_version_def using distinct_key_unique by metis

lemma at_version_replaced:
  assumes "one_row_each cs" and "r \<in> set cs" and "cp_CycleKey r' = cp_CycleKey r" and "at_version key v cs"
  shows "if key = cp_CycleKey r then at_version key (cp_Version r') (replaced_row r r' cs) else at_version key v (replaced_row r r' cs)"
  using assms unfolding at_version_def replaced_row_set [OF assms(2)] by auto

lemma row_changes [simp]:
  "cp_CycleKey (checkpoint_claimed o' u v n r) = cp_CycleKey r" "cp_Version (checkpoint_claimed o' u v n r) = v"
  "cp_CycleKey (checkpoint_advanced b t r) = cp_CycleKey r" "cp_Version (checkpoint_advanced b t r) = cp_Version r + 1"
  "cp_CycleKey (checkpoint_freed n r) = cp_CycleKey r" "cp_Version (checkpoint_freed n r) = cp_Version r + 1"
  "cp_CycleKey (checkpoint_seed k c m n) = k" "cp_Version (checkpoint_seed k c m n) = 1"
  by (simp_all add: checkpoint_claimed_def checkpoint_advanced_def checkpoint_freed_def checkpoint_seed_def)

lemma update_one_row:
  assumes "one_row_each cs" and "r \<in> set cs" and "p r" and "\<And>x. p x \<Longrightarrow> cp_CycleKey x = cp_CycleKey r"
  shows "update_where p f cs = replaced_row r (f r) cs"
proof -
  have "(if p x then f x else x) = (if x = r then f r else x)" if "x \<in> set cs" for x
    using distinct_key_unique [OF assms(1) [unfolded one_row_each_def] that assms(2)] assms(3,4) by metis
  then show ?thesis unfolding update_where_def replaced_row_def by simp
qed

lemma keeps_checkpoints:
  "go_keeps (\<lambda>w. checkpoints w = cs) (db_take (exception_tbl I) p)"
  "go_keeps (\<lambda>w. checkpoints w = cs) (db_updates (exception_tbl I) p f)"
  "go_keeps (\<lambda>w. checkpoints w = cs) (db_create (exception_tbl I) e)"
  "go_keeps (\<lambda>w. checkpoints w = cs) (on_facts m)"
  by (auto simp: go_keeps_def db_take_def db_updates_def db_create_def exception_tbl_def on_facts_def split: sum.splits prod.splits)

lemma keeps_upsert: "go_keeps (\<lambda>w. checkpoints w = cs) (upsertActiveException I d t)"
  unfolding upsertActiveException_def Let_def by (intro go_keeps_rules go_keeps_try keeps_checkpoints)

lemma keeps_persist: "go_keeps (\<lambda>w. checkpoints w = cs) (persistDiscrepanciesWithTx I ds t)"
  unfolding persistDiscrepanciesWithTx_def by (intro go_keeps_for keeps_upsert)

context integrity_store
begin

lemma seed_done:
  assumes run: "seed_checkpoint I key cursor now w = (r, w')"
  obtains (there) "w' = w" and "r = Inr () \<Longrightarrow> \<exists>row\<in>set (checkpoints w). cp_CycleKey row = key"
    | (new) marks where "w' = w\<lparr>checkpoints := checkpoints w @ [checkpoint_seed key cursor marks now]\<rparr>" and "r = Inr ()"
      and "\<forall>row\<in>set (checkpoints w). cp_CycleKey row \<noteq> key"
proof -
  obtain found where found: "sql_take (ig_checkpointE I) (\<lambda>c. cp_CycleKey c = key) (checkpoints w) = found" by simp
  show thesis
  proof (cases "found = Inl ErrRecordNotFound")
    case False
    with run found have "w' = w" "r = Inr () \<Longrightarrow> \<exists>row. found = Inr row"
      by (auto simp: seed_checkpoint_def go_bind_def go_try_def db_take_def checkpoint_tbl_def split: sum.splits)
    with there chk.take_row found show thesis by blast
  next
    case True
    have none: "\<forall>row\<in>set (checkpoints w). cp_CycleKey row \<noteq> key" using chk.take_missing True found by blast
    obtain r1 w1 where cap: "captureHighWatermarks I w = (r1, w1)" by fastforce
    then have w1: "w1 = w" by (rule only_readsD [OF captureHighWatermarks_only_reads])
    have run1: "(case r1 of Inl e \<Rightarrow> (Inl e, w) | Inr marks \<Rightarrow> (case ig_marks I marks of Inl e \<Rightarrow> go_err e
        | Inr raw \<Rightarrow> go_bind (db_create_ignore (checkpoint_tbl I) (checkpoint_seed key cursor raw now)) (\<lambda>_. go_ok ())) w) = (r, w')"
      using run found True cap w1 by (auto simp: seed_checkpoint_def go_bind_def go_try_def db_take_def checkpoint_tbl_def split: sum.splits)
    show thesis
    proof (cases "\<exists>marks raw. r1 = Inr marks \<and> ig_marks I marks = Inr raw")
      case False
      with run1 there show thesis by (auto split: sum.splits)
    next
      case True
      then obtain marks raw where m: "r1 = Inr marks" "ig_marks I marks = Inr raw" by blast
      show thesis
      proof (cases "sql_create_ignore (ig_checkpointE I) (checkpoint_seed key cursor raw now) (checkpoints w)")
        case (Inl e)
        with run1 m there show thesis by (auto simp: go_bind_def db_create_ignore_def checkpoint_tbl_def)
      next
        case (Inr rows)
        with chk.create_ignore [OF Inr] none have "rows = checkpoints w @ [checkpoint_seed key cursor raw now]"
          by (auto simp: checkpoint_clash_def)
        with run1 m Inr none new show thesis by (auto simp: go_bind_def db_create_ignore_def checkpoint_tbl_def go_ok_def)
      qed
    qed
  qed
qed

lemma take_done:
  assumes run: "take_checkpoint I key owner now until nxt w = (Inr res, w')" and one: "one_row_each (checkpoints w)"
  obtains row cursor marks where "row \<in> set (checkpoints w)" and "cp_CycleKey row = key" and "checkpoint_cursor I row = Inr (cursor, marks)"
    and "cr_Cursor res = cursor"
    and "if cp_Status row = reconciliationCheckpointCompleted then w' = w \<and> cr_Claim res = None \<and> cr_WaitUntil res = nxt
      else if checkpoint_leased owner now row then w' = w \<and> cr_Claim res = None \<and> Some (cr_WaitUntil res) = cp_LeaseUntil row
      else w' = w\<lparr>checkpoints := replaced_row row (checkpoint_claimed owner until (cp_Version row + 1) now row) (checkpoints w)\<rparr> \<and>
        cr_Claim res = Some \<lparr>ck_CycleKey = key, ck_Cursor = cursor, ck_HighWatermarks = marks, ck_Owner = owner, ck_Version = cp_Version row + 1\<rparr>"
proof -
  from run obtain row where tk: "sql_take (ig_checkpointE I) (\<lambda>c. cp_CycleKey c = key) (checkpoints w) = Inr row"
    by (auto simp: take_checkpoint_def go_bind_Inr_inv db_take_inv checkpoint_tbl_def)
  from run tk obtain cursor marks where cur: "checkpoint_cursor I row = Inr (cursor, marks)"
    by (cases "checkpoint_cursor I row") (auto simp: take_checkpoint_def go_bind_Inr_inv db_take_inv checkpoint_tbl_def)
  note row = chk.take_row [OF tk]
  show thesis
  proof (rule that [OF conjunct1 [OF row] _ cur])
    show "cp_CycleKey row = key" using row by simp
    show "cr_Cursor res = cursor"
      using run tk cur by (auto simp: take_checkpoint_def go_bind_Inr_inv db_take_inv checkpoint_tbl_def Let_def split: if_splits)
    show "if cp_Status row = reconciliationCheckpointCompleted then w' = w \<and> cr_Claim res = None \<and> cr_WaitUntil res = nxt
      else if checkpoint_leased owner now row then w' = w \<and> cr_Claim res = None \<and> Some (cr_WaitUntil res) = cp_LeaseUntil row
      else w' = w\<lparr>checkpoints := replaced_row row (checkpoint_claimed owner until (cp_Version row + 1) now row) (checkpoints w)\<rparr> \<and>
        cr_Claim res = Some \<lparr>ck_CycleKey = key, ck_Cursor = cursor, ck_HighWatermarks = marks, ck_Owner = owner, ck_Version = cp_Version row + 1\<rparr>"
    proof (cases "cp_Status row = reconciliationCheckpointCompleted \<or> checkpoint_leased owner now row")
      case True
      then show ?thesis
        using run tk cur by (auto simp: take_checkpoint_def go_bind_Inr_inv db_take_inv checkpoint_tbl_def checkpoint_leased_def split: if_splits option.splits)
    next
      case False
      with run tk cur obtain rows where upd: "sql_updates (ig_checkpointE I) (\<lambda>c. cp_CycleKey c = key \<and> cp_Version c = cp_Version row)
          (checkpoint_claimed owner until (cp_Version row + 1) now) (checkpoints w) = Inr (rows, 1)" and w': "w' = w\<lparr>checkpoints := rows\<rparr>"
        and res: "cr_Claim res = Some \<lparr>ck_CycleKey = key, ck_Cursor = cursor, ck_HighWatermarks = marks, ck_Owner = owner, ck_Version = cp_Version row + 1\<rparr>"
        by (auto simp: take_checkpoint_def go_bind_Inr_inv db_take_inv db_updates_inv checkpoint_tbl_def Let_def split: if_splits)
      have "rows = replaced_row row (checkpoint_claimed owner until (cp_Version row + 1) now row) (checkpoints w)"
        unfolding chk.updates_rows [OF upd] using row by (intro update_one_row [OF one]) auto
      with False w' res show ?thesis by auto
    qed
  qed
qed

end

subsection \<open>Steps of several workers\<close>

text \<open>What may happen to the checkpoints: any worker claims, records a batch or releases, with any arguments and any outcome, and
  everything else leaves the rows alone.\<close>

inductive checkpoint_step :: "integ_env \<Rightarrow> integ_world \<Rightarrow> integ_world \<Rightarrow> bool" for I :: integ_env where
  claim: "claimCheckpoint I key owner now lease nxt cursor w = (r, w') \<Longrightarrow> checkpoint_step I w w'"
| advance: "persistClaimedBatch I c result ds t w = (r, w') \<Longrightarrow> checkpoint_step I w w'"
| release: "releaseCheckpoint I c now w = (r, w') \<Longrightarrow> checkpoint_step I w w'"
| elsewhere: "checkpoints w' = checkpoints w \<Longrightarrow> checkpoint_step I w w'"

definition rows_move :: "Checkpoint list \<Rightarrow> Checkpoint list \<Rightarrow> bool" where
  "rows_move cs cs' \<longleftrightarrow> one_row_each cs' \<and>
     (\<forall>key v. at_version key v cs \<longrightarrow> at_version key v cs' \<or> at_version key (v + 1) cs')"

lemma rows_move_refl: "one_row_each cs \<Longrightarrow> rows_move cs cs"
  by (simp add: rows_move_def)

lemma rows_move_replaced:
  assumes "one_row_each cs" and "r \<in> set cs" and "cp_CycleKey r' = cp_CycleKey r" and "cp_Version r' = cp_Version r + 1"
  shows "rows_move cs (replaced_row r r' cs)"
proof -
  have "at_version key v (replaced_row r r' cs) \<or> at_version key (v + 1) (replaced_row r r' cs)" if v: "at_version key v cs" for key v
  proof (cases "key = cp_CycleKey r")
    case True
    with assms(2) have "at_version key (cp_Version r) cs" by (auto simp: at_version_def)
    with v assms(1) have "v = cp_Version r" by (metis at_version_unique)
    with at_version_replaced [OF assms(1-3) v] True assms(4) show ?thesis by simp
  next
    case False
    with at_version_replaced [OF assms(1-3) v] show ?thesis by simp
  qed
  with assms show ?thesis by (simp add: rows_move_def one_row_each_def replaced_row_keys)
qed

lemma held_update_moves:
  assumes "one_row_each cs" and "\<And>r. cp_CycleKey (f r) = cp_CycleKey r" and "\<And>r. cp_Version (f r) = cp_Version r + 1"
  shows "rows_move cs (update_where (checkpoint_held c) f cs)"
proof (cases "\<exists>r\<in>set cs. checkpoint_held c r")
  case True
  then obtain r where r: "r \<in> set cs" "checkpoint_held c r" by blast
  then have "update_where (checkpoint_held c) f cs = replaced_row r (f r) cs"
    by (intro update_one_row [OF assms(1)]) (auto simp: checkpoint_held_def)
  with rows_move_replaced [OF assms(1) r(1)] assms(2,3) show ?thesis by simp
next
  case False
  then have "update_where (checkpoint_held c) f cs = cs" by (intro update_where_id) blast
  with assms(1) rows_move_refl show ?thesis by simp
qed

text \<open>After a number of changes the version is at most so much higher.\<close>

lemma moved_version:
  assumes "rows_move cs cs'" and "at_version key (v + of_nat k) cs" and "k \<le> n"
  shows "\<exists>k'\<le>Suc n. k \<le> k' \<and> at_version key (v + of_nat k') cs'"
proof -
  have "v + of_nat (Suc k) = v + of_nat k + 1" by simp
  with assms(1,2) consider "at_version key (v + of_nat k) cs'" | "at_version key (v + of_nat (Suc k)) cs'"
    unfolding rows_move_def by metis
  then show ?thesis using assms(3) by cases (auto intro: exI [of _ k] exI [of _ "Suc k"])
qed

context integrity_store
begin

lemma seed_keeps:
  assumes "seed_checkpoint I key cursor now w = (r, w1)" and "one_row_each (checkpoints w)"
  shows "one_row_each (checkpoints w1)" and "at_version k v (checkpoints w) \<Longrightarrow> at_version k v (checkpoints w1)"
  using seed_done [OF assms(1)] assms(2) by (cases; auto simp: one_row_each_def at_version_def)+

lemma take_moves:
  assumes run: "integ_tx I (take_checkpoint I key owner now until nxt) w = (r, w')" and one: "one_row_each (checkpoints w)"
  shows "rows_move (checkpoints w) (checkpoints w')"
proof (cases r)
  case (Inl e)
  with run integ_tx_failed have "same_tables w w'" by blast
  with one rows_move_refl show ?thesis by (simp add: same_tables_def)
next
  case (Inr res)
  with run have "take_checkpoint I key owner now until nxt w = (Inr res, w')" by (simp add: integ_tx_done)
  then show ?thesis
  proof (rule take_done [OF _ one])
    fix row cursor marks
    assume row: "row \<in> set (checkpoints w)"
      and alt: "if cp_Status row = reconciliationCheckpointCompleted then w' = w \<and> cr_Claim res = None \<and> cr_WaitUntil res = nxt
        else if checkpoint_leased owner now row then w' = w \<and> cr_Claim res = None \<and> Some (cr_WaitUntil res) = cp_LeaseUntil row
        else w' = w\<lparr>checkpoints := replaced_row row (checkpoint_claimed owner until (cp_Version row + 1) now row) (checkpoints w)\<rparr> \<and>
          cr_Claim res = Some \<lparr>ck_CycleKey = key, ck_Cursor = cursor, ck_HighWatermarks = marks, ck_Owner = owner, ck_Version = cp_Version row + 1\<rparr>"
    have "rows_move (checkpoints w) (replaced_row row (checkpoint_claimed owner until (cp_Version row + 1) now row) (checkpoints w))"
      by (rule rows_move_replaced [OF one row]) simp_all
    with alt rows_move_refl [OF one] show ?thesis by (auto split: if_splits)
  qed
qed

lemma claim_moves:
  assumes run: "claimCheckpoint I key owner now lease nxt cursor w = (r, w')" and one: "one_row_each (checkpoints w)"
  shows "rows_move (checkpoints w) (checkpoints w')"
proof (cases "w' = w")
  case True
  with one rows_move_refl show ?thesis by simp
next
  case False
  let ?now = "truncate_to nanos_per_milli now"
  from run False obtain cur where run1: "go_bind (seed_checkpoint I key cur ?now) (\<lambda>_.
      integ_tx I (take_checkpoint I key (normalizeIntegrityOwner I owner) ?now (?now + lease) nxt)) w = (r, w')"
    unfolding claimCheckpoint_def Let_def by (auto simp: go_err_def split: if_splits sum.splits)
  obtain s w1 where seed: "seed_checkpoint I key cur ?now w = (s, w1)" by fastforce
  note kept = seed_keeps [OF seed one]
  have "rows_move (checkpoints w1) (checkpoints w')"
  proof (cases s)
    case (Inl e)
    with run1 seed have "w' = w1" by (simp add: go_bind_def)
    with kept(1) rows_move_refl show ?thesis by simp
  next
    case (Inr u)
    with run1 seed have "integ_tx I (take_checkpoint I key (normalizeIntegrityOwner I owner) ?now (?now + lease) nxt) w1 = (r, w')"
      by (simp add: go_bind_def)
    with take_moves kept(1) show ?thesis by blast
  qed
  with kept(2) show ?thesis by (auto simp: rows_move_def)
qed

lemma release_moves:
  assumes run: "releaseCheckpoint I c now w = (r, w')" and one: "one_row_each (checkpoints w)"
  shows "rows_move (checkpoints w) (checkpoints w')"
proof (cases "ig_db I")
  case False
  with run one rows_move_refl show ?thesis by (auto simp: releaseCheckpoint_def go_ok_def)
next
  case True
  show ?thesis
  proof (cases "sql_updates (ig_checkpointE I) (checkpoint_held c) (checkpoint_freed now) (checkpoints w)")
    case (Inl e)
    with run True have "w' = w"
      by (auto simp: releaseCheckpoint_def go_bind_def go_try_def db_updates_def checkpoint_tbl_def go_ok_def go_err_def split: if_splits)
    with one rows_move_refl show ?thesis by simp
  next
    case (Inr p)
    then obtain rows n where upd: "sql_updates (ig_checkpointE I) (checkpoint_held c) (checkpoint_freed now) (checkpoints w) = Inr (rows, n)"
      by (cases p) simp
    with run True have "checkpoints w' = rows"
      by (auto simp: releaseCheckpoint_def go_bind_def go_try_def db_updates_def checkpoint_tbl_def go_ok_def)
    with chk.updates_rows [OF upd] held_update_moves [OF one] show ?thesis by simp
  qed
qed

lemma advance_done:
  assumes run: "persistClaimedBatch I c result ds t w = (Inr u, w')"
  obtains row w1 where "row \<in> set (checkpoints w)" and "cp_CycleKey row = ck_CycleKey c" and "cp_Version row = ck_Version c"
    and "cp_Status row = reconciliationCheckpointRunning" and "cp_LeaseOwner row = Some (ck_Owner c)"
    and "persistDiscrepanciesWithTx I ds t w = (Inr (), w1)" and "checkpoints w1 = checkpoints w"
    and "w' = w1\<lparr>checkpoints := update_where (checkpoint_held c) (checkpoint_advanced result t) (checkpoints w)\<rparr>"
proof -
  from run have run1: "advance_checkpoint I c result ds t w = (Inr u, w')"
    unfolding persistClaimedBatch_def by (auto simp: integ_tx_done split: if_splits)
  then obtain row w1 rows where tk: "sql_take (ig_checkpointE I) (\<lambda>x. cp_CycleKey x = ck_CycleKey c) (checkpoints w) = Inr row"
    and row: "cp_Version row = ck_Version c" "cp_Status row = reconciliationCheckpointRunning" "cp_LeaseOwner row = Some (ck_Owner c)"
    and per: "persistDiscrepanciesWithTx I ds t w = (Inr (), w1)"
    and upd: "sql_updates (ig_checkpointE I) (checkpoint_held c) (checkpoint_advanced result t) (checkpoints w1) = Inr (rows, 1)"
    and w': "w' = w1\<lparr>checkpoints := rows\<rparr>"
    unfolding advance_checkpoint_def by (auto simp: go_bind_Inr_inv db_take_inv db_updates_inv checkpoint_tbl_def split: if_splits)
  have cs: "checkpoints w1 = checkpoints w" using go_keepsD [OF keeps_persist per] by simp
  from chk.take_row [OF tk] chk.updates_rows [OF upd] that row per cs w' show thesis by auto
qed

lemma advance_moves:
  assumes run: "persistClaimedBatch I c result ds t w = (r, w')" and one: "one_row_each (checkpoints w)"
  shows "rows_move (checkpoints w) (checkpoints w')"
proof (cases r)
  case (Inl e)
  with run have "same_tables w w'" unfolding persistClaimedBatch_def by (auto simp: go_err_def dest: integ_tx_failed split: if_splits)
  with one rows_move_refl show ?thesis by (simp add: same_tables_def)
next
  case (Inr u)
  from advance_done [OF run [unfolded Inr]] obtain w1 where
    "w' = w1\<lparr>checkpoints := update_where (checkpoint_held c) (checkpoint_advanced result t) (checkpoints w)\<rparr>" by blast
  with held_update_moves [OF one, of "checkpoint_advanced result t" c] show ?thesis by simp
qed

lemma step_moves: "checkpoint_step I w w' \<Longrightarrow> one_row_each (checkpoints w) \<Longrightarrow> rows_move (checkpoints w) (checkpoints w')"
  by (induction rule: checkpoint_step.induct) (auto intro: claim_moves advance_moves release_moves rows_move_refl)

lemma steps_move:
  "(checkpoint_step I ^^ n) w w' \<Longrightarrow> one_row_each (checkpoints w) \<Longrightarrow> at_version key v (checkpoints w) \<Longrightarrow>
     one_row_each (checkpoints w') \<and> (\<exists>k\<le>n. at_version key (v + of_nat k) (checkpoints w'))"
proof (induction n arbitrary: w')
  case (Suc n)
  from Suc.prems(1) obtain u where "(checkpoint_step I ^^ n) w u" and step: "checkpoint_step I u w'" by auto
  with Suc obtain k where u: "one_row_each (checkpoints u)" "k \<le> n" "at_version key (v + of_nat k) (checkpoints u)" by blast
  with step step_moves have m: "rows_move (checkpoints u) (checkpoints w')" by blast
  with moved_version [OF m u(3,2)] show ?case by (auto simp: rows_move_def)
qed simp

text \<open>A claim that was granted is at the version of its row, one above what the row had.\<close>

lemma claim_granted:
  assumes run: "claimCheckpoint I key owner now lease nxt cursor w = (Inr res, w')" and one: "one_row_each (checkpoints w)"
    and got: "cr_Claim res = Some c"
  shows "ck_CycleKey c = key" and "at_version key (ck_Version c) (checkpoints w')" and "one_row_each (checkpoints w')"
    and "at_version key v (checkpoints w) \<Longrightarrow> ck_Version c = v + 1"
proof -
  let ?now = "truncate_to nanos_per_milli now" and ?o = "normalizeIntegrityOwner I owner"
  from run obtain cur w1 where seed: "seed_checkpoint I key cur ?now w = (Inr (), w1)"
    and tk: "take_checkpoint I key ?o ?now (?now + lease) nxt w1 = (Inr res, w')"
    unfolding claimCheckpoint_def Let_def by (auto simp: go_bind_Inr_inv integ_tx_done split: if_splits sum.splits)
  note kept = seed_keeps [OF seed one]
  obtain row where row: "row \<in> set (checkpoints w1)" "cp_CycleKey row = key"
    and w': "w' = w1\<lparr>checkpoints := replaced_row row (checkpoint_claimed ?o (?now + lease) (cp_Version row + 1) ?now row) (checkpoints w1)\<rparr>"
    and c: "ck_CycleKey c = key" "ck_Version c = cp_Version row + 1"
    by (rule take_done [OF tk kept(1)]) (use got in \<open>auto split: if_splits\<close>)
  have at: "at_version key (cp_Version row) (checkpoints w1)" using row by (auto simp: at_version_def)
  show "ck_CycleKey c = key" by (rule c)
  show "at_version key (ck_Version c) (checkpoints w')"
    using at_version_replaced [OF kept(1) row(1) _ at, of "checkpoint_claimed ?o (?now + lease) (cp_Version row + 1) ?now row"] row c
    by (simp add: w')
  show "one_row_each (checkpoints w')" using claim_moves [OF run one] by (simp add: rows_move_def)
  assume "at_version key v (checkpoints w)"
  with kept at have "v = cp_Version row" by (metis at_version_unique)
  with c show "ck_Version c = v + 1" by simp
qed

text \<open>A claim that another one followed for the same cycle is void, however many steps (below the width of the version) lie between.\<close>

lemma superseded:
  assumes first: "claimCheckpoint I key o1 t1 l1 n1 c1 w0 = (Inr res1, w1)" "cr_Claim res1 = Some claim" and one: "one_row_each (checkpoints w0)"
    and between: "(checkpoint_step I ^^ n) w1 w2"
    and second: "claimCheckpoint I key o2 t2 l2 n2 c2 w2 = (Inr res2, w3)" "cr_Claim res2 = Some claim2"
    and later: "(checkpoint_step I ^^ m) w3 w4" and few: "n + m + 1 < 2 ^ 64"
  shows "\<not> at_version key (ck_Version claim) (checkpoints w4)" and "one_row_each (checkpoints w4)" and "ck_CycleKey claim = key"
proof -
  let ?v = "ck_Version claim"
  note g1 = claim_granted [OF first(1) one first(2)]
  obtain k where k: "k \<le> n" "at_version key (?v + of_nat k) (checkpoints w2)" and one2: "one_row_each (checkpoints w2)"
    using steps_move [OF between g1(3,2)] by blast
  note g2 = claim_granted [OF second(1) one2 second(2)]
  obtain j where j: "j \<le> m" "at_version key (ck_Version claim2 + of_nat j) (checkpoints w4)" and one4: "one_row_each (checkpoints w4)"
    using steps_move [OF later g2(3,2)] by blast
  show "ck_CycleKey claim = key" "one_row_each (checkpoints w4)" by (fact g1(1), fact one4)
  show "\<not> at_version key ?v (checkpoints w4)"
  proof
    assume "at_version key ?v (checkpoints w4)"
    with j(2) one4 have "ck_Version claim2 + of_nat j = ?v" by (rule at_version_unique [rotated -1])
    then have "?v + of_nat (k + 1 + j) = ?v" using g2(4) [OF k(2)] by (simp add: ac_simps)
    then have "(of_nat (k + 1 + j) :: go_uint) = 0" by (simp only: add_cancel_left_right)
    then have "2 ^ 64 dvd k + 1 + j" by (simp only: word_of_nat_eq_0_iff) simp
    with k(1) j(1) few show False by (auto dest: dvd_imp_le)
  qed
qed

lemma void_claim:
  assumes void: "\<not> at_version (ck_CycleKey c) (ck_Version c) (checkpoints w)" and one: "one_row_each (checkpoints w)"
  shows "persistClaimedBatch I c result ds t w = (r, w') \<Longrightarrow> (\<exists>e. r = Inl e) \<and> same_tables w w'"
    and "releaseCheckpoint I c now w = (r', w'') \<Longrightarrow> same_tables w w''"
proof -
  assume run: "persistClaimedBatch I c result ds t w = (r, w')"
  have "\<exists>e. r = Inl e"
  proof (cases r)
    case (Inr u)
    from advance_done [OF run [unfolded Inr]] void show ?thesis unfolding at_version_def by metis
  qed simp
  then show "(\<exists>e. r = Inl e) \<and> same_tables w w'"
    using run unfolding persistClaimedBatch_def by (auto simp: go_err_def dest: integ_tx_failed split: if_splits)
next
  assume run: "releaseCheckpoint I c now w = (r', w'')"
  have none: "update_where (checkpoint_held c) (checkpoint_freed now) (checkpoints w) = checkpoints w"
    using void by (intro update_where_id) (auto simp: at_version_def checkpoint_held_def)
  show "same_tables w w''"
  proof (cases "sql_updates (ig_checkpointE I) (checkpoint_held c) (checkpoint_freed now) (checkpoints w)")
    case (Inl e)
    with run show ?thesis
      by (auto simp: releaseCheckpoint_def go_bind_def go_try_def db_updates_def checkpoint_tbl_def go_ok_def go_err_def split: if_splits)
  next
    case (Inr p)
    then obtain rows n where upd: "sql_updates (ig_checkpointE I) (checkpoint_held c) (checkpoint_freed now) (checkpoints w) = Inr (rows, n)"
      by (cases p) simp
    from chk.updates_rows [OF upd] none have "rows = checkpoints w" by simp
    with run upd show ?thesis
      by (auto simp: releaseCheckpoint_def go_bind_def go_try_def db_updates_def checkpoint_tbl_def go_ok_def split: if_splits)
  qed
qed

text \<open>A lease that runs keeps every other owner away.\<close>

lemma lease_holds:
  assumes row: "row \<in> set (checkpoints w)" "cp_CycleKey row = key" "cp_Status row = reconciliationCheckpointRunning"
    and lease: "checkpoint_leased (normalizeIntegrityOwner I owner) (truncate_to nanos_per_milli now) row" and one: "one_row_each (checkpoints w)"
    and run: "claimCheckpoint I key owner now l nxt cursor w = (Inr res, w')"
  shows "cr_Claim res = None" and "w' = w" and "Some (cr_WaitUntil res) = cp_LeaseUntil row"
proof -
  let ?now = "truncate_to nanos_per_milli now" and ?o = "normalizeIntegrityOwner I owner"
  from run obtain cur w1 where seed: "seed_checkpoint I key cur ?now w = (Inr (), w1)"
    and tk: "take_checkpoint I key ?o ?now (?now + l) nxt w1 = (Inr res, w')"
    unfolding claimCheckpoint_def Let_def by (auto simp: go_bind_Inr_inv integ_tx_done split: if_splits sum.splits)
  from seed_done [OF seed] row have w1: "w1 = w" by cases auto
  have running: "cp_Status row \<noteq> reconciliationCheckpointCompleted"
    using row(3) by (simp add: reconciliationCheckpointRunning_def reconciliationCheckpointCompleted_def)
  have "cr_Claim res = None \<and> w' = w \<and> Some (cr_WaitUntil res) = cp_LeaseUntil row"
  proof (rule take_done [OF tk [unfolded w1] one])
    fix row' cursor' marks
    assume r': "row' \<in> set (checkpoints w)" "cp_CycleKey row' = key"
      and alt: "if cp_Status row' = reconciliationCheckpointCompleted then w' = w \<and> cr_Claim res = None \<and> cr_WaitUntil res = nxt
        else if checkpoint_leased ?o ?now row' then w' = w \<and> cr_Claim res = None \<and> Some (cr_WaitUntil res) = cp_LeaseUntil row'
        else w' = w\<lparr>checkpoints := replaced_row row' (checkpoint_claimed ?o (?now + l) (cp_Version row' + 1) ?now row') (checkpoints w)\<rparr> \<and>
          cr_Claim res = Some \<lparr>ck_CycleKey = key, ck_Cursor = cursor', ck_HighWatermarks = marks, ck_Owner = ?o, ck_Version = cp_Version row' + 1\<rparr>"
    have "row' = row" using distinct_key_unique [OF one [unfolded one_row_each_def] r'(1) row(1)] r'(2) row(2) by simp
    with alt running lease show ?thesis by simp
  qed
  then show "cr_Claim res = None" "w' = w" "Some (cr_WaitUntil res) = cp_LeaseUntil row" by simp_all
qed

text \<open>The row a granted claim leaves.\<close>

lemma granted_row:
  assumes run: "claimCheckpoint I key owner now lease nxt cursor w = (Inr res, w')" and one: "one_row_each (checkpoints w)"
    and got: "cr_Claim res = Some c"
  obtains row where "row \<in> set (checkpoints w')" and "cp_CycleKey row = key" and "cp_Status row = reconciliationCheckpointRunning"
    and "cp_LeaseOwner row = Some (normalizeIntegrityOwner I owner)" and "cp_LeaseUntil row = Some (truncate_to nanos_per_milli now + lease)"
    and "ck_Owner c = normalizeIntegrityOwner I owner" and "cp_Version row = ck_Version c"
proof -
  let ?now = "truncate_to nanos_per_milli now" and ?o = "normalizeIntegrityOwner I owner"
  from run obtain cur w1 where seed: "seed_checkpoint I key cur ?now w = (Inr (), w1)"
    and tk: "take_checkpoint I key ?o ?now (?now + lease) nxt w1 = (Inr res, w')"
    unfolding claimCheckpoint_def Let_def by (auto simp: go_bind_Inr_inv integ_tx_done split: if_splits sum.splits)
  note kept = seed_keeps [OF seed one]
  obtain row where row: "row \<in> set (checkpoints w1)" "cp_CycleKey row = key"
    and w': "w' = w1\<lparr>checkpoints := replaced_row row (checkpoint_claimed ?o (?now + lease) (cp_Version row + 1) ?now row) (checkpoints w1)\<rparr>"
    and c: "ck_Owner c = ?o" "ck_Version c = cp_Version row + 1"
    by (rule take_done [OF tk kept(1)]) (use got in \<open>auto split: if_splits\<close>)
  show thesis
    by (rule that [of "checkpoint_claimed ?o (?now + lease) (cp_Version row + 1) ?now row"])
      (use row c in \<open>simp_all add: w' replaced_row_set checkpoint_claimed_def\<close>)
qed

end

end
