(* ===== verification/Integrity_Properties.thy ===== *)
theory Integrity_Properties
  imports Integrity_Reachable Integrity_Worker Gift_Demo
begin

text \<open>
  The properties of the reconciliation, each with a witness on the tables kept in memory.
\<close>

subsection \<open>Replaying the ledger of a lot\<close>

text \<open>C11: The replay check reports nothing exactly for the lots whose rows explain their balance: there is a row; every row belongs to the
  owner, moves something, starts at the sum of the rows before it and ends at that sum plus its own delta, between zero and the total of
  the lot; all rows add up to the available quantity; and the status fits it. The sums are those of the integers: the wrap-around of the
  code's \<open>int64\<close> arithmetic does not change the verdict.\<close>

theorem integrity_replay_exact:
  "checkLotReplay lot ts = None \<longleftrightarrow>
     ts \<noteq> [] \<and>
     (\<forall>k<length ts. let b = (\<Sum>t\<leftarrow>take k ts. sint (txn_QuantityDelta t)) in
        txn_OwnerCustomerID (ts ! k) = lot_OwnerCustomerID lot \<and> txn_QuantityDelta (ts ! k) \<noteq> 0 \<and>
        sint (txn_BeforeAvailableQuantity (ts ! k)) = b \<and>
        sint (txn_AfterAvailableQuantity (ts ! k)) = b + sint (txn_QuantityDelta (ts ! k)) \<and>
        0 \<le> b + sint (txn_QuantityDelta (ts ! k)) \<and> b + sint (txn_QuantityDelta (ts ! k)) \<le> sint (lot_TotalQuantity lot)) \<and>
     (\<Sum>t\<leftarrow>ts. sint (txn_QuantityDelta t)) = sint (lot_AvailableQuantity lot) \<and>
     (lot_Status lot = LotStatusActive \<and> lot_AvailableQuantity lot \<noteq> 0 \<or>
      lot_Status lot \<in> {LotStatusDepleted, LotStatusExpired, LotStatusRefunded} \<and> lot_AvailableQuantity lot = 0)"
proof -
  have "lot_status_valid lot \<longleftrightarrow> lot_Status lot = LotStatusActive \<and> lot_AvailableQuantity lot \<noteq> 0 \<or>
      lot_Status lot \<in> {LotStatusDepleted, LotStatusExpired, LotStatusRefunded} \<and> lot_AvailableQuantity lot = 0"
    by (auto simp: lot_status_valid_def word_gt_0)
  then show ?thesis unfolding checkLotReplay_exact lot_reproduced_def row_fits_def row_deltas_def Let_def by simp
qed

theorem integrity_replay_exact_witness: "checkLotReplay demo_lot [demo_row] = None"
  unfolding integrity_replay_exact by (simp add: demo_lot_def demo_row_def)

lemma demo_cellar_true: "ledger_true demo_cellar"
  using demo_cellar_books
  by (simp add: ledger_true_def history_def lot_reproduced_def row_fits_def rows_of_def row_deltas_def lot_status_valid_def)
    (simp add: demo_cellar_def demo_lot_def late_lot_def demo_row_def late_row_def)



end
