(* ===== verification/Integrity_Cycles.thy ===== *)
theory Integrity_Cycles
  imports Integrity_Leases Integrity_Properties
begin

text \<open>
  The properties of the checkpoint and of the exceptions, with witnesses on tables kept in memory: batches are recorded whole or not at
  all, a lease keeps other workers away, a superseded claim is void, and where a new cycle starts.
\<close>

lemma checkpoint_cursor_at:
  "checkpoint_cursor I row = Inr (c, m) \<Longrightarrow>
     cur_Phase c = (if cp_Phase row = [] then hd reconciliationPhases else cp_Phase row) \<and> cur_LastID c = cp_LastID row"
  by (auto simp: checkpoint_cursor_def normalizeIntegrityCursor_def Let_def split: sum.splits option.splits if_splits)

lemma normalized_phase: "normalizeIntegrityCursor cursor = Inr cur \<Longrightarrow> cur_Phase cur = [] \<Longrightarrow> hd reconciliationPhases = []"
  by (auto simp: normalizeIntegrityCursor_def Let_def split: if_splits)

context integrity_store
begin

lemma batch_recorded:
  assumes run: "persistClaimedBatch I c result ds t w = (Inr u, w')" and ok: "exceptions_ok (exceptions w)" and one: "one_row_each (checkpoints w)"
  obtains row where "row \<in> set (checkpoints w)" and "checkpoint_held c row" and "cp_Status row = reconciliationCheckpointRunning"
    and "checkpoints w' = replaced_row row (checkpoint_advanced result t row) (checkpoints w)"
    and "exceptions_ok (exceptions w')" and "scan_view w' = scan_view w"
    and "\<forall>x\<in>set (exceptions w). \<exists>x'\<in>set (exceptions w'). exception_grows x x' \<and> (x' = x \<or> ex_LastDetectedAt x' = t)"
    and "\<forall>d\<in>set ds. \<exists>!e. e \<in> set (exceptions w') \<and> exception_for d e" and "\<forall>d\<in>set ds. \<exists>e\<in>set (exceptions w'). exception_for d e \<and> ex_LastDetectedAt e = t"
proof -
  obtain row w1 where row: "row \<in> set (checkpoints w)" "checkpoint_held c row" "cp_Status row = reconciliationCheckpointRunning"
    and per: "persistDiscrepanciesWithTx I ds t w = (Inr (), w1)"
    and w': "w' = w1\<lparr>checkpoints := update_where (checkpoint_held c) (checkpoint_advanced result t) (checkpoints w)\<rparr>"
    by (rule advance_done [OF run]) (auto simp: checkpoint_held_def)
  note rec = persist_done [OF per ok]
  have upd: "update_where (checkpoint_held c) (checkpoint_advanced result t) (checkpoints w) =
      replaced_row row (checkpoint_advanced result t row) (checkpoints w)"
    using row by (intro update_one_row [OF one]) (auto simp: checkpoint_held_def)
  have "\<exists>!e. e \<in> set (exceptions w1) \<and> exception_for d e" if "d \<in> set ds" for d
    using rec(1,5) that only_one_exception by metis
  with that row rec show thesis by (simp add: w' upd scan_view_def)
qed

lemma cycle_start:
  assumes run: "claimCheckpoint I key owner now lease nxt cursor w = (Inr res, w')" and one: "one_row_each (checkpoints w)"
    and got: "cr_Claim res = Some c" and new: "\<forall>row\<in>set (checkpoints w). cp_CycleKey row \<noteq> key"
  shows "\<exists>cur. normalizeIntegrityCursor cursor = Inr cur \<and> cur_Phase (ck_Cursor c) = cur_Phase cur \<and> cur_LastID (ck_Cursor c) = cur_LastID cur"
proof -
  let ?now = "truncate_to nanos_per_milli now" and ?o = "normalizeIntegrityOwner I owner"
  from run obtain cur w1 where cur: "normalizeIntegrityCursor cursor = Inr cur" and seed: "seed_checkpoint I key cur ?now w = (Inr (), w1)"
    and tk: "take_checkpoint I key ?o ?now (?now + lease) nxt w1 = (Inr res, w')"
    unfolding claimCheckpoint_def Let_def by (auto simp: go_bind_Inr_inv integ_tx_done split: if_splits sum.splits)
  note kept = seed_keeps [OF seed one]
  obtain row marks where row: "row \<in> set (checkpoints w1)" "cp_CycleKey row = key" and c: "checkpoint_cursor I row = Inr (ck_Cursor c, marks)"
    by (rule take_done [OF tk kept(1)]) (use got in \<open>auto split: if_splits\<close>)
  from seed_done [OF seed] row new obtain raw where "row = checkpoint_seed key cur raw ?now" by cases auto
  with c have "cur_Phase (ck_Cursor c) = cur_Phase cur \<and> cur_LastID (ck_Cursor c) = cur_LastID cur"
    using checkpoint_cursor_at [OF c] normalized_phase [OF cur] by (auto simp: checkpoint_seed_def split: if_splits)
  with cur show ?thesis by blast
qed

end

subsection \<open>Tables in memory\<close>

definition mem_integ :: integ_env where
  "mem_integ =
     \<lparr>ig_gift = mem_gift, ig_redemptionE = mem_engine (=) (\<lambda>_. True), ig_refundE = mem_engine (=) (\<lambda>_. True),
      ig_renewalE = mem_engine (=) (\<lambda>_. True), ig_exceptionE = mem_engine exception_clash (\<lambda>_. True),
      ig_checkpointE = mem_engine checkpoint_clash (\<lambda>_. True), ig_scan = (\<lambda>_ afterID _ _ _. Inr (0, afterID, [])), ig_maxID = (\<lambda>_ _. Inr 100),
      ig_marshal = (\<lambda>_. Inr ''{}''), ig_marks = (\<lambda>_. Inr ''{}''), ig_unmarks = (\<lambda>_. Inr (\<lambda>_. Some 100)), ig_sha256 = (\<lambda>_. []),
      ig_commit = (\<lambda>_. None), ig_db = True, ig_ids = True\<rparr>"

interpretation mem_integ: integrity_store mem_integ "\<lambda>_. True" "\<lambda>_. True"
  by (simp add: integrity_store_def mem_integ_def mem_table.gorm_table_axioms)

definition demo_audit :: integ_world where
  "demo_audit = \<lparr>facts = demo_cellar, redemption_allocations = [], refund_allocations = [], renewal_rows = [], exceptions = [], checkpoints = []\<rparr>"

definition demo_cursor :: IntegrityCursor where
  "demo_cursor = \<lparr>cur_Phase = IntegrityPhaseLots, cur_LastID = 40, cur_UpperID = Some 60\<rparr>"

definition demo_claim :: "string \<Rightarrow> go_time \<Rightarrow> (integ_world, go_error, reconciliationClaimResult) go" where
  "demo_claim owner now = claimCheckpoint mem_integ ''2026-07-26'' owner now nanos_per_second (9 * nanos_per_second) demo_cursor"

definition demo_claimed :: "string \<Rightarrow> go_uint \<Rightarrow> reconciliationCheckpointClaim" where
  "demo_claimed owner v = \<lparr>ck_CycleKey = ''2026-07-26'', ck_Cursor = demo_cursor\<lparr>cur_UpperID := Some 100\<rparr>, ck_HighWatermarks = (\<lambda>_. Some 100),
     ck_Owner = owner, ck_Version = v\<rparr>"

definition demo_result :: "string \<Rightarrow> go_uint \<Rightarrow> reconciliationClaimResult" where
  "demo_result owner v = \<lparr>cr_Claim = Some (demo_claimed owner v), cr_Cursor = demo_cursor\<lparr>cur_UpperID := Some 100\<rparr>, cr_WaitUntil = 0\<rparr>"

definition demo_checkpoint :: "string \<Rightarrow> go_time \<Rightarrow> go_uint \<Rightarrow> Checkpoint" where
  "demo_checkpoint owner now v = checkpoint_claimed owner (now + nanos_per_second) v now (checkpoint_seed ''2026-07-26'' demo_cursor ''{}'' 0)"

lemma mem_integ_sel:
  "ig_checkpointE mem_integ = mem_engine checkpoint_clash (\<lambda>_. True)" "ig_exceptionE mem_integ = mem_engine exception_clash (\<lambda>_. True)"
  "ig_maxID mem_integ = (\<lambda>_ _. Inr 100)" "ig_marks mem_integ = (\<lambda>_. Inr ''{}'')" "ig_unmarks mem_integ = (\<lambda>_. Inr (\<lambda>_. Some 100))"
  "ig_marshal mem_integ = (\<lambda>_. Inr ''{}'')" "ig_commit mem_integ = (\<lambda>_. None)" "ig_db mem_integ" "ig_ids mem_integ"
  by (simp_all add: mem_integ_def)

lemma demo_cursor_normal: "normalizeIntegrityCursor demo_cursor = Inr demo_cursor" "cur_Phase demo_cursor = IntegrityPhaseLots" "cur_LastID demo_cursor = 40"
  "normalizeIntegrityCursor \<lparr>cur_Phase = IntegrityPhaseLots, cur_LastID = 40, cur_UpperID = None\<rparr> = Inr (demo_cursor\<lparr>cur_UpperID := None\<rparr>)"
  by code_simp+

lemma demo_owner: "length (runes ''a'') = 1" "length (runes ''b'') = 1"
  by code_simp+

lemma demo_marks: "captureHighWatermarks mem_integ w = (Inr (map (\<lambda>phase. (phase, 100)) reconciliationPhases), w)"
proof -
  have "go_for (\<lambda>phase acc. go_bind (wrap_error (prefix phase) (go_read (\<lambda>_. Inr (100 :: uint64)))) (\<lambda>highID. go_ok (acc @ [(phase, highID)]))) ps acc w =
      (Inr (acc @ map (\<lambda>phase. (phase, 100)) ps), w)" for prefix :: "string \<Rightarrow> string" and ps acc
    by (induction ps arbitrary: acc) (simp_all add: go_bind_def go_ok_def wrap_error_def go_read_def)
  then show ?thesis unfolding captureHighWatermarks_def mem_integ_sel by simp
qed

lemma demo_seed:
  "seed_checkpoint mem_integ ''2026-07-26'' demo_cursor now (w\<lparr>checkpoints := []\<rparr>) =
     (Inr (), w\<lparr>checkpoints := [checkpoint_seed ''2026-07-26'' demo_cursor ''{}'' now]\<rparr>)"
  "cp_CycleKey row = ''2026-07-26'' \<Longrightarrow> checkpoints w = [row] \<Longrightarrow> seed_checkpoint mem_integ ''2026-07-26'' demo_cursor now w = (Inr (), w)"
  by (simp_all add: seed_checkpoint_def go_bind_def go_try_def db_take_def db_create_ignore_def checkpoint_tbl_def mem_integ_sel mem_engine_def demo_marks
      go_ok_def)

lemma demo_take:
  assumes "cp_CycleKey row = ''2026-07-26''" and "cp_Status row = reconciliationCheckpointRunning" and "cp_Phase row = IntegrityPhaseLots"
    and "cp_LastID row = 40" and "\<not> checkpoint_leased owner now row" and "checkpoints w = [row]"
  shows "take_checkpoint mem_integ ''2026-07-26'' owner now until nxt w =
    (Inr (demo_result owner (cp_Version row + 1)), w\<lparr>checkpoints := [checkpoint_claimed owner until (cp_Version row + 1) now row]\<rparr>)"
proof -
  have cur: "checkpoint_cursor mem_integ row = Inr (demo_cursor\<lparr>cur_UpperID := Some 100\<rparr>, \<lambda>_. Some 100)"
    using assms by (simp add: checkpoint_cursor_def demo_cursor_normal mem_integ_sel)
  have "cp_Status row \<noteq> reconciliationCheckpointCompleted"
    using assms(2) by (simp add: reconciliationCheckpointRunning_def reconciliationCheckpointCompleted_def)
  moreover have "checkpoint_claimed owner until (cp_Version row + 1) now row \<noteq> row"
    by (auto dest: arg_cong [where f = cp_Version])
  ultimately show ?thesis
    using assms cur by (simp add: take_checkpoint_def go_bind_def db_take_def db_updates_def checkpoint_tbl_def mem_integ_sel mem_engine_def
        update_where_def Let_def go_ok_def demo_result_def demo_claimed_def)
qed

lemma demo_claim_run:
  assumes "normalizeIntegrityOwner mem_integ owner = owner" and "owner \<noteq> []"
  shows "demo_claim owner now w = go_bind (seed_checkpoint mem_integ ''2026-07-26'' demo_cursor (truncate_to nanos_per_milli now))
    (\<lambda>_. integ_tx mem_integ (take_checkpoint mem_integ ''2026-07-26'' owner (truncate_to nanos_per_milli now)
      (truncate_to nanos_per_milli now + nanos_per_second) (9 * nanos_per_second))) w"
  using assms by (simp add: demo_claim_def claimCheckpoint_def Let_def mem_integ_sel demo_cursor_normal nanos_per_second_def)

lemma demo_owner_kept: "normalizeIntegrityOwner mem_integ ''a'' = ''a''" "normalizeIntegrityOwner mem_integ ''b'' = ''b''"
  by (simp_all add: normalizeIntegrityOwner_def demo_owner maxIntegrityCheckpointOwner_def)

lemma demo_tx:
  "take_checkpoint mem_integ key owner now until nxt w = (Inr a, w') \<Longrightarrow> integ_tx mem_integ (take_checkpoint mem_integ key owner now until nxt) w = (Inr a, w')"
  by (simp add: integ_tx_done mem_integ_sel)

lemma demo_first: "demo_claim ''a'' 0 demo_audit = (Inr (demo_result ''a'' 2), demo_audit\<lparr>checkpoints := [demo_checkpoint ''a'' 0 2]\<rparr>)"
proof -
  let ?row = "checkpoint_seed ''2026-07-26'' demo_cursor ''{}'' 0"
  have "take_checkpoint mem_integ ''2026-07-26'' ''a'' 0 nanos_per_second (9 * nanos_per_second) (demo_audit\<lparr>checkpoints := [?row]\<rparr>) =
      (Inr (demo_result ''a'' 2), demo_audit\<lparr>checkpoints := [demo_checkpoint ''a'' 0 2]\<rparr>)"
    by (subst demo_take [of ?row]) (simp_all add: checkpoint_seed_def checkpoint_leased_def demo_cursor_normal demo_checkpoint_def)
  from demo_tx [OF this] demo_seed(1) [of 0 demo_audit] show ?thesis
    by (simp add: demo_claim_run demo_owner_kept truncate_to_def go_bind_def demo_audit_def)
qed

text \<open>Once the lease is over, the other worker gets the cycle.\<close>

lemma demo_second:
  "demo_claim ''b'' (2 * nanos_per_second) (demo_audit\<lparr>checkpoints := [demo_checkpoint ''a'' 0 2]\<rparr>) =
     (Inr (demo_result ''b'' 3), demo_audit\<lparr>checkpoints := [checkpoint_claimed ''b'' (3 * nanos_per_second) 3 (2 * nanos_per_second) (demo_checkpoint ''a'' 0 2)]\<rparr>)"
proof -
  let ?row = "demo_checkpoint ''a'' 0 2" and ?w = "demo_audit\<lparr>checkpoints := [demo_checkpoint ''a'' 0 2]\<rparr>"
  have "take_checkpoint mem_integ ''2026-07-26'' ''b'' (2 * nanos_per_second) (3 * nanos_per_second) (9 * nanos_per_second) ?w =
      (Inr (demo_result ''b'' 3), demo_audit\<lparr>checkpoints := [checkpoint_claimed ''b'' (3 * nanos_per_second) 3 (2 * nanos_per_second) ?row]\<rparr>)"
    by (subst demo_take [of ?row])
      (simp_all add: demo_checkpoint_def checkpoint_seed_def checkpoint_claimed_def checkpoint_leased_def demo_cursor_normal nanos_per_second_def)
  from demo_tx [OF this] demo_seed(2) [of ?row ?w] show ?thesis
    by (simp add: demo_claim_run demo_owner_kept truncate_to_def go_bind_def nanos_per_second_def nanos_per_milli_def demo_checkpoint_def)
qed

text \<open>Before that it is turned away.\<close>

lemma demo_early:
  "demo_claim ''b'' (500 * nanos_per_milli) (demo_audit\<lparr>checkpoints := [demo_checkpoint ''a'' 0 2]\<rparr>) =
     (Inr \<lparr>cr_Claim = None, cr_Cursor = demo_cursor\<lparr>cur_UpperID := Some 100\<rparr>, cr_WaitUntil = nanos_per_second\<rparr>,
      demo_audit\<lparr>checkpoints := [demo_checkpoint ''a'' 0 2]\<rparr>)"
proof -
  let ?row = "demo_checkpoint ''a'' 0 2" and ?w = "demo_audit\<lparr>checkpoints := [demo_checkpoint ''a'' 0 2]\<rparr>"
  have row: "cp_CycleKey ?row = ''2026-07-26''" "cp_Status ?row \<noteq> reconciliationCheckpointCompleted" "cp_Phase ?row = IntegrityPhaseLots" "cp_LastID ?row = 40"
      "checkpoint_leased ''b'' (500 * nanos_per_milli) ?row" "cp_LeaseUntil ?row = Some nanos_per_second"
    by (simp_all add: demo_checkpoint_def checkpoint_seed_def checkpoint_claimed_def checkpoint_leased_def demo_cursor_normal nanos_per_second_def
        nanos_per_milli_def reconciliationCheckpointRunning_def reconciliationCheckpointCompleted_def)
  then have "checkpoint_cursor mem_integ ?row = Inr (demo_cursor\<lparr>cur_UpperID := Some 100\<rparr>, \<lambda>_. Some 100)"
    by (simp add: checkpoint_cursor_def demo_cursor_normal mem_integ_sel)
  with row have "take_checkpoint mem_integ ''2026-07-26'' ''b'' (500 * nanos_per_milli) (500 * nanos_per_milli + nanos_per_second) (9 * nanos_per_second) ?w =
      (Inr \<lparr>cr_Claim = None, cr_Cursor = demo_cursor\<lparr>cur_UpperID := Some 100\<rparr>, cr_WaitUntil = nanos_per_second\<rparr>, ?w)"
    by (simp add: take_checkpoint_def go_bind_def db_take_def checkpoint_tbl_def mem_integ_sel mem_engine_def go_ok_def)
  from demo_tx [OF this] demo_seed(2) [OF row(1), of ?w] show ?thesis
    by (simp add: demo_claim_run demo_owner_kept truncate_to_def go_bind_def nanos_per_milli_def)
qed

definition demo_discrepancy :: reconciliationDiscrepancy where
  "demo_discrepancy = \<lparr>dis_Rule = ''lot_replay'', dis_Kind = ''balance'', dis_BizType = ''wine_ticket_lot'', dis_BizID = 41, dis_BizNo = None,
     dis_IssuerMerchantID = None, dis_Severity = ''P0'', dis_Expected = JNull, dis_Actual = JNull\<rparr>"

definition demo_batch :: IntegrityBatchResult where
  "demo_batch = \<lparr>br_Phase = IntegrityPhaseLots, br_Checked = 1, br_Detected = 1, br_NextCursor = demo_cursor\<lparr>cur_LastID := 41\<rparr>,
     br_PhaseCompleted = False, br_CycleCompleted = False, br_CycleKey = [], br_LeaseAcquired = False, br_NextRunAt = None\<rparr>"

lemma demo_upsert:
  assumes "exceptions w = []"
  shows "\<exists>w'. upsertActiveException mem_integ demo_discrepancy t w = (Inr (), w') \<and> checkpoints w' = checkpoints w"
proof -
  obtain i g where nxt: "ids_Next (facts w) = (Inr i, (facts w)\<lparr>snow := g\<rparr>)" using next_effect by blast
  have snap: "reconciliationSnapshot mem_integ JNull = Inr ''null''" by (simp add: reconciliationSnapshot_def)
  have valid: "\<not> (dis_BizID demo_discrepancy = 0 \<or> dis_BizType demo_discrepancy = [] \<or> dis_Rule demo_discrepancy = [] \<or> dis_Kind demo_discrepancy = [])"
    "dis_Expected demo_discrepancy = JNull" "dis_Actual demo_discrepancy = JNull" by (simp_all add: demo_discrepancy_def)
  show ?thesis
    unfolding upsertActiveException_def Let_def if_not_P [OF valid(1)] valid(2,3) snap sum.case
    using assms nxt by (simp add: go_bind_def go_try_def db_take_def db_create_def exception_tbl_def mem_integ_sel mem_engine_def on_facts_def)
qed

lemma demo_recorded:
  "\<exists>w'. persistClaimedBatch mem_integ (demo_claimed ''a'' 2) demo_batch [demo_discrepancy] 5 (demo_audit\<lparr>checkpoints := [demo_checkpoint ''a'' 0 2]\<rparr>) =
     (Inr (), w')"
proof -
  let ?row = "demo_checkpoint ''a'' 0 2" and ?w = "demo_audit\<lparr>checkpoints := [demo_checkpoint ''a'' 0 2]\<rparr>"
  have row: "cp_CycleKey ?row = ''2026-07-26''" "cp_Status ?row = reconciliationCheckpointRunning" "cp_LeaseOwner ?row = Some ''a''" "cp_Version ?row = 2"
    by (simp_all add: demo_checkpoint_def checkpoint_claimed_def checkpoint_seed_def)
  have changes: "checkpoint_advanced demo_batch 5 ?row \<noteq> ?row" by (auto dest: arg_cong [where f = cp_Version])
  obtain w1 where up: "upsertActiveException mem_integ demo_discrepancy 5 ?w = (Inr (), w1)" and cs: "checkpoints w1 = [?row]"
    using demo_upsert [of ?w 5] by (auto simp: demo_audit_def)
  have "persistDiscrepanciesWithTx mem_integ [demo_discrepancy] 5 ?w = (Inr (), w1)"
    using up by (simp add: persistDiscrepanciesWithTx_def go_bind_def go_ok_def)
  then show ?thesis
    using row cs changes by (simp add: persistClaimedBatch_def mem_integ_sel integ_tx_done advance_checkpoint_def go_bind_def db_take_def db_updates_def
        checkpoint_tbl_def mem_engine_def demo_claimed_def checkpoint_held_def go_ok_def update_where_def)
qed

subsection \<open>Properties\<close>

text \<open>C12: A worker whose claim was superseded can do no harm. After a claim on a cycle was granted and later another claim on the same cycle,
  with any claims, batches, releases and other work of any workers before and after, fewer than \<open>2 ^ 64\<close> steps in all, recording a
  batch under the first claim fails and leaves every table as it was, and releasing under it changes no table.\<close>

theorem checkpoint_fenced:
  assumes "integrity_store I exception_fits checkpoint_fits" and "distinct (map cp_CycleKey (checkpoints w0))"
    and "claimCheckpoint I key o1 t1 l1 n1 c1 w0 = (Inr res1, w1)" and "cr_Claim res1 = Some claim"
    and "(checkpoint_step I ^^ n) w1 w2"
    and "claimCheckpoint I key o2 t2 l2 n2 c2 w2 = (Inr res2, w3)" and "cr_Claim res2 = Some claim2"
    and "(checkpoint_step I ^^ m) w3 w4" and "n + m + 1 < 2 ^ 64"
  shows "(case persistClaimedBatch I claim result ds t w4 of (r, w5) \<Rightarrow> (\<exists>e. r = Inl e) \<and> same_tables w4 w5) \<and>
    (case releaseCheckpoint I claim now w4 of (r, w5) \<Rightarrow> same_tables w4 w5)"
proof -
  have one: "one_row_each (checkpoints w0)" using assms(2) by (simp add: one_row_each_def)
  note void = integrity_store.superseded [OF assms(1,3,4) one assms(5-9)]
  from integrity_store.void_claim [OF assms(1) void(1,2) [folded void(3)]]
  have "persistClaimedBatch I claim result ds t w4 = (r, w5) \<Longrightarrow> (\<exists>e. r = Inl e) \<and> same_tables w4 w5"
    and "releaseCheckpoint I claim now w4 = (r', w6) \<Longrightarrow> same_tables w4 w6" for r w5 r' w6 by blast+
  then show ?thesis by (auto split: prod.splits)
qed

theorem checkpoint_fenced_witness:
  "\<exists>w. demo_claim ''b'' (2 * nanos_per_second) (snd (demo_claim ''a'' 0 demo_audit)) = (Inr (demo_result ''b'' 3), w) \<and>
     (case persistClaimedBatch mem_integ (demo_claimed ''a'' 2) demo_batch [demo_discrepancy] 5 w of (r, w5) \<Rightarrow> (\<exists>e. r = Inl e) \<and> same_tables w w5) \<and>
     (case releaseCheckpoint mem_integ (demo_claimed ''a'' 2) 6 w of (r, w5) \<Rightarrow> same_tables w w5)"
proof -
  let ?w1 = "demo_audit\<lparr>checkpoints := [demo_checkpoint ''a'' 0 2]\<rparr>"
  let ?w3 = "demo_audit\<lparr>checkpoints := [checkpoint_claimed ''b'' (3 * nanos_per_second) 3 (2 * nanos_per_second) (demo_checkpoint ''a'' 0 2)]\<rparr>"
  have "(case persistClaimedBatch mem_integ (demo_claimed ''a'' 2) demo_batch [demo_discrepancy] 5 ?w3 of (r, w5) \<Rightarrow> (\<exists>e. r = Inl e) \<and> same_tables ?w3 w5) \<and>
      (case releaseCheckpoint mem_integ (demo_claimed ''a'' 2) 6 ?w3 of (r, w5) \<Rightarrow> same_tables ?w3 w5)"
    by (rule checkpoint_fenced [OF mem_integ.integrity_store_axioms _ demo_first [unfolded demo_claim_def] _ _ demo_second [unfolded demo_claim_def],
        of _ 0 _ 0]) (simp_all add: demo_result_def demo_audit_def)
  then show ?thesis by (simp add: demo_first demo_second)
qed

text \<open>While the lease of a claim runs, every other owner is turned away: its claim on the cycle, at a time before the lease ends and with
  the row as the claim left it, is granted nothing, changes nothing and is told to wait until the end of the lease.\<close>

theorem checkpoint_exclusive:
  assumes "integrity_store I exception_fits checkpoint_fits" and "distinct (map cp_CycleKey (checkpoints w0))"
    and "claimCheckpoint I key o1 t1 lease n1 c1 w0 = (Inr res1, w1)" and "cr_Claim res1 = Some claim"
    and "checkpoints w2 = checkpoints w1"
    and "normalizeIntegrityOwner I o2 \<noteq> normalizeIntegrityOwner I o1"
    and "truncate_to nanos_per_milli t2 < truncate_to nanos_per_milli t1 + lease"
    and "claimCheckpoint I key o2 t2 l2 n2 c2 w2 = (Inr res2, w3)"
  shows "cr_Claim res2 = None \<and> w3 = w2 \<and> cr_WaitUntil res2 = truncate_to nanos_per_milli t1 + lease"
proof -
  have one: "one_row_each (checkpoints w0)" using assms(2) by (simp add: one_row_each_def)
  obtain row where row: "row \<in> set (checkpoints w2)" "cp_CycleKey row = key" "cp_Status row = reconciliationCheckpointRunning"
      "cp_LeaseOwner row = Some (normalizeIntegrityOwner I o1)" "cp_LeaseUntil row = Some (truncate_to nanos_per_milli t1 + lease)"
    using integrity_store.granted_row [OF assms(1,3) one assms(4)] assms(5) by metis
  have "checkpoint_leased (normalizeIntegrityOwner I o2) (truncate_to nanos_per_milli t2) row"
    using row assms(6,7) by (simp add: checkpoint_leased_def)
  moreover have "one_row_each (checkpoints w2)" using integrity_store.claim_granted(3) [OF assms(1,3) one assms(4)] assms(5) by simp
  ultimately show ?thesis using integrity_store.lease_holds [OF assms(1) row(1-3) _ _ assms(8)] row(5) by simp
qed

theorem checkpoint_exclusive_witness:
  "\<exists>res w. demo_claim ''b'' (500 * nanos_per_milli) (snd (demo_claim ''a'' 0 demo_audit)) = (Inr res, w) \<and> cr_Claim res = None \<and>
     cr_WaitUntil res = truncate_to nanos_per_milli 0 + nanos_per_second"
proof -
  let ?res = "\<lparr>cr_Claim = None, cr_Cursor = demo_cursor\<lparr>cur_UpperID := Some 100\<rparr>, cr_WaitUntil = nanos_per_second\<rparr>"
  let ?w1 = "demo_audit\<lparr>checkpoints := [demo_checkpoint ''a'' 0 2]\<rparr>"
  have "cr_Claim ?res = None \<and> ?w1 = ?w1 \<and> cr_WaitUntil ?res = truncate_to nanos_per_milli 0 + nanos_per_second"
    by (rule checkpoint_exclusive [OF mem_integ.integrity_store_axioms _ demo_first [unfolded demo_claim_def] _ _ _ _ demo_early [unfolded demo_claim_def]])
      (simp_all add: demo_audit_def demo_result_def demo_owner_kept truncate_to_def nanos_per_milli_def nanos_per_second_def)
  then show ?thesis by (simp add: demo_first demo_early)
qed

text \<open>C13: A batch is recorded whole or not at all. If recording fails, every table is as it was. If it succeeds, the claim held the running row
  at its version; the row is replaced by the advanced one and no other row changes; every discrepancy of the batch has exactly
  one active exception, last seen now; and every earlier exception is still there with its identity, its state in the review and the
  time it was first seen.\<close>

theorem batch_atomic:
  assumes "integrity_store I exception_fits checkpoint_fits" and "exceptions_ok (exceptions w)" and "distinct (map cp_CycleKey (checkpoints w))"
    and "persistClaimedBatch I claim result ds t w = (r, w')"
  shows "case r of
      Inl e \<Rightarrow> same_tables w w'
    | Inr _ \<Rightarrow> exceptions_ok (exceptions w') \<and> scan_view w' = scan_view w \<and>
        (\<exists>row\<in>set (checkpoints w). checkpoint_held claim row \<and> cp_Status row = reconciliationCheckpointRunning \<and>
           checkpoints w' = replaced_row row (checkpoint_advanced result t row) (checkpoints w)) \<and>
        (\<forall>d\<in>set ds. \<exists>e\<in>set (exceptions w'). exception_for d e \<and> ex_LastDetectedAt e = t \<and> (\<forall>e'\<in>set (exceptions w'). exception_for d e' \<longrightarrow> e' = e)) \<and>
        (\<forall>x\<in>set (exceptions w). \<exists>x'\<in>set (exceptions w'). exception_grows x x' \<and> (x' = x \<or> ex_LastDetectedAt x' = t))"
proof (cases r)
  case (Inl e)
  with assms(4) have "same_tables w w'" unfolding persistClaimedBatch_def by (auto simp: go_err_def dest: integ_tx_failed split: if_splits)
  with Inl show ?thesis by simp
next
  case (Inr u)
  have one: "one_row_each (checkpoints w)" using assms(3) by (simp add: one_row_each_def)
  show ?thesis
    by (rule integrity_store.batch_recorded [OF assms(1,4) [unfolded Inr] assms(2) one]) (unfold Inr sum.case, blast)
qed

theorem batch_atomic_witness:
  "\<exists>w'. persistClaimedBatch mem_integ (demo_claimed ''a'' 2) demo_batch [demo_discrepancy] 5 (snd (demo_claim ''a'' 0 demo_audit)) = (Inr (), w') \<and>
     (\<exists>e\<in>set (exceptions w'). exception_for demo_discrepancy e \<and> ex_LastDetectedAt e = 5)"
proof -
  obtain w' where run: "persistClaimedBatch mem_integ (demo_claimed ''a'' 2) demo_batch [demo_discrepancy] 5
      (demo_audit\<lparr>checkpoints := [demo_checkpoint ''a'' 0 2]\<rparr>) = (Inr (), w')" using demo_recorded by blast
  have "exceptions_ok (exceptions (demo_audit\<lparr>checkpoints := [demo_checkpoint ''a'' 0 2]\<rparr>))"
    "distinct (map cp_CycleKey (checkpoints (demo_audit\<lparr>checkpoints := [demo_checkpoint ''a'' 0 2]\<rparr>)))"
    by (simp_all add: exceptions_ok_def demo_audit_def)
  from batch_atomic [OF mem_integ.integrity_store_axioms this run] run show ?thesis by (auto simp: demo_first)
qed

text \<open>C14: A cycle starts where the worker that opens it stands: if there is no row for the cycle yet, the claim that is granted has the phase
  and the position of the cursor the worker brings, not those of the first phase.\<close>

theorem cycle_starts_at_cursor:
  assumes "integrity_store I exception_fits checkpoint_fits" and "distinct (map cp_CycleKey (checkpoints w))"
    and "\<forall>row\<in>set (checkpoints w). cp_CycleKey row \<noteq> key"
    and "claimCheckpoint I key owner now lease nxt cursor w = (Inr res, w')" and "cr_Claim res = Some claim"
  shows "\<exists>cur. normalizeIntegrityCursor cursor = Inr cur \<and> cur_Phase (ck_Cursor claim) = cur_Phase cur \<and> cur_LastID (ck_Cursor claim) = cur_LastID cur"
  using integrity_store.cycle_start [OF assms(1,4) _ assms(5,3)] assms(2) by (simp add: one_row_each_def)

theorem cycle_starts_at_cursor_witness:
  "\<exists>res w' claim. demo_claim ''a'' 0 demo_audit = (Inr res, w') \<and> cr_Claim res = Some claim \<and>
     cur_Phase (ck_Cursor claim) = IntegrityPhaseLots \<and> cur_LastID (ck_Cursor claim) = 40"
proof -
  have "\<exists>cur. normalizeIntegrityCursor demo_cursor = Inr cur \<and> cur_Phase (ck_Cursor (demo_claimed ''a'' 2)) = cur_Phase cur \<and>
      cur_LastID (ck_Cursor (demo_claimed ''a'' 2)) = cur_LastID cur"
    by (rule cycle_starts_at_cursor [OF mem_integ.integrity_store_axioms _ _ demo_first [unfolded demo_claim_def]])
      (simp_all add: demo_audit_def demo_result_def)
  then show ?thesis by (simp add: demo_first demo_result_def demo_cursor_normal)
qed

end
