(* ===== verification/Member_Ledger.thy ===== *)
theory Member_Ledger
  imports Gorm Snowflake
begin

text \<open>
  The member asset ledger: the rows of \<open>internal/modules/asset/model.go\<close>, the world a
  transaction of this module sees, and the helpers of \<open>service.go\<close> that find and create
  accounts, lock and set balances, consume lots and keep the member profile.

  The ledger is double entry: a customer account and a platform control account per asset
  type, each with an available and a frozen bucket; an asset transaction has entries whose
  deltas sum to zero. Lots say which grant a customer's balance comes from.

  Amounts are integers; \<open>i64\<close> marks the places where Go computes in 64 bits. The arithmetic of
  an SQL expression (\<open>available_amount-?\<close>) is exact: the server reports an overflow as an error.
\<close>

subsection \<open>Rows\<close>

definition TypeGrowth :: string where "TypeGrowth = ''growth_value''"
definition TypeWineCoin :: string where "TypeWineCoin = ''wine_coin''"
definition TypeBalance :: string where "TypeBalance = ''balance''"
definition UnitPoint :: string where "UnitPoint = ''POINT''"
definition UnitCNY :: string where "UnitCNY = ''CNY_MINOR''"

record Account =
  acc_ID :: uint64
  acc_AccountNo :: string
  acc_OwnerType :: string
  acc_OwnerID :: uint64
  acc_AssetType :: string
  acc_Unit :: string
  acc_Status :: string
  acc_AllowNegative :: bool

record Balance =
  bal_ID :: uint64
  bal_AccountID :: uint64
  bal_Bucket :: string
  bal_Amount :: int
  bal_Version :: uint32

record AssetTransaction =
  atx_ID :: uint64
  atx_TransactionNo :: string
  atx_AssetType :: string
  atx_Unit :: string
  atx_Action :: string
  atx_Status :: string
  atx_SourceType :: string
  atx_SourceID :: string
  atx_IdempotencyKeyHash :: string
  atx_RequestHash :: string
  atx_ReversalOfTransactionID :: "uint64 option"
  atx_Amount :: int
  atx_ActorType :: string
  atx_ActorID :: uint64
  atx_Metadata :: json
  atx_OccurredAt :: go_time
  atx_PostedAt :: go_time

record Entry =
  ent_ID :: uint64
  ent_TransactionID :: uint64
  ent_EntrySeq :: uint32
  ent_AccountID :: uint64
  ent_Bucket :: string
  ent_Delta :: int
  ent_BalanceAfter :: int

record AssetLot =
  al_ID :: uint64
  al_AccountID :: uint64
  al_GrantTransactionID :: uint64
  al_GrantedAmount :: int
  al_AvailableAmount :: int
  al_FrozenAmount :: int
  al_ConsumedAmount :: int
  al_ExpiredAmount :: int
  al_ExpiresAt :: "go_time option"
  al_Status :: string
  al_Version :: uint32

record Hold =
  hd_ID :: uint64
  hd_HoldNo :: string
  hd_ReservationKey :: string
  hd_AccountID :: uint64
  hd_AssetType :: string
  hd_Unit :: string
  hd_OriginalAmount :: int
  hd_CommittedAmount :: int
  hd_ReleasedAmount :: int
  hd_Status :: string
  hd_SourceType :: string
  hd_SourceID :: string
  hd_ExpiresAt :: "go_time option"
  hd_Version :: uint32

record HoldLot =
  hl_ID :: uint64
  hl_HoldID :: uint64
  hl_LotID :: uint64
  hl_Amount :: int
  hl_CommittedAmount :: int
  hl_ReleasedAmount :: int

record AuditLog =
  aud_ID :: uint64
  aud_ActorType :: string
  aud_ActorID :: uint64
  aud_Action :: string
  aud_ResourceType :: string
  aud_ResourceID :: uint64
  aud_BeforeData :: json
  aud_AfterData :: json
  aud_Result :: string
  aud_Version :: "uint64 option"
  aud_ErrorCode :: "string option"
  aud_ReasonCode :: "string option"
  aud_BeforeStatus :: "string option"
  aud_AfterStatus :: "string option"
  aud_RequestID :: "string option"
  aud_IPHash :: "string option"
  aud_UserAgent :: "string option"

record Outbox =
  out_ID :: uint64
  out_EventID :: string
  out_EventType :: string
  out_AggregateType :: string
  out_AggregateID :: uint64
  out_Payload :: json
  out_Status :: string
  out_RequestID :: "string option"

text \<open>The columns the module reads of the customers, and the tables of the member tiers.\<close>

record customer_row =
  cus_ID :: uint64
  cus_Deleted :: bool
  cus_Status :: string

record tier_rule_set =
  trs_ID :: uint64
  trs_Version :: string
  trs_Status :: string
  trs_EffectiveAt :: go_time

record tier_rule =
  trl_RuleSetID :: uint64
  trl_TierCode :: string
  trl_MinGrowth :: int

record member_profile =
  mp_CustomerID :: uint64
  mp_CurrentGrowth :: int
  mp_TierCode :: string
  mp_RuleSetID :: uint64
  mp_TierEffectiveAt :: go_time
  mp_Version :: uint32

record tier_history =
  th_ID :: uint64
  th_EventID :: string
  th_CustomerID :: uint64
  th_FromTier :: string
  th_ToTier :: string
  th_GrowthValue :: int
  th_RuleSetID :: uint64
  th_AssetTransactionID :: uint64
  th_CreatedAt :: go_time

subsection \<open>The world and its tables\<close>

record member_world =
  mw_wall :: go_time
  mw_snow :: Generator
  mw_uuids :: nat
  accounts :: "Account list"
  balances :: "Balance list"
  asset_transactions :: "AssetTransaction list"
  entries :: "Entry list"
  asset_lots :: "AssetLot list"
  holds :: "Hold list"
  hold_lots :: "HoldLot list"
  customers :: "customer_row list"
  tier_rule_sets :: "tier_rule_set list"
  tier_rules :: "tier_rule list"
  profiles :: "member_profile list"
  tier_histories :: "tier_history list"
  audit_logs :: "AuditLog list"
  outbox_events :: "Outbox list"

text \<open>\<open>member_env\<close>: the engines of the tables, the switches of the configuration, SHA-256 of a JSON
  value and of a string in hexadecimal, the source of UUIDs, what a commit answers, the lots
  other transactions have locked and the request context.\<close>

record member_env =
  env_WriteEnabled :: bool
  env_ExpiryEnabled :: bool
  env_WorkerBatchSize :: int
  requestHash :: "json \<Rightarrow> string"
  keyHash :: "string \<Rightarrow> string"
  env_uuid :: "nat \<Rightarrow> string"
  env_commit :: "member_world \<Rightarrow> go_error option"
  env_locked :: "uint64 \<Rightarrow> bool"
  ctx_RequestID :: "string option"
  ctx_IPHash :: "string option"
  ctx_UserAgent :: "string option"
  accountE :: "Account engine"
  balanceE :: "Balance engine"
  transactionE :: "AssetTransaction engine"
  entryE :: "Entry engine"
  lotE :: "AssetLot engine"
  holdE :: "Hold engine"
  holdLotE :: "HoldLot engine"
  customerE :: "customer_row engine"
  ruleSetE :: "tier_rule_set engine"
  ruleE :: "tier_rule engine"
  profileE :: "member_profile engine"
  historyE :: "tier_history engine"
  auditE :: "AuditLog engine"
  outboxE :: "Outbox engine"

definition account_t :: "member_env \<Rightarrow> (member_world, Account) db_table" where
  "account_t S = \<lparr>tbl_rows = accounts, tbl_set = (\<lambda>r. accounts_update (\<lambda>_. r)), tbl_engine = accountE S\<rparr>"
definition balance_t :: "member_env \<Rightarrow> (member_world, Balance) db_table" where
  "balance_t S = \<lparr>tbl_rows = balances, tbl_set = (\<lambda>r. balances_update (\<lambda>_. r)), tbl_engine = balanceE S\<rparr>"
definition transaction_t :: "member_env \<Rightarrow> (member_world, AssetTransaction) db_table" where
  "transaction_t S = \<lparr>tbl_rows = asset_transactions,
     tbl_set = (\<lambda>r. asset_transactions_update (\<lambda>_. r)), tbl_engine = transactionE S\<rparr>"
definition entry_t :: "member_env \<Rightarrow> (member_world, Entry) db_table" where
  "entry_t S = \<lparr>tbl_rows = entries, tbl_set = (\<lambda>r. entries_update (\<lambda>_. r)), tbl_engine = entryE S\<rparr>"
definition lot_t :: "member_env \<Rightarrow> (member_world, AssetLot) db_table" where
  "lot_t S = \<lparr>tbl_rows = asset_lots, tbl_set = (\<lambda>r. asset_lots_update (\<lambda>_. r)), tbl_engine = lotE S\<rparr>"
definition hold_t :: "member_env \<Rightarrow> (member_world, Hold) db_table" where
  "hold_t S = \<lparr>tbl_rows = holds, tbl_set = (\<lambda>r. holds_update (\<lambda>_. r)), tbl_engine = holdE S\<rparr>"
definition hold_lot_t :: "member_env \<Rightarrow> (member_world, HoldLot) db_table" where
  "hold_lot_t S = \<lparr>tbl_rows = hold_lots, tbl_set = (\<lambda>r. hold_lots_update (\<lambda>_. r)), tbl_engine = holdLotE S\<rparr>"
definition customer_t :: "member_env \<Rightarrow> (member_world, customer_row) db_table" where
  "customer_t S = \<lparr>tbl_rows = customers, tbl_set = (\<lambda>r. customers_update (\<lambda>_. r)), tbl_engine = customerE S\<rparr>"
definition rule_set_t :: "member_env \<Rightarrow> (member_world, tier_rule_set) db_table" where
  "rule_set_t S = \<lparr>tbl_rows = tier_rule_sets, tbl_set = (\<lambda>r. tier_rule_sets_update (\<lambda>_. r)), tbl_engine = ruleSetE S\<rparr>"
definition rule_t :: "member_env \<Rightarrow> (member_world, tier_rule) db_table" where
  "rule_t S = \<lparr>tbl_rows = tier_rules, tbl_set = (\<lambda>r. tier_rules_update (\<lambda>_. r)), tbl_engine = ruleE S\<rparr>"
definition profile_t :: "member_env \<Rightarrow> (member_world, member_profile) db_table" where
  "profile_t S = \<lparr>tbl_rows = profiles, tbl_set = (\<lambda>r. profiles_update (\<lambda>_. r)), tbl_engine = profileE S\<rparr>"
definition history_t :: "member_env \<Rightarrow> (member_world, tier_history) db_table" where
  "history_t S = \<lparr>tbl_rows = tier_histories, tbl_set = (\<lambda>r. tier_histories_update (\<lambda>_. r)), tbl_engine = historyE S\<rparr>"
definition audit_t :: "member_env \<Rightarrow> (member_world, AuditLog) db_table" where
  "audit_t S = \<lparr>tbl_rows = audit_logs, tbl_set = (\<lambda>r. audit_logs_update (\<lambda>_. r)), tbl_engine = auditE S\<rparr>"
definition outbox_t :: "member_env \<Rightarrow> (member_world, Outbox) db_table" where
  "outbox_t S = \<lparr>tbl_rows = outbox_events, tbl_set = (\<lambda>r. outbox_events_update (\<lambda>_. r)), tbl_engine = outboxE S\<rparr>"

lemmas member_tables = account_t_def balance_t_def transaction_t_def entry_t_def lot_t_def hold_t_def
  hold_lot_t_def customer_t_def rule_set_t_def rule_t_def profile_t_def history_t_def audit_t_def outbox_t_def

definition next_id :: "(member_world, go_error, uint64) go" where
  "next_id = go_call (\<lambda>w. case snow_Next (of_int (unix_milli (mw_wall w))) (mw_snow w) of
     (i, g) \<Rightarrow> (i, w\<lparr>mw_snow := g\<rparr>))"

definition now_utc :: "(member_world, go_error, go_time) go" where
  "now_utc = go_call (\<lambda>w. (mw_wall w, w))"

definition new_uuid :: "member_env \<Rightarrow> (member_world, go_error, string) go" where
  "new_uuid S = go_call (\<lambda>w. (env_uuid S (mw_uuids w), w\<lparr>mw_uuids := Suc (mw_uuids w)\<rparr>))"

text \<open>A rollback restores every table.\<close>

definition restore_member :: "member_world \<Rightarrow> member_world \<Rightarrow> member_world" where
  "restore_member before after =
     before\<lparr>mw_wall := mw_wall after, mw_snow := mw_snow after, mw_uuids := mw_uuids after\<rparr>"

subsection \<open>Small helpers\<close>

definition idString :: "uint64 \<Rightarrow> string" where
  "idString v = format_uint (unat v)"

definition defaultString :: "string \<Rightarrow> string \<Rightarrow> string" where
  "defaultString v fallback = (if blank v then fallback else v)"

definition min64 :: "int \<Rightarrow> int \<Rightarrow> int" where
  "min64 a b = (if a < b then a else b)"

definition wouldOverflow :: "int \<Rightarrow> int \<Rightarrow> bool" where
  "wouldOverflow a b \<longleftrightarrow>
     (0 < b \<and> i64 (9223372036854775807 - b) < a) \<or> (b < 0 \<and> a < i64 (- 9223372036854775808 - b))"

definition mapDuplicate :: "go_error \<Rightarrow> go_error" where
  "mapDuplicate err =
     (if contains_sub (to_lower (error_text err)) ''duplicate''
      then problem_Conflict ''ASSET_IDEMPOTENCY_CONFLICT'' ''asset transaction already exists'' else err)"

definition ErrInvalidData :: go_error where
  "ErrInvalidData = ErrMessage ''unsupported data''"

definition ASSET_WRITE_DISABLED :: go_error where
  "ASSET_WRITE_DISABLED = Problem (problem_New 503 ''ASSET_WRITE_DISABLED'' ''Service Unavailable''
     ''asset writes are disabled'')"

definition UnitFor :: "string \<Rightarrow> go_error + string" where
  "UnitFor assetType =
     (if assetType = TypeGrowth \<or> assetType = TypeWineCoin then Inr UnitPoint
      else if assetType = TypeBalance then Inr UnitCNY
      else Inl (Problem (problem_New 422 ''ASSET_TYPE_INVALID'' ''Unprocessable Entity''
        ''asset type is invalid'')))"

subsection \<open>Balances, accounts and lots\<close>

definition lockBalance :: "member_env \<Rightarrow> uint64 \<Rightarrow> string \<Rightarrow> (member_world, go_error, Balance) go" where
  "lockBalance S accountID bucket =
     db_take (balance_t S) (\<lambda>b. bal_AccountID b = accountID \<and> bal_Bucket b = bucket)"

definition setBalance :: "member_env \<Rightarrow> uint64 \<Rightarrow> int \<Rightarrow> (member_world, go_error, unit) go" where
  "setBalance S i amount =
     go_bind (db_updates (balance_t S) (\<lambda>b. bal_ID b = i)
       (\<lambda>b. b\<lparr>bal_Amount := amount, bal_Version := bal_Version b + 1\<rparr>)) (\<lambda>affected.
     if affected \<noteq> 1 then go_err ErrInvalidData else go_ok ())"

definition owns_account :: "string \<Rightarrow> uint64 \<Rightarrow> string \<Rightarrow> string \<Rightarrow> Account \<Rightarrow> bool" where
  "owns_account ownerType ownerID assetType unit a \<longleftrightarrow>
     acc_OwnerType a = ownerType \<and> acc_OwnerID a = ownerID \<and> acc_AssetType a = assetType \<and> acc_Unit a = unit"

definition findExisting ::
    "member_env \<Rightarrow> uint64 \<Rightarrow> string \<Rightarrow> string \<Rightarrow> (member_world, go_error, Account \<times> Account) go" where
  "findExisting S customerID assetType unit =
     go_bind (db_take (account_t S) (owns_account ''customer'' customerID assetType unit)) (\<lambda>customer.
     go_bind (db_take (account_t S) (owns_account ''platform'' 1 assetType unit)) (\<lambda>control.
     go_ok (customer, control)))"

definition makeAccount ::
    "member_env \<Rightarrow> string \<Rightarrow> uint64 \<Rightarrow> string \<Rightarrow> string \<Rightarrow> bool \<Rightarrow> (member_world, go_error, unit) go" where
  "makeAccount S ownerType ownerID assetType unit allowNegative =
     go_bind next_id (\<lambda>i.
     go_bind (db_create_ignore (account_t S)
       \<lparr>acc_ID = i, acc_AccountNo = ''AA-'' @ ownerType @ ''-'' @ idString ownerID @ ''-'' @ assetType,
        acc_OwnerType = ownerType, acc_OwnerID = ownerID, acc_AssetType = assetType, acc_Unit = unit,
        acc_Status = ''active'', acc_AllowNegative = allowNegative\<rparr>) (\<lambda>_.
     go_bind (db_take (account_t S) (owns_account ownerType ownerID assetType unit)) (\<lambda>stored.
     go_for (\<lambda>bucket _. go_bind next_id (\<lambda>j.
       go_bind (db_create_ignore (balance_t S)
         \<lparr>bal_ID = j, bal_AccountID = acc_ID stored, bal_Bucket = bucket, bal_Amount = 0, bal_Version = 1\<rparr>)
         (\<lambda>_. go_ok ()))) [''available'', ''frozen''] ())))"

definition ensureAccounts ::
    "member_env \<Rightarrow> uint64 \<Rightarrow> string \<Rightarrow> string \<Rightarrow> (member_world, go_error, Account \<times> Account) go" where
  "ensureAccounts S customerID assetType unit =
     go_bind (go_try (findExisting S customerID assetType unit)) (\<lambda>found.
       case found of
         Inr pair \<Rightarrow> go_ok pair
       | Inl e \<Rightarrow>
           if e \<noteq> ErrRecordNotFound then go_err e
           else go_bind (makeAccount S ''customer'' customerID assetType unit False) (\<lambda>_.
             go_bind (makeAccount S ''platform'' 1 assetType unit True) (\<lambda>_.
             findExisting S customerID assetType unit)))"

definition lot_order :: "AssetLot \<Rightarrow> int list" where
  "lot_order l = (case al_ExpiresAt l of None \<Rightarrow> [1, 0, uint (al_ID l)] | Some t \<Rightarrow> [0, t, uint (al_ID l)])"

text \<open>The loop of \<open>consumeLots\<close>: the lots that expire first are used first.\<close>

fun consume_loop :: "member_env \<Rightarrow> AssetLot list \<Rightarrow> int \<Rightarrow> (member_world, go_error, unit) go" where
  "consume_loop S [] remaining = go_err (problem_Internal ''asset lots do not match available balance'')"
| "consume_loop S (lot # lots) remaining =
     (let use = min64 remaining (al_AvailableAmount lot) in
      if use = 0 then consume_loop S lots remaining
      else
        let status = (if i64 (al_AvailableAmount lot - use) = 0 \<and> al_FrozenAmount lot = 0
                      then ''consumed'' else al_Status lot) in
        go_bind (db_updates (lot_t S) (\<lambda>l. al_ID l = al_ID lot)
          (\<lambda>l. l\<lparr>al_AvailableAmount := al_AvailableAmount l - use,
                al_ConsumedAmount := al_ConsumedAmount l + use,
                al_Status := status, al_Version := al_Version l + 1\<rparr>)) (\<lambda>_.
        let rest = i64 (remaining - use) in
        if rest = 0 then go_ok () else consume_loop S lots rest))"

definition consumeLots :: "member_env \<Rightarrow> uint64 \<Rightarrow> int \<Rightarrow> (member_world, go_error, unit) go" where
  "consumeLots S accountID amount =
     go_bind (db_ordered (lot_t S) (\<lambda>l. al_AccountID l = accountID \<and> 0 < al_AvailableAmount l) lot_order)
       (\<lambda>lots. consume_loop S lots amount)"

definition requireCustomer :: "member_env \<Rightarrow> uint64 \<Rightarrow> (member_world, go_error, unit) go" where
  "requireCustomer S i =
     go_bind (db_find (customer_t S) (\<lambda>c. cus_ID c = i \<and> \<not> cus_Deleted c \<and> cus_Status c = ''active''))
       (\<lambda>found. if length found \<noteq> 1 then go_err (problem_NotFound ''MEMBER_NOT_FOUND'' ''member not found'')
                else go_ok ())"

subsection \<open>Audit, events and the member profile\<close>

definition audit ::
    "member_env \<Rightarrow> string \<Rightarrow> uint64 \<Rightarrow> string \<Rightarrow> uint64 \<Rightarrow> json \<Rightarrow> json \<Rightarrow> (member_world, go_error, AuditLog) go" where
  "audit S actorType actorID action resourceID before after =
     go_bind next_id (\<lambda>i. go_ok
       \<lparr>aud_ID = i, aud_ActorType = actorType, aud_ActorID = actorID, aud_Action = action,
        aud_ResourceType = ''asset_transaction'', aud_ResourceID = resourceID, aud_BeforeData = before,
        aud_AfterData = after, aud_Result = ''success'', aud_Version = None, aud_ErrorCode = None,
        aud_ReasonCode = None, aud_BeforeStatus = None, aud_AfterStatus = None, aud_RequestID = ctx_RequestID S,
        aud_IPHash = ctx_IPHash S, aud_UserAgent = ctx_UserAgent S\<rparr>)"

definition outbox ::
    "member_env \<Rightarrow> string \<Rightarrow> uint64 \<Rightarrow> json \<Rightarrow> (member_world, go_error, Outbox) go" where
  "outbox S event aggregateID payload =
     go_bind next_id (\<lambda>i. go_bind (new_uuid S) (\<lambda>u. go_ok
       \<lparr>out_ID = i, out_EventID = u, out_EventType = event, out_AggregateType = ''asset'',
        out_AggregateID = aggregateID, out_Payload = payload, out_Status = ''pending'',
        out_RequestID = ctx_RequestID S\<rparr>))"

definition create_audit ::
    "member_env \<Rightarrow> string \<Rightarrow> uint64 \<Rightarrow> string \<Rightarrow> uint64 \<Rightarrow> json \<Rightarrow> json \<Rightarrow> (member_world, go_error, unit) go" where
  "create_audit S actorType actorID action resourceID before after =
     go_bind (audit S actorType actorID action resourceID before after) (db_create (audit_t S))"

definition create_outbox ::
    "member_env \<Rightarrow> string \<Rightarrow> uint64 \<Rightarrow> json \<Rightarrow> (member_world, go_error, unit) go" where
  "create_outbox S event aggregateID payload =
     go_bind (outbox S event aggregateID payload) (db_create (outbox_t S))"

text \<open>The tier a growth value reaches: the last of the rules, in ascending order, that it meets.\<close>

definition tier_for :: "tier_rule list \<Rightarrow> int \<Rightarrow> string" where
  "tier_for rules growth = foldl (\<lambda>tier rule. if trl_MinGrowth rule \<le> growth then trl_TierCode rule else tier)
     ''normal'' rules"

definition refreshMemberProfile ::
    "member_env \<Rightarrow> uint64 \<Rightarrow> int \<Rightarrow> uint64 \<Rightarrow> (member_world, go_error, unit) go" where
  "refreshMemberProfile S customerID growth transactionID =
     go_bind now_utc (\<lambda>at.
     go_bind (db_ordered (rule_set_t S) (\<lambda>r. trs_Status r = ''active'' \<and> trs_EffectiveAt r \<le> at)
       (\<lambda>r. [- trs_EffectiveAt r, - uint (trs_ID r)])) (\<lambda>found.
     case found of
       [] \<Rightarrow> go_err ErrRecordNotFound
     | ruleSet # _ \<Rightarrow>
         go_bind (db_ordered (rule_t S) (\<lambda>r. trl_RuleSetID r = trs_ID ruleSet) (\<lambda>r. [trl_MinGrowth r])) (\<lambda>rules.
         let tier = tier_for rules growth in
         go_bind now_utc (\<lambda>now.
         go_bind (db_create_ignore (profile_t S)
           \<lparr>mp_CustomerID = customerID, mp_CurrentGrowth = 0, mp_TierCode = ''normal'',
            mp_RuleSetID = trs_ID ruleSet, mp_TierEffectiveAt = now, mp_Version = 1\<rparr>) (\<lambda>_.
         go_bind (db_take (profile_t S) (\<lambda>p. mp_CustomerID p = customerID)) (\<lambda>before.
         let changed = (mp_TierCode before \<noteq> tier) in
         go_bind (if changed then
             go_bind next_id (\<lambda>i. go_bind (new_uuid S) (\<lambda>u.
             go_bind (db_create (history_t S)
               \<lparr>th_ID = i, th_EventID = u, th_CustomerID = customerID, th_FromTier = mp_TierCode before,
                th_ToTier = tier, th_GrowthValue = growth, th_RuleSetID = trs_ID ruleSet,
                th_AssetTransactionID = transactionID, th_CreatedAt = now\<rparr>) (\<lambda>_.
             create_outbox S ''member.tier.changed'' customerID
               (JObject [(''customer_id'', JString (idString customerID)),
                 (''from_tier'', JString (mp_TierCode before)), (''to_tier'', JString tier),
                 (''rule_version'', JString (trs_Version ruleSet))]))))
           else go_ok ()) (\<lambda>_.
         go_bind (db_updates (profile_t S) (\<lambda>p. mp_CustomerID p = customerID)
           (\<lambda>p. p\<lparr>mp_CurrentGrowth := growth, mp_TierCode := tier, mp_RuleSetID := trs_ID ruleSet,
              mp_Version := mp_Version p + 1,
              mp_TierEffectiveAt := (if changed then now else mp_TierEffectiveAt p)\<rparr>)) (\<lambda>_.
         go_ok ()))))))))"

end
