(* ===== verification/Member_Posting.thy ===== *)
theory Member_Posting
  imports Member_Ledger
begin

text \<open>
  Posting to the member asset ledger: \<open>Credit\<close>, \<open>Debit\<close> and \<open>Reverse\<close> of
  \<open>internal/modules/asset/service.go\<close>, with the replay of a transaction that has been posted
  before, the overflow and balance guards, the two entries, the lots and the member profile.

  Amounts of a command have type \<open>int64\<close> and are read with \<open>sint\<close>. A statement with a join is a
  lookup in one table whose condition mentions the rows found in the other.
\<close>

subsection \<open>Commands and responses\<close>

record Command =
  cm_CustomerID :: uint64
  cm_AssetType :: string
  cm_Unit :: string
  cm_Amount :: int64
  cm_SourceType :: string
  cm_SourceID :: string
  cm_Action :: string
  cm_IdempotencyKey :: string
  cm_ActorType :: string
  cm_ActorID :: uint64
  cm_OccurredAt :: go_time
  cm_ExpiresAt :: "go_time option"
  cm_Metadata :: json

record ReverseCommand =
  rv_OriginalTransactionID :: uint64
  rv_Amount :: int64
  rv_SourceType :: string
  rv_SourceID :: string
  rv_IdempotencyKey :: string
  rv_ActorType :: string
  rv_ActorID :: uint64

record TransactionDTO =
  td_ID :: string
  td_TransactionNo :: string
  td_CustomerID :: string
  td_AssetType :: string
  td_Unit :: string
  td_Action :: string
  td_SourceType :: string
  td_SourceID :: string
  td_Amount :: int
  td_AvailableDelta :: int
  td_FrozenDelta :: int
  td_BalanceAfter :: int
  td_Metadata :: json
  td_OccurredAt :: go_time
  td_PostedAt :: go_time

definition json_time :: "go_time option \<Rightarrow> json" where
  "json_time t = (case t of None \<Rightarrow> JNull | Some v \<Rightarrow> JTime v)"

definition dtoFromTransaction ::
    "AssetTransaction \<Rightarrow> uint64 \<Rightarrow> int \<Rightarrow> int \<Rightarrow> int \<Rightarrow> json \<Rightarrow> TransactionDTO" where
  "dtoFromTransaction row customerID availableDelta frozenDelta after metadata =
     \<lparr>td_ID = idString (atx_ID row), td_TransactionNo = atx_TransactionNo row,
      td_CustomerID = idString customerID, td_AssetType = atx_AssetType row, td_Unit = atx_Unit row,
      td_Action = atx_Action row, td_SourceType = atx_SourceType row, td_SourceID = atx_SourceID row,
      td_Amount = atx_Amount row, td_AvailableDelta = availableDelta, td_FrozenDelta = frozenDelta,
      td_BalanceAfter = after, td_Metadata = metadata, td_OccurredAt = atx_OccurredAt row,
      td_PostedAt = atx_PostedAt row\<rparr>"

definition transactionDTO ::
    "member_env \<Rightarrow> AssetTransaction \<Rightarrow> uint64 \<Rightarrow> json \<Rightarrow> (member_world, go_error, TransactionDTO) go" where
  "transactionDTO S row customerID metadata =
     go_bind (db_find (account_t S) (\<lambda>a. acc_OwnerType a = ''customer'' \<and> acc_OwnerID a = customerID)) (\<lambda>owned.
     go_bind (db_ordered (entry_t S)
       (\<lambda>e. ent_TransactionID e = atx_ID row \<and> list_ex (\<lambda>a. acc_ID a = ent_AccountID e) owned)
       (\<lambda>e. [uint (ent_EntrySeq e)])) (\<lambda>found.
     case found of
       [] \<Rightarrow> go_err ErrRecordNotFound
     | entry # _ \<Rightarrow>
         let available = (if ent_Bucket entry = ''available'' then ent_Delta entry else 0);
             frozen = (if ent_Bucket entry = ''available'' then 0 else ent_Delta entry) in
         go_ok (dtoFromTransaction row customerID available frozen (ent_BalanceAfter entry) metadata)))"

subsection \<open>Validation\<close>

definition ASSET_AMOUNT_INVALID :: "string \<Rightarrow> go_error" where
  "ASSET_AMOUNT_INVALID detail =
     Problem (problem_New 422 ''ASSET_AMOUNT_INVALID'' ''Unprocessable Entity'' detail)"

definition ASSET_SOURCE_NOT_ALLOWED :: "string \<Rightarrow> go_error" where
  "ASSET_SOURCE_NOT_ALLOWED detail = problem_Forbidden ''ASSET_SOURCE_NOT_ALLOWED'' detail"

definition validate_source :: "'z Command_scheme \<Rightarrow> int \<Rightarrow> go_error option" where
  "validate_source cmd direction =
     (if cm_SourceType cmd = ''compensation'' then
        if cm_AssetType cmd \<noteq> TypeBalance \<or> direction \<noteq> 1 \<or> cm_Action cmd \<noteq> ''credit''
        then Some (ASSET_SOURCE_NOT_ALLOWED ''compensation may only credit account balance'') else None
      else if cm_SourceType cmd = ''manual_adjustment'' then
        if 0 < direction \<and> cm_Action cmd \<noteq> ''credit'' \<or> direction < 0 \<and> cm_Action cmd \<noteq> ''debit''
        then Some (ASSET_SOURCE_NOT_ALLOWED ''asset source action and direction do not match'') else None
      else if cm_SourceType cmd = ''reconciliation_test'' then
        if 0 < direction \<and> cm_Action cmd \<noteq> ''credit'' \<or>
           direction < 0 \<and> cm_Action cmd \<noteq> ''debit'' \<and> cm_Action cmd \<noteq> ''freeze''
        then Some (ASSET_SOURCE_NOT_ALLOWED ''asset source action and direction do not match'') else None
      else if cm_SourceType cmd = ''expiry'' then
        if cm_Action cmd \<noteq> ''expire''
        then Some (ASSET_SOURCE_NOT_ALLOWED ''expiry source action is invalid'') else None
      else Some (ASSET_SOURCE_NOT_ALLOWED ''asset source is not registered''))"

definition validateCommand :: "'z Command_scheme \<Rightarrow> int \<Rightarrow> go_error option" where
  "validateCommand cmd direction =
     (if UnitFor (cm_AssetType cmd) \<noteq> Inr (cm_Unit cmd)
      then Some (Problem (problem_New 422 ''ASSET_TYPE_INVALID'' ''Unprocessable Entity''
        ''asset type and unit do not match''))
      else if sint (cm_Amount cmd) \<le> 0 \<or> 9223372036854775807 div 2 < sint (cm_Amount cmd) \<or>
              blank (cm_SourceID cmd) \<or> blank (cm_IdempotencyKey cmd)
      then Some (ASSET_AMOUNT_INVALID ''asset amount or source is invalid'')
      else if length (cm_IdempotencyKey cmd) < 8 \<or> 128 < length (cm_IdempotencyKey cmd)
      then Some (problem_InvalidArgument ''IDEMPOTENCY_KEY_INVALID''
        ''Idempotency-Key must be between 8 and 128 characters'')
      else validate_source cmd direction)"

subsection \<open>Shared steps\<close>

definition insufficient_available :: go_error where
  "insufficient_available =
     problem_Conflict ''ASSET_INSUFFICIENT_AVAILABLE'' ''available asset balance is insufficient''"

definition by_source :: "string \<Rightarrow> string \<Rightarrow> string \<Rightarrow> AssetTransaction \<Rightarrow> bool" where
  "by_source sourceType sourceID action t \<longleftrightarrow>
     atx_SourceType t = sourceType \<and> atx_SourceID t = sourceID \<and> atx_Action t = action"

text \<open>The accounts of a posting are locked in the order of their identifiers.\<close>

definition lock_accounts :: "member_env \<Rightarrow> uint64 list \<Rightarrow> (member_world, go_error, unit) go" where
  "lock_accounts S ids =
     go_for (\<lambda>i _. go_bind (db_take (account_t S) (\<lambda>a. acc_ID a = i)) (\<lambda>_. go_ok ())) (sort ids) ()"

definition grant_lot ::
    "member_env \<Rightarrow> uint64 \<Rightarrow> uint64 \<Rightarrow> int \<Rightarrow> go_time option \<Rightarrow> (member_world, go_error, unit) go" where
  "grant_lot S accountID transactionID amount expiresAt =
     go_bind next_id (\<lambda>i. db_create (lot_t S)
       \<lparr>al_ID = i, al_AccountID = accountID, al_GrantTransactionID = transactionID,
        al_GrantedAmount = amount, al_AvailableAmount = amount, al_FrozenAmount = 0, al_ConsumedAmount = 0,
        al_ExpiredAmount = 0, al_ExpiresAt = expiresAt, al_Status = ''active'', al_Version = 1\<rparr>)"

definition new_entry :: "uint64 \<Rightarrow> uint32 \<Rightarrow> uint64 \<Rightarrow> string \<Rightarrow> int \<Rightarrow> int \<Rightarrow> (member_world, go_error, Entry) go" where
  "new_entry transactionID seq accountID bucket delta after =
     go_bind next_id (\<lambda>i. go_ok
       \<lparr>ent_ID = i, ent_TransactionID = transactionID, ent_EntrySeq = seq, ent_AccountID = accountID,
        ent_Bucket = bucket, ent_Delta = delta, ent_BalanceAfter = after\<rparr>)"

subsection \<open>Credit and debit\<close>

definition transfer_hash :: "member_env \<Rightarrow> Command \<Rightarrow> string" where
  "transfer_hash S cmd = requestHash S (JObject
     [(''CustomerID'', JInt (uint (cm_CustomerID cmd))), (''AssetType'', JString (cm_AssetType cmd)),
      (''Unit'', JString (cm_Unit cmd)), (''SourceType'', JString (cm_SourceType cmd)),
      (''SourceID'', JString (cm_SourceID cmd)), (''Action'', JString (cm_Action cmd)),
      (''Amount'', JInt (sint (cm_Amount cmd))), (''ExpiresAt'', json_time (cm_ExpiresAt cmd)),
      (''Metadata'', cm_Metadata cmd)])"

text \<open>The row of a posting: \<open>transfer_row\<close> takes the two identifiers the code draws for it.\<close>

definition transfer_row ::
    "member_env \<Rightarrow> Command \<Rightarrow> uint64 option \<Rightarrow> uint64 \<Rightarrow> uint64 \<Rightarrow> go_time \<Rightarrow> AssetTransaction" where
  "transfer_row S cmd reversalOf i j now =
     \<lparr>atx_ID = i, atx_TransactionNo = ''AT'' @ idString j, atx_AssetType = cm_AssetType cmd,
      atx_Unit = cm_Unit cmd, atx_Action = cm_Action cmd, atx_Status = ''posted'',
      atx_SourceType = cm_SourceType cmd, atx_SourceID = cm_SourceID cmd,
      atx_IdempotencyKeyHash = keyHash S (cm_IdempotencyKey cmd), atx_RequestHash = transfer_hash S cmd,
      atx_ReversalOfTransactionID = reversalOf, atx_Amount = sint (cm_Amount cmd),
      atx_ActorType = defaultString (cm_ActorType cmd) ''system'', atx_ActorID = cm_ActorID cmd,
      atx_Metadata = cm_Metadata cmd, atx_OccurredAt = cm_OccurredAt cmd, atx_PostedAt = now\<rparr>"

text \<open>Both balances move by the same amount in opposite directions, with one entry each.
  \<open>move_pair\<close> is the part of a posting from the locks to the new balances; \<open>outgoing\<close> is the
  condition under which the customer's balance has to cover the amount.\<close>

definition move_pair ::
    "member_env \<Rightarrow> Account \<Rightarrow> Account \<Rightarrow> bool \<Rightarrow> int \<Rightarrow> int \<Rightarrow> (member_world, go_error, int \<times> int) go" where
  "move_pair S customer control outgoing amount delta =
     go_bind (lock_accounts S [acc_ID customer, acc_ID control]) (\<lambda>_.
     go_bind (lockBalance S (acc_ID customer) ''available'') (\<lambda>customerBalance.
     go_bind (lockBalance S (acc_ID control) ''available'') (\<lambda>controlBalance.
     if outgoing \<and> bal_Amount customerBalance < amount then go_err insufficient_available
     else if wouldOverflow (bal_Amount customerBalance) delta \<or>
             wouldOverflow (bal_Amount controlBalance) (i64 (- delta))
     then go_err (ASSET_AMOUNT_INVALID ''asset amount overflows balance'')
     else
       let customerAfter = i64 (bal_Amount customerBalance + delta);
           controlAfter = i64 (bal_Amount controlBalance - delta) in
       go_bind (setBalance S (bal_ID customerBalance) customerAfter) (\<lambda>_.
       go_bind (setBalance S (bal_ID controlBalance) controlAfter) (\<lambda>_.
       go_ok (customerAfter, controlAfter))))))"

definition post_effects ::
    "member_env \<Rightarrow> Command \<Rightarrow> int \<Rightarrow> AssetTransaction \<Rightarrow> (member_world, go_error, TransactionDTO) go" where
  "post_effects S cmd direction row =
     go_bind (requireCustomer S (cm_CustomerID cmd)) (\<lambda>_.
     go_bind (ensureAccounts S (cm_CustomerID cmd) (cm_AssetType cmd) (cm_Unit cmd)) (\<lambda>(customer, control).
     let amount = sint (cm_Amount cmd); customerDelta = i64 (amount * direction) in
     go_bind (move_pair S customer control (direction < 0) amount customerDelta) (\<lambda>(customerAfter, controlAfter).
     go_bind (new_entry (atx_ID row) 1 (acc_ID customer) ''available'' customerDelta customerAfter) (\<lambda>e1.
     go_bind (new_entry (atx_ID row) 2 (acc_ID control) ''available'' (i64 (- customerDelta)) controlAfter) (\<lambda>e2.
     if i64 (ent_Delta e1 + ent_Delta e2) \<noteq> 0 then go_err (problem_Internal ''asset transaction is unbalanced'')
     else
       go_bind (db_create_all (entry_t S) [e1, e2]) (\<lambda>_.
       go_bind (if 0 < direction
                then grant_lot S (acc_ID customer) (atx_ID row) amount (cm_ExpiresAt cmd)
                else consumeLots S (acc_ID customer) amount) (\<lambda>_.
       go_bind (if cm_AssetType cmd = TypeGrowth
                then refreshMemberProfile S (cm_CustomerID cmd) customerAfter (atx_ID row) else go_ok ()) (\<lambda>_.
       go_bind (create_audit S (atx_ActorType row) (atx_ActorID row) (''asset.'' @ cm_Action cmd) (atx_ID row) JNull
         (JObject [(''transaction_no'', JString (atx_TransactionNo row)),
           (''asset_type'', JString (atx_AssetType row)), (''amount'', JInt (atx_Amount row))])) (\<lambda>_.
       go_bind (create_outbox S ''asset.transaction.posted'' (atx_ID row)
         (JObject [(''transaction_id'', JString (idString (atx_ID row))),
           (''customer_id'', JString (idString (cm_CustomerID cmd))),
           (''asset_type'', JString (atx_AssetType row)), (''action'', JString (atx_Action row)),
           (''amount'', JInt (atx_Amount row))])) (\<lambda>_.
       go_ok (dtoFromTransaction row (cm_CustomerID cmd) customerDelta 0 customerAfter (cm_Metadata cmd))))))))))))"

definition post_fresh ::
    "member_env \<Rightarrow> Command \<Rightarrow> int \<Rightarrow> uint64 option \<Rightarrow> (member_world, go_error, TransactionDTO) go" where
  "post_fresh S cmd direction reversalOf =
     go_bind now_utc (\<lambda>now.
     go_bind next_id (\<lambda>i.
     go_bind next_id (\<lambda>j.
     let row = transfer_row S cmd reversalOf i j now in
     go_bind (db_create_ignore (transaction_t S) row) (\<lambda>claimed.
     if claimed \<noteq> 1
     then go_err (problem_Conflict ''ASSET_IDEMPOTENCY_CONFLICT'' ''asset transaction already exists'')
     else post_effects S cmd direction row))))"

definition post_in_transaction ::
    "member_env \<Rightarrow> Command \<Rightarrow> int \<Rightarrow> uint64 option \<Rightarrow> (member_world, go_error, TransactionDTO) go" where
  "post_in_transaction S cmd direction reversalOf =
     go_bind (go_try (db_take (transaction_t S)
       (by_source (cm_SourceType cmd) (cm_SourceID cmd) (cm_Action cmd)))) (\<lambda>found.
       case found of
         Inr existing \<Rightarrow>
           if atx_RequestHash existing \<noteq> transfer_hash S cmd
           then go_err (problem_Conflict ''ASSET_IDEMPOTENCY_CONFLICT''
             ''asset source was reused with a different request'')
           else transactionDTO S existing (cm_CustomerID cmd) (cm_Metadata cmd)
       | Inl e \<Rightarrow> if e \<noteq> ErrRecordNotFound then go_err e else post_fresh S cmd direction reversalOf)"

text \<open>After an idempotency conflict the caller looks for the transaction of the request that won.\<close>

definition post_recover ::
    "member_env \<Rightarrow> Command \<Rightarrow> go_error \<Rightarrow> (member_world, go_error, TransactionDTO) go" where
  "post_recover S cmd err =
     go_bind (go_try (db_take (transaction_t S)
       (by_source (cm_SourceType cmd) (cm_SourceID cmd) (cm_Action cmd)))) (\<lambda>found.
       case found of
         Inl _ \<Rightarrow> go_err err
       | Inr existing \<Rightarrow>
           if atx_RequestHash existing \<noteq> transfer_hash S cmd then go_err err
           else go_bind (go_try (transactionDTO S existing (cm_CustomerID cmd) (cm_Metadata cmd))) (\<lambda>recovered.
             case recovered of Inl _ \<Rightarrow> go_err err | Inr out \<Rightarrow> go_ok out))"

definition postTransferWithDB ::
    "member_env \<Rightarrow> Command \<Rightarrow> int \<Rightarrow> uint64 option \<Rightarrow> (member_world, go_error, TransactionDTO) go" where
  "postTransferWithDB S cmd0 direction reversalOf =
     (if \<not> env_WriteEnabled S then go_err ASSET_WRITE_DISABLED
      else case validateCommand cmd0 direction of
        Some e \<Rightarrow> go_err e
      | None \<Rightarrow>
          go_bind (if cm_OccurredAt cmd0 = 0 then now_utc else go_ok (cm_OccurredAt cmd0)) (\<lambda>at.
          let cmd = cmd0\<lparr>cm_OccurredAt := at\<rparr> in
          go_bind (go_try (gorm_transaction (env_commit S) restore_member
            (post_in_transaction S cmd direction reversalOf))) (\<lambda>result.
          case result of
            Inr out \<Rightarrow> go_ok out
          | Inl e \<Rightarrow> if error_code e = ''ASSET_IDEMPOTENCY_CONFLICT'' then post_recover S cmd e else go_err e)))"

definition postTransfer ::
    "member_env \<Rightarrow> Command \<Rightarrow> int \<Rightarrow> uint64 option \<Rightarrow> (member_world, go_error, TransactionDTO) go" where
  "postTransfer S cmd direction reversalOf = postTransferWithDB S cmd direction reversalOf"

definition Credit :: "member_env \<Rightarrow> Command \<Rightarrow> (member_world, go_error, TransactionDTO) go" where
  "Credit S cmd = postTransfer S (cmd\<lparr>cm_Action := ''credit''\<rparr>) 1 None"

definition Debit :: "member_env \<Rightarrow> Command \<Rightarrow> (member_world, go_error, TransactionDTO) go" where
  "Debit S cmd = postTransfer S (cmd\<lparr>cm_Action := ''debit''\<rparr>) (-1) None"

subsection \<open>Reversal\<close>

definition reverse_json :: "ReverseCommand \<Rightarrow> json" where
  "reverse_json cmd = JObject
     [(''OriginalTransactionID'', JInt (uint (rv_OriginalTransactionID cmd))),
      (''Amount'', JInt (sint (rv_Amount cmd))), (''SourceType'', JString (rv_SourceType cmd)),
      (''SourceID'', JString (rv_SourceID cmd)), (''IdempotencyKey'', JString (rv_IdempotencyKey cmd)),
      (''ActorType'', JString (rv_ActorType cmd)), (''ActorID'', JInt (uint (rv_ActorID cmd)))]"

definition reversal_metadata :: "AssetTransaction \<Rightarrow> json" where
  "reversal_metadata original = JObject [(''reversal_of'', JString (idString (atx_ID original)))]"

text \<open>The customer's account among the entries of a transaction.\<close>

definition customer_account_of ::
    "member_env \<Rightarrow> AssetTransaction \<Rightarrow> (member_world, go_error, Account) go" where
  "customer_account_of S original =
     go_bind (db_find (entry_t S) (\<lambda>e. ent_TransactionID e = atx_ID original)) (\<lambda>es.
     db_take (account_t S) (\<lambda>a. list_ex (\<lambda>e. ent_AccountID e = acc_ID a) es \<and> acc_OwnerType a = ''customer''))"

text \<open>What has been reversed of a transaction so far.\<close>

definition reversed_amount :: "member_env \<Rightarrow> AssetTransaction \<Rightarrow> (member_world, go_error, int) go" where
  "reversed_amount S original =
     go_bind (db_find (transaction_t S)
       (\<lambda>t. atx_ReversalOfTransactionID t = Some (atx_ID original) \<and> atx_Status t = ''posted'')) (\<lambda>found.
     go_ok (sum_list (map atx_Amount found)))"

definition reverse_row ::
    "member_env \<Rightarrow> ReverseCommand \<Rightarrow> AssetTransaction \<Rightarrow> int \<Rightarrow> uint64 \<Rightarrow> uint64 \<Rightarrow> go_time \<Rightarrow> AssetTransaction" where
  "reverse_row S cmd original amount i j now =
     \<lparr>atx_ID = i, atx_TransactionNo = ''AT'' @ idString j, atx_AssetType = atx_AssetType original,
      atx_Unit = atx_Unit original, atx_Action = ''reverse'', atx_Status = ''posted'',
      atx_SourceType = rv_SourceType cmd, atx_SourceID = rv_SourceID cmd,
      atx_IdempotencyKeyHash = keyHash S (rv_IdempotencyKey cmd), atx_RequestHash = requestHash S (reverse_json cmd),
      atx_ReversalOfTransactionID = Some (atx_ID original), atx_Amount = amount,
      atx_ActorType = defaultString (rv_ActorType cmd) ''system'', atx_ActorID = rv_ActorID cmd,
      atx_Metadata = reversal_metadata original, atx_OccurredAt = now, atx_PostedAt = now\<rparr>"

definition create_mapped ::
    "('w, 'row) db_table \<Rightarrow> 'row \<Rightarrow> ('w, go_error, unit) go" where
  "create_mapped T r =
     go_bind (go_try (db_create T r)) (\<lambda>res.
       case res of Inl e \<Rightarrow> go_err (mapDuplicate e) | Inr u \<Rightarrow> go_ok u)"

definition reverse_effects ::
    "member_env \<Rightarrow> ReverseCommand \<Rightarrow> AssetTransaction \<Rightarrow> Account \<Rightarrow> int \<Rightarrow> (member_world, go_error, TransactionDTO) go" where
  "reverse_effects S cmd original account amount =
     go_bind (ensureAccounts S (acc_OwnerID account) (atx_AssetType original) (atx_Unit original)) (\<lambda>(customer, control).
     let direction = (if atx_Action original = ''debit'' then 1 else -1); delta = i64 (amount * direction) in
     go_bind (move_pair S customer control (delta < 0) amount delta) (\<lambda>(customerAfter, controlAfter).
     go_bind now_utc (\<lambda>now.
     go_bind next_id (\<lambda>i.
     go_bind next_id (\<lambda>j.
     let row = reverse_row S cmd original amount i j now in
     go_bind (new_entry (atx_ID row) 1 (acc_ID customer) ''available'' delta customerAfter) (\<lambda>e1.
     go_bind (new_entry (atx_ID row) 2 (acc_ID control) ''available'' (i64 (- delta)) controlAfter) (\<lambda>e2.
     go_bind (create_mapped (transaction_t S) row) (\<lambda>_.
     go_bind (db_create_all (entry_t S) [e1, e2]) (\<lambda>_.
     go_bind (if 0 < delta then grant_lot S (acc_ID customer) (atx_ID row) amount None
              else consumeLots S (acc_ID customer) amount) (\<lambda>_.
     go_bind (if atx_AssetType original = TypeGrowth
              then refreshMemberProfile S (acc_OwnerID account) customerAfter (atx_ID row) else go_ok ()) (\<lambda>_.
     go_bind (create_audit S (atx_ActorType row) (atx_ActorID row) ''asset.reverse'' (atx_ID row) JNull
       (JObject [(''reversal_of'', JString (idString (atx_ID original))), (''amount'', JInt amount)])) (\<lambda>_.
     go_bind (create_outbox S ''asset.transaction.reversed'' (atx_ID row)
       (JObject [(''transaction_id'', JString (idString (atx_ID row))),
         (''reversal_of'', JString (idString (atx_ID original))), (''amount'', JInt amount)])) (\<lambda>_.
     go_ok (dtoFromTransaction row (acc_OwnerID account) delta 0 customerAfter (reversal_metadata original)))))))))))))))"

definition reverse_fresh ::
    "member_env \<Rightarrow> ReverseCommand \<Rightarrow> AssetTransaction \<Rightarrow> (member_world, go_error, TransactionDTO) go" where
  "reverse_fresh S cmd original =
     go_bind (customer_account_of S original) (\<lambda>account.
     let amount = (if sint (rv_Amount cmd) = 0 then atx_Amount original else sint (rv_Amount cmd)) in
     go_bind (reversed_amount S original) (\<lambda>reversed.
     if amount \<le> 0 \<or> atx_Amount original < i64 (reversed + amount)
     then go_err (problem_Conflict ''ASSET_REVERSAL_EXCEEDED'' ''reversal exceeds original transaction amount'')
     else reverse_effects S cmd original account amount))"

definition reverse_in_transaction ::
    "member_env \<Rightarrow> ReverseCommand \<Rightarrow> (member_world, go_error, TransactionDTO) go" where
  "reverse_in_transaction S cmd =
     go_bind (go_try (db_take (transaction_t S)
       (\<lambda>t. atx_ID t = rv_OriginalTransactionID cmd \<and> atx_Status t = ''posted''))) (\<lambda>taken.
     case taken of
       Inl _ \<Rightarrow> go_err (problem_NotFound ''ASSET_TRANSACTION_NOT_FOUND'' ''asset transaction not found'')
     | Inr original \<Rightarrow>
         if atx_Action original \<noteq> ''credit'' \<and> atx_Action original \<noteq> ''debit''
         then go_err (problem_Conflict ''ASSET_REVERSAL_UNSUPPORTED''
           ''only direct credit or debit transactions can be reversed'')
         else
           go_bind (go_try (db_take (transaction_t S)
             (by_source (rv_SourceType cmd) (rv_SourceID cmd) ''reverse''))) (\<lambda>found.
           case found of
             Inr existing \<Rightarrow>
               go_bind (customer_account_of S original) (\<lambda>account.
               transactionDTO S existing (acc_OwnerID account) (reversal_metadata original))
           | Inl e \<Rightarrow> if e \<noteq> ErrRecordNotFound then go_err e else reverse_fresh S cmd original))"

definition Reverse :: "member_env \<Rightarrow> ReverseCommand \<Rightarrow> (member_world, go_error, TransactionDTO) go" where
  "Reverse S cmd =
     (if \<not> env_WriteEnabled S then go_err ASSET_WRITE_DISABLED
      else if rv_OriginalTransactionID cmd = 0 \<or> rv_SourceID cmd = [] \<or> length (rv_IdempotencyKey cmd) < 8 \<or>
              (rv_SourceType cmd \<noteq> ''manual_adjustment'' \<and> rv_SourceType cmd \<noteq> ''reconciliation_test'')
      then go_err (problem_InvalidArgument ''VALIDATION_FAILED'' ''reverse command is invalid'')
      else gorm_transaction (env_commit S) restore_member (reverse_in_transaction S cmd))"

end
