(* ===== verification/Member_Holds.thy ===== *)
theory Member_Holds
  imports Member_Posting
begin

text \<open>
  Holds on member assets and the expiry of lots and holds:
  \<open>internal/modules/asset/hold.go\<close>. A hold moves an amount from the available to the frozen
  bucket of one account and remembers the lots it comes from; committing pays the amount to the
  platform, releasing gives it back, except for lots that have expired in the meantime.
\<close>

record FreezeCommand = Command +
  fz_ReservationKey :: string
  fz_HoldExpiresAt :: "go_time option"

record HoldCommand =
  hc_HoldID :: uint64
  hc_Amount :: int64
  hc_SourceType :: string
  hc_SourceID :: string
  hc_Action :: string
  hc_IdempotencyKey :: string
  hc_ActorType :: string
  hc_ActorID :: uint64

record HoldDTO =
  hdto_ID :: string
  hdto_HoldNo :: string
  hdto_ReservationKey :: string
  hdto_AssetType :: string
  hdto_Unit :: string
  hdto_Status :: string
  hdto_OriginalAmount :: int
  hdto_CommittedAmount :: int
  hdto_ReleasedAmount :: int
  hdto_Version :: uint32

definition holdDTO :: "Hold \<Rightarrow> HoldDTO" where
  "holdDTO row =
     \<lparr>hdto_ID = idString (hd_ID row), hdto_HoldNo = hd_HoldNo row,
      hdto_ReservationKey = hd_ReservationKey row, hdto_AssetType = hd_AssetType row, hdto_Unit = hd_Unit row,
      hdto_Status = hd_Status row, hdto_OriginalAmount = hd_OriginalAmount row,
      hdto_CommittedAmount = hd_CommittedAmount row, hdto_ReleasedAmount = hd_ReleasedAmount row,
      hdto_Version = hd_Version row\<rparr>"

subsection \<open>Freezing\<close>

definition freeze_json :: "FreezeCommand \<Rightarrow> json" where
  "freeze_json cmd = JObject
     [(''CustomerID'', JInt (uint (cm_CustomerID cmd))), (''AssetType'', JString (cm_AssetType cmd)),
      (''Unit'', JString (cm_Unit cmd)), (''Amount'', JInt (sint (cm_Amount cmd))),
      (''SourceType'', JString (cm_SourceType cmd)), (''SourceID'', JString (cm_SourceID cmd)),
      (''Action'', JString (cm_Action cmd)), (''IdempotencyKey'', JString (cm_IdempotencyKey cmd)),
      (''ActorType'', JString (cm_ActorType cmd)), (''ActorID'', JInt (uint (cm_ActorID cmd))),
      (''OccurredAt'', JTime (cm_OccurredAt cmd)), (''ExpiresAt'', json_time (cm_ExpiresAt cmd)),
      (''Metadata'', cm_Metadata cmd), (''ReservationKey'', JString (fz_ReservationKey cmd)),
      (''HoldExpiresAt'', json_time (fz_HoldExpiresAt cmd))]"

text \<open>The loop over the lots: it returns the allocations and what is left to freeze.\<close>

fun freeze_lots ::
    "member_env \<Rightarrow> uint64 \<Rightarrow> AssetLot list \<Rightarrow> int \<Rightarrow> HoldLot list \<Rightarrow> (member_world, go_error, HoldLot list \<times> int) go" where
  "freeze_lots S holdID [] remaining acc = go_ok (acc, remaining)"
| "freeze_lots S holdID (lot # lots) remaining acc =
     (let use = min64 remaining (al_AvailableAmount lot) in
      if use = 0 then freeze_lots S holdID lots remaining acc
      else
        go_bind (db_updates (lot_t S) (\<lambda>l. al_ID l = al_ID lot)
          (\<lambda>l. l\<lparr>al_AvailableAmount := al_AvailableAmount l - use, al_FrozenAmount := al_FrozenAmount l + use,
                al_Version := al_Version l + 1\<rparr>)) (\<lambda>_.
        go_bind next_id (\<lambda>i.
        let acc' = acc @ [\<lparr>hl_ID = i, hl_HoldID = holdID, hl_LotID = al_ID lot, hl_Amount = use,
                           hl_CommittedAmount = 0, hl_ReleasedAmount = 0\<rparr>];
            rest = i64 (remaining - use) in
        if rest = 0 then go_ok (acc', rest) else freeze_lots S holdID lots rest acc')))"

definition freeze_hold :: "FreezeCommand \<Rightarrow> uint64 \<Rightarrow> uint64 \<Rightarrow> uint64 \<Rightarrow> Hold" where
  "freeze_hold cmd accountID i j =
     \<lparr>hd_ID = i, hd_HoldNo = ''AH'' @ idString j, hd_ReservationKey = fz_ReservationKey cmd,
      hd_AccountID = accountID, hd_AssetType = cm_AssetType cmd, hd_Unit = cm_Unit cmd,
      hd_OriginalAmount = sint (cm_Amount cmd), hd_CommittedAmount = 0, hd_ReleasedAmount = 0,
      hd_Status = ''active'', hd_SourceType = cm_SourceType cmd, hd_SourceID = cm_SourceID cmd,
      hd_ExpiresAt = fz_HoldExpiresAt cmd, hd_Version = 1\<rparr>"

definition freeze_row :: "member_env \<Rightarrow> FreezeCommand \<Rightarrow> uint64 \<Rightarrow> uint64 \<Rightarrow> go_time \<Rightarrow> AssetTransaction" where
  "freeze_row S cmd i j now =
     \<lparr>atx_ID = i, atx_TransactionNo = ''AT'' @ idString j, atx_AssetType = cm_AssetType cmd,
      atx_Unit = cm_Unit cmd, atx_Action = ''freeze'', atx_Status = ''posted'',
      atx_SourceType = cm_SourceType cmd, atx_SourceID = cm_SourceID cmd,
      atx_IdempotencyKeyHash = keyHash S (cm_IdempotencyKey cmd), atx_RequestHash = requestHash S (freeze_json cmd),
      atx_ReversalOfTransactionID = None, atx_Amount = sint (cm_Amount cmd),
      atx_ActorType = defaultString (cm_ActorType cmd) ''system'', atx_ActorID = cm_ActorID cmd,
      atx_Metadata = cm_Metadata cmd, atx_OccurredAt = now, atx_PostedAt = now\<rparr>"

text \<open>What is written once the lots have been allocated.\<close>

definition freeze_record ::
    "member_env \<Rightarrow> FreezeCommand \<Rightarrow> Hold \<Rightarrow> HoldLot list \<Rightarrow> Balance \<Rightarrow> Balance \<Rightarrow> (member_world, go_error, HoldDTO) go" where
  "freeze_record S cmd hold holdLots available frozen =
     (let amount = sint (cm_Amount cmd);
          availableAfter = i64 (bal_Amount available - amount); frozenAfter = i64 (bal_Amount frozen + amount) in
      go_bind (setBalance S (bal_ID available) availableAfter) (\<lambda>_.
      go_bind (setBalance S (bal_ID frozen) frozenAfter) (\<lambda>_.
      go_bind now_utc (\<lambda>now.
      go_bind next_id (\<lambda>i.
      go_bind next_id (\<lambda>j.
      let row = freeze_row S cmd i j now in
      go_bind (new_entry (atx_ID row) 1 (hd_AccountID hold) ''available'' (i64 (- amount)) availableAfter) (\<lambda>e1.
      go_bind (new_entry (atx_ID row) 2 (hd_AccountID hold) ''frozen'' amount frozenAfter) (\<lambda>e2.
      go_bind (create_mapped (transaction_t S) row) (\<lambda>_.
      go_bind (db_create_all (entry_t S) [e1, e2]) (\<lambda>_.
      go_bind (create_mapped (hold_t S) hold) (\<lambda>_.
      go_bind (db_create_all (hold_lot_t S) holdLots) (\<lambda>_.
      go_bind (create_audit S (atx_ActorType row) (atx_ActorID row) ''asset.freeze'' (hd_ID hold) JNull
        (JObject [(''hold_no'', JString (hd_HoldNo hold)), (''amount'', JInt (hd_OriginalAmount hold))])) (\<lambda>_.
      go_bind (create_outbox S ''asset.hold.created'' (hd_ID hold)
        (JObject [(''hold_id'', JString (idString (hd_ID hold))),
          (''customer_id'', JString (idString (cm_CustomerID cmd))), (''amount'', JInt (hd_OriginalAmount hold))])) (\<lambda>_.
      go_ok (holdDTO hold)))))))))))))))"

definition freeze_fresh ::
    "member_env \<Rightarrow> FreezeCommand \<Rightarrow> (member_world, go_error, HoldDTO) go" where
  "freeze_fresh S cmd =
     go_bind (requireCustomer S (cm_CustomerID cmd)) (\<lambda>_.
     go_bind (ensureAccounts S (cm_CustomerID cmd) (cm_AssetType cmd) (cm_Unit cmd)) (\<lambda>(customer, _).
     go_bind (lockBalance S (acc_ID customer) ''available'') (\<lambda>available.
     go_bind (lockBalance S (acc_ID customer) ''frozen'') (\<lambda>frozen.
     if bal_Amount available < sint (cm_Amount cmd) then go_err insufficient_available
     else
       go_bind (db_ordered (lot_t S) (\<lambda>l. al_AccountID l = acc_ID customer \<and> 0 < al_AvailableAmount l) lot_order) (\<lambda>lots.
       go_bind next_id (\<lambda>i.
       go_bind next_id (\<lambda>j.
       let hold = freeze_hold cmd (acc_ID customer) i j in
       go_bind (freeze_lots S (hd_ID hold) lots (sint (cm_Amount cmd)) []) (\<lambda>(holdLots, remaining).
       if remaining \<noteq> 0 then go_err (problem_Internal ''asset lots do not match available balance'')
       else freeze_record S cmd hold holdLots available frozen))))))))"

definition freeze_in_transaction ::
    "member_env \<Rightarrow> FreezeCommand \<Rightarrow> (member_world, go_error, HoldDTO) go" where
  "freeze_in_transaction S cmd =
     go_bind (go_try (db_take (hold_t S) (\<lambda>h. hd_ReservationKey h = fz_ReservationKey cmd))) (\<lambda>found.
     case found of
       Inr existing \<Rightarrow>
         if hd_OriginalAmount existing \<noteq> sint (cm_Amount cmd) \<or> hd_AssetType existing \<noteq> cm_AssetType cmd \<or>
            hd_SourceType existing \<noteq> cm_SourceType cmd \<or> hd_SourceID existing \<noteq> cm_SourceID cmd
         then go_err (problem_Conflict ''ASSET_IDEMPOTENCY_CONFLICT'' ''reservation key was reused with different data'')
         else go_ok (holdDTO existing)
     | Inl e \<Rightarrow> if e \<noteq> ErrRecordNotFound then go_err e else freeze_fresh S cmd)"

definition asset_Freeze :: "member_env \<Rightarrow> FreezeCommand \<Rightarrow> (member_world, go_error, HoldDTO) go" where
  "asset_Freeze S cmd0 =
     (if \<not> env_WriteEnabled S then go_err ASSET_WRITE_DISABLED
      else
        let cmd = cmd0\<lparr>cm_Action := ''freeze''\<rparr> in
        if cm_AssetType cmd = TypeGrowth
        then go_err (Problem (problem_New 422 ''ASSET_TYPE_INVALID'' ''Unprocessable Entity'' ''growth value cannot be frozen''))
        else case validateCommand cmd (-1) of
          Some e \<Rightarrow> go_err e
        | None \<Rightarrow>
            if fz_ReservationKey cmd = [] \<or> 128 < length (fz_ReservationKey cmd)
            then go_err (problem_InvalidArgument ''VALIDATION_FAILED''
              ''reservation_key is required and must not exceed 128 characters'')
            else gorm_transaction (env_commit S) restore_member (freeze_in_transaction S cmd))"

subsection \<open>Committing and releasing\<close>

definition hold_json :: "HoldCommand \<Rightarrow> json" where
  "hold_json cmd = JObject
     [(''HoldID'', JInt (uint (hc_HoldID cmd))), (''Amount'', JInt (sint (hc_Amount cmd))),
      (''SourceType'', JString (hc_SourceType cmd)), (''SourceID'', JString (hc_SourceID cmd)),
      (''Action'', JString (hc_Action cmd)), (''IdempotencyKey'', JString (hc_IdempotencyKey cmd)),
      (''ActorType'', JString (hc_ActorType cmd)), (''ActorID'', JInt (uint (hc_ActorID cmd)))]"

text \<open>One allocation of a hold: what a commit, a release after the lot's expiry and a release
  before it do with \<open>use\<close> units of the lot. The result says whether the units go to the platform.\<close>

definition hold_step ::
    "member_env \<Rightarrow> bool \<Rightarrow> go_time \<Rightarrow> HoldLot \<Rightarrow> AssetLot \<Rightarrow> int \<Rightarrow> (member_world, go_error, bool) go" where
  "hold_step S commit now allocation lot use =
     (if commit then
        go_bind (db_updates (lot_t S) (\<lambda>l. al_ID l = al_ID lot)
          (\<lambda>l. l\<lparr>al_FrozenAmount := al_FrozenAmount l - use, al_ConsumedAmount := al_ConsumedAmount l + use,
                al_Version := al_Version l + 1\<rparr>)) (\<lambda>_.
        go_bind (db_updates (hold_lot_t S) (\<lambda>h. hl_ID h = hl_ID allocation)
          (\<lambda>h. h\<lparr>hl_CommittedAmount := hl_CommittedAmount h + use\<rparr>)) (\<lambda>_.
        go_ok True))
      else if (case al_ExpiresAt lot of None \<Rightarrow> False | Some t \<Rightarrow> \<not> now < t) then
        go_bind (db_updates (lot_t S) (\<lambda>l. al_ID l = al_ID lot)
          (\<lambda>l. l\<lparr>al_FrozenAmount := al_FrozenAmount l - use, al_ExpiredAmount := al_ExpiredAmount l + use,
                al_Status := ''expired'', al_Version := al_Version l + 1\<rparr>)) (\<lambda>_.
        go_bind (db_updates (hold_lot_t S) (\<lambda>h. hl_ID h = hl_ID allocation)
          (\<lambda>h. h\<lparr>hl_ReleasedAmount := hl_ReleasedAmount h + use\<rparr>)) (\<lambda>_.
        go_ok True))
      else
        go_bind (db_updates (lot_t S) (\<lambda>l. al_ID l = al_ID lot)
          (\<lambda>l. l\<lparr>al_FrozenAmount := al_FrozenAmount l - use, al_AvailableAmount := al_AvailableAmount l + use,
                al_Version := al_Version l + 1\<rparr>)) (\<lambda>_.
        go_bind (db_updates (hold_lot_t S) (\<lambda>h. hl_ID h = hl_ID allocation)
          (\<lambda>h. h\<lparr>hl_ReleasedAmount := hl_ReleasedAmount h + use\<rparr>)) (\<lambda>_.
        go_ok False)))"

text \<open>The loop over the allocations returns what is left to apply, what went back to the
  available bucket and what went to the platform.\<close>

fun hold_loop ::
    "member_env \<Rightarrow> bool \<Rightarrow> go_time \<Rightarrow> HoldLot list \<Rightarrow> int \<Rightarrow> int \<Rightarrow> int \<Rightarrow> (member_world, go_error, int \<times> int \<times> int) go" where
  "hold_loop S commit now [] remainingAction availableReturn platformTransfer =
     go_ok (remainingAction, availableReturn, platformTransfer)"
| "hold_loop S commit now (allocation # allocations) remainingAction availableReturn platformTransfer =
     (let left = i64 (i64 (hl_Amount allocation - hl_CommittedAmount allocation) - hl_ReleasedAmount allocation);
          use = min64 left remainingAction in
      if use = 0 then hold_loop S commit now allocations remainingAction availableReturn platformTransfer
      else
        go_bind (db_take (lot_t S) (\<lambda>l. al_ID l = hl_LotID allocation)) (\<lambda>lot.
        if al_FrozenAmount lot < use then go_err (problem_Internal ''hold lot exceeds frozen lot amount'')
        else
          go_bind (hold_step S commit now allocation lot use) (\<lambda>platform.
          let availableReturn' = (if platform then availableReturn else i64 (availableReturn + use));
              platformTransfer' = (if platform then i64 (platformTransfer + use) else platformTransfer);
              rest = i64 (remainingAction - use) in
          if rest = 0 then go_ok (rest, availableReturn', platformTransfer')
          else hold_loop S commit now allocations rest availableReturn' platformTransfer')))"

definition hold_status :: "bool \<Rightarrow> string \<Rightarrow> Hold \<Rightarrow> int \<Rightarrow> int \<times> int \<times> string" where
  "hold_status commit action hold amount =
     (let newCommitted = (if commit then i64 (hd_CommittedAmount hold + amount) else hd_CommittedAmount hold);
          newReleased = (if commit then hd_ReleasedAmount hold else i64 (hd_ReleasedAmount hold + amount));
          status = (if i64 (newCommitted + newReleased) = hd_OriginalAmount hold
                    then if newCommitted = hd_OriginalAmount hold then ''committed''
                         else if action = ''expire'' then ''expired'' else ''released''
                    else if 0 < newCommitted then ''partially_committed'' else ''active'') in
      (newCommitted, newReleased, status))"

definition hold_row ::
    "member_env \<Rightarrow> HoldCommand \<Rightarrow> Hold \<Rightarrow> int \<Rightarrow> uint64 \<Rightarrow> uint64 \<Rightarrow> go_time \<Rightarrow> AssetTransaction" where
  "hold_row S cmd hold amount i j now =
     \<lparr>atx_ID = i, atx_TransactionNo = ''AT'' @ idString j, atx_AssetType = hd_AssetType hold,
      atx_Unit = hd_Unit hold, atx_Action = hc_Action cmd, atx_Status = ''posted'',
      atx_SourceType = hc_SourceType cmd, atx_SourceID = hc_SourceID cmd,
      atx_IdempotencyKeyHash = keyHash S (hc_IdempotencyKey cmd), atx_RequestHash = requestHash S (hold_json cmd),
      atx_ReversalOfTransactionID = None, atx_Amount = amount,
      atx_ActorType = defaultString (hc_ActorType cmd) ''system'', atx_ActorID = hc_ActorID cmd,
      atx_Metadata = JObject [(''hold_id'', JString (idString (hd_ID hold)))], atx_OccurredAt = now, atx_PostedAt = now\<rparr>"

text \<open>The entries of a hold transaction: always one on the frozen bucket, one on the available
  bucket and one on the platform's account when the amounts are positive.\<close>

definition hold_entries ::
    "uint64 \<Rightarrow> uint64 \<Rightarrow> uint64 \<Rightarrow> int \<times> int \<Rightarrow> int \<times> int \<Rightarrow> int \<times> int \<Rightarrow> (member_world, go_error, Entry list) go" where
  "hold_entries transactionID customerID controlID frozen available platform =
     go_bind (new_entry transactionID 1 customerID ''frozen'' (fst frozen) (snd frozen)) (\<lambda>e1.
     go_bind (if 0 < fst available
              then go_bind (new_entry transactionID 2 customerID ''available'' (fst available) (snd available))
                (\<lambda>e. go_ok ([e1, e], 3))
              else go_ok ([e1], 2)) (\<lambda>(es, seq).
     if 0 < fst platform
     then go_bind (new_entry transactionID seq controlID ''available'' (fst platform) (snd platform))
       (\<lambda>e. go_ok (es @ [e]))
     else go_ok es))"

definition apply_record ::
    "member_env \<Rightarrow> HoldCommand \<Rightarrow> bool \<Rightarrow> Hold \<Rightarrow> Account \<Rightarrow> Account \<Rightarrow> Balance \<Rightarrow> Balance \<Rightarrow> Balance \<Rightarrow> int \<Rightarrow> go_time \<Rightarrow>
     int \<Rightarrow> int \<Rightarrow> (member_world, go_error, TransactionDTO) go" where
  "apply_record S cmd commit hold customer control available frozen controlAvailable amount now
       availableReturn platformTransfer =
     (let availableAfter = i64 (bal_Amount available + availableReturn);
          frozenAfter = i64 (bal_Amount frozen - amount);
          controlAfter = i64 (bal_Amount controlAvailable + platformTransfer) in
      go_bind (setBalance S (bal_ID available) availableAfter) (\<lambda>_.
      go_bind (setBalance S (bal_ID frozen) frozenAfter) (\<lambda>_.
      go_bind (if 0 < platformTransfer then setBalance S (bal_ID controlAvailable) controlAfter else go_ok ()) (\<lambda>_.
      let (newCommitted, newReleased, status) = hold_status commit (hc_Action cmd) hold amount in
      go_bind (db_updates (hold_t S) (\<lambda>h. hd_ID h = hd_ID hold)
        (\<lambda>h. h\<lparr>hd_CommittedAmount := newCommitted, hd_ReleasedAmount := newReleased, hd_Status := status,
              hd_Version := hd_Version h + 1\<rparr>)) (\<lambda>_.
      go_bind next_id (\<lambda>i.
      go_bind next_id (\<lambda>j.
      let row = hold_row S cmd hold amount i j now in
      go_bind (hold_entries (atx_ID row) (acc_ID customer) (acc_ID control) (i64 (- amount), frozenAfter)
        (availableReturn, availableAfter) (platformTransfer, controlAfter)) (\<lambda>es.
      if foldl (\<lambda>s e. i64 (s + ent_Delta e)) 0 es \<noteq> 0
      then go_err (problem_Internal ''asset hold transaction is unbalanced'')
      else
        go_bind (create_mapped (transaction_t S) row) (\<lambda>_.
        go_bind (db_create_all (entry_t S) es) (\<lambda>_.
        go_bind (create_audit S (atx_ActorType row) (atx_ActorID row) (''asset.'' @ hc_Action cmd) (hd_ID hold) JNull
          (JObject [(''hold_id'', JString (idString (hd_ID hold))), (''amount'', JInt amount)])) (\<lambda>_.
        go_bind (create_outbox S (''asset.hold.'' @ hc_Action cmd) (hd_ID hold)
          (JObject [(''hold_id'', JString (idString (hd_ID hold))), (''amount'', JInt amount),
            (''status'', JString status)])) (\<lambda>_.
        go_ok (dtoFromTransaction row (acc_OwnerID customer) availableReturn (i64 (- amount)) availableAfter JNull)))))))))))))"

definition hold_conflict :: "string \<Rightarrow> go_error" where
  "hold_conflict detail = problem_Conflict ''ASSET_HOLD_STATE_CONFLICT'' detail"

definition apply_fresh ::
    "member_env \<Rightarrow> HoldCommand \<Rightarrow> bool \<Rightarrow> (member_world, go_error, TransactionDTO) go" where
  "apply_fresh S cmd commit =
     go_bind (go_try (db_take (hold_t S) (\<lambda>h. hd_ID h = hc_HoldID cmd))) (\<lambda>taken.
     case taken of
       Inl _ \<Rightarrow> go_err (problem_NotFound ''ASSET_HOLD_NOT_FOUND'' ''asset hold not found'')
     | Inr hold \<Rightarrow>
         let remaining = i64 (i64 (hd_OriginalAmount hold - hd_CommittedAmount hold) - hd_ReleasedAmount hold);
             amount = (if sint (hc_Amount cmd) = 0 then remaining else sint (hc_Amount cmd)) in
         if amount \<le> 0 \<or> remaining < amount then go_err (hold_conflict ''hold amount exceeds active remainder'')
         else if hd_Status hold = ''committed'' \<or> hd_Status hold = ''released'' \<or> hd_Status hold = ''expired''
         then go_err (hold_conflict ''hold is already terminal'')
         else
           go_bind (db_take (account_t S) (\<lambda>a. acc_ID a = hd_AccountID hold \<and> acc_OwnerType a = ''customer'')) (\<lambda>customer.
           go_bind (ensureAccounts S (acc_OwnerID customer) (hd_AssetType hold) (hd_Unit hold)) (\<lambda>(_, control).
           go_bind (lock_accounts S [acc_ID customer, acc_ID control]) (\<lambda>_.
           go_bind (lockBalance S (acc_ID customer) ''available'') (\<lambda>available.
           go_bind (lockBalance S (acc_ID customer) ''frozen'') (\<lambda>frozen.
           go_bind (lockBalance S (acc_ID control) ''available'') (\<lambda>controlAvailable.
           if bal_Amount frozen < amount then go_err (problem_Internal ''hold exceeds frozen balance'')
           else
             go_bind (db_ordered (hold_lot_t S)
               (\<lambda>h. hl_HoldID h = hd_ID hold \<and> hl_CommittedAmount h + hl_ReleasedAmount h < hl_Amount h)
               (\<lambda>h. [uint (hl_LotID h)])) (\<lambda>allocations.
             go_bind now_utc (\<lambda>now.
             go_bind (hold_loop S commit now allocations amount 0 0) (\<lambda>(remainingAction, availableReturn, platformTransfer).
             if remainingAction \<noteq> 0 then go_err (problem_Internal ''hold lot allocation is incomplete'')
             else apply_record S cmd commit hold customer control available frozen controlAvailable amount now
               availableReturn platformTransfer))))))))))"

definition apply_in_transaction ::
    "member_env \<Rightarrow> HoldCommand \<Rightarrow> bool \<Rightarrow> (member_world, go_error, TransactionDTO) go" where
  "apply_in_transaction S cmd commit =
     go_bind (go_try (db_take (transaction_t S)
       (by_source (hc_SourceType cmd) (hc_SourceID cmd) (hc_Action cmd)))) (\<lambda>found.
     case found of
       Inr existing \<Rightarrow>
         go_bind (db_find (hold_t S) (\<lambda>h. hd_ID h = hc_HoldID cmd)) (\<lambda>hs.
         go_bind (db_take (account_t S) (\<lambda>a. list_ex (\<lambda>h. hd_AccountID h = acc_ID a) hs)) (\<lambda>account.
         transactionDTO S existing (acc_OwnerID account) JNull))
     | Inl e \<Rightarrow> if e \<noteq> ErrRecordNotFound then go_err e else apply_fresh S cmd commit)"

definition applyHold ::
    "member_env \<Rightarrow> HoldCommand \<Rightarrow> bool \<Rightarrow> (member_world, go_error, TransactionDTO) go" where
  "applyHold S cmd commit =
     (if \<not> env_WriteEnabled S then go_err ASSET_WRITE_DISABLED
      else if hc_HoldID cmd = 0 \<or> hc_SourceType cmd = [] \<or> hc_SourceID cmd = [] \<or> length (hc_IdempotencyKey cmd) < 8
      then go_err (problem_InvalidArgument ''VALIDATION_FAILED'' ''hold command is invalid'')
      else gorm_transaction (env_commit S) restore_member (apply_in_transaction S cmd commit))"

definition Commit :: "member_env \<Rightarrow> HoldCommand \<Rightarrow> (member_world, go_error, TransactionDTO) go" where
  "Commit S cmd = applyHold S (cmd\<lparr>hc_Action := ''commit''\<rparr>) True"

definition Release :: "member_env \<Rightarrow> HoldCommand \<Rightarrow> (member_world, go_error, TransactionDTO) go" where
  "Release S cmd = applyHold S (cmd\<lparr>hc_Action := ''release''\<rparr>) False"

definition expireHold :: "member_env \<Rightarrow> HoldCommand \<Rightarrow> (member_world, go_error, TransactionDTO) go" where
  "expireHold S cmd = applyHold S (cmd\<lparr>hc_Action := ''expire''\<rparr>) False"

subsection \<open>Expiry of lots and holds\<close>

definition lot_due :: "go_time \<Rightarrow> AssetLot \<Rightarrow> bool" where
  "lot_due now l \<longleftrightarrow> (case al_ExpiresAt l of None \<Rightarrow> False | Some t \<Rightarrow> t \<le> now) \<and> 0 < al_AvailableAmount l"

definition expire_lot_row ::
    "member_env \<Rightarrow> Account \<Rightarrow> AssetLot \<Rightarrow> int \<Rightarrow> uint64 \<Rightarrow> uint64 \<Rightarrow> go_time \<Rightarrow> AssetTransaction" where
  "expire_lot_row S customer lot amount i j now =
     (let sourceID = idString (al_ID lot) in
      \<lparr>atx_ID = i, atx_TransactionNo = ''AT'' @ idString j, atx_AssetType = acc_AssetType customer,
       atx_Unit = acc_Unit customer, atx_Action = ''expire'', atx_Status = ''posted'', atx_SourceType = ''expiry'',
       atx_SourceID = sourceID, atx_IdempotencyKeyHash = keyHash S (''expiry-lot-'' @ sourceID),
       atx_RequestHash = requestHash S (JObject [(''lot_id'', JString sourceID), (''amount'', JInt amount)]),
       atx_ReversalOfTransactionID = None, atx_Amount = amount, atx_ActorType = ''system'', atx_ActorID = 0,
       atx_Metadata = JObject [(''lot_id'', JString sourceID)], atx_OccurredAt = now, atx_PostedAt = now\<rparr>)"

text \<open>A lookup whose "not found" ends the transaction without an error.\<close>

definition take_or_stop ::
    "('w, 'row) db_table \<Rightarrow> ('row \<Rightarrow> bool) \<Rightarrow> ('row \<Rightarrow> ('w, go_error, bool) go) \<Rightarrow> ('w, go_error, bool) go" where
  "take_or_stop T p k =
     go_bind (go_try (db_take T p)) (\<lambda>r.
       case r of Inl e \<Rightarrow> if e = ErrRecordNotFound then go_ok False else go_err e | Inr x \<Rightarrow> k x)"

definition expire_lot_effects ::
    "member_env \<Rightarrow> Account \<Rightarrow> Account \<Rightarrow> Balance \<Rightarrow> Balance \<Rightarrow> AssetLot \<Rightarrow> (member_world, go_error, bool) go" where
  "expire_lot_effects S customer control available controlBalance lot =
     (let amount = al_AvailableAmount lot in
      if bal_Amount available < amount then go_err (problem_Internal ''expiring lot exceeds available balance'')
      else
        let availableAfter = i64 (bal_Amount available - amount); controlAfter = i64 (bal_Amount controlBalance + amount) in
        go_bind (setBalance S (bal_ID available) availableAfter) (\<lambda>_.
        go_bind (setBalance S (bal_ID controlBalance) controlAfter) (\<lambda>_.
        go_bind (db_updates (lot_t S) (\<lambda>l. al_ID l = al_ID lot)
          (\<lambda>l. l\<lparr>al_AvailableAmount := 0, al_ExpiredAmount := al_ExpiredAmount l + amount, al_Status := ''expired'',
                al_Version := al_Version l + 1\<rparr>)) (\<lambda>_.
        go_bind now_utc (\<lambda>now.
        go_bind next_id (\<lambda>i.
        go_bind next_id (\<lambda>j.
        let row = expire_lot_row S customer lot amount i j now in
        go_bind (new_entry (atx_ID row) 1 (acc_ID customer) ''available'' (i64 (- amount)) availableAfter) (\<lambda>e1.
        go_bind (new_entry (atx_ID row) 2 (acc_ID control) ''available'' amount controlAfter) (\<lambda>e2.
        go_bind (create_mapped (transaction_t S) row) (\<lambda>_.
        go_bind (db_create_all (entry_t S) [e1, e2]) (\<lambda>_.
        go_bind (create_outbox S ''asset.lot.expired'' (al_ID lot)
          (JObject [(''lot_id'', JString (idString (al_ID lot))), (''amount'', JInt amount)])) (\<lambda>_.
        go_ok True))))))))))))"

definition expire_lot_in_transaction :: "member_env \<Rightarrow> uint64 \<Rightarrow> (member_world, go_error, bool) go" where
  "expire_lot_in_transaction S lotID =
     go_bind now_utc (\<lambda>now0.
     take_or_stop (lot_t S) (\<lambda>l. al_ID l = lotID \<and> lot_due now0 l) (\<lambda>lot0.
     go_bind (db_take (account_t S) (\<lambda>a. acc_ID a = al_AccountID lot0 \<and> acc_OwnerType a = ''customer'')) (\<lambda>customer.
     go_bind (ensureAccounts S (acc_OwnerID customer) (acc_AssetType customer) (acc_Unit customer)) (\<lambda>(_, control).
     go_bind (lock_accounts S [acc_ID customer, acc_ID control]) (\<lambda>_.
     go_bind (lockBalance S (acc_ID customer) ''available'') (\<lambda>available.
     go_bind (lockBalance S (acc_ID control) ''available'') (\<lambda>controlBalance.
     go_bind now_utc (\<lambda>now1.
     take_or_stop (lot_t S) (\<lambda>l. al_ID l = lotID \<and> lot_due now1 l \<and> \<not> env_locked S (al_ID l)) (\<lambda>lot.
     expire_lot_effects S customer control available controlBalance lot)))))))))"

definition expireLot :: "member_env \<Rightarrow> uint64 \<Rightarrow> (member_world, go_error, bool) go" where
  "expireLot S lotID = gorm_transaction (env_commit S) restore_member (expire_lot_in_transaction S lotID)"

text \<open>The two workers. The pair returned is the count the Go function returns and its error:
  a run that fails still reports what it has processed before.\<close>

fun expire_lots_loop :: "member_env \<Rightarrow> uint64 list \<Rightarrow> nat \<Rightarrow> member_world \<Rightarrow> (nat \<times> go_error option) \<times> member_world" where
  "expire_lots_loop S [] processed w = ((processed, None), w)"
| "expire_lots_loop S (i # ids) processed w =
     (case expireLot S i w of
        (Inl e, w') \<Rightarrow> ((processed, Some e), w')
      | (Inr ok, w') \<Rightarrow> expire_lots_loop S ids (if ok then Suc processed else processed) w')"

definition ExpireDueLots :: "member_env \<Rightarrow> int \<Rightarrow> member_world \<Rightarrow> (nat \<times> go_error option) \<times> member_world" where
  "ExpireDueLots S limit0 w =
     (if \<not> env_WriteEnabled S \<or> \<not> env_ExpiryEnabled S then ((0, None), w)
      else
        let limit = (if limit0 \<le> 0 then env_WorkerBatchSize S else limit0) in
        case db_ordered (lot_t S) (\<lambda>l. lot_due (mw_wall w) l \<and> al_Status l = ''active'') lot_order w of
          (Inl e, w') \<Rightarrow> ((0, Some e), w')
        | (Inr lots, w') \<Rightarrow> expire_lots_loop S (map al_ID (gorm_limit limit lots)) 0 w')"

fun expire_holds_loop :: "member_env \<Rightarrow> uint64 list \<Rightarrow> nat \<Rightarrow> member_world \<Rightarrow> (nat \<times> go_error option) \<times> member_world" where
  "expire_holds_loop S [] processed w = ((processed, None), w)"
| "expire_holds_loop S (i # ids) processed w =
     (let sourceID = ''hold-'' @ idString i in
      case expireHold S \<lparr>hc_HoldID = i, hc_Amount = 0, hc_SourceType = ''expiry'', hc_SourceID = sourceID,
          hc_Action = [], hc_IdempotencyKey = ''expire-'' @ sourceID, hc_ActorType = ''system'', hc_ActorID = 0\<rparr> w of
        (Inl e, w') \<Rightarrow>
          if error_code e = ''ASSET_HOLD_STATE_CONFLICT'' then expire_holds_loop S ids processed w'
          else ((processed, Some e), w')
      | (Inr _, w') \<Rightarrow> expire_holds_loop S ids (Suc processed) w')"

definition hold_due :: "go_time \<Rightarrow> Hold \<Rightarrow> bool" where
  "hold_due now h \<longleftrightarrow> (hd_Status h = ''active'' \<or> hd_Status h = ''partially_committed'') \<and>
     (case hd_ExpiresAt h of None \<Rightarrow> False | Some t \<Rightarrow> t \<le> now)"

definition hold_order :: "Hold \<Rightarrow> int list" where
  "hold_order h = (case hd_ExpiresAt h of None \<Rightarrow> [] | Some t \<Rightarrow> [t, uint (hd_ID h)])"

definition ExpireDueHolds :: "member_env \<Rightarrow> int \<Rightarrow> member_world \<Rightarrow> (nat \<times> go_error option) \<times> member_world" where
  "ExpireDueHolds S limit0 w =
     (if \<not> env_WriteEnabled S \<or> \<not> env_ExpiryEnabled S then ((0, None), w)
      else
        let limit = (if limit0 \<le> 0 then env_WorkerBatchSize S else limit0) in
        case db_ordered (hold_t S) (hold_due (mw_wall w)) hold_order w of
          (Inl e, w') \<Rightarrow> ((0, Some e), w')
        | (Inr hs, w') \<Rightarrow> expire_holds_loop S (map hd_ID (gorm_limit limit hs)) 0 w')"

end
