(* ===== verification/Member_Books.thy ===== *)
theory Member_Books
  imports Member_Holds
begin

text \<open>
  The books of the member asset ledger: the invariant that every operation keeps, and what the
  building blocks of the operations (locking and setting balances, creating accounts, writing
  entries) do to it.

  Unique indexes of the migration are the \<open>_clash\<close> predicates. The locale \<open>member_store\<close> collects
  the laws of the tables; \<open>mem_store\<close> is an interpretation with tables kept in memory.
\<close>

named_theorems member_frame \<open>what a step leaves of the tables of the ledger\<close>

subsection \<open>Unique indexes\<close>

definition owner_key :: "Account \<Rightarrow> string \<times> uint64 \<times> string \<times> string" where
  "owner_key a = (acc_OwnerType a, acc_OwnerID a, acc_AssetType a, acc_Unit a)"

definition bal_key :: "Balance \<Rightarrow> uint64 \<times> string" where
  "bal_key b = (bal_AccountID b, bal_Bucket b)"

definition ent_key :: "Entry \<Rightarrow> uint64 \<times> string" where
  "ent_key e = (ent_AccountID e, ent_Bucket e)"

definition source_key :: "AssetTransaction \<Rightarrow> string \<times> string \<times> string" where
  "source_key t = (atx_SourceType t, atx_SourceID t, atx_Action t)"

definition account_clash :: "Account \<Rightarrow> Account \<Rightarrow> bool" where
  "account_clash a b \<longleftrightarrow> acc_ID a = acc_ID b \<or> acc_AccountNo a = acc_AccountNo b \<or> owner_key a = owner_key b"

definition balance_clash :: "Balance \<Rightarrow> Balance \<Rightarrow> bool" where
  "balance_clash a b \<longleftrightarrow> bal_ID a = bal_ID b \<or> bal_key a = bal_key b"

definition transaction_clash :: "AssetTransaction \<Rightarrow> AssetTransaction \<Rightarrow> bool" where
  "transaction_clash s t \<longleftrightarrow> atx_ID s = atx_ID t \<or> atx_TransactionNo s = atx_TransactionNo t \<or>
     source_key s = source_key t \<or>
     (atx_ActorType s = atx_ActorType t \<and> atx_ActorID s = atx_ActorID t \<and>
      atx_IdempotencyKeyHash s = atx_IdempotencyKeyHash t)"

definition transaction_fits :: "AssetTransaction \<Rightarrow> bool" where
  "transaction_fits t \<longleftrightarrow> 0 < atx_Amount t \<and> atx_Amount t < 2 ^ 63"

definition entry_clash :: "Entry \<Rightarrow> Entry \<Rightarrow> bool" where
  "entry_clash d e \<longleftrightarrow> ent_ID d = ent_ID e \<or>
     (ent_TransactionID d = ent_TransactionID e \<and> ent_EntrySeq d = ent_EntrySeq e)"

definition entry_fits :: "Entry \<Rightarrow> bool" where
  "entry_fits e \<longleftrightarrow> ent_Delta e \<noteq> 0"

definition asset_lot_clash :: "AssetLot \<Rightarrow> AssetLot \<Rightarrow> bool" where
  "asset_lot_clash k l \<longleftrightarrow> al_ID k = al_ID l \<or>
     (al_GrantTransactionID k = al_GrantTransactionID l \<and> al_AccountID k = al_AccountID l)"

definition asset_lot_fits :: "AssetLot \<Rightarrow> bool" where
  "asset_lot_fits l \<longleftrightarrow> 0 < al_GrantedAmount l \<and> 0 \<le> al_AvailableAmount l \<and> 0 \<le> al_FrozenAmount l \<and>
     0 \<le> al_ConsumedAmount l \<and> 0 \<le> al_ExpiredAmount l \<and>
     al_GrantedAmount l = al_AvailableAmount l + al_FrozenAmount l + al_ConsumedAmount l + al_ExpiredAmount l"

definition hold_clash :: "Hold \<Rightarrow> Hold \<Rightarrow> bool" where
  "hold_clash g h \<longleftrightarrow> hd_ID g = hd_ID h \<or> hd_HoldNo g = hd_HoldNo h \<or>
     hd_ReservationKey g = hd_ReservationKey h \<or>
     (hd_SourceType g = hd_SourceType h \<and> hd_SourceID g = hd_SourceID h)"

definition hold_lot_clash :: "HoldLot \<Rightarrow> HoldLot \<Rightarrow> bool" where
  "hold_lot_clash g h \<longleftrightarrow> hl_ID g = hl_ID h \<or> (hl_HoldID g = hl_HoldID h \<and> hl_LotID g = hl_LotID h)"

locale member_store =
  acct: gorm_table "accountE S" account_clash account_fits +
  bal: gorm_table "balanceE S" balance_clash balance_fits +
  txn: gorm_table "transactionE S" transaction_clash transaction_fits +
  ent: gorm_table "entryE S" entry_clash entry_fits +
  lot: gorm_table "lotE S" asset_lot_clash asset_lot_fits +
  hld: gorm_table "holdE S" hold_clash hold_fits +
  alloc: gorm_table "holdLotE S" hold_lot_clash hold_lot_fits
  for S :: member_env and account_fits balance_fits hold_fits hold_lot_fits

subsection \<open>Steps that leave the ledger alone\<close>

definition core :: "member_world \<Rightarrow> Account list \<times> Balance list \<times> AssetTransaction list \<times> Entry list \<times>
    AssetLot list \<times> Hold list \<times> HoldLot list" where
  "core w = (accounts w, balances w, asset_transactions w, entries w, asset_lots w, holds w, hold_lots w)"

lemma core_iff:
  "core w' = core w \<longleftrightarrow> accounts w' = accounts w \<and> balances w' = balances w \<and>
     asset_transactions w' = asset_transactions w \<and> entries w' = entries w \<and> asset_lots w' = asset_lots w \<and>
     holds w' = holds w \<and> hold_lots w' = hold_lots w"
  by (auto simp: core_def)

abbreviation keeps_core :: "(member_world, go_error, 'a) go \<Rightarrow> bool" where
  "keeps_core m \<equiv> (\<forall>c. go_keeps (\<lambda>w. core w = c) m)"

lemma keeps_coreD: "keeps_core m \<Longrightarrow> m w = (r, w') \<Longrightarrow> core w' = core w"
  using go_keepsD by fast

lemma keeps_core_take [intro]: "go_keeps (\<lambda>w. core w = c) (db_take T p)"
  by (simp add: go_keeps_def db_take_def)

lemma keeps_core_find [intro]: "go_keeps (\<lambda>w. core w = c) (db_find T p)"
  by (simp add: go_keeps_def db_find_def)

lemma keeps_core_ordered [intro]: "go_keeps (\<lambda>w. core w = c) (db_ordered T p key)"
  by (simp add: go_keeps_def db_ordered_def)

lemma keeps_core_next_id [intro]: "go_keeps (\<lambda>w. core w = c) next_id"
  by (auto simp: next_id_def core_def split: prod.splits)

lemma keeps_core_now [intro]: "go_keeps (\<lambda>w. core w = c) now_utc"
  by (auto simp: now_utc_def)

lemma keeps_core_uuid [intro]: "go_keeps (\<lambda>w. core w = c) (new_uuid S)"
  by (auto simp: new_uuid_def core_def)

lemma keeps_core_tables [intro]:
  "go_keeps (\<lambda>w. core w = c) (db_create (audit_t S) a)"
  "go_keeps (\<lambda>w. core w = c) (db_create (outbox_t S) ob)"
  "go_keeps (\<lambda>w. core w = c) (db_create (history_t S) h)"
  "go_keeps (\<lambda>w. core w = c) (db_create_ignore (profile_t S) p)"
  "go_keeps (\<lambda>w. core w = c) (db_updates (profile_t S) q f)"
  by (auto simp: go_keeps_def db_create_def db_create_ignore_def db_updates_def core_def member_tables
      split: sum.splits prod.splits)

lemmas keeps_core_base = go_keeps_rules keeps_core_take keeps_core_find keeps_core_ordered
  keeps_core_next_id keeps_core_now keeps_core_uuid keeps_core_tables

lemma keeps_core_audit: "go_keeps (\<lambda>w. core w = c) (create_audit S t i a r x y)"
  unfolding create_audit_def audit_def by (intro keeps_core_base)

lemma keeps_core_outbox: "go_keeps (\<lambda>w. core w = c) (create_outbox S e i p)"
  unfolding create_outbox_def outbox_def by (intro keeps_core_base)

lemma keeps_core_profile: "go_keeps (\<lambda>w. core w = c) (refreshMemberProfile S i g t)"
  unfolding refreshMemberProfile_def Let_def by (intro keeps_core_base keeps_core_outbox)

lemma keeps_core_customer: "go_keeps (\<lambda>w. core w = c) (requireCustomer S i)"
  unfolding requireCustomer_def by (intro keeps_core_base)

lemma keeps_core_lock: "go_keeps (\<lambda>w. core w = c) (lock_accounts S ids)"
  unfolding lock_accounts_def by (intro go_keeps_for keeps_core_base)

lemma keeps_core_dto: "go_keeps (\<lambda>w. core w = c) (transactionDTO S t i j)"
  unfolding transactionDTO_def Let_def by (intro keeps_core_base)

lemma keeps_core_entry: "go_keeps (\<lambda>w. core w = c) (new_entry t s a b d z)"
  unfolding new_entry_def by (intro keeps_core_base)

lemma keeps_core_reverse_queries:
  "go_keeps (\<lambda>w. core w = c) (customer_account_of S t)" "go_keeps (\<lambda>w. core w = c) (reversed_amount S t)"
  unfolding customer_account_of_def reversed_amount_def by (intro keeps_core_base)+

lemmas core_frames [member_frame] =
  keeps_core_next_id [THEN go_keepsD, OF _ refl] keeps_core_now [THEN go_keepsD, OF _ refl]
  keeps_core_audit [THEN go_keepsD, OF _ refl] keeps_core_outbox [THEN go_keepsD, OF _ refl]
  keeps_core_profile [THEN go_keepsD, OF _ refl] keeps_core_customer [THEN go_keepsD, OF _ refl]
  keeps_core_lock [THEN go_keepsD, OF _ refl] keeps_core_dto [THEN go_keepsD, OF _ refl]
  keeps_core_entry [THEN go_keepsD, OF _ refl] keeps_core_reverse_queries [THEN go_keepsD, OF _ refl]

subsection \<open>The ledger invariant\<close>

definition delta_of :: "Entry list \<Rightarrow> uint64 \<times> string \<Rightarrow> int" where
  "delta_of es k = sum_list (map ent_Delta (filter (\<lambda>e. ent_key e = k) es))"

definition tx_total :: "Entry list \<Rightarrow> uint64 \<Rightarrow> int" where
  "tx_total es i = sum_list (map ent_Delta (filter (\<lambda>e. ent_TransactionID e = i) es))"

text \<open>\<open>keys_ok\<close>: the unique indexes hold and every balance belongs to an account. \<open>ledger_ok\<close>: a balance is the sum of its entries (in the
  64 bits it has), the entries of each transaction sum to zero, no entry is without its
  transaction or its balance, and amounts of transactions are positive.\<close>

definition keys_ok :: "member_world \<Rightarrow> bool" where
  "keys_ok w \<longleftrightarrow> distinct (map acc_ID (accounts w)) \<and> distinct (map owner_key (accounts w)) \<and>
     distinct (map bal_ID (balances w)) \<and> distinct (map bal_key (balances w)) \<and>
     distinct (map atx_ID (asset_transactions w)) \<and> distinct (map source_key (asset_transactions w)) \<and>
     bal_AccountID ` set (balances w) \<subseteq> acc_ID ` set (accounts w)"

definition ledger_ok :: "member_world \<Rightarrow> bool" where
  "ledger_ok w \<longleftrightarrow> keys_ok w \<and>
     (\<forall>b\<in>set (balances w). bal_Amount b = i64 (delta_of (entries w) (bal_key b))) \<and>
     (\<forall>e\<in>set (entries w). ent_key e \<in> bal_key ` set (balances w) \<and>
        ent_TransactionID e \<in> atx_ID ` set (asset_transactions w)) \<and>
     (\<forall>t\<in>set (asset_transactions w). tx_total (entries w) (atx_ID t) = 0) \<and>
     (\<forall>t\<in>set (asset_transactions w). transaction_fits t)"

lemma delta_of_simps [simp]:
  "delta_of [] k = 0" "delta_of (e # es) k = (if ent_key e = k then ent_Delta e else 0) + delta_of es k"
  "delta_of (es @ es') k = delta_of es k + delta_of es' k"
  by (simp_all add: delta_of_def)

lemma tx_total_simps [simp]:
  "tx_total [] i = 0" "tx_total (e # es) i = (if ent_TransactionID e = i then ent_Delta e else 0) + tx_total es i"
  "tx_total (es @ es') i = tx_total es i + tx_total es' i"
  by (simp_all add: tx_total_def)

lemma tx_total_none: "(\<And>e. e \<in> set es \<Longrightarrow> ent_TransactionID e \<noteq> i) \<Longrightarrow> tx_total es i = 0"
  by (simp add: tx_total_def)

lemma tx_total_all: "(\<And>e. e \<in> set es \<Longrightarrow> ent_TransactionID e = i) \<Longrightarrow> tx_total es i = sum_list (map ent_Delta es)"
  by (simp add: tx_total_def)

lemma delta_of_none: "(\<And>e. e \<in> set es \<Longrightarrow> ent_key e \<noteq> k) \<Longrightarrow> delta_of es k = 0"
  by (simp add: delta_of_def)

subsection \<open>Moving balances\<close>

text \<open>\<open>moves d rows rows'\<close>: the same balances, each changed by what \<open>d\<close> says for its account and bucket.\<close>

definition moved :: "(uint64 \<times> string \<Rightarrow> int) \<Rightarrow> Balance \<Rightarrow> Balance \<Rightarrow> bool" where
  "moved d b b' \<longleftrightarrow> bal_ID b' = bal_ID b \<and> bal_key b' = bal_key b \<and>
     bal_Amount b' = i64 (bal_Amount b + d (bal_key b))"

definition moves :: "(uint64 \<times> string \<Rightarrow> int) \<Rightarrow> Balance list \<Rightarrow> Balance list \<Rightarrow> bool" where
  "moves d = list_all2 (moved d)"

definition int64_rows :: "Balance list \<Rightarrow> bool" where
  "int64_rows rows \<longleftrightarrow> (\<forall>b\<in>set rows. i64 (bal_Amount b) = bal_Amount b)"

lemma moves_refl: "int64_rows rows \<Longrightarrow> moves (\<lambda>_. 0) rows rows"
  by (auto simp: moves_def moved_def int64_rows_def intro: list.rel_refl_strong)

lemma moves_keys: "moves d rows rows' \<Longrightarrow> map bal_ID rows' = map bal_ID rows \<and> map bal_key rows' = map bal_key rows"
  unfolding moves_def by (induction rule: list_all2_induct) (auto simp: moved_def)

lemma moves_in:
  assumes "moves d rows rows'" and "b' \<in> set rows'"
  obtains b where "b \<in> set rows" and "moved d b b'"
  using assms by (metis in_set_conv_nth list_all2_conv_all_nth moves_def)

lemma moves_update:
  assumes "moves d rows rows'" and b: "b \<in> set rows"
    and ids: "distinct (map bal_ID rows)" and keys: "distinct (map bal_key rows)"
  shows "moves (d(bal_key b := x)) rows (update_where (\<lambda>r. bal_ID r = bal_ID b)
    (\<lambda>r. r\<lparr>bal_Amount := i64 (bal_Amount b + x), bal_Version := bal_Version r + 1\<rparr>) rows')"
  unfolding moves_def
proof (rule list_all2_all_nthI)
  have len: "length rows = length rows'"
    using assms(1) by (simp add: moves_def list_all2_lengthD)
  then show "length rows = length (update_where (\<lambda>r. bal_ID r = bal_ID b)
    (\<lambda>r. r\<lparr>bal_Amount := i64 (bal_Amount b + x), bal_Version := bal_Version r + 1\<rparr>) rows')" by simp
  fix n assume n: "n < length rows"
  then have mv: "moved d (rows ! n) (rows' ! n)" and n': "n < length rows'"
    using assms(1) len by (auto simp: moves_def list_all2_conv_all_nth)
  have same: "rows ! n = b" if "bal_ID (rows ! n) = bal_ID b \<or> bal_key (rows ! n) = bal_key b"
    using that n b ids keys by (metis distinct_key_unique nth_mem)
  show "moved (d(bal_key b := x)) (rows ! n) (update_where (\<lambda>r. bal_ID r = bal_ID b)
    (\<lambda>r. r\<lparr>bal_Amount := i64 (bal_Amount b + x), bal_Version := bal_Version r + 1\<rparr>) rows' ! n)"
    using mv n' same by (auto simp: update_where_def moved_def bal_key_def)
qed

text \<open>Entries that match the move of the balances keep the ledger.\<close>

lemma ledger_int64: "ledger_ok w \<Longrightarrow> int64_rows (balances w)"
  by (auto simp: ledger_ok_def int64_rows_def)

lemma ledger_post:
  assumes ok: "ledger_ok v" and acc: "accounts w = accounts v"
    and txs: "asset_transactions w = asset_transactions v"
    and mv: "moves (delta_of es) (balances v) (balances w)" and ent: "entries w = entries v @ es"
    and es: "\<And>e. e \<in> set es \<Longrightarrow> ent_TransactionID e = i \<and> ent_key e \<in> bal_key ` set (balances v)"
    and i: "i \<in> atx_ID ` set (asset_transactions v)" "\<And>e. e \<in> set (entries v) \<Longrightarrow> ent_TransactionID e \<noteq> i"
    and zero: "sum_list (map ent_Delta es) = 0"
  shows "ledger_ok w"
proof -
  have keys: "map bal_ID (balances w) = map bal_ID (balances v)" "map bal_key (balances w) = map bal_key (balances v)"
    using moves_keys [OF mv] by simp_all
  have img: "bal_key ` set (balances w) = bal_key ` set (balances v)"
    using arg_cong [OF keys(2), of set] by simp
  have bal: "bal_Amount b' = i64 (delta_of (entries w) (bal_key b'))" if b': "b' \<in> set (balances w)" for b'
  proof -
    obtain b where "b \<in> set (balances v)" and m: "moved (delta_of es) b b'"
      by (rule moves_in [OF mv b'])
    then have "bal_Amount b = i64 (delta_of (entries v) (bal_key b))"
      using ok by (simp add: ledger_ok_def)
    then show ?thesis using m by (simp add: moved_def ent)
  qed
  have tot: "tx_total (entries w) (atx_ID t) = 0" if "t \<in> set (asset_transactions w)" for t
  proof (cases "atx_ID t = i")
    case True
    then show ?thesis using i(2) es zero tx_total_none [of "entries v" i] tx_total_all [of es i] by (auto simp: ent)
  next
    case False
    then show ?thesis using that ok es by (auto simp: ent txs ledger_ok_def intro: tx_total_none)
  qed
  show ?thesis
    unfolding ledger_ok_def
  proof (intro conjI ballI)
    have "bal_AccountID ` set (balances w) = bal_AccountID ` set (balances v)"
      using arg_cong [OF img, of "image fst"] by (simp add: image_image bal_key_def)
    then show "keys_ok w" using ok by (simp add: ledger_ok_def keys_ok_def keys acc txs)
  next
    fix e assume "e \<in> set (entries w)"
    then show "ent_key e \<in> bal_key ` set (balances w)" "ent_TransactionID e \<in> atx_ID ` set (asset_transactions w)"
      using ok es i(1) unfolding img txs ent by (auto simp: ledger_ok_def)
  next
    fix t assume "t \<in> set (asset_transactions w)"
    then show "transaction_fits t" using ok by (simp add: ledger_ok_def txs)
  qed (simp_all add: bal tot)
qed

lemma ledger_add_transaction:
  assumes "ledger_ok w" and "\<And>t. t \<in> set (asset_transactions w) \<Longrightarrow> \<not> transaction_clash row t"
    and "transaction_fits row"
  shows "ledger_ok (w\<lparr>asset_transactions := asset_transactions w @ [row]\<rparr>)"
    and "\<And>e. e \<in> set (entries w) \<Longrightarrow> ent_TransactionID e \<noteq> atx_ID row"
proof -
  show fresh: "\<And>e. e \<in> set (entries w) \<Longrightarrow> ent_TransactionID e \<noteq> atx_ID row"
    using assms by (force simp: ledger_ok_def transaction_clash_def)
  show "ledger_ok (w\<lparr>asset_transactions := asset_transactions w @ [row]\<rparr>)"
    using assms fresh unfolding ledger_ok_def keys_ok_def
    by (auto simp: transaction_clash_def intro: tx_total_none)
qed

text \<open>\<open>wouldOverflow\<close> says exactly when a sum leaves the 64 bits.\<close>

lemma wouldOverflow_iff:
  assumes "i64 a = a" and "i64 b = b"
  shows "wouldOverflow a b \<longleftrightarrow> i64 (a + b) \<noteq> a + b"
proof -
  have a: "- (2 ^ 63) \<le> a" "a < 2 ^ 63" and b: "- (2 ^ 63) \<le> b" "b < 2 ^ 63"
    using i64_range [of a] i64_range [of b] assms by simp_all
  have "i64 (a + b) = a + b \<longleftrightarrow> - (2 ^ 63) \<le> a + b \<and> a + b < 2 ^ 63"
    using i64_range [of "a + b"] by auto
  moreover have "0 < b \<Longrightarrow> i64 (9223372036854775807 - b) = 9223372036854775807 - b"
    "b < 0 \<Longrightarrow> i64 (- 9223372036854775808 - b) = - 9223372036854775808 - b" using b by simp_all
  ultimately show ?thesis using a b unfolding wouldOverflow_def by (cases "0 < b"; cases "b < 0") auto
qed

text \<open>\<open>posts w w' ds\<close>: accounts may have been added, and the ledger has one entry more for each of \<open>ds\<close>.\<close>

definition ent_post :: "Entry \<Rightarrow> (uint64 \<times> string) \<times> int" where
  "ent_post e = (ent_key e, ent_Delta e)"

definition posts :: "member_world \<Rightarrow> member_world \<Rightarrow> ((uint64 \<times> string) \<times> int) list \<Rightarrow> bool" where
  "posts w w' ds \<longleftrightarrow> (\<exists>as. accounts w' = accounts w @ as) \<and> (\<exists>es. entries w' = entries w @ es \<and> map ent_post es = ds)"

lemma posts_core: "core v = core w \<Longrightarrow> core v' = core w' \<Longrightarrow> posts v v' ds = posts w w' ds"
  by (simp add: posts_def core_iff)

subsection \<open>Opening accounts\<close>

text \<open>\<open>grows w w'\<close>: accounts and balances of zero may have been added, nothing else has changed.\<close>

definition grows :: "member_world \<Rightarrow> member_world \<Rightarrow> bool" where
  "grows w w' \<longleftrightarrow> (keys_ok w \<longrightarrow> keys_ok w') \<and>
     (\<exists>as bs. accounts w' = accounts w @ as \<and> balances w' = balances w @ bs \<and> (\<forall>b\<in>set bs. bal_Amount b = 0)) \<and>
     asset_transactions w' = asset_transactions w \<and> entries w' = entries w \<and> asset_lots w' = asset_lots w \<and>
     holds w' = holds w \<and> hold_lots w' = hold_lots w"

lemma grows_core: "core w' = core w \<Longrightarrow> grows w w'"
  by (simp add: grows_def core_iff keys_ok_def)

lemma posts_grows: "grows u v \<Longrightarrow> posts v w ds \<Longrightarrow> posts u w ds"
  by (fastforce simp: posts_def grows_def)

lemma grows_refl [simp]: "grows w w"
  by (simp add: grows_core)

lemma grows_trans: "grows u v \<Longrightarrow> grows v w \<Longrightarrow> grows u w"
proof -
  assume uv: "grows u v" and vw: "grows v w"
  obtain as bs where "accounts v = accounts u @ as" "balances v = balances u @ bs" "\<forall>b\<in>set bs. bal_Amount b = 0"
    using uv by (auto simp: grows_def)
  moreover obtain as' bs' where "accounts w = accounts v @ as'" "balances w = balances v @ bs'"
      "\<forall>b\<in>set bs'. bal_Amount b = 0"
    using vw by (auto simp: grows_def)
  ultimately have "accounts w = accounts u @ (as @ as')" "balances w = balances u @ (bs @ bs')"
      "\<forall>b\<in>set (bs @ bs'). bal_Amount b = 0" by auto
  then show "grows u w" using uv vw unfolding grows_def by metis
qed

lemma ledger_grows:
  assumes ok: "ledger_ok w" and gr: "grows w w'"
  shows "ledger_ok w'"
proof -
  obtain as bs where bs: "balances w' = balances w @ bs" "\<forall>b\<in>set bs. bal_Amount b = 0"
    and as: "accounts w' = accounts w @ as" and keys: "keys_ok w'"
    and same: "asset_transactions w' = asset_transactions w" "entries w' = entries w"
    using assms by (auto simp: grows_def ledger_ok_def)
  have "delta_of (entries w) (bal_key b) = 0" if "b \<in> set bs" for b
  proof (rule delta_of_none)
    fix e assume "e \<in> set (entries w)"
    then have "ent_key e \<in> bal_key ` set (balances w)" using ok by (simp add: ledger_ok_def)
    then show "ent_key e \<noteq> bal_key b" using keys that by (auto simp: keys_ok_def bs(1))
  qed
  then show ?thesis using ok keys bs(2) unfolding ledger_ok_def by (auto simp: same bs(1))
qed

context member_store
begin

lemma grows_account:
  assumes "db_create_ignore (account_t S) a w = (Inr n, w')"
  shows "grows w w'"
proof -
  obtain rows where rows: "sql_create_ignore (accountE S) a (accounts w) = Inr rows" "w' = w\<lparr>accounts := rows\<rparr>"
    using assms by (auto simp: db_create_ignore_inv account_t_def)
  from rows(1) show ?thesis
    by (cases rule: acct.create_ignore_cases) (auto simp: rows(2) grows_def keys_ok_def account_clash_def image_iff)
qed

lemma grows_balance:
  assumes "db_create_ignore (balance_t S) b w = (Inr n, w')" and "bal_Amount b = 0"
    and "bal_AccountID b \<in> acc_ID ` set (accounts w)"
  shows "grows w w'"
proof -
  obtain rows where rows: "sql_create_ignore (balanceE S) b (balances w) = Inr rows" "w' = w\<lparr>balances := rows\<rparr>"
    using assms by (auto simp: db_create_ignore_inv balance_t_def)
  from rows(1) show ?thesis
    using assms(3) by (cases rule: bal.create_ignore_cases)
      (auto simp: rows(2) grows_def keys_ok_def balance_clash_def assms(2))
qed

lemma grows_bucket:
  assumes "next_id w = (Inr j, w1)" and "db_create_ignore (balance_t S)
      \<lparr>bal_ID = j, bal_AccountID = acc_ID stored, bal_Bucket = k, bal_Amount = 0, bal_Version = 1\<rparr> w1 = (Inr n, w')"
    and "stored \<in> set (accounts w)"
  shows "grows w w'" "stored \<in> set (accounts w')"
proof -
  have "core w1 = core w" using assms(1) by (rule member_frame)
  moreover from this have "grows w1 w'" using assms(2,3) by (intro grows_balance) (auto simp: core_iff)
  ultimately show "grows w w'" using grows_core grows_trans by blast
  then show "stored \<in> set (accounts w')" using assms(3) by (auto simp: grows_def)
qed

lemma makeAccount_done:
  assumes "makeAccount S ot oi at un neg w = (Inr u, w')"
  shows "grows w w'"
proof -
  obtain i j k w1 w2 w3 w4 w5 w6 n m l a stored where "next_id w = (Inr i, w1)"
    and a: "db_create_ignore (account_t S) a w1 = (Inr n, w2)"
    and st: "db_take (account_t S) (owns_account ot oi at un) w2 = (Inr stored, w3)"
    and b: "next_id w3 = (Inr j, w4)" "db_create_ignore (balance_t S)
      \<lparr>bal_ID = j, bal_AccountID = acc_ID stored, bal_Bucket = ''available'', bal_Amount = 0, bal_Version = 1\<rparr> w4 = (Inr m, w5)"
    and c: "next_id w5 = (Inr k, w6)" "db_create_ignore (balance_t S)
      \<lparr>bal_ID = k, bal_AccountID = acc_ID stored, bal_Bucket = ''frozen'', bal_Amount = 0, bal_Version = 1\<rparr> w6 = (Inr l, w')"
    using assms unfolding makeAccount_def go_for.simps by (elim go_elims) simp
  then have "grows w w1" "grows w1 w2" using core_frames(1) grows_core grows_account by blast+
  moreover have "w3 = w2" "stored \<in> set (accounts w3)"
    using st by (auto simp: db_take_inv account_t_def dest: acct.take_row)
  ultimately show ?thesis
    using grows_bucket [OF b] grows_bucket [OF c] grows_trans by metis
qed

lemma findExisting_frame: "findExisting S i t u w = (r, w') \<Longrightarrow> w' = w"
  by (cases r) (auto simp: findExisting_def go_bind_Inl_inv go_bind_Inr_inv db_take_inv)

lemma findExisting_done:
  assumes "findExisting S i t u w = (Inr (cu, co), w')"
  shows "w' = w" "cu \<in> set (accounts w)" "owns_account ''customer'' i t u cu"
    "co \<in> set (accounts w)" "owns_account ''platform'' 1 t u co"
  using assms unfolding findExisting_def
  by (auto simp: go_inv account_t_def dest: acct.take_row elim!: go_elims)

lemma ensureAccounts_done:
  assumes "ensureAccounts S i t u w = (Inr (cu, co), w')"
  shows "grows w w'" "cu \<in> set (accounts w')" "owns_account ''customer'' i t u cu"
    "co \<in> set (accounts w')" "owns_account ''platform'' 1 t u co"
proof -
  show "grows w w'"
    using assms unfolding ensureAccounts_def
    by (auto elim!: go_elims split: sum.splits if_splits dest!: makeAccount_done findExisting_frame
        intro: grows_trans)
  have "\<exists>v. findExisting S i t u v = (Inr (cu, co), w')"
    using assms unfolding ensureAccounts_def
    by (auto elim!: go_elims split: sum.splits if_splits) 
  then obtain v where "findExisting S i t u v = (Inr (cu, co), w')" ..
  from findExisting_done [OF this]
  show "cu \<in> set (accounts w')" "owns_account ''customer'' i t u cu"
    "co \<in> set (accounts w')" "owns_account ''platform'' 1 t u co" by simp_all
qed

end

subsection \<open>Locking and setting balances\<close>

context member_store
begin

lemma lockBalance_done:
  assumes "lockBalance S a k w = (Inr b, w')"
  shows "w' = w" "b \<in> set (balances w)" "bal_key b = (a, k)"
  using assms unfolding lockBalance_def
  by (auto simp: db_take_inv balance_t_def bal_key_def dest: bal.take_row)

lemma setBalance_done:
  assumes "setBalance S i amount w = (Inr u, w')"
  shows "w' = w\<lparr>balances := update_where (\<lambda>b. bal_ID b = i)
    (\<lambda>b. b\<lparr>bal_Amount := amount, bal_Version := bal_Version b + 1\<rparr>) (balances w)\<rparr>"
  using assms unfolding setBalance_def
  by (auto simp: db_updates_inv balance_t_def elim!: go_elims dest: bal.updates_rows)

lemma setBalance_moves:
  assumes "setBalance S (bal_ID b) (i64 (bal_Amount b + x)) w = (Inr u, w')"
    and "moves d rows (balances w)" and "b \<in> set rows"
    and "distinct (map bal_ID rows)" and "distinct (map bal_key rows)"
  shows "moves (d(bal_key b := x)) rows (balances w')" "w' = w\<lparr>balances := balances w'\<rparr>"
  using setBalance_done [OF assms(1)] moves_update [OF assms(2-5)] by simp_all

lemma move_pair_done:
  assumes run: "move_pair S cu co out amount delta w = (Inr (x, y), w')" and ok: "ledger_ok w"
    and acc: "cu \<in> set (accounts w)" "co \<in> set (accounts w)" "acc_ID cu \<noteq> acc_ID co"
  shows "moves ((\<lambda>_. 0)((acc_ID cu, ''available'') := delta, (acc_ID co, ''available'') := - delta))
      (balances w) (balances w')"
    and "core (w'\<lparr>balances := balances w\<rparr>) = core w"
    and "(acc_ID cu, ''available'') \<in> bal_key ` set (balances w)"
    and "(acc_ID co, ''available'') \<in> bal_key ` set (balances w)"
    and "i64 delta = delta \<Longrightarrow> \<exists>b\<in>set (balances w). bal_key b = (acc_ID cu, ''available'') \<and> x = bal_Amount b + delta \<and>
      i64 x = x \<and> (out \<longrightarrow> amount \<le> bal_Amount b)"
    and "i64 (- delta) = - delta \<Longrightarrow> \<exists>b\<in>set (balances w). bal_key b = (acc_ID co, ''available'') \<and>
      i64 (bal_Amount b - delta) = bal_Amount b - delta"
proof -
  obtain w0 w1 w2 w3 b c u0 u1 u2 where lk: "lock_accounts S [acc_ID cu, acc_ID co] w = (Inr u0, w0)"
    and b: "lockBalance S (acc_ID cu) ''available'' w0 = (Inr b, w1)"
    and c: "lockBalance S (acc_ID co) ''available'' w1 = (Inr c, w2)"
    and s1: "setBalance S (bal_ID b) (i64 (bal_Amount b + delta)) w2 = (Inr u1, w3)"
    and s2: "setBalance S (bal_ID c) (i64 (bal_Amount c + - delta)) w3 = (Inr u2, w')"
    and gd: "\<not> (out \<and> bal_Amount b < amount)" "x = i64 (bal_Amount b + delta)"
      "\<not> (wouldOverflow (bal_Amount b) delta \<or> wouldOverflow (bal_Amount c) (i64 (- delta)))"
    using run unfolding move_pair_def Let_def diff_conv_add_uminus by (elim go_elims) simp
  have w0: "core w0 = core w" using lk by (rule member_frame)
  note b = lockBalance_done [OF b] and c = lockBalance_done [OF c]
  have rows: "balances w2 = balances w" and inb: "b \<in> set (balances w)" and inc: "c \<in> set (balances w)"
    using w0 b c by (simp_all add: core_iff)
  have dist: "distinct (map bal_ID (balances w))" "distinct (map bal_key (balances w))"
    using ok by (simp_all add: ledger_ok_def keys_ok_def)
  have m0: "moves (\<lambda>_. 0) (balances w) (balances w2)"
    unfolding rows by (rule moves_refl [OF ledger_int64 [OF ok]])
  note m1 = setBalance_moves [OF s1 m0 inb dist]
  note m2 = setBalance_moves [OF s2 m1(1) inc dist]
  show "moves ((\<lambda>_. 0)((acc_ID cu, ''available'') := delta, (acc_ID co, ''available'') := - delta))
      (balances w) (balances w')"
    using m2(1) by (simp add: b(3) c(3))
  show "(acc_ID cu, ''available'') \<in> bal_key ` set (balances w)" "(acc_ID co, ''available'') \<in> bal_key ` set (balances w)"
    using inb inc b(3) c(3) by (metis image_eqI)+
  have int: "i64 (bal_Amount b) = bal_Amount b" "i64 (bal_Amount c) = bal_Amount c"
    using ledger_int64 [OF ok] inb inc by (simp_all add: int64_rows_def)
  show "\<exists>b\<in>set (balances w). bal_key b = (acc_ID cu, ''available'') \<and> x = bal_Amount b + delta \<and>
      i64 x = x \<and> (out \<longrightarrow> amount \<le> bal_Amount b)" if "i64 delta = delta"
    using gd inb b(3) int that by (intro bexI [of _ b]) (auto simp: wouldOverflow_iff)
  show "\<exists>b\<in>set (balances w). bal_key b = (acc_ID co, ''available'') \<and>
      i64 (bal_Amount b - delta) = bal_Amount b - delta" if "i64 (- delta) = - delta"
    using gd(3) inc c(3) int that by (intro bexI [of _ c]) (auto simp: wouldOverflow_iff)
  have "core (w'\<lparr>balances := balances w\<rparr>) = core (w2\<lparr>balances := balances w\<rparr>)"
    by (subst m2(2), subst m1(2)) (simp add: core_def)
  then show "core (w'\<lparr>balances := balances w\<rparr>) = core w"
    using w0 b(1) c(1) by (simp add: core_def)
qed

lemma accounts_differ:
  assumes "keys_ok w" and "cu \<in> set (accounts w)" and "co \<in> set (accounts w)"
    and "owns_account ''customer'' i t u cu" and "owns_account ''platform'' j t u co"
  shows "acc_ID cu \<noteq> acc_ID co"
proof
  assume "acc_ID cu = acc_ID co"
  then have "cu = co" using assms(1-3) by (metis distinct_key_unique keys_ok_def)
  then show False using assms(4,5) by (simp add: owns_account_def)
qed

end

end
