(* ===== verification/Member_Lots.thy ===== *)
theory Member_Lots
  imports Member_Books
begin

text \<open>
  Lots, holds and balances of the member ledger agree: what a customer's account has available
  and frozen is what its lots have, each lot's frozen amount is what the open parts of the holds
  on it add up to, and a hold's amounts are the sums of its allocations.

  The loops over lots and allocations (\<open>consumeLots\<close>, the loop of \<open>Freeze\<close>, the loop of
  \<open>applyHold\<close>) are shown to move exactly the amount they are asked to move.
\<close>

subsection \<open>Sums over lots\<close>

definition lot_sum :: "(AssetLot \<Rightarrow> int) \<Rightarrow> (AssetLot \<Rightarrow> bool) \<Rightarrow> AssetLot list \<Rightarrow> int" where
  "lot_sum f P ls = sum_list (map f (filter P ls))"

abbreviation of_account :: "uint64 \<Rightarrow> AssetLot \<Rightarrow> bool" where
  "of_account a \<equiv> (\<lambda>l. al_AccountID l = a)"

definition lot_ok :: "AssetLot \<Rightarrow> bool" where
  "lot_ok l \<longleftrightarrow> asset_lot_fits l \<and> al_GrantedAmount l < 2 ^ 63"

definition customer_ids :: "member_world \<Rightarrow> uint64 set" where
  "customer_ids w = acc_ID ` {a \<in> set (accounts w). acc_OwnerType a = ''customer''}"

definition bucket_amount :: "string \<Rightarrow> AssetLot \<Rightarrow> int" where
  "bucket_amount k l = (if k = ''available'' then al_AvailableAmount l else if k = ''frozen'' then al_FrozenAmount l else 0)"

text \<open>\<open>lots_ok\<close>: every lot accounts for all of its grant and belongs to a customer's account, and the
  balances of a customer are the totals of the lots (a missing balance stands for zero).\<close>

definition lots_ok :: "member_world \<Rightarrow> bool" where
  "lots_ok w \<longleftrightarrow> distinct (map al_ID (asset_lots w)) \<and> (\<forall>l\<in>set (asset_lots w). lot_ok l) \<and>
     (\<forall>l\<in>set (asset_lots w). al_AccountID l \<in> customer_ids w) \<and>
     (\<forall>c k. (c, k) \<notin> bal_key ` set (balances w) \<longrightarrow> lot_sum (bucket_amount k) (of_account c) (asset_lots w) = 0) \<and>
     (\<forall>b\<in>set (balances w). bal_AccountID b \<in> customer_ids w \<longrightarrow>
        bal_Amount b = i64 (lot_sum (bucket_amount (bal_Bucket b)) (of_account (bal_AccountID b)) (asset_lots w)))"

lemma lot_sum_simps [simp]:
  "lot_sum f P [] = 0" "lot_sum f P (l # ls) = (if P l then f l else 0) + lot_sum f P ls"
  "lot_sum f P (ls @ ls') = lot_sum f P ls + lot_sum f P ls'"
  by (simp_all add: lot_sum_def)

lemma lot_sum_none: "(\<And>l. l \<in> set ls \<Longrightarrow> \<not> P l) \<Longrightarrow> lot_sum f P ls = 0"
  by (simp add: lot_sum_def)

text \<open>Changing one lot changes a sum by the change of the lot.\<close>

lemma lot_sum_update:
  assumes "distinct (map al_ID ls)" and "x \<in> set ls" and "P (g x) = P x"
  shows "lot_sum f P (update_where (\<lambda>y. al_ID y = al_ID x) g ls) =
    lot_sum f P ls + (if P x then f (g x) - f x else 0)"
  unfolding lot_sum_def using assms by (rule sum_update_where)

subsection \<open>Consuming lots\<close>

text \<open>What a loop over lots may do to the table: the lots keep their identity and their account,
  every lot stays sound, and sums change as said. Frozen amounts are compared lot by lot.\<close>

definition lots_kept :: "AssetLot list \<Rightarrow> AssetLot list \<Rightarrow> bool" where
  "lots_kept ls ls' \<longleftrightarrow> map al_ID ls' = map al_ID ls \<and> map al_AccountID ls' = map al_AccountID ls \<and>
     (list_all lot_ok ls \<longrightarrow> list_all lot_ok ls')"

lemma lots_kept_refl [simp]: "lots_kept ls ls"
  by (simp add: lots_kept_def)

lemma lots_kept_trans: "lots_kept ls ls' \<Longrightarrow> lots_kept ls' ls'' \<Longrightarrow> lots_kept ls ls''"
  by (simp add: lots_kept_def)

lemma lots_kept_update:
  assumes "distinct (map al_ID ls)" and "x \<in> set ls" and "lot_ok (g x)"
    and "\<And>l. al_ID (g l) = al_ID l" and "\<And>l. al_AccountID (g l) = al_AccountID l"
  shows "lots_kept ls (update_where (\<lambda>y. al_ID y = al_ID x) g ls)"
  using assms(3-5) in_update_where_key [OF assms(1,2)] unfolding lots_kept_def list_all_iff
  by (metis map_update_where)

context member_store
begin

lemma lot_update_done:
  assumes "db_updates (lot_t S) p g w = (Inr n, w')"
  shows "w' = w\<lparr>asset_lots := update_where p g (asset_lots w)\<rparr>"
  using assms by (auto simp: db_updates_inv lot_t_def dest: lot.updates_rows)

lemma consume_loop_done:
  assumes "consume_loop S ls rem w = (Inr u, w')" and "distinct (map al_ID (asset_lots w))"
    and "list_all lot_ok (asset_lots w)" and "set ls \<subseteq> set (asset_lots w)" and "distinct (map al_ID ls)"
    and "\<forall>l\<in>set ls. al_AccountID l = a \<and> 0 < al_AvailableAmount l" and "0 < rem" and "rem < 2 ^ 63"
  shows "core (w'\<lparr>asset_lots := asset_lots w\<rparr>) = core w \<and> lots_kept (asset_lots w) (asset_lots w') \<and>
    map al_FrozenAmount (asset_lots w') = map al_FrozenAmount (asset_lots w) \<and>
    (\<forall>c. lot_sum al_AvailableAmount (of_account c) (asset_lots w') =
       lot_sum al_AvailableAmount (of_account c) (asset_lots w) - (if c = a then rem else 0))"
  using assms
proof (induction ls arbitrary: rem w)
  case (Cons l ls)
  define use where "use = min64 rem (al_AvailableAmount l)"
  define g where "g = (\<lambda>x::AssetLot. x\<lparr>al_AvailableAmount := al_AvailableAmount x - use, al_ConsumedAmount := al_ConsumedAmount x + use,
     al_Status := (if i64 (al_AvailableAmount l - use) = 0 \<and> al_FrozenAmount l = 0 then ''consumed'' else al_Status l),
     al_Version := al_Version x + 1\<rparr>)"
  have l: "l \<in> set (asset_lots w)" "lot_ok l" "0 < al_AvailableAmount l" "al_AccountID l = a"
    using Cons.prems by (auto simp: list_all_iff)
  have use: "0 < use" "use \<le> rem" "use \<le> al_AvailableAmount l"
    using l(3) Cons.prems(7) by (auto simp: use_def min64_def)
  have rest: "i64 (rem - use) = rem - use" using use Cons.prems(8) by simp
  define rows where "rows = update_where (\<lambda>x. al_ID x = al_ID l) g (asset_lots w)"
  have k: "lots_kept (asset_lots w) rows" "map al_FrozenAmount rows = map al_FrozenAmount (asset_lots w)"
    unfolding rows_def using l use Cons.prems(2)
    by (auto intro!: lots_kept_update map_update_where simp: g_def lot_ok_def asset_lot_fits_def)
  have sm: "lot_sum al_AvailableAmount (of_account c) rows =
      lot_sum al_AvailableAmount (of_account c) (asset_lots w) - (if c = a then use else 0)" for c
    unfolding rows_def using lot_sum_update [OF Cons.prems(2) l(1), of "of_account c" g al_AvailableAmount]
    by (simp add: g_def l(4))
  from Cons.prems(1) use(1) obtain w1 n where "db_updates (lot_t S) (\<lambda>x. al_ID x = al_ID l) g w = (Inr n, w1)"
    and tail: "(if rem - use = 0 then go_ok () else consume_loop S ls (rem - use)) w1 = (Inr u, w')"
    by (auto simp: Let_def use_def [symmetric] g_def [symmetric] rest elim!: go_elims)
  then have w1: "w1 = w\<lparr>asset_lots := rows\<rparr>" using lot_update_done unfolding rows_def by simp
  show ?case
  proof (cases "rem = use")
    case True
    then show ?thesis using tail k sm by (auto simp: w1 core_def)
  next
    case False
    have sub: "set ls \<subseteq> set rows"
    proof
      fix x assume x: "x \<in> set ls"
      then have "x \<in> set (asset_lots w)" "al_ID x \<noteq> al_ID l" using Cons.prems(4,5) by (auto simp: image_iff)
      then show "x \<in> set rows" by (auto simp: rows_def set_update_where)
    qed
    have "consume_loop S ls (rem - use) w1 = (Inr u, w')" using tail False by simp
    moreover have "distinct (map al_ID (asset_lots w1))" "list_all lot_ok (asset_lots w1)"
      using k(1) Cons.prems(2,3) by (simp_all add: w1 lots_kept_def)
    ultimately have "core (w'\<lparr>asset_lots := asset_lots w1\<rparr>) = core w1 \<and> lots_kept (asset_lots w1) (asset_lots w') \<and>
      map al_FrozenAmount (asset_lots w') = map al_FrozenAmount (asset_lots w1) \<and>
      (\<forall>c. lot_sum al_AvailableAmount (of_account c) (asset_lots w') =
         lot_sum al_AvailableAmount (of_account c) (asset_lots w1) - (if c = a then rem - use else 0))"
      using Cons.prems(5,6,8) use False sub by (intro Cons.IH) (auto simp: w1)
    then show ?thesis using k sm lots_kept_trans by (auto simp: w1 core_def)
  qed
qed simp

lemma ordered_lots:
  assumes "sql_ordered (lotE S) p key ls = Inr found" and "distinct (map al_ID ls)"
  shows "set found = {l \<in> set ls. p l}" "distinct (map al_ID found)"
proof -
  have m: "mset found = mset (filter p ls)" using lot.ordered_rows [OF assms(1)] by simp
  then show "set found = {l \<in> set ls. p l}" using mset_eq_setD [OF m] by auto
  have "distinct (map al_ID (filter p ls))" using assms(2) by (rule distinct_map_filter)
  moreover have "mset (map al_ID found) = mset (map al_ID (filter p ls))" using m by simp
  ultimately show "distinct (map al_ID found)" using mset_eq_imp_distinct_iff by blast
qed

lemma consumeLots_done:
  assumes run: "consumeLots S a amount w = (Inr u, w')" and "distinct (map al_ID (asset_lots w))"
    and "list_all lot_ok (asset_lots w)" and "0 < amount" and "amount < 2 ^ 63"
  shows "core (w'\<lparr>asset_lots := asset_lots w\<rparr>) = core w" "lots_kept (asset_lots w) (asset_lots w')"
    "map al_FrozenAmount (asset_lots w') = map al_FrozenAmount (asset_lots w)"
    "lot_sum al_AvailableAmount (of_account c) (asset_lots w') =
       lot_sum al_AvailableAmount (of_account c) (asset_lots w) - (if c = a then amount else 0)"
proof -
  obtain ls where "sql_ordered (lotE S) (\<lambda>l. al_AccountID l = a \<and> 0 < al_AvailableAmount l) lot_order (asset_lots w) = Inr ls"
    and loop: "consume_loop S ls amount w = (Inr u, w')"
    using run unfolding consumeLots_def by (auto simp: db_ordered_inv lot_t_def elim!: go_elims)
  with assms(2) have "set ls = {l \<in> set (asset_lots w). al_AccountID l = a \<and> 0 < al_AvailableAmount l}"
    "distinct (map al_ID ls)" using ordered_lots by auto
  then have "core (w'\<lparr>asset_lots := asset_lots w\<rparr>) = core w \<and> lots_kept (asset_lots w) (asset_lots w') \<and>
    map al_FrozenAmount (asset_lots w') = map al_FrozenAmount (asset_lots w) \<and>
    (\<forall>c. lot_sum al_AvailableAmount (of_account c) (asset_lots w') =
       lot_sum al_AvailableAmount (of_account c) (asset_lots w) - (if c = a then amount else 0))"
    using assms by (intro consume_loop_done [OF loop]) auto
  then show "core (w'\<lparr>asset_lots := asset_lots w\<rparr>) = core w" "lots_kept (asset_lots w) (asset_lots w')"
    "map al_FrozenAmount (asset_lots w') = map al_FrozenAmount (asset_lots w)"
    "lot_sum al_AvailableAmount (of_account c) (asset_lots w') =
       lot_sum al_AvailableAmount (of_account c) (asset_lots w) - (if c = a then amount else 0)" by blast+
qed

end

subsection \<open>Keeping balances and lots together\<close>

lemma lot_sum_kept:
  assumes "map key ls' = map key ls" and "map f ls' = map f ls"
  shows "lot_sum f (\<lambda>l. key l = a) ls' = lot_sum f (\<lambda>l. key l = a) ls"
proof -
  have "lot_sum f (\<lambda>l. key l = a) xs = sum_list (map snd (filter (\<lambda>p. fst p = a) (zip (map key xs) (map f xs))))" for xs
    by (induction xs) auto
  then show ?thesis by (simp only: assms)
qed

lemma bucket_amount_simps [simp]:
  "bucket_amount ''available'' = al_AvailableAmount" "bucket_amount ''frozen'' = al_FrozenAmount"
  "k \<noteq> ''available'' \<Longrightarrow> k \<noteq> ''frozen'' \<Longrightarrow> bucket_amount k l = 0"
  by (auto simp: bucket_amount_def fun_eq_iff)

lemma lot_sum_zero [simp]: "k \<noteq> ''available'' \<Longrightarrow> k \<noteq> ''frozen'' \<Longrightarrow> lot_sum (bucket_amount k) P ls = 0"
  by (induction ls) auto

lemma bucket_cases:
  obtains "k = ''available''" | "k = ''frozen''" | "k \<noteq> ''available''" "k \<noteq> ''frozen''"
  by blast

text \<open>Lots that change as the balances do keep the agreement.\<close>

lemma lots_post:
  assumes ok: "lots_ok v" and acc: "accounts w = accounts v" and mv: "moves d (balances v) (balances w)"
    and supp: "\<And>k. k \<notin> bal_key ` set (balances v) \<Longrightarrow> d k = 0"
    and ids: "distinct (map al_ID (asset_lots w))" and sound: "\<And>l. l \<in> set (asset_lots w) \<Longrightarrow> lot_ok l"
    and owner: "\<And>l. l \<in> set (asset_lots w) \<Longrightarrow> al_AccountID l \<in> customer_ids v"
    and sums: "\<And>c k. c \<in> customer_ids v \<Longrightarrow> lot_sum (bucket_amount k) (of_account c) (asset_lots w) =
        lot_sum (bucket_amount k) (of_account c) (asset_lots v) + d (c, k)"
  shows "lots_ok w"
  unfolding lots_ok_def
proof (intro conjI ballI impI allI)
  have cust: "customer_ids w = customer_ids v" by (simp add: customer_ids_def acc)
  have img: "bal_key ` set (balances w) = bal_key ` set (balances v)"
    using arg_cong [OF conjunct2 [OF moves_keys [OF mv]], of set] by simp
  show "distinct (map al_ID (asset_lots w))" by (fact ids)
  fix l assume "l \<in> set (asset_lots w)"
  then show "lot_ok l" "al_AccountID l \<in> customer_ids w" using sound owner unfolding cust by simp_all
next
  fix c k assume "(c, k) \<notin> bal_key ` set (balances w)"
  then have none: "(c, k) \<notin> bal_key ` set (balances v)"
    using arg_cong [OF conjunct2 [OF moves_keys [OF mv]], of set] by simp
  show "lot_sum (bucket_amount k) (of_account c) (asset_lots w) = 0"
  proof (cases "c \<in> customer_ids v")
    case True
    then show ?thesis using sums supp [OF none] ok none by (simp add: lots_ok_def)
  next
    case False
    then show ?thesis using owner by (intro lot_sum_none) auto
  qed
next
  fix b' assume b': "b' \<in> set (balances w)" "bal_AccountID b' \<in> customer_ids w"
  obtain b where b: "b \<in> set (balances v)" "moved d b b'" by (rule moves_in [OF mv b'(1)])
  then have key: "bal_AccountID b' = bal_AccountID b" "bal_Bucket b' = bal_Bucket b"
    by (auto simp: moved_def bal_key_def)
  have c: "bal_AccountID b \<in> customer_ids v" using b'(2) key acc by (simp add: customer_ids_def)
  then have "bal_Amount b = i64 (lot_sum (bucket_amount (bal_Bucket b)) (of_account (bal_AccountID b)) (asset_lots v))"
    using ok b(1) by (simp add: lots_ok_def)
  then show "bal_Amount b' = i64 (lot_sum (bucket_amount (bal_Bucket b')) (of_account (bal_AccountID b')) (asset_lots w))"
    using b(2) sums [OF c, of "bal_Bucket b"] by (simp add: key moved_def bal_key_def)
qed

lemma lots_post_kept:
  assumes ok: "lots_ok v" and "accounts w = accounts v" and "moves d (balances v) (balances w)"
    and "\<And>k. k \<notin> bal_key ` set (balances v) \<Longrightarrow> d k = 0"
    and kept: "lots_kept (asset_lots v) (asset_lots w)"
    and "\<And>c k. c \<in> customer_ids v \<Longrightarrow> lot_sum (bucket_amount k) (of_account c) (asset_lots w) =
        lot_sum (bucket_amount k) (of_account c) (asset_lots v) + d (c, k)"
  shows "lots_ok w"
proof (rule lots_post [OF assms(1-4) _ _ _ assms(6)])
  show "distinct (map al_ID (asset_lots w))" using ok kept by (simp add: lots_kept_def lots_ok_def)
  fix l assume l: "l \<in> set (asset_lots w)"
  show "lot_ok l" using ok kept l by (auto simp: lots_kept_def lots_ok_def list_all_iff)
  have "al_AccountID l \<in> set (map al_AccountID (asset_lots w))" using l by simp
  then have "al_AccountID l \<in> set (map al_AccountID (asset_lots v))" using kept by (simp only: lots_kept_def)
  then show "al_AccountID l \<in> customer_ids v" using ok by (auto simp: lots_ok_def)
qed

lemma lots_grows:
  assumes ok: "lots_ok w" and keys: "keys_ok w" and gr: "grows w w'"
  shows "lots_ok w'"
proof -
  obtain as bs where bs: "balances w' = balances w @ bs" "\<And>b. b \<in> set bs \<Longrightarrow> bal_Amount b = 0"
    and as: "accounts w' = accounts w @ as" and keys': "keys_ok w'" and lots: "asset_lots w' = asset_lots w"
    using keys gr by (auto simp: grows_def)
  have sub: "customer_ids w \<subseteq> customer_ids w'" by (auto simp: customer_ids_def as)
  have old: "bal_AccountID b \<in> customer_ids w" if "b \<in> set (balances w)" "bal_AccountID b \<in> customer_ids w'" for b
  proof -
    have "bal_AccountID b \<in> acc_ID ` set (accounts w)" using keys that(1) by (auto simp: keys_ok_def)
    then show ?thesis using that(2) keys' by (auto simp: customer_ids_def keys_ok_def as)
  qed
  have new: "lot_sum (bucket_amount (bal_Bucket b)) (of_account (bal_AccountID b)) (asset_lots w) = 0" if "b \<in> set bs" for b
  proof -
    have "bal_key b \<notin> bal_key ` set (balances w)" using keys' that by (auto simp: keys_ok_def bs(1))
    then show ?thesis using ok by (simp add: lots_ok_def bal_key_def [of b])
  qed
  show ?thesis
    unfolding lots_ok_def lots
  proof (intro conjI ballI impI allI)
    fix b assume b: "b \<in> set (balances w')" "bal_AccountID b \<in> customer_ids w'"
    show "bal_Amount b = i64 (lot_sum (bucket_amount (bal_Bucket b)) (of_account (bal_AccountID b)) (asset_lots w))"
    proof (cases "b \<in> set bs")
      case True
      then show ?thesis using bs(2) new by simp
    next
      case False
      then have "b \<in> set (balances w)" using b(1) by (simp add: bs(1))
      then show ?thesis using ok old b(2) by (simp add: lots_ok_def)
    qed
  next
    fix l assume "l \<in> set (asset_lots w)"
    then show "lot_ok l" "al_AccountID l \<in> customer_ids w'" using ok sub by (auto simp: lots_ok_def)
  next
    fix c k assume "(c, k) \<notin> bal_key ` set (balances w')"
    then have "(c, k) \<notin> bal_key ` set (balances w)" by (auto simp: bs(1))
    then show "lot_sum (bucket_amount k) (of_account c) (asset_lots w) = 0" using ok by (simp add: lots_ok_def)
  qed (use ok in \<open>simp add: lots_ok_def\<close>)
qed

end
