(* ===== verification/Member_Allocations.thy ===== *)
theory Member_Allocations
  imports Member_Lots
begin

text \<open>
  Holds and their allocations to lots. \<open>holds_ok\<close> says that the amounts of a hold are the sums of
  its allocations, that the frozen amount of a lot is what is open of the allocations on it, and
  that the status of a hold follows from its amounts. The loops of \<open>Freeze\<close> and \<open>applyHold\<close> keep lots
  and allocations in step.
\<close>

definition alloc_open :: "HoldLot \<Rightarrow> int" where
  "alloc_open x = hl_Amount x - hl_CommittedAmount x - hl_ReleasedAmount x"

definition alloc_ok :: "HoldLot \<Rightarrow> bool" where
  "alloc_ok x \<longleftrightarrow> 0 \<le> hl_CommittedAmount x \<and> 0 \<le> hl_ReleasedAmount x \<and> 0 \<le> alloc_open x \<and> hl_Amount x < 2 ^ 63"

definition alloc_sum :: "(HoldLot \<Rightarrow> int) \<Rightarrow> (HoldLot \<Rightarrow> bool) \<Rightarrow> HoldLot list \<Rightarrow> int" where
  "alloc_sum f P xs = sum_list (map f (filter P xs))"

abbreviation of_lot :: "uint64 \<Rightarrow> HoldLot \<Rightarrow> bool" where
  "of_lot i \<equiv> (\<lambda>x. hl_LotID x = i)"

abbreviation of_hold :: "uint64 \<Rightarrow> HoldLot \<Rightarrow> bool" where
  "of_hold i \<equiv> (\<lambda>x. hl_HoldID x = i)"

abbreviation frozen_of :: "uint64 \<Rightarrow> AssetLot list \<Rightarrow> int" where
  "frozen_of i \<equiv> lot_sum al_FrozenAmount (\<lambda>l. al_ID l = i)"

definition status_ok :: "Hold \<Rightarrow> bool" where
  "status_ok h \<longleftrightarrow>
     (hd_Status h \<in> {''committed'', ''released'', ''expired''} \<longleftrightarrow>
        hd_CommittedAmount h + hd_ReleasedAmount h = hd_OriginalAmount h) \<and>
     (hd_Status h = ''committed'' \<longleftrightarrow> hd_CommittedAmount h = hd_OriginalAmount h) \<and>
     (hd_Status h = ''partially_committed'' \<longrightarrow> 0 < hd_CommittedAmount h)"

definition hold_ok :: "member_world \<Rightarrow> Hold \<Rightarrow> bool" where
  "hold_ok w h \<longleftrightarrow> 0 < hd_OriginalAmount h \<and> hd_OriginalAmount h < 2 ^ 63 \<and>
     0 \<le> hd_CommittedAmount h \<and> 0 \<le> hd_ReleasedAmount h \<and>
     hd_CommittedAmount h + hd_ReleasedAmount h \<le> hd_OriginalAmount h \<and> status_ok h \<and>
     alloc_sum hl_Amount (of_hold (hd_ID h)) (hold_lots w) = hd_OriginalAmount h \<and>
     alloc_sum hl_CommittedAmount (of_hold (hd_ID h)) (hold_lots w) = hd_CommittedAmount h \<and>
     alloc_sum hl_ReleasedAmount (of_hold (hd_ID h)) (hold_lots w) = hd_ReleasedAmount h"

text \<open>An allocation joins a hold with a lot of the same account.\<close>

definition alloc_placed :: "member_world \<Rightarrow> HoldLot \<Rightarrow> bool" where
  "alloc_placed w x \<longleftrightarrow> (\<exists>h\<in>set (holds w). hd_ID h = hl_HoldID x \<and>
     (hl_LotID x, hd_AccountID h) \<in> (\<lambda>l. (al_ID l, al_AccountID l)) ` set (asset_lots w))"

definition holds_ok :: "member_world \<Rightarrow> bool" where
  "holds_ok w \<longleftrightarrow> distinct (map hd_ID (holds w)) \<and> distinct (map hl_ID (hold_lots w)) \<and>
     (\<forall>x\<in>set (hold_lots w). alloc_ok x \<and> alloc_placed w x) \<and> (\<forall>h\<in>set (holds w). hold_ok w h) \<and>
     (\<forall>i. frozen_of i (asset_lots w) = alloc_sum alloc_open (of_lot i) (hold_lots w))"

lemma alloc_sum_simps [simp]:
  "alloc_sum f P [] = 0" "alloc_sum f P (x # xs) = (if P x then f x else 0) + alloc_sum f P xs"
  "alloc_sum f P (xs @ ys) = alloc_sum f P xs + alloc_sum f P ys"
  by (simp_all add: alloc_sum_def)

lemma alloc_sum_none: "(\<And>x. x \<in> set xs \<Longrightarrow> \<not> P x) \<Longrightarrow> alloc_sum f P xs = 0"
  by (simp add: alloc_sum_def)

lemma alloc_sum_all: "(\<And>x. x \<in> set xs \<Longrightarrow> P x) \<Longrightarrow> alloc_sum f P xs = sum_list (map f xs)"
  by (simp add: alloc_sum_def)

lemma alloc_sum_update:
  assumes "distinct (map hl_ID xs)" and "x \<in> set xs" and "P (g x) = P x"
  shows "alloc_sum f P (update_where (\<lambda>y. hl_ID y = hl_ID x) g xs) =
    alloc_sum f P xs + (if P x then f (g x) - f x else 0)"
  unfolding alloc_sum_def using assms by (rule sum_update_where)

lemma alloc_nonneg: "(\<And>x. x \<in> set xs \<Longrightarrow> 0 \<le> f x) \<Longrightarrow> 0 \<le> alloc_sum f P xs"
  unfolding alloc_sum_def by (rule sum_list_nonneg) auto

text \<open>Changes of the lots that leave their frozen amounts alone keep the holds.\<close>

lemma lots_kept_pairs:
  assumes "lots_kept ls ls'"
  shows "(\<lambda>l. (al_ID l, al_AccountID l)) ` set ls' = (\<lambda>l. (al_ID l, al_AccountID l)) ` set ls"
proof -
  have pairs: "map (\<lambda>l. (al_ID l, al_AccountID l)) xs = zip (map al_ID xs) (map al_AccountID xs)" for xs
    by (induction xs) auto
  have "map (\<lambda>l. (al_ID l, al_AccountID l)) ls' = map (\<lambda>l. (al_ID l, al_AccountID l)) ls"
    using assms unfolding pairs lots_kept_def by (elim conjE) (simp only:)
  from arg_cong [OF this, of set] show ?thesis by simp
qed

lemma holds_lots_same:
  assumes ok: "holds_ok v" and h: "holds w = holds v" "hold_lots w = hold_lots v"
    and lots: "lots_kept (asset_lots v) (asset_lots w)" "map al_FrozenAmount (asset_lots w) = map al_FrozenAmount (asset_lots v)"
  shows "holds_ok w"
proof -
  have ids: "map al_ID (asset_lots w) = map al_ID (asset_lots v)"
    using lots(1) by (simp add: lots_kept_def)
  have fr: "frozen_of i (asset_lots w) = frozen_of i (asset_lots v)" for i
    by (rule lot_sum_kept [OF ids lots(2)])
  show ?thesis using ok by (simp add: holds_ok_def h fr alloc_placed_def hold_ok_def lots_kept_pairs [OF lots(1)])
qed

lemma holds_add_lot:
  assumes ok: "holds_ok v" and h: "holds w = holds v" "hold_lots w = hold_lots v"
    and l: "asset_lots w = asset_lots v @ [l]" "al_FrozenAmount l = 0"
  shows "holds_ok w"
proof -
  have "alloc_placed w x" if "alloc_placed v x" for x
    using that unfolding alloc_placed_def h l(1) by auto
  then show ?thesis using ok by (simp add: holds_ok_def h l hold_ok_def)
qed

lemma holds_core:
  assumes "holds_ok v" and "holds w = holds v" "hold_lots w = hold_lots v" "asset_lots w = asset_lots v"
  shows "holds_ok w"
  using holds_lots_same [OF assms(1-3)] assms(4) by simp

subsection \<open>The loop of Freeze\<close>

text \<open>\<open>freezes a x ls ls'\<close>: the lots of account \<open>a\<close> have \<open>x\<close> less available and \<open>x\<close> more frozen, and the
  allocations \<open>new\<close> say on which lots.\<close>

definition freezes :: "uint64 \<Rightarrow> int \<Rightarrow> HoldLot list \<Rightarrow> AssetLot list \<Rightarrow> AssetLot list \<Rightarrow> bool" where
  "freezes a x new ls ls' \<longleftrightarrow> lots_kept ls ls' \<and> sum_list (map hl_Amount new) = x \<and>
     (\<forall>c. lot_sum al_AvailableAmount (of_account c) ls' = lot_sum al_AvailableAmount (of_account c) ls - (if c = a then x else 0) \<and>
        lot_sum al_FrozenAmount (of_account c) ls' = lot_sum al_FrozenAmount (of_account c) ls + (if c = a then x else 0)) \<and>
     (\<forall>i. frozen_of i ls' = frozen_of i ls + alloc_sum hl_Amount (of_lot i) new)"

definition new_alloc :: "uint64 \<Rightarrow> uint64 \<Rightarrow> AssetLot list \<Rightarrow> HoldLot \<Rightarrow> bool" where
  "new_alloc holdID a ls x \<longleftrightarrow> hl_HoldID x = holdID \<and> hl_CommittedAmount x = 0 \<and> hl_ReleasedAmount x = 0 \<and>
     0 < hl_Amount x \<and> hl_Amount x < 2 ^ 63 \<and>
     (hl_LotID x, a) \<in> (\<lambda>l. (al_ID l, al_AccountID l)) ` set ls"

lemma freezes_refl: "freezes a 0 [] ls ls"
  by (simp add: freezes_def)

lemma freezes_trans:
  "freezes a x new ls ls' \<Longrightarrow> freezes a y new' ls' ls'' \<Longrightarrow> freezes a (x + y) (new @ new') ls ls''"
  by (auto simp: freezes_def lots_kept_def)

lemma freezes_one:
  assumes "distinct (map al_ID ls)" and "l \<in> set ls" and "lot_ok l" and "0 < x" and "x \<le> al_AvailableAmount l"
    and "hl_LotID y = al_ID l" and "hl_Amount y = x"
  shows "freezes (al_AccountID l) x [y] ls (update_where (\<lambda>z. al_ID z = al_ID l)
    (\<lambda>z. z\<lparr>al_AvailableAmount := al_AvailableAmount z - x, al_FrozenAmount := al_FrozenAmount z + x,
          al_Version := al_Version z + 1\<rparr>) ls)"
    (is "freezes _ _ _ _ (update_where _ ?g _)")
proof -
  have "lots_kept ls (update_where (\<lambda>z. al_ID z = al_ID l) ?g ls)"
    using assms(1-5) by (intro lots_kept_update) (auto simp: lot_ok_def asset_lot_fits_def)
  then show ?thesis
    using lot_sum_update [OF assms(1,2), of _ ?g] assms(6,7) by (simp add: freezes_def)
qed

context member_store
begin

lemma freeze_lots_done:
  assumes "freeze_lots S holdID ls rem acc w = (Inr (out, rest), w')" and "distinct (map al_ID (asset_lots w))"
    and "list_all lot_ok (asset_lots w)" and "set ls \<subseteq> set (asset_lots w)" and "distinct (map al_ID ls)"
    and "\<forall>l\<in>set ls. al_AccountID l = a \<and> 0 < al_AvailableAmount l" and "0 < rem" and "rem < 2 ^ 63"
  shows "core (w'\<lparr>asset_lots := asset_lots w\<rparr>) = core w \<and> (\<exists>new. out = acc @ new \<and> freezes a (rem - rest) new (asset_lots w) (asset_lots w') \<and>
     (\<forall>x\<in>set new. new_alloc holdID a (asset_lots w) x))"
  using assms
proof (induction ls arbitrary: rem acc w)
  case Nil
  then show ?case using freezes_refl by (auto simp: core_def)
next
  case (Cons l ls)
  define use where "use = min64 rem (al_AvailableAmount l)"
  define g where "g = (\<lambda>x::AssetLot. x\<lparr>al_AvailableAmount := al_AvailableAmount x - use, al_FrozenAmount := al_FrozenAmount x + use,
     al_Version := al_Version x + 1\<rparr>)"
  have l: "l \<in> set (asset_lots w)" "lot_ok l" "0 < al_AvailableAmount l" "al_AccountID l = a"
    using Cons.prems by (auto simp: list_all_iff)
  have use: "0 < use" "use \<le> rem" "use \<le> al_AvailableAmount l"
    using l(3) Cons.prems(7) by (auto simp: use_def min64_def)
  have small: "i64 (rem - use) = rem - use" using use Cons.prems(8) by simp
  define rows where "rows = update_where (\<lambda>x. al_ID x = al_ID l) g (asset_lots w)"
  from Cons.prems(1) use(1) obtain w1 w2 n i y where "db_updates (lot_t S) (\<lambda>x. al_ID x = al_ID l) g w = (Inr n, w1)"
    and "next_id w1 = (Inr i, w2)"
    and y: "y = \<lparr>hl_ID = i, hl_HoldID = holdID, hl_LotID = al_ID l, hl_Amount = use, hl_CommittedAmount = 0, hl_ReleasedAmount = 0\<rparr>"
    and tail: "(if rem - use = 0 then go_ok (acc @ [y], rem - use) else freeze_lots S holdID ls (rem - use) (acc @ [y])) w2
      = (Inr (out, rest), w')"
    by (auto simp: Let_def use_def [symmetric] g_def [symmetric] small elim!: go_elims)
  then have w1: "core (w2\<lparr>asset_lots := asset_lots w\<rparr>) = core w" "asset_lots w2 = rows"
    using lot_update_done [of "\<lambda>x. al_ID x = al_ID l" g w n w1] core_frames(1) [of w1 "Inr i" w2]
    unfolding rows_def by (simp_all add: core_iff)
  have one: "freezes a use [y] (asset_lots w) rows"
    using freezes_one [OF Cons.prems(2) l(1,2) use(1,3), of y] l(4) by (simp add: rows_def g_def y)
  have yok: "new_alloc holdID a (asset_lots w) y"
    using l use Cons.prems(8) by (force simp: new_alloc_def y)
  show ?case
  proof (cases "rem = use")
    case True
    then show ?thesis using tail one yok w1 by auto
  next
    case False
    have kept: "lots_kept (asset_lots w) rows" using one by (simp add: freezes_def)
    have sub: "set ls \<subseteq> set rows"
    proof
      fix x assume x: "x \<in> set ls"
      then have "x \<in> set (asset_lots w)" "al_ID x \<noteq> al_ID l" using Cons.prems(4,5) by (auto simp: image_iff)
      then show "x \<in> set rows" by (auto simp: rows_def set_update_where)
    qed
    have "freeze_lots S holdID ls (rem - use) (acc @ [y]) w2 = (Inr (out, rest), w')" using tail False by simp
    moreover have "distinct (map al_ID (asset_lots w2))" "list_all lot_ok (asset_lots w2)"
      using kept Cons.prems(2,3) by (simp_all add: w1 lots_kept_def)
    ultimately obtain new where IH: "core (w'\<lparr>asset_lots := asset_lots w2\<rparr>) = core w2"
      "out = (acc @ [y]) @ new" "freezes a (rem - use - rest) new (asset_lots w2) (asset_lots w')"
      "\<forall>x\<in>set new. new_alloc holdID a (asset_lots w2) x"
      using Cons.IH [of "rem - use" "acc @ [y]" w2] Cons.prems(5,6,8) use False sub by (auto simp: w1)
    have "freezes a (use + (rem - use - rest)) ([y] @ new) (asset_lots w) (asset_lots w')"
      using freezes_trans [OF one] IH(3) by (simp only: w1)
    moreover have "core (w'\<lparr>asset_lots := asset_lots w\<rparr>) = core w" using IH(1) w1(1) by (simp add: core_iff)
    moreover have "\<forall>x\<in>set ([y] @ new). new_alloc holdID a (asset_lots w) x"
      using IH(4) yok by (simp add: new_alloc_def w1 lots_kept_pairs [OF kept])
    ultimately show ?thesis using IH(2) by (intro conjI exI [of _ "[y] @ new"]) simp_all
  qed
qed

end

subsection \<open>The loop of applyHold\<close>

definition allocs_kept :: "HoldLot list \<Rightarrow> HoldLot list \<Rightarrow> bool" where
  "allocs_kept xs xs' \<longleftrightarrow> map hl_ID xs' = map hl_ID xs \<and> map hl_HoldID xs' = map hl_HoldID xs \<and>
     map hl_LotID xs' = map hl_LotID xs \<and> map hl_Amount xs' = map hl_Amount xs \<and>
     (list_all alloc_ok xs \<longrightarrow> list_all alloc_ok xs')"

text \<open>\<open>settles\<close>: of hold \<open>H\<close> on account \<open>a\<close>, \<open>back\<close> units have become available and \<open>plat\<close> units have left
  for the platform; both count as committed or both as released. Lots and allocations stay in step.\<close>

definition settles ::
    "bool \<Rightarrow> uint64 \<Rightarrow> uint64 \<Rightarrow> int \<Rightarrow> int \<Rightarrow> AssetLot list \<Rightarrow> HoldLot list \<Rightarrow> AssetLot list \<Rightarrow> HoldLot list \<Rightarrow> bool" where
  "settles commit H a back plat ls xs ls' xs' \<longleftrightarrow> lots_kept ls ls' \<and> allocs_kept xs xs' \<and>
     (\<forall>c. lot_sum al_AvailableAmount (of_account c) ls' = lot_sum al_AvailableAmount (of_account c) ls + (if c = a then back else 0)) \<and>
     (\<forall>c. lot_sum al_FrozenAmount (of_account c) ls' =
        lot_sum al_FrozenAmount (of_account c) ls - (if c = a then back + plat else 0)) \<and>
     (\<forall>i. frozen_of i ls' - alloc_sum alloc_open (of_lot i) xs' = frozen_of i ls - alloc_sum alloc_open (of_lot i) xs) \<and>
     (\<forall>h. alloc_sum hl_CommittedAmount (of_hold h) xs' =
        alloc_sum hl_CommittedAmount (of_hold h) xs + (if commit \<and> h = H then back + plat else 0)) \<and>
     (\<forall>h. alloc_sum hl_ReleasedAmount (of_hold h) xs' =
        alloc_sum hl_ReleasedAmount (of_hold h) xs + (if \<not> commit \<and> h = H then back + plat else 0))"

lemma settles_refl: "settles commit H a 0 0 ls xs ls xs"
  by (simp add: settles_def allocs_kept_def)

lemma settles_trans:
  assumes "settles commit H a b p ls xs ls' xs'" and "settles commit H a b' p' ls' xs' ls'' xs''"
  shows "settles commit H a (b + b') (p + p') ls xs ls'' xs''"
  using assms by (simp add: settles_def allocs_kept_def lots_kept_def)

lemma allocs_kept_update:
  assumes "distinct (map hl_ID xs)" and "x \<in> set xs" and "alloc_ok (k x)"
    and "\<And>y. hl_ID (k y) = hl_ID y" "\<And>y. hl_HoldID (k y) = hl_HoldID y" "\<And>y. hl_LotID (k y) = hl_LotID y"
      "\<And>y. hl_Amount (k y) = hl_Amount y"
  shows "allocs_kept xs (update_where (\<lambda>y. hl_ID y = hl_ID x) k xs)"
proof -
  have "alloc_ok y" if "list_all alloc_ok xs" and y: "y \<in> set (update_where (\<lambda>y. hl_ID y = hl_ID x) k xs)" for y
    using in_update_where_key [OF assms(1,2) y] assms(3) that(1) by (auto simp: list_all_iff)
  then show ?thesis
    unfolding allocs_kept_def list_all_iff using assms(4-) by (intro conjI map_update_where) blast+
qed

lemma settles_one:
  fixes g :: "AssetLot \<Rightarrow> AssetLot" and k :: "HoldLot \<Rightarrow> HoldLot"
  assumes l: "distinct (map al_ID ls)" "l \<in> set ls" and x: "distinct (map hl_ID xs)" "x \<in> set xs"
    and link: "hl_LotID x = al_ID l" "alloc_ok x" "use \<le> alloc_open x" "0 \<le> use"
    and g: "\<And>z. al_ID (g z) = al_ID z" "\<And>z. al_AccountID (g z) = al_AccountID z" "lot_ok (g l)"
      "al_FrozenAmount (g l) = al_FrozenAmount l - use" "al_AvailableAmount (g l) = al_AvailableAmount l + back"
    and k: "k = (\<lambda>h. if commit then h\<lparr>hl_CommittedAmount := hl_CommittedAmount h + use\<rparr>
      else h\<lparr>hl_ReleasedAmount := hl_ReleasedAmount h + use\<rparr>)"
  shows "settles commit (hl_HoldID x) (al_AccountID l) back (use - back) ls xs
    (update_where (\<lambda>z. al_ID z = al_ID l) g ls) (update_where (\<lambda>y. hl_ID y = hl_ID x) k xs)"
proof -
  have "lots_kept ls (update_where (\<lambda>z. al_ID z = al_ID l) g ls)"
    using l g by (intro lots_kept_update)
  moreover have "allocs_kept xs (update_where (\<lambda>y. hl_ID y = hl_ID x) k xs)"
    using x link by (intro allocs_kept_update) (auto simp: k alloc_ok_def alloc_open_def)
  moreover have "alloc_open (k x) = alloc_open x - use" by (simp add: k alloc_open_def)
  ultimately show ?thesis
    using lot_sum_update [OF l, of _ g] alloc_sum_update [OF x, of _ k] g link(1)
    by (auto simp: settles_def k)
qed

context member_store
begin

lemma alloc_update_done:
  assumes "db_updates (hold_lot_t S) p g w = (Inr n, w')"
  shows "w' = w\<lparr>hold_lots := update_where p g (hold_lots w)\<rparr>"
  using assms by (auto simp: db_updates_inv hold_lot_t_def dest: alloc.updates_rows)

lemma hold_step_done:
  assumes run: "hold_step S commit now x l use w = (Inr plat, w')"
    and l: "distinct (map al_ID (asset_lots w))" "l \<in> set (asset_lots w)" "lot_ok l"
    and x: "distinct (map hl_ID (hold_lots w))" "x \<in> set (hold_lots w)"
    and link: "hl_LotID x = al_ID l" "alloc_ok x" "use \<le> alloc_open x" "0 \<le> use" "use \<le> al_FrozenAmount l"
  shows "core (w'\<lparr>asset_lots := asset_lots w, hold_lots := hold_lots w\<rparr>) = core w"
    "settles commit (hl_HoldID x) (al_AccountID l) (if plat then 0 else use) (if plat then use else 0)
       (asset_lots w) (hold_lots w) (asset_lots w') (hold_lots w')"
    "\<And>y. y \<in> set (hold_lots w) \<Longrightarrow> hl_ID y \<noteq> hl_ID x \<Longrightarrow> y \<in> set (hold_lots w')"
proof -
  define k where "k = (\<lambda>h::HoldLot. if commit then h\<lparr>hl_CommittedAmount := hl_CommittedAmount h + use\<rparr>
      else h\<lparr>hl_ReleasedAmount := hl_ReleasedAmount h + use\<rparr>)"
  obtain g w1 n m where upd: "db_updates (lot_t S) (\<lambda>z. al_ID z = al_ID l) g w = (Inr n, w1)"
      "db_updates (hold_lot_t S) (\<lambda>h. hl_ID h = hl_ID x) k w1 = (Inr m, w')"
    and g: "\<And>z. al_ID (g z) = al_ID z" "\<And>z. al_AccountID (g z) = al_AccountID z" "lot_ok (g l)"
      "al_FrozenAmount (g l) = al_FrozenAmount l - use"
      "al_AvailableAmount (g l) = al_AvailableAmount l + (if plat then 0 else use)"
  proof (cases commit)
    case True
    then show thesis using run l(3) link(4,5) unfolding hold_step_def
      by (auto elim!: go_elims intro!: that simp: lot_ok_def asset_lot_fits_def k_def)
  next
    case False
    then show thesis using run l(3) link(4,5) unfolding hold_step_def
      by (cases "al_ExpiresAt l"; cases "case al_ExpiresAt l of None \<Rightarrow> False | Some t \<Rightarrow> \<not> now < t")
        (auto elim!: go_elims intro!: that simp: lot_ok_def asset_lot_fits_def k_def)
  qed
  note w1 = lot_update_done [OF upd(1)] and w' = alloc_update_done [OF upd(2)]
  show "core (w'\<lparr>asset_lots := asset_lots w, hold_lots := hold_lots w\<rparr>) = core w" by (simp add: w' w1 core_def)
  have "use - (if plat then 0 else use) = (if plat then use else 0)" by simp
  then show "settles commit (hl_HoldID x) (al_AccountID l) (if plat then 0 else use) (if plat then use else 0)
       (asset_lots w) (hold_lots w) (asset_lots w') (hold_lots w')"
    using settles_one [OF l(1,2) x link(1-4) g k_def] by (simp add: w' w1)
  show "\<And>y. y \<in> set (hold_lots w) \<Longrightarrow> hl_ID y \<noteq> hl_ID x \<Longrightarrow> y \<in> set (hold_lots w')"
    by (auto simp: w' w1 set_update_where)
qed

lemma hold_loop_done:
  assumes "hold_loop S commit now xs rem ret plat w = (Inr (rest, ret', plat'), w')"
    and "distinct (map al_ID (asset_lots w))" and "list_all lot_ok (asset_lots w)"
    and "distinct (map hl_ID (hold_lots w))" and "list_all alloc_ok (hold_lots w)"
    and "set xs \<subseteq> set (hold_lots w)" and "distinct (map hl_ID xs)"
    and "\<forall>x\<in>set xs. hl_HoldID x = H \<and> 0 < alloc_open x \<and> (hl_LotID x, a) \<in> (\<lambda>l. (al_ID l, al_AccountID l)) ` set (asset_lots w)"
    and "0 < rem" and "0 \<le> ret" and "0 \<le> plat" and "ret + plat + rem < 2 ^ 63"
  shows "core (w'\<lparr>asset_lots := asset_lots w, hold_lots := hold_lots w\<rparr>) = core w \<and>
    settles commit H a (ret' - ret) (plat' - plat) (asset_lots w) (hold_lots w) (asset_lots w') (hold_lots w') \<and>
    (ret' - ret) + (plat' - plat) = rem - rest \<and> ret \<le> ret' \<and> plat \<le> plat'"
  using assms
proof (induction xs arbitrary: rem ret plat w)
  case Nil
  then show ?case using settles_refl by (auto simp: core_def)
next
  case (Cons x xs)
  define use where "use = min64 (alloc_open x) rem"
  have x: "x \<in> set (hold_lots w)" "alloc_ok x" "0 < alloc_open x" "hl_HoldID x = H"
    "(hl_LotID x, a) \<in> (\<lambda>l. (al_ID l, al_AccountID l)) ` set (asset_lots w)"
    using Cons.prems by (auto simp: list_all_iff)
  have left: "i64 (i64 (hl_Amount x - hl_CommittedAmount x) - hl_ReleasedAmount x) = alloc_open x"
    using x(2) by (simp add: alloc_ok_def alloc_open_def)
  have use: "0 < use" "use \<le> rem" "use \<le> alloc_open x"
    using x(3) Cons.prems(9) by (auto simp: use_def min64_def)
  have small: "i64 (rem - use) = rem - use" "i64 (ret + use) = ret + use" "i64 (plat + use) = plat + use"
    using use Cons.prems(9-12) by simp_all
  obtain l w1 p where l: "sql_take (lotE S) (\<lambda>l. al_ID l = hl_LotID x) (asset_lots w) = Inr l"
      and fr: "use \<le> al_FrozenAmount l" and st: "hold_step S commit now x l use w = (Inr p, w1)"
      and tail: "(if rem - use = 0 then go_ok (rem - use, if p then ret else ret + use, if p then plat + use else plat)
        else hold_loop S commit now xs (rem - use) (if p then ret else ret + use) (if p then plat + use else plat)) w1
        = (Inr (rest, ret', plat'), w')"
    using Cons.prems(1) use(1) unfolding hold_loop.simps Let_def left unfolding use_def [symmetric] small
    by (auto simp: db_take_inv lot_t_def elim!: go_elims)
  have lm: "l \<in> set (asset_lots w)" "al_ID l = hl_LotID x" using lot.take_row [OF l] by simp_all
  obtain l0 where "l0 \<in> set (asset_lots w)" "al_ID l0 = hl_LotID x" "al_AccountID l0 = a"
    using x(5) by auto
  then have acc: "al_AccountID l = a" using lm Cons.prems(2) by (metis distinct_key_unique)
  have lok: "lot_ok l" using lm(1) Cons.prems(3) by (simp add: list_all_iff)
  note step = hold_step_done [OF st Cons.prems(2) lm(1) lok Cons.prems(4) x(1) lm(2) [symmetric] x(2) use(3) less_imp_le [OF use(1)] fr,
    unfolded x(4) acc]
  define ret1 plat1 where "ret1 = (if p then ret else ret + use)" and "plat1 = (if p then plat + use else plat)"
  have inc: "ret1 - ret = (if p then 0 else use)" "plat1 - plat = (if p then use else 0)"
    by (simp_all add: ret1_def plat1_def)
  show ?case
  proof (cases "rem = use")
    case True
    then have "w' = w1" "rest = 0" "ret' = ret1" "plat' = plat1" using tail by (auto simp: ret1_def plat1_def)
    then show ?thesis using step use(1) True unfolding inc [symmetric] by (auto simp: ret1_def plat1_def)
  next
    case False
    have kept: "lots_kept (asset_lots w) (asset_lots w1)" "allocs_kept (hold_lots w) (hold_lots w1)"
      using step(2) by (simp_all add: settles_def)
    have sub: "set xs \<subseteq> set (hold_lots w1)"
    proof
      fix y assume "y \<in> set xs"
      then have "y \<in> set (hold_lots w)" "hl_ID y \<noteq> hl_ID x" using Cons.prems(6,7) by (auto simp: image_iff)
      then show "y \<in> set (hold_lots w1)" by (rule step(3))
    qed
    have "hold_loop S commit now xs (rem - use) ret1 plat1 w1 = (Inr (rest, ret', plat'), w')"
      using tail False by (simp add: ret1_def plat1_def)
    moreover have "distinct (map al_ID (asset_lots w1))" "list_all lot_ok (asset_lots w1)"
      "distinct (map hl_ID (hold_lots w1))" "list_all alloc_ok (hold_lots w1)"
      using kept Cons.prems(2-5) by (simp_all add: lots_kept_def allocs_kept_def)
    ultimately have IH: "core (w'\<lparr>asset_lots := asset_lots w1, hold_lots := hold_lots w1\<rparr>) = core w1 \<and>
      settles commit H a (ret' - ret1) (plat' - plat1) (asset_lots w1) (hold_lots w1) (asset_lots w') (hold_lots w') \<and>
      (ret' - ret1) + (plat' - plat1) = (rem - use) - rest \<and> ret1 \<le> ret' \<and> plat1 \<le> plat'"
      using Cons.prems(7-12) use False sub
      by (intro Cons.IH) (auto simp: lots_kept_pairs [OF kept(1)] ret1_def plat1_def)
    have "settles commit H a ((ret1 - ret) + (ret' - ret1)) ((plat1 - plat) + (plat' - plat1))
       (asset_lots w) (hold_lots w) (asset_lots w') (hold_lots w')"
      using step(2) IH unfolding inc [symmetric] by (blast intro: settles_trans)
    then have "settles commit H a (ret' - ret) (plat' - plat) (asset_lots w) (hold_lots w) (asset_lots w') (hold_lots w')"
      by simp
    moreover have "core (w'\<lparr>asset_lots := asset_lots w, hold_lots := hold_lots w\<rparr>) = core w"
      using step(1) IH by (simp add: core_iff)
    moreover have "(ret' - ret) + (plat' - plat) = rem - rest" "ret \<le> ret'" "plat \<le> plat'"
      using IH inc use(1) by (auto split: if_splits)
    ultimately show ?thesis by blast
  qed
qed

end

end
