(* ===== verification/Member_Holdings.thy ===== *)
theory Member_Holdings
  imports Member_Books
begin

text \<open>
  What an owner holds: the abstract view of the ledger as a map from an owner, an asset type and a
  bucket to an amount. Opening accounts does not change it, and entries change it by their deltas.
\<close>

type_synonym holding_key = "(string \<times> uint64 \<times> string \<times> string) \<times> string"

definition owned_by :: "member_world \<Rightarrow> string \<times> uint64 \<times> string \<times> string \<Rightarrow> uint64 \<Rightarrow> bool" where
  "owned_by w k i \<longleftrightarrow> list_ex (\<lambda>a. acc_ID a = i \<and> owner_key a = k) (accounts w)"

definition holding :: "member_world \<Rightarrow> holding_key \<Rightarrow> int" where
  "holding w = (\<lambda>(k, bucket).
     sum_list (map bal_Amount (filter (\<lambda>b. bal_Bucket b = bucket \<and> owned_by w k (bal_AccountID b)) (balances w))))"

text \<open>The changes a list of postings makes to the holding of one owner.\<close>

definition posted_to :: "member_world \<Rightarrow> ((uint64 \<times> string) \<times> int) list \<Rightarrow> holding_key \<Rightarrow> int" where
  "posted_to w ds = (\<lambda>(k, bucket).
     sum_list (map snd (filter (\<lambda>((i, b), d). b = bucket \<and> owned_by w k i) ds)))"

lemma posted_to_simps [simp]:
  "posted_to w [] kb = 0"
  "posted_to w (((i, b), d) # ds) (k, bucket) = (if b = bucket \<and> owned_by w k i then d else 0) + posted_to w ds (k, bucket)"
  by (auto simp: posted_to_def)

lemma posted_to_none:
  assumes "\<And>e. e \<in> set es \<Longrightarrow> ent_Bucket e = bucket \<Longrightarrow> \<not> owned_by w k (ent_AccountID e)"
  shows "posted_to w (map ent_post es) (k, bucket) = 0"
  using assms by (induction es) (auto simp: ent_post_def ent_key_def)

lemma posted_to_cong:
  assumes "\<And>e. e \<in> set es \<Longrightarrow> owned_by w' k (ent_AccountID e) = owned_by w k (ent_AccountID e)"
  shows "posted_to w' (map ent_post es) (k, bucket) = posted_to w (map ent_post es) (k, bucket)"
  using assms by (induction es) (auto simp: ent_post_def ent_key_def)

lemma owned_by_account:
  assumes "keys_ok w" and "a \<in> set (accounts w)"
  shows "owned_by w k (acc_ID a) \<longleftrightarrow> k = owner_key a"
  using assms by (auto simp: owned_by_def list_ex_iff keys_ok_def dest: distinct_key_unique)

text \<open>An owner has at most one balance per bucket, so its holding is that balance.\<close>

lemma holding_at:
  assumes "keys_ok w" and "a \<in> set (accounts w)" and "b \<in> set (balances w)" and "bal_key b = (acc_ID a, bucket)"
  shows "holding w (owner_key a, bucket) = bal_Amount b"
proof -
  have "owned_by w (owner_key a) i \<longleftrightarrow> i = acc_ID a" for i
    using assms(1,2) by (auto simp: owned_by_def list_ex_iff keys_ok_def dest: distinct_key_unique)
  then have "filter (\<lambda>x. bal_Bucket x = bucket \<and> owned_by w (owner_key a) (bal_AccountID x)) (balances w) =
      filter (\<lambda>x. bal_key x = bal_key b) (balances w)"
    using assms(4) by (intro filter_cong) (auto simp: bal_key_def)
  also have "\<dots> = [b]" using assms(1,3) by (intro filter_key_singleton) (auto simp: keys_ok_def)
  finally show ?thesis by (simp add: holding_def)
qed

lemma holding_none:
  assumes "\<And>a b. a \<in> set (accounts w) \<Longrightarrow> b \<in> set (balances w) \<Longrightarrow> owner_key a = k \<Longrightarrow> bal_key b \<noteq> (acc_ID a, bucket)"
  shows "holding w (k, bucket) = 0"
proof -
  have "filter (\<lambda>b. bal_Bucket b = bucket \<and> owned_by w k (bal_AccountID b)) (balances w) = []"
    using assms unfolding filter_empty_conv owned_by_def list_ex_iff bal_key_def by (metis (no_types, lifting))
  then show ?thesis by (simp add: holding_def)
qed

lemma holding_core: "core w' = core w \<Longrightarrow> holding w' = holding w"
  by (simp add: holding_def owned_by_def core_iff)

lemma holding_grows:
  assumes "keys_ok w" and "grows w w'"
  shows "holding w' = holding w"
proof
  fix kb :: holding_key
  obtain k bucket where kb: "kb = (k, bucket)" by (cases kb)
  obtain as bs where as: "accounts w' = accounts w @ as" and bs: "balances w' = balances w @ bs" "\<forall>b\<in>set bs. bal_Amount b = 0"
    and keys: "keys_ok w'" using assms by (auto simp: grows_def)
  have "owned_by w' k (bal_AccountID b) = owned_by w k (bal_AccountID b)" if "b \<in> set (balances w)" for b
  proof -
    have "bal_AccountID b \<in> acc_ID ` set (accounts w)" using assms(1) that by (auto simp: keys_ok_def)
    then obtain a where "a \<in> set (accounts w)" "acc_ID a = bal_AccountID b" by auto
    then show ?thesis using owned_by_account [OF assms(1), of a k] owned_by_account [OF keys, of a k] by (simp add: as)
  qed
  then have "filter (\<lambda>b. bal_Bucket b = bucket \<and> owned_by w' k (bal_AccountID b)) (balances w) =
      filter (\<lambda>b. bal_Bucket b = bucket \<and> owned_by w k (bal_AccountID b)) (balances w)"
    by (intro filter_cong) auto
  moreover have "sum_list (map bal_Amount (filter P bs)) = 0" for P
    using bs(2) by (induction bs) auto
  ultimately show "holding w' kb = holding w kb" by (simp add: holding_def kb bs(1))
qed

text \<open>The holding is the sum of the entries, in 64 bits; so entries change it by their deltas.\<close>

lemma holding_entries:
  assumes ok: "ledger_ok w"
  shows "holding w kb = i64 (posted_to w (map ent_post (entries w)) kb)"
proof -
  obtain k bucket where kb: "kb = (k, bucket)" by (cases kb)
  have keys: "keys_ok w" using ok by (simp add: ledger_ok_def)
  show ?thesis
  proof (cases "\<exists>a b. a \<in> set (accounts w) \<and> b \<in> set (balances w) \<and> owner_key a = k \<and> bal_key b = (acc_ID a, bucket)")
    case True
    then obtain a b where ab: "a \<in> set (accounts w)" "b \<in> set (balances w)" "owner_key a = k" "bal_key b = (acc_ID a, bucket)"
      by blast
    have own: "owned_by w k i \<longleftrightarrow> i = acc_ID a" for i
      using keys ab(1,3) by (auto simp: owned_by_def list_ex_iff keys_ok_def dest: distinct_key_unique)
    have "posted_to w (map ent_post es) (k, bucket) = delta_of es (acc_ID a, bucket)" for es
      by (induction es) (auto simp: ent_post_def ent_key_def own)
    moreover have "bal_Amount b = i64 (delta_of (entries w) (bal_key b))" using ok ab(2) by (simp add: ledger_ok_def)
    ultimately show ?thesis using holding_at [OF keys ab(1,2,4)] ab(3,4) kb by simp
  next
    case False
    have "\<not> owned_by w k (ent_AccountID e)" if e: "e \<in> set (entries w)" "ent_Bucket e = bucket" for e
    proof
      assume "owned_by w k (ent_AccountID e)"
      then obtain a where a: "a \<in> set (accounts w)" "acc_ID a = ent_AccountID e" "owner_key a = k"
        by (auto simp: owned_by_def list_ex_iff)
      obtain b where "b \<in> set (balances w)" "bal_key b = ent_key e" using ok e(1) by (force simp: ledger_ok_def)
      then show False using a e(2) False by (auto simp: ent_key_def)
    qed
    then have "posted_to w (map ent_post (entries w)) kb = 0" unfolding kb by (rule posted_to_none)
    moreover have "holding w kb = 0" unfolding kb using False by (intro holding_none) blast
    ultimately show ?thesis by simp
  qed
qed

lemma holding_posts:
  assumes ok: "ledger_ok w" "ledger_ok w'" and "posts w w' ds"
  shows "holding w' kb = i64 (holding w kb + posted_to w' ds kb)"
proof -
  obtain k bucket where kb: "kb = (k, bucket)" by (cases kb)
  obtain as es where as: "accounts w' = accounts w @ as" and es: "entries w' = entries w @ es" "map ent_post es = ds"
    using assms(3) by (auto simp: posts_def)
  have keys: "keys_ok w" "keys_ok w'" using ok by (simp_all add: ledger_ok_def)
  have own: "owned_by w' k (ent_AccountID e) = owned_by w k (ent_AccountID e)" if "e \<in> set (entries w)" for e
  proof -
    have "ent_key e \<in> bal_key ` set (balances w)" using ok(1) that by (simp add: ledger_ok_def)
    then obtain a where "a \<in> set (accounts w)" "acc_ID a = ent_AccountID e"
      using keys(1) by (fastforce simp: keys_ok_def ent_key_def bal_key_def)
    then show ?thesis using owned_by_account [OF keys(1), of a k] owned_by_account [OF keys(2), of a k] by (simp add: as)
  qed
  have "posted_to w' (map ent_post (entries w)) kb = posted_to w (map ent_post (entries w)) kb"
    unfolding kb using own by (rule posted_to_cong)
  moreover have "posted_to w' (map ent_post (entries w')) kb =
      posted_to w' (map ent_post (entries w)) kb + posted_to w' ds kb"
    by (simp add: posted_to_def kb es)
  ultimately show ?thesis using holding_entries [OF ok(1), of kb] holding_entries [OF ok(2), of kb] by simp
qed

end
