(* ===== verification/Member_Operations.thy ===== *)
theory Member_Operations
  imports Member_Allocations Member_Holdings
begin

text \<open>
  Every operation of the member asset service keeps the books: \<open>member_ok\<close> joins the invariants of
  the ledger, of the lots and of the holds.
\<close>

definition member_ok :: "member_world \<Rightarrow> bool" where
  "member_ok w \<longleftrightarrow> ledger_ok w \<and> lots_ok w \<and> holds_ok w"

lemma member_core: "member_ok w \<Longrightarrow> core w' = core w \<Longrightarrow> member_ok w'"
  by (auto simp: member_ok_def core_iff ledger_ok_def keys_ok_def lots_ok_def customer_ids_def
      intro: holds_core)

lemma member_grows:
  assumes "member_ok w" and "grows w w'"
  shows "member_ok w'"
proof -
  have ok: "ledger_ok w" "lots_ok w" "holds_ok w" "keys_ok w"
    using assms(1) by (simp_all add: member_ok_def ledger_ok_def)
  have "holds w' = holds w" "hold_lots w' = hold_lots w" "asset_lots w' = asset_lots w"
    using assms(2) by (simp_all add: grows_def)
  then show ?thesis
    using ledger_grows [OF ok(1) assms(2)] lots_grows [OF ok(2,4) assms(2)] holds_core [OF ok(3)]
    by (simp add: member_ok_def)
qed

subsection \<open>Postings between a customer and the platform\<close>

text \<open>The two entries of a posting, and a world in which they and the balances have changed alike.\<close>

definition pair_entries :: "uint64 \<Rightarrow> uint64 \<Rightarrow> string \<Rightarrow> uint64 \<Rightarrow> string \<Rightarrow> int \<Rightarrow> Entry list \<Rightarrow> bool" where
  "pair_entries i a k b l d es \<longleftrightarrow> (\<exists>e1 e2. es = [e1, e2] \<and> ent_TransactionID e1 = i \<and> ent_TransactionID e2 = i \<and>
     ent_key e1 = (a, k) \<and> ent_key e2 = (b, l) \<and> ent_Delta e1 = d \<and> ent_Delta e2 = - d)"

abbreviation pair_delta :: "uint64 \<Rightarrow> string \<Rightarrow> uint64 \<Rightarrow> string \<Rightarrow> int \<Rightarrow> uint64 \<times> string \<Rightarrow> int" where
  "pair_delta a k b l d \<equiv> (\<lambda>_. 0)((a, k) := d, (b, l) := - d)"

lemma delta_of_pair: "pair_entries i a k b l d es \<Longrightarrow> (a, k) \<noteq> (b, l) \<Longrightarrow> delta_of es = pair_delta a k b l d"
  by (auto simp: pair_entries_def fun_eq_iff)

lemma ledger_pair:
  assumes ok: "ledger_ok v" and "accounts w = accounts v" "asset_transactions w = asset_transactions v"
    and mv: "moves (pair_delta a k b l d) (balances v) (balances w)" and "entries w = entries v @ es"
    and es: "pair_entries i a k b l d es" "(a, k) \<noteq> (b, l)"
    and keys: "(a, k) \<in> bal_key ` set (balances v)" "(b, l) \<in> bal_key ` set (balances v)"
    and i: "i \<in> atx_ID ` set (asset_transactions v)" "\<And>e. e \<in> set (entries v) \<Longrightarrow> ent_TransactionID e \<noteq> i"
  shows "ledger_ok w"
proof (rule ledger_post [OF ok assms(2,3) _ assms(5) _ i])
  show "moves (delta_of es) (balances v) (balances w)" using mv unfolding delta_of_pair [OF es] .
  show "sum_list (map ent_Delta es) = 0" using es by (auto simp: pair_entries_def)
  fix e assume "e \<in> set es"
  then show "ent_TransactionID e = i \<and> ent_key e \<in> bal_key ` set (balances v)"
    using es keys by (auto simp: pair_entries_def)
qed

text \<open>\<open>paid w w' c t n d\<close>: the customer's available balance has been posted \<open>d\<close>, against the platform's.\<close>

abbreviation cust :: "uint64 \<Rightarrow> string \<Rightarrow> string \<Rightarrow> string \<times> uint64 \<times> string \<times> string" where
  "cust c t n \<equiv> (''customer'', c, t, n)"

abbreviation platform :: "string \<Rightarrow> string \<Rightarrow> string \<times> uint64 \<times> string \<times> string" where
  "platform t n \<equiv> (''platform'', 1, t, n)"

definition paid :: "member_world \<Rightarrow> member_world \<Rightarrow> uint64 \<Rightarrow> string \<Rightarrow> string \<Rightarrow> int \<Rightarrow> bool" where
  "paid w w' c t n d \<longleftrightarrow> (\<exists>i j. owned_by w' (cust c t n) i \<and> owned_by w' (platform t n) j \<and>
     posts w w' [((i, ''available''), d), ((j, ''available''), - d)])"

lemma owned_by_key: "a \<in> set (accounts w) \<Longrightarrow> owner_key a = k \<Longrightarrow> owned_by w k (acc_ID a)"
  by (auto simp: owned_by_def list_ex_iff)

lemma owned_by_unique: "keys_ok w \<Longrightarrow> owned_by w k i \<Longrightarrow> owned_by w l i \<longleftrightarrow> l = k"
  by (auto simp: owned_by_def list_ex_iff keys_ok_def dest: distinct_key_unique)

lemma owner_key_owns: "owner_key a = (o1, c, t, n) \<longleftrightarrow> owns_account o1 c t n a"
  by (auto simp: owner_key_def owns_account_def)

lemma posts_pair:
  assumes "pair_entries i a k b l d es" and "accounts w' = accounts w" and "entries w' = entries w @ es"
  shows "posts w w' [((a, k), d), ((b, l), - d)]"
  using assms by (auto simp: posts_def pair_entries_def ent_post_def)

lemma paid_core: "core v = core w \<Longrightarrow> core v' = core w' \<Longrightarrow> paid v v' c t n d = paid w w' c t n d"
  by (simp add: paid_def posts_core [of v w v' w'] owned_by_def core_iff)

lemma paid_holding:
  assumes "ledger_ok w" and "ledger_ok w'" and "paid w w' c t n d"
  shows "holding w' kb = i64 (holding w kb + (if kb = (cust c t n, ''available'') then d
    else if kb = (platform t n, ''available'') then - d else 0))"
proof -
  obtain k bucket where kb: "kb = (k, bucket)" by (cases kb)
  obtain i j where ij: "owned_by w' (cust c t n) i" "owned_by w' (platform t n) j"
    and ps: "posts w w' [((i, ''available''), d), ((j, ''available''), - d)]" using assms(3) by (auto simp: paid_def)
  have keys: "keys_ok w'" using assms(2) by (simp add: ledger_ok_def)
  show ?thesis
    using holding_posts [OF assms(1,2) ps, of kb] owned_by_unique [OF keys ij(1), of k] owned_by_unique [OF keys ij(2), of k]
    by (auto simp: kb)
qed

text \<open>\<open>payable\<close>: the posting leaves the range of neither balance, and does not take more than there is.\<close>

definition payable :: "member_world \<Rightarrow> uint64 \<Rightarrow> string \<Rightarrow> string \<Rightarrow> int \<Rightarrow> bool" where
  "payable w c t n d \<longleftrightarrow> (d < 0 \<longrightarrow> - d \<le> holding w (cust c t n, ''available'')) \<and>
     i64 (holding w (cust c t n, ''available'') + d) = holding w (cust c t n, ''available'') + d \<and>
     i64 (holding w (platform t n, ''available'') - d) = holding w (platform t n, ''available'') - d"

lemma payable_pair:
  assumes "ledger_ok v" and ow: "cu \<in> set (accounts v)" "owns_account ''customer'' c t n cu"
      "co \<in> set (accounts v)" "owns_account ''platform'' 1 t n co"
    and "\<exists>b\<in>set (balances v). bal_key b = (acc_ID cu, ''available'') \<and> x = bal_Amount b + d \<and> i64 x = x \<and>
      (out \<longrightarrow> amount \<le> bal_Amount b)"
    and "\<exists>b\<in>set (balances v). bal_key b = (acc_ID co, ''available'') \<and> i64 (bal_Amount b - d) = bal_Amount b - d"
    and "d < 0 \<Longrightarrow> out \<and> d = - amount"
  shows "payable v c t n d" "x = holding v (cust c t n, ''available'') + d"
proof -
  have keys: "keys_ok v" using assms(1) by (simp add: ledger_ok_def)
  have "owner_key cu = cust c t n" "owner_key co = platform t n" using ow by (simp_all add: owner_key_owns)
  then show "payable v c t n d" "x = holding v (cust c t n, ''available'') + d"
    using holding_at [OF keys ow(1)] holding_at [OF keys ow(3)] assms(6-8) by (auto simp: payable_def)
qed

lemma paid_grows:
  assumes "paid v w c t n d" and "grows u v"
  shows "paid u w c t n d"
  using assms unfolding paid_def by (blast intro: posts_grows)

text \<open>A posting that is not a replay: the row, the two entries, the new balance in the response.\<close>

definition posted ::
    "member_env \<Rightarrow> Command \<Rightarrow> int \<Rightarrow> uint64 option \<Rightarrow> TransactionDTO \<Rightarrow> member_world \<Rightarrow> member_world \<Rightarrow> bool" where
  "posted S cmd delta ro d w w' \<longleftrightarrow>
     paid w w' (cm_CustomerID cmd) (cm_AssetType cmd) (cm_Unit cmd) delta \<and>
     payable w (cm_CustomerID cmd) (cm_AssetType cmd) (cm_Unit cmd) delta \<and>
     (\<exists>i j now. asset_transactions w' = asset_transactions w @ [transfer_row S cmd ro i j now] \<and>
        d = dtoFromTransaction (transfer_row S cmd ro i j now) (cm_CustomerID cmd) delta 0
          (holding w (cust (cm_CustomerID cmd) (cm_AssetType cmd) (cm_Unit cmd), ''available'') + delta) (cm_Metadata cmd))"

text \<open>What has been reversed of a transaction, and a reversal that is not a replay.\<close>

definition reversed_sum :: "member_world \<Rightarrow> uint64 \<Rightarrow> int" where
  "reversed_sum w i = sum_list (map atx_Amount
     (filter (\<lambda>t. atx_ReversalOfTransactionID t = Some i \<and> atx_Status t = ''posted'') (asset_transactions w)))"

definition posted_reversal ::
    "member_env \<Rightarrow> ReverseCommand \<Rightarrow> AssetTransaction \<Rightarrow> Account \<Rightarrow> int \<Rightarrow> member_world \<Rightarrow> member_world \<Rightarrow> bool" where
  "posted_reversal S cmd original account amount w w' \<longleftrightarrow>
     (let delta = amount * (if atx_Action original = ''debit'' then 1 else -1) in
      paid w w' (acc_OwnerID account) (atx_AssetType original) (atx_Unit original) delta \<and>
      payable w (acc_OwnerID account) (atx_AssetType original) (atx_Unit original) delta \<and>
      (\<exists>i j now. asset_transactions w' = asset_transactions w @ [reverse_row S cmd original amount i j now]))"

text \<open>A new hold: the amount has moved from the customer's available to the frozen balance.\<close>

definition frozen_for :: "FreezeCommand \<Rightarrow> HoldDTO \<Rightarrow> member_world \<Rightarrow> member_world \<Rightarrow> bool" where
  "frozen_for cmd d w w' \<longleftrightarrow>
     sint (cm_Amount cmd) \<le> holding w (cust (cm_CustomerID cmd) (cm_AssetType cmd) (cm_Unit cmd), ''available'') \<and>
     (\<exists>a i j. owned_by w' (cust (cm_CustomerID cmd) (cm_AssetType cmd) (cm_Unit cmd)) a \<and>
        posts w w' [((a, ''available''), - sint (cm_Amount cmd)), ((a, ''frozen''), sint (cm_Amount cmd))] \<and>
        holds w' = holds w @ [freeze_hold cmd a i j] \<and> d = holdDTO (freeze_hold cmd a i j))"

lemma platform_not_customer:
  assumes "keys_ok v" and "co \<in> set (accounts v)" and "acc_OwnerType co \<noteq> ''customer''"
  shows "acc_ID co \<notin> customer_ids v"
  using assms by (auto simp: customer_ids_def keys_ok_def dest: distinct_key_unique)

text \<open>A posting that takes lots from the customer, or grants a new one.\<close>

lemma member_pair_kept:
  assumes ok: "member_ok v" and led: "ledger_ok w" and acc: "accounts w = accounts v"
    and mv: "moves (pair_delta a ''available'' b ''available'' d) (balances v) (balances w)"
    and keys: "(a, ''available'') \<in> bal_key ` set (balances v)" "(b, ''available'') \<in> bal_key ` set (balances v)"
    and b: "b \<notin> customer_ids v" and h: "holds w = holds v" "hold_lots w = hold_lots v"
    and kept: "lots_kept (asset_lots v) (asset_lots w)"
    and fr: "map al_FrozenAmount (asset_lots w) = map al_FrozenAmount (asset_lots v)"
    and sm: "\<And>c. lot_sum al_AvailableAmount (of_account c) (asset_lots w) =
      lot_sum al_AvailableAmount (of_account c) (asset_lots v) + (if c = a then d else 0)"
  shows "member_ok w"
proof -
  have frz: "lot_sum al_FrozenAmount (of_account c) (asset_lots w) = lot_sum al_FrozenAmount (of_account c) (asset_lots v)" for c
    using kept by (intro lot_sum_kept [OF _ fr]) (simp add: lots_kept_def)
  have "lots_ok w"
  proof (rule lots_post_kept [OF _ acc mv _ kept])
    show "lots_ok v" using ok by (simp add: member_ok_def)
    fix c k assume "c \<in> customer_ids v"
    then have "c \<noteq> b" using b by auto
    then show "lot_sum (bucket_amount k) (of_account c) (asset_lots w) =
        lot_sum (bucket_amount k) (of_account c) (asset_lots v) + pair_delta a ''available'' b ''available'' d (c, k)"
      by (cases k rule: bucket_cases) (auto simp: sm frz)
  qed (use keys in auto)
  moreover have "holds_ok w" using ok by (intro holds_lots_same [OF _ h kept fr]) (simp add: member_ok_def)
  ultimately show ?thesis using led by (simp add: member_ok_def)
qed

lemma member_pair_granted:
  assumes ok: "member_ok v" and led: "ledger_ok w" and acc: "accounts w = accounts v"
    and mv: "moves (pair_delta a ''available'' b ''available'' d) (balances v) (balances w)"
    and keys: "(a, ''available'') \<in> bal_key ` set (balances v)" "(b, ''available'') \<in> bal_key ` set (balances v)"
    and b: "b \<notin> customer_ids v" "a \<in> customer_ids v" and h: "holds w = holds v" "hold_lots w = hold_lots v"
    and lots: "asset_lots w = asset_lots v @ [l]" "lot_ok l" "al_FrozenAmount l = 0" "al_AvailableAmount l = d"
      "al_AccountID l = a" "\<And>x. x \<in> set (asset_lots v) \<Longrightarrow> al_ID x \<noteq> al_ID l"
  shows "member_ok w"
proof -
  have v: "lots_ok v" "holds_ok v" using ok by (simp_all add: member_ok_def)
  have "lots_ok w"
  proof (rule lots_post [OF v(1) acc mv])
    have "al_ID l \<notin> al_ID ` set (asset_lots v)" using lots(6) by (metis imageE)
    then show "distinct (map al_ID (asset_lots w))" using v(1) unfolding lots(1) by (simp add: lots_ok_def)
    fix x assume "x \<in> set (asset_lots w)"
    then show "lot_ok x" "al_AccountID x \<in> customer_ids v" using v(1) b(2) lots unfolding lots(1) by (auto simp: lots_ok_def)
  next
    fix c k assume "c \<in> customer_ids v"
    then have "c \<noteq> b" using b by auto
    then show "lot_sum (bucket_amount k) (of_account c) (asset_lots w) =
        lot_sum (bucket_amount k) (of_account c) (asset_lots v) + pair_delta a ''available'' b ''available'' d (c, k)"
      using lots(3-5) unfolding lots(1) by (cases k rule: bucket_cases) auto
  qed (use keys in auto)
  moreover have "holds_ok w" by (rule holds_add_lot [OF v(2) h lots(1,3)])
  ultimately show ?thesis using led by (simp add: member_ok_def)
qed

context member_store
begin

lemma grant_lot_done:
  assumes "grant_lot S a i amount expires w = (Inr u, w')" and "0 < amount" and "amount < 2 ^ 63"
  obtains l where "core (w'\<lparr>asset_lots := asset_lots w\<rparr>) = core w" "asset_lots w' = asset_lots w @ [l]"
    "lot_ok l" "al_FrozenAmount l = 0" "al_AvailableAmount l = amount" "al_AccountID l = a"
    "\<And>x. x \<in> set (asset_lots w) \<Longrightarrow> al_ID x \<noteq> al_ID l"
proof -
  obtain j w1 rows l where j: "next_id w = (Inr j, w1)"
    and l: "l = \<lparr>al_ID = j, al_AccountID = a, al_GrantTransactionID = i,
        al_GrantedAmount = amount, al_AvailableAmount = amount, al_FrozenAmount = 0, al_ConsumedAmount = 0,
        al_ExpiredAmount = 0, al_ExpiresAt = expires, al_Status = ''active'', al_Version = 1\<rparr>"
    and rows: "sql_create (lotE S) l (asset_lots w1) = Inr rows" "w' = w1\<lparr>asset_lots := rows\<rparr>"
    using assms(1) unfolding grant_lot_def by (auto simp: db_create_inv lot_t_def elim!: go_elims)
  have "core w1 = core w" using j by (rule member_frame)
  then show thesis
    using lot.create_row [OF rows(1)] assms(2,3) rows(2)
    by (intro that [of l]) (auto simp: core_iff lot_ok_def l asset_lot_clash_def)
qed

lemma new_entry_done:
  assumes "new_entry t s a k d z w = (Inr e, w')"
  shows "core w' = core w" "ent_TransactionID e = t" "ent_key e = (a, k)" "ent_Delta e = d"
  using assms core_frames(9) [OF assms] unfolding new_entry_def
  by (auto elim!: go_elims simp: ent_key_def)

lemma entries_done:
  assumes "db_create_all (entry_t S) es w = (Inr u, w')"
  shows "w' = w\<lparr>entries := entries w @ es\<rparr>"
  using assms by (auto simp: db_create_all_inv entry_t_def dest: ent.create_rows_append)

lemma create_transaction_done:
  assumes "create_mapped (transaction_t S) row w = (Inr u, w')"
  shows "w' = w\<lparr>asset_transactions := asset_transactions w @ [row]\<rparr>"
    "\<And>t. t \<in> set (asset_transactions w) \<Longrightarrow> \<not> transaction_clash row t" "transaction_fits row"
proof -
  have "db_create (transaction_t S) row w = (Inr (), w')"
    using assms unfolding create_mapped_def by (auto elim!: go_elims split: sum.splits)
  then obtain rows where "sql_create (transactionE S) row (asset_transactions w) = Inr rows"
      "w' = w\<lparr>asset_transactions := rows\<rparr>" by (auto simp: db_create_inv transaction_t_def)
  with txn.create_row show "w' = w\<lparr>asset_transactions := asset_transactions w @ [row]\<rparr>"
    "\<And>t. t \<in> set (asset_transactions w) \<Longrightarrow> \<not> transaction_clash row t" "transaction_fits row" by auto
qed

lemma consume_frame: "consume_loop S ls n w = (r, w') \<Longrightarrow> accounts w' = accounts w \<and> entries w' = entries w \<and>
    asset_transactions w' = asset_transactions w"
  by (induction ls arbitrary: n w)
    (auto simp: Let_def go_bind_def db_updates_def lot_t_def split: if_splits prod.splits sum.splits)

lemma lots_of_posting_frame:
  assumes "(if pos then grant_lot S a i amount expires else consumeLots S a amount) w = (Inr u, w')"
  shows "accounts w' = accounts w" "entries w' = entries w" "asset_transactions w' = asset_transactions w"
  using assms consume_frame core_frames(1)
  by (auto simp: grant_lot_def consumeLots_def db_create_inv db_ordered_inv lot_t_def core_iff
      elim!: go_elims split: if_splits) 

text \<open>What the lots do in a posting of \<open>delta\<close> to the customer's account.\<close>

lemma lots_of_posting:
  assumes run: "(if 0 < delta then grant_lot S a i amount expires else consumeLots S a amount) w = (Inr u, w')"
    and v: "member_ok v" "asset_lots w = asset_lots v" and delta: "delta = amount \<or> delta = - amount" "0 < amount" "amount < 2 ^ 63"
    and led: "ledger_ok w" and acc: "accounts w = accounts v"
    and mv: "moves (pair_delta a ''available'' b ''available'' delta) (balances v) (balances w)"
    and keys: "(a, ''available'') \<in> bal_key ` set (balances v)" "(b, ''available'') \<in> bal_key ` set (balances v)"
    and b: "b \<notin> customer_ids v" "a \<in> customer_ids v" and h: "holds w = holds v" "hold_lots w = hold_lots v"
  shows "member_ok w'"
proof (cases "0 < delta")
  case True
  with run have "grant_lot S a i amount expires w = (Inr u, w')" by simp
  then obtain l where l: "core (w'\<lparr>asset_lots := asset_lots w\<rparr>) = core w" "asset_lots w' = asset_lots w @ [l]"
    "lot_ok l" "al_FrozenAmount l = 0" "al_AvailableAmount l = amount" "al_AccountID l = a"
    "\<And>x. x \<in> set (asset_lots w) \<Longrightarrow> al_ID x \<noteq> al_ID l" using delta(2,3) by (rule grant_lot_done) (rule that)
  have d: "delta = amount" using delta True by auto
  have "ledger_ok w'" using led l(1) by (simp add: core_iff ledger_ok_def keys_ok_def)
  with l show ?thesis using v(2) acc mv h d
    by (intro member_pair_granted [OF v(1) _ _ _ keys b, of w' delta l]) (simp_all add: core_iff)
next
  case False
  with run have c: "consumeLots S a amount w = (Inr u, w')" by simp
  have d: "delta = - amount" using delta False by auto
  have "distinct (map al_ID (asset_lots w))" "list_all lot_ok (asset_lots w)"
    using v by (simp_all add: member_ok_def lots_ok_def list_all_iff)
  note con = consumeLots_done [OF c this delta(2,3)]
  have "ledger_ok w'" using led con(1) by (simp add: core_iff ledger_ok_def keys_ok_def)
  then show ?thesis using con v(2) acc mv h d
    by (intro member_pair_kept [OF v(1) _ _ _ keys b(1), of w' delta]) (simp_all add: core_iff)
qed

text \<open>From the moved balances to the end of a posting: \<open>v\<close> is the world before the balances moved,
  already with the row of the transaction.\<close>

lemma posting_ok:
  assumes v: "member_ok v" and ow: "cu \<in> set (accounts v)" "owns_account ''customer'' c t n cu"
      "co \<in> set (accounts v)" "owns_account ''platform'' 1 t n co"
    and i: "i \<in> atx_ID ` set (asset_transactions v)" "\<And>e. e \<in> set (entries v) \<Longrightarrow> ent_TransactionID e \<noteq> i"
    and mv: "moves (pair_delta (acc_ID cu) ''available'' (acc_ID co) ''available'' delta) (balances v) (balances w2)"
      "(acc_ID cu, ''available'') \<in> bal_key ` set (balances v)" "(acc_ID co, ''available'') \<in> bal_key ` set (balances v)"
    and same: "core (w2\<lparr>balances := balances v\<rparr>) = core v"
    and es: "pair_entries i (acc_ID cu) ''available'' (acc_ID co) ''available'' delta es"
    and w3: "db_create_all (entry_t S) es w2 = (Inr u3, w3)"
    and lots: "(if 0 < delta then grant_lot S (acc_ID cu) i amount expires else consumeLots S (acc_ID cu) amount) w3 = (Inr u4, w4)"
    and delta: "delta = amount \<or> delta = - amount" "0 < amount" "amount < 2 ^ 63"
  shows "member_ok w4" "paid v w4 c t n delta" "asset_transactions w4 = asset_transactions v"
proof -
  have keys: "keys_ok v" and led: "ledger_ok v" using v by (simp_all add: member_ok_def ledger_ok_def)
  have ne: "acc_ID cu \<noteq> acc_ID co" using accounts_differ [OF keys ow(1,3,2,4)] .
  note ent = entries_done [OF w3]
  have "ledger_ok w3"
    using same ne by (intro ledger_pair [OF led _ _ _ _ es _ mv(2,3) i]) (simp_all add: ent core_iff mv(1))
  moreover have "acc_ID co \<notin> customer_ids v" "acc_ID cu \<in> customer_ids v"
    using platform_not_customer [OF keys ow(3)] ow by (auto simp: owns_account_def customer_ids_def)
  ultimately show "member_ok w4"
    using same mv by (intro lots_of_posting [OF lots v _ delta]) (simp_all add: ent core_iff)
  have acc: "accounts w4 = accounts v" "entries w4 = entries v @ es" and txs: "asset_transactions w4 = asset_transactions v"
    using lots_of_posting_frame [OF lots] same by (simp_all add: ent core_iff)
  show "asset_transactions w4 = asset_transactions v" by (fact txs)
  have "owned_by w4 (cust c t n) (acc_ID cu)" "owned_by w4 (platform t n) (acc_ID co)"
    using ow by (auto simp: acc owner_key_owns intro!: owned_by_key)
  then show "paid v w4 c t n delta" using posts_pair [OF es acc] by (auto simp: paid_def)
qed

lemma post_effects_ok:
  assumes run: "post_effects S cmd direction row w = (Inr d, w')" and ok: "member_ok w"
    and i: "atx_ID row \<in> atx_ID ` set (asset_transactions w)" "\<And>e. e \<in> set (entries w) \<Longrightarrow> ent_TransactionID e \<noteq> atx_ID row"
    and dir: "direction = 1 \<or> direction = -1" and amount: "0 < sint (cm_Amount cmd)"
  shows "member_ok w'" "paid w w' (cm_CustomerID cmd) (cm_AssetType cmd) (cm_Unit cmd) (sint (cm_Amount cmd) * direction)"
    "payable w (cm_CustomerID cmd) (cm_AssetType cmd) (cm_Unit cmd) (sint (cm_Amount cmd) * direction)"
    "d = dtoFromTransaction row (cm_CustomerID cmd) (sint (cm_Amount cmd) * direction) 0
       (holding w (cust (cm_CustomerID cmd) (cm_AssetType cmd) (cm_Unit cmd), ''available'') + sint (cm_Amount cmd) * direction)
       (cm_Metadata cmd)"
    "asset_transactions w' = asset_transactions w"
proof -
  let ?a = "sint (cm_Amount cmd)"
  have small: "?a < 2 ^ 63" using sint_lt [of "cm_Amount cmd"] by simp
  have delta: "i64 (?a * direction) = ?a * direction" "i64 (- (?a * direction)) = - (?a * direction)"
    using dir small amount by auto
  have sgn: "0 < ?a * direction \<longleftrightarrow> 0 < direction" using amount by (simp add: zero_less_mult_iff)
  obtain w0 v w1 wa wb w3 w4 w5 w6 cu co x y e1 e2 u0 u3 u4 u5 u6 u7 where
      rc: "requireCustomer S (cm_CustomerID cmd) w = (Inr u0, w0)"
    and en: "ensureAccounts S (cm_CustomerID cmd) (cm_AssetType cmd) (cm_Unit cmd) w0 = (Inr (cu, co), v)"
    and mp: "move_pair S cu co (direction < 0) ?a (?a * direction) v = (Inr (x, y), w1)"
    and e1: "new_entry (atx_ID row) 1 (acc_ID cu) ''available'' (?a * direction) x w1 = (Inr e1, wa)"
    and e2: "new_entry (atx_ID row) 2 (acc_ID co) ''available'' (- (?a * direction)) y wa = (Inr e2, wb)"
    and ce: "db_create_all (entry_t S) [e1, e2] wb = (Inr u3, w3)"
    and lots: "(if 0 < direction then grant_lot S (acc_ID cu) (atx_ID row) ?a (cm_ExpiresAt cmd)
        else consumeLots S (acc_ID cu) ?a) w3 = (Inr u4, w4)"
    and pr: "(if cm_AssetType cmd = TypeGrowth then refreshMemberProfile S (cm_CustomerID cmd) x (atx_ID row) else go_ok ()) w4
        = (Inr u5, w5)"
    and au: "create_audit S (atx_ActorType row) (atx_ActorID row) (''asset.'' @ cm_Action cmd) (atx_ID row) JNull
         (JObject [(''transaction_no'', JString (atx_TransactionNo row)),
           (''asset_type'', JString (atx_AssetType row)), (''amount'', JInt (atx_Amount row))]) w5 = (Inr u6, w6)"
    and ob: "create_outbox S ''asset.transaction.posted'' (atx_ID row)
         (JObject [(''transaction_id'', JString (idString (atx_ID row))),
           (''customer_id'', JString (idString (cm_CustomerID cmd))),
           (''asset_type'', JString (atx_AssetType row)), (''action'', JString (atx_Action row)),
           (''amount'', JInt (atx_Amount row))]) w6 = (Inr u7, w')"
    and d: "d = dtoFromTransaction row (cm_CustomerID cmd) (?a * direction) 0 x (cm_Metadata cmd)"
    using run unfolding post_effects_def Let_def delta
    by (elim go_elims go_prodE) simp
  have w0: "core w0 = core w" using rc by (rule member_frame)
  note en = ensureAccounts_done [OF en]
  have v: "member_ok v" using member_grows [OF member_core [OF ok w0] en(1)] .
  have tx: "asset_transactions v = asset_transactions w" "entries v = entries w"
    using en(1) w0 by (simp_all add: grows_def core_iff)
  have ne: "acc_ID cu \<noteq> acc_ID co"
    using v en(2-5) by (intro accounts_differ [of v]) (auto simp: member_ok_def ledger_ok_def)
  have led: "ledger_ok v" using v by (simp add: member_ok_def)
  note mp = move_pair_done [OF mp led en(2,4) ne]
  note e1 = new_entry_done [OF e1] and e2 = new_entry_done [OF e2]
  have wb: "core wb = core w1" using e1(1) e2(1) by simp
  have mv: "moves (pair_delta (acc_ID cu) ''available'' (acc_ID co) ''available'' (?a * direction)) (balances v) (balances wb)"
    "core (wb\<lparr>balances := balances v\<rparr>) = core v" using mp(1,2) wb by (simp_all add: core_iff)
  have es: "pair_entries (atx_ID row) (acc_ID cu) ''available'' (acc_ID co) ''available'' (?a * direction) [e1, e2]"
    using e1 e2 by (simp add: pair_entries_def)
  have sg: "?a * direction = ?a \<or> ?a * direction = - ?a" using dir by auto
  note w4 = posting_ok [OF v en(2-5) i [folded tx] mv(1) mp(3,4) mv(2) es ce lots [folded sgn] sg amount small]
  have "core w5 = core w4" using pr core_frames(5) by (auto split: if_splits)
  then have fin: "member_ok w'" "paid v w' (cm_CustomerID cmd) (cm_AssetType cmd) (cm_Unit cmd) (?a * direction)"
    using w4 core_frames(3) [OF au] core_frames(4) [OF ob] member_core [of w4 w'] paid_core [of v v w' w4] by simp_all
  then show "member_ok w'" "paid w w' (cm_CustomerID cmd) (cm_AssetType cmd) (cm_Unit cmd) (?a * direction)"
    using paid_grows [OF _ en(1)] paid_core [OF w0 [symmetric] refl] by blast+
  show "asset_transactions w' = asset_transactions w"
    using w4(3) tx(1) \<open>core w5 = core w4\<close> core_frames(3) [OF au] core_frames(4) [OF ob] by (simp add: core_iff)
  have neg: "?a * direction < 0 \<longleftrightarrow> direction < 0" using dir amount by auto
  have pay: "payable v (cm_CustomerID cmd) (cm_AssetType cmd) (cm_Unit cmd) (?a * direction)"
    "x = holding v (cust (cm_CustomerID cmd) (cm_AssetType cmd) (cm_Unit cmd), ''available'') + ?a * direction"
    using mp(5,6) led en(2-5) delta dir by (intro payable_pair [where out = "direction < 0" and amount = ?a]; auto simp: neg)+
  have keys: "keys_ok w" using ok by (simp add: member_ok_def ledger_ok_def)
  have "holding v = holding w" using holding_grows [OF _ en(1)] holding_core [OF w0] keys w0 by (simp add: keys_ok_def core_iff)
  then show "payable w (cm_CustomerID cmd) (cm_AssetType cmd) (cm_Unit cmd) (?a * direction)"
    "d = dtoFromTransaction row (cm_CustomerID cmd) (?a * direction) 0
       (holding w (cust (cm_CustomerID cmd) (cm_AssetType cmd) (cm_Unit cmd), ''available'') + ?a * direction)
       (cm_Metadata cmd)"
    using pay d by (simp_all add: payable_def)
qed

lemma add_row_ok:
  assumes "member_ok w" and "\<And>t. t \<in> set (asset_transactions w) \<Longrightarrow> \<not> transaction_clash row t"
    and "transaction_fits row"
  shows "member_ok (w\<lparr>asset_transactions := asset_transactions w @ [row]\<rparr>)"
    "\<And>e. e \<in> set (entries w) \<Longrightarrow> ent_TransactionID e \<noteq> atx_ID row"
proof -
  have "holds_ok (w\<lparr>asset_transactions := asset_transactions w @ [row]\<rparr>)"
    using assms(1) by (simp add: member_ok_def holds_core [of w])
  moreover have "lots_ok (w\<lparr>asset_transactions := asset_transactions w @ [row]\<rparr>)"
    using assms(1) by (simp add: member_ok_def lots_ok_def customer_ids_def)
  ultimately show "member_ok (w\<lparr>asset_transactions := asset_transactions w @ [row]\<rparr>)"
    using assms ledger_add_transaction(1) by (auto simp: member_ok_def)
  show "\<And>e. e \<in> set (entries w) \<Longrightarrow> ent_TransactionID e \<noteq> atx_ID row"
    using assms ledger_add_transaction(2) by (auto simp: member_ok_def)
qed

lemma post_fresh_ok:
  assumes run: "post_fresh S cmd direction ro w = (Inr d, w')" and ok: "member_ok w"
    and dir: "direction = 1 \<or> direction = -1" and amount: "0 < sint (cm_Amount cmd)"
  shows "member_ok w'" "posted S cmd (sint (cm_Amount cmd) * direction) ro d w w'"
proof -
  obtain now i j wa wb wc wd n where t: "now_utc w = (Inr now, wa)" "next_id wa = (Inr i, wb)" "next_id wb = (Inr j, wc)"
    and cr: "db_create_ignore (transaction_t S) (transfer_row S cmd ro i j now) wc = (Inr n, wd)" "n = 1"
    and pe: "post_effects S cmd direction (transfer_row S cmd ro i j now) wd = (Inr d, w')"
    using run unfolding post_fresh_def Let_def by (elim go_elims) simp
  let ?row = "transfer_row S cmd ro i j now"
  have core: "core wc = core w" using core_frames(1,2) t by metis
  have wc: "member_ok wc" using member_core [OF ok core] .
  obtain rows where rows: "sql_create_ignore (transactionE S) ?row (asset_transactions wc) = Inr rows"
      "wd = wc\<lparr>asset_transactions := rows\<rparr>" "1 = length rows - length (asset_transactions wc)"
    using cr by (auto simp: db_create_ignore_inv transaction_t_def)
  then have wd: "wd = wc\<lparr>asset_transactions := asset_transactions wc @ [?row]\<rparr>"
      "\<And>t. t \<in> set (asset_transactions wc) \<Longrightarrow> \<not> transaction_clash ?row t"
    using txn.create_ignore [OF rows(1)] by (auto split: if_splits)
  moreover have "transaction_fits ?row"
    using amount sint_lt [of "cm_Amount cmd"] by (simp add: transaction_fits_def transfer_row_def)
  ultimately have vt: "member_ok wd" "\<And>e. e \<in> set (entries wd) \<Longrightarrow> ent_TransactionID e \<noteq> atx_ID ?row"
    "atx_ID ?row \<in> atx_ID ` set (asset_transactions wd)"
    using add_row_ok [OF wc, of ?row] by auto
  note eff = post_effects_ok [OF pe vt(1,3,2) dir amount]
  show "member_ok w'" by (rule eff)
  have "holding wd = holding w" "paid w = paid wd"
    using core by (simp_all add: wd(1) holding_def owned_by_def paid_def posts_def core_iff fun_eq_iff)
  moreover have "asset_transactions w' = asset_transactions w @ [?row]" using eff(5) core by (simp add: wd(1) core_iff)
  ultimately show "posted S cmd (sint (cm_Amount cmd) * direction) ro d w w'"
    using eff(2-4) unfolding posted_def payable_def by (intro conjI exI [of _ i] exI [of _ j] exI [of _ now]) simp_all
qed

lemma transaction_ok:
  assumes "gorm_transaction commit restore_member m w = (r, w')" and "member_ok w"
    and "\<And>a v. m w = (Inr a, v) \<Longrightarrow> member_ok v"
  shows "member_ok w'"
proof (cases r)
  case (Inl e)
  then obtain u where "w' = restore_member w u" using assms(1) gorm_transaction_error by metis
  then have "core w' = core w" by (simp add: restore_member_def core_def)
  then show ?thesis by (rule member_core [OF assms(2)])
next
  case (Inr a)
  then show ?thesis using assms by (simp add: gorm_transaction_success)
qed

lemma validated_amount: "validateCommand cmd direction = None \<Longrightarrow> 0 < sint (cm_Amount cmd)"
  by (auto simp: validateCommand_def split: if_splits)

lemma post_in_transaction_cases:
  assumes "post_in_transaction S cmd direction ro w = (Inr d, w')"
  obtains (fresh) "sql_take (transactionE S) (by_source (cm_SourceType cmd) (cm_SourceID cmd) (cm_Action cmd))
      (asset_transactions w) = Inl ErrRecordNotFound" "post_fresh S cmd direction ro w = (Inr d, w')"
  | (replay) t where "t \<in> set (asset_transactions w)" "by_source (cm_SourceType cmd) (cm_SourceID cmd) (cm_Action cmd) t"
      "atx_RequestHash t = transfer_hash S cmd" "transactionDTO S t (cm_CustomerID cmd) (cm_Metadata cmd) w = (Inr d, w')"
  using assms txn.take_row unfolding post_in_transaction_def
  by (fastforce elim!: go_elims simp: db_take_inv transaction_t_def split: sum.splits if_splits)

lemma post_in_transaction_ok:
  assumes "post_in_transaction S cmd direction ro w = (Inr d, w')" and "member_ok w"
    and "direction = 1 \<or> direction = -1" and "0 < sint (cm_Amount cmd)"
  shows "member_ok w'"
  using assms(1)
proof (cases rule: post_in_transaction_cases)
  case fresh
  then show ?thesis using post_fresh_ok(1) [OF _ assms(2-4)] by blast
next
  case (replay t)
  then show ?thesis using member_core [OF assms(2) core_frames(8)] by blast
qed

lemma keeps_core_recover: "go_keeps (\<lambda>w. core w = c) (post_recover S cmd e)"
  unfolding post_recover_def by (intro keeps_core_base keeps_core_dto)

lemma postTransfer_ok:
  assumes run: "postTransferWithDB S cmd direction ro w = (r, w')" and ok: "member_ok w"
    and dir: "direction = 1 \<or> direction = -1"
  shows "member_ok w'"
proof (cases "env_WriteEnabled S \<and> validateCommand cmd direction = None")
  case False
  then show ?thesis using run ok by (auto simp: postTransferWithDB_def split: option.splits if_splits)
next
  case True
  define c where "c = cmd\<lparr>cm_OccurredAt := if cm_OccurredAt cmd = 0 then mw_wall w else cm_OccurredAt cmd\<rparr>"
  obtain res w1 where tx: "gorm_transaction (env_commit S) restore_member (post_in_transaction S c direction ro) w = (res, w1)"
    by (cases "gorm_transaction (env_commit S) restore_member (post_in_transaction S c direction ro) w")
  have w1: "member_ok w1"
    using True dir validated_amount [of cmd direction]
      post_in_transaction_ok [OF _ ok dir, of c ro]
    by (auto intro: transaction_ok [OF tx ok] simp: c_def)
  have "w' = w1 \<or> (\<exists>e. post_recover S c e w1 = (r, w'))"
    using run True tx by (cases res) (auto simp: postTransferWithDB_def go_eval now_utc_def c_def Let_def split: if_splits)
  then show ?thesis using w1 member_core [OF w1 go_keepsD [OF keeps_core_recover _ refl]] by blast
qed

end

subsection \<open>Reversal\<close>

context member_store
begin

lemma reverse_effects_ok:
  assumes run: "reverse_effects S cmd original account amount w = (Inr d, w')" and ok: "member_ok w"
    and amount: "0 < amount" "amount < 2 ^ 63"
  defines "direction \<equiv> (if atx_Action original = ''debit'' then 1 else -1 :: int)"
  shows "member_ok w'" "paid w w' (acc_OwnerID account) (atx_AssetType original) (atx_Unit original) (amount * direction)"
    "payable w (acc_OwnerID account) (atx_AssetType original) (atx_Unit original) (amount * direction)"
    "\<exists>i j now. asset_transactions w' = asset_transactions w @ [reverse_row S cmd original amount i j now]"
proof -
  let ?d = "amount * direction"
  have delta: "i64 ?d = ?d" "i64 (- ?d) = - ?d" "?d = amount \<or> ?d = - amount"
    using amount by (auto simp: direction_def)
  obtain v w1 wn wi wj wa wb w2 w3 w4 w5 w6 cu co x y now i j e1 e2 u1 u3 u4 u5 u6 u7 where
      en: "ensureAccounts S (acc_OwnerID account) (atx_AssetType original) (atx_Unit original) w = (Inr (cu, co), v)"
    and mp: "move_pair S cu co (?d < 0) amount ?d v = (Inr (x, y), w1)"
    and ids: "now_utc w1 = (Inr now, wn)" "next_id wn = (Inr i, wi)" "next_id wi = (Inr j, wj)"
    and e1: "new_entry (atx_ID (reverse_row S cmd original amount i j now)) 1 (acc_ID cu) ''available'' ?d x wj = (Inr e1, wa)"
    and e2: "new_entry (atx_ID (reverse_row S cmd original amount i j now)) 2 (acc_ID co) ''available'' (- ?d) y wa = (Inr e2, wb)"
    and cr: "create_mapped (transaction_t S) (reverse_row S cmd original amount i j now) wb = (Inr u1, w2)"
    and ce: "db_create_all (entry_t S) [e1, e2] w2 = (Inr u3, w3)"
    and lots: "(if 0 < ?d then grant_lot S (acc_ID cu) (atx_ID (reverse_row S cmd original amount i j now)) amount None
        else consumeLots S (acc_ID cu) amount) w3 = (Inr u4, w4)"
    and pr: "(if atx_AssetType original = TypeGrowth
        then refreshMemberProfile S (acc_OwnerID account) x (atx_ID (reverse_row S cmd original amount i j now)) else go_ok ()) w4
        = (Inr u5, w5)"
    and au: "create_audit S (atx_ActorType (reverse_row S cmd original amount i j now))
        (atx_ActorID (reverse_row S cmd original amount i j now)) ''asset.reverse'' (atx_ID (reverse_row S cmd original amount i j now)) JNull
        (JObject [(''reversal_of'', JString (idString (atx_ID original))), (''amount'', JInt amount)]) w5 = (Inr u6, w6)"
    and ob: "create_outbox S ''asset.transaction.reversed'' (atx_ID (reverse_row S cmd original amount i j now))
        (JObject [(''transaction_id'', JString (idString (atx_ID (reverse_row S cmd original amount i j now)))),
         (''reversal_of'', JString (idString (atx_ID original))), (''amount'', JInt amount)]) w6 = (Inr u7, w')"
    using run unfolding reverse_effects_def Let_def direction_def [symmetric] delta
    by (elim go_elims go_prodE) simp
  let ?row = "reverse_row S cmd original amount i j now"
  note en = ensureAccounts_done [OF en]
  have v: "member_ok v" using member_grows [OF ok en(1)] .
  have ne: "acc_ID cu \<noteq> acc_ID co"
    using v en(2-5) by (intro accounts_differ [of v]) (auto simp: member_ok_def ledger_ok_def)
  have led: "ledger_ok v" using v by (simp add: member_ok_def)
  note mp = move_pair_done [OF mp led en(2,4) ne]
  note e1 = new_entry_done [OF e1] and e2 = new_entry_done [OF e2]
  have wb: "core wb = core w1" using e1(1) e2(1) core_frames(1,2) ids by metis
  note cr = create_transaction_done [OF cr]
  have txs: "asset_transactions wb = asset_transactions v" using wb mp(2) by (simp add: core_iff)
  note vt = add_row_ok [OF v cr(2) [unfolded txs] cr(3)]
  let ?v = "v\<lparr>asset_transactions := asset_transactions v @ [?row]\<rparr>"
  have mv: "moves (pair_delta (acc_ID cu) ''available'' (acc_ID co) ''available'' ?d) (balances ?v) (balances w2)"
    "core (w2\<lparr>balances := balances ?v\<rparr>) = core ?v" using mp(1,2) wb by (simp_all add: core_iff cr(1) txs)
  have es: "pair_entries (atx_ID ?row) (acc_ID cu) ''available'' (acc_ID co) ''available'' ?d [e1, e2]"
    using e1 e2 by (simp add: pair_entries_def)
  have w4: "member_ok w4 \<and> paid ?v w4 (acc_OwnerID account) (atx_AssetType original) (atx_Unit original) ?d \<and>
      asset_transactions w4 = asset_transactions ?v"
    using posting_ok [OF vt(1) _ en(3) _ en(5) _ _ mv(1) _ _ mv(2) es ce lots delta(3) amount] en(2,4) vt(2) mp(3,4) by simp
  have "core w5 = core w4" using pr core_frames(5) by (auto split: if_splits)
  then have w': "core w' = core w4" using core_frames(3) [OF au] core_frames(4) [OF ob] by simp
  show "member_ok w'" using w4 member_core [OF _ w'] by blast
  have "paid ?v = paid v" by (simp add: paid_def posts_def fun_eq_iff)
  then have "paid v w' (acc_OwnerID account) (atx_AssetType original) (atx_Unit original) ?d"
    using w4 paid_core [OF refl w'] by simp
  then show "paid w w' (acc_OwnerID account) (atx_AssetType original) (atx_Unit original) ?d" by (rule paid_grows [OF _ en(1)])
  have "asset_transactions v = asset_transactions w" using en(1) by (simp add: grows_def)
  then have "asset_transactions w' = asset_transactions w @ [?row]" using w4 w' by (simp add: core_iff)
  then show "\<exists>i j now. asset_transactions w' = asset_transactions w @ [reverse_row S cmd original amount i j now]" by blast
  have "payable v (acc_OwnerID account) (atx_AssetType original) (atx_Unit original) ?d"
    using mp(5,6) led en(2-5) delta amount by (intro payable_pair(1) [where out = "?d < 0" and amount = amount]) auto
  moreover have "holding v = holding w" using holding_grows [OF _ en(1)] ok by (simp add: member_ok_def ledger_ok_def)
  ultimately show "payable w (acc_OwnerID account) (atx_AssetType original) (atx_Unit original) ?d" by (simp add: payable_def)
qed

lemma reverse_in_transaction_cases:
  assumes run: "reverse_in_transaction S cmd w = (Inr d, v)" and ok: "member_ok w"
  obtains (fresh) original account amount where "original \<in> set (asset_transactions w)"
      "atx_ID original = rv_OriginalTransactionID cmd" "atx_Action original \<in> {''credit'', ''debit''}"
      "\<And>t. t \<in> set (asset_transactions w) \<Longrightarrow> \<not> by_source (rv_SourceType cmd) (rv_SourceID cmd) ''reverse'' t"
      "amount = (if sint (rv_Amount cmd) = 0 then atx_Amount original else sint (rv_Amount cmd))"
      "0 < amount" "i64 (reversed_sum w (atx_ID original) + amount) \<le> atx_Amount original"
      "posted_reversal S cmd original account amount w v" "member_ok v"
  | (replay) "core v = core w"
proof -
  obtain original where orig: "sql_take (transactionE S) (\<lambda>t. atx_ID t = rv_OriginalTransactionID cmd \<and> atx_Status t = ''posted'')
      (asset_transactions w) = Inr original" and act: "atx_Action original \<in> {''credit'', ''debit''}"
    and alt: "(sql_take (transactionE S) (by_source (rv_SourceType cmd) (rv_SourceID cmd) ''reverse'') (asset_transactions w) =
        Inl ErrRecordNotFound \<and> reverse_fresh S cmd original w = (Inr d, v)) \<or>
      (\<exists>existing account w1. customer_account_of S original w = (Inr account, w1) \<and>
         transactionDTO S existing (acc_OwnerID account) (reversal_metadata original) w1 = (Inr d, v))"
    using run unfolding reverse_in_transaction_def
    by (fastforce elim!: go_elims simp: db_take_inv transaction_t_def split: sum.splits if_splits)
  note tk = txn.take_row [OF orig]
  have fits: "0 < atx_Amount original" "atx_Amount original < 2 ^ 63"
    using tk ok by (auto simp: member_ok_def ledger_ok_def transaction_fits_def)
  from alt show thesis
  proof
    assume a: "sql_take (transactionE S) (by_source (rv_SourceType cmd) (rv_SourceID cmd) ''reverse'') (asset_transactions w) =
        Inl ErrRecordNotFound \<and> reverse_fresh S cmd original w = (Inr d, v)"
    then have "reverse_fresh S cmd original w = (Inr d, v)" ..
    then obtain account w1 w2 n amount where q: "customer_account_of S original w = (Inr account, w1)"
        "reversed_amount S original w1 = (Inr n, w2)"
      and eff: "reverse_effects S cmd original account amount w2 = (Inr d, v)" "0 < amount" "\<not> atx_Amount original < i64 (n + amount)"
      and am: "amount = (if sint (rv_Amount cmd) = 0 then atx_Amount original else sint (rv_Amount cmd))"
      unfolding reverse_fresh_def Let_def by (elim go_elims) simp
    have w2: "core w2 = core w" and w1: "core w1 = core w" using q core_frames(10,11) by metis+
    have n: "n = reversed_sum w (atx_ID original)"
      using q(2) w1 unfolding reversed_amount_def reversed_sum_def
      by (auto elim!: go_elims simp: db_find_inv transaction_t_def core_iff dest!: txn.find_rows intro: sum_list_mset_eq)
    have lim: "amount < 2 ^ 63" using fits(2) sint_lt [of "rv_Amount cmd"] by (simp add: am)
    note re = reverse_effects_ok [OF eff(1) member_core [OF ok w2] eff(2) lim]
    have "posted_reversal S cmd original account amount w v"
      using re(2-4) w2 holding_core [OF w2] paid_core [OF w2 refl] by (simp add: posted_reversal_def payable_def core_iff)
    then show thesis
      using fresh [OF _ _ act _ am eff(2)] tk txn.take_missing [OF conjunct1 [OF a]] eff(3) re(1) by (auto simp: n)
  next
    assume "\<exists>existing account w1. customer_account_of S original w = (Inr account, w1) \<and>
         transactionDTO S existing (acc_OwnerID account) (reversal_metadata original) w1 = (Inr d, v)"
    then have "core v = core w" using core_frames(8,10) by metis
    then show thesis by (rule replay)
  qed
qed

lemma Reverse_ok:
  assumes run: "Reverse S cmd w = (r, w')" and ok: "member_ok w"
  shows "member_ok w'"
proof -
  have inner: "member_ok v" if in_tx: "reverse_in_transaction S cmd w = (Inr d, v)" for d v
    using in_tx ok by (cases rule: reverse_in_transaction_cases) (auto intro: member_core [OF ok])
  show ?thesis
    using run ok inner transaction_ok [of "env_commit S" "reverse_in_transaction S cmd" w r w']
    by (auto simp: Reverse_def split: if_splits)
qed

end

subsection \<open>Freezing\<close>

lemma holds_freeze:
  assumes ok: "holds_ok v" and hs: "holds w = holds v @ [hold]" "hold_lots w = hold_lots v @ new"
    and fz: "freezes a x new (asset_lots v) (asset_lots w)"
    and new: "\<And>y. y \<in> set new \<Longrightarrow> new_alloc (hd_ID hold) a (asset_lots v) y"
    and ids: "distinct (map hd_ID (holds w))" "distinct (map hl_ID (hold_lots w))"
    and h: "hd_AccountID hold = a" "hd_OriginalAmount hold = x" "hd_CommittedAmount hold = 0" "hd_ReleasedAmount hold = 0"
      "hd_Status hold = ''active''" "0 < x" "x < 2 ^ 63"
  shows "holds_ok w"
proof -
  have kept: "lots_kept (asset_lots v) (asset_lots w)" using fz by (simp add: freezes_def)
  have fresh: "hd_ID g \<noteq> hd_ID hold" if "g \<in> set (holds v)" for g
    using ids(1) that by (auto simp: hs image_iff)
  have old: "\<not> of_hold (hd_ID hold) y" if "y \<in> set (hold_lots v)" for y
    using ok that fresh by (auto simp: holds_ok_def alloc_placed_def)
  have zero: "alloc_sum f (of_hold (hd_ID hold)) (hold_lots v) = 0" for f
    using old by (rule alloc_sum_none)
  have all: "alloc_sum f (of_hold (hd_ID hold)) new = sum_list (map f new)" for f
    using new by (intro alloc_sum_all) (simp add: new_alloc_def)
  have none: "alloc_sum f (of_hold (hd_ID g)) new = 0" if "g \<in> set (holds v)" for g f
    using new fresh [OF that] by (intro alloc_sum_none) (auto simp: new_alloc_def)
  have cr: "sum_list (map hl_CommittedAmount new) = 0" "sum_list (map hl_ReleasedAmount new) = 0"
    using new by (induction new) (simp_all add: new_alloc_def)
  show ?thesis
    unfolding holds_ok_def
  proof (intro conjI ballI allI)
    fix y assume "y \<in> set (hold_lots w)"
    then have "y \<in> set (hold_lots v) \<or> y \<in> set new" by (auto simp: hs)
    then show "alloc_ok y" "alloc_placed w y"
      using ok new [of y] unfolding alloc_placed_def lots_kept_pairs [OF kept] hs
      by (auto simp: holds_ok_def alloc_placed_def new_alloc_def alloc_ok_def alloc_open_def h(1))
  next
    fix g assume "g \<in> set (holds w)"
    then consider "g \<in> set (holds v)" | "g = hold" by (auto simp: hs)
    then show "hold_ok w g"
    proof cases
      case 1
      then show ?thesis using ok none by (simp add: holds_ok_def hold_ok_def hs(2))
    next
      case 2
      then show ?thesis using h fz cr by (simp add: hold_ok_def hs(2) zero all freezes_def status_ok_def)
    qed
  next
    fix i
    have "alloc_sum alloc_open (of_lot i) new = alloc_sum hl_Amount (of_lot i) new"
      unfolding alloc_sum_def using new
      by (intro arg_cong [where f = sum_list] map_cong) (auto simp: new_alloc_def alloc_open_def)
    then show "frozen_of i (asset_lots w) = alloc_sum alloc_open (of_lot i) (hold_lots w)"
      using ok fz by (simp add: holds_ok_def freezes_def hs(2))
  qed (fact ids)+
qed

lemma lots_freeze:
  assumes ok: "lots_ok v" and "accounts w = accounts v"
    and "moves (pair_delta a ''available'' a ''frozen'' (- x)) (balances v) (balances w)"
    and keys: "(a, ''available'') \<in> bal_key ` set (balances v)" "(a, ''frozen'') \<in> bal_key ` set (balances v)"
    and fz: "freezes a x new (asset_lots v) (asset_lots w)"
  shows "lots_ok w"
proof (rule lots_post_kept [OF assms(1-3)])
  show "lots_kept (asset_lots v) (asset_lots w)" using fz by (simp add: freezes_def)
  fix c k
  show "lot_sum (bucket_amount k) (of_account c) (asset_lots w) =
      lot_sum (bucket_amount k) (of_account c) (asset_lots v) + pair_delta a ''available'' a ''frozen'' (- x) (c, k)"
    using fz by (cases k rule: bucket_cases) (auto simp: freezes_def)
qed (use keys in auto)

context member_store
begin

lemma create_hold_done:
  assumes "create_mapped (hold_t S) h w = (Inr u, w')"
  shows "w' = w\<lparr>holds := holds w @ [h]\<rparr>" "hd_ID h \<notin> hd_ID ` set (holds w)"
proof -
  have "db_create (hold_t S) h w = (Inr (), w')"
    using assms unfolding create_mapped_def by (auto elim!: go_elims split: sum.splits)
  then obtain rows where "sql_create (holdE S) h (holds w) = Inr rows"
      "w' = w\<lparr>holds := rows\<rparr>" by (auto simp: db_create_inv hold_t_def)
  with hld.create_row [of h "holds w" rows] show "w' = w\<lparr>holds := holds w @ [h]\<rparr>" "hd_ID h \<notin> hd_ID ` set (holds w)"
    by (auto simp: hold_clash_def)
qed

lemma create_allocs_done:
  assumes "db_create_all (hold_lot_t S) xs w = (Inr u, w')" and "distinct (map hl_ID (hold_lots w))"
  shows "w' = w\<lparr>hold_lots := hold_lots w @ xs\<rparr>" "distinct (map hl_ID (hold_lots w'))"
  using assms alloc.create_rows_distinct [of xs "hold_lots w" _ hl_ID]
  by (auto simp: db_create_all_inv hold_lot_t_def hold_lot_clash_def dest: alloc.create_rows_append)

lemma freeze_record_ok:
  assumes run: "freeze_record S cmd hold new av fr w = (Inr d, w')" and v: "member_ok v"
    and w: "core (w\<lparr>asset_lots := asset_lots v\<rparr>) = core v"
    and b: "av \<in> set (balances v)" "bal_key av = (a, ''available'')" "fr \<in> set (balances v)" "bal_key fr = (a, ''frozen'')"
    and fz: "freezes a (sint (cm_Amount cmd)) new (asset_lots v) (asset_lots w)"
    and new: "\<And>y. y \<in> set new \<Longrightarrow> new_alloc (hd_ID hold) a (asset_lots v) y"
    and h: "hd_AccountID hold = a" "hd_OriginalAmount hold = sint (cm_Amount cmd)" "hd_CommittedAmount hold = 0"
      "hd_ReleasedAmount hold = 0" "hd_Status hold = ''active''" "0 < sint (cm_Amount cmd)"
  shows "member_ok w'" "posts v w' [((a, ''available''), - sint (cm_Amount cmd)), ((a, ''frozen''), sint (cm_Amount cmd))]"
    "accounts w' = accounts v" "holds w' = holds v @ [hold]" "d = holdDTO hold"
proof -
  let ?x = "sint (cm_Amount cmd)"
  have small: "?x < 2 ^ 63" using sint_lt [of "cm_Amount cmd"] by simp
  then have neg: "i64 (- ?x) = - ?x" using h(6) by simp
  obtain w1 w2 wn wi wj wa wb w3 w4 w5 w6 w7 now i j e1 e2 u1 u2 u3 u4 u5 u6 u7 u8 where
      s1: "setBalance S (bal_ID av) (i64 (bal_Amount av + - ?x)) w = (Inr u1, w1)"
    and s2: "setBalance S (bal_ID fr) (i64 (bal_Amount fr + ?x)) w1 = (Inr u2, w2)"
    and ids: "now_utc w2 = (Inr now, wn)" "next_id wn = (Inr i, wi)" "next_id wi = (Inr j, wj)"
    and e1: "new_entry (atx_ID (freeze_row S cmd i j now)) 1 (hd_AccountID hold) ''available'' (- ?x) (i64 (bal_Amount av + - ?x)) wj = (Inr e1, wa)"
    and e2: "new_entry (atx_ID (freeze_row S cmd i j now)) 2 (hd_AccountID hold) ''frozen'' ?x (i64 (bal_Amount fr + ?x)) wa = (Inr e2, wb)"
    and cr: "create_mapped (transaction_t S) (freeze_row S cmd i j now) wb = (Inr u3, w3)"
    and ce: "db_create_all (entry_t S) [e1, e2] w3 = (Inr u4, w4)"
    and ch: "create_mapped (hold_t S) hold w4 = (Inr u5, w5)"
    and ca: "db_create_all (hold_lot_t S) new w5 = (Inr u6, w6)"
    and au: "create_audit S (atx_ActorType (freeze_row S cmd i j now)) (atx_ActorID (freeze_row S cmd i j now)) ''asset.freeze'' (hd_ID hold) JNull
        (JObject [(''hold_no'', JString (hd_HoldNo hold)), (''amount'', JInt (hd_OriginalAmount hold))]) w6 = (Inr u7, w7)"
    and ob: "create_outbox S ''asset.hold.created'' (hd_ID hold)
        (JObject [(''hold_id'', JString (idString (hd_ID hold))),
          (''customer_id'', JString (idString (cm_CustomerID cmd))), (''amount'', JInt (hd_OriginalAmount hold))]) w7 = (Inr u8, w')"
    and d: "d = holdDTO hold"
    using run unfolding freeze_record_def Let_def neg unfolding diff_conv_add_uminus by (elim go_elims) simp
  let ?row = "freeze_row S cmd i j now"
  have led: "ledger_ok v" and hok: "holds_ok v" and lok: "lots_ok v" using v by (simp_all add: member_ok_def)
  have dist: "distinct (map bal_ID (balances v))" "distinct (map bal_key (balances v))"
    using led by (simp_all add: ledger_ok_def keys_ok_def)
  have "moves (\<lambda>_. 0) (balances v) (balances w)" using moves_refl [OF ledger_int64 [OF led]] w by (simp add: core_iff)
  note m1 = setBalance_moves [OF s1 this b(1) dist]
  note m2 = setBalance_moves [OF s2 m1(1) b(3) dist]
  note e1 = new_entry_done [OF e1] and e2 = new_entry_done [OF e2]
  have w2: "core (w2\<lparr>balances := balances v\<rparr>) = core w"
    by (subst m2(2), subst m1(2)) (use w in \<open>simp add: core_def\<close>)
  have wb: "core wb = core w2" using e1(1) e2(1) core_frames(1,2) ids by metis
  note cr = create_transaction_done [OF cr] and ce = entries_done [OF ce] and ch = create_hold_done [OF ch]
  have txs: "asset_transactions wb = asset_transactions v" using wb w2 w by (simp add: core_iff)
  note vt = add_row_ok [OF v cr(2) [unfolded txs] cr(3)]
  let ?v = "v\<lparr>asset_transactions := asset_transactions v @ [?row]\<rparr>"
  have d5: "distinct (map hl_ID (hold_lots w5))" using hok wb w2 w by (simp add: ch ce cr(1) core_iff holds_ok_def)
  note ca = create_allocs_done [OF ca d5]
  have mv: "moves (pair_delta a ''available'' a ''frozen'' (- ?x)) (balances v) (balances w6)"
    using m2(1) wb by (simp add: b(2,4) ca(1) ch ce cr(1) core_iff)
  have keys: "(a, ''available'') \<in> bal_key ` set (balances v)" "(a, ''frozen'') \<in> bal_key ` set (balances v)"
    using b by (metis imageI)+
  have same: "accounts w6 = accounts v" "asset_transactions w6 = asset_transactions v @ [?row]" "entries w6 = entries v @ [e1, e2]"
    "asset_lots w6 = asset_lots w" "holds w6 = holds v @ [hold]" "hold_lots w6 = hold_lots v @ new"
    using wb w2 w txs by (simp_all add: ca(1) ch ce cr(1) core_iff)
  have es: "pair_entries (atx_ID ?row) a ''available'' a ''frozen'' (- ?x) [e1, e2]"
    using e1 e2 by (simp add: pair_entries_def h(1))
  have "ledger_ok w6"
    by (rule ledger_pair [where v = ?v, OF _ _ _ _ _ es])
      (use vt keys mv same in \<open>simp_all add: member_ok_def\<close>)
  moreover have "lots_ok w6"
    by (rule lots_freeze [OF lok same(1) mv keys]) (use fz same in simp)
  moreover have "distinct (map hd_ID (holds w6))" 
    using hok ch(2) wb w2 w by (simp add: same holds_ok_def ce cr(1) core_iff)
  then have "holds_ok w6"
    using fz new h small ca(2) by (intro holds_freeze [OF hok same(5,6), of a ?x]) (simp_all add: same)
  ultimately have w6: "member_ok w6" by (simp add: member_ok_def)
  have w': "core w' = core w6" using core_frames(3) [OF au] core_frames(4) [OF ob] by simp
  show "member_ok w'" by (rule member_core [OF w6 w'])
  show "posts v w' [((a, ''available''), - ?x), ((a, ''frozen''), ?x)]"
    using posts_pair [OF es, of w' v] w' same by (simp add: core_iff)
  show "accounts w' = accounts v" "holds w' = holds v @ [hold]" "d = holdDTO hold" using w' same d by (simp_all add: core_iff)
qed

lemma freeze_fresh_ok:
  assumes run: "freeze_fresh S cmd w = (Inr d, w')" and ok: "member_ok w" and amount: "0 < sint (cm_Amount cmd)"
  shows "member_ok w'" "frozen_for cmd d w w'"
proof -
  obtain w0 v va vf wl wi wj w1 cu co av fr ls i j new rest u0 where
      rc: "requireCustomer S (cm_CustomerID cmd) w = (Inr u0, w0)"
    and en: "ensureAccounts S (cm_CustomerID cmd) (cm_AssetType cmd) (cm_Unit cmd) w0 = (Inr (cu, co), v)"
    and lb: "lockBalance S (acc_ID cu) ''available'' v = (Inr av, va)" "lockBalance S (acc_ID cu) ''frozen'' va = (Inr fr, vf)"
    and lo: "db_ordered (lot_t S) (\<lambda>l. al_AccountID l = acc_ID cu \<and> 0 < al_AvailableAmount l) lot_order vf = (Inr ls, wl)"
    and ids: "next_id wl = (Inr i, wi)" "next_id wi = (Inr j, wj)"
    and fl: "freeze_lots S (hd_ID (freeze_hold cmd (acc_ID cu) i j)) ls (sint (cm_Amount cmd)) [] wj = (Inr (new, rest), w1)"
    and rest: "rest = 0" and gd: "\<not> bal_Amount av < sint (cm_Amount cmd)"
    and rec: "freeze_record S cmd (freeze_hold cmd (acc_ID cu) i j) new av fr w1 = (Inr d, w')"
    using run unfolding freeze_fresh_def Let_def by (elim go_elims go_prodE) simp
  have w0: "core w0 = core w" using rc by (rule member_frame)
  note en = ensureAccounts_done [OF en]
  have v: "member_ok v" using member_grows [OF member_core [OF ok w0] en(1)] .
  note av = lockBalance_done [OF lb(1)] and fr = lockBalance_done [OF lb(2)]
  have lots: "sql_ordered (lotE S) (\<lambda>l. al_AccountID l = acc_ID cu \<and> 0 < al_AvailableAmount l) lot_order (asset_lots v) = Inr ls"
    and wl: "wl = v" using lo av fr by (auto simp: db_ordered_inv lot_t_def)
  have wj: "core wj = core v" using core_frames(1) ids unfolding wl by metis
  have lok: "distinct (map al_ID (asset_lots v))" "list_all lot_ok (asset_lots v)"
    using v by (simp_all add: member_ok_def lots_ok_def list_all_iff)
  note ls = ordered_lots [OF lots lok(1)]
  have "core (w1\<lparr>asset_lots := asset_lots wj\<rparr>) = core wj \<and> (\<exists>new'. new = [] @ new' \<and>
     freezes (acc_ID cu) (sint (cm_Amount cmd) - rest) new' (asset_lots wj) (asset_lots w1) \<and>
     (\<forall>x\<in>set new'. new_alloc (hd_ID (freeze_hold cmd (acc_ID cu) i j)) (acc_ID cu) (asset_lots wj) x))"
    using lok ls amount sint_lt [of "cm_Amount cmd"] wj by (intro freeze_lots_done [OF fl]) (auto simp: core_iff)
  then have fz: "core (w1\<lparr>asset_lots := asset_lots v\<rparr>) = core v"
    "freezes (acc_ID cu) (sint (cm_Amount cmd)) new (asset_lots v) (asset_lots w1)"
    "\<And>x. x \<in> set new \<Longrightarrow> new_alloc (hd_ID (freeze_hold cmd (acc_ID cu) i j)) (acc_ID cu) (asset_lots v) x"
    using wj rest by (auto simp: core_iff)
  have "member_ok w' \<and> posts v w' [((acc_ID cu, ''available''), - sint (cm_Amount cmd)), ((acc_ID cu, ''frozen''), sint (cm_Amount cmd))] \<and>
      accounts w' = accounts v \<and> holds w' = holds v @ [freeze_hold cmd (acc_ID cu) i j] \<and> d = holdDTO (freeze_hold cmd (acc_ID cu) i j)"
    using freeze_record_ok [OF rec v fz(1) _ av(3) _ _ fz(2,3)] av fr amount by (simp add: freeze_hold_def)
  then have end1: "member_ok w'" "posts v w' [((acc_ID cu, ''available''), - sint (cm_Amount cmd)), ((acc_ID cu, ''frozen''), sint (cm_Amount cmd))]"
      "accounts w' = accounts v" "holds w' = holds v @ [freeze_hold cmd (acc_ID cu) i j]" "d = holdDTO (freeze_hold cmd (acc_ID cu) i j)" by blast+
  show "member_ok w'" by (fact end1)
  have keys: "keys_ok v" "keys_ok w0" using v ok w0 by (simp_all add: member_ok_def ledger_ok_def keys_ok_def core_iff)
  have own: "owned_by w' (cust (cm_CustomerID cmd) (cm_AssetType cmd) (cm_Unit cmd)) (acc_ID cu)"
    using en(2,3) by (intro owned_by_key) (simp_all add: end1(3) owner_key_owns)
  have h: "holding v = holding w" using holding_grows [OF keys(2) en(1)] holding_core [OF w0] by simp
  have "holding v (owner_key cu, ''available'') = bal_Amount av" using av by (intro holding_at [OF keys(1) en(2)]) simp_all
  then have "sint (cm_Amount cmd) \<le> holding w (cust (cm_CustomerID cmd) (cm_AssetType cmd) (cm_Unit cmd), ''available'')"
    using gd en(3) by (simp add: h owner_key_owns [symmetric])
  moreover have "holds w' = holds w @ [freeze_hold cmd (acc_ID cu) i j]" using end1(4) en(1) w0 by (simp add: grows_def core_iff)
  moreover have "posts w w' [((acc_ID cu, ''available''), - sint (cm_Amount cmd)), ((acc_ID cu, ''frozen''), sint (cm_Amount cmd))]"
    using posts_grows [OF en(1) end1(2)] posts_core [OF w0 refl] by simp
  ultimately show "frozen_for cmd d w w'" using own end1(5) unfolding frozen_for_def by blast
qed

lemma freeze_in_transaction_cases:
  assumes "freeze_in_transaction S cmd w = (Inr d, w')"
  obtains (fresh) "sql_take (holdE S) (\<lambda>h. hd_ReservationKey h = fz_ReservationKey cmd) (holds w) = Inl ErrRecordNotFound"
      "freeze_fresh S cmd w = (Inr d, w')"
  | (replay) h where "h \<in> set (holds w)" "hd_ReservationKey h = fz_ReservationKey cmd" "d = holdDTO h" "w' = w"
      "hd_OriginalAmount h = sint (cm_Amount cmd)"
  using assms hld.take_row unfolding freeze_in_transaction_def
  by (fastforce elim!: go_elims simp: db_take_inv hold_t_def split: sum.splits if_splits)

lemma Freeze_ok:
  assumes run: "asset_Freeze S cmd w = (r, w')" and ok: "member_ok w"
  shows "member_ok w'"
proof -
  let ?c = "cmd\<lparr>cm_Action := ''freeze''\<rparr>"
  have inner: "member_ok v" if "freeze_in_transaction S ?c w = (Inr d, v)" and "validateCommand ?c (-1) = None" for d v
    using that(1) freeze_fresh_ok(1) [OF _ ok validated_amount [OF that(2)]] ok by (cases rule: freeze_in_transaction_cases) auto
  show ?thesis
    using run ok inner transaction_ok [of "env_commit S" "freeze_in_transaction S ?c" w r w']
    by (auto simp: asset_Freeze_def Let_def split: if_splits option.splits)
qed

end

end
