(* ===== verification/Member_Settlement.thy ===== *)
theory Member_Settlement
  imports Member_Operations
begin

text \<open>
  Committing, releasing and expiring holds, and the expiry of lots, keep the books; with the
  postings and the freezes of the previous theory this covers every operation of the service.
\<close>

lemma alloc_sum_kept:
  assumes "map key ys = map key xs" and "map f ys = map f xs"
  shows "alloc_sum f (\<lambda>x. key x = a) ys = alloc_sum f (\<lambda>x. key x = a) xs"
proof -
  have "alloc_sum f (\<lambda>x. key x = a) zs = sum_list (map snd (filter (\<lambda>p. fst p = a) (zip (map key zs) (map f zs))))" for zs
    by (induction zs) auto
  then show ?thesis by (simp only: assms)
qed

lemma allocs_kept_placed:
  assumes "allocs_kept xs ys" and "y \<in> set ys"
  obtains x where "x \<in> set xs" and "hl_HoldID x = hl_HoldID y" and "hl_LotID x = hl_LotID y"
proof -
  obtain n where "n < length ys" "y = ys ! n" using assms(2) by (metis in_set_conv_nth)
  moreover have "length xs = length ys" "map hl_HoldID ys ! n = map hl_HoldID xs ! n" "map hl_LotID ys ! n = map hl_LotID xs ! n"
    using assms(1) by (simp_all add: allocs_kept_def) (metis length_map)
  ultimately show thesis by (intro that [of "xs ! n"]) auto
qed

definition settled_hold :: "bool \<Rightarrow> string \<Rightarrow> Hold \<Rightarrow> int \<Rightarrow> Hold \<Rightarrow> Hold" where
  "settled_hold commit action h amount = (\<lambda>g. case hold_status commit action h amount of (c, r, st) \<Rightarrow>
     g\<lparr>hd_CommittedAmount := c, hd_ReleasedAmount := r, hd_Status := st, hd_Version := hd_Version g + 1\<rparr>)"

lemma settled_hold_sel [simp]:
  "hd_ID (settled_hold commit action h amount g) = hd_ID g"
  "hd_AccountID (settled_hold commit action h amount g) = hd_AccountID g"
  "hd_OriginalAmount (settled_hold commit action h amount g) = hd_OriginalAmount g"
  by (simp_all add: settled_hold_def split: prod.splits)

lemma settled_hold_amounts:
  assumes "0 \<le> hd_CommittedAmount h" "0 \<le> hd_ReleasedAmount h" "0 < amount"
    "hd_CommittedAmount h + hd_ReleasedAmount h + amount \<le> hd_OriginalAmount h" "hd_OriginalAmount h < 2 ^ 63"
  shows "hd_CommittedAmount (settled_hold commit action h amount g) = hd_CommittedAmount h + (if commit then amount else 0)"
    "hd_ReleasedAmount (settled_hold commit action h amount g) = hd_ReleasedAmount h + (if commit then 0 else amount)"
    "g = h \<Longrightarrow> status_ok (settled_hold commit action h amount g)"
  using assms by (auto simp: settled_hold_def hold_status_def Let_def status_ok_def split: if_splits)

lemma holds_settle:
  assumes ok: "holds_ok v" and h: "h \<in> set (holds v)"
    and hs: "holds w = update_where (\<lambda>g. hd_ID g = hd_ID h) (settled_hold commit action h amount) (holds v)"
    and st: "settles commit (hd_ID h) a back plat (asset_lots v) (hold_lots v) (asset_lots w) (hold_lots w)"
    and am: "back + plat = amount" "0 < amount" "hd_CommittedAmount h + hd_ReleasedAmount h + amount \<le> hd_OriginalAmount h"
  shows "holds_ok w"
proof -
  have lk: "lots_kept (asset_lots v) (asset_lots w)" and ak: "allocs_kept (hold_lots v) (hold_lots w)"
    and fr: "\<And>i. frozen_of i (asset_lots w) - alloc_sum alloc_open (of_lot i) (hold_lots w) =
      frozen_of i (asset_lots v) - alloc_sum alloc_open (of_lot i) (hold_lots v)"
    using st by (simp_all add: settles_def)
  have ids: "distinct (map hd_ID (holds v))" "distinct (map hl_ID (hold_lots v))" using ok by (simp_all add: holds_ok_def)
  have hok: "hold_ok v h" using ok h by (simp add: holds_ok_def)
  have tot: "alloc_sum hl_Amount (of_hold i) (hold_lots w) = alloc_sum hl_Amount (of_hold i) (hold_lots v)" for i
    using ak by (intro alloc_sum_kept) (simp_all add: allocs_kept_def)
  have hids: "map hd_ID (holds w) = map hd_ID (holds v)" unfolding hs by (rule map_update_where) simp
  have pl: "alloc_placed w y" if y: "y \<in> set (hold_lots w)" for y
  proof -
    obtain x where x: "x \<in> set (hold_lots v)" "hl_HoldID x = hl_HoldID y" "hl_LotID x = hl_LotID y"
      using ak y by (rule allocs_kept_placed)
    have "alloc_placed v x" using ok x(1) by (simp add: holds_ok_def)
    then obtain g where g: "g \<in> set (holds v)" "hd_ID g = hl_HoldID x"
        "(hl_LotID x, hd_AccountID g) \<in> (\<lambda>l. (al_ID l, al_AccountID l)) ` set (asset_lots v)"
      unfolding alloc_placed_def by blast
    have "\<exists>g'. g' \<in> set (holds w) \<and> hd_ID g' = hd_ID g \<and> hd_AccountID g' = hd_AccountID g"
    proof (cases "hd_ID g = hd_ID h")
      case True
      then have "settled_hold commit action h amount g \<in> set (holds w)" using g(1) unfolding hs set_update_where by blast
      then show ?thesis by (intro exI [of _ "settled_hold commit action h amount g"]) simp
    next
      case False
      then have "g \<in> set (holds w)" using g(1) unfolding hs set_update_where by blast
      then show ?thesis by blast
    qed
    then obtain g' where "g' \<in> set (holds w)" "hd_ID g' = hl_HoldID y" "hd_AccountID g' = hd_AccountID g"
      using g(2) x(2) by auto
    then show ?thesis using g(3) x(3) unfolding alloc_placed_def lots_kept_pairs [OF lk] by (intro bexI [of _ g']) simp_all
  qed
  have "hold_ok w g" if "g \<in> set (holds w)" for g
  proof -
    have "g = settled_hold commit action h amount h \<or> (g \<in> set (holds v) \<and> g \<noteq> h)"
      using in_update_where_key [OF ids(1) h] that unfolding hs by blast
    then show ?thesis
    proof
      assume "g = settled_hold commit action h amount h"
      then show ?thesis
        using hok st am settled_hold_amounts [where h = h and amount = amount and commit = commit and action = action and g = h]
        by (auto simp: hold_ok_def tot settles_def)
    next
      assume g: "g \<in> set (holds v) \<and> g \<noteq> h"
      then have "hd_ID g \<noteq> hd_ID h" using ids(1) h by (metis distinct_key_unique)
      then show ?thesis using ok g st by (auto simp: holds_ok_def hold_ok_def tot settles_def)
    qed
  qed
  moreover have "list_all alloc_ok (hold_lots w)" "distinct (map hl_ID (hold_lots w))"
    using ak ok ids(2) by (auto simp: allocs_kept_def holds_ok_def list_all_iff)
  moreover have "frozen_of i (asset_lots w) = alloc_sum alloc_open (of_lot i) (hold_lots w)" for i
    using fr [of i] ok by (simp add: holds_ok_def)
  ultimately show ?thesis using pl ids(1) by (simp add: holds_ok_def hids list_all_iff)
qed

lemma lots_settle:
  assumes ok: "lots_ok v" and "accounts w = accounts v"
    and mv: "moves ((\<lambda>_. 0)((a, ''available'') := back, (a, ''frozen'') := - (back + plat), (b, ''available'') := plat)) (balances v) (balances w)"
    and keys: "(a, ''available'') \<in> bal_key ` set (balances v)" "(a, ''frozen'') \<in> bal_key ` set (balances v)"
      "(b, ''available'') \<in> bal_key ` set (balances v)" and b: "b \<notin> customer_ids v" "a \<noteq> b"
    and st: "settles commit h a back plat (asset_lots v) xs (asset_lots w) ys"
  shows "lots_ok w"
proof (rule lots_post_kept [OF assms(1-3)])
  show "lots_kept (asset_lots v) (asset_lots w)" using st by (simp add: settles_def)
  fix c k assume "c \<in> customer_ids v"
  then have "c \<noteq> b" using b by auto
  then show "lot_sum (bucket_amount k) (of_account c) (asset_lots w) =
      lot_sum (bucket_amount k) (of_account c) (asset_lots v) +
      ((\<lambda>_. 0)((a, ''available'') := back, (a, ''frozen'') := - (back + plat), (b, ''available'') := plat)) (c, k)"
    using st by (cases k rule: bucket_cases) (auto simp: settles_def)
qed (use keys in auto)

text \<open>A settlement that is not a replay: of an open hold, \<open>back\<close> units have become available again and \<open>plat\<close> units
  have gone to the platform; a commit gives nothing back.\<close>

definition settle_posts :: "uint64 \<Rightarrow> uint64 \<Rightarrow> int \<Rightarrow> int \<Rightarrow> ((uint64 \<times> string) \<times> int) list" where
  "settle_posts a b back paid_out = [((a, ''frozen''), - (back + paid_out))] @
     (if 0 < back then [((a, ''available''), back)] else []) @ (if 0 < paid_out then [((b, ''available''), paid_out)] else [])"

definition settled_for :: "HoldCommand \<Rightarrow> bool \<Rightarrow> member_world \<Rightarrow> member_world \<Rightarrow> bool" where
  "settled_for cmd commit w w' \<longleftrightarrow> (\<exists>h c t n a b back paid_out. h \<in> set (holds w) \<and> hd_ID h = hc_HoldID cmd \<and>
     hd_Status h \<notin> {''committed'', ''released'', ''expired''} \<and> a = hd_AccountID h \<and>
     owned_by w' (cust c t n) a \<and> owned_by w' (platform (hd_AssetType h) (hd_Unit h)) b \<and>
     posts w w' (settle_posts a b back paid_out) \<and> 0 \<le> back \<and> 0 \<le> paid_out \<and> (commit \<longrightarrow> back = 0) \<and>
     back + paid_out \<le> holding w (cust c t n, ''frozen'') \<and>
     back + paid_out = (if sint (hc_Amount cmd) = 0
       then hd_OriginalAmount h - hd_CommittedAmount h - hd_ReleasedAmount h else sint (hc_Amount cmd)) \<and>
     0 < back + paid_out \<and> hd_CommittedAmount h + hd_ReleasedAmount h + (back + paid_out) \<le> hd_OriginalAmount h \<and>
     holds w' = update_where (\<lambda>g. hd_ID g = hd_ID h) (settled_hold commit (hc_Action cmd) h (back + paid_out)) (holds w))"

lemma hold_loop_commit: "hold_loop S True now xs rem ret pl w = (Inr (rest, ret', pl'), w') \<Longrightarrow> ret' = ret"
  by (induction xs arbitrary: rem ret pl w)
    (auto simp: hold_step_def Let_def elim!: go_elims split: if_splits)

text \<open>A due lot that has expired: what was available of it has gone to the platform.\<close>

definition lot_expired :: "uint64 \<Rightarrow> member_world \<Rightarrow> member_world \<Rightarrow> bool" where
  "lot_expired i w w' \<longleftrightarrow> (\<exists>l c t n. l \<in> set (asset_lots w) \<and> al_ID l = i \<and> lot_due (mw_wall w) l \<and>
     owned_by w' (cust c t n) (al_AccountID l) \<and> al_AvailableAmount l \<le> holding w (cust c t n, ''available'') \<and>
     paid w w' c t n (- al_AvailableAmount l))"

lemma posts_none: "grows w w' \<Longrightarrow> posts w w' []"
  by (auto simp: grows_def posts_def)

text \<open>The entries of a hold transaction say what the balances do.\<close>

definition ent_sig :: "Entry \<Rightarrow> uint64 \<times> (uint64 \<times> string) \<times> int" where
  "ent_sig e = (ent_TransactionID e, ent_key e, ent_Delta e)"

lemma sig_delta: "delta_of es k = sum_list (map (\<lambda>(i, k', d). if k' = k then d else 0) (map ent_sig es))"
  by (induction es) (auto simp: ent_sig_def)

lemma sig_total: "sum_list (map ent_Delta es) = sum_list (map (\<lambda>(i, k, d). d) (map ent_sig es))"
  by (induction es) (auto simp: ent_sig_def)

context member_store
begin

lemma new_entry_sig: "new_entry t s a k d z w = (Inr e, w') \<Longrightarrow> ent_sig e = (t, (a, k), d) \<and> core w' = core w"
  using new_entry_done by (simp add: ent_sig_def)

lemma hold_entries_sig:
  assumes "hold_entries i a b (- x, z1) (back, z2) (plat, z3) w = (Inr es, w')"
  shows "core w' = core w \<and> map ent_sig es = [(i, (a, ''frozen''), - x)] @
    (if 0 < back then [(i, (a, ''available''), back)] else []) @ (if 0 < plat then [(i, (b, ''available''), plat)] else [])"
  using assms unfolding hold_entries_def
  by (cases "0 < back"; cases "0 < plat") (auto elim!: go_elims go_prodE dest!: new_entry_sig)

lemma hold_entries_done:
  assumes run: "hold_entries i a b (- x, z1) (back, z2) (plat, z3) w = (Inr es, w')"
    and am: "0 \<le> back" "0 \<le> plat" "back + plat = x" "a \<noteq> b"
  shows "core w' = core w" "\<And>e. e \<in> set es \<Longrightarrow> ent_TransactionID e = i \<and> ent_key e \<in> {(a, ''frozen''), (a, ''available''), (b, ''available'')}"
    "sum_list (map ent_Delta es) = 0"
    "delta_of es = (\<lambda>_. 0)((a, ''available'') := back, (a, ''frozen'') := - (back + plat), (b, ''available'') := plat)"
    "map ent_post es = settle_posts a b back plat"
proof -
  note sig = hold_entries_sig [OF run]
  have "map ent_post es = map snd (map ent_sig es)" by (simp add: ent_post_def ent_sig_def)
  then show "map ent_post es = settle_posts a b back plat" using sig am(3) by (auto simp: settle_posts_def)
  show "core w' = core w" using sig by simp
  show "sum_list (map ent_Delta es) = 0" unfolding sig_total using sig am by auto
  show "delta_of es = (\<lambda>_. 0)((a, ''available'') := back, (a, ''frozen'') := - (back + plat), (b, ''available'') := plat)"
    using sig am by (auto simp: fun_eq_iff sig_delta)
  fix e assume "e \<in> set es"
  then have "ent_sig e \<in> set (map ent_sig es)" by simp
  then show "ent_TransactionID e = i \<and> ent_key e \<in> {(a, ''frozen''), (a, ''available''), (b, ''available'')}"
    using sig by (auto simp: ent_sig_def split: if_splits)
qed

lemma hold_update_done:
  assumes "db_updates (hold_t S) p g w = (Inr n, w')"
  shows "w' = w\<lparr>holds := update_where p g (holds w)\<rparr>"
  using assms by (auto simp: db_updates_inv hold_t_def dest: hld.updates_rows)

lemma apply_balances:
  assumes ok: "ledger_ok v" and w: "balances w = balances v"
    and b: "av \<in> set (balances v)" "bal_key av = (a, ''available'')" "fr \<in> set (balances v)" "bal_key fr = (a, ''frozen'')"
      "ca \<in> set (balances v)" "bal_key ca = (b, ''available'')" "a \<noteq> b"
    and s: "setBalance S (bal_ID av) (i64 (bal_Amount av + back)) w = (Inr u1, w1)"
      "setBalance S (bal_ID fr) (i64 (bal_Amount fr - x)) w1 = (Inr u2, w2)"
      "(if 0 < plat then setBalance S (bal_ID ca) (i64 (bal_Amount ca + plat)) else go_ok ()) w2 = (Inr u3, w3)"
    and am: "0 \<le> plat" "back + plat = x"
  shows "moves ((\<lambda>_. 0)((a, ''available'') := back, (a, ''frozen'') := - (back + plat), (b, ''available'') := plat)) (balances v) (balances w3)"
    "core (w3\<lparr>balances := balances w\<rparr>) = core w"
proof -
  have dist: "distinct (map bal_ID (balances v))" "distinct (map bal_key (balances v))"
    using ok by (simp_all add: ledger_ok_def keys_ok_def)
  have "moves (\<lambda>_. 0) (balances v) (balances w)" using moves_refl [OF ledger_int64 [OF ok]] w by simp
  note m1 = setBalance_moves [OF s(1) this b(1) dist]
  note m2 = setBalance_moves [OF s(2) [unfolded diff_conv_add_uminus] m1(1) b(3) dist]
  have w2: "core (w2\<lparr>balances := balances w\<rparr>) = core w" by (subst m2(2), subst m1(2)) (simp add: core_def)
  have "moves ((\<lambda>_. 0)((a, ''available'') := back, (a, ''frozen'') := - (back + plat), (b, ''available'') := plat)) (balances v) (balances w3) \<and>
    core (w3\<lparr>balances := balances w\<rparr>) = core w"
  proof (cases "0 < plat")
    case True
    then have "setBalance S (bal_ID ca) (i64 (bal_Amount ca + plat)) w2 = (Inr u3, w3)" using s(3) by simp
    note m3 = setBalance_moves [OF this m2(1) b(5) dist]
    have "core (w3\<lparr>balances := balances w\<rparr>) = core w" by (subst m3(2)) (use w2 in \<open>simp add: core_def\<close>)
    then show ?thesis using m3(1) by (simp add: b(2,4,6) am)
  next
    case False
    then have "plat = 0" "w3 = w2" using s(3) am(1) by auto
    moreover have "(\<lambda>_. 0)((a, ''available'') := back, (a, ''frozen'') := - (back + 0), (b, ''available'') := 0) =
        (\<lambda>_. 0)((a, ''available'') := back, (a, ''frozen'') := - (back + (0::int)))"
      using b(7) by (auto simp: fun_eq_iff)
    ultimately show ?thesis using m2(1) w2 am(2) by (simp add: b(2,4))
  qed
  then show "moves ((\<lambda>_. 0)((a, ''available'') := back, (a, ''frozen'') := - (back + plat), (b, ''available'') := plat)) (balances v) (balances w3)"
    "core (w3\<lparr>balances := balances w\<rparr>) = core w" by blast+
qed

lemma apply_record_ok:
  assumes run: "apply_record S cmd commit h cu co av fr ca x now back plat w = (Inr d, w')" and v: "member_ok v"
    and w: "core (w\<lparr>asset_lots := asset_lots v, hold_lots := hold_lots v\<rparr>) = core v"
    and b: "av \<in> set (balances v)" "bal_key av = (acc_ID cu, ''available'')" "fr \<in> set (balances v)" "bal_key fr = (acc_ID cu, ''frozen'')"
      "ca \<in> set (balances v)" "bal_key ca = (acc_ID co, ''available'')" "acc_ID cu \<noteq> acc_ID co" "acc_ID co \<notin> customer_ids v"
    and h: "h \<in> set (holds v)" "hd_CommittedAmount h + hd_ReleasedAmount h + x \<le> hd_OriginalAmount h"
    and st: "settles commit (hd_ID h) (acc_ID cu) back plat (asset_lots v) (hold_lots v) (asset_lots w) (hold_lots w)"
    and am: "0 \<le> back" "0 \<le> plat" "back + plat = x" "0 < x" "x < 2 ^ 63"
  shows "member_ok w'" "posts v w' (settle_posts (acc_ID cu) (acc_ID co) back plat)" "accounts w' = accounts v"
    "holds w' = update_where (\<lambda>g. hd_ID g = hd_ID h) (settled_hold commit (hc_Action cmd) h x) (holds v)"
proof -
  have led: "ledger_ok v" and hok: "holds_ok v" and lok: "lots_ok v" using v by (simp_all add: member_ok_def)
  have neg: "i64 (- x) = - x" using am by simp
  obtain w1 w2 w3 w4 wi wj we w5 w6 w7 n i j es u1 u2 u3 u5 u6 u7 u8 st' c' r' where
      s: "setBalance S (bal_ID av) (i64 (bal_Amount av + back)) w = (Inr u1, w1)"
      "setBalance S (bal_ID fr) (i64 (bal_Amount fr - x)) w1 = (Inr u2, w2)"
      "(if 0 < plat then setBalance S (bal_ID ca) (i64 (bal_Amount ca + plat)) else go_ok ()) w2 = (Inr u3, w3)"
    and hs: "hold_status commit (hc_Action cmd) h x = (c', r', st')"
    and up: "db_updates (hold_t S) (\<lambda>g. hd_ID g = hd_ID h)
        (\<lambda>g. g\<lparr>hd_CommittedAmount := c', hd_ReleasedAmount := r', hd_Status := st', hd_Version := hd_Version g + 1\<rparr>) w3 = (Inr n, w4)"
    and ids: "next_id w4 = (Inr i, wi)" "next_id wi = (Inr j, wj)"
    and he: "hold_entries (atx_ID (hold_row S cmd h x i j now)) (acc_ID cu) (acc_ID co) (- x, i64 (bal_Amount fr - x))
        (back, i64 (bal_Amount av + back)) (plat, i64 (bal_Amount ca + plat)) wj = (Inr es, we)"
    and cr: "create_mapped (transaction_t S) (hold_row S cmd h x i j now) we = (Inr u5, w5)"
    and ce: "db_create_all (entry_t S) es w5 = (Inr u6, w6)"
    and au: "create_audit S (atx_ActorType (hold_row S cmd h x i j now)) (atx_ActorID (hold_row S cmd h x i j now)) (''asset.'' @ hc_Action cmd) (hd_ID h) JNull
          (JObject [(''hold_id'', JString (idString (hd_ID h))), (''amount'', JInt x)]) w6 = (Inr u7, w7)"
    and ob: "create_outbox S (''asset.hold.'' @ hc_Action cmd) (hd_ID h)
          (JObject [(''hold_id'', JString (idString (hd_ID h))), (''amount'', JInt x), (''status'', JString st')]) w7 = (Inr u8, w')"
    using run unfolding apply_record_def Let_def neg by (elim go_elims go_prodE) simp
  let ?row = "hold_row S cmd h x i j now"
  have wv: "balances w = balances v" using w by (simp add: core_iff)
  note mv = apply_balances [OF led wv b(1-7) s am(2,3)]
  have g: "(\<lambda>g. g\<lparr>hd_CommittedAmount := c', hd_ReleasedAmount := r', hd_Status := st', hd_Version := hd_Version g + 1\<rparr>) =
      settled_hold commit (hc_Action cmd) h x" by (simp add: settled_hold_def hs)
  note up = hold_update_done [OF up, unfolded g]
  note he = hold_entries_done [OF he am(1-3) b(7)]
  have we: "core we = core w4" using he(1) core_frames(1) ids by metis
  note cr = create_transaction_done [OF cr] and ce = entries_done [OF ce]
  have w4: "accounts w4 = accounts v" "asset_transactions w4 = asset_transactions v" "entries w4 = entries v"
      "asset_lots w4 = asset_lots w" "hold_lots w4 = hold_lots w" "balances w4 = balances w3"
      "holds w4 = update_where (\<lambda>g. hd_ID g = hd_ID h) (settled_hold commit (hc_Action cmd) h x) (holds v)"
    using mv(2) w by (simp_all add: up core_iff)
  have txs: "asset_transactions we = asset_transactions v" using we w4 by (simp add: core_iff)
  note vt = add_row_ok [OF v cr(2) [unfolded txs] cr(3)]
  let ?v = "v\<lparr>asset_transactions := asset_transactions v @ [?row]\<rparr>"
  have same: "accounts w6 = accounts v" "asset_transactions w6 = asset_transactions v @ [?row]" "entries w6 = entries v @ es"
      "asset_lots w6 = asset_lots w" "hold_lots w6 = hold_lots w" "balances w6 = balances w3" "holds w6 = holds w4"
    using we w4 txs by (simp_all add: ce cr(1) core_iff)
  have keys: "(acc_ID cu, ''available'') \<in> bal_key ` set (balances v)" "(acc_ID cu, ''frozen'') \<in> bal_key ` set (balances v)"
      "(acc_ID co, ''available'') \<in> bal_key ` set (balances v)" using b by (metis imageI)+
  have "ledger_ok w6"
  proof (rule ledger_post [where v = ?v and es = es and i = "atx_ID ?row"])
    show "ledger_ok ?v" using vt(1) by (simp add: member_ok_def)
    show "moves (delta_of es) (balances ?v) (balances w6)" using mv(1) by (simp add: he(4) same(6))
    fix e assume e: "e \<in> set es"
    have "ent_key e \<in> bal_key ` set (balances v)"
      using conjunct2 [OF he(2) [OF e]] keys by (elim insertE emptyE) (simp_all only:)
    then show "ent_TransactionID e = atx_ID ?row \<and> ent_key e \<in> bal_key ` set (balances ?v)"
      using he(2) [OF e] by simp
  qed (use vt(2) he(3) same in auto)
  moreover have "lots_ok w6"
    using mv(1) st same by (intro lots_settle [OF lok _ _ keys b(8,7)]) simp_all
  moreover have "holds_ok w6"
    using st same w4(7) am h by (intro holds_settle [OF hok h(1), of _ commit "hc_Action cmd" x]) simp_all
  ultimately have w6: "member_ok w6" by (simp add: member_ok_def)
  have w': "core w' = core w6" using core_frames(3) [OF au] core_frames(4) [OF ob] by simp
  show "member_ok w'" by (rule member_core [OF w6 w'])
  show "posts v w' (settle_posts (acc_ID cu) (acc_ID co) back plat)"
    using w' same he(5) by (auto simp: posts_def core_iff)
  show "accounts w' = accounts v"
    "holds w' = update_where (\<lambda>g. hd_ID g = hd_ID h) (settled_hold commit (hc_Action cmd) h x) (holds v)"
    using w' same w4(7) by (simp_all add: core_iff)
qed

lemma ordered_allocs:
  assumes "sql_ordered (holdLotE S) p key xs = Inr found" and "distinct (map hl_ID xs)"
  shows "set found = {x \<in> set xs. p x}" "distinct (map hl_ID found)"
proof -
  have m: "mset found = mset (filter p xs)" using alloc.ordered_rows [OF assms(1)] by simp
  then show "set found = {x \<in> set xs. p x}" using mset_eq_setD [OF m] by auto
  have "distinct (map hl_ID (filter p xs))" using assms(2) by (rule distinct_map_filter)
  moreover have "mset (map hl_ID found) = mset (map hl_ID (filter p xs))" using m by simp
  ultimately show "distinct (map hl_ID found)" using mset_eq_imp_distinct_iff by blast
qed

lemma apply_fresh_ok:
  assumes run: "apply_fresh S cmd commit w = (Inr d, w')" and ok: "member_ok w"
  shows "member_ok w'" "settled_for cmd commit w w'"
proof -
  obtain h x cu co cu' v vl va vf vc wo wn w1 u av fr ca allocs now rest bk plat wt where
      take: "sql_take (holdE S) (\<lambda>h. hd_ID h = hc_HoldID cmd) (holds w) = Inr h"
    and x: "0 < x" "x \<le> i64 (i64 (hd_OriginalAmount h - hd_CommittedAmount h) - hd_ReleasedAmount h)"
    and xv: "x = (if sint (hc_Amount cmd) = 0 then i64 (i64 (hd_OriginalAmount h - hd_CommittedAmount h) - hd_ReleasedAmount h)
      else sint (hc_Amount cmd))" and nt: "hd_Status h \<notin> {''committed'', ''released'', ''expired''}"
    and gf: "x \<le> bal_Amount fr"
    and tc: "db_take (account_t S) (\<lambda>a. acc_ID a = hd_AccountID h \<and> acc_OwnerType a = ''customer'') w = (Inr cu, wt)"
    and en: "ensureAccounts S (acc_OwnerID cu) (hd_AssetType h) (hd_Unit h) wt = (Inr (cu', co), v)"
    and lk: "lock_accounts S [acc_ID cu, acc_ID co] v = (Inr u, vl)"
    and lb: "lockBalance S (acc_ID cu) ''available'' vl = (Inr av, va)" "lockBalance S (acc_ID cu) ''frozen'' va = (Inr fr, vf)"
      "lockBalance S (acc_ID co) ''available'' vf = (Inr ca, vc)"
    and al: "db_ordered (hold_lot_t S) (\<lambda>x. hl_HoldID x = hd_ID h \<and> hl_CommittedAmount x + hl_ReleasedAmount x < hl_Amount x)
        (\<lambda>x. [uint (hl_LotID x)]) vc = (Inr allocs, wo)"
    and nw: "now_utc wo = (Inr now, wn)"
    and lp: "hold_loop S commit now allocs x 0 0 wn = (Inr (rest, bk, plat), w1)" and rest: "rest = 0"
    and rec: "apply_record S cmd commit h cu co av fr ca x now bk plat w1 = (Inr d, w')"
    using run unfolding apply_fresh_def Let_def
    by (fastforce elim!: go_elims go_prodE simp: db_take_inv hold_t_def split: sum.splits)
  have hin: "h \<in> set (holds w)" using hld.take_row [OF take] by simp
  have hok: "hold_ok w h" using ok hin by (simp add: member_ok_def holds_ok_def)
  then have rem: "hd_CommittedAmount h + hd_ReleasedAmount h + x \<le> hd_OriginalAmount h" "x < 2 ^ 63"
    using x by (simp_all add: hold_ok_def)
  have cu: "cu \<in> set (accounts w)" "acc_ID cu = hd_AccountID h" "acc_OwnerType cu = ''customer''" and wt: "wt = w"
    using tc acct.take_row by (auto simp: db_take_inv account_t_def)
  note en = ensureAccounts_done [OF en, unfolded wt]
  have v: "member_ok v" using member_grows [OF ok en(1)] .
  have vl: "core vl = core v" using lk by (rule member_frame)
  have same: "holds v = holds w" "hold_lots v = hold_lots w" "asset_lots v = asset_lots w" using en(1) by (simp_all add: grows_def)
  note lb = lockBalance_done [OF lb(1)] lockBalance_done [OF lb(2)] lockBalance_done [OF lb(3)]
  have vc: "core vc = core v" using vl lb by simp
  have wo: "wo = vc" and found: "sql_ordered (holdLotE S) (\<lambda>x. hl_HoldID x = hd_ID h \<and> hl_CommittedAmount x + hl_ReleasedAmount x < hl_Amount x)
      (\<lambda>x. [uint (hl_LotID x)]) (hold_lots v) = Inr allocs"
    using al vc by (auto simp: db_ordered_inv hold_lot_t_def core_iff)
  have wn: "core wn = core v" using core_frames(2) [OF nw] vc wo by simp
  have keys: "keys_ok v" "lots_ok v" "holds_ok v" using v by (simp_all add: member_ok_def ledger_ok_def)
  have dist: "distinct (map al_ID (asset_lots v))" "list_all lot_ok (asset_lots v)" "distinct (map hl_ID (hold_lots v))"
      "list_all alloc_ok (hold_lots v)"
    using keys by (simp_all add: lots_ok_def holds_ok_def list_all_iff)
  note al = ordered_allocs [OF found dist(3)]
  have placed: "\<forall>y\<in>set allocs. hl_HoldID y = hd_ID h \<and> 0 < alloc_open y \<and>
      (hl_LotID y, acc_ID cu) \<in> (\<lambda>l. (al_ID l, al_AccountID l)) ` set (asset_lots v)"
  proof
    fix y assume "y \<in> set allocs"
    then have y: "y \<in> set (hold_lots v)" "hl_HoldID y = hd_ID h" "hl_CommittedAmount y + hl_ReleasedAmount y < hl_Amount y"
      using al(1) by auto
    then have "alloc_placed v y" using keys(3) by (simp add: holds_ok_def)
    then obtain g where g: "g \<in> set (holds v)" "hd_ID g = hd_ID h"
        "(hl_LotID y, hd_AccountID g) \<in> (\<lambda>l. (al_ID l, al_AccountID l)) ` set (asset_lots v)"
      unfolding alloc_placed_def y(2) by blast
    have "g = h" using g(1,2) hin keys(3) same(1) by (metis distinct_key_unique holds_ok_def)
    then show "hl_HoldID y = hd_ID h \<and> 0 < alloc_open y \<and>
      (hl_LotID y, acc_ID cu) \<in> (\<lambda>l. (al_ID l, al_AccountID l)) ` set (asset_lots v)"
      using g(3) y(2,3) cu(2) by (simp add: alloc_open_def)
  qed
  have "core (w1\<lparr>asset_lots := asset_lots wn, hold_lots := hold_lots wn\<rparr>) = core wn \<and>
    settles commit (hd_ID h) (acc_ID cu) (bk - 0) (plat - 0) (asset_lots wn) (hold_lots wn) (asset_lots w1) (hold_lots w1) \<and>
    (bk - 0) + (plat - 0) = x - rest \<and> 0 \<le> bk \<and> 0 \<le> plat"
    by (rule hold_loop_done [OF lp]) (use dist al placed x rem(2) wn in \<open>auto simp: core_iff\<close>)
  then have st: "core (w1\<lparr>asset_lots := asset_lots v, hold_lots := hold_lots v\<rparr>) = core v"
    "settles commit (hd_ID h) (acc_ID cu) bk plat (asset_lots v) (hold_lots v) (asset_lots w1) (hold_lots w1)"
    "bk + plat = x" "0 \<le> bk" "0 \<le> plat"
    using wn rest by (auto simp: core_iff)
  have cuv: "cu \<in> set (accounts v)" using cu(1) en(1) by (auto simp: grows_def)
  have co: "acc_ID co \<notin> customer_ids v" using platform_not_customer [OF keys(1) en(4)] en(5) by (simp add: owns_account_def)
  moreover have "acc_ID cu \<in> customer_ids v" using cuv cu(3) by (auto simp: customer_ids_def)
  ultimately have "acc_ID cu \<noteq> acc_ID co" by auto
  note ar = apply_record_ok [OF rec v st(1) _ lb(3) _ _ _ _ this co _ _ st(2,4,5,3)]
  have fin: "member_ok w' \<and> posts v w' (settle_posts (acc_ID cu) (acc_ID co) bk plat) \<and> accounts w' = accounts v \<and>
      holds w' = update_where (\<lambda>g. hd_ID g = hd_ID h) (settled_hold commit (hc_Action cmd) h x) (holds v)"
    using ar lb vl hin same x(1) rem by (simp add: core_iff)
  then show "member_ok w'" ..
  have kw: "keys_ok w" using ok by (simp add: member_ok_def ledger_ok_def)
  obtain c t n where key: "owner_key cu = cust c t n" using cu(3) by (simp add: owner_key_def)
  have keyc: "owner_key co = platform (hd_AssetType h) (hd_Unit h)" using en(5) by (simp add: owner_key_owns)
  have "holding v (owner_key cu, ''frozen'') = bal_Amount fr"
    using lb vl by (intro holding_at [OF keys(1) cuv]) (simp_all add: core_iff)
  then have "x \<le> holding w (cust c t n, ''frozen'')" using gf holding_grows [OF kw en(1)] key by simp
  moreover have "owned_by w' (cust c t n) (hd_AccountID h)" "owned_by w' (platform (hd_AssetType h) (hd_Unit h)) (acc_ID co)"
    using fin cuv en(4) cu(2) owned_by_key [OF _ key, of w'] owned_by_key [OF _ keyc, of w'] by simp_all
  moreover have "posts w w' (settle_posts (hd_AccountID h) (acc_ID co) bk plat)" using fin posts_grows [OF en(1)] cu(2) by simp
  moreover have "commit \<longrightarrow> bk = 0" using lp hold_loop_commit by (cases commit) auto
  moreover have "x = (if sint (hc_Amount cmd) = 0
       then hd_OriginalAmount h - hd_CommittedAmount h - hd_ReleasedAmount h else sint (hc_Amount cmd))"
    using xv hok by (simp add: hold_ok_def)
  moreover have "hd_ID h = hc_HoldID cmd" using hld.take_row [OF take] by simp
  ultimately show "settled_for cmd commit w w'"
    using hin nt fin st(3-5) x(1) rem(1) same(1) unfolding settled_for_def
    by (intro exI [of _ h] exI [of _ c] exI [of _ t] exI [of _ n] exI [of _ "hd_AccountID h"] exI [of _ "acc_ID co"]
        exI [of _ bk] exI [of _ plat]) simp
qed

lemma apply_in_transaction_cases:
  assumes "apply_in_transaction S cmd commit w = (Inr d, w')"
  obtains (fresh) "sql_take (transactionE S) (by_source (hc_SourceType cmd) (hc_SourceID cmd) (hc_Action cmd)) (asset_transactions w) =
      Inl ErrRecordNotFound" "apply_fresh S cmd commit w = (Inr d, w')"
  | (replay) t where "t \<in> set (asset_transactions w)" "by_source (hc_SourceType cmd) (hc_SourceID cmd) (hc_Action cmd) t" "core w' = core w"
proof -
  consider (a) "sql_take (transactionE S) (by_source (hc_SourceType cmd) (hc_SourceID cmd) (hc_Action cmd)) (asset_transactions w) =
      Inl ErrRecordNotFound" "apply_fresh S cmd commit w = (Inr d, w')"
    | (b) t i where "sql_take (transactionE S) (by_source (hc_SourceType cmd) (hc_SourceID cmd) (hc_Action cmd)) (asset_transactions w) = Inr t"
        "transactionDTO S t i JNull w = (Inr d, w')"
    using assms unfolding apply_in_transaction_def
    by (auto elim!: go_elims simp: db_take_inv db_find_inv transaction_t_def split: sum.splits if_splits)
  then show thesis
  proof cases
    case a
    then show thesis by (rule fresh)
  next
    case b
    then show thesis using replay txn.take_row [OF b(1)] core_frames(8) [OF b(2)] by blast
  qed
qed

lemma applyHold_ok:
  assumes run: "applyHold S cmd commit w = (r, w')" and ok: "member_ok w"
  shows "member_ok w'"
proof -
  have inner: "member_ok v" if in_tx: "apply_in_transaction S cmd commit w = (Inr d, v)" for d v
    using in_tx apply_fresh_ok(1) [OF _ ok] member_core [OF ok] by (cases rule: apply_in_transaction_cases) auto
  show ?thesis
    using run ok inner transaction_ok [of "env_commit S" "apply_in_transaction S cmd commit" w r w']
    by (auto simp: applyHold_def split: if_splits)
qed

lemma expire_lot_effects_ok:
  assumes run: "expire_lot_effects S cu co av ca l w = (Inr d, w')" and v: "member_ok w"
    and b: "av \<in> set (balances w)" "bal_key av = (acc_ID cu, ''available'')"
      "ca \<in> set (balances w)" "bal_key ca = (acc_ID co, ''available'')" "acc_ID cu \<noteq> acc_ID co" "acc_ID co \<notin> customer_ids w"
    and l: "l \<in> set (asset_lots w)" "al_AccountID l = acc_ID cu" "0 < al_AvailableAmount l"
  shows "member_ok w'" "accounts w' = accounts w" "al_AvailableAmount l \<le> bal_Amount av" "d"
    "posts w w' [((acc_ID cu, ''available''), - al_AvailableAmount l), ((acc_ID co, ''available''), al_AvailableAmount l)]"
proof -
  let ?x = "al_AvailableAmount l"
  have led: "ledger_ok w" and hok: "holds_ok w" and lok: "lots_ok w" using v by (simp_all add: member_ok_def)
  have lotok: "lot_ok l" and lids: "distinct (map al_ID (asset_lots w))" using lok l(1) by (simp_all add: lots_ok_def)
  then have small: "?x < 2 ^ 63" by (simp add: lot_ok_def asset_lot_fits_def)
  then have neg: "i64 (- ?x) = - ?x" using l(3) by simp
  obtain w1 w2 w3 wn wi wj wa wb w4 w5 n now i j e1 e2 u1 u2 u3 u4 u5 where
      s1: "setBalance S (bal_ID av) (i64 (bal_Amount av + - ?x)) w = (Inr u1, w1)"
    and s2: "setBalance S (bal_ID ca) (i64 (bal_Amount ca + ?x)) w1 = (Inr u2, w2)"
    and up: "db_updates (lot_t S) (\<lambda>z. al_ID z = al_ID l)
          (\<lambda>z. z\<lparr>al_AvailableAmount := 0, al_ExpiredAmount := al_ExpiredAmount z + ?x, al_Status := ''expired'',
                al_Version := al_Version z + 1\<rparr>) w2 = (Inr n, w3)"
    and ids: "now_utc w3 = (Inr now, wn)" "next_id wn = (Inr i, wi)" "next_id wi = (Inr j, wj)"
    and e1: "new_entry (atx_ID (expire_lot_row S cu l ?x i j now)) 1 (acc_ID cu) ''available'' (- ?x) (i64 (bal_Amount av + - ?x)) wj = (Inr e1, wa)"
    and e2: "new_entry (atx_ID (expire_lot_row S cu l ?x i j now)) 2 (acc_ID co) ''available'' ?x (i64 (bal_Amount ca + ?x)) wa = (Inr e2, wb)"
    and cr: "create_mapped (transaction_t S) (expire_lot_row S cu l ?x i j now) wb = (Inr u3, w4)"
    and ce: "db_create_all (entry_t S) [e1, e2] w4 = (Inr u4, w5)"
    and ob: "create_outbox S ''asset.lot.expired'' (al_ID l)
          (JObject [(''lot_id'', JString (idString (al_ID l))), (''amount'', JInt ?x)]) w5 = (Inr u5, w')"
    and gd: "\<not> bal_Amount av < ?x" "d"
    using run unfolding expire_lot_effects_def Let_def neg unfolding diff_conv_add_uminus by (elim go_elims) simp
  let ?row = "expire_lot_row S cu l ?x i j now"
  define g where "g = (\<lambda>z::AssetLot. z\<lparr>al_AvailableAmount := 0, al_ExpiredAmount := al_ExpiredAmount z + ?x, al_Status := ''expired'',
                al_Version := al_Version z + 1\<rparr>)"
  define rows where "rows = update_where (\<lambda>z. al_ID z = al_ID l) g (asset_lots w)"
  have dist: "distinct (map bal_ID (balances w))" "distinct (map bal_key (balances w))"
    using led by (simp_all add: ledger_ok_def keys_ok_def)
  note m1 = setBalance_moves [OF s1 moves_refl [OF ledger_int64 [OF led]] b(1) dist]
  note m2 = setBalance_moves [OF s2 m1(1) b(3) dist]
  have w2: "core (w2\<lparr>balances := balances w\<rparr>) = core w" by (subst m2(2), subst m1(2)) (simp add: core_def)
  have w3: "w3 = w2\<lparr>asset_lots := rows\<rparr>" using lot_update_done [OF up] w2 by (simp add: rows_def g_def core_iff)
  note e1 = new_entry_done [OF e1] and e2 = new_entry_done [OF e2]
  have wb: "core wb = core w3" using e1(1) e2(1) core_frames(1,2) ids by metis
  note cr = create_transaction_done [OF cr] and ce = entries_done [OF ce]
  have txs: "asset_transactions wb = asset_transactions w" using wb w2 w3 by (simp add: core_iff)
  note vt = add_row_ok [OF v cr(2) [unfolded txs] cr(3)]
  let ?v = "w\<lparr>asset_transactions := asset_transactions w @ [?row]\<rparr>"
  have same: "accounts w5 = accounts w" "asset_transactions w5 = asset_transactions w @ [?row]" "entries w5 = entries w @ [e1, e2]"
      "asset_lots w5 = rows" "balances w5 = balances w2" "holds w5 = holds w" "hold_lots w5 = hold_lots w"
    using wb w2 txs by (simp_all add: ce cr(1) w3 core_iff)
  have keys: "(acc_ID cu, ''available'') \<in> bal_key ` set (balances w)" "(acc_ID co, ''available'') \<in> bal_key ` set (balances w)"
    using b by (metis imageI)+
  have mv: "moves (pair_delta (acc_ID cu) ''available'' (acc_ID co) ''available'' (- ?x)) (balances w) (balances w5)"
    using m2(1) by (simp add: b(2,4) same)
  have es: "pair_entries (atx_ID ?row) (acc_ID cu) ''available'' (acc_ID co) ''available'' (- ?x) [e1, e2]"
    using e1 e2 by (simp add: pair_entries_def)
  have led5: "ledger_ok w5"
    by (rule ledger_pair [where v = ?v, OF _ _ _ _ _ es])
      (use vt keys mv same b(5) in \<open>simp_all add: member_ok_def\<close>)
  have kept: "lots_kept (asset_lots w) rows"
    unfolding rows_def using lids l(1) lotok by (intro lots_kept_update) (auto simp: g_def lot_ok_def asset_lot_fits_def)
  have sums: "lot_sum al_AvailableAmount (of_account c) rows =
      lot_sum al_AvailableAmount (of_account c) (asset_lots w) + (if c = acc_ID cu then - ?x else 0)" for c
    unfolding rows_def using lot_sum_update [OF lids l(1), of "of_account c" g al_AvailableAmount] l(2) by (simp add: g_def)
  have "map al_FrozenAmount rows = map al_FrozenAmount (asset_lots w)"
    unfolding rows_def by (rule map_update_where) (simp add: g_def)
  then have "member_ok w5"
    by (intro member_pair_kept [OF v led5 same(1) mv keys b(6) same(6,7)]) (simp_all add: same(4) kept sums)
  then show "member_ok w'" using core_frames(4) [OF ob] member_core [of w5 w'] by simp
  have "core w' = core w5" using core_frames(4) [OF ob] .
  then show "accounts w' = accounts w" "al_AvailableAmount l \<le> bal_Amount av" "d"
    "posts w w' [((acc_ID cu, ''available''), - ?x), ((acc_ID co, ''available''), ?x)]"
    using posts_pair [OF es, of w' w] same gd by (simp_all add: core_iff)
qed

lemma take_or_stopE:
  assumes "take_or_stop T p k w = (Inr d, w')"
  obtains "w' = w" "d = False" | r where "sql_take (tbl_engine T) p (tbl_rows T w) = Inr r" "k r w = (Inr d, w')"
  using assms unfolding take_or_stop_def
  by (auto elim!: go_elims simp: db_take_inv split: sum.splits if_splits)

lemma expire_lot_ok:
  assumes run: "expire_lot_in_transaction S i w = (Inr d, w')" and ok: "member_ok w"
  shows "member_ok w' \<and> (if d then lot_expired i w w' else posts w w' [])"
proof -
  obtain now0 w0 where now0: "now_utc w = (Inr now0, w0)" and start: "take_or_stop (lot_t S) (\<lambda>l. al_ID l = i \<and> lot_due now0 l) (\<lambda>lot0.
     go_bind (db_take (account_t S) (\<lambda>a. acc_ID a = al_AccountID lot0 \<and> acc_OwnerType a = ''customer'')) (\<lambda>customer.
     go_bind (ensureAccounts S (acc_OwnerID customer) (acc_AssetType customer) (acc_Unit customer)) (\<lambda>(_, control).
     go_bind (lock_accounts S [acc_ID customer, acc_ID control]) (\<lambda>_.
     go_bind (lockBalance S (acc_ID customer) ''available'') (\<lambda>available.
     go_bind (lockBalance S (acc_ID control) ''available'') (\<lambda>controlBalance.
     go_bind now_utc (\<lambda>now1.
     take_or_stop (lot_t S) (\<lambda>l. al_ID l = i \<and> lot_due now1 l \<and> \<not> env_locked S (al_ID l)) (\<lambda>lot.
     expire_lot_effects S customer control available controlBalance lot)))))))) w0 = (Inr d, w')"
    using run unfolding expire_lot_in_transaction_def by (elim go_bindE) simp
  have w0: "w0 = w" using now0 by (simp add: now_utc_def go_call_inv)
  from start show ?thesis
  proof (cases rule: take_or_stopE)
    case 1
    then show ?thesis using ok w0 posts_none [of w w] by simp
  next
    case (2 l0)
    obtain cu cu' co v vl va vc vn av ca u wt now1 where
        tc: "db_take (account_t S) (\<lambda>a. acc_ID a = al_AccountID l0 \<and> acc_OwnerType a = ''customer'') w0 = (Inr cu, wt)"
      and en: "ensureAccounts S (acc_OwnerID cu) (acc_AssetType cu) (acc_Unit cu) wt = (Inr (cu', co), v)"
      and lk: "lock_accounts S [acc_ID cu, acc_ID co] v = (Inr u, vl)"
      and lb: "lockBalance S (acc_ID cu) ''available'' vl = (Inr av, va)" "lockBalance S (acc_ID co) ''available'' va = (Inr ca, vc)"
      and nw: "now_utc vc = (Inr now1, vn)"
      and fin: "take_or_stop (lot_t S) (\<lambda>l. al_ID l = i \<and> lot_due now1 l \<and> \<not> env_locked S (al_ID l))
          (expire_lot_effects S cu co av ca) vn = (Inr d, w')"
      using 2(2) by (elim go_bindE go_prodE) simp
    have l0: "l0 \<in> set (asset_lots w)" "al_ID l0 = i" "lot_due (mw_wall w) l0"
      using 2(1) lot.take_row w0 now0 by (auto simp: lot_t_def now_utc_def go_call_inv)
    have cu: "cu \<in> set (accounts w)" "acc_ID cu = al_AccountID l0" "acc_OwnerType cu = ''customer''" and wt: "wt = w"
      using tc acct.take_row w0 by (auto simp: db_take_inv account_t_def)
    note en = ensureAccounts_done [OF en, unfolded wt]
    have v: "member_ok v" using member_grows [OF ok en(1)] .
    note lb = lockBalance_done [OF lb(1)] lockBalance_done [OF lb(2)]
    have vn: "core vn = core v" using core_frames(7) [OF lk] lb core_frames(2) [OF nw] by simp
    have okn: "member_ok vn" using member_core [OF v vn] .
    have keys: "keys_ok v" using v by (simp add: member_ok_def ledger_ok_def)
    from fin show ?thesis
    proof (cases rule: take_or_stopE)
      case 1
      have "grows w vn" using grows_trans [OF en(1) grows_core [OF vn]] .
      then show ?thesis using 1 okn posts_none by auto
    next
      case (2 l)
      have l: "l \<in> set (asset_lots vn)" "al_ID l = i" "0 < al_AvailableAmount l"
        using 2(1) lot.take_row by (auto simp: lot_t_def lot_due_def)
      have "asset_lots vn = asset_lots w" using vn en(1) by (simp add: core_iff grows_def)
      then have ll: "l = l0" using l l0 ok by (metis distinct_key_unique lots_ok_def member_ok_def)
      have cid: "acc_ID co \<notin> customer_ids vn" "acc_ID cu \<in> customer_ids vn"
        using platform_not_customer [OF keys en(4)] en(1,5) vn cu(1,3)
        by (auto simp: owns_account_def core_iff customer_ids_def grows_def)
      then have ne: "acc_ID cu \<noteq> acc_ID co" by auto
      have lbn: "av \<in> set (balances vn)" "ca \<in> set (balances vn)" using lb vn core_frames(7) [OF lk] by (auto simp: core_iff)
      have eff: "member_ok w'" "accounts w' = accounts vn" "al_AvailableAmount l \<le> bal_Amount av" "d"
        "posts vn w' [((acc_ID cu, ''available''), - al_AvailableAmount l), ((acc_ID co, ''available''), al_AvailableAmount l)]"
        using expire_lot_effects_ok [OF 2(2) okn lbn(1) lb(3) lbn(2) lb(6) ne cid(1) l(1) _ l(3)] cu(2) ll by simp_all
      obtain c t n where key: "owner_key cu = cust c t n" "acc_OwnerID cu = c" "acc_AssetType cu = t" "acc_Unit cu = n"
        using cu(3) by (simp add: owner_key_def)
      have keyc: "owner_key co = platform t n" using en(5) key by (simp add: owner_key_owns)
      have acc: "cu \<in> set (accounts w')" "co \<in> set (accounts w')" using cu(1) en(1,4) vn eff(2) by (auto simp: core_iff grows_def)
      have gr: "grows w vn" using grows_trans [OF en(1) grows_core [OF vn]] .
      have kw: "keys_ok w" "keys_ok vn" using ok okn by (simp_all add: member_ok_def ledger_ok_def)
      have "holding vn (owner_key cu, ''available'') = bal_Amount av"
        using acc(1) eff(2) lb(3) lbn(1) by (intro holding_at [OF kw(2)]) simp_all
      then have "al_AvailableAmount l0 \<le> holding w (cust c t n, ''available'')"
        using eff(3) holding_grows [OF kw(1) gr] key ll by simp
      moreover have own: "owned_by w' (cust c t n) (al_AccountID l0)" "owned_by w' (platform t n) (acc_ID co)"
        using owned_by_key [OF acc(1) key(1)] owned_by_key [OF acc(2) keyc] cu(2) by simp_all
      moreover have "paid w w' c t n (- al_AvailableAmount l0)"
        unfolding paid_def using own posts_grows [OF gr eff(5)] cu(2) ll by auto
      ultimately have "lot_expired i w w'" using l0 unfolding lot_expired_def by blast
      then show ?thesis using eff(1,4) by simp
    qed
  qed
qed

lemma expireLot_ok: "expireLot S i w = (r, w') \<Longrightarrow> member_ok w \<Longrightarrow> member_ok w'"
  unfolding expireLot_def using transaction_ok expire_lot_ok by metis

lemma expire_lots_ok: "expire_lots_loop S ids n w = (r, w') \<Longrightarrow> member_ok w \<Longrightarrow> member_ok w'"
  by (induction ids arbitrary: n w) (auto split: prod.splits sum.splits dest: expireLot_ok)

lemma ExpireDueLots_ok: "ExpireDueLots S limit w = (r, w') \<Longrightarrow> member_ok w \<Longrightarrow> member_ok w'"
  by (auto simp: ExpireDueLots_def Let_def db_ordered_def dest: expire_lots_ok split: if_splits sum.splits prod.splits)

lemma expire_holds_ok: "expire_holds_loop S ids n w = (r, w') \<Longrightarrow> member_ok w \<Longrightarrow> member_ok w'"
  by (induction ids arbitrary: n w)
    (auto simp: expireHold_def Let_def split: prod.splits sum.splits if_splits dest: applyHold_ok)

lemma ExpireDueHolds_ok: "ExpireDueHolds S limit w = (r, w') \<Longrightarrow> member_ok w \<Longrightarrow> member_ok w'"
  by (auto simp: ExpireDueHolds_def Let_def db_ordered_def dest: expire_holds_ok split: if_splits sum.splits prod.splits)

end

end
