(* ===== verification/Member_Effects.thy ===== *)
theory Member_Effects
  imports Member_Settlement
begin

text \<open>
  What each operation of the member asset service did when it returns: nothing (an error or a replay),
  or exactly one movement between holdings. The abstract machine \<open>member_spec\<close> knows holdings only.
\<close>

subsection \<open>Outcomes\<close>

lemma transaction_failed_core: "gorm_transaction commit restore_member m w = (Inl e, w') \<Longrightarrow> core w' = core w"
  by (auto simp: restore_member_def core_def dest: gorm_transaction_error)

lemma guarded_transaction:
  assumes "(if c then go_err e else gorm_transaction commit restore_member m) w = (r, w')"
  obtains (unchanged) "core w' = core w" "\<forall>a. r \<noteq> Inr a" | (ok) a where "r = Inr a" "m w = (Inr a, w')"
  using assms
  by (cases r) (auto simp: gorm_transaction_success split: if_splits dest: transaction_failed_core)

lemma transactionDTO_id: "transactionDTO S t i j w = (Inr d, w') \<Longrightarrow> td_ID d = idString (atx_ID t)"
  unfolding transactionDTO_def Let_def
  by (auto elim!: go_elims simp: dtoFromTransaction_def split: list.splits)

context member_store
begin

lemma post_recover_replay:
  assumes "post_recover S cmd e w = (Inr d, w')"
  shows "\<exists>t\<in>set (asset_transactions w). by_source (cm_SourceType cmd) (cm_SourceID cmd) (cm_Action cmd) t \<and>
    atx_RequestHash t = transfer_hash S cmd \<and> td_ID d = idString (atx_ID t)"
  using assms txn.take_row unfolding post_recover_def
  by (fastforce elim!: go_elims simp: db_take_inv transaction_t_def dest!: transactionDTO_id split: sum.splits if_splits)

lemma postTransfer_cases:
  assumes run: "postTransferWithDB S cmd direction ro w = (r, w')" and ok: "member_ok w"
    and dir: "direction = 1 \<or> direction = -1"
  obtains (failed) e where "r = Inl e" "core w' = core w"
  | (replay) d at t where "r = Inr d" "core w' = core w" "t \<in> set (asset_transactions w)"
      "by_source (cm_SourceType cmd) (cm_SourceID cmd) (cm_Action cmd) t"
      "atx_RequestHash t = transfer_hash S (cmd\<lparr>cm_OccurredAt := at\<rparr>)" "td_ID d = idString (atx_ID t)"
  | (fresh) d at where "r = Inr d" "validateCommand cmd direction = None"
      "\<And>t. t \<in> set (asset_transactions w) \<Longrightarrow> \<not> by_source (cm_SourceType cmd) (cm_SourceID cmd) (cm_Action cmd) t"
      "posted S (cmd\<lparr>cm_OccurredAt := at\<rparr>) (sint (cm_Amount cmd) * direction) ro d w w'"
proof (cases "env_WriteEnabled S \<and> validateCommand cmd direction = None")
  case False
  then show thesis using run by (auto simp: postTransferWithDB_def split: option.splits if_splits intro: failed)
next
  case True
  define at where "at = (if cm_OccurredAt cmd = 0 then mw_wall w else cm_OccurredAt cmd)"
  let ?c = "cmd\<lparr>cm_OccurredAt := at\<rparr>"
  obtain res w1 where tx: "gorm_transaction (env_commit S) restore_member (post_in_transaction S ?c direction ro) w = (res, w1)"
    by (cases "gorm_transaction (env_commit S) restore_member (post_in_transaction S ?c direction ro) w")
  have alt: "(\<exists>d. res = Inr d \<and> r = Inr d \<and> w' = w1) \<or> (\<exists>e. res = Inl e \<and> (r = Inl e \<and> w' = w1 \<or> post_recover S ?c e w1 = (r, w')))"
    using run True tx by (cases res) (auto simp: postTransferWithDB_def go_eval now_utc_def at_def Let_def split: if_splits)
  show thesis
  proof (cases res)
    case (Inl e)
    then have w1: "core w1 = core w" using tx transaction_failed_core by blast
    from alt Inl consider "r = Inl e" "w' = w1" | "post_recover S ?c e w1 = (r, w')" by auto
    then show thesis
    proof cases
      case 1
      then show thesis using failed w1 by simp
    next
      case 2
      then have w': "core w' = core w" using go_keepsD [OF keeps_core_recover _ refl] w1 by metis
      show thesis
      proof (cases r)
        case (Inl e')
        then show thesis using failed w' by blast
      next
        case (Inr d)
        have "post_recover S ?c e w1 = (Inr d, w')" using 2 Inr by simp
        from post_recover_replay [OF this] show thesis using Inr w' w1 by (auto simp: core_iff intro: replay)
      qed
    qed
  next
    case (Inr d)
    then have r: "r = Inr d" "w' = w1" using alt by auto
    have "post_in_transaction S ?c direction ro w = (Inr d, w')" using tx Inr r by (simp add: gorm_transaction_success)
    then show thesis
    proof (cases rule: post_in_transaction_cases)
      case fresh
      have "0 < sint (cm_Amount ?c)" using True validated_amount [of cmd direction] by simp
      note posted = post_fresh_ok(2) [OF fresh(2) ok dir this]
      show thesis
      proof (rule that(3) [OF r(1)])
        show "validateCommand cmd direction = None" using True by blast
        show "\<not> by_source (cm_SourceType cmd) (cm_SourceID cmd) (cm_Action cmd) t" if "t \<in> set (asset_transactions w)" for t
          using txn.take_missing [OF fresh(1) that] by simp
        show "posted S ?c (sint (cm_Amount cmd) * direction) ro d w w'" using posted by simp
      qed
    next
      case (replay t)
      then show thesis using r core_frames(8) that(2) [of d t at] transactionDTO_id by simp
    qed
  qed
qed

lemma Reverse_cases:
  assumes run: "Reverse S cmd w = (r, w')" and ok: "member_ok w"
  obtains (unchanged) "core w' = core w"
  | (fresh) original account amount where "original \<in> set (asset_transactions w)"
      "atx_ID original = rv_OriginalTransactionID cmd" "atx_Action original \<in> {''credit'', ''debit''}"
      "amount = (if sint (rv_Amount cmd) = 0 then atx_Amount original else sint (rv_Amount cmd))"
      "0 < amount" "i64 (reversed_sum w (atx_ID original) + amount) \<le> atx_Amount original"
      "posted_reversal S cmd original account amount w w'"
proof -
  have "core w' = core w \<or> (\<exists>d. reverse_in_transaction S cmd w = (Inr d, w'))"
    using run by (auto simp: Reverse_def split: if_splits elim!: guarded_transaction [where c = False, simplified])
  then show thesis
  proof
    assume "\<exists>d. reverse_in_transaction S cmd w = (Inr d, w')"
    then obtain d where "reverse_in_transaction S cmd w = (Inr d, w')" ..
    from this ok show thesis by (cases rule: reverse_in_transaction_cases) (use unchanged fresh in blast)+
  qed (rule unchanged)
qed

lemma Freeze_cases:
  assumes run: "asset_Freeze S cmd w = (r, w')" and ok: "member_ok w"
  obtains (unchanged) "core w' = core w"
  | (fresh) d where "r = Inr d" "frozen_for (cmd\<lparr>cm_Action := ''freeze''\<rparr>) d w w'" "validateCommand (cmd\<lparr>cm_Action := ''freeze''\<rparr>) (-1) = None"
      "\<And>h. h \<in> set (holds w) \<Longrightarrow> hd_ReservationKey h \<noteq> fz_ReservationKey cmd"
proof -
  let ?c = "cmd\<lparr>cm_Action := ''freeze''\<rparr>"
  have "core w' = core w \<or> (\<exists>d. r = Inr d \<and> freeze_in_transaction S ?c w = (Inr d, w') \<and> validateCommand ?c (-1) = None)"
    using run by (auto simp: asset_Freeze_def Let_def split: if_splits option.splits elim!: guarded_transaction [where c = False, simplified])
  then show thesis
  proof
    assume "\<exists>d. r = Inr d \<and> freeze_in_transaction S ?c w = (Inr d, w') \<and> validateCommand ?c (-1) = None"
    then obtain d where d: "r = Inr d" "freeze_in_transaction S ?c w = (Inr d, w')" "validateCommand ?c (-1) = None" by blast
    from d(2) show thesis
    proof (cases rule: freeze_in_transaction_cases)
      case fresh
      note frozen = freeze_fresh_ok(2) [OF fresh(2) ok validated_amount [OF d(3)]]
      show thesis using that(2) [OF d(1) frozen d(3)] hld.take_missing [OF fresh(1)] by simp
    next
      case (replay h)
      then show thesis using unchanged by simp
    qed
  qed (rule unchanged)
qed

lemma applyHold_cases:
  assumes run: "applyHold S cmd commit w = (r, w')" and ok: "member_ok w"
  obtains (unchanged) "core w' = core w" | (fresh) d where "r = Inr d" "settled_for cmd commit w w'"
      "\<And>t. t \<in> set (asset_transactions w) \<Longrightarrow> \<not> by_source (hc_SourceType cmd) (hc_SourceID cmd) (hc_Action cmd) t"
proof -
  have "core w' = core w \<or> (\<exists>d. r = Inr d \<and> apply_in_transaction S cmd commit w = (Inr d, w'))"
    using run by (auto simp: applyHold_def split: if_splits elim!: guarded_transaction [where c = False, simplified])
  then show thesis
  proof
    assume "\<exists>d. r = Inr d \<and> apply_in_transaction S cmd commit w = (Inr d, w')"
    then obtain d where d: "r = Inr d" "apply_in_transaction S cmd commit w = (Inr d, w')" by blast
    from d(2) show thesis
    proof (cases rule: apply_in_transaction_cases)
      case fresh
      then show thesis using that(2) [OF d(1)] apply_fresh_ok(2) [OF _ ok] txn.take_missing by blast
    next
      case (replay t)
      then show thesis using unchanged by simp
    qed
  qed (rule unchanged)
qed

lemma expireLot_cases:
  assumes run: "expireLot S i w = (r, w')" and ok: "member_ok w"
  obtains (unchanged) "posts w w' []" "r \<noteq> Inr True" | (expired) "r = Inr True" "lot_expired i w w'"
  using run
proof (cases r)
  case (Inl e)
  then have "core w' = core w" using run transaction_failed_core by (simp add: expireLot_def)
  then show thesis using Inl posts_none [OF grows_core] unchanged by blast
next
  case (Inr d)
  then have "expire_lot_in_transaction S i w = (Inr d, w')" using run by (simp add: expireLot_def gorm_transaction_success)
  from expire_lot_ok [OF this ok] show thesis using Inr unchanged expired by (cases d) auto
qed

end

subsection \<open>The abstract machine\<close>

type_synonym holdings = "holding_key \<Rightarrow> int"

text \<open>\<open>shift a b n h\<close> moves \<open>n\<close> units from \<open>a\<close> to \<open>b\<close>, in the 64 bits of a balance.\<close>

definition shift :: "holding_key \<Rightarrow> holding_key \<Rightarrow> int \<Rightarrow> holdings \<Rightarrow> holdings" where
  "shift a b n h = h(a := i64 (h a - n), b := i64 (h b + n))"

abbreviation available_of :: "uint64 \<Rightarrow> string \<Rightarrow> string \<Rightarrow> holding_key" where
  "available_of c t n \<equiv> (cust c t n, ''available'')"

abbreviation frozen_key :: "uint64 \<Rightarrow> string \<Rightarrow> string \<Rightarrow> holding_key" where
  "frozen_key c t n \<equiv> (cust c t n, ''frozen'')"

abbreviation control_of :: "string \<Rightarrow> string \<Rightarrow> holding_key" where
  "control_of t n \<equiv> (platform t n, ''available'')"

datatype member_op =
    OpCredit Command
  | OpDebit Command
  | OpReverse ReverseCommand
  | OpFreezeAsset FreezeCommand
  | OpCommit HoldCommand
  | OpRelease HoldCommand
  | OpExpireLots int
  | OpExpireHolds int

text \<open>What the specification allows. Nothing leaves a holding that does not cover it; a credit, a debit and a
  reversal stay within the range of both balances.\<close>

inductive member_spec :: "member_op \<Rightarrow> holdings \<Rightarrow> holdings \<Rightarrow> bool" where
  unchanged: "member_spec op h h"
| credit: "0 < x \<Longrightarrow> x = sint (cm_Amount cmd) \<Longrightarrow> a = control_of (cm_AssetType cmd) (cm_Unit cmd) \<Longrightarrow>
    b = available_of (cm_CustomerID cmd) (cm_AssetType cmd) (cm_Unit cmd) \<Longrightarrow>
    h a - x \<ge> - (2 ^ 63) \<Longrightarrow> h b + x < 2 ^ 63 \<Longrightarrow> member_spec (OpCredit cmd) h (shift a b x h)"
| debit: "0 < x \<Longrightarrow> x = sint (cm_Amount cmd) \<Longrightarrow> a = available_of (cm_CustomerID cmd) (cm_AssetType cmd) (cm_Unit cmd) \<Longrightarrow>
    b = control_of (cm_AssetType cmd) (cm_Unit cmd) \<Longrightarrow> x \<le> h a \<Longrightarrow> h b + x < 2 ^ 63 \<Longrightarrow>
    member_spec (OpDebit cmd) h (shift a b x h)"
| reverse_debit: "0 < x \<Longrightarrow> h (control_of t n) - x \<ge> - (2 ^ 63) \<Longrightarrow> h (available_of c t n) + x < 2 ^ 63 \<Longrightarrow>
    member_spec (OpReverse cmd) h (shift (control_of t n) (available_of c t n) x h)"
| reverse_credit: "0 < x \<Longrightarrow> x \<le> h (available_of c t n) \<Longrightarrow> h (control_of t n) + x < 2 ^ 63 \<Longrightarrow>
    member_spec (OpReverse cmd) h (shift (available_of c t n) (control_of t n) x h)"
| freeze: "0 < x \<Longrightarrow> x = sint (cm_Amount cmd) \<Longrightarrow> a = available_of (cm_CustomerID cmd) (cm_AssetType cmd) (cm_Unit cmd) \<Longrightarrow>
    b = frozen_key (cm_CustomerID cmd) (cm_AssetType cmd) (cm_Unit cmd) \<Longrightarrow> x \<le> h a \<Longrightarrow>
    member_spec (OpFreezeAsset cmd) h (shift a b x h)"
| commit: "0 < x \<Longrightarrow> x \<le> h (frozen_key c t n) \<Longrightarrow>
    member_spec (OpCommit cmd) h (shift (frozen_key c t n) (control_of t' n') x h)"
| release: "0 \<le> x \<Longrightarrow> 0 \<le> y \<Longrightarrow> 0 < x + y \<Longrightarrow> x + y \<le> h (frozen_key c t n) \<Longrightarrow>
    op = OpRelease cmd \<or> op = OpExpireHolds limit \<Longrightarrow>
    member_spec op h (shift (frozen_key c t n) (control_of t' n') y (shift (frozen_key c t n) (available_of c t n) x h))"
| expire: "0 < x \<Longrightarrow> x \<le> h (available_of c t n) \<Longrightarrow>
    member_spec (OpExpireLots limit) h (shift (available_of c t n) (control_of t n) x h)"
| batch: "op = OpExpireLots limit \<or> op = OpExpireHolds limit \<Longrightarrow> member_spec op h h' \<Longrightarrow> member_spec op h' h'' \<Longrightarrow>
    member_spec op h h''"

lemma holding_i64: "ledger_ok w \<Longrightarrow> i64 (holding w kb) = holding w kb"
  by (simp add: holding_entries)

lemma holding_same: "ledger_ok w \<Longrightarrow> ledger_ok w' \<Longrightarrow> posts w w' [] \<Longrightarrow> holding w' = holding w"
  using holding_posts [of w w' "[]"] holding_i64 [of w] by (auto simp: fun_eq_iff)

lemma shift_opposite: "a \<noteq> b \<Longrightarrow> shift a b (- n) h = shift b a n h"
  by (auto simp: shift_def fun_eq_iff)

lemma paid_shift:
  assumes "ledger_ok w" and "ledger_ok w'" and "paid w w' c t n d"
  shows "holding w' = shift (control_of t n) (available_of c t n) d (holding w)"
  using paid_holding [OF assms] holding_i64 [OF assms(1)] by (auto simp: shift_def fun_eq_iff)

lemma i64_upper: "i64 x = x \<Longrightarrow> x < 2 ^ 63" and i64_lower: "i64 x = x \<Longrightarrow> - (2 ^ 63) \<le> x"
  using i64_range [of x] by auto

lemma frozen_shift:
  assumes ok: "ledger_ok w" "ledger_ok w'" and own: "owned_by w' (cust c t n) a"
    and ps: "posts w w' [((a, ''available''), - x), ((a, ''frozen''), x)]"
  shows "holding w' = shift (available_of c t n) (frozen_key c t n) x (holding w)"
proof
  fix kb :: holding_key
  obtain k bucket where kb: "kb = (k, bucket)" by (cases kb)
  have "keys_ok w'" using ok by (simp add: ledger_ok_def)
  from owned_by_unique [OF this own, of k]
  show "holding w' kb = shift (available_of c t n) (frozen_key c t n) x (holding w) kb"
    using holding_posts [OF ok ps, of kb] holding_i64 [OF ok(1)] by (auto simp: kb shift_def)
qed

lemma settled_shift:
  assumes ok: "ledger_ok w" "ledger_ok w'" and own: "owned_by w' (cust c t n) a" "owned_by w' (platform t' n') b"
    and ps: "posts w w' (settle_posts a b x y)" and "0 \<le> x" "0 \<le> y"
  shows "holding w' = shift (frozen_key c t n) (control_of t' n') y (shift (frozen_key c t n) (available_of c t n) x (holding w))"
proof
  fix kb :: holding_key
  obtain k bucket where kb: "kb = (k, bucket)" by (cases kb)
  have "keys_ok w'" using ok by (simp add: ledger_ok_def)
  note own = owned_by_unique [OF this own(1), of k] owned_by_unique [OF this own(2), of k]
  have "posted_to w' (settle_posts a b x y) (k, bucket) = (if k = cust c t n \<and> bucket = ''frozen'' then - (x + y) else 0) +
      (if k = cust c t n \<and> bucket = ''available'' then x else 0) + (if k = platform t' n' \<and> bucket = ''available'' then y else 0)"
    using own assms(6,7) by (auto simp: settle_posts_def)
  then have h: "holding w' kb = i64 (holding w kb + ((if kb = frozen_key c t n then - (x + y) else 0) +
      (if kb = available_of c t n then x else 0) + (if kb = control_of t' n' then y else 0)))"
    using holding_posts [OF ok ps, of kb] unfolding kb by (simp only: prod.inject)
  consider "kb = frozen_key c t n" | "kb = available_of c t n" | "kb = control_of t' n'"
    | "kb \<noteq> frozen_key c t n" "kb \<noteq> available_of c t n" "kb \<noteq> control_of t' n'" by blast
  then show "holding w' kb = shift (frozen_key c t n) (control_of t' n') y (shift (frozen_key c t n) (available_of c t n) x (holding w)) kb"
  proof cases
    case 1
    have "i64 (z + (- x - y)) = i64 (z - x - y)" for z by (rule arg_cong [where f = i64]) simp
    then show ?thesis unfolding h shift_def using 1 by simp
  next
    case 4
    then show ?thesis unfolding h shift_def using holding_i64 [OF ok(1), of kb] by simp
  qed (unfold h shift_def, simp_all)
qed

text \<open>What an operation leaves of the world, whatever it returns.\<close>

fun run_member :: "member_env \<Rightarrow> member_op \<Rightarrow> member_world \<Rightarrow> member_world" where
  "run_member S (OpCredit c) w = snd (Credit S c w)"
| "run_member S (OpDebit c) w = snd (Debit S c w)"
| "run_member S (OpReverse c) w = snd (Reverse S c w)"
| "run_member S (OpFreezeAsset c) w = snd (asset_Freeze S c w)"
| "run_member S (OpCommit c) w = snd (Commit S c w)"
| "run_member S (OpRelease c) w = snd (Release S c w)"
| "run_member S (OpExpireLots n) w = snd (ExpireDueLots S n w)"
| "run_member S (OpExpireHolds n) w = snd (ExpireDueHolds S n w)"

context member_store
begin

lemma run_member_ok: "member_ok w \<Longrightarrow> member_ok (run_member S op w)"
  by (cases op)
    (auto simp: Credit_def Debit_def postTransfer_def Commit_def Release_def
      intro: postTransfer_ok [OF prod.collapse [symmetric]] Reverse_ok [OF prod.collapse [symmetric]]
        Freeze_ok [OF prod.collapse [symmetric]] applyHold_ok [OF prod.collapse [symmetric]]
        ExpireDueLots_ok [OF prod.collapse [symmetric]] ExpireDueHolds_ok [OF prod.collapse [symmetric]])

lemma spec_same: "member_ok w \<Longrightarrow> core w' = core w \<Longrightarrow> member_spec op (holding w) (holding w')"
  using holding_core member_spec.unchanged by metis

lemma credit_spec:
  assumes "Credit S cmd w = (r, w')" and ok: "member_ok w"
  shows "member_spec (OpCredit cmd) (holding w) (holding w')"
proof -
  let ?c = "cmd\<lparr>cm_Action := ''credit''\<rparr>"
  have run: "postTransferWithDB S ?c 1 None w = (r, w')" using assms(1) by (simp add: Credit_def postTransfer_def)
  have led: "ledger_ok w" "ledger_ok w'" using ok postTransfer_ok [OF run ok] by (simp_all add: member_ok_def)
  from run ok disjI1 [OF refl] show ?thesis
  proof (cases rule: postTransfer_cases)
    case (fresh d at)
    then have "paid w w' (cm_CustomerID cmd) (cm_AssetType cmd) (cm_Unit cmd) (sint (cm_Amount cmd))"
      and pay: "payable w (cm_CustomerID cmd) (cm_AssetType cmd) (cm_Unit cmd) (sint (cm_Amount cmd))" by (simp_all add: posted_def)
    from paid_shift [OF led this(1)] show ?thesis
      using pay validated_amount [OF fresh(2)]
      by (auto simp: payable_def dest: i64_upper i64_lower intro!: member_spec.credit)
  qed (auto intro: spec_same [OF ok])
qed

lemma debit_spec:
  assumes "Debit S cmd w = (r, w')" and ok: "member_ok w"
  shows "member_spec (OpDebit cmd) (holding w) (holding w')"
proof -
  let ?c = "cmd\<lparr>cm_Action := ''debit''\<rparr>"
  have run: "postTransferWithDB S ?c (-1) None w = (r, w')" using assms(1) by (simp add: Debit_def postTransfer_def)
  have led: "ledger_ok w" "ledger_ok w'" using ok postTransfer_ok [OF run ok] by (simp_all add: member_ok_def)
  from run ok disjI2 [OF refl] show ?thesis
  proof (cases rule: postTransfer_cases)
    case (fresh d at)
    then have "paid w w' (cm_CustomerID cmd) (cm_AssetType cmd) (cm_Unit cmd) (- sint (cm_Amount cmd))"
      and pay: "payable w (cm_CustomerID cmd) (cm_AssetType cmd) (cm_Unit cmd) (- sint (cm_Amount cmd))" by (simp_all add: posted_def)
    from paid_shift [OF led this(1)] show ?thesis
      using pay validated_amount [OF fresh(2)] unfolding payable_def
      by (auto simp: shift_opposite dest: i64_upper i64_lower intro!: member_spec.debit)
  qed (auto intro: spec_same [OF ok])
qed

lemma reverse_spec:
  assumes run: "Reverse S cmd w = (r, w')" and ok: "member_ok w"
  shows "member_spec (OpReverse cmd) (holding w) (holding w')"
proof -
  have led: "ledger_ok w" "ledger_ok w'" using ok Reverse_ok [OF run ok] by (simp_all add: member_ok_def)
  from run ok show ?thesis
  proof (cases rule: Reverse_cases)
    case (fresh original account amount)
    define c where "c = acc_OwnerID account"
    define d where "d = amount * (if atx_Action original = ''debit'' then 1 else -1)"
    have p: "paid w w' c (atx_AssetType original) (atx_Unit original) d" "payable w c (atx_AssetType original) (atx_Unit original) d"
      using fresh(7) by (simp_all add: posted_reversal_def Let_def c_def d_def)
    show ?thesis
    proof (cases "atx_Action original = ''debit''")
      case True
      then have "d = amount" by (simp add: d_def)
      then show ?thesis
        using paid_shift [OF led p(1)] p(2) fresh(5) by (auto simp: payable_def dest: i64_upper i64_lower intro!: member_spec.reverse_debit)
    next
      case False
      then have "d = - amount" by (simp add: d_def)
      then show ?thesis
        using paid_shift [OF led p(1)] p(2) fresh(5) unfolding payable_def
        by (auto simp: shift_opposite dest: i64_upper i64_lower intro!: member_spec.reverse_credit)
    qed
  qed (rule spec_same [OF ok])
qed

lemma freeze_spec:
  assumes run: "asset_Freeze S cmd w = (r, w')" and ok: "member_ok w"
  shows "member_spec (OpFreezeAsset cmd) (holding w) (holding w')"
proof -
  have led: "ledger_ok w" "ledger_ok w'" using ok Freeze_ok [OF run ok] by (simp_all add: member_ok_def)
  from run ok show ?thesis
  proof (cases rule: Freeze_cases)
    case (fresh d)
    then obtain a where "owned_by w' (cust (cm_CustomerID cmd) (cm_AssetType cmd) (cm_Unit cmd)) a"
      "posts w w' [((a, ''available''), - sint (cm_Amount cmd)), ((a, ''frozen''), sint (cm_Amount cmd))]"
      and am: "sint (cm_Amount cmd) \<le> holding w (available_of (cm_CustomerID cmd) (cm_AssetType cmd) (cm_Unit cmd))"
      by (auto simp: frozen_for_def)
    from frozen_shift [OF led this(1,2)] am show ?thesis using validated_amount [OF fresh(3)] by (auto intro!: member_spec.freeze)
  qed (rule spec_same [OF ok])
qed

lemma hold_spec:
  assumes run: "applyHold S cmd commit w = (r, w')" and ok: "member_ok w"
    and op: "if commit then op = OpCommit c0 else op = OpRelease c0 \<or> op = OpExpireHolds limit"
  shows "member_spec op (holding w) (holding w')"
proof -
  have led: "ledger_ok w" "ledger_ok w'" using ok applyHold_ok [OF run ok] by (simp_all add: member_ok_def)
  from run ok show ?thesis
  proof (cases rule: applyHold_cases)
    case (fresh d)
    from fresh(2) obtain h c t n a b x y where "h \<in> set (holds w)" and own: "owned_by w' (cust c t n) a" "owned_by w' (platform (hd_AssetType h) (hd_Unit h)) b"
      and ps: "posts w w' (settle_posts a b x y)" and xy: "0 \<le> x" "0 \<le> y" "commit \<longrightarrow> x = 0" "0 < x + y" "x + y \<le> holding w (frozen_key c t n)"
      unfolding settled_for_def by (elim exE conjE) (rule that; assumption)
    note sh = settled_shift [OF led own ps xy(1,2)]
    show ?thesis
    proof (cases commit)
      case True
      then have x: "x = 0" using xy(3) by simp
      have "shift (frozen_key c t n) (available_of c t n) 0 (holding w) = holding w"
        by (rule ext) (auto simp: shift_def holding_i64 [OF led(1)])
      then show ?thesis using sh xy op True unfolding x by (auto intro!: member_spec.commit)
    next
      case False
      then show ?thesis unfolding sh using xy op by (intro member_spec.release) auto
    qed
  qed (rule spec_same [OF ok])
qed

lemma lot_spec:
  assumes run: "expireLot S i w = (r, w')" and ok: "member_ok w"
  shows "member_spec (OpExpireLots limit) (holding w) (holding w')"
proof -
  have led: "ledger_ok w" "ledger_ok w'" using ok expireLot_ok [OF run ok] by (simp_all add: member_ok_def)
  from run ok show ?thesis
  proof (cases rule: expireLot_cases)
    case unchanged
    then show ?thesis using holding_same [OF led] member_spec.unchanged by simp
  next
    case expired
    then obtain l c t n where "lot_due (mw_wall w) l" "al_AvailableAmount l \<le> holding w (available_of c t n)"
        "paid w w' c t n (- al_AvailableAmount l)" by (auto simp: lot_expired_def)
    with paid_shift [OF led this(3)] show ?thesis by (auto simp: shift_opposite lot_due_def intro!: member_spec.expire)
  qed
qed

lemma lots_spec:
  assumes "member_ok w"
  shows "member_spec (OpExpireLots limit) (holding w) (holding (snd (expire_lots_loop S ids k w)))"
  using assms
proof (induction ids arbitrary: k w)
  case Nil
  then show ?case by (simp add: member_spec.unchanged)
next
  case (Cons i ids)
  obtain r v where run: "expireLot S i w = (r, v)" by (cases "expireLot S i w")
  note one = lot_spec [OF run Cons.prems, of limit] and v = expireLot_ok [OF run Cons.prems]
  show ?case
    using run one Cons.IH [OF v] by (cases r) (auto intro: member_spec.batch)
qed

lemma holds_spec:
  assumes "member_ok w"
  shows "member_spec (OpExpireHolds limit) (holding w) (holding (snd (expire_holds_loop S ids k w)))"
  using assms
proof (induction ids arbitrary: k w)
  case Nil
  then show ?case by (simp add: member_spec.unchanged)
next
  case (Cons i ids)
  define cmd where "cmd = \<lparr>hc_HoldID = i, hc_Amount = 0, hc_SourceType = ''expiry'', hc_SourceID = ''hold-'' @ idString i,
          hc_Action = [], hc_IdempotencyKey = ''expire-'' @ ''hold-'' @ idString i, hc_ActorType = ''system'', hc_ActorID = 0\<rparr>"
  obtain r v where run: "expireHold S cmd w = (r, v)" by (cases "expireHold S cmd w")
  note ap = run [unfolded expireHold_def]
  have one: "member_spec (OpExpireHolds limit) (holding w) (holding v)"
    by (rule hold_spec [OF ap Cons.prems, of _ cmd limit]) simp
  note v = applyHold_ok [OF ap Cons.prems]
  show ?case
    using run one Cons.IH [OF v] by (cases r) (auto simp: cmd_def intro: member_spec.batch)
qed

lemma run_member_spec:
  assumes ok: "member_ok w"
  shows "member_spec op (holding w) (holding (run_member S op w))"
proof (cases op)
  case (OpExpireLots n)
  then show ?thesis using ok lots_spec
    by (auto simp: ExpireDueLots_def Let_def db_ordered_def member_spec.unchanged split: sum.splits prod.splits)
next
  case (OpExpireHolds n)
  then show ?thesis using ok holds_spec
    by (auto simp: ExpireDueHolds_def Let_def db_ordered_def member_spec.unchanged split: sum.splits prod.splits)
qed (use ok in \<open>auto simp: Commit_def Release_def intro: credit_spec [OF prod.collapse [symmetric]] debit_spec [OF prod.collapse [symmetric]]
    reverse_spec [OF prod.collapse [symmetric]] freeze_spec [OF prod.collapse [symmetric]] hold_spec [OF prod.collapse [symmetric]]\<close>)

end

end
