(* ===== verification/Member_System.thy ===== *)
theory Member_System
  imports Member_Effects
begin

text \<open>
  The member asset service as a system: its operations as steps, the worlds they can reach, and a
  small concrete world with tables kept in memory.
\<close>

subsection \<open>Steps\<close>

text \<open>The world may change between operations in everything that is not the ledger: time passes,
  customers and tier rules are edited, events are delivered.\<close>

inductive member_step :: "member_env \<Rightarrow> member_world \<Rightarrow> member_world \<Rightarrow> bool" for S where
  operation: "member_step S w (run_member S op w)"
| elsewhere: "core w' = core w \<Longrightarrow> member_step S w w'"

inductive member_reach :: "member_env \<Rightarrow> member_world \<Rightarrow> member_world \<Rightarrow> bool" for S where
  start: "member_reach S w w"
| step: "member_reach S w u \<Longrightarrow> member_step S u v \<Longrightarrow> member_reach S w v"

context member_store
begin

lemma reach_ok: "member_reach S w w' \<Longrightarrow> member_ok w \<Longrightarrow> member_ok w'"
  by (induction rule: member_reach.induct) (auto elim!: member_step.cases intro: run_member_ok member_core)

end

text \<open>A ledger without rows.\<close>

definition empty_books :: "member_world \<Rightarrow> bool" where
  "empty_books w \<longleftrightarrow> accounts w = [] \<and> balances w = [] \<and> asset_transactions w = [] \<and> entries w = [] \<and>
     asset_lots w = [] \<and> holds w = [] \<and> hold_lots w = []"

lemma empty_books_ok: "empty_books w \<Longrightarrow> member_ok w"
  by (simp add: empty_books_def member_ok_def ledger_ok_def keys_ok_def lots_ok_def holds_ok_def)

subsection \<open>Tables in memory\<close>

definition mem_member :: member_env where
  "mem_member =
     \<lparr>env_WriteEnabled = True, env_ExpiryEnabled = True, env_WorkerBatchSize = 100,
      requestHash = (\<lambda>j. case j of JObject ((_, JInt n) # _) \<Rightarrow> format_int n | _ \<Rightarrow> []), keyHash = (\<lambda>s. s),
      env_uuid = (\<lambda>n. format_uint n), env_commit = (\<lambda>_. None), env_locked = (\<lambda>_. False),
      ctx_RequestID = None, ctx_IPHash = None, ctx_UserAgent = None,
      accountE = mem_engine account_clash (\<lambda>_. True), balanceE = mem_engine balance_clash (\<lambda>_. True),
      transactionE = mem_engine transaction_clash transaction_fits, entryE = mem_engine entry_clash entry_fits,
      lotE = mem_engine asset_lot_clash asset_lot_fits, holdE = mem_engine hold_clash (\<lambda>_. True),
      holdLotE = mem_engine hold_lot_clash (\<lambda>_. True), customerE = mem_engine (=) (\<lambda>_. True),
      ruleSetE = mem_engine (=) (\<lambda>_. True), ruleE = mem_engine (=) (\<lambda>_. True),
      profileE = mem_engine (\<lambda>p q. mp_CustomerID p = mp_CustomerID q) (\<lambda>_. True),
      historyE = mem_engine (=) (\<lambda>_. True), auditE = mem_engine (=) (\<lambda>_. True), outboxE = mem_engine (=) (\<lambda>_. True)\<rparr>"

interpretation mem_store: member_store mem_member "\<lambda>_. True" "\<lambda>_. True" "\<lambda>_. True" "\<lambda>_. True"
  by (simp add: member_store_def mem_member_def mem_table.gorm_table_axioms)

text \<open>The demonstration runs at the epoch of the identifier generator.\<close>

definition demo_wall :: go_time where
  "demo_wall = unix_epoch + 1704067200000 * nanos_per_milli"

lemma next_id_demo:
  "mw_wall w = demo_wall \<Longrightarrow>
     next_id w = (case snow_Next 1704067200000 (mw_snow w) of (i, g) \<Rightarrow> (Inr i, w\<lparr>mw_snow := g\<rparr>))"
  by (simp add: next_id_def go_call_def demo_wall_def unix_milli_def unix_epoch_def nanos_per_milli_def split: prod.splits)

definition member_demo :: member_world where
  "member_demo =
     \<lparr>mw_wall = demo_wall, mw_snow = \<lparr>lastMS = 0, sequence = 0, nodeID = 1, rollbacks = 0\<rparr>,
      mw_uuids = 0, accounts = [], balances = [], asset_transactions = [], entries = [], asset_lots = [], holds = [],
      hold_lots = [], customers = [\<lparr>cus_ID = 7, cus_Deleted = False, cus_Status = ''active''\<rparr>],
      tier_rule_sets = [], tier_rules = [], profiles = [], tier_histories = [], audit_logs = [], outbox_events = []\<rparr>"

definition demo_credit :: "int64 \<Rightarrow> Command" where
  "demo_credit amount =
     \<lparr>cm_CustomerID = 7, cm_AssetType = ''balance'', cm_Unit = ''CNY_MINOR'', cm_Amount = amount,
      cm_SourceType = ''manual_adjustment'', cm_SourceID = ''a1'', cm_Action = [], cm_IdempotencyKey = ''key-0001'',
      cm_ActorType = ''admin'', cm_ActorID = 1, cm_OccurredAt = 0, cm_ExpiresAt = None, cm_Metadata = JNull\<rparr>"

lemma empty_demo: "empty_books member_demo"
  by (simp add: empty_books_def member_demo_def)

lemmas member_eval = go_run go_call_eval Credit_def Debit_def postTransfer_def postTransferWithDB_def validateCommand_def
  validate_source_def UnitFor_def TypeGrowth_def TypeWineCoin_def TypeBalance_def UnitPoint_def UnitCNY_def blank_def
  post_in_transaction_def post_fresh_def post_effects_def now_utc_def next_id_demo new_uuid_def transfer_row_def transfer_hash_def
  db_take_def db_find_def db_ordered_def db_create_def db_create_all_def db_create_ignore_def db_updates_def
  gorm_transaction_def requireCustomer_def ensureAccounts_def findExisting_def makeAccount_def owns_account_def
  move_pair_def lock_accounts_def lockBalance_def setBalance_def wouldOverflow_def new_entry_def grant_lot_def
  consumeLots_def consume_loop.simps min64_def lot_order_def Reverse_def reverse_in_transaction_def reverse_fresh_def reverse_effects_def
  customer_account_of_def reversed_amount_def reverse_row_def create_mapped_def reversal_metadata_def
  create_audit_def create_outbox_def audit_def outbox_def dtoFromTransaction_def
  member_tables mem_engine_def update_where_def account_clash_def balance_clash_def transaction_clash_def transaction_fits_def
  entry_clash_def entry_fits_def asset_lot_clash_def asset_lot_fits_def owner_key_def bal_key_def source_key_def by_source_def
  snow_Next_def snow_id_def snow_epoch_def idString_def defaultString_def
  json_time_def i64_def format_int_def format_uint.simps Let_def

text \<open>A world in which customer 7 has been credited 500.\<close>

definition demo_ledger :: member_world where
  "demo_ledger = member_demo
     \<lparr>accounts :=
        [\<lparr>acc_ID = 1, acc_AccountNo = ''AA-customer-7-balance'', acc_OwnerType = ''customer'', acc_OwnerID = 7,
          acc_AssetType = ''balance'', acc_Unit = ''CNY_MINOR'', acc_Status = ''active'', acc_AllowNegative = False\<rparr>,
         \<lparr>acc_ID = 2, acc_AccountNo = ''AA-platform-1-balance'', acc_OwnerType = ''platform'', acc_OwnerID = 1,
          acc_AssetType = ''balance'', acc_Unit = ''CNY_MINOR'', acc_Status = ''active'', acc_AllowNegative = True\<rparr>],
      balances :=
        [\<lparr>bal_ID = 3, bal_AccountID = 1, bal_Bucket = ''available'', bal_Amount = 500, bal_Version = 2\<rparr>,
         \<lparr>bal_ID = 4, bal_AccountID = 1, bal_Bucket = ''frozen'', bal_Amount = 0, bal_Version = 1\<rparr>,
         \<lparr>bal_ID = 5, bal_AccountID = 2, bal_Bucket = ''available'', bal_Amount = - 500, bal_Version = 2\<rparr>,
         \<lparr>bal_ID = 6, bal_AccountID = 2, bal_Bucket = ''frozen'', bal_Amount = 0, bal_Version = 1\<rparr>],
      asset_transactions :=
        [\<lparr>atx_ID = 7, atx_TransactionNo = ''AT8'', atx_AssetType = ''balance'', atx_Unit = ''CNY_MINOR'',
          atx_Action = ''credit'', atx_Status = ''posted'', atx_SourceType = ''manual_adjustment'', atx_SourceID = ''a1'',
          atx_IdempotencyKeyHash = ''key-0001'', atx_RequestHash = ''7'', atx_ReversalOfTransactionID = None,
          atx_Amount = 500, atx_ActorType = ''admin'', atx_ActorID = 1, atx_Metadata = JNull,
          atx_OccurredAt = demo_wall, atx_PostedAt = demo_wall\<rparr>],
      entries :=
        [\<lparr>ent_ID = 9, ent_TransactionID = 7, ent_EntrySeq = 1, ent_AccountID = 1, ent_Bucket = ''available'',
          ent_Delta = 500, ent_BalanceAfter = 500\<rparr>,
         \<lparr>ent_ID = 10, ent_TransactionID = 7, ent_EntrySeq = 2, ent_AccountID = 2, ent_Bucket = ''available'',
          ent_Delta = - 500, ent_BalanceAfter = - 500\<rparr>],
      asset_lots :=
        [\<lparr>al_ID = 11, al_AccountID = 1, al_GrantTransactionID = 7, al_GrantedAmount = 500, al_AvailableAmount = 500,
          al_FrozenAmount = 0, al_ConsumedAmount = 0, al_ExpiredAmount = 0, al_ExpiresAt = None,
          al_Status = ''active'', al_Version = 1\<rparr>]\<rparr>"

lemma demo_customers: "customer_ids demo_ledger = {1}"
proof -
  have "customer_ids demo_ledger = set (map acc_ID (filter (\<lambda>a. acc_OwnerType a = ''customer'') (accounts demo_ledger)))"
    by (simp add: customer_ids_def)
  then show ?thesis by (simp add: demo_ledger_def)
qed

lemma demo_ledger_ok: "member_ok demo_ledger"
proof -
  have "ledger_ok demo_ledger"
    by (simp add: ledger_ok_def keys_ok_def demo_ledger_def owner_key_def bal_key_def source_key_def ent_key_def transaction_fits_def)
  moreover have "lots_ok demo_ledger"
    unfolding lots_ok_def demo_customers
    by (auto simp: demo_ledger_def lot_ok_def asset_lot_fits_def bal_key_def bucket_amount_def)
  moreover have "holds_ok demo_ledger"
    by (simp add: holds_ok_def demo_ledger_def member_demo_def)
  ultimately show ?thesis by (simp add: member_ok_def)
qed

text \<open>The same customer after 100 of the 500 have been frozen and committed.\<close>

definition demo_posting :: "uint64 \<Rightarrow> string \<Rightarrow> int \<Rightarrow> uint64 option \<Rightarrow> string \<Rightarrow> string \<Rightarrow> AssetTransaction" where
  "demo_posting i action amount original source key =
     \<lparr>atx_ID = i, atx_TransactionNo = ''AT-'' @ source, atx_AssetType = ''balance'', atx_Unit = ''CNY_MINOR'',
      atx_Action = action, atx_Status = ''posted'', atx_SourceType = ''reconciliation_test'', atx_SourceID = source,
      atx_IdempotencyKeyHash = key, atx_RequestHash = ''7'', atx_ReversalOfTransactionID = original,
      atx_Amount = amount, atx_ActorType = ''admin'', atx_ActorID = 1, atx_Metadata = JNull,
      atx_OccurredAt = demo_wall, atx_PostedAt = demo_wall\<rparr>"

definition demo_entry :: "uint64 \<Rightarrow> uint64 \<Rightarrow> uint32 \<Rightarrow> uint64 \<Rightarrow> string \<Rightarrow> int \<Rightarrow> int \<Rightarrow> Entry" where
  "demo_entry i t n a b d z = \<lparr>ent_ID = i, ent_TransactionID = t, ent_EntrySeq = n, ent_AccountID = a, ent_Bucket = b,
     ent_Delta = d, ent_BalanceAfter = z\<rparr>"

definition demo_settled :: member_world where
  "demo_settled = demo_ledger
     \<lparr>balances :=
        [\<lparr>bal_ID = 3, bal_AccountID = 1, bal_Bucket = ''available'', bal_Amount = 400, bal_Version = 3\<rparr>,
         \<lparr>bal_ID = 4, bal_AccountID = 1, bal_Bucket = ''frozen'', bal_Amount = 0, bal_Version = 3\<rparr>,
         \<lparr>bal_ID = 5, bal_AccountID = 2, bal_Bucket = ''available'', bal_Amount = - 400, bal_Version = 3\<rparr>,
         \<lparr>bal_ID = 6, bal_AccountID = 2, bal_Bucket = ''frozen'', bal_Amount = 0, bal_Version = 1\<rparr>],
      asset_transactions := asset_transactions demo_ledger @
        [demo_posting 20 ''freeze'' 100 None ''a2'' ''key-0002'', demo_posting 21 ''commit'' 100 None ''a3'' ''key-0003''],
      entries := entries demo_ledger @
        [demo_entry 30 20 1 1 ''available'' (- 100) 400, demo_entry 31 20 2 1 ''frozen'' 100 100,
         demo_entry 32 21 1 1 ''frozen'' (- 100) 0, demo_entry 33 21 2 2 ''available'' 100 (- 400)],
      asset_lots :=
        [\<lparr>al_ID = 11, al_AccountID = 1, al_GrantTransactionID = 7, al_GrantedAmount = 500, al_AvailableAmount = 400,
          al_FrozenAmount = 0, al_ConsumedAmount = 100, al_ExpiredAmount = 0, al_ExpiresAt = None,
          al_Status = ''active'', al_Version = 3\<rparr>],
      holds :=
        [\<lparr>hd_ID = 12, hd_HoldNo = ''AH12'', hd_ReservationKey = ''order-1'', hd_AccountID = 1, hd_AssetType = ''balance'',
          hd_Unit = ''CNY_MINOR'', hd_OriginalAmount = 100, hd_CommittedAmount = 100, hd_ReleasedAmount = 0,
          hd_Status = ''committed'', hd_SourceType = ''reconciliation_test'', hd_SourceID = ''a2'', hd_ExpiresAt = None,
          hd_Version = 2\<rparr>],
      hold_lots :=
        [\<lparr>hl_ID = 13, hl_HoldID = 12, hl_LotID = 11, hl_Amount = 100, hl_CommittedAmount = 100, hl_ReleasedAmount = 0\<rparr>]\<rparr>"

lemma demo_settled_ok: "member_ok demo_settled"
proof -
  have "ledger_ok demo_settled"
    by (simp add: ledger_ok_def keys_ok_def demo_settled_def demo_ledger_def owner_key_def bal_key_def source_key_def ent_key_def
        transaction_fits_def demo_posting_def demo_entry_def)
  moreover have "customer_ids demo_settled = {1}" using demo_customers by (simp add: demo_settled_def customer_ids_def)
  then have "lots_ok demo_settled"
    unfolding lots_ok_def by (auto simp: demo_settled_def lot_ok_def asset_lot_fits_def bal_key_def bucket_amount_def)
  moreover have "holds_ok demo_settled"
    by (auto simp: holds_ok_def hold_ok_def status_ok_def alloc_ok_def alloc_open_def alloc_placed_def demo_settled_def)
  ultimately show ?thesis by (simp add: member_ok_def)
qed

text \<open>The customer after a debit of 500, a reversal of 1 of it and a debit of that 1.\<close>

definition demo_spent :: "uint64 \<Rightarrow> uint64 \<Rightarrow> int \<Rightarrow> AssetLot" where
  "demo_spent i t amount = \<lparr>al_ID = i, al_AccountID = 1, al_GrantTransactionID = t, al_GrantedAmount = amount, al_AvailableAmount = 0,
     al_FrozenAmount = 0, al_ConsumedAmount = amount, al_ExpiredAmount = 0, al_ExpiresAt = None, al_Status = ''consumed'', al_Version = 2\<rparr>"

definition demo_reversed :: member_world where
  "demo_reversed = demo_ledger
     \<lparr>balances :=
        [\<lparr>bal_ID = 3, bal_AccountID = 1, bal_Bucket = ''available'', bal_Amount = 0, bal_Version = 5\<rparr>,
         \<lparr>bal_ID = 4, bal_AccountID = 1, bal_Bucket = ''frozen'', bal_Amount = 0, bal_Version = 1\<rparr>,
         \<lparr>bal_ID = 5, bal_AccountID = 2, bal_Bucket = ''available'', bal_Amount = 0, bal_Version = 5\<rparr>,
         \<lparr>bal_ID = 6, bal_AccountID = 2, bal_Bucket = ''frozen'', bal_Amount = 0, bal_Version = 1\<rparr>],
      asset_transactions := asset_transactions demo_ledger @
        [demo_posting 20 ''debit'' 500 None ''a2'' ''key-0002'', demo_posting 21 ''reverse'' 1 (Some 20) ''a3'' ''key-0003'',
         demo_posting 22 ''debit'' 1 None ''a4'' ''key-0004''],
      entries := entries demo_ledger @
        [demo_entry 30 20 1 1 ''available'' (- 500) 0, demo_entry 31 20 2 2 ''available'' 500 0,
         demo_entry 32 21 1 1 ''available'' 1 1, demo_entry 33 21 2 2 ''available'' (- 1) (- 1),
         demo_entry 34 22 1 1 ''available'' (- 1) 0, demo_entry 35 22 2 2 ''available'' 1 0],
      asset_lots := [demo_spent 11 7 500, demo_spent 12 21 1]\<rparr>"

lemma demo_reversed_ok: "member_ok demo_reversed"
proof -
  have "ledger_ok demo_reversed"
    by (simp add: ledger_ok_def keys_ok_def demo_reversed_def demo_ledger_def owner_key_def bal_key_def source_key_def ent_key_def
        transaction_fits_def demo_posting_def demo_entry_def)
  moreover have "customer_ids demo_reversed = {1}" using demo_customers by (simp add: demo_reversed_def customer_ids_def)
  then have "lots_ok demo_reversed"
    unfolding lots_ok_def
    by (auto simp: demo_reversed_def demo_spent_def lot_ok_def asset_lot_fits_def bal_key_def bucket_amount_def)
  moreover have "holds_ok demo_reversed"
    by (simp add: holds_ok_def demo_reversed_def demo_ledger_def member_demo_def demo_spent_def)
  ultimately show ?thesis by (simp add: member_ok_def)
qed

end
