(* ===== verification/Member_History.thy ===== *)
theory Member_History
  imports Member_System
begin

text \<open>
  What stays in the member asset ledger for ever: a posted transaction is never changed or removed, so an
  operation under a source that has been posted has no effect, however often and whenever it is called.
\<close>

context member_store
begin

abbreviation keeps_row :: "AssetTransaction \<Rightarrow> (member_world, go_error, 'a) go \<Rightarrow> bool" where
  "keeps_row t m \<equiv> go_keeps (\<lambda>w. t \<in> set (asset_transactions w)) m"

lemma keeps_row_reads: "keeps_row t (db_take T p)" "keeps_row t (db_find T p)" "keeps_row t (db_ordered T p key)"
  by (simp_all add: go_keeps_def db_take_def db_find_def db_ordered_def)

lemma keeps_row_calls: "keeps_row t next_id" "keeps_row t now_utc" "keeps_row t (new_uuid S)"
  by (auto simp: next_id_def now_utc_def new_uuid_def split: prod.splits)

lemma keeps_row_creates:
  "keeps_row t (db_create (audit_t S) a)" "keeps_row t (db_create (outbox_t S) ob)" "keeps_row t (db_create (history_t S) h)"
  "keeps_row t (db_create (lot_t S) l)" "keeps_row t (db_create (hold_t S) g)" "keeps_row t (db_create_all (entry_t S) es)"
  "keeps_row t (db_create_all (hold_lot_t S) xs)" "keeps_row t (db_create_ignore (profile_t S) p)"
  "keeps_row t (db_create_ignore (account_t S) ac)" "keeps_row t (db_create_ignore (balance_t S) b)"
  by (auto simp: go_keeps_def db_create_def db_create_all_def db_create_ignore_def member_tables split: sum.splits prod.splits)

lemma keeps_row_updates:
  "keeps_row t (db_updates (profile_t S) q f1)" "keeps_row t (db_updates (balance_t S) q2 f2)" "keeps_row t (db_updates (lot_t S) q3 f3)"
  "keeps_row t (db_updates (hold_t S) q4 f4)" "keeps_row t (db_updates (hold_lot_t S) q5 f5)"
  by (auto simp: go_keeps_def db_updates_def member_tables split: sum.splits prod.splits)

lemma keeps_row_posts: "keeps_row t (db_create (transaction_t S) r)" "keeps_row t (db_create_ignore (transaction_t S) r)"
  by (auto simp: go_keeps_def db_create_def db_create_ignore_def transaction_t_def split: sum.splits prod.splits
      dest!: txn.create_row txn.create_ignore)

lemma keeps_row_transaction: "keeps_row t m \<Longrightarrow> keeps_row t (gorm_transaction commit restore_member m)"
  by (auto intro!: go_keepsI dest: go_keepsD simp: gorm_transaction_def restore_member_def split: prod.splits sum.splits option.splits)

lemmas keeps_row_base = go_keeps_rules go_keeps_for keeps_row_reads keeps_row_calls keeps_row_creates keeps_row_updates
  keeps_row_posts keeps_row_transaction

lemma keeps_row_helpers:
  "keeps_row t (create_mapped (transaction_t S) r)" "keeps_row t (create_mapped (hold_t S) h)"
  "keeps_row t (create_audit S ty i a res x y)" "keeps_row t (create_outbox S e i p)"
  "keeps_row t (requireCustomer S i)" "keeps_row t (lock_accounts S ids)" "keeps_row t (transactionDTO S tr i j)"
  "keeps_row t (new_entry ti s ac b d z)" "keeps_row t (customer_account_of S tr)" "keeps_row t (reversed_amount S tr)"
  "keeps_row t (lockBalance S ac b)" "keeps_row t (setBalance S i n)" "keeps_row t (findExisting S c ty u)"
  "keeps_row t (makeAccount S ot c ty u neg)" "keeps_row t (grant_lot S ac ti n ex)"
  unfolding create_mapped_def create_audit_def audit_def create_outbox_def outbox_def requireCustomer_def lock_accounts_def
    transactionDTO_def new_entry_def customer_account_of_def reversed_amount_def lockBalance_def setBalance_def findExisting_def
    makeAccount_def grant_lot_def Let_def
  by (intro keeps_row_base)+

lemma keeps_row_consume: "keeps_row t (consume_loop S ls n)"
  by (induction ls arbitrary: n) (auto simp: Let_def intro!: keeps_row_base)

lemma keeps_row_freeze_lots: "keeps_row t (freeze_lots S i ls n acc)"
  by (induction ls arbitrary: n acc) (auto simp: Let_def intro!: keeps_row_base)

lemma keeps_row_hold_step: "keeps_row t (hold_step S c now x l use)"
  unfolding hold_step_def by (intro keeps_row_base)

lemma keeps_row_hold_loop: "keeps_row t (hold_loop S c now xs n a p)"
  by (induction xs arbitrary: n a p) (auto simp: Let_def intro!: keeps_row_base keeps_row_hold_step)

lemma keeps_row_parts:
  "keeps_row t (ensureAccounts S c ty u)" "keeps_row t (consumeLots S ac n)" "keeps_row t (refreshMemberProfile S c g ti)"
  "keeps_row t (move_pair S cu co out n d)" "keeps_row t (hold_entries ti cua coa fr av pl)"
  unfolding ensureAccounts_def consumeLots_def refreshMemberProfile_def move_pair_def hold_entries_def Let_def
  by (intro keeps_row_base keeps_row_helpers keeps_row_consume)+

lemmas keeps_row_all = keeps_row_base keeps_row_helpers keeps_row_parts keeps_row_freeze_lots keeps_row_hold_loop

lemma keeps_row_post: "keeps_row t (postTransferWithDB S cmd direction ro)"
  unfolding postTransferWithDB_def post_in_transaction_def post_fresh_def post_effects_def post_recover_def Let_def
  by (intro keeps_row_all)

lemma keeps_row_reverse: "keeps_row t (Reverse S cmd)"
  unfolding Reverse_def reverse_in_transaction_def reverse_fresh_def reverse_effects_def Let_def
  by (intro keeps_row_all)

lemma keeps_row_freeze: "keeps_row t (asset_Freeze S cmd)"
  unfolding asset_Freeze_def freeze_in_transaction_def freeze_fresh_def freeze_record_def Let_def
  by (intro keeps_row_all)

lemma keeps_row_apply: "keeps_row t (applyHold S cmd commit)"
  unfolding applyHold_def apply_in_transaction_def apply_fresh_def apply_record_def Let_def
  by (intro keeps_row_all)

lemma keeps_row_expire: "keeps_row t (expireLot S i)"
  unfolding expireLot_def expire_lot_in_transaction_def take_or_stop_def expire_lot_effects_def Let_def
  by (intro keeps_row_all)

lemma keeps_row_lots_loop: "t \<in> set (asset_transactions w) \<Longrightarrow> t \<in> set (asset_transactions (snd (expire_lots_loop S ids n w)))"
  by (induction ids arbitrary: n w) (auto split: prod.splits sum.splits dest: go_keepsD [OF keeps_row_expire])

lemma keeps_row_holds_loop: "t \<in> set (asset_transactions w) \<Longrightarrow> t \<in> set (asset_transactions (snd (expire_holds_loop S ids n w)))"
  by (induction ids arbitrary: n w)
    (auto simp: expireHold_def Let_def split: prod.splits sum.splits dest: go_keepsD [OF keeps_row_apply])

lemma run_member_keeps:
  assumes "t \<in> set (asset_transactions w)"
  shows "t \<in> set (asset_transactions (run_member S op w))"
  using assms
  by (cases op)
    (auto simp: Credit_def Debit_def postTransfer_def Commit_def Release_def ExpireDueLots_def ExpireDueHolds_def Let_def db_ordered_def
      intro: go_keepsD [OF keeps_row_post prod.collapse [symmetric]] go_keepsD [OF keeps_row_reverse prod.collapse [symmetric]]
        go_keepsD [OF keeps_row_freeze prod.collapse [symmetric]] go_keepsD [OF keeps_row_apply prod.collapse [symmetric]]
        keeps_row_lots_loop keeps_row_holds_loop split: sum.splits prod.splits)

lemma reach_keeps: "member_reach S w w' \<Longrightarrow> t \<in> set (asset_transactions w) \<Longrightarrow> t \<in> set (asset_transactions w')"
  by (induction rule: member_reach.induct) (auto elim!: member_step.cases intro: run_member_keeps simp: core_iff)

end

end
