(* ===== verification/Member_Spending.thy ===== *)
theory Member_Spending
  imports Member_Lots
begin

text \<open>
  The order in which lots are spent. \<open>consumeLots\<close> walks over the lots of an account and keeps a running remainder; the
  reference says for each lot, on its own, how much of it a debit takes: what the lots before it do not cover.
\<close>

text \<open>What the lots that come before \<open>y\<close> leave over of \<open>amount\<close>, bounded by what \<open>y\<close> has.\<close>

definition share :: "int \<Rightarrow> AssetLot list \<Rightarrow> AssetLot \<Rightarrow> int" where
  "share amount earlier y = max 0 (min (al_AvailableAmount y) (amount - sum_list (map al_AvailableAmount earlier)))"

definition spendable :: "uint64 \<Rightarrow> AssetLot \<Rightarrow> bool" where
  "spendable a l \<longleftrightarrow> al_AccountID l = a \<and> 0 < al_AvailableAmount l"

definition earlier_lots :: "uint64 \<Rightarrow> AssetLot list \<Rightarrow> AssetLot \<Rightarrow> AssetLot list" where
  "earlier_lots a lots y = filter (\<lambda>l. spendable a l \<and> lot_order l < lot_order y) lots"

lemma takeWhile_sorted:
  fixes key :: "'a \<Rightarrow> 'b::linorder"
  assumes "sorted (map key ls)" and "distinct (map key ls)" and "y \<in> set ls"
  shows "takeWhile (\<lambda>l. l \<noteq> y) ls = filter (\<lambda>l. key l < key y) ls"
  using assms
proof (induction ls)
  case (Cons l ls)
  show ?case
  proof (cases "l = y")
    case True
    have "filter (\<lambda>l. key l < key y) ls = []" using Cons.prems(1) True by (auto simp: filter_empty_conv)
    then show ?thesis using True by simp
  next
    case False
    then have y: "y \<in> set ls" using Cons.prems(3) by simp
    then have "key l < key y" using Cons.prems(1,2) by (force simp: image_iff intro: order_neq_le_trans)
    then show ?thesis using Cons y False by simp
  qed
qed simp

lemma lot_order_inj: "lot_order k = lot_order l \<Longrightarrow> al_ID k = al_ID l"
  by (auto simp: lot_order_def word_uint_eq_iff split: option.splits)

context member_store
begin

lemma consume_loop_shares:
  assumes "consume_loop S ls rem w = (Inr u, w')" and "distinct (map al_ID (asset_lots w))"
    and "set ls \<subseteq> set (asset_lots w)" and "distinct (map al_ID ls)"
    and "\<forall>l\<in>set ls. 0 < al_AvailableAmount l \<and> al_AvailableAmount l < 2 ^ 63" and "0 < rem" and "rem < 2 ^ 63"
  shows "map al_ID (asset_lots w') = map al_ID (asset_lots w) \<and>
    (\<forall>x\<in>set (asset_lots w'). \<exists>y\<in>set (asset_lots w). al_ID y = al_ID x \<and> al_AvailableAmount x = al_AvailableAmount y -
       (if y \<in> set ls then share rem (takeWhile (\<lambda>l. l \<noteq> y) ls) y else 0))"
  using assms
proof (induction ls arbitrary: rem w)
  case (Cons l ls)
  define use where "use = min64 rem (al_AvailableAmount l)"
  define g where "g = (\<lambda>x::AssetLot. x\<lparr>al_AvailableAmount := al_AvailableAmount x - use, al_ConsumedAmount := al_ConsumedAmount x + use,
     al_Status := (if i64 (al_AvailableAmount l - use) = 0 \<and> al_FrozenAmount l = 0 then ''consumed'' else al_Status l),
     al_Version := al_Version x + 1\<rparr>)"
  define rows where "rows = update_where (\<lambda>x. al_ID x = al_ID l) g (asset_lots w)"
  have l: "l \<in> set (asset_lots w)" "0 < al_AvailableAmount l" "l \<notin> set ls" using Cons.prems by auto
  have use: "0 < use" "use = min rem (al_AvailableAmount l)" using l(2) Cons.prems(6) by (auto simp: use_def min64_def)
  have rest: "i64 (rem - use) = rem - use" using use Cons.prems(7) by (intro i64_id) auto
  from Cons.prems(1) use(1) obtain w1 n where "db_updates (lot_t S) (\<lambda>x. al_ID x = al_ID l) g w = (Inr n, w1)"
    and tail: "(if rem - use = 0 then go_ok () else consume_loop S ls (rem - use)) w1 = (Inr u, w')"
    by (auto simp: Let_def use_def [symmetric] g_def [symmetric] rest elim!: go_elims)
  then have w1: "w1 = w\<lparr>asset_lots := rows\<rparr>" using lot_update_done unfolding rows_def by simp
  have ids: "map al_ID rows = map al_ID (asset_lots w)" unfolding rows_def by (rule map_update_where) (simp add: g_def)
  have row: "x = g l \<or> (x \<in> set (asset_lots w) \<and> x \<noteq> l)" if "x \<in> set rows" for x
    using in_update_where_key [OF Cons.prems(2) l(1)] that by (auto simp: rows_def)
  have head: "share rem (takeWhile (\<lambda>z. z \<noteq> l) (l # ls)) l = use" using use l(2) Cons.prems(6) by (simp add: share_def)
  have pos: "0 \<le> sum_list (map al_AvailableAmount (takeWhile P ls))" for P
    using Cons.prems(5) by (intro sum_list_nonneg) (auto dest!: set_takeWhileD)
  have later: "share rem (takeWhile (\<lambda>z. z \<noteq> y) (l # ls)) y = share (rem - use) (takeWhile (\<lambda>z. z \<noteq> y) ls) y" if "y \<in> set ls" for y
  proof -
    have "y \<noteq> l" "0 < al_AvailableAmount y" using that l(3) Cons.prems(5) by auto
    then show ?thesis using use pos [of "\<lambda>z. z \<noteq> y"] by (cases "rem \<le> al_AvailableAmount l") (auto simp: share_def)
  qed
  have tailv: "map al_ID (asset_lots w') = map al_ID rows \<and> (\<forall>x\<in>set (asset_lots w'). \<exists>y\<in>set rows. al_ID y = al_ID x \<and>
      al_AvailableAmount x = al_AvailableAmount y - (if y \<in> set ls then share (rem - use) (takeWhile (\<lambda>z. z \<noteq> y) ls) y else 0))"
  proof (cases "rem = use")
    case True
    have "share 0 es y = 0" if "y \<in> set ls" "0 \<le> sum_list (map al_AvailableAmount es)" for y es
      using that Cons.prems(5) by (auto simp: share_def)
    then show ?thesis using tail True pos by (fastforce simp: w1)
  next
    case False
    have "set ls \<subseteq> set rows"
    proof
      fix x assume "x \<in> set ls"
      then have "x \<in> set (asset_lots w)" "al_ID x \<noteq> al_ID l" using Cons.prems(3,4) by (auto simp: image_iff)
      then show "x \<in> set rows" by (auto simp: rows_def set_update_where)
    qed
    moreover have "consume_loop S ls (rem - use) w1 = (Inr u, w')" using tail False by simp
    moreover have "0 < rem - use" "rem - use < 2 ^ 63" using False use Cons.prems(7) by auto
    ultimately show ?thesis using Cons.IH [of "rem - use" w1] Cons.prems(2,4,5) ids by (simp add: w1)
  qed
  show ?case
  proof (intro conjI ballI)
    show "map al_ID (asset_lots w') = map al_ID (asset_lots w)" using tailv ids by simp
    fix x assume "x \<in> set (asset_lots w')"
    then obtain y where y: "y \<in> set rows" "al_ID y = al_ID x" "al_AvailableAmount x = al_AvailableAmount y -
        (if y \<in> set ls then share (rem - use) (takeWhile (\<lambda>z. z \<noteq> y) ls) y else 0)" using tailv by blast
    from row [OF y(1)] show "\<exists>y\<in>set (asset_lots w). al_ID y = al_ID x \<and> al_AvailableAmount x = al_AvailableAmount y -
       (if y \<in> set (l # ls) then share rem (takeWhile (\<lambda>z. z \<noteq> y) (l # ls)) y else 0)"
    proof
      assume g: "y = g l"
      have "al_ID (g l) = al_ID l" by (simp add: g_def)
      then have "g l \<notin> set ls" using Cons.prems(4) by (auto simp: image_iff) 
      then show ?thesis using y g l(1) head by (intro bexI [of _ l]) (simp_all add: g_def)
    next
      assume "y \<in> set (asset_lots w) \<and> y \<noteq> l"
      then show ?thesis using y later [of y] by (intro bexI [of _ y]) auto
    qed
  qed
qed simp

lemma consumeLots_shares:
  assumes run: "consumeLots S a amount w = (Inr u, w')" and ok: "lots_ok w" and am: "0 < amount" "amount < 2 ^ 63"
    and x: "x \<in> set (asset_lots w')"
  shows "\<exists>y\<in>set (asset_lots w). al_ID y = al_ID x \<and> al_AvailableAmount x = al_AvailableAmount y -
    (if spendable a y then share amount (earlier_lots a (asset_lots w) y) y else 0)"
proof -
  have ids: "distinct (map al_ID (asset_lots w))" and lok: "\<forall>l\<in>set (asset_lots w). lot_ok l" using ok by (simp_all add: lots_ok_def)
  obtain ls where ls: "sql_ordered (lotE S) (\<lambda>l. al_AccountID l = a \<and> 0 < al_AvailableAmount l) lot_order (asset_lots w) = Inr ls"
    and loop: "consume_loop S ls amount w = (Inr u, w')"
    using run unfolding consumeLots_def by (auto simp: db_ordered_inv lot_t_def elim!: go_elims)
  note set = ordered_lots [OF ls ids]
  have ms: "mset ls = mset (filter (spendable a) (asset_lots w))" and srt: "sorted (map lot_order ls)"
    using lot.ordered_rows [OF ls] by (simp_all add: spendable_def [abs_def])
  have dist: "distinct (map lot_order ls)"
    using set(2) by (auto simp: distinct_map inj_on_def dest: lot_order_inj)
  have "\<forall>l\<in>set ls. 0 < al_AvailableAmount l \<and> al_AvailableAmount l < 2 ^ 63"
    using lok set(1) by (auto simp: lot_ok_def asset_lot_fits_def)
  with set ids am have "\<exists>y\<in>set (asset_lots w). al_ID y = al_ID x \<and> al_AvailableAmount x = al_AvailableAmount y -
       (if y \<in> set ls then share amount (takeWhile (\<lambda>l. l \<noteq> y) ls) y else 0)"
    using consume_loop_shares [OF loop ids] x by blast
  then obtain y where y: "y \<in> set (asset_lots w)" "al_ID y = al_ID x" "al_AvailableAmount x = al_AvailableAmount y -
       (if y \<in> set ls then share amount (takeWhile (\<lambda>l. l \<noteq> y) ls) y else 0)" by blast
  have "sum_list (map al_AvailableAmount (takeWhile (\<lambda>l. l \<noteq> y) ls)) =
      sum_list (map al_AvailableAmount (earlier_lots a (asset_lots w) y))" if "y \<in> set ls"
  proof -
    have "mset (filter (\<lambda>l. lot_order l < lot_order y) ls) = mset (earlier_lots a (asset_lots w) y)"
      by (simp only: earlier_lots_def mset_filter ms filter_filter_mset)
    then show ?thesis unfolding takeWhile_sorted [OF srt dist that] by (rule sum_list_mset_eq)
  qed
  moreover have "y \<in> set ls \<longleftrightarrow> spendable a y" using set(1) y(1) by (auto simp: spendable_def)
  ultimately show ?thesis using y by (intro bexI [of _ y]) (auto simp: share_def)
qed

end

end
