(* ===== verification/Member_Tiers.thy ===== *)
theory Member_Tiers
  imports Member_System
begin

text \<open>
  The member tiers: \<open>refreshMemberProfile\<close> reads the rule set in force, picks the tier of the growth value and writes the
  profile, with a history row and an event when the tier changes.
\<close>

subsection \<open>The tier of a growth value\<close>

lemma tier_for_snoc [simp]: "tier_for [] g = ''normal''"
  "tier_for (rules @ [r]) g = (if trl_MinGrowth r \<le> g then trl_TierCode r else tier_for rules g)"
  by (simp_all add: tier_for_def)

text \<open>The specification: \<open>tier_reached rules g tier\<close> says that \<open>tier\<close> belongs to the highest threshold that \<open>g\<close> meets.\<close>

definition tier_reached :: "tier_rule list \<Rightarrow> int \<Rightarrow> string \<Rightarrow> bool" where
  "tier_reached rules g tier \<longleftrightarrow>
     (if \<exists>r\<in>set rules. trl_MinGrowth r \<le> g
      then \<exists>r\<in>set rules. trl_TierCode r = tier \<and> trl_MinGrowth r \<le> g \<and>
             (\<forall>q\<in>set rules. trl_MinGrowth q \<le> g \<longrightarrow> trl_MinGrowth q \<le> trl_MinGrowth r)
      else tier = ''normal'')"

lemma tier_for_reached: "sorted (map trl_MinGrowth rules) \<Longrightarrow> tier_reached rules g (tier_for rules g)"
proof (induction rules rule: rev_induct)
  case (snoc x rules)
  then have IH: "tier_reached rules g (tier_for rules g)" and below: "\<And>r. r \<in> set rules \<Longrightarrow> trl_MinGrowth r \<le> trl_MinGrowth x"
    by (auto simp: sorted_append)
  show ?case
  proof (cases "trl_MinGrowth x \<le> g")
    case True
    then show ?thesis using below by (auto simp: tier_reached_def)
  next
    case False
    then show ?thesis using IH by (auto simp: tier_reached_def)
  qed
qed (simp add: tier_reached_def)

lemma tier_reached_mset: "mset rules = mset rules' \<Longrightarrow> tier_reached rules g = tier_reached rules' g"
  unfolding tier_reached_def by (drule mset_eq_setD) simp

definition rules_in_force :: "member_world \<Rightarrow> tier_rule_set \<Rightarrow> bool" where
  "rules_in_force w R \<longleftrightarrow> R \<in> set (tier_rule_sets w) \<and> trs_Status R = ''active'' \<and> trs_EffectiveAt R \<le> mw_wall w \<and>
     (\<forall>Q\<in>set (tier_rule_sets w). trs_Status Q = ''active'' \<and> trs_EffectiveAt Q \<le> mw_wall w \<longrightarrow>
        [- trs_EffectiveAt R, - uint (trs_ID R)] \<le> [- trs_EffectiveAt Q, - uint (trs_ID Q)])"

lemma ordered_first_in_force:
  assumes "gorm_table (ruleSetE S) clash fits"
    and "sql_ordered (tbl_engine (rule_set_t S)) (\<lambda>r. trs_Status r = ''active'' \<and> trs_EffectiveAt r \<le> mw_wall w)
       (\<lambda>r. [- trs_EffectiveAt r, - uint (trs_ID r)]) (tbl_rows (rule_set_t S) w) = Inr (R # Rs)"
  shows "rules_in_force w R"
proof -
  let ?p = "\<lambda>r. trs_Status r = ''active'' \<and> trs_EffectiveAt r \<le> mw_wall w" and ?key = "\<lambda>r. [- trs_EffectiveAt r, - uint (trs_ID r)]"
  have same: "mset (R # Rs) = mset (filter ?p (tier_rule_sets w))" and sorted: "sorted (map ?key (R # Rs))"
    using gorm_table.ordered_rows [OF assms(1), of ?p ?key "tier_rule_sets w" "R # Rs"] assms(2) by (simp_all add: rule_set_t_def)
  have "set (R # Rs) = {r \<in> set (tier_rule_sets w). ?p r}" using mset_eq_setD [OF same] by simp
  then have "\<And>Q. Q \<in> set (tier_rule_sets w) \<Longrightarrow> ?p Q \<Longrightarrow> Q = R \<or> Q \<in> set Rs" "R \<in> set (tier_rule_sets w)" "?p R"
    by auto
  then show ?thesis using sorted unfolding rules_in_force_def by auto
qed

subsection \<open>The refreshed profile\<close>

lemma keeps_profiles [intro]:
  "go_keeps (\<lambda>w. profiles w = ps) next_id" "go_keeps (\<lambda>w. profiles w = ps) now_utc"
  "go_keeps (\<lambda>w. profiles w = ps) (new_uuid S)"
  "go_keeps (\<lambda>w. profiles w = ps) (db_create (history_t S) h)" "go_keeps (\<lambda>w. profiles w = ps) (db_create (outbox_t S) e)"
  by (auto simp: go_keeps_def next_id_def now_utc_def new_uuid_def go_call_def db_create_def member_tables
      split: prod.splits sum.splits)

lemma keeps_profiles_outbox: "go_keeps (\<lambda>w. profiles w = ps) (create_outbox S e i p)"
  unfolding create_outbox_def outbox_def by (intro go_keeps_rules keeps_profiles)

lemma now_utc_run: "now_utc w = (r, w') \<longleftrightarrow> r = Inr (mw_wall w) \<and> w' = w"
  by (auto simp: now_utc_def go_call_def)

lemma refresh_announced:
  assumes "(if changed then
      go_bind next_id (\<lambda>i. go_bind (new_uuid S) (\<lambda>u. go_bind (db_create (history_t S) (h i u)) (\<lambda>_. create_outbox S e k (p u))))
    else go_ok ()) w = (r, w')"
  shows "profiles w' = profiles w"
proof -
  have "go_keeps (\<lambda>v. profiles v = profiles w) (if changed then
      go_bind next_id (\<lambda>i. go_bind (new_uuid S) (\<lambda>u. go_bind (db_create (history_t S) (h i u)) (\<lambda>_. create_outbox S e k (p u))))
    else go_ok ())"
    by (intro go_keeps_rules keeps_profiles keeps_profiles_outbox)
  from go_keepsD [OF this assms] show ?thesis by simp
qed

lemma refresh_cases:
  assumes run: "refreshMemberProfile S c g t w = (Inr u, w')"
  obtains R Rs rules rows before changed n where
    "sql_ordered (ruleSetE S) (\<lambda>r. trs_Status r = ''active'' \<and> trs_EffectiveAt r \<le> mw_wall w)
       (\<lambda>r. [- trs_EffectiveAt r, - uint (trs_ID r)]) (tier_rule_sets w) = Inr (R # Rs)"
    and "sql_ordered (ruleE S) (\<lambda>r. trl_RuleSetID r = trs_ID R) (\<lambda>r. [trl_MinGrowth r]) (tier_rules w) = Inr rules"
    and "sql_create_ignore (profileE S) \<lparr>mp_CustomerID = c, mp_CurrentGrowth = 0, mp_TierCode = ''normal'',
            mp_RuleSetID = trs_ID R, mp_TierEffectiveAt = mw_wall w, mp_Version = 1\<rparr> (profiles w) = Inr rows"
    and "sql_take (profileE S) (\<lambda>p. mp_CustomerID p = c) rows = Inr before"
    and "sql_updates (profileE S) (\<lambda>p. mp_CustomerID p = c)
           (\<lambda>p. p\<lparr>mp_CurrentGrowth := g, mp_TierCode := tier_for rules g, mp_RuleSetID := trs_ID R,
              mp_Version := mp_Version p + 1,
              mp_TierEffectiveAt := (if changed then mw_wall w else mp_TierEffectiveAt p)\<rparr>) rows = Inr (profiles w', n)"
proof -
  from run obtain at w1 found w2 where at: "now_utc w = (Inr at, w1)"
    and found: "db_ordered (rule_set_t S) (\<lambda>r. trs_Status r = ''active'' \<and> trs_EffectiveAt r \<le> at)
       (\<lambda>r. [- trs_EffectiveAt r, - uint (trs_ID r)]) w1 = (Inr found, w2)" and "found \<noteq> []"
    unfolding refreshMemberProfile_def by (elim go_bindE) (auto split: list.splits elim: go_errE)
  then obtain R Rs where R: "found = R # Rs" by (cases found) auto
  have w: "w1 = w" "at = mw_wall w" "w2 = w" using at found by (simp_all add: now_utc_run db_ordered_inv)
  from run at found R obtain rules now n1 before w3 w4 w5 w6 w7 changed x y n where
    rules: "db_ordered (rule_t S) (\<lambda>r. trl_RuleSetID r = trs_ID R) (\<lambda>r. [trl_MinGrowth r]) w2 = (Inr rules, w3)"
    and now: "now_utc w3 = (Inr now, w4)"
    and seed: "db_create_ignore (profile_t S) \<lparr>mp_CustomerID = c, mp_CurrentGrowth = 0, mp_TierCode = ''normal'',
            mp_RuleSetID = trs_ID R, mp_TierEffectiveAt = now, mp_Version = 1\<rparr> w4 = (Inr n1, w5)"
    and before: "db_take (profile_t S) (\<lambda>p. mp_CustomerID p = c) w5 = (Inr before, w6)"
    and kept: "profiles w7 = profiles w6"
    and upd: "db_updates (profile_t S) (\<lambda>p. mp_CustomerID p = c)
           (\<lambda>p. p\<lparr>mp_CurrentGrowth := g, mp_TierCode := tier_for rules g, mp_RuleSetID := trs_ID R,
              mp_Version := mp_Version p + 1,
              mp_TierEffectiveAt := (if changed then now else mp_TierEffectiveAt p)\<rparr>) w7 = (Inr n, w')"
    unfolding refreshMemberProfile_def Let_def
    by simp (elim go_bindE go_okE, simp, drule refresh_announced, simp)
  show thesis
    by (rule that [of R Rs rules "profiles w5" before changed n])
      (use R w found rules now seed before kept upd in \<open>simp_all add: go_inv now_utc_run member_tables, auto?\<close>)
qed

text \<open>C29: Refreshing a member profile records the growth value and the tier that the rule set in force gives it: the rule with
  the highest threshold met, or the normal tier when no threshold is met. The rule set in force is the active one with the
  latest effective time that is not in the future. The customer has a profile afterwards, and the profiles of other customers
  stay as they are.\<close>

theorem member_tier_refreshed:
  assumes sets: "gorm_table (ruleSetE S) clash1 fits1" and rules: "gorm_table (ruleE S) clash2 fits2"
    and prof: "gorm_table (profileE S) (\<lambda>p q. mp_CustomerID p = mp_CustomerID q) fits3"
    and run: "refreshMemberProfile S c g t w = (Inr u, w')"
  shows "\<exists>R. rules_in_force w R \<and> (\<exists>p\<in>set (profiles w'). mp_CustomerID p = c) \<and>
    (\<forall>p\<in>set (profiles w'). mp_CustomerID p = c \<longrightarrow> mp_CurrentGrowth p = g \<and> mp_RuleSetID p = trs_ID R \<and>
       tier_reached (filter (\<lambda>r. trl_RuleSetID r = trs_ID R) (tier_rules w)) g (mp_TierCode p)) \<and>
    filter (\<lambda>p. mp_CustomerID p \<noteq> c) (profiles w') = filter (\<lambda>p. mp_CustomerID p \<noteq> c) (profiles w)"
  using run
proof (cases rule: refresh_cases)
  case (1 R Rs found rows before changed n)
  let ?f = "\<lambda>p. p\<lparr>mp_CurrentGrowth := g, mp_TierCode := tier_for found g, mp_RuleSetID := trs_ID R,
      mp_Version := mp_Version p + 1, mp_TierEffectiveAt := (if changed then mw_wall w else mp_TierEffectiveAt p)\<rparr>"
  have force: "rules_in_force w R" using ordered_first_in_force [OF sets] 1(1) by (simp add: rule_set_t_def)
  have same: "mset found = mset (filter (\<lambda>r. trl_RuleSetID r = trs_ID R) (tier_rules w))"
    and "sorted (map (\<lambda>r. [trl_MinGrowth r]) found)" using gorm_table.ordered_rows [OF rules 1(2)] by simp_all
  then have "sorted (map trl_MinGrowth found)" by (simp add: sorted_iff_nth_mono le_less)
  then have tier: "tier_reached (filter (\<lambda>r. trl_RuleSetID r = trs_ID R) (tier_rules w)) g (tier_for found g)"
    using tier_for_reached [of found g] tier_reached_mset [OF same, of g] by metis
  have upd: "profiles w' = update_where (\<lambda>p. mp_CustomerID p = c) ?f rows" by (rule gorm_table.updates_rows [OF prof 1(5)])
  have mine: "before \<in> set rows" "mp_CustomerID before = c" using gorm_table.take_row [OF prof 1(4)] by simp_all
  have seeded: "filter (\<lambda>p. mp_CustomerID p \<noteq> c) rows = filter (\<lambda>p. mp_CustomerID p \<noteq> c) (profiles w)"
    using gorm_table.create_ignore [OF prof 1(3)] by simp
  have "filter (\<lambda>p. mp_CustomerID p \<noteq> c) (update_where (\<lambda>p. mp_CustomerID p = c) ?f rows) = filter (\<lambda>p. mp_CustomerID p \<noteq> c) rows"
    by (induction rows) (auto simp: update_where_def)
  then have others: "filter (\<lambda>p. mp_CustomerID p \<noteq> c) (profiles w') = filter (\<lambda>p. mp_CustomerID p \<noteq> c) (profiles w)"
    by (simp only: upd seeded)
  have "?f before \<in> set (profiles w')" using mine unfolding upd set_update_where by blast
  then have some: "\<exists>p\<in>set (profiles w'). mp_CustomerID p = c" by (rule bexI [rotated]) (simp add: mine)
  have written: "mp_CurrentGrowth p = g" "mp_RuleSetID p = trs_ID R" "mp_TierCode p = tier_for found g"
    if p: "p \<in> set (profiles w')" "mp_CustomerID p = c" for p
  proof -
    obtain q where "p = ?f q" using p unfolding upd set_update_where by blast
    then show "mp_CurrentGrowth p = g" "mp_RuleSetID p = trs_ID R" "mp_TierCode p = tier_for found g" by simp_all
  qed
  show ?thesis
  proof (intro exI conjI ballI impI)
    show "rules_in_force w R" by (rule force)
  next
    fix p assume p: "p \<in> set (profiles w')" "mp_CustomerID p = c"
    show "tier_reached (filter (\<lambda>r. trl_RuleSetID r = trs_ID R) (tier_rules w)) g (mp_TierCode p)"
      unfolding written(3) [OF p] by (rule tier)
  qed (use some others written in simp_all)
qed

text \<open>A demonstration: two rule sets, of which the second is in force, and a customer with 1200 growth.\<close>

definition demo_tiers :: member_world where
  "demo_tiers = member_demo
     \<lparr>tier_rule_sets :=
        [\<lparr>trs_ID = 1, trs_Version = ''v1'', trs_Status = ''active'', trs_EffectiveAt = 0\<rparr>,
         \<lparr>trs_ID = 2, trs_Version = ''v2'', trs_Status = ''active'', trs_EffectiveAt = 5\<rparr>],
      tier_rules :=
        [\<lparr>trl_RuleSetID = 2, trl_TierCode = ''gold'', trl_MinGrowth = 5000\<rparr>,
         \<lparr>trl_RuleSetID = 2, trl_TierCode = ''silver'', trl_MinGrowth = 1000\<rparr>,
         \<lparr>trl_RuleSetID = 1, trl_TierCode = ''old'', trl_MinGrowth = 0\<rparr>],
      profiles :=
        [\<lparr>mp_CustomerID = 8, mp_CurrentGrowth = 6000, mp_TierCode = ''gold'', mp_RuleSetID = 2, mp_TierEffectiveAt = 0, mp_Version = 4\<rparr>]\<rparr>"

theorem member_tier_refreshed_witness:
  "\<exists>w'. refreshMemberProfile mem_member 7 1200 3 demo_tiers = (Inr (), w') \<and> length (tier_histories w') = 1 \<and>
     (\<exists>R. rules_in_force demo_tiers R \<and>
       (\<exists>p\<in>set (profiles w'). mp_CustomerID p = 7 \<and> mp_CurrentGrowth p = 1200 \<and>
         tier_reached (filter (\<lambda>r. trl_RuleSetID r = trs_ID R) (tier_rules demo_tiers)) 1200 (mp_TierCode p)))"
proof -
  have tables: "gorm_table (ruleSetE mem_member) (=) (\<lambda>_. True)" "gorm_table (ruleE mem_member) (=) (\<lambda>_. True)"
    "gorm_table (profileE mem_member) (\<lambda>p q. mp_CustomerID p = mp_CustomerID q) (\<lambda>_. True)"
    by (simp_all add: mem_member_def mem_table.gorm_table_axioms)
  have "\<exists>w'. refreshMemberProfile mem_member 7 1200 3 demo_tiers = (Inr (), w') \<and> length (tier_histories w') = 1"
    by (simp add: member_eval mem_member_def member_demo_def demo_tiers_def refreshMemberProfile_def tier_for_def demo_wall_def
        unix_epoch_def nanos_per_milli_def nanos_per_second_def cong: run_bind_cong run_try_cong run_cont_cong)
  then obtain w' where run: "refreshMemberProfile mem_member 7 1200 3 demo_tiers = (Inr (), w')" and "length (tier_histories w') = 1"
    by blast
  then show ?thesis using member_tier_refreshed [OF tables run] by fastforce
qed

end
