(* ===== verification/Member_Properties.thy ===== *)
theory Member_Properties
  imports Member_History Member_Spending Member_Tiers
begin

text \<open>
  The properties of the member asset service, over the operations \<open>Credit\<close>, \<open>Debit\<close>, \<open>Reverse\<close>, \<open>Freeze\<close>,
  \<open>Commit\<close>, \<open>Release\<close> and the two expiry workers, for every database that keeps the laws of \<open>member_store\<close>.
\<close>

subsection \<open>Shared facts\<close>

lemma demo_store: "member_store mem_member (\<lambda>_. True) (\<lambda>_. True) (\<lambda>_. True) (\<lambda>_. True)"
  by (rule mem_store.member_store_axioms)

lemma reach_one: "member_reach S w (run_member S op w)"
  by (rule member_reach.step [OF member_reach.start member_step.operation])

text \<open>A demonstration of a debit.\<close>

definition demo_debit :: "int64 \<Rightarrow> Command" where
  "demo_debit amount = demo_credit amount\<lparr>cm_SourceID := ''a2'', cm_IdempotencyKey := ''key-0002''\<rparr>"

lemmas demo_defs = mem_member_def member_demo_def demo_ledger_def demo_credit_def demo_debit_def
lemmas run_congs = run_bind_cong run_try_cong run_cont_cong

lemma demo_debit_ok: "\<exists>d. fst (Debit mem_member (demo_debit 200) demo_ledger) = Inr d \<and> td_BalanceAfter d = 300"
  by (simp add: member_eval demo_defs cong: run_congs)

text \<open>The operations that answer with one result; a worker reports its progress instead.\<close>

fun member_fails :: "member_env \<Rightarrow> member_op \<Rightarrow> member_world \<Rightarrow> bool" where
  "member_fails S (OpCredit c) w = isl (fst (Credit S c w))"
| "member_fails S (OpDebit c) w = isl (fst (Debit S c w))"
| "member_fails S (OpReverse c) w = isl (fst (Reverse S c w))"
| "member_fails S (OpFreezeAsset c) w = isl (fst (asset_Freeze S c w))"
| "member_fails S (OpCommit c) w = isl (fst (Commit S c w))"
| "member_fails S (OpRelease c) w = isl (fst (Release S c w))"
| "member_fails S (OpExpireLots n) w = False"
| "member_fails S (OpExpireHolds n) w = False"

lemma prod_fst_eq: "fst p = a \<Longrightarrow> (p = (a, snd p) \<Longrightarrow> R) \<Longrightarrow> R"
  by (cases p) simp

subsection \<open>Open holds\<close>

lemma alloc_sum_keys:
  assumes "distinct ks"
  shows "sum_list (map (\<lambda>k. alloc_sum f (\<lambda>x. key x = k) xs) ks) = alloc_sum f (\<lambda>x. key x \<in> set ks) xs"
  using assms
proof (induction ks)
  case Nil
  then show ?case by (simp add: alloc_sum_def)
next
  case (Cons k ks)
  have "alloc_sum f (\<lambda>x. key x \<in> set (k # ks)) xs = alloc_sum f (\<lambda>x. key x = k) xs + alloc_sum f (\<lambda>x. key x \<in> set ks) xs"
    using Cons.prems by (induction xs) auto
  then show ?case using Cons by simp
qed

lemma alloc_sum_cong: "(\<And>x. x \<in> set xs \<Longrightarrow> P x = Q x) \<Longrightarrow> alloc_sum f P xs = alloc_sum f Q xs"
  by (simp add: alloc_sum_def cong: filter_cong)

lemma alloc_sum_open:
  "alloc_sum alloc_open P xs = alloc_sum hl_Amount P xs - alloc_sum hl_CommittedAmount P xs - alloc_sum hl_ReleasedAmount P xs"
  by (induction xs) (auto simp: alloc_open_def)

definition hold_open :: "Hold \<Rightarrow> int" where
  "hold_open h = hd_OriginalAmount h - hd_CommittedAmount h - hd_ReleasedAmount h"

text \<open>What is frozen on an account is what its holds still keep.\<close>

lemma frozen_held:
  assumes lots: "lots_ok w" and hok: "holds_ok w"
  shows "lot_sum al_FrozenAmount (of_account a) (asset_lots w) =
    sum_list (map hold_open (filter (\<lambda>h. hd_AccountID h = a) (holds w)))"
proof -
  let ?ls = "filter (of_account a) (asset_lots w)" and ?hs = "filter (\<lambda>h. hd_AccountID h = a) (holds w)"
  have ids: "distinct (map al_ID (asset_lots w))" "distinct (map hd_ID (holds w))" using lots hok by (simp_all add: lots_ok_def holds_ok_def)
  have "al_FrozenAmount l = alloc_sum alloc_open (of_lot (al_ID l)) (hold_lots w)" if "l \<in> set ?ls" for l
  proof -
    have "frozen_of (al_ID l) (asset_lots w) = al_FrozenAmount l"
      using ids(1) that filter_key_singleton [of al_ID "asset_lots w" l] by (simp add: lot_sum_def)
    then show ?thesis using hok by (simp add: holds_ok_def)
  qed
  then have "lot_sum al_FrozenAmount (of_account a) (asset_lots w) =
      sum_list (map (\<lambda>i. alloc_sum alloc_open (of_lot i) (hold_lots w)) (map al_ID ?ls))"
    unfolding lot_sum_def map_map comp_def by (intro arg_cong [where f = sum_list] map_cong refl)
  also have "\<dots> = alloc_sum alloc_open (\<lambda>x. hl_LotID x \<in> set (map al_ID ?ls)) (hold_lots w)"
    using ids(1) by (intro alloc_sum_keys distinct_map_filter)
  also have "\<dots> = alloc_sum alloc_open (\<lambda>x. hl_HoldID x \<in> set (map hd_ID ?hs)) (hold_lots w)"
  proof (rule alloc_sum_cong)
    fix x assume "x \<in> set (hold_lots w)"
    then obtain h l where hl: "h \<in> set (holds w)" "hd_ID h = hl_HoldID x" "l \<in> set (asset_lots w)" "al_ID l = hl_LotID x" "al_AccountID l = hd_AccountID h"
      using hok by (fastforce simp: holds_ok_def alloc_placed_def)
    then have "hl_LotID x \<in> set (map al_ID ?ls) \<longleftrightarrow> hd_AccountID h = a" "hl_HoldID x \<in> set (map hd_ID ?hs) \<longleftrightarrow> hd_AccountID h = a"
      using ids by (auto simp: image_iff dest: distinct_key_unique)
    then show "(hl_LotID x \<in> set (map al_ID ?ls)) = (hl_HoldID x \<in> set (map hd_ID ?hs))" by simp
  qed
  also have "\<dots> = sum_list (map (\<lambda>i. alloc_sum alloc_open (of_hold i) (hold_lots w)) (map hd_ID ?hs))"
    using ids(2) by (intro alloc_sum_keys [symmetric] distinct_map_filter)
  also have "\<dots> = sum_list (map hold_open ?hs)"
    unfolding map_map comp_def
  proof (intro arg_cong [where f = sum_list] map_cong refl)
    fix h assume "h \<in> set ?hs"
    then have "hold_ok w h" using hok by (simp add: holds_ok_def)
    then show "alloc_sum alloc_open (of_hold (hd_ID h)) (hold_lots w) = hold_open h"
      by (simp add: alloc_sum_open hold_ok_def hold_open_def)
  qed
  finally show ?thesis .
qed

subsection \<open>In every database with the laws of the tables\<close>

lemma posted_result:
  assumes "posted S cmd delta ro d w w'" and "ledger_ok w" and "ledger_ok w'"
  shows "holding w' = (holding w)
      (available_of (cm_CustomerID cmd) (cm_AssetType cmd) (cm_Unit cmd) := holding w (available_of (cm_CustomerID cmd) (cm_AssetType cmd) (cm_Unit cmd)) + delta,
       control_of (cm_AssetType cmd) (cm_Unit cmd) := holding w (control_of (cm_AssetType cmd) (cm_Unit cmd)) - delta)"
    "td_BalanceAfter d = holding w (available_of (cm_CustomerID cmd) (cm_AssetType cmd) (cm_Unit cmd)) + delta"
    "td_AvailableDelta d = delta"
    "\<exists>row. asset_transactions w' = asset_transactions w @ [row] \<and> atx_Amount row = sint (cm_Amount cmd) \<and> td_ID d = idString (atx_ID row) \<and>
       by_source (cm_SourceType cmd) (cm_SourceID cmd) (cm_Action cmd) row"
proof -
  have p: "paid w w' (cm_CustomerID cmd) (cm_AssetType cmd) (cm_Unit cmd) delta"
    "payable w (cm_CustomerID cmd) (cm_AssetType cmd) (cm_Unit cmd) delta" using assms(1) by (simp_all add: posted_def)
  show "holding w' = (holding w)
      (available_of (cm_CustomerID cmd) (cm_AssetType cmd) (cm_Unit cmd) := holding w (available_of (cm_CustomerID cmd) (cm_AssetType cmd) (cm_Unit cmd)) + delta,
       control_of (cm_AssetType cmd) (cm_Unit cmd) := holding w (control_of (cm_AssetType cmd) (cm_Unit cmd)) - delta)"
    unfolding paid_shift [OF assms(2,3) p(1)] using p(2) by (auto simp: shift_def payable_def)
  show "td_BalanceAfter d = holding w (available_of (cm_CustomerID cmd) (cm_AssetType cmd) (cm_Unit cmd)) + delta" "td_AvailableDelta d = delta"
    using assms(1) by (auto simp: posted_def dtoFromTransaction_def)
  show "\<exists>row. asset_transactions w' = asset_transactions w @ [row] \<and> atx_Amount row = sint (cm_Amount cmd) \<and> td_ID d = idString (atx_ID row) \<and>
       by_source (cm_SourceType cmd) (cm_SourceID cmd) (cm_Action cmd) row"
    using assms(1) by (auto simp: posted_def dtoFromTransaction_def transfer_row_def by_source_def)
qed

context member_store
begin

lemma debit_exact:
  assumes ok: "member_ok w" and run: "Debit S cmd w = (Inr d, w')"
    and new: "\<And>t. t \<in> set (asset_transactions w) \<Longrightarrow> \<not> by_source (cm_SourceType cmd) (cm_SourceID cmd) ''debit'' t"
  shows "let a = available_of (cm_CustomerID cmd) (cm_AssetType cmd) (cm_Unit cmd);
             b = control_of (cm_AssetType cmd) (cm_Unit cmd); x = sint (cm_Amount cmd) in
    0 < x \<and> x \<le> holding w a \<and> holding w' = (holding w)(a := holding w a - x, b := holding w b + x) \<and>
    td_BalanceAfter d = holding w a - x \<and> td_AvailableDelta d = - x \<and>
    (\<exists>row. asset_transactions w' = asset_transactions w @ [row] \<and> atx_Amount row = x \<and> td_ID d = idString (atx_ID row) \<and>
       by_source (cm_SourceType cmd) (cm_SourceID cmd) ''debit'' row)"
proof -
  let ?c = "cmd\<lparr>cm_Action := ''debit''\<rparr>"
  have run: "postTransferWithDB S ?c (-1) None w = (Inr d, w')" using run by (simp add: Debit_def postTransfer_def)
  have led: "ledger_ok w" "ledger_ok w'" using ok postTransfer_ok [OF run ok] by (simp_all add: member_ok_def)
  from run ok disjI2 [OF refl] show ?thesis
  proof (cases rule: postTransfer_cases)
    case (replay d' at t)
    then show ?thesis using new [of t] by simp
  next
    case (fresh d' at)
    then have p: "posted S (?c\<lparr>cm_OccurredAt := at\<rparr>) (- sint (cm_Amount cmd)) None d w w'" by simp
    have "sint (cm_Amount cmd) \<le> holding w (available_of (cm_CustomerID cmd) (cm_AssetType cmd) (cm_Unit cmd))"
      using p validated_amount [OF fresh(2)] by (simp add: posted_def payable_def)
    then show ?thesis
      using posted_result [OF p led] validated_amount [OF fresh(2)] by (simp add: Let_def)
  qed simp
qed

text \<open>An operation that returns an error has left the ledger as it was.\<close>

lemma failed_unchanged:
  assumes ok: "member_ok w"
  shows "Credit S cmd w = (Inl e, w') \<Longrightarrow> core w' = core w" "Debit S cmd w = (Inl e, w') \<Longrightarrow> core w' = core w"
    "Reverse S rcmd w = (Inl e, w') \<Longrightarrow> core w' = core w" "asset_Freeze S fcmd w = (Inl e, w') \<Longrightarrow> core w' = core w"
    "applyHold S hcmd commit w = (Inl e, w') \<Longrightarrow> core w' = core w"
proof -
  show "Credit S cmd w = (Inl e, w') \<Longrightarrow> core w' = core w"
    unfolding Credit_def postTransfer_def using ok by (elim postTransfer_cases) auto
  show "Debit S cmd w = (Inl e, w') \<Longrightarrow> core w' = core w"
    unfolding Debit_def postTransfer_def using ok by (elim postTransfer_cases) auto
  show "Reverse S rcmd w = (Inl e, w') \<Longrightarrow> core w' = core w"
    by (auto simp: Reverse_def split: if_splits dest: transaction_failed_core)
  show "asset_Freeze S fcmd w = (Inl e, w') \<Longrightarrow> core w' = core w" using ok by (elim Freeze_cases) auto
  show "applyHold S hcmd commit w = (Inl e, w') \<Longrightarrow> core w' = core w" using ok by (elim applyHold_cases) auto
qed

text \<open>Under a source that has been posted, a posting or a settlement has no effect.\<close>

lemma posted_source:
  assumes ok: "member_ok w" and t: "t \<in> set (asset_transactions w)" "by_source ty i a t"
  shows "postTransferWithDB S cmd direction ro w = (r, w') \<Longrightarrow> direction = 1 \<or> direction = -1 \<Longrightarrow>
      cm_SourceType cmd = ty \<Longrightarrow> cm_SourceID cmd = i \<Longrightarrow> cm_Action cmd = a \<Longrightarrow> core w' = core w"
    "applyHold S hcmd commit w = (r, w') \<Longrightarrow> hc_SourceType hcmd = ty \<Longrightarrow> hc_SourceID hcmd = i \<Longrightarrow> hc_Action hcmd = a \<Longrightarrow>
      core w' = core w"
proof -
  show "core w' = core w" if run: "postTransferWithDB S cmd direction ro w = (r, w')" "direction = 1 \<or> direction = -1"
    and k: "cm_SourceType cmd = ty" "cm_SourceID cmd = i" "cm_Action cmd = a"
    using run(1) ok run(2) by (cases rule: postTransfer_cases) (use t k in auto)
  show "core w' = core w" if run: "applyHold S hcmd commit w = (r, w')"
    and k: "hc_SourceType hcmd = ty" "hc_SourceID hcmd = i" "hc_Action hcmd = a"
    using run(1) ok by (cases rule: applyHold_cases) (use t k in auto)
qed

lemma posted_once:
  assumes ok: "member_ok w" and t: "t \<in> set (asset_transactions w)" and reach: "member_reach S w w'"
    and key: "by_source (cm_SourceType cmd) (cm_SourceID cmd) a t"
  shows "a = ''credit'' \<Longrightarrow> core (run_member S (OpCredit cmd) w') = core w'"
    "a = ''debit'' \<Longrightarrow> core (run_member S (OpDebit cmd) w') = core w'"
proof -
  note ok' = reach_ok [OF reach ok] and t' = reach_keeps [OF reach t]
  show "a = ''credit'' \<Longrightarrow> core (run_member S (OpCredit cmd) w') = core w'"
    using posted_source(1) [OF ok' t' key prod.collapse [symmetric], of 1 "cmd\<lparr>cm_Action := ''credit''\<rparr>" None]
    by (simp add: Credit_def postTransfer_def)
  show "a = ''debit'' \<Longrightarrow> core (run_member S (OpDebit cmd) w') = core w'"
    using posted_source(1) [OF ok' t' key prod.collapse [symmetric], of "-1" "cmd\<lparr>cm_Action := ''debit''\<rparr>" None]
    by (simp add: Debit_def postTransfer_def)
qed

text \<open>A hold that has reached an end stays there.\<close>

lemma terminal_hold:
  assumes ok: "member_ok w" and h: "h \<in> set (holds w)" "hd_ID h = hc_HoldID cmd" "hd_Status h \<in> {''committed'', ''released'', ''expired''}"
    and run: "applyHold S cmd commit w = (r, w')"
  shows "core w' = core w"
  using run ok
proof (cases rule: applyHold_cases)
  case (fresh d)
  then obtain g where "g \<in> set (holds w)" "hd_ID g = hc_HoldID cmd" "hd_Status g \<notin> {''committed'', ''released'', ''expired''}"
    unfolding settled_for_def by metis
  moreover have "g = h" using calculation(1,2) h ok by (metis distinct_key_unique holds_ok_def member_ok_def)
  ultimately show ?thesis using h(3) by simp
qed

lemma reversed_sum_append: "reversed_sum w' i = reversed_sum w i + (if atx_ReversalOfTransactionID row = Some i \<and> atx_Status row = ''posted'' then atx_Amount row else 0)"
  if "asset_transactions w' = asset_transactions w @ [row]"
  using that by (simp add: reversed_sum_def)

lemma reverse_bounded:
  assumes ok: "member_ok w" and run: "Reverse S cmd w = (r, w')" and t: "t \<in> set (asset_transactions w)"
    and bound: "reversed_sum w (atx_ID t) \<le> atx_Amount t" 
    and small: "reversed_sum w (atx_ID t) + (if sint (rv_Amount cmd) = 0 then atx_Amount t else sint (rv_Amount cmd)) < 2 ^ 63"
  shows "reversed_sum w' (atx_ID t) \<le> atx_Amount t"
  using run ok
proof (cases rule: Reverse_cases)
  case unchanged
  then have "reversed_sum w' = reversed_sum w" by (simp add: reversed_sum_def core_iff fun_eq_iff)
  then show ?thesis using bound by simp
next
  case (fresh original account amount)
  then obtain i j now where rows: "asset_transactions w' = asset_transactions w @ [reverse_row S cmd original amount i j now]"
    by (auto simp: posted_reversal_def Let_def)
  have keys: "distinct (map atx_ID (asset_transactions w))" and fits: "transaction_fits t" "\<forall>t\<in>set (asset_transactions w). transaction_fits t"
    using ok t by (simp_all add: member_ok_def ledger_ok_def keys_ok_def)
  have nn: "0 \<le> reversed_sum w k" for k
    unfolding reversed_sum_def using fits(2) by (intro sum_list_nonneg) (auto simp: transaction_fits_def)
  show ?thesis
  proof (cases "atx_ID original = atx_ID t")
    case True
    then have o: "original = t" using keys t fresh(1) by (metis distinct_key_unique)
    have "i64 (reversed_sum w (atx_ID t) + amount) = reversed_sum w (atx_ID t) + amount"
      using fresh(4,5) small nn [of "atx_ID t"] o by (cases "sint (rv_Amount cmd) = 0") simp_all
    then have "reversed_sum w (atx_ID t) + amount \<le> atx_Amount t" using fresh(6) o by simp
    then show ?thesis using reversed_sum_append [OF rows] o by (simp add: reverse_row_def)
  next
    case False
    then show ?thesis using reversed_sum_append [OF rows] bound by (simp add: reverse_row_def)
  qed
qed

end

subsection \<open>Properties\<close>

text \<open>C24: The books of the member asset ledger balance in every reachable world. Starting from empty tables, whatever
  operations are called, whether they succeed, fail or lose their commit: every balance is the sum of its ledger entries,
  the entries of each transaction sum to zero, the balances of a customer are the totals of the customer's lots, every lot
  accounts for all of its grant, and the frozen amount of every lot is what open holds have reserved of it.\<close>

theorem member_books_reachable:
  assumes "member_store S account_fits balance_fits hold_fits hold_lot_fits"
    and "empty_books w" and "member_reach S w w'"
  shows "ledger_ok w' \<and> lots_ok w' \<and> holds_ok w'"
  using member_store.reach_ok [OF assms(1,3) empty_books_ok [OF assms(2)]] by (simp add: member_ok_def)

theorem member_books_reachable_witness:
  "member_reach mem_member member_demo (run_member mem_member (OpCredit (demo_credit 500)) member_demo) \<and>
   ledger_ok (run_member mem_member (OpCredit (demo_credit 500)) member_demo)"
  using member_books_reachable [OF demo_store empty_demo reach_one, of "OpCredit (demo_credit 500)"] reach_one by blast



text \<open>C26: A debit that succeeds under a new source took exactly the amount from the customer's available balance, which
  covered it, gave it to the platform, changed no other balance, wrote one transaction row, and reports the new balance.\<close>

theorem member_debit_exact:
  assumes "member_store S account_fits balance_fits hold_fits hold_lot_fits" and "member_ok w"
    and "Debit S cmd w = (Inr d, w')"
    and "\<And>t. t \<in> set (asset_transactions w) \<Longrightarrow> \<not> by_source (cm_SourceType cmd) (cm_SourceID cmd) ''debit'' t"
  shows "let a = available_of (cm_CustomerID cmd) (cm_AssetType cmd) (cm_Unit cmd);
             b = control_of (cm_AssetType cmd) (cm_Unit cmd); x = sint (cm_Amount cmd) in
    0 < x \<and> x \<le> holding w a \<and> holding w' = (holding w)(a := holding w a - x, b := holding w b + x) \<and>
    td_BalanceAfter d = holding w a - x \<and> td_AvailableDelta d = - x \<and>
    (\<exists>row. asset_transactions w' = asset_transactions w @ [row] \<and> atx_Amount row = x \<and> td_ID d = idString (atx_ID row) \<and>
       by_source (cm_SourceType cmd) (cm_SourceID cmd) ''debit'' row)"
  by (rule member_store.debit_exact [OF assms])

lemma demo_debit_new: "t \<in> set (asset_transactions demo_ledger) \<Longrightarrow> \<not> by_source ''manual_adjustment'' ''a2'' ''debit'' t"
  by (auto simp: demo_ledger_def by_source_def)

theorem member_debit_exact_witness:
  "\<exists>d w'. Debit mem_member (demo_debit 200) demo_ledger = (Inr d, w') \<and> td_BalanceAfter d = 300 \<and>
     td_BalanceAfter d = holding demo_ledger (available_of 7 ''balance'' ''CNY_MINOR'') - 200"
proof -
  obtain d w' where run: "Debit mem_member (demo_debit 200) demo_ledger = (Inr d, w')" "td_BalanceAfter d = 300"
    using demo_debit_ok by (metis prod.collapse)
  have "td_BalanceAfter d = holding demo_ledger (available_of 7 ''balance'' ''CNY_MINOR'') - 200"
    using member_debit_exact [OF demo_store demo_ledger_ok run(1)] demo_debit_new
    by (simp add: Let_def demo_debit_def demo_credit_def)
  then show ?thesis using run by blast
qed

text \<open>A credit, debit, reversal, freeze, commit or release that returns an error has changed none of the tables of the ledger:
  accounts, balances, transactions, entries, lots, holds and allocations are as before.\<close>

theorem member_failed_unchanged:
  assumes "member_store S account_fits balance_fits hold_fits hold_lot_fits" and "member_ok w" and "member_fails S op w"
  shows "core (run_member S op w) = core w"
  using assms(3) member_store.failed_unchanged [OF assms(1,2)]
  by (cases op) (auto simp: Commit_def Release_def isl_def elim: prod_fst_eq)

theorem member_failed_unchanged_witness:
  "core (run_member mem_member (OpDebit (demo_debit 700)) demo_ledger) = core demo_ledger \<and>
   fst (Debit mem_member (demo_debit 700) demo_ledger) = Inl insufficient_available"
proof -
  have "fst (Debit mem_member (demo_debit 700) demo_ledger) = Inl insufficient_available"
    by (simp add: member_eval demo_defs insufficient_available_def cong: run_congs)
  then show ?thesis
    using member_failed_unchanged [OF demo_store demo_ledger_ok, of "OpDebit (demo_debit 700)"] by simp
qed

text \<open>C27: A credit or a debit takes effect at most once. Once its source has been posted, calling it again with the same
  source, in whatever world is reached in the meantime, changes no table of the ledger.\<close>

theorem member_posted_once:
  assumes "member_store S account_fits balance_fits hold_fits hold_lot_fits" and "member_ok w"
    and "t \<in> set (asset_transactions w)" and "by_source (cm_SourceType cmd) (cm_SourceID cmd) a t"
    and "(a, op) \<in> {(''credit'', OpCredit cmd), (''debit'', OpDebit cmd)}" and "member_reach S w w'"
  shows "core (run_member S op w') = core w'"
  using assms(5) member_store.posted_once [OF assms(1,2,3,6,4)] by auto

theorem member_posted_once_witness:
  "core (run_member mem_member (OpCredit (demo_credit 900)) (run_member mem_member (OpDebit (demo_debit 200)) demo_ledger)) =
   core (run_member mem_member (OpDebit (demo_debit 200)) demo_ledger)"
  by (rule member_posted_once [OF demo_store demo_ledger_ok, of "hd (asset_transactions demo_ledger)" "demo_credit 900" "''credit''"])
    (simp add: demo_ledger_def, simp add: demo_ledger_def demo_credit_def by_source_def, simp, rule reach_one)

text \<open>\<open>wouldOverflow\<close> answers exactly whether the sum of two 64-bit integers differs from their sum in 64 bits.\<close>

lemma would_overflow_exact: "wouldOverflow (sint (a::int64)) (sint (b::int64)) \<longleftrightarrow> sint (a + b) \<noteq> sint a + sint b"
proof -
  have "i64 (sint x) = sint x" for x :: int64
    using sint_lt [of x] sint_ge [of x] by simp
  moreover have "sint (a + b) = i64 (sint a + sint b)"
    by (simp add: sint_word_ariths(1) signed_take_bit_eq_take_bit_shift take_bit_eq_mod i64_def)
  ultimately show ?thesis by (simp add: wouldOverflow_iff)
qed

text \<open>C28: In every world reachable from sound books the frozen balance of a customer's account is what the holds on that account have not
  yet committed or released, and a hold has reached an end exactly when nothing of it is open.\<close>

theorem member_frozen_is_held:
  assumes "member_store S account_fits balance_fits hold_fits hold_lot_fits"
    and "member_ok w" and "member_reach S w w'"
  shows "(\<forall>b\<in>set (balances w'). bal_AccountID b \<in> customer_ids w' \<and> bal_Bucket b = ''frozen'' \<longrightarrow>
       bal_Amount b = i64 (sum_list (map hold_open (filter (\<lambda>h. hd_AccountID h = bal_AccountID b) (holds w'))))) \<and>
     (\<forall>h\<in>set (holds w'). 0 \<le> hold_open h \<and> (hold_open h = 0 \<longleftrightarrow> hd_Status h \<in> {''committed'', ''released'', ''expired''}))"
proof -
  have "member_ok w'" by (rule member_store.reach_ok [OF assms(1,3,2)])
  then have ok: "lots_ok w'" "holds_ok w'" by (simp_all add: member_ok_def)
  show ?thesis
  proof (intro conjI ballI impI)
    fix b assume "b \<in> set (balances w')" and "bal_AccountID b \<in> customer_ids w' \<and> bal_Bucket b = ''frozen''"
    then show "bal_Amount b = i64 (sum_list (map hold_open (filter (\<lambda>h. hd_AccountID h = bal_AccountID b) (holds w'))))"
      using ok(1) frozen_held [OF ok, of "bal_AccountID b"] by (auto simp: lots_ok_def)
  next
    fix h assume "h \<in> set (holds w')"
    then have "hold_ok w' h" using ok(2) by (simp add: holds_ok_def)
    then show "0 \<le> hold_open h" "hold_open h = 0 \<longleftrightarrow> hd_Status h \<in> {''committed'', ''released'', ''expired''}"
      unfolding hold_ok_def status_ok_def hold_open_def by auto
  qed
qed

definition demo_freeze :: FreezeCommand where
  "demo_freeze = Command.extend (demo_debit 100\<lparr>cm_SourceType := ''reconciliation_test''\<rparr>)
     (FreezeCommand.fields ''order-1'' None)"

theorem member_frozen_is_held_witness:
  "\<exists>w'. member_reach mem_member demo_ledger w' \<and>
     (\<exists>b\<in>set (balances w'). bal_Bucket b = ''frozen'' \<and> bal_Amount b = 100 \<and>
        bal_Amount b = i64 (sum_list (map hold_open (filter (\<lambda>h. hd_AccountID h = bal_AccountID b) (holds w')))))"
proof -
  have "\<exists>d w'. asset_Freeze mem_member demo_freeze demo_ledger = (Inr d, w') \<and> accounts w' = accounts demo_ledger \<and>
      (\<exists>b\<in>set (balances w'). bal_AccountID b = 1 \<and> bal_Bucket b = ''frozen'' \<and> bal_Amount b = 100)"
    by (simp add: member_eval demo_defs demo_freeze_def Command.defs FreezeCommand.defs asset_Freeze_def freeze_in_transaction_def
        freeze_fresh_def freeze_lots.simps freeze_hold_def freeze_row_def freeze_record_def freeze_json_def holdDTO_def
        hold_clash_def hold_lot_clash_def cong: run_congs)
  then obtain d w' b where run: "asset_Freeze mem_member demo_freeze demo_ledger = (Inr d, w')" and same: "accounts w' = accounts demo_ledger"
    and b: "b \<in> set (balances w')" "bal_AccountID b = 1" "bal_Bucket b = ''frozen''" "bal_Amount b = 100" by blast
  have reach: "member_reach mem_member demo_ledger w'" using reach_one [of mem_member demo_ledger "OpFreezeAsset demo_freeze"] run by simp
  have "customer_ids w' = customer_ids demo_ledger" by (simp add: customer_ids_def same)
  then have "bal_AccountID b \<in> customer_ids w'" using b demo_customers by simp
  then show ?thesis using member_frozen_is_held [OF demo_store demo_ledger_ok reach] b reach by blast
qed

text \<open>A hold that has been committed, released or expired stays as it is: committing or releasing it again changes no
  table of the ledger.\<close>

theorem member_hold_final:
  assumes "member_store S account_fits balance_fits hold_fits hold_lot_fits" and "member_ok w"
    and "h \<in> set (holds w)" and "hd_ID h = hc_HoldID cmd" and "hd_Status h \<in> {''committed'', ''released'', ''expired''}"
  shows "core (snd (Commit S cmd w)) = core w \<and> core (snd (Release S cmd w)) = core w"
  using member_store.terminal_hold [OF assms(1-3) _ assms(5) prod.collapse [symmetric]] assms(4)
  by (simp add: Commit_def Release_def)

definition demo_hold_command :: HoldCommand where
  "demo_hold_command = \<lparr>hc_HoldID = 12, hc_Amount = 0, hc_SourceType = ''reconciliation_test'', hc_SourceID = ''a9'', hc_Action = [],
     hc_IdempotencyKey = ''key-0009'', hc_ActorType = ''admin'', hc_ActorID = 1\<rparr>"

theorem member_hold_final_witness: "core (snd (Commit mem_member demo_hold_command demo_settled)) = core demo_settled"
  by (rule conjunct1 [OF member_hold_final [OF demo_store demo_settled_ok, of "hd (holds demo_settled)"]])
    (simp_all add: demo_settled_def demo_hold_command_def)

text \<open>C30: A reversal keeps the sum of the reversals of each transaction within the transaction's amount, as long as the amount
  asked for and what has been reversed before do not leave 64 bits together.\<close>

theorem member_reverse_bounded:
  assumes "member_store S account_fits balance_fits hold_fits hold_lot_fits" and "member_ok w"
    and "t \<in> set (asset_transactions w)" and "reversed_sum w (atx_ID t) \<le> atx_Amount t"
    and "reversed_sum w (atx_ID t) + (if sint (rv_Amount cmd) = 0 then atx_Amount t else sint (rv_Amount cmd)) < 2 ^ 63"
  shows "reversed_sum (snd (Reverse S cmd w)) (atx_ID t) \<le> atx_Amount t"
  by (rule member_store.reverse_bounded [OF assms(1,2) prod.collapse [symmetric] assms(3-5)])

definition demo_reverse :: "uint64 \<Rightarrow> int64 \<Rightarrow> string \<Rightarrow> string \<Rightarrow> ReverseCommand" where
  "demo_reverse i amount source key =
     \<lparr>rv_OriginalTransactionID = i, rv_Amount = amount, rv_SourceType = ''manual_adjustment'', rv_SourceID = source,
      rv_IdempotencyKey = key, rv_ActorType = ''admin'', rv_ActorID = 1\<rparr>"

theorem member_reverse_bounded_witness:
  "reversed_sum (snd (Reverse mem_member (demo_reverse 7 200 ''a2'' ''key-0002'') demo_ledger)) 7 \<le> 500"
  using member_reverse_bounded [OF demo_store demo_ledger_ok, of "hd (asset_transactions demo_ledger)" "demo_reverse 7 200 ''a2'' ''key-0002''"]
  by (simp add: demo_ledger_def member_demo_def reversed_sum_def demo_reverse_def)


text \<open>A debit spends the lots that expire first. Of each lot of the account it takes exactly what the lots ordered before it
  (by expiry, lots without expiry last, then by identifier) do not cover, and all lots together lose the amount.\<close>

theorem member_lots_in_order:
  assumes "member_store S account_fits balance_fits hold_fits hold_lot_fits" and "lots_ok w"
    and "consumeLots S a amount w = (Inr u, w')" and "0 < amount" and "amount < 2 ^ 63"
  shows "(\<forall>x\<in>set (asset_lots w'). \<exists>y\<in>set (asset_lots w). al_ID y = al_ID x \<and> al_AvailableAmount x = al_AvailableAmount y -
       (if spendable a y then share amount (earlier_lots a (asset_lots w) y) y else 0)) \<and>
     lot_sum al_AvailableAmount (of_account a) (asset_lots w') = lot_sum al_AvailableAmount (of_account a) (asset_lots w) - amount"
proof -
  have "distinct (map al_ID (asset_lots w))" "list_all lot_ok (asset_lots w)" using assms(2) by (simp_all add: lots_ok_def list_all_iff)
  then show ?thesis
    using member_store.consumeLots_shares [OF assms(1,3,2,4,5)] member_store.consumeLots_done(4) [OF assms(1,3) _ _ assms(4,5), of a]
    by simp
qed

theorem member_lots_in_order_witness:
  "\<exists>w'. consumeLots mem_member 1 200 demo_ledger = (Inr (), w') \<and> lot_sum al_AvailableAmount (of_account 1) (asset_lots w') = 300"
proof -
  have "\<exists>w'. consumeLots mem_member 1 200 demo_ledger = (Inr (), w')"
    by (simp add: member_eval demo_defs cong: run_congs)
  then obtain w' where run: "consumeLots mem_member 1 200 demo_ledger = (Inr (), w')" ..
  have "lots_ok demo_ledger" using demo_ledger_ok by (simp add: member_ok_def)
  from member_lots_in_order [OF demo_store this run] run show ?thesis by (simp add: demo_ledger_def lot_sum_def)
qed

end
