(* ===== verification/Member_Admin.thy ===== *)
theory Member_Admin
  imports Member_Properties Pagination Idempotency
begin

text \<open>
  The administration side of the member assets: the rows of \<open>internal/modules/asset/model.go\<close> that
  belong to adjustments, reconciliations and compensations, the response types of \<open>dto.go\<close>, and the helpers that
  read the claims of a request. The world of this side contains the ledger's world as one component;
  \<open>on_member\<close> runs an operation of the ledger there.

  Besides the ledger's parameters there are the engines of the further tables, JSON encoders, how the database
  compares a number with a text (\<open>ae_number_eq\<close>), and which rows other transactions have locked.
\<close>

subsection \<open>Rows\<close>

record Adjustment =
  adj_ID :: uint64
  adj_AdjustmentNo :: string
  adj_CustomerID :: uint64
  adj_AssetType :: string
  adj_Unit :: string
  adj_Direction :: string
  adj_Amount :: int64
  adj_ReasonCode :: string
  adj_Reason :: string
  adj_EvidenceRefs :: json
  adj_Status :: string
  adj_CreatedBy :: uint64
  adj_ReviewedBy :: "uint64 option"
  adj_ReviewedAt :: "go_time option"
  adj_AssetTransactionID :: "uint64 option"
  adj_FailureCode :: "string option"
  adj_IdempotencyKeyHash :: string
  adj_Version :: uint32
  adj_CreatedAt :: go_time
  adj_UpdatedAt :: go_time

record ReconciliationJob =
  rj_ID :: uint64
  rj_RequestedBy :: uint64
  rj_JobNo :: string
  rj_Scope :: string
  rj_Mode :: string
  rj_Status :: string
  rj_RequestID :: string
  rj_IdempotencyKeyHash :: string
  rj_ScopeID :: "string option"
  rj_ScannedCount :: uint64
  rj_DifferenceCount :: uint64
  rj_CriticalCount :: uint64
  rj_StartedAt :: "go_time option"
  rj_FinishedAt :: "go_time option"
  rj_CreatedAt :: go_time
  rj_UpdatedAt :: go_time

record ReconciliationItem =
  ri_ID :: uint64
  ri_JobID :: uint64
  ri_ObjectType :: string
  ri_ObjectID :: string
  ri_DiffType :: string
  ri_Severity :: string
  ri_Status :: string
  ri_ExpectedAmount :: "int option"
  ri_ActualAmount :: "int option"
  ri_Detail :: "json option"
  ri_CreatedAt :: go_time
  ri_UpdatedAt :: go_time

text \<open>\<open>issued_at\<close> is a column the worker writes and the Go type does not read.\<close>

record Compensation =
  co_ID :: uint64
  co_CustomerID :: uint64
  co_AfterSaleID :: uint64
  co_CompensationNo :: string
  co_Type :: string
  co_AssetType :: string
  co_Status :: string
  co_Amount :: int64
  co_Reason :: "string option"
  co_AssetTransactionID :: "uint64 option"
  co_FailureCode :: "string option"
  co_Attempts :: uint32
  co_NextRetryAt :: "go_time option"
  co_LockedUntil :: "go_time option"
  co_LockedBy :: "string option"
  co_IssuedAt :: "go_time option"

text \<open>The columns of the accounts and permissions that the check of an administrator reads.\<close>

record admin_user =
  au_ID :: uint64
  au_AccountID :: uint64
  au_RoleID :: uint64
  au_Status :: string
  au_Deleted :: bool

record login_account =
  la_ID :: uint64
  la_AccountType :: string
  la_Status :: string
  la_Deleted :: bool

record admin_role =
  ar_ID :: uint64
  ar_Status :: string
  ar_Deleted :: bool

record role_permission =
  rp_RoleID :: uint64
  rp_PermissionID :: uint64
  rp_Deleted :: bool

record permission =
  pm_ID :: uint64
  pm_Code :: string
  pm_Status :: string
  pm_Deleted :: bool

subsection \<open>Unique indexes\<close>

text \<open>The primary keys and unique indexes of the migrations.\<close>

definition compensation_clash :: "Compensation \<Rightarrow> Compensation \<Rightarrow> bool" where
  "compensation_clash a b \<longleftrightarrow> co_ID a = co_ID b \<or> co_CompensationNo a = co_CompensationNo b \<or>
     (co_AssetTransactionID a \<noteq> None \<and> co_AssetTransactionID a = co_AssetTransactionID b)"

definition job_clash :: "ReconciliationJob \<Rightarrow> ReconciliationJob \<Rightarrow> bool" where
  "job_clash a b \<longleftrightarrow> rj_ID a = rj_ID b \<or> rj_JobNo a = rj_JobNo b \<or>
     (rj_RequestedBy a = rj_RequestedBy b \<and> rj_IdempotencyKeyHash a = rj_IdempotencyKeyHash b)"

definition item_clash :: "ReconciliationItem \<Rightarrow> ReconciliationItem \<Rightarrow> bool" where
  "item_clash a b \<longleftrightarrow> ri_ID a = ri_ID b \<or> (ri_JobID a = ri_JobID b \<and> ri_ObjectType a = ri_ObjectType b \<and>
     ri_ObjectID a = ri_ObjectID b \<and> ri_DiffType a = ri_DiffType b)"

definition adjustment_clash :: "Adjustment \<Rightarrow> Adjustment \<Rightarrow> bool" where
  "adjustment_clash a b \<longleftrightarrow> adj_ID a = adj_ID b \<or> adj_AdjustmentNo a = adj_AdjustmentNo b \<or>
     (adj_CreatedBy a = adj_CreatedBy b \<and> adj_IdempotencyKeyHash a = adj_IdempotencyKeyHash b) \<or>
     (adj_AssetTransactionID a \<noteq> None \<and> adj_AssetTransactionID a = adj_AssetTransactionID b)"

subsection \<open>Requests and responses\<close>

record AdjustmentCreateReq =
  ac_CustomerID :: string
  ac_AssetType :: string
  ac_Direction :: string
  ac_Amount :: int64
  ac_ReasonCode :: string
  ac_Reason :: string
  ac_EvidenceRefs :: "string list option"

record AdjustmentDTO =
  ad_ID :: string
  ad_AdjustmentNo :: string
  ad_CustomerID :: string
  ad_AssetType :: string
  ad_Unit :: string
  ad_Direction :: string
  ad_ReasonCode :: string
  ad_Reason :: string
  ad_Status :: string
  ad_Amount :: int64
  ad_CreatedBy :: string
  ad_ReviewedBy :: string
  ad_AssetTransactionID :: string
  ad_FailureCode :: string
  ad_Version :: uint32
  ad_CreatedAt :: go_time
  ad_UpdatedAt :: go_time

record ReconcileReq =
  rr_Scope :: string
  rr_ScopeID :: string
  rr_DryRun :: "bool option"

record ReconciliationDTO =
  rd_ID :: string
  rd_JobNo :: string
  rd_Scope :: string
  rd_ScopeID :: string
  rd_Mode :: string
  rd_Status :: string
  rd_ScannedCount :: uint64
  rd_DifferenceCount :: uint64
  rd_CriticalCount :: uint64
  rd_CreatedAt :: go_time
  rd_FinishedAt :: "go_time option"

subsection \<open>The world and its tables\<close>

record asset_world =
  aw_member :: member_world
  adjustments :: "Adjustment list"
  recon_jobs :: "ReconciliationJob list"
  recon_items :: "ReconciliationItem list"
  compensations :: "Compensation list"
  aw_claims :: "Record list"
  admin_users :: "admin_user list"
  login_accounts :: "login_account list"
  admin_roles :: "admin_role list"
  role_permissions :: "role_permission list"
  permissions :: "permission list"

record asset_env =
  ae_member :: member_env
  ae_ReadEnabled :: bool
  ae_RepairEnabled :: bool
  ae_CompensationIssueEnabled :: bool
  ae_WorkerInterval :: int
  ae_InstanceID :: string
  ae_commit :: "asset_world \<Rightarrow> go_error option"
  ae_locked :: "uint64 \<Rightarrow> bool"
  ae_number_eq :: "uint64 \<Rightarrow> string \<Rightarrow> bool"
  ae_pager :: pager
  ae_sha :: "string \<Rightarrow> string"
  ae_marshal :: "AdjustmentDTO \<Rightarrow> string"
  ae_unmarshal :: "string \<Rightarrow> go_error + AdjustmentDTO"
  ae_marshal_req :: "AdjustmentCreateReq \<Rightarrow> string"
  ae_marshal_refs :: "string list \<Rightarrow> string"
  adjustmentE :: "Adjustment engine"
  jobE :: "ReconciliationJob engine"
  itemE :: "ReconciliationItem engine"
  compensationE :: "Compensation engine"
  claimE :: "Record engine"
  adminUserE :: "admin_user engine"

definition adjustment_t :: "asset_env \<Rightarrow> (asset_world, Adjustment) db_table" where
  "adjustment_t A = \<lparr>tbl_rows = adjustments, tbl_set = (\<lambda>r. adjustments_update (\<lambda>_. r)), tbl_engine = adjustmentE A\<rparr>"
definition job_t :: "asset_env \<Rightarrow> (asset_world, ReconciliationJob) db_table" where
  "job_t A = \<lparr>tbl_rows = recon_jobs, tbl_set = (\<lambda>r. recon_jobs_update (\<lambda>_. r)), tbl_engine = jobE A\<rparr>"
definition item_t :: "asset_env \<Rightarrow> (asset_world, ReconciliationItem) db_table" where
  "item_t A = \<lparr>tbl_rows = recon_items, tbl_set = (\<lambda>r. recon_items_update (\<lambda>_. r)), tbl_engine = itemE A\<rparr>"
definition compensation_t :: "asset_env \<Rightarrow> (asset_world, Compensation) db_table" where
  "compensation_t A = \<lparr>tbl_rows = compensations, tbl_set = (\<lambda>r. compensations_update (\<lambda>_. r)), tbl_engine = compensationE A\<rparr>"

lemmas asset_tables = adjustment_t_def job_t_def item_t_def compensation_t_def

text \<open>Running an operation of the ledger in the larger world.\<close>

definition on_member :: "(member_world, 'e, 'a) go \<Rightarrow> (asset_world, 'e, 'a) go" where
  "on_member m w = (case m (aw_member w) of (r, u) \<Rightarrow> (r, w\<lparr>aw_member := u\<rparr>))"

definition on_claims :: "(Record list, 'e, 'a) go \<Rightarrow> (asset_world, 'e, 'a) go" where
  "on_claims m w = (case m (aw_claims w) of (r, u) \<Rightarrow> (r, w\<lparr>aw_claims := u\<rparr>))"

definition restore_asset :: "asset_world \<Rightarrow> asset_world \<Rightarrow> asset_world" where
  "restore_asset before after = before\<lparr>aw_member := restore_member (aw_member before) (aw_member after)\<rparr>"

definition asset_clock :: "(asset_world, go_error, go_time) go" where
  "asset_clock = on_member now_utc"

subsection \<open>Identities\<close>

definition parseID :: "string \<Rightarrow> go_error + uint64" where
  "parseID raw = (case ParseUint raw of
       None \<Rightarrow> Inl (ErrMessage ''invalid id'')
     | Some i \<Rightarrow> if i = 0 then Inl (ErrMessage ''invalid id'') else Inr i)"

definition customerIDFromClaims :: "Claims option \<Rightarrow> go_error + uint64" where
  "customerIDFromClaims claims =
     (case claims of
        None \<Rightarrow> Inl (problem_Forbidden ''PERM_FORBIDDEN'' ''customer account required'')
      | Some c \<Rightarrow>
          if cl_AccountType c \<noteq> ''customer'' then Inl (problem_Forbidden ''PERM_FORBIDDEN'' ''customer account required'')
          else case parseID (cl_CustomerID c) of
            Inl _ \<Rightarrow> Inl (problem_Forbidden ''PERM_FORBIDDEN'' ''invalid customer identity'')
          | Inr i \<Rightarrow> Inr i)"

fun permitted_id :: "Claims \<Rightarrow> string \<Rightarrow> string list \<Rightarrow> go_error + uint64" where
  "permitted_id c permission [] = Inl (problem_Forbidden ''PERM_FORBIDDEN'' ''permission denied'')"
| "permitted_id c permission (p # ps) =
     (if p = permission then
        case parseID (cl_AdminUserID c) of
          Inl _ \<Rightarrow> Inl (problem_Forbidden ''PERM_FORBIDDEN'' ''permission denied'')
        | Inr i \<Rightarrow> Inr i
      else permitted_id c permission ps)"

definition adminIDWithPermission :: "Claims option \<Rightarrow> string \<Rightarrow> go_error + uint64" where
  "adminIDWithPermission claims permission =
     (case claims of
        None \<Rightarrow> Inl (problem_Forbidden ''PERM_FORBIDDEN'' ''admin account required'')
      | Some c \<Rightarrow>
          if cl_AccountType c \<noteq> ''admin'' then Inl (problem_Forbidden ''PERM_FORBIDDEN'' ''admin account required'')
          else permitted_id c permission (cl_Permissions c))"

definition valueOrEmpty :: "string option \<Rightarrow> string" where
  "valueOrEmpty v = (case v of None \<Rightarrow> [] | Some s \<Rightarrow> s)"

definition isDuplicateError :: "go_error option \<Rightarrow> bool" where
  "isDuplicateError err = (case err of None \<Rightarrow> False | Some e \<Rightarrow> contains_sub (to_lower (error_text e)) ''duplicate'')"

text \<open>Only an administrator's token that lists the permission and carries a positive identifier is accepted.\<close>

lemma ParseUint_idString: "ParseUint (idString i) = Some i"
proof -
  have "unat i < 2 ^ 64" using unsigned_less [of i] by simp
  then show ?thesis using ParseUint_format [of "unat i"] by (simp add: idString_def)
qed

lemma parseID_idString: "i \<noteq> 0 \<Longrightarrow> parseID (idString i) = Inr i"
  by (simp add: parseID_def ParseUint_idString)

lemma parseID_id: "parseID (idString i) = Inr j \<Longrightarrow> j = i"
  by (auto simp: parseID_def ParseUint_idString split: if_splits)

lemma permitted_iff: "permitted_id c permission ps = Inr i \<longleftrightarrow> permission \<in> set ps \<and> parseID (cl_AdminUserID c) = Inr i"
  by (induction ps) (auto split: sum.splits)

lemma admin_permitted:
  "adminIDWithPermission claims permission = Inr i \<longleftrightarrow>
     (\<exists>c. claims = Some c \<and> cl_AccountType c = ''admin'' \<and> permission \<in> set (cl_Permissions c) \<and>
        parseID (cl_AdminUserID c) = Inr i)"
  by (auto simp: adminIDWithPermission_def permitted_iff split: option.splits)

subsection \<open>Running the ledger inside\<close>

lemma on_member_inv [go_inv]:
  "on_member m w = (r, w') \<longleftrightarrow> (\<exists>u. m (aw_member w) = (r, u) \<and> w' = w\<lparr>aw_member := u\<rparr>)"
  by (auto simp: on_member_def split: prod.splits)

lemma on_memberE:
  assumes "on_member m w = (r, w')"
  obtains u where "m (aw_member w) = (r, u)" and "w' = w\<lparr>aw_member := u\<rparr>"
  using assms by (auto simp: on_member_inv)

lemma asset_clock_inv [go_inv]: "asset_clock w = (r, w') \<longleftrightarrow> r = Inr (mw_wall (aw_member w)) \<and> w' = w"
  by (auto simp: asset_clock_def on_member_inv now_utc_def go_call_inv)

lemma keeps_on_member: "go_keeps (\<lambda>u. P u) m \<Longrightarrow> go_keeps (\<lambda>w. P (aw_member w)) (on_member m)"
  by (auto simp: go_keeps_def on_member_def split: prod.splits)


subsection \<open>What a posting leaves\<close>

text \<open>\<open>transferred c ty unit n h\<close>: \<open>n\<close> more in the available balance of customer \<open>c\<close>, \<open>n\<close> less with the platform.\<close>

definition transferred :: "uint64 \<Rightarrow> string \<Rightarrow> string \<Rightarrow> int \<Rightarrow> holdings \<Rightarrow> holdings" where
  "transferred c ty unit n h =
     h(available_of c ty unit := h (available_of c ty unit) + n, control_of ty unit := h (control_of ty unit) - n)"

context member_store
begin

lemma source_unique:
  assumes "member_ok w" and "t \<in> set (asset_transactions w)" and "t' \<in> set (asset_transactions w)"
    and "by_source ty i a t" and "by_source ty i a t'"
  shows "t' = t"
  using assms distinct_key_unique [of source_key "asset_transactions w" t' t]
  by (auto simp: member_ok_def ledger_ok_def keys_ok_def by_source_def source_key_def)

lemma transfer_exact:
  assumes run: "postTransferWithDB S cmd direction None w = (Inr d, w')" and ok: "member_ok w"
    and dir: "direction = 1 \<or> direction = -1"
  obtains t where "t \<in> set (asset_transactions w')" and "by_source (cm_SourceType cmd) (cm_SourceID cmd) (cm_Action cmd) t"
    and "td_ID d = idString (atx_ID t)" and "member_ok w'"
    and "if \<exists>t\<in>set (asset_transactions w). by_source (cm_SourceType cmd) (cm_SourceID cmd) (cm_Action cmd) t then core w' = core w
      else atx_Amount t = sint (cm_Amount cmd) \<and>
        holding w' = transferred (cm_CustomerID cmd) (cm_AssetType cmd) (cm_Unit cmd) (sint (cm_Amount cmd) * direction) (holding w)"
proof -
  have ok': "member_ok w'" by (rule postTransfer_ok [OF run ok dir])
  show thesis
    using run ok dir
  proof (cases rule: postTransfer_cases)
    case (replay d' at t)
    then have "asset_transactions w' = asset_transactions w" by (simp add: core_iff)
    then show thesis using that [of t] replay ok' by (metis sum.inject(2))
  next
    case (fresh d' at)
    have led: "ledger_ok w" "ledger_ok w'" using ok ok' by (simp_all add: member_ok_def)
    from posted_result [OF fresh(4) led] obtain row where row: "asset_transactions w' = asset_transactions w @ [row]"
      "atx_Amount row = sint (cm_Amount cmd)" "td_ID d' = idString (atx_ID row)"
      "by_source (cm_SourceType cmd) (cm_SourceID cmd) (cm_Action cmd) row" by auto
    show thesis
    proof (rule that [of row])
      have "\<not> (\<exists>t\<in>set (asset_transactions w). by_source (cm_SourceType cmd) (cm_SourceID cmd) (cm_Action cmd) t)"
        using fresh(3) by blast
      then show "if \<exists>t\<in>set (asset_transactions w). by_source (cm_SourceType cmd) (cm_SourceID cmd) (cm_Action cmd) t then core w' = core w
        else atx_Amount row = sint (cm_Amount cmd) \<and>
          holding w' = transferred (cm_CustomerID cmd) (cm_AssetType cmd) (cm_Unit cmd) (sint (cm_Amount cmd) * direction) (holding w)"
        using row(2) posted_result(1) [OF fresh(4) led] by (simp add: transferred_def)
    qed (use row fresh(1) ok' in auto)
  qed simp
qed

end

end
