(* ===== verification/Member_Worker.thy ===== *)
theory Member_Worker
  imports Member_Admin
begin

text \<open>
  The worker of the member assets: \<open>internal/modules/asset/worker.go\<close>. It claims compensations that after-sales have
  approved, credits each to the customer's balance and marks it issued; then it expires due holds and lots. Claiming and
  issuing are separate transactions, so that another instance may take over after thirty seconds.

  \<open>worker_Run\<close> repeats \<open>runBatch\<close> on a timer until the context ends; only the batch is modelled.
\<close>

subsection \<open>Claiming\<close>

definition claimable :: "go_time \<Rightarrow> Compensation \<Rightarrow> bool" where
  "claimable now c \<longleftrightarrow> (co_Status c = ''approved'' \<or> co_Status c = ''issuing'') \<and>
     (case co_NextRetryAt c of None \<Rightarrow> True | Some t \<Rightarrow> t \<le> now) \<and>
     (case co_LockedUntil c of None \<Rightarrow> True | Some t \<Rightarrow> t \<le> now)"

text \<open>\<open>ORDER BY next_retry_at,id\<close>: a null comes first.\<close>

definition claim_order :: "Compensation \<Rightarrow> int list" where
  "claim_order c = (case co_NextRetryAt c of None \<Rightarrow> [0, 0, uint (co_ID c)] | Some t \<Rightarrow> [1, t, uint (co_ID c)])"

definition claim_mark :: "string \<Rightarrow> go_time \<Rightarrow> Compensation \<Rightarrow> Compensation" where
  "claim_mark instance until c = c\<lparr>co_Status := ''issuing'', co_LockedBy := Some instance,
     co_LockedUntil := Some until, co_Attempts := co_Attempts c + 1\<rparr>"

definition claimCompensation :: "asset_env \<Rightarrow> (asset_world, go_error, Compensation) go" where
  "claimCompensation A = gorm_transaction (ae_commit A) restore_asset
     (go_bind asset_clock (\<lambda>now.
      go_bind (db_ordered (compensation_t A) (\<lambda>c. claimable now c \<and> \<not> ae_locked A (co_ID c)) claim_order) (\<lambda>found.
      case found of
        [] \<Rightarrow> go_err ErrRecordNotFound
      | row # _ \<Rightarrow>
          go_bind (db_updates (compensation_t A) (\<lambda>c. co_ID c = co_ID row)
            (claim_mark (ae_InstanceID A) (now + 30 * nanos_per_second))) (\<lambda>_. go_ok row))))"

subsection \<open>Issuing\<close>

definition compensation_invalid :: go_error where
  "compensation_invalid = Problem (problem_New 422 ''ASSET_TYPE_INVALID'' ''Unprocessable Entity''
     ''compensation asset mapping is invalid'')"

definition compensation_command :: "Compensation \<Rightarrow> Command" where
  "compensation_command row =
     \<lparr>cm_CustomerID = co_CustomerID row, cm_AssetType = TypeBalance, cm_Unit = UnitCNY, cm_Amount = co_Amount row,
      cm_SourceType = ''compensation'', cm_SourceID = idString (co_ID row), cm_Action = [],
      cm_IdempotencyKey = ''compensation-'' @ co_CompensationNo row, cm_ActorType = ''system'', cm_ActorID = 0,
      cm_OccurredAt = 0, cm_ExpiresAt = None,
      cm_Metadata = JObject [(''compensation_no'', JString (co_CompensationNo row)),
        (''after_sale_id'', JString (idString (co_AfterSaleID row)))]\<rparr>"

definition mark_failed :: "Compensation \<Rightarrow> Compensation" where
  "mark_failed c = c\<lparr>co_Status := ''failed'', co_FailureCode := Some ''ASSET_TYPE_INVALID'', co_LockedBy := None,
     co_LockedUntil := None\<rparr>"

definition mark_retry :: "string \<Rightarrow> go_time \<Rightarrow> Compensation \<Rightarrow> Compensation" where
  "mark_retry code at c = c\<lparr>co_Status := ''approved'', co_FailureCode := Some code, co_NextRetryAt := Some at,
     co_LockedBy := None, co_LockedUntil := None\<rparr>"

definition mark_issued :: "uint64 \<Rightarrow> go_time \<Rightarrow> Compensation \<Rightarrow> Compensation" where
  "mark_issued txID now c = c\<lparr>co_Status := ''issued'', co_AssetTransactionID := Some txID, co_IssuedAt := Some now,
     co_FailureCode := None, co_NextRetryAt := None, co_LockedBy := None, co_LockedUntil := None\<rparr>"

definition settle_issued :: "asset_env \<Rightarrow> uint64 \<Rightarrow> uint64 \<Rightarrow> (asset_world, go_error, unit) go" where
  "settle_issued A i txID =
     go_bind asset_clock (\<lambda>now.
     go_bind (db_updates (compensation_t A) (\<lambda>c. co_ID c = i \<and> co_Status c = ''issuing'') (mark_issued txID now)) (\<lambda>affected.
     if affected \<noteq> 1 then
       go_bind (db_take (compensation_t A) (\<lambda>c. co_ID c = i)) (\<lambda>current.
       if co_Status current = ''issued'' \<and> co_AssetTransactionID current = Some txID then go_ok ()
       else go_err (problem_Conflict ''COMPENSATION_STATE_CONFLICT'' ''compensation state changed''))
     else go_ok ()))"

definition issueCompensation :: "asset_env \<Rightarrow> Compensation \<Rightarrow> (asset_world, go_error, unit) go" where
  "issueCompensation A row =
     (if co_AssetType row \<noteq> ''balance'' \<or> sint (co_Amount row) \<le> 0 then
        go_bind (go_try (db_updates (compensation_t A) (\<lambda>c. co_ID c = co_ID row) mark_failed)) (\<lambda>_.
        go_err compensation_invalid)
      else
        go_bind (go_try (on_member (Credit (ae_member A) (compensation_command row)))) (\<lambda>credited.
        case credited of
          Inl e \<Rightarrow>
            go_bind asset_clock (\<lambda>now.
            go_bind (go_try (db_updates (compensation_t A) (\<lambda>c. co_ID c = co_ID row)
              (mark_retry (error_code e) (now + ae_WorkerInterval A)))) (\<lambda>_. go_err e))
        | Inr dto \<Rightarrow>
            (case parseID (td_ID dto) of Inl e \<Rightarrow> go_err e | Inr txID \<Rightarrow> settle_issued A (co_ID row) txID)))"

subsection \<open>A batch\<close>

fun issue_loop :: "asset_env \<Rightarrow> nat \<Rightarrow> (asset_world, go_error, unit) go" where
  "issue_loop A 0 = go_ok ()"
| "issue_loop A (Suc n) =
     go_bind (go_try (claimCompensation A)) (\<lambda>claimed.
     case claimed of
       Inl _ \<Rightarrow> go_ok ()
     | Inr row \<Rightarrow> go_bind (go_try (issueCompensation A row)) (\<lambda>_. issue_loop A n))"

text \<open>The two expiry runs return a count together with an error.\<close>

definition on_ledger :: "(member_world \<Rightarrow> 'a \<times> member_world) \<Rightarrow> (asset_world, go_error, 'a) go" where
  "on_ledger f = on_member (go_call f)"

definition runBatch :: "asset_env \<Rightarrow> (asset_world, go_error, unit) go" where
  "runBatch A =
     (let S = ae_member A in
      go_bind (if ae_CompensationIssueEnabled A then issue_loop A (nat (env_WorkerBatchSize S)) else go_ok ()) (\<lambda>_.
      if env_ExpiryEnabled S then
        go_bind (on_ledger (ExpireDueHolds S (env_WorkerBatchSize S))) (\<lambda>(_, err).
        case err of
          Some _ \<Rightarrow> go_ok ()
        | None \<Rightarrow> go_bind (on_ledger (ExpireDueLots S (env_WorkerBatchSize S))) (\<lambda>_. go_ok ()))
      else go_ok ()))"

subsection \<open>Paying once\<close>

locale compensation_store =
  member_store "ae_member A" account_fits balance_fits hold_fits hold_lot_fits +
  comp: gorm_table "compensationE A" compensation_clash compensation_fits
  for A :: asset_env and account_fits balance_fits hold_fits hold_lot_fits compensation_fits
begin

text \<open>Settling leaves the compensation issued with the transaction, and touches no other table.\<close>

lemma settle_done:
  assumes run: "settle_issued A i txID w = (Inr u, w')"
  shows "aw_member w' = aw_member w"
    and "\<exists>c\<in>set (compensations w'). co_ID c = i \<and> co_Status c = ''issued'' \<and> co_AssetTransactionID c = Some txID"
proof -
  let ?p = "\<lambda>c. co_ID c = i \<and> co_Status c = ''issuing''" and ?f = "mark_issued txID (mw_wall (aw_member w))"
  from run obtain rows n where upd: "sql_updates (compensationE A) ?p ?f (compensations w) = Inr (rows, n)"
    and rest: "(if n \<noteq> 1 then
       go_bind (db_take (compensation_t A) (\<lambda>c. co_ID c = i)) (\<lambda>current.
       if co_Status current = ''issued'' \<and> co_AssetTransactionID current = Some txID then go_ok ()
       else go_err (problem_Conflict ''COMPENSATION_STATE_CONFLICT'' ''compensation state changed''))
     else go_ok ()) (w\<lparr>compensations := rows\<rparr>) = (Inr u, w')"
    by (auto simp: settle_issued_def asset_clock_inv db_updates_inv compensation_t_def elim!: go_bindE)
  have rows: "rows = update_where ?p ?f (compensations w)" by (rule comp.updates_rows [OF upd])
  have count: "n = length (filter ?p (compensations w))"
    by (rule comp.updates_count [OF upd]) (auto simp: mark_issued_def dest: arg_cong [where f = co_Status])
  have "w' = w\<lparr>compensations := rows\<rparr> \<and>
      (\<exists>c\<in>set rows. co_ID c = i \<and> co_Status c = ''issued'' \<and> co_AssetTransactionID c = Some txID)"
  proof (cases "n = 1")
    case True
    then have "filter ?p (compensations w) \<noteq> []" using count by auto
    then obtain c where "c \<in> set (compensations w)" "?p c" by (auto simp: filter_empty_conv)
    then have "?f c \<in> set rows" unfolding rows set_update_where by blast
    then show ?thesis using rest True \<open>?p c\<close> by (auto simp: mark_issued_def intro!: bexI [of _ "?f c"])
  next
    case False
    then show ?thesis using rest comp.take_row
      by (fastforce elim!: go_bindE simp: db_take_inv compensation_t_def split: if_splits)
  qed
  then show "aw_member w' = aw_member w"
    and "\<exists>c\<in>set (compensations w'). co_ID c = i \<and> co_Status c = ''issued'' \<and> co_AssetTransactionID c = Some txID" by auto
qed

lemma issue_exact:
  assumes run: "issueCompensation A row w = (Inr u, w')" and ok: "member_ok (aw_member w)"
  obtains t where "t \<in> set (asset_transactions (aw_member w'))" and "by_source ''compensation'' (idString (co_ID row)) ''credit'' t"
    and "\<exists>c\<in>set (compensations w'). co_ID c = co_ID row \<and> co_Status c = ''issued'' \<and> co_AssetTransactionID c = Some (atx_ID t)"
    and "member_ok (aw_member w')"
    and "if \<exists>t\<in>set (asset_transactions (aw_member w)). by_source ''compensation'' (idString (co_ID row)) ''credit'' t
      then core (aw_member w') = core (aw_member w)
      else atx_Amount t = sint (co_Amount row) \<and> holding (aw_member w') =
        transferred (co_CustomerID row) TypeBalance UnitCNY (sint (co_Amount row)) (holding (aw_member w))"
proof -
  from run obtain dto m txID where credit: "Credit (ae_member A) (compensation_command row) (aw_member w) = (Inr dto, m)"
    and i: "parseID (td_ID dto) = Inr txID" and settle: "settle_issued A (co_ID row) txID (w\<lparr>aw_member := m\<rparr>) = (Inr u, w')"
    by (auto simp: issueCompensation_def on_member_inv elim!: go_bindE go_tryE split: if_splits sum.splits)
  from credit [unfolded Credit_def postTransfer_def] ok show thesis
  proof (rule transfer_exact, goal_cases)
    case 1 show ?case by simp
  next
    case (2 t)
    have "txID = atx_ID t" using i 2(3) parseID_id by simp
    then show ?case using that [of t] 2 settle_done [OF settle] by (simp add: compensation_command_def)
  qed
qed

text \<open>Issuing a compensation that has been credited does not touch the ledger.\<close>

lemma issue_again:
  assumes ok: "member_ok (aw_member w)" and t: "t \<in> set (asset_transactions (aw_member w))"
    "by_source ''compensation'' (idString (co_ID row)) ''credit'' t"
  shows "core (aw_member (snd (issueCompensation A row w))) = core (aw_member w)"
proof -
  let ?S = "ae_member A" and ?c = "compensation_command row"
  have credit: "core m = core (aw_member w)" if "Credit ?S ?c (aw_member w) = (r, m)" for r m
    using posted_source(1) [OF ok t that [unfolded Credit_def postTransfer_def]] by (simp add: compensation_command_def)
  have settle: "aw_member (snd (settle_issued A i txID v)) = aw_member v" for i txID v
    by (auto simp: settle_issued_def asset_clock_def on_member_def now_utc_def go_eval db_updates_def db_take_def compensation_t_def
        split: sum.splits prod.splits)
  show ?thesis
    by (auto simp: issueCompensation_def go_eval on_member_def asset_clock_def now_utc_def db_updates_def compensation_t_def settle
        dest: credit split: sum.splits prod.splits)
qed

end

subsection \<open>The books stay sound\<close>

text \<open>The tables of this side are not the ledger's, and a rollback restores the ledger.\<close>

abbreviation books_kept :: "(asset_world, 'e, 'a) go \<Rightarrow> bool" where
  "books_kept \<equiv> go_keeps (\<lambda>w. member_ok (aw_member w))"

lemma books_kept_tables:
  "books_kept (db_updates (compensation_t A) p f)" "books_kept (db_take (compensation_t A) p)"
  "books_kept (db_ordered (compensation_t A) p key)" "books_kept asset_clock"
  by (auto simp: go_keeps_def db_updates_def db_take_def db_ordered_def compensation_t_def asset_clock_def on_member_def
      now_utc_def go_call_def split: sum.splits prod.splits)

lemma books_kept_transaction: "books_kept m \<Longrightarrow> books_kept (gorm_transaction commit restore_asset m)"
  by (auto simp: go_keeps_def gorm_transaction_def restore_asset_def restore_member_def core_iff
      intro: member_core split: sum.splits prod.splits option.splits)

lemmas books_kept_rules = go_keeps_rules books_kept_tables books_kept_transaction

context compensation_store
begin

lemma books_kept_ledger:
  assumes "\<And>m. snd (f m) = run_member (ae_member A) op m"
  shows "books_kept (on_member f)"
  unfolding go_keeps_def
  using run_member_ok assms by (auto simp: on_member_def split: prod.splits) (metis snd_conv)

lemma books_kept_issue: "books_kept (issueCompensation A row)"
  unfolding issueCompensation_def settle_issued_def
  by (intro books_kept_rules books_kept_ledger [of _ "OpCredit (compensation_command row)"]) simp

lemma books_kept_loop: "books_kept (issue_loop A n)"
  by (induction n) (auto intro!: books_kept_rules books_kept_issue simp: claimCompensation_def)

lemma worker_keeps_books: "member_ok (aw_member w) \<Longrightarrow> member_ok (aw_member (snd (runBatch A w)))"
proof -
  have "books_kept (on_ledger (ExpireDueHolds (ae_member A) n))" "books_kept (on_ledger (ExpireDueLots (ae_member A) n))" for n
    unfolding on_ledger_def
    by (rule books_kept_ledger [of _ "OpExpireHolds n"], simp add: go_call_eval)
      (rule books_kept_ledger [of _ "OpExpireLots n"], simp add: go_call_eval)
  then have "books_kept (runBatch A)"
    unfolding runBatch_def Let_def by (intro books_kept_rules books_kept_loop)
  then show "member_ok (aw_member w) \<Longrightarrow> member_ok (aw_member (snd (runBatch A w)))" by (simp add: go_keeps_def)
qed

end

text \<open>The tables in memory.\<close>

definition mem_asset :: asset_env where
  "mem_asset =
     \<lparr>ae_member = mem_member, ae_ReadEnabled = True, ae_RepairEnabled = True, ae_CompensationIssueEnabled = True,
      ae_WorkerInterval = 5 * nanos_per_second, ae_InstanceID = ''worker-1'', ae_commit = (\<lambda>_. None), ae_locked = (\<lambda>_. False),
      ae_number_eq = (\<lambda>n s. idString n = s), ae_pager = demo_pager, ae_sha = (\<lambda>s. s),
      ae_marshal = (\<lambda>d. ad_ID d), ae_unmarshal = (\<lambda>_. Inl (ErrMessage ''unexpected end of JSON input'')),
      ae_marshal_req = (\<lambda>r. ac_CustomerID r @ '':'' @ format_int (sint (ac_Amount r))), ae_marshal_refs = concat,
      adjustmentE = mem_engine adjustment_clash (\<lambda>_. True), jobE = mem_engine job_clash (\<lambda>_. True),
      itemE = mem_engine item_clash (\<lambda>_. True), compensationE = mem_engine compensation_clash (\<lambda>_. True),
      claimE = mem_engine rec_clash rec_fits, adminUserE = mem_engine (=) (\<lambda>_. True)\<rparr>"

interpretation mem_comp: compensation_store mem_asset "\<lambda>_. True" "\<lambda>_. True" "\<lambda>_. True" "\<lambda>_. True" "\<lambda>_. True"
  using demo_store by (simp add: compensation_store_def mem_asset_def mem_table.gorm_table_axioms)

definition demo_compensation :: Compensation where
  "demo_compensation =
     \<lparr>co_ID = 40, co_CustomerID = 7, co_AfterSaleID = 9, co_CompensationNo = ''CP40'', co_Type = ''balance'',
      co_AssetType = ''balance'', co_Status = ''issuing'', co_Amount = 300, co_Reason = None, co_AssetTransactionID = None,
      co_FailureCode = None, co_Attempts = 1, co_NextRetryAt = None, co_LockedUntil = None, co_LockedBy = Some ''worker-1'',
      co_IssuedAt = None\<rparr>"

definition demo_asset :: asset_world where
  "demo_asset =
     \<lparr>aw_member = demo_ledger, adjustments = [], recon_jobs = [], recon_items = [], compensations = [demo_compensation],
      aw_claims = [], admin_users = [], login_accounts = [], admin_roles = [], role_permissions = [], permissions = []\<rparr>"

text \<open>C34: A compensation is paid exactly once. When issuing it succeeds, it is marked issued with the identifier of the one transaction
  that credits it; the customer's balance has grown by exactly the amount if it had not been credited before and not at all
  otherwise; and issuing the same compensation again, by any instance and in any world reached from there, does not touch the ledger.\<close>

theorem compensation_paid_once:
  assumes "compensation_store A account_fits balance_fits hold_fits hold_lot_fits compensation_fits"
    and "member_ok (aw_member w)" and "issueCompensation A row w = (Inr (), w')"
  shows "\<exists>t\<in>set (asset_transactions (aw_member w')). by_source ''compensation'' (idString (co_ID row)) ''credit'' t \<and>
    (\<forall>t'\<in>set (asset_transactions (aw_member w')). by_source ''compensation'' (idString (co_ID row)) ''credit'' t' \<longrightarrow> t' = t) \<and>
    (\<exists>c\<in>set (compensations w'). co_ID c = co_ID row \<and> co_Status c = ''issued'' \<and> co_AssetTransactionID c = Some (atx_ID t)) \<and>
    (if \<exists>t\<in>set (asset_transactions (aw_member w)). by_source ''compensation'' (idString (co_ID row)) ''credit'' t
     then core (aw_member w') = core (aw_member w)
     else atx_Amount t = sint (co_Amount row) \<and> holding (aw_member w') =
       transferred (co_CustomerID row) TypeBalance UnitCNY (sint (co_Amount row)) (holding (aw_member w))) \<and>
    (\<forall>v again. member_reach (ae_member A) (aw_member w') (aw_member v) \<and> co_ID again = co_ID row \<longrightarrow>
       core (aw_member (snd (issueCompensation A again v))) = core (aw_member v))"
proof -
  note store = compensation_store.axioms(1) [OF assms(1)]
  from compensation_store.issue_exact [OF assms(1,3,2)] obtain t where t: "t \<in> set (asset_transactions (aw_member w'))"
    "by_source ''compensation'' (idString (co_ID row)) ''credit'' t"
    "\<exists>c\<in>set (compensations w'). co_ID c = co_ID row \<and> co_Status c = ''issued'' \<and> co_AssetTransactionID c = Some (atx_ID t)"
    "member_ok (aw_member w')"
    "if \<exists>t\<in>set (asset_transactions (aw_member w)). by_source ''compensation'' (idString (co_ID row)) ''credit'' t
      then core (aw_member w') = core (aw_member w)
      else atx_Amount t = sint (co_Amount row) \<and> holding (aw_member w') =
        transferred (co_CustomerID row) TypeBalance UnitCNY (sint (co_Amount row)) (holding (aw_member w))" .
  have "core (aw_member (snd (issueCompensation A again v))) = core (aw_member v)"
    if "member_reach (ae_member A) (aw_member w') (aw_member v)" "co_ID again = co_ID row" for v again
    using compensation_store.issue_again [OF assms(1) member_store.reach_ok [OF store that(1) t(4)]
        member_store.reach_keeps [OF store that(1) t(1)], of again] t(2) that(2) by simp
  then show ?thesis using t member_store.source_unique [OF store t(4,1)] by blast
qed

lemmas asset_eval = mem_asset_def demo_asset_def demo_compensation_def issueCompensation_def compensation_command_def on_member_def
  asset_clock_def settle_issued_def mark_issued_def compensation_t_def parseID_def ParseUint_def is_digit_def digits_value_def

theorem compensation_paid_once_witness:
  "\<exists>w'. issueCompensation mem_asset demo_compensation demo_asset = (Inr (), w') \<and>
     holding (aw_member w') (available_of 7 ''balance'' ''CNY_MINOR'') = 800 \<and>
     (\<exists>c\<in>set (compensations w'). co_ID c = 40 \<and> co_Status c = ''issued'')"
proof -
  have "\<exists>w'. issueCompensation mem_asset demo_compensation demo_asset = (Inr (), w')"
    by (simp add: asset_eval member_eval demo_defs cong: run_congs)
  then obtain w' where run: "issueCompensation mem_asset demo_compensation demo_asset = (Inr (), w')" ..
  have ok: "member_ok (aw_member demo_asset)" using demo_ledger_ok by (simp add: demo_asset_def)
  have "holding demo_ledger (available_of 7 ''balance'' ''CNY_MINOR'') = 500"
    by (simp add: holding_def owned_by_def demo_ledger_def owner_key_def)
  moreover have "\<not> (\<exists>t\<in>set (asset_transactions (aw_member demo_asset)). by_source ''compensation'' (idString 40) ''credit'' t)"
    by (simp add: demo_asset_def demo_ledger_def by_source_def)
  ultimately show ?thesis
    using compensation_paid_once [OF mem_comp.compensation_store_axioms ok run] run
    by (auto simp: demo_asset_def demo_compensation_def transferred_def TypeBalance_def UnitCNY_def)
qed

end
