(* ===== verification/Member_Reconciliation.thy ===== *)
theory Member_Reconciliation
  imports Member_Worker
begin

text \<open>
  Reconciliation of the member assets: \<open>RunReconciliation\<close>, \<open>ListReconciliations\<close> and \<open>RepairReconciliation\<close> of
  \<open>internal/modules/asset/query_admin.go\<close>. A run compares every balance in its scope with the sum of its entries and
  looks for transactions whose entries do not sum to zero; a repair sets the balances a run found wrong to that sum.

  A statement that aggregates is modelled by the rows it reads. A sum is a decimal number in the database: scanning one that
  does not fit 64 bits is an error (\<open>scan_int64\<close>). \<open>reconcile\<close> returns its counts together with an error, and dereferences
  the scope of the job, which its caller always sets.
\<close>

subsection \<open>Responses\<close>

definition reconciliationDTO :: "ReconciliationJob \<Rightarrow> ReconciliationDTO" where
  "reconciliationDTO row =
     \<lparr>rd_ID = idString (rj_ID row), rd_JobNo = rj_JobNo row, rd_Scope = rj_Scope row,
      rd_ScopeID = (case rj_ScopeID row of None \<Rightarrow> [] | Some s \<Rightarrow> s), rd_Mode = rj_Mode row, rd_Status = rj_Status row,
      rd_ScannedCount = rj_ScannedCount row, rd_DifferenceCount = rj_DifferenceCount row,
      rd_CriticalCount = rj_CriticalCount row, rd_CreatedAt = rj_CreatedAt row, rd_FinishedAt = rj_FinishedAt row\<rparr>"

definition nil_dereference :: go_error where
  "nil_dereference = ErrMessage ''runtime error: invalid memory address or nil pointer dereference''"

definition scan_int64 :: "int \<Rightarrow> (asset_world, go_error, int) go" where
  "scan_int64 n = (if i64 n = n then go_ok n else go_err (ErrMessage ''converting to int64: value out of range''))"

subsection \<open>Comparing\<close>

definition scope_balances :: "asset_env \<Rightarrow> ReconciliationJob \<Rightarrow> (asset_world, go_error, Balance list) go" where
  "scope_balances A job =
     (let S = ae_member A in
      if rj_Scope job = ''account'' then
        case rj_ScopeID job of
          None \<Rightarrow> go_err nil_dereference
        | Some i \<Rightarrow> on_member (db_find (balance_t S) (\<lambda>b. ae_number_eq A (bal_AccountID b) i))
      else if rj_Scope job = ''customer'' then
        case rj_ScopeID job of
          None \<Rightarrow> go_err nil_dereference
        | Some i \<Rightarrow>
            on_member (go_bind (db_find (account_t S) (\<lambda>a. acc_OwnerType a = ''customer'' \<and> ae_number_eq A (acc_OwnerID a) i)) (\<lambda>owned.
              db_find (balance_t S) (\<lambda>b. list_ex (\<lambda>a. acc_ID a = bal_AccountID b) owned)))
      else on_member (db_find (balance_t S) (\<lambda>_. True)))"

definition entry_sum :: "Entry list \<Rightarrow> Balance \<Rightarrow> int" where
  "entry_sum es b = sum_list (map ent_Delta (filter (\<lambda>e. ent_AccountID e = bal_AccountID b \<and> ent_Bucket e = bal_Bucket b) es))"

text \<open>The rows \<open>b.id, b.account_id, b.bucket, b.amount, expected\<close> and \<open>t.id, sum\<close> of the two queries.\<close>

definition balance_rows :: "asset_env \<Rightarrow> ReconciliationJob \<Rightarrow> (asset_world, go_error, (Balance \<times> int) list) go" where
  "balance_rows A job =
     go_bind (scope_balances A job) (\<lambda>bs.
     go_bind (on_member (db_find (entry_t (ae_member A)) (\<lambda>_. True))) (\<lambda>es.
     go_for (\<lambda>b rows. go_bind (scan_int64 (entry_sum es b)) (\<lambda>expected. go_ok (rows @ [(b, expected)]))) bs []))"

definition transaction_sum :: "Entry list \<Rightarrow> AssetTransaction \<Rightarrow> int" where
  "transaction_sum es t = sum_list (map ent_Delta (filter (\<lambda>e. ent_TransactionID e = atx_ID t) es))"

definition unbalanced_rows :: "asset_env \<Rightarrow> (asset_world, go_error, (uint64 \<times> int) list) go" where
  "unbalanced_rows A =
     go_bind (on_member (db_find (entry_t (ae_member A)) (\<lambda>_. True))) (\<lambda>es.
     go_bind (on_member (db_find (transaction_t (ae_member A)) (\<lambda>t. transaction_sum es t \<noteq> 0))) (\<lambda>ts.
     go_for (\<lambda>t rows. go_bind (scan_int64 (transaction_sum es t)) (\<lambda>s. go_ok (rows @ [(atx_ID t, s)]))) ts []))"

definition create_item ::
    "asset_env \<Rightarrow> ReconciliationJob \<Rightarrow> string \<Rightarrow> uint64 \<Rightarrow> string \<Rightarrow> int \<Rightarrow> int \<Rightarrow> json option \<Rightarrow> (asset_world, go_error, unit) go" where
  "create_item A job objectType objectID diffType expected actual detail =
     go_bind (on_member next_id) (\<lambda>i.
     go_bind asset_clock (\<lambda>now.
     db_create (item_t A)
       \<lparr>ri_ID = i, ri_JobID = rj_ID job, ri_ObjectType = objectType, ri_ObjectID = idString objectID, ri_DiffType = diffType,
        ri_Severity = ''critical'', ri_Status = ''open'', ri_ExpectedAmount = Some expected, ri_ActualAmount = Some actual,
        ri_Detail = detail, ri_CreatedAt = now, ri_UpdatedAt = now\<rparr>))"

fun mismatch_loop ::
    "asset_env \<Rightarrow> ReconciliationJob \<Rightarrow> (Balance \<times> int) list \<Rightarrow> uint64 \<Rightarrow> asset_world \<Rightarrow> (uint64 \<times> go_error option) \<times> asset_world" where
  "mismatch_loop A job [] diffs w = ((diffs, None), w)"
| "mismatch_loop A job ((b, expected) # rows) diffs w =
     (if bal_Amount b = expected then mismatch_loop A job rows diffs w
      else case create_item A job ''balance'' (bal_ID b) ''projection_mismatch'' expected (bal_Amount b)
          (Some (JObject [(''account_id'', JString (idString (bal_AccountID b))), (''bucket'', JString (bal_Bucket b))])) w of
        (Inl e, w') \<Rightarrow> ((diffs + 1, Some e), w')
      | (Inr _, w') \<Rightarrow> mismatch_loop A job rows (diffs + 1) w')"

fun unbalanced_loop ::
    "asset_env \<Rightarrow> ReconciliationJob \<Rightarrow> (uint64 \<times> int) list \<Rightarrow> uint64 \<Rightarrow> asset_world \<Rightarrow> (uint64 \<times> go_error option) \<times> asset_world" where
  "unbalanced_loop A job [] diffs w = ((diffs, None), w)"
| "unbalanced_loop A job ((i, actual) # rows) diffs w =
     (case create_item A job ''transaction'' i ''unbalanced_entries'' 0 actual None w of
        (Inl e, w') \<Rightarrow> ((diffs + 1, Some e), w')
      | (Inr _, w') \<Rightarrow> unbalanced_loop A job rows (diffs + 1) w')"

definition reconcile ::
    "asset_env \<Rightarrow> ReconciliationJob \<Rightarrow> asset_world \<Rightarrow> (uint64 \<times> uint64 \<times> uint64 \<times> go_error option) \<times> asset_world" where
  "reconcile A job w =
     (case balance_rows A job w of
        (Inl e, w1) \<Rightarrow> ((0, 0, 0, Some e), w1)
      | (Inr rows, w1) \<Rightarrow>
          let scanned = of_nat (length rows) in
          (case mismatch_loop A job rows 0 w1 of
             ((diffs, Some e), w2) \<Rightarrow> ((scanned, diffs, diffs, Some e), w2)
           | ((diffs, None), w2) \<Rightarrow>
               (case unbalanced_rows A w2 of
                  (Inl e, w3) \<Rightarrow> ((scanned, diffs, diffs, Some e), w3)
                | (Inr unbalanced, w3) \<Rightarrow>
                    (case unbalanced_loop A job unbalanced diffs w3 of
                       ((all_diffs, err), w4) \<Rightarrow> ((scanned, all_diffs, all_diffs, err), w4)))))"

subsection \<open>A run\<close>

definition job_of_key :: "uint64 \<Rightarrow> string \<Rightarrow> ReconciliationJob \<Rightarrow> bool" where
  "job_of_key adminID hash j \<longleftrightarrow> rj_RequestedBy j = adminID \<and> rj_IdempotencyKeyHash j = hash"

definition new_job :: "asset_env \<Rightarrow> uint64 \<Rightarrow> string \<Rightarrow> ReconcileReq \<Rightarrow> (asset_world, go_error, ReconciliationJob) go" where
  "new_job A adminID hash req =
     go_bind asset_clock (\<lambda>now.
     go_bind (on_member next_id) (\<lambda>i.
     go_bind (on_member next_id) (\<lambda>j.
     go_ok \<lparr>rj_ID = i, rj_RequestedBy = adminID, rj_JobNo = ''AR'' @ idString j, rj_Scope = rr_Scope req, rj_Mode = ''dry_run'',
       rj_Status = ''running'', rj_RequestID = valueOrEmpty (ctx_RequestID (ae_member A)), rj_IdempotencyKeyHash = hash,
       rj_ScopeID = Some (rr_ScopeID req), rj_ScannedCount = 0, rj_DifferenceCount = 0, rj_CriticalCount = 0,
       rj_StartedAt = Some now, rj_FinishedAt = None, rj_CreatedAt = now, rj_UpdatedAt = now\<rparr>)))"

definition finish_job :: "string \<Rightarrow> uint64 \<Rightarrow> uint64 \<Rightarrow> uint64 \<Rightarrow> go_time \<Rightarrow> ReconciliationJob \<Rightarrow> ReconciliationJob" where
  "finish_job status scanned diffs critical finished j = j\<lparr>rj_Status := status, rj_ScannedCount := scanned,
     rj_DifferenceCount := diffs, rj_CriticalCount := critical, rj_FinishedAt := Some finished\<rparr>"

definition run_job :: "asset_env \<Rightarrow> ReconciliationJob \<Rightarrow> (asset_world, go_error, ReconciliationDTO) go" where
  "run_job A job =
     go_bind (go_call (reconcile A job)) (\<lambda>(scanned, diffs, critical, err).
     go_bind asset_clock (\<lambda>finished.
     let status = (case err of None \<Rightarrow> ''succeeded'' | Some _ \<Rightarrow> ''failed'') in
     go_bind (go_try (db_updates (job_t A) (\<lambda>j. rj_ID j = rj_ID job)
       (\<lambda>j. (finish_job status scanned diffs critical finished j)\<lparr>rj_UpdatedAt := finished\<rparr>))) (\<lambda>_.
     case err of
       Some e \<Rightarrow> go_err e
     | None \<Rightarrow> go_ok (reconciliationDTO (finish_job status scanned diffs critical finished job)))))"

definition RunReconciliation ::
    "asset_env \<Rightarrow> Claims option \<Rightarrow> string \<Rightarrow> ReconcileReq \<Rightarrow> (asset_world, go_error, ReconciliationDTO) go" where
  "RunReconciliation A claims key req =
     (case adminIDWithPermission claims ''asset_reconcile:run'' of
        Inl e \<Rightarrow> go_err e
      | Inr adminID \<Rightarrow>
          if rr_Scope req \<noteq> ''all'' \<and> rr_ScopeID req = []
          then go_err (problem_InvalidArgument ''VALIDATION_FAILED'' ''scope_id is required'')
          else if length key < 8 \<or> 128 < length key
          then go_err (problem_InvalidArgument ''IDEMPOTENCY_KEY_INVALID''
            ''Idempotency-Key must be between 8 and 128 characters'')
          else
            let hash = keyHash (ae_member A) key in
            go_bind (go_try (db_take (job_t A) (job_of_key adminID hash))) (\<lambda>found.
            case found of
              Inr existing \<Rightarrow> go_ok (reconciliationDTO existing)
            | Inl e \<Rightarrow>
                if e \<noteq> ErrRecordNotFound then go_err e
                else
                  go_bind (new_job A adminID hash req) (\<lambda>job.
                  go_bind (go_try (db_create (job_t A) job)) (\<lambda>created.
                  case created of
                    Inr _ \<Rightarrow> run_job A job
                  | Inl err \<Rightarrow>
                      if isDuplicateError (Some err) then
                        go_bind (go_try (db_take (job_t A) (job_of_key adminID hash))) (\<lambda>again.
                        case again of Inr existing \<Rightarrow> go_ok (reconciliationDTO existing) | Inl _ \<Rightarrow> go_err err)
                      else go_err err))))"

subsection \<open>Lists\<close>

text \<open>\<open>Offset\<close> and \<open>Limit\<close> of GORM: a negative value is not sent.\<close>

definition gorm_offset :: "int \<Rightarrow> 'a list \<Rightarrow> 'a list" where
  "gorm_offset n xs = (if n \<le> 0 then xs else drop (nat n) xs)"

definition job_order :: "ReconciliationJob \<Rightarrow> int list" where
  "job_order j = [- rj_CreatedAt j, - uint (rj_ID j)]"

definition ListReconciliations ::
    "asset_env \<Rightarrow> Claims option \<Rightarrow> page_query \<Rightarrow> (asset_world, go_error, ReconciliationDTO list \<times> string) go" where
  "ListReconciliations A claims q =
     (case adminIDWithPermission claims ''asset_reconcile:view'' of
        Inl e \<Rightarrow> go_err e
      | Inr _ \<Rightarrow>
          go_bind (db_ordered (job_t A) (\<lambda>_. True) job_order) (\<lambda>found.
          go_bind asset_clock (\<lambda>now.
          let rows = gorm_limit (i64 (pq_PageSize q + 1)) (gorm_offset (pq_Offset q) found);
              more = (pq_PageSize q < int (length rows));
              page = (if more then take (nat (pq_PageSize q)) rows else rows);
              next = (if more then NextPageToken (ae_pager A) (unix_second now) q else []) in
          go_ok (map reconciliationDTO page, next))))"

subsection \<open>Repair\<close>

definition repair_item :: "asset_env \<Rightarrow> ReconciliationItem \<Rightarrow> (asset_world, go_error, unit) go" where
  "repair_item A item =
     (let S = ae_member A in
      case parseID (ri_ObjectID item) of
        Inl e \<Rightarrow> go_err e
      | Inr balanceID \<Rightarrow>
          go_bind (on_member (db_take (balance_t S) (\<lambda>b. bal_ID b = balanceID))) (\<lambda>balance.
          go_bind (on_member (db_find (entry_t S)
            (\<lambda>e. ent_AccountID e = bal_AccountID balance \<and> ent_Bucket e = bal_Bucket balance))) (\<lambda>es.
          go_bind (scan_int64 (sum_list (map ent_Delta es))) (\<lambda>expected.
          go_bind (on_member (db_updates (balance_t S) (\<lambda>b. bal_ID b = bal_ID balance)
            (\<lambda>b. b\<lparr>bal_Amount := expected, bal_Version := bal_Version b + 1\<rparr>))) (\<lambda>_.
          go_bind asset_clock (\<lambda>now.
          go_bind (db_updates (item_t A) (\<lambda>i. ri_ID i = ri_ID item)
            (\<lambda>i. i\<lparr>ri_Status := ''repaired'', ri_UpdatedAt := now\<rparr>)) (\<lambda>_. go_ok ())))))))"

definition open_mismatch :: "uint64 \<Rightarrow> ReconciliationItem \<Rightarrow> bool" where
  "open_mismatch job i \<longleftrightarrow> ri_JobID i = job \<and> ri_DiffType i = ''projection_mismatch'' \<and> ri_Status i = ''open''"

definition RepairReconciliation ::
    "asset_env \<Rightarrow> Claims option \<Rightarrow> string \<Rightarrow> (asset_world, go_error, ReconciliationDTO) go" where
  "RepairReconciliation A claims rawID =
     (case adminIDWithPermission claims ''asset_reconcile:repair'' of
        Inl e \<Rightarrow> go_err e
      | Inr _ \<Rightarrow>
          if \<not> ae_RepairEnabled A
          then go_err (problem_Forbidden ''RECONCILIATION_REPAIR_FORBIDDEN'' ''asset projection repair is disabled'')
          else case parseID rawID of
            Inl _ \<Rightarrow> go_err (problem_NotFound ''ASSET_RECONCILIATION_NOT_FOUND'' ''reconciliation not found'')
          | Inr i \<Rightarrow>
              go_bind (db_find (item_t A) (\<lambda>x. ri_JobID x = i \<and> ri_DiffType x = ''unbalanced_entries'')) (\<lambda>critical.
              if critical \<noteq> []
              then go_err (problem_Forbidden ''RECONCILIATION_REPAIR_FORBIDDEN''
                ''unbalanced entries cannot be repaired automatically'')
              else
                go_bind (gorm_transaction (ae_commit A) restore_asset
                  (go_bind (db_find (item_t A) (open_mismatch i)) (\<lambda>items.
                   go_for (\<lambda>item _. repair_item A item) items ()))) (\<lambda>_.
                go_bind (db_take (job_t A) (\<lambda>j. rj_ID j = i)) (\<lambda>job.
                go_ok (reconciliationDTO job)))))"

subsection \<open>What a run finds\<close>

text \<open>The specification: which balances are in scope, and what an item says.\<close>

definition in_scope :: "asset_env \<Rightarrow> ReconciliationJob \<Rightarrow> member_world \<Rightarrow> Balance \<Rightarrow> bool" where
  "in_scope A job m b \<longleftrightarrow>
     (if rj_Scope job = ''account'' then ae_number_eq A (bal_AccountID b) (valueOrEmpty (rj_ScopeID job))
      else if rj_Scope job = ''customer'' then list_ex (\<lambda>a. acc_OwnerType a = ''customer'' \<and>
        ae_number_eq A (acc_OwnerID a) (valueOrEmpty (rj_ScopeID job)) \<and> acc_ID a = bal_AccountID b) (accounts m)
      else True)"

type_synonym finding = "uint64 \<times> string \<times> string \<times> string \<times> string \<times> int option \<times> int option"

definition item_finding :: "ReconciliationItem \<Rightarrow> finding" where
  "item_finding i = (ri_JobID i, ri_ObjectType i, ri_ObjectID i, ri_DiffType i, ri_Status i, ri_ExpectedAmount i, ri_ActualAmount i)"

definition balance_finding :: "ReconciliationJob \<Rightarrow> Balance \<times> int \<Rightarrow> finding" where
  "balance_finding job = (\<lambda>(b, expected). (rj_ID job, ''balance'', idString (bal_ID b), ''projection_mismatch'', ''open'',
     Some expected, Some (bal_Amount b)))"

definition transaction_finding :: "ReconciliationJob \<Rightarrow> uint64 \<times> int \<Rightarrow> finding" where
  "transaction_finding job = (\<lambda>(i, actual). (rj_ID job, ''transaction'', idString i, ''unbalanced_entries'', ''open'', Some 0, Some actual))"

lemma scan_rows:
  assumes "go_for (\<lambda>x rows. go_bind (scan_int64 (f x)) (\<lambda>n. go_ok (rows @ [(g x, n)]))) xs acc w = (Inr rows, w')"
  shows "w' = w \<and> rows = acc @ map (\<lambda>x. (g x, f x)) xs \<and> (\<forall>x\<in>set xs. i64 (f x) = f x)"
  using assms
proof (induction xs arbitrary: acc)
  case (Cons x xs)
  let ?loop = "go_for (\<lambda>x rows. go_bind (scan_int64 (f x)) (\<lambda>n. go_ok (rows @ [(g x, n)]))) xs"
  from Cons.prems obtain a u where step: "go_bind (scan_int64 (f x)) (\<lambda>n. go_ok (acc @ [(g x, n)])) w = (Inr a, u)"
    and rest: "?loop a u = (Inr rows, w')" unfolding go_for.simps by (rule go_bindE)
  from step have a: "i64 (f x) = f x" "a = acc @ [(g x, f x)]" "u = w"
    unfolding scan_int64_def by (auto elim!: go_bindE split: if_split_asm)
  from rest have "?loop (acc @ [(g x, f x)]) w = (Inr rows, w')" unfolding a(2,3) .
  from Cons.IH [OF this] show ?case using a(1) by simp
qed simp

lemma on_find:
  "on_member (db_find T p) w = (Inr found, w') \<longleftrightarrow> sql_find (tbl_engine T) p (tbl_rows T (aw_member w)) = Inr found \<and> w' = w"
  by (auto simp: on_member_inv db_find_inv)

locale recon_store =
  member_store "ae_member A" account_fits balance_fits hold_fits hold_lot_fits +
  job: gorm_table "jobE A" job_clash job_fits +
  item: gorm_table "itemE A" item_clash item_fits
  for A :: asset_env and account_fits balance_fits hold_fits hold_lot_fits job_fits item_fits
begin

lemma scope_balances_rows:
  assumes "scope_balances A j w = (Inr bs, w')"
  shows "w' = w" and "mset bs = mset (filter (in_scope A j (aw_member w)) (balances (aw_member w)))"
proof -
  let ?m = "aw_member w"
  have find: "mset found = mset (filter p (balances ?m))" if "sql_find (balanceE (ae_member A)) p (balances ?m) = Inr found" for p found
    using bal.find_rows that by blast
  consider (account) i where "rj_Scope j = ''account''" "rj_ScopeID j = Some i"
      "on_member (db_find (balance_t (ae_member A)) (\<lambda>b. ae_number_eq A (bal_AccountID b) i)) w = (Inr bs, w')"
    | (customer) i where "rj_Scope j = ''customer''" "rj_ScopeID j = Some i"
      "on_member (go_bind (db_find (account_t (ae_member A)) (\<lambda>a. acc_OwnerType a = ''customer'' \<and> ae_number_eq A (acc_OwnerID a) i)) (\<lambda>owned.
         db_find (balance_t (ae_member A)) (\<lambda>b. list_ex (\<lambda>a. acc_ID a = bal_AccountID b) owned))) w = (Inr bs, w')"
    | (all) "rj_Scope j \<noteq> ''account''" "rj_Scope j \<noteq> ''customer''" "on_member (db_find (balance_t (ae_member A)) (\<lambda>_. True)) w = (Inr bs, w')"
    using assms by (auto simp: scope_balances_def Let_def split: if_splits option.splits)
  then have "w' = w \<and> mset bs = mset (filter (in_scope A j ?m) (balances ?m))"
  proof cases
    case account
    then have "sql_find (balanceE (ae_member A)) (\<lambda>b. ae_number_eq A (bal_AccountID b) i) (balances ?m) = Inr bs" "w' = w"
      by (simp_all add: on_find balance_t_def)
    moreover have "in_scope A j ?m = (\<lambda>b. ae_number_eq A (bal_AccountID b) i)"
      using account by (simp add: fun_eq_iff in_scope_def valueOrEmpty_def)
    ultimately show ?thesis using find by simp
  next
    case customer
    then obtain owned where owned: "sql_find (accountE (ae_member A)) (\<lambda>a. acc_OwnerType a = ''customer'' \<and> ae_number_eq A (acc_OwnerID a) i)
        (accounts ?m) = Inr owned"
      and bs: "sql_find (balanceE (ae_member A)) (\<lambda>b. list_ex (\<lambda>a. acc_ID a = bal_AccountID b) owned) (balances ?m) = Inr bs" "w' = w"
      by (auto simp: on_member_inv db_find_inv account_t_def balance_t_def elim!: go_bindE)
    have "set owned = {a \<in> set (accounts ?m). acc_OwnerType a = ''customer'' \<and> ae_number_eq A (acc_OwnerID a) i}"
      using mset_eq_setD [OF acct.find_rows [OF owned]] by simp
    then have "(\<lambda>b. list_ex (\<lambda>a. acc_ID a = bal_AccountID b) owned) = in_scope A j ?m"
      using customer by (auto simp: in_scope_def list_ex_iff valueOrEmpty_def fun_eq_iff)
    then show ?thesis using find [OF bs(1)] bs(2) by simp
  next
    case all
    then have "sql_find (balanceE (ae_member A)) (\<lambda>_. True) (balances ?m) = Inr bs" "w' = w"
      by (simp_all add: on_find balance_t_def)
    moreover have "in_scope A j ?m = (\<lambda>_. True)" using all by (simp add: fun_eq_iff in_scope_def)
    ultimately show ?thesis using find by simp
  qed
  then show "w' = w" and "mset bs = mset (filter (in_scope A j ?m) (balances ?m))" by simp_all
qed

lemma entries_read:
  assumes "on_member (db_find (entry_t (ae_member A)) (\<lambda>_. True)) w = (Inr es, w')"
  shows "w' = w" and "entry_sum es = entry_sum (entries (aw_member w))" and "transaction_sum es = transaction_sum (entries (aw_member w))"
proof -
  from assms show "w' = w" by (simp add: on_find)
  have "mset es = mset (entries (aw_member w))" using assms ent.find_rows [of "\<lambda>_. True"] by (simp add: on_find entry_t_def)
  then have "sum_list (map ent_Delta (filter p es)) = sum_list (map ent_Delta (filter p (entries (aw_member w))))" for p
    by (intro sum_list_mset_eq) simp
  then show "entry_sum es = entry_sum (entries (aw_member w))" "transaction_sum es = transaction_sum (entries (aw_member w))"
    by (simp_all add: entry_sum_def [abs_def] transaction_sum_def [abs_def] fun_eq_iff)
qed

lemma balance_rows_read:
  assumes "balance_rows A j w = (Inr rows, w')"
  obtains bs where "w' = w" and "mset bs = mset (filter (in_scope A j (aw_member w)) (balances (aw_member w)))"
    and "rows = map (\<lambda>b. (b, entry_sum (entries (aw_member w)) b)) bs"
    and "\<forall>b\<in>set bs. i64 (entry_sum (entries (aw_member w)) b) = entry_sum (entries (aw_member w)) b"
proof -
  from assms obtain bs w1 es w2 where bs: "scope_balances A j w = (Inr bs, w1)"
    and es: "on_member (db_find (entry_t (ae_member A)) (\<lambda>_. True)) w1 = (Inr es, w2)"
    and scan: "go_for (\<lambda>b rows. go_bind (scan_int64 (entry_sum es b)) (\<lambda>expected. go_ok (rows @ [(b, expected)]))) bs [] w2 = (Inr rows, w')"
    by (auto simp: balance_rows_def elim!: go_bindE)
  note s = scope_balances_rows [OF bs]
  note e = entries_read [OF es]
  from scan_rows [where g = "\<lambda>b. b", OF scan] show thesis using that [of bs] s e by simp
qed

lemma unbalanced_rows_read:
  assumes "unbalanced_rows A w = (Inr rows, w')"
  obtains ts where "w' = w"
    and "mset ts = mset (filter (\<lambda>t. transaction_sum (entries (aw_member w)) t \<noteq> 0) (asset_transactions (aw_member w)))"
    and "rows = map (\<lambda>t. (atx_ID t, transaction_sum (entries (aw_member w)) t)) ts"
proof -
  from assms obtain es w1 ts w2 where es: "on_member (db_find (entry_t (ae_member A)) (\<lambda>_. True)) w = (Inr es, w1)"
    and ts: "on_member (db_find (transaction_t (ae_member A)) (\<lambda>t. transaction_sum es t \<noteq> 0)) w1 = (Inr ts, w2)"
    and scan: "go_for (\<lambda>t rows. go_bind (scan_int64 (transaction_sum es t)) (\<lambda>s. go_ok (rows @ [(atx_ID t, s)]))) ts [] w2 = (Inr rows, w')"
    by (auto simp: unbalanced_rows_def elim!: go_bindE)
  note e = entries_read [OF es]
  from ts e(1) have "w2 = w" "mset ts = mset (filter (\<lambda>t. transaction_sum es t \<noteq> 0) (asset_transactions (aw_member w)))"
    using txn.find_rows by (auto simp: on_find transaction_t_def)
  with scan_rows [where g = atx_ID, OF scan] show thesis using that [of ts] e(3) by simp
qed

lemma create_item_done:
  assumes "create_item A j ty i diff expected actual detail w = (Inr u, w')"
  obtains x where "recon_items w' = recon_items w @ [x]" and "core (aw_member w') = core (aw_member w)"
    and "item_finding x = (rj_ID j, ty, idString i, diff, ''open'', Some expected, Some actual)"
proof -
  from assms obtain n u now where drawn: "next_id (aw_member w) = (Inr n, u)"
    and new: "db_create (item_t A) \<lparr>ri_ID = n, ri_JobID = rj_ID j, ri_ObjectType = ty, ri_ObjectID = idString i, ri_DiffType = diff,
        ri_Severity = ''critical'', ri_Status = ''open'', ri_ExpectedAmount = Some expected, ri_ActualAmount = Some actual,
        ri_Detail = detail, ri_CreatedAt = now, ri_UpdatedAt = now\<rparr> (w\<lparr>aw_member := u\<rparr>) = (Inr (), w')"
    by (auto simp: create_item_def on_member_inv asset_clock_inv elim!: go_bindE)
  have "core u = core (aw_member w)" by (rule core_frames(1) [OF drawn])
  then show thesis using new that by (auto simp: db_create_inv item_t_def item_finding_def dest!: item.create_row)
qed

lemma mismatch_loop_done:
  assumes "mismatch_loop A j rows diffs w = ((diffs', None), w')"
  shows "\<exists>new. recon_items w' = recon_items w @ new \<and> core (aw_member w') = core (aw_member w) \<and>
    diffs' = diffs + of_nat (length new) \<and>
    map item_finding new = map (balance_finding j) (filter (\<lambda>(b, expected). bal_Amount b \<noteq> expected) rows)"
  using assms
proof (induction rows arbitrary: diffs w)
  case (Cons row rows)
  obtain b expected where row: "row = (b, expected)" by (cases row)
  show ?case
  proof (cases "bal_Amount b = expected")
    case False
    then obtain u v where item: "create_item A j ''balance'' (bal_ID b) ''projection_mismatch'' expected (bal_Amount b)
          (Some (JObject [(''account_id'', JString (idString (bal_AccountID b))), (''bucket'', JString (bal_Bucket b))])) w = (Inr u, v)"
      and rest: "mismatch_loop A j rows (diffs + 1) v = ((diffs', None), w')"
      using Cons.prems by (auto simp: row split: prod.splits sum.splits)
    from create_item_done [OF item] obtain x where x: "recon_items v = recon_items w @ [x]" "core (aw_member v) = core (aw_member w)"
      "item_finding x = balance_finding j (b, expected)" by (auto simp: balance_finding_def)
    from Cons.IH [OF rest] obtain new where "recon_items w' = recon_items v @ new" "core (aw_member w') = core (aw_member v)"
      "diffs' = diffs + 1 + of_nat (length new)"
      "map item_finding new = map (balance_finding j) (filter (\<lambda>(b, expected). bal_Amount b \<noteq> expected) rows)" by blast
    then show ?thesis using x False by (intro exI [of _ "x # new"]) (simp add: row)
  qed (use Cons row in simp)
qed simp

lemma unbalanced_loop_done:
  assumes "unbalanced_loop A j rows diffs w = ((diffs', None), w')"
  shows "\<exists>new. recon_items w' = recon_items w @ new \<and> core (aw_member w') = core (aw_member w) \<and>
    diffs' = diffs + of_nat (length new) \<and> map item_finding new = map (transaction_finding j) rows"
  using assms
proof (induction rows arbitrary: diffs w)
  case (Cons row rows)
  obtain i actual where row: "row = (i, actual)" by (cases row)
  with Cons.prems obtain u v where item: "create_item A j ''transaction'' i ''unbalanced_entries'' 0 actual None w = (Inr u, v)"
    and rest: "unbalanced_loop A j rows (diffs + 1) v = ((diffs', None), w')" by (auto split: prod.splits sum.splits)
  from create_item_done [OF item] obtain x where x: "recon_items v = recon_items w @ [x]" "core (aw_member v) = core (aw_member w)"
    "item_finding x = transaction_finding j (i, actual)" by (auto simp: transaction_finding_def)
  from Cons.IH [OF rest] obtain new where "recon_items w' = recon_items v @ new" "core (aw_member w') = core (aw_member v)"
    "diffs' = diffs + 1 + of_nat (length new)" "map item_finding new = map (transaction_finding j) rows" by blast
  then show ?case using x by (intro exI [of _ "x # new"]) (simp add: row)
qed simp

lemma reconcile_done:
  assumes "reconcile A j w = ((scanned, diffs, critical, None), w')"
  obtains bs ts new1 new2 where "recon_items w' = recon_items w @ new1 @ new2" and "core (aw_member w') = core (aw_member w)"
    and "scanned = of_nat (length bs)" and "diffs = of_nat (length new1 + length new2)" and "critical = diffs"
    and "mset bs = mset (filter (in_scope A j (aw_member w)) (balances (aw_member w)))"
    and "\<forall>b\<in>set bs. i64 (entry_sum (entries (aw_member w)) b) = entry_sum (entries (aw_member w)) b"
    and "map item_finding new1 = map (\<lambda>b. balance_finding j (b, entry_sum (entries (aw_member w)) b))
      (filter (\<lambda>b. bal_Amount b \<noteq> entry_sum (entries (aw_member w)) b) bs)"
    and "mset ts = mset (filter (\<lambda>t. transaction_sum (entries (aw_member w)) t \<noteq> 0) (asset_transactions (aw_member w)))"
    and "map item_finding new2 = map (\<lambda>t. transaction_finding j (atx_ID t, transaction_sum (entries (aw_member w)) t)) ts"
proof -
  let ?s = "entry_sum (entries (aw_member w))" and ?t = "transaction_sum (entries (aw_member w))"
  obtain r1 w1 where r1: "balance_rows A j w = (r1, w1)" by (cases "balance_rows A j w")
  with assms obtain rows where rows: "balance_rows A j w = (Inr rows, w1)" by (cases r1) (auto simp: reconcile_def)
  obtain diffs1 e w2 where m0: "mismatch_loop A j rows 0 w1 = ((diffs1, e), w2)" by (metis prod.collapse)
  with assms rows have m: "mismatch_loop A j rows 0 w1 = ((diffs1, None), w2)" by (cases e) (auto simp: reconcile_def Let_def)
  obtain r2 w3 where r2: "unbalanced_rows A w2 = (r2, w3)" by (cases "unbalanced_rows A w2")
  with assms rows m obtain unbalanced where u: "unbalanced_rows A w2 = (Inr unbalanced, w3)"
    by (cases r2) (auto simp: reconcile_def Let_def)
  obtain d e2 w4 where "unbalanced_loop A j unbalanced diffs1 w3 = ((d, e2), w4)" by (metis prod.collapse)
  with assms rows m u have l: "unbalanced_loop A j unbalanced diffs1 w3 = ((diffs, None), w')"
    and counts: "scanned = of_nat (length rows)" "critical = diffs" by (auto simp: reconcile_def Let_def)
  obtain bs where w1: "w1 = w" and bs: "mset bs = mset (filter (in_scope A j (aw_member w)) (balances (aw_member w)))"
    "rows = map (\<lambda>b. (b, ?s b)) bs" "\<forall>b\<in>set bs. i64 (?s b) = ?s b"
    by (rule balance_rows_read [OF rows])
  from mismatch_loop_done [OF m] w1 obtain new1 where new1: "recon_items w2 = recon_items w @ new1" "core (aw_member w2) = core (aw_member w)"
    "diffs1 = of_nat (length new1)"
    "map item_finding new1 = map (balance_finding j) (filter (\<lambda>(b, expected). bal_Amount b \<noteq> expected) rows)" by auto
  have same: "entries (aw_member w2) = entries (aw_member w)" "asset_transactions (aw_member w2) = asset_transactions (aw_member w)"
    using new1(2) by (simp_all add: core_iff)
  from unbalanced_rows_read [OF u] obtain ts where w3: "w3 = w2" and ts: "mset ts = mset (filter (\<lambda>t. ?t t \<noteq> 0) (asset_transactions (aw_member w)))"
    "unbalanced = map (\<lambda>t. (atx_ID t, ?t t)) ts" unfolding same .
  from unbalanced_loop_done [OF l] w3 obtain new2 where new2: "recon_items w' = recon_items w2 @ new2" "core (aw_member w') = core (aw_member w2)"
    "diffs = diffs1 + of_nat (length new2)" "map item_finding new2 = map (transaction_finding j) unbalanced" by auto
  show thesis
    by (rule that [of new1 new2 bs ts]) (use new1 new2 bs ts counts in \<open>simp_all add: filter_map comp_def\<close>)
qed

end

subsection \<open>What a repair does\<close>

context recon_store
begin

text \<open>The items a run leaves for a repair.\<close>

lemma reconcile_marks:
  assumes "reconcile A j w = ((scanned, diffs, critical, None), v)"
  shows "core (aw_member v) = core (aw_member w)"
    and "b \<in> set (balances (aw_member w)) \<Longrightarrow> in_scope A j (aw_member w) b \<Longrightarrow> bal_Amount b \<noteq> entry_sum (entries (aw_member w)) b \<Longrightarrow>
      \<exists>x\<in>set (recon_items v). open_mismatch (rj_ID j) x \<and> ri_ObjectID x = idString (bal_ID b)"
    and "t \<in> set (asset_transactions (aw_member w)) \<Longrightarrow> transaction_sum (entries (aw_member w)) t \<noteq> 0 \<Longrightarrow>
      \<exists>x\<in>set (recon_items v). ri_JobID x = rj_ID j \<and> ri_DiffType x = ''unbalanced_entries''"
proof -
  let ?s = "entry_sum (entries (aw_member w))" and ?t = "transaction_sum (entries (aw_member w))"
  obtain bs ts new1 new2 where r: "recon_items v = recon_items w @ new1 @ new2" "core (aw_member v) = core (aw_member w)"
    "mset bs = mset (filter (in_scope A j (aw_member w)) (balances (aw_member w)))"
    "map item_finding new1 = map (\<lambda>b. balance_finding j (b, ?s b)) (filter (\<lambda>b. bal_Amount b \<noteq> ?s b) bs)"
    "mset ts = mset (filter (\<lambda>t. ?t t \<noteq> 0) (asset_transactions (aw_member w)))"
    "map item_finding new2 = map (\<lambda>t. transaction_finding j (atx_ID t, ?t t)) ts"
    by (rule reconcile_done [OF assms])
  show "core (aw_member v) = core (aw_member w)" by (rule r(2))
  show "\<exists>x\<in>set (recon_items v). open_mismatch (rj_ID j) x \<and> ri_ObjectID x = idString (bal_ID b)"
    if "b \<in> set (balances (aw_member w))" "in_scope A j (aw_member w) b" "bal_Amount b \<noteq> ?s b"
  proof -
    have "b \<in> set bs" using that(1,2) mset_eq_setD [OF r(3)] by simp
    then have "balance_finding j (b, ?s b) \<in> set (map item_finding new1)" unfolding r(4) using that(3) by auto
    then show ?thesis unfolding r(1) by (auto simp: item_finding_def balance_finding_def open_mismatch_def intro: bexI)
  qed
  show "\<exists>x\<in>set (recon_items v). ri_JobID x = rj_ID j \<and> ri_DiffType x = ''unbalanced_entries''"
    if "t \<in> set (asset_transactions (aw_member w))" "?t t \<noteq> 0"
  proof -
    have "t \<in> set ts" using that mset_eq_setD [OF r(5)] by simp
    then have "transaction_finding j (atx_ID t, ?t t) \<in> set (map item_finding new2)" unfolding r(6) by auto
    then show ?thesis unfolding r(1) by (auto simp: item_finding_def transaction_finding_def intro: bexI)
  qed
qed

end

definition names_balance :: "ReconciliationItem list \<Rightarrow> Balance \<Rightarrow> bool" where
  "names_balance xs b \<longleftrightarrow> list_ex (\<lambda>x. parseID (ri_ObjectID x) = Inr (bal_ID b)) xs"

text \<open>\<open>repaired xs w w'\<close>: the balances the items name have the sum of their entries, all others and the entries are as before, and
  the items are marked.\<close>

definition repaired :: "ReconciliationItem list \<Rightarrow> asset_world \<Rightarrow> asset_world \<Rightarrow> bool" where
  "repaired xs w w' \<longleftrightarrow>
     entries (aw_member w') = entries (aw_member w) \<and> asset_transactions (aw_member w') = asset_transactions (aw_member w) \<and>
     map bal_ID (balances (aw_member w')) = map bal_ID (balances (aw_member w)) \<and>
     (\<forall>x\<in>set xs. \<exists>i. parseID (ri_ObjectID x) = Inr i) \<and>
     (\<forall>b'\<in>set (balances (aw_member w')). \<exists>b\<in>set (balances (aw_member w)). bal_ID b' = bal_ID b \<and> bal_key b' = bal_key b \<and>
        bal_Amount b' = (if names_balance xs b then entry_sum (entries (aw_member w)) b else bal_Amount b)) \<and>
     (\<forall>i'\<in>set (recon_items w'). \<exists>i\<in>set (recon_items w). ri_ID i' = ri_ID i \<and> ri_JobID i' = ri_JobID i \<and>
        ri_DiffType i' = ri_DiffType i \<and> ri_Status i' = (if ri_ID i \<in> ri_ID ` set xs then ''repaired'' else ri_Status i))"

lemma entry_sum_key: "bal_key b = bal_key c \<Longrightarrow> entry_sum es b = entry_sum es c"
  by (simp add: entry_sum_def bal_key_def)

lemma repaired_nil: "repaired [] w w"
  by (auto simp: repaired_def names_balance_def)

lemma repaired_trans:
  assumes "repaired [x] w v" and "repaired xs v w'"
  shows "repaired (x # xs) w w'"
proof -
  have e: "entries (aw_member v) = entries (aw_member w)" using assms(1) by (simp add: repaired_def)
  have "\<exists>b\<in>set (balances (aw_member w)). bal_ID b' = bal_ID b \<and> bal_key b' = bal_key b \<and>
      bal_Amount b' = (if names_balance (x # xs) b then entry_sum (entries (aw_member w)) b else bal_Amount b)"
    if "b' \<in> set (balances (aw_member w'))" for b'
  proof -
    from assms(2) that obtain c where c: "c \<in> set (balances (aw_member v))" "bal_ID b' = bal_ID c" "bal_key b' = bal_key c"
      "bal_Amount b' = (if names_balance xs c then entry_sum (entries (aw_member w)) c else bal_Amount c)"
      unfolding repaired_def e by blast
    from assms(1) c(1) obtain b where b: "b \<in> set (balances (aw_member w))" "bal_ID c = bal_ID b" "bal_key c = bal_key b"
      "bal_Amount c = (if names_balance [x] b then entry_sum (entries (aw_member w)) b else bal_Amount b)"
      unfolding repaired_def by blast
    then show ?thesis using c entry_sum_key [of c b "entries (aw_member w)"]
      by (intro bexI [of _ b]) (auto simp: names_balance_def)
  qed
  moreover have "\<exists>i\<in>set (recon_items w). ri_ID i' = ri_ID i \<and> ri_JobID i' = ri_JobID i \<and> ri_DiffType i' = ri_DiffType i \<and>
      ri_Status i' = (if ri_ID i \<in> ri_ID ` set (x # xs) then ''repaired'' else ri_Status i)" if "i' \<in> set (recon_items w')" for i'
  proof -
    from assms(2) that obtain j where j: "j \<in> set (recon_items v)" "ri_ID i' = ri_ID j" "ri_JobID i' = ri_JobID j"
      "ri_DiffType i' = ri_DiffType j" "ri_Status i' = (if ri_ID j \<in> ri_ID ` set xs then ''repaired'' else ri_Status j)"
      unfolding repaired_def by blast
    from assms(1) j(1) obtain i where "i \<in> set (recon_items w)" "ri_ID j = ri_ID i" "ri_JobID j = ri_JobID i"
      "ri_DiffType j = ri_DiffType i" "ri_Status j = (if ri_ID i \<in> ri_ID ` set [x] then ''repaired'' else ri_Status i)"
      unfolding repaired_def by blast
    then show ?thesis using j by (intro bexI [of _ i]) auto
  qed
  ultimately show ?thesis using assms unfolding repaired_def by simp
qed

context recon_store
begin

lemma repair_item_done:
  assumes run: "repair_item A x w = (Inr u, w')" and dist: "distinct (map bal_ID (balances (aw_member w)))"
  shows "repaired [x] w w'"
proof -
  let ?S = "ae_member A" and ?m = "aw_member w"
  from run obtain i b es rows n rows' n' now where i: "parseID (ri_ObjectID x) = Inr i"
    and b: "sql_take (balanceE ?S) (\<lambda>b. bal_ID b = i) (balances ?m) = Inr b"
    and es: "sql_find (entryE ?S) (\<lambda>e. ent_AccountID e = bal_AccountID b \<and> ent_Bucket e = bal_Bucket b) (entries ?m) = Inr es"
    and upd: "sql_updates (balanceE ?S) (\<lambda>c. bal_ID c = bal_ID b)
      (\<lambda>c. c\<lparr>bal_Amount := sum_list (map ent_Delta es), bal_Version := bal_Version c + 1\<rparr>) (balances ?m) = Inr (rows, n)"
    and it: "sql_updates (itemE A) (\<lambda>y. ri_ID y = ri_ID x) (\<lambda>y. y\<lparr>ri_Status := ''repaired'', ri_UpdatedAt := now\<rparr>) (recon_items w) = Inr (rows', n')"
    and w': "w' = w\<lparr>aw_member := ?m\<lparr>balances := rows\<rparr>, recon_items := rows'\<rparr>"
    unfolding repair_item_def Let_def scan_int64_def
    by (elim go_resultE go_bindE) (auto simp: on_member_inv db_take_inv db_find_inv db_updates_inv asset_clock_inv balance_t_def entry_t_def
        item_t_def elim!: go_bindE split: if_splits)
  have b': "b \<in> set (balances ?m)" "bal_ID b = i" using bal.take_row [OF b] by auto
  have "sum_list (map ent_Delta es) = entry_sum (entries ?m) b"
    unfolding entry_sum_def by (rule sum_list_mset_eq [OF ent.find_rows [OF es]])
  then have rows: "rows = update_where (\<lambda>c. bal_ID c = bal_ID b)
      (\<lambda>c. c\<lparr>bal_Amount := entry_sum (entries ?m) b, bal_Version := bal_Version c + 1\<rparr>) (balances ?m)"
    using bal.updates_rows [OF upd] by simp
  have "\<exists>c\<in>set (balances ?m). bal_ID b1 = bal_ID c \<and> bal_key b1 = bal_key c \<and>
      bal_Amount b1 = (if names_balance [x] c then entry_sum (entries ?m) c else bal_Amount c)" if "b1 \<in> set rows" for b1
  proof -
    from that consider "b1 = b\<lparr>bal_Amount := entry_sum (entries ?m) b, bal_Version := bal_Version b + 1\<rparr>" | "b1 \<in> set (balances ?m)" "b1 \<noteq> b"
      using in_update_where_key [OF dist b'(1)] unfolding rows by blast
    then show ?thesis
    proof cases
      case 1
      then show ?thesis using b' i by (intro bexI [of _ b]) (simp_all add: bal_key_def names_balance_def)
    next
      case 2
      then have "bal_ID b1 \<noteq> i" using b' distinct_key_unique [OF dist 2(1) b'(1)] by auto
      then show ?thesis using 2 i by (intro bexI [of _ b1]) (auto simp: names_balance_def)
    qed
  qed
  moreover have "map bal_ID rows = map bal_ID (balances ?m)" unfolding rows by (rule map_update_where) simp
  moreover have "rows' = update_where (\<lambda>y. ri_ID y = ri_ID x) (\<lambda>y. y\<lparr>ri_Status := ''repaired'', ri_UpdatedAt := now\<rparr>) (recon_items w)"
    by (rule item.updates_rows [OF it])
  then have "\<exists>y\<in>set (recon_items w). ri_ID y' = ri_ID y \<and> ri_JobID y' = ri_JobID y \<and> ri_DiffType y' = ri_DiffType y \<and>
      ri_Status y' = (if ri_ID y \<in> ri_ID ` set [x] then ''repaired'' else ri_Status y)" if "y' \<in> set rows'" for y'
    using that by (auto simp: set_update_where)
  ultimately show ?thesis unfolding repaired_def w' using i by simp
qed

lemma repair_loop_done:
  assumes "go_for (\<lambda>x _. repair_item A x) xs () w = (Inr u, w')" and "distinct (map bal_ID (balances (aw_member w)))"
  shows "repaired xs w w'"
  using assms
proof (induction xs arbitrary: w)
  case (Cons x xs)
  from Cons.prems(1) obtain u v where step: "repair_item A x w = (Inr u, v)"
    and rest: "go_for (\<lambda>x _. repair_item A x) xs () v = (Inr u, w')" by (auto elim!: go_bindE)
  note r = repair_item_done [OF step Cons.prems(2)]
  then have "distinct (map bal_ID (balances (aw_member v)))" using Cons.prems(2) by (simp add: repaired_def)
  from Cons.IH [OF _ this] rest have "repaired xs v w'" by simp
  then show ?case by (rule repaired_trans [OF r])
qed (simp add: repaired_nil)

lemma repair_done:
  assumes run: "RepairReconciliation A claims raw w = (Inr d, w')" and dist: "distinct (map bal_ID (balances (aw_member w)))"
  obtains i xs where "parseID raw = Inr i" and "repaired xs w w'" and "set xs = {x \<in> set (recon_items w). open_mismatch i x}"
    and "\<forall>x\<in>set (recon_items w). ri_JobID x = i \<longrightarrow> ri_DiffType x \<noteq> ''unbalanced_entries''"
proof -
  from run obtain i critical xs where i: "parseID raw = Inr i"
    and critical: "sql_find (itemE A) (\<lambda>x. ri_JobID x = i \<and> ri_DiffType x = ''unbalanced_entries'') (recon_items w) = Inr critical" "critical = []"
    and xs: "sql_find (itemE A) (open_mismatch i) (recon_items w) = Inr xs"
    and loop: "\<exists>u. go_for (\<lambda>x _. repair_item A x) xs () w = (Inr u, w')"
    unfolding RepairReconciliation_def
    by (auto simp: db_find_inv item_t_def job_t_def gorm_transaction_success db_take_inv elim!: go_bindE split: sum.splits if_splits)
  show thesis
  proof (rule that [OF i])
    show "repaired xs w w'" using loop repair_loop_done [OF _ dist] by blast
    show "set xs = {x \<in> set (recon_items w). open_mismatch i x}" using mset_eq_setD [OF item.find_rows [OF xs]] by simp
    show "\<forall>x\<in>set (recon_items w). ri_JobID x = i \<longrightarrow> ri_DiffType x \<noteq> ''unbalanced_entries''"
      using item.find_empty [OF critical(1)] critical(2) by (auto simp: list_ex_iff)
  qed
qed

end

subsection \<open>Properties\<close>

text \<open>C35: A run that finishes has written exactly one item for each balance in its scope whose amount is not the sum of its entries and one
  for each transaction whose entries do not sum to zero, with both amounts; it counts them, leaves the ledger alone, and on sound books
  it finds nothing.\<close>

theorem reconcile_exact:
  assumes "recon_store A account_fits balance_fits hold_fits hold_lot_fits job_fits item_fits"
    and "reconcile A job w = ((scanned, diffs, critical, None), w')"
  shows "let m = aw_member w; bs = filter (in_scope A job m) (balances m) in
    \<exists>new. recon_items w' = recon_items w @ new \<and> core (aw_member w') = core m \<and>
      scanned = of_nat (length bs) \<and> diffs = of_nat (length new) \<and> critical = diffs \<and>
      mset (map item_finding new) =
        mset (map (\<lambda>b. balance_finding job (b, entry_sum (entries m) b)) (filter (\<lambda>b. bal_Amount b \<noteq> entry_sum (entries m) b) bs)) +
        mset (map (\<lambda>t. transaction_finding job (atx_ID t, transaction_sum (entries m) t))
          (filter (\<lambda>t. transaction_sum (entries m) t \<noteq> 0) (asset_transactions m))) \<and>
      (ledger_ok m \<longrightarrow> new = [])"
proof -
  let ?m = "aw_member w" and ?s = "entry_sum (entries (aw_member w))" and ?t = "transaction_sum (entries (aw_member w))"
  let ?bs = "filter (in_scope A job ?m) (balances ?m)"
  obtain bs ts new1 new2 where r: "recon_items w' = recon_items w @ new1 @ new2" "core (aw_member w') = core ?m"
    "scanned = of_nat (length bs)" "diffs = of_nat (length new1 + length new2)" "critical = diffs" "mset bs = mset ?bs"
    "\<forall>b\<in>set bs. i64 (?s b) = ?s b"
    "map item_finding new1 = map (\<lambda>b. balance_finding job (b, ?s b)) (filter (\<lambda>b. bal_Amount b \<noteq> ?s b) bs)"
    "mset ts = mset (filter (\<lambda>t. ?t t \<noteq> 0) (asset_transactions ?m))"
    "map item_finding new2 = map (\<lambda>t. transaction_finding job (atx_ID t, ?t t)) ts"
    by (rule recon_store.reconcile_done [OF assms])
  have len: "length bs = length ?bs" using r(6) by (rule mset_eq_length)
  have f1: "mset (filter (\<lambda>b. bal_Amount b \<noteq> ?s b) bs) = mset (filter (\<lambda>b. bal_Amount b \<noteq> ?s b) ?bs)"
    by (simp only: mset_filter r(6))
  have items: "mset (map item_finding (new1 @ new2)) = mset (map (\<lambda>b. balance_finding job (b, ?s b)) (filter (\<lambda>b. bal_Amount b \<noteq> ?s b) ?bs)) +
      mset (map (\<lambda>t. transaction_finding job (atx_ID t, ?t t)) (filter (\<lambda>t. ?t t \<noteq> 0) (asset_transactions ?m)))"
    by (simp only: map_append mset_append r(8,10) mset_map f1 r(9))
  have sound: "new1 @ new2 = []" if ok: "ledger_ok ?m"
  proof -
    have sub: "set bs \<subseteq> set (balances ?m)" using mset_eq_setD [OF r(6)] by auto
    have "?s b = delta_of (entries ?m) (bal_key b)" for b
      by (simp add: entry_sum_def delta_of_def bal_key_def ent_key_def)
    then have "filter (\<lambda>b. bal_Amount b \<noteq> ?s b) bs = []" using ok r(7) sub by (auto simp: ledger_ok_def filter_empty_conv)
    moreover have "?t t = tx_total (entries ?m) (atx_ID t)" for t by (simp add: transaction_sum_def tx_total_def)
    then have "filter (\<lambda>t. ?t t \<noteq> 0) (asset_transactions ?m) = []" using ok by (auto simp: ledger_ok_def filter_empty_conv)
    ultimately show ?thesis using r(8-10) by auto
  qed
  have "scanned = of_nat (length ?bs)" "diffs = of_nat (length (new1 @ new2))" using r(3,4) len by simp_all
  then show ?thesis
    unfolding Let_def using r(1,2,5) items sound by blast
qed

text \<open>C36: Repairing what a full run found makes the books agree: afterwards every balance is the sum of its entries and the entries of every
  transaction sum to zero; entries and transactions were not changed and no mismatch of the run is left open.\<close>

theorem reconcile_then_repair:
  assumes "recon_store A account_fits balance_fits hold_fits hold_lot_fits job_fits item_fits"
    and "distinct (map bal_ID (balances (aw_member w)))" and "rj_Scope job \<notin> {''account'', ''customer''}"
    and "reconcile A job w = ((scanned, diffs, critical, None), v)"
    and "RepairReconciliation A claims (idString (rj_ID job)) v = (Inr d, w')"
  shows "(\<forall>b\<in>set (balances (aw_member w')). bal_Amount b = entry_sum (entries (aw_member w')) b) \<and>
    (\<forall>t\<in>set (asset_transactions (aw_member w')). transaction_sum (entries (aw_member w')) t = 0) \<and>
    entries (aw_member w') = entries (aw_member w) \<and> asset_transactions (aw_member w') = asset_transactions (aw_member w) \<and>
    (\<forall>x\<in>set (recon_items w'). \<not> open_mismatch (rj_ID job) x)"
proof -
  let ?m = "aw_member w" and ?s = "entry_sum (entries (aw_member w))" and ?t = "transaction_sum (entries (aw_member w))"
  note marks = recon_store.reconcile_marks [OF assms(1,4)]
  have core: "balances (aw_member v) = balances ?m" "entries (aw_member v) = entries ?m" "asset_transactions (aw_member v) = asset_transactions ?m"
    using marks(1) by (simp_all add: core_iff)
  then have "distinct (map bal_ID (balances (aw_member v)))" using assms(2) by simp
  then obtain i xs where i: "parseID (idString (rj_ID job)) = Inr i" and rep: "repaired xs v w'"
    and xs: "set xs = {x \<in> set (recon_items v). open_mismatch i x}"
    and bal: "\<forall>x\<in>set (recon_items v). ri_JobID x = i \<longrightarrow> ri_DiffType x \<noteq> ''unbalanced_entries''"
    by (rule recon_store.repair_done [OF assms(1,5)])
  have job: "i = rj_ID job" using parseID_id [OF i] .
  have named: "names_balance xs b" if b: "b \<in> set (balances ?m)" "bal_Amount b \<noteq> ?s b" for b
  proof -
    have "in_scope A job ?m b" using assms(3) by (auto simp: in_scope_def)
    from marks(2) [OF b(1) this b(2)] obtain x where x: "x \<in> set xs" "ri_ObjectID x = idString (bal_ID b)" using xs job by auto
    then have "parseID (ri_ObjectID x) = Inr (bal_ID b)" using rep parseID_id unfolding repaired_def by metis
    then show ?thesis using x(1) by (auto simp: names_balance_def list_ex_iff)
  qed
  have "bal_Amount b' = ?s b'" if "b' \<in> set (balances (aw_member w'))" for b'
  proof -
    from rep that obtain b where "b \<in> set (balances ?m)" "bal_key b' = bal_key b"
      "bal_Amount b' = (if names_balance xs b then ?s b else bal_Amount b)"
      unfolding repaired_def core by blast
    then show ?thesis using named [of b] entry_sum_key [of b' b] by auto
  qed
  moreover have "\<not> open_mismatch (rj_ID job) x" if "x \<in> set (recon_items w')" for x
  proof
    assume "open_mismatch (rj_ID job) x"
    moreover from rep that obtain y where "y \<in> set (recon_items v)" "ri_JobID x = ri_JobID y" "ri_DiffType x = ri_DiffType y"
      "ri_Status x = (if ri_ID y \<in> ri_ID ` set xs then ''repaired'' else ri_Status y)" unfolding repaired_def by blast
    ultimately show False using xs by (auto simp: open_mismatch_def job split: if_splits)
  qed
  moreover have "?t t = 0" if "t \<in> set (asset_transactions ?m)" for t
    using marks(3) [OF that] bal job by blast
  ultimately show ?thesis using rep by (simp add: repaired_def core)
qed

text \<open>A world in which the balance of customer 7 says 600 although its entries sum to 500, a job and an administrator.\<close>

interpretation mem_recon: recon_store mem_asset "\<lambda>_. True" "\<lambda>_. True" "\<lambda>_. True" "\<lambda>_. True" "\<lambda>_. True" "\<lambda>_. True"
  using demo_store by (simp add: recon_store_def mem_asset_def mem_table.gorm_table_axioms)

definition demo_job :: ReconciliationJob where
  "demo_job = \<lparr>rj_ID = 50, rj_RequestedBy = 1, rj_JobNo = ''AR51'', rj_Scope = ''all'', rj_Mode = ''dry_run'', rj_Status = ''running'',
     rj_RequestID = [], rj_IdempotencyKeyHash = ''key-0009'', rj_ScopeID = Some [], rj_ScannedCount = 0, rj_DifferenceCount = 0,
     rj_CriticalCount = 0, rj_StartedAt = None, rj_FinishedAt = None, rj_CreatedAt = 0, rj_UpdatedAt = 0\<rparr>"

definition demo_wrong :: asset_world where
  "demo_wrong = demo_asset\<lparr>recon_jobs := [demo_job], aw_member := demo_ledger\<lparr>balances :=
     \<lparr>bal_ID = 3, bal_AccountID = 1, bal_Bucket = ''available'', bal_Amount = 600, bal_Version = 2\<rparr> # tl (balances demo_ledger)\<rparr>\<rparr>"

definition demo_admin :: Claims where
  "demo_admin = \<lparr>cl_AccountType = ''admin'', cl_CustomerID = [], cl_AdminUserID = ''1'', cl_Permissions =
     [''asset_reconcile:run'', ''asset_reconcile:view'', ''asset_reconcile:repair'', ''asset_adjustment:create'']\<rparr>"

lemmas recon_eval = mem_asset_def demo_wrong_def demo_asset_def demo_job_def demo_admin_def reconcile_def balance_rows_def scope_balances_def
  unbalanced_rows_def entry_sum_def transaction_sum_def scan_int64_def create_item_def on_member_def asset_clock_def item_t_def job_t_def
  item_clash_def RepairReconciliation_def repair_item_def open_mismatch_def adminIDWithPermission_def parseID_def ParseUint_def
  is_digit_def digits_value_def

lemma demo_reconcile: "\<exists>v. reconcile mem_asset demo_job demo_wrong = ((4, 1, 1, None), v) \<and>
    (\<exists>d w'. RepairReconciliation mem_asset (Some demo_admin) (idString 50) v = (Inr d, w') \<and>
       (\<exists>b\<in>set (balances (aw_member w')). bal_ID b = 3 \<and> bal_Amount b = 500))"
  by (simp add: recon_eval member_eval demo_defs cong: run_congs)

theorem reconcile_exact_witness:
  "\<exists>v x. reconcile mem_asset demo_job demo_wrong = ((4, 1, 1, None), v) \<and> recon_items v = [x] \<and>
     item_finding x = (50, ''balance'', idString 3, ''projection_mismatch'', ''open'', Some 500, Some 600)"
proof -
  from demo_reconcile obtain v where run: "reconcile mem_asset demo_job demo_wrong = ((4, 1, 1, None), v)" by blast
  from reconcile_exact [OF mem_recon.recon_store_axioms run] obtain new where new: "recon_items v = recon_items demo_wrong @ new"
    "mset (map item_finding new) = {#(50, ''balance'', idString 3, ''projection_mismatch'', ''open'', Some 500, Some 600)#}"
    by (auto simp: Let_def recon_eval demo_defs in_scope_def balance_finding_def)
  then have "map item_finding new = [(50, ''balance'', idString 3, ''projection_mismatch'', ''open'', Some 500, Some 600)]"
    by (simp only: mset_single_iff)
  then obtain x where "new = [x]" "item_finding x = (50, ''balance'', idString 3, ''projection_mismatch'', ''open'', Some 500, Some 600)"
    by auto
  then show ?thesis using run new(1) by (simp add: demo_wrong_def demo_asset_def)
qed

theorem reconcile_then_repair_witness:
  "\<exists>v d w'. reconcile mem_asset demo_job demo_wrong = ((4, 1, 1, None), v) \<and>
     RepairReconciliation mem_asset (Some demo_admin) (idString 50) v = (Inr d, w') \<and>
     (\<exists>b\<in>set (balances (aw_member w')). bal_ID b = 3 \<and> bal_Amount b = 500 \<and> bal_Amount b = entry_sum (entries (aw_member w')) b)"
proof -
  from demo_reconcile obtain v d w' b where run: "reconcile mem_asset demo_job demo_wrong = ((4, 1, 1, None), v)"
    and rep: "RepairReconciliation mem_asset (Some demo_admin) (idString 50) v = (Inr d, w')"
    and b: "b \<in> set (balances (aw_member w'))" "bal_ID b = 3" "bal_Amount b = 500" by blast
  have "distinct (map bal_ID (balances (aw_member demo_wrong)))" by (simp add: demo_wrong_def demo_ledger_def)
  moreover have "rj_Scope demo_job \<notin> {''account'', ''customer''}" by (simp add: demo_job_def)
  moreover have "RepairReconciliation mem_asset (Some demo_admin) (idString (rj_ID demo_job)) v = (Inr d, w')"
    using rep by (simp add: demo_job_def)
  ultimately show ?thesis using reconcile_then_repair [OF mem_recon.recon_store_axioms _ _ run] run rep b by blast
qed

end
