(* ===== verification/Member_Paging.thy ===== *)
theory Member_Paging
  imports Member_Reconciliation
begin

text \<open>
  Reading a list page by page, as a client of the HTTP interface does: it sends the parameters of its first request again
  with the token of the page before, until there is no token. \<open>walk_jobs\<close> is that client; every page goes through
  \<open>FromGin\<close> of \<open>internal/pkg/pagination\<close> and \<open>ListReconciliations\<close> of \<open>internal/modules/asset/query_admin.go\<close>.
  The client may run for ever as far as its definition goes; that it ends is what is proved.
\<close>

definition with_token :: "page_request \<Rightarrow> string \<Rightarrow> page_request" where
  "with_token c token = c\<lparr>rq_Query := (''page_token'', [token]) # filter (\<lambda>(k, _). k \<noteq> ''page_token'') (rq_Query c)\<rparr>"

text \<open>What a page token carries, and that JSON gives it back.\<close>

definition page_cursor :: "string \<Rightarrow> int \<Rightarrow> int \<Rightarrow> pageCursor" where
  "page_cursor hash now offset = \<lparr>pc_Version = 1, pc_Offset = offset, pc_QueryHash = hash, pc_After = [], pc_IssuedAt = now\<rparr>"

definition cursors_kept :: "pager \<Rightarrow> string \<Rightarrow> int \<Rightarrow> bool" where
  "cursors_kept P hash now \<longleftrightarrow> (\<forall>k. 0 \<le> k \<and> k < 2 ^ 63 \<longrightarrow>
     pg_unmarshal P (pg_marshal P (page_cursor hash now k)) = Some (page_cursor hash now k))"

definition list_page ::
    "asset_env \<Rightarrow> Claims option \<Rightarrow> page_request \<Rightarrow> (asset_world, go_error, ReconciliationDTO list \<times> string) go" where
  "list_page A claims c =
     go_bind asset_clock (\<lambda>now.
     case FromGin (ae_pager A) (unix_second now) c [] of Inl e \<Rightarrow> go_err e | Inr q \<Rightarrow> ListReconciliations A claims q)"

partial_function (option) walk_jobs ::
    "asset_env \<Rightarrow> Claims option \<Rightarrow> page_request \<Rightarrow> asset_world \<Rightarrow> ReconciliationDTO list option" where
  "walk_jobs A claims c w =
     (case list_page A claims c w of
        (Inl e, w') \<Rightarrow> None
      | (Inr (page, token), w') \<Rightarrow>
          if token = [] then Some page
          else Option.bind (walk_jobs A claims (with_token c token) w') (\<lambda>rest. Some (page @ rest)))"

lemma map_of_filter_other: "k \<noteq> a \<Longrightarrow> map_of (filter (\<lambda>(k, _). k \<noteq> a) xs) k = map_of xs k"
  by (induction xs) auto

lemma with_token_query [simp]:
  "name \<noteq> ''page_token'' \<Longrightarrow> request_Query (with_token c t) name = request_Query c name"
  "request_Query (with_token c t) ''page_token'' = t"
  "queryFingerprint P (with_token c t) scope = queryFingerprint P c scope"
  by (simp_all add: request_Query_def with_token_def map_of_filter_other queryFingerprint_def)

lemma FromGin_facts:
  assumes "FromGin P now c scope = Inr q"
  shows "0 < pq_PageSize q" and "pq_PageSize q \<le> 100" and "pq_TokenHash q = queryFingerprint P c scope"
    and "decodePageToken P now (request_Query c ''page_token'') (pq_TokenHash q) = Inr cur \<Longrightarrow> pq_Offset q = pc_Offset cur"
  using assms
  by (auto simp: FromGin_def Let_def page_size_of_def DefaultPageSize_def MaxPageSize_def split: sum.splits option.splits if_splits)

text \<open>The next request of a client is accepted and starts where the page ended.\<close>

lemma FromGin_next:
  assumes q: "FromGin P now c scope = Inr q" and codec: "cursors_kept P (pq_TokenHash q) now"
    and "0 \<le> pq_Offset q" and "pq_Offset q + pq_PageSize q < 2 ^ 63"
  obtains q' where "FromGin P now (with_token c (NextPageToken P now q)) scope = Inr q'"
    and "pq_TokenHash q' = pq_TokenHash q" and "pq_Offset q' = pq_Offset q + pq_PageSize q"
proof -
  note f = FromGin_facts [OF q]
  have "i64 (pq_Offset q + pq_PageSize q) = pq_Offset q + pq_PageSize q" using assms(3,4) f(1) by simp
  moreover have "decodePageToken P now (NextPageToken P now q) (queryFingerprint P c scope) =
      Inr \<lparr>pc_Version = 1, pc_Offset = i64 (pq_Offset q + pq_PageSize q), pc_QueryHash = pq_TokenHash q, pc_After = [], pc_IssuedAt = now\<rparr>"
    using token_decoded [of P q "[]" now now "queryFingerprint P c scope"] codec assms(3,4) f
    by (simp add: NextPageToken_def NextPageTokenWithCursor_def cursors_kept_def page_cursor_def)
  ultimately show thesis
    using q that by (auto simp: FromGin_def Let_def split: sum.splits option.splits)
qed

lemma token_not_empty: "NextPageToken P now q \<noteq> []"
  by (simp add: NextPageToken_def nextPageToken_def Let_def)

lemma list_page_rows:
  assumes "FromGin (ae_pager A) (unix_second (mw_wall (aw_member w))) c [] = Inr q"
    and "sql_ordered (jobE A) (\<lambda>_. True) job_order (recon_jobs w) = Inr found"
    and "adminIDWithPermission claims ''asset_reconcile:view'' = Inr i" and "0 \<le> pq_Offset q"
  shows "list_page A claims c w =
    (let rest = drop (nat (pq_Offset q)) found; n = nat (pq_PageSize q) in
     (Inr (map reconciliationDTO (take n rest),
        if n < length rest then NextPageToken (ae_pager A) (unix_second (mw_wall (aw_member w))) q else []), w))"
proof -
  have n: "0 < pq_PageSize q" "pq_PageSize q \<le> 100" using FromGin_facts [OF assms(1)] by auto
  have offset: "gorm_offset (pq_Offset q) found = drop (nat (pq_Offset q)) found" using assms(4) by (simp add: gorm_offset_def)
  have small: "i64 (pq_PageSize q + 1) = pq_PageSize q + 1" using n by simp
  have limit: "gorm_limit (pq_PageSize q + 1) xs = take (Suc (nat (pq_PageSize q))) xs" for xs :: "ReconciliationJob list"
    using n by (simp add: gorm_limit_def nat_add_distrib)
  have size: "pq_PageSize q < int k \<longleftrightarrow> nat (pq_PageSize q) < k" for k using n by auto
  have more: "m < length (take (Suc m) xs) \<longleftrightarrow> m < length xs" for m and xs :: "ReconciliationJob list" by auto
  show ?thesis
    unfolding list_page_def ListReconciliations_def asset_clock_def on_member_def now_utc_def go_eval db_ordered_def job_t_def Let_def
    by (cases "nat (pq_PageSize q) < length (drop (nat (pq_Offset q)) found)")
      (simp_all add: assms offset small limit size more del: length_take length_drop)
qed

lemma walk_from:
  assumes found: "sql_ordered (jobE A) (\<lambda>_. True) job_order (recon_jobs w) = Inr found"
    and view: "adminIDWithPermission claims ''asset_reconcile:view'' = Inr i"
    and codec: "cursors_kept (ae_pager A) hash (unix_second (mw_wall (aw_member w)))"
    and small: "int (length found) + 100 < 2 ^ 63"
    and q: "FromGin (ae_pager A) (unix_second (mw_wall (aw_member w))) c [] = Inr q" "0 \<le> pq_Offset q" "pq_Offset q \<le> int (length found)"
      "pq_TokenHash q = hash"
  shows "walk_jobs A claims c w = Some (map reconciliationDTO (drop (nat (pq_Offset q)) found))"
  using q
proof (induction "length found - nat (pq_Offset q)" arbitrary: c q rule: less_induct)
  case less
  let ?P = "ae_pager A" and ?now = "unix_second (mw_wall (aw_member w))" and ?rest = "drop (nat (pq_Offset q)) found" and ?n = "nat (pq_PageSize q)"
  have n: "0 < pq_PageSize q" "pq_PageSize q \<le> 100" using FromGin_facts [OF less.prems(1)] by auto
  note page = list_page_rows [OF less.prems(1) found view less.prems(2)]
  show ?case
  proof (cases "?n < length ?rest")
    case False
    then show ?thesis by (subst walk_jobs.simps) (simp add: page Let_def)
  next
    case True
    have "pq_Offset q + pq_PageSize q < 2 ^ 63" using n less.prems(3) small by linarith
    from FromGin_next [OF less.prems(1) _ less.prems(2) this] codec less.prems(4) obtain q' where
      q': "FromGin ?P ?now (with_token c (NextPageToken ?P ?now q)) [] = Inr q'" "pq_Offset q' = pq_Offset q + pq_PageSize q"
      "pq_TokenHash q' = hash" by metis
    have at: "nat (pq_Offset q') = nat (pq_Offset q) + ?n" using q'(2) n less.prems(2) by (simp add: nat_add_distrib)
    have "walk_jobs A claims (with_token c (NextPageToken ?P ?now q)) w = Some (map reconciliationDTO (drop (nat (pq_Offset q')) found))"
    proof (rule less.hyps [OF _ q'(1)])
      have "0 < ?n" using n by simp
      then show "length found - nat (pq_Offset q') < length found - nat (pq_Offset q)" using True unfolding at length_drop by linarith
      show "0 \<le> pq_Offset q'" "pq_Offset q' \<le> int (length found)" using True n q'(2) less.prems(2) by auto
      show "pq_TokenHash q' = hash" by (rule q'(3))
    qed
    moreover have "?rest = take ?n ?rest @ drop (nat (pq_Offset q')) found" unfolding at
      by (metis append_take_drop_id drop_drop add.commute)
    ultimately show ?thesis using True
      by (subst walk_jobs.simps) (simp add: page Let_def token_not_empty flip: map_append)
  qed
qed

text \<open>C37: A client that follows the page tokens of the reconciliation list comes to an end and has then seen every job exactly once, newest
  first, whatever page size it asked for.\<close>

theorem walk_jobs_terminates:
  assumes "gorm_table_live (jobE A) job_clash job_fits" and "adminIDWithPermission claims ''asset_reconcile:view'' = Inr i"
    and "cursors_kept (ae_pager A) (queryFingerprint (ae_pager A) c []) (unix_second (mw_wall (aw_member w)))"
    and "FromGin (ae_pager A) (unix_second (mw_wall (aw_member w))) c [] = Inr q" and "request_Query c ''page_token'' = []"
    and "int (length (recon_jobs w)) + 100 < 2 ^ 63"
  shows "\<exists>jobs. walk_jobs A claims c w = Some (map reconciliationDTO jobs) \<and> mset jobs = mset (recon_jobs w) \<and> sorted (map job_order jobs)"
proof -
  from gorm_table_live.ordered_live [OF assms(1)] obtain found where
    found: "sql_ordered (jobE A) (\<lambda>_. True) job_order (recon_jobs w) = Inr found" by blast
  from gorm_table.ordered_rows [OF gorm_table_live.axioms(1) [OF assms(1)] found]
  have rows: "mset found = mset (recon_jobs w)" "sorted (map job_order found)" by simp_all
  have "length found = length (recon_jobs w)" by (rule mset_eq_length [OF rows(1)])
  moreover have "pq_Offset q = 0"
    using FromGin_facts(4) [OF assms(4)] assms(5) by (simp add: decodePageToken_def)
  ultimately show ?thesis
    using walk_from [OF found assms(2,3) _ assms(4)] FromGin_facts(3) [OF assms(4)] assms(6) rows by auto
qed

text \<open>Two jobs read one at a time.\<close>

definition demo_request :: page_request where
  "demo_request = \<lparr>rq_Method = ''GET'', rq_FullPath = ''/jobs'', rq_Path = ''/jobs'', rq_Query = [(''page_size'', [''1''])]\<rparr>"

definition walk_pager :: pager where
  "walk_pager = demo_pager\<lparr>pg_marshal := (\<lambda>c. format_uint (nat (pc_Offset c))),
     pg_unmarshal := (\<lambda>s. map_option (\<lambda>i. page_cursor (queryFingerprint demo_pager demo_request []) (unix_second demo_wall) (uint i)) (ParseUint s))\<rparr>"

lemma walk_pager_cursors: "cursors_kept walk_pager (queryFingerprint walk_pager demo_request []) (unix_second demo_wall)"
proof -
  have "queryFingerprint walk_pager demo_request [] = queryFingerprint demo_pager demo_request []"
    by (simp add: queryFingerprint_def walk_pager_def demo_pager_def)
  moreover have "uint (of_nat (nat k) :: uint64) = k" if "0 \<le> k" "k < 2 ^ 63" for k :: int
    using that by (simp add: uint_word_of_int_eq take_bit_int_eq_self)
  ultimately show ?thesis
    by (simp add: cursors_kept_def walk_pager_def page_cursor_def ParseUint_format nat_less_iff)
qed

theorem walk_jobs_terminates_witness:
  "\<exists>jobs. walk_jobs (mem_asset\<lparr>ae_pager := walk_pager\<rparr>) (Some demo_admin) demo_request
     (demo_asset\<lparr>recon_jobs := [demo_job, demo_job\<lparr>rj_ID := 51\<rparr>]\<rparr>) = Some (map reconciliationDTO jobs) \<and> length jobs = 2"
proof -
  let ?A = "mem_asset\<lparr>ae_pager := walk_pager\<rparr>" and ?w = "demo_asset\<lparr>recon_jobs := [demo_job, demo_job\<lparr>rj_ID := 51\<rparr>]\<rparr>"
  have live: "gorm_table_live (jobE ?A) job_clash (\<lambda>_. True)" by (simp add: mem_asset_def mem_engine_laws)
  have admin: "adminIDWithPermission (Some demo_admin) ''asset_reconcile:view'' = Inr 1"
    by (simp add: adminIDWithPermission_def demo_admin_def parseID_def ParseUint_def is_digit_def digits_value_def)
  have wall: "mw_wall (aw_member demo_asset) = demo_wall" by (simp add: demo_asset_def demo_ledger_def member_demo_def)
  have "\<exists>q. FromGin walk_pager (unix_second demo_wall) demo_request [] = Inr q"
    by (simp add: FromGin_def page_size_of_def request_Query_def demo_request_def ParseInt_def is_digit_def digits_value_def MaxPageSize_def
        validateOrderBy_def validateFilter_def blank_def decodePageToken_def Let_def)
  then obtain q where q: "FromGin walk_pager (unix_second demo_wall) demo_request [] = Inr q" ..
  have token: "request_Query demo_request ''page_token'' = []" by (simp add: request_Query_def demo_request_def)
  have "\<exists>jobs. walk_jobs ?A (Some demo_admin) demo_request ?w = Some (map reconciliationDTO jobs) \<and>
      mset jobs = mset (recon_jobs ?w) \<and> sorted (map job_order jobs)"
    by (rule walk_jobs_terminates [OF live admin _ _ token, where q = q]) (use q walk_pager_cursors in \<open>simp_all add: wall\<close>)
  then obtain jobs where jobs: "walk_jobs ?A (Some demo_admin) demo_request ?w = Some (map reconciliationDTO jobs)"
    "mset jobs = mset (recon_jobs ?w)" by blast
  have "length jobs = 2" using mset_eq_length [OF jobs(2)] by simp
  then show ?thesis using jobs(1) by blast
qed

end
