(* ===== verification/Member_Adjustments.thy ===== *)
theory Member_Adjustments
  imports Member_Reconciliation
begin

text \<open>
  Manual adjustments: \<open>CreateAdjustment\<close> of \<open>internal/modules/asset/query_admin.go\<close> with its helpers. One transaction checks the
  administrator again, claims the idempotency key, records the adjustment, posts it to the ledger and stores the response, so
  that repeating the request returns what the first one did.

  \<open>postTransferWithDB\<close> runs inside that transaction: its own transaction is then a savepoint, which cannot fail to commit
  (\<open>inside\<close>). The transaction works on the variables \<open>out\<close> and \<open>executionErr\<close> of the surrounding function; the model returns them
  as a pair. A JSON object written from a map is a list of fields; assigning a key replaces it.
\<close>

subsection \<open>Helpers\<close>

definition adjustmentDTO :: "Adjustment \<Rightarrow> AdjustmentDTO" where
  "adjustmentDTO row =
     \<lparr>ad_ID = idString (adj_ID row), ad_AdjustmentNo = adj_AdjustmentNo row, ad_CustomerID = idString (adj_CustomerID row),
      ad_AssetType = adj_AssetType row, ad_Unit = adj_Unit row, ad_Direction = adj_Direction row,
      ad_ReasonCode = adj_ReasonCode row, ad_Reason = adj_Reason row, ad_Status = adj_Status row, ad_Amount = adj_Amount row,
      ad_CreatedBy = idString (adj_CreatedBy row),
      ad_ReviewedBy = (case adj_ReviewedBy row of None \<Rightarrow> [] | Some i \<Rightarrow> idString i),
      ad_AssetTransactionID = (case adj_AssetTransactionID row of None \<Rightarrow> [] | Some i \<Rightarrow> idString i),
      ad_FailureCode = (case adj_FailureCode row of None \<Rightarrow> [] | Some c \<Rightarrow> c), ad_Version = adj_Version row,
      ad_CreatedAt = adj_CreatedAt row, ad_UpdatedAt = adj_UpdatedAt row\<rparr>"

definition isTerminalAdjustmentFailure :: "string \<Rightarrow> bool" where
  "isTerminalAdjustmentFailure code \<longleftrightarrow> code \<in> {''ASSET_INSUFFICIENT_AVAILABLE'', ''ASSET_AMOUNT_INVALID'',
     ''ASSET_TYPE_INVALID'', ''ASSET_SOURCE_NOT_ALLOWED'', ''MEMBER_NOT_FOUND''}"

definition adjustmentExecutionError :: "string \<Rightarrow> go_error" where
  "adjustmentExecutionError code =
     (if code = ''ASSET_INSUFFICIENT_AVAILABLE'' then problem_Conflict code ''available asset balance is insufficient''
      else if code = ''ASSET_WRITE_DISABLED'' then Problem (problem_New 503 code ''Service Unavailable'' ''asset writes are disabled'')
      else if code = ''ASSET_AMOUNT_INVALID'' then Problem (problem_New 422 code ''Unprocessable Entity'' ''asset amount is invalid'')
      else if code = ''ASSET_TYPE_INVALID'' then Problem (problem_New 422 code ''Unprocessable Entity'' ''asset type is invalid'')
      else if code = ''ASSET_SOURCE_NOT_ALLOWED'' then problem_Forbidden code ''asset source is not allowed''
      else if code = ''MEMBER_NOT_FOUND'' then problem_NotFound code ''member not found''
      else if code = [] then problem_Internal ''asset adjustment execution failed''
      else Problem (problem_New 500 code ''Internal Error'' ''asset adjustment execution failed''))"

text \<open>The joined rows of an administrator with a permission, as the statement selects them.\<close>

definition admin_granted :: "asset_world \<Rightarrow> uint64 \<Rightarrow> string \<Rightarrow> admin_user \<Rightarrow> bool" where
  "admin_granted w adminID code au \<longleftrightarrow> au_ID au = adminID \<and> au_Status au = ''active'' \<and> \<not> au_Deleted au \<and>
     list_ex (\<lambda>a. la_ID a = au_AccountID au \<and> la_AccountType a = ''admin'' \<and> la_Status a = ''active'' \<and> \<not> la_Deleted a) (login_accounts w) \<and>
     list_ex (\<lambda>r. ar_ID r = au_RoleID au \<and> ar_Status r = ''active'' \<and> \<not> ar_Deleted r \<and>
       list_ex (\<lambda>rp. rp_RoleID rp = ar_ID r \<and> \<not> rp_Deleted rp \<and>
         list_ex (\<lambda>p. pm_ID p = rp_PermissionID rp \<and> pm_Code p = code \<and> pm_Status p = ''active'' \<and> \<not> pm_Deleted p) (permissions w))
         (role_permissions w)) (admin_roles w)"

definition activeAdminHasPermission :: "asset_env \<Rightarrow> uint64 \<Rightarrow> string \<Rightarrow> (asset_world, go_error, bool) go" where
  "activeAdminHasPermission A adminID code w =
     (case sql_take (adminUserE A) (admin_granted w adminID code) (admin_users w) of
        Inl e \<Rightarrow> if e = ErrRecordNotFound then (Inr False, w) else (Inl e, w)
      | Inr _ \<Rightarrow> (Inr True, w))"

subsection \<open>Audit\<close>

fun put_field :: "string \<Rightarrow> json \<Rightarrow> (string \<times> json) list \<Rightarrow> (string \<times> json) list" where
  "put_field k v [] = [(k, v)]"
| "put_field k v ((k', v') # fs) = (if k' = k then (k, v) # fs else (k', v') # put_field k v fs)"

definition put_fields :: "(string \<times> json) list \<Rightarrow> (string \<times> json) list \<Rightarrow> (string \<times> json) list" where
  "put_fields new fs = fold (\<lambda>(k, v). put_field k v) new fs"

definition json_strings :: "json \<Rightarrow> string list" where
  "json_strings j = (case j of JArray xs \<Rightarrow> (if list_all (\<lambda>x. case x of JString _ \<Rightarrow> True | _ \<Rightarrow> False) xs
     then map (\<lambda>x. case x of JString s \<Rightarrow> s | _ \<Rightarrow> []) xs else []) | _ \<Rightarrow> [])"

text \<open>A pointer to an empty string of the context is nil, and the request identifier of a context without one is empty.\<close>

definition adjustment_after :: "asset_env \<Rightarrow> Adjustment \<Rightarrow> (string \<times> json) list \<Rightarrow> (string \<times> json) list" where
  "adjustment_after A row after =
     (let S = ae_member A; requestID = JString (valueOrEmpty (ctx_RequestID S)); refs = json_strings (adj_EvidenceRefs row);
          fs = put_fields
            [(''permission'', JString ''asset_adjustment:create''), (''request_id'', requestID), (''correlation_id'', requestID),
             (''service_instance'', JString (defaultString (TrimSpace (ae_InstanceID A)) ''unknown'')),
             (''idempotency_key_hash'', JString (adj_IdempotencyKeyHash row)), (''reason_code'', JString (adj_ReasonCode row)),
             (''status'', JString (adj_Status row)), (''version'', JInt (uint (adj_Version row))),
             (''evidence_count'', JInt (int (length refs)))] after
      in if refs \<noteq> [] then put_field ''evidence_refs_hash'' (JString (RequestHash (ae_sha A) (ae_marshal_refs A) refs)) fs else fs)"

definition before_status :: "(string \<times> json) list option \<Rightarrow> string option" where
  "before_status before = (case before of
       None \<Rightarrow> None
     | Some fs \<Rightarrow> (case map_of fs ''status'' of Some (JString s) \<Rightarrow> if s \<noteq> [] then Some s else None | _ \<Rightarrow> None))"

definition adjustmentAudit ::
    "asset_env \<Rightarrow> uint64 \<Rightarrow> string \<Rightarrow> Adjustment \<Rightarrow> (string \<times> json) list option \<Rightarrow> (string \<times> json) list \<Rightarrow> string \<Rightarrow> string option \<Rightarrow>
     (asset_world, go_error, AuditLog) go" where
  "adjustmentAudit A actorID action row before after result errorCode =
     (let S = ae_member A in
      go_bind (on_member next_id) (\<lambda>i. go_ok
       \<lparr>aud_ID = i, aud_ActorType = ''admin'', aud_ActorID = actorID, aud_Action = action, aud_ResourceType = ''asset_adjustment'',
        aud_ResourceID = adj_ID row, aud_BeforeData = (case before of None \<Rightarrow> JNull | Some fs \<Rightarrow> JObject fs),
        aud_AfterData = JObject (adjustment_after A row after), aud_Result = result, aud_Version = Some (ucast (adj_Version row)),
        aud_ErrorCode = errorCode, aud_ReasonCode = Some (adj_ReasonCode row), aud_BeforeStatus = before_status before,
        aud_AfterStatus = Some (adj_Status row), aud_RequestID = ctx_RequestID S, aud_IPHash = ctx_IPHash S,
        aud_UserAgent = ctx_UserAgent S\<rparr>))"

definition record_audit ::
    "asset_env \<Rightarrow> uint64 \<Rightarrow> string \<Rightarrow> Adjustment \<Rightarrow> (string \<times> json) list option \<Rightarrow> (string \<times> json) list \<Rightarrow> string \<Rightarrow> string option \<Rightarrow>
     (asset_world, go_error, unit) go" where
  "record_audit A actorID action row before after result errorCode =
     go_bind (adjustmentAudit A actorID action row before after result errorCode) (\<lambda>log.
     on_member (db_create (audit_t (ae_member A)) log))"

subsection \<open>The idempotency store\<close>

definition idem_Start :: "asset_env \<Rightarrow> uint64 \<Rightarrow> string \<Rightarrow> string \<Rightarrow> string \<Rightarrow> AdjustmentCreateReq \<Rightarrow> (asset_world, go_error, bool) go" where
  "idem_Start A adminID verb path key req =
     go_bind (on_member next_id) (\<lambda>i.
     go_bind asset_clock (\<lambda>now.
     on_claims (Start now (ae_sha A) (claimE A) i ''admin'' adminID verb path key (RequestHash (ae_sha A) (ae_marshal_req A) req))))"

definition idem_Succeed :: "asset_env \<Rightarrow> uint64 \<Rightarrow> string \<Rightarrow> string \<Rightarrow> AdjustmentDTO \<Rightarrow> (asset_world, go_error, unit) go" where
  "idem_Succeed A adminID path key out =
     go_bind asset_clock (\<lambda>now.
     on_claims (Succeed (ae_sha A) (ae_marshal A) (claimE A) now ''admin'' adminID path key out))"

definition idem_Cached :: "asset_env \<Rightarrow> uint64 \<Rightarrow> string \<Rightarrow> string \<Rightarrow> (asset_world, go_error, AdjustmentDTO option) go" where
  "idem_Cached A adminID path key =
     on_claims (\<lambda>rows. (CachedResponse (ae_sha A) (ae_unmarshal A) (claimE A) ''admin'' adminID path key rows, rows))"

subsection \<open>Creating\<close>

definition adjustment_limit :: "string \<Rightarrow> int" where
  "adjustment_limit assetType = (if assetType = TypeBalance then 50000 else 100000)"

definition state_conflict :: "string \<Rightarrow> go_error" where
  "state_conflict detail = problem_Conflict ''ASSET_ADJUSTMENT_STATE_CONFLICT'' detail"

text \<open>The row of an earlier request with the key, \<open>None\<close> when it still has to be executed. What is answered is the row as it is now.\<close>

definition adjustment_replay ::
    "asset_env \<Rightarrow> uint64 \<Rightarrow> string \<Rightarrow> string \<Rightarrow> (asset_world, go_error, Adjustment \<times> (AdjustmentDTO \<times> go_error option) option) go" where
  "adjustment_replay A adminID path key =
     go_bind (idem_Cached A adminID path key) (\<lambda>cached.
     case cached of
       None \<Rightarrow> go_err (problem_Conflict ''IDEMPOTENCY_CONFLICT'' ''idempotent response unavailable'')
     | Some out0 \<Rightarrow>
         (case parseID (ad_ID out0) of
            Inl _ \<Rightarrow> go_err (problem_Conflict ''IDEMPOTENCY_CONFLICT'' ''cached adjustment response is invalid'')
          | Inr i \<Rightarrow>
              go_bind (go_try (db_take (adjustment_t A) (\<lambda>a. adj_ID a = i \<and> adj_CreatedBy a = adminID))) (\<lambda>found.
              case found of
                Inl _ \<Rightarrow> go_err (problem_Conflict ''IDEMPOTENCY_CONFLICT'' ''cached adjustment no longer exists'')
              | Inr row \<Rightarrow>
                  let out = adjustmentDTO row in
                  if adj_Status row = ''succeeded'' \<or> adj_Status row = ''rejected'' then
                    go_bind (idem_Succeed A adminID path key out) (\<lambda>_. go_ok (row, Some (out, None)))
                  else if adj_Status row = ''failed'' then
                    go_bind (idem_Succeed A adminID path key out) (\<lambda>_.
                    go_ok (row, Some (out, Some (adjustmentExecutionError (ad_FailureCode out)))))
                  else if adj_Status row = ''pending'' \<or> adj_Status row = ''executing'' then go_ok (row, None)
                  else go_err (state_conflict ''adjustment state is invalid''))))"

definition new_adjustment ::
    "asset_env \<Rightarrow> uint64 \<Rightarrow> uint64 \<Rightarrow> string \<Rightarrow> string \<Rightarrow> AdjustmentCreateReq \<Rightarrow> (asset_world, go_error, Adjustment) go" where
  "new_adjustment A adminID customerID unit key req =
     go_bind (on_member (requireCustomer (ae_member A) customerID)) (\<lambda>_.
     go_bind (on_member next_id) (\<lambda>i.
     go_bind (on_member next_id) (\<lambda>j.
     go_bind asset_clock (\<lambda>now.
     let row = \<lparr>adj_ID = i, adj_AdjustmentNo = ''AD'' @ idString j, adj_CustomerID = customerID, adj_AssetType = ac_AssetType req,
       adj_Unit = unit, adj_Direction = ac_Direction req, adj_Amount = ac_Amount req, adj_ReasonCode = ac_ReasonCode req,
       adj_Reason = ac_Reason req, 
       adj_EvidenceRefs = (case ac_EvidenceRefs req of None \<Rightarrow> JNull | Some refs \<Rightarrow> JArray (map JString refs)), adj_Status = ''pending'',
       adj_CreatedBy = adminID, adj_ReviewedBy = None, adj_ReviewedAt = None, adj_AssetTransactionID = None, adj_FailureCode = None,
       adj_IdempotencyKeyHash = keyHash (ae_member A) key, adj_Version = 1, adj_CreatedAt = now, adj_UpdatedAt = now\<rparr> in
     go_bind (db_create (adjustment_t A) row) (\<lambda>_.
     go_bind (record_audit A adminID ''asset_adjustment.create'' row None
       [(''status'', JString (adj_Status row)), (''version'', JInt (uint (adj_Version row))), (''customer_id'', JString (ac_CustomerID req)),
        (''asset_type'', JString (ac_AssetType req)), (''amount'', JInt (sint (ac_Amount req))), (''direction'', JString (ac_Direction req)),
        (''reason_code'', JString (ac_ReasonCode req)), (''reason'', JString (ac_Reason req)),
        (''idempotency_key_hash'', JString (adj_IdempotencyKeyHash row))] ''success'' None) (\<lambda>_.
     go_ok row))))))"

subsection \<open>Executing\<close>

definition start_executing :: "asset_env \<Rightarrow> uint64 \<Rightarrow> Adjustment \<Rightarrow> (asset_world, go_error, Adjustment) go" where
  "start_executing A adminID row =
     (if adj_Status row = ''pending'' then
        go_bind asset_clock (\<lambda>now.
        go_bind (db_updates (adjustment_t A)
          (\<lambda>a. adj_ID a = adj_ID row \<and> adj_Status a = ''pending'' \<and> adj_Version a = adj_Version row)
          (\<lambda>a. a\<lparr>adj_Status := ''executing'', adj_ReviewedBy := Some adminID, adj_ReviewedAt := Some now,
             adj_Version := adj_Version a + 1, adj_UpdatedAt := now\<rparr>)) (\<lambda>affected.
        if affected \<noteq> 1 then go_err (state_conflict ''adjustment state or version changed'')
        else go_ok (row\<lparr>adj_Status := ''executing'', adj_ReviewedBy := Some adminID, adj_ReviewedAt := Some now,
          adj_Version := adj_Version row + 1\<rparr>)))
      else go_ok row)"

definition adjustment_command :: "uint64 \<Rightarrow> string \<Rightarrow> Adjustment \<Rightarrow> Command" where
  "adjustment_command adminID key row =
     \<lparr>cm_CustomerID = adj_CustomerID row, cm_AssetType = adj_AssetType row, cm_Unit = adj_Unit row, cm_Amount = adj_Amount row,
      cm_SourceType = ''manual_adjustment'', cm_SourceID = idString (adj_ID row),
      cm_Action = (if adj_Direction row = ''debit'' then ''debit'' else ''credit''), cm_IdempotencyKey = key,
      cm_ActorType = ''admin'', cm_ActorID = adminID, cm_OccurredAt = 0, cm_ExpiresAt = None,
      cm_Metadata = JObject [(''adjustment_no'', JString (adj_AdjustmentNo row)), (''reason_code'', JString (adj_ReasonCode row))]\<rparr>"

definition adjustment_direction :: "Adjustment \<Rightarrow> int" where
  "adjustment_direction row = (if adj_Direction row = ''debit'' then - 1 else 1)"

definition inside :: "member_env \<Rightarrow> member_env" where
  "inside S = S\<lparr>env_commit := \<lambda>_. None\<rparr>"

definition mark_adjustment ::
    "asset_env \<Rightarrow> Adjustment \<Rightarrow> string \<Rightarrow> (Adjustment \<Rightarrow> Adjustment) \<Rightarrow> string \<Rightarrow> (asset_world, go_error, unit) go" where
  "mark_adjustment A row status f detail =
     go_bind asset_clock (\<lambda>now.
     go_bind (db_updates (adjustment_t A) (\<lambda>a. adj_ID a = adj_ID row \<and> adj_Status a = ''executing'')
       (\<lambda>a. (f a)\<lparr>adj_Status := status, adj_Version := adj_Version a + 1, adj_UpdatedAt := now\<rparr>)) (\<lambda>affected.
     if affected \<noteq> 1 then go_err (state_conflict detail) else go_ok ()))"

text \<open>Posting and marking: the answer is the error of the ledger when it is final.\<close>

definition post_adjustment :: "asset_env \<Rightarrow> uint64 \<Rightarrow> string \<Rightarrow> Adjustment \<Rightarrow> (asset_world, go_error, go_error option) go" where
  "post_adjustment A adminID key row =
     go_bind (go_try (on_member (postTransferWithDB (inside (ae_member A)) (adjustment_command adminID key row)
       (adjustment_direction row) None))) (\<lambda>posted.
     case posted of
       Inl e \<Rightarrow>
         let code = error_code e in
         if \<not> isTerminalAdjustmentFailure code then go_err e
         else go_bind (mark_adjustment A row ''failed'' (\<lambda>a. a\<lparr>adj_FailureCode := Some code\<rparr>)
           ''adjustment state changed while execution failed'') (\<lambda>_. go_ok (Some e))
     | Inr dto \<Rightarrow>
         (case parseID (td_ID dto) of
            Inl _ \<Rightarrow> go_err (problem_Internal ''asset transaction id is invalid'')
          | Inr txID \<Rightarrow>
              go_bind (mark_adjustment A row ''succeeded'' (\<lambda>a. a\<lparr>adj_AssetTransactionID := Some txID, adj_FailureCode := None\<rparr>)
                ''adjustment state changed while execution succeeded'') (\<lambda>_. go_ok None)))"

definition execute_adjustment ::
    "asset_env \<Rightarrow> uint64 \<Rightarrow> string \<Rightarrow> string \<Rightarrow> Adjustment \<Rightarrow> (asset_world, go_error, AdjustmentDTO \<times> go_error option) go" where
  "execute_adjustment A adminID path key row0 =
     go_bind (start_executing A adminID row0) (\<lambda>row.
     go_bind (post_adjustment A adminID key row) (\<lambda>executionErr.
     go_bind (db_take (adjustment_t A) (\<lambda>a. adj_ID a = adj_ID row)) (\<lambda>stored.
     let out = adjustmentDTO stored;
         (result, errorCode) = (case executionErr of None \<Rightarrow> (''success'', None) | Some _ \<Rightarrow> (''failed'', Some (ad_FailureCode out))) in
     go_bind (record_audit A adminID ''asset_adjustment.execute'' stored
       (Some [(''status'', JString (adj_Status row0)), (''version'', JInt (uint (adj_Version row0)))])
       [(''status'', JString (ad_Status out)), (''version'', JInt (uint (ad_Version out))),
        (''asset_transaction_id'', JString (ad_AssetTransactionID out)),
        (''transaction_action'', JString (cm_Action (adjustment_command adminID key row))),
        (''failure_code'', JString (ad_FailureCode out)), (''reason_code'', JString (adj_ReasonCode stored)),
        (''reason'', JString (adj_Reason stored)), (''idempotency_key_hash'', JString (adj_IdempotencyKeyHash stored))]
       result errorCode) (\<lambda>_.
     go_bind (idem_Succeed A adminID path key out) (\<lambda>_.
     go_ok (out, executionErr))))))"

definition adjustment_transaction ::
    "asset_env \<Rightarrow> uint64 \<Rightarrow> uint64 \<Rightarrow> string \<Rightarrow> string \<Rightarrow> string \<Rightarrow> string \<Rightarrow> AdjustmentCreateReq \<Rightarrow>
     (asset_world, go_error, AdjustmentDTO \<times> go_error option) go" where
  "adjustment_transaction A adminID customerID unit verb path key req =
     go_bind (activeAdminHasPermission A adminID ''asset_adjustment:create'') (\<lambda>allowed.
     if \<not> allowed then go_err (problem_Forbidden ''PERM_FORBIDDEN'' ''administrator is no longer active or authorized'')
     else
       go_bind (idem_Start A adminID verb path key req) (\<lambda>started.
       if started then
         go_bind (new_adjustment A adminID customerID unit key req) (execute_adjustment A adminID path key)
       else
         go_bind (adjustment_replay A adminID path key) (\<lambda>(row, answer).
         case answer of Some result \<Rightarrow> go_ok result | None \<Rightarrow> execute_adjustment A adminID path key row)))"

text \<open>The function returns the adjustment and the error of its execution side by side.\<close>

definition CreateAdjustment ::
    "asset_env \<Rightarrow> Claims option \<Rightarrow> string \<Rightarrow> string \<Rightarrow> string \<Rightarrow> AdjustmentCreateReq \<Rightarrow>
     (asset_world, go_error, AdjustmentDTO \<times> go_error option) go" where
  "CreateAdjustment A claims verb path key req =
     (case adminIDWithPermission claims ''asset_adjustment:create'' of
        Inl e \<Rightarrow> go_err e
      | Inr adminID \<Rightarrow>
          (case parseID (ac_CustomerID req) of
             Inl _ \<Rightarrow> go_err (problem_NotFound ''MEMBER_NOT_FOUND'' ''member not found'')
           | Inr customerID \<Rightarrow>
               (case UnitFor (ac_AssetType req) of
                  Inl e \<Rightarrow> go_err e
                | Inr unit \<Rightarrow>
                    if ac_Direction req \<noteq> ''credit'' \<and> ac_Direction req \<noteq> ''debit''
                    then go_err (ASSET_AMOUNT_INVALID ''manual adjustment direction is invalid'')
                    else if sint (ac_Amount req) \<le> 0 \<or> adjustment_limit (ac_AssetType req) < sint (ac_Amount req)
                    then go_err (ASSET_AMOUNT_INVALID ''manual adjustment exceeds configured limit'')
                    else gorm_transaction (ae_commit A) restore_asset
                      (adjustment_transaction A adminID customerID unit verb path key req))))"

subsection \<open>What an execution leaves\<close>

lemma inside_engines: "member_store S account_fits balance_fits hold_fits hold_lot_fits \<Longrightarrow>
    member_store (inside S) account_fits balance_fits hold_fits hold_lot_fits"
  by (simp add: member_store_def inside_def)

text \<open>\<open>posting_of c d m m' t\<close>: in \<open>m'\<close> there is the transaction \<open>t\<close> of the command \<open>c\<close> with direction \<open>d\<close>; unless \<open>m\<close> had one of the same source,
  \<open>t\<close> has the amount of the command and the balances have changed by it, and otherwise the ledger is as in \<open>m\<close>.\<close>

definition posting_of :: "Command \<Rightarrow> int \<Rightarrow> member_world \<Rightarrow> member_world \<Rightarrow> AssetTransaction \<Rightarrow> bool" where
  "posting_of c d m m' t \<longleftrightarrow> t \<in> set (asset_transactions m') \<and> by_source (cm_SourceType c) (cm_SourceID c) (cm_Action c) t \<and>
     (if \<exists>t\<in>set (asset_transactions m). by_source (cm_SourceType c) (cm_SourceID c) (cm_Action c) t then core m' = core m
      else atx_Amount t = sint (cm_Amount c) \<and>
        holding m' = transferred (cm_CustomerID c) (cm_AssetType c) (cm_Unit c) (sint (cm_Amount c) * d) (holding m))"

context member_store
begin

lemma posting_done:
  assumes "postTransferWithDB S c d None m = (Inr dto, m')" and "member_ok m" and "d = 1 \<or> d = -1"
  obtains t where "posting_of c d m m' t" and "td_ID dto = idString (atx_ID t)"
  by (rule transfer_exact [OF assms]) (rule that, simp add: posting_of_def)

end

text \<open>An update of the adjustments that leaves identities alone.\<close>

definition identity_kept :: "(Adjustment \<Rightarrow> Adjustment) \<Rightarrow> bool" where
  "identity_kept f \<longleftrightarrow> (\<forall>a. adj_ID (f a) = adj_ID a \<and> adj_CreatedBy (f a) = adj_CreatedBy a)"

lemma identity_ids: "identity_kept f \<Longrightarrow> map adj_ID (update_where p f rows) = map adj_ID rows"
  by (simp add: identity_kept_def map_update_where)

lemma identity_creator:
  "identity_kept f \<Longrightarrow> \<forall>a\<in>set rows. adj_ID a = i \<longrightarrow> adj_CreatedBy a = c \<Longrightarrow>
     \<forall>a\<in>set (update_where p f rows). adj_ID a = i \<longrightarrow> adj_CreatedBy a = c"
  by (auto simp: identity_kept_def set_update_where)

locale adjustment_store =
  member_store "ae_member A" account_fits balance_fits hold_fits hold_lot_fits +
  adj: gorm_table "adjustmentE A" adjustment_clash adjustment_fits +
  clm: claim_table "claimE A"
  for A :: asset_env and account_fits balance_fits hold_fits hold_lot_fits adjustment_fits
begin

lemma start_done:
  assumes "start_executing A adminID row w = (Inr row', w')"
  shows "aw_member w' = aw_member w" "aw_claims w' = aw_claims w"
    "adjustment_command adminID key row' = adjustment_command adminID key row" "adjustment_direction row' = adjustment_direction row"
    "adj_ID row' = adj_ID row" "\<exists>p f. identity_kept f \<and> adjustments w' = update_where p f (adjustments w)"
proof -
  have "aw_member w' = aw_member w \<and> aw_claims w' = aw_claims w \<and>
    adjustment_command adminID key row' = adjustment_command adminID key row \<and> adjustment_direction row' = adjustment_direction row \<and>
    adj_ID row' = adj_ID row \<and> (\<exists>p f. identity_kept f \<and> adjustments w' = update_where p f (adjustments w))"
  proof (cases "adj_Status row = ''pending''")
    case True
    let ?now = "mw_wall (aw_member w)"
    let ?p = "\<lambda>a. adj_ID a = adj_ID row \<and> adj_Status a = ''pending'' \<and> adj_Version a = adj_Version row"
    let ?f = "\<lambda>a. a\<lparr>adj_Status := ''executing'', adj_ReviewedBy := Some adminID, adj_ReviewedAt := Some ?now,
             adj_Version := adj_Version a + 1, adj_UpdatedAt := ?now\<rparr>"
    from assms True obtain rows n where upd: "sql_updates (adjustmentE A) ?p ?f (adjustments w) = Inr (rows, n)"
      and w': "w' = w\<lparr>adjustments := rows\<rparr>" and row': "row' = row\<lparr>adj_Status := ''executing'', adj_ReviewedBy := Some adminID,
        adj_ReviewedAt := Some ?now, adj_Version := adj_Version row + 1\<rparr>"
      by (auto simp: start_executing_def asset_clock_inv db_updates_inv adjustment_t_def elim!: go_bindE split: if_splits)
    have "identity_kept ?f" by (simp add: identity_kept_def)
    then show ?thesis using adj.updates_rows [OF upd] w' row' by (auto simp: adjustment_command_def adjustment_direction_def)
  next
    case False
    then have "w' = w" "row' = row" using assms by (auto simp: start_executing_def)
    moreover have "adjustments w = update_where (\<lambda>_. False) (\<lambda>a. a) (adjustments w)" by simp
    moreover have "identity_kept (\<lambda>a. a)" by (simp add: identity_kept_def)
    ultimately show ?thesis by metis
  qed
  then show "aw_member w' = aw_member w" "aw_claims w' = aw_claims w"
    "adjustment_command adminID key row' = adjustment_command adminID key row" "adjustment_direction row' = adjustment_direction row"
    "adj_ID row' = adj_ID row" "\<exists>p f. identity_kept f \<and> adjustments w' = update_where p f (adjustments w)" by blast+
qed

lemma mark_done:
  assumes run: "mark_adjustment A row status f detail w = (Inr u, w')" and f: "identity_kept f" and final: "status \<noteq> ''executing''"
    and dist: "distinct (map adj_ID (adjustments w))"
  obtains a now where "aw_member w' = aw_member w" "aw_claims w' = aw_claims w" "a \<in> set (adjustments w)" "adj_ID a = adj_ID row"
    "set (adjustments w') = insert ((f a)\<lparr>adj_Status := status, adj_Version := adj_Version a + 1, adj_UpdatedAt := now\<rparr>) (set (adjustments w) - {a})"
    "map adj_ID (adjustments w') = map adj_ID (adjustments w)"
proof -
  let ?now = "mw_wall (aw_member w)" and ?p = "\<lambda>a. adj_ID a = adj_ID row \<and> adj_Status a = ''executing''"
  let ?f = "\<lambda>a. (f a)\<lparr>adj_Status := status, adj_Version := adj_Version a + 1, adj_UpdatedAt := ?now\<rparr>"
  from run obtain rows n where upd: "sql_updates (adjustmentE A) ?p ?f (adjustments w) = Inr (rows, n)" "n = 1"
    and w': "w' = w\<lparr>adjustments := rows\<rparr>"
    by (auto simp: mark_adjustment_def asset_clock_inv db_updates_inv adjustment_t_def elim!: go_bindE split: if_splits)
  have rows: "rows = update_where ?p ?f (adjustments w)" by (rule adj.updates_rows [OF upd(1)])
  have "?f r \<noteq> r" if "?p r" for r
  proof
    assume "?f r = r"
    then have "adj_Status (?f r) = adj_Status r" by (rule arg_cong)
    then show False using that final by simp
  qed
  then have "n = length (filter ?p (adjustments w))" by (intro adj.updates_count [OF upd(1)]) blast
  then have "filter ?p (adjustments w) \<noteq> []" using upd(2) by auto
  then obtain a where a: "a \<in> set (adjustments w)" "?p a" by (auto simp: filter_empty_conv)
  have only: "b = a" if "b \<in> set (adjustments w)" "?p b" for b
    using distinct_key_unique [OF dist that(1) a(1)] that(2) a(2) by simp
  have "set rows = insert (?f a) (set (adjustments w) - {a})"
  proof -
    have "{b \<in> set (adjustments w). ?p b} = {a}" "{b \<in> set (adjustments w). \<not> ?p b} = set (adjustments w) - {a}"
      using a only by blast+
    then show ?thesis unfolding rows set_update_where by simp
  qed
  moreover have "identity_kept ?f" using f by (simp add: identity_kept_def)
  ultimately show thesis using that [of a ?now] a w' identity_ids [of ?f ?p] by (simp add: rows)
qed

lemma post_done:
  assumes run: "post_adjustment A adminID key row w = (Inr err, w')" and ok: "member_ok (aw_member w)"
    and dist: "distinct (map adj_ID (adjustments w))"
  obtains a b where "a \<in> set (adjustments w)" "adj_ID a = adj_ID row" "b \<in> set (adjustments w')" "adj_ID b = adj_ID row"
    "adj_CreatedBy b = adj_CreatedBy a" "map adj_ID (adjustments w') = map adj_ID (adjustments w)" "aw_claims w' = aw_claims w"
    "case err of
       None \<Rightarrow> adj_Status b = ''succeeded'' \<and> (\<exists>t. adj_AssetTransactionID b = Some (atx_ID t) \<and>
         posting_of (adjustment_command adminID key row) (adjustment_direction row) (aw_member w) (aw_member w') t)
     | Some e \<Rightarrow> adj_Status b = ''failed'' \<and> adj_FailureCode b = Some (error_code e) \<and> isTerminalAdjustmentFailure (error_code e) \<and>
         core (aw_member w') = core (aw_member w)"
    "member_ok (aw_member w')"
proof -
  let ?S = "inside (ae_member A)" and ?c = "adjustment_command adminID key row" and ?d = "adjustment_direction row"
  note st = inside_engines [OF member_store_axioms]
  have d: "?d = 1 \<or> ?d = -1" by (simp add: adjustment_direction_def)
  obtain r m where post: "postTransferWithDB ?S ?c ?d None (aw_member w) = (r, m)" by (cases "postTransferWithDB ?S ?c ?d None (aw_member w)")
  have ok': "member_ok m" by (rule member_store.postTransfer_ok [OF st post ok d])
  let ?w = "w\<lparr>aw_member := m\<rparr>"
  have dist': "distinct (map adj_ID (adjustments ?w))" using dist by simp
  have tried: "go_try (on_member (postTransferWithDB ?S ?c ?d None)) w = (Inr r, ?w)" by (simp add: go_try_def on_member_def post)
  note run' = run [unfolded post_adjustment_def go_bind_ok [where m = "go_try (on_member (postTransferWithDB ?S ?c ?d None))" and s = w, OF tried]]
  show thesis
  proof (cases r)
    case (Inl e)
    then have mark: "mark_adjustment A row ''failed'' (\<lambda>a. a\<lparr>adj_FailureCode := Some (error_code e)\<rparr>) ''adjustment state changed while execution failed'' ?w = (Inr (), w')"
      and err: "err = Some e" "isTerminalAdjustmentFailure (error_code e)"
      using run' by (auto simp: Let_def elim!: go_bindE split: if_splits)
    have "core m = core (aw_member w)" using post ok d Inl by (elim member_store.postTransfer_cases [OF st]) auto
    moreover have "identity_kept (\<lambda>a. a\<lparr>adj_FailureCode := Some (error_code e)\<rparr>)" by (simp add: identity_kept_def)
    from mark_done [OF mark this _ dist'] obtain a now where a: "aw_member w' = m" "aw_claims w' = aw_claims w" "a \<in> set (adjustments w)" "adj_ID a = adj_ID row"
      "set (adjustments w') = insert (a\<lparr>adj_FailureCode := Some (error_code e), adj_Status := ''failed'', adj_Version := adj_Version a + 1, adj_UpdatedAt := now\<rparr>)
        (set (adjustments w) - {a})" "map adj_ID (adjustments w') = map adj_ID (adjustments w)" by auto
    show thesis
      by (rule that [of a "a\<lparr>adj_FailureCode := Some (error_code e), adj_Status := ''failed'', adj_Version := adj_Version a + 1, adj_UpdatedAt := now\<rparr>"])
        (use a err ok' calculation in simp_all)
  next
    case (Inr dto)
    then obtain txID where i: "parseID (td_ID dto) = Inr txID" and err: "err = None"
      and mark: "mark_adjustment A row ''succeeded'' (\<lambda>a. a\<lparr>adj_AssetTransactionID := Some txID, adj_FailureCode := None\<rparr>) ''adjustment state changed while execution succeeded'' ?w = (Inr (), w')"
      using run' by (auto elim!: go_bindE split: sum.splits)
    from member_store.posting_done [OF st post [unfolded Inr] ok d] obtain t where t: "posting_of ?c ?d (aw_member w) m t"
      "td_ID dto = idString (atx_ID t)" .
    have "txID = atx_ID t" using i t(2) parseID_id by simp
    moreover have "identity_kept (\<lambda>a. a\<lparr>adj_AssetTransactionID := Some txID, adj_FailureCode := None\<rparr>)" by (simp add: identity_kept_def)
    from mark_done [OF mark this _ dist'] obtain a now where a: "aw_member w' = m" "aw_claims w' = aw_claims w" "a \<in> set (adjustments w)" "adj_ID a = adj_ID row"
      "set (adjustments w') = insert (a\<lparr>adj_AssetTransactionID := Some txID, adj_FailureCode := None, adj_Status := ''succeeded'', adj_Version := adj_Version a + 1, adj_UpdatedAt := now\<rparr>)
        (set (adjustments w) - {a})" "map adj_ID (adjustments w') = map adj_ID (adjustments w)" by auto
    show thesis
      by (rule that [of a "a\<lparr>adj_AssetTransactionID := Some txID, adj_FailureCode := None, adj_Status := ''succeeded'', adj_Version := adj_Version a + 1, adj_UpdatedAt := now\<rparr>"])
        (use a err ok' t(1) calculation in auto)
  qed
qed

end

subsection \<open>A request and its repetition\<close>

lemma record_audit_done:
  assumes "record_audit A adminID action row before after result code w = (Inr u, w')"
  shows "core (aw_member w') = core (aw_member w)" "asset_transactions (aw_member w') = asset_transactions (aw_member w)"
    "adjustments w' = adjustments w" "aw_claims w' = aw_claims w"
proof -
  from assms obtain i m rows where i: "next_id (aw_member w) = (Inr i, m)"
    and w': "w' = w\<lparr>aw_member := m\<lparr>audit_logs := rows\<rparr>\<rparr>"
    by (auto simp: record_audit_def adjustmentAudit_def Let_def on_member_inv db_create_inv audit_t_def elim!: go_bindE)
  have "core m = core (aw_member w)" by (rule core_frames(1) [OF i])
  then show "core (aw_member w') = core (aw_member w)" "asset_transactions (aw_member w') = asset_transactions (aw_member w)"
    "adjustments w' = adjustments w" "aw_claims w' = aw_claims w" by (simp_all add: w' core_iff)
qed

lemma posting_of_core:
  "posting_of c d m m' t \<Longrightarrow> ledger_ok m' \<Longrightarrow> core m'' = core m' \<Longrightarrow> posting_of c d m m'' t"
  using holding_core [of m' m''] by (auto simp: posting_of_def core_iff split: if_splits)

context adjustment_store
begin

lemma succeed_done:
  assumes "idem_Succeed A adminID path key out w = (Inr u, w')"
  obtains now where "aw_member w' = aw_member w" "adjustments w' = adjustments w"
    "aw_claims w' = update_where (\<lambda>r. rec_key r = (''admin'', adminID, path, KeyHash (ae_sha A) key)) (claim_succeed now (ae_marshal A out)) (aw_claims w)"
  using assms clm.updates_rows
  by (fastforce simp: idem_Succeed_def asset_clock_inv on_claims_def Succeed_def elim!: go_bindE split: sum.splits prod.splits)

lemma execute_done:
  assumes run: "execute_adjustment A adminID path key row w = (Inr (out, err), w')" and ok: "member_ok (aw_member w)"
    and dist: "distinct (map adj_ID (adjustments w))" and creator: "\<forall>a\<in>set (adjustments w). adj_ID a = adj_ID row \<longrightarrow> adj_CreatedBy a = adminID"
  obtains b now where "b \<in> set (adjustments w')" "adj_ID b = adj_ID row" "out = adjustmentDTO b" "adj_CreatedBy b = adminID"
    "map adj_ID (adjustments w') = map adj_ID (adjustments w)"
    "aw_claims w' = update_where (\<lambda>r. rec_key r = (''admin'', adminID, path, KeyHash (ae_sha A) key)) (claim_succeed now (ae_marshal A out)) (aw_claims w)"
    "case err of
       None \<Rightarrow> adj_Status b = ''succeeded'' \<and> (\<exists>t. adj_AssetTransactionID b = Some (atx_ID t) \<and>
         posting_of (adjustment_command adminID key row) (adjustment_direction row) (aw_member w) (aw_member w') t)
     | Some e \<Rightarrow> adj_Status b = ''failed'' \<and> adj_FailureCode b = Some (error_code e) \<and> isTerminalAdjustmentFailure (error_code e) \<and>
         core (aw_member w') = core (aw_member w)"
    "member_ok (aw_member w')"
proof -
  from run obtain row1 w1 w2 stored w4 before after res code where start: "start_executing A adminID row w = (Inr row1, w1)"
    and post: "post_adjustment A adminID key row1 w1 = (Inr err, w2)"
    and stored: "sql_take (adjustmentE A) (\<lambda>a. adj_ID a = adj_ID row1) (adjustments w2) = Inr stored"
    and audit: "record_audit A adminID ''asset_adjustment.execute'' stored before after res code w2 = (Inr (), w4)"
    and succeed: "idem_Succeed A adminID path key out w4 = (Inr (), w')" and out: "out = adjustmentDTO stored"
    unfolding execute_adjustment_def Let_def
    by (elim go_bindE) (auto simp: db_take_inv adjustment_t_def elim!: go_bindE split: option.splits)
  note s = start_done [OF start]
  from s(6) obtain p f where f: "identity_kept f" "adjustments w1 = update_where p f (adjustments w)" by blast
  have dist1: "distinct (map adj_ID (adjustments w1))" using dist identity_ids [OF f(1)] f(2) by simp
  from post_done [OF post _ dist1] ok s(1) obtain a b where ab: "a \<in> set (adjustments w1)" "adj_ID a = adj_ID row1" "b \<in> set (adjustments w2)"
    "adj_ID b = adj_ID row1" "adj_CreatedBy b = adj_CreatedBy a" "map adj_ID (adjustments w2) = map adj_ID (adjustments w1)"
    "aw_claims w2 = aw_claims w1"
    "case err of None \<Rightarrow> adj_Status b = ''succeeded'' \<and> (\<exists>t. adj_AssetTransactionID b = Some (atx_ID t) \<and>
         posting_of (adjustment_command adminID key row1) (adjustment_direction row1) (aw_member w1) (aw_member w2) t)
     | Some e \<Rightarrow> adj_Status b = ''failed'' \<and> adj_FailureCode b = Some (error_code e) \<and> isTerminalAdjustmentFailure (error_code e) \<and>
         core (aw_member w2) = core (aw_member w1)" "member_ok (aw_member w2)" by auto
  have dist2: "distinct (map adj_ID (adjustments w2))" using dist1 ab(6) by simp
  have b: "stored = b" using adj.take_key [OF dist2 stored ab(3,4)] by simp
  note au = record_audit_done [OF audit]
  from succeed_done [OF succeed] obtain now where su: "aw_member w' = aw_member w4" "adjustments w' = adjustments w4"
    "aw_claims w' = update_where (\<lambda>r. rec_key r = (''admin'', adminID, path, KeyHash (ae_sha A) key)) (claim_succeed now (ae_marshal A out)) (aw_claims w4)" .
  have created: "adj_CreatedBy a = adminID" using identity_creator [OF f(1) creator, of p] ab(1,2) s(5) by (simp add: f(2))
  have core: "core (aw_member w') = core (aw_member w2)" using su(1) au(1) by simp
  show thesis
  proof (rule that [of b now])
    show "case err of None \<Rightarrow> adj_Status b = ''succeeded'' \<and> (\<exists>t. adj_AssetTransactionID b = Some (atx_ID t) \<and>
         posting_of (adjustment_command adminID key row) (adjustment_direction row) (aw_member w) (aw_member w') t)
     | Some e \<Rightarrow> adj_Status b = ''failed'' \<and> adj_FailureCode b = Some (error_code e) \<and> isTerminalAdjustmentFailure (error_code e) \<and>
         core (aw_member w') = core (aw_member w)"
      using ab(8) s(1,3,4) core posting_of_core [OF _ _ core] ab(9) by (auto simp: member_ok_def split: option.splits)
    show "member_ok (aw_member w')" by (rule member_core [OF ab(9) core])
  qed (use ab s b su au out created identity_ids [OF f(1)] f(2) in simp_all)
qed

end

text \<open>What claiming a key leaves behind when it does not fail.\<close>

context claim_table
begin

lemma start_claims:
  assumes run: "Start at sha E i ty actor verb path key h rows = (Inr b, rows')" and wf: "claims_wf rows"
    and k: "k = (ty, actor, path, KeyHash sha key)"
  shows "claims_wf rows'" "\<exists>r\<in>set rows'. rec_key r = k" "\<forall>r\<in>set rows. rec_key r \<noteq> k \<Longrightarrow> b"
proof -
  let ?c = "claim_candidate i k verb h at"
  from run obtain rows1 n ex where ins: "sql_create_ignore E ?c rows = Inr rows1"
    and upd: "sql_updates E (claim_reclaimable k h at) (claim_take i at) rows1 = Inr (rows', n)"
    and sel: "sql_take E (\<lambda>r. rec_key r = k) rows' = Inr ex" and b: "rec_ID ex = i \<Longrightarrow> b"
    unfolding Start_def StartAt_def k by (auto simp: Let_def split: if_splits sum.splits prod.splits)
  have rows': "rows' = update_where (claim_reclaimable k h at) (claim_take i at) rows1" by (rule updates_rows [OF upd])
  have keys: "map rec_key rows' = map rec_key rows1" unfolding rows' by (rule map_update_where) simp
  have ex: "ex \<in> set rows'" "rec_key ex = k" using take_row [OF sel] by auto
  then show "\<exists>r\<in>set rows'. rec_key r = k" by blast
  have "claims_wf rows1"
    using ins wf by (elim create_ignore_cases) (auto simp: claims_wf_def rec_clash_def)
  then show "claims_wf rows'" using keys by (simp add: claims_wf_def)
  show b if new: "\<forall>r\<in>set rows. rec_key r \<noteq> k"
    using ins
  proof (cases rule: create_ignore_cases)
    case (kept r')
    have "k \<in> set (map rec_key rows')" using ex by force
    then show ?thesis using new unfolding keys kept(3) by auto
  next
    case added
    have "rec_ID r = i" if "r \<in> set rows1" "rec_key r = k" for r
    proof -
      have "r = ?c" using that new added(2) by auto
      then show ?thesis by (simp only: claim_sel)
    qed
    then have "rec_ID ex = i" using ex unfolding rows' set_update_where by auto
    then show ?thesis by (rule b)
  qed
qed

end

text \<open>\<open>settled\<close>: the request with this key has been answered with \<open>out\<close> and \<open>err\<close>; the adjustment is final and the answer is stored.\<close>

definition settled :: "asset_env \<Rightarrow> uint64 \<Rightarrow> string \<Rightarrow> string \<Rightarrow> AdjustmentDTO \<Rightarrow> go_error option \<Rightarrow> asset_world \<Rightarrow> bool" where
  "settled A adminID path key out err w \<longleftrightarrow> distinct (map adj_ID (adjustments w)) \<and> claims_wf (aw_claims w) \<and>
     (\<exists>b\<in>set (adjustments w). out = adjustmentDTO b \<and> adj_CreatedBy b = adminID \<and>
        adj_Status b \<in> {''succeeded'', ''rejected'', ''failed''} \<and>
        map_option error_code err = (if adj_Status b = ''failed'' then Some (error_code (adjustmentExecutionError (ad_FailureCode out))) else None)) \<and>
     (\<exists>r\<in>set (aw_claims w). rec_key r = (''admin'', adminID, path, KeyHash (ae_sha A) key) \<and> rec_Status r = ''succeeded'' \<and>
        rec_ResponseBody r = ae_marshal A out)"

lemma replayed_code: "isTerminalAdjustmentFailure c \<Longrightarrow> error_code (adjustmentExecutionError c) = c"
  by (auto simp: isTerminalAdjustmentFailure_def adjustmentExecutionError_def)

lemma succeeded_claims:
  assumes "claims_wf rows" and "\<exists>r\<in>set rows. rec_key r = k" and "rows' = update_where (\<lambda>r. rec_key r = k) (claim_succeed now body) rows"
  shows "claims_wf rows' \<and> (\<exists>r\<in>set rows'. rec_key r = k \<and> rec_Status r = ''succeeded'' \<and> rec_ResponseBody r = body)"
proof -
  from assms(2) obtain r where "r \<in> set rows" "rec_key r = k" by blast
  then have "claim_succeed now body r \<in> set rows'" unfolding assms(3) set_update_where by blast
  moreover have "claims_wf rows'" unfolding assms(3) using assms(1) by (simp add: claims_wf_update)
  ultimately show ?thesis using \<open>rec_key r = k\<close> by (intro conjI bexI [of _ "claim_succeed now body r"]) simp_all
qed

context adjustment_store
begin

lemma idem_Start_done:
  assumes run: "idem_Start A adminID verb path key req w = (Inr b, w')" and wf: "claims_wf (aw_claims w)"
  shows "core (aw_member w') = core (aw_member w)" "adjustments w' = adjustments w" "claims_wf (aw_claims w')"
    "\<exists>r\<in>set (aw_claims w'). rec_key r = (''admin'', adminID, path, KeyHash (ae_sha A) key)"
    "\<forall>r\<in>set (aw_claims w). rec_key r \<noteq> (''admin'', adminID, path, KeyHash (ae_sha A) key) \<Longrightarrow> b"
proof -
  from run obtain i m at h rows where i: "next_id (aw_member w) = (Inr i, m)"
    and start: "Start at (ae_sha A) (claimE A) i ''admin'' adminID verb path key h (aw_claims w) = (Inr b, rows)"
    and w': "w' = w\<lparr>aw_member := m, aw_claims := rows\<rparr>"
    by (auto simp: idem_Start_def on_member_inv asset_clock_inv on_claims_def elim!: go_bindE split: prod.splits)
  note c = clm.start_claims [OF start wf refl]
  show "core (aw_member w') = core (aw_member w)" using core_frames(1) [OF i] by (simp add: w')
  show "adjustments w' = adjustments w" "claims_wf (aw_claims w')" using c(1) by (simp_all add: w')
  show "\<exists>r\<in>set (aw_claims w'). rec_key r = (''admin'', adminID, path, KeyHash (ae_sha A) key)" using c(2) by (simp add: w')
  show "\<forall>r\<in>set (aw_claims w). rec_key r \<noteq> (''admin'', adminID, path, KeyHash (ae_sha A) key) \<Longrightarrow> b" by (rule c(3))
qed

lemma new_adjustment_done:
  assumes run: "new_adjustment A adminID customerID unit key req w = (Inr row, w')"
  shows "core (aw_member w') = core (aw_member w)" "aw_claims w' = aw_claims w" "adjustments w' = adjustments w @ [row]"
    "\<forall>a\<in>set (adjustments w). adj_ID a \<noteq> adj_ID row" "adj_CreatedBy row = adminID" "adj_CustomerID row = customerID" "adj_Unit row = unit"
    "adj_AssetType row = ac_AssetType req" "adj_Direction row = ac_Direction req" "adj_Amount row = ac_Amount req"
proof -
  from run obtain u m0 i m1 j m2 now rows log where c: "requireCustomer (ae_member A) customerID (aw_member w) = (Inr u, m0)"
    and ids: "next_id m0 = (Inr i, m1)" "next_id m1 = (Inr j, m2)"
    and new: "sql_create (adjustmentE A) row (adjustments w) = Inr rows"
    and audit: "record_audit A adminID ''asset_adjustment.create'' row None log ''success'' None (w\<lparr>aw_member := m2, adjustments := rows\<rparr>) = (Inr (), w')"
    and row: "row = \<lparr>adj_ID = i, adj_AdjustmentNo = ''AD'' @ idString j, adj_CustomerID = customerID, adj_AssetType = ac_AssetType req,
       adj_Unit = unit, adj_Direction = ac_Direction req, adj_Amount = ac_Amount req, adj_ReasonCode = ac_ReasonCode req,
       adj_Reason = ac_Reason req, adj_EvidenceRefs = (case ac_EvidenceRefs req of None \<Rightarrow> JNull | Some refs \<Rightarrow> JArray (map JString refs)), adj_Status = ''pending'',
       adj_CreatedBy = adminID, adj_ReviewedBy = None, adj_ReviewedAt = None, adj_AssetTransactionID = None, adj_FailureCode = None,
       adj_IdempotencyKeyHash = keyHash (ae_member A) key, adj_Version = 1, adj_CreatedAt = now, adj_UpdatedAt = now\<rparr>"
    unfolding new_adjustment_def Let_def
    by (elim go_bindE) (auto simp: on_member_inv asset_clock_inv db_create_inv adjustment_t_def)
  note au = record_audit_done [OF audit]
  have "core m0 = core (aw_member w)" "core m1 = core m0" "core m2 = core m1"
    using core_frames(1) [OF ids(1)] core_frames(1) [OF ids(2)] core_frames(6) [OF c] by simp_all
  then show "core (aw_member w') = core (aw_member w)" using au(1) by simp
  show "aw_claims w' = aw_claims w" "adjustments w' = adjustments w @ [row]" "\<forall>a\<in>set (adjustments w). adj_ID a \<noteq> adj_ID row"
    using au(3,4) adj.create_row [OF new] by (auto simp: adjustment_clash_def)
  show "adj_CreatedBy row = adminID" "adj_CustomerID row = customerID" "adj_Unit row = unit" "adj_AssetType row = ac_AssetType req"
    "adj_Direction row = ac_Direction req" "adj_Amount row = ac_Amount req" by (simp_all add: row)
qed

end

context adjustment_store
begin

lemma execute_settled:
  assumes run: "execute_adjustment A adminID path key row w = (Inr (out, err), w')" and ok: "member_ok (aw_member w)"
    and dist: "distinct (map adj_ID (adjustments w))" and creator: "\<forall>a\<in>set (adjustments w). adj_ID a = adj_ID row \<longrightarrow> adj_CreatedBy a = adminID"
    and wf: "claims_wf (aw_claims w)" and claimed: "\<exists>r\<in>set (aw_claims w). rec_key r = (''admin'', adminID, path, KeyHash (ae_sha A) key)"
  shows "settled A adminID path key out err w'"
proof -
  obtain b now where b: "b \<in> set (adjustments w')" "adj_ID b = adj_ID row" "out = adjustmentDTO b" "adj_CreatedBy b = adminID"
    "map adj_ID (adjustments w') = map adj_ID (adjustments w)"
    "aw_claims w' = update_where (\<lambda>r. rec_key r = (''admin'', adminID, path, KeyHash (ae_sha A) key)) (claim_succeed now (ae_marshal A out)) (aw_claims w)"
    "case err of None \<Rightarrow> adj_Status b = ''succeeded'' \<and> (\<exists>t. adj_AssetTransactionID b = Some (atx_ID t) \<and>
         posting_of (adjustment_command adminID key row) (adjustment_direction row) (aw_member w) (aw_member w') t)
     | Some e \<Rightarrow> adj_Status b = ''failed'' \<and> adj_FailureCode b = Some (error_code e) \<and> isTerminalAdjustmentFailure (error_code e) \<and>
         core (aw_member w') = core (aw_member w)" "member_ok (aw_member w')"
    by (rule execute_done [OF run ok dist creator])
  have "adj_Status b \<in> {''succeeded'', ''rejected'', ''failed''} \<and>
      map_option error_code err = (if adj_Status b = ''failed'' then Some (error_code (adjustmentExecutionError (ad_FailureCode out))) else None)"
    using b(7) replayed_code by (auto simp: b(3) adjustmentDTO_def split: option.splits)
  then show ?thesis
    unfolding settled_def using b(1,3,4,5) dist succeeded_claims [OF wf claimed b(6)] by auto
qed

lemma replay_done:
  assumes run: "adjustment_replay A adminID path key w = (Inr (row, answer), w')"
  shows "aw_member w' = aw_member w" "adjustments w' = adjustments w" "row \<in> set (adjustments w)" "adj_CreatedBy row = adminID"
    "case answer of None \<Rightarrow> w' = w \<and> adj_Status row \<notin> {''succeeded'', ''rejected'', ''failed''}
     | Some (out, err) \<Rightarrow> out = adjustmentDTO row \<and> adj_Status row \<in> {''succeeded'', ''rejected'', ''failed''} \<and>
         map_option error_code err = (if adj_Status row = ''failed'' then Some (error_code (adjustmentExecutionError (ad_FailureCode out))) else None) \<and>
         (\<exists>now. aw_claims w' = update_where (\<lambda>r. rec_key r = (''admin'', adminID, path, KeyHash (ae_sha A) key))
            (claim_succeed now (ae_marshal A out)) (aw_claims w))"
    "\<exists>out0. CachedResponse (ae_sha A) (ae_unmarshal A) (claimE A) ''admin'' adminID path key (aw_claims w) = Inr (Some out0) \<and>
       parseID (ad_ID out0) = Inr (adj_ID row)"
proof -
  from run obtain out0 i where cached: "CachedResponse (ae_sha A) (ae_unmarshal A) (claimE A) ''admin'' adminID path key (aw_claims w) = Inr (Some out0)"
    and i: "parseID (ad_ID out0) = Inr i"
    and row: "sql_take (adjustmentE A) (\<lambda>a. adj_ID a = i \<and> adj_CreatedBy a = adminID) (adjustments w) = Inr row"
    and rest: "(let out = adjustmentDTO row in
                  if adj_Status row = ''succeeded'' \<or> adj_Status row = ''rejected'' then
                    go_bind (idem_Succeed A adminID path key out) (\<lambda>_. go_ok (row, Some (out, None)))
                  else if adj_Status row = ''failed'' then
                    go_bind (idem_Succeed A adminID path key out) (\<lambda>_.
                    go_ok (row, Some (out, Some (adjustmentExecutionError (ad_FailureCode out)))))
                  else if adj_Status row = ''pending'' \<or> adj_Status row = ''executing'' then go_ok (row, None)
                  else go_err (state_conflict ''adjustment state is invalid'')) w = (Inr (row, answer), w')"
    unfolding adjustment_replay_def
    by (auto simp: idem_Cached_def on_claims_def db_take_inv adjustment_t_def Let_def elim!: go_bindE go_tryE
        split: option.splits sum.splits if_splits prod.splits)
  have r: "row \<in> set (adjustments w)" "adj_ID row = i" "adj_CreatedBy row = adminID" using adj.take_row [OF row] by auto
  then show "row \<in> set (adjustments w)" "adj_CreatedBy row = adminID" by simp_all
  show "\<exists>out0. CachedResponse (ae_sha A) (ae_unmarshal A) (claimE A) ''admin'' adminID path key (aw_claims w) = Inr (Some out0) \<and>
       parseID (ad_ID out0) = Inr (adj_ID row)" using cached i r(2) by blast
  have "aw_member w' = aw_member w \<and> adjustments w' = adjustments w \<and> (case answer of None \<Rightarrow> w' = w \<and> adj_Status row \<notin> {''succeeded'', ''rejected'', ''failed''}
     | Some (out, err) \<Rightarrow> out = adjustmentDTO row \<and> adj_Status row \<in> {''succeeded'', ''rejected'', ''failed''} \<and>
         map_option error_code err = (if adj_Status row = ''failed'' then Some (error_code (adjustmentExecutionError (ad_FailureCode out))) else None) \<and>
         (\<exists>now. aw_claims w' = update_where (\<lambda>r. rec_key r = (''admin'', adminID, path, KeyHash (ae_sha A) key))
            (claim_succeed now (ae_marshal A out)) (aw_claims w)))"
    using rest unfolding Let_def by (auto elim!: go_bindE succeed_done split: if_splits)
  then show "aw_member w' = aw_member w" "adjustments w' = adjustments w"
    "case answer of None \<Rightarrow> w' = w \<and> adj_Status row \<notin> {''succeeded'', ''rejected'', ''failed''}
     | Some (out, err) \<Rightarrow> out = adjustmentDTO row \<and> adj_Status row \<in> {''succeeded'', ''rejected'', ''failed''} \<and>
         map_option error_code err = (if adj_Status row = ''failed'' then Some (error_code (adjustmentExecutionError (ad_FailureCode out))) else None) \<and>
         (\<exists>now. aw_claims w' = update_where (\<lambda>r. rec_key r = (''admin'', adminID, path, KeyHash (ae_sha A) key))
            (claim_succeed now (ae_marshal A out)) (aw_claims w))" by blast+
qed

lemma transaction_parts:
  assumes "adjustment_transaction A adminID customerID unit verb path key req w = (Inr (out, err), w')"
  obtains (first) w1 row w2 where "idem_Start A adminID verb path key req w = (Inr True, w1)"
      "new_adjustment A adminID customerID unit key req w1 = (Inr row, w2)" "execute_adjustment A adminID path key row w2 = (Inr (out, err), w')"
  | (resumed) w1 row w2 where "idem_Start A adminID verb path key req w = (Inr False, w1)"
      "adjustment_replay A adminID path key w1 = (Inr (row, None), w2)" "execute_adjustment A adminID path key row w2 = (Inr (out, err), w')"
  | (replayed) w1 row where "idem_Start A adminID verb path key req w = (Inr False, w1)"
      "adjustment_replay A adminID path key w1 = (Inr (row, Some (out, err)), w')"
proof -
  from assms obtain started w1 where start: "idem_Start A adminID verb path key req w = (Inr started, w1)"
    and rest: "(if started then go_bind (new_adjustment A adminID customerID unit key req) (execute_adjustment A adminID path key)
       else go_bind (adjustment_replay A adminID path key) (\<lambda>(row, answer).
         case answer of Some result \<Rightarrow> go_ok result | None \<Rightarrow> execute_adjustment A adminID path key row)) w1 = (Inr (out, err), w')"
    unfolding adjustment_transaction_def
    by (auto simp: activeAdminHasPermission_def elim!: go_bindE split: if_splits sum.splits)
  show thesis
  proof (cases started)
    case True
    then show thesis using start rest first by (auto elim!: go_bindE)
  next
    case False
    with rest obtain row answer w2 where rep: "adjustment_replay A adminID path key w1 = (Inr (row, answer), w2)"
      and go: "(case answer of Some result \<Rightarrow> go_ok result | None \<Rightarrow> execute_adjustment A adminID path key row) w2 = (Inr (out, err), w')"
      by (auto elim!: go_bindE)
    show thesis using False start rep go resumed replayed by (cases answer) auto
  qed
qed

end

context adjustment_store
begin

lemma transaction_settled:
  assumes run: "adjustment_transaction A adminID customerID unit verb path key req w = (Inr (out, err), w')" and ok: "member_ok (aw_member w)"
    and dist: "distinct (map adj_ID (adjustments w))" and wf: "claims_wf (aw_claims w)"
  shows "settled A adminID path key out err w'"
  using run
proof (cases rule: transaction_parts)
  case (first w1 row w2)
  note s = idem_Start_done [OF first(1) wf] and n = new_adjustment_done [OF first(2)]
  have "member_ok (aw_member w2)" by (rule member_core [OF ok]) (simp add: s n)
  moreover have "distinct (map adj_ID (adjustments w2))" using dist n(4) by (auto simp: n(3) s(2))
  moreover have "\<forall>a\<in>set (adjustments w2). adj_ID a = adj_ID row \<longrightarrow> adj_CreatedBy a = adminID" using n(3-5) by auto
  ultimately show ?thesis using execute_settled [OF first(3)] s(3,4) n(2) by simp
next
  case (resumed w1 row w2)
  note s = idem_Start_done [OF resumed(1) wf] and r = replay_done [OF resumed(2)]
  have w2: "w2 = w1" using r(5) by simp
  have "member_ok (aw_member w2)" by (rule member_core [OF ok]) (simp add: s w2)
  moreover have "\<forall>a\<in>set (adjustments w2). adj_ID a = adj_ID row \<longrightarrow> adj_CreatedBy a = adminID"
    using r(3,4) dist s(2) w2 by (auto dest: distinct_key_unique)
  ultimately show ?thesis using execute_settled [OF resumed(3)] s(2,3,4) dist w2 by simp
next
  case (replayed w1 row)
  note s = idem_Start_done [OF replayed(1) wf] and r = replay_done [OF replayed(2)]
  from r(5) obtain now where a: "out = adjustmentDTO row" "adj_Status row \<in> {''succeeded'', ''rejected'', ''failed''}"
    "map_option error_code err = (if adj_Status row = ''failed'' then Some (error_code (adjustmentExecutionError (ad_FailureCode out))) else None)"
    "aw_claims w' = update_where (\<lambda>r. rec_key r = (''admin'', adminID, path, KeyHash (ae_sha A) key)) (claim_succeed now (ae_marshal A out)) (aw_claims w1)"
    by auto
  show ?thesis
    unfolding settled_def using r(2,3,4) a(1-3) dist s(2) succeeded_claims [OF s(3,4) a(4)] by auto
qed

lemma settled_start:
  assumes set: "settled A adminID path key out err w" and drawn: "next_id (aw_member w) = (Inr i, m)" "i \<notin> rec_ID ` set (aw_claims w)"
    and run: "idem_Start A adminID verb path key req w = (Inr b, w1)"
  shows "\<not> b" "aw_claims w1 = aw_claims w"
proof -
  let ?k = "(''admin'', adminID, path, KeyHash (ae_sha A) key)"
  from set obtain r where wf: "claims_wf (aw_claims w)" and r: "r \<in> set (aw_claims w)" "rec_key r = ?k" "rec_Status r = ''succeeded''"
    unfolding settled_def by blast
  from run drawn(1) obtain at h rows where start: "StartAt (ae_sha A) (claimE A) i ''admin'' adminID verb path key h at (aw_claims w) = (Inr b, rows)"
    and w1: "w1 = w\<lparr>aw_member := m, aw_claims := rows\<rparr>"
    by (auto simp: idem_Start_def on_member_inv asset_clock_inv on_claims_def Start_def elim!: go_bindE split: prod.splits)
  have "start_spec i ?k verb h at (aw_claims w) = (Inr b, rows)" using clm.StartAt_ok [OF wf drawn(2) start] by simp
  then have "\<not> b \<and> rows = aw_claims w" using find_key [OF wf r(1,2)] r(3) by (auto simp: start_spec_def split: if_splits)
  then show "\<not> b" "aw_claims w1 = aw_claims w" by (simp_all add: w1)
qed

lemma settled_again:
  assumes set: "settled A adminID path key out err w" and drawn: "next_id (aw_member w) = (Inr i, m)" "i \<notin> rec_ID ` set (aw_claims w)"
    and codec: "ae_marshal A out \<noteq> []" "ae_unmarshal A (ae_marshal A out) = Inr out"
    and run: "adjustment_transaction A adminID customerID unit verb path key req w = (Inr (out', err'), w')"
  shows "core (aw_member w') = core (aw_member w)" "adjustments w' = adjustments w" "out' = out" "map_option error_code err' = map_option error_code err"
proof -
  let ?k = "(''admin'', adminID, path, KeyHash (ae_sha A) key)"
  from set obtain b r where wf: "claims_wf (aw_claims w)" "distinct (map adj_ID (adjustments w))"
    and b: "b \<in> set (adjustments w)" "out = adjustmentDTO b" "adj_Status b \<in> {''succeeded'', ''rejected'', ''failed''}"
      "map_option error_code err = (if adj_Status b = ''failed'' then Some (error_code (adjustmentExecutionError (ad_FailureCode out))) else None)"
    and r: "r \<in> set (aw_claims w)" "rec_key r = ?k" "rec_Status r = ''succeeded''" "rec_ResponseBody r = ae_marshal A out"
    unfolding settled_def by blast
  have cached: "out0 = out"
    if "CachedResponse (ae_sha A) (ae_unmarshal A) (claimE A) ''admin'' adminID path key (aw_claims w) = Inr (Some out0)" for out0
  proof -
    from that obtain r' where sel: "sql_take (claimE A) (\<lambda>r. rec_key r = ?k \<and> rec_Status r = ''succeeded'') (aw_claims w) = Inr r'"
      and out0: "ae_unmarshal A (rec_ResponseBody r') = Inr out0"
      by (auto simp: CachedResponse_def split: sum.splits if_splits)
    have "r' = r" using clm.take_row [OF sel] wf(1) r by (auto simp: claims_wf_def dest: distinct_key_unique)
    then show ?thesis using out0 r(4) codec(2) by simp
  qed
  have found: "row = b" if w1: "aw_claims w1 = aw_claims w" "adjustments w1 = adjustments w"
    and rep: "adjustment_replay A adminID path key w1 = (Inr (row, answer), w2)" for row answer w1 w2
  proof -
    from replay_done(6) [OF rep] w1(1) cached have "parseID (ad_ID out) = Inr (adj_ID row)" by auto
    then have "adj_ID row = adj_ID b" using parseID_id by (simp add: b(2) adjustmentDTO_def)
    then show ?thesis using replay_done(3) [OF rep] w1(2) b(1) wf(2) by (auto dest: distinct_key_unique)
  qed
  have "core (aw_member w') = core (aw_member w) \<and> adjustments w' = adjustments w \<and> out' = out \<and> map_option error_code err' = map_option error_code err"
    using run
  proof (cases rule: transaction_parts)
    case (first w1 row w2)
    then show ?thesis using settled_start(1) [OF set drawn first(1)] by simp
  next
    case (resumed w1 row w2)
    have "row = b" by (rule found [OF settled_start(2) [OF set drawn resumed(1)] idem_Start_done(2) [OF resumed(1) wf(1)] resumed(2)])
    then show ?thesis using replay_done(5) [OF resumed(2)] b(3) by simp
  next
    case (replayed w1 row)
    note s = idem_Start_done [OF replayed(1) wf(1)] and rep = replay_done [OF replayed(2)]
    have "row = b" by (rule found [OF settled_start(2) [OF set drawn replayed(1)] s(2) replayed(2)])
    then show ?thesis using rep(1,2,5) s(1,2) b(2,4) by simp
  qed
  then show "core (aw_member w') = core (aw_member w)" "adjustments w' = adjustments w" "out' = out"
    "map_option error_code err' = map_option error_code err" by blast+
qed

end

lemma posting_of_base: "core m2 = core m \<Longrightarrow> ledger_ok m \<Longrightarrow> posting_of c d m2 m' t \<Longrightarrow> posting_of c d m m' t"
  using holding_core [of m m2] by (auto simp: posting_of_def core_iff split: if_splits)

lemma CreateAdjustment_parts:
  assumes "CreateAdjustment A claims verb path key req w = (res, w')" and "adminIDWithPermission claims ''asset_adjustment:create'' = Inr adminID"
  obtains (refused) e where "res = Inl e" "core (aw_member w') = core (aw_member w)" "adjustments w' = adjustments w"
  | (accepted) customerID unit out err where "res = Inr (out, err)" "parseID (ac_CustomerID req) = Inr customerID"
      "UnitFor (ac_AssetType req) = Inr unit" "ac_Direction req \<in> {''credit'', ''debit''}"
      "0 < sint (ac_Amount req)" "sint (ac_Amount req) \<le> adjustment_limit (ac_AssetType req)"
      "adjustment_transaction A adminID customerID unit verb path key req w = (Inr (out, err), w')"
proof (cases res)
  case (Inl e)
  have "core (aw_member w') = core (aw_member w) \<and> adjustments w' = adjustments w"
    using assms Inl
    by (auto simp: CreateAdjustment_def restore_asset_def restore_member_def core_iff split: sum.splits if_splits dest!: gorm_transaction_error)
  then show thesis using Inl refused by blast
next
  case (Inr a)
  then show thesis using assms accepted
    by (cases a) (auto simp: CreateAdjustment_def gorm_transaction_success not_le split: sum.splits if_splits)
qed

subsection \<open>Properties\<close>

text \<open>C32: The first request with an idempotency key that is answered has recorded one adjustment, within the limit of its asset type. If the
  answer carries no error the adjustment has succeeded and names the transaction that moved exactly its amount in its direction; if it carries
  one, the adjustment has failed with that code, which is one of the final ones, and the ledger is as before.\<close>

theorem adjustment_exact:
  assumes "adjustment_store A account_fits balance_fits hold_fits hold_lot_fits adjustment_fits" and "member_ok (aw_member w)"
    and "distinct (map adj_ID (adjustments w))" and "claims_wf (aw_claims w)"
    and "adminIDWithPermission claims ''asset_adjustment:create'' = Inr adminID"
    and "\<And>r. r \<in> set (aw_claims w) \<Longrightarrow> rec_key r \<noteq> (''admin'', adminID, path, KeyHash (ae_sha A) key)"
    and "CreateAdjustment A claims verb path key req w = (Inr (out, err), w')"
  shows "\<exists>b\<in>set (adjustments w'). out = adjustmentDTO b \<and> adj_CreatedBy b = adminID \<and> (\<forall>a\<in>set (adjustments w). adj_ID a \<noteq> adj_ID b) \<and>
    0 < sint (ac_Amount req) \<and> sint (ac_Amount req) \<le> adjustment_limit (ac_AssetType req) \<and>
    (case err of
       None \<Rightarrow> adj_Status b = ''succeeded'' \<and> (\<exists>t c. adj_AssetTransactionID b = Some (atx_ID t) \<and>
         parseID (ac_CustomerID req) = Inr (cm_CustomerID c) \<and>
         cm_AssetType c = ac_AssetType req \<and> UnitFor (ac_AssetType req) = Inr (cm_Unit c) \<and> cm_Amount c = ac_Amount req \<and> cm_SourceType c = ''manual_adjustment'' \<and>
         cm_SourceID c = idString (adj_ID b) \<and> cm_Action c = ac_Direction req \<and>
         posting_of c (if ac_Direction req = ''debit'' then - 1 else 1) (aw_member w) (aw_member w') t)
     | Some e \<Rightarrow> adj_Status b = ''failed'' \<and> adj_FailureCode b = Some (error_code e) \<and> isTerminalAdjustmentFailure (error_code e) \<and>
         core (aw_member w') = core (aw_member w))"
proof -
  note store = assms(1)
  obtain customerID unit where req: "parseID (ac_CustomerID req) = Inr customerID" "ac_Direction req \<in> {''credit'', ''debit''}"
    "0 < sint (ac_Amount req)" "sint (ac_Amount req) \<le> adjustment_limit (ac_AssetType req)" "UnitFor (ac_AssetType req) = Inr unit"
    and run: "adjustment_transaction A adminID customerID unit verb path key req w = (Inr (out, err), w')"
    using assms(7,5) by (cases rule: CreateAdjustment_parts) auto
  from run obtain w1 row w2 where start: "idem_Start A adminID verb path key req w = (Inr True, w1)"
    and new: "new_adjustment A adminID customerID unit key req w1 = (Inr row, w2)"
    and exe: "execute_adjustment A adminID path key row w2 = (Inr (out, err), w')"
    using assms(6) adjustment_store.idem_Start_done(5) [OF store _ assms(4)]
    by (cases rule: adjustment_store.transaction_parts [OF store]) blast+
  note s = adjustment_store.idem_Start_done [OF store start assms(4)] and n = adjustment_store.new_adjustment_done [OF store new]
  have core: "core (aw_member w2) = core (aw_member w)" using s(1) n(1) by simp
  have ok: "member_ok (aw_member w2)" by (rule member_core [OF assms(2) core])
  have dist: "distinct (map adj_ID (adjustments w2))" using assms(3) n(4) by (auto simp: n(3) s(2))
  have creator: "\<forall>a\<in>set (adjustments w2). adj_ID a = adj_ID row \<longrightarrow> adj_CreatedBy a = adminID" using n(3-5) by auto
  obtain b now where b: "b \<in> set (adjustments w')" "adj_ID b = adj_ID row" "out = adjustmentDTO b" "adj_CreatedBy b = adminID"
    "map adj_ID (adjustments w') = map adj_ID (adjustments w2)"
    "aw_claims w' = update_where (\<lambda>r. rec_key r = (''admin'', adminID, path, KeyHash (ae_sha A) key)) (claim_succeed now (ae_marshal A out)) (aw_claims w2)"
    "case err of None \<Rightarrow> adj_Status b = ''succeeded'' \<and> (\<exists>t. adj_AssetTransactionID b = Some (atx_ID t) \<and>
         posting_of (adjustment_command adminID key row) (adjustment_direction row) (aw_member w2) (aw_member w') t)
     | Some e \<Rightarrow> adj_Status b = ''failed'' \<and> adj_FailureCode b = Some (error_code e) \<and> isTerminalAdjustmentFailure (error_code e) \<and>
         core (aw_member w') = core (aw_member w2)" "member_ok (aw_member w')"
    by (rule adjustment_store.execute_done [OF store exe ok dist creator])
  have "ledger_ok (aw_member w)" using assms(2) by (simp add: member_ok_def)
  note base = posting_of_base [OF core this]
  have new_row: "\<forall>a\<in>set (adjustments w). adj_ID a \<noteq> adj_ID b" using n(4) s(2) b(2) by simp
  show ?thesis
  proof (cases err)
    case None
    with b(7) obtain t where t: "adj_Status b = ''succeeded''" "adj_AssetTransactionID b = Some (atx_ID t)"
      "posting_of (adjustment_command adminID key row) (adjustment_direction row) (aw_member w) (aw_member w') t" using base by auto
    let ?c = "adjustment_command adminID key row"
    have c: "cm_CustomerID ?c = customerID" "cm_Unit ?c = unit" "cm_AssetType ?c = ac_AssetType req" "cm_Amount ?c = ac_Amount req" "cm_SourceType ?c = ''manual_adjustment''"
      "cm_SourceID ?c = idString (adj_ID b)" "cm_Action ?c = ac_Direction req" "adjustment_direction row = (if ac_Direction req = ''debit'' then - 1 else 1)"
      using n(6-10) b(2) req(2) by (auto simp: adjustment_command_def adjustment_direction_def)
    show ?thesis
      using b(1,3,4) new_row req(1,3,4,5) t c None by (intro bexI [of _ b]) (auto intro!: exI [of _ t] exI [of _ ?c])
  next
    case (Some e)
    then show ?thesis using b(1,3,4,7) new_row req(3,4) core by (intro bexI [of _ b]) auto
  qed
qed

text \<open>C33: Repeating a request with the same key after it was answered has no effect: whatever the repetition returns, the ledger and the
  adjustments stay as they are, and if it is answered, then with the same adjustment and an error of the same code.\<close>

theorem adjustment_repeated:
  assumes "adjustment_store A account_fits balance_fits hold_fits hold_lot_fits adjustment_fits" and "member_ok (aw_member w)"
    and "distinct (map adj_ID (adjustments w))" and "claims_wf (aw_claims w)"
    and "CreateAdjustment A claims verb path key req w = (Inr (out, err), w')"
    and "ae_marshal A out \<noteq> []" and "ae_unmarshal A (ae_marshal A out) = Inr out"
    and "next_id (aw_member w') = (Inr i, m)" and "i \<notin> rec_ID ` set (aw_claims w')"
    and "CreateAdjustment A claims verb' path key req' w' = (res, w'')"
  shows "core (aw_member w'') = core (aw_member w') \<and> adjustments w'' = adjustments w' \<and>
    (\<forall>out' err'. res = Inr (out', err') \<longrightarrow> out' = out \<and> map_option error_code err' = map_option error_code err)"
proof -
  note store = assms(1)
  obtain adminID where admin: "adminIDWithPermission claims ''asset_adjustment:create'' = Inr adminID"
    using assms(5) by (auto simp: CreateAdjustment_def split: sum.splits)
  obtain customerID unit where run: "adjustment_transaction A adminID customerID unit verb path key req w = (Inr (out, err), w')"
    using assms(5) admin by (cases rule: CreateAdjustment_parts) auto
  note set = adjustment_store.transaction_settled [OF store run assms(2-4)]
  show ?thesis
    using assms(10) admin
  proof (cases rule: CreateAdjustment_parts)
    case (accepted customerID' unit' out' err')
    from adjustment_store.settled_again [OF store set assms(8,9,6,7) accepted(7)] accepted(1) show ?thesis by simp
  qed auto
qed

subsection \<open>A demonstration\<close>

definition demo_desk :: asset_world where
  "demo_desk = demo_asset
     \<lparr>admin_users := [\<lparr>au_ID = 1, au_AccountID = 2, au_RoleID = 3, au_Status = ''active'', au_Deleted = False\<rparr>],
      login_accounts := [\<lparr>la_ID = 2, la_AccountType = ''admin'', la_Status = ''active'', la_Deleted = False\<rparr>],
      admin_roles := [\<lparr>ar_ID = 3, ar_Status = ''active'', ar_Deleted = False\<rparr>],
      role_permissions := [\<lparr>rp_RoleID = 3, rp_PermissionID = 4, rp_Deleted = False\<rparr>],
      permissions := [\<lparr>pm_ID = 4, pm_Code = ''asset_adjustment:create'', pm_Status = ''active'', pm_Deleted = False\<rparr>]\<rparr>"

definition demo_request_debit :: AdjustmentCreateReq where
  "demo_request_debit = \<lparr>ac_CustomerID = ''7'', ac_AssetType = ''balance'', ac_Direction = ''debit'', ac_Amount = 200,
     ac_ReasonCode = ''refund'', ac_Reason = ''wrong order'', ac_EvidenceRefs = None\<rparr>"

lemmas adjust_eval = mem_asset_def demo_desk_def demo_asset_def demo_admin_def demo_request_debit_def CreateAdjustment_def adjustment_limit_def
  adjustment_transaction_def activeAdminHasPermission_def admin_granted_def idem_Start_def on_member_def on_claims_def asset_clock_def
  Start_def StartAt_def KeyHash_def RequestHash_def claim_candidate_def claim_reclaimable_def claim_take_def existingClaimResult_def
  rec_key_def rec_clash_def rec_fits_def nanos_per_second_def new_adjustment_def record_audit_def adjustmentAudit_def adjustment_after_def put_fields_def
  before_status_def json_strings_def valueOrEmpty_def TrimSpace_def trim_by_def is_space_def execute_adjustment_def start_executing_def
  post_adjustment_def mark_adjustment_def adjustment_command_def adjustment_direction_def inside_def idem_Succeed_def Succeed_def claim_succeed_def
  adjustmentDTO_def adjustment_t_def adjustment_clash_def adminIDWithPermission_def parseID_def ParseUint_def is_digit_def digits_value_def

lemma demo_adjustment:
  "\<exists>out w'. (\<forall>u. CreateAdjustment (mem_asset\<lparr>ae_unmarshal := u\<rparr>) (Some demo_admin) ''POST'' ''/adjustments'' ''key-0009'' demo_request_debit demo_desk =
       (Inr (out, None), w')) \<and> ad_ID out \<noteq> [] \<and> (\<exists>i m. next_id (aw_member w') = (Inr i, m) \<and> i \<notin> rec_ID ` set (aw_claims w'))"
  by (simp add: adjust_eval member_eval demo_defs cong: run_congs)

interpretation mem_adjust: adjustment_store "mem_asset\<lparr>ae_unmarshal := u\<rparr>" "\<lambda>_. True" "\<lambda>_. True" "\<lambda>_. True" "\<lambda>_. True" "\<lambda>_. True"
  for u :: "string \<Rightarrow> go_error + AdjustmentDTO"
  using demo_store mem_claims.claim_table_axioms
  by (simp add: adjustment_store_def mem_asset_def mem_table.gorm_table_axioms)

lemma demo_desk_ok: "member_ok (aw_member demo_desk)" "distinct (map adj_ID (adjustments demo_desk))" "claims_wf (aw_claims demo_desk)"
  using demo_ledger_ok by (simp_all add: demo_desk_def demo_asset_def claims_wf_def)

lemma demo_admin_id: "adminIDWithPermission (Some demo_admin) ''asset_adjustment:create'' = Inr 1"
  by (simp add: adminIDWithPermission_def demo_admin_def parseID_def ParseUint_def is_digit_def digits_value_def)

theorem adjustment_exact_witness:
  "\<exists>out w'. CreateAdjustment mem_asset (Some demo_admin) ''POST'' ''/adjustments'' ''key-0009'' demo_request_debit demo_desk = (Inr (out, None), w') \<and>
     holding (aw_member w') (available_of 7 ''balance'' ''CNY_MINOR'') = 300 \<and> (\<exists>b\<in>set (adjustments w'). adj_Status b = ''succeeded'')"
proof -
  have same: "mem_asset\<lparr>ae_unmarshal := ae_unmarshal mem_asset\<rparr> = mem_asset" by simp
  from demo_adjustment obtain out w' where
    run: "CreateAdjustment mem_asset (Some demo_admin) ''POST'' ''/adjustments'' ''key-0009'' demo_request_debit demo_desk = (Inr (out, None), w')"
    using same by metis
  have "adjustment_store mem_asset (\<lambda>_. True) (\<lambda>_. True) (\<lambda>_. True) (\<lambda>_. True) (\<lambda>_. True)"
    using mem_adjust.adjustment_store_axioms [of "ae_unmarshal mem_asset"] same by simp
  from adjustment_exact [OF this demo_desk_ok demo_admin_id _ run] obtain b t c where b: "b \<in> set (adjustments w')" "adj_Status b = ''succeeded''"
    and c: "parseID (ac_CustomerID demo_request_debit) = Inr (cm_CustomerID c)" "cm_AssetType c = ac_AssetType demo_request_debit"
      "UnitFor (ac_AssetType demo_request_debit) = Inr (cm_Unit c)" "cm_Amount c = ac_Amount demo_request_debit" "cm_Action c = ac_Direction demo_request_debit"
      "posting_of c (if ac_Direction demo_request_debit = ''debit'' then - 1 else 1) (aw_member demo_desk) (aw_member w') t"
    by (auto simp: demo_desk_def demo_asset_def)
  have "cm_CustomerID c = 7" "cm_AssetType c = ''balance''" "cm_Unit c = ''CNY_MINOR''" "cm_Amount c = 200" "cm_Action c = ''debit''"
    using c(1-5) by (simp_all add: demo_request_debit_def parseID_def ParseUint_def is_digit_def digits_value_def UnitFor_def
        TypeGrowth_def TypeWineCoin_def TypeBalance_def UnitCNY_def)
  moreover have "holding demo_ledger (available_of 7 ''balance'' ''CNY_MINOR'') = 500"
    by (simp add: holding_def owned_by_def demo_ledger_def owner_key_def)
  ultimately have "holding (aw_member w') (available_of 7 ''balance'' ''CNY_MINOR'') = 300"
    using c(6) by (auto simp: posting_of_def demo_request_debit_def demo_desk_def demo_asset_def demo_ledger_def by_source_def transferred_def)
  then show ?thesis using run b by blast
qed

theorem adjustment_repeated_witness:
  "\<exists>A out w' res w''. CreateAdjustment A (Some demo_admin) ''POST'' ''/adjustments'' ''key-0009'' demo_request_debit demo_desk = (Inr (out, None), w') \<and>
     CreateAdjustment A (Some demo_admin) ''POST'' ''/adjustments'' ''key-0009'' demo_request_debit w' = (res, w'') \<and>
     core (aw_member w'') = core (aw_member w')"
proof -
  from demo_adjustment obtain out w' i m where
    run: "CreateAdjustment (mem_asset\<lparr>ae_unmarshal := \<lambda>_. Inr out\<rparr>) (Some demo_admin) ''POST'' ''/adjustments'' ''key-0009'' demo_request_debit demo_desk = (Inr (out, None), w')"
    and out: "ad_ID out \<noteq> []" and i: "next_id (aw_member w') = (Inr i, m)" "i \<notin> rec_ID ` set (aw_claims w')" by blast
  let ?A = "mem_asset\<lparr>ae_unmarshal := \<lambda>_. Inr out\<rparr>"
  obtain res w'' where again: "CreateAdjustment ?A (Some demo_admin) ''POST'' ''/adjustments'' ''key-0009'' demo_request_debit w' = (res, w'')" by fastforce
  have "core (aw_member w'') = core (aw_member w')"
    using adjustment_repeated [OF mem_adjust.adjustment_store_axioms demo_desk_ok run _ _ i again] out by (simp add: mem_asset_def)
  then show ?thesis using run again by blast
qed

end
